(* ===== verification/Axium_Prelude.thy ===== *)
theory Axium_Prelude
  imports Main "HOL-Library.Word"
begin

text \<open>
  Shared vocabulary of the development: the server's fixed-width integer types, the result
  type of operations that can throw or abort, and the standard containers as the sources use
  them.  A \<^verbatim>\<open>std::map\<close> is an association list kept in increasing key order, because the
  server iterates over its maps and picks \<^verbatim>\<open>begin()\<close>; the laws its clients rely on form the
  locale \<open>std_map\<close>, which is interpreted on the list operations below.
\<close>

unbundle bit_operations_syntax

section \<open>Machine integers\<close>

type_synonym u8 = "8 word"
type_synonym u16 = "16 word"
type_synonym u32 = "32 word"
type_synonym u64 = "64 word"

text \<open>
  A signed C++ integer is an \<^typ>\<open>int\<close> that lies in the range of its type; \<open>i32\<close> and \<open>i64\<close>
  are the conversions to \<^verbatim>\<open>int32\<close> and \<^verbatim>\<open>int64\<close> (two's complement, modulo the width).
\<close>

definition i32 :: "int \<Rightarrow> int" where
  "i32 x = (x + 2 ^ 31) mod 2 ^ 32 - 2 ^ 31"

definition i64 :: "int \<Rightarrow> int" where
  "i64 x = (x + 2 ^ 63) mod 2 ^ 64 - 2 ^ 63"

text \<open>Addition of \<^verbatim>\<open>size_t\<close> values (64-bit builds), which wraps around.\<close>

definition szadd :: "nat \<Rightarrow> nat \<Rightarrow> nat" where
  "szadd a b = (a + b) mod 2 ^ 64"

section \<open>Results of operations that can fail\<close>

fun res_bind :: "'e + 'a \<Rightarrow> ('a \<Rightarrow> 'e + 'b) \<Rightarrow> 'e + 'b" where
  "res_bind (Inl e) f = Inl e"
| "res_bind (Inr x) f = f x"

fun res_fold :: "('a \<Rightarrow> 's \<Rightarrow> 'e + 's) \<Rightarrow> 'a list \<Rightarrow> 's \<Rightarrow> 'e + 's" where
  "res_fold f [] s = Inr s"
| "res_fold f (x # xs) s = res_bind (f x s) (res_fold f xs)"

section \<open>Ordered maps\<close>

type_synonym ('k, 'v) omap = "('k \<times> 'v) list"

abbreviation omap_find :: "('k, 'v) omap \<Rightarrow> 'k \<Rightarrow> 'v option" where
  "omap_find \<equiv> map_of"

fun omap_set :: "'k::linorder \<Rightarrow> 'v \<Rightarrow> ('k, 'v) omap \<Rightarrow> ('k, 'v) omap" where
  "omap_set k v [] = [(k, v)]"
| "omap_set k v ((k', v') # m) =
     (if k < k' then (k, v) # (k', v') # m
      else if k = k' then (k, v) # m
      else (k', v') # omap_set k v m)"

definition omap_erase :: "'k \<Rightarrow> ('k, 'v) omap \<Rightarrow> ('k, 'v) omap" where
  "omap_erase k m = filter (\<lambda>e. fst e \<noteq> k) m"

text \<open>The keys strictly increase: what every \<^verbatim>\<open>std::map\<close> guarantees.\<close>

definition omap_ok :: "('k::linorder, 'v) omap \<Rightarrow> bool" where
  "omap_ok m = sorted_wrt (<) (map fst m)"

text \<open>
  \<^verbatim>\<open>m[k]\<close> creates the entry with a value-initialised element when the key is absent.
  \<open>omap_at d m k\<close> is the element read, \<open>omap_upd d f k m\<close> the map after \<^verbatim>\<open>m[k]\<close> has been
  changed by \<open>f\<close>; \<open>d\<close> is the value-initialised element.
\<close>

definition omap_at :: "'v \<Rightarrow> ('k, 'v) omap \<Rightarrow> 'k \<Rightarrow> 'v" where
  "omap_at d m k = (case omap_find m k of None \<Rightarrow> d | Some v \<Rightarrow> v)"

definition omap_upd :: "'v \<Rightarrow> ('v \<Rightarrow> 'v) \<Rightarrow> 'k::linorder \<Rightarrow> ('k, 'v) omap \<Rightarrow> ('k, 'v) omap" where
  "omap_upd d f k m = omap_set k (f (omap_at d m k)) m"

text \<open>
  An iterator is the key of the element it points to, \<open>None\<close> being \<^verbatim>\<open>end()\<close>.  Erasing an element invalidates the iterators
  to it, so advancing one whose key is gone has no result.
\<close>

definition omap_begin :: "('k, 'v) omap \<Rightarrow> 'k option" where
  "omap_begin m = (case m of [] \<Rightarrow> None | e # es \<Rightarrow> Some (fst e))"

definition omap_next :: "'k::linorder \<Rightarrow> ('k, 'v) omap \<Rightarrow> 'k option option" where
  "omap_next k m = (if k \<in> fst ` set m then Some (omap_begin (filter (\<lambda>e. k < fst e) m)) else None)"

section \<open>Lemmas\<close>

named_theorems bb_defs \<open>definitions of the byte buffer's operations\<close>
named_theorems flag_simps \<open>reading a flag of a bit mask after it was set or cleared\<close>

lemma i32_bounds: "- (2 ^ 31) \<le> i32 x" "i32 x < 2 ^ 31"
  by (simp_all add: i32_def)

lemma i32_id: "- (2 ^ 31) \<le> x \<Longrightarrow> x < 2 ^ 31 \<Longrightarrow> i32 x = x"
  by (simp add: i32_def)

lemma i64_id: "- (2 ^ 63) \<le> x \<Longrightarrow> x < 2 ^ 63 \<Longrightarrow> i64 x = x"
  by (simp add: i64_def)

lemma i32_mod_eq: "i32 (x + 2 ^ 32 * k) = i32 x"
proof -
  have "(x + 2 ^ 32 * k + 2 ^ 31) mod 2 ^ 32 = (x + 2 ^ 31 + 2 ^ 32 * k) mod 2 ^ 32"
    by (simp add: ac_simps)
  also have "\<dots> = (x + 2 ^ 31) mod 2 ^ 32"
    by (rule mod_mult_self2)
  finally show ?thesis by (simp add: i32_def)
qed

lemma szadd_small: "a + b < 2 ^ 64 \<Longrightarrow> szadd a b = a + b"
  by (simp add: szadd_def)

lemma res_bind_Inr_iff: "res_bind r f = Inr y \<longleftrightarrow> (\<exists>x. r = Inr x \<and> f x = Inr y)"
  by (cases r) auto

lemma res_bind_assoc: "res_bind (res_bind r f) g = res_bind r (\<lambda>x. res_bind (f x) g)"
  by (cases r) auto

lemma res_fold_append: "res_fold f (xs @ ys) s = res_bind (res_fold f xs s) (res_fold f ys)"
proof (induction xs arbitrary: s)
  case (Cons x xs)
  then have "res_fold f (xs @ ys) = (\<lambda>t. res_bind (res_fold f xs t) (res_fold f ys))" by auto
  then show ?case by (simp add: res_bind_assoc)
qed simp

subsection \<open>The ordered map\<close>

lemma omap_find_set: "omap_find (omap_set k v m) k' = (if k' = k then Some v else omap_find m k')"
  by (induction k v m rule: omap_set.induct) auto

lemma omap_find_erase: "omap_find (omap_erase k m) k' = (if k' = k then None else omap_find m k')"
  by (induction m) (auto simp: omap_erase_def)

lemma omap_keys_set: "fst ` set (omap_set k v m) = insert k (fst ` set m)"
  by (induction k v m rule: omap_set.induct) auto

lemma omap_ok_set: "omap_ok m \<Longrightarrow> omap_ok (omap_set k v m)"
proof (induction k v m rule: omap_set.induct)
  case (1 k v)
  then show ?case by (simp add: omap_ok_def)
next
  case (2 k v k' v' m)
  then have tail: "omap_ok m" and below: "\<forall>x \<in> fst ` set m. k' < x"
    by (auto simp: omap_ok_def)
  show ?case
  proof (cases "k' < k")
    case True
    with 2 tail have "omap_ok (omap_set k v m)" by auto
    moreover have "\<forall>x \<in> fst ` set (omap_set k v m). k' < x"
      using below True by (simp only: omap_keys_set) auto
    ultimately show ?thesis using True by (auto simp: omap_ok_def)
  next
    case False
    with 2 below show ?thesis by (auto simp: omap_ok_def)
  qed
qed

lemma omap_ok_erase: "omap_ok m \<Longrightarrow> omap_ok (omap_erase k m)"
  by (induction m) (auto simp: omap_ok_def omap_erase_def)

lemma omap_ok_Nil [simp]: "omap_ok []"
  by (simp add: omap_ok_def)

lemma omap_ok_distinct: "omap_ok m \<Longrightarrow> distinct (map fst m)"
  by (simp add: omap_ok_def strict_sorted_iff)

lemma omap_find_iff: "omap_ok m \<Longrightarrow> omap_find m k = Some v \<longleftrightarrow> (k, v) \<in> set m"
  by (simp add: omap_ok_distinct)

lemma omap_find_None_iff: "omap_find m k = None \<longleftrightarrow> k \<notin> fst ` set m"
  by (simp add: map_of_eq_None_iff)

lemma omap_next_greater: "omap_next k m = Some (Some k') \<Longrightarrow> k < k'"
  by (auto simp: omap_next_def omap_begin_def filter_eq_Cons_iff split: if_splits list.splits)

lemma omap_next_erased: "omap_next k (omap_erase k m) = None"
  by (auto simp: omap_next_def omap_erase_def)

lemma omap_length_set:
  "omap_ok m \<Longrightarrow>
   length (omap_set k v m) = (case omap_find m k of None \<Rightarrow> Suc (length m) | Some _ \<Rightarrow> length m)"
proof (induction k v m rule: omap_set.induct)
  case (2 k v k' v' m)
  have "omap_find m k = None" if "k < k'"
    using 2(2) that by (force simp: omap_ok_def map_of_eq_None_iff)
  with 2 show ?case by (auto simp: omap_ok_def split: option.splits)
qed simp

lemma omap_set_not_Nil [simp]: "omap_set k v m \<noteq> []"
  by (cases m) (auto split: if_splits)

text \<open>Counting the entries with a property, before and after a store or an erase.\<close>

lemma omap_erase_Cons:
  "omap_erase k (e # m) = (if fst e = k then omap_erase k m else e # omap_erase k m)"
  by (simp add: omap_erase_def)

lemma filter_erase_le: "length (filter P (omap_erase k m)) \<le> length (filter P m)"
  by (induction m) (auto simp: omap_erase_def)

lemma filter_set_count:
  "omap_ok m \<Longrightarrow>
   length (filter P (omap_set k v m)) = length (filter P (omap_erase k m)) + (if P (k, v) then 1 else 0)"
proof (induction k v m rule: omap_set.induct)
  case (2 k v k' v' m)
  have "omap_erase k m = m" if "k \<le> k'"
    using 2(2) that unfolding omap_erase_def omap_ok_def by (intro filter_True) force
  with 2 show ?case by (auto simp: omap_ok_def omap_erase_Cons)
qed (simp add: omap_erase_def)

lemma filter_erase_hit:
  "omap_ok m \<Longrightarrow> omap_find m k = Some v \<Longrightarrow> P (k, v) \<Longrightarrow>
   length (filter P m) = Suc (length (filter P (omap_erase k m)))"
proof (induction m)
  case (Cons e m)
  then have "omap_ok m" and gt: "\<forall>x \<in> fst ` set m. fst e < x" by (auto simp: omap_ok_def)
  show ?case
  proof (cases "fst e = k")
    case True
    with gt have "omap_erase k m = m" unfolding omap_erase_def by (intro filter_True) force
    with True Cons.prems show ?thesis by (cases e) (auto simp: omap_erase_def)
  next
    case False
    with Cons \<open>omap_ok m\<close> show ?thesis by (cases e) (auto simp: omap_erase_def)
  qed
qed simp

lemma filter_erase_miss:
  "omap_ok m \<Longrightarrow> omap_find m k = Some v \<Longrightarrow> \<not> P (k, v) \<Longrightarrow> filter P (omap_erase k m) = filter P m"
  unfolding omap_erase_def filter_filter
  by (rule filter_cong) (auto dest: omap_ok_distinct eq_key_imp_eq_value)

lemma omap_set_subset: "set (omap_set k v m) \<subseteq> insert (k, v) (set m)"
  by (induction k v m rule: omap_set.induct) auto

lemma omap_erase_set: "omap_erase k (omap_set k v m) = omap_erase k m"
  by (induction k v m rule: omap_set.induct) (auto simp: omap_erase_def)

text \<open>
  Counters: the number of entries of a map with a property, as the machine word that counts them.
\<close>

definition tally :: "('v \<Rightarrow> bool) \<Rightarrow> ('k, 'v) omap \<Rightarrow> 'w::len word" where
  "tally P xs = of_nat (length (filter (\<lambda>e. P (snd e)) xs))"

abbreviation bit_of :: "bool \<Rightarrow> 'w::len word" where
  "bit_of b \<equiv> (if b then 1 else 0)"

lemma tally_set_hit:
  "omap_ok xs \<Longrightarrow> omap_find xs k = Some v \<Longrightarrow> tally P (omap_set k v' xs) = tally P xs - bit_of (P v) + bit_of (P v')"
  using filter_set_count [of xs "\<lambda>e. P (snd e)" k v'] filter_erase_hit [of xs k v "\<lambda>e. P (snd e)"]
    filter_erase_miss [of xs k v "\<lambda>e. P (snd e)"]
  by (cases "P v") (simp_all add: tally_def)

lemma tally_set_new:
  assumes "omap_ok xs" and "omap_find xs k = None"
  shows "tally P (omap_set k v xs) = tally P xs + bit_of (P v)"
proof -
  have "omap_erase k xs = xs"
    using assms(2) unfolding omap_erase_def map_of_eq_None_iff by (intro filter_True) force
  then show ?thesis
    using filter_set_count [OF assms(1), of "\<lambda>e. P (snd e)" k v] by (simp add: tally_def)
qed

lemma tally_erase:
  "omap_ok xs \<Longrightarrow> omap_find xs k = Some v \<Longrightarrow> tally P (omap_erase k xs) = tally P xs - bit_of (P v)"
  using filter_erase_hit [of xs k v "\<lambda>e. P (snd e)"] filter_erase_miss [of xs k v "\<lambda>e. P (snd e)"]
  by (cases "P v") (simp_all add: tally_def)

lemma tally_map:
  "(\<And>v. P (g v) = P v) \<Longrightarrow> tally P (map (\<lambda>(k, v). (k, g v)) xs) = tally P xs"
proof (induction xs)
  case (Cons e xs)
  then show ?case by (cases e) (simp add: tally_def)
qed (simp add: tally_def)

lemma omap_ok_map: "omap_ok (map (\<lambda>(k, v). (k, g v)) xs) = omap_ok xs"
proof -
  have "map fst (map (\<lambda>(k, v). (k, g v)) xs) = map fst xs" by (simp add: case_prod_unfold)
  then show ?thesis by (simp only: omap_ok_def)
qed

text \<open>
  The contract of \<^verbatim>\<open>std::map\<close> that the components use: what a lookup returns after a store or
  an erase, and that the key order is kept.  The consequences the clients need are proved once
  here.
\<close>

locale std_map =
  fixes find :: "'m \<Rightarrow> 'k \<Rightarrow> 'v option"
    and store :: "'k \<Rightarrow> 'v \<Rightarrow> 'm \<Rightarrow> 'm"
    and erase :: "'k \<Rightarrow> 'm \<Rightarrow> 'm"
    and inv :: "'m \<Rightarrow> bool"
  assumes find_store: "find (store k v m) k' = (if k' = k then Some v else find m k')"
    and find_erase: "find (erase k m) k' = (if k' = k then None else find m k')"
    and inv_store: "inv m \<Longrightarrow> inv (store k v m)"
    and inv_erase: "inv m \<Longrightarrow> inv (erase k m)"
begin

lemma dom_store: "dom (find (store k v m)) = insert k (dom (find m))"
  by (auto simp: find_store dom_def)

lemma dom_erase: "dom (find (erase k m)) = dom (find m) - {k}"
  by (auto simp: find_erase dom_def)

lemma find_store_same: "find (store k v m) k = Some v"
  by (simp add: find_store)

lemma erase_frame: "k' \<noteq> k \<Longrightarrow> find (erase k m) k' = find m k'"
  by (simp add: find_erase)

lemma store_frame: "k' \<noteq> k \<Longrightarrow> find (store k v m) k' = find m k'"
  by (simp add: find_store)

end

interpretation om: std_map omap_find omap_set omap_erase omap_ok
  by unfold_locales (simp_all add: omap_find_set omap_find_erase omap_ok_set omap_ok_erase)

lemma omap_find_upd:
  "omap_find (omap_upd d f k m) k' = (if k' = k then Some (f (omap_at d m k)) else omap_find m k')"
  by (simp add: omap_upd_def om.find_store)

lemma omap_at_upd:
  "omap_at d (omap_upd d f k m) k' = (if k' = k then f (omap_at d m k) else omap_at d m k')"
  by (simp add: omap_at_def omap_find_upd)

lemma omap_ok_upd: "omap_ok m \<Longrightarrow> omap_ok (omap_upd d f k m)"
  by (simp add: omap_upd_def om.inv_store)

lemma omap_at_Some: "omap_find m k = Some v \<Longrightarrow> omap_at d m k = v"
  by (simp add: omap_at_def)

lemmas omap_laws = omap_find_set omap_find_erase omap_find_upd omap_at_upd omap_ok_set omap_ok_erase
  omap_ok_upd

end
