(* ===== verification/Timers.thy ===== *)
theory Timers
  imports Axium_Prelude
begin

text \<open>
  The timers of \<^verbatim>\<open>src/src/server/shared/Utilities/Timer.h\<close>.  \<^verbatim>\<open>time_t\<close> and \<^verbatim>\<open>int32\<close> values are
  integers in the range of their type, with the conversion written at every assignment
  (\<open>i64\<close>, \<open>i32\<close>); \<^verbatim>\<open>uint32\<close> values are words.  Division by zero in \<^verbatim>\<open>IntervalTimer::Reset\<close> is an
  error value.
\<close>

section \<open>Millisecond clock differences\<close>

definition getMSTimeDiff :: "u32 \<Rightarrow> u32 \<Rightarrow> u32" where
  "getMSTimeDiff oldMSTime newMSTime =
     (if oldMSTime > newMSTime then (0xFFFFFFFF - oldMSTime) + newMSTime
      else newMSTime - oldMSTime)"

text \<open>The argument \<open>now\<close> is the value of \<^verbatim>\<open>getMSTime()\<close>.\<close>

definition GetMSTimeDiffToNow :: "u32 \<Rightarrow> u32 \<Rightarrow> u32" where
  "GetMSTimeDiffToNow now oldMSTime = getMSTimeDiff oldMSTime now"

section \<open>IntervalTimer\<close>

record interval_timer =
  it_interval :: int
  it_current :: int

datatype timer_error = DivisionByZero

definition new_IntervalTimer :: interval_timer where
  "new_IntervalTimer = \<lparr>it_interval = 0, it_current = 0\<rparr>"

definition IntervalTimer_Update :: "int \<Rightarrow> interval_timer \<Rightarrow> interval_timer" where
  "IntervalTimer_Update diff t =
     (let c = i64 (it_current t + diff) in t\<lparr>it_current := (if c < 0 then 0 else c)\<rparr>)"

definition IntervalTimer_Passed :: "interval_timer \<Rightarrow> bool" where
  "IntervalTimer_Passed t = (it_current t \<ge> it_interval t)"

text \<open>C++ \<^verbatim>\<open>%\<close> truncates towards zero: the result has the sign of the dividend.\<close>

definition c_rem :: "int \<Rightarrow> int \<Rightarrow> int" where
  "c_rem a b = sgn a * (\<bar>a\<bar> mod \<bar>b\<bar>)"

definition IntervalTimer_Reset :: "interval_timer \<Rightarrow> timer_error + interval_timer" where
  "IntervalTimer_Reset t =
     (if it_current t \<ge> it_interval t
      then if it_interval t = 0 then Inl DivisionByZero
           else Inr (t\<lparr>it_current := c_rem (it_current t) (it_interval t)\<rparr>)
      else Inr t)"

definition IntervalTimer_SetCurrent :: "int \<Rightarrow> interval_timer \<Rightarrow> interval_timer" where
  "IntervalTimer_SetCurrent c t = t\<lparr>it_current := c\<rparr>"

definition IntervalTimer_SetInterval :: "int \<Rightarrow> interval_timer \<Rightarrow> interval_timer" where
  "IntervalTimer_SetInterval v t = t\<lparr>it_interval := v\<rparr>"

section \<open>TimeTracker and TimeTrackerSmall\<close>

text \<open>The state of either tracker is its expiry time.\<close>

definition TimeTracker_Update :: "int \<Rightarrow> int \<Rightarrow> int" where
  "TimeTracker_Update diff expiry = i64 (expiry - diff)"

definition TimeTracker_Passed :: "int \<Rightarrow> bool" where
  "TimeTracker_Passed expiry = (expiry \<le> 0)"

definition TimeTracker_Reset :: "int \<Rightarrow> int \<Rightarrow> int" where
  "TimeTracker_Reset interval expiry = interval"

definition new_TimeTrackerSmall :: "u32 \<Rightarrow> int" where
  "new_TimeTrackerSmall expiry = i32 (uint expiry)"

definition TimeTrackerSmall_Update :: "int \<Rightarrow> int \<Rightarrow> int" where
  "TimeTrackerSmall_Update diff expiry = i32 (expiry - diff)"

definition TimeTrackerSmall_Passed :: "int \<Rightarrow> bool" where
  "TimeTrackerSmall_Passed expiry = (expiry \<le> 0)"

definition TimeTrackerSmall_Reset :: "u32 \<Rightarrow> int \<Rightarrow> int" where
  "TimeTrackerSmall_Reset interval expiry = i32 (uint interval)"

section \<open>PeriodicTimer\<close>

record periodic_timer =
  pt_period :: int
  pt_expireTime :: int

definition new_PeriodicTimer :: "int \<Rightarrow> int \<Rightarrow> periodic_timer" where
  "new_PeriodicTimer period start_time = \<lparr>pt_period = period, pt_expireTime = start_time\<rparr>"

text \<open>
  \<^verbatim>\<open>i_expireTime -= diff\<close> mixes \<^verbatim>\<open>int32\<close> and \<^verbatim>\<open>uint32\<close>: the arithmetic is modulo \<open>2\<^sup>3\<^sup>2\<close> and the result is
  converted back; so is the sum with the larger of the period and \<^verbatim>\<open>diff\<close>.
\<close>

definition PeriodicTimer_Update :: "u32 \<Rightarrow> periodic_timer \<Rightarrow> bool \<times> periodic_timer" where
  "PeriodicTimer_Update diff t =
     (let e = i32 (pt_expireTime t - uint diff) in
      if e > 0 then (False, t\<lparr>pt_expireTime := e\<rparr>)
      else (True, t\<lparr>pt_expireTime :=
              i32 (e + (if pt_period t > i32 (uint diff) then pt_period t else uint diff))\<rparr>))"

definition PeriodicTimer_SetPeriodic :: "int \<Rightarrow> int \<Rightarrow> periodic_timer \<Rightarrow> periodic_timer" where
  "PeriodicTimer_SetPeriodic period start_time t = t\<lparr>pt_expireTime := start_time, pt_period := period\<rparr>"

definition PeriodicTimer_TUpdate :: "int \<Rightarrow> periodic_timer \<Rightarrow> periodic_timer" where
  "PeriodicTimer_TUpdate diff t = t\<lparr>pt_expireTime := i32 (pt_expireTime t - diff)\<rparr>"

definition PeriodicTimer_TPassed :: "periodic_timer \<Rightarrow> bool" where
  "PeriodicTimer_TPassed t = (pt_expireTime t \<le> 0)"

definition PeriodicTimer_TReset :: "int \<Rightarrow> int \<Rightarrow> periodic_timer \<Rightarrow> periodic_timer" where
  "PeriodicTimer_TReset diff period t =
     t\<lparr>pt_expireTime := i32 (pt_expireTime t + (if period > diff then period else diff))\<rparr>"

section \<open>Runs\<close>

fun IntervalTimer_run :: "int list \<Rightarrow> interval_timer \<Rightarrow> interval_timer" where
  "IntervalTimer_run [] t = t"
| "IntervalTimer_run (d # ds) t = IntervalTimer_run ds (IntervalTimer_Update d t)"

fun TimeTracker_run :: "int list \<Rightarrow> int \<Rightarrow> int" where
  "TimeTracker_run [] e = e"
| "TimeTracker_run (d # ds) e = TimeTracker_run ds (TimeTracker_Update d e)"

text \<open>A run of periodic updates: how often it fired, and the timer after it.\<close>

fun PeriodicTimer_run :: "u32 list \<Rightarrow> periodic_timer \<Rightarrow> nat \<times> periodic_timer" where
  "PeriodicTimer_run [] t = (0, t)"
| "PeriodicTimer_run (d # ds) t =
     (let (f, t') = PeriodicTimer_Update d t; (n, t'') = PeriodicTimer_run ds t'
      in (of_bool f + n, t''))"

section \<open>Lemmas\<close>

lemma IntervalTimer_run_sum:
  assumes "0 \<le> it_current t" and "list_all (\<lambda>d. 0 \<le> d) ds" and "it_current t + sum_list ds < 2 ^ 63"
  shows "IntervalTimer_run ds t = t\<lparr>it_current := it_current t + sum_list ds\<rparr>"
  using assms
proof (induction ds arbitrary: t)
  case (Cons d ds)
  then have nonneg: "0 \<le> sum_list ds" by (auto intro: sum_list_nonneg simp: list_all_iff)
  with Cons.prems have "IntervalTimer_Update d t = t\<lparr>it_current := it_current t + d\<rparr>"
    by (simp add: IntervalTimer_Update_def i64_id)
  with Cons nonneg show ?case by (simp add: add.assoc)
qed simp

lemma c_rem_bounds: "0 \<le> a \<Longrightarrow> 0 < b \<Longrightarrow> 0 \<le> c_rem a b \<and> c_rem a b < b \<and> c_rem a b = a mod b"
  by (cases "a = 0") (auto simp: c_rem_def)

lemma TimeTracker_run_sum:
  assumes "- (2 ^ 63) \<le> e - sum_list ds" and "e < 2 ^ 63" and "list_all (\<lambda>d. 0 \<le> d) ds"
  shows "TimeTracker_run ds e = e - sum_list ds"
  using assms
proof (induction ds arbitrary: e)
  case (Cons d ds)
  then have nonneg: "0 \<le> sum_list ds" by (auto intro: sum_list_nonneg simp: list_all_iff)
  with Cons.prems have "TimeTracker_Update d e = e - d"
    by (simp add: TimeTracker_Update_def i64_id)
  with Cons show ?case by (simp add: algebra_simps)
qed simp

lemma PeriodicTimer_Update_small:
  assumes "0 < pt_expireTime t" and "0 < pt_period t" and "uint d \<le> pt_period t"
    and "pt_expireTime t + pt_period t < 2 ^ 31"
  shows "PeriodicTimer_Update d t =
    (let e = pt_expireTime t - uint d
     in if e > 0 then (False, t\<lparr>pt_expireTime := e\<rparr>) else (True, t\<lparr>pt_expireTime := e + pt_period t\<rparr>))"
proof -
  have d: "0 \<le> uint d" by simp
  have e: "i32 (pt_expireTime t - uint d) = pt_expireTime t - uint d"
    by (rule i32_id) (use assms d in linarith)+
  have p: "i32 (uint d) = uint d"
    by (rule i32_id) (use assms d in linarith)+
  have "i32 (pt_expireTime t - uint d + pt_period t) = pt_expireTime t - uint d + pt_period t"
    by (rule i32_id) (use assms d in linarith)+
  with e p assms show ?thesis by (auto simp: PeriodicTimer_Update_def Let_def)
qed

lemma PeriodicTimer_run_count:
  assumes "0 < pt_expireTime t" and "pt_expireTime t \<le> pt_period t" and "2 * pt_period t < 2 ^ 31"
    and "\<forall>d \<in> set ds. uint d \<le> pt_period t"
    and "PeriodicTimer_run ds t = (n, t')"
  shows "pt_expireTime t' = pt_expireTime t - (\<Sum>d \<leftarrow> ds. uint d) + int n * pt_period t \<and>
    0 < pt_expireTime t' \<and> pt_expireTime t' \<le> pt_period t \<and> pt_period t' = pt_period t"
  using assms
proof (induction ds arbitrary: t n t')
  case Nil
  then show ?case by simp
next
  case (Cons d ds)
  obtain f u where u: "PeriodicTimer_Update d t = (f, u)" by fastforce
  obtain m where m: "PeriodicTimer_run ds u = (m, t')" and n: "n = of_bool f + m"
    using Cons.prems(5) u by (auto split: prod.splits)
  have d: "0 \<le> uint d" "uint d \<le> pt_period t" using Cons.prems(4) by simp_all
  have "PeriodicTimer_Update d t =
    (let e = pt_expireTime t - uint d
     in if e > 0 then (False, t\<lparr>pt_expireTime := e\<rparr>) else (True, t\<lparr>pt_expireTime := e + pt_period t\<rparr>))"
    using Cons.prems d by (intro PeriodicTimer_Update_small) linarith+
  with u have eu: "pt_expireTime u = pt_expireTime t - uint d + of_bool f * pt_period t"
    and pu: "pt_period u = pt_period t" and ub: "0 < pt_expireTime u \<and> pt_expireTime u \<le> pt_period t"
    using Cons.prems(1,2) d(2) by (auto simp: Let_def split: if_splits) (use d Cons.prems in linarith)
  have "pt_expireTime t' = pt_expireTime u - (\<Sum>d \<leftarrow> ds. uint d) + int m * pt_period u \<and>
    0 < pt_expireTime t' \<and> pt_expireTime t' \<le> pt_period u \<and> pt_period t' = pt_period u"
    using Cons.prems ub pu by (intro Cons.IH [OF _ _ _ _ m]) simp_all
  then show ?case using eu pu n by (auto simp: algebra_simps)
qed

section \<open>Properties\<close>

text \<open>
  The difference of two clock readings: exact while the counter has not wrapped, and one
  millisecond less than the elapsed time (modulo \<open>2\<^sup>3\<^sup>2\<close>) in the tick in which it wraps.
\<close>

theorem getMSTimeDiff_value:
  "getMSTimeDiff oldMSTime newMSTime =
     (if oldMSTime \<le> newMSTime then newMSTime - oldMSTime else newMSTime - oldMSTime - 1)"
  by (simp add: getMSTimeDiff_def not_less [symmetric])

text \<open>
  An interval timer that accumulates non-negative updates has passed exactly when their sum has
  reached the interval, and \<^verbatim>\<open>Reset\<close> then keeps the remainder modulo the interval, so that it has
  not passed any more.
\<close>

theorem IntervalTimer_accumulates:
  assumes "0 \<le> it_current t" and "list_all (\<lambda>d. 0 \<le> d) ds" and "it_current t + sum_list ds < 2 ^ 63"
    and "0 < it_interval t"
  shows "\<exists>u. IntervalTimer_Reset (IntervalTimer_run ds t) = Inr u \<and>
    IntervalTimer_Passed (IntervalTimer_run ds t) = (it_interval t \<le> it_current t + sum_list ds) \<and>
    it_current u = (it_current t + sum_list ds) mod it_interval t \<and> \<not> IntervalTimer_Passed u"
proof -
  let ?c = "it_current t + sum_list ds"
  have run: "IntervalTimer_run ds t = t\<lparr>it_current := ?c\<rparr>"
    using assms(1-3) by (rule IntervalTimer_run_sum)
  have "0 \<le> sum_list ds" using assms(2) by (auto intro: sum_list_nonneg simp: list_all_iff)
  with assms(1) have c: "0 \<le> ?c" by simp
  show ?thesis
  proof (cases "it_interval t \<le> ?c")
    case True
    with assms(4) c c_rem_bounds [of ?c "it_interval t"] show ?thesis
      by (simp add: run IntervalTimer_Reset_def IntervalTimer_Passed_def)
  next
    case False
    with assms(4) c show ?thesis
      by (simp add: run IntervalTimer_Reset_def IntervalTimer_Passed_def)
  qed
qed

theorem IntervalTimer_accumulates_witness:
  "\<exists>u. IntervalTimer_Reset (IntervalTimer_run [400, 700] \<lparr>it_interval = 1000, it_current = 0\<rparr>) = Inr u \<and>
    it_current u = 100"
  using IntervalTimer_accumulates [of "\<lparr>it_interval = 1000, it_current = 0\<rparr>" "[400, 700]"] by auto

text \<open>
  A default-constructed interval timer has interval 0, so \<^verbatim>\<open>Reset\<close> divides by zero on it however it
  has been updated; with a non-zero interval \<^verbatim>\<open>Reset\<close> never does.
\<close>

theorem IntervalTimer_Reset_zero:
  "IntervalTimer_Reset t = Inl DivisionByZero \<longleftrightarrow> it_interval t = 0 \<and> 0 \<le> it_current t"
  by (auto simp: IntervalTimer_Reset_def)

text \<open>
  A time tracker has expired exactly when the updates since its reset add up to the interval it
  was reset to.
\<close>

theorem TimeTracker_expires:
  assumes "- (2 ^ 63) \<le> interval - sum_list ds" and "interval < 2 ^ 63" and "list_all (\<lambda>d. 0 \<le> d) ds"
  shows "TimeTracker_Passed (TimeTracker_run ds (TimeTracker_Reset interval e)) \<longleftrightarrow>
    interval \<le> sum_list ds"
  using TimeTracker_run_sum [OF assms] by (simp add: TimeTracker_Passed_def TimeTracker_Reset_def)

theorem TimeTracker_expires_witness:
  "TimeTracker_Passed (TimeTracker_run [3, 4] (TimeTracker_Reset 7 0)) \<and>
   \<not> TimeTracker_Passed (TimeTracker_run [3, 3] (TimeTracker_Reset 7 0))"
  using TimeTracker_expires [of 7 "[3, 4]" 0] TimeTracker_expires [of 7 "[3, 3]" 0] by simp

text \<open>
  A periodic timer does not drift: over any run of updates no longer than the period each, it fires
  once per period of accumulated time, counted from its first expiry, and is never left expired.
\<close>

theorem PeriodicTimer_no_drift:
  assumes "0 < pt_expireTime t" and "pt_expireTime t \<le> pt_period t" and "2 * pt_period t < 2 ^ 31"
    and "\<forall>d \<in> set ds. uint d \<le> pt_period t"
  shows "int (fst (PeriodicTimer_run ds t)) =
      ((\<Sum>d \<leftarrow> ds. uint d) + pt_period t - pt_expireTime t) div pt_period t \<and>
    \<not> PeriodicTimer_TPassed (snd (PeriodicTimer_run ds t))"
proof -
  obtain n t' where run: "PeriodicTimer_run ds t = (n, t')" by fastforce
  let ?p = "pt_period t" and ?s = "\<Sum>d \<leftarrow> ds. uint d"
  from PeriodicTimer_run_count [OF assms run]
  have e: "pt_expireTime t' = pt_expireTime t - ?s + int n * ?p" "0 < pt_expireTime t'" "pt_expireTime t' \<le> ?p"
    by simp_all
  have "0 < ?p" using assms(1,2) by simp
  moreover have "?s + ?p - pt_expireTime t = (?p - pt_expireTime t') + int n * ?p" using e(1) by simp
  moreover have "((?p - pt_expireTime t') + int n * ?p) div ?p = int n"
    using e(2,3) \<open>0 < ?p\<close> by (subst div_mult_self1) (simp_all add: div_pos_pos_trivial)
  ultimately have "(?s + ?p - pt_expireTime t) div ?p = int n" by (simp only:)
  with e(2) show ?thesis by (simp add: run PeriodicTimer_TPassed_def)
qed

theorem PeriodicTimer_no_drift_witness:
  "fst (PeriodicTimer_run [300, 300, 300, 300] (new_PeriodicTimer 500 500)) = 2"
  using PeriodicTimer_no_drift [of "new_PeriodicTimer 500 500" "[300, 300, 300, 300]"]
  by (simp add: new_PeriodicTimer_def)

end
