(* ===== verification/EventProcessor.thy ===== *)
theory EventProcessor
  imports Axium_Prelude
begin

text \<open>
  The event queue of \<^verbatim>\<open>src/src/server/shared/Utilities/EventProcessor.h\<close> and \<^verbatim>\<open>.cpp\<close>.  The virtual methods
  of \<^verbatim>\<open>BasicEvent\<close>, which the kinds of events override, are a record of functions that the definitions take as an
  argument: \<^verbatim>\<open>Execute\<close> may call \<^verbatim>\<open>AddEvent\<close>, and everything else the methods do is a change of the state \<open>'s\<close> of
  the rest of the server.  The loop of \<^verbatim>\<open>Update\<close> runs forever when an
  event keeps re-adding itself for the present, so it is a partial function with result
  \<open>None\<close> for "does not return"; the locale \<open>deferring_events\<close> states when it returns.
\<close>

section \<open>Events and their queue\<close>

record 'p basic_event =
  ev_payload :: 'p
  to_Abort :: bool
  m_addTime :: u64
  m_execTime :: u64

definition new_BasicEvent :: "'p \<Rightarrow> u64 \<Rightarrow> u64 \<Rightarrow> 'p basic_event" where
  "new_BasicEvent d a x = \<lparr>ev_payload = d, to_Abort = False, m_addTime = a, m_execTime = x\<rparr>"

text \<open>
  \<open>Execute\<close> returns whether the event is to be deleted, the calls of \<open>AddEvent(event, e_time,
  set_addtime)\<close> it makes on the processor, in order, and the state after it.  \<open>Destroy\<close> is the virtual
  destructor, run by \<^verbatim>\<open>delete\<close>.
\<close>

record ('p, 's) event_class =
  Execute :: "'p basic_event \<Rightarrow> u64 \<Rightarrow> u32 \<Rightarrow> 's \<Rightarrow> bool \<times> ('p basic_event \<times> u64 \<times> bool) list \<times> 's"
  IsDeletable :: "'p basic_event \<Rightarrow> 's \<Rightarrow> bool"
  Abort :: "'p basic_event \<Rightarrow> u64 \<Rightarrow> 's \<Rightarrow> 's"
  Destroy :: "'p basic_event \<Rightarrow> 's \<Rightarrow> 's"

text \<open>The methods \<^verbatim>\<open>BasicEvent\<close> itself defines.\<close>

definition BasicEvent_class :: "('p, 's) event_class" where
  "BasicEvent_class =
     \<lparr>Execute = (\<lambda>e e_time p_time s. (True, [], s)),
      IsDeletable = (\<lambda>e s. True),
      Abort = (\<lambda>e e_time s. s),
      Destroy = (\<lambda>e s. s)\<rparr>"

record 'p event_processor =
  m_time :: u64
  m_events :: "(u64 \<times> 'p basic_event) list"
  m_aborting :: bool

definition new_EventProcessor :: "'p event_processor" where
  "new_EventProcessor = \<lparr>m_time = 0, m_events = [], m_aborting = False\<rparr>"

text \<open>\<^verbatim>\<open>std::multimap::insert\<close>: behind the elements with the same key.\<close>

fun multimap_insert :: "'k::linorder \<Rightarrow> 'v \<Rightarrow> ('k \<times> 'v) list \<Rightarrow> ('k \<times> 'v) list" where
  "multimap_insert k v [] = [(k, v)]"
| "multimap_insert k v ((k', v') # m) =
     (if k < k' then (k, v) # (k', v') # m else (k', v') # multimap_insert k v m)"

definition AddEvent :: "'p basic_event \<Rightarrow> u64 \<Rightarrow> bool \<Rightarrow> 'p event_processor \<Rightarrow> 'p event_processor" where
  "AddEvent ev e_time set_addtime ep =
     (let ev1 = (if set_addtime then ev\<lparr>m_addTime := m_time ep\<rparr> else ev);
          ev2 = ev1\<lparr>m_execTime := e_time\<rparr>
      in ep\<lparr>m_events := multimap_insert e_time ev2 (m_events ep)\<rparr>)"

definition CalculateTime :: "u64 \<Rightarrow> 'p event_processor \<Rightarrow> u64" where
  "CalculateTime t_offset ep = m_time ep + t_offset"

definition add_events :: "('p basic_event \<times> u64 \<times> bool) list \<Rightarrow> 'p event_processor \<Rightarrow> 'p event_processor" where
  "add_events adds ep = fold (\<lambda>(ev, e_time, set_addtime). AddEvent ev e_time set_addtime) adds ep"

section \<open>Update\<close>

partial_function (option) Update_loop ::
  "('p, 's) event_class \<Rightarrow> u32 \<Rightarrow> 'p event_processor \<Rightarrow> 's \<Rightarrow> ('p event_processor \<times> 's) option"
where
  "Update_loop C p_time ep s =
     (case m_events ep of
        [] \<Rightarrow> Some (ep, s)
      | (t, ev) # es \<Rightarrow>
          if t \<le> m_time ep
          then let ep' = ep\<lparr>m_events := es\<rparr> in
               if \<not> to_Abort ev
               then (case Execute C ev (m_time ep) p_time s of
                       (del, adds, s') \<Rightarrow>
                         Update_loop C p_time (add_events adds ep') (if del then Destroy C ev s' else s'))
               else Update_loop C p_time ep' (Destroy C ev (Abort C ev (m_time ep) s))
          else Some (ep, s))"

definition Update ::
  "('p, 's) event_class \<Rightarrow> u32 \<Rightarrow> 'p event_processor \<Rightarrow> 's \<Rightarrow> ('p event_processor \<times> 's) option"
where
  "Update C p_time ep s = Update_loop C p_time (ep\<lparr>m_time := m_time ep + ucast p_time\<rparr>) s"

section \<open>KillAllEvents\<close>

text \<open>
  One pass over the queue: every event is marked and told to abort; without \<open>force\<close> the deletable
  ones are erased on the way.
\<close>

fun kill_pass ::
  "('p, 's) event_class \<Rightarrow> u64 \<Rightarrow> (u64 \<times> 'p basic_event) list \<Rightarrow> 's
     \<Rightarrow> (u64 \<times> 'p basic_event) list \<times> 's"
where
  "kill_pass C now [] s = ([], s)"
| "kill_pass C now ((t, ev) # es) s =
     (let ev' = ev\<lparr>to_Abort := True\<rparr>;
          s' = Abort C ev' now s;
          del = IsDeletable C ev' s';
          (rest, s'') = kill_pass C now es (if del then Destroy C ev' s' else s')
      in (if del then rest else (t, ev') # rest, s''))"

fun kill_force :: "('p, 's) event_class \<Rightarrow> u64 \<Rightarrow> (u64 \<times> 'p basic_event) list \<Rightarrow> 's \<Rightarrow> 's" where
  "kill_force C now [] s = s"
| "kill_force C now ((t, ev) # es) s =
     (let ev' = ev\<lparr>to_Abort := True\<rparr>
      in kill_force C now es (Destroy C ev' (Abort C ev' now s)))"

definition KillAllEvents ::
  "('p, 's) event_class \<Rightarrow> bool \<Rightarrow> 'p event_processor \<Rightarrow> 's \<Rightarrow> 'p event_processor \<times> 's"
where
  "KillAllEvents C force ep s =
     (let ep' = ep\<lparr>m_aborting := True\<rparr> in
      if force then (ep'\<lparr>m_events := []\<rparr>, kill_force C (m_time ep) (m_events ep) s)
      else let (rest, s') = kill_pass C (m_time ep) (m_events ep) s in (ep'\<lparr>m_events := rest\<rparr>, s'))"

section \<open>Specification vocabulary\<close>

text \<open>The queue is ordered by time, and each event knows the time it is queued for.\<close>

definition queue_ok :: "'p event_processor \<Rightarrow> bool" where
  "queue_ok ep = sorted (map fst (m_events ep))"

definition due :: "u64 \<Rightarrow> (u64 \<times> 'p basic_event) list \<Rightarrow> (u64 \<times> 'p basic_event) list" where
  "due now es = filter (\<lambda>e. fst e \<le> now) es"

text \<open>
  Running events one after the other against a processor: aborted ones through \<^verbatim>\<open>Abort\<close>, the others through
  \<^verbatim>\<open>Execute\<close>, whose calls of \<^verbatim>\<open>AddEvent\<close> take effect before the next event runs.
\<close>

fun run_events ::
  "('p, 's) event_class \<Rightarrow> u64 \<Rightarrow> u32 \<Rightarrow> (u64 \<times> 'p basic_event) list \<Rightarrow> 'p event_processor \<Rightarrow> 's
     \<Rightarrow> 'p event_processor \<times> 's"
where
  "run_events C now p_time [] ep s = (ep, s)"
| "run_events C now p_time ((t, ev) # es) ep s =
     (if to_Abort ev then run_events C now p_time es ep (Destroy C ev (Abort C ev now s))
      else case Execute C ev now p_time s of
             (del, adds, s') \<Rightarrow>
               run_events C now p_time es (add_events adds ep) (if del then Destroy C ev s' else s'))"

section \<open>Lemmas\<close>

lemma multimap_insert_split:
  "sorted (map fst m) \<Longrightarrow>
   multimap_insert k v m = filter (\<lambda>e. fst e \<le> k) m @ (k, v) # filter (\<lambda>e. k < fst e) m"
proof (induction k v m rule: multimap_insert.induct)
  case (2 k v k' v' m)
  show ?case
  proof (cases "k < k'")
    case True
    with 2(2) have "filter (\<lambda>e. fst e \<le> k) m = []" and "filter (\<lambda>e. k < fst e) m = m"
      by (auto simp: filter_empty_conv filter_id_conv)
    with True show ?thesis by simp
  qed (use 2 in simp)
qed simp

lemma multimap_insert_set: "set (multimap_insert k v m) = insert (k, v) (set m)"
  by (induction k v m rule: multimap_insert.induct) auto

lemma multimap_insert_sorted:
  "sorted (map fst m) \<Longrightarrow> sorted (map fst (multimap_insert k v m))"
proof (induction k v m rule: multimap_insert.induct)
  case (2 k v k' v' m)
  then show ?case by (auto simp: multimap_insert_set)
qed simp

lemma due_insert: "now < k \<Longrightarrow> due now (multimap_insert k v m) = due now m"
  by (induction k v m rule: multimap_insert.induct) (auto simp: due_def)

lemma AddEvent_time [simp]: "m_time (AddEvent ev t b ep) = m_time ep"
  by (simp add: AddEvent_def Let_def)

lemma AddEvent_queue_ok: "queue_ok ep \<Longrightarrow> queue_ok (AddEvent ev t b ep)"
  by (simp add: AddEvent_def Let_def queue_ok_def multimap_insert_sorted)

lemma AddEvent_due: "now < t \<Longrightarrow> due now (m_events (AddEvent ev t b ep)) = due now (m_events ep)"
  by (simp add: AddEvent_def Let_def due_insert)

lemma add_events_Cons:
  "add_events (a # adds) ep = add_events adds (AddEvent (fst a) (fst (snd a)) (snd (snd a)) ep)"
  by (simp add: add_events_def case_prod_unfold)

lemma add_events_keeps:
  "m_time (add_events adds ep) = m_time ep \<and> (queue_ok ep \<longrightarrow> queue_ok (add_events adds ep)) \<and>
   (list_all (\<lambda>a. now < fst (snd a)) adds \<longrightarrow>
      due now (m_events (add_events adds ep)) = due now (m_events ep))"
proof (induction adds arbitrary: ep)
  case Nil
  then show ?case by (simp add: add_events_def)
next
  case (Cons a adds)
  then show ?case by (simp add: add_events_Cons AddEvent_queue_ok AddEvent_due)
qed

text \<open>Events planned for later than everything that is due leave the due part of the queue alone.\<close>

lemma multimap_insert_append:
  "\<forall>e\<in>set m. fst e \<le> now \<Longrightarrow> now < k \<Longrightarrow> multimap_insert k v (m @ m') = m @ multimap_insert k v m'"
  by (induction m) auto

lemma add_events_append:
  assumes "\<forall>e\<in>set m. fst e \<le> now" and "list_all (\<lambda>a. now < fst (snd a)) adds"
  shows "add_events adds (ep\<lparr>m_events := m @ m'\<rparr>) =
    (add_events adds (ep\<lparr>m_events := m'\<rparr>))\<lparr>m_events := m @ m_events (add_events adds (ep\<lparr>m_events := m'\<rparr>))\<rparr>"
  using assms(2)
proof (induction adds arbitrary: m')
  case Nil
  then show ?case by (simp add: add_events_def)
next
  case (Cons a adds)
  then show ?case
    by (simp add: add_events_Cons AddEvent_def Let_def multimap_insert_append [OF assms(1)])
qed

lemmas Update_loop_step = Update_loop.simps [of _ _ ep for ep]


text \<open>
  Events that, while \<open>ok\<close> holds of the clock and the state, plan new events only for later than now:
  then the loop of \<^verbatim>\<open>Update\<close> returns, and runs what was due when it started, in order.
\<close>

locale deferring_events =
  fixes C :: "('p, 's) event_class"
    and ok :: "u64 \<Rightarrow> 's \<Rightarrow> bool"
    and now :: u64
  assumes execute_later:
      "ok now s \<Longrightarrow> Execute C ev now p s = (del, adds, s') \<Longrightarrow>
       ok now s' \<and> list_all (\<lambda>a. now < fst (snd a)) adds"
    and abort_ok: "ok now s \<Longrightarrow> ok now (Abort C ev now s)"
    and destroy_ok: "ok now s \<Longrightarrow> ok now (Destroy C ev s)"
begin

lemma Update_loop_runs:
  assumes "\<forall>e\<in>set d. fst e \<le> now" and "\<forall>e\<in>set (m_events ep). now < fst e" and "m_time ep = now" and "ok now s"
  shows "Update_loop C p (ep\<lparr>m_events := d @ m_events ep\<rparr>) s = Some (run_events C now p d ep s)"
  using assms
proof (induction d arbitrary: ep s)
  case Nil
  then show ?case
    by (cases "m_events ep") (auto simp: Update_loop_step)
next
  case (Cons e d)
  obtain t ev where e: "e = (t, ev)" by (cases e)
  have d: "\<forall>e\<in>set d. fst e \<le> now" and t: "t \<le> now" using Cons.prems(1) e by auto
  show ?case
  proof (cases "to_Abort ev")
    case True
    then show ?thesis
      using Cons.IH [OF d Cons.prems(2,3)] Cons.prems(3,4) e t abort_ok destroy_ok
      by (simp add: Update_loop_step [of _ _ "ep\<lparr>m_events := (t, ev) # d @ m_events ep\<rparr>"])
  next
    case False
    obtain del adds s1 where x: "Execute C ev now p s = (del, adds, s1)" by (metis prod_cases3)
    from execute_later [OF Cons.prems(4) x]
    have ok1: "ok now s1" and later: "list_all (\<lambda>a. now < fst (snd a)) adds" by simp_all
    let ?ep = "add_events adds ep" and ?s = "if del then Destroy C ev s1 else s1"
    have "\<forall>e\<in>set (m_events ?ep). now < fst e"
      using add_events_keeps [of adds ep now] later Cons.prems(2)
      by (auto simp: due_def filter_empty_conv not_le)
    moreover have "m_time ?ep = now" using add_events_keeps [of adds ep] Cons.prems(3) by simp
    moreover have "ok now ?s" using ok1 destroy_ok by simp
    ultimately have "Update_loop C p (?ep\<lparr>m_events := d @ m_events ?ep\<rparr>) ?s = Some (run_events C now p d ?ep ?s)"
      by (rule Cons.IH [OF d])
    with add_events_append [OF d later, where ep = ep and m' = "m_events ep"] False e t x Cons.prems(3) show ?thesis
      by (simp add: Update_loop_step [of _ _ "ep\<lparr>m_events := (t, ev) # d @ m_events ep\<rparr>"])
  qed
qed

lemma Update_runs:
  assumes "queue_ok ep" and "m_time ep + ucast p = now" and "ok now s"
  shows "Update C p ep s =
    Some (run_events C now p (takeWhile (\<lambda>e. fst e \<le> now) (m_events ep))
            (ep\<lparr>m_time := now, m_events := dropWhile (\<lambda>e. fst e \<le> now) (m_events ep)\<rparr>) s)"
proof -
  let ?d = "takeWhile (\<lambda>e. fst e \<le> now) (m_events ep)" and ?r = "dropWhile (\<lambda>e. fst e \<le> now) (m_events ep)"
  have r: "\<forall>e\<in>set ?r. now < fst e"
  proof (cases ?r)
    case (Cons e es)
    then have "\<not> fst e \<le> now" by (simp add: dropWhile_eq_Cons_conv)
    moreover have "sorted (map fst ?r)" using assms(1) 
      using sorted_dropWhile [of "map fst (m_events ep)" "\<lambda>k. k \<le> now"] by (simp add: queue_ok_def dropWhile_map comp_def)
    ultimately show ?thesis using Cons by force
  next
    case Nil
    show ?thesis unfolding Nil by simp
  qed
  have "\<forall>e\<in>set ?d. fst e \<le> now" by (auto dest: set_takeWhileD)
  from Update_loop_runs [OF this, of "ep\<lparr>m_time := now, m_events := ?r\<rparr>" s p] r assms(2,3) show ?thesis
    by (simp add: Update_def)
qed

end

interpretation be: deferring_events "BasicEvent_class :: ('p, 's) event_class" "\<lambda>_ _. True" now
  by unfold_locales (auto simp: BasicEvent_class_def)

lemma kill_pass_rest:
  "\<forall>e \<in> set (fst (kill_pass C now es s)). to_Abort (snd e) \<and>
     (\<exists>ev. (fst e, ev) \<in> set es \<and> snd e = ev\<lparr>to_Abort := True\<rparr>)"
proof (induction es arbitrary: s)
  case (Cons e es)
  obtain t ev where e: "e = (t, ev)" by (cases e)
  define s1 where "s1 = Abort C (ev\<lparr>to_Abort := True\<rparr>) now s"
  define s2 where "s2 = (if IsDeletable C (ev\<lparr>to_Abort := True\<rparr>) s1 then Destroy C (ev\<lparr>to_Abort := True\<rparr>) s1 else s1)"
  obtain rest s3 where r: "kill_pass C now es s2 = (rest, s3)" by (cases "kill_pass C now es s2")
  have "fst (kill_pass C now (e # es) s) =
      (if IsDeletable C (ev\<lparr>to_Abort := True\<rparr>) s1 then rest else (t, ev\<lparr>to_Abort := True\<rparr>) # rest)"
    using r by (auto simp: e Let_def s2_def simp flip: s1_def)
  with Cons.IH [of s2] r e show ?case by auto
qed simp

section \<open>Properties\<close>




text \<open>The event that plans itself for the present again: from a queue with it, \<^verbatim>\<open>Update\<close> does not return.\<close>

definition again_event :: "(nat, nat) event_class" where
  "again_event = BasicEvent_class\<lparr>Execute := (\<lambda>ev t p n. (False, [(ev, t, False)], n + 1))\<rparr>"

lemma again_event_loops:
  assumes "Update_loop C p ep s = Some r"
  shows "\<not> (C = again_event \<and> (\<exists>t ev. m_events ep = [(t, ev)] \<and> t \<le> m_time ep \<and> \<not> to_Abort ev))"
proof (rule Update_loop.raw_induct [OF _ assms], goal_cases)
  case (1 loop C p ep s r)
  show ?case
  proof (intro notI, elim conjE exE)
    fix t ev
    assume a: "C = again_event" "m_events ep = [(t, ev)]" "t \<le> m_time ep" "\<not> to_Abort ev"
    then have "loop C p (add_events [(ev, m_time ep, False)] (ep\<lparr>m_events := []\<rparr>)) (s + 1) = Some r"
      using 1(2) by (simp add: again_event_def)
    from 1(1) [OF this] a show False by (simp add: add_events_def AddEvent_def)
  qed
qed

lemma Update_may_not_return:
  "Update again_event p (AddEvent (new_BasicEvent 1 0 0) 0 True new_EventProcessor) s = None"
proof (rule ccontr)
  let ?ep = "AddEvent (new_BasicEvent 1 0 0) 0 True new_EventProcessor :: nat event_processor"
  assume "Update again_event p ?ep s \<noteq> None"
  then obtain r where "Update_loop again_event p (?ep\<lparr>m_time := m_time ?ep + ucast p\<rparr>) s = Some r" by (auto simp: Update_def)
  from again_event_loops [OF this] show False by (simp add: AddEvent_def new_EventProcessor_def new_BasicEvent_def)
qed

text \<open>
  \<^verbatim>\<open>AddEvent\<close> is first-in first-out for equal times: the event goes behind every queued event that is
  not later, before every later one, carries its planned time, and the queue stays ordered.
\<close>

theorem AddEvent_fifo:
  assumes "queue_ok ep"
  shows "m_events (AddEvent ev t b ep) =
      filter (\<lambda>e. fst e \<le> t) (m_events ep) @
      (t, ev\<lparr>m_addTime := (if b then m_time ep else m_addTime ev), m_execTime := t\<rparr>) #
      filter (\<lambda>e. t < fst e) (m_events ep) \<and> queue_ok (AddEvent ev t b ep)"
proof
  show "queue_ok (AddEvent ev t b ep)" using assms by (rule AddEvent_queue_ok)
  have "(if b then ev\<lparr>m_addTime := m_time ep\<rparr> else ev)\<lparr>m_execTime := t\<rparr> =
      ev\<lparr>m_addTime := (if b then m_time ep else m_addTime ev), m_execTime := t\<rparr>" by simp
  then show "m_events (AddEvent ev t b ep) =
      filter (\<lambda>e. fst e \<le> t) (m_events ep) @
      (t, ev\<lparr>m_addTime := (if b then m_time ep else m_addTime ev), m_execTime := t\<rparr>) #
      filter (\<lambda>e. t < fst e) (m_events ep)"
    using assms by (simp add: AddEvent_def Let_def queue_ok_def multimap_insert_split)
qed

theorem AddEvent_fifo_witness:
  "map (ev_payload \<circ> snd) (m_events (AddEvent (new_BasicEvent 2 0 0) 5 True
     (AddEvent (new_BasicEvent 1 0 0) 5 True new_EventProcessor))) = [1 :: nat, 2]"
  using AddEvent_fifo [of "AddEvent (new_BasicEvent (1 :: nat) 0 0) 5 True new_EventProcessor"
      "new_BasicEvent 2 0 0" 5 True]
  by (simp add: AddEvent_def new_EventProcessor_def queue_ok_def new_BasicEvent_def)

text \<open>
  After \<^verbatim>\<open>KillAllEvents\<close> the processor is marked as aborting, a forced kill leaves no event and an
  unforced one only events of the old queue that are marked to abort; but the mark does not stop
  insertions: \<^verbatim>\<open>AddEvent\<close> still queues the event.
\<close>

theorem KillAllEvents_result:
  "m_aborting (fst (KillAllEvents C force ep s)) \<and>
   (force \<longrightarrow> m_events (fst (KillAllEvents C force ep s)) = []) \<and>
   (\<forall>e \<in> set (m_events (fst (KillAllEvents C force ep s))).
      to_Abort (snd e) \<and> (\<exists>ev. (fst e, ev) \<in> set (m_events ep) \<and> snd e = ev\<lparr>to_Abort := True\<rparr>)) \<and>
   length (m_events (AddEvent ev t b (fst (KillAllEvents C force ep s)))) =
     Suc (length (m_events (fst (KillAllEvents C force ep s))))"
proof -
  have len: "length (multimap_insert k v m) = Suc (length m)" for k :: u64 and v :: "'a basic_event" and m
    by (induction k v m rule: multimap_insert.induct) auto
  show ?thesis
    using kill_pass_rest [of C "m_time ep" "m_events ep" s]
    by (auto simp: KillAllEvents_def Let_def AddEvent_def len split: prod.splits)
qed

theorem KillAllEvents_result_witness:
  "m_events (fst (KillAllEvents BasicEvent_class True
      (AddEvent (new_BasicEvent (1 :: nat) 0 0) 5 True new_EventProcessor) ())) = []"
  using KillAllEvents_result [of BasicEvent_class True
      "AddEvent (new_BasicEvent (1 :: nat) 0 0) 5 True new_EventProcessor" "()"] by simp

end
