(* ===== verification/LockedQueue.thy ===== *)
theory LockedQueue
  imports Axium_Prelude "HOL-Library.Multiset"
begin

text \<open>
  The queue between threads, \<^verbatim>\<open>src/src/server/shared/Threading/LockedQueue.h\<close>.  The first part gives what each
  method computes when nothing interferes.  The second part is the code itself, as it runs in threads:
  a method is a list of instructions, one for each access to the lock, to the deque and to the flag, and a
  step executes one instruction of one thread, so that any two accesses of a method can be separated by
  the steps of other threads.  Acquiring a lock that is held is not a step: the thread waits.  The lock
  (\<^verbatim>\<open>ACE_Thread_Mutex\<close>) is not recursive.  What C++ leaves undefined - the front of an empty deque, a
  pop from one, the release of a lock that the thread does not hold - sets a fault flag and stops the system.
\<close>

section \<open>The methods\<close>

record 'a locked_queue =
  lq_queue :: "'a list"
  lq_canceled :: bool

definition new_LockedQueue :: "'a locked_queue" where
  "new_LockedQueue = \<lparr>lq_queue = [], lq_canceled = False\<rparr>"

definition lq_add :: "'a \<Rightarrow> 'a locked_queue \<Rightarrow> 'a locked_queue" where
  "lq_add item q = q\<lparr>lq_queue := lq_queue q @ [item]\<rparr>"

text \<open>The result is the value assigned to \<^verbatim>\<open>result\<close>, if any, the value returned, and the queue.\<close>

definition lq_next :: "'a locked_queue \<Rightarrow> 'a option \<times> bool \<times> 'a locked_queue" where
  "lq_next q =
     (case lq_queue q of [] \<Rightarrow> (None, False, q) | x # xs \<Rightarrow> (Some x, True, q\<lparr>lq_queue := xs\<rparr>))"







section \<open>Threads\<close>

datatype 'a lq_call =
    Add 'a | Next | NextCheck "'a \<Rightarrow> bool" | Peek bool | Cancel | Cancelled | PopFront | Empty | Lock | Unlock

text \<open>
  \<open>ITestEmpty k\<close> and \<open>ICheck P k\<close> are the tests followed by \<^verbatim>\<open>return false\<close>: the return skips \<open>k\<close> instructions, down to
  the destructor of the guard.  \<open>IPop True\<close> is the \<^verbatim>\<open>pop_front\<close> of \<^verbatim>\<open>next\<close>, which hands the value read before to the caller,
  \<open>IPop False\<close> that of \<^verbatim>\<open>pop_front()\<close>, which drops the element.
\<close>

datatype 'a lq_instr =
    IAcquire | IRelease | IPush 'a | ITestEmpty nat | IFront | ICheck "'a \<Rightarrow> bool" nat | IPop bool
  | ISetCanceled | IReadCanceled | IReadEmpty

fun lq_code :: "'a lq_call \<Rightarrow> 'a lq_instr list" where
  "lq_code (Add x) = [IAcquire, IPush x, IRelease]"
| "lq_code Next = [IAcquire, ITestEmpty 2, IFront, IPop True, IRelease]"
| "lq_code (NextCheck check) = [IAcquire, ITestEmpty 3, IFront, ICheck check 1, IPop True, IRelease]"
| "lq_code (Peek autoUnlock) = [IAcquire, IFront] @ (if autoUnlock then [IRelease] else [])"
| "lq_code Cancel = [IAcquire, ISetCanceled, IRelease]"
| "lq_code Cancelled = [IAcquire, IReadCanceled, IRelease]"
| "lq_code Lock = [IAcquire]"
| "lq_code Unlock = [IRelease]"
| "lq_code PopFront = [IAcquire, IPop False, IRelease]"
| "lq_code Empty = [IAcquire, IReadEmpty, IRelease]"

text \<open>
  \<open>lq_threads\<close> is the code each thread has still to run, \<open>lq_reg\<close> its variable \<^verbatim>\<open>result\<close>, \<open>lq_ret\<close> the value its
  last method returned.  \<open>lq_in\<close> records the values added, \<open>lq_out\<close> the values handed out or dropped, in order.
\<close>

record 'a lq_system =
  lq_state :: "'a locked_queue"
  lq_lock :: "nat option"
  lq_threads :: "nat \<Rightarrow> 'a lq_instr list"
  lq_reg :: "nat \<Rightarrow> 'a option"
  lq_ret :: "nat \<Rightarrow> bool"
  lq_in :: "'a list"
  lq_out :: "'a list"
  lq_fault :: bool

definition goto :: "nat \<Rightarrow> 'a lq_instr list \<Rightarrow> 'a lq_system \<Rightarrow> 'a lq_system" where
  "goto t code s = s\<lparr>lq_threads := (lq_threads s)(t := code)\<rparr>"

definition set_queue :: "'a list \<Rightarrow> 'a lq_system \<Rightarrow> 'a lq_system" where
  "set_queue q s = s\<lparr>lq_state := (lq_state s)\<lparr>lq_queue := q\<rparr>\<rparr>"

definition set_ret :: "nat \<Rightarrow> bool \<Rightarrow> 'a lq_system \<Rightarrow> 'a lq_system" where
  "set_ret t b s = s\<lparr>lq_ret := (lq_ret s)(t := b)\<rparr>"

fun exec_instr :: "nat \<Rightarrow> 'a lq_instr \<Rightarrow> 'a lq_instr list \<Rightarrow> 'a lq_system \<Rightarrow> 'a lq_system option" where
  "exec_instr t IAcquire code s = (if lq_lock s = None then Some (goto t code (s\<lparr>lq_lock := Some t\<rparr>)) else None)"
| "exec_instr t IRelease code s =
     Some (goto t code (if lq_lock s = Some t then s\<lparr>lq_lock := None\<rparr> else s\<lparr>lq_fault := True\<rparr>))"
| "exec_instr t (IPush x) code s =
     Some (goto t code (set_queue (lq_queue (lq_state s) @ [x]) (s\<lparr>lq_in := lq_in s @ [x]\<rparr>)))"
| "exec_instr t (ITestEmpty k) code s =
     Some (if lq_queue (lq_state s) = [] then goto t (drop k code) (set_ret t False s) else goto t code s)"
| "exec_instr t IFront code s =
     Some (goto t code (case lq_queue (lq_state s) of
                          [] \<Rightarrow> s\<lparr>lq_fault := True\<rparr>
                        | x # xs \<Rightarrow> s\<lparr>lq_reg := (lq_reg s)(t := Some x)\<rparr>))"
| "exec_instr t (ICheck check k) code s =
     Some (case lq_reg s t of
             None \<Rightarrow> goto t code (s\<lparr>lq_fault := True\<rparr>)
           | Some x \<Rightarrow> if check x then goto t code s else goto t (drop k code) (set_ret t False s))"
| "exec_instr t (IPop handed) code s =
     Some (goto t code (case lq_queue (lq_state s) of
                          [] \<Rightarrow> s\<lparr>lq_fault := True\<rparr>
                        | x # xs \<Rightarrow>
                            if handed
                            then set_queue xs (set_ret t True (s\<lparr>lq_out := lq_out s @ (case lq_reg s t of Some y \<Rightarrow> [y] | None \<Rightarrow> [])\<rparr>))
                            else set_queue xs (s\<lparr>lq_out := lq_out s @ [x]\<rparr>)))"
| "exec_instr t ISetCanceled code s = Some (goto t code (s\<lparr>lq_state := (lq_state s)\<lparr>lq_canceled := True\<rparr>\<rparr>))"
| "exec_instr t IReadCanceled code s = Some (goto t code (set_ret t (lq_canceled (lq_state s)) s))"
| "exec_instr t IReadEmpty code s = Some (goto t code (set_ret t (lq_queue (lq_state s) = []) s))"

text \<open>One instruction of one thread; \<open>None\<close> when the thread has finished, waits, or the system has faulted.\<close>

definition lq_exec :: "nat \<Rightarrow> 'a lq_system \<Rightarrow> 'a lq_system option" where
  "lq_exec t s =
     (if lq_fault s then None
      else case lq_threads s t of [] \<Rightarrow> None | i # code \<Rightarrow> exec_instr t i code s)"

inductive lq_step :: "'a lq_system \<Rightarrow> 'a lq_system \<Rightarrow> bool" where
  thread: "lq_exec t s = Some s' \<Longrightarrow> lq_step s s'"

definition lq_start :: "(nat \<Rightarrow> 'a lq_call list) \<Rightarrow> 'a lq_system" where
  "lq_start calls =
     \<lparr>lq_state = new_LockedQueue, lq_lock = None, lq_threads = (\<lambda>t. concat (map lq_code (calls t))),
      lq_reg = (\<lambda>t. None), lq_ret = (\<lambda>t. False), lq_in = [], lq_out = [], lq_fault = False\<rparr>"

text \<open>One thread running alone, for at most so many instructions.\<close>

fun lq_alone :: "nat \<Rightarrow> nat \<Rightarrow> 'a lq_system \<Rightarrow> 'a lq_system" where
  "lq_alone t 0 s = s"
| "lq_alone t (Suc k) s = (case lq_exec t s of None \<Rightarrow> s | Some s' \<Rightarrow> lq_alone t k s')"

section \<open>Specification vocabulary\<close>

text \<open>
  How the queue is to be used: whoever takes the lock with \<^verbatim>\<open>lock()\<close> or \<^verbatim>\<open>peek(false)\<close> gives it back with
  \<^verbatim>\<open>unlock()\<close> before calling anything else, and nobody else calls \<^verbatim>\<open>unlock()\<close>.  This speaks of the calls of the
  user only; what the methods themselves do with the lock is for the proofs to establish.
\<close>

fun keeps_lock :: "'a lq_call \<Rightarrow> bool" where
  "keeps_lock Lock = True"
| "keeps_lock (Peek autoUnlock) = (\<not> autoUnlock)"
| "keeps_lock c = False"

fun disciplined :: "'a lq_call list \<Rightarrow> bool" where
  "disciplined [] = True"
| "disciplined [c] = (\<not> keeps_lock c \<and> c \<noteq> Unlock)"
| "disciplined (c # d # cs) = (c \<noteq> Unlock \<and> (if keeps_lock c then d = Unlock \<and> disciplined cs else disciplined (d # cs)))"

text \<open>\<^verbatim>\<open>peek\<close> and \<^verbatim>\<open>pop_front\<close> do not test whether the queue is empty.\<close>

fun needs_item :: "'a lq_call \<Rightarrow> bool" where
  "needs_item (Peek b) = True"
| "needs_item PopFront = True"
| "needs_item c = False"

fun added :: "'a lq_call list \<Rightarrow> 'a list" where
  "added [] = []"
| "added (Add x # cs) = x # added cs"
| "added (c # cs) = added cs"

text \<open>
  Code that a thread can run to its end: without the lock it starts with taking it, and with the lock,
  for a deque and a variable that nobody else changes meanwhile, it hands out the front, skips no insertion, and
  comes to the release.  With \<open>strict\<close> it also reads no empty deque.
\<close>

function safe_code :: "bool \<Rightarrow> ('a list \<times> 'a option) option \<Rightarrow> 'a lq_instr list \<Rightarrow> bool" where
  "safe_code strict None [] = True"
| "safe_code strict (Some qr) [] = False"
| "safe_code strict None (i # code) = (i = IAcquire \<and> (\<forall>q r. safe_code strict (Some (q, r)) code))"
| "safe_code strict (Some (q, r)) (i # code) =
     (case i of
        IAcquire \<Rightarrow> False
      | IRelease \<Rightarrow> safe_code strict None code
      | IPush x \<Rightarrow> safe_code strict (Some (q @ [x], r)) code
      | ITestEmpty k \<Rightarrow>
          (\<forall>x. IPush x \<notin> set (take k code)) \<and>
          (if q = [] then safe_code strict (Some (q, r)) (drop k code) else safe_code strict (Some (q, r)) code)
      | IFront \<Rightarrow> (case q of [] \<Rightarrow> \<not> strict | x # xs \<Rightarrow> safe_code strict (Some (q, Some x)) code)
      | ICheck check k \<Rightarrow>
          (\<forall>x. IPush x \<notin> set (take k code)) \<and>
          (case r of
             None \<Rightarrow> False
           | Some x \<Rightarrow> if check x then safe_code strict (Some (q, r)) code else safe_code strict (Some (q, r)) (drop k code))
      | IPop handed \<Rightarrow>
          (case q of
             [] \<Rightarrow> \<not> strict
           | x # xs \<Rightarrow> (handed \<longrightarrow> r = Some x) \<and> safe_code strict (Some (xs, r)) code)
      | _ \<Rightarrow> safe_code strict (Some (q, r)) code)"
  by pat_completeness auto
termination by (relation "measure (\<lambda>(_, _, code). length code)") auto

definition view :: "nat \<Rightarrow> 'a lq_system \<Rightarrow> ('a list \<times> 'a option) option" where
  "view t s = (if lq_lock s = Some t then Some (lq_queue (lq_state s), lq_reg s t) else None)"

definition lq_inv :: "bool \<Rightarrow> 'a lq_system \<Rightarrow> bool" where
  "lq_inv strict s =
     (lq_in s = lq_out s @ lq_queue (lq_state s) \<and>
      (if lq_fault s then \<not> strict else \<forall>t. safe_code strict (view t s) (lq_threads s t)))"

section \<open>The interface of a first-in first-out queue\<close>

text \<open>
  What the users of the queue rely on, over an abstract content: the order of removal is the order of
  insertion.  The consequence for a whole run of insertions and removals is proved once.
\<close>

locale fifo =
  fixes items :: "'q \<Rightarrow> 'a list"
    and push :: "'a \<Rightarrow> 'q \<Rightarrow> 'q"
    and pull :: "'q \<Rightarrow> 'a option \<times> bool \<times> 'q"
  assumes items_push: "items (push x q) = items q @ [x]"
    and pull_Nil: "items q = [] \<Longrightarrow> pull q = (None, False, q)"
    and pull_Cons: "items q = x # xs \<Longrightarrow> \<exists>q'. pull q = (Some x, True, q') \<and> items q' = xs"
begin

fun pushes :: "'a list \<Rightarrow> 'q \<Rightarrow> 'q" where
  "pushes [] q = q"
| "pushes (x # xs) q = pushes xs (push x q)"

fun drain :: "nat \<Rightarrow> 'q \<Rightarrow> 'a list \<times> 'q" where
  "drain 0 q = ([], q)"
| "drain (Suc n) q =
     (case pull q of
        (Some x, True, q') \<Rightarrow> (let (xs, q'') = drain n q' in (x # xs, q''))
      | _ \<Rightarrow> ([], q))"

lemma items_pushes: "items (pushes xs q) = items q @ xs"
  by (induction xs arbitrary: q) (simp_all add: items_push)

lemma drain_items: "fst (drain n q) = take n (items q) \<and> items (snd (drain n q)) = drop n (items q)"
proof (induction n arbitrary: q)
  case (Suc n)
  show ?case
  proof (cases "items q")
    case Nil
    then show ?thesis by (simp add: pull_Nil)
  next
    case (Cons x xs)
    then obtain q' where "pull q = (Some x, True, q')" and "items q' = xs" using pull_Cons by blast
    with Suc [of q'] Cons show ?thesis by (simp add: case_prod_unfold)
  qed
qed simp

lemma drain_pushes: "items q = [] \<Longrightarrow> n \<ge> length xs \<Longrightarrow> fst (drain n (pushes xs q)) = xs"
  by (simp add: drain_items items_pushes)

end

interpretation lq: fifo lq_queue lq_add lq_next
proof
  show "\<exists>q'. lq_next q = (Some x, True, q') \<and> lq_queue q' = xs" if "lq_queue q = x # xs" for q :: "'a locked_queue" and x xs
    using that by (auto simp: lq_next_def)
qed (simp_all add: lq_add_def lq_next_def)

section \<open>Lemmas\<close>

lemmas lq_field_defs = goto_def set_queue_def set_ret_def

lemma lq_exec_Some:
  "lq_exec t s = Some s' \<longleftrightarrow> (\<exists>i code. \<not> lq_fault s \<and> lq_threads s t = i # code \<and> exec_instr t i code s = Some s')"
  by (auto simp: lq_exec_def split: list.splits)

text \<open>The code of every disciplined sequence of calls is safe; strictly so without \<^verbatim>\<open>peek\<close> and \<^verbatim>\<open>pop_front\<close>.\<close>

lemma safe_code_call:
  assumes "\<not> keeps_lock c" and "c \<noteq> Unlock" and "strict \<longrightarrow> \<not> needs_item c" and "safe_code strict None code"
  shows "safe_code strict None (lq_code c @ code)"
  using assms by (cases c) (auto simp: numeral_2_eq_2 numeral_3_eq_3 split: list.splits)

lemma safe_code_kept:
  assumes "keeps_lock c" and "strict \<longrightarrow> \<not> needs_item c" and "safe_code strict None code"
  shows "safe_code strict None (lq_code c @ lq_code Unlock @ code)"
  using assms by (cases c) (auto split: list.splits)

lemma disciplined_safe:
  "disciplined cs \<Longrightarrow> (\<forall>c\<in>set cs. strict \<longrightarrow> \<not> needs_item c) \<Longrightarrow> safe_code strict None (concat (map lq_code cs))"
proof (induction cs rule: disciplined.induct)
  case (2 c)
  then show ?case using safe_code_call [of c strict "[]"] by simp
next
  case (3 c d cs)
  show ?case
  proof (cases "keeps_lock c")
    case True
    with 3 show ?thesis using safe_code_kept [of c strict "concat (map lq_code cs)"] by simp
  next
    case False
    with 3 show ?thesis using safe_code_call [of c strict "concat (map lq_code (d # cs))"] by simp
  qed
qed simp

lemma lq_start_inv:
  assumes "\<forall>t. disciplined (calls t)" and "\<forall>t. \<forall>c\<in>set (calls t). strict \<longrightarrow> \<not> needs_item c"
  shows "lq_inv strict (lq_start calls)"
  using assms disciplined_safe by (auto simp: lq_inv_def lq_start_def new_LockedQueue_def view_def)

text \<open>A thread at any instruction but an acquisition holds the lock.\<close>

lemma safe_code_holder:
  assumes "lq_inv strict s" and "\<not> lq_fault s" and "lq_threads s t = i # code" and "i \<noteq> IAcquire"
  shows "lq_lock s = Some t"
proof -
  have "safe_code strict (view t s) (i # code)" using assms(1-3) unfolding lq_inv_def by metis
  with assms(4) show ?thesis by (auto simp: view_def split: if_splits)
qed

lemma view_other: "lq_lock s = Some t \<Longrightarrow> u \<noteq> t \<Longrightarrow> view u s = None"
  by (simp add: view_def)

text \<open>A step of the holder: the other threads see nothing of it.\<close>

lemma lq_inv_by_holder:
  assumes "lq_inv strict s" "\<not> lq_fault s" and "lq_lock s = Some t" "lq_lock s' = Some t \<or> lq_lock s' = None"
    and "lq_threads s' = (lq_threads s)(t := code)" and "lq_in s' = lq_out s' @ lq_queue (lq_state s')"
    and "lq_fault s' \<Longrightarrow> \<not> strict" and "\<not> lq_fault s' \<Longrightarrow> safe_code strict (view t s') code"
  shows "lq_inv strict s'"
proof -
  have "safe_code strict (view u s') (lq_threads s' u)" if "\<not> lq_fault s'" for u
  proof (cases "u = t")
    case False
    then have "view u s' = view u s" using assms(3,4) by (auto simp: view_def)
    moreover have "safe_code strict (view u s) (lq_threads s u)" using assms(1,2) by (simp add: lq_inv_def)
    ultimately show ?thesis using False assms(5) by simp
  qed (use assms(5,8) that in simp)
  with assms(6,7) show ?thesis by (simp add: lq_inv_def)
qed

lemma lq_step_inv:
  assumes "lq_step s s'" and inv: "lq_inv strict s"
  shows "lq_inv strict s'"
  using assms(1)
proof cases
  case (thread t)
  then obtain i code where nf: "\<not> lq_fault s" and t: "lq_threads s t = i # code"
    and x: "exec_instr t i code s = Some s'" by (auto simp: lq_exec_Some)
  have safe: "safe_code strict (view t s) (i # code)" using inv nf t unfolding lq_inv_def by metis
  have fifo: "lq_in s = lq_out s @ lq_queue (lq_state s)" using inv by (simp add: lq_inv_def)
  show ?thesis
  proof (cases "i = IAcquire")
    case True
    then have "lq_lock s = None" and s': "s' = goto t code (s\<lparr>lq_lock := Some t\<rparr>)" using x by (auto split: if_splits)
    moreover have "safe_code strict (view u s) (lq_threads s u)" for u using inv nf by (simp add: lq_inv_def)
    ultimately show ?thesis using safe nf fifo True by (auto simp: lq_inv_def goto_def view_def)
  next
    case False
    have l: "lq_lock s = Some t" by (rule safe_code_holder [OF inv nf t False])
    have v: "view t s = Some (lq_queue (lq_state s), lq_reg s t)" using l by (simp add: view_def)
    define code' where "code' = lq_threads s' t"
    have "lq_lock s' = Some t \<or> lq_lock s' = None" and "lq_threads s' = (lq_threads s)(t := code')"
      and "lq_in s' = lq_out s' @ lq_queue (lq_state s')" and "lq_fault s' \<Longrightarrow> \<not> strict"
      and "\<not> lq_fault s' \<Longrightarrow> safe_code strict (view t s') code'"
      using False x l fifo safe nf unfolding code'_def v
      by (cases i; auto simp: lq_field_defs view_def split: list.splits option.splits if_splits)+
    then show ?thesis using lq_inv_by_holder [OF inv nf l] by blast
  qed
qed

lemma lq_runs_inv: "lq_step\<^sup>*\<^sup>* s s' \<Longrightarrow> lq_inv strict s \<Longrightarrow> lq_inv strict s'"
  by (induction rule: rtranclp_induct) (auto intro: lq_step_inv)

text \<open>While any thread has code left and nothing undefined has happened, some thread can go on.\<close>

lemma exec_instr_runs: "i \<noteq> IAcquire \<or> lq_lock s = None \<Longrightarrow> \<exists>s'. exec_instr t i code s = Some s'"
  by (cases i) auto

lemma lq_inv_progress:
  assumes inv: "lq_inv strict s" and nf: "\<not> lq_fault s" and t: "lq_threads s t \<noteq> []"
  shows "\<exists>s'. lq_step s s'"
proof -
  have "\<exists>u i code. lq_threads s u = i # code \<and> (i \<noteq> IAcquire \<or> lq_lock s = None)"
  proof (cases "lq_lock s")
    case None
    with t show ?thesis by (metis neq_Nil_conv)
  next
    case (Some u)
    have "safe_code strict (view u s) (lq_threads s u)" using inv nf by (simp add: lq_inv_def)
    with Some have "\<exists>i code. lq_threads s u = i # code \<and> i \<noteq> IAcquire"
      by (cases "lq_threads s u") (auto simp: view_def)
    then show ?thesis by blast
  qed
  then show ?thesis using nf exec_instr_runs by (metis lq_exec_Some lq_step.thread)
qed

lemma lq_alone_runs: "lq_step\<^sup>*\<^sup>* s (lq_alone t k s)"
  by (induction k arbitrary: s) (auto split: option.split intro: converse_rtranclp_into_rtranclp lq_step.thread)

text \<open>
  With finitely many threads every step uses up instructions, and the values still to be added
  together with the values added stay the same.
\<close>

definition remaining :: "nat \<Rightarrow> 'a lq_system \<Rightarrow> nat" where
  "remaining n s = (\<Sum>t<n. length (lq_threads s t))"

fun adds_of :: "'a lq_instr list \<Rightarrow> 'a multiset" where
  "adds_of [] = {#}"
| "adds_of (IPush x # code) = add_mset x (adds_of code)"
| "adds_of (i # code) = adds_of code"

definition to_add :: "nat \<Rightarrow> 'a lq_system \<Rightarrow> 'a multiset" where
  "to_add n s = (\<Sum>t<n. adds_of (lq_threads s t))"

lemma adds_of_append [simp]: "adds_of (a @ b) = adds_of a + adds_of b"
  by (induction a rule: adds_of.induct) auto

lemma adds_of_code: "adds_of (concat (map lq_code cs)) = mset (added cs)"
proof (induction cs)
  case (Cons c cs)
  then show ?case by (cases c) auto
qed simp

lemma adds_of_none: "\<forall>x. IPush x \<notin> set code \<Longrightarrow> adds_of code = {#}"
  by (induction code rule: adds_of.induct) auto

lemma adds_of_drop: "\<forall>x. IPush x \<notin> set (take k code) \<Longrightarrow> adds_of (drop k code) = adds_of code"
  by (metis adds_of_append adds_of_none append_take_drop_id empty_neutral(1))

lemma sum_upd_cancel:
  fixes f :: "nat \<Rightarrow> 'b::comm_monoid_add"
  assumes "t < n" and "f t = d + f' t" and "\<And>u. u \<noteq> t \<Longrightarrow> f u = f' u"
  shows "(\<Sum>u<n. f u) = d + (\<Sum>u<n. f' u)"
proof -
  have "(\<Sum>u<n. f u) = f t + (\<Sum>u\<in>{..<n} - {t}. f u)" using assms(1) by (simp add: sum.remove)
  also have "(\<Sum>u\<in>{..<n} - {t}. f u) = (\<Sum>u\<in>{..<n} - {t}. f' u)" using assms(3) by (intro sum.cong) auto
  finally show ?thesis using assms(1,2) by (simp add: sum.remove [of "{..<n}" t f'] add.assoc)
qed

lemma exec_instr_counts:
  assumes "exec_instr t i code s = Some s'" and "\<not> lq_fault s" and "safe_code strict v (i # code)"
  shows "lq_threads s' = (lq_threads s)(t := lq_threads s' t) \<and> length (lq_threads s' t) \<le> length code \<and>
    adds_of (i # code) + mset (lq_in s) = adds_of (lq_threads s' t) + mset (lq_in s')"
proof -
  have "\<forall>x. IPush x \<notin> set (take k code)" if "i = ITestEmpty k \<or> i = ICheck P k" for P k
    using assms(3) that by (cases v) auto
  then show ?thesis using assms(1,2)
    by (cases i) (auto simp: lq_field_defs adds_of_drop split: if_splits list.splits option.splits)
qed

lemma lq_step_counts:
  assumes "lq_step s s'" and "lq_inv strict s" and "\<forall>t\<ge>n. lq_threads s t = []"
  shows "remaining n s' < remaining n s \<and> to_add n s + mset (lq_in s) = to_add n s' + mset (lq_in s') \<and>
    (\<forall>t\<ge>n. lq_threads s' t = [])"
  using assms(1)
proof cases
  case (thread t)
  then obtain i code where nf: "\<not> lq_fault s" and t: "lq_threads s t = i # code"
    and x: "exec_instr t i code s = Some s'" by (auto simp: lq_exec_Some)
  have safe: "safe_code strict (view t s) (i # code)" using assms(2) nf t unfolding lq_inv_def by metis
  note c = exec_instr_counts [OF x nf safe]
  have n: "t < n" using t assms(3) by (metis list.distinct(1) not_le)
  have o: "lq_threads s' u = lq_threads s u" if "u \<noteq> t" for u using c that by (metis fun_upd_apply)
  have r: "remaining n s = (length (lq_threads s t) - length (lq_threads s' t)) + remaining n s'"
    using sum_upd_cancel [of t n "\<lambda>u. length (lq_threads s u)" "length (lq_threads s t) - length (lq_threads s' t)"
        "\<lambda>u. length (lq_threads s' u)"] c t o n
    by (simp add: remaining_def)
  have "to_add n s + (mset (lq_in s) + adds_of (lq_threads s' t)) =
      (adds_of (lq_threads s t) + mset (lq_in s)) + to_add n s'"
    using sum_upd_cancel [of t n "\<lambda>u. adds_of (lq_threads s u) + (if u = t then adds_of (lq_threads s' t) else {#})"
        "adds_of (lq_threads s t)" "\<lambda>u. adds_of (lq_threads s' u)"] n o
    by (simp add: to_add_def sum.distrib ac_simps)
  moreover have "adds_of (lq_threads s t) + mset (lq_in s) = adds_of (lq_threads s' t) + mset (lq_in s')" using c t by simp
  ultimately have "(to_add n s + mset (lq_in s)) + (adds_of (lq_threads s' t) + adds_of (lq_threads s t)) =
      (to_add n s' + mset (lq_in s')) + (adds_of (lq_threads s' t) + adds_of (lq_threads s t))"
    by (metis (no_types, opaque_lifting) add.assoc add.commute)
  then have "to_add n s + mset (lq_in s) = to_add n s' + mset (lq_in s')" by (simp only: add_right_cancel)
  with r c t o n assms(3) show ?thesis by auto
qed

lemma lq_runs_count:
  assumes "(lq_step ^^ k) s s'" and "lq_inv strict s" and "\<forall>t\<ge>n. lq_threads s t = []"
  shows "k + remaining n s' \<le> remaining n s \<and> to_add n s + mset (lq_in s) = to_add n s' + mset (lq_in s') \<and>
    (\<forall>t\<ge>n. lq_threads s' t = [])"
  using assms
proof (induction k arbitrary: s')
  case (Suc k)
  then obtain s1 where s1: "(lq_step ^^ k) s s1" "lq_step s1 s'" by auto
  have "lq_inv strict s1" using lq_runs_inv [OF relpowp_imp_rtranclp [OF s1(1)] Suc(3)] .
  then show ?case using Suc s1 lq_step_counts [of s1 s' strict n] by fastforce
qed simp

lemma lq_finishes:
  "lq_inv strict s \<Longrightarrow> \<forall>t\<ge>n. lq_threads s t = [] \<Longrightarrow>
    \<exists>s'. lq_step\<^sup>*\<^sup>* s s' \<and> (lq_fault s' \<or> (\<forall>t. lq_threads s' t = []))"
proof (induction "remaining n s" arbitrary: s rule: less_induct)
  case less
  show ?case
  proof (cases "lq_fault s \<or> (\<forall>t. lq_threads s t = [])")
    case False
    then obtain s1 where s1: "lq_step s s1" using lq_inv_progress [OF less(2)] by blast
    note c = lq_step_counts [OF s1 less(2,3)]
    from less(1) [of s1] c lq_step_inv [OF s1 less(2)] obtain s' where
      "lq_step\<^sup>*\<^sup>* s1 s'" "lq_fault s' \<or> (\<forall>t. lq_threads s' t = [])" by blast
    with s1 show ?thesis by (meson converse_rtranclp_into_rtranclp)
  qed blast
qed


section \<open>Properties\<close>

text \<open>
  C29. However the instructions of threads that share a queue are interleaved, provided their calls are
  disciplined (whoever calls \<^verbatim>\<open>lock()\<close> or \<^verbatim>\<open>peek(false)\<close> calls \<^verbatim>\<open>unlock()\<close> next, and nobody else calls \<^verbatim>\<open>unlock()\<close>): the
  values handed out or dropped so far followed by the values in the queue are the values added, in
  order; as long as nothing undefined has happened only the holder of the lock is past the acquisition in a
  method, and while some thread has work left some thread can go on; and something undefined happens only if
  some thread calls \<^verbatim>\<open>peek\<close> or \<^verbatim>\<open>pop_front\<close>, which do not test for an empty queue.
\<close>

theorem locked_queue_fifo:
  assumes "\<forall>t. disciplined (calls t)" and "lq_step\<^sup>*\<^sup>* (lq_start calls) s"
  shows "lq_in s = lq_out s @ lq_queue (lq_state s) \<and>
    (\<not> lq_fault s \<longrightarrow>
       (\<forall>t i code. lq_threads s t = i # code \<longrightarrow> i \<noteq> IAcquire \<longrightarrow> lq_lock s = Some t) \<and>
       ((\<exists>t. lq_threads s t \<noteq> []) \<longrightarrow> (\<exists>s'. lq_step s s'))) \<and>
    (lq_fault s \<longrightarrow> (\<exists>t. \<exists>c\<in>set (calls t). needs_item c))"
proof -
  have inv: "lq_inv False s" by (rule lq_runs_inv [OF assms(2) lq_start_inv [OF assms(1)]]) simp
  have "\<not> lq_fault s" if "\<not> (\<exists>t. \<exists>c\<in>set (calls t). needs_item c)"
    using lq_runs_inv [OF assms(2) lq_start_inv [of calls True]] assms(1) that by (auto simp: lq_inv_def)
  then show ?thesis
    using inv safe_code_holder [OF inv] lq_inv_progress [OF inv] by (auto simp: lq_inv_def)
qed

definition example_calls :: "nat \<Rightarrow> nat lq_call list" where
  "example_calls t = (if t = 0 then [Add 7, Lock, Unlock] else if t = 1 then [Next, Peek False, Unlock] else [])"

lemma example_disciplined: "\<forall>t. disciplined (example_calls t)"
  by (simp add: example_calls_def)

theorem locked_queue_fifo_witness:
  "let s = lq_alone 1 3 (lq_alone 0 2 (lq_start example_calls))
   in lq_step\<^sup>*\<^sup>* (lq_start example_calls) s \<and> lq_in s = [7] \<and> lq_in s = lq_out s @ lq_queue (lq_state s) \<and>
      lq_lock s = Some 0 \<and> (\<exists>s'. lq_step s s')"
proof -
  let ?start = "lq_start example_calls"
  let ?s = "lq_alone 1 3 (lq_alone 0 2 ?start)"
  have r: "lq_step\<^sup>*\<^sup>* ?start ?s" using rtranclp_trans [OF lq_alone_runs [of ?start 0 2] lq_alone_runs [of _ 1 3]] .
  have e: "lq_in ?s = [7]" "lq_lock ?s = Some 0" "\<not> lq_fault ?s" "lq_threads ?s 1 \<noteq> []"
    by (simp_all add: lq_start_def example_calls_def new_LockedQueue_def lq_exec_def lq_field_defs numeral_2_eq_2 numeral_3_eq_3)
  show ?thesis using locked_queue_fifo [OF example_disciplined r] r e unfolding Let_def by blast
qed

text \<open>
  C28. Every call returns.  When \<open>n\<close> threads share a queue and their calls are disciplined, no schedule takes
  more steps than the threads have instructions; every state a schedule reaches can be continued until all threads
  have finished or something undefined happens; and a state from which no step is possible, if nothing
  undefined has happened (which takes a call of \<^verbatim>\<open>peek\<close> or \<^verbatim>\<open>pop_front\<close>), has all threads finished, the lock free and
  every value of every \<^verbatim>\<open>add\<close> either still in the queue or handed out or dropped, exactly once.
\<close>

theorem locked_queue_completes:
  assumes "\<forall>t. disciplined (calls t)" and "\<forall>t\<ge>n. calls t = []" and "(lq_step ^^ k) (lq_start calls) s"
  shows "k \<le> (\<Sum>t<n. length (concat (map lq_code (calls t)))) \<and>
    (\<exists>s'. lq_step\<^sup>*\<^sup>* s s' \<and> (lq_fault s' \<or> (\<forall>t. lq_threads s' t = []))) \<and>
    (lq_fault s \<longrightarrow> (\<exists>t. \<exists>c\<in>set (calls t). needs_item c)) \<and>
    ((\<nexists>s'. lq_step s s') \<longrightarrow> \<not> lq_fault s \<longrightarrow>
       (\<forall>t. lq_threads s t = []) \<and> lq_lock s = None \<and>
       mset (lq_out s) + mset (lq_queue (lq_state s)) = (\<Sum>t<n. mset (added (calls t))))"
proof -
  have i0: "lq_inv strict (lq_start calls)" if "\<forall>t. \<forall>c\<in>set (calls t). strict \<longrightarrow> \<not> needs_item c" for strict
    by (rule lq_start_inv [OF assms(1) that])
  have run: "lq_step\<^sup>*\<^sup>* (lq_start calls) s" using assms(3) by (rule relpowp_imp_rtranclp)
  have inv: "lq_inv False s" by (rule lq_runs_inv [OF run i0]) simp
  have nofault: "\<exists>t. \<exists>c\<in>set (calls t). needs_item c" if "lq_fault s"
    using lq_runs_inv [OF run i0 [of True]] that by (auto simp: lq_inv_def)
  have n: "\<forall>t\<ge>n. lq_threads (lq_start calls) t = []" using assms(2) by (simp add: lq_start_def)
  note c = lq_runs_count [OF assms(3) i0 n, of False, simplified]
  have r: "remaining n (lq_start calls) = (\<Sum>t<n. length (concat (map lq_code (calls t))))"
    "to_add n (lq_start calls) = (\<Sum>t<n. mset (added (calls t)))" "lq_in (lq_start calls) = []"
    by (simp_all add: remaining_def to_add_def lq_start_def adds_of_code)
  have "(\<forall>t. lq_threads s t = []) \<and> lq_lock s = None \<and>
      mset (lq_out s) + mset (lq_queue (lq_state s)) = (\<Sum>t<n. mset (added (calls t)))"
    if "\<nexists>s'. lq_step s s'" and nf: "\<not> lq_fault s"
  proof -
    have fin: "lq_threads s t = []" for t using that lq_inv_progress [OF inv nf] by blast
    have "safe_code False (view t s) []" for t using inv nf fin by (metis lq_inv_def)
    then have "lq_lock s = None" by (metis option.exhaust safe_code.simps(2) view_def)
    moreover have "mset (lq_in s) = mset (lq_out s) + mset (lq_queue (lq_state s))" using inv by (simp add: lq_inv_def)
    moreover have "to_add n s = {#}" using fin by (simp add: to_add_def)
    ultimately show ?thesis using c r fin by simp
  qed
  then show ?thesis using c r nofault lq_finishes [OF inv, of n] by auto
qed

theorem locked_queue_completes_witness:
  "\<exists>s'. lq_step\<^sup>*\<^sup>* (lq_start example_calls) s' \<and> (lq_fault s' \<or> (\<forall>t. lq_threads s' t = []))"
proof -
  have "\<forall>t\<ge>2. example_calls t = []" by (simp add: example_calls_def)
  then show ?thesis
    using locked_queue_completes [OF example_disciplined, of 2 0 "lq_start example_calls"] by auto
qed



end
