(* ===== verification/ByteBuffer.thy ===== *)
theory ByteBuffer
  imports Axium_Prelude
begin

text \<open>
  The network buffer of \<^verbatim>\<open>src/src/server/shared/Packets/ByteBuffer.h\<close> and the packet type
  \<^verbatim>\<open>WorldPacket\<close> built on it.  A buffer is its storage with a read and a write position; every
  read and write keeps the source's bound checks, including the \<^verbatim>\<open>size_t\<close> addition inside them,
  and returns the exception, the failed assertion or the out-of-bounds access as a value.  The
  locale \<open>bb_codec\<close> states what a matching pair of \<^verbatim>\<open>operator<<\<close> and \<^verbatim>\<open>operator>>\<close> promises;
  it is interpreted for the integer types and for strings, and the container operators are
  proved to be inverse to each other on top of it.
\<close>

section \<open>Data\<close>

text \<open>
  \<^verbatim>\<open>ByteBufferException(add, pos, esize, size)\<close>, the \<^verbatim>\<open>ASSERT\<close> of \<open>append\<close> (which stops the
  process) and an access outside the vector (undefined behaviour in C++).
\<close>

datatype bb_error =
    ByteBufferException (bbe_add: bool) (bbe_pos: nat) (bbe_esize: nat) (bbe_size: nat)
  | AssertionFailed
  | OutOfBounds

record byte_buffer =
  bb_rpos :: nat
  bb_wpos :: nat
  bb_storage :: "u8 list"

definition new_ByteBuffer :: byte_buffer where
  "new_ByteBuffer = \<lparr>bb_rpos = 0, bb_wpos = 0, bb_storage = []\<rparr>"

abbreviation bb_size :: "byte_buffer \<Rightarrow> nat" where
  "bb_size b \<equiv> length (bb_storage b)"

text \<open>
  The bytes of a value as \<^verbatim>\<open>(uint8*)&value\<close> shows them after \<^verbatim>\<open>EndianConvert\<close>: little endian,
  \<^verbatim>\<open>sizeof(T)\<close> of them.  Signed integers and floating-point numbers are the words of their
  bit patterns.
\<close>

definition sizeof_T :: "'a::len word \<Rightarrow> nat" where
  "sizeof_T w = LENGTH('a) div 8"

definition le_bytes :: "'a::len word \<Rightarrow> u8 list" where
  "le_bytes w = map (\<lambda>i. ucast (drop_bit (8 * i) w)) [0..<sizeof_T w]"

fun le_value :: "u8 list \<Rightarrow> 'a::len word" where
  "le_value [] = 0"
| "le_value (x # xs) = ucast x OR push_bit 8 (le_value xs)"

text \<open>The characters of a \<^verbatim>\<open>std::string\<close> are bytes.\<close>

definition byte_of_char :: "char \<Rightarrow> u8" where
  "byte_of_char c = word_of_nat (of_char c)"

definition char_of_byte :: "u8 \<Rightarrow> char" where
  "char_of_byte x = char_of (unat x)"

definition string_bytes :: "string \<Rightarrow> u8 list" where
  "string_bytes s = map byte_of_char s"

section \<open>Positions and storage\<close>

definition bb_clear :: "byte_buffer \<Rightarrow> byte_buffer" where
  "bb_clear b = b\<lparr>bb_storage := [], bb_rpos := 0, bb_wpos := 0\<rparr>"

definition bb_set_rpos :: "nat \<Rightarrow> byte_buffer \<Rightarrow> byte_buffer" where
  "bb_set_rpos p b = b\<lparr>bb_rpos := p\<rparr>"

definition bb_rfinish :: "byte_buffer \<Rightarrow> byte_buffer" where
  "bb_rfinish b = b\<lparr>bb_rpos := bb_wpos b\<rparr>"

definition bb_set_wpos :: "nat \<Rightarrow> byte_buffer \<Rightarrow> byte_buffer" where
  "bb_set_wpos p b = b\<lparr>bb_wpos := p\<rparr>"

text \<open>\<^verbatim>\<open>std::vector::resize\<close> and \<^verbatim>\<open>memcpy\<close> into the vector.\<close>

definition vec_resize :: "nat \<Rightarrow> u8 list \<Rightarrow> u8 list" where
  "vec_resize n xs = take n xs @ replicate (n - length xs) 0"

definition vec_overwrite :: "nat \<Rightarrow> u8 list \<Rightarrow> u8 list \<Rightarrow> u8 list" where
  "vec_overwrite pos src xs = take pos xs @ src @ drop (pos + length src) xs"

definition bb_resize :: "nat \<Rightarrow> byte_buffer \<Rightarrow> byte_buffer" where
  "bb_resize n b = b\<lparr>bb_storage := vec_resize n (bb_storage b), bb_rpos := 0, bb_wpos := n\<rparr>"

section \<open>Writing\<close>

definition bb_append_bytes :: "u8 list \<Rightarrow> byte_buffer \<Rightarrow> bb_error + byte_buffer" where
  "bb_append_bytes src b =
     (if src = [] then Inr b
      else if \<not> bb_size b < 10000000 then Inl AssertionFailed
      else
        let cnt = length src;
            st = (if bb_size b < szadd (bb_wpos b) cnt
                  then vec_resize (szadd (bb_wpos b) cnt) (bb_storage b) else bb_storage b)
        in if bb_wpos b + cnt \<le> length st
           then Inr (b\<lparr>bb_storage := vec_overwrite (bb_wpos b) src st, bb_wpos := bb_wpos b + cnt\<rparr>)
           else Inl OutOfBounds)"

definition bb_append :: "'a::len word \<Rightarrow> byte_buffer \<Rightarrow> bb_error + byte_buffer" where
  "bb_append v = bb_append_bytes (le_bytes v)"

definition bb_put_bytes :: "nat \<Rightarrow> u8 list \<Rightarrow> byte_buffer \<Rightarrow> bb_error + byte_buffer" where
  "bb_put_bytes pos src b =
     (if bb_size b < szadd pos (length src)
      then Inl (ByteBufferException True pos (length src) (bb_size b))
      else if bb_size b < pos + length src then Inl OutOfBounds
      else Inr (b\<lparr>bb_storage := vec_overwrite pos src (bb_storage b)\<rparr>))"

definition bb_put :: "nat \<Rightarrow> 'a::len word \<Rightarrow> byte_buffer \<Rightarrow> bb_error + byte_buffer" where
  "bb_put pos v = bb_put_bytes pos (le_bytes v)"

text \<open>All the arithmetic \<^verbatim>\<open>operator<<\<close> are \<^verbatim>\<open>append<T>(value)\<close>.\<close>

definition bb_out :: "'a::len word \<Rightarrow> byte_buffer \<Rightarrow> bb_error + byte_buffer" where
  "bb_out v = bb_append v"

definition bb_out_string :: "string \<Rightarrow> byte_buffer \<Rightarrow> bb_error + byte_buffer" where
  "bb_out_string s b =
     res_bind (bb_append_bytes (string_bytes s) b) (bb_append (0::u8))"

text \<open>\<^verbatim>\<open>operator<<(const char*)\<close>: the bytes up to the terminator, none for a null pointer.\<close>

definition bb_out_cstr :: "string option \<Rightarrow> byte_buffer \<Rightarrow> bb_error + byte_buffer" where
  "bb_out_cstr str b =
     res_bind (bb_append_bytes
                (case str of None \<Rightarrow> []
                 | Some s \<Rightarrow> string_bytes (takeWhile (\<lambda>c. byte_of_char c \<noteq> 0) s)) b)
              (bb_append (0::u8))"

definition bb_append_string :: "string \<Rightarrow> byte_buffer \<Rightarrow> bb_error + byte_buffer" where
  "bb_append_string s = bb_append_bytes (string_bytes s @ [0])"

definition bb_append_array :: "'a::len word list \<Rightarrow> byte_buffer \<Rightarrow> bb_error + byte_buffer" where
  "bb_append_array xs = bb_append_bytes (concat (map le_bytes xs))"

definition bb_append_buffer :: "byte_buffer \<Rightarrow> byte_buffer \<Rightarrow> bb_error + byte_buffer" where
  "bb_append_buffer src b =
     (if bb_wpos src = 0 then Inr b
      else if bb_size src < bb_wpos src then Inl OutOfBounds
      else bb_append_bytes (take (bb_wpos src) (bb_storage src)) b)"

text \<open>
  \<open>appendPackXYZ\<close>: the arguments are the three results of \<^verbatim>\<open>(int)(x / 0.25f)\<close>.
\<close>

definition bb_appendPackXYZ :: "u32 \<Rightarrow> u32 \<Rightarrow> u32 \<Rightarrow> byte_buffer \<Rightarrow> bb_error + byte_buffer" where
  "bb_appendPackXYZ qx qy qz =
     bb_out ((qx AND 0x7FF) OR push_bit 11 (qy AND 0x7FF) OR push_bit 22 (qz AND 0x3FF))"

text \<open>
  The loop of \<open>appendPackGUID\<close>: \<open>i\<close> is the \<^verbatim>\<open>uint8\<close> counter, \<open>gmark\<close> is \<^verbatim>\<open>packGUID[0]\<close> and
  \<open>bytes\<close> the array's cells from index 1 up to \<^verbatim>\<open>size\<close>.
\<close>

function packGUID_loop :: "nat \<Rightarrow> u64 \<Rightarrow> u8 \<Rightarrow> u8 list \<Rightarrow> u8 list" where
  "packGUID_loop i guid gmark bytes =
     (if guid = 0 then gmark # bytes
      else if guid AND 0xFF \<noteq> 0
      then packGUID_loop (Suc i) (drop_bit 8 guid) (gmark OR push_bit i 1)
             (bytes @ [ucast (guid AND 0xFF)])
      else packGUID_loop (Suc i) (drop_bit 8 guid) gmark bytes)"
  by pat_completeness auto
termination
proof (relation "measure (\<lambda>(i, guid, gmark, bytes). unat guid)")
  have dec: "unat (drop_bit 8 guid) < unat guid" if "guid \<noteq> 0" for guid :: u64
  proof -
    have "unat guid \<noteq> 0" using that by (simp add: unat_eq_0)
    moreover have "unat (drop_bit 8 guid) = unat guid div 256"
      by (simp add: drop_bit_eq_div unat_div)
    ultimately show ?thesis by simp
  qed
  show "((Suc i, drop_bit 8 guid, gmark OR push_bit i 1, bytes @ [ucast (guid AND 0xFF)]),
          i, guid, gmark, bytes) \<in> measure (\<lambda>(i, guid, gmark, bytes). unat guid)"
    if "guid \<noteq> 0" for i :: nat and guid :: u64 and gmark :: u8 and bytes :: "u8 list"
    using dec [OF that] by simp
  show "((Suc i, drop_bit 8 guid, gmark, bytes), i, guid, gmark, bytes)
          \<in> measure (\<lambda>(i, guid, gmark, bytes). unat guid)"
    if "guid \<noteq> 0" for i :: nat and guid :: u64 and gmark :: u8 and bytes :: "u8 list"
    using dec [OF that] by simp
qed simp

definition bb_appendPackGUID :: "u64 \<Rightarrow> byte_buffer \<Rightarrow> bb_error + byte_buffer" where
  "bb_appendPackGUID guid = bb_append_bytes (packGUID_loop 0 guid 0 [])"

section \<open>Reading\<close>

text \<open>
  \<^verbatim>\<open>read<T>(pos)\<close> reads \<^verbatim>\<open>sizeof(T)\<close> bytes; the check is on the wrapped sum, the access on the
  real one.
\<close>

definition bb_peek_bytes :: "nat \<Rightarrow> nat \<Rightarrow> byte_buffer \<Rightarrow> bb_error + u8 list" where
  "bb_peek_bytes pos n b =
     (if bb_size b < szadd pos n then Inl (ByteBufferException False pos n (bb_size b))
      else if bb_size b < pos + n then Inl OutOfBounds
      else Inr (take n (drop pos (bb_storage b))))"

definition bb_read_at :: "nat \<Rightarrow> byte_buffer \<Rightarrow> bb_error + 'a::len word" where
  "bb_read_at pos b =
     res_bind (bb_peek_bytes pos (LENGTH('a) div 8) b) (\<lambda>bs. Inr (le_value bs))"

definition bb_read :: "byte_buffer \<Rightarrow> bb_error + ('a::len word \<times> byte_buffer)" where
  "bb_read b =
     res_bind (bb_read_at (bb_rpos b) b)
       (\<lambda>v. Inr (v, b\<lparr>bb_rpos := bb_rpos b + LENGTH('a) div 8\<rparr>))"

text \<open>All the arithmetic \<^verbatim>\<open>operator>>\<close> are \<^verbatim>\<open>value = read<T>()\<close>.\<close>

definition bb_in :: "byte_buffer \<Rightarrow> bb_error + ('a::len word \<times> byte_buffer)" where
  "bb_in b = bb_read b"

text \<open>\<^verbatim>\<open>read<char>() > 0\<close>, where \<^verbatim>\<open>char\<close> is signed.\<close>

definition bb_in_bool :: "byte_buffer \<Rightarrow> bb_error + (bool \<times> byte_buffer)" where
  "bb_in_bool b = res_bind (bb_read b) (\<lambda>(c :: u8, b'). Inr (0 < sint c, b'))"

definition bb_at :: "byte_buffer \<Rightarrow> nat \<Rightarrow> bb_error + u8" where
  "bb_at b pos = bb_read_at pos b"

definition bb_read_skip :: "nat \<Rightarrow> byte_buffer \<Rightarrow> bb_error + byte_buffer" where
  "bb_read_skip skip b =
     (if bb_size b < szadd (bb_rpos b) skip
      then Inl (ByteBufferException False (bb_rpos b) skip (bb_size b))
      else Inr (b\<lparr>bb_rpos := szadd (bb_rpos b) skip\<rparr>))"

definition bb_read_bytes :: "nat \<Rightarrow> byte_buffer \<Rightarrow> bb_error + (u8 list \<times> byte_buffer)" where
  "bb_read_bytes len b =
     res_bind (bb_peek_bytes (bb_rpos b) len b)
       (\<lambda>bs. Inr (bs, b\<lparr>bb_rpos := bb_rpos b + len\<rparr>))"

text \<open>\<^verbatim>\<open>operator>>(std::string&)\<close>.\<close>

lemma bb_read_rpos:
  "bb_read b = Inr (v :: 'a::len word, b') \<Longrightarrow>
   bb_size b' = bb_size b \<and> bb_rpos b' = bb_rpos b + LENGTH('a) div 8 \<and> bb_rpos b' \<le> bb_size b"
  by (auto simp: bb_read_def bb_read_at_def bb_peek_bytes_def res_bind_Inr_iff split: if_splits)

function bb_in_string_loop :: "byte_buffer \<Rightarrow> string \<Rightarrow> bb_error + (string \<times> byte_buffer)" where
  "bb_in_string_loop b value =
     (if bb_rpos b < bb_size b
      then (case bb_read b of
              Inl e \<Rightarrow> Inl e
            | Inr (c :: u8, b') \<Rightarrow>
                if c = 0 then Inr (value, b')
                else bb_in_string_loop b' (value @ [char_of_byte c]))
      else Inr (value, b))"
  by pat_completeness auto
termination
  by (relation "measure (\<lambda>(b, value). bb_size b - bb_rpos b)") (auto dest!: bb_read_rpos)

definition bb_in_string :: "byte_buffer \<Rightarrow> bb_error + (string \<times> byte_buffer)" where
  "bb_in_string b = bb_in_string_loop b []"

definition bb_skip_string :: "byte_buffer \<Rightarrow> bb_error + byte_buffer" where
  "bb_skip_string b = res_bind (bb_in_string b) (\<lambda>(s, b'). Inr b')"

text \<open>The loop of \<open>readPackGUID\<close> over \<^verbatim>\<open>i = 0..7\<close>.\<close>

fun readPackGUID_loop :: "nat list \<Rightarrow> u8 \<Rightarrow> u64 \<Rightarrow> byte_buffer \<Rightarrow> bb_error + (u64 \<times> byte_buffer)" where
  "readPackGUID_loop [] guidmark guid b = Inr (guid, b)"
| "readPackGUID_loop (i # is) guidmark guid b =
     (if guidmark AND push_bit i 1 \<noteq> 0
      then if bb_size b < szadd (bb_rpos b) 1
           then Inl (ByteBufferException False (bb_rpos b) 1 (bb_size b))
           else res_bind (bb_in b)
                  (\<lambda>(x :: u8, b').
                     readPackGUID_loop is guidmark (guid OR push_bit (i * 8) (ucast x)) b')
      else readPackGUID_loop is guidmark guid b)"

definition bb_readPackGUID :: "byte_buffer \<Rightarrow> bb_error + (u64 \<times> byte_buffer)" where
  "bb_readPackGUID b =
     (if bb_size b < szadd (bb_rpos b) 1
      then Inl (ByteBufferException False (bb_rpos b) 1 (bb_size b))
      else res_bind (bb_in b) (\<lambda>(guidmark, b'). readPackGUID_loop [0..<8] guidmark 0 b'))"

section \<open>Containers\<close>

text \<open>
  \<^verbatim>\<open>operator<<\<close> and \<^verbatim>\<open>operator>>\<close> on \<^verbatim>\<open>std::vector\<close> and \<^verbatim>\<open>std::list\<close>: the \<^verbatim>\<open>uint32\<close> length, then the
  elements by their own operator.
\<close>

definition bb_out_vector ::
  "('a \<Rightarrow> byte_buffer \<Rightarrow> bb_error + byte_buffer) \<Rightarrow> 'a list \<Rightarrow> byte_buffer \<Rightarrow> bb_error + byte_buffer"
where
  "bb_out_vector wr v b =
     res_bind (bb_out (word_of_nat (length v) :: u32) b) (res_fold wr v)"

fun bb_in_elems ::
  "(byte_buffer \<Rightarrow> bb_error + ('a \<times> byte_buffer)) \<Rightarrow> nat \<Rightarrow> byte_buffer
     \<Rightarrow> bb_error + ('a list \<times> byte_buffer)"
where
  "bb_in_elems rd 0 b = Inr ([], b)"
| "bb_in_elems rd (Suc n) b =
     res_bind (rd b) (\<lambda>(x, b'). res_bind (bb_in_elems rd n b') (\<lambda>(xs, b''). Inr (x # xs, b'')))"

definition bb_in_vector ::
  "(byte_buffer \<Rightarrow> bb_error + ('a \<times> byte_buffer)) \<Rightarrow> byte_buffer \<Rightarrow> bb_error + ('a list \<times> byte_buffer)"
where
  "bb_in_vector rd b =
     res_bind (bb_in b) (\<lambda>(vsize :: u32, b'). bb_in_elems rd (unat vsize) b')"

text \<open>The same on \<^verbatim>\<open>std::map\<close>; \<^verbatim>\<open>insert\<close> keeps the entry already there.\<close>

definition bb_out_pair ::
  "('k \<Rightarrow> byte_buffer \<Rightarrow> bb_error + byte_buffer) \<Rightarrow> ('v \<Rightarrow> byte_buffer \<Rightarrow> bb_error + byte_buffer)
     \<Rightarrow> 'k \<times> 'v \<Rightarrow> byte_buffer \<Rightarrow> bb_error + byte_buffer"
where
  "bb_out_pair wk wv e b = res_bind (wk (fst e) b) (wv (snd e))"

definition bb_in_pair ::
  "(byte_buffer \<Rightarrow> bb_error + ('k \<times> byte_buffer)) \<Rightarrow> (byte_buffer \<Rightarrow> bb_error + ('v \<times> byte_buffer))
     \<Rightarrow> byte_buffer \<Rightarrow> bb_error + (('k \<times> 'v) \<times> byte_buffer)"
where
  "bb_in_pair rk rv b =
     res_bind (rk b) (\<lambda>(k, b'). res_bind (rv b') (\<lambda>(v, b''). Inr ((k, v), b'')))"

definition bb_out_map ::
  "('k \<Rightarrow> byte_buffer \<Rightarrow> bb_error + byte_buffer) \<Rightarrow> ('v \<Rightarrow> byte_buffer \<Rightarrow> bb_error + byte_buffer)
     \<Rightarrow> ('k, 'v) omap \<Rightarrow> byte_buffer \<Rightarrow> bb_error + byte_buffer"
where
  "bb_out_map wk wv m b =
     res_bind (bb_out (word_of_nat (length m) :: u32) b) (res_fold (bb_out_pair wk wv) m)"

definition map_insert :: "'k::linorder \<times> 'v \<Rightarrow> ('k, 'v) omap \<Rightarrow> ('k, 'v) omap" where
  "map_insert e m = (if omap_find m (fst e) = None then omap_set (fst e) (snd e) m else m)"

definition bb_in_map ::
  "(byte_buffer \<Rightarrow> bb_error + ('k::linorder \<times> byte_buffer))
     \<Rightarrow> (byte_buffer \<Rightarrow> bb_error + ('v \<times> byte_buffer))
     \<Rightarrow> byte_buffer \<Rightarrow> bb_error + (('k, 'v) omap \<times> byte_buffer)"
where
  "bb_in_map rk rv b =
     res_bind (bb_in b)
       (\<lambda>(msize :: u32, b').
          res_bind (bb_in_elems (bb_in_pair rk rv) (unat msize) b')
            (\<lambda>(es, b''). Inr (fold map_insert es [], b'')))"

section \<open>Packets\<close>

text \<open>
  A packet that a handler builds is its opcode and the sequence of buffer operations the handler
  performs on it; \<open>packet_bytes\<close> runs them on an empty buffer.
\<close>

datatype pkt_op =
    Out8 u8
  | Out32 u32
  | Out64 u64
  | OutStr string
  | OutCStr "string option"
  | Put32 nat u32

record world_packet =
  wp_opcode :: u16
  wp_ops :: "pkt_op list"

fun pkt_op_run :: "pkt_op \<Rightarrow> byte_buffer \<Rightarrow> bb_error + byte_buffer" where
  "pkt_op_run (Out8 v) b = bb_out v b"
| "pkt_op_run (Out32 v) b = bb_out v b"
| "pkt_op_run (Out64 v) b = bb_out v b"
| "pkt_op_run (OutStr s) b = bb_out_string s b"
| "pkt_op_run (OutCStr s) b = bb_out_cstr s b"
| "pkt_op_run (Put32 pos v) b = bb_put pos v b"

definition packet_buffer :: "world_packet \<Rightarrow> bb_error + byte_buffer" where
  "packet_buffer p = res_fold pkt_op_run (wp_ops p) new_ByteBuffer"

text \<open>\<^verbatim>\<open>WorldPacket(opcode)\<close> and \<^verbatim>\<open>Initialize(opcode)\<close>: an empty buffer with the opcode.\<close>

definition new_WorldPacket :: "u16 \<Rightarrow> world_packet" where
  "new_WorldPacket opcode = \<lparr>wp_opcode = opcode, wp_ops = []\<rparr>"

definition WorldPacket_Initialize :: "u16 \<Rightarrow> world_packet \<Rightarrow> world_packet" where
  "WorldPacket_Initialize opcode p = p\<lparr>wp_opcode := opcode, wp_ops := []\<rparr>"

definition wp_add :: "pkt_op list \<Rightarrow> world_packet \<Rightarrow> world_packet" where
  "wp_add ops p = p\<lparr>wp_ops := wp_ops p @ ops\<rparr>"

section \<open>Specification vocabulary\<close>

text \<open>
  A buffer that only grew by appending has its write position at the end of the storage.
  \<open>bb_room n b\<close>: \<open>n\<close> more bytes stay below the limit of the assertion in \<^verbatim>\<open>append\<close>.
\<close>

definition bb_ok :: "byte_buffer \<Rightarrow> bool" where
  "bb_ok b = (bb_wpos b = bb_size b \<and> bb_rpos b \<le> bb_size b)"

definition bb_room :: "nat \<Rightarrow> byte_buffer \<Rightarrow> bool" where
  "bb_room n b = (bb_size b + n \<le> 10000000)"

definition bb_push :: "u8 list \<Rightarrow> byte_buffer \<Rightarrow> byte_buffer" where
  "bb_push bs b = b\<lparr>bb_storage := bb_storage b @ bs, bb_wpos := bb_wpos b + length bs\<rparr>"

definition bb_unread :: "byte_buffer \<Rightarrow> u8 list" where
  "bb_unread b = drop (bb_rpos b) (bb_storage b)"

definition bb_advance :: "nat \<Rightarrow> byte_buffer \<Rightarrow> byte_buffer" where
  "bb_advance n b = b\<lparr>bb_rpos := bb_rpos b + n\<rparr>"

text \<open>
  The packed form of a GUID: its non-zero bytes, lowest first, behind a mask that has one bit per
  byte position.
\<close>

definition guid_byte :: "u64 \<Rightarrow> nat \<Rightarrow> u8" where
  "guid_byte g i = ucast (drop_bit (8 * i) g)"

definition guid_nonzero :: "nat list \<Rightarrow> u64 \<Rightarrow> u8 list" where
  "guid_nonzero is g = filter (\<lambda>x. x \<noteq> 0) (map (guid_byte g) is)"

fun guid_mask :: "nat list \<Rightarrow> u64 \<Rightarrow> u8" where
  "guid_mask [] g = 0"
| "guid_mask (i # is) g = (if guid_byte g i \<noteq> 0 then push_bit i 1 else 0) OR guid_mask is g"

text \<open>The value \<open>readPackGUID\<close> has assembled from the byte positions \<open>is\<close>.\<close>

fun guid_join :: "nat list \<Rightarrow> u64 \<Rightarrow> u64" where
  "guid_join [] g = 0"
| "guid_join (i # is) g = push_bit (i * 8) (ucast (guid_byte g i)) OR guid_join is g"

section \<open>Lemmas\<close>

declare packGUID_loop.simps [simp del] bb_in_string_loop.simps [simp del]

lemmas [bb_defs] = bb_out_def bb_append_def bb_in_def bb_read_def bb_read_at_def bb_peek_bytes_def

subsection \<open>Byte representation of words\<close>

lemma length_le_bytes [simp]: "length (le_bytes (w :: 'a::len word)) = LENGTH('a) div 8"
  by (simp add: le_bytes_def sizeof_T_def)

lemma bit_le_value:
  "bit (le_value bs :: 'a::len word) i \<longleftrightarrow>
   i < LENGTH('a) \<and> i div 8 < length bs \<and> bit (bs ! (i div 8)) (i mod 8)"
proof (induction bs arbitrary: i)
  case Nil
  then show ?case by simp
next
  case (Cons x xs)
  have split: "bit (le_value (x # xs) :: 'a word) i \<longleftrightarrow>
      i < LENGTH('a) \<and> (bit x i \<or> 8 \<le> i \<and> bit (le_value xs :: 'a word) (i - 8))"
    by (auto simp: bit_simps)
  show ?case
  proof (cases "i < 8")
    case True
    then show ?thesis unfolding split by simp
  next
    case False
    then obtain j where j: "i = j + 8" by (metis add.commute le_add_diff_inverse not_less)
    have "\<not> bit x i" using False bit_imp_le_length [of x i] by auto
    moreover have "i div 8 = Suc (j div 8)" and "i mod 8 = j mod 8" and "i - 8 = j" and "8 \<le> i"
      using j by simp_all
    ultimately show ?thesis unfolding split using Cons [of j] j by auto
  qed
qed

lemma le_value_le_bytes:
  assumes "8 dvd LENGTH('a)"
  shows "le_value (le_bytes w) = (w :: 'a::len word)"
proof (rule bit_word_eqI)
  fix n assume n: "n < LENGTH('a)"
  from assms obtain k where k: "LENGTH('a) = 8 * k" by (elim dvdE)
  with n have lt: "n div 8 < k" by simp
  have "8 * (n div 8) + n mod 8 = n" by simp
  then have "bit (le_bytes w ! (n div 8)) (n mod 8) \<longleftrightarrow> bit w n"
    using lt k by (simp add: le_bytes_def sizeof_T_def bit_ucast_iff bit_drop_bit_eq)
  then show "bit (le_value (le_bytes w) :: 'a word) n \<longleftrightarrow> bit w n"
    using n lt k by (simp add: bit_le_value)
qed

lemma le_value_single: "le_value [x] = (x :: u8)"
  by (simp add: ucast_id)

lemma le_bytes_u8: "le_bytes (x :: u8) = [x]"
  by (simp add: le_bytes_def sizeof_T_def ucast_id)

lemma char_of_byte_of_char [simp]: "char_of_byte (byte_of_char c) = c"
  by (simp add: char_of_byte_def byte_of_char_def unat_of_nat)

lemma byte_of_char_inj [simp]: "byte_of_char c = byte_of_char d \<longleftrightarrow> c = d"
  by (metis char_of_byte_of_char)

lemma length_string_bytes [simp]: "length (string_bytes s) = length s"
  by (simp add: string_bytes_def)

subsection \<open>Appending at the end, reading what is there\<close>

lemma bb_ok_push [simp]: "bb_ok b \<Longrightarrow> bb_ok (bb_push bs b)"
  by (simp add: bb_ok_def bb_push_def)

lemma bb_push_push [simp]: "bb_push ys (bb_push xs b) = bb_push (xs @ ys) b"
  by (simp add: bb_push_def)

lemma bb_push_Nil [simp]: "bb_push [] b = b"
  by (simp add: bb_push_def)

lemma bb_room_push [simp]: "bb_room n (bb_push bs b) \<longleftrightarrow> bb_room (length bs + n) b"
  by (simp add: bb_room_def bb_push_def algebra_simps)

lemma bb_room_mono: "bb_room n b \<Longrightarrow> m \<le> n \<Longrightarrow> bb_room m b"
  by (simp add: bb_room_def)

lemma bb_advance_advance [simp]: "bb_advance m (bb_advance n b) = bb_advance (n + m) b"
  by (simp add: bb_advance_def algebra_simps)

lemma bb_advance_0 [simp]: "bb_advance 0 b = b"
  by (simp add: bb_advance_def)

lemma bb_size_advance [simp]: "bb_storage (bb_advance n b) = bb_storage b"
  by (simp add: bb_advance_def)

lemma bb_rpos_advance [simp]: "bb_rpos (bb_advance n b) = bb_rpos b + n"
  by (simp add: bb_advance_def)

lemma bb_unread_advance: "bb_unread b = bs @ rest \<Longrightarrow> bb_unread (bb_advance (length bs) b) = rest"
proof -
  assume h: "bb_unread b = bs @ rest"
  have "bb_unread (bb_advance (length bs) b) = drop (length bs) (bb_unread b)"
    by (simp add: bb_unread_def bb_advance_def add.commute)
  also have "\<dots> = rest" by (simp add: h)
  finally show ?thesis .
qed

lemma bb_unread_length: "bb_unread b = bs @ rest \<Longrightarrow> bs \<noteq> [] \<Longrightarrow> bb_rpos b + length bs \<le> bb_size b"
proof -
  assume h: "bb_unread b = bs @ rest" and "bs \<noteq> []"
  then have "length bs \<le> bb_size b - bb_rpos b" and "0 < length bs"
    by (metis bb_unread_def length_append length_drop le_add1, simp)
  then show ?thesis by linarith
qed

lemma bb_append_bytes_end:
  assumes "bb_ok b" and "bb_room (length bs) b"
  shows "bb_append_bytes bs b = Inr (bb_push bs b)"
proof (cases "bs = []")
  case True
  then show ?thesis by (simp add: bb_append_bytes_def)
next
  case False
  then have "0 < length bs" by simp
  with assms have "bb_size b < 10000000" and "szadd (bb_size b) (length bs) = bb_size b + length bs"
    by (auto simp: bb_room_def szadd_def simp del: length_greater_0_conv)
  with False assms show ?thesis
    by (simp add: bb_append_bytes_def bb_ok_def bb_push_def vec_resize_def vec_overwrite_def)
qed

lemma bb_peek_bytes_unread:
  assumes "bb_unread b = bs @ rest" and "bs \<noteq> []" and "bb_size b < 2 ^ 64"
  shows "bb_peek_bytes (bb_rpos b) (length bs) b = Inr bs"
proof -
  have le: "bb_rpos b + length bs \<le> bb_size b" using bb_unread_length assms(1,2) .
  with assms(3) have "szadd (bb_rpos b) (length bs) = bb_rpos b + length bs"
    by (simp add: szadd_small)
  moreover have "take (length bs) (drop (bb_rpos b) (bb_storage b)) = bs"
    using assms(1) by (simp add: bb_unread_def)
  ultimately show ?thesis using le by (simp add: bb_peek_bytes_def)
qed

lemma bb_in_unread:
  fixes v :: "'a::len word"
  assumes "bb_unread b = le_bytes v @ rest" and "8 dvd LENGTH('a)" and "bb_size b < 2 ^ 64"
  shows "bb_in b = Inr (v, bb_advance (LENGTH('a) div 8) b)"
proof -
  have "0 < LENGTH('a)" by simp
  with assms(2) have "le_bytes v \<noteq> []"
    by (metis dvd_div_eq_0_iff length_0_conv length_le_bytes less_numeral_extra(3))
  with bb_peek_bytes_unread [OF assms(1) _ assms(3)]
  have "bb_peek_bytes (bb_rpos b) (LENGTH('a) div 8) b = Inr (le_bytes v)"
    by simp
  then show ?thesis
    using le_value_le_bytes [OF assms(2), of v]
    by (simp add: bb_in_def bb_read_def bb_read_at_def bb_advance_def)
qed

lemma bb_in_u8_unread:
  assumes "bb_unread b = x # rest" and "bb_size b < 2 ^ 64"
  shows "bb_in b = Inr (x :: u8, bb_advance 1 b)"
proof -
  have "bb_unread b = le_bytes x @ rest" using assms(1) by (simp add: le_bytes_u8)
  from bb_in_unread [OF this _ assms(2)] show ?thesis by simp
qed

subsection \<open>Packed GUIDs\<close>

lemma guid_byte_0: "drop_bit (8 * i) g = 0 \<Longrightarrow> i \<le> j \<Longrightarrow> guid_byte g j = 0"
proof -
  assume h: "drop_bit (8 * i) g = 0" and "i \<le> j"
  then have "8 * j = 8 * (j - i) + 8 * i" by simp
  then have "drop_bit (8 * j) g = drop_bit (8 * (j - i)) (drop_bit (8 * i) g)"
    by (metis drop_bit_drop_bit)
  then show ?thesis by (simp add: h guid_byte_def)
qed

lemma mask_8_u64: "(0xFF :: u64) = mask 8"
  by (simp add: mask_eq_exp_minus_1)

lemma low_byte: "ucast (w AND 0xFF :: u64) = (ucast w :: u8)"
  unfolding mask_8_u64 by (rule bit_word_eqI) (simp add: bit_simps)

lemma low_byte_0: "(w :: u64) AND 0xFF = 0 \<longleftrightarrow> (ucast w :: u8) = 0"
proof -
  have "bit (w AND mask 8) n \<longleftrightarrow> bit (ucast w :: u8) n" for n
    by (auto simp: bit_simps)
  then show ?thesis unfolding mask_8_u64 by (metis bit_eqI bit_0_eq bot_apply bot_bool_def)
qed

lemma packGUID_loop_eq:
  "i \<le> 8 \<Longrightarrow>
   packGUID_loop i (drop_bit (8 * i) g) m bs =
     (m OR guid_mask [i..<8] g) # bs @ guid_nonzero [i..<8] g"
proof (induction "8 - i" arbitrary: i m bs)
  case 0
  then have "i = 8" by simp
  have "drop_bit 64 g = 0" by (rule bit_word_eqI) (simp add: bit_simps)
  with \<open>i = 8\<close> show ?case by (simp add: packGUID_loop.simps guid_nonzero_def)
next
  case (Suc n)
  then have i: "i < 8" and n: "n = 8 - Suc i" by simp_all
  let ?g = "drop_bit (8 * i) g"
  have nxt: "drop_bit 8 ?g = drop_bit (8 * Suc i) g" by (simp add: add.commute)
  have IH: "packGUID_loop (Suc i) (drop_bit 8 ?g) m' bs' =
      (m' OR guid_mask [Suc i..<8] g) # bs' @ guid_nonzero [Suc i..<8] g" for m' bs'
    unfolding nxt by (rule Suc.hyps(1)) (use n i in simp_all)
  have upt: "[i..<8] = i # [Suc i..<8]" using i by (rule upt_conv_Cons)
  show ?case
  proof (cases "?g = 0")
    case True
    then have z: "guid_byte g j = 0" if "j \<in> set [i..<8]" for j
      using guid_byte_0 [of i g j] that by simp
    then have "guid_nonzero [i..<8] g = []" by (simp add: guid_nonzero_def)
    moreover have "guid_mask js g = 0" if "set js \<subseteq> set [i..<8]" for js
      using that by (induction js) (use z in auto)
    ultimately show ?thesis using True by (simp add: packGUID_loop.simps)
  next
    case False
    then show ?thesis
      unfolding packGUID_loop.simps [of i ?g m bs] upt IH
      by (simp add: low_byte low_byte_0 guid_nonzero_def guid_byte_def or.assoc)
  qed
qed

lemma packGUID_eq: "packGUID_loop 0 g 0 [] = guid_mask [0..<8] g # guid_nonzero [0..<8] g"
  using packGUID_loop_eq [of 0 g 0 "[]"] by simp

lemma bit_guid_mask: "bit (guid_mask is g) i \<longleftrightarrow> i < 8 \<and> i \<in> set is \<and> guid_byte g i \<noteq> 0"
  by (induction "is") (auto simp: bit_simps)

lemma bit_guid_join:
  "bit (guid_join is g) n \<longleftrightarrow> n < 64 \<and> n div 8 \<in> set is \<and> bit (guid_byte g (n div 8)) (n mod 8)"
proof (induction "is")
  case (Cons i "is")
  have "i * 8 \<le> n \<and> bit (guid_byte g i) (n - i * 8) \<longleftrightarrow> n div 8 = i \<and> bit (guid_byte g i) (n mod 8)"
  proof (cases "n div 8 = i")
    case True
    then have "n - i * 8 = n mod 8" and "i * 8 \<le> n" by (auto simp: modulo_nat_def)
    with True show ?thesis by simp
  next
    case False
    then have "i * 8 \<le> n \<Longrightarrow> 8 \<le> n - i * 8" by (cases "n < i * 8") auto
    then show ?thesis using False bit_imp_le_length [of "guid_byte g i" "n - i * 8"] by auto
  qed
  with Cons show ?case by (auto simp: bit_simps)
qed simp

lemma guid_join_all: "guid_join [0..<8] g = g"
proof (rule bit_word_eqI)
  fix n assume "n < LENGTH(64)"
  then have "n < 64" and "n div 8 < 8" and "n mod 8 < 8" by simp_all
  moreover have "8 * (n div 8) + n mod 8 = n" by simp
  ultimately show "bit (guid_join [0..<8] g) n \<longleftrightarrow> bit g n"
    by (auto simp: bit_guid_join guid_byte_def bit_ucast_iff bit_drop_bit_eq dest: bit_imp_le_length)
qed

lemma readPackGUID_loop_eq:
  assumes "\<forall>i \<in> set is. bit gm i \<longleftrightarrow> guid_byte g i \<noteq> 0"
    and "bb_unread b = guid_nonzero is g @ rest" and "bb_size b < 2 ^ 64"
  shows "readPackGUID_loop is gm acc b =
           Inr (acc OR guid_join is g, bb_advance (length (guid_nonzero is g)) b)"
  using assms
proof (induction "is" arbitrary: acc b)
  case Nil
  then show ?case by (simp add: guid_nonzero_def)
next
  case (Cons i "is")
  show ?case
  proof (cases "guid_byte g i = 0")
    case True
    with Cons.prems have "\<not> bit gm i" and "guid_nonzero (i # is) g = guid_nonzero is g"
      by (simp_all add: guid_nonzero_def)
    with True Cons show ?thesis by (simp add: and_exp_eq_0_iff_not_bit)
  next
    case False
    with Cons.prems have bit: "bit gm i" and nz: "guid_nonzero (i # is) g = guid_byte g i # guid_nonzero is g"
      by (simp_all add: guid_nonzero_def)
    with Cons.prems have un: "bb_unread b = [guid_byte g i] @ guid_nonzero is g @ rest" by simp
    then have "bb_rpos b + 1 \<le> bb_size b" using bb_unread_length [OF un] by simp
    with Cons.prems(3) have "szadd (bb_rpos b) 1 \<le> bb_size b" by (simp add: szadd_def)
    moreover have "bb_in b = Inr (guid_byte g i, bb_advance 1 b)"
      using un Cons.prems(3) by (intro bb_in_u8_unread) simp_all
    moreover have "bb_unread (bb_advance 1 b) = guid_nonzero is g @ rest"
      using bb_unread_advance [OF un] by simp
    then have "readPackGUID_loop is gm acc' (bb_advance 1 b) =
        Inr (acc' OR guid_join is g, bb_advance (length (guid_nonzero is g)) (bb_advance 1 b))" for acc'
      using Cons.prems by (intro Cons.IH) simp_all
    ultimately show ?thesis using bit nz
      by (simp add: and_exp_eq_0_iff_not_bit or.assoc)
  qed
qed

lemma bb_readPackGUID_unread:
  assumes "bb_unread b = packGUID_loop 0 g 0 [] @ rest" and "bb_size b < 2 ^ 64"
  shows "bb_readPackGUID b = Inr (g, bb_advance (length (packGUID_loop 0 g 0 [])) b)"
proof -
  let ?nz = "guid_nonzero [0..<8] g"
  from assms(1) have un: "bb_unread b = [guid_mask [0..<8] g] @ ?nz @ rest" by (simp add: packGUID_eq)
  then have "bb_rpos b + 1 \<le> bb_size b" using bb_unread_length [OF un] by simp
  with assms(2) have "szadd (bb_rpos b) 1 \<le> bb_size b" by (simp add: szadd_def)
  moreover have "bb_in b = Inr (guid_mask [0..<8] g, bb_advance 1 b)"
    using un assms(2) by (intro bb_in_u8_unread) simp_all
  moreover have "readPackGUID_loop [0..<8] (guid_mask [0..<8] g) 0 (bb_advance 1 b) =
      Inr (0 OR guid_join [0..<8] g, bb_advance (length ?nz) (bb_advance 1 b))"
    using bb_unread_advance [OF un] assms(2)
    by (intro readPackGUID_loop_eq) (simp_all add: bit_guid_mask)
  ultimately show ?thesis by (simp add: bb_readPackGUID_def guid_join_all packGUID_eq)
qed

subsection \<open>Strings\<close>

lemma bb_in_string_loop_eq:
  assumes "bb_unread b = string_bytes s @ 0 # rest" and "0 \<notin> set (string_bytes s)"
    and "bb_size b < 2 ^ 64"
  shows "bb_in_string_loop b acc = Inr (acc @ s, bb_advance (Suc (length s)) b)"
  using assms
proof (induction s arbitrary: b acc)
  case Nil
  then have un: "bb_unread b = 0 # rest" by (simp add: string_bytes_def)
  then have "bb_rpos b < bb_size b" using bb_unread_length [of b "[0]" rest] by simp
  moreover have "bb_read b = Inr (0 :: u8, bb_advance 1 b)"
    using bb_in_u8_unread [OF un Nil.prems(3)] by (simp add: bb_in_def)
  ultimately show ?case by (simp add: bb_in_string_loop.simps)
next
  case (Cons c s)
  then have un: "bb_unread b = [byte_of_char c] @ string_bytes s @ 0 # rest" and "byte_of_char c \<noteq> 0"
    by (auto simp: string_bytes_def)
  moreover from un have "bb_rpos b < bb_size b" using bb_unread_length [OF un] by simp
  moreover have "bb_read b = Inr (byte_of_char c, bb_advance 1 b)"
    using bb_in_u8_unread [of b "byte_of_char c"] un Cons.prems(3) by (simp add: bb_in_def)
  moreover have "bb_in_string_loop (bb_advance 1 b) (acc @ [c]) =
      Inr ((acc @ [c]) @ s, bb_advance (Suc (length s)) (bb_advance 1 b))"
    using bb_unread_advance [OF un] Cons.prems by (intro Cons.IH) (simp_all add: string_bytes_def)
  ultimately show ?case by (simp add: bb_in_string_loop.simps [of b])
qed

subsection \<open>Codecs\<close>

text \<open>
  What a matching pair of \<^verbatim>\<open>operator<<\<close> and \<^verbatim>\<open>operator>>\<close> promises for the values in \<open>valid\<close>:
  writing appends the encoding, and reading a buffer that has the encoding next returns the value
  and consumes exactly the encoding.
\<close>

locale bb_codec =
  fixes wr :: "'a \<Rightarrow> byte_buffer \<Rightarrow> bb_error + byte_buffer"
    and rd :: "byte_buffer \<Rightarrow> bb_error + ('a \<times> byte_buffer)"
    and enc :: "'a \<Rightarrow> u8 list"
    and valid :: "'a \<Rightarrow> bool"
  assumes wr_push:
      "valid x \<Longrightarrow> bb_ok b \<Longrightarrow> bb_room (length (enc x)) b \<Longrightarrow> wr x b = Inr (bb_push (enc x) b)"
    and rd_unread:
      "valid x \<Longrightarrow> bb_unread b = enc x @ rest \<Longrightarrow> bb_size b < 2 ^ 64 \<Longrightarrow>
       rd b = Inr (x, bb_advance (length (enc x)) b)"
begin

lemma roundtrip:
  assumes "valid x" and "bb_ok b" and "bb_room (length (enc x)) b"
  shows "wr x b = Inr (bb_push (enc x) b) \<and>
    rd (bb_set_rpos (bb_size b) (bb_push (enc x) b)) = Inr (x, bb_rfinish (bb_push (enc x) b))"
proof -
  let ?b = "bb_set_rpos (bb_size b) (bb_push (enc x) b)"
  have "bb_unread ?b = enc x @ []" by (simp add: bb_unread_def bb_set_rpos_def bb_push_def)
  moreover have "bb_size ?b < 2 ^ 64"
    using assms(3) by (simp add: bb_set_rpos_def bb_push_def bb_room_def)
  ultimately have "rd ?b = Inr (x, bb_advance (length (enc x)) ?b)"
    using assms(1) by (intro rd_unread) simp_all
  moreover have "bb_advance (length (enc x)) ?b = bb_rfinish (bb_push (enc x) b)"
    using assms(2) by (simp add: bb_advance_def bb_set_rpos_def bb_rfinish_def bb_push_def bb_ok_def)
  ultimately show ?thesis using assms by (simp add: wr_push)
qed

lemma res_fold_wr:
  assumes "list_all valid xs" and "bb_ok b" and "bb_room (length (concat (map enc xs))) b"
  shows "res_fold wr xs b = Inr (bb_push (concat (map enc xs)) b)"
  using assms
proof (induction xs arbitrary: b)
  case (Cons x xs)
  then have "wr x b = Inr (bb_push (enc x) b)"
    by (intro wr_push) (simp_all add: bb_room_def)
  with Cons show ?case by simp
qed simp

lemma bb_in_elems_unread:
  assumes "list_all valid xs" and "bb_unread b = concat (map enc xs) @ rest" and "bb_size b < 2 ^ 64"
  shows "bb_in_elems rd (length xs) b = Inr (xs, bb_advance (length (concat (map enc xs))) b)"
  using assms
proof (induction xs arbitrary: b)
  case (Cons x xs)
  then have un: "bb_unread b = enc x @ concat (map enc xs) @ rest" by simp
  with Cons.prems have "rd b = Inr (x, bb_advance (length (enc x)) b)"
    by (intro rd_unread) simp_all
  moreover have "bb_in_elems rd (length xs) (bb_advance (length (enc x)) b) =
      Inr (xs, bb_advance (length (concat (map enc xs))) (bb_advance (length (enc x)) b))"
    using Cons.prems bb_unread_advance [OF un] by (intro Cons.IH) simp_all
  ultimately show ?case by simp
qed simp

end

text \<open>The codecs of the arithmetic types and of strings without a zero byte.\<close>

lemma word_codec: "8 dvd LENGTH('a) \<Longrightarrow> bb_codec bb_out bb_in le_bytes (\<lambda>_ :: 'a::len word. True)"
  by unfold_locales
    (simp_all add: bb_out_def bb_append_def bb_append_bytes_end bb_in_unread)

interpretation c_u8: bb_codec bb_out bb_in le_bytes "\<lambda>_ :: u8. True"
  by (rule word_codec) simp

interpretation c_u16: bb_codec bb_out bb_in le_bytes "\<lambda>_ :: u16. True"
  by (rule word_codec) simp

interpretation c_u32: bb_codec bb_out bb_in le_bytes "\<lambda>_ :: u32. True"
  by (rule word_codec) simp

interpretation c_u64: bb_codec bb_out bb_in le_bytes "\<lambda>_ :: u64. True"
  by (rule word_codec) simp

lemma bb_out_string_push:
  "bb_ok b \<Longrightarrow> bb_room (Suc (length s)) b \<Longrightarrow>
   bb_out_string s b = Inr (bb_push (string_bytes s @ [0]) b)"
  using bb_room_mono [of "Suc (length s)" b "length s"]
  by (simp add: bb_out_string_def bb_append_def bb_append_bytes_end le_bytes_u8)

interpretation c_str: bb_codec bb_out_string bb_in_string "\<lambda>s. string_bytes s @ [0]"
  "\<lambda>s. 0 \<notin> set (string_bytes s)"
  by unfold_locales (simp_all add: bb_out_string_push bb_in_string_def bb_in_string_loop_eq)

interpretation c_guid: bb_codec bb_appendPackGUID bb_readPackGUID "\<lambda>g. packGUID_loop 0 g 0 []"
  "\<lambda>_. True"
  by unfold_locales
    (simp_all add: bb_appendPackGUID_def bb_append_bytes_end bb_readPackGUID_unread)

text \<open>Vectors of encodable elements are encodable.\<close>

definition vector_enc :: "('a \<Rightarrow> u8 list) \<Rightarrow> 'a list \<Rightarrow> u8 list" where
  "vector_enc enc xs = le_bytes (word_of_nat (length xs) :: u32) @ concat (map enc xs)"

definition vector_valid :: "('a \<Rightarrow> bool) \<Rightarrow> 'a list \<Rightarrow> bool" where
  "vector_valid valid xs = (length xs < 2 ^ 32 \<and> list_all valid xs)"

context bb_codec
begin

lemma vector_unread:
  assumes "vector_valid valid xs" and "bb_unread b = vector_enc enc xs @ rest" and "bb_size b < 2 ^ 64"
  shows "bb_in_vector rd b = Inr (xs, bb_advance (length (vector_enc enc xs)) b)"
proof -
  let ?n = "word_of_nat (length xs) :: u32"
  have len: "unat ?n = length xs" using assms(1) by (simp add: vector_valid_def unat_of_nat)
  have un: "bb_unread b = le_bytes ?n @ concat (map enc xs) @ rest"
    using assms(2) by (simp add: vector_enc_def)
  have "bb_in b = Inr (?n, bb_advance 4 b)"
    using bb_in_unread [OF un _ assms(3)] by simp
  moreover have "bb_in_elems rd (length xs) (bb_advance 4 b) =
      Inr (xs, bb_advance (length (concat (map enc xs))) (bb_advance 4 b))"
    using bb_unread_advance [OF un] assms by (intro bb_in_elems_unread) (simp_all add: vector_valid_def)
  ultimately show ?thesis by (simp add: bb_in_vector_def len vector_enc_def)
qed

lemma vector_push:
  assumes "vector_valid valid xs" and "bb_ok b" and "bb_room (length (vector_enc enc xs)) b"
  shows "bb_out_vector wr xs b = Inr (bb_push (vector_enc enc xs) b)"
proof -
  have "bb_out (word_of_nat (length xs) :: u32) b = Inr (bb_push (le_bytes (word_of_nat (length xs) :: u32)) b)"
    using assms by (intro c_u32.wr_push) (simp_all add: bb_room_def vector_enc_def)
  then show ?thesis
    using assms by (simp add: bb_out_vector_def vector_enc_def vector_valid_def res_fold_wr)
qed

lemma vector_codec: "bb_codec (bb_out_vector wr) (bb_in_vector rd) (vector_enc enc) (vector_valid valid)"
  by unfold_locales (simp_all add: vector_push vector_unread)

end

interpretation c_vec_u32: bb_codec "bb_out_vector bb_out" "bb_in_vector bb_in"
  "vector_enc le_bytes" "vector_valid (\<lambda>_ :: u32. True)"
  by (rule c_u32.vector_codec)

interpretation c_vec_str: bb_codec "bb_out_vector bb_out_string" "bb_in_vector bb_in_string"
  "vector_enc (\<lambda>s. string_bytes s @ [0])" "vector_valid (\<lambda>s. 0 \<notin> set (string_bytes s))"
  by (rule c_str.vector_codec)

text \<open>Pairs and maps of encodable components are encodable.\<close>

definition pair_enc :: "('k \<Rightarrow> u8 list) \<Rightarrow> ('v \<Rightarrow> u8 list) \<Rightarrow> 'k \<times> 'v \<Rightarrow> u8 list" where
  "pair_enc ek ev e = ek (fst e) @ ev (snd e)"

definition pair_valid :: "('k \<Rightarrow> bool) \<Rightarrow> ('v \<Rightarrow> bool) \<Rightarrow> 'k \<times> 'v \<Rightarrow> bool" where
  "pair_valid vk vv e = (vk (fst e) \<and> vv (snd e))"

definition map_valid :: "('k::linorder \<Rightarrow> bool) \<Rightarrow> ('v \<Rightarrow> bool) \<Rightarrow> ('k, 'v) omap \<Rightarrow> bool" where
  "map_valid vk vv m = (omap_ok m \<and> vector_valid (pair_valid vk vv) m)"

lemma fold_map_insert: "omap_ok (acc @ m) \<Longrightarrow> fold map_insert m acc = acc @ m"
proof (induction m arbitrary: acc)
  case (Cons e m)
  obtain k v where e: "e = (k, v)" by (cases e)
  have last: "omap_ok (xs @ [(k, v)]) \<Longrightarrow> omap_set k v xs = xs @ [(k, v)]" for xs
    by (induction xs) (auto simp: omap_ok_def)
  from Cons.prems have "omap_ok (acc @ [(k, v)])"
    by (auto simp: omap_ok_def e sorted_wrt_append)
  moreover from Cons.prems have "k \<notin> fst ` set acc"
    by (auto simp: omap_ok_def e sorted_wrt_append)
  ultimately have "map_insert e acc = acc @ [e]"
    by (simp add: map_insert_def e last omap_find_None_iff)
  with Cons show ?case by simp
qed simp

locale bb_codec2 =
  k: bb_codec wk rk ek vk + v: bb_codec wv rv ev vv
  for wk :: "'k::linorder \<Rightarrow> byte_buffer \<Rightarrow> bb_error + byte_buffer"
    and rk :: "byte_buffer \<Rightarrow> bb_error + ('k \<times> byte_buffer)"
    and ek :: "'k \<Rightarrow> u8 list" and vk :: "'k \<Rightarrow> bool"
    and wv :: "'v \<Rightarrow> byte_buffer \<Rightarrow> bb_error + byte_buffer"
    and rv :: "byte_buffer \<Rightarrow> bb_error + ('v \<times> byte_buffer)"
    and ev :: "'v \<Rightarrow> u8 list" and vv :: "'v \<Rightarrow> bool"
begin

lemma pair_push:
  assumes "pair_valid vk vv e" and "bb_ok b" and "bb_room (length (pair_enc ek ev e)) b"
  shows "bb_out_pair wk wv e b = Inr (bb_push (pair_enc ek ev e) b)"
proof -
  have "wk (fst e) b = Inr (bb_push (ek (fst e)) b)"
    using assms by (intro k.wr_push) (auto simp: pair_valid_def pair_enc_def elim: bb_room_mono)
  moreover have "wv (snd e) (bb_push (ek (fst e)) b) = Inr (bb_push (ev (snd e)) (bb_push (ek (fst e)) b))"
    using assms by (intro v.wr_push) (auto simp: pair_valid_def pair_enc_def)
  ultimately show ?thesis by (simp add: bb_out_pair_def pair_enc_def)
qed

lemma pair_unread:
  assumes "pair_valid vk vv e" and "bb_unread b = pair_enc ek ev e @ rest" and "bb_size b < 2 ^ 64"
  shows "bb_in_pair rk rv b = Inr (e, bb_advance (length (pair_enc ek ev e)) b)"
proof -
  have un: "bb_unread b = ek (fst e) @ ev (snd e) @ rest" using assms(2) by (simp add: pair_enc_def)
  have "rk b = Inr (fst e, bb_advance (length (ek (fst e))) b)"
    using assms un by (intro k.rd_unread) (simp_all add: pair_valid_def)
  moreover have "rv (bb_advance (length (ek (fst e))) b) =
      Inr (snd e, bb_advance (length (ev (snd e))) (bb_advance (length (ek (fst e))) b))"
    using assms bb_unread_advance [OF un] by (intro v.rd_unread) (simp_all add: pair_valid_def)
  ultimately show ?thesis by (simp add: bb_in_pair_def pair_enc_def)
qed

sublocale pr: bb_codec "bb_out_pair wk wv" "bb_in_pair rk rv" "pair_enc ek ev" "pair_valid vk vv"
  by unfold_locales (simp_all add: pair_push pair_unread)

lemma map_codec:
  "bb_codec (bb_out_map wk wv) (bb_in_map rk rv) (vector_enc (pair_enc ek ev)) (map_valid vk vv)"
proof
  fix m :: "('k, 'v) omap" and b rest
  assume m: "map_valid vk vv m"
  then have vec: "vector_valid (pair_valid vk vv) m" and ok: "omap_ok m" by (simp_all add: map_valid_def)
  show "bb_out_map wk wv m b = Inr (bb_push (vector_enc (pair_enc ek ev) m) b)"
    if "bb_ok b" and "bb_room (length (vector_enc (pair_enc ek ev) m)) b"
    using pr.vector_push [OF vec that] by (simp add: bb_out_map_def bb_out_vector_def)
  show "bb_in_map rk rv b = Inr (m, bb_advance (length (vector_enc (pair_enc ek ev) m)) b)"
    if "bb_unread b = vector_enc (pair_enc ek ev) m @ rest" and "bb_size b < 2 ^ 64"
    using pr.vector_unread [OF vec that] fold_map_insert [of "[]" m] ok
    by (auto simp: bb_in_map_def bb_in_vector_def res_bind_Inr_iff)
qed

end

interpretation c_u32_str: bb_codec2 bb_out bb_in le_bytes "\<lambda>_ :: u32. True"
  bb_out_string bb_in_string "\<lambda>s. string_bytes s @ [0]" "\<lambda>s. 0 \<notin> set (string_bytes s)"
  by unfold_locales

interpretation c_map_u32_str: bb_codec "bb_out_map bb_out bb_out_string" "bb_in_map bb_in bb_in_string"
  "vector_enc (pair_enc le_bytes (\<lambda>s. string_bytes s @ [0]))"
  "map_valid (\<lambda>_ :: u32. True) (\<lambda>s. 0 \<notin> set (string_bytes s))"
  by (rule c_u32_str.map_codec)

subsection \<open>Bounds\<close>

lemma length_guid_nonzero: "length (guid_nonzero is g) \<le> length is"
  by (simp add: guid_nonzero_def le_trans [OF length_filter_le])

lemma length_packGUID: "length (packGUID_loop 0 g 0 []) \<le> 9"
  using length_guid_nonzero [of "[0..<8]" g] by (simp add: packGUID_eq)

lemma vec_overwrite_length: "pos + length src \<le> length xs \<Longrightarrow> length (vec_overwrite pos src xs) = length xs"
  by (simp add: vec_overwrite_def)

lemma vec_overwrite_read:
  "pos + length src \<le> length xs \<Longrightarrow> take (length src) (drop pos (vec_overwrite pos src xs)) = src"
  by (simp add: vec_overwrite_def)

lemma vec_overwrite_nth:
  "pos + length src \<le> length xs \<Longrightarrow> i < pos \<or> pos + length src \<le> i \<Longrightarrow> i < length xs \<Longrightarrow>
   vec_overwrite pos src xs ! i = xs ! i"
  by (auto simp: vec_overwrite_def nth_append)

lemma bb_append_bytes_ok:
  "bb_ok b \<Longrightarrow> bb_append_bytes src b = Inr b' \<Longrightarrow> bb_ok b'"
  by (auto simp: bb_append_bytes_def bb_ok_def Let_def vec_overwrite_def vec_resize_def szadd_def
      split: if_splits)

subsection \<open>Buffers read field by field\<close>

text \<open>
  \<open>bb_view pre bs\<close>: a received packet of which \<open>pre\<close> has been read and \<open>bs\<close> has not.  The rules
  rewrite a chain of reads into the fields.
\<close>

definition bb_view :: "u8 list \<Rightarrow> u8 list \<Rightarrow> byte_buffer" where
  "bb_view pre bs = \<lparr>bb_rpos = length pre, bb_wpos = length pre + length bs, bb_storage = pre @ bs\<rparr>"

lemma bb_view_advance: "bb_advance (length bs) (bb_view pre (bs @ rest)) = bb_view (pre @ bs) rest"
  by (simp add: bb_view_def bb_advance_def)

context bb_codec
begin

lemma rd_view:
  assumes "valid x" and "length pre + length (enc x) + length rest < 2 ^ 64"
  shows "rd (bb_view pre (enc x @ rest)) = Inr (x, bb_view (pre @ enc x) rest)"
  using rd_unread [of x "bb_view pre (enc x @ rest)" rest] assms
  by (simp add: bb_view_advance) (simp add: bb_view_def bb_unread_def)

end

lemmas bb_in_view = c_u8.rd_view [OF TrueI] c_u16.rd_view [OF TrueI] c_u32.rd_view [OF TrueI] c_u64.rd_view [OF TrueI]

lemmas bb_in_string_view = c_str.rd_view [unfolded append_assoc append_Cons append_Nil]

subsection \<open>Packets built by appending\<close>

fun op_enc :: "pkt_op \<Rightarrow> u8 list" where
  "op_enc (Out8 v) = le_bytes v"
| "op_enc (Out32 v) = le_bytes v"
| "op_enc (Out64 v) = le_bytes v"
| "op_enc (OutStr s) = string_bytes s @ [0]"
| "op_enc (OutCStr s) =
     (case s of None \<Rightarrow> [] | Some t \<Rightarrow> string_bytes (takeWhile (\<lambda>c. byte_of_char c \<noteq> 0) t)) @ [0]"
| "op_enc (Put32 pos v) = []"

fun op_appends :: "pkt_op \<Rightarrow> bool" where
  "op_appends (Put32 pos v) = False"
| "op_appends op = True"

lemma pkt_op_run_push:
  assumes "op_appends op" and "bb_ok b" and "bb_room (length (op_enc op)) b"
  shows "pkt_op_run op b = Inr (bb_push (op_enc op) b)"
proof (cases op)
  case (OutCStr t)
  let ?cs = "case t of None \<Rightarrow> [] | Some u \<Rightarrow> string_bytes (takeWhile (\<lambda>c. byte_of_char c \<noteq> 0) u)"
  have "bb_room (length ?cs) b" using assms(3) OutCStr by (simp add: bb_room_def)
  with assms OutCStr show ?thesis
    by (simp add: bb_out_cstr_def bb_append_def bb_append_bytes_end le_bytes_u8)
next
  case (Put32 pos v)
  with assms(1) show ?thesis by simp
qed (use assms in \<open>simp_all add: c_u8.wr_push c_u32.wr_push c_u64.wr_push bb_out_string_push\<close>)

lemma packet_buffer_push:
  assumes "list_all op_appends ops" and "bb_ok b" and "bb_room (length (concat (map op_enc ops))) b"
  shows "res_fold pkt_op_run ops b = Inr (bb_push (concat (map op_enc ops)) b)"
  using assms
proof (induction ops arbitrary: b)
  case (Cons op ops)
  then have "pkt_op_run op b = Inr (bb_push (op_enc op) b)"
    by (intro pkt_op_run_push) (auto elim: bb_room_mono)
  with Cons show ?case by simp
qed simp

lemma bb_ok_new [simp]: "bb_ok new_ByteBuffer"
  by (simp add: bb_ok_def new_ByteBuffer_def)

lemma bb_put_ok: "bb_ok b \<Longrightarrow> bb_put_bytes pos src b = Inr b' \<Longrightarrow> bb_ok b'"
  by (auto simp: bb_put_bytes_def bb_ok_def vec_overwrite_length split: if_splits)

lemma pkt_op_run_ok: "bb_ok b \<Longrightarrow> pkt_op_run op b = Inr b' \<Longrightarrow> bb_ok b'"
  by (cases op)
    (auto simp: bb_out_def bb_append_def bb_put_def bb_out_string_def bb_out_cstr_def res_bind_Inr_iff
       dest: bb_append_bytes_ok bb_put_ok)

subsection \<open>Packets read field by field\<close>

text \<open>
  A packet as the handlers write and read it: a sequence of fields, each through its own operator.  The
  values given to \<open>in_field\<close> say only which operator is used.
\<close>

datatype field = F8 u8 | F16 u16 | F32 u32 | F64 u64 | FString string

fun out_field :: "field \<Rightarrow> byte_buffer \<Rightarrow> bb_error + byte_buffer" where
  "out_field (F8 x) = bb_out x"
| "out_field (F16 x) = bb_out x"
| "out_field (F32 x) = bb_out x"
| "out_field (F64 x) = bb_out x"
| "out_field (FString s) = bb_out_string s"

definition as_field :: "('a \<Rightarrow> field) \<Rightarrow> bb_error + 'a \<times> byte_buffer \<Rightarrow> bb_error + field \<times> byte_buffer" where
  "as_field F r = res_bind r (\<lambda>(x, b). Inr (F x, b))"

fun in_field :: "field \<Rightarrow> byte_buffer \<Rightarrow> bb_error + field \<times> byte_buffer" where
  "in_field (F8 _) b = as_field F8 (bb_in b)"
| "in_field (F16 _) b = as_field F16 (bb_in b)"
| "in_field (F32 _) b = as_field F32 (bb_in b)"
| "in_field (F64 _) b = as_field F64 (bb_in b)"
| "in_field (FString _) b = as_field FString (bb_in_string b)"

fun in_fields :: "field list \<Rightarrow> byte_buffer \<Rightarrow> bb_error + field list \<times> byte_buffer" where
  "in_fields [] b = Inr ([], b)"
| "in_fields (f # fs) b =
     res_bind (in_field f b) (\<lambda>(f', b'). res_bind (in_fields fs b') (\<lambda>(fs', b''). Inr (f' # fs', b'')))"

fun field_enc :: "field \<Rightarrow> u8 list" where
  "field_enc (F8 x) = le_bytes x"
| "field_enc (F16 x) = le_bytes x"
| "field_enc (F32 x) = le_bytes x"
| "field_enc (F64 x) = le_bytes x"
| "field_enc (FString s) = string_bytes s @ [0]"

abbreviation fields_enc :: "field list \<Rightarrow> u8 list" where
  "fields_enc fs \<equiv> concat (map field_enc fs)"

fun field_ok :: "field \<Rightarrow> bool" where
  "field_ok (FString s) = (0 \<notin> set (string_bytes s))"
| "field_ok f = True"

fun is_string :: "field \<Rightarrow> bool" where
  "is_string (FString s) = True"
| "is_string f = False"

lemma out_field_push:
  "field_ok f \<Longrightarrow> bb_ok b \<Longrightarrow> bb_room (length (field_enc f)) b \<Longrightarrow> out_field f b = Inr (bb_push (field_enc f) b)"
  using c_u8.wr_push [OF TrueI] c_u16.wr_push [OF TrueI] c_u32.wr_push [OF TrueI] c_u64.wr_push [OF TrueI] bb_out_string_push
  by (cases f) simp_all

lemma in_field_unread:
  "field_ok f \<Longrightarrow> bb_unread b = field_enc f @ rest \<Longrightarrow> bb_size b < 2 ^ 64 \<Longrightarrow>
   in_field f b = Inr (f, bb_advance (length (field_enc f)) b)"
  using c_u8.rd_unread [OF TrueI] c_u16.rd_unread [OF TrueI] c_u32.rd_unread [OF TrueI] c_u64.rd_unread [OF TrueI] c_str.rd_unread
  by (cases f) (simp_all add: as_field_def)

lemma field_enc_not_Nil [simp]: "field_enc f \<noteq> []"
  by (cases f) (simp_all flip: length_greater_0_conv)

lemma out_fields_push:
  assumes "list_all field_ok fs" and "bb_ok b" and "bb_room (length (fields_enc fs)) b"
  shows "res_fold out_field fs b = Inr (bb_push (fields_enc fs) b)"
  using assms
proof (induction fs arbitrary: b)
  case (Cons f fs)
  then have "out_field f b = Inr (bb_push (field_enc f) b)"
    by (intro out_field_push) (simp_all add: bb_room_def)
  with Cons show ?case by simp
qed simp

lemma in_fields_unread:
  assumes "list_all field_ok fs" and "bb_unread b = fields_enc fs @ rest" and "bb_size b < 2 ^ 64"
  shows "in_fields fs b = Inr (fs, bb_advance (length (fields_enc fs)) b)"
  using assms
proof (induction fs arbitrary: b)
  case (Cons f fs)
  then have un: "bb_unread b = field_enc f @ fields_enc fs @ rest" by simp
  with Cons.prems have "in_field f b = Inr (f, bb_advance (length (field_enc f)) b)"
    by (intro in_field_unread) simp_all
  moreover have "in_fields fs (bb_advance (length (field_enc f)) b) =
      Inr (fs, bb_advance (length (fields_enc fs)) (bb_advance (length (field_enc f)) b))"
    using Cons.prems bb_unread_advance [OF un] by (intro Cons.IH) simp_all
  ultimately show ?case by simp
qed simp

text \<open>Too few bytes: a number is refused, a string ends with the buffer.\<close>

lemma bb_in_short:
  assumes "length (bb_unread b) < LENGTH('a) div 8" and "bb_rpos b \<le> bb_size b" and "bb_size b < 2 ^ 63" and "LENGTH('a) \<le> 64"
  shows "(bb_in b :: bb_error + 'a::len word \<times> byte_buffer) = Inl (ByteBufferException False (bb_rpos b) (LENGTH('a) div 8) (bb_size b))"
proof -
  have "LENGTH('a) div 8 \<le> 8" using assms(4) by simp
  then have "bb_rpos b + LENGTH('a) div 8 < 2 ^ 64" using assms(2,3) by simp
  then have "szadd (bb_rpos b) (LENGTH('a) div 8) = bb_rpos b + LENGTH('a) div 8" by (simp add: szadd_small)
  moreover have "bb_size b < bb_rpos b + LENGTH('a) div 8" using assms(1,2) by (simp add: bb_unread_def)
  ultimately show ?thesis by (simp add: bb_in_def bb_read_def bb_read_at_def bb_peek_bytes_def)
qed

lemma bb_in_string_open:
  assumes "bb_unread b = string_bytes s" and "0 \<notin> set (string_bytes s)" and "bb_size b < 2 ^ 64"
  shows "bb_in_string_loop b acc = Inr (acc @ s, bb_advance (length s) b)"
  using assms
proof (induction s arbitrary: b acc)
  case Nil
  then have "\<not> bb_rpos b < bb_size b" by (simp add: bb_unread_def string_bytes_def)
  then show ?case by (simp add: bb_in_string_loop.simps)
next
  case (Cons c s)
  then have un: "bb_unread b = [byte_of_char c] @ string_bytes s" and "byte_of_char c \<noteq> 0"
    by (auto simp: string_bytes_def)
  moreover from un have "bb_rpos b < bb_size b" using bb_unread_length [OF un] by simp
  moreover have "bb_read b = Inr (byte_of_char c, bb_advance 1 b)"
    using bb_in_u8_unread [of b "byte_of_char c"] un Cons.prems(3) by (simp add: bb_in_def)
  moreover have "bb_in_string_loop (bb_advance 1 b) (acc @ [c]) = Inr ((acc @ [c]) @ s, bb_advance (length s) (bb_advance 1 b))"
    using bb_unread_advance [OF un] Cons.prems by (intro Cons.IH) (simp_all add: string_bytes_def)
  ultimately show ?case by (simp add: bb_in_string_loop.simps [of b])
qed

lemma in_field_short:
  assumes "length (bb_unread b) < length (field_enc f)" and "\<not> is_string f" and "bb_rpos b \<le> bb_size b" and "bb_size b < 2 ^ 63"
  shows "\<exists>pos n size. in_field f b = Inl (ByteBufferException False pos n size)"
  using assms by (cases f) (auto simp: as_field_def bb_in_short)

lemma in_string_short:
  assumes "bb_unread b @ missing = string_bytes s @ 0 # rest" and "length (bb_unread b) \<le> length s"
    and "0 \<notin> set (string_bytes s)" and "bb_size b < 2 ^ 64"
  shows "in_field (FString s) b = Inr (FString (take (length (bb_unread b)) s), bb_advance (length (bb_unread b)) b)"
proof -
  let ?k = "length (bb_unread b)"
  have "bb_unread b = take ?k (bb_unread b @ missing)" by simp
  also have "\<dots> = string_bytes (take ?k s)" using assms(2) by (simp add: assms(1) string_bytes_def take_map)
  finally have "bb_unread b = string_bytes (take ?k s)" .
  moreover have "0 \<notin> set (string_bytes (take ?k s))" using assms(3) by (auto simp: string_bytes_def dest: in_set_takeD)
  ultimately show ?thesis
    using bb_in_string_open [of b "take ?k s" "[]"] assms(2,4) by (simp add: as_field_def bb_in_string_def min_def)
qed

text \<open>A packet that was cut off is refused, unless it may end in a string.\<close>

lemma in_fields_truncated:
  assumes "list_all field_ok fs" and "fs \<noteq> []" and "\<not> is_string (last fs)" and "bb_unread b @ missing = fields_enc fs" and "missing \<noteq> []"
    and "bb_rpos b \<le> bb_size b" and "bb_size b < 2 ^ 63"
  shows "\<exists>pos n size. in_fields fs b = Inl (ByteBufferException False pos n size)"
  using assms
proof (induction fs arbitrary: b missing)
  case (Cons f fs)
  let ?u = "bb_unread b"
  have un: "?u @ missing = field_enc f @ fields_enc fs" and size: "bb_size b < 2 ^ 64" using Cons.prems by simp_all
  show ?case
  proof (cases "length (field_enc f) \<le> length ?u")
    case True
    define u' where "u' = drop (length (field_enc f)) ?u"
    have u1: "?u = field_enc f @ u'"
      using True arg_cong [OF un, of "take (length (field_enc f))"] append_take_drop_id [of "length (field_enc f)" ?u]
      by (simp add: u'_def)
    then have u2: "u' @ missing = fields_enc fs" using un by simp
    note u = u1 u2
    have "in_field f b = Inr (f, bb_advance (length (field_enc f)) b)" (is "_ = Inr (_, ?b)")
      using Cons.prems(1) u(1) size by (intro in_field_unread) simp_all
    moreover have "fs \<noteq> []" using u(2) Cons.prems(5) by auto
    moreover have "bb_unread ?b @ missing = fields_enc fs" using bb_unread_advance [OF u(1)] u(2) by simp
    moreover have "bb_rpos ?b \<le> bb_size ?b" using bb_unread_length [OF u(1)] by simp
    ultimately have "\<exists>pos n size. in_fields fs ?b = Inl (ByteBufferException False pos n size)"
      using Cons.prems by (intro Cons.IH [of ?b missing]) simp_all
    with \<open>in_field f b = Inr (f, ?b)\<close> show ?thesis by auto
  next
    case short: False
    show ?thesis
    proof (cases "is_string f")
      case False
      then show ?thesis using in_field_short [of b f] short Cons.prems by auto
    next
      case True
      then obtain s where f: "f = FString s" by (cases f) simp_all
      have "in_field f b = Inr (FString (take (length ?u) s), bb_advance (length ?u) b)" (is "_ = Inr (_, ?b)")
        unfolding f using Cons.prems(1) un short size f by (intro in_string_short [where rest = "fields_enc fs"]) simp_all
      moreover have fs: "fs \<noteq> []" using Cons.prems(3) True by auto
      moreover have "bb_unread ?b = []" using bb_unread_advance [of b ?u "[]"] by simp
      moreover have "fields_enc fs \<noteq> []" using fs by (cases fs) simp_all
      moreover have "bb_rpos ?b \<le> bb_size ?b" using Cons.prems(6) by (simp add: bb_unread_def)
      ultimately have "\<exists>pos n size. in_fields fs ?b = Inl (ByteBufferException False pos n size)"
        using Cons.prems by (intro Cons.IH [of ?b "fields_enc fs"]) simp_all
      with \<open>in_field f b = Inr (_, ?b)\<close> show ?thesis by auto
    qed
  qed
qed simp

section \<open>Properties\<close>

text \<open>
  \<open>appendPackGUID\<close> never writes outside its nine-byte array \<^verbatim>\<open>packGUID\<close>: it stores the mask and
  exactly the non-zero bytes of the GUID.
\<close>

theorem packGUID_fits_array:
  "length (packGUID_loop 0 g 0 []) \<le> 9 \<and>
   tl (packGUID_loop 0 g 0 []) = filter (\<lambda>x. x \<noteq> 0) (le_bytes g)"
  using length_packGUID [of g]
  by (simp add: packGUID_eq guid_nonzero_def guid_byte_def [abs_def] le_bytes_def sizeof_T_def)

text \<open>
  C31. Packed GUIDs round-trip: what \<open>appendPackGUID\<close> appends to a buffer with room for nine bytes is
  read back by \<open>readPackGUID\<close> as the same GUID, consuming exactly the bytes appended.
\<close>

theorem packed_guid_roundtrip:
  assumes "bb_ok b" and "bb_room 9 b"
  shows "\<exists>b'. bb_appendPackGUID g b = Inr b' \<and>
    bb_readPackGUID (bb_set_rpos (bb_size b) b') = Inr (g, bb_rfinish b')"
  using c_guid.roundtrip [of b g] bb_room_mono [OF assms(2) length_packGUID] assms(1) by blast

theorem packed_guid_roundtrip_witness:
  "\<exists>b'. bb_appendPackGUID 0x00F1000000AB0001 new_ByteBuffer = Inr b' \<and>
    bb_readPackGUID (bb_set_rpos 0 b') = Inr (0x00F1000000AB0001, bb_rfinish b')"
  using packed_guid_roundtrip [of new_ByteBuffer] by (simp add: new_ByteBuffer_def bb_room_def bb_ok_def)

text \<open>
  A vector of strings without zero bytes, of length below \<open>2\<^sup>3\<^sup>2\<close>, written by \<^verbatim>\<open>operator<<\<close> is read back
  unchanged by \<^verbatim>\<open>operator>>\<close>.
\<close>

theorem string_vector_roundtrip:
  assumes "bb_ok b" and "length v < 2 ^ 32" and "\<forall>s \<in> set v. 0 \<notin> set (string_bytes s)"
    and "bb_room (4 + (\<Sum>s \<leftarrow> v. Suc (length s))) b"
  shows "\<exists>b'. bb_out_vector bb_out_string v b = Inr b' \<and>
    bb_in_vector bb_in_string (bb_set_rpos (bb_size b) b') = Inr (v, bb_rfinish b')"
proof -
  have "length (vector_enc (\<lambda>s. string_bytes s @ [0]) v) = 4 + (\<Sum>s \<leftarrow> v. Suc (length s))"
    by (simp add: vector_enc_def length_concat o_def)
  moreover have "vector_valid (\<lambda>s. 0 \<notin> set (string_bytes s)) v"
    using assms(2,3) by (simp add: vector_valid_def list_all_iff)
  ultimately show ?thesis using c_vec_str.roundtrip [of v b] assms(1,4) by auto
qed

theorem string_vector_roundtrip_witness:
  "\<exists>b'. bb_out_vector bb_out_string [''Nobody'', []] new_ByteBuffer = Inr b' \<and>
    bb_in_vector bb_in_string (bb_set_rpos 0 b') = Inr ([''Nobody'', []], bb_rfinish b')"
proof -
  have "0 \<notin> set (string_bytes ''Nobody'')" by (simp add: string_bytes_def byte_of_char_def)
  then have "\<forall>s \<in> set [''Nobody'', []]. 0 \<notin> set (string_bytes s)" by (simp add: string_bytes_def)
  then show ?thesis
    using string_vector_roundtrip [of new_ByteBuffer "[''Nobody'', []]"]
    by (simp add: new_ByteBuffer_def bb_room_def bb_ok_def)
qed

text \<open>
  A map from \<^verbatim>\<open>uint32\<close> to strings round-trips: the reader rebuilds the same ordered map.
\<close>

theorem string_map_roundtrip:
  assumes "bb_ok b" and "omap_ok m" and "length m < 2 ^ 32"
    and "\<forall>e \<in> set m. 0 \<notin> set (string_bytes (snd e))"
    and "bb_room (4 + (\<Sum>e \<leftarrow> m. 5 + length (snd e))) b"
  shows "\<exists>b'. bb_out_map bb_out bb_out_string (m :: (u32, string) omap) b = Inr b' \<and>
    bb_in_map bb_in bb_in_string (bb_set_rpos (bb_size b) b') = Inr (m, bb_rfinish b')"
proof -
  let ?enc = "vector_enc (pair_enc le_bytes (\<lambda>s. string_bytes s @ [0]))"
  have "length (?enc m) = 4 + (\<Sum>e \<leftarrow> m. 5 + length (snd e))"
    by (simp add: vector_enc_def pair_enc_def length_concat o_def)
  moreover have "map_valid (\<lambda>_ :: u32. True) (\<lambda>s. 0 \<notin> set (string_bytes s)) m"
    using assms(2-4) by (auto simp: map_valid_def vector_valid_def pair_valid_def list_all_iff)
  ultimately show ?thesis using c_map_u32_str.roundtrip [of m b] assms(1,5) by auto
qed

theorem string_map_roundtrip_witness:
  "\<exists>b'. bb_out_map bb_out bb_out_string [(3 :: u32, ''ab''), (9, [])] new_ByteBuffer = Inr b' \<and>
    bb_in_map bb_in bb_in_string (bb_set_rpos 0 b') = Inr ([(3 :: u32, ''ab''), (9, [])], bb_rfinish b')"
proof -
  have "0 \<notin> set (string_bytes ''ab'')" by (simp add: string_bytes_def byte_of_char_def)
  moreover have "0 \<notin> set (string_bytes [])" by (simp add: string_bytes_def)
  ultimately show ?thesis
    using string_map_roundtrip [of new_ByteBuffer "[(3 :: u32, ''ab''), (9, [])]"]
    by (simp add: new_ByteBuffer_def bb_room_def bb_ok_def omap_ok_def)
qed

text \<open>
  C32. A packet written field by field, numbers and strings without zero bytes in any order, is read back field by field
  with the same values, and the read position ends exactly at the end of what was written.  If it is cut off anywhere, reading it
  ends with \<open>ByteBufferException\<close> at the first number that does not fit, provided the last field is not a string: a string field
  is cut off by the end of the buffer without an error.
\<close>

theorem packet_fields_roundtrip:
  assumes "bb_ok b" and "list_all field_ok fs" and "bb_room (length (fields_enc fs)) b"
  shows "\<exists>b'. res_fold out_field fs b = Inr b' \<and> in_fields fs (bb_set_rpos (bb_size b) b') = Inr (fs, bb_rfinish b') \<and>
    bb_storage b' = bb_storage b @ fields_enc fs \<and>
    (fs \<noteq> [] \<and> \<not> is_string (last fs) \<longrightarrow>
       (\<forall>k < length (fields_enc fs).
          \<exists>pos n size. in_fields fs (bb_view [] (take k (fields_enc fs))) = Inl (ByteBufferException False pos n size)))"
proof -
  let ?b = "bb_push (fields_enc fs) b"
  let ?r = "bb_set_rpos (bb_size b) ?b"
  have un: "bb_unread ?r = fields_enc fs @ []" by (simp add: bb_unread_def bb_set_rpos_def bb_push_def)
  have size: "bb_size ?r < 2 ^ 64" using assms(3) by (simp add: bb_set_rpos_def bb_push_def bb_room_def)
  have "bb_advance (length (fields_enc fs)) ?r = bb_rfinish ?b"
    using assms(1) by (simp add: bb_advance_def bb_set_rpos_def bb_rfinish_def bb_push_def bb_ok_def)
  then have rd: "in_fields fs ?r = Inr (fs, bb_rfinish ?b)" using in_fields_unread [OF assms(2) un size] by simp
  have "\<exists>pos n size. in_fields fs (bb_view [] (take k (fields_enc fs))) = Inl (ByteBufferException False pos n size)"
    if "fs \<noteq> []" "\<not> is_string (last fs)" and k: "k < length (fields_enc fs)" for k
  proof (rule in_fields_truncated [OF assms(2) that(1,2)])
    show "bb_unread (bb_view [] (take k (fields_enc fs))) @ drop k (fields_enc fs) = fields_enc fs"
      by (simp add: bb_unread_def bb_view_def)
    show "drop k (fields_enc fs) \<noteq> []" using k by simp
    have "min (length (fields_enc fs)) k < 2 ^ 63" using assms(3) by (simp add: bb_room_def)
    then show "bb_size (bb_view [] (take k (fields_enc fs))) < 2 ^ 63" by (simp add: bb_view_def)
  qed (simp add: bb_view_def)
  moreover have "bb_storage ?b = bb_storage b @ fields_enc fs" by (simp add: bb_push_def)
  ultimately show ?thesis using out_fields_push [OF assms(2,1,3)] rd by blast
qed

definition example_fields :: "field list" where
  "example_fields = [F32 7, FString ''Ork'', F8 1]"

theorem packet_fields_roundtrip_witness:
  "(\<exists>b'. res_fold out_field example_fields new_ByteBuffer = Inr b' \<and>
     in_fields example_fields (bb_set_rpos 0 b') = Inr (example_fields, bb_rfinish b')) \<and>
   (\<exists>pos n size. in_fields example_fields (bb_view [] (take 6 (fields_enc example_fields))) = Inl (ByteBufferException False pos n size))"
proof -
  have "0 \<notin> set (string_bytes ''Ork'')" by (simp add: string_bytes_def byte_of_char_def)
  then have "list_all field_ok example_fields" by (simp add: example_fields_def)
  moreover have len: "length (fields_enc example_fields) = 9" by (simp add: example_fields_def)
  moreover have "example_fields \<noteq> []" "\<not> is_string (last example_fields)" by (simp_all add: example_fields_def)
  ultimately show ?thesis
    using packet_fields_roundtrip [of new_ByteBuffer example_fields]
    by (fastforce simp: new_ByteBuffer_def bb_room_def bb_ok_def)
qed

text \<open>
  The bound check of \<^verbatim>\<open>read<T>(pos)\<close> decides every outcome: the bytes are returned when they lie
  inside the storage, \<open>ByteBufferException\<close> is thrown when they do not, and the storage is only left
  (undefined behaviour) when the \<^verbatim>\<open>size_t\<close> sum \<^verbatim>\<open>pos + sizeof(T)\<close> wraps around.
\<close>

theorem read_bounds_exact:
  assumes "pos < 2 ^ 64" and "bb_size b < 2 ^ 64" and "0 < n" and "n \<le> 16"
  shows "bb_peek_bytes pos n b =
    (if pos + n \<le> bb_size b then Inr (take n (drop pos (bb_storage b)))
     else if 2 ^ 64 \<le> pos + n \<and> pos + n - 2 ^ 64 \<le> bb_size b then Inl OutOfBounds
     else Inl (ByteBufferException False pos n (bb_size b)))"
proof (cases "pos + n < 2 ^ 64")
  case True
  then show ?thesis by (auto simp: bb_peek_bytes_def szadd_small)
next
  case False
  then have "(pos + n) mod 2 ^ 64 = (pos + n - 2 ^ 64) mod 2 ^ 64" by (simp add: le_mod_geq)
  with assms have "szadd pos n = pos + n - 2 ^ 64" by (simp add: szadd_def)
  with False assms show ?thesis by (auto simp: bb_peek_bytes_def)
qed

theorem read_bounds_exact_witness:
  "bb_peek_bytes (2 ^ 64 - 1) 1 new_ByteBuffer = Inl OutOfBounds \<and>
   bb_peek_bytes 0 1 new_ByteBuffer = Inl (ByteBufferException False 0 1 0)"
  using read_bounds_exact [of "2 ^ 64 - 1" new_ByteBuffer 1] read_bounds_exact [of 0 new_ByteBuffer 1]
  by (simp add: new_ByteBuffer_def)

text \<open>
  \<^verbatim>\<open>put\<close> overwrites in place: it keeps the buffer's size and write position, the value is what
  \<^verbatim>\<open>read\<close> returns at that position afterwards, and every other byte stays.
\<close>

theorem put_then_read:
  fixes v :: u32
  assumes "bb_put pos v b = Inr b'" and "bb_size b < 2 ^ 64"
  shows "bb_read_at pos b' = Inr v \<and> bb_size b' = bb_size b \<and> bb_wpos b' = bb_wpos b \<and>
    (\<forall>i < bb_size b. i < pos \<or> pos + 4 \<le> i \<longrightarrow> bb_storage b' ! i = bb_storage b ! i)"
proof -
  let ?src = "le_bytes v"
  from assms(1) have b': "b' = b\<lparr>bb_storage := vec_overwrite pos ?src (bb_storage b)\<rparr>"
    and le: "pos + length ?src \<le> bb_size b"
    by (auto simp: bb_put_def bb_put_bytes_def split: if_splits)
  from le assms(2) have "szadd pos 4 = pos + 4" by (simp add: szadd_small)
  moreover have "take 4 (drop pos (bb_storage b')) = ?src"
    using vec_overwrite_read [OF le] by (simp add: b')
  moreover have "bb_size b' = bb_size b" using vec_overwrite_length [OF le] by (simp add: b')
  moreover have "le_value ?src = v" by (rule le_value_le_bytes) simp
  ultimately have "bb_read_at pos b' = Inr v" using le
    by (simp add: bb_read_at_def bb_peek_bytes_def)
  moreover have "bb_wpos b' = bb_wpos b" by (simp add: b')
  ultimately show ?thesis using \<open>bb_size b' = bb_size b\<close> vec_overwrite_nth [OF le] by (auto simp: b')
qed

theorem put_then_read_witness:
  "\<exists>b'. bb_put 1 (7 :: u32) (bb_resize 6 new_ByteBuffer) = Inr b' \<and> bb_read_at 1 b' = Inr (7 :: u32)"
proof -
  let ?b = "bb_resize 6 new_ByteBuffer"
  have sz: "bb_size ?b = 6" by (simp add: bb_resize_def vec_resize_def new_ByteBuffer_def)
  then obtain b' where "bb_put 1 (7 :: u32) ?b = Inr b'"
    by (simp add: bb_put_def bb_put_bytes_def szadd_def)
  with put_then_read [of 1 7 ?b b'] sz show ?thesis by auto
qed

text \<open>
  A packet whose operations only append and whose total length stays within the buffer's limit is
  always built, and its bytes are the encodings of the operations in order.
\<close>

theorem packet_built:
  assumes "list_all op_appends (wp_ops p)"
    and "(\<Sum>op \<leftarrow> wp_ops p. length (op_enc op)) \<le> 10000000"
  shows "\<exists>b. packet_buffer p = Inr b \<and> bb_storage b = concat (map op_enc (wp_ops p)) \<and> bb_ok b"
proof -
  let ?bs = "concat (map op_enc (wp_ops p))"
  have "bb_room (length ?bs) new_ByteBuffer"
    using assms(2) by (simp add: bb_room_def new_ByteBuffer_def length_concat o_def)
  from packet_buffer_push [OF assms(1) bb_ok_new this]
  have "packet_buffer p = Inr (bb_push ?bs new_ByteBuffer)" by (simp add: packet_buffer_def)
  moreover have "bb_storage (bb_push ?bs new_ByteBuffer) = ?bs"
    by (simp add: bb_push_def new_ByteBuffer_def)
  ultimately show ?thesis by simp
qed

theorem packet_built_witness:
  "\<exists>b. packet_buffer (wp_add [Out8 5, OutStr ''a''] (new_WorldPacket 0x99)) = Inr b \<and>
     bb_storage b = [5, 97, 0]"
proof -
  have "op_enc (Out8 5) = [5]" and "op_enc (OutStr ''a'') = [97, 0]"
    by (simp_all add: le_bytes_u8 string_bytes_def byte_of_char_def)
  then show ?thesis
    using packet_built [of "wp_add [Out8 5, OutStr ''a''] (new_WorldPacket 0x99)"]
    by (auto simp: wp_add_def new_WorldPacket_def simp del: op_enc.simps)
qed

text \<open>
  A \<^verbatim>\<open>bool\<close> is read through a signed \<^verbatim>\<open>char\<close>: exactly the bytes 1 to 127 are read as true, so a
  non-zero byte from 128 on is read as false.
\<close>

theorem bool_read_signed:
  assumes "bb_unread b = x # rest" and "bb_size b < 2 ^ 64"
  shows "bb_in_bool b = Inr (1 \<le> unat x \<and> unat x \<le> 127, bb_advance 1 b)"
proof -
  have "sint x = (uint x + 128) mod 256 - 128"
    by (simp add: sint_uint signed_take_bit_eq_take_bit_shift take_bit_eq_mod)
  moreover have x: "int (unat x) = uint x" "0 \<le> uint x" "uint x < 256"
    using uint_lt2p [of x] by simp_all
  then have "(uint x + 128) mod 256 = (if uint x < 128 then uint x + 128 else uint x - 128)"
    using mod_add_self2 [of "uint x - 128" 256]
    by (cases "uint x < 128") (simp_all add: add.commute mod_pos_pos_trivial)
  ultimately have "0 < sint x \<longleftrightarrow> 1 \<le> uint x \<and> uint x \<le> 127" using x by auto
  then have "0 < sint x \<longleftrightarrow> 1 \<le> unat x \<and> unat x \<le> 127" using x(1) by linarith
  then show ?thesis
    using bb_in_u8_unread [OF assms] by (simp add: bb_in_bool_def bb_in_def)
qed

theorem bool_read_signed_witness:
  "bb_in_bool (bb_push [255] new_ByteBuffer) = Inr (False, bb_advance 1 (bb_push [255] new_ByteBuffer))"
  using bool_read_signed [of "bb_push [255] new_ByteBuffer" 255 "[]"]
  by (simp add: bb_unread_def bb_push_def new_ByteBuffer_def)

end
