(* ===== verification/World_Model.thy ===== *)
theory World_Model
  imports ByteBuffer
begin

text \<open>
  What the social, chat, reputation and ticket code sees of the rest of the server: account levels
  (\<^verbatim>\<open>game/Accounts/AccountMgr.cpp\<close>), the layout of 64-bit guids (\<^verbatim>\<open>game/Entities/Object/ObjectDefines.h\<close>), the
  players the \<^verbatim>\<open>ObjectAccessor\<close> knows, the configuration switches, and the contact lists that
  \<^verbatim>\<open>SocialMgr\<close> owns and players point into.  What an operation does to the outside, packets handed to a
  session and statements handed to the database, is a list of \<open>effect\<close>s in the order of the calls.
\<close>

section \<open>Accounts\<close>

datatype AccountTypes = SEC_PLAYER | SEC_VIP | SEC_GAMEMASTER | SEC_ADMINISTRATOR | SEC_CONSOLE

fun sec_code :: "AccountTypes \<Rightarrow> u32" where
  "sec_code SEC_PLAYER = 0"
| "sec_code SEC_VIP = 1"
| "sec_code SEC_GAMEMASTER = 2"
| "sec_code SEC_ADMINISTRATOR = 3"
| "sec_code SEC_CONSOLE = 4"

definition IsPlayerAccount :: "u32 \<Rightarrow> bool" where
  "IsPlayerAccount gmlevel = (gmlevel \<le> sec_code SEC_VIP)"

definition IsGMAccount :: "u32 \<Rightarrow> bool" where
  "IsGMAccount gmlevel = (sec_code SEC_VIP < gmlevel \<and> gmlevel < sec_code SEC_CONSOLE)"

definition IsConsoleAccount :: "u32 \<Rightarrow> bool" where
  "IsConsoleAccount gmlevel = (gmlevel = sec_code SEC_CONSOLE)"

section \<open>Guids\<close>

datatype HighGuid =
    HIGHGUID_ITEM | HIGHGUID_CONTAINER | HIGHGUID_PLAYER | HIGHGUID_GAMEOBJECT | HIGHGUID_TRANSPORT
  | HIGHGUID_UNIT | HIGHGUID_PET | HIGHGUID_VEHICLE | HIGHGUID_DYNAMICOBJECT | HIGHGUID_CORPSE
  | HIGHGUID_MO_TRANSPORT | HIGHGUID_GROUP

fun high_code :: "HighGuid \<Rightarrow> u32" where
  "high_code HIGHGUID_ITEM = 0x4000"
| "high_code HIGHGUID_CONTAINER = 0x4000"
| "high_code HIGHGUID_PLAYER = 0x0000"
| "high_code HIGHGUID_GAMEOBJECT = 0xF110"
| "high_code HIGHGUID_TRANSPORT = 0xF120"
| "high_code HIGHGUID_UNIT = 0xF130"
| "high_code HIGHGUID_PET = 0xF140"
| "high_code HIGHGUID_VEHICLE = 0xF150"
| "high_code HIGHGUID_DYNAMICOBJECT = 0xF100"
| "high_code HIGHGUID_CORPSE = 0xF101"
| "high_code HIGHGUID_MO_TRANSPORT = 0x1FC0"
| "high_code HIGHGUID_GROUP = 0x1F50"

definition MAKE_NEW_GUID :: "u32 \<Rightarrow> u32 \<Rightarrow> u32 \<Rightarrow> u64" where
  "MAKE_NEW_GUID l e h = ucast l OR push_bit 24 (ucast e) OR push_bit 48 (ucast h)"

definition GUID_HIPART :: "u64 \<Rightarrow> u32" where
  "GUID_HIPART x = ucast (drop_bit 48 x AND 0x0000FFFF)"

definition IsGuidHaveEnPart :: "u64 \<Rightarrow> bool" where
  "IsGuidHaveEnPart guid =
     (let h = GUID_HIPART guid in
      if h = high_code HIGHGUID_ITEM \<or> h = high_code HIGHGUID_PLAYER \<or> h = high_code HIGHGUID_DYNAMICOBJECT \<or>
         h = high_code HIGHGUID_CORPSE \<or> h = high_code HIGHGUID_GROUP
      then False else True)"

definition GUID_ENPART :: "u64 \<Rightarrow> u32" where
  "GUID_ENPART x = (if IsGuidHaveEnPart x then ucast (drop_bit 24 x AND 0x0000000000FFFFFF) else 0)"

definition GUID_LOPART :: "u64 \<Rightarrow> u32" where
  "GUID_LOPART x =
     (if IsGuidHaveEnPart x then ucast (x AND 0x0000000000FFFFFF) else ucast (x AND 0x00000000FFFFFFFF))"

section \<open>Contact lists\<close>

datatype FriendStatus =
    FRIEND_STATUS_OFFLINE | FRIEND_STATUS_ONLINE | FRIEND_STATUS_AFK | FRIEND_STATUS_DND | FRIEND_STATUS_RAF

fun status_code :: "FriendStatus \<Rightarrow> u8" where
  "status_code FRIEND_STATUS_OFFLINE = 0x00"
| "status_code FRIEND_STATUS_ONLINE = 0x01"
| "status_code FRIEND_STATUS_AFK = 0x02"
| "status_code FRIEND_STATUS_DND = 0x04"
| "status_code FRIEND_STATUS_RAF = 0x08"

datatype SocialFlag = SOCIAL_FLAG_FRIEND | SOCIAL_FLAG_IGNORED | SOCIAL_FLAG_MUTED | SOCIAL_FLAG_UNK

fun flag_code :: "SocialFlag \<Rightarrow> u32" where
  "flag_code SOCIAL_FLAG_FRIEND = 0x01"
| "flag_code SOCIAL_FLAG_IGNORED = 0x02"
| "flag_code SOCIAL_FLAG_MUTED = 0x04"
| "flag_code SOCIAL_FLAG_UNK = 0x08"

record friend_info =
  fi_Status :: FriendStatus
  fi_Flags :: u32
  fi_Area :: u32
  fi_Level :: u8
  fi_Class :: u8
  fi_Note :: string

definition FriendInfo :: "u32 \<Rightarrow> string \<Rightarrow> friend_info" where
  "FriendInfo flags note =
     \<lparr>fi_Status = FRIEND_STATUS_OFFLINE, fi_Flags = flags, fi_Area = 0, fi_Level = 0, fi_Class = 0, fi_Note = note\<rparr>"

record player_social =
  m_playerSocialMap :: "(u32, friend_info) omap"
  m_playerGUID :: u32

definition new_PlayerSocial :: player_social where
  "new_PlayerSocial = \<lparr>m_playerSocialMap = [], m_playerGUID = 0\<rparr>"

section \<open>Players and the world\<close>

text \<open>A player with a session.  \<open>pl_visible\<close> is \<^verbatim>\<open>Unit::IsVisible\<close>, \<open>pl_gm_tag\<close> and \<open>pl_dev_tag\<close> the two chat tags.\<close>

record player =
  pl_guid :: u64
  pl_name :: string
  pl_team :: u32
  pl_security :: u32
  pl_in_group :: bool
  pl_guild :: u32
  pl_visible :: bool
  pl_afk :: bool
  pl_dnd :: bool
  pl_gm_tag :: bool
  pl_dev_tag :: bool
  pl_zone :: u32
  pl_level :: u8
  pl_class :: u8

record world =
  w_players :: "(u64 \<times> player) list"
  w_names :: "u64 \<Rightarrow> string option"
  w_social :: "(u32, player_social) omap"
  cfg_two_side_channel :: bool
  cfg_two_side_who :: bool
  cfg_two_side_friend :: bool
  cfg_gm_friend :: bool
  cfg_silent_gm_join :: bool
  cfg_restricted_lfg :: bool
  cfg_preserve_channels :: bool
  cfg_preserve_duration :: u32
  cfg_gm_in_who :: u32

definition FindPlayer :: "world \<Rightarrow> u64 \<Rightarrow> player option" where
  "FindPlayer w guid = map_of (w_players w) guid"

fun find_by_name :: "string \<Rightarrow> (u64 \<times> player) list \<Rightarrow> player option" where
  "find_by_name name [] = None"
| "find_by_name name (e # es) = (if name = pl_name (snd e) then Some (snd e) else find_by_name name es)"

definition FindPlayerByName :: "world \<Rightarrow> string \<Rightarrow> player option" where
  "FindPlayerByName w name = find_by_name name (w_players w)"

text \<open>The lookups behind the online player, in the name cache and the database, are \<open>w_names\<close>.\<close>

definition GetPlayerNameByGUID :: "world \<Rightarrow> u64 \<Rightarrow> string option" where
  "GetPlayerNameByGUID w guid =
     (case FindPlayer w guid of Some p \<Rightarrow> Some (pl_name p) | None \<Rightarrow> w_names w guid)"

definition GetGUIDLow :: "player \<Rightarrow> u32" where
  "GetGUIDLow p = GUID_LOPART (pl_guid p)"

definition IsVisibleGloballyFor :: "player \<Rightarrow> player \<Rightarrow> bool" where
  "IsVisibleGloballyFor this u =
     (if pl_guid u = pl_guid this then True
      else if pl_visible this then True
      else if \<not> IsPlayerAccount (pl_security u) then pl_security this \<le> pl_security u
      else False)"

definition GetChatTag :: "player \<Rightarrow> u8" where
  "GetChatTag p =
     (let tag = 0x00;
          tag = (if pl_gm_tag p then tag OR 0x04 else tag);
          tag = (if pl_dnd p then tag OR 0x02 else tag);
          tag = (if pl_afk p then tag OR 0x01 else tag);
          tag = (if pl_dev_tag p then tag OR 0x10 else tag)
      in tag)"

text \<open>\<^verbatim>\<open>Player::GetSocial\<close>: the entry of \<^verbatim>\<open>m_socialMap\<close> that \<^verbatim>\<open>SocialMgr::LoadFromDB\<close> made for the player.\<close>

definition GetSocial :: "world \<Rightarrow> player \<Rightarrow> player_social" where
  "GetSocial w p = omap_at new_PlayerSocial (w_social w) (GetGUIDLow p)"

section \<open>Effects\<close>

datatype db_value = DbBool bool | DbU8 u8 | DbU16 u16 | DbU32 u32 | DbU64 u64 | DbString string

text \<open>
  \<open>Send g pkt\<close>: the session of the player \<open>g\<close> gets the packet.  \<open>PlayerJoined\<close> and \<open>PlayerLeft\<close> are the
  calls \<^verbatim>\<open>JoinedChannel(this)\<close> and \<^verbatim>\<open>LeftChannel(this)\<close> on a player.  \<open>DbExec\<close> executes a prepared
  statement.
\<close>

datatype effect =
    Send u64 world_packet
  | PlayerJoined u64
  | PlayerLeft u64
  | DbExec string "db_value list"

fun sent_to :: "u64 \<Rightarrow> effect list \<Rightarrow> world_packet list" where
  "sent_to g [] = []"
| "sent_to g (Send h pkt # es) = (if h = g then pkt # sent_to g es else sent_to g es)"
| "sent_to g (_ # es) = sent_to g es"

section \<open>Lemmas\<close>

lemma flag_bit:
  "(x :: 'a::len word) AND 2 ^ n \<noteq> 0 \<longleftrightarrow> bit x n"
  by (simp add: and_exp_eq_0_iff_not_bit)

lemma flag_bits [flag_simps]:
  fixes x :: "'a::len word"
  shows "x AND 1 = 0 \<longleftrightarrow> \<not> bit x 0"
    and "x AND 2 = 0 \<longleftrightarrow> \<not> bit x (Suc 0)"
    and "x AND 4 = 0 \<longleftrightarrow> \<not> bit x 2"
    and "x AND 8 = 0 \<longleftrightarrow> \<not> bit x 3"
proof -
  show "x AND 1 = 0 \<longleftrightarrow> \<not> bit x 0" using flag_bit [of x 0] unfolding power_0 by blast
  show "x AND 2 = 0 \<longleftrightarrow> \<not> bit x (Suc 0)" using flag_bit [of x "Suc 0"] unfolding power_Suc0_right by blast
  have p: "(2 :: 'a word) ^ 2 = 4" "(2 :: 'a word) ^ 3 = 8" by simp_all
  show "x AND 4 = 0 \<longleftrightarrow> \<not> bit x 2" using flag_bit [of x 2] unfolding p by blast
  show "x AND 8 = 0 \<longleftrightarrow> \<not> bit x 3" using flag_bit [of x 3] unfolding p by blast
qed

lemma player_or_gm:
  "IsPlayerAccount (sec_code a) \<longleftrightarrow> a \<in> {SEC_PLAYER, SEC_VIP}"
  by (cases a) (simp_all add: IsPlayerAccount_def word_le_nat_alt)

lemma gm_levels:
  "IsGMAccount (sec_code a) \<longleftrightarrow> a \<in> {SEC_GAMEMASTER, SEC_ADMINISTRATOR}"
  by (cases a) (simp_all add: IsGMAccount_def word_less_nat_alt)

lemma sent_to_append [simp]: "sent_to g (xs @ ys) = sent_to g xs @ sent_to g ys"
  by (induction g xs rule: sent_to.induct) auto

text \<open>Reading the parts of a guid back, bit by bit.\<close>

lemma less_exp_bit:
  fixes x :: "'a::len word"
  assumes "x < 2 ^ n" and "n < LENGTH('a)" and "bit x i"
  shows "i < n"
proof -
  have "uint ((2 :: 'a word) ^ n) = 2 ^ n" using assms(2) uint_2p [of n, where ?'a = 'a] by (simp add: word_gt_0)
  then have "uint x < 2 ^ n" using \<open>x < 2 ^ n\<close> by (simp add: word_less_def)
  then have "take_bit n (uint x) = uint x" by (simp add: take_bit_int_eq_self_iff)
  moreover have "bit (uint x) i" using \<open>bit x i\<close> by (simp add: bit_simps bit_imp_le_length)
  ultimately have "bit (take_bit n (uint x)) i" by simp
  then show ?thesis by (simp add: bit_simps)
qed

lemma guid_masks:
  "(0xFFFF :: u64) = mask 16" "(0xFFFFFF :: u64) = mask 24" "(0xFFFFFFFF :: u64) = mask 32"
  by (simp_all add: mask_eq_exp_minus_1)

lemma guid_part_bits:
  "bit (GUID_HIPART x) n \<longleftrightarrow> n < 16 \<and> bit x (48 + n)"
  "bit (MAKE_NEW_GUID l e h) n \<longleftrightarrow>
     n < 64 \<and> (bit l n \<or> 24 \<le> n \<and> bit e (n - 24) \<or> 48 \<le> n \<and> bit h (n - 48))"
  unfolding GUID_HIPART_def MAKE_NEW_GUID_def guid_masks by (auto simp: bit_simps dest: bit_imp_le_length)

lemma guid_hipart:
  assumes "e < 2 ^ 24" and "h < 2 ^ 16"
  shows "GUID_HIPART (MAKE_NEW_GUID l e h) = h"
proof (rule bit_word_eqI)
  fix n assume "n < LENGTH(32)"
  have "bit e k \<Longrightarrow> k < 24" for k using less_exp_bit [OF assms(1)] by simp
  moreover have "bit h k \<Longrightarrow> k < 16" for k using less_exp_bit [OF assms(2)] by simp
  moreover have "bit l k \<Longrightarrow> k < 32" for k using bit_imp_le_length [of l k] by simp
  ultimately show "bit (GUID_HIPART (MAKE_NEW_GUID l e h)) n = bit h n"
    by (fastforce simp: guid_part_bits)
qed

lemma player_guid_lopart: "GUID_LOPART (MAKE_NEW_GUID l 0 (high_code HIGHGUID_PLAYER)) = l"
proof -
  have "GUID_HIPART (MAKE_NEW_GUID l 0 0) = 0" by (simp add: guid_hipart)
  then have "\<not> IsGuidHaveEnPart (MAKE_NEW_GUID l 0 0)" by (simp add: IsGuidHaveEnPart_def)
  moreover have "ucast (MAKE_NEW_GUID l 0 0 AND 0x00000000FFFFFFFF) = l"
    unfolding guid_masks by (rule bit_word_eqI) (auto simp: bit_simps guid_part_bits)
  ultimately show ?thesis by (simp add: GUID_LOPART_def)
qed

section \<open>Properties\<close>

text \<open>
  The parts of a guid are read back from it: for the guid types that carry an entry, as long as the
  low part and the entry fit their 24 bits; a player's guid gives back every 32-bit low part.
\<close>

theorem guid_parts_roundtrip:
  assumes "l < 2 ^ 24" and "e < 2 ^ 24" and "h < 2 ^ 16"
    and "IsGuidHaveEnPart (MAKE_NEW_GUID l e h)"
  shows "GUID_LOPART (MAKE_NEW_GUID l e h) = l \<and> GUID_ENPART (MAKE_NEW_GUID l e h) = e \<and>
    GUID_HIPART (MAKE_NEW_GUID l e h) = h \<and> GUID_LOPART (MAKE_NEW_GUID l' 0 (high_code HIGHGUID_PLAYER)) = l'"
proof -
  have eb: "bit e k \<Longrightarrow> k < 24" for k using less_exp_bit [OF assms(2)] by simp
  have lb: "bit l k \<Longrightarrow> k < 24" for k using less_exp_bit [OF assms(1)] by simp
  have "ucast (MAKE_NEW_GUID l e h AND 0x0000000000FFFFFF) = l"
    unfolding guid_masks by (rule bit_word_eqI) (auto simp: bit_simps guid_part_bits dest: lb)
  moreover have "ucast (drop_bit 24 (MAKE_NEW_GUID l e h) AND 0x0000000000FFFFFF) = e"
    unfolding guid_masks by (rule bit_word_eqI) (auto simp: bit_simps guid_part_bits dest: lb eb)
  ultimately have "GUID_LOPART (MAKE_NEW_GUID l e h) = l \<and> GUID_ENPART (MAKE_NEW_GUID l e h) = e"
    using assms(4) by (simp add: GUID_LOPART_def GUID_ENPART_def)
  then show ?thesis by (simp only: guid_hipart [OF assms(2,3)] player_guid_lopart simp_thms)
qed

theorem guid_parts_roundtrip_witness:
  "GUID_LOPART (MAKE_NEW_GUID 77 1234 0xF130) = 77 \<and> GUID_ENPART (MAKE_NEW_GUID 77 1234 0xF130) = 1234"
proof -
  have "IsGuidHaveEnPart (MAKE_NEW_GUID 77 1234 0xF130)"
    by (simp add: IsGuidHaveEnPart_def guid_hipart word_less_nat_alt Let_def)
  with guid_parts_roundtrip [of 77 1234 "0xF130"] show ?thesis by (simp add: word_less_nat_alt)
qed

end
