(* ===== verification/Social.thy ===== *)
theory Social
  imports World_Model
begin

text \<open>
  Friend and ignore lists: \<^verbatim>\<open>game/Entities/Player/SocialMgr.cpp\<close> and the contact opcodes of
  \<^verbatim>\<open>game/Handlers/MiscHandler.cpp\<close>.  The lists are the map \<^verbatim>\<open>m_socialMap\<close> that players point into, so an
  operation on \<^verbatim>\<open>GetSocial()\<close> updates the world's \<open>w_social\<close>.  The table \<^verbatim>\<open>character_social\<close> and the five
  statements on it (\<^verbatim>\<open>shared/Database/Implementation/CharacterDatabase.cpp\<close>) are modelled too: the lists are a
  write-through cache of it.
\<close>

section \<open>PlayerSocial\<close>

abbreviation SOCIALMGR_FRIEND_LIMIT :: nat where "SOCIALMGR_FRIEND_LIMIT \<equiv> 50"
abbreviation SOCIALMGR_IGNORE_LIMIT :: nat where "SOCIALMGR_IGNORE_LIMIT \<equiv> 50"

definition GetNumberOfSocialsWithFlag :: "SocialFlag \<Rightarrow> player_social \<Rightarrow> u32" where
  "GetNumberOfSocialsWithFlag flag ps =
     foldl (\<lambda>counter e. if fi_Flags (snd e) AND flag_code flag \<noteq> 0 then counter + 1 else counter) 0
       (m_playerSocialMap ps)"

definition social_flag :: "bool \<Rightarrow> u32" where
  "social_flag ignore = (if ignore then flag_code SOCIAL_FLAG_IGNORED else flag_code SOCIAL_FLAG_FRIEND)"

definition AddToSocialList :: "u32 \<Rightarrow> bool \<Rightarrow> player_social \<Rightarrow> bool \<times> player_social \<times> effect list" where
  "AddToSocialList friendGuid ignore ps =
     (if ignore \<and> of_nat SOCIALMGR_IGNORE_LIMIT \<le> GetNumberOfSocialsWithFlag SOCIAL_FLAG_IGNORED ps then (False, ps, [])
      else if \<not> ignore \<and> of_nat SOCIALMGR_FRIEND_LIMIT \<le> GetNumberOfSocialsWithFlag SOCIAL_FLAG_FRIEND ps then (False, ps, [])
      else
        let flag = social_flag ignore in
        case omap_find (m_playerSocialMap ps) friendGuid of
          Some fi \<Rightarrow>
            (True,
             ps\<lparr>m_playerSocialMap :=
                  omap_set friendGuid (fi\<lparr>fi_Flags := fi_Flags fi OR flag\<rparr>) (m_playerSocialMap ps)\<rparr>,
             [DbExec ''CHAR_UPD_ADD_CHARACTER_SOCIAL_FLAGS''
                [DbU8 (ucast flag), DbU32 (m_playerGUID ps), DbU32 friendGuid]])
        | None \<Rightarrow>
            (True,
             ps\<lparr>m_playerSocialMap := omap_set friendGuid (FriendInfo flag []) (m_playerSocialMap ps)\<rparr>,
             [DbExec ''CHAR_INS_CHARACTER_SOCIAL''
                [DbU32 (m_playerGUID ps), DbU32 friendGuid, DbU8 (ucast flag)]]))"

definition RemoveFromSocialList :: "u32 \<Rightarrow> bool \<Rightarrow> player_social \<Rightarrow> player_social \<times> effect list" where
  "RemoveFromSocialList friendGuid ignore ps =
     (case omap_find (m_playerSocialMap ps) friendGuid of
        None \<Rightarrow> (ps, [])
      | Some fi \<Rightarrow>
          let flag = social_flag ignore;
              fi' = fi\<lparr>fi_Flags := fi_Flags fi AND NOT flag\<rparr>
          in if fi_Flags fi' = 0
             then (ps\<lparr>m_playerSocialMap := omap_erase friendGuid (m_playerSocialMap ps)\<rparr>,
                   [DbExec ''CHAR_DEL_CHARACTER_SOCIAL'' [DbU32 (m_playerGUID ps), DbU32 friendGuid]])
             else (ps\<lparr>m_playerSocialMap := omap_set friendGuid fi' (m_playerSocialMap ps)\<rparr>,
                   [DbExec ''CHAR_UPD_REM_CHARACTER_SOCIAL_FLAGS''
                      [DbU8 (ucast flag), DbU32 (m_playerGUID ps), DbU32 friendGuid]]))"

text \<open>\<open>utf8truncate\<close> rests on a vendored UTF-8 library and is a parameter.\<close>

definition SetFriendNote ::
  "(string \<Rightarrow> nat \<Rightarrow> string) \<Rightarrow> u32 \<Rightarrow> string \<Rightarrow> player_social \<Rightarrow> player_social \<times> effect list"
where
  "SetFriendNote utf8truncate friendGuid note ps =
     (case omap_find (m_playerSocialMap ps) friendGuid of
        None \<Rightarrow> (ps, [])
      | Some fi \<Rightarrow>
          let note' = utf8truncate note 48
          in (ps\<lparr>m_playerSocialMap := omap_set friendGuid (fi\<lparr>fi_Note := note'\<rparr>) (m_playerSocialMap ps)\<rparr>,
              [DbExec ''CHAR_UPD_CHARACTER_SOCIAL_NOTE''
                 [DbString note', DbU32 (m_playerGUID ps), DbU32 friendGuid]]))"

definition HasFriend :: "u32 \<Rightarrow> player_social \<Rightarrow> bool" where
  "HasFriend friend_guid ps =
     (case omap_find (m_playerSocialMap ps) friend_guid of
        Some fi \<Rightarrow> fi_Flags fi AND flag_code SOCIAL_FLAG_FRIEND \<noteq> 0 | None \<Rightarrow> False)"

definition HasIgnore :: "u32 \<Rightarrow> player_social \<Rightarrow> bool" where
  "HasIgnore ignore_guid ps =
     (case omap_find (m_playerSocialMap ps) ignore_guid of
        Some fi \<Rightarrow> fi_Flags fi AND flag_code SOCIAL_FLAG_IGNORED \<noteq> 0 | None \<Rightarrow> False)"

section \<open>SocialMgr\<close>

text \<open>Whether \<open>player\<close> sees that \<open>target\<close> is online: the condition \<^verbatim>\<open>GetFriendInfo\<close> and \<^verbatim>\<open>BroadcastToFriendListers\<close> share.\<close>

definition sees_online :: "world \<Rightarrow> player \<Rightarrow> player \<Rightarrow> bool" where
  "sees_online w player target =
     ((\<not> IsPlayerAccount (pl_security player) \<or>
       (pl_team target = pl_team player \<or> cfg_two_side_who w) \<and> pl_security target \<le> cfg_gm_in_who w) \<and>
      IsVisibleGloballyFor target player)"

definition GetFriendInfo :: "world \<Rightarrow> player option \<Rightarrow> u32 \<Rightarrow> friend_info \<Rightarrow> friend_info" where
  "GetFriendInfo w player friendGUID fi =
     (case player of
        None \<Rightarrow> fi
      | Some p \<Rightarrow>
          let fi1 = fi\<lparr>fi_Status := FRIEND_STATUS_OFFLINE, fi_Area := 0, fi_Level := 0, fi_Class := 0\<rparr>
          in case FindPlayer w (ucast friendGUID) of
               None \<Rightarrow> fi1
             | Some pFriend \<Rightarrow>
                 let fi2 = (case omap_find (m_playerSocialMap (GetSocial w p)) friendGUID of
                              Some e \<Rightarrow> fi1\<lparr>fi_Note := fi_Note e\<rparr> | None \<Rightarrow> fi1)
                 in if sees_online w p pFriend
                    then let st = FRIEND_STATUS_ONLINE;
                             st = (if pl_afk pFriend then FRIEND_STATUS_AFK else st);
                             st = (if pl_dnd pFriend then FRIEND_STATUS_DND else st)
                         in fi2\<lparr>fi_Status := st, fi_Area := pl_zone pFriend, fi_Level := pl_level pFriend,
                                fi_Class := pl_class pFriend\<rparr>
                    else fi2)"

definition contact_ops :: "u32 \<Rightarrow> friend_info \<Rightarrow> pkt_op list" where
  "contact_ops guid fi =
     [Out64 (ucast guid), Out32 (fi_Flags fi), OutStr (fi_Note fi)] @
     (if fi_Flags fi AND flag_code SOCIAL_FLAG_FRIEND \<noteq> 0
      then Out8 (status_code (fi_Status fi)) #
           (if status_code (fi_Status fi) \<noteq> 0
            then [Out32 (fi_Area fi), Out32 (ucast (fi_Level fi)), Out32 (ucast (fi_Class fi))] else [])
      else [])"

abbreviation SMSG_CONTACT_LIST :: u16 where "SMSG_CONTACT_LIST \<equiv> 0x067"
abbreviation SMSG_FRIEND_STATUS :: u16 where "SMSG_FRIEND_STATUS \<equiv> 0x068"

definition SendSocialList :: "world \<Rightarrow> player option \<Rightarrow> player_social \<Rightarrow> player_social \<times> effect list" where
  "SendSocialList w player ps =
     (case player of
        None \<Rightarrow> (ps, [])
      | Some p \<Rightarrow>
          let m' = map (\<lambda>(g, fi). (g, GetFriendInfo w (Some p) g fi)) (m_playerSocialMap ps);
              data = wp_add ([Out32 7, Out32 (of_nat (length (m_playerSocialMap ps)))] @
                             concat (map (\<lambda>(g, fi). contact_ops g fi) m')) (new_WorldPacket SMSG_CONTACT_LIST)
          in (ps\<lparr>m_playerSocialMap := m'\<rparr>, [Send (pl_guid p) data]))"

datatype FriendsResult =
    FRIEND_DB_ERROR | FRIEND_LIST_FULL | FRIEND_ONLINE | FRIEND_OFFLINE | FRIEND_NOT_FOUND | FRIEND_REMOVED
  | FRIEND_ADDED_ONLINE | FRIEND_ADDED_OFFLINE | FRIEND_ALREADY | FRIEND_SELF | FRIEND_ENEMY
  | FRIEND_IGNORE_FULL | FRIEND_IGNORE_SELF | FRIEND_IGNORE_NOT_FOUND | FRIEND_IGNORE_ALREADY
  | FRIEND_IGNORE_ADDED | FRIEND_IGNORE_REMOVED | FRIEND_IGNORE_AMBIGUOUS | FRIEND_MUTE_FULL
  | FRIEND_MUTE_SELF | FRIEND_MUTE_NOT_FOUND | FRIEND_MUTE_ALREADY | FRIEND_MUTE_ADDED | FRIEND_MUTE_REMOVED
  | FRIEND_MUTE_AMBIGUOUS | FRIEND_UNK7 | FRIEND_UNKNOWN

fun friends_result_code :: "FriendsResult \<Rightarrow> u8" where
  "friends_result_code FRIEND_DB_ERROR = 0x00"
| "friends_result_code FRIEND_LIST_FULL = 0x01"
| "friends_result_code FRIEND_ONLINE = 0x02"
| "friends_result_code FRIEND_OFFLINE = 0x03"
| "friends_result_code FRIEND_NOT_FOUND = 0x04"
| "friends_result_code FRIEND_REMOVED = 0x05"
| "friends_result_code FRIEND_ADDED_ONLINE = 0x06"
| "friends_result_code FRIEND_ADDED_OFFLINE = 0x07"
| "friends_result_code FRIEND_ALREADY = 0x08"
| "friends_result_code FRIEND_SELF = 0x09"
| "friends_result_code FRIEND_ENEMY = 0x0A"
| "friends_result_code FRIEND_IGNORE_FULL = 0x0B"
| "friends_result_code FRIEND_IGNORE_SELF = 0x0C"
| "friends_result_code FRIEND_IGNORE_NOT_FOUND = 0x0D"
| "friends_result_code FRIEND_IGNORE_ALREADY = 0x0E"
| "friends_result_code FRIEND_IGNORE_ADDED = 0x0F"
| "friends_result_code FRIEND_IGNORE_REMOVED = 0x10"
| "friends_result_code FRIEND_IGNORE_AMBIGUOUS = 0x11"
| "friends_result_code FRIEND_MUTE_FULL = 0x12"
| "friends_result_code FRIEND_MUTE_SELF = 0x13"
| "friends_result_code FRIEND_MUTE_NOT_FOUND = 0x14"
| "friends_result_code FRIEND_MUTE_ALREADY = 0x15"
| "friends_result_code FRIEND_MUTE_ADDED = 0x16"
| "friends_result_code FRIEND_MUTE_REMOVED = 0x17"
| "friends_result_code FRIEND_MUTE_AMBIGUOUS = 0x18"
| "friends_result_code FRIEND_UNK7 = 0x19"
| "friends_result_code FRIEND_UNKNOWN = 0x1A"

definition MakeFriendStatusPacket :: "FriendsResult \<Rightarrow> u32 \<Rightarrow> world_packet" where
  "MakeFriendStatusPacket result guid =
     wp_add [Out8 (friends_result_code result), Out64 (ucast guid)]
       (WorldPacket_Initialize SMSG_FRIEND_STATUS (new_WorldPacket 0))"

definition BroadcastToFriendListers :: "world \<Rightarrow> player option \<Rightarrow> world_packet \<Rightarrow> effect list" where
  "BroadcastToFriendListers w player packet =
     (case player of
        None \<Rightarrow> []
      | Some p \<Rightarrow>
          concat (map (\<lambda>(owner, soc).
            case omap_find (m_playerSocialMap soc) (GetGUIDLow p) of
              None \<Rightarrow> []
            | Some fi \<Rightarrow>
                if fi_Flags fi AND flag_code SOCIAL_FLAG_FRIEND \<noteq> 0
                then case FindPlayer w (MAKE_NEW_GUID owner 0 (high_code HIGHGUID_PLAYER)) of
                       None \<Rightarrow> []
                     | Some pFriend \<Rightarrow>
                         if sees_online w pFriend p then [Send (pl_guid pFriend) packet] else []
                else []) (w_social w)))"

definition SendFriendStatus :: "world \<Rightarrow> player \<Rightarrow> FriendsResult \<Rightarrow> u32 \<Rightarrow> bool \<Rightarrow> effect list" where
  "SendFriendStatus w player result friend_guid broadcast =
     (let data = MakeFriendStatusPacket result friend_guid;
          fi = GetFriendInfo w (Some player) friend_guid (FriendInfo 0 []);
          data = (if result \<in> {FRIEND_ADDED_OFFLINE, FRIEND_ADDED_ONLINE}
                  then wp_add [OutStr (fi_Note fi)] data else data);
          data = (if result \<in> {FRIEND_ADDED_ONLINE, FRIEND_ONLINE}
                  then wp_add [Out8 (status_code (fi_Status fi)), Out32 (fi_Area fi),
                               Out32 (ucast (fi_Level fi)), Out32 (ucast (fi_Class fi))] data
                  else data)
      in if broadcast then BroadcastToFriendListers w (Some player) data
         else [Send (pl_guid player) data])"

text \<open>The rows of the query result in order; the loop stops once the list holds 100 entries.\<close>

fun LoadFromDB_loop :: "(u32 \<times> u32 \<times> string) list \<Rightarrow> player_social \<Rightarrow> player_social" where
  "LoadFromDB_loop [] ps = ps"
| "LoadFromDB_loop ((friend_guid, flags, note) # rows) ps =
     (let ps' = ps\<lparr>m_playerSocialMap := omap_set friend_guid (FriendInfo flags note) (m_playerSocialMap ps)\<rparr>
      in if SOCIALMGR_FRIEND_LIMIT + SOCIALMGR_IGNORE_LIMIT \<le> length (m_playerSocialMap ps')
         then ps' else LoadFromDB_loop rows ps')"

definition LoadFromDB ::
  "(u32 \<times> u32 \<times> string) list \<Rightarrow> u32 \<Rightarrow> (u32, player_social) omap \<Rightarrow> (u32, player_social) omap"
where
  "LoadFromDB rows guid sm =
     omap_upd new_PlayerSocial (\<lambda>ps. LoadFromDB_loop rows (ps\<lparr>m_playerGUID := guid\<rparr>)) guid sm"

definition RemovePlayerSocial :: "u32 \<Rightarrow> (u32, player_social) omap \<Rightarrow> (u32, player_social) omap" where
  "RemovePlayerSocial guid sm = omap_erase guid sm"

section \<open>Contact opcodes\<close>

text \<open>The world after the contact list of \<open>p\<close> has become \<open>ps\<close>.\<close>

definition set_social :: "player \<Rightarrow> player_social \<Rightarrow> world \<Rightarrow> world" where
  "set_social p ps w = w\<lparr>w_social := omap_set (GetGUIDLow p) ps (w_social w)\<rparr>"

definition HandleContactListOpcode ::
  "world \<Rightarrow> player \<Rightarrow> byte_buffer \<Rightarrow> bb_error + effect list \<times> world"
where
  "HandleContactListOpcode w p recv =
     res_bind (bb_in recv :: bb_error + (u32 \<times> byte_buffer)) (\<lambda>(unk, recv).
       let (ps, es) = SendSocialList w (Some p) (GetSocial w p) in Inr (es, set_social p ps w))"

text \<open>
  The two opcodes that look a character up only start an asynchronous query: the result is its
  parameters (the normalised name and, for friends, the note kept for the callback), or \<open>None\<close>.
\<close>

definition HandleAddFriendOpcode ::
  "(string \<Rightarrow> string option) \<Rightarrow> byte_buffer \<Rightarrow> bb_error + (string \<times> string) option"
where
  "HandleAddFriendOpcode normalizePlayerName recv =
     res_bind (bb_in_string recv) (\<lambda>(friendName, recv).
     res_bind (bb_in_string recv) (\<lambda>(friendNote, recv).
       Inr (case normalizePlayerName friendName of None \<Rightarrow> None | Some name \<Rightarrow> Some (name, friendNote))))"

text \<open>
  The callback of the friend query, with the row (guid, race, account) if there is one.
  \<open>TeamForRace\<close> reads client data and \<open>GetSecurity\<close> the account database; both are parameters.
\<close>

definition HandleAddFriendOpcodeCallBack ::
  "(u8 \<Rightarrow> u32) \<Rightarrow> (u32 \<Rightarrow> u32) \<Rightarrow> (string \<Rightarrow> nat \<Rightarrow> string) \<Rightarrow> world \<Rightarrow> player option
     \<Rightarrow> (u32 \<times> u8 \<times> u32) option \<Rightarrow> string \<Rightarrow> effect list \<times> world"
where
  "HandleAddFriendOpcodeCallBack TeamForRace GetSecurity utf8truncate w player result friendNote =
     (case player of
        None \<Rightarrow> ([], w)
      | Some p \<Rightarrow>
          let friendGuid = (case result of None \<Rightarrow> 0
                | Some (low, race, acc) \<Rightarrow> MAKE_NEW_GUID low 0 (high_code HIGHGUID_PLAYER));
              allowed = (case result of None \<Rightarrow> False
                | Some (low, race, acc) \<Rightarrow> \<not> IsPlayerAccount (pl_security p) \<or> cfg_gm_friend w \<or>
                    IsPlayerAccount (GetSecurity acc));
              team = (case result of None \<Rightarrow> 0 | Some (low, race, acc) \<Rightarrow> TeamForRace race);
              soc = GetSocial w p;
              (friendResult, soc1, es1) =
                (if \<not> allowed \<or> friendGuid = 0 then (FRIEND_NOT_FOUND, soc, [])
                 else if friendGuid = pl_guid p then (FRIEND_SELF, soc, [])
                 else if pl_team p \<noteq> team \<and> \<not> cfg_two_side_friend w \<and> IsPlayerAccount (pl_security p)
                   then (FRIEND_ENEMY, soc, [])
                 else if HasFriend (GUID_LOPART friendGuid) soc then (FRIEND_ALREADY, soc, [])
                 else let r = (case FindPlayer w friendGuid of
                                 Some pFriend \<Rightarrow> if IsVisibleGloballyFor pFriend p then FRIEND_ADDED_ONLINE
                                                  else FRIEND_ADDED_OFFLINE
                               | None \<Rightarrow> FRIEND_ADDED_OFFLINE);
                          (ok, soc', es) = AddToSocialList (GUID_LOPART friendGuid) False soc
                      in (if ok then r else FRIEND_LIST_FULL, soc', es));
              (soc2, es2) = (if allowed \<and> friendGuid \<noteq> 0
                             then SetFriendNote utf8truncate (GUID_LOPART friendGuid) friendNote soc1
                             else (soc1, []));
              w' = set_social p soc2 w
          in (es1 @ es2 @ SendFriendStatus w' p friendResult (GUID_LOPART friendGuid) False, w'))"

definition HandleDelFriendOpcode ::
  "world \<Rightarrow> player \<Rightarrow> byte_buffer \<Rightarrow> bb_error + effect list \<times> world"
where
  "HandleDelFriendOpcode w p recv =
     res_bind (bb_in recv :: bb_error + (u64 \<times> byte_buffer)) (\<lambda>(FriendGUID, recv).
       let (ps, es) = RemoveFromSocialList (GUID_LOPART FriendGUID) False (GetSocial w p);
           w' = set_social p ps w
       in Inr (es @ SendFriendStatus w' p FRIEND_REMOVED (GUID_LOPART FriendGUID) False, w'))"

definition HandleAddIgnoreOpcode ::
  "(string \<Rightarrow> string option) \<Rightarrow> byte_buffer \<Rightarrow> bb_error + string option"
where
  "HandleAddIgnoreOpcode normalizePlayerName recv =
     res_bind (bb_in_string recv) (\<lambda>(ignoreName, recv). Inr (normalizePlayerName ignoreName))"

definition HandleAddIgnoreOpcodeCallBack ::
  "world \<Rightarrow> player option \<Rightarrow> u32 option \<Rightarrow> effect list \<times> world"
where
  "HandleAddIgnoreOpcodeCallBack w player result =
     (case player of
        None \<Rightarrow> ([], w)
      | Some p \<Rightarrow>
          let IgnoreGuid = (case result of None \<Rightarrow> 0
                | Some low \<Rightarrow> MAKE_NEW_GUID low 0 (high_code HIGHGUID_PLAYER));
              soc = GetSocial w p;
              (ignoreResult, soc1, es) =
                (if IgnoreGuid = 0 then (FRIEND_IGNORE_NOT_FOUND, soc, [])
                 else if IgnoreGuid = pl_guid p then (FRIEND_IGNORE_SELF, soc, [])
                 else if HasIgnore (GUID_LOPART IgnoreGuid) soc then (FRIEND_IGNORE_ALREADY, soc, [])
                 else let (ok, soc', es) = AddToSocialList (GUID_LOPART IgnoreGuid) True soc
                      in (if ok then FRIEND_IGNORE_ADDED else FRIEND_IGNORE_FULL, soc', es));
              w' = set_social p soc1 w
          in (es @ SendFriendStatus w' p ignoreResult (GUID_LOPART IgnoreGuid) False, w'))"

definition HandleDelIgnoreOpcode ::
  "world \<Rightarrow> player \<Rightarrow> byte_buffer \<Rightarrow> bb_error + effect list \<times> world"
where
  "HandleDelIgnoreOpcode w p recv =
     res_bind (bb_in recv :: bb_error + (u64 \<times> byte_buffer)) (\<lambda>(IgnoreGUID, recv).
       let (ps, es) = RemoveFromSocialList (GUID_LOPART IgnoreGUID) True (GetSocial w p);
           w' = set_social p ps w
       in Inr (es @ SendFriendStatus w' p FRIEND_IGNORE_REMOVED (GUID_LOPART IgnoreGUID) False, w'))"

definition HandleSetContactNotesOpcode ::
  "(string \<Rightarrow> nat \<Rightarrow> string) \<Rightarrow> world \<Rightarrow> player \<Rightarrow> byte_buffer \<Rightarrow> bb_error + effect list \<times> world"
where
  "HandleSetContactNotesOpcode utf8truncate w p recv =
     res_bind (bb_in recv :: bb_error + (u64 \<times> byte_buffer)) (\<lambda>(guid, recv).
     res_bind (bb_in_string recv) (\<lambda>(note, recv).
       let (ps, es) = SetFriendNote utf8truncate (GUID_LOPART guid) note (GetSocial w p)
       in Inr (es, set_social p ps w)))"

section \<open>The table\<close>

text \<open>
  The rows of \<^verbatim>\<open>character_social\<close> by owner and friend, and the effect of the statements.  \<^verbatim>\<open>INSERT\<close> leaves the
  note at its default, the empty string.
\<close>

type_synonym social_table = "u32 \<times> u32 \<Rightarrow> (u8 \<times> string) option"

fun social_sql :: "effect \<Rightarrow> social_table \<Rightarrow> social_table" where
  "social_sql (DbExec stmt args) db =
     (case args of
        [DbU8 fl, DbU32 guid, DbU32 fr] \<Rightarrow>
          if stmt = ''CHAR_UPD_ADD_CHARACTER_SOCIAL_FLAGS''
          then db((guid, fr) := map_option (\<lambda>(f, n). (f OR fl, n)) (db (guid, fr)))
          else if stmt = ''CHAR_UPD_REM_CHARACTER_SOCIAL_FLAGS''
          then db((guid, fr) := map_option (\<lambda>(f, n). (f AND NOT fl, n)) (db (guid, fr)))
          else db
      | [DbU32 guid, DbU32 fr, DbU8 fl] \<Rightarrow>
          if stmt = ''CHAR_INS_CHARACTER_SOCIAL'' then db((guid, fr) := Some (fl, [])) else db
      | [DbU32 guid, DbU32 fr] \<Rightarrow>
          if stmt = ''CHAR_DEL_CHARACTER_SOCIAL'' then db((guid, fr) := None) else db
      | [DbString n, DbU32 guid, DbU32 fr] \<Rightarrow>
          if stmt = ''CHAR_UPD_CHARACTER_SOCIAL_NOTE''
          then db((guid, fr) := map_option (\<lambda>(f, _). (f, n)) (db (guid, fr))) else db
      | _ \<Rightarrow> db)"
| "social_sql _ db = db"

definition social_sql_all :: "effect list \<Rightarrow> social_table \<Rightarrow> social_table" where
  "social_sql_all es db = fold social_sql es db"

text \<open>The table holds exactly the list of \<open>ps\<close> for its owner.\<close>

definition synced :: "social_table \<Rightarrow> player_social \<Rightarrow> bool" where
  "synced db ps =
     (\<forall>f. db (m_playerGUID ps, f) =
        map_option (\<lambda>fi. (ucast (fi_Flags fi), fi_Note fi)) (omap_find (m_playerSocialMap ps) f))"

text \<open>The lists respect the client's limits.\<close>

definition with_flag :: "u32 \<Rightarrow> player_social \<Rightarrow> nat" where
  "with_flag fl ps = length (filter (\<lambda>e. fi_Flags (snd e) AND fl \<noteq> 0) (m_playerSocialMap ps))"

definition social_ok :: "player_social \<Rightarrow> bool" where
  "social_ok ps =
     (omap_ok (m_playerSocialMap ps) \<and> with_flag 1 ps \<le> SOCIALMGR_FRIEND_LIMIT \<and>
      with_flag 2 ps \<le> SOCIALMGR_IGNORE_LIMIT)"

text \<open>The changes of one contact list, as the opcodes make them.\<close>

datatype social_op = AddContact u32 bool | RemoveContact u32 bool | SetNote u32 string

fun social_step :: "(string \<Rightarrow> nat \<Rightarrow> string) \<Rightarrow> social_op \<Rightarrow> player_social \<Rightarrow> player_social \<times> effect list" where
  "social_step tr (AddContact g ignore) ps = snd (AddToSocialList g ignore ps)"
| "social_step tr (RemoveContact g ignore) ps = RemoveFromSocialList g ignore ps"
| "social_step tr (SetNote g note) ps = SetFriendNote tr g note ps"

fun social_run :: "(string \<Rightarrow> nat \<Rightarrow> string) \<Rightarrow> social_op list \<Rightarrow> player_social \<Rightarrow> player_social \<times> effect list" where
  "social_run tr [] ps = (ps, [])"
| "social_run tr (op # ops) ps =
     (let (ps1, es1) = social_step tr op ps; (ps2, es2) = social_run tr ops ps1 in (ps2, es1 @ es2))"

section \<open>Lemmas\<close>

lemma count_fold:
  "foldl (\<lambda>c e. if P e then c + 1 else c) (n :: u32) m = n + of_nat (length (filter P m))"
  by (induction m arbitrary: n) (auto simp: algebra_simps)

lemma GetNumberOfSocialsWithFlag_eq:
  "GetNumberOfSocialsWithFlag flag ps = of_nat (with_flag (flag_code flag) ps)"
  by (simp add: GetNumberOfSocialsWithFlag_def with_flag_def count_fold)

lemma limit_check:
  "with_flag fl ps \<le> 50 \<Longrightarrow> (50 :: u32) \<le> of_nat (with_flag fl ps) \<longleftrightarrow> with_flag fl ps = 50"
  by (auto simp: word_le_nat_alt unat_of_nat)

lemma social_flag_bits [flag_simps]:
  "(x OR social_flag ig) AND 1 \<noteq> 0 \<longleftrightarrow> \<not> ig \<or> x AND 1 \<noteq> 0"
  "(x OR social_flag ig) AND 2 \<noteq> 0 \<longleftrightarrow> ig \<or> x AND 2 \<noteq> 0"
  "(x AND NOT (social_flag ig)) AND 1 \<noteq> 0 \<longleftrightarrow> ig \<and> x AND 1 \<noteq> 0"
  "(x AND NOT (social_flag ig)) AND 2 \<noteq> 0 \<longleftrightarrow> \<not> ig \<and> x AND 2 \<noteq> 0"
  "social_flag ig AND 1 \<noteq> 0 \<longleftrightarrow> \<not> ig" "social_flag ig AND 2 \<noteq> 0 \<longleftrightarrow> ig"
  by (auto simp: social_flag_def flag_bits bit_simps)

text \<open>What the three changes do to the limits and to the table.\<close>

lemma with_flag_set_le:
  assumes "omap_ok (m_playerSocialMap ps)" and "with_flag fl ps \<le> 50"
    and new: "fi_Flags fi AND fl \<noteq> 0 \<Longrightarrow> with_flag fl ps < 50 \<or>
      (\<exists>fi0. omap_find (m_playerSocialMap ps) g = Some fi0 \<and> fi_Flags fi0 AND fl \<noteq> 0)"
  shows "with_flag fl (ps\<lparr>m_playerSocialMap := omap_set g fi (m_playerSocialMap ps)\<rparr>) \<le> 50"
proof -
  let ?P = "\<lambda>e. fi_Flags (snd e) AND fl \<noteq> 0"
  note count = filter_set_count [OF assms(1), of ?P g fi] filter_erase_le [of ?P g "m_playerSocialMap ps"]
  show ?thesis
  proof (cases "fi_Flags fi AND fl \<noteq> 0")
    case True
    from new [OF True] show ?thesis
    proof
      assume "with_flag fl ps < 50"
      with count True show ?thesis by (simp add: with_flag_def)
    next
      assume "\<exists>fi0. omap_find (m_playerSocialMap ps) g = Some fi0 \<and> fi_Flags fi0 AND fl \<noteq> 0"
      then obtain fi0 where "omap_find (m_playerSocialMap ps) g = Some fi0" and "?P (g, fi0)" by auto
      from filter_erase_hit [where P = ?P, OF assms(1) this] count True assms(2)
      show ?thesis by (simp add: with_flag_def)
    qed
  next
    case False
    with count assms(2) show ?thesis by (simp add: with_flag_def)
  qed
qed

lemma social_ok_set:
  assumes "social_ok ps"
    and "\<And>fl. fl \<in> {1, 2} \<Longrightarrow> fi_Flags fi AND fl \<noteq> 0 \<Longrightarrow> with_flag fl ps < 50 \<or>
      (\<exists>fi0. omap_find (m_playerSocialMap ps) g = Some fi0 \<and> fi_Flags fi0 AND fl \<noteq> 0)"
  shows "social_ok (ps\<lparr>m_playerSocialMap := omap_set g fi (m_playerSocialMap ps)\<rparr>)"
proof -
  have "omap_ok (m_playerSocialMap ps)" and "with_flag 1 ps \<le> 50" and "with_flag 2 ps \<le> 50"
    using assms(1) by (simp_all add: social_ok_def)
  then show ?thesis
    using assms(2) with_flag_set_le [of ps 1 fi g] with_flag_set_le [of ps 2 fi g]
    by (simp add: social_ok_def omap_ok_set)
qed

lemma AddToSocialList_ok:
  assumes ok: "social_ok ps"
  shows "social_ok (fst (snd (AddToSocialList g ig ps)))"
proof (cases "fst (AddToSocialList g ig ps)")
  case False
  then have "fst (snd (AddToSocialList g ig ps)) = ps"
    by (auto simp: AddToSocialList_def Let_def split: if_splits option.splits)
  with ok show ?thesis by simp
next
  case True
  then have room: "if ig then with_flag 2 ps < 50 else with_flag 1 ps < 50"
    using ok limit_check [of 1 ps] limit_check [of 2 ps]
    by (auto simp: AddToSocialList_def GetNumberOfSocialsWithFlag_eq social_ok_def split: if_splits)
  obtain fi where fi: "fst (snd (AddToSocialList g ig ps)) =
      ps\<lparr>m_playerSocialMap := omap_set g fi (m_playerSocialMap ps)\<rparr>"
    and flags: "fi_Flags fi = social_flag ig \<or>
      (\<exists>fi0. omap_find (m_playerSocialMap ps) g = Some fi0 \<and> fi_Flags fi = fi_Flags fi0 OR social_flag ig)"
    using True by (auto simp: AddToSocialList_def Let_def FriendInfo_def split: if_splits option.splits)
  show ?thesis unfolding fi
  proof (rule social_ok_set [OF ok])
    fix fl :: u32
    assume fl: "fl \<in> {1, 2}" and set: "fi_Flags fi AND fl \<noteq> 0"
    from flags show "with_flag fl ps < 50 \<or>
        (\<exists>fi0. omap_find (m_playerSocialMap ps) g = Some fi0 \<and> fi_Flags fi0 AND fl \<noteq> 0)"
      using fl set room by (auto simp: social_flag_bits split: if_splits)
  qed
qed

lemma RemoveFromSocialList_ok:
  assumes ok: "social_ok ps"
  shows "social_ok (fst (RemoveFromSocialList g ig ps))"
proof (cases "omap_find (m_playerSocialMap ps) g")
  case None
  with ok show ?thesis by (simp add: RemoveFromSocialList_def)
next
  case (Some fi)
  let ?fi = "fi\<lparr>fi_Flags := fi_Flags fi AND NOT (social_flag ig)\<rparr>"
  have "with_flag fl (ps\<lparr>m_playerSocialMap := omap_erase g (m_playerSocialMap ps)\<rparr>) \<le> with_flag fl ps" for fl
    by (simp add: with_flag_def filter_erase_le)
  from this [of 1] this [of 2]
  have "social_ok (ps\<lparr>m_playerSocialMap := omap_erase g (m_playerSocialMap ps)\<rparr>)"
    using ok by (auto simp: social_ok_def omap_ok_erase)
  moreover have "social_ok (ps\<lparr>m_playerSocialMap := omap_set g ?fi (m_playerSocialMap ps)\<rparr>)"
  proof (rule social_ok_set [OF ok])
    fix fl :: u32
    assume "fl \<in> {1, 2}" and "fi_Flags ?fi AND fl \<noteq> 0"
    then have "fi_Flags fi AND fl \<noteq> 0" by (auto simp: social_flag_bits)
    with Some show "with_flag fl ps < 50 \<or>
        (\<exists>fi0. omap_find (m_playerSocialMap ps) g = Some fi0 \<and> fi_Flags fi0 AND fl \<noteq> 0)" by simp
  qed
  ultimately show ?thesis using Some by (simp add: RemoveFromSocialList_def Let_def)
qed

lemma SetFriendNote_ok: "social_ok ps \<Longrightarrow> social_ok (fst (SetFriendNote tr g note ps))"
  by (auto simp: SetFriendNote_def Let_def intro!: social_ok_set split: option.splits)

lemma social_step_ok: "social_ok ps \<Longrightarrow> social_ok (fst (social_step tr op ps))"
  by (cases op) (simp_all add: AddToSocialList_ok RemoveFromSocialList_ok SetFriendNote_ok)

lemma social_step_owner: "m_playerGUID (fst (social_step tr op ps)) = m_playerGUID ps"
  by (cases op)
    (auto simp: AddToSocialList_def RemoveFromSocialList_def SetFriendNote_def Let_def split: option.splits)

lemma ucast_u8_bits:
  "(ucast (x OR y) :: u8) = ucast x OR ucast y" "(ucast (x AND NOT y) :: u8) = ucast x AND NOT (ucast y)"
  for x y :: u32
  by (rule bit_word_eqI; auto simp: bit_simps)+

lemma social_step_synced:
  assumes "synced db ps"
  shows "synced (social_sql_all (snd (social_step tr op ps)) db) (fst (social_step tr op ps))"
proof -
  have row: "db (m_playerGUID ps, f) =
      map_option (\<lambda>fi. (ucast (fi_Flags fi), fi_Note fi)) (omap_find (m_playerSocialMap ps) f)" for f
    using assms by (simp add: synced_def)
  show ?thesis
    by (cases op)
      (auto simp: AddToSocialList_def RemoveFromSocialList_def SetFriendNote_def Let_def social_sql_all_def
         synced_def row omap_laws ucast_u8_bits FriendInfo_def split: option.splits)
qed

lemma social_step_frame:
  "o' \<noteq> m_playerGUID ps \<Longrightarrow> social_sql_all (snd (social_step tr op ps)) db (o', f) = db (o', f)"
  by (cases op)
    (auto simp: AddToSocialList_def RemoveFromSocialList_def SetFriendNote_def Let_def social_sql_all_def
       split: option.splits)

lemma social_sql_all_Nil: "social_sql_all [] db = db"
  by (simp add: social_sql_all_def)

lemma social_sql_all_append: "social_sql_all (es @ es') db = social_sql_all es' (social_sql_all es db)"
  by (simp add: social_sql_all_def)

text \<open>
  A list in memory whose changes are written through to a table: each change keeps the owner, the
  invariant and the agreement with the table, and touches no other owner's rows.  Then so does every
  sequence of changes.
\<close>

locale write_through =
  fixes step :: "'op \<Rightarrow> 'm \<Rightarrow> 'm \<times> 'e list"
    and apply_all :: "'e list \<Rightarrow> 'db \<Rightarrow> 'db"
    and row :: "'db \<Rightarrow> 'k \<times> 'f \<Rightarrow> 'r option"
    and agrees :: "'db \<Rightarrow> 'm \<Rightarrow> bool"
    and ok :: "'m \<Rightarrow> bool"
    and owner :: "'m \<Rightarrow> 'k"
    and run :: "'op list \<Rightarrow> 'm \<Rightarrow> 'm \<times> 'e list"
  assumes step_ok: "ok m \<Longrightarrow> ok (fst (step op m))"
    and step_owner: "owner (fst (step op m)) = owner m"
    and step_agrees: "agrees db m \<Longrightarrow> agrees (apply_all (snd (step op m)) db) (fst (step op m))"
    and step_frame: "k \<noteq> owner m \<Longrightarrow> row (apply_all (snd (step op m)) db) (k, f) = row db (k, f)"
    and apply_append: "apply_all (es @ es') db = apply_all es' (apply_all es db)"
    and apply_Nil: "apply_all [] db = db"
    and run_Nil: "run [] m = (m, [])"
    and run_Cons: "run (op # ops) m =
      (fst (run ops (fst (step op m))), snd (step op m) @ snd (run ops (fst (step op m))))"
begin

lemma run_keeps:
  "ok m \<Longrightarrow> agrees db m \<Longrightarrow>
   ok (fst (run ops m)) \<and> owner (fst (run ops m)) = owner m \<and>
   agrees (apply_all (snd (run ops m)) db) (fst (run ops m)) \<and>
   (\<forall>k f. k \<noteq> owner m \<longrightarrow> row (apply_all (snd (run ops m)) db) (k, f) = row db (k, f))"
proof (induction ops arbitrary: m db)
  case (Cons op ops)
  from Cons.IH [of "fst (step op m)" "apply_all (snd (step op m)) db"] Cons.prems
  show ?case by (auto simp: step_ok step_agrees run_Cons apply_append step_owner step_frame)
qed (simp add: run_Nil apply_Nil)

end

interpretation sw: write_through "social_step tr" social_sql_all "\<lambda>db. db" synced social_ok m_playerGUID "social_run tr"
  for tr
  by unfold_locales
    (simp_all add: social_step_ok social_step_owner social_step_synced social_step_frame
       social_sql_all_Nil social_sql_all_append case_prod_unfold Let_def)

lemma GetSocial_set_social [simp]: "GetSocial (set_social p ps w) p = ps"
  by (simp add: GetSocial_def set_social_def omap_at_def omap_find_set)

lemma SetFriendNote_HasFriend [simp]: "HasFriend h (fst (SetFriendNote tr g n ps)) = HasFriend h ps"
  by (simp add: SetFriendNote_def HasFriend_def Let_def omap_find_set split: option.splits)

lemma AddToSocialList_HasFriend:
  "h \<noteq> g \<Longrightarrow> HasFriend h (fst (snd (AddToSocialList g ig ps))) = HasFriend h ps"
  by (simp add: AddToSocialList_def HasFriend_def Let_def omap_find_set split: option.splits)

lemma guarded_send_mem:
  "x \<in> set (case om of None \<Rightarrow> [] | Some y \<Rightarrow>
      if B y then case fo of None \<Rightarrow> [] | Some q \<Rightarrow> if P q then [F q] else [] else []) \<longleftrightarrow>
   (\<exists>q. (case om of Some y \<Rightarrow> B y | None \<Rightarrow> False) \<and> fo = Some q \<and> P q \<and> x = F q)"
  by (cases om; cases fo; simp only: option.case option.distinct option.inject list.set split: if_split) blast+

lemma broadcast_mem:
  "x \<in> set (BroadcastToFriendListers w (Some p) data) \<longleftrightarrow>
     (\<exists>e \<in> set (w_social w). \<exists>q. HasFriend (GetGUIDLow p) (snd e) \<and>
        FindPlayer w (MAKE_NEW_GUID (fst e) 0 (high_code HIGHGUID_PLAYER)) = Some q \<and>
        sees_online w q p \<and> x = Send (pl_guid q) data)"
  unfolding BroadcastToFriendListers_def option.case set_concat set_map case_prod_unfold HasFriend_def
  by (simp only: guarded_send_mem UN_iff image_image)

section \<open>Properties\<close>

text \<open>
  C27. Friend and ignore lists are a write-through cache of the table \<^verbatim>\<open>character_social\<close>: whatever sequence
  of additions, removals and notes is applied to a list that agrees with the table, executing the
  statements it issued leaves a table that agrees with the new list, no other player's rows are
  touched, and the list never exceeds 50 friends and 50 ignored players.
\<close>

theorem social_list_write_through:
  assumes "social_ok ps" and "synced db ps" and "social_run tr ops ps = (ps', es)"
  shows "synced (social_sql_all es db) ps' \<and> social_ok ps' \<and> m_playerGUID ps' = m_playerGUID ps \<and>
    (\<forall>o' f. o' \<noteq> m_playerGUID ps \<longrightarrow> social_sql_all es db (o', f) = db (o', f))"
  using sw.run_keeps [OF assms(1,2), of tr ops] assms(3) by simp

theorem social_list_write_through_witness:
  "synced (social_sql_all (snd (social_run (\<lambda>s n. take n s)
       [AddContact 9 False, SetNote 9 ''pal'', AddContact 9 True, RemoveContact 9 False]
       (new_PlayerSocial\<lparr>m_playerGUID := 4\<rparr>))) (\<lambda>_. None))
     (new_PlayerSocial\<lparr>m_playerGUID := 4,
        m_playerSocialMap := [(9, (FriendInfo 2 ''pal''))]\<rparr>)"
proof -
  let ?ops = "[AddContact 9 False, SetNote 9 ''pal'', AddContact 9 True, RemoveContact 9 False]"
  let ?ps = "new_PlayerSocial\<lparr>m_playerGUID := 4\<rparr>"
  have run: "fst (social_run (\<lambda>s n. take n s) ?ops ?ps) =
      new_PlayerSocial\<lparr>m_playerGUID := 4, m_playerSocialMap := [(9, FriendInfo 2 ''pal'')]\<rparr>"
    by (simp add: AddToSocialList_def RemoveFromSocialList_def SetFriendNote_def new_PlayerSocial_def
        GetNumberOfSocialsWithFlag_def FriendInfo_def social_flag_def word_le_nat_alt Let_def)
  have "social_ok ?ps" and "synced (\<lambda>_. None) ?ps"
    by (simp_all add: social_ok_def synced_def new_PlayerSocial_def with_flag_def)
  from social_list_write_through [OF this prod.collapse [symmetric], of "\<lambda>s n. take n s" ?ops] run
  show ?thesis by simp
qed

text \<open>
  Adding a contact to a list within its limits fails exactly when that list is full, and then
  changes nothing; otherwise the player is on the wanted list afterwards, its other flag and all other
  contacts are as before.
\<close>

theorem AddToSocialList_result:
  assumes "social_ok ps" and "AddToSocialList g ignore ps = (added, ps', es)"
  shows "added = (with_flag (social_flag ignore) ps < 50) \<and>
    (added \<longrightarrow> (if ignore then HasIgnore g ps' else HasFriend g ps') \<and>
      HasFriend g ps' = (\<not> ignore \<or> HasFriend g ps) \<and> HasIgnore g ps' = (ignore \<or> HasIgnore g ps)) \<and>
    (\<not> added \<longrightarrow> ps' = ps \<and> es = []) \<and>
    (\<forall>h. h \<noteq> g \<longrightarrow> HasFriend h ps' = HasFriend h ps \<and> HasIgnore h ps' = HasIgnore h ps)"
proof -
  have "with_flag 1 ps \<le> 50" "with_flag 2 ps \<le> 50" using assms(1) by (simp_all add: social_ok_def)
  note lim = limit_check [OF this(1)] limit_check [OF this(2)] this
  have sf: "social_flag False = 1" "social_flag True = 2" by (simp_all add: social_flag_def)
  have added: "added = (with_flag (social_flag ignore) ps < 50)"
    using assms(2) lim
    by (cases ignore)
      (auto simp: AddToSocialList_def GetNumberOfSocialsWithFlag_eq sf Let_def split: if_splits option.splits)
  have unchanged: "\<not> added \<longrightarrow> ps' = ps \<and> es = []"
    using assms(2) by (auto simp: AddToSocialList_def Let_def split: if_splits option.splits)
  obtain fi where set: "added \<longrightarrow> ps' = ps\<lparr>m_playerSocialMap := omap_set g fi (m_playerSocialMap ps)\<rparr>"
    and fl: "added \<longrightarrow> fi_Flags fi = (case omap_find (m_playerSocialMap ps) g of
      None \<Rightarrow> social_flag ignore | Some fi0 \<Rightarrow> fi_Flags fi0 OR social_flag ignore)"
    using assms(2) by (auto simp: AddToSocialList_def Let_def FriendInfo_def split: if_splits option.splits)
  have "added \<longrightarrow> HasFriend g ps' = (\<not> ignore \<or> HasFriend g ps) \<and> HasIgnore g ps' = (ignore \<or> HasIgnore g ps)"
    using set fl by (auto simp: HasFriend_def HasIgnore_def omap_find_set social_flag_bits split: option.splits)
  moreover have "HasFriend h ps' = HasFriend h ps \<and> HasIgnore h ps' = HasIgnore h ps" if "h \<noteq> g" for h
    using set unchanged that by (cases added) (auto simp: HasFriend_def HasIgnore_def omap_find_set)
  ultimately show ?thesis using added unchanged by auto
qed

theorem AddToSocialList_result_witness:
  "\<exists>ps' es. AddToSocialList 9 True new_PlayerSocial = (True, ps', es) \<and> HasIgnore 9 ps' \<and> \<not> HasFriend 9 ps'"
proof -
  have ok: "social_ok new_PlayerSocial" by (simp add: social_ok_def new_PlayerSocial_def with_flag_def)
  obtain added ps' es where r: "AddToSocialList 9 True new_PlayerSocial = (added, ps', es)"
    by (metis prod_cases3)
  from AddToSocialList_result [OF ok r] r show ?thesis
    by (auto simp: with_flag_def new_PlayerSocial_def HasFriend_def)
qed

text \<open>
  A hidden game master stays hidden from ordinary players: while \<open>p\<close> is not visible, another player
  \<open>q\<close> with an ordinary account sees \<open>p\<close> as offline, without area, level and class, in the contact list, and
  no friend-status broadcast about \<open>p\<close> reaches \<open>q\<close>.
\<close>

theorem hidden_player_not_revealed:
  assumes "IsPlayerAccount (pl_security q)" and "\<not> pl_visible p" and "pl_guid q \<noteq> pl_guid p"
    and keyed: "\<And>g x. FindPlayer w g = Some x \<Longrightarrow> pl_guid x = g" and "FindPlayer w (pl_guid q) = Some q"
    and "FindPlayer w (ucast low) = Some p"
  shows "Send (pl_guid q) pkt \<notin> set (BroadcastToFriendListers w (Some p) data) \<and>
    fi_Status (GetFriendInfo w (Some q) low fi) = FRIEND_STATUS_OFFLINE \<and>
    fi_Area (GetFriendInfo w (Some q) low fi) = 0 \<and> fi_Level (GetFriendInfo w (Some q) low fi) = 0 \<and>
    fi_Class (GetFriendInfo w (Some q) low fi) = 0"
proof -
  have unseen: "\<not> sees_online w q p"
    using assms(1-3) by (simp add: sees_online_def IsVisibleGloballyFor_def)
  have same: "x = q" if "FindPlayer w g = Some x" and "pl_guid q = pl_guid x" for g x
    using keyed [OF that(1)] that assms(5) by simp
  have "Send (pl_guid q) pkt \<notin> set (BroadcastToFriendListers w (Some p) data)"
  proof
    assume "Send (pl_guid q) pkt \<in> set (BroadcastToFriendListers w (Some p) data)"
    then obtain x g where "FindPlayer w g = Some x" and "sees_online w x p" and "pl_guid q = pl_guid x"
      unfolding broadcast_mem by auto
    with same unseen show False by blast
  qed
  then show ?thesis
    using unseen assms(6) by (simp add: GetFriendInfo_def Let_def split: option.split)
qed

definition example_player :: "u64 \<Rightarrow> string \<Rightarrow> u32 \<Rightarrow> player" where
  "example_player g n sec =
     \<lparr>pl_guid = g, pl_name = n, pl_team = 469, pl_security = sec, pl_in_group = False, pl_guild = 0,
      pl_visible = (sec < 2), pl_afk = False, pl_dnd = False, pl_gm_tag = False, pl_dev_tag = False,
      pl_zone = 12, pl_level = 80, pl_class = 1\<rparr>"

definition example_world :: "player list \<Rightarrow> (u32, player_social) omap \<Rightarrow> world" where
  "example_world ps soc =
     \<lparr>w_players = map (\<lambda>p. (pl_guid p, p)) ps, w_names = (\<lambda>_. None), w_social = soc,
      cfg_two_side_channel = False, cfg_two_side_who = False, cfg_two_side_friend = False, cfg_gm_friend = False,
      cfg_silent_gm_join = False, cfg_restricted_lfg = False, cfg_preserve_channels = False,
      cfg_preserve_duration = 0, cfg_gm_in_who = 2\<rparr>"

lemma example_world_keyed: "FindPlayer (example_world ps soc) g = Some x \<Longrightarrow> pl_guid x = g"
  by (induction ps) (auto simp: FindPlayer_def example_world_def split: if_splits)

theorem hidden_player_not_revealed_witness:
  "fi_Status (GetFriendInfo (example_world [example_player 1 ''Bob'' 0, example_player 2 ''Gm'' 2] [])
      (Some (example_player 1 ''Bob'' 0)) 2 (FriendInfo 1 [])) = FRIEND_STATUS_OFFLINE"
proof -
  let ?q = "example_player 1 ''Bob'' 0" and ?p = "example_player 2 ''Gm'' 2"
  let ?w = "example_world [?q, ?p] []"
  have players: "IsPlayerAccount (pl_security ?q)" "\<not> pl_visible ?p" "pl_guid ?q \<noteq> pl_guid ?p"
    by (simp_all add: IsPlayerAccount_def example_player_def)
  have online: "FindPlayer ?w (pl_guid ?q) = Some ?q" "FindPlayer ?w (ucast (2 :: u32)) = Some ?p"
    by (simp_all add: FindPlayer_def example_world_def example_player_def)
  show ?thesis
    using hidden_player_not_revealed [OF players example_world_keyed online, where fi = "FriendInfo 1 []"] by simp
qed

text \<open>
  The answer to a friend request changes only the asking player's list, keeps it within the
  limits, and changes the friend flag of the found character only; that character becomes a friend
  only if it is not the player himself, is of the player's team unless the configuration or the
  player's rank allows otherwise, and is no game master a plain player may not befriend.
\<close>

theorem add_friend_answer:
  assumes "social_ok (GetSocial w p)"
    and "HandleAddFriendOpcodeCallBack TeamForRace GetSecurity tr w (Some p) (Some (low, race, acc)) note = (es, w')"
  shows "social_ok (GetSocial w' p) \<and>
    (\<forall>g. g \<noteq> GetGUIDLow p \<longrightarrow> omap_find (w_social w') g = omap_find (w_social w) g) \<and>
    (\<forall>h. h \<noteq> low \<longrightarrow> HasFriend h (GetSocial w' p) = HasFriend h (GetSocial w p)) \<and>
    (HasFriend low (GetSocial w' p) \<and> \<not> HasFriend low (GetSocial w p) \<longrightarrow>
       MAKE_NEW_GUID low 0 (high_code HIGHGUID_PLAYER) \<noteq> pl_guid p \<and>
       (pl_team p = TeamForRace race \<or> cfg_two_side_friend w \<or> \<not> IsPlayerAccount (pl_security p)) \<and>
       (IsPlayerAccount (GetSecurity acc) \<or> cfg_gm_friend w \<or> \<not> IsPlayerAccount (pl_security p)))"
proof -
  let ?soc = "GetSocial w p" and ?g = "MAKE_NEW_GUID low 0 (high_code HIGHGUID_PLAYER)"
  let ?allowed = "\<not> IsPlayerAccount (pl_security p) \<or> cfg_gm_friend w \<or> IsPlayerAccount (GetSecurity acc)"
  let ?enemy = "pl_team p \<noteq> TeamForRace race \<and> \<not> cfg_two_side_friend w \<and> IsPlayerAccount (pl_security p)"
  define adds where "adds = (?allowed \<and> ?g \<noteq> 0 \<and> ?g \<noteq> pl_guid p \<and> \<not> ?enemy \<and> \<not> HasFriend low ?soc)"
  define soc1 where "soc1 = (if adds then fst (snd (AddToSocialList low False ?soc)) else ?soc)"
  define soc2 where "soc2 = (if ?allowed \<and> ?g \<noteq> 0 then fst (SetFriendNote tr low note soc1) else soc1)"
  have w': "w' = set_social p soc2 w"
    using assms(2) unfolding HandleAddFriendOpcodeCallBack_def soc2_def soc1_def adds_def
    by (auto simp: Let_def player_guid_lopart simp del: high_code.simps
        split: prod.splits if_splits option.splits)
  have "social_ok soc1" using assms(1) by (simp add: soc1_def AddToSocialList_ok)
  then have "social_ok soc2" by (simp add: soc2_def SetFriendNote_ok)
  moreover have "HasFriend h soc2 = HasFriend h soc1" for h by (simp add: soc2_def)
  moreover have "HasFriend h soc1 = HasFriend h ?soc" if "h \<noteq> low" for h
    using that by (simp add: soc1_def AddToSocialList_HasFriend)
  moreover have "adds" if "HasFriend low soc1" and "\<not> HasFriend low ?soc"
    using that by (simp add: soc1_def split: if_splits)
  moreover have "GetSocial w' p = soc2" by (simp add: w')
  moreover have "omap_find (w_social w') g = omap_find (w_social w) g" if "g \<noteq> GetGUIDLow p" for g
    using that by (simp add: w' set_social_def omap_find_set)
  ultimately show ?thesis unfolding adds_def by auto
qed

theorem add_friend_answer_witness:
  "social_ok (GetSocial (snd (HandleAddFriendOpcodeCallBack (\<lambda>_. 469) (\<lambda>_. 0) (\<lambda>s n. take n s)
     (example_world [example_player 1 ''Bob'' 0] []) (Some (example_player 1 ''Bob'' 0)) (Some (2, 1, 5)) ''hi''))
     (example_player 1 ''Bob'' 0))"
proof -
  have "social_ok (GetSocial (example_world [example_player 1 ''Bob'' 0] []) (example_player 1 ''Bob'' 0))"
    by (simp add: GetSocial_def example_world_def omap_at_def social_ok_def new_PlayerSocial_def with_flag_def)
  from add_friend_answer [OF this prod.collapse [symmetric], of "\<lambda>_. 469" "\<lambda>_. 0" "\<lambda>s n. take n s" 2 1 5 "''hi''"]
  show ?thesis by simp
qed

end
