(* ===== verification/Text_Util.thy ===== *)
theory Text_Util
  imports Axium_Prelude "HOL-Library.Sublist"
begin

text \<open>
  The string helpers of \<^verbatim>\<open>src/src/server/shared/Utilities/Util.cpp\<close> and \<^verbatim>\<open>Util.h\<close>: splitting into tokens, durations as
  text, removal of invisible characters, hexadecimal dumps and the clamped modification of a counter,
  with the pieces of the C library they use: decimal output of an unsigned integer, \<^verbatim>\<open>isdigit\<close>,
  \<^verbatim>\<open>atol\<close> and \<^verbatim>\<open>sprintf("%02X")\<close>.
\<close>

section \<open>C library\<close>

definition digit_char :: "nat \<Rightarrow> char" where
  "digit_char d = char_of (48 + d)"

text \<open>\<^verbatim>\<open>ostream << n\<close> for an unsigned integer.\<close>

fun dec_string :: "nat \<Rightarrow> string" where
  "dec_string n = (if n < 10 then [digit_char n] else dec_string (n div 10) @ [digit_char (n mod 10)])"

declare dec_string.simps [simp del]

definition isdigit :: "char \<Rightarrow> bool" where
  "isdigit c = (48 \<le> (of_char c :: nat) \<and> (of_char c :: nat) \<le> 57)"

definition digit_value :: "char \<Rightarrow> nat" where
  "digit_value c = of_char c - 48"

definition isspace :: "char \<Rightarrow> bool" where
  "isspace c = ((of_char c :: nat) = 32 \<or> 9 \<le> (of_char c :: nat) \<and> (of_char c :: nat) \<le> 13)"

text \<open>
  \<^verbatim>\<open>atol\<close> with a 64-bit \<^verbatim>\<open>long\<close>: leading white space, an optional sign, then digits; a value that
  does not fit is clamped, as \<^verbatim>\<open>strtol\<close> does.
\<close>

definition atol_digits :: "string \<Rightarrow> nat" where
  "atol_digits s = foldl (\<lambda>n c. n * 10 + digit_value c) 0 (takeWhile isdigit s)"

definition atol :: "string \<Rightarrow> int" where
  "atol s =
     (let t = dropWhile isspace s;
          v = (if t \<noteq> [] \<and> hd t = CHR ''-'' then - int (atol_digits (tl t))
               else if t \<noteq> [] \<and> hd t = CHR ''+'' then int (atol_digits (tl t))
               else int (atol_digits t))
      in max (- (2 ^ 63)) (min (2 ^ 63 - 1) v))"

definition hex_digit :: "nat \<Rightarrow> char" where
  "hex_digit d = ''0123456789ABCDEF'' ! d"

definition sprintf_02X :: "u8 \<Rightarrow> string" where
  "sprintf_02X b = [hex_digit (unat b div 16), hex_digit (unat b mod 16)]"

section \<open>Tokens\<close>

text \<open>
  The text between \<^verbatim>\<open>posold\<close> and \<^verbatim>\<open>posnew\<close> is \<open>tok\<close>; the end of the list is the terminating zero of the
  C string, which an earlier zero character stands in for.  The separator is not the zero character.
\<close>

fun Tokens_loop :: "char \<Rightarrow> string \<Rightarrow> string \<Rightarrow> string list" where
  "Tokens_loop sep tok [] = (if tok \<noteq> [] then [tok] else [])"
| "Tokens_loop sep tok (c # cs) =
     (if c = sep then tok # Tokens_loop sep [] cs
      else if c = CHR 0x00 then (if tok \<noteq> [] then [tok] else [])
      else Tokens_loop sep (tok @ [c]) cs)"

definition Tokens :: "string \<Rightarrow> char \<Rightarrow> string list" where
  "Tokens src sep = Tokens_loop sep [] src"

section \<open>Invisible characters\<close>

definition invChar :: "char \<Rightarrow> bool" where
  "invChar c = (c \<in> {CHR '' '', CHR 0x09, CHR 0x07, CHR 0x0A})"

text \<open>One round of the loop: the string is rewritten in place behind the reading position.\<close>

definition strip_step :: "nat \<Rightarrow> string \<times> nat \<times> bool \<Rightarrow> string \<times> nat \<times> bool" where
  "strip_step pos st =
     (case st of (str, wpos, space) \<Rightarrow>
        if invChar (str ! pos)
        then (if \<not> space then (str[wpos := CHR '' ''], wpos + 1, True) else (str, wpos, space))
        else (if wpos \<noteq> pos then (str[wpos := str ! pos], wpos + 1, False) else (str, wpos + 1, False)))"

definition stripLineInvisibleChars :: "string \<Rightarrow> string" where
  "stripLineInvisibleChars str0 =
     (let (str, wpos, space) = fold strip_step [0..<length str0] (str0, 0, False);
          str' = (if wpos < length str then take wpos str else str)
      in if sublist ''|TInterface'' str' then [] else str')"

section \<open>Durations\<close>

abbreviation MINUTE :: nat where "MINUTE \<equiv> 60"
abbreviation HOUR :: nat where "HOUR \<equiv> 60 * MINUTE"
abbreviation DAY :: nat where "DAY \<equiv> 24 * HOUR"

definition secsToTimeString :: "u64 \<Rightarrow> bool \<Rightarrow> bool \<Rightarrow> string" where
  "secsToTimeString timeInSecs shortText hoursOnly =
     (let t = unat timeInSecs;
          secs = t mod MINUTE;
          minutes = t mod HOUR div MINUTE;
          hours = t mod DAY div HOUR;
          days = t div DAY
      in (if days \<noteq> 0 then dec_string days @ (if shortText then ''d'' else '' Day(s) '') else []) @
         (if hours \<noteq> 0 \<or> hoursOnly then dec_string hours @ (if shortText then ''h'' else '' Hour(s) '') else []) @
         (if \<not> hoursOnly
          then (if minutes \<noteq> 0 then dec_string minutes @ (if shortText then ''m'' else '' Minute(s) '') else []) @
               (if secs \<noteq> 0 \<or> days = 0 \<and> hours = 0 \<and> minutes = 0
                then dec_string secs @ (if shortText then ''s'' else '' Second(s).'') else [])
          else []))"

fun time_unit :: "char \<Rightarrow> u32 option" where
  "time_unit c =
     (if c = CHR ''d'' then Some (of_nat DAY) else if c = CHR ''h'' then Some (of_nat HOUR)
      else if c = CHR ''m'' then Some (of_nat MINUTE) else if c = CHR ''s'' then Some 1 else None)"

fun TimeStringToSecs_loop :: "u32 \<Rightarrow> u32 \<Rightarrow> string \<Rightarrow> u32" where
  "TimeStringToSecs_loop secs buffer [] = secs"
| "TimeStringToSecs_loop secs buffer (c # cs) =
     (if isdigit c then TimeStringToSecs_loop secs (buffer * 10 + of_nat (digit_value c)) cs
      else case time_unit c of
             None \<Rightarrow> 0
           | Some multiplier \<Rightarrow> TimeStringToSecs_loop (secs + buffer * multiplier) 0 cs)"

definition TimeStringToSecs :: "string \<Rightarrow> u32" where
  "TimeStringToSecs timestring = TimeStringToSecs_loop 0 0 timestring"

section \<open>Hexadecimal dumps\<close>

definition encode_nibble :: "u8 \<Rightarrow> char" where
  "encode_nibble nibble =
     (if nibble < 0x0A then char_of (48 + unat nibble) else char_of (65 + unat nibble - 0x0A))"

definition hexEncodeByteArray :: "u8 list \<Rightarrow> string" where
  "hexEncodeByteArray bytes =
     concat (map (\<lambda>b. map (\<lambda>j. encode_nibble (0x0F AND drop_bit ((1 - j) * 4) b)) [0, 1]) bytes)"

definition ByteArrayToHexStr :: "u8 list \<Rightarrow> string" where
  "ByteArrayToHexStr bytes = concat (map sprintf_02X bytes)"

section \<open>Counters\<close>

definition ApplyModUInt32Var :: "u32 \<Rightarrow> int \<Rightarrow> bool \<Rightarrow> u32" where
  "ApplyModUInt32Var var val apply =
     (let cur = sint var;
          cur = i32 (cur + (if apply then val else i32 (- val)));
          cur = (if cur < 0 then 0 else cur)
      in word_of_int cur)"

section \<open>Specification vocabulary\<close>

text \<open>Every run of invisible characters becomes one blank.\<close>

fun collapse :: "bool \<Rightarrow> string \<Rightarrow> string" where
  "collapse space [] = []"
| "collapse space (c # cs) =
     (if invChar c then (if space then collapse True cs else CHR '' '' # collapse True cs)
      else c # collapse False cs)"

section \<open>Lemmas\<close>

lemma digit_char_props:
  assumes "d < 10"
  shows "isdigit (digit_char d)" and "digit_value (digit_char d) = d"
proof -
  have "(of_char (digit_char d) :: nat) = 48 + d" using assms by (simp add: digit_char_def)
  then show "isdigit (digit_char d)" and "digit_value (digit_char d) = d"
    using assms by (simp_all add: isdigit_def digit_value_def)
qed

lemma dec_string_digits: "\<forall>c \<in> set (dec_string n). isdigit c"
proof (induction n rule: dec_string.induct)
  case (1 n)
  then show ?case by (subst dec_string.simps) (auto simp: digit_char_props)
qed

lemma dec_string_not_Nil: "dec_string n \<noteq> []"
  by (subst dec_string.simps) simp

lemma dec_string_value:
  "foldl (\<lambda>v c. v * 10 + of_nat (digit_value c)) 0 (dec_string n) = (of_nat n :: 'a::comm_semiring_1)"
proof (induction n rule: dec_string.induct)
  case (1 n)
  show ?case
  proof (cases "n < 10")
    case True
    then show ?thesis by (subst dec_string.simps) (simp add: digit_char_props)
  next
    case False
    have "(of_nat n :: 'a) = of_nat (n div 10 * 10 + n mod 10)" by simp
    also have "\<dots> = of_nat (n div 10) * 10 + of_nat (n mod 10)" by (simp only: of_nat_add of_nat_mult of_nat_numeral)
    finally show ?thesis using False 1 by (subst dec_string.simps) (simp add: digit_char_props)
  qed
qed

lemma TimeStringToSecs_loop_digits:
  "\<forall>c \<in> set ds. isdigit c \<Longrightarrow>
   TimeStringToSecs_loop secs buffer (ds @ rest) =
     TimeStringToSecs_loop secs (foldl (\<lambda>v c. v * 10 + of_nat (digit_value c)) buffer ds) rest"
  by (induction ds arbitrary: buffer) auto

lemma TimeStringToSecs_loop_field:
  "\<not> isdigit c \<Longrightarrow> time_unit c = Some m \<Longrightarrow>
   TimeStringToSecs_loop secs 0 (dec_string n @ c # rest) = TimeStringToSecs_loop (secs + of_nat n * m) 0 rest"
  by (simp add: TimeStringToSecs_loop_digits [OF dec_string_digits] dec_string_value del: time_unit.simps)

lemma time_units:
  "\<not> isdigit CHR ''d''" "\<not> isdigit CHR ''h''" "\<not> isdigit CHR ''m''" "\<not> isdigit CHR ''s''"
  "time_unit CHR ''d'' = Some (of_nat DAY)" "time_unit CHR ''h'' = Some (of_nat HOUR)"
  "time_unit CHR ''m'' = Some (of_nat MINUTE)" "time_unit CHR ''s'' = Some 1"
  by (simp_all add: isdigit_def)

lemma TimeStringToSecs_loop_optional:
  "\<not> isdigit c \<Longrightarrow> time_unit c = Some m \<Longrightarrow>
   TimeStringToSecs_loop secs 0 ((if n \<noteq> 0 \<or> False then dec_string n @ [c] else []) @ rest) =
     TimeStringToSecs_loop (secs + of_nat n * m) 0 rest"
  "\<not> isdigit c \<Longrightarrow> time_unit c = Some m \<Longrightarrow>
   TimeStringToSecs_loop secs 0 ((if n \<noteq> 0 then dec_string n @ [c] else []) @ rest) =
     TimeStringToSecs_loop (secs + of_nat n * m) 0 rest"
  using TimeStringToSecs_loop_field [of c m secs n rest] by (auto simp del: time_unit.simps)

lemma TimeStringToSecs_loop_last:
  "TimeStringToSecs_loop secs 0 (if n \<noteq> 0 \<or> z then dec_string n @ ''s'' else []) = secs + of_nat n"
  using TimeStringToSecs_loop_field [of "CHR ''s''" 1 secs n "[]"] time_units by auto

lemma duration_parts:
  "n div DAY * DAY + n mod DAY div HOUR * HOUR + n mod HOUR div MINUTE * MINUTE + n mod MINUTE = n"
proof -
  have "n = n div DAY * DAY + n mod DAY" by (rule div_mult_mod_eq [symmetric])
  moreover have "n mod DAY = n mod DAY div HOUR * HOUR + n mod DAY mod HOUR" by (rule div_mult_mod_eq [symmetric])
  moreover have "n mod DAY mod HOUR = n mod HOUR" by (rule mod_mod_cancel) simp
  moreover have "n mod HOUR = n mod HOUR div MINUTE * MINUTE + n mod HOUR mod MINUTE"
    by (rule div_mult_mod_eq [symmetric])
  moreover have "n mod HOUR mod MINUTE = n mod MINUTE" by (rule mod_mod_cancel) simp
  ultimately show ?thesis by linarith
qed

lemma nibble_chars: "n < 16 \<Longrightarrow> hex_digit n = (if n < 10 then char_of (48 + n) else char_of (65 + n - 10))"
proof -
  have "\<forall>n \<in> {..<16}. hex_digit n = (if n < 10 then char_of (48 + n) else char_of (65 + n - 10))"
    unfolding hex_digit_def by code_simp
  then show "n < 16 \<Longrightarrow> ?thesis" by blast
qed

lemma encode_nibble_eq: "unat x < 16 \<Longrightarrow> encode_nibble x = hex_digit (unat x)"
  by (simp add: encode_nibble_def nibble_chars word_less_nat_alt)

lemma Tokens_loop_field:
  "sep \<notin> set t \<Longrightarrow> CHR 0x00 \<notin> set t \<Longrightarrow>
   Tokens_loop sep tok (t @ sep # rest) = (tok @ t) # Tokens_loop sep [] rest"
  by (induction t arbitrary: tok) auto

lemma Tokens_fields:
  "\<forall>t \<in> set ts. sep \<notin> set t \<and> CHR 0x00 \<notin> set t \<Longrightarrow>
   Tokens_loop sep [] (concat (map (\<lambda>t. t @ [sep]) ts)) = ts"
  by (induction ts) (auto simp: Tokens_loop_field)

text \<open>The loop invariant of the in-place rewriting.\<close>

definition strip_inv :: "string \<Rightarrow> nat \<Rightarrow> string \<times> nat \<times> bool \<Rightarrow> bool" where
  "strip_inv s0 pos st =
     (case st of (str, wpos, space) \<Rightarrow>
        wpos \<le> pos \<and> length str = length s0 \<and>
        take wpos str @ collapse space (drop pos str) = collapse False s0)"

lemma strip_step_inv:
  assumes "strip_inv s0 pos st" and "pos < length s0"
  shows "strip_inv s0 (Suc pos) (strip_step pos st)"
proof -
  obtain str wpos space where st: "st = (str, wpos, space)" by (cases st)
  have w: "wpos \<le> pos" and len: "length str = length s0"
    and inv: "take wpos str @ collapse space (drop pos str) = collapse False s0"
    using assms(1) by (simp_all add: strip_inv_def st)
  have dr: "drop pos str = str ! pos # drop (Suc pos) str" using assms(2) len by (simp add: Cons_nth_drop_Suc)
  have upd: "take (Suc wpos) (str[wpos := x]) = take wpos str @ [x]" for x
    using w assms(2) len by (simp add: take_Suc_conv_app_nth)
  have cont: "drop (Suc pos) (str[wpos := x]) = drop (Suc pos) str" for x using w by simp
  have same: "take (Suc pos) str = take pos str @ [str ! pos]"
    using assms(2) len by (simp add: take_Suc_conv_app_nth)
  show ?thesis
    using inv w len upd cont same unfolding dr by (auto simp: strip_inv_def strip_step_def st)
qed

lemma strip_loop_inv:
  "n \<le> length s0 \<Longrightarrow> strip_inv s0 n (fold strip_step [0..<n] (s0, 0, False))"
proof (induction n)
  case (Suc n)
  then show ?case by (simp add: strip_step_inv)
qed (simp add: strip_inv_def)

section \<open>Properties\<close>

text \<open>
  Parsing a printed duration gives the duration back: for every 64-bit number of seconds,
  \<^verbatim>\<open>TimeStringToSecs\<close> of the short text is that number modulo the width of the result.
\<close>

theorem time_string_roundtrip: "TimeStringToSecs (secsToTimeString t True False) = ucast t"
proof -
  define n where "n = unat t"
  have "TimeStringToSecs (secsToTimeString t True False) =
      of_nat (n div DAY) * of_nat DAY + of_nat (n mod DAY div HOUR) * of_nat HOUR +
      of_nat (n mod HOUR div MINUTE) * of_nat MINUTE + of_nat (n mod MINUTE)"
    unfolding TimeStringToSecs_def secsToTimeString_def Let_def n_def [symmetric]
    by (simp only: if_True if_False not_False_eq_True TimeStringToSecs_loop_optional TimeStringToSecs_loop_last
        time_units simp_thms append_assoc add_0_left mult_1_right)
  also have "\<dots> = of_nat (n div DAY * DAY + n mod DAY div HOUR * HOUR + n mod HOUR div MINUTE * MINUTE + n mod MINUTE)"
    by (simp only: of_nat_add of_nat_mult)
  also have "\<dots> = of_nat n" by (simp only: duration_parts)
  also have "\<dots> = ucast t" by (simp add: n_def)
  finally show ?thesis .
qed

text \<open>
  Splitting text in which every field is followed by the separator gives the fields back, empty
  ones included.
\<close>

theorem Tokens_roundtrip:
  assumes "\<forall>t \<in> set ts. sep \<notin> set t \<and> CHR 0x00 \<notin> set t"
  shows "Tokens (concat (map (\<lambda>t. t @ [sep]) ts)) sep = ts"
  using assms by (simp add: Tokens_def Tokens_fields)

theorem Tokens_roundtrip_witness: "Tokens ''17  4711 '' CHR '' '' = [''17'', [], ''4711'']"
  using Tokens_roundtrip [of "[''17'', [], ''4711'']" "CHR '' ''"] by simp

text \<open>
  The in-place removal of invisible characters computes the reference result: every run of
  blanks, tabs, bells and newlines becomes one blank, and a line that then holds \<^verbatim>\<open>|TInterface\<close> is
  emptied.
\<close>

theorem stripLineInvisibleChars_correct:
  "stripLineInvisibleChars s =
     (let r = collapse False s in if sublist ''|TInterface'' r then [] else r)"
proof -
  obtain str wpos space where st: "fold strip_step [0..<length s] (s, 0, False) = (str, wpos, space)"
    by (metis prod_cases3)
  from strip_loop_inv [of "length s" s] st
  have len: "wpos \<le> length s" "length str = length s" and "take wpos str = collapse False s"
    by (auto simp: strip_inv_def)
  with len show ?thesis by (auto simp: stripLineInvisibleChars_def st Let_def)
qed

text \<open>
  The two hexadecimal encoders of the code base agree on every byte array.\<close>

theorem hex_encoders_agree: "hexEncodeByteArray bs = ByteArrayToHexStr bs"
proof -
  have m: "(0x0F :: u8) = mask 4" by (simp add: mask_eq_exp_minus_1)
  have "unat (0x0F AND drop_bit 4 b) = unat b div 16" for b :: u8
  proof -
    have "unat b < 256" by (rule unsigned_less [of b, simplified])
    then show ?thesis unfolding m by (subst and.commute)
      (simp add: drop_bit_eq_div take_bit_eq_mod unat_div unat_mod flip: take_bit_eq_mask)
  qed
  moreover have "unat b div 16 < 16" for b :: u8
    using unsigned_less [of b, where ?'a = nat, simplified] by simp
  ultimately have high: "encode_nibble (0x0F AND drop_bit 4 b) = hex_digit (unat b div 16)" for b :: u8
    by (simp add: encode_nibble_eq)
  have "unat (0x0F AND drop_bit 0 b) = unat b mod 16" for b :: u8
    unfolding m by (subst and.commute) (simp add: take_bit_eq_mod unat_mod flip: take_bit_eq_mask)
  then have "encode_nibble (0x0F AND drop_bit 0 b) = hex_digit (unat b mod 16)" for b :: u8
    by (simp add: encode_nibble_eq)
  note high this
  then show ?thesis by (simp add: hexEncodeByteArray_def ByteArrayToHexStr_def sprintf_02X_def [abs_def])
qed

end
