(* ===== verification/Channel.thy ===== *)
theory Channel
  imports Social Text_Util
begin

text \<open>
  Chat channels, \<^verbatim>\<open>game/Chat/Channels/Channel.h\<close> and \<^verbatim>\<open>Channel.cpp\<close>: the members with their flags, the ban list,
  ownership, and every command of a channel as a function from the channel to the channel and the
  effects in the order of the calls.  The world (players online, contact lists, configuration) is
  read-only here.  A \<^verbatim>\<open>std::set\<close> of guids is a map to the unit type.
\<close>

section \<open>Data\<close>

datatype ChatNotify =
    CHAT_JOINED_NOTICE | CHAT_LEFT_NOTICE | CHAT_YOU_JOINED_NOTICE
  | CHAT_YOU_LEFT_NOTICE | CHAT_WRONG_PASSWORD_NOTICE | CHAT_NOT_MEMBER_NOTICE
  | CHAT_NOT_MODERATOR_NOTICE | CHAT_PASSWORD_CHANGED_NOTICE | CHAT_OWNER_CHANGED_NOTICE
  | CHAT_PLAYER_NOT_FOUND_NOTICE | CHAT_NOT_OWNER_NOTICE | CHAT_CHANNEL_OWNER_NOTICE
  | CHAT_MODE_CHANGE_NOTICE | CHAT_ANNOUNCEMENTS_ON_NOTICE | CHAT_ANNOUNCEMENTS_OFF_NOTICE
  | CHAT_MUTED_NOTICE | CHAT_PLAYER_KICKED_NOTICE | CHAT_BANNED_NOTICE
  | CHAT_PLAYER_BANNED_NOTICE | CHAT_PLAYER_UNBANNED_NOTICE | CHAT_PLAYER_NOT_BANNED_NOTICE
  | CHAT_PLAYER_ALREADY_MEMBER_NOTICE | CHAT_INVITE_NOTICE | CHAT_INVITE_WRONG_FACTION_NOTICE
  | CHAT_WRONG_FACTION_NOTICE | CHAT_INVALID_NAME_NOTICE | CHAT_NOT_MODERATED_NOTICE
  | CHAT_PLAYER_INVITED_NOTICE | CHAT_PLAYER_INVITE_BANNED_NOTICE | CHAT_THROTTLED_NOTICE
  | CHAT_NOT_IN_AREA_NOTICE | CHAT_NOT_IN_LFG_NOTICE | CHAT_VOICE_ON_NOTICE
  | CHAT_VOICE_OFF_NOTICE

fun notify_code :: "ChatNotify \<Rightarrow> u8" where
  "notify_code CHAT_JOINED_NOTICE = 0x00"
| "notify_code CHAT_LEFT_NOTICE = 0x01"
| "notify_code CHAT_YOU_JOINED_NOTICE = 0x02"
| "notify_code CHAT_YOU_LEFT_NOTICE = 0x03"
| "notify_code CHAT_WRONG_PASSWORD_NOTICE = 0x04"
| "notify_code CHAT_NOT_MEMBER_NOTICE = 0x05"
| "notify_code CHAT_NOT_MODERATOR_NOTICE = 0x06"
| "notify_code CHAT_PASSWORD_CHANGED_NOTICE = 0x07"
| "notify_code CHAT_OWNER_CHANGED_NOTICE = 0x08"
| "notify_code CHAT_PLAYER_NOT_FOUND_NOTICE = 0x09"
| "notify_code CHAT_NOT_OWNER_NOTICE = 0x0A"
| "notify_code CHAT_CHANNEL_OWNER_NOTICE = 0x0B"
| "notify_code CHAT_MODE_CHANGE_NOTICE = 0x0C"
| "notify_code CHAT_ANNOUNCEMENTS_ON_NOTICE = 0x0D"
| "notify_code CHAT_ANNOUNCEMENTS_OFF_NOTICE = 0x0E"
| "notify_code CHAT_MUTED_NOTICE = 0x11"
| "notify_code CHAT_PLAYER_KICKED_NOTICE = 0x12"
| "notify_code CHAT_BANNED_NOTICE = 0x13"
| "notify_code CHAT_PLAYER_BANNED_NOTICE = 0x14"
| "notify_code CHAT_PLAYER_UNBANNED_NOTICE = 0x15"
| "notify_code CHAT_PLAYER_NOT_BANNED_NOTICE = 0x16"
| "notify_code CHAT_PLAYER_ALREADY_MEMBER_NOTICE = 0x17"
| "notify_code CHAT_INVITE_NOTICE = 0x18"
| "notify_code CHAT_INVITE_WRONG_FACTION_NOTICE = 0x19"
| "notify_code CHAT_WRONG_FACTION_NOTICE = 0x1A"
| "notify_code CHAT_INVALID_NAME_NOTICE = 0x1B"
| "notify_code CHAT_NOT_MODERATED_NOTICE = 0x1C"
| "notify_code CHAT_PLAYER_INVITED_NOTICE = 0x1D"
| "notify_code CHAT_PLAYER_INVITE_BANNED_NOTICE = 0x1E"
| "notify_code CHAT_THROTTLED_NOTICE = 0x1F"
| "notify_code CHAT_NOT_IN_AREA_NOTICE = 0x20"
| "notify_code CHAT_NOT_IN_LFG_NOTICE = 0x21"
| "notify_code CHAT_VOICE_ON_NOTICE = 0x22"
| "notify_code CHAT_VOICE_OFF_NOTICE = 0x23"

datatype ChannelFlags =
    CHANNEL_FLAG_NONE | CHANNEL_FLAG_CUSTOM | CHANNEL_FLAG_TRADE | CHANNEL_FLAG_NOT_LFG
  | CHANNEL_FLAG_GENERAL | CHANNEL_FLAG_CITY | CHANNEL_FLAG_LFG | CHANNEL_FLAG_VOICE

fun chan_flag :: "ChannelFlags \<Rightarrow> u8" where
  "chan_flag CHANNEL_FLAG_NONE = 0x00"
| "chan_flag CHANNEL_FLAG_CUSTOM = 0x01"
| "chan_flag CHANNEL_FLAG_TRADE = 0x04"
| "chan_flag CHANNEL_FLAG_NOT_LFG = 0x08"
| "chan_flag CHANNEL_FLAG_GENERAL = 0x10"
| "chan_flag CHANNEL_FLAG_CITY = 0x20"
| "chan_flag CHANNEL_FLAG_LFG = 0x40"
| "chan_flag CHANNEL_FLAG_VOICE = 0x80"

datatype ChannelDBCFlags =
    CHANNEL_DBC_FLAG_NONE | CHANNEL_DBC_FLAG_INITIAL | CHANNEL_DBC_FLAG_ZONE_DEP | CHANNEL_DBC_FLAG_GLOBAL
  | CHANNEL_DBC_FLAG_TRADE | CHANNEL_DBC_FLAG_CITY_ONLY | CHANNEL_DBC_FLAG_CITY_ONLY2 | CHANNEL_DBC_FLAG_DEFENSE
  | CHANNEL_DBC_FLAG_GUILD_REQ | CHANNEL_DBC_FLAG_LFG | CHANNEL_DBC_FLAG_UNK1

fun dbc_flag :: "ChannelDBCFlags \<Rightarrow> u32" where
  "dbc_flag CHANNEL_DBC_FLAG_NONE = 0x00000"
| "dbc_flag CHANNEL_DBC_FLAG_INITIAL = 0x00001"
| "dbc_flag CHANNEL_DBC_FLAG_ZONE_DEP = 0x00002"
| "dbc_flag CHANNEL_DBC_FLAG_GLOBAL = 0x00004"
| "dbc_flag CHANNEL_DBC_FLAG_TRADE = 0x00008"
| "dbc_flag CHANNEL_DBC_FLAG_CITY_ONLY = 0x00010"
| "dbc_flag CHANNEL_DBC_FLAG_CITY_ONLY2 = 0x00020"
| "dbc_flag CHANNEL_DBC_FLAG_DEFENSE = 0x10000"
| "dbc_flag CHANNEL_DBC_FLAG_GUILD_REQ = 0x20000"
| "dbc_flag CHANNEL_DBC_FLAG_LFG = 0x40000"
| "dbc_flag CHANNEL_DBC_FLAG_UNK1 = 0x80000"

datatype ChannelMemberFlags =
    MEMBER_FLAG_NONE | MEMBER_FLAG_OWNER | MEMBER_FLAG_MODERATOR | MEMBER_FLAG_VOICED | MEMBER_FLAG_MUTED
  | MEMBER_FLAG_CUSTOM | MEMBER_FLAG_MIC_MUTED

fun member_flag :: "ChannelMemberFlags \<Rightarrow> u8" where
  "member_flag MEMBER_FLAG_NONE = 0x00"
| "member_flag MEMBER_FLAG_OWNER = 0x01"
| "member_flag MEMBER_FLAG_MODERATOR = 0x02"
| "member_flag MEMBER_FLAG_VOICED = 0x04"
| "member_flag MEMBER_FLAG_MUTED = 0x08"
| "member_flag MEMBER_FLAG_CUSTOM = 0x10"
| "member_flag MEMBER_FLAG_MIC_MUTED = 0x20"

record player_info =
  pi_player :: u64
  pi_flags :: u8

text \<open>The value-initialised element that \<^verbatim>\<open>players[guid]\<close> creates.\<close>

definition PlayerInfo0 :: player_info where
  "PlayerInfo0 = \<lparr>pi_player = 0, pi_flags = 0\<rparr>"

definition pi_IsOwner :: "player_info \<Rightarrow> bool" where
  "pi_IsOwner i = (pi_flags i AND member_flag MEMBER_FLAG_OWNER \<noteq> 0)"

definition pi_SetOwner :: "bool \<Rightarrow> player_info \<Rightarrow> player_info" where
  "pi_SetOwner state i =
     (if state then i\<lparr>pi_flags := pi_flags i OR member_flag MEMBER_FLAG_OWNER\<rparr>
      else i\<lparr>pi_flags := pi_flags i AND NOT (member_flag MEMBER_FLAG_OWNER)\<rparr>)"

definition pi_IsModerator :: "player_info \<Rightarrow> bool" where
  "pi_IsModerator i = (pi_flags i AND member_flag MEMBER_FLAG_MODERATOR \<noteq> 0)"

definition pi_SetModerator :: "bool \<Rightarrow> player_info \<Rightarrow> player_info" where
  "pi_SetModerator state i =
     (if state then i\<lparr>pi_flags := pi_flags i OR member_flag MEMBER_FLAG_MODERATOR\<rparr>
      else i\<lparr>pi_flags := pi_flags i AND NOT (member_flag MEMBER_FLAG_MODERATOR)\<rparr>)"

definition pi_IsMuted :: "player_info \<Rightarrow> bool" where
  "pi_IsMuted i = (pi_flags i AND member_flag MEMBER_FLAG_MUTED \<noteq> 0)"

definition pi_SetMuted :: "bool \<Rightarrow> player_info \<Rightarrow> player_info" where
  "pi_SetMuted state i =
     (if state then i\<lparr>pi_flags := pi_flags i OR member_flag MEMBER_FLAG_MUTED\<rparr>
      else i\<lparr>pi_flags := pi_flags i AND NOT (member_flag MEMBER_FLAG_MUTED)\<rparr>)"

record channel =
  ch_players :: "(u64, player_info) omap"
  ch_banned :: "(u64, unit) omap"
  m_announce :: bool
  m_ownership :: bool
  m_name :: string
  m_password :: string
  m_flags :: u8
  m_channelId :: u32
  m_ownerGUID :: u64
  m_IsSaved :: bool
  m_Team :: u32

definition IsOn :: "channel \<Rightarrow> u64 \<Rightarrow> bool" where
  "IsOn c who = (omap_find (ch_players c) who \<noteq> None)"

definition IsBanned :: "channel \<Rightarrow> u64 \<Rightarrow> bool" where
  "IsBanned c guid = (omap_find (ch_banned c) guid \<noteq> None)"

definition GetPlayerFlags :: "channel \<Rightarrow> u64 \<Rightarrow> u8" where
  "GetPlayerFlags c p = (case omap_find (ch_players c) p of None \<Rightarrow> 0 | Some i \<Rightarrow> pi_flags i)"

definition IsConstant :: "channel \<Rightarrow> bool" where
  "IsConstant c = (m_channelId c \<noteq> 0)"

definition ch_HasFlag :: "channel \<Rightarrow> ChannelFlags \<Rightarrow> bool" where
  "ch_HasFlag c f = (m_flags c AND chan_flag f \<noteq> 0)"

definition GetNumPlayers :: "channel \<Rightarrow> u32" where
  "GetNumPlayers c = of_nat (length (ch_players c))"

text \<open>\<^verbatim>\<open>players[p]\<close> read, and changed by \<open>f\<close>.\<close>

abbreviation member :: "channel \<Rightarrow> u64 \<Rightarrow> player_info" where
  "member c p \<equiv> omap_at PlayerInfo0 (ch_players c) p"

definition upd_member :: "(player_info \<Rightarrow> player_info) \<Rightarrow> u64 \<Rightarrow> channel \<Rightarrow> channel" where
  "upd_member f p c = c\<lparr>ch_players := omap_upd PlayerInfo0 f p (ch_players c)\<rparr>"

section \<open>Packets\<close>

abbreviation SMSG_CHANNEL_NOTIFY :: u16 where "SMSG_CHANNEL_NOTIFY \<equiv> 0x099"
abbreviation SMSG_CHANNEL_LIST :: u16 where "SMSG_CHANNEL_LIST \<equiv> 0x09B"
abbreviation SMSG_MESSAGECHAT :: u16 where "SMSG_MESSAGECHAT \<equiv> 0x096"
abbreviation SMSG_USERLIST_ADD :: u16 where "SMSG_USERLIST_ADD \<equiv> 0x3F0"
abbreviation SMSG_USERLIST_REMOVE :: u16 where "SMSG_USERLIST_REMOVE \<equiv> 0x3F1"
abbreviation SMSG_USERLIST_UPDATE :: u16 where "SMSG_USERLIST_UPDATE \<equiv> 0x3F2"

definition MakeNotifyPacket :: "channel \<Rightarrow> ChatNotify \<Rightarrow> world_packet" where
  "MakeNotifyPacket c notify_type =
     wp_add [Out8 (notify_code notify_type), OutStr (m_name c)]
       (WorldPacket_Initialize SMSG_CHANNEL_NOTIFY (new_WorldPacket 0))"

definition MakeJoined :: "channel \<Rightarrow> u64 \<Rightarrow> world_packet" where
  "MakeJoined c guid = wp_add [Out64 guid] (MakeNotifyPacket c CHAT_JOINED_NOTICE)"

definition MakeLeft :: "channel \<Rightarrow> u64 \<Rightarrow> world_packet" where
  "MakeLeft c guid = wp_add [Out64 guid] (MakeNotifyPacket c CHAT_LEFT_NOTICE)"

definition MakeYouJoined :: "channel \<Rightarrow> world_packet" where
  "MakeYouJoined c =
     wp_add [Out8 (m_flags c), Out32 (m_channelId c), Out32 0] (MakeNotifyPacket c CHAT_YOU_JOINED_NOTICE)"

definition MakeYouLeft :: "channel \<Rightarrow> world_packet" where
  "MakeYouLeft c =
     wp_add [Out32 (m_channelId c), Out8 (if IsConstant c then 1 else 0)] (MakeNotifyPacket c CHAT_YOU_LEFT_NOTICE)"

definition MakeWrongPassword :: "channel \<Rightarrow> world_packet" where
  "MakeWrongPassword c = MakeNotifyPacket c CHAT_WRONG_PASSWORD_NOTICE"

definition MakeNotMember :: "channel \<Rightarrow> world_packet" where
  "MakeNotMember c = MakeNotifyPacket c CHAT_NOT_MEMBER_NOTICE"

definition MakeNotModerator :: "channel \<Rightarrow> world_packet" where
  "MakeNotModerator c = MakeNotifyPacket c CHAT_NOT_MODERATOR_NOTICE"

definition MakePasswordChanged :: "channel \<Rightarrow> u64 \<Rightarrow> world_packet" where
  "MakePasswordChanged c guid = wp_add [Out64 guid] (MakeNotifyPacket c CHAT_PASSWORD_CHANGED_NOTICE)"

definition MakeOwnerChanged :: "channel \<Rightarrow> u64 \<Rightarrow> world_packet" where
  "MakeOwnerChanged c guid = wp_add [Out64 guid] (MakeNotifyPacket c CHAT_OWNER_CHANGED_NOTICE)"

definition MakePlayerNotFound :: "channel \<Rightarrow> string \<Rightarrow> world_packet" where
  "MakePlayerNotFound c name = wp_add [OutStr name] (MakeNotifyPacket c CHAT_PLAYER_NOT_FOUND_NOTICE)"

definition MakeNotOwner :: "channel \<Rightarrow> world_packet" where
  "MakeNotOwner c = MakeNotifyPacket c CHAT_NOT_OWNER_NOTICE"

definition MakeChannelOwner :: "world \<Rightarrow> channel \<Rightarrow> world_packet" where
  "MakeChannelOwner w c =
     (let name = (case GetPlayerNameByGUID w (m_ownerGUID c) of
                    None \<Rightarrow> ''PLAYER_NOT_FOUND''
                  | Some n \<Rightarrow> if n = [] then ''PLAYER_NOT_FOUND'' else n)
      in wp_add [OutStr (if IsConstant c \<or> m_ownerGUID c = 0 then ''Nobody'' else name)]
           (MakeNotifyPacket c CHAT_CHANNEL_OWNER_NOTICE))"

definition MakeModeChange :: "channel \<Rightarrow> u64 \<Rightarrow> u8 \<Rightarrow> world_packet" where
  "MakeModeChange c guid oldflags =
     wp_add [Out64 guid, Out8 oldflags, Out8 (GetPlayerFlags c guid)] (MakeNotifyPacket c CHAT_MODE_CHANGE_NOTICE)"

definition MakeAnnouncementsOn :: "channel \<Rightarrow> u64 \<Rightarrow> world_packet" where
  "MakeAnnouncementsOn c guid = wp_add [Out64 guid] (MakeNotifyPacket c CHAT_ANNOUNCEMENTS_ON_NOTICE)"

definition MakeAnnouncementsOff :: "channel \<Rightarrow> u64 \<Rightarrow> world_packet" where
  "MakeAnnouncementsOff c guid = wp_add [Out64 guid] (MakeNotifyPacket c CHAT_ANNOUNCEMENTS_OFF_NOTICE)"

definition MakeMuted :: "channel \<Rightarrow> world_packet" where
  "MakeMuted c = MakeNotifyPacket c CHAT_MUTED_NOTICE"

definition MakePlayerKicked :: "channel \<Rightarrow> u64 \<Rightarrow> u64 \<Rightarrow> world_packet" where
  "MakePlayerKicked c bad good = wp_add [Out64 bad, Out64 good] (MakeNotifyPacket c CHAT_PLAYER_KICKED_NOTICE)"

definition MakeBanned :: "channel \<Rightarrow> world_packet" where
  "MakeBanned c = MakeNotifyPacket c CHAT_BANNED_NOTICE"

definition MakePlayerBanned :: "channel \<Rightarrow> u64 \<Rightarrow> u64 \<Rightarrow> world_packet" where
  "MakePlayerBanned c bad good = wp_add [Out64 bad, Out64 good] (MakeNotifyPacket c CHAT_PLAYER_BANNED_NOTICE)"

definition MakePlayerUnbanned :: "channel \<Rightarrow> u64 \<Rightarrow> u64 \<Rightarrow> world_packet" where
  "MakePlayerUnbanned c bad good = wp_add [Out64 bad, Out64 good] (MakeNotifyPacket c CHAT_PLAYER_UNBANNED_NOTICE)"

definition MakePlayerNotBanned :: "channel \<Rightarrow> string \<Rightarrow> world_packet" where
  "MakePlayerNotBanned c name = wp_add [OutStr name] (MakeNotifyPacket c CHAT_PLAYER_NOT_BANNED_NOTICE)"

definition MakePlayerAlreadyMember :: "channel \<Rightarrow> u64 \<Rightarrow> world_packet" where
  "MakePlayerAlreadyMember c guid = wp_add [Out64 guid] (MakeNotifyPacket c CHAT_PLAYER_ALREADY_MEMBER_NOTICE)"

definition MakeInvite :: "channel \<Rightarrow> u64 \<Rightarrow> world_packet" where
  "MakeInvite c guid = wp_add [Out64 guid] (MakeNotifyPacket c CHAT_INVITE_NOTICE)"

definition MakeInviteWrongFaction :: "channel \<Rightarrow> world_packet" where
  "MakeInviteWrongFaction c = MakeNotifyPacket c CHAT_INVITE_WRONG_FACTION_NOTICE"

definition MakeWrongFaction :: "channel \<Rightarrow> world_packet" where
  "MakeWrongFaction c = MakeNotifyPacket c CHAT_WRONG_FACTION_NOTICE"

definition MakeInvalidName :: "channel \<Rightarrow> world_packet" where
  "MakeInvalidName c = MakeNotifyPacket c CHAT_INVALID_NAME_NOTICE"

definition MakeNotModerated :: "channel \<Rightarrow> world_packet" where
  "MakeNotModerated c = MakeNotifyPacket c CHAT_NOT_MODERATED_NOTICE"

definition MakePlayerInvited :: "channel \<Rightarrow> string \<Rightarrow> world_packet" where
  "MakePlayerInvited c name = wp_add [OutStr name] (MakeNotifyPacket c CHAT_PLAYER_INVITED_NOTICE)"

definition MakePlayerInviteBanned :: "channel \<Rightarrow> string \<Rightarrow> world_packet" where
  "MakePlayerInviteBanned c name = wp_add [OutStr name] (MakeNotifyPacket c CHAT_PLAYER_INVITE_BANNED_NOTICE)"

definition MakeThrottled :: "channel \<Rightarrow> world_packet" where
  "MakeThrottled c = MakeNotifyPacket c CHAT_THROTTLED_NOTICE"

definition MakeNotInArea :: "channel \<Rightarrow> world_packet" where
  "MakeNotInArea c = MakeNotifyPacket c CHAT_NOT_IN_AREA_NOTICE"

definition MakeNotInLfg :: "channel \<Rightarrow> world_packet" where
  "MakeNotInLfg c = MakeNotifyPacket c CHAT_NOT_IN_LFG_NOTICE"

definition MakeVoiceOn :: "channel \<Rightarrow> u64 \<Rightarrow> world_packet" where
  "MakeVoiceOn c guid = wp_add [Out64 guid] (MakeNotifyPacket c CHAT_VOICE_ON_NOTICE)"

definition MakeVoiceOff :: "channel \<Rightarrow> u64 \<Rightarrow> world_packet" where
  "MakeVoiceOff c guid = wp_add [Out64 guid] (MakeNotifyPacket c CHAT_VOICE_OFF_NOTICE)"

section \<open>Sending\<close>

definition SendToAll :: "world \<Rightarrow> channel \<Rightarrow> world_packet \<Rightarrow> u64 \<Rightarrow> effect list" where
  "SendToAll w c data p =
     concat (map (\<lambda>i. case FindPlayer w (fst i) of
                         None \<Rightarrow> []
                       | Some player \<Rightarrow>
                           if p = 0 \<or> \<not> HasIgnore (GUID_LOPART p) (GetSocial w player)
                           then [Send (pl_guid player) data] else []) (ch_players c))"

definition SendToAllButOne :: "world \<Rightarrow> channel \<Rightarrow> world_packet \<Rightarrow> u64 \<Rightarrow> effect list" where
  "SendToAllButOne w c data who =
     concat (map (\<lambda>i. if fst i \<noteq> who
                       then case FindPlayer w (fst i) of None \<Rightarrow> [] | Some player \<Rightarrow> [Send (pl_guid player) data]
                       else []) (ch_players c))"

definition SendToOne :: "world \<Rightarrow> world_packet \<Rightarrow> u64 \<Rightarrow> effect list" where
  "SendToOne w data who =
     (case FindPlayer w who of None \<Rightarrow> [] | Some player \<Rightarrow> [Send (pl_guid player) data])"

definition JoinNotify :: "world \<Rightarrow> channel \<Rightarrow> u64 \<Rightarrow> effect list" where
  "JoinNotify w c guid =
     (let data = wp_add [Out64 guid, Out8 (GetPlayerFlags c guid), Out8 (m_flags c), Out32 (GetNumPlayers c), OutStr (m_name c)]
                   (WorldPacket_Initialize (if IsConstant c then SMSG_USERLIST_ADD else SMSG_USERLIST_UPDATE) (new_WorldPacket 0))
      in if IsConstant c then SendToAllButOne w c data guid else SendToAll w c data 0)"

definition LeaveNotify :: "world \<Rightarrow> channel \<Rightarrow> u64 \<Rightarrow> effect list" where
  "LeaveNotify w c guid =
     (let data = wp_add [Out64 guid, Out8 (m_flags c), Out32 (GetNumPlayers c), OutStr (m_name c)]
                   (new_WorldPacket SMSG_USERLIST_REMOVE)
      in if IsConstant c then SendToAllButOne w c data guid else SendToAll w c data 0)"

section \<open>The table of channels\<close>

definition banlist_string :: "(u64, unit) omap \<Rightarrow> string" where
  "banlist_string b = concat (map (\<lambda>e. dec_string (unat (fst e)) @ '' '') b)"

definition load_banlist :: "string \<Rightarrow> (u64, unit) omap" where
  "load_banlist s =
     fold (\<lambda>tok b. let banned_guid = word_of_int (atol tok) in if banned_guid \<noteq> 0 then omap_set banned_guid () b else b)
       (Tokens s CHR '' '') []"

definition UpdateChannelInDB :: "channel \<Rightarrow> effect list" where
  "UpdateChannelInDB c =
     (if m_IsSaved c
      then [DbExec ''CHAR_UPD_CHANNEL''
              [DbBool (m_announce c), DbBool (m_ownership c), DbString (m_password c),
               DbString (banlist_string (ch_banned c)), DbString (m_name c), DbU32 (m_Team c)]]
      else [])"

definition UpdateChannelUseageInDB :: "channel \<Rightarrow> effect list" where
  "UpdateChannelUseageInDB c = [DbExec ''CHAR_UPD_CHANNEL_USAGE'' [DbString (m_name c), DbU32 (m_Team c)]]"

definition CleanOldChannelsInDB :: "world \<Rightarrow> effect list" where
  "CleanOldChannelsInDB w =
     (if 0 < cfg_preserve_duration w
      then [DbExec ''CHAR_DEL_OLD_CHANNELS'' [DbU32 (cfg_preserve_duration w * of_nat DAY)]] else [])"

text \<open>
  The constructor.  \<open>store\<close> gives the flags of the built-in channel of an id (client data), \<open>row\<close> the result
  of the query for a stored custom channel: announce, ownership, password and ban list.
\<close>

definition new_Channel ::
  "(u32 \<Rightarrow> u32 option) \<Rightarrow> (bool \<times> bool \<times> string \<times> string option) option \<Rightarrow> world
     \<Rightarrow> string \<Rightarrow> u32 \<Rightarrow> u32 \<Rightarrow> channel \<times> effect list"
where
  "new_Channel store row w name channel_id Team =
     (let c0 = \<lparr>ch_players = [], ch_banned = [], m_announce = True, m_ownership = True, m_name = name,
                m_password = [], m_flags = 0, m_channelId = channel_id, m_ownerGUID = 0, m_IsSaved = False,
                m_Team = Team\<rparr>
      in case store channel_id of
           Some flags \<Rightarrow>
             let fl = m_flags c0 OR chan_flag CHANNEL_FLAG_GENERAL;
                 fl = (if flags AND dbc_flag CHANNEL_DBC_FLAG_TRADE \<noteq> 0 then fl OR chan_flag CHANNEL_FLAG_TRADE else fl);
                 fl = (if flags AND dbc_flag CHANNEL_DBC_FLAG_CITY_ONLY2 \<noteq> 0 then fl OR chan_flag CHANNEL_FLAG_CITY else fl);
                 fl = (if flags AND dbc_flag CHANNEL_DBC_FLAG_LFG \<noteq> 0 then fl OR chan_flag CHANNEL_FLAG_LFG
                       else fl OR chan_flag CHANNEL_FLAG_NOT_LFG)
             in (c0\<lparr>m_announce := False, m_ownership := False, m_flags := fl\<rparr>, [])
         | None \<Rightarrow>
             let c1 = c0\<lparr>m_flags := m_flags c0 OR chan_flag CHANNEL_FLAG_CUSTOM\<rparr>
             in if cfg_preserve_channels w
                then case row of
                       Some (announce, ownership, password, bans) \<Rightarrow>
                         (c1\<lparr>m_announce := announce, m_ownership := ownership, m_password := password,
                             ch_banned := (case bans of None \<Rightarrow> [] | Some s \<Rightarrow> load_banlist s),
                             m_IsSaved := True\<rparr>, [])
                     | None \<Rightarrow>
                         (c1\<lparr>m_IsSaved := True\<rparr>, [DbExec ''CHAR_INS_CHANNEL'' [DbString name, DbU32 Team]])
                else (c1, []))"

section \<open>Commands\<close>

definition SetOwner_guid :: "world \<Rightarrow> u64 \<Rightarrow> bool \<Rightarrow> channel \<Rightarrow> channel \<times> effect list" where
  "SetOwner_guid w guid exclaim c =
     (let c1 = (if m_ownerGUID c \<noteq> 0
                then case omap_find (ch_players c) (m_ownerGUID c) of
                       None \<Rightarrow> c
                     | Some i \<Rightarrow> c\<lparr>ch_players := omap_set (m_ownerGUID c) (pi_SetOwner False i) (ch_players c)\<rparr>
                else c);
          c2 = c1\<lparr>m_ownerGUID := guid\<rparr>
      in if guid \<noteq> 0
         then let oldFlag = GetPlayerFlags c2 guid;
                  c3 = upd_member (pi_SetModerator True) guid c2;
                  c4 = upd_member (pi_SetOwner True) guid c3
              in (c4, SendToAll w c4 (MakeModeChange c4 guid oldFlag) 0 @
                      (if exclaim then SendToAll w c4 (MakeOwnerChanged c4 guid) 0 else []) @
                      UpdateChannelInDB c4)
         else (c2, []))"

definition set_mode_guid :: "world \<Rightarrow> bool \<Rightarrow> u64 \<Rightarrow> bool \<Rightarrow> channel \<Rightarrow> channel \<times> effect list" where
  "set_mode_guid w md p st c =
     (if (if md then pi_IsModerator (member c p) else pi_IsMuted (member c p)) \<noteq> st
      then let oldFlag = GetPlayerFlags c p;
               c1 = upd_member (if md then pi_SetModerator st else pi_SetMuted st) p c
           in (c1, SendToAll w c1 (MakeModeChange c1 p oldFlag) 0)
      else (upd_member (\<lambda>i. i) p c, []))"

text \<open>Whether a join or leave of \<open>p\<close> is announced: game masters may come and go silently.\<close>

definition announced :: "world \<Rightarrow> player option \<Rightarrow> bool" where
  "announced w player =
     (case player of None \<Rightarrow> True
      | Some pl \<Rightarrow> \<not> IsGMAccount (pl_security pl) \<or> \<not> cfg_silent_gm_join w)"

definition Channel_Join :: "world \<Rightarrow> u64 \<Rightarrow> string \<Rightarrow> channel \<Rightarrow> channel \<times> effect list" where
  "Channel_Join w p pass c =
     (if IsOn c p
      then (c, if \<not> IsConstant c then SendToOne w (MakePlayerAlreadyMember c p) p else [])
      else if IsBanned c p then (c, SendToOne w (MakeBanned c) p)
      else if 0 < length (m_password c) \<and> pass \<noteq> m_password c then (c, SendToOne w (MakeWrongPassword c) p)
      else
        let player = FindPlayer w p in
        if (case player of None \<Rightarrow> False
            | Some pl \<Rightarrow> ch_HasFlag c CHANNEL_FLAG_LFG \<and> cfg_restricted_lfg w \<and>
                IsPlayerAccount (pl_security pl) \<and> pl_in_group pl)
        then (c, SendToOne w (MakeNotInLfg c) p)
        else
          let es1 = (case player of None \<Rightarrow> [] | Some pl \<Rightarrow> [PlayerJoined (pl_guid pl)]);
              es2 = (if m_announce c \<and> announced w player then SendToAll w c (MakeJoined c p) 0 else []);
              c1 = c\<lparr>ch_players := omap_set p \<lparr>pi_player = p, pi_flags = member_flag MEMBER_FLAG_NONE\<rparr> (ch_players c)\<rparr>;
              es3 = SendToOne w (MakeYouJoined c1) p @ JoinNotify w c1 p;
              es4 = (if \<not> IsConstant c1 \<and> ch_players c1 \<noteq> [] then UpdateChannelUseageInDB c1 else []);
              (c2, es5) =
                (if \<not> IsConstant c1 \<and> m_ownerGUID c1 = 0 \<and> m_ownership c1
                 then let (c', es) = SetOwner_guid w p (1 < length (ch_players c1)) c1
                      in (upd_member (pi_SetModerator True) p c', es)
                 else (c1, []))
          in (c2, es1 @ es2 @ es3 @ es4 @ es5))"

definition Channel_Leave :: "world \<Rightarrow> u64 \<Rightarrow> bool \<Rightarrow> channel \<Rightarrow> channel \<times> effect list" where
  "Channel_Leave w p send c =
     (if \<not> IsOn c p then (c, if send then SendToOne w (MakeNotMember c) p else [])
      else
        let player = FindPlayer w p;
            es1 = (if send then SendToOne w (MakeYouLeft c) p @
                     (case player of None \<Rightarrow> [] | Some pl \<Rightarrow> [PlayerLeft (pl_guid pl)]) else []);
            changeowner = pi_IsOwner (member c p);
            c1 = c\<lparr>ch_players := omap_erase p (ch_players c)\<rparr>;
            es2 = (if m_announce c1 \<and> announced w player then SendToAll w c1 (MakeLeft c1 p) 0 else []);
            es3 = LeaveNotify w c1 p;
            es4 = (if \<not> IsConstant c1 then UpdateChannelUseageInDB c1 else []);
            (c2, es5) =
              (if \<not> IsConstant c1 \<and> changeowner \<and> m_ownership c1 \<and> ch_players c1 \<noteq> []
               then let newowner = pi_player (snd (hd (ch_players c1)))
                    in SetOwner_guid w newowner True (upd_member (pi_SetModerator True) newowner c1)
               else (c1, []))
        in (c2, es1 @ es2 @ es3 @ es4 @ es5))"

text \<open>The level of the player who gives a command: 0 when he is not online.\<close>

definition security_of :: "world \<Rightarrow> u64 \<Rightarrow> u32" where
  "security_of w g = (case FindPlayer w g of None \<Rightarrow> sec_code SEC_PLAYER | Some pl \<Rightarrow> pl_security pl)"

definition Channel_KickOrBan :: "world \<Rightarrow> u64 \<Rightarrow> string \<Rightarrow> bool \<Rightarrow> channel \<Rightarrow> channel \<times> effect list" where
  "Channel_KickOrBan w good badname ban c =
     (let sec = security_of w good in
      if \<not> IsOn c good then (c, SendToOne w (MakeNotMember c) good)
      else if \<not> pi_IsModerator (member c good) \<and> \<not> IsGMAccount sec then (c, SendToOne w (MakeNotModerator c) good)
      else case FindPlayerByName w badname of
             None \<Rightarrow> (c, SendToOne w (MakePlayerNotFound c badname) good)
           | Some bad \<Rightarrow>
               if \<not> IsOn c (pl_guid bad) then (c, SendToOne w (MakePlayerNotFound c badname) good)
               else if \<not> IsGMAccount sec \<and> pl_guid bad = m_ownerGUID c \<and> good \<noteq> m_ownerGUID c
               then (c, SendToOne w (MakeNotOwner c) good)
               else
                 let changeowner = (m_ownerGUID c = pl_guid bad);
                     notify = (\<not> (IsGMAccount sec \<and> cfg_silent_gm_join w));
                     bans = (ban \<and> \<not> IsBanned c (pl_guid bad));
                     c1 = (if bans then c\<lparr>ch_banned := omap_set (pl_guid bad) () (ch_banned c)\<rparr> else c);
                     es1 = (if bans then UpdateChannelInDB c1 else []);
                     data = (if bans then MakePlayerBanned c1 (pl_guid bad) good else MakePlayerKicked c1 (pl_guid bad) good);
                     es2 = (if notify then SendToAll w c1 data 0 else []);
                     c2 = c1\<lparr>ch_players := omap_erase (pl_guid bad) (ch_players c1)\<rparr>;
                     (c3, es3) =
                       (if changeowner \<and> m_ownership c2 \<and> ch_players c2 \<noteq> []
                        then SetOwner_guid w good True (upd_member (pi_SetModerator True) good c2)
                        else (c2, []))
                 in (c3, es1 @ es2 @ [PlayerLeft (pl_guid bad)] @ es3))"

definition Channel_UnBan :: "world \<Rightarrow> u64 \<Rightarrow> string \<Rightarrow> channel \<Rightarrow> channel \<times> effect list" where
  "Channel_UnBan w good badname c =
     (if \<not> IsOn c good then (c, SendToOne w (MakeNotMember c) good)
      else if \<not> pi_IsModerator (member c good) \<and> \<not> IsGMAccount (security_of w good)
      then (c, SendToOne w (MakeNotModerator c) good)
      else case FindPlayerByName w badname of
             None \<Rightarrow> (c, SendToOne w (MakePlayerNotFound c badname) good)
           | Some bad \<Rightarrow>
               if \<not> IsBanned c (pl_guid bad) then (c, SendToOne w (MakePlayerNotFound c badname) good)
               else let c1 = c\<lparr>ch_banned := omap_erase (pl_guid bad) (ch_banned c)\<rparr>
                    in (c1, SendToAll w c1 (MakePlayerUnbanned c1 (pl_guid bad) good) 0 @ UpdateChannelInDB c1))"

definition Channel_Password :: "world \<Rightarrow> u64 \<Rightarrow> string \<Rightarrow> channel \<Rightarrow> channel \<times> effect list" where
  "Channel_Password w p pass c =
     (if \<not> IsOn c p then (c, SendToOne w (MakeNotMember c) p)
      else if \<not> pi_IsModerator (member c p) \<and> \<not> IsGMAccount (security_of w p)
      then (c, SendToOne w (MakeNotModerator c) p)
      else let c1 = c\<lparr>m_password := pass\<rparr>
           in (c1, SendToAll w c1 (MakePasswordChanged c1 p) 0 @ UpdateChannelInDB c1))"

definition Channel_SetMode :: "world \<Rightarrow> u64 \<Rightarrow> string \<Rightarrow> bool \<Rightarrow> bool \<Rightarrow> channel \<Rightarrow> channel \<times> effect list" where
  "Channel_SetMode w p p2n md st c =
     (case FindPlayer w p of
        None \<Rightarrow> (c, [])
      | Some player \<Rightarrow>
          if \<not> IsOn c p then (c, SendToOne w (MakeNotMember c) p)
          else if \<not> pi_IsModerator (member c p) \<and> \<not> IsGMAccount (pl_security player)
          then (c, SendToOne w (MakeNotModerator c) p)
          else case FindPlayerByName w p2n of
                 None \<Rightarrow> (c, SendToOne w (MakePlayerNotFound c p2n) p)
               | Some newp \<Rightarrow>
                   if p = m_ownerGUID c \<and> pl_guid newp = m_ownerGUID c \<and> md then (c, [])
                   else if \<not> IsOn c (pl_guid newp) then (c, SendToOne w (MakePlayerNotFound c p2n) p)
                   else if (\<not> IsGMAccount (pl_security player) \<or> \<not> IsGMAccount (pl_security newp)) \<and>
                           pl_team player \<noteq> pl_team newp \<and> \<not> cfg_two_side_channel w
                   then (c, SendToOne w (MakePlayerNotFound c p2n) p)
                   else if m_ownerGUID c = pl_guid newp \<and> m_ownerGUID c \<noteq> p
                   then (c, SendToOne w (MakeNotOwner c) p)
                   else set_mode_guid w md (pl_guid newp) st c)"

definition Channel_SetOwner :: "world \<Rightarrow> u64 \<Rightarrow> string \<Rightarrow> channel \<Rightarrow> channel \<times> effect list" where
  "Channel_SetOwner w p newname c =
     (case FindPlayer w p of
        None \<Rightarrow> (c, [])
      | Some player \<Rightarrow>
          if \<not> IsOn c p then (c, SendToOne w (MakeNotMember c) p)
          else if \<not> IsGMAccount (pl_security player) \<and> p \<noteq> m_ownerGUID c then (c, SendToOne w (MakeNotOwner c) p)
          else case FindPlayerByName w newname of
                 None \<Rightarrow> (c, SendToOne w (MakePlayerNotFound c newname) p)
               | Some newp \<Rightarrow>
                   if \<not> IsOn c (pl_guid newp) then (c, SendToOne w (MakePlayerNotFound c newname) p)
                   else if pl_team newp \<noteq> pl_team player \<and> \<not> cfg_two_side_channel w
                   then (c, SendToOne w (MakePlayerNotFound c newname) p)
                   else SetOwner_guid w (pl_guid newp) True (upd_member (pi_SetModerator True) (pl_guid newp) c))"

definition Channel_SendWhoOwner :: "world \<Rightarrow> u64 \<Rightarrow> channel \<Rightarrow> effect list" where
  "Channel_SendWhoOwner w p c =
     (if \<not> IsOn c p then SendToOne w (MakeNotMember c) p else SendToOne w (MakeChannelOwner w c) p)"

definition listed :: "world \<Rightarrow> player \<Rightarrow> u64 \<Rightarrow> bool" where
  "listed w player g =
     (case FindPlayer w g of
        None \<Rightarrow> False
      | Some mem \<Rightarrow> (\<not> IsPlayerAccount (pl_security player) \<or> pl_security mem \<le> cfg_gm_in_who w) \<and>
          IsVisibleGloballyFor mem player)"

definition Channel_List :: "world \<Rightarrow> player \<Rightarrow> channel \<Rightarrow> effect list" where
  "Channel_List w player c =
     (let p = pl_guid player in
      if \<not> IsOn c p then SendToOne w (MakeNotMember c) p
      else let shown = filter (\<lambda>i. listed w player (fst i)) (ch_players c);
               pos = 1 + (length (m_name c) + 1) + 1;
               data = wp_add ([Out8 1, OutStr (m_name c), Out8 (m_flags c), Out32 0] @
                        concat (map (\<lambda>i. [Out64 (fst i), Out8 (pi_flags (snd i))]) shown) @
                        [Put32 pos (of_nat (length shown))]) (new_WorldPacket SMSG_CHANNEL_LIST)
           in SendToOne w data p)"

definition Channel_Announce :: "world \<Rightarrow> u64 \<Rightarrow> channel \<Rightarrow> channel \<times> effect list" where
  "Channel_Announce w p c =
     (if \<not> IsOn c p then (c, SendToOne w (MakeNotMember c) p)
      else if \<not> pi_IsModerator (member c p) \<and> \<not> IsGMAccount (security_of w p)
      then (c, SendToOne w (MakeNotModerator c) p)
      else let c1 = c\<lparr>m_announce := \<not> m_announce c\<rparr>
           in (c1, SendToAll w c1 (if m_announce c1 then MakeAnnouncementsOn c1 p else MakeAnnouncementsOff c1 p) 0 @
                   UpdateChannelInDB c1))"

abbreviation CHAT_MSG_CHANNEL :: u8 where "CHAT_MSG_CHANNEL \<equiv> 0x11"
abbreviation LANG_UNIVERSAL :: u32 where "LANG_UNIVERSAL \<equiv> 0"

definition Channel_Say :: "world \<Rightarrow> u64 \<Rightarrow> string option \<Rightarrow> u32 \<Rightarrow> channel \<Rightarrow> effect list" where
  "Channel_Say w p what lang c =
     (case what of
        None \<Rightarrow> []
      | Some text \<Rightarrow>
          if \<not> IsOn c p then SendToOne w (MakeNotMember c) p
          else if pi_IsMuted (member c p) then SendToOne w (MakeMuted c) p
          else
            let lang' = (if cfg_two_side_channel w then LANG_UNIVERSAL else lang);
                messageLength = of_nat (length text) + 1;
                tag = (case FindPlayer w p of None \<Rightarrow> 0 | Some pl \<Rightarrow> GetChatTag pl);
                data = wp_add [Out8 CHAT_MSG_CHANNEL, Out32 lang', Out64 p, Out32 0, OutStr (m_name c), Out64 p,
                               Out32 messageLength, OutCStr (Some text), Out8 tag] (new_WorldPacket SMSG_MESSAGECHAT)
            in SendToAll w c data (if \<not> pi_IsModerator (member c p) then p else 0))"

definition Channel_Invite :: "world \<Rightarrow> u64 \<Rightarrow> string \<Rightarrow> channel \<Rightarrow> effect list" where
  "Channel_Invite w p newname c =
     (if \<not> IsOn c p then SendToOne w (MakeNotMember c) p
      else case FindPlayerByName w newname of
             None \<Rightarrow> SendToOne w (MakePlayerNotFound c newname) p
           | Some newp \<Rightarrow>
               if IsBanned c (pl_guid newp) then SendToOne w (MakePlayerInviteBanned c newname) p
               else case FindPlayer w p of
                      None \<Rightarrow> []
                    | Some player \<Rightarrow>
                        if pl_team newp \<noteq> pl_team player \<and> \<not> cfg_two_side_channel w
                        then SendToOne w (MakeInviteWrongFaction c) p
                        else if IsOn c (pl_guid newp)
                        then SendToOne w (MakePlayerAlreadyMember c (pl_guid newp)) p
                        else (if \<not> HasIgnore (GUID_LOPART p) (GetSocial w newp)
                              then SendToOne w (MakeInvite c p) (pl_guid newp) else []) @
                             SendToOne w (MakePlayerInvited c (pl_name newp)) p)"

section \<open>Specification vocabulary\<close>

text \<open>The commands that can change a channel.  Saying, listing, inviting and asking for the owner only send.\<close>

datatype chan_cmd =
    CJoin u64 string | CLeave u64 bool | CKickOrBan u64 string bool | CUnBan u64 string
  | CPassword u64 string | CSetMode u64 string bool bool | CSetOwner u64 string | CAnnounce u64

fun chan_exec :: "world \<Rightarrow> chan_cmd \<Rightarrow> channel \<Rightarrow> channel \<times> effect list" where
  "chan_exec w (CJoin p pass) c = Channel_Join w p pass c"
| "chan_exec w (CLeave p send) c = Channel_Leave w p send c"
| "chan_exec w (CKickOrBan good bad ban) c = Channel_KickOrBan w good bad ban c"
| "chan_exec w (CUnBan good bad) c = Channel_UnBan w good bad c"
| "chan_exec w (CPassword p pass) c = Channel_Password w p pass c"
| "chan_exec w (CSetMode p n md st) c = Channel_SetMode w p n md st c"
| "chan_exec w (CSetOwner p n) c = Channel_SetOwner w p n c"
| "chan_exec w (CAnnounce p) c = Channel_Announce w p c"

fun cmd_actor :: "chan_cmd \<Rightarrow> u64" where
  "cmd_actor (CJoin p pass) = p"
| "cmd_actor (CLeave p send) = p"
| "cmd_actor (CKickOrBan good bad ban) = good"
| "cmd_actor (CUnBan good bad) = good"
| "cmd_actor (CPassword p pass) = p"
| "cmd_actor (CSetMode p n md st) = p"
| "cmd_actor (CSetOwner p n) = p"
| "cmd_actor (CAnnounce p) = p"

text \<open>A kick or ban aimed at the player who gives it.\<close>

fun self_kick :: "world \<Rightarrow> chan_cmd \<Rightarrow> bool" where
  "self_kick w (CKickOrBan good bad ban) = (\<exists>pl. FindPlayerByName w bad = Some pl \<and> pl_guid pl = good)"
| "self_kick w _ = False"

text \<open>
  The invariant: members are filed under their own guid, which is not 0; only the player named by
  \<^verbatim>\<open>m_ownerGUID\<close> carries the owner flag, and he is a moderator; nobody on the ban list is a member.
\<close>

definition member_ok :: "channel \<Rightarrow> u64 \<Rightarrow> player_info \<Rightarrow> bool" where
  "member_ok c g i =
     (g \<noteq> 0 \<and> pi_player i = g \<and> (pi_IsOwner i \<longrightarrow> g = m_ownerGUID c \<and> pi_IsModerator i) \<and> \<not> IsBanned c g)"

definition chan_ok :: "channel \<Rightarrow> bool" where
  "chan_ok c =
     (omap_ok (ch_players c) \<and> omap_ok (ch_banned c) \<and>
      (\<forall>g i. omap_find (ch_players c) g = Some i \<longrightarrow> member_ok c g i))"

text \<open>A custom channel with ownership that has members has an owner among them.\<close>

definition has_owner :: "channel \<Rightarrow> bool" where
  "has_owner c =
     (\<not> IsConstant c \<and> m_ownership c \<and> ch_players c \<noteq> [] \<longrightarrow>
      (\<exists>i. omap_find (ch_players c) (m_ownerGUID c) = Some i \<and> pi_IsOwner i))"

section \<open>Lemmas\<close>

lemma pi_flag_simps [simp]:
  "pi_IsOwner (pi_SetOwner b i) = b" "pi_IsModerator (pi_SetOwner b i) = pi_IsModerator i"
  "pi_IsMuted (pi_SetOwner b i) = pi_IsMuted i" "pi_player (pi_SetOwner b i) = pi_player i"
  "pi_IsModerator (pi_SetModerator b i) = b" "pi_IsOwner (pi_SetModerator b i) = pi_IsOwner i"
  "pi_IsMuted (pi_SetModerator b i) = pi_IsMuted i" "pi_player (pi_SetModerator b i) = pi_player i"
  "pi_IsMuted (pi_SetMuted b i) = b" "pi_IsOwner (pi_SetMuted b i) = pi_IsOwner i"
  "pi_IsModerator (pi_SetMuted b i) = pi_IsModerator i" "pi_player (pi_SetMuted b i) = pi_player i"
  by (simp_all add: pi_IsOwner_def pi_SetOwner_def pi_IsModerator_def pi_SetModerator_def pi_IsMuted_def
      pi_SetMuted_def flag_bits bit_simps)

lemma IsOn_iff: "IsOn c g \<longleftrightarrow> (\<exists>i. omap_find (ch_players c) g = Some i)"
  by (auto simp: IsOn_def)

lemma chan_okD:
  assumes "chan_ok c"
  shows "omap_ok (ch_players c)" and "omap_ok (ch_banned c)"
    and "omap_find (ch_players c) g = Some i \<Longrightarrow> g \<noteq> 0 \<and> pi_player i = g \<and> \<not> IsBanned c g"
    and "omap_find (ch_players c) g = Some i \<Longrightarrow> pi_IsOwner i \<Longrightarrow> g = m_ownerGUID c \<and> pi_IsModerator i"
  using assms by (auto simp: chan_ok_def member_ok_def)

lemma upd_member_simps [simp]:
  "ch_banned (upd_member f g c) = ch_banned c" "m_ownerGUID (upd_member f g c) = m_ownerGUID c"
  "m_ownership (upd_member f g c) = m_ownership c" "IsConstant (upd_member f g c) = IsConstant c"
  "IsBanned (upd_member f g c) h = IsBanned c h"
  "omap_find (ch_players (upd_member f g c)) h =
     (if h = g then Some (f (member c g)) else omap_find (ch_players c) h)"
  by (simp_all add: upd_member_def IsConstant_def IsBanned_def omap_find_upd)

text \<open>Changing a member in a way that keeps its identity and its right to the owner flag.\<close>

lemma upd_member_ok:
  assumes "chan_ok c" and "omap_find (ch_players c) g = Some i" and "pi_player (f i) = pi_player i"
    and "pi_IsOwner (f i) \<Longrightarrow> g = m_ownerGUID c \<and> pi_IsModerator (f i)"
  shows "chan_ok (upd_member f g c)"
  using assms
  by (auto simp: chan_ok_def member_ok_def omap_at_Some upd_member_def omap_ok_upd omap_find_upd IsBanned_def)

lemma erase_member_ok:
  "chan_ok c \<Longrightarrow> chan_ok (c\<lparr>ch_players := omap_erase g (ch_players c)\<rparr>)"
  by (auto simp: chan_ok_def member_ok_def omap_ok_erase omap_find_erase IsBanned_def)

lemma SetOwner_guid_fields [simp]:
  "ch_banned (fst (SetOwner_guid w g ex c)) = ch_banned c"
  "m_ownership (fst (SetOwner_guid w g ex c)) = m_ownership c"
  "m_ownerGUID (fst (SetOwner_guid w g ex c)) = g"
  "IsConstant (fst (SetOwner_guid w g ex c)) = IsConstant c"
  by (auto simp: SetOwner_guid_def Let_def upd_member_def IsConstant_def split: option.splits)

lemma SetOwner_guid_find:
  assumes "g \<noteq> 0" and "omap_find (ch_players c) g = Some i"
  shows "omap_find (ch_players (fst (SetOwner_guid w g ex c))) h =
    (if h = g then Some (pi_SetOwner True (pi_SetModerator True
        (if g = m_ownerGUID c then pi_SetOwner False i else i)))
     else if h = m_ownerGUID c \<and> h \<noteq> 0 then map_option (pi_SetOwner False) (omap_find (ch_players c) h)
     else omap_find (ch_players c) h)"
  using assms
  by (auto simp: SetOwner_guid_def Let_def omap_find_set upd_member_def omap_find_upd omap_at_upd omap_at_def
      split: option.splits)

lemma SetOwner_guid_ordered:
  "omap_ok (ch_players c) \<Longrightarrow> omap_ok (ch_players (fst (SetOwner_guid w g ex c)))"
  by (auto simp: SetOwner_guid_def Let_def upd_member_def omap_ok_upd omap_ok_set split: option.splits)

text \<open>Handing a channel to one of its members.\<close>

lemma SetOwner_guid_ok:
  assumes ok: "chan_ok c" and g: "omap_find (ch_players c) g = Some i"
  shows "chan_ok (fst (SetOwner_guid w g ex c))" and "has_owner (fst (SetOwner_guid w g ex c))"
proof -
  note D = chan_okD [OF ok]
  have g0: "g \<noteq> 0" using D(3) [OF g] by simp
  note find = SetOwner_guid_find [OF g0 g, of w ex]
  have "member_ok (fst (SetOwner_guid w g ex c)) h j"
    if "omap_find (ch_players (fst (SetOwner_guid w g ex c))) h = Some j" for h j
    using that D(3) [OF g] D(3) [of h] D(4) [of h]
    by (auto simp: find member_ok_def IsBanned_def split: if_splits)
  then show "chan_ok (fst (SetOwner_guid w g ex c))"
    using D(1,2) by (simp add: chan_ok_def SetOwner_guid_ordered)
  show "has_owner (fst (SetOwner_guid w g ex c))" by (auto simp: has_owner_def find)
qed

lemma promote_ok:
  assumes ok: "chan_ok c" and g: "omap_find (ch_players c) g = Some i"
  shows "chan_ok (fst (SetOwner_guid w g ex (upd_member (pi_SetModerator True) g c)))"
    and "has_owner (fst (SetOwner_guid w g ex (upd_member (pi_SetModerator True) g c)))"
proof -
  have "chan_ok (upd_member (pi_SetModerator True) g c)"
    using upd_member_ok [OF ok g, of "pi_SetModerator True"] chan_okD(4) [OF ok g] by simp
  then show "chan_ok (fst (SetOwner_guid w g ex (upd_member (pi_SetModerator True) g c)))"
    and "has_owner (fst (SetOwner_guid w g ex (upd_member (pi_SetModerator True) g c)))"
    using SetOwner_guid_ok by simp_all
qed

text \<open>What a join leaves behind: the channel itself, or the channel with the new member, promoted when it had no owner.\<close>

lemma Channel_Join_cases:
  obtains "fst (Channel_Join w p pass c) = c"
  | c1 where "\<not> IsOn c p" "\<not> IsBanned c p"
      "c1 = c\<lparr>ch_players := omap_set p \<lparr>pi_player = p, pi_flags = 0\<rparr> (ch_players c)\<rparr>"
      "fst (Channel_Join w p pass c) =
         (if \<not> IsConstant c1 \<and> m_ownerGUID c1 = 0 \<and> m_ownership c1
          then upd_member (pi_SetModerator True) p (fst (SetOwner_guid w p (1 < length (ch_players c1)) c1)) else c1)"
proof -
  let ?c1 = "c\<lparr>ch_players := omap_set p \<lparr>pi_player = p, pi_flags = 0\<rparr> (ch_players c)\<rparr>"
  have "fst (Channel_Join w p pass c) = c \<or> \<not> IsOn c p \<and> \<not> IsBanned c p \<and>
      fst (Channel_Join w p pass c) =
         (if \<not> IsConstant ?c1 \<and> m_ownerGUID ?c1 = 0 \<and> m_ownership ?c1
          then upd_member (pi_SetModerator True) p (fst (SetOwner_guid w p (1 < length (ch_players ?c1)) ?c1)) else ?c1)"
    by (simp add: Channel_Join_def Let_def case_prod_unfold split: option.split)
  with that show thesis by blast
qed

lemma joined_member_ok:
  assumes "chan_ok c" and "p \<noteq> 0" and "\<not> IsBanned c p"
  shows "chan_ok (c\<lparr>ch_players := omap_set p \<lparr>pi_player = p, pi_flags = 0\<rparr> (ch_players c)\<rparr>)"
  using assms by (auto simp: chan_ok_def member_ok_def omap_laws IsBanned_def pi_IsOwner_def)

lemma Channel_Join_ok:
  assumes ok: "chan_ok c" and "p \<noteq> 0"
  shows "chan_ok (fst (Channel_Join w p pass c))"
    and "has_owner c \<Longrightarrow> (ch_players c = [] \<Longrightarrow> m_ownerGUID c = 0) \<Longrightarrow> has_owner (fst (Channel_Join w p pass c))"
proof -
  let ?J = "fst (Channel_Join w p pass c)"
  have "chan_ok ?J \<and> (has_owner c \<longrightarrow> (ch_players c = [] \<longrightarrow> m_ownerGUID c = 0) \<longrightarrow> has_owner ?J)"
  proof (rule Channel_Join_cases [of w p pass c])
    assume "?J = c"
    with ok show ?thesis by simp
  next
    fix c1
    assume new: "\<not> IsOn c p" "\<not> IsBanned c p"
      and c1: "c1 = c\<lparr>ch_players := omap_set p \<lparr>pi_player = p, pi_flags = 0\<rparr> (ch_players c)\<rparr>"
      and J: "?J = (if \<not> IsConstant c1 \<and> m_ownerGUID c1 = 0 \<and> m_ownership c1
          then upd_member (pi_SetModerator True) p (fst (SetOwner_guid w p (1 < length (ch_players c1)) c1)) else c1)"
    have ok1: "chan_ok c1" unfolding c1 using ok \<open>p \<noteq> 0\<close> new(2) by (rule joined_member_ok)
    have p1: "omap_find (ch_players c1) p = Some \<lparr>pi_player = p, pi_flags = 0\<rparr>" by (simp add: c1 omap_find_set)
    let ?c2 = "fst (SetOwner_guid w p (1 < length (ch_players c1)) c1)"
    have ok2: "chan_ok ?c2" by (rule SetOwner_guid_ok [OF ok1 p1])
    have p2: "omap_find (ch_players ?c2) p \<noteq> None" using SetOwner_guid_find [OF \<open>p \<noteq> 0\<close> p1] by simp
    then obtain i where i: "omap_find (ch_players ?c2) p = Some i" by blast
    have "chan_ok (upd_member (pi_SetModerator True) p ?c2)"
      using upd_member_ok [OF ok2 i, of "pi_SetModerator True"] chan_okD(4) [OF ok2 i] by simp
    moreover have "has_owner (upd_member (pi_SetModerator True) p ?c2)"
      using SetOwner_guid_ok(2) [OF ok1 p1] SetOwner_guid_find [OF \<open>p \<noteq> 0\<close> p1]
      by (auto simp: has_owner_def omap_at_def)
    moreover have "has_owner c1"
      if "has_owner c" and "ch_players c = [] \<longrightarrow> m_ownerGUID c = 0"
        and "\<not> (\<not> IsConstant c1 \<and> m_ownerGUID c1 = 0 \<and> m_ownership c1)"
      using that new(1) by (auto simp: has_owner_def c1 omap_find_set IsOn_def IsConstant_def)
    ultimately show ?thesis using ok1 J by auto
  qed
  then show "chan_ok ?J" and "has_owner c \<Longrightarrow> (ch_players c = [] \<Longrightarrow> m_ownerGUID c = 0) \<Longrightarrow> has_owner ?J"
    by blast+
qed

lemma hd_member:
  assumes "chan_ok c" and "ch_players c \<noteq> []"
  shows "\<exists>i. omap_find (ch_players c) (pi_player (snd (hd (ch_players c)))) = Some i"
proof -
  have "hd (ch_players c) \<in> set (ch_players c)" using assms(2) by simp
  then have "omap_find (ch_players c) (fst (hd (ch_players c))) = Some (snd (hd (ch_players c)))"
    using chan_okD(1) [OF assms(1)] by (simp add: omap_ok_distinct)
  then show ?thesis using chan_okD(3) [OF assms(1)] by auto
qed

lemma Channel_Leave_ok:
  assumes ok: "chan_ok c"
  shows "chan_ok (fst (Channel_Leave w p send c))" and "has_owner c \<Longrightarrow> has_owner (fst (Channel_Leave w p send c))"
proof -
  let ?c1 = "c\<lparr>ch_players := omap_erase p (ch_players c)\<rparr>"
  let ?n = "pi_player (snd (hd (ch_players ?c1)))"
  let ?c2 = "fst (SetOwner_guid w ?n True (upd_member (pi_SetModerator True) ?n ?c1))"
  have L: "fst (Channel_Leave w p send c) =
      (if \<not> IsOn c p then c
       else if \<not> IsConstant ?c1 \<and> pi_IsOwner (member c p) \<and> m_ownership ?c1 \<and> ch_players ?c1 \<noteq> [] then ?c2 else ?c1)"
    by (simp add: Channel_Leave_def Let_def case_prod_unfold)
  have ok1: "chan_ok ?c1" using ok by (rule erase_member_ok)
  have ok2: "chan_ok ?c2" "has_owner ?c2" if "ch_players ?c1 \<noteq> []"
    using hd_member [OF ok1 that] promote_ok [OF ok1] by blast+
  show "chan_ok (fst (Channel_Leave w p send c))" using L ok ok1 ok2 by auto
  have "has_owner ?c1" if "has_owner c" and "IsOn c p"
    and "\<not> (\<not> IsConstant ?c1 \<and> pi_IsOwner (member c p) \<and> m_ownership ?c1 \<and> ch_players ?c1 \<noteq> [])"
    using that
    by (auto simp: has_owner_def omap_find_erase IsConstant_def IsOn_def omap_at_def)
  then show "has_owner (fst (Channel_Leave w p send c))" if "has_owner c" using that L ok2 by auto
qed

text \<open>The channel after \<open>b\<close> has been thrown out, before and after the ownership has been passed on.\<close>

definition thrown_out :: "player \<Rightarrow> bool \<Rightarrow> channel \<Rightarrow> channel" where
  "thrown_out b ban c =
     (let c1 = (if ban \<and> \<not> IsBanned c (pl_guid b)
                then c\<lparr>ch_banned := omap_set (pl_guid b) () (ch_banned c)\<rparr> else c)
      in c1\<lparr>ch_players := omap_erase (pl_guid b) (ch_players c1)\<rparr>)"

definition after_kick :: "world \<Rightarrow> u64 \<Rightarrow> player \<Rightarrow> bool \<Rightarrow> channel \<Rightarrow> channel" where
  "after_kick w good b ban c =
     (let d = thrown_out b ban c
      in if m_ownerGUID c = pl_guid b \<and> m_ownership d \<and> ch_players d \<noteq> []
         then fst (SetOwner_guid w good True (upd_member (pi_SetModerator True) good d)) else d)"

lemma thrown_out_fields [simp]:
  "ch_players (thrown_out b ban c) = omap_erase (pl_guid b) (ch_players c)"
  "m_ownerGUID (thrown_out b ban c) = m_ownerGUID c" "m_ownership (thrown_out b ban c) = m_ownership c"
  "IsConstant (thrown_out b ban c) = IsConstant c"
  by (simp_all add: thrown_out_def Let_def IsConstant_def)

lemma Channel_KickOrBan_fst:
  "fst (Channel_KickOrBan w good badname ban c) =
     (if \<not> IsOn c good \<or> \<not> pi_IsModerator (member c good) \<and> \<not> IsGMAccount (security_of w good) then c
      else case FindPlayerByName w badname of
             None \<Rightarrow> c
           | Some b \<Rightarrow>
               if \<not> IsOn c (pl_guid b) \<or>
                  \<not> IsGMAccount (security_of w good) \<and> pl_guid b = m_ownerGUID c \<and> good \<noteq> m_ownerGUID c
               then c else after_kick w good b ban c)"
  unfolding Channel_KickOrBan_def Let_def thrown_out_def [symmetric, unfolded Let_def] after_kick_def
  by (cases "FindPlayerByName w badname"; simp only: option.case case_prod_unfold if_distrib [of fst] fst_conv)
    (auto simp del: thrown_out_fields)

lemma thrown_out_ok:
  assumes "chan_ok c"
  shows "chan_ok (thrown_out b ban c)"
proof -
  note D = chan_okD [OF assms]
  have "member_ok (thrown_out b ban c) g i" if "omap_find (ch_players (thrown_out b ban c)) g = Some i" for g i
    using that D(3) [of g i] D(4) [of g i]
    by (auto simp: thrown_out_def Let_def member_ok_def IsBanned_def omap_laws split: if_splits)
  then show ?thesis using D(1,2) by (simp add: chan_ok_def omap_laws) (simp add: thrown_out_def Let_def omap_laws)
qed

lemma after_kick_ok:
  assumes ok: "chan_ok c" and other: "pl_guid b \<noteq> good" and on: "IsOn c good"
  shows "chan_ok (after_kick w good b ban c)" and "has_owner c \<Longrightarrow> has_owner (after_kick w good b ban c)"
    and "ch_players (after_kick w good b ban c) \<noteq> []"
proof -
  let ?d = "thrown_out b ban c"
  have okd: "chan_ok ?d" using ok by (rule thrown_out_ok)
  from on other obtain i where i: "omap_find (ch_players ?d) good = Some i"
    by (auto simp: IsOn_def omap_find_erase)
  then have ne: "ch_players ?d \<noteq> []" by auto
  show "chan_ok (after_kick w good b ban c)"
    using okd promote_ok(1) [OF okd i] by (simp add: after_kick_def Let_def)
  have "has_owner ?d" if "has_owner c" and "\<not> (m_ownerGUID c = pl_guid b \<and> m_ownership c)"
    using that on by (auto simp: has_owner_def omap_find_erase IsOn_def)
  then show "has_owner (after_kick w good b ban c)" if "has_owner c"
    using that ne promote_ok(2) [OF okd i] by (auto simp: after_kick_def Let_def)
  have g0: "good \<noteq> 0" using chan_okD(3) [OF okd i] by simp
  have "omap_find (ch_players (after_kick w good b ban c)) good \<noteq> None"
    using i SetOwner_guid_find [OF g0, of "upd_member (pi_SetModerator True) good ?d"]
    by (auto simp: after_kick_def Let_def)
  then show "ch_players (after_kick w good b ban c) \<noteq> []" by auto
qed

lemma Channel_KickOrBan_ok:
  assumes ok: "chan_ok c" and other: "\<not> self_kick w (CKickOrBan good bad ban)"
  shows "chan_ok (fst (Channel_KickOrBan w good bad ban c))"
    and "has_owner c \<Longrightarrow> has_owner (fst (Channel_KickOrBan w good bad ban c))"
    and "ch_players (fst (Channel_KickOrBan w good bad ban c)) = [] \<Longrightarrow> fst (Channel_KickOrBan w good bad ban c) = c"
  using ok other after_kick_ok [OF ok, of _ good w ban]
  by (auto simp: Channel_KickOrBan_fst split: option.splits)

lemma set_mode_guid_ok:
  assumes ok: "chan_ok c" and g: "omap_find (ch_players c) g = Some i"
    and "md \<Longrightarrow> \<not> st \<Longrightarrow> g \<noteq> m_ownerGUID c"
  shows "chan_ok (fst (set_mode_guid w md g st c))" and "has_owner c \<Longrightarrow> has_owner (fst (set_mode_guid w md g st c))"
    and "ch_players (fst (set_mode_guid w md g st c)) \<noteq> []"
proof -
  have owner: "pi_IsOwner i \<Longrightarrow> g = m_ownerGUID c \<and> pi_IsModerator i" using chan_okD(4) [OF ok g] .
  have "\<exists>f. fst (set_mode_guid w md g st c) = upd_member f g c \<and> pi_player (f i) = pi_player i \<and>
      (pi_IsOwner (f i) = pi_IsOwner i) \<and> (pi_IsOwner i \<longrightarrow> pi_IsModerator (f i))"
    using owner assms(3)
    by (cases md) (auto simp: set_mode_guid_def Let_def intro: exI [of _ "pi_SetModerator st"]
        exI [of _ "pi_SetMuted st"] exI [of _ "\<lambda>i. i"])
  then obtain f where f: "fst (set_mode_guid w md g st c) = upd_member f g c" "pi_player (f i) = pi_player i"
    "pi_IsOwner (f i) = pi_IsOwner i" "pi_IsOwner i \<Longrightarrow> pi_IsModerator (f i)" by blast
  show "chan_ok (fst (set_mode_guid w md g st c))"
    unfolding f(1) using upd_member_ok [OF ok g] f owner by blast
  have "omap_find (ch_players (upd_member f g c)) g \<noteq> None" by simp
  then show ne: "ch_players (fst (set_mode_guid w md g st c)) \<noteq> []"
    unfolding f(1) by (metis map_of.simps(1))
  show "has_owner (fst (set_mode_guid w md g st c))" if "has_owner c"
    using that g f(3) unfolding f(1) by (auto simp: has_owner_def omap_at_Some)
qed

lemma same_members_ok:
  assumes "chan_ok c" and "ch_players c' = ch_players c" and "m_ownerGUID c' = m_ownerGUID c"
    and "m_ownership c' = m_ownership c" and "m_channelId c' = m_channelId c" and "omap_ok (ch_banned c')"
    and "\<And>g. IsBanned c' g \<Longrightarrow> IsBanned c g"
  shows "chan_ok c'" and "has_owner c \<Longrightarrow> has_owner c'"
  using assms unfolding chan_ok_def member_ok_def has_owner_def IsConstant_def by auto

lemma Channel_UnBan_fst:
  "fst (Channel_UnBan w good bad c) \<in> {c} \<union> (\<lambda>g. c\<lparr>ch_banned := omap_erase g (ch_banned c)\<rparr>) ` UNIV"
  by (simp add: Channel_UnBan_def Let_def split: option.split)

lemma Channel_Password_fst: "fst (Channel_Password w p pass c) \<in> {c, c\<lparr>m_password := pass\<rparr>}"
  by (simp add: Channel_Password_def Let_def)

lemma Channel_Announce_fst: "fst (Channel_Announce w p c) \<in> {c, c\<lparr>m_announce := \<not> m_announce c\<rparr>}"
  by (simp add: Channel_Announce_def Let_def)

lemma Channel_SetMode_fst:
  "fst (Channel_SetMode w p n md st c) = c \<or>
   (\<exists>g i. fst (Channel_SetMode w p n md st c) = fst (set_mode_guid w md g st c) \<and>
      omap_find (ch_players c) g = Some i \<and> (md \<longrightarrow> g \<noteq> m_ownerGUID c))"
  by (auto simp: Channel_SetMode_def IsOn_def split: option.split)

lemma Channel_SetOwner_fst:
  "fst (Channel_SetOwner w p n c) = c \<or>
   (\<exists>g i. fst (Channel_SetOwner w p n c) = fst (SetOwner_guid w g True (upd_member (pi_SetModerator True) g c)) \<and>
      omap_find (ch_players c) g = Some i)"
  by (auto simp: Channel_SetOwner_def IsOn_def split: option.split)

text \<open>Every command keeps the invariant and the ownership rule.\<close>

definition keeps :: "channel \<Rightarrow> channel \<Rightarrow> bool" where
  "keeps c c' = (chan_ok c' \<and> (has_owner c \<and> (ch_players c = [] \<longrightarrow> m_ownerGUID c = 0) \<longrightarrow> has_owner c'))"

lemma keeps_self: "chan_ok c \<Longrightarrow> keeps c c"
  by (simp add: keeps_def)

lemma keeps_same_members:
  assumes "chan_ok c" and "ch_players c' = ch_players c" and "m_ownerGUID c' = m_ownerGUID c"
    and "m_ownership c' = m_ownership c" and "m_channelId c' = m_channelId c" and "omap_ok (ch_banned c')"
    and "\<And>g. IsBanned c' g \<Longrightarrow> IsBanned c g"
  shows "keeps c c'"
  using same_members_ok [OF assms] by (simp add: keeps_def)

lemma keeps_settings:
  assumes "chan_ok c"
  shows "keeps c (c\<lparr>ch_banned := omap_erase g (ch_banned c)\<rparr>)" and "keeps c (c\<lparr>m_password := pass\<rparr>)"
    and "keeps c (c\<lparr>m_announce := b\<rparr>)"
  by (rule keeps_same_members [OF assms];
      simp add: chan_okD(2) [OF assms] omap_ok_erase IsBanned_def omap_find_erase split: if_splits)+

lemma chan_exec_keeps:
  assumes ok: "chan_ok c" and "cmd_actor cmd \<noteq> 0" and "\<not> self_kick w cmd"
  shows "keeps c (fst (chan_exec w cmd c))"
proof (cases cmd)
  case (CJoin p pass)
  with assms Channel_Join_ok [OF ok, of p w pass] show ?thesis by (simp add: keeps_def)
next
  case (CLeave p send)
  with Channel_Leave_ok [OF ok] show ?thesis by (simp add: keeps_def)
next
  case (CKickOrBan good bad ban)
  with assms Channel_KickOrBan_ok(1,2) [OF ok, of w good bad ban] show ?thesis by (simp add: keeps_def)
next
  case (CUnBan good bad)
  with Channel_UnBan_fst [of w good bad c] keeps_self [OF ok] keeps_settings [OF ok] show ?thesis by auto
next
  case (CPassword p pass)
  with Channel_Password_fst [of w p pass c] keeps_self [OF ok] keeps_settings [OF ok] show ?thesis by auto
next
  case (CSetMode p n md st)
  with Channel_SetMode_fst [of w p n md st c] keeps_self [OF ok] set_mode_guid_ok(1,2) [OF ok, of _ _ md st w]
  show ?thesis by (auto simp: keeps_def)
next
  case (CSetOwner p n)
  with Channel_SetOwner_fst [of w p n c] keeps_self [OF ok] promote_ok [OF ok, of _ _ w True]
  show ?thesis by (auto simp: keeps_def)
next
  case (CAnnounce p)
  with Channel_Announce_fst [of w p c] keeps_self [OF ok] keeps_settings [OF ok] show ?thesis by auto
qed

subsection \<open>The ban list as text\<close>

lemma fold_store_sorted:
  "omap_ok (map (\<lambda>g. (g, ())) gs) \<Longrightarrow> \<forall>e \<in> set b. \<forall>g \<in> set gs. fst e < g \<Longrightarrow>
   fold (\<lambda>g b. omap_set g () b) gs b = b @ map (\<lambda>g. (g, ())) gs"
proof (induction gs arbitrary: b)
  case (Cons g gs)
  have "omap_set g () b = b @ [(g, ())]" using Cons.prems(2)
    by (induction g "()" b rule: omap_set.induct) auto
  moreover have "fold (\<lambda>g b. omap_set g () b) gs (b @ [(g, ())]) = (b @ [(g, ())]) @ map (\<lambda>g. (g, ())) gs"
    using Cons.prems by (intro Cons.IH) (auto simp: omap_ok_def)
  ultimately show ?case by simp
qed simp

lemma atol_dec_string:
  assumes "n < 2 ^ 63"
  shows "atol (dec_string n) = int n"
proof -
  let ?s = "dec_string n"
  have digits: "\<forall>c \<in> set ?s. isdigit c" and ne: "?s \<noteq> []" by (rule dec_string_digits, rule dec_string_not_Nil)
  then have hd: "isdigit (hd ?s)" by simp
  then have "\<not> isspace (hd ?s)" and "hd ?s \<noteq> CHR ''-''" and "hd ?s \<noteq> CHR ''+''"
    by (auto simp: isdigit_def isspace_def)
  moreover from this(1) ne have "dropWhile isspace ?s = ?s" by (cases ?s) auto
  moreover have "atol_digits ?s = n"
  proof -
    have tw: "takeWhile isdigit ?s = ?s" using digits by (simp add: takeWhile_eq_all_conv)
    show ?thesis unfolding atol_digits_def tw using dec_string_value [where ?'a = nat, of n] by simp
  qed
  ultimately show ?thesis using assms by (simp add: atol_def Let_def)
qed

lemma banlist_tokens:
  "Tokens (banlist_string b) CHR '' '' = map (\<lambda>e. dec_string (unat (fst e))) b"
proof -
  let ?ts = "map (\<lambda>e. dec_string (unat (fst e))) b"
  have "\<forall>t \<in> set ?ts. CHR '' '' \<notin> set t \<and> CHR 0x00 \<notin> set t"
    using dec_string_digits by (fastforce simp: isdigit_def)
  from Tokens_fields [OF this] show ?thesis
    by (simp add: Tokens_def banlist_string_def comp_def)
qed

lemma fold_load_ok:
  "omap_ok b \<Longrightarrow>
   omap_ok (fold (\<lambda>tok b. let g = word_of_int (atol tok) in if g \<noteq> 0 then omap_set g () b else b) ts (b :: (u64, unit) omap))"
  by (induction ts arbitrary: b) (simp_all add: Let_def omap_ok_set)

lemma load_banlist_ok: "omap_ok (load_banlist s)"
  by (simp add: load_banlist_def fold_load_ok)

lemma new_Channel_ok:
  "chan_ok (fst (new_Channel store row w name ch team))"
  "ch_players (fst (new_Channel store row w name ch team)) = []"
  "m_ownerGUID (fst (new_Channel store row w name ch team)) = 0"
  by (auto simp: new_Channel_def Let_def chan_ok_def load_banlist_ok split: option.split)

text \<open>The channels a server can reach, while the world around them changes freely.\<close>

inductive reachable :: "channel \<Rightarrow> bool" where
  created: "reachable (fst (new_Channel store row w name ch team))"
| command: "reachable c \<Longrightarrow> cmd_actor cmd \<noteq> 0 \<Longrightarrow> \<not> self_kick w cmd \<Longrightarrow> reachable (fst (chan_exec w cmd c))"

lemma reachable_ok: "reachable c \<Longrightarrow> chan_ok c"
proof (induction rule: reachable.induct)
  case created
  show ?case by (rule new_Channel_ok)
next
  case (command c cmd w)
  with chan_exec_keeps show ?case by (simp add: keeps_def)
qed

subsection \<open>Who gets what\<close>

text \<open>The \<^verbatim>\<open>ObjectAccessor\<close> files players under their guid.\<close>

definition world_keyed :: "world \<Rightarrow> bool" where
  "world_keyed w = (\<forall>g x. FindPlayer w g = Some x \<longrightarrow> pl_guid x = g)"

lemma SendToOne_only: "world_keyed w \<Longrightarrow> e \<in> set (SendToOne w data p) \<Longrightarrow> e = Send p data"
  by (cases "FindPlayer w p") (simp_all add: SendToOne_def world_keyed_def)

lemma sent_to_one: "world_keyed w \<Longrightarrow>
  sent_to g (SendToOne w data p) = (if g = p \<and> FindPlayer w p \<noteq> None then [data] else [])"
  by (cases "FindPlayer w p") (auto simp: SendToOne_def world_keyed_def)

lemma sent_to_members:
  assumes w: "world_keyed w" and "distinct (map fst m)"
  shows "sent_to g (concat (map (\<lambda>i. case FindPlayer w (fst i) of None \<Rightarrow> []
      | Some player \<Rightarrow> if Q player then [Send (pl_guid player) data] else []) m)) =
    (case FindPlayer w g of None \<Rightarrow> [] | Some player \<Rightarrow> if g \<in> fst ` set m \<and> Q player then [data] else [])"
  using assms(2)
proof (induction m)
  case Nil
  then show ?case by (simp split: option.split)
next
  case (Cons i m)
  have one: "sent_to g (case FindPlayer w (fst i) of None \<Rightarrow> []
      | Some player \<Rightarrow> if Q player then [Send (pl_guid player) data] else []) =
    (case FindPlayer w g of None \<Rightarrow> [] | Some player \<Rightarrow> if g = fst i \<and> Q player then [data] else [])"
    using w by (cases "FindPlayer w (fst i)"; cases "FindPlayer w g") (auto simp: world_keyed_def)
  from Cons have "sent_to g (concat (map (\<lambda>i. case FindPlayer w (fst i) of None \<Rightarrow> []
      | Some player \<Rightarrow> if Q player then [Send (pl_guid player) data] else []) m)) =
    (case FindPlayer w g of None \<Rightarrow> [] | Some player \<Rightarrow> if g \<in> fst ` set m \<and> Q player then [data] else [])" by simp
  with one Cons.prems show ?case
    by (simp only: list.map concat.simps sent_to_append) (auto split: option.split)
qed

lemma sent_to_all:
  assumes "world_keyed w" and "omap_ok (ch_players c)"
  shows "sent_to g (SendToAll w c data p) =
    (case FindPlayer w g of None \<Rightarrow> [] | Some player \<Rightarrow>
       if IsOn c g \<and> (p = 0 \<or> \<not> HasIgnore (GUID_LOPART p) (GetSocial w player)) then [data] else [])"
proof -
  have "IsOn c g \<longleftrightarrow> g \<in> fst ` set (ch_players c)" by (simp add: IsOn_def omap_find_None_iff)
  with sent_to_members [OF assms(1) omap_ok_distinct [OF assms(2)], of g] show ?thesis
    by (simp add: SendToAll_def cong: option.case_cong)
qed

lemma refusal_effects: "world_keyed w \<Longrightarrow> e \<in> set (SendToOne w data p) \<Longrightarrow> \<exists>pkt. e = Send p pkt"
  by (blast dest: SendToOne_only)

section \<open>Properties\<close>

text \<open>
  C4. In every channel that the constructor and any sequence of commands can produce in which nobody kicks or bans
  himself: members are filed under their own guid, at most the player named as owner
  carries the owner flag and he is then a moderator, and no banned player is a member.  The condition
  is needed: an owner who bans himself is put back on the channel, banned and filed under guid 0 (\<open>owner_self_kick_readds\<close>).
\<close>

theorem channel_invariant:
  assumes "reachable c" and "omap_find (ch_players c) g = Some i"
  shows "pi_player i = g \<and> g \<noteq> 0 \<and> (pi_IsOwner i \<longrightarrow> g = m_ownerGUID c \<and> pi_IsModerator i) \<and> \<not> IsBanned c g"
  using reachable_ok [OF assms(1)] assms(2) by (simp add: chan_ok_def member_ok_def)

theorem channel_invariant_witness:
  "\<exists>i. omap_find (ch_players (fst (chan_exec (example_world [] []) (CJoin 7 [])
         (fst (new_Channel (\<lambda>_. None) None (example_world [] []) ''Ork'' 0 67))))) 7 = Some i \<and>
     pi_player i = 7 \<and> pi_IsModerator i"
proof -
  let ?w = "example_world [] []"
  let ?c = "fst (chan_exec ?w (CJoin 7 []) (fst (new_Channel (\<lambda>_. None) None ?w ''Ork'' 0 67)))"
  have "reachable ?c" by (intro reachable.intros) simp_all
  moreover have "\<exists>i. omap_find (ch_players ?c) 7 = Some i \<and> pi_IsOwner i"
    by (simp add: new_Channel_def Channel_Join_def Let_def IsOn_def IsBanned_def IsConstant_def example_world_def
        FindPlayer_def SetOwner_guid_def upd_member_def omap_upd_def omap_at_def)
  ultimately show ?thesis using channel_invariant [of ?c 7] by blast
qed

text \<open>
  The ban list survives its trip through the database: what \<^verbatim>\<open>UpdateChannelInDB\<close> writes, the constructor
  reads back, for guids between 1 and \<open>2\<^sup>6\<^sup>3 - 1\<close>.
\<close>

theorem banlist_roundtrip:
  assumes "omap_ok b" and "\<forall>e \<in> set b. 0 < fst e \<and> unat (fst e) < 2 ^ 63"
  shows "load_banlist (banlist_string b) = b"
proof -
  have gs: "map (\<lambda>g. (g, ())) (map fst b) = b" by (induction b) auto
  have "fold (\<lambda>tok b. let g = word_of_int (atol tok) in if g \<noteq> 0 then omap_set g () b else b)
      (map (\<lambda>e. dec_string (unat (fst e))) b) b0 = fold (\<lambda>g b. omap_set g () b) (map fst b) b0" for b0 :: "(u64, unit) omap"
    using assms(2) by (induction b arbitrary: b0) (auto simp: atol_dec_string Let_def)
  then show ?thesis
    using fold_store_sorted [of "map fst b" "[]", unfolded gs] assms(1)
    by (simp add: load_banlist_def banlist_tokens)
qed

theorem banlist_roundtrip_witness: "load_banlist (banlist_string [(3, ()), (4711, ())]) = [(3, ()), (4711, ())]"
proof -
  have "omap_ok [(3 :: u64, ()), (4711, ())]" by (simp add: omap_ok_def)
  from banlist_roundtrip [OF this] show ?thesis by simp
qed

text \<open>
  C6. Only moderators, the owner and game masters can change a channel other than by joining or
  leaving it: any other command of anybody else leaves the channel as it is, and the only effect is at
  most a packet to the player who tried.
\<close>

theorem unprivileged_command_refused:
  assumes "world_keyed w" and "\<not> IsGMAccount (security_of w (cmd_actor cmd))"
    and "\<not> IsOn c (cmd_actor cmd) \<or> \<not> pi_IsModerator (member c (cmd_actor cmd)) \<and> cmd_actor cmd \<noteq> m_ownerGUID c"
    and "\<forall>p pass. cmd \<noteq> CJoin p pass" and "\<forall>p send. cmd \<noteq> CLeave p send"
  shows "fst (chan_exec w cmd c) = c \<and> (\<forall>e \<in> set (snd (chan_exec w cmd c)). \<exists>pkt. e = Send (cmd_actor cmd) pkt)"
  using assms refusal_effects [OF assms(1)]
  by (cases cmd)
    (auto simp: Channel_KickOrBan_def Channel_UnBan_def Channel_Password_def Channel_SetMode_def
       Channel_SetOwner_def Channel_Announce_def security_of_def Let_def split: option.splits)

theorem unprivileged_command_refused_witness:
  "fst (chan_exec (example_world [] []) (CPassword 5 ''x'')
     (fst (new_Channel (\<lambda>_. None) None (example_world [] []) ''Ork'' 0 67))) =
   fst (new_Channel (\<lambda>_. None) None (example_world [] []) ''Ork'' 0 67)"
proof -
  let ?w = "example_world [] []"
  let ?c = "fst (new_Channel (\<lambda>_. None) None ?w ''Ork'' 0 67)"
  have "world_keyed ?w" by (simp add: world_keyed_def FindPlayer_def example_world_def)
  moreover have "\<not> IsGMAccount (security_of ?w (cmd_actor (CPassword 5 ''x'')))"
    by (simp add: security_of_def FindPlayer_def example_world_def IsGMAccount_def)
  moreover have "\<not> IsOn ?c 5" by (simp add: IsOn_def new_Channel_ok)
  ultimately show ?thesis using unprivileged_command_refused [of ?w "CPassword 5 ''x''" ?c] by simp
qed

text \<open>
  C12. A player on the ban list, or one without the right password, does not get into a channel: the
  join leaves the channel unchanged and tells nobody but the player.
\<close>

theorem join_refused:
  assumes "world_keyed w" and "\<not> IsOn c p" and "IsBanned c p \<or> m_password c \<noteq> [] \<and> pass \<noteq> m_password c"
  shows "fst (Channel_Join w p pass c) = c \<and> \<not> IsOn (fst (Channel_Join w p pass c)) p \<and>
    (\<forall>e \<in> set (snd (Channel_Join w p pass c)). e = Send p (MakeBanned c) \<or> e = Send p (MakeWrongPassword c))"
  using assms SendToOne_only [OF assms(1)] by (auto simp: Channel_Join_def)

theorem join_refused_witness:
  "fst (Channel_Join (example_world [] []) 9 ''guess''
     ((fst (new_Channel (\<lambda>_. None) None (example_world [] []) ''Ork'' 0 67))\<lparr>m_password := ''secret''\<rparr>)) =
   (fst (new_Channel (\<lambda>_. None) None (example_world [] []) ''Ork'' 0 67))\<lparr>m_password := ''secret''\<rparr>"
proof -
  let ?w = "example_world [] []"
  let ?c = "(fst (new_Channel (\<lambda>_. None) None ?w ''Ork'' 0 67))\<lparr>m_password := ''secret''\<rparr>"
  have "world_keyed ?w" by (simp add: world_keyed_def FindPlayer_def example_world_def)
  moreover have "\<not> IsOn ?c 9" by (simp add: IsOn_def new_Channel_ok)
  ultimately show ?thesis using join_refused [of ?w ?c 9 "''guess''"] by simp
qed

definition example_channel :: channel where
  "example_channel =
     \<lparr>ch_players = [(1, \<lparr>pi_player = 1, pi_flags = 3\<rparr>), (2, \<lparr>pi_player = 2, pi_flags = 0\<rparr>)], ch_banned = [],
      m_announce = True, m_ownership = True, m_name = ''Ork'', m_password = [], m_flags = 1, m_channelId = 0,
      m_ownerGUID = 1, m_IsSaved = False, m_Team = 67\<rparr>"

lemma example_channel_ok: "chan_ok example_channel" "has_owner example_channel"
  by (auto simp: chan_ok_def has_owner_def member_ok_def example_channel_def omap_ok_def IsBanned_def pi_IsOwner_def
      pi_IsModerator_def split: if_splits)

text \<open>
  C7. A message of a member who is not muted reaches exactly the members who are online and do not ignore the
  speaker, each exactly once; the message of a moderator also reaches the members who ignore him.  A player who is
  muted or not on the channel reaches nobody: only he gets a notice.
\<close>

theorem message_recipients:
  assumes "world_keyed w" and "chan_ok c"
  shows "length (sent_to g (Channel_Say w p (Some text) lang c)) =
    (if IsOn c p \<and> \<not> pi_IsMuted (member c p)
     then (case FindPlayer w g of None \<Rightarrow> 0 | Some player \<Rightarrow>
             if IsOn c g \<and> (pi_IsModerator (member c p) \<or> \<not> HasIgnore (GUID_LOPART p) (GetSocial w player)) then 1 else 0)
     else if g = p \<and> FindPlayer w p \<noteq> None then 1 else 0)"
proof (cases "IsOn c p \<and> \<not> pi_IsMuted (member c p)")
  case True
  then have "p \<noteq> 0" using chan_okD(3) [OF assms(2), of p] by (auto simp: IsOn_def)
  with True show ?thesis
    using sent_to_all [OF assms(1) chan_okD(1) [OF assms(2)]]
    by (auto simp: Channel_Say_def Let_def split: option.split)
next
  case False
  then show ?thesis by (auto simp: Channel_Say_def sent_to_one [OF assms(1)])
qed

theorem message_recipients_witness:
  "let w = example_world [example_player 1 ''Bob'' 0, example_player 2 ''Al'' 0] []; say = Channel_Say w 2 (Some ''hi'') 7 example_channel
   in length (sent_to 1 say) = 1 \<and> length (sent_to 2 say) = 1 \<and> length (sent_to 3 say) = 0"
proof -
  let ?w = "example_world [example_player 1 ''Bob'' 0, example_player 2 ''Al'' 0] []"
  have w: "world_keyed ?w" by (simp add: world_keyed_def example_world_keyed)
  show ?thesis
    using message_recipients [OF w example_channel_ok(1), of 1 2 "''hi''" 7] message_recipients [OF w example_channel_ok(1), of 2 2 "''hi''" 7]
      message_recipients [OF w example_channel_ok(1), of 3 2 "''hi''" 7]
    by (simp add: Let_def example_channel_def IsOn_def omap_at_def pi_IsMuted_def pi_IsModerator_def FindPlayer_def example_world_def
        example_player_def GetSocial_def HasIgnore_def new_PlayerSocial_def)
qed

text \<open>
  An owner who kicks or bans himself while others are on the channel is put back on it by the
  search for a new owner: he stays owner and moderator of a channel his own client has left, filed with
  guid 0, and a ban does not keep him off.
\<close>

theorem owner_self_kick_readds:
  assumes "chan_ok c" and "has_owner c" and "\<not> IsConstant c" and "m_ownership c" and "IsOn c (m_ownerGUID c)"
    and "IsOn c other" and "other \<noteq> m_ownerGUID c"
    and "FindPlayerByName w n = Some pl" and "pl_guid pl = m_ownerGUID c"
  shows "let (c', es) = Channel_KickOrBan w (m_ownerGUID c) n ban c in
    PlayerLeft (m_ownerGUID c) \<in> set es \<and> m_ownerGUID c' = m_ownerGUID c \<and> (ban \<longrightarrow> IsBanned c' (m_ownerGUID c)) \<and>
    (\<exists>i. omap_find (ch_players c') (m_ownerGUID c) = Some i \<and> pi_player i = 0 \<and> pi_IsOwner i \<and> pi_IsModerator i)"
proof -
  let ?o = "m_ownerGUID c"
  let ?d = "upd_member (pi_SetModerator True) ?o (thrown_out pl ban c)"
  have o0: "?o \<noteq> 0" using chan_okD(3) [OF assms(1)] assms(5) by (auto simp: IsOn_def)
  have mod: "pi_IsModerator (member c ?o)"
    using assms(2-6) chan_okD(4) [OF assms(1), of ?o] by (auto simp: has_owner_def IsOn_def omap_at_Some)
  have ne: "ch_players (thrown_out pl ban c) \<noteq> []"
  proof
    assume "ch_players (thrown_out pl ban c) = []"
    moreover have "omap_find (ch_players (thrown_out pl ban c)) other \<noteq> None"
      using assms(6,7,9) by (simp add: IsOn_def omap_find_erase)
    ultimately show False by simp
  qed
  have c': "fst (Channel_KickOrBan w ?o n ban c) = fst (SetOwner_guid w ?o True ?d)"
    using assms mod ne by (simp add: Channel_KickOrBan_fst after_kick_def Let_def)
  have left: "PlayerLeft ?o \<in> set (snd (Channel_KickOrBan w ?o n ban c))"
    using assms mod by (simp add: Channel_KickOrBan_def Let_def case_prod_unfold)
  have d: "omap_find (ch_players ?d) ?o = Some (pi_SetModerator True PlayerInfo0)"
    using assms(9) by (simp add: omap_at_def omap_find_erase)
  have ban: "ban \<longrightarrow> IsBanned (fst (Channel_KickOrBan w ?o n ban c)) ?o"
    unfolding c' using assms(9) by (simp add: IsBanned_def thrown_out_def Let_def omap_find_set)
  have "\<exists>i. omap_find (ch_players (fst (Channel_KickOrBan w ?o n ban c))) ?o = Some i \<and> pi_player i = 0 \<and>
      pi_IsOwner i \<and> pi_IsModerator i"
    unfolding c' using SetOwner_guid_find [OF o0 d, of w True ?o] by (simp add: PlayerInfo0_def)
  moreover have "m_ownerGUID (fst (Channel_KickOrBan w ?o n ban c)) = ?o" unfolding c' by simp
  ultimately show ?thesis unfolding case_prod_unfold Let_def using left ban by blast
qed

theorem owner_self_kick_readds_witness:
  "let (c', es) = Channel_KickOrBan (example_world [example_player 1 ''Bob'' 0, example_player 2 ''Al'' 0] []) 1
       ''Bob'' True example_channel
   in IsBanned c' 1 \<and> IsOn c' 1"
proof -
  let ?w = "example_world [example_player 1 ''Bob'' 0, example_player 2 ''Al'' 0] []"
  have "IsOn example_channel 1" "IsOn example_channel 2" "\<not> IsConstant example_channel"
    by (simp_all add: IsOn_def IsConstant_def example_channel_def)
  moreover have "FindPlayerByName ?w ''Bob'' = Some (example_player 1 ''Bob'' 0)"
    by (simp add: FindPlayerByName_def example_world_def example_player_def)
  moreover have "pl_guid (example_player 1 ''Bob'' 0) = 1" by (simp add: example_player_def)
  ultimately show ?thesis
    using owner_self_kick_readds [OF example_channel_ok, of 2 ?w "''Bob''" _ True]
    by (auto simp: example_channel_def case_prod_unfold Let_def IsOn_def)
qed

end
