(* ===== verification/Channel_Mgr.thy ===== *)
theory Channel_Mgr
  imports Channel
begin

text \<open>
  The two channel managers (\<^verbatim>\<open>game/Chat/Channels/ChannelMgr.cpp\<close>), the channel opcodes
  (\<^verbatim>\<open>game/Handlers/ChannelHandler.cpp\<close>) and the list of channels each player has joined
  (\<^verbatim>\<open>Player::JoinedChannel\<close>, \<^verbatim>\<open>LeftChannel\<close>, \<^verbatim>\<open>CleanupChannels\<close>).  A \<^verbatim>\<open>Channel*\<close> is the manager and the key it is
  registered under.  The key of a name is its lower-case wide string; that conversion uses a vendored
  UTF-8 library and is the parameter \<open>wkey\<close>, as is \<^verbatim>\<open>normalizePlayerName\<close>.  Client data (the built-in
  channels, the areas) and stored channels are parameters too.
\<close>

section \<open>State\<close>

record 'k channel_mgr =
  cm_team :: u32
  cm_channels :: "('k, channel) omap"

datatype mgr_id = AllianceChannelMgr | HordeChannelMgr

record 'k chat_state =
  cs_mgr :: "mgr_id \<Rightarrow> 'k channel_mgr"
  cs_joined :: "u64 \<Rightarrow> (mgr_id \<times> 'k) list"

definition new_ChannelMgr :: "'k channel_mgr" where
  "new_ChannelMgr = \<lparr>cm_team = 0, cm_channels = []\<rparr>"

definition new_chat_state :: "'k chat_state" where
  "new_chat_state = \<lparr>cs_mgr = (\<lambda>_. new_ChannelMgr), cs_joined = (\<lambda>_. [])\<rparr>"

text \<open>The client and database data the code consults.\<close>

record 'k chat_env =
  wkey :: "string \<Rightarrow> 'k"
  normalizePlayerName :: "string \<Rightarrow> string option"
  sChatChannelsStore :: "u32 \<Rightarrow> u32 option"
  area_flags :: "u32 \<Rightarrow> u32 option"
  channel_row :: "string \<Rightarrow> u32 \<Rightarrow> (bool \<times> bool \<times> string \<times> string option) option"

section \<open>ChannelMgr\<close>

abbreviation HORDE :: u32 where "HORDE \<equiv> 67"
abbreviation ALLIANCE :: u32 where "ALLIANCE \<equiv> 469"

definition channelMgr :: "world \<Rightarrow> u32 \<Rightarrow> mgr_id option" where
  "channelMgr w team =
     (if cfg_two_side_channel w then Some AllianceChannelMgr
      else if team = ALLIANCE then Some AllianceChannelMgr
      else if team = HORDE then Some HordeChannelMgr
      else None)"

definition GetJoinChannel ::
  "('k::linorder) chat_env \<Rightarrow> world \<Rightarrow> string \<Rightarrow> u32 \<Rightarrow> 'k channel_mgr \<Rightarrow> 'k channel_mgr \<times> channel \<times> effect list"
where
  "GetJoinChannel env w name channel_id m =
     (case omap_find (cm_channels m) (wkey env name) of
        Some c \<Rightarrow> (m, c, [])
      | None \<Rightarrow>
          let (nchan, es) = new_Channel (sChatChannelsStore env) (channel_row env name (cm_team m)) w name channel_id (cm_team m)
          in (m\<lparr>cm_channels := omap_set (wkey env name) nchan (cm_channels m)\<rparr>, nchan, es))"

definition MakeNotOnPacket :: "string \<Rightarrow> world_packet" where
  "MakeNotOnPacket name =
     wp_add [Out8 0x05, OutStr name] (WorldPacket_Initialize SMSG_CHANNEL_NOTIFY (new_WorldPacket 0))"

definition GetChannel ::
  "'k chat_env \<Rightarrow> string \<Rightarrow> player \<Rightarrow> bool \<Rightarrow> 'k channel_mgr \<Rightarrow> channel option \<times> effect list"
where
  "GetChannel env name p pkt m =
     (case omap_find (cm_channels m) (wkey env name) of
        None \<Rightarrow> (None, if pkt then [Send (pl_guid p) (MakeNotOnPacket name)] else [])
      | Some c \<Rightarrow> (Some c, []))"

definition ChannelMgr_LeftChannel :: "'k chat_env \<Rightarrow> string \<Rightarrow> 'k channel_mgr \<Rightarrow> 'k channel_mgr" where
  "ChannelMgr_LeftChannel env name m =
     (case omap_find (cm_channels m) (wkey env name) of
        None \<Rightarrow> m
      | Some c \<Rightarrow>
          if GetNumPlayers c = 0 \<and> \<not> IsConstant c
          then m\<lparr>cm_channels := omap_erase (wkey env name) (cm_channels m)\<rparr> else m)"

section \<open>Joined channels of a player\<close>

text \<open>\<^verbatim>\<open>m_channels.push_back(c)\<close> and \<^verbatim>\<open>m_channels.remove(c)\<close>, as the effects of a command on the channel \<open>ch\<close> ask for them.\<close>

definition Player_JoinedChannel :: "mgr_id \<times> 'k \<Rightarrow> u64 \<Rightarrow> (u64 \<Rightarrow> (mgr_id \<times> 'k) list) \<Rightarrow> u64 \<Rightarrow> (mgr_id \<times> 'k) list" where
  "Player_JoinedChannel ch g j = j(g := j g @ [ch])"

definition Player_LeftChannel :: "mgr_id \<times> 'k \<Rightarrow> u64 \<Rightarrow> (u64 \<Rightarrow> (mgr_id \<times> 'k) list) \<Rightarrow> u64 \<Rightarrow> (mgr_id \<times> 'k) list" where
  "Player_LeftChannel ch g j = j(g := removeAll ch (j g))"

fun joined_effect :: "mgr_id \<times> 'k \<Rightarrow> effect \<Rightarrow> (u64 \<Rightarrow> (mgr_id \<times> 'k) list) \<Rightarrow> u64 \<Rightarrow> (mgr_id \<times> 'k) list" where
  "joined_effect ch (PlayerJoined g) j = Player_JoinedChannel ch g j"
| "joined_effect ch (PlayerLeft g) j = Player_LeftChannel ch g j"
| "joined_effect ch _ j = j"

text \<open>The state after a command has turned the channel \<open>ch\<close> into \<open>c\<close> with the effects \<open>es\<close>.\<close>

definition put_mgr :: "mgr_id \<Rightarrow> 'k channel_mgr \<Rightarrow> 'k chat_state \<Rightarrow> 'k chat_state" where
  "put_mgr mid m s = s\<lparr>cs_mgr := (cs_mgr s)(mid := m)\<rparr>"

definition put_channel ::
  "mgr_id \<times> ('k::linorder) \<Rightarrow> channel \<Rightarrow> effect list \<Rightarrow> 'k chat_state \<Rightarrow> 'k chat_state"
where
  "put_channel ch c es s =
     (let m = cs_mgr s (fst ch);
          s' = put_mgr (fst ch) (m\<lparr>cm_channels := omap_set (snd ch) c (cm_channels m)\<rparr>) s
      in s'\<lparr>cs_joined := fold (joined_effect ch) es (cs_joined s')\<rparr>)"

text \<open>
  \<^verbatim>\<open>CleanupChannels\<close>: the head of the list is erased and left silently until the list is empty; what is
  left of the channel is deleted when it is empty.  A pointer to a channel that no manager has any more is a pointer to
  a deleted object: calling \<^verbatim>\<open>Leave\<close> through it is an error.
\<close>

datatype chat_error = DanglingChannel

fun CleanupChannels_loop ::
  "('k::linorder) chat_env \<Rightarrow> world \<Rightarrow> player \<Rightarrow> (mgr_id \<times> 'k) list \<Rightarrow> 'k chat_state \<Rightarrow> chat_error + 'k chat_state \<times> effect list"
where
  "CleanupChannels_loop env w p [] s = Inr (s\<lparr>cs_joined := (cs_joined s)(pl_guid p := [])\<rparr>, [])"
| "CleanupChannels_loop env w p (ch # chs) s =
     (let s1 = s\<lparr>cs_joined := (cs_joined s)(pl_guid p := chs)\<rparr> in
      case omap_find (cm_channels (cs_mgr s1 (fst ch))) (snd ch) of
        None \<Rightarrow> Inl DanglingChannel
      | Some c \<Rightarrow>
          let (c', es) = Channel_Leave w (pl_guid p) False c;
              s2 = put_channel ch c' es s1;
              s3 = (case channelMgr w (pl_team p) of
                      None \<Rightarrow> s2
                    | Some mid \<Rightarrow> put_mgr mid (ChannelMgr_LeftChannel env (m_name c') (cs_mgr s2 mid)) s2)
          in res_bind (CleanupChannels_loop env w p chs s3) (\<lambda>(s4, es'). Inr (s4, es @ es')))"

definition CleanupChannels ::
  "('k::linorder) chat_env \<Rightarrow> world \<Rightarrow> player \<Rightarrow> 'k chat_state \<Rightarrow> chat_error + 'k chat_state \<times> effect list"
where
  "CleanupChannels env w p s = CleanupChannels_loop env w p (cs_joined s (pl_guid p)) s"

section \<open>Opcodes\<close>

text \<open>The common tail of the handlers: \<^verbatim>\<open>channelMgr(team)\<close>, \<^verbatim>\<open>GetChannel(name, _player)\<close>, then the command.\<close>

definition on_channel ::
  "('k::linorder) chat_env \<Rightarrow> world \<Rightarrow> player \<Rightarrow> string \<Rightarrow> (channel \<Rightarrow> channel \<times> effect list)
     \<Rightarrow> 'k chat_state \<Rightarrow> 'k chat_state \<times> effect list"
where
  "on_channel env w p name f s =
     (case channelMgr w (pl_team p) of
        None \<Rightarrow> (s, [])
      | Some mid \<Rightarrow>
          (case GetChannel env name p True (cs_mgr s mid) of
             (None, es) \<Rightarrow> (s, es)
           | (Some c, es) \<Rightarrow> let (c', es') = f c in (put_channel (mid, wkey env name) c' es' s, es @ es')))"

definition CanJoinConstantChannelInZone :: "player \<Rightarrow> u32 \<Rightarrow> u32 \<Rightarrow> bool" where
  "CanJoinConstantChannelInZone p channel_flags zone_flags =
     (if channel_flags AND dbc_flag CHANNEL_DBC_FLAG_ZONE_DEP \<noteq> 0 \<and> zone_flags AND 0x80 \<noteq> 0 then False
      else if channel_flags AND dbc_flag CHANNEL_DBC_FLAG_GUILD_REQ \<noteq> 0 \<and> pl_guild p \<noteq> 0 then False
      else True)"

definition may_join :: "'k chat_env \<Rightarrow> player \<Rightarrow> u32 \<Rightarrow> bool" where
  "may_join env p channel_id =
     (channel_id = 0 \<or>
      (case sChatChannelsStore env channel_id of
         None \<Rightarrow> False
       | Some cf \<Rightarrow> (case area_flags env (pl_zone p) of
                       None \<Rightarrow> False | Some zf \<Rightarrow> CanJoinConstantChannelInZone p cf zf)))"

definition join_channel ::
  "('k::linorder) chat_env \<Rightarrow> world \<Rightarrow> player \<Rightarrow> u32 \<Rightarrow> string \<Rightarrow> string \<Rightarrow> 'k chat_state \<Rightarrow> 'k chat_state \<times> effect list"
where
  "join_channel env w p channel_id channelname pass s =
     (if \<not> may_join env p channel_id then (s, [])
      else if channelname = [] then (s, [])
      else case channelMgr w (pl_team p) of
             None \<Rightarrow> (s, [])
           | Some mid \<Rightarrow>
               let m1 = (cs_mgr s mid)\<lparr>cm_team := pl_team p\<rparr>;
                   (m2, c, es) = GetJoinChannel env w channelname channel_id m1;
                   (c', es') = Channel_Join w (pl_guid p) pass c
               in (put_channel (mid, wkey env channelname) c' es' (put_mgr mid m2 s), es @ es'))"

definition HandleJoinChannel ::
  "('k::linorder) chat_env \<Rightarrow> world \<Rightarrow> player \<Rightarrow> byte_buffer \<Rightarrow> 'k chat_state \<Rightarrow> bb_error + 'k chat_state \<times> effect list"
where
  "HandleJoinChannel env w p recv s =
     res_bind (bb_in recv :: bb_error + (u32 \<times> byte_buffer)) (\<lambda>(channel_id, recv).
     res_bind (bb_in recv :: bb_error + (u8 \<times> byte_buffer)) (\<lambda>(unknown1, recv).
     res_bind (bb_in recv :: bb_error + (u8 \<times> byte_buffer)) (\<lambda>(unknown2, recv).
     res_bind (bb_in_string recv) (\<lambda>(channelname, recv).
     res_bind (bb_in_string recv) (\<lambda>(pass, recv).
       Inr (join_channel env w p channel_id channelname pass s))))))"

definition leave_channel ::
  "('k::linorder) chat_env \<Rightarrow> world \<Rightarrow> player \<Rightarrow> string \<Rightarrow> 'k chat_state \<Rightarrow> 'k chat_state \<times> effect list"
where
  "leave_channel env w p channelname s =
     (if channelname = [] then (s, [])
      else case channelMgr w (pl_team p) of
             None \<Rightarrow> (s, [])
           | Some mid \<Rightarrow>
               let (s1, es) = on_channel env w p channelname (Channel_Leave w (pl_guid p) True) s
               in (put_mgr mid (ChannelMgr_LeftChannel env channelname (cs_mgr s1 mid)) s1, es))"

definition HandleLeaveChannel ::
  "('k::linorder) chat_env \<Rightarrow> world \<Rightarrow> player \<Rightarrow> byte_buffer \<Rightarrow> 'k chat_state \<Rightarrow> bb_error + 'k chat_state \<times> effect list"
where
  "HandleLeaveChannel env w p recv s =
     res_bind (bb_in recv :: bb_error + (u32 \<times> byte_buffer)) (\<lambda>(unk, recv).
     res_bind (bb_in_string recv) (\<lambda>(channelname, recv). Inr (leave_channel env w p channelname s)))"

text \<open>
  A handler that reads the channel name, and one that reads a further string, a player name to be
  normalised first.
\<close>

definition read_channel ::
  "byte_buffer \<Rightarrow> (string \<Rightarrow> 'r) \<Rightarrow> bb_error + 'r"
where
  "read_channel recv k = res_bind (bb_in_string recv) (\<lambda>(channelname, recv). Inr (k channelname))"

definition read_channel_player ::
  "('k::linorder) chat_env \<Rightarrow> byte_buffer \<Rightarrow> (string \<Rightarrow> string \<Rightarrow> 'r) \<Rightarrow> 'r \<Rightarrow> bb_error + 'r"
where
  "read_channel_player env recv k skip =
     res_bind (bb_in_string recv) (\<lambda>(channelname, recv).
     res_bind (bb_in_string recv) (\<lambda>(otp, recv).
       Inr (case normalizePlayerName env otp of None \<Rightarrow> skip | Some n \<Rightarrow> k channelname n)))"

definition HandleChannelList ::
  "('k::linorder) chat_env \<Rightarrow> world \<Rightarrow> player \<Rightarrow> byte_buffer \<Rightarrow> 'k chat_state \<Rightarrow> bb_error + 'k chat_state \<times> effect list"
where
  "HandleChannelList env w p recv s =
     read_channel recv (\<lambda>name. on_channel env w p name (\<lambda>c. (c, Channel_List w p c)) s)"

definition HandleChannelPassword ::
  "('k::linorder) chat_env \<Rightarrow> world \<Rightarrow> player \<Rightarrow> byte_buffer \<Rightarrow> 'k chat_state \<Rightarrow> bb_error + 'k chat_state \<times> effect list"
where
  "HandleChannelPassword env w p recv s =
     res_bind (bb_in_string recv) (\<lambda>(channelname, recv).
     res_bind (bb_in_string recv) (\<lambda>(pass, recv).
       Inr (on_channel env w p channelname (Channel_Password w (pl_guid p) pass) s)))"

definition HandleChannelSetOwner ::
  "('k::linorder) chat_env \<Rightarrow> world \<Rightarrow> player \<Rightarrow> byte_buffer \<Rightarrow> 'k chat_state \<Rightarrow> bb_error + 'k chat_state \<times> effect list"
where
  "HandleChannelSetOwner env w p recv s =
     read_channel_player env recv (\<lambda>name newp. on_channel env w p name (Channel_SetOwner w (pl_guid p) newp) s) (s, [])"

definition HandleChannelOwner ::
  "('k::linorder) chat_env \<Rightarrow> world \<Rightarrow> player \<Rightarrow> byte_buffer \<Rightarrow> 'k chat_state \<Rightarrow> bb_error + 'k chat_state \<times> effect list"
where
  "HandleChannelOwner env w p recv s =
     read_channel recv (\<lambda>name. on_channel env w p name (\<lambda>c. (c, Channel_SendWhoOwner w (pl_guid p) c)) s)"

definition HandleChannelModerator ::
  "('k::linorder) chat_env \<Rightarrow> world \<Rightarrow> player \<Rightarrow> byte_buffer \<Rightarrow> 'k chat_state \<Rightarrow> bb_error + 'k chat_state \<times> effect list"
where
  "HandleChannelModerator env w p recv s =
     read_channel_player env recv (\<lambda>name otp. on_channel env w p name (Channel_SetMode w (pl_guid p) otp True True) s) (s, [])"

definition HandleChannelUnmoderator ::
  "('k::linorder) chat_env \<Rightarrow> world \<Rightarrow> player \<Rightarrow> byte_buffer \<Rightarrow> 'k chat_state \<Rightarrow> bb_error + 'k chat_state \<times> effect list"
where
  "HandleChannelUnmoderator env w p recv s =
     read_channel_player env recv (\<lambda>name otp. on_channel env w p name (Channel_SetMode w (pl_guid p) otp True False) s) (s, [])"

definition HandleChannelMute ::
  "('k::linorder) chat_env \<Rightarrow> world \<Rightarrow> player \<Rightarrow> byte_buffer \<Rightarrow> 'k chat_state \<Rightarrow> bb_error + 'k chat_state \<times> effect list"
where
  "HandleChannelMute env w p recv s =
     read_channel_player env recv (\<lambda>name otp. on_channel env w p name (Channel_SetMode w (pl_guid p) otp False True) s) (s, [])"

definition HandleChannelUnmute ::
  "('k::linorder) chat_env \<Rightarrow> world \<Rightarrow> player \<Rightarrow> byte_buffer \<Rightarrow> 'k chat_state \<Rightarrow> bb_error + 'k chat_state \<times> effect list"
where
  "HandleChannelUnmute env w p recv s =
     read_channel_player env recv (\<lambda>name otp. on_channel env w p name (Channel_SetMode w (pl_guid p) otp False False) s) (s, [])"

definition HandleChannelInvite ::
  "('k::linorder) chat_env \<Rightarrow> world \<Rightarrow> player \<Rightarrow> byte_buffer \<Rightarrow> 'k chat_state \<Rightarrow> bb_error + 'k chat_state \<times> effect list"
where
  "HandleChannelInvite env w p recv s =
     read_channel_player env recv (\<lambda>name otp. on_channel env w p name (\<lambda>c. (c, Channel_Invite w (pl_guid p) otp c)) s) (s, [])"

definition HandleChannelKick ::
  "('k::linorder) chat_env \<Rightarrow> world \<Rightarrow> player \<Rightarrow> byte_buffer \<Rightarrow> 'k chat_state \<Rightarrow> bb_error + 'k chat_state \<times> effect list"
where
  "HandleChannelKick env w p recv s =
     read_channel_player env recv (\<lambda>name otp. on_channel env w p name (Channel_KickOrBan w (pl_guid p) otp False) s) (s, [])"

definition HandleChannelBan ::
  "('k::linorder) chat_env \<Rightarrow> world \<Rightarrow> player \<Rightarrow> byte_buffer \<Rightarrow> 'k chat_state \<Rightarrow> bb_error + 'k chat_state \<times> effect list"
where
  "HandleChannelBan env w p recv s =
     read_channel_player env recv (\<lambda>name otp. on_channel env w p name (Channel_KickOrBan w (pl_guid p) otp True) s) (s, [])"

definition HandleChannelUnban ::
  "('k::linorder) chat_env \<Rightarrow> world \<Rightarrow> player \<Rightarrow> byte_buffer \<Rightarrow> 'k chat_state \<Rightarrow> bb_error + 'k chat_state \<times> effect list"
where
  "HandleChannelUnban env w p recv s =
     read_channel_player env recv (\<lambda>name otp. on_channel env w p name (Channel_UnBan w (pl_guid p) otp) s) (s, [])"

definition HandleChannelAnnouncements ::
  "('k::linorder) chat_env \<Rightarrow> world \<Rightarrow> player \<Rightarrow> byte_buffer \<Rightarrow> 'k chat_state \<Rightarrow> bb_error + 'k chat_state \<times> effect list"
where
  "HandleChannelAnnouncements env w p recv s =
     read_channel recv (\<lambda>name. on_channel env w p name (Channel_Announce w (pl_guid p)) s)"

definition HandleChannelDisplayListQuery ::
  "('k::linorder) chat_env \<Rightarrow> world \<Rightarrow> player \<Rightarrow> byte_buffer \<Rightarrow> 'k chat_state \<Rightarrow> bb_error + 'k chat_state \<times> effect list"
where
  "HandleChannelDisplayListQuery env w p recv s =
     HandleChannelList env w p recv s"

abbreviation SMSG_CHANNEL_MEMBER_COUNT :: u16 where "SMSG_CHANNEL_MEMBER_COUNT \<equiv> 0x3D5"

definition HandleGetChannelMemberCount ::
  "('k::linorder) chat_env \<Rightarrow> world \<Rightarrow> player \<Rightarrow> byte_buffer \<Rightarrow> 'k chat_state \<Rightarrow> bb_error + 'k chat_state \<times> effect list"
where
  "HandleGetChannelMemberCount env w p recv s =
     read_channel recv (\<lambda>name. on_channel env w p name
       (\<lambda>c. (c, [Send (pl_guid p) (wp_add [OutStr (m_name c), Out8 (m_flags c), Out32 (GetNumPlayers c)]
                  (new_WorldPacket SMSG_CHANNEL_MEMBER_COUNT))])) s)"

definition HandleSetChannelWatch ::
  "('k::linorder) chat_env \<Rightarrow> world \<Rightarrow> player \<Rightarrow> byte_buffer \<Rightarrow> 'k chat_state \<Rightarrow> bb_error + 'k chat_state \<times> effect list"
where
  "HandleSetChannelWatch env w p recv s =
     read_channel recv (\<lambda>name. (s, []))"

section \<open>Specification vocabulary\<close>

text \<open>What the session of a player can do to the chat state, after its packet has been read.\<close>

datatype chat_event =
    EvJoin u32 string string
  | EvLeave string
  | EvCommand string chan_cmd
  | EvLogout

fun chat_step ::
  "('k::linorder) chat_env \<Rightarrow> world \<Rightarrow> player \<Rightarrow> chat_event \<Rightarrow> 'k chat_state \<Rightarrow> chat_error + 'k chat_state \<times> effect list"
where
  "chat_step env w p (EvJoin ch name pass) s = Inr (join_channel env w p ch name pass s)"
| "chat_step env w p (EvLeave name) s = Inr (leave_channel env w p name s)"
| "chat_step env w p (EvCommand name cmd) s = Inr (on_channel env w p name (chan_exec w cmd) s)"
| "chat_step env w p EvLogout s = CleanupChannels env w p s"

text \<open>
  A command event comes from the player himself, is neither a join nor a leave, and does not kick
  its giver; at logout the player's channels are all of the manager of his team.
\<close>

fun event_ok :: "world \<Rightarrow> player \<Rightarrow> chat_event \<Rightarrow> 'k chat_state \<Rightarrow> bool" where
  "event_ok w p (EvCommand name cmd) s =
     (cmd_actor cmd = pl_guid p \<and> \<not> self_kick w cmd \<and>
      (case cmd of CJoin _ _ \<Rightarrow> False | CLeave _ _ \<Rightarrow> False | _ \<Rightarrow> True))"
| "event_ok w p EvLogout s = (\<forall>ch \<in> set (cs_joined s (pl_guid p)). channelMgr w (pl_team p) = Some (fst ch))"
| "event_ok w p _ s = True"

text \<open>
  The player behind an event has a session: the object accessor finds him, and everybody else, under his guid, and the guid of a player
  is the 32-bit number of his character.
\<close>

definition session_ok :: "world \<Rightarrow> player \<Rightarrow> bool" where
  "session_ok w p = (world_keyed w \<and> FindPlayer w (pl_guid p) = Some p \<and> 0 < pl_guid p \<and> pl_guid p < 2 ^ 32)"

text \<open>A registered channel: well-formed, filed under its name, owned if it has members, fresh if it has none.\<close>

definition registered_ok :: "'k chat_env \<Rightarrow> 'k \<Rightarrow> channel \<Rightarrow> bool" where
  "registered_ok env k c =
     (chan_ok c \<and> has_owner c \<and> wkey env (m_name c) = k \<and>
      (ch_players c = [] \<and> \<not> IsConstant c \<longrightarrow> m_ownerGUID c = 0))"

definition mgr_ok :: "('k::linorder) chat_env \<Rightarrow> 'k channel_mgr \<Rightarrow> bool" where
  "mgr_ok env m =
     (omap_ok (cm_channels m) \<and> (\<forall>k c. omap_find (cm_channels m) k = Some c \<longrightarrow> registered_ok env k c))"

definition chat_ok :: "('k::linorder) chat_env \<Rightarrow> 'k chat_state \<Rightarrow> bool" where
  "chat_ok env s = (\<forall>mid. mgr_ok env (cs_mgr s mid))"

text \<open>
  The lists of the players: no channel twice, and every channel on the list is registered and has the player as a member.  Members are
  players, so there are fewer than \<open>2\<^sup>3\<^sup>2\<close> of them.
\<close>

definition members_are_players :: "channel \<Rightarrow> bool" where
  "members_are_players c = (omap_ok (ch_players c) \<and> (\<forall>g. IsOn c g \<longrightarrow> 0 < g \<and> g < 2 ^ 32))"

definition chan_at :: "('k::linorder) chat_state \<Rightarrow> mgr_id \<times> 'k \<Rightarrow> channel option" where
  "chan_at s ch = omap_find (cm_channels (cs_mgr s (fst ch))) (snd ch)"

definition lists_ok :: "('k::linorder) chat_state \<Rightarrow> bool" where
  "lists_ok s =
     ((\<forall>ch c. chan_at s ch = Some c \<longrightarrow> members_are_players c) \<and> (\<forall>g. distinct (cs_joined s g)) \<and>
      (\<forall>g. \<forall>ch\<in>set (cs_joined s g). \<exists>c. chan_at s ch = Some c \<and> IsOn c g))"

section \<open>Lemmas\<close>

lemma upd_member_frame [simp]:
  "m_name (upd_member f g c) = m_name c" "m_channelId (upd_member f g c) = m_channelId c"
  "ch_players (upd_member f g c) \<noteq> []"
  by (simp_all add: upd_member_def omap_upd_def)

lemma SetOwner_guid_frame [simp]:
  "m_name (fst (SetOwner_guid w g ex c)) = m_name c" "m_channelId (fst (SetOwner_guid w g ex c)) = m_channelId c"
  "g \<noteq> 0 \<Longrightarrow> ch_players (fst (SetOwner_guid w g ex c)) \<noteq> []"
  by (auto simp: SetOwner_guid_def Let_def split: option.split)

lemma set_mode_guid_frame [simp]:
  "m_name (fst (set_mode_guid w md g st c)) = m_name c" "m_channelId (fst (set_mode_guid w md g st c)) = m_channelId c"
  "ch_players (fst (set_mode_guid w md g st c)) \<noteq> []"
  by (simp_all add: set_mode_guid_def Let_def)

lemma after_kick_frame [simp]:
  "m_name (after_kick w good b ban c) = m_name c" "m_channelId (after_kick w good b ban c) = m_channelId c"
  by (simp_all add: after_kick_def thrown_out_def Let_def)

lemma Channel_Join_frame:
  "m_name (fst (Channel_Join w p pass c)) = m_name c \<and> m_channelId (fst (Channel_Join w p pass c)) = m_channelId c \<and>
   (fst (Channel_Join w p pass c) = c \<or> ch_players (fst (Channel_Join w p pass c)) \<noteq> [])"
  by (rule Channel_Join_cases [of w p pass c]) (auto split: if_splits)

lemma Channel_Leave_frame:
  "m_name (fst (Channel_Leave w p send c)) = m_name c \<and> m_channelId (fst (Channel_Leave w p send c)) = m_channelId c"
  by (simp add: Channel_Leave_def Let_def case_prod_unfold)

lemma chan_exec_frame:
  "m_name (fst (chan_exec w cmd c)) = m_name c \<and> m_channelId (fst (chan_exec w cmd c)) = m_channelId c"
proof (cases cmd)
  case (CUnBan good bad)
  with Channel_UnBan_fst [of w good bad c] show ?thesis by auto
next
  case (CPassword p pass)
  with Channel_Password_fst [of w p pass c] show ?thesis by auto
next
  case (CAnnounce p)
  with Channel_Announce_fst [of w p c] show ?thesis by auto
next
  case (CSetMode p n md st)
  with Channel_SetMode_fst [of w p n md st c] show ?thesis by auto
next
  case (CSetOwner p n)
  with Channel_SetOwner_fst [of w p n c] show ?thesis by auto
next
  case (CKickOrBan good bad ban)
  then show ?thesis by (simp add: Channel_KickOrBan_fst split: option.split)
qed (simp_all add: Channel_Join_frame Channel_Leave_frame)

text \<open>Only a leave can empty a channel, and any other command that leaves it empty keeps the owner field.\<close>

lemma chan_exec_empty:
  assumes ok: "chan_ok c" and "\<not> self_kick w cmd" and "\<forall>p send. cmd \<noteq> CLeave p send"
    and "ch_players (fst (chan_exec w cmd c)) = []"
  shows "ch_players c = [] \<and> m_ownerGUID (fst (chan_exec w cmd c)) = m_ownerGUID c"
proof (cases cmd)
  case (CJoin p pass)
  with assms(4) Channel_Join_frame [of w p pass c] show ?thesis by auto
next
  case (CKickOrBan good bad ban)
  with assms Channel_KickOrBan_ok(3) [OF ok, of w good bad ban] show ?thesis by auto
next
  case (CUnBan good bad)
  with assms(4) Channel_UnBan_fst [of w good bad c] show ?thesis by auto
next
  case (CPassword p pass)
  with assms(4) Channel_Password_fst [of w p pass c] show ?thesis by auto
next
  case (CSetMode p n md st)
  with assms(4) Channel_SetMode_fst [of w p n md st c] show ?thesis by auto
next
  case (CSetOwner p n)
  from CSetOwner assms(4) Channel_SetOwner_fst [of w p n c] chan_okD(3) [OF ok] show ?thesis
    by (auto simp del: upd_member_frame(3))
next
  case (CAnnounce p)
  with assms(4) Channel_Announce_fst [of w p c] show ?thesis by auto
qed (use assms(3) in simp)

lemma registered_command:
  assumes reg: "registered_ok env k c" and "cmd_actor cmd \<noteq> 0" and "\<not> self_kick w cmd"
    and "\<forall>p send. cmd \<noteq> CLeave p send"
  shows "registered_ok env k (fst (chan_exec w cmd c))"
proof -
  let ?c = "fst (chan_exec w cmd c)"
  have ok: "chan_ok c" and own: "has_owner c" using reg by (simp_all add: registered_ok_def)
  have const: "IsConstant ?c = IsConstant c" using chan_exec_frame [of w cmd c] by (simp add: IsConstant_def)
  have "chan_ok ?c" and keep: "(ch_players c = [] \<longrightarrow> m_ownerGUID c = 0) \<Longrightarrow> has_owner ?c"
    using chan_exec_keeps [OF ok assms(2,3)] own by (simp_all add: keeps_def)
  moreover have "has_owner ?c"
  proof (cases "IsConstant c")
    case True
    with const show ?thesis by (simp add: has_owner_def)
  next
    case False
    with keep reg show ?thesis by (simp add: registered_ok_def)
  qed
  moreover have "ch_players ?c = [] \<and> \<not> IsConstant ?c \<longrightarrow> m_ownerGUID ?c = 0"
    using chan_exec_empty [OF ok assms(3,4)] reg const by (auto simp: registered_ok_def)
  ultimately show ?thesis using chan_exec_frame [of w cmd c] reg by (simp add: registered_ok_def)
qed

lemma registered_leave:
  assumes "registered_ok env k c"
  shows "chan_ok (fst (Channel_Leave w p send c))" and "has_owner (fst (Channel_Leave w p send c))"
    and "wkey env (m_name (fst (Channel_Leave w p send c))) = k"
  using assms Channel_Leave_ok [of c w p send] Channel_Leave_frame [of w p send c]
  by (auto simp: registered_ok_def)

lemma put_mgr_mgr [simp]: "cs_mgr (put_mgr mid m s) x = (if x = mid then m else cs_mgr s x)"
  by (simp add: put_mgr_def)

lemma put_channel_mgr [simp]:
  "cs_mgr (put_channel ch c es s) x =
     (if x = fst ch then (cs_mgr s x)\<lparr>cm_channels := omap_set (snd ch) c (cm_channels (cs_mgr s x))\<rparr> else cs_mgr s x)"
  by (simp add: put_channel_def Let_def)

lemma mgr_ok_set:
  "mgr_ok env m \<Longrightarrow> registered_ok env k c \<Longrightarrow> mgr_ok env (m\<lparr>cm_channels := omap_set k c (cm_channels m)\<rparr>)"
  by (simp add: mgr_ok_def omap_laws)

lemma mgr_ok_team [simp]: "mgr_ok env (m\<lparr>cm_team := t\<rparr>) = mgr_ok env m"
  by (simp add: mgr_ok_def)

lemma mgr_okD: "mgr_ok env m \<Longrightarrow> omap_find (cm_channels m) k = Some c \<Longrightarrow> registered_ok env k c"
  by (simp add: mgr_ok_def)

text \<open>A leave followed by \<^verbatim>\<open>LeftChannel\<close> leaves no empty custom channel behind.\<close>

lemma leave_then_left:
  assumes m: "mgr_ok env m" and c: "omap_find (cm_channels m) (wkey env name) = Some c"
  shows "mgr_ok env (ChannelMgr_LeftChannel env name
    (m\<lparr>cm_channels := omap_set (wkey env name) (fst (Channel_Leave w p send c)) (cm_channels m)\<rparr>))"
proof -
  let ?k = "wkey env name" and ?c = "fst (Channel_Leave w p send c)"
  note reg = registered_leave [OF mgr_okD [OF m c], of w p send]
  show ?thesis
  proof (cases "GetNumPlayers ?c = 0 \<and> \<not> IsConstant ?c")
    case True
    with m show ?thesis
      by (auto simp: ChannelMgr_LeftChannel_def omap_find_set mgr_ok_def omap_erase_set omap_ok_erase
          omap_find_erase split: if_splits)
  next
    case False
    then have "ch_players ?c \<noteq> [] \<or> IsConstant ?c" by (auto simp: GetNumPlayers_def)
    with reg have "registered_ok env ?k ?c" by (auto simp: registered_ok_def)
    with False m show ?thesis
      by (auto simp: ChannelMgr_LeftChannel_def omap_find_set mgr_ok_set)
  qed
qed

lemma left_nothing: "mgr_ok env m \<Longrightarrow> mgr_ok env (ChannelMgr_LeftChannel env name m)"
  by (auto simp: ChannelMgr_LeftChannel_def mgr_ok_def omap_laws split: option.split if_splits)

lemma new_Channel_registered:
  "registered_ok env (wkey env name) (fst (new_Channel store row w name ch team))"
proof -
  have "m_name (fst (new_Channel store row w name ch team)) = name"
    by (auto simp: new_Channel_def Let_def split: option.split)
  then show ?thesis using new_Channel_ok [of store row w name ch team] by (simp add: registered_ok_def has_owner_def)
qed

lemma GetJoinChannel_ok:
  assumes "mgr_ok env m" and "GetJoinChannel env w name ch m = (m', c, es)"
  shows "mgr_ok env m'" and "registered_ok env (wkey env name) c"
proof -
  have "mgr_ok env m' \<and> registered_ok env (wkey env name) c"
  proof (cases "omap_find (cm_channels m) (wkey env name)")
    case None
    obtain n es' where n: "new_Channel (sChatChannelsStore env) (channel_row env name (cm_team m)) w name ch (cm_team m) = (n, es')"
      by fastforce
    have "registered_ok env (wkey env name) n"
      using new_Channel_registered [of env name "sChatChannelsStore env" "channel_row env name (cm_team m)" w ch "cm_team m"] n
      by simp
    with None n assms show ?thesis by (auto simp: GetJoinChannel_def mgr_ok_set)
  next
    case (Some c0)
    with assms show ?thesis by (auto simp: GetJoinChannel_def dest: mgr_okD)
  qed
  then show "mgr_ok env m'" and "registered_ok env (wkey env name) c" by simp_all
qed

lemma join_channel_ok:
  assumes "chat_ok env s" and "pl_guid p \<noteq> 0"
  shows "chat_ok env (fst (join_channel env w p ch name pass s))"
proof -
  define G where "G mid = GetJoinChannel env w name ch ((cs_mgr s mid)\<lparr>cm_team := pl_team p\<rparr>)" for mid
  have "mgr_ok env (fst (G mid))" and "registered_ok env (wkey env name) (fst (Channel_Join w (pl_guid p) pass (fst (snd (G mid)))))"
    for mid
  proof -
    have "mgr_ok env ((cs_mgr s mid)\<lparr>cm_team := pl_team p\<rparr>)" using assms(1) by (simp add: chat_ok_def)
    note ok = GetJoinChannel_ok [OF this, of w name ch "fst (G mid)" "fst (snd (G mid))" "snd (snd (G mid))"]
    show "mgr_ok env (fst (G mid))" using ok(1) by (simp add: G_def)
    show "registered_ok env (wkey env name) (fst (Channel_Join w (pl_guid p) pass (fst (snd (G mid)))))"
      using registered_command [OF ok(2), of "CJoin (pl_guid p) pass" w] assms(2) by (simp add: G_def)
  qed
  with assms(1) show ?thesis
    by (simp add: join_channel_def Let_def chat_ok_def mgr_ok_set case_prod_unfold flip: G_def split: option.split)
qed

lemma leave_channel_ok:
  assumes "chat_ok env s"
  shows "chat_ok env (fst (leave_channel env w p name s))"
proof (cases "name = [] \<or> channelMgr w (pl_team p) = None")
  case True
  with assms show ?thesis by (auto simp: leave_channel_def)
next
  case False
  then obtain mid where mid: "channelMgr w (pl_team p) = Some mid" and "name \<noteq> []" by auto
  show ?thesis
  proof (cases "omap_find (cm_channels (cs_mgr s mid)) (wkey env name)")
    case None
    with mid \<open>name \<noteq> []\<close> assms show ?thesis
      by (auto simp: leave_channel_def on_channel_def GetChannel_def chat_ok_def left_nothing)
  next
    case (Some c)
    have "mgr_ok env (cs_mgr s mid)" using assms by (simp add: chat_ok_def)
    from leave_then_left [OF this Some, of w "pl_guid p" True] mid \<open>name \<noteq> []\<close> Some assms show ?thesis
      by (auto simp: leave_channel_def on_channel_def GetChannel_def chat_ok_def case_prod_unfold Let_def)
  qed
qed

lemma on_channel_ok:
  assumes "chat_ok env s"
    and "\<And>k c. registered_ok env k c \<Longrightarrow> registered_ok env k (fst (f c))"
  shows "chat_ok env (fst (on_channel env w p name f s))"
proof -
  have "mgr_ok env ((cs_mgr s mid)\<lparr>cm_channels := omap_set k (fst (f c)) (cm_channels (cs_mgr s mid))\<rparr>)"
    if "omap_find (cm_channels (cs_mgr s mid)) k = Some c" for mid k c
    using assms(1) mgr_ok_set assms(2) mgr_okD that unfolding chat_ok_def by blast
  with assms(1) show ?thesis
    by (auto simp: on_channel_def GetChannel_def chat_ok_def case_prod_unfold Let_def split: option.split)
qed

text \<open>After a leave the player is off the channel, and the loop does not put him back on any.\<close>

definition off_channel :: "u64 \<Rightarrow> mgr_id \<times> 'k \<Rightarrow> 'k chat_state \<Rightarrow> bool" where
  "off_channel g ch s = (\<forall>c. omap_find (cm_channels (cs_mgr s (fst ch))) (snd ch) = Some c \<longrightarrow> \<not> IsOn c g)"

lemma Channel_Leave_off:
  assumes "chan_ok c"
  shows "\<not> IsOn (fst (Channel_Leave w g send c)) g"
proof -
  let ?c1 = "c\<lparr>ch_players := omap_erase g (ch_players c)\<rparr>"
  let ?n = "pi_player (snd (hd (ch_players ?c1)))"
  have ok1: "chan_ok ?c1" using assms by (rule erase_member_ok)
  have off1: "omap_find (ch_players ?c1) g = None" by (simp add: omap_find_erase)
  have "omap_find (ch_players (fst (SetOwner_guid w ?n True (upd_member (pi_SetModerator True) ?n ?c1)))) g = None"
    if ne: "ch_players ?c1 \<noteq> []"
  proof -
    obtain i where i: "omap_find (ch_players ?c1) ?n = Some i" using hd_member [OF ok1 ne] by blast
    then have "?n \<noteq> 0" and "?n \<noteq> g" using chan_okD(3) [OF ok1 i] off1 by auto
    then show ?thesis
      using SetOwner_guid_find [of ?n "upd_member (pi_SetModerator True) ?n ?c1"] off1 by auto
  qed
  then show ?thesis using off1
    by (auto simp: Channel_Leave_def Let_def case_prod_unfold IsOn_def simp del: channel.simps)
qed

lemma left_off: "off_channel g ch s \<Longrightarrow> off_channel g ch (put_mgr mid (ChannelMgr_LeftChannel env name (cs_mgr s mid)) s)"
  by (auto simp: off_channel_def ChannelMgr_LeftChannel_def omap_find_erase split: option.split)

text \<open>One round of the loop of \<^verbatim>\<open>CleanupChannels\<close>.\<close>

definition cleanup_round :: "('k::linorder) chat_env \<Rightarrow> world \<Rightarrow> u64 \<Rightarrow> mgr_id \<times> 'k \<Rightarrow> channel \<Rightarrow> 'k chat_state \<Rightarrow> 'k chat_state" where
  "cleanup_round env w g ch c s =
     (let L = Channel_Leave w g False c; s2 = put_channel ch (fst L) (snd L) s
      in put_mgr (fst ch) (ChannelMgr_LeftChannel env (m_name c) (cs_mgr s2 (fst ch))) s2)"

lemma cleanup_round_ok:
  assumes ok: "chat_ok env s" and c: "omap_find (cm_channels (cs_mgr s (fst ch))) (snd ch) = Some c"
  shows "chat_ok env (cleanup_round env w g ch c s)" and "off_channel g ch (cleanup_round env w g ch c s)"
    and "off_channel g ch' s \<Longrightarrow> off_channel g ch' (cleanup_round env w g ch c s)"
proof -
  let ?L = "Channel_Leave w g False c"
  have m: "mgr_ok env (cs_mgr s (fst ch))" using ok by (simp add: chat_ok_def)
  have reg: "registered_ok env (snd ch) c" by (rule mgr_okD [OF m c])
  then have k: "wkey env (m_name c) = snd ch" by (simp add: registered_ok_def)
  have "mgr_ok env (cs_mgr (cleanup_round env w g ch c s) (fst ch))"
    using leave_then_left [OF m, of "m_name c" c w g False] c k by (simp add: cleanup_round_def Let_def)
  then show "chat_ok env (cleanup_round env w g ch c s)" using ok by (simp add: chat_ok_def cleanup_round_def Let_def)
  have off: "\<not> IsOn (fst ?L) g" using reg by (simp add: registered_ok_def Channel_Leave_off)
  then show "off_channel g ch (cleanup_round env w g ch c s)"
    unfolding cleanup_round_def Let_def by (intro left_off) (simp add: off_channel_def omap_find_set)
  show "off_channel g ch' (cleanup_round env w g ch c s)" if "off_channel g ch' s"
    unfolding cleanup_round_def Let_def using that off
    by (intro left_off) (auto simp: off_channel_def omap_find_set)
qed


subsection \<open>Members and the players' lists\<close>

text \<open>The effects of a command that change the lists.\<close>

definition list_effects :: "effect list \<Rightarrow> effect list" where
  "list_effects es = filter (\<lambda>e. case e of PlayerJoined g \<Rightarrow> True | PlayerLeft g \<Rightarrow> True | _ \<Rightarrow> False) es"

lemma list_effects_append [simp]: "list_effects (a @ b) = list_effects a @ list_effects b"
  by (simp add: list_effects_def)

lemma list_effects_quiet [simp]:
  "list_effects [] = []" "list_effects (SendToOne w data p) = []" "list_effects (SendToAll w c data p) = []"
  "list_effects (SendToAllButOne w c data p) = []" "list_effects (UpdateChannelInDB c) = []"
  "list_effects (UpdateChannelUseageInDB c) = []" "list_effects (JoinNotify w c p) = []" "list_effects (LeaveNotify w c p) = []"
  "list_effects (PlayerJoined g # es) = PlayerJoined g # list_effects es" "list_effects (PlayerLeft g # es) = PlayerLeft g # list_effects es"
  by (auto simp: list_effects_def SendToOne_def SendToAll_def SendToAllButOne_def UpdateChannelInDB_def UpdateChannelUseageInDB_def
      JoinNotify_def LeaveNotify_def Let_def filter_empty_conv split: option.splits if_splits)

lemma list_effects_SetOwner [simp]: "list_effects (snd (SetOwner_guid w g ex c)) = []"
  by (simp add: SetOwner_guid_def Let_def)

lemma list_effects_mode [simp]: "list_effects (snd (set_mode_guid w md g st c)) = []"
  by (simp add: set_mode_guid_def Let_def)

lemma fold_list_effects: "fold (joined_effect ch) es j = fold (joined_effect ch) (list_effects es) j"
proof (induction es arbitrary: j)
  case (Cons e es)
  then show ?case by (cases e) (simp_all add: list_effects_def)
qed (simp add: list_effects_def)

lemma IsOn_changes [simp]:
  "IsOn (upd_member f h c) g \<longleftrightarrow> g = h \<or> IsOn c g"
  "IsOn (fst (SetOwner_guid w h ex c)) g \<longleftrightarrow> h \<noteq> 0 \<and> g = h \<or> IsOn c g"
  "IsOn (fst (set_mode_guid w md h st c)) g \<longleftrightarrow> g = h \<or> IsOn c g"
  by (auto simp: IsOn_def SetOwner_guid_def set_mode_guid_def Let_def omap_find_set upd_member_def omap_find_upd
      split: option.splits if_splits)

text \<open>
  What a command does to the members and to the lists, in step: nothing, or the actor comes in, or one player goes out.
\<close>

definition comes_and_goes :: "world \<Rightarrow> u64 \<Rightarrow> channel \<Rightarrow> channel \<times> effect list \<Rightarrow> bool" where
  "comes_and_goes w p c r \<longleftrightarrow>
     (\<forall>g. IsOn (fst r) g = IsOn c g) \<and> list_effects (snd r) = [] \<or>
     \<not> IsOn c p \<and> (\<forall>g. IsOn (fst r) g = (g = p \<or> IsOn c g)) \<and> list_effects (snd r) = [PlayerJoined p] \<or>
     (\<exists>b. (\<forall>g. IsOn (fst r) g = (g \<noteq> b \<and> IsOn c g)) \<and> list_effects (snd r) = [PlayerLeft b])"

lemma Channel_Join_moves:
  assumes "session_ok w p"
  shows "comes_and_goes w (pl_guid p) c (Channel_Join w (pl_guid p) pass c)"
proof -
  have f: "FindPlayer w (pl_guid p) = Some p" "pl_guid p \<noteq> 0" using assms by (auto simp: session_ok_def)
  have "IsOn (c\<lparr>ch_players := omap_set (pl_guid p) i (ch_players c)\<rparr>) g \<longleftrightarrow> g = pl_guid p \<or> IsOn c g" for g i
    by (auto simp: IsOn_def omap_find_set)
  with f show ?thesis
    by (cases "IsOn c (pl_guid p)"; simp add: comes_and_goes_def Channel_Join_def Let_def case_prod_unfold)
qed

lemma hd_on:
  assumes "chan_ok c" and "ch_players (c\<lparr>ch_players := omap_erase p (ch_players c)\<rparr>) \<noteq> []"
  defines "n \<equiv> pi_player (snd (hd (omap_erase p (ch_players c))))"
  shows "IsOn c n" and "n \<noteq> p"
proof -
  obtain i where "omap_find (omap_erase p (ch_players c)) n = Some i"
    using hd_member [OF erase_member_ok [OF assms(1)] assms(2)] by (auto simp: n_def)
  then show "IsOn c n" and "n \<noteq> p" by (auto simp: IsOn_def omap_find_erase split: if_splits)
qed

lemma Channel_Leave_members:
  assumes "chan_ok c"
  shows "IsOn (fst (Channel_Leave w p send c)) g \<longleftrightarrow> g \<noteq> p \<and> IsOn c g"
proof -
  have e: "IsOn (c\<lparr>ch_players := omap_erase p (ch_players c)\<rparr>) g \<longleftrightarrow> g \<noteq> p \<and> IsOn c g"
    by (auto simp: IsOn_def omap_find_erase)
  show ?thesis
    using hd_on [OF assms, of p] e by (auto simp: Channel_Leave_def Let_def case_prod_unfold)
qed

lemma Channel_Leave_effects:
  "list_effects (snd (Channel_Leave w p send c)) =
     (if IsOn c p \<and> send then case FindPlayer w p of None \<Rightarrow> [] | Some pl \<Rightarrow> [PlayerLeft (pl_guid pl)] else [])"
  by (simp add: Channel_Leave_def Let_def case_prod_unfold split: option.split)

lemma Channel_Leave_moves:
  assumes "session_ok w p" and "chan_ok c"
  shows "comes_and_goes w (pl_guid p) c (Channel_Leave w (pl_guid p) True c)"
  using assms(1) Channel_Leave_members [OF assms(2), of w "pl_guid p" True] Channel_Leave_effects [of w "pl_guid p" True c]
  by (auto simp: comes_and_goes_def session_ok_def)

lemma Channel_KickOrBan_moves:
  assumes "chan_ok c" and "\<not> self_kick w (CKickOrBan good bad ban)"
  shows "comes_and_goes w good c (Channel_KickOrBan w good bad ban c)"
proof (cases "FindPlayerByName w bad")
  case None
  then show ?thesis by (simp add: comes_and_goes_def Channel_KickOrBan_def Let_def)
next
  case (Some b)
  then have other: "pl_guid b \<noteq> good" using assms(2) by simp
  have out: "IsOn (after_kick w good b ban c) g \<longleftrightarrow> g \<noteq> pl_guid b \<and> IsOn c g" if "IsOn c good" for g
  proof -
    have "IsOn (thrown_out b ban c) g \<longleftrightarrow> g \<noteq> pl_guid b \<and> IsOn c g" for g by (auto simp: IsOn_def omap_find_erase)
    then show ?thesis using that other by (auto simp: after_kick_def Let_def)
  qed
  show ?thesis
  proof (cases "IsOn c good \<and> (pi_IsModerator (member c good) \<or> IsGMAccount (security_of w good)) \<and> IsOn c (pl_guid b) \<and>
      (IsGMAccount (security_of w good) \<or> pl_guid b \<noteq> m_ownerGUID c \<or> good = m_ownerGUID c)")
    case True
    then have "fst (Channel_KickOrBan w good bad ban c) = after_kick w good b ban c"
      using Some by (auto simp: Channel_KickOrBan_fst)
    moreover have "list_effects (snd (Channel_KickOrBan w good bad ban c)) = [PlayerLeft (pl_guid b)]"
      using True Some by (auto simp: Channel_KickOrBan_def Let_def case_prod_unfold)
    ultimately show ?thesis using out True unfolding comes_and_goes_def by auto
  next
    case False
    then show ?thesis using Some by (auto simp: comes_and_goes_def Channel_KickOrBan_def Let_def)
  qed
qed

lemma chan_exec_moves:
  assumes "chan_ok c" and "\<not> self_kick w cmd" and "\<forall>p pass. cmd \<noteq> CJoin p pass" and "\<forall>p send. cmd \<noteq> CLeave p send"
  shows "comes_and_goes w (cmd_actor cmd) c (chan_exec w cmd c)"
proof (cases cmd)
  case (CKickOrBan good bad ban)
  with assms(1,2) Channel_KickOrBan_moves show ?thesis by simp
next
  case (CUnBan good bad)
  then show ?thesis by (simp add: comes_and_goes_def Channel_UnBan_def Let_def IsOn_def split: option.split)
next
  case (CPassword p pass)
  then show ?thesis by (simp add: comes_and_goes_def Channel_Password_def Let_def IsOn_def)
next
  case (CSetMode p n md st)
  then show ?thesis by (auto simp: comes_and_goes_def Channel_SetMode_def Let_def split: option.split)
next
  case (CSetOwner p n)
  then show ?thesis by (auto simp: comes_and_goes_def Channel_SetOwner_def Let_def case_prod_unfold split: option.split)
next
  case (CAnnounce p)
  then show ?thesis by (simp add: comes_and_goes_def Channel_Announce_def Let_def IsOn_def)
qed (use assms(3,4) in simp_all)

text \<open>A channel with a member has a positive number of players.\<close>

lemma players_counted:
  assumes "members_are_players c" and "IsOn c g"
  shows "GetNumPlayers c \<noteq> 0"
proof -
  let ?K = "fst ` set (ch_players c)"
  have K: "?K \<subseteq> {0<..<2 ^ 32}"
    using assms(1) unfolding members_are_players_def IsOn_def by (auto simp: omap_find_None_iff image_iff)
  have "distinct (map fst (ch_players c))" using assms(1) by (simp add: members_are_players_def omap_ok_distinct)
  then have len: "length (ch_players c) = card ?K" by (metis distinct_card length_map set_map)
  have "card ?K = card (unat ` ?K)" by (intro card_image [symmetric] inj_onI) (simp add: word_unat_eq_iff)
  also have "\<dots> \<le> card {0<..<(2::nat) ^ 32}"
  proof (rule card_mono)
    show "unat ` ?K \<subseteq> {0<..<2 ^ 32}"
    proof
      fix n assume "n \<in> unat ` ?K"
      then obtain x where "x \<in> {0<..<(2 :: u64) ^ 32}" "n = unat x" using K by blast
      then show "n \<in> {0<..<2 ^ 32}" by (simp add: word_less_nat_alt unat_gt_0)
    qed
  qed simp
  finally have "length (ch_players c) < 2 ^ 32" using len by simp
  moreover have "ch_players c \<noteq> []" using assms(2) by (auto simp: IsOn_def)
  ultimately show ?thesis
    unfolding GetNumPlayers_def word_of_nat_eq_0_iff by (auto dest!: dvd_imp_le)
qed

lemma chan_at_changes [simp]:
  "chan_at (put_mgr mid m s) x = (if fst x = mid then omap_find (cm_channels m) (snd x) else chan_at s x)"
  "chan_at (put_channel ch c es s) x = (if x = ch then Some c else chan_at s x)"
  "chan_at (s\<lparr>cs_joined := j\<rparr>) x = chan_at s x"
  by (auto simp: chan_at_def omap_find_set prod_eq_iff)

lemma put_mgr_joined [simp]: "cs_joined (put_mgr mid m s) = cs_joined s"
  by (simp add: put_mgr_def)

lemma registered_chan_ok: "registered_ok env k c \<Longrightarrow> chan_ok c"
  by (simp add: registered_ok_def)

lemma lists_okI:
  assumes "\<And>ch c. chan_at s ch = Some c \<Longrightarrow> members_are_players c" and "\<And>g. distinct (cs_joined s g)"
    and "\<And>g ch. ch \<in> set (cs_joined s g) \<Longrightarrow> \<exists>c. chan_at s ch = Some c \<and> IsOn c g"
  shows "lists_ok s"
  using assms by (simp add: lists_ok_def)

lemma lists_okD:
  assumes "lists_ok s"
  shows "chan_at s ch = Some c \<Longrightarrow> members_are_players c"
    and "distinct (cs_joined s g)"
    and "ch \<in> set (cs_joined s g) \<Longrightarrow> \<exists>c. chan_at s ch = Some c \<and> IsOn c g"
  using assms unfolding lists_ok_def by blast+

text \<open>A command on a registered channel keeps the lists right.\<close>

lemma put_channel_joined: "cs_joined (put_channel ch c es s) = fold (joined_effect ch) (list_effects es) (cs_joined s)"
  by (simp add: put_channel_def Let_def put_mgr_def fold_list_effects [of ch es])

lemma put_channel_lists:
  assumes s: "lists_ok s" and c: "chan_at s ch = Some c"
    and moves: "comes_and_goes w p c r" and ok: "omap_ok (ch_players (fst r))" and p: "0 < p" "p < 2 ^ 32"
  shows "lists_ok (put_channel ch (fst r) (snd r) s)"
proof (rule lists_okI, unfold put_channel_joined)
  let ?j = "fold (joined_effect ch) (list_effects (snd r)) (cs_joined s)"
  have mem: "members_are_players (fst r)"
    using lists_okD(1) [OF s c] moves ok p by (auto simp: members_are_players_def comes_and_goes_def)
  then show "members_are_players d" if "chan_at (put_channel ch (fst r) (snd r) s) x = Some d" for x d
    using that lists_okD(1) [OF s] by (auto split: if_splits)
  have on: "IsOn c g" if "ch \<in> set (cs_joined s g)" for g using lists_okD(3) [OF s that] c by auto
  consider (stay) "\<forall>g. IsOn (fst r) g = IsOn c g" "list_effects (snd r) = []"
    | (join) "\<not> IsOn c p" "\<forall>g. IsOn (fst r) g = (g = p \<or> IsOn c g)" "list_effects (snd r) = [PlayerJoined p]"
    | (out) b where "\<forall>g. IsOn (fst r) g = (g \<noteq> b \<and> IsOn c g)" "list_effects (snd r) = [PlayerLeft b]"
    using moves unfolding comes_and_goes_def by blast
  then have j: "distinct (?j g) \<and> (\<forall>x\<in>set (?j g). if x = ch then IsOn (fst r) g else x \<in> set (cs_joined s g))" for g
  proof cases
    case stay
    then show ?thesis using on lists_okD(2) [OF s] by auto
  next
    case join
    then have "ch \<notin> set (cs_joined s p)" using on by blast
    then show ?thesis using join on lists_okD(2) [OF s] by (auto simp: Player_JoinedChannel_def)
  next
    case (out b)
    then show ?thesis using on lists_okD(2) [OF s] by (auto simp: Player_LeftChannel_def distinct_removeAll)
  qed
  then show "distinct (?j g)" for g by blast
  show "\<exists>d. chan_at (put_channel ch (fst r) (snd r) s) x = Some d \<and> IsOn d g" if "x \<in> set (?j g)" for x g
    using j [of g] that lists_okD(3) [OF s, of x g] by (cases "x = ch") auto
qed

lemma left_lists:
  assumes "lists_ok s"
  shows "lists_ok (put_mgr mid (ChannelMgr_LeftChannel env name (cs_mgr s mid)) s)"
proof (rule lists_okI)
  let ?s = "put_mgr mid (ChannelMgr_LeftChannel env name (cs_mgr s mid)) s"
  have from_s: "chan_at s ch = Some c" if "chan_at ?s ch = Some c" for ch c
    using that by (auto simp: ChannelMgr_LeftChannel_def chan_at_def omap_find_erase split: option.splits if_splits)
  then show "chan_at ?s ch = Some c \<Longrightarrow> members_are_players c" for ch c using lists_okD(1) [OF assms] by blast
  show "distinct (cs_joined ?s g)" for g using lists_okD(2) [OF assms] by simp
  fix g ch assume "ch \<in> set (cs_joined ?s g)"
  then obtain c where c: "chan_at s ch = Some c" "IsOn c g" using lists_okD(3) [OF assms, of ch g] by auto
  then have "GetNumPlayers c \<noteq> 0" using players_counted lists_okD(1) [OF assms] by blast
  with c show "\<exists>c. chan_at ?s ch = Some c \<and> IsOn c g"
    by (auto simp: ChannelMgr_LeftChannel_def chan_at_def omap_find_erase split: option.split)
qed

lemma new_Channel_empty: "ch_players (fst (new_Channel store row w name ch team)) = []"
  by (auto simp: new_Channel_def Let_def split: option.split)

lemma GetJoinChannel_find:
  assumes "GetJoinChannel env w name chid m = (m', c, es)"
  shows "omap_find (cm_channels m') k = (if k = wkey env name then Some c else omap_find (cm_channels m) k)"
    and "omap_find (cm_channels m) (wkey env name) = Some c \<or>
      omap_find (cm_channels m) (wkey env name) = None \<and> ch_players c = []"
  using assms new_Channel_empty [of "sChatChannelsStore env" "channel_row env name (cm_team m)" w name chid "cm_team m"]
  by (auto simp: GetJoinChannel_def Let_def case_prod_unfold omap_find_set split: option.splits)

lemma join_channel_lists:
  assumes "chat_ok env s" and s: "lists_ok s" and p: "session_ok w p"
  shows "lists_ok (fst (join_channel env w p chid name pass s))"
proof (cases "may_join env p chid \<and> name \<noteq> [] \<and> channelMgr w (pl_team p) \<noteq> None")
  case False
  with assms(2) show ?thesis by (auto simp: join_channel_def)
next
  case True
  then obtain mid where mid: "channelMgr w (pl_team p) = Some mid" by blast
  let ?m = "(cs_mgr s mid)\<lparr>cm_team := pl_team p\<rparr>" and ?ch = "(mid, wkey env name)"
  obtain m c es where G: "GetJoinChannel env w name chid ?m = (m, c, es)" by (metis prod_cases3)
  have "mgr_ok env ?m" using assms(1) by (simp add: chat_ok_def)
  from GetJoinChannel_ok [OF this G] have reg: "chan_ok c" by (simp add: registered_ok_def)
  note find = GetJoinChannel_find [OF G]
  have c: "chan_at s ?ch = Some c \<or> chan_at s ?ch = None \<and> ch_players c = []" using find(2) by (simp add: chan_at_def)
  have m: "chan_at (put_mgr mid m s) x = (if x = ?ch then Some c else chan_at s x)" for x
    using find(1) by (auto simp: chan_at_def prod_eq_iff)
  have "lists_ok (put_mgr mid m s)"
  proof (rule lists_okI)
    show "members_are_players d" if "chan_at (put_mgr mid m s) x = Some d" for x d
      using that c lists_okD(1) [OF s] unfolding m by (auto simp: members_are_players_def IsOn_def split: if_splits)
    show "\<exists>d. chan_at (put_mgr mid m s) x = Some d \<and> IsOn d g" if "x \<in> set (cs_joined (put_mgr mid m s) g)" for g x
      using lists_okD(3) [OF s, of x g] that c unfolding m by auto
  qed (use lists_okD(2) [OF s] in simp)
  moreover have "omap_ok (ch_players (fst (Channel_Join w (pl_guid p) pass c)))"
    using Channel_Join_ok [OF reg, of "pl_guid p" w pass] p by (auto simp: session_ok_def chan_ok_def)
  moreover have "chan_at (put_mgr mid m s) ?ch = Some c" unfolding m by simp
  ultimately have "lists_ok (put_channel ?ch (fst (Channel_Join w (pl_guid p) pass c)) (snd (Channel_Join w (pl_guid p) pass c)) (put_mgr mid m s))"
    using Channel_Join_moves [OF p] p by (intro put_channel_lists) (auto simp: session_ok_def)
  then show ?thesis using True mid G by (simp add: join_channel_def Let_def case_prod_unfold)
qed

lemma on_channel_lists:
  assumes "chat_ok env s" and "lists_ok s" and "session_ok w p"
    and "\<And>c. chan_ok c \<Longrightarrow> comes_and_goes w (pl_guid p) c (f c) \<and> chan_ok (fst (f c))"
  shows "lists_ok (fst (on_channel env w p name f s))"
proof -
  have "lists_ok (put_channel (mid, wkey env name) (fst (f c)) (snd (f c)) s)"
    if c: "omap_find (cm_channels (cs_mgr s mid)) (wkey env name) = Some c" for mid c
  proof -
    have "chan_ok c" using assms(1) c unfolding chat_ok_def by (blast dest: mgr_okD registered_chan_ok)
    from assms(4) [OF this] c assms(2,3) show ?thesis
      by (intro put_channel_lists) (auto simp: session_ok_def chan_ok_def chan_at_def)
  qed
  then show ?thesis
    using assms(2) by (auto simp: on_channel_def GetChannel_def case_prod_unfold Let_def split: option.split)
qed

text \<open>The silent leave of the logout: the player's list does not have the channel any more.\<close>

lemma silent_leave_lists:
  assumes s: "lists_ok s" and c: "chan_at s ch = Some c" and ok: "chan_ok c" and "ch \<notin> set (cs_joined s p)"
  shows "lists_ok (put_channel ch (fst (Channel_Leave w p False c)) (snd (Channel_Leave w p False c)) s)"
proof (rule lists_okI)
  let ?L = "Channel_Leave w p False c"
  let ?s = "put_channel ch (fst ?L) (snd ?L) s"
  have j: "cs_joined ?s = cs_joined s" by (simp add: put_channel_joined Channel_Leave_effects)
  then show "distinct (cs_joined ?s g)" for g using lists_okD(2) [OF s] by simp
  have "omap_ok (ch_players (fst ?L))" using Channel_Leave_ok [OF ok] by (simp add: chan_ok_def)
  then have "members_are_players (fst ?L)"
    using lists_okD(1) [OF s c] Channel_Leave_members [OF ok] by (simp add: members_are_players_def)
  then show "members_are_players d" if "chan_at ?s x = Some d" for x d
    using that lists_okD(1) [OF s] by (auto split: if_splits)
  show "\<exists>d. chan_at ?s x = Some d \<and> IsOn d g" if "x \<in> set (cs_joined ?s g)" for g x
  proof (cases "x = ch")
    case True
    with that assms(4) j have "g \<noteq> p" by auto
    moreover have "IsOn c g" using lists_okD(3) [OF s, of x g] that c True j by auto
    ultimately show ?thesis using True Channel_Leave_members [OF ok] by simp
  qed (use lists_okD(3) [OF s, of x g] that j in simp)
qed

lemma CleanupChannels_ok:
  "chat_ok env s \<Longrightarrow> lists_ok (s\<lparr>cs_joined := (cs_joined s)(pl_guid p := chs)\<rparr>) \<Longrightarrow>
   (\<And>ch. ch \<in> set chs \<Longrightarrow> channelMgr w (pl_team p) = Some (fst ch)) \<Longrightarrow>
   \<exists>s' es. CleanupChannels_loop env w p chs s = Inr (s', es) \<and> chat_ok env s' \<and> lists_ok s' \<and> cs_joined s' (pl_guid p) = [] \<and>
     (\<forall>ch. ch \<in> set chs \<or> off_channel (pl_guid p) ch s \<longrightarrow> off_channel (pl_guid p) ch s')"
proof (induction chs arbitrary: s)
  case (Cons ch chs)
  let ?g = "pl_guid p"
  define s1 where "s1 = s\<lparr>cs_joined := (cs_joined s)(?g := chs)\<rparr>"
  have ok1: "chat_ok env s1" using Cons.prems(1) by (simp add: s1_def chat_ok_def)
  have off1: "off_channel ?g x s1 = off_channel ?g x s" for x by (simp add: off_channel_def s1_def)
  have mid: "channelMgr w (pl_team p) = Some (fst ch)" by (rule Cons.prems(3)) simp
  have later: "channelMgr w (pl_team p) = Some (fst x)" if "x \<in> set chs" for x by (rule Cons.prems(3)) (simp add: that)
  note L = lists_okD [OF Cons.prems(2)]
  have new: "ch \<notin> set chs" using L(2) [of ?g] by simp
  have lists: "lists_ok s1"
  proof (rule lists_okI)
    show "chan_at s1 x = Some d \<Longrightarrow> members_are_players d" for x d using L(1) by (simp add: s1_def)
    show "distinct (cs_joined s1 g)" for g using L(2) [of g] by (cases "g = ?g") (auto simp: s1_def)
    show "\<exists>d. chan_at s1 x = Some d \<and> IsOn d g" if "x \<in> set (cs_joined s1 g)" for g x
      using L(3) [of x g] that by (cases "g = ?g") (auto simp: s1_def)
  qed
  have "\<exists>c. chan_at s1 ch = Some c" using L(3) [of ch ?g] by (auto simp: s1_def)
  then obtain c where at: "chan_at s1 ch = Some c" by blast
  then have Some: "omap_find (cm_channels (cs_mgr s1 (fst ch))) (snd ch) = Some c" by (simp add: chan_at_def)
  note round = cleanup_round_ok [OF ok1 Some, where w = w and g = ?g]
  let ?L = "Channel_Leave w ?g False c" and ?r = "cleanup_round env w ?g ch c s1"
  have reg: "chan_ok c" using ok1 Some unfolding chat_ok_def by (blast dest: mgr_okD registered_chan_ok)
  have "lists_ok (put_channel ch (fst ?L) (snd ?L) s1)"
    by (rule silent_leave_lists [OF lists at reg]) (simp add: s1_def new)
  then have "lists_ok ?r" unfolding cleanup_round_def Let_def by (rule left_lists)
  moreover have j: "cs_joined ?r = cs_joined s1"
    by (simp add: cleanup_round_def Let_def put_channel_joined Channel_Leave_effects)
  moreover have "(cs_joined ?r)(?g := chs) = cs_joined ?r" unfolding j by (simp add: s1_def)
  moreover have "?r\<lparr>cs_joined := cs_joined ?r\<rparr> = ?r" by simp
  ultimately have "lists_ok (?r\<lparr>cs_joined := (cs_joined ?r)(?g := chs)\<rparr>)" by presburger
  from Cons.IH [OF round(1) this later] obtain s' es where
    "CleanupChannels_loop env w p chs ?r = Inr (s', es)" "chat_ok env s'" "lists_ok s'" "cs_joined s' ?g = []"
    "\<forall>x. x \<in> set chs \<or> off_channel ?g x ?r \<longrightarrow> off_channel ?g x s'" by blast
  then show ?case
    using Some mid Channel_Leave_frame [of w ?g False c] round(2,3) off1
    by (auto simp: case_prod_unfold Let_def cleanup_round_def simp flip: s1_def)
qed (simp add: chat_ok_def off_channel_def)

lemma chat_step_ok:
  assumes ok: "chat_ok env s" "lists_ok s" and p: "session_ok w p" and ev: "event_ok w p ev s"
  shows "\<exists>s' es. chat_step env w p ev s = Inr (s', es) \<and> chat_ok env s' \<and> lists_ok s'"
proof (cases ev)
  case (EvJoin ch name pass)
  have "pl_guid p \<noteq> 0" using p by (auto simp: session_ok_def)
  with EvJoin ok p show ?thesis
    using join_channel_ok [of env s p w ch name pass] join_channel_lists [OF ok p] by (metis chat_step.simps(1) prod.collapse)
next
  case (EvLeave name)
  have "chan_ok c \<Longrightarrow> comes_and_goes w (pl_guid p) c (Channel_Leave w (pl_guid p) True c) \<and> chan_ok (fst (Channel_Leave w (pl_guid p) True c))" for c
    using Channel_Leave_moves [OF p] Channel_Leave_ok by blast
  from on_channel_lists [OF ok p this] ok(2) have "lists_ok (fst (leave_channel env w p name s))"
    by (auto simp: leave_channel_def Let_def case_prod_unfold left_lists split: option.split)
  with EvLeave leave_channel_ok [OF ok(1)] show ?thesis by (metis chat_step.simps(2) prod.collapse)
next
  case (EvCommand name cmd)
  have cmd: "cmd_actor cmd = pl_guid p" "\<not> self_kick w cmd" "\<forall>p pass. cmd \<noteq> CJoin p pass" "\<forall>p send. cmd \<noteq> CLeave p send"
    and p0: "pl_guid p \<noteq> 0" using ev EvCommand p by (auto simp: session_ok_def split: chan_cmd.splits)
  have "registered_ok env k (fst (chan_exec w cmd c))" if "registered_ok env k c" for k c
    using registered_command [OF that, of cmd w] cmd p0 by auto
  then have "chat_ok env (fst (on_channel env w p name (chan_exec w cmd) s))" by (rule on_channel_ok [OF ok(1)])
  moreover have "chan_ok c \<Longrightarrow> comes_and_goes w (pl_guid p) c (chan_exec w cmd c) \<and> chan_ok (fst (chan_exec w cmd c))" for c
    using chan_exec_moves [of c w cmd] chan_exec_keeps [of c cmd w] cmd p0 by (auto simp: keeps_def)
  then have "lists_ok (fst (on_channel env w p name (chan_exec w cmd) s))" by (rule on_channel_lists [OF ok p])
  ultimately show ?thesis using EvCommand by (metis chat_step.simps(3) prod.collapse)
next
  case EvLogout
  then show ?thesis
    using CleanupChannels_ok [OF ok(1), of p "cs_joined s (pl_guid p)" w] ok(2) ev by (auto simp: CleanupChannels_def)
qed

text \<open>The chat states a server can reach, with any players and worlds.\<close>

inductive chat_reachable :: "('k::linorder) chat_env \<Rightarrow> 'k chat_state \<Rightarrow> bool" for env where
  start: "chat_reachable env new_chat_state"
| event: "chat_reachable env s \<Longrightarrow> session_ok w p \<Longrightarrow> event_ok w p ev s \<Longrightarrow> chat_step env w p ev s = Inr (s', es) \<Longrightarrow>
    chat_reachable env s'"

lemma chat_reachable_ok: "chat_reachable env s \<Longrightarrow> chat_ok env s \<and> lists_ok s"
proof (induction rule: chat_reachable.induct)
  case start
  show ?case by (simp add: chat_ok_def new_chat_state_def new_ChannelMgr_def mgr_ok_def lists_ok_def chan_at_def)
next
  case (event s w p ev s' es)
  then show ?case using chat_step_ok [of env s w p ev] by auto
qed

section \<open>Properties\<close>


definition example_env :: "nat chat_env" where
  "example_env =
     \<lparr>wkey = length, normalizePlayerName = Some, sChatChannelsStore = (\<lambda>_. None), area_flags = (\<lambda>_. None),
      channel_row = (\<lambda>_ _. None)\<rparr>"

definition example_chat :: "nat chat_state" where
  "example_chat =
     fst (join_channel example_env (example_world [example_player 1 ''Bob'' 0] []) (example_player 1 ''Bob'' 0)
       0 ''Ork'' [] new_chat_state)"

lemma example_chat_reachable: "chat_reachable example_env example_chat"
proof (rule chat_reachable.event [OF chat_reachable.start])
  let ?w = "example_world [example_player 1 ''Bob'' 0] []" and ?p = "example_player 1 ''Bob'' 0"
  show "session_ok ?w ?p"
    by (auto simp: session_ok_def world_keyed_def example_world_def example_player_def FindPlayer_def split: if_splits)
  show "chat_step example_env ?w ?p (EvJoin 0 ''Ork'' []) new_chat_state =
      Inr (example_chat, snd (join_channel example_env ?w ?p 0 ''Ork'' [] new_chat_state))" by (simp add: example_chat_def)
qed simp



text \<open>
  C13. Logging out takes the player off all his channels, and never follows a pointer to a deleted channel: afterwards his list is
  empty, he is a member of none of the channels that were on it, and the managers are consistent.
\<close>

theorem logout_cleans_up:
  assumes "chat_reachable env s"
    and "\<forall>ch \<in> set (cs_joined s (pl_guid p)). channelMgr w (pl_team p) = Some (fst ch)"
  shows "\<exists>s' es. CleanupChannels env w p s = Inr (s', es) \<and> cs_joined s' (pl_guid p) = [] \<and>
    (\<forall>ch \<in> set (cs_joined s (pl_guid p)). off_channel (pl_guid p) ch s') \<and> chat_ok env s'"
  using CleanupChannels_ok [of env s p "cs_joined s (pl_guid p)" w] chat_reachable_ok [OF assms(1)] assms(2)
  by (auto simp: CleanupChannels_def)

lemma fold_joined_subset: "set (fold (joined_effect ch) es j g) \<subseteq> insert ch (set (j g))"
proof (induction es arbitrary: j)
  case (Cons e es)
  have "set (joined_effect ch e j g) \<subseteq> insert ch (set (j g))"
    by (cases e) (auto simp: Player_JoinedChannel_def Player_LeftChannel_def)
  with Cons.IH [of "joined_effect ch e j"] show ?case by auto
qed auto

lemma join_channel_joined:
  "ch \<in> set (cs_joined (fst (join_channel env w p chid name pass s)) g) \<Longrightarrow>
   ch \<in> set (cs_joined s g) \<or> channelMgr w (pl_team p) = Some (fst ch)"
  using fold_joined_subset
  by (fastforce simp: join_channel_def put_channel_def put_mgr_def Let_def case_prod_unfold split: if_splits option.splits)

theorem logout_cleans_up_witness:
  "\<exists>s' es. CleanupChannels example_env (example_world [example_player 1 ''Bob'' 0] []) (example_player 1 ''Bob'' 0) example_chat =
     Inr (s', es) \<and> cs_joined s' 1 = []"
proof -
  let ?w = "example_world [example_player 1 ''Bob'' 0] []" and ?p = "example_player 1 ''Bob'' 0"
  have "\<forall>ch \<in> set (cs_joined example_chat (pl_guid ?p)). channelMgr ?w (pl_team ?p) = Some (fst ch)"
    unfolding example_chat_def by (auto simp: new_chat_state_def dest: join_channel_joined)
  moreover have "pl_guid ?p = 1" by (simp add: example_player_def)
  ultimately show ?thesis using logout_cleans_up [OF example_chat_reachable, of ?p ?w] by auto
qed

end
