(* ===== verification/Reputation.thy ===== *)
theory Reputation
  imports World_Model
begin

text \<open>
  Reputation of a player with the factions, \<^verbatim>\<open>game/Reputation/ReputationMgr.h\<close> and \<^verbatim>\<open>.cpp\<close>.  The faction list of the
  client, the spillover table and the rates are an environment; floating-point arithmetic is a record
  of operations on an abstract type, so nothing below depends on how it rounds.  Calls into the
  player's quests, scripts and achievements are effects.
\<close>

section \<open>Data\<close>

datatype ReputationRank =
    REP_HATED | REP_HOSTILE | REP_UNFRIENDLY | REP_NEUTRAL | REP_FRIENDLY | REP_HONORED | REP_REVERED | REP_EXALTED

fun rank_code :: "ReputationRank \<Rightarrow> nat" where
  "rank_code REP_HATED = 0"
| "rank_code REP_HOSTILE = 1"
| "rank_code REP_UNFRIENDLY = 2"
| "rank_code REP_NEUTRAL = 3"
| "rank_code REP_FRIENDLY = 4"
| "rank_code REP_HONORED = 5"
| "rank_code REP_REVERED = 6"
| "rank_code REP_EXALTED = 7"

definition all_ranks :: "ReputationRank list" where
  "all_ranks = [REP_HATED, REP_HOSTILE, REP_UNFRIENDLY, REP_NEUTRAL, REP_FRIENDLY, REP_HONORED, REP_REVERED, REP_EXALTED]"

text \<open>Ranks are compared as the numbers they stand for.\<close>

lemma rank_code_inject: "rank_code a = rank_code b \<longleftrightarrow> a = b"
  by (cases a; cases b) simp_all

instantiation ReputationRank :: linorder
begin

definition less_eq_ReputationRank :: "ReputationRank \<Rightarrow> ReputationRank \<Rightarrow> bool" where
  "less_eq_ReputationRank a b = (rank_code a \<le> rank_code b)"

definition less_ReputationRank :: "ReputationRank \<Rightarrow> ReputationRank \<Rightarrow> bool" where
  "less_ReputationRank a b = (rank_code a < rank_code b)"

instance
  by standard (auto simp: less_eq_ReputationRank_def less_ReputationRank_def rank_code_inject)

end

datatype FactionFlags =
    FACTION_FLAG_NONE | FACTION_FLAG_VISIBLE | FACTION_FLAG_AT_WAR | FACTION_FLAG_HIDDEN
  | FACTION_FLAG_INVISIBLE_FORCED | FACTION_FLAG_PEACE_FORCED | FACTION_FLAG_INACTIVE | FACTION_FLAG_RIVAL
  | FACTION_FLAG_SPECIAL

fun faction_flag :: "FactionFlags \<Rightarrow> u8" where
  "faction_flag FACTION_FLAG_NONE = 0x00"
| "faction_flag FACTION_FLAG_VISIBLE = 0x01"
| "faction_flag FACTION_FLAG_AT_WAR = 0x02"
| "faction_flag FACTION_FLAG_HIDDEN = 0x04"
| "faction_flag FACTION_FLAG_INVISIBLE_FORCED = 0x08"
| "faction_flag FACTION_FLAG_PEACE_FORCED = 0x10"
| "faction_flag FACTION_FLAG_INACTIVE = 0x20"
| "faction_flag FACTION_FLAG_RIVAL = 0x40"
| "faction_flag FACTION_FLAG_SPECIAL = 0x80"

record faction_state =
  fs_ID :: u32
  fs_ListID :: u32
  fs_Flags :: u8
  fs_Standing :: int
  needSend :: bool
  needSave :: bool

definition FactionState0 :: faction_state where
  "FactionState0 = \<lparr>fs_ID = 0, fs_ListID = 0, fs_Flags = 0, fs_Standing = 0, needSend = False, needSave = False\<rparr>"

definition fs_Has :: "faction_state \<Rightarrow> FactionFlags \<Rightarrow> bool" where
  "fs_Has fs f = (fs_Flags fs AND faction_flag f \<noteq> 0)"

record 'f faction_entry =
  fe_ID :: u32
  reputationListID :: int
  BaseRepRaceMask :: "u32 list"
  BaseRepClassMask :: "u32 list"
  BaseRepValue :: "int list"
  ReputationFlags :: "u32 list"
  fe_team :: u32
  spilloverRateIn :: 'f
  spilloverRateOut :: 'f
  spilloverMaxRankIn :: u32

record rep_mgr =
  m_factions :: "(u32, faction_state) omap"
  m_forcedReactions :: "(u32, ReputationRank) omap"
  m_visibleFactionCount :: u8
  m_honoredFactionCount :: u8
  m_reveredFactionCount :: u8
  m_exaltedFactionCount :: u8

definition new_ReputationMgr :: rep_mgr where
  "new_ReputationMgr =
     \<lparr>m_factions = [], m_forcedReactions = [], m_visibleFactionCount = 0, m_honoredFactionCount = 0,
      m_reveredFactionCount = 0, m_exaltedFactionCount = 0\<rparr>"

text \<open>Floating point: conversion from and to integers, product, sum, \<^verbatim>\<open>floor\<close>, the constant 0.5 and the test for zero.\<close>

record 'f float_ops =
  f_of_int :: "int \<Rightarrow> 'f"
  f_to_int :: "'f \<Rightarrow> int"
  f_mul :: "'f \<Rightarrow> 'f \<Rightarrow> 'f"
  f_add :: "'f \<Rightarrow> 'f \<Rightarrow> 'f"
  f_floor :: "'f \<Rightarrow> 'f"
  f_half :: 'f
  f_is_zero :: "'f \<Rightarrow> bool"

text \<open>The player's masks, guid and loading state; the faction store; the spillover table (faction, rate, rank); the gain rate; the
  value the scripts' \<^verbatim>\<open>OnReputationChange\<close> hooks leave in the standing they get by reference.\<close>

record 'f rep_env =
  fl :: "'f float_ops"
  raceMask :: u32
  classMask :: u32
  owner_guid :: u64
  player_loading :: bool
  sFactionStore :: "u32 \<Rightarrow> 'f faction_entry option"
  faction_rows :: nat
  GetFactionTeamList :: "u32 \<Rightarrow> u32 list option"
  GetRepSpilloverTemplate :: "u32 \<Rightarrow> (u32 \<times> 'f \<times> u32) list option"
  rate_reputation_gain :: 'f
  OnReputationChange :: "u32 \<Rightarrow> int \<Rightarrow> bool \<Rightarrow> int"

datatype rep_effect =
    RepSend u64 world_packet
  | OnPlayerReputationChange u32 int bool
  | ReputationChanged u32
  | UpdateAchievementCriteria nat u32
  | RepDelete u32 u32
  | RepInsert u32 u32 int u8

section \<open>Ranks and standings\<close>

abbreviation Reputation_Cap :: int where "Reputation_Cap \<equiv> 42999"
abbreviation Reputation_Bottom :: int where "Reputation_Bottom \<equiv> - 42000"

definition PointsInRank :: "int list" where
  "PointsInRank = [36000, 3000, 3000, 3000, 6000, 12000, 21000, 1000]"

fun ReputationToRank_loop :: "nat \<Rightarrow> int \<Rightarrow> int \<Rightarrow> ReputationRank" where
  "ReputationToRank_loop 0 standing limit = REP_HATED"
| "ReputationToRank_loop (Suc i) standing limit =
     (let limit' = limit - PointsInRank ! i
      in if limit' \<le> standing then all_ranks ! i else ReputationToRank_loop i standing limit')"

definition ReputationToRank :: "int \<Rightarrow> ReputationRank" where
  "ReputationToRank standing = ReputationToRank_loop 8 standing (Reputation_Cap + 1)"

definition list_key :: "'f faction_entry \<Rightarrow> u32" where
  "list_key fe = word_of_int (reputationListID fe)"

definition GetState :: "'f faction_entry \<Rightarrow> rep_mgr \<Rightarrow> faction_state option" where
  "GetState fe m = (if 0 \<le> reputationListID fe then omap_find (m_factions m) (list_key fe) else None)"

text \<open>The row of the base-reputation arrays that applies to the player, if any.\<close>

definition base_row_applies :: "'f rep_env \<Rightarrow> 'f faction_entry \<Rightarrow> nat \<Rightarrow> bool" where
  "base_row_applies env fe i =
     ((BaseRepRaceMask fe ! i AND raceMask env \<noteq> 0 \<or> BaseRepRaceMask fe ! i = 0 \<and> BaseRepClassMask fe ! i \<noteq> 0) \<and>
      (BaseRepClassMask fe ! i AND classMask env \<noteq> 0 \<or> BaseRepClassMask fe ! i = 0))"

definition GetBaseReputation :: "'f rep_env \<Rightarrow> 'f faction_entry option \<Rightarrow> int" where
  "GetBaseReputation env fe =
     (case fe of None \<Rightarrow> 0
      | Some f \<Rightarrow> (case find (base_row_applies env f) [0..<4] of None \<Rightarrow> 0 | Some i \<Rightarrow> BaseRepValue f ! i))"

definition GetDefaultStateFlags :: "'f rep_env \<Rightarrow> 'f faction_entry option \<Rightarrow> u32" where
  "GetDefaultStateFlags env fe =
     (case fe of None \<Rightarrow> 0
      | Some f \<Rightarrow> (case find (base_row_applies env f) [0..<4] of None \<Rightarrow> 0 | Some i \<Rightarrow> ReputationFlags f ! i))"

definition GetReputation :: "'f rep_env \<Rightarrow> 'f faction_entry option \<Rightarrow> rep_mgr \<Rightarrow> int" where
  "GetReputation env fe m =
     (case fe of None \<Rightarrow> 0
      | Some f \<Rightarrow> (case GetState f m of None \<Rightarrow> 0 | Some st \<Rightarrow> i32 (GetBaseReputation env fe + fs_Standing st)))"

definition GetReputation_id :: "'f rep_env \<Rightarrow> u32 \<Rightarrow> rep_mgr \<Rightarrow> int" where
  "GetReputation_id env faction_id m =
     (case sFactionStore env faction_id of None \<Rightarrow> 0 | Some f \<Rightarrow> GetReputation env (Some f) m)"

definition GetRank :: "'f rep_env \<Rightarrow> 'f faction_entry option \<Rightarrow> rep_mgr \<Rightarrow> ReputationRank" where
  "GetRank env fe m = ReputationToRank (GetReputation env fe m)"

definition GetBaseRank :: "'f rep_env \<Rightarrow> 'f faction_entry option \<Rightarrow> ReputationRank" where
  "GetBaseRank env fe = ReputationToRank (GetBaseReputation env fe)"

definition IsAtWar :: "'f faction_entry option \<Rightarrow> rep_mgr \<Rightarrow> bool" where
  "IsAtWar fe m =
     (case fe of None \<Rightarrow> False
      | Some f \<Rightarrow> (case GetState f m of None \<Rightarrow> False | Some st \<Rightarrow> fs_Has st FACTION_FLAG_AT_WAR))"

definition IsAtWar_id :: "'f rep_env \<Rightarrow> u32 \<Rightarrow> rep_mgr \<Rightarrow> bool" where
  "IsAtWar_id env faction_id m =
     (case sFactionStore env faction_id of None \<Rightarrow> False | Some f \<Rightarrow> IsAtWar (Some f) m)"

definition GetForcedRankIfAny :: "u32 \<Rightarrow> rep_mgr \<Rightarrow> ReputationRank option" where
  "GetForcedRankIfAny faction m = omap_find (m_forcedReactions m) faction"

definition ApplyForceReaction :: "u32 \<Rightarrow> ReputationRank \<Rightarrow> bool \<Rightarrow> rep_mgr \<Rightarrow> rep_mgr" where
  "ApplyForceReaction faction_id rank apply m =
     (if apply then m\<lparr>m_forcedReactions := omap_set faction_id rank (m_forcedReactions m)\<rparr>
      else m\<lparr>m_forcedReactions := omap_erase faction_id (m_forcedReactions m)\<rparr>)"

definition UpdateRankCounters :: "ReputationRank \<Rightarrow> ReputationRank \<Rightarrow> rep_mgr \<Rightarrow> rep_mgr" where
  "UpdateRankCounters old_rank new_rank m =
     (let m = (if REP_EXALTED \<le> old_rank then m\<lparr>m_exaltedFactionCount := m_exaltedFactionCount m - 1\<rparr> else m);
          m = (if REP_REVERED \<le> old_rank then m\<lparr>m_reveredFactionCount := m_reveredFactionCount m - 1\<rparr> else m);
          m = (if REP_HONORED \<le> old_rank then m\<lparr>m_honoredFactionCount := m_honoredFactionCount m - 1\<rparr> else m);
          m = (if REP_EXALTED \<le> new_rank then m\<lparr>m_exaltedFactionCount := m_exaltedFactionCount m + 1\<rparr> else m);
          m = (if REP_REVERED \<le> new_rank then m\<lparr>m_reveredFactionCount := m_reveredFactionCount m + 1\<rparr> else m);
          m = (if REP_HONORED \<le> new_rank then m\<lparr>m_honoredFactionCount := m_honoredFactionCount m + 1\<rparr> else m)
      in m)"

section \<open>Flags\<close>

abbreviation SMSG_INITIALIZE_FACTIONS :: u16 where "SMSG_INITIALIZE_FACTIONS \<equiv> 0x122"
abbreviation SMSG_SET_FACTION_VISIBLE :: u16 where "SMSG_SET_FACTION_VISIBLE \<equiv> 0x123"
abbreviation SMSG_SET_FACTION_STANDING :: u16 where "SMSG_SET_FACTION_STANDING \<equiv> 0x124"
abbreviation SMSG_SET_FORCED_REACTIONS :: u16 where "SMSG_SET_FORCED_REACTIONS \<equiv> 0x2A5"

definition SendVisible :: "'f rep_env \<Rightarrow> faction_state \<Rightarrow> rep_effect list" where
  "SendVisible env fs =
     (if player_loading env then []
      else [RepSend (owner_guid env) (wp_add [Out32 (fs_ListID fs)] (new_WorldPacket SMSG_SET_FACTION_VISIBLE))])"

definition can_show :: "faction_state \<Rightarrow> bool" where
  "can_show fs =
     (\<not> (fs_Flags fs AND (faction_flag FACTION_FLAG_INVISIBLE_FORCED OR faction_flag FACTION_FLAG_HIDDEN) \<noteq> 0 \<and>
         \<not> fs_Has fs FACTION_FLAG_SPECIAL) \<and>
      \<not> fs_Has fs FACTION_FLAG_VISIBLE)"

text \<open>\<^verbatim>\<open>SetVisible(FactionState*)\<close> on the entry filed under \<open>k\<close>.\<close>

definition SetVisible_state :: "'f rep_env \<Rightarrow> u32 \<Rightarrow> rep_mgr \<Rightarrow> rep_mgr \<times> rep_effect list" where
  "SetVisible_state env k m =
     (case omap_find (m_factions m) k of
        None \<Rightarrow> (m, [])
      | Some fs \<Rightarrow>
          if \<not> can_show fs then (m, [])
          else let fs' = fs\<lparr>fs_Flags := fs_Flags fs OR faction_flag FACTION_FLAG_VISIBLE, needSend := True, needSave := True\<rparr>
               in (m\<lparr>m_factions := omap_set k fs' (m_factions m), m_visibleFactionCount := m_visibleFactionCount m + 1\<rparr>,
                   SendVisible env fs'))"

definition SetVisible_entry :: "'f rep_env \<Rightarrow> 'f faction_entry \<Rightarrow> rep_mgr \<Rightarrow> rep_mgr \<times> rep_effect list" where
  "SetVisible_entry env fe m =
     (if reputationListID fe < 0 then (m, []) else SetVisible_state env (list_key fe) m)"

definition SetVisible_template :: "'f rep_env \<Rightarrow> u32 \<Rightarrow> rep_mgr \<Rightarrow> rep_mgr \<times> rep_effect list" where
  "SetVisible_template env template_faction m =
     (if template_faction = 0 then (m, [])
      else case sFactionStore env template_faction of
             None \<Rightarrow> (m, [])
           | Some fe \<Rightarrow>
               if \<not> (BaseRepRaceMask fe ! 1 AND raceMask env \<noteq> 0 \<and> BaseRepValue fe ! 1 = Reputation_Bottom)
               then SetVisible_entry env fe m else (m, []))"

definition SetAtWar_state :: "bool \<Rightarrow> faction_state \<Rightarrow> faction_state" where
  "SetAtWar_state atWar fs =
     (if atWar \<and> fs_Has fs FACTION_FLAG_PEACE_FORCED then fs
      else if fs_Has fs FACTION_FLAG_AT_WAR = atWar then fs
      else fs\<lparr>fs_Flags := (if atWar then fs_Flags fs OR faction_flag FACTION_FLAG_AT_WAR
                           else fs_Flags fs AND NOT (faction_flag FACTION_FLAG_AT_WAR)),
              needSend := True, needSave := True\<rparr>)"

definition SetAtWar :: "u32 \<Rightarrow> bool \<Rightarrow> rep_mgr \<Rightarrow> rep_mgr" where
  "SetAtWar repListID on m =
     (case omap_find (m_factions m) repListID of
        None \<Rightarrow> m
      | Some fs \<Rightarrow>
          if fs_Flags fs AND (faction_flag FACTION_FLAG_INVISIBLE_FORCED OR faction_flag FACTION_FLAG_HIDDEN) \<noteq> 0 then m
          else m\<lparr>m_factions := omap_set repListID (SetAtWar_state on fs) (m_factions m)\<rparr>)"

definition SetInactive_state :: "bool \<Rightarrow> faction_state \<Rightarrow> faction_state" where
  "SetInactive_state inactive fs =
     (if inactive \<and>
         (fs_Flags fs AND (faction_flag FACTION_FLAG_INVISIBLE_FORCED OR faction_flag FACTION_FLAG_HIDDEN) \<noteq> 0 \<or>
          \<not> fs_Has fs FACTION_FLAG_VISIBLE) then fs
      else if fs_Has fs FACTION_FLAG_INACTIVE = inactive then fs
      else fs\<lparr>fs_Flags := (if inactive then fs_Flags fs OR faction_flag FACTION_FLAG_INACTIVE
                           else fs_Flags fs AND NOT (faction_flag FACTION_FLAG_INACTIVE)),
              needSend := True, needSave := True\<rparr>)"

definition SetInactive :: "u32 \<Rightarrow> bool \<Rightarrow> rep_mgr \<Rightarrow> rep_mgr" where
  "SetInactive repListID on m =
     (case omap_find (m_factions m) repListID of
        None \<Rightarrow> m
      | Some fs \<Rightarrow> m\<lparr>m_factions := omap_set repListID (SetInactive_state on fs) (m_factions m)\<rparr>)"


section \<open>Packets\<close>

definition SendForceReactions :: "'f rep_env \<Rightarrow> rep_mgr \<Rightarrow> rep_effect list" where
  "SendForceReactions env m =
     [RepSend (owner_guid env)
        (wp_add (concat (map (\<lambda>(faction_id, rank). [Out32 faction_id, Out32 (of_nat (rank_code rank))]) (m_forcedReactions m)))
           (wp_add [Out32 (of_nat (length (m_forcedReactions m)))] (new_WorldPacket SMSG_SET_FORCED_REACTIONS)))]"

text \<open>The loop of \<^verbatim>\<open>SendState\<close>: the states with \<open>needSend\<close> cleared, the records appended, the count.\<close>

fun SendState_loop ::
  "u32 \<Rightarrow> (u32, faction_state) omap \<Rightarrow> u32 \<Rightarrow> (u32, faction_state) omap \<times> pkt_op list \<times> u32" where
  "SendState_loop self [] count = ([], [], count)"
| "SendState_loop self ((k, fs) # fss) count =
     (if needSend fs
      then (let (fss', ops, count') =
                  SendState_loop self fss (if fs_ListID fs \<noteq> self then count + 1 else count)
            in ((k, fs\<lparr>needSend := False\<rparr>) # fss',
                (if fs_ListID fs \<noteq> self then [Out32 (fs_ListID fs), Out32 (word_of_int (fs_Standing fs))] else []) @ ops,
                count'))
      else (let (fss', ops, count') = SendState_loop self fss count in ((k, fs) # fss', ops, count')))"

text \<open>The leading \<^verbatim>\<open>float\<close> is the constant 0, four zero bytes; the count is put at offset 5 afterwards.\<close>

definition SendState :: "'f rep_env \<Rightarrow> faction_state \<Rightarrow> rep_mgr \<Rightarrow> rep_mgr \<times> rep_effect list" where
  "SendState env faction m =
     (let (fss, ops, count) = SendState_loop (fs_ListID faction) (m_factions m) 1
      in (m\<lparr>m_factions := fss\<rparr>,
          [RepSend (owner_guid env)
             (wp_add ([Out32 0, Out8 0, Out32 1, Out32 (fs_ListID faction), Out32 (word_of_int (fs_Standing faction))] @
                      ops @ [Put32 5 count])
                (new_WorldPacket SMSG_SET_FACTION_STANDING))]))"

text \<open>
  The counter \<open>a\<close> of \<^verbatim>\<open>SendInitialReputations\<close> steps through \<^verbatim>\<open>uint32\<close> until it equals the next key, so the number of
  absent records is the wrapped difference.
\<close>

definition absent_records :: "u32 \<Rightarrow> u32 \<Rightarrow> pkt_op list" where
  "absent_records a stop = concat (replicate (unat (stop - a)) [Out8 0, Out32 0])"

fun SendInitialReputations_loop :: "u32 \<Rightarrow> (u32, faction_state) omap \<Rightarrow> pkt_op list" where
  "SendInitialReputations_loop a [] = absent_records a 128"
| "SendInitialReputations_loop a ((k, fs) # fss) =
     absent_records a k @ [Out8 (fs_Flags fs), Out32 (word_of_int (fs_Standing fs))] @ SendInitialReputations_loop (k + 1) fss"

definition SendInitialReputations :: "'f rep_env \<Rightarrow> rep_mgr \<Rightarrow> rep_mgr \<times> rep_effect list" where
  "SendInitialReputations env m =
     (m\<lparr>m_factions := map (\<lambda>(k, fs). (k, fs\<lparr>needSend := False\<rparr>)) (m_factions m)\<rparr>,
      [RepSend (owner_guid env)
         (wp_add ([Out32 0x80] @ SendInitialReputations_loop 0 (m_factions m)) (new_WorldPacket SMSG_INITIALIZE_FACTIONS))])"

fun SendStates_loop :: "'f rep_env \<Rightarrow> u32 list \<Rightarrow> rep_mgr \<Rightarrow> rep_mgr \<times> rep_effect list" where
  "SendStates_loop env [] m = (m, [])"
| "SendStates_loop env (k # ks) m =
     (case omap_find (m_factions m) k of
        None \<Rightarrow> SendStates_loop env ks m
      | Some fs \<Rightarrow>
          (let (m, e) = SendState env fs m; (m', e') = SendStates_loop env ks m in (m', e @ e')))"

definition SendStates :: "'f rep_env \<Rightarrow> rep_mgr \<Rightarrow> rep_mgr \<times> rep_effect list" where
  "SendStates env m = SendStates_loop env (map fst (m_factions m)) m"

section \<open>Initialisation and changes of reputation\<close>

definition Initialize_row :: "'f rep_env \<Rightarrow> 'f faction_entry \<Rightarrow> rep_mgr \<Rightarrow> rep_mgr" where
  "Initialize_row env fe m =
     (let fs = \<lparr>fs_ID = fe_ID fe, fs_ListID = list_key fe, fs_Flags = ucast (GetDefaultStateFlags env (Some fe)),
                fs_Standing = 0, needSend = True, needSave = True\<rparr>;
          m = (if fs_Has fs FACTION_FLAG_VISIBLE then m\<lparr>m_visibleFactionCount := m_visibleFactionCount m + 1\<rparr> else m);
          m = UpdateRankCounters REP_HOSTILE (GetBaseRank env (Some fe)) m
      in m\<lparr>m_factions := omap_set (fs_ListID fs) fs (m_factions m)\<rparr>)"

fun Initialize_loop :: "'f rep_env \<Rightarrow> nat list \<Rightarrow> rep_mgr \<Rightarrow> rep_mgr" where
  "Initialize_loop env [] m = m"
| "Initialize_loop env (i # is) m =
     (case sFactionStore env (of_nat i) of
        None \<Rightarrow> Initialize_loop env is m
      | Some fe \<Rightarrow> Initialize_loop env is (if 0 \<le> reputationListID fe then Initialize_row env fe m else m))"

definition Initialize_mgr :: "'f rep_env \<Rightarrow> rep_mgr \<Rightarrow> rep_mgr" where
  "Initialize_mgr env m =
     Initialize_loop env [1..<faction_rows env]
       (m\<lparr>m_factions := [], m_visibleFactionCount := 0, m_honoredFactionCount := 0,
          m_reveredFactionCount := 0, m_exaltedFactionCount := 0\<rparr>)"

abbreviation ACHIEVEMENT_CRITERIA_TYPE_GAIN_REPUTATION :: nat where "ACHIEVEMENT_CRITERIA_TYPE_GAIN_REPUTATION \<equiv> 46"
abbreviation ACHIEVEMENT_CRITERIA_TYPE_GAIN_EXALTED_REPUTATION :: nat where "ACHIEVEMENT_CRITERIA_TYPE_GAIN_EXALTED_REPUTATION \<equiv> 47"
abbreviation ACHIEVEMENT_CRITERIA_TYPE_GAIN_REVERED_REPUTATION :: nat where "ACHIEVEMENT_CRITERIA_TYPE_GAIN_REVERED_REPUTATION \<equiv> 87"
abbreviation ACHIEVEMENT_CRITERIA_TYPE_GAIN_HONORED_REPUTATION :: nat where "ACHIEVEMENT_CRITERIA_TYPE_GAIN_HONORED_REPUTATION \<equiv> 88"
abbreviation ACHIEVEMENT_CRITERIA_TYPE_KNOWN_FACTIONS :: nat where "ACHIEVEMENT_CRITERIA_TYPE_KNOWN_FACTIONS \<equiv> 89"

definition reputation_reports :: "u32 \<Rightarrow> rep_effect list" where
  "reputation_reports faction_id =
     [ReputationChanged faction_id,
      UpdateAchievementCriteria ACHIEVEMENT_CRITERIA_TYPE_KNOWN_FACTIONS faction_id,
      UpdateAchievementCriteria ACHIEVEMENT_CRITERIA_TYPE_GAIN_REPUTATION faction_id,
      UpdateAchievementCriteria ACHIEVEMENT_CRITERIA_TYPE_GAIN_EXALTED_REPUTATION faction_id,
      UpdateAchievementCriteria ACHIEVEMENT_CRITERIA_TYPE_GAIN_REVERED_REPUTATION faction_id,
      UpdateAchievementCriteria ACHIEVEMENT_CRITERIA_TYPE_GAIN_HONORED_REPUTATION faction_id]"

definition gained_standing :: "'f rep_env \<Rightarrow> int \<Rightarrow> int" where
  "gained_standing env standing =
     i32 (f_to_int (fl env) (f_floor (fl env)
       (f_add (fl env) (f_mul (fl env) (f_of_int (fl env) standing) (rate_reputation_gain env)) (f_half (fl env)))))"

definition clamp_standing :: "int \<Rightarrow> int" where
  "clamp_standing standing =
     (if Reputation_Cap < standing then Reputation_Cap
      else if standing < Reputation_Bottom then Reputation_Bottom else standing)"

definition SetOneFactionReputation ::
  "'f rep_env \<Rightarrow> 'f faction_entry \<Rightarrow> int \<Rightarrow> bool \<Rightarrow> rep_mgr \<Rightarrow> bool \<times> rep_mgr \<times> rep_effect list" where
  "SetOneFactionReputation env fe standing incremental m =
     (let k = list_key fe
      in case omap_find (m_factions m) k of
           None \<Rightarrow> (False, m, [])
         | Some fs \<Rightarrow>
             (let BaseRep = GetBaseReputation env (Some fe);
                  standing = (if incremental then i32 (gained_standing env standing + (fs_Standing fs + BaseRep)) else standing);
                  standing = clamp_standing standing;
                  old_rank = ReputationToRank (i32 (fs_Standing fs + BaseRep));
                  new_rank = ReputationToRank standing;
                  m = m\<lparr>m_factions := omap_set k
                           (fs\<lparr>fs_Standing := i32 (standing - BaseRep), needSend := True, needSave := True\<rparr>) (m_factions m)\<rparr>;
                  (m, seen) = SetVisible_state env k m;
                  m = (if new_rank \<le> REP_HOSTILE
                       then m\<lparr>m_factions := omap_upd FactionState0 (SetAtWar_state True) k (m_factions m)\<rparr> else m);
                  m = UpdateRankCounters old_rank new_rank m
              in (True, m, seen @ reputation_reports (fe_ID fe))))"


text \<open>
  \<^verbatim>\<open>Player::GetReputationRank\<close>, then spillover by template: \<^verbatim>\<open>SetOneFactionReputation\<close> reads through the pointer that
  \<^verbatim>\<open>LookupEntry\<close> returned, so an unknown faction in the template is an error.
\<close>

datatype rep_error = NullFactionEntry u32

definition GetReputationRank :: "'f rep_env \<Rightarrow> u32 \<Rightarrow> rep_mgr \<Rightarrow> ReputationRank" where
  "GetReputationRank env faction m = GetRank env (sFactionStore env faction) m"

definition f_times :: "'f rep_env \<Rightarrow> 'f \<Rightarrow> 'f \<Rightarrow> int" where
  "f_times env x rate = i32 (f_to_int (fl env) (f_mul (fl env) x rate))"

fun SetReputation_template ::
  "'f rep_env \<Rightarrow> int \<Rightarrow> bool \<Rightarrow> (u32 \<times> 'f \<times> u32) list \<Rightarrow> rep_mgr \<Rightarrow> rep_error + rep_mgr \<times> rep_effect list" where
  "SetReputation_template env standing incremental [] m = Inr (m, [])"
| "SetReputation_template env standing incremental ((faction, rate, rank) # rows) m =
     (if faction \<noteq> 0 \<and> of_nat (rank_code (GetReputationRank env faction m)) \<le> rank
      then (case sFactionStore env faction of
              None \<Rightarrow> Inl (NullFactionEntry faction)
            | Some fe \<Rightarrow>
                (let (_, m, e) = SetOneFactionReputation env fe (f_times env (f_of_int (fl env) standing) rate) incremental m
                 in res_bind (SetReputation_template env standing incremental rows m) (\<lambda>(m', e'). Inr (m', e @ e'))))
      else SetReputation_template env standing incremental rows m)"

fun SetReputation_sisters ::
  "'f rep_env \<Rightarrow> 'f faction_entry \<Rightarrow> 'f \<Rightarrow> bool \<Rightarrow> u32 list \<Rightarrow> bool \<Rightarrow> rep_mgr \<Rightarrow> bool \<times> rep_mgr \<times> rep_effect list" where
  "SetReputation_sisters env fe spill incremental [] res m = (res, m, [])"
| "SetReputation_sisters env fe spill incremental (f # fs) res m =
     (case sFactionStore env f of
        None \<Rightarrow> SetReputation_sisters env fe spill incremental fs res m
      | Some calc \<Rightarrow>
          if fe_ID calc = fe_ID fe \<or> \<not> of_nat (rank_code (GetRank env (Some calc) m)) \<le> spilloverMaxRankIn calc
          then SetReputation_sisters env fe spill incremental fs res m
          else let spilloverRep = f_times env spill (spilloverRateIn calc)
               in if spilloverRep \<noteq> 0 \<or> \<not> incremental
                  then (let (res, m, e) = SetOneFactionReputation env calc spilloverRep incremental m;
                            (res', m', e') = SetReputation_sisters env fe spill incremental fs res m
                        in (res', m', e @ e'))
                  else SetReputation_sisters env fe spill incremental fs res m)"

definition SetReputation_spill ::
  "'f rep_env \<Rightarrow> 'f faction_entry \<Rightarrow> int \<Rightarrow> bool \<Rightarrow> rep_mgr \<Rightarrow> bool \<times> rep_mgr \<times> rep_effect list" where
  "SetReputation_spill env fe standing incremental m =
     (let out = f_of_int (fl env) standing; flist = GetFactionTeamList env (fe_ID fe)
      in if flist = None \<and> fe_team fe \<noteq> 0 \<and> \<not> f_is_zero (fl env) (spilloverRateOut fe)
         then (let out = f_mul (fl env) out (spilloverRateOut fe)
               in case sFactionStore env (fe_team fe) of
                    None \<Rightarrow> (False, m, [])
                  | Some parent \<Rightarrow>
                      (case omap_find (m_factions m) (list_key parent) of
                         Some fs \<Rightarrow>
                           if fs_Has fs FACTION_FLAG_SPECIAL
                           then (let (_, m, e) = SetOneFactionReputation env parent (i32 (f_to_int (fl env) out)) incremental m
                                 in (False, m, e))
                           else SetReputation_sisters env fe out incremental
                                  (case GetFactionTeamList env (fe_team fe) of None \<Rightarrow> [] | Some l \<Rightarrow> l) False m
                       | None \<Rightarrow> SetReputation_sisters env fe out incremental
                                  (case GetFactionTeamList env (fe_team fe) of None \<Rightarrow> [] | Some l \<Rightarrow> l) False m))
         else SetReputation_sisters env fe out incremental (case flist of None \<Rightarrow> [] | Some l \<Rightarrow> l) False m)"

definition SetReputation_spillover ::
  "'f rep_env \<Rightarrow> 'f faction_entry \<Rightarrow> int \<Rightarrow> bool \<Rightarrow> rep_mgr \<Rightarrow> rep_error + bool \<times> rep_mgr \<times> rep_effect list" where
  "SetReputation_spillover env fe standing incremental m =
     (case GetRepSpilloverTemplate env (fe_ID fe) of
        Some rows \<Rightarrow> res_bind (SetReputation_template env standing incremental rows m) (\<lambda>(m, e). Inr (False, m, e))
      | None \<Rightarrow> Inr (SetReputation_spill env fe standing incremental m))"

definition SetReputation_self ::
  "'f rep_env \<Rightarrow> 'f faction_entry \<Rightarrow> int \<Rightarrow> bool \<Rightarrow> bool \<Rightarrow> rep_mgr \<Rightarrow> bool \<times> rep_mgr \<times> rep_effect list" where
  "SetReputation_self env fe standing incremental res m =
     (if omap_find (m_factions m) (list_key fe) \<noteq> None
      then (let (res, m, e) = SetOneFactionReputation env fe standing incremental m;
                (m, e') = (case omap_find (m_factions m) (list_key fe) of
                             None \<Rightarrow> (m, []) | Some fs \<Rightarrow> SendState env fs m)
            in (res, m, e @ e'))
      else (res, m, []))"

definition SetReputation_inc ::
  "'f rep_env \<Rightarrow> 'f faction_entry \<Rightarrow> int \<Rightarrow> bool \<Rightarrow> rep_mgr \<Rightarrow> rep_error + bool \<times> rep_mgr \<times> rep_effect list" where
  "SetReputation_inc env fe standing0 incremental m =
     (let standing = OnReputationChange env (fe_ID fe) standing0 incremental
      in res_bind (SetReputation_spillover env fe standing incremental m) (\<lambda>(res, m, e).
           let (res, m, e') = SetReputation_self env fe standing incremental res m
           in Inr (res, m, OnPlayerReputationChange (fe_ID fe) standing0 incremental # e @ e')))"

definition SetReputation ::
  "'f rep_env \<Rightarrow> 'f faction_entry \<Rightarrow> int \<Rightarrow> rep_mgr \<Rightarrow> rep_error + bool \<times> rep_mgr \<times> rep_effect list" where
  "SetReputation env fe standing = SetReputation_inc env fe standing False"

definition ModifyReputation ::
  "'f rep_env \<Rightarrow> 'f faction_entry \<Rightarrow> int \<Rightarrow> rep_mgr \<Rightarrow> rep_error + bool \<times> rep_mgr \<times> rep_effect list" where
  "ModifyReputation env fe standing = SetReputation_inc env fe standing True"

section \<open>Loading, saving and the client's requests\<close>

text \<open>A row of \<^verbatim>\<open>character_reputation\<close>: faction, standing, flags.\<close>

definition Rep_LoadFromDB_entry :: "'f rep_env \<Rightarrow> 'f faction_entry \<Rightarrow> u32 \<Rightarrow> u16 \<Rightarrow> rep_mgr \<Rightarrow> rep_mgr \<times> rep_effect list" where
  "Rep_LoadFromDB_entry env fe stand flags m =
     (let k = list_key fe;
          upd = (\<lambda>f m. m\<lparr>m_factions := omap_upd FactionState0 f k (m_factions m)\<rparr>);
          m = upd (\<lambda>fs. fs\<lparr>fs_Standing := sint stand\<rparr>) m;
          BaseRep = GetBaseReputation env (Some fe);
          m = UpdateRankCounters (ReputationToRank BaseRep) (ReputationToRank (i32 (BaseRep + sint stand))) m;
          dbFactionFlags = (ucast flags :: u32);
          (m, e) = (if dbFactionFlags AND ucast (faction_flag FACTION_FLAG_VISIBLE) \<noteq> 0
                    then SetVisible_state env k m else (m, []));
          m = (if dbFactionFlags AND ucast (faction_flag FACTION_FLAG_INACTIVE) \<noteq> 0
               then upd (SetInactive_state True) m else m);
          m = (if dbFactionFlags AND ucast (faction_flag FACTION_FLAG_AT_WAR) \<noteq> 0
               then upd (SetAtWar_state True) m
               else if fs_Has (omap_at FactionState0 (m_factions m) k) FACTION_FLAG_VISIBLE
               then upd (SetAtWar_state False) m else m);
          m = (if GetRank env (Some fe) m \<le> REP_HOSTILE then upd (SetAtWar_state True) m else m);
          m = (if (ucast (fs_Flags (omap_at FactionState0 (m_factions m) k)) :: u32) = dbFactionFlags
               then upd (\<lambda>fs. fs\<lparr>needSend := False, needSave := False\<rparr>) m else m)
      in (m, e))"

definition Rep_LoadFromDB_row :: "'f rep_env \<Rightarrow> u16 \<times> u32 \<times> u16 \<Rightarrow> rep_mgr \<Rightarrow> rep_mgr \<times> rep_effect list" where
  "Rep_LoadFromDB_row env row m =
     (case row of (fid, stand, flags) \<Rightarrow>
        (case sFactionStore env (ucast fid) of
           None \<Rightarrow> (m, [])
         | Some fe \<Rightarrow> if 0 \<le> reputationListID fe then Rep_LoadFromDB_entry env fe stand flags m else (m, [])))"

fun Rep_LoadFromDB_loop :: "'f rep_env \<Rightarrow> (u16 \<times> u32 \<times> u16) list \<Rightarrow> rep_mgr \<Rightarrow> rep_mgr \<times> rep_effect list" where
  "Rep_LoadFromDB_loop env [] m = (m, [])"
| "Rep_LoadFromDB_loop env (row # rows) m =
     (let (m, e) = Rep_LoadFromDB_row env row m; (m', e') = Rep_LoadFromDB_loop env rows m in (m', e @ e'))"

text \<open>The result object is absent when the query returned no row.\<close>

definition Rep_LoadFromDB :: "'f rep_env \<Rightarrow> (u16 \<times> u32 \<times> u16) list option \<Rightarrow> rep_mgr \<Rightarrow> rep_mgr \<times> rep_effect list" where
  "Rep_LoadFromDB env result m =
     (case result of None \<Rightarrow> (Initialize_mgr env m, []) | Some rows \<Rightarrow> Rep_LoadFromDB_loop env rows (Initialize_mgr env m))"

fun SaveToDB_loop :: "u32 \<Rightarrow> (u32, faction_state) omap \<Rightarrow> (u32, faction_state) omap \<times> rep_effect list" where
  "SaveToDB_loop guid [] = ([], [])"
| "SaveToDB_loop guid ((k, fs) # fss) =
     (let (fss', e) = SaveToDB_loop guid fss
      in if needSave fs
         then ((k, fs\<lparr>needSave := False\<rparr>) # fss',
               RepDelete guid (fs_ID fs) # RepInsert guid (fs_ID fs) (fs_Standing fs) (fs_Flags fs) # e)
         else ((k, fs) # fss', e))"

definition SaveToDB :: "'f rep_env \<Rightarrow> rep_mgr \<Rightarrow> rep_mgr \<times> rep_effect list" where
  "SaveToDB env m =
     (let (fss, e) = SaveToDB_loop (GUID_LOPART (owner_guid env)) (m_factions m) in (m\<lparr>m_factions := fss\<rparr>, e))"

definition HandleSetFactionAtWar :: "byte_buffer \<Rightarrow> rep_mgr \<Rightarrow> bb_error + rep_mgr" where
  "HandleSetFactionAtWar recv_data m =
     res_bind (bb_in recv_data) (\<lambda>(repListID :: u32, r1).
     res_bind (bb_in r1) (\<lambda>(flag :: u8, r2). Inr (SetAtWar repListID (flag \<noteq> 0) m)))"

definition HandleSetFactionInactiveOpcode :: "byte_buffer \<Rightarrow> rep_mgr \<Rightarrow> bb_error + rep_mgr" where
  "HandleSetFactionInactiveOpcode recv_data m =
     res_bind (bb_in recv_data) (\<lambda>(replistid :: u32, r1).
     res_bind (bb_in r1) (\<lambda>(inactive :: u8, r2). Inr (SetInactive replistid (inactive \<noteq> 0) m)))"

definition HandleSetFactionCheat :: "'f rep_env \<Rightarrow> rep_mgr \<Rightarrow> rep_mgr \<times> rep_effect list" where
  "HandleSetFactionCheat env m = SendStates env m"


section \<open>Ranks\<close>

lemma ReputationToRank_table:
  "ReputationToRank s =
     (if 42000 \<le> s then REP_EXALTED else if 21000 \<le> s then REP_REVERED else if 9000 \<le> s then REP_HONORED
      else if 3000 \<le> s then REP_FRIENDLY else if 0 \<le> s then REP_NEUTRAL else if - 3000 \<le> s then REP_UNFRIENDLY
      else if - 6000 \<le> s then REP_HOSTILE else REP_HATED)"
  by (simp add: ReputationToRank_def PointsInRank_def all_ranks_def eval_nat_numeral)

lemma rank_le_code [simp]: "a \<le> b \<longleftrightarrow> rank_code a \<le> rank_code b" for a b :: ReputationRank
  by (simp add: less_eq_ReputationRank_def)

lemma clamp_standing_bounds: "Reputation_Bottom \<le> clamp_standing s" "clamp_standing s \<le> Reputation_Cap"
  by (simp_all add: clamp_standing_def)

lemma i32_clamp [simp]: "i32 (clamp_standing s) = clamp_standing s"
  using clamp_standing_bounds [of s] by (intro i32_id) simp_all

lemma i32_sub_add: "i32 (b + i32 (v - b)) = i32 v"
  unfolding i32_def by (simp add: mod_simps algebra_simps)

section \<open>Flags\<close>

lemma fs_Has_or: "fs_Has (fs\<lparr>fs_Flags := fs_Flags fs OR faction_flag g, needSend := a, needSave := b\<rparr>) f \<longleftrightarrow>
    fs_Has fs f \<or> f = g \<and> f \<noteq> FACTION_FLAG_NONE"
proof -
  have "faction_flag g AND faction_flag f \<noteq> 0 \<longleftrightarrow> f = g \<and> f \<noteq> FACTION_FLAG_NONE"
    by (cases f; cases g) simp_all
  then show ?thesis
    by (auto simp: fs_Has_def bit.conj_disj_distrib2 or_eq_0_iff)
qed

lemma fs_Has_and_not: "fs_Has (fs\<lparr>fs_Flags := fs_Flags fs AND NOT (faction_flag g), needSend := a, needSave := b\<rparr>) f \<longleftrightarrow>
    fs_Has fs f \<and> f \<noteq> g"
proof -
  have "NOT (faction_flag g) AND faction_flag f = (if f = g then 0 else faction_flag f)"
    by (cases f; cases g) simp_all
  then show ?thesis
    by (simp add: fs_Has_def and.assoc)
qed


section \<open>The invariant\<close>

text \<open>
  What the code relies on in the loaded faction store: an entry is found under its own number, below the
  number of rows; its columns are 32-bit integers; and no two entries share a place in the reputation list.
\<close>

definition store_ok :: "'f rep_env \<Rightarrow> bool" where
  "store_ok env \<longleftrightarrow>
     faction_rows env < 2 ^ 32 \<and>
     (\<forall>i fe. sFactionStore env i = Some fe \<longrightarrow>
        fe_ID fe = i \<and> i \<noteq> 0 \<and> unat i < faction_rows env \<and>
        - (2 ^ 31) \<le> reputationListID fe \<and> reputationListID fe < 2 ^ 31 \<and>
        - (2 ^ 31) \<le> GetBaseReputation env (Some fe) \<and> GetBaseReputation env (Some fe) < 2 ^ 31) \<and>
     (\<forall>i j fe fe'. sFactionStore env i = Some fe \<longrightarrow> sFactionStore env j = Some fe' \<longrightarrow>
        0 \<le> reputationListID fe \<longrightarrow> reputationListID fe = reputationListID fe' \<longrightarrow> i = j)"

definition state_rank :: "'f rep_env \<Rightarrow> faction_state \<Rightarrow> ReputationRank" where
  "state_rank env fs =
     ReputationToRank (i32 (GetBaseReputation env (sFactionStore env (fs_ID fs)) + fs_Standing fs))"

definition filed :: "'f rep_env \<Rightarrow> u32 \<Rightarrow> faction_state \<Rightarrow> bool" where
  "filed env k fs \<longleftrightarrow>
     fs_ListID fs = k \<and>
     (case sFactionStore env (fs_ID fs) of None \<Rightarrow> False | Some fe \<Rightarrow> 0 \<le> reputationListID fe \<and> list_key fe = k)"

definition at_least :: "'f rep_env \<Rightarrow> ReputationRank \<Rightarrow> faction_state \<Rightarrow> bool" where
  "at_least env r fs = (r \<le> state_rank env fs)"

definition rep_ok :: "'f rep_env \<Rightarrow> rep_mgr \<Rightarrow> bool" where
  "rep_ok env m \<longleftrightarrow>
     omap_ok (m_factions m) \<and> (\<forall>e \<in> set (m_factions m). filed env (fst e) (snd e)) \<and>
     m_honoredFactionCount m = tally (at_least env REP_HONORED) (m_factions m) \<and>
     m_reveredFactionCount m = tally (at_least env REP_REVERED) (m_factions m) \<and>
     m_exaltedFactionCount m = tally (at_least env REP_EXALTED) (m_factions m) \<and>
     m_visibleFactionCount m = tally (\<lambda>fs. fs_Has fs FACTION_FLAG_VISIBLE) (m_factions m)"

lemma UpdateRankCounters_fields [simp]:
  "m_factions (UpdateRankCounters a b m) = m_factions m"
  "m_forcedReactions (UpdateRankCounters a b m) = m_forcedReactions m"
  "m_visibleFactionCount (UpdateRankCounters a b m) = m_visibleFactionCount m"
  "m_honoredFactionCount (UpdateRankCounters a b m) =
     m_honoredFactionCount m - bit_of (REP_HONORED \<le> a) + bit_of (REP_HONORED \<le> b)"
  "m_reveredFactionCount (UpdateRankCounters a b m) =
     m_reveredFactionCount m - bit_of (REP_REVERED \<le> a) + bit_of (REP_REVERED \<le> b)"
  "m_exaltedFactionCount (UpdateRankCounters a b m) =
     m_exaltedFactionCount m - bit_of (REP_EXALTED \<le> a) + bit_of (REP_EXALTED \<le> b)"
  by (simp_all add: UpdateRankCounters_def Let_def)

lemma rep_ok_filed: "rep_ok env m \<Longrightarrow> omap_find (m_factions m) k = Some fs \<Longrightarrow> filed env k fs"
  unfolding rep_ok_def by (metis fst_conv map_of_SomeD snd_conv)

text \<open>Replacing one state: the counters move by what the old and the new state contribute.\<close>

lemma rep_ok_replace:
  assumes "rep_ok env m" and "omap_find (m_factions m) k = Some fs"
    and "m_factions m' = omap_set k fs' (m_factions m)"
    and "fs_ID fs' = fs_ID fs" and "fs_ListID fs' = fs_ListID fs"
    and "m_honoredFactionCount m' =
           m_honoredFactionCount m - bit_of (at_least env REP_HONORED fs) + bit_of (at_least env REP_HONORED fs')"
    and "m_reveredFactionCount m' =
           m_reveredFactionCount m - bit_of (at_least env REP_REVERED fs) + bit_of (at_least env REP_REVERED fs')"
    and "m_exaltedFactionCount m' =
           m_exaltedFactionCount m - bit_of (at_least env REP_EXALTED fs) + bit_of (at_least env REP_EXALTED fs')"
    and "m_visibleFactionCount m' =
           m_visibleFactionCount m - bit_of (fs_Has fs FACTION_FLAG_VISIBLE) + bit_of (fs_Has fs' FACTION_FLAG_VISIBLE)"
  shows "rep_ok env m'"
proof -
  have ok: "omap_ok (m_factions m)" using assms(1) by (simp add: rep_ok_def)
  have "filed env k fs'"
    using rep_ok_filed [OF assms(1,2)] assms(4,5) by (simp add: filed_def)
  moreover have "set (omap_set k fs' (m_factions m)) \<subseteq> insert (k, fs') (set (m_factions m))"
    by (rule omap_set_subset)
  ultimately have "\<forall>e \<in> set (m_factions m'). filed env (fst e) (snd e)"
    using assms(1,3) by (auto simp: rep_ok_def)
  then show ?thesis
    using assms(1,3,6-9) ok
    by (simp only: rep_ok_def omap_ok_set tally_set_hit [OF ok assms(2)])
qed

lemma rep_ok_map:
  assumes "rep_ok env m" and "m_factions m' = map (\<lambda>(k, v). (k, g v)) (m_factions m)"
    and "\<And>v. fs_ID (g v) = fs_ID v" "\<And>v. fs_ListID (g v) = fs_ListID v"
    and "\<And>v. fs_Standing (g v) = fs_Standing v" "\<And>v. fs_Flags (g v) = fs_Flags v"
    and "m_honoredFactionCount m' = m_honoredFactionCount m" "m_reveredFactionCount m' = m_reveredFactionCount m"
    and "m_exaltedFactionCount m' = m_exaltedFactionCount m" "m_visibleFactionCount m' = m_visibleFactionCount m"
  shows "rep_ok env m'"
proof -
  have rank: "at_least env r (g v) = at_least env r v" for r v
    by (simp add: at_least_def state_rank_def assms(3,5))
  have vis: "fs_Has (g v) f = fs_Has v f" for v f
    by (simp add: fs_Has_def assms(6))
  have "filed env k (g v) = filed env k v" for k v
    by (simp add: filed_def assms(3,4))
  then have "\<forall>e \<in> set (m_factions m'). filed env (fst e) (snd e)"
    using assms(1,2) by (auto simp: rep_ok_def)
  then show ?thesis
    using assms(1,7-10) unfolding rep_ok_def assms(2)
    by (simp only: omap_ok_map tally_map [of _ g] rank vis)
qed


subsection \<open>Operations on one state\<close>

lemma omap_set_set [simp]: "omap_set k a (omap_set k b xs) = omap_set k a xs"
  by (induction k b xs rule: omap_set.induct) auto

lemma state_setters [simp]:
  "fs_ID (SetAtWar_state b fs) = fs_ID fs" "fs_ListID (SetAtWar_state b fs) = fs_ListID fs"
  "fs_Standing (SetAtWar_state b fs) = fs_Standing fs"
  "fs_ID (SetInactive_state b fs) = fs_ID fs" "fs_ListID (SetInactive_state b fs) = fs_ListID fs"
  "fs_Standing (SetInactive_state b fs) = fs_Standing fs"
  by (simp_all add: SetAtWar_state_def SetInactive_state_def)

lemma SetAtWar_state_Has:
  "fs_Has (SetAtWar_state b fs) f \<longleftrightarrow>
     (if f = FACTION_FLAG_AT_WAR \<and> \<not> (b \<and> fs_Has fs FACTION_FLAG_PEACE_FORCED) then b else fs_Has fs f)"
  by (auto simp: SetAtWar_state_def fs_Has_or fs_Has_and_not simp del: faction_flag.simps)

lemma SetInactive_state_Has:
  "f \<noteq> FACTION_FLAG_INACTIVE \<Longrightarrow> fs_Has (SetInactive_state b fs) f = fs_Has fs f"
  by (auto simp: SetInactive_state_def fs_Has_or fs_Has_and_not simp del: faction_flag.simps)

lemma rep_ok_flags:
  assumes "rep_ok env m" and "omap_find (m_factions m) k = Some fs"
    and "fs_ID fs' = fs_ID fs" "fs_ListID fs' = fs_ListID fs" "fs_Standing fs' = fs_Standing fs"
    and "fs_Has fs' FACTION_FLAG_VISIBLE = fs_Has fs FACTION_FLAG_VISIBLE"
  shows "rep_ok env (m\<lparr>m_factions := omap_set k fs' (m_factions m)\<rparr>)"
proof -
  have "at_least env r fs' = at_least env r fs" for r
    by (simp add: at_least_def state_rank_def assms(3,5))
  then show ?thesis
    by (intro rep_ok_replace [OF assms(1,2), of _ fs']) (simp_all add: assms)
qed

lemma SetAtWar_ok: "rep_ok env m \<Longrightarrow> rep_ok env (SetAtWar k b m)"
  by (auto simp: SetAtWar_def SetAtWar_state_Has split: option.split intro!: rep_ok_flags)

lemma SetInactive_ok: "rep_ok env m \<Longrightarrow> rep_ok env (SetInactive k b m)"
  by (auto simp: SetInactive_def SetInactive_state_Has split: option.split intro!: rep_ok_flags)

definition shown_state :: "faction_state \<Rightarrow> faction_state" where
  "shown_state fs =
     (if can_show fs
      then fs\<lparr>fs_Flags := fs_Flags fs OR faction_flag FACTION_FLAG_VISIBLE, needSend := True, needSave := True\<rparr> else fs)"

lemma shown_state_fields [simp]:
  "fs_ID (shown_state fs) = fs_ID fs" "fs_ListID (shown_state fs) = fs_ListID fs"
  "fs_Standing (shown_state fs) = fs_Standing fs"
  by (simp_all add: shown_state_def)

lemma shown_state_Has: "fs_Has (shown_state fs) f \<longleftrightarrow> fs_Has fs f \<or> f = FACTION_FLAG_VISIBLE \<and> can_show fs"
  by (auto simp: shown_state_def fs_Has_or simp del: faction_flag.simps)

lemma can_show_not_visible: "can_show fs \<Longrightarrow> \<not> fs_Has fs FACTION_FLAG_VISIBLE"
  by (simp add: can_show_def)

lemma SetVisible_state_hit:
  assumes "omap_find (m_factions m) k = Some fs"
  shows "m_factions (fst (SetVisible_state env k m)) =
           (if can_show fs then omap_set k (shown_state fs) (m_factions m) else m_factions m)"
    and "m_visibleFactionCount (fst (SetVisible_state env k m)) = m_visibleFactionCount m + bit_of (can_show fs)"
    and "m_honoredFactionCount (fst (SetVisible_state env k m)) = m_honoredFactionCount m"
    and "m_reveredFactionCount (fst (SetVisible_state env k m)) = m_reveredFactionCount m"
    and "m_exaltedFactionCount (fst (SetVisible_state env k m)) = m_exaltedFactionCount m"
  using assms by (simp_all add: SetVisible_state_def shown_state_def Let_def)

lemma SetVisible_state_ok:
  assumes "rep_ok env m"
  shows "rep_ok env (fst (SetVisible_state env k m))"
proof (cases "omap_find (m_factions m) k")
  case None
  with assms show ?thesis by (simp add: SetVisible_state_def)
next
  case (Some fs)
  have rank: "at_least env r (shown_state fs) = at_least env r fs" for r
    by (simp add: at_least_def state_rank_def)
  show ?thesis
  proof (cases "can_show fs")
    case False
    with Some assms show ?thesis by (simp add: SetVisible_state_def)
  next
    case True
    then show ?thesis
      by (intro rep_ok_replace [OF assms Some, of _ "shown_state fs"])
        (simp_all add: SetVisible_state_hit [OF Some] rank shown_state_Has can_show_not_visible)
  qed
qed

lemma SetVisible_entry_ok: "rep_ok env m \<Longrightarrow> rep_ok env (fst (SetVisible_entry env fe m))"
  by (simp add: SetVisible_entry_def SetVisible_state_ok)

lemma SetVisible_template_ok: "rep_ok env m \<Longrightarrow> rep_ok env (fst (SetVisible_template env t m))"
  by (simp add: SetVisible_template_def SetVisible_entry_ok split: option.split)

subsection \<open>Sending and saving\<close>

lemma SendState_loop_states:
  "fst (SendState_loop self xs n) = map (\<lambda>(k, fs). (k, fs\<lparr>needSend := False\<rparr>)) xs"
  by (induction self xs n rule: SendState_loop.induct) (auto simp: Let_def case_prod_unfold)

lemma SaveToDB_loop_states:
  "fst (SaveToDB_loop g xs) = map (\<lambda>(k, fs). (k, fs\<lparr>needSave := False\<rparr>)) xs"
  by (induction g xs rule: SaveToDB_loop.induct) (auto simp: Let_def case_prod_unfold)

lemma SendState_ok: "rep_ok env m \<Longrightarrow> rep_ok env (fst (SendState env fs m))"
  by (erule rep_ok_map [of _ _ _ "\<lambda>fs. fs\<lparr>needSend := False\<rparr>"])
    (simp_all add: SendState_def case_prod_unfold Let_def SendState_loop_states)

lemma SendStates_loop_ok: "rep_ok env m \<Longrightarrow> rep_ok env (fst (SendStates_loop env ks m))"
  by (induction ks arbitrary: m) (auto simp: Let_def case_prod_unfold SendState_ok split: option.split)

lemma SendInitialReputations_ok: "rep_ok env m \<Longrightarrow> rep_ok env (fst (SendInitialReputations env m))"
  by (erule rep_ok_map [of _ _ _ "\<lambda>fs. fs\<lparr>needSend := False\<rparr>"]) (simp_all add: SendInitialReputations_def)

lemma SaveToDB_ok: "rep_ok env m \<Longrightarrow> rep_ok env (fst (SaveToDB env m))"
  by (erule rep_ok_map [of _ _ _ "\<lambda>fs. fs\<lparr>needSave := False\<rparr>"])
    (simp_all add: SaveToDB_def case_prod_unfold Let_def SaveToDB_loop_states)


subsection \<open>Changing the standing\<close>

definition target_standing :: "'f rep_env \<Rightarrow> 'f faction_entry \<Rightarrow> int \<Rightarrow> bool \<Rightarrow> faction_state \<Rightarrow> int" where
  "target_standing env fe standing incremental fs =
     clamp_standing (if incremental then i32 (gained_standing env standing + (fs_Standing fs + GetBaseReputation env (Some fe)))
                     else standing)"

definition changed_state :: "'f rep_env \<Rightarrow> 'f faction_entry \<Rightarrow> int \<Rightarrow> faction_state \<Rightarrow> faction_state" where
  "changed_state env fe v fs =
     (let fs' = shown_state (fs\<lparr>fs_Standing := i32 (v - GetBaseReputation env (Some fe)), needSend := True, needSave := True\<rparr>)
      in if ReputationToRank v \<le> REP_HOSTILE then SetAtWar_state True fs' else fs')"

lemma SetOneFactionReputation_miss:
  "omap_find (m_factions m) (list_key fe) = None \<Longrightarrow> SetOneFactionReputation env fe standing inc m = (False, m, [])"
  by (simp add: SetOneFactionReputation_def)

lemma can_show_standing [simp]: "can_show (fs\<lparr>fs_Standing := s, needSend := a, needSave := b\<rparr>) = can_show fs"
  by (simp add: can_show_def fs_Has_def)

lemma SetOneFactionReputation_hit:
  fixes env :: "'f rep_env" and standing :: int and inc :: bool
  assumes "omap_find (m_factions m) (list_key fe) = Some fs"
  defines "v \<equiv> target_standing env fe standing inc fs"
    and "old \<equiv> ReputationToRank (i32 (fs_Standing fs + GetBaseReputation env (Some fe)))"
    and "m' \<equiv> fst (snd (SetOneFactionReputation env fe standing inc m))"
  shows "fst (SetOneFactionReputation env fe standing inc m)"
    and "m_factions m' = omap_set (list_key fe) (changed_state env fe v fs) (m_factions m)"
    and "m_visibleFactionCount m' = m_visibleFactionCount m + bit_of (can_show fs)"
    and "m_honoredFactionCount m' =
           m_honoredFactionCount m - bit_of (REP_HONORED \<le> old) + bit_of (REP_HONORED \<le> ReputationToRank v)"
    and "m_reveredFactionCount m' =
           m_reveredFactionCount m - bit_of (REP_REVERED \<le> old) + bit_of (REP_REVERED \<le> ReputationToRank v)"
    and "m_exaltedFactionCount m' =
           m_exaltedFactionCount m - bit_of (REP_EXALTED \<le> old) + bit_of (REP_EXALTED \<le> ReputationToRank v)"
proof -
  let ?fs1 = "fs\<lparr>fs_Standing := i32 (v - GetBaseReputation env (Some fe)), needSend := True, needSave := True\<rparr>"
  let ?m1 = "m\<lparr>m_factions := omap_set (list_key fe) ?fs1 (m_factions m)\<rparr>"
  let ?m2 = "fst (SetVisible_state env (list_key fe) ?m1)"
  have "omap_find (m_factions ?m1) (list_key fe) = Some ?fs1" by (simp add: omap_find_set)
  note shown = SetVisible_state_hit [OF this, of env]
  have facs: "m_factions ?m2 = omap_set (list_key fe) (shown_state ?fs1) (m_factions m)"
    using shown(1) by (simp add: shown_state_def)
  have m': "fst (SetOneFactionReputation env fe standing inc m) \<and>
     m' = UpdateRankCounters old (ReputationToRank v)
        (if ReputationToRank v \<le> REP_HOSTILE
         then ?m2\<lparr>m_factions := omap_upd FactionState0 (SetAtWar_state True) (list_key fe) (m_factions ?m2)\<rparr> else ?m2)"
    using assms(1) unfolding m'_def SetOneFactionReputation_def v_def old_def target_standing_def
    by (simp add: Let_def case_prod_unfold del: rank_le_code)
  then show "fst (SetOneFactionReputation env fe standing inc m)" by blast
  have "omap_at FactionState0 (m_factions ?m2) (list_key fe) = shown_state ?fs1"
    unfolding facs by (simp add: omap_at_def omap_find_set)
  then show "m_factions m' = omap_set (list_key fe) (changed_state env fe v fs) (m_factions m)"
    using m' by (simp add: facs omap_upd_def changed_state_def del: rank_le_code)
  show "m_visibleFactionCount m' = m_visibleFactionCount m + bit_of (can_show fs)"
    "m_honoredFactionCount m' =
           m_honoredFactionCount m - bit_of (REP_HONORED \<le> old) + bit_of (REP_HONORED \<le> ReputationToRank v)"
    "m_reveredFactionCount m' =
           m_reveredFactionCount m - bit_of (REP_REVERED \<le> old) + bit_of (REP_REVERED \<le> ReputationToRank v)"
    "m_exaltedFactionCount m' =
           m_exaltedFactionCount m - bit_of (REP_EXALTED \<le> old) + bit_of (REP_EXALTED \<le> ReputationToRank v)"
    using m' shown(2-5) by (simp_all del: rank_le_code)
qed

lemma changed_state_fields [simp]:
  "fs_ID (changed_state env fe v fs) = fs_ID fs" "fs_ListID (changed_state env fe v fs) = fs_ListID fs"
  "fs_Standing (changed_state env fe v fs) = i32 (v - GetBaseReputation env (Some fe))"
  by (simp_all add: changed_state_def Let_def)

lemma changed_state_Has:
  "fs_Has (changed_state env fe v fs) f \<longleftrightarrow>
     (if f = FACTION_FLAG_AT_WAR \<and> ReputationToRank v \<le> REP_HOSTILE \<and> \<not> fs_Has fs FACTION_FLAG_PEACE_FORCED then True
      else fs_Has fs f \<or> f = FACTION_FLAG_VISIBLE \<and> can_show fs)"
proof -
  have "fs_Has (fs\<lparr>fs_Standing := s, needSend := a, needSave := b\<rparr>) g = fs_Has fs g" for s a b g
    by (simp add: fs_Has_def)
  then show ?thesis
    by (simp add: changed_state_def Let_def SetAtWar_state_Has shown_state_Has del: rank_le_code)
qed

text \<open>An entry whose key is in the map is the entry the state was filed for.\<close>

lemma list_key_inject:
  assumes "store_ok env" and "sFactionStore env i = Some fe" and "sFactionStore env j = Some fe'"
    and "0 \<le> reputationListID fe" and "list_key fe = list_key fe'"
  shows "i = j \<and> fe = fe'"
proof -
  have r: "- (2 ^ 31) \<le> reputationListID fe'" "reputationListID fe' < 2 ^ 31" "reputationListID fe < 2 ^ 31"
    using assms(1-3) unfolding store_ok_def by blast+
  have "uint (list_key fe) = reputationListID fe mod 2 ^ 32" "uint (list_key fe') = reputationListID fe' mod 2 ^ 32"
    by (simp_all add: list_key_def uint_word_of_int)
  with assms(4,5) r have "reputationListID fe mod 2 ^ 32 = reputationListID fe' mod 2 ^ 32" by simp
  moreover have "reputationListID fe mod 2 ^ 32 = reputationListID fe"
    using r(3) assms(4) by (intro mod_pos_pos_trivial) auto
  moreover have "reputationListID fe' mod 2 ^ 32 =
      (if 0 \<le> reputationListID fe' then reputationListID fe' else reputationListID fe' + 2 ^ 32)"
  proof (cases "0 \<le> reputationListID fe'")
    case True
    with r(2) show ?thesis by (simp add: mod_pos_pos_trivial)
  next
    case False
    have "reputationListID fe' mod 2 ^ 32 = (reputationListID fe' + 2 ^ 32) mod 2 ^ 32" by simp
    also have "\<dots> = reputationListID fe' + 2 ^ 32"
      using r(1) False by (intro mod_pos_pos_trivial) auto
    finally show ?thesis using False by simp
  qed
  ultimately have "reputationListID fe = reputationListID fe'"
    using r by (simp split: if_splits)
  then have "i = j"
    using assms(1-4) unfolding store_ok_def by blast
  with assms show ?thesis by simp
qed

lemma rep_ok_entry:
  assumes "store_ok env" and "rep_ok env m" and "sFactionStore env i = Some fe"
    and "omap_find (m_factions m) (list_key fe) = Some fs"
  shows "fs_ID fs = i" and "sFactionStore env (fs_ID fs) = Some fe" and "0 \<le> reputationListID fe"
proof -
  obtain fe' where fe': "sFactionStore env (fs_ID fs) = Some fe'" "0 \<le> reputationListID fe'" "list_key fe' = list_key fe"
    using rep_ok_filed [OF assms(2,4)] by (auto simp: filed_def split: option.splits)
  from list_key_inject [OF assms(1) fe'(1) assms(3) fe'(2,3)] fe' assms(3)
  show "fs_ID fs = i" "sFactionStore env (fs_ID fs) = Some fe" "0 \<le> reputationListID fe" by auto
qed

lemma SetOneFactionReputation_ok:
  assumes "store_ok env" and "rep_ok env m" and "sFactionStore env i = Some fe"
  shows "rep_ok env (fst (snd (SetOneFactionReputation env fe standing inc m)))"
proof (cases "omap_find (m_factions m) (list_key fe)")
  case None
  with assms(2) show ?thesis by (simp add: SetOneFactionReputation_miss)
next
  case (Some fs)
  note entry = rep_ok_entry [OF assms Some]
  define v where "v = target_standing env fe standing inc fs"
  have old: "at_least env r fs \<longleftrightarrow> r \<le> ReputationToRank (i32 (fs_Standing fs + GetBaseReputation env (Some fe)))" for r
    by (simp add: at_least_def state_rank_def entry(2) add.commute)
  have new: "at_least env r (changed_state env fe v fs) \<longleftrightarrow> r \<le> ReputationToRank v" for r
    by (simp add: at_least_def state_rank_def entry(2) i32_sub_add v_def target_standing_def del: rank_le_code)
  show ?thesis
    using SetOneFactionReputation_hit [OF Some, of env standing inc, folded v_def]
    by (intro rep_ok_replace [OF assms(2) Some, of _ "changed_state env fe v fs"])
      (simp_all add: old new changed_state_Has can_show_not_visible del: rank_le_code)
qed


lemma SetReputation_template_ok:
  "store_ok env \<Longrightarrow> rep_ok env m \<Longrightarrow> SetReputation_template env standing inc rows m = Inr (m', e) \<Longrightarrow> rep_ok env m'"
proof (induction rows arbitrary: m m' e)
  case (Cons row rows)
  obtain f rate rank where row: "row = (f, rate, rank)" by (cases row) auto
  show ?case
  proof (cases "f \<noteq> 0 \<and> of_nat (rank_code (GetReputationRank env f m)) \<le> rank")
    case False
    with Cons row show ?thesis by simp
  next
    case True
    then obtain fe where fe: "sFactionStore env f = Some fe"
      using Cons.prems(3) row by (cases "sFactionStore env f") auto
    show ?thesis
      using Cons.prems(3) Cons.IH [OF Cons.prems(1) SetOneFactionReputation_ok [OF Cons.prems(1,2) fe]] True fe
      by (auto simp: row Let_def case_prod_unfold res_bind_Inr_iff)
  qed
qed simp

lemma SetReputation_sisters_ok:
  "store_ok env \<Longrightarrow> rep_ok env m \<Longrightarrow> rep_ok env (fst (snd (SetReputation_sisters env fe spill inc fs res m)))"
  by (induction fs arbitrary: res m)
    (auto simp: Let_def case_prod_unfold SetOneFactionReputation_ok split: option.split)

lemma SetReputation_spill_ok:
  assumes "store_ok env" and "rep_ok env m"
  shows "rep_ok env (fst (snd (SetReputation_spill env fe standing inc m)))"
  using assms unfolding SetReputation_spill_def Let_def case_prod_unfold
  by (auto simp: SetReputation_sisters_ok SetOneFactionReputation_ok split: option.splits)

lemma SetReputation_spillover_ok:
  assumes "store_ok env" and "rep_ok env m"
    and "SetReputation_spillover env fe standing inc m = Inr (res, m', e)"
  shows "rep_ok env m'"
proof (cases "GetRepSpilloverTemplate env (fe_ID fe)")
  case None
  with assms(3) SetReputation_spill_ok [OF assms(1,2), of fe standing inc] show ?thesis
    by (simp add: SetReputation_spillover_def)
next
  case (Some rows)
  with assms(3) SetReputation_template_ok [OF assms(1,2)] show ?thesis
    by (auto simp: SetReputation_spillover_def res_bind_Inr_iff)
qed

lemma SetReputation_self_ok:
  assumes "store_ok env" and "rep_ok env m" and "sFactionStore env i = Some fe"
  shows "rep_ok env (fst (snd (SetReputation_self env fe standing inc res m)))"
  using SetOneFactionReputation_ok [OF assms, of standing inc] assms(2)
  by (simp add: SetReputation_self_def Let_def case_prod_unfold SendState_ok split: option.split)

lemma SetReputation_inc_ok:
  assumes "store_ok env" and "rep_ok env m" and "sFactionStore env i = Some fe"
    and "SetReputation_inc env fe standing inc m = Inr (res, m', e)"
  shows "rep_ok env m'"
  using assms(4) SetReputation_spillover_ok [OF assms(1,2)] SetReputation_self_ok [OF assms(1) _ assms(3)]
  unfolding SetReputation_inc_def Let_def res_bind_Inr_iff case_prod_unfold by (metis Inr_inject fst_conv prod.collapse snd_conv)

text \<open>With validated templates no operation goes through a null entry.\<close>

definition templates_ok :: "'f rep_env \<Rightarrow> bool" where
  "templates_ok env \<longleftrightarrow>
     (\<forall>i rows. GetRepSpilloverTemplate env i = Some rows \<longrightarrow>
        (\<forall>row \<in> set rows. fst row \<noteq> 0 \<longrightarrow> sFactionStore env (fst row) \<noteq> None))"

lemma SetReputation_template_no_error:
  "\<forall>row \<in> set rows. fst row \<noteq> 0 \<longrightarrow> sFactionStore env (fst row) \<noteq> None \<Longrightarrow>
   \<exists>m' e. SetReputation_template env s inc rows m = Inr (m', e)"
proof (induction rows arbitrary: m)
  case (Cons row rows)
  obtain f rate rank where row: "row = (f, rate, rank)" by (cases row) auto
  have IH: "\<exists>m' e. SetReputation_template env s inc rows m = Inr (m', e)" for m
    using Cons by simp
  show ?case
  proof (cases "f \<noteq> 0 \<and> of_nat (rank_code (GetReputationRank env f m)) \<le> rank")
    case False
    then show ?thesis unfolding row SetReputation_template.simps by (simp only: if_False IH)
  next
    case True
    then obtain fe where fe: "sFactionStore env f = Some fe" using Cons.prems row by auto
    obtain b m1 e1 where one: "SetOneFactionReputation env fe (f_times env (f_of_int (fl env) s) rate) inc m = (b, m1, e1)"
      by (cases "SetOneFactionReputation env fe (f_times env (f_of_int (fl env) s) rate) inc m")
    from IH [of m1] True fe row one show ?thesis by (auto simp: res_bind_Inr_iff)
  qed
qed simp

lemma SetReputation_no_error:
  assumes "templates_ok env"
  shows "\<exists>res m' e. SetReputation_inc env fe standing inc m = Inr (res, m', e)"
proof -
  let ?st = "OnReputationChange env (fe_ID fe) standing inc"
  have "\<exists>res m' e. SetReputation_spillover env fe ?st inc m = Inr (res, m', e)"
  proof (cases "GetRepSpilloverTemplate env (fe_ID fe)")
    case None
    then show ?thesis by (cases "SetReputation_spill env fe ?st inc m") (simp add: SetReputation_spillover_def)
  next
    case (Some rows)
    then have "\<exists>m' e. SetReputation_template env ?st inc rows m = Inr (m', e)"
      using assms by (intro SetReputation_template_no_error) (simp add: templates_ok_def)
    with Some show ?thesis by (auto simp: SetReputation_spillover_def res_bind_Inr_iff)
  qed
  then obtain res m1 e1 where "SetReputation_spillover env fe ?st inc m = Inr (res, m1, e1)" by blast
  then show ?thesis
    by (cases "SetReputation_self env fe ?st inc res m1") (simp add: SetReputation_inc_def res_bind_Inr_iff)
qed


subsection \<open>Initialisation\<close>

lemma rep_ok_insert:
  assumes "rep_ok env m" and "omap_find (m_factions m) k = None" and "filed env k fs"
    and "m_factions m' = omap_set k fs (m_factions m)"
    and "m_honoredFactionCount m' = m_honoredFactionCount m + bit_of (at_least env REP_HONORED fs)"
    and "m_reveredFactionCount m' = m_reveredFactionCount m + bit_of (at_least env REP_REVERED fs)"
    and "m_exaltedFactionCount m' = m_exaltedFactionCount m + bit_of (at_least env REP_EXALTED fs)"
    and "m_visibleFactionCount m' = m_visibleFactionCount m + bit_of (fs_Has fs FACTION_FLAG_VISIBLE)"
  shows "rep_ok env m'"
proof -
  have ok: "omap_ok (m_factions m)" using assms(1) by (simp add: rep_ok_def)
  have "\<forall>e \<in> set (m_factions m'). filed env (fst e) (snd e)"
    using assms(1,3,4) omap_set_subset [of k fs "m_factions m"] by (auto simp: rep_ok_def)
  then show ?thesis
    using assms(1,4-8) ok by (simp only: rep_ok_def omap_ok_set tally_set_new [OF ok assms(2)])
qed

definition fresh_state :: "'f rep_env \<Rightarrow> 'f faction_entry \<Rightarrow> faction_state" where
  "fresh_state env fe =
     \<lparr>fs_ID = fe_ID fe, fs_ListID = list_key fe, fs_Flags = ucast (GetDefaultStateFlags env (Some fe)),
      fs_Standing = 0, needSend = True, needSave = True\<rparr>"

lemma Initialize_row_states:
  "m_factions (Initialize_row env fe m) = omap_set (list_key fe) (fresh_state env fe) (m_factions m)"
  by (simp add: Initialize_row_def Let_def fresh_state_def)

lemma store_okD:
  assumes "store_ok env" and "sFactionStore env i = Some fe"
  shows "fe_ID fe = i" and "i \<noteq> 0" and "unat i < faction_rows env"
    and "i32 (GetBaseReputation env (Some fe)) = GetBaseReputation env (Some fe)"
  using assms unfolding store_ok_def by (auto intro!: i32_id)

lemma Initialize_row_ok:
  assumes "store_ok env" and "rep_ok env m" and "sFactionStore env i = Some fe" and "0 \<le> reputationListID fe"
    and "omap_find (m_factions m) (list_key fe) = None"
  shows "rep_ok env (Initialize_row env fe m)"
proof -
  note fe = store_okD [OF assms(1,3)]
  have rank: "at_least env r (fresh_state env fe) \<longleftrightarrow> r \<le> GetBaseRank env (Some fe)" for r
    using assms(3) fe by (simp add: at_least_def state_rank_def fresh_state_def GetBaseRank_def)
  show ?thesis
  proof (rule rep_ok_insert [OF assms(2,5)])
    show "filed env (list_key fe) (fresh_state env fe)"
      using assms(3,4) fe by (simp add: filed_def fresh_state_def)
  qed (simp_all only: Initialize_row_states rank, simp_all add: Initialize_row_def fresh_state_def Let_def)
qed

definition all_unset :: "rep_mgr \<Rightarrow> bool" where
  "all_unset m \<longleftrightarrow> (\<forall>k fs. omap_find (m_factions m) k = Some fs \<longrightarrow> fs_Standing fs = 0)"

lemma Initialize_row_unset: "all_unset m \<Longrightarrow> all_unset (Initialize_row env fe m)"
  by (auto simp: all_unset_def Initialize_row_states omap_find_set fresh_state_def)

definition lists_rows :: "'f rep_env \<Rightarrow> nat list \<Rightarrow> rep_mgr \<Rightarrow> bool" where
  "lists_rows env is m \<longleftrightarrow>
     (\<forall>i \<in> set is. \<forall>fe. sFactionStore env (of_nat i) = Some fe \<longrightarrow> 0 \<le> reputationListID fe \<longrightarrow>
        omap_find (m_factions m) (list_key fe) \<noteq> None)"

lemma Initialize_loop_keeps:
  "omap_find (m_factions m) k \<noteq> None \<Longrightarrow> omap_find (m_factions (Initialize_loop env is m)) k \<noteq> None"
  by (induction "is" arbitrary: m) (auto simp: Initialize_row_states omap_find_set split: option.splits)

lemma Initialize_loop_lists: "lists_rows env is (Initialize_loop env is m)"
proof (induction "is" arbitrary: m)
  case (Cons i "is")
  have "omap_find (m_factions (Initialize_loop env (i # is) m)) (list_key fe) \<noteq> None"
    if "sFactionStore env (of_nat i) = Some fe" "0 \<le> reputationListID fe" for fe
    using that Initialize_loop_keeps [of "Initialize_row env fe m" "list_key fe" env "is"]
    by (simp add: Initialize_row_states omap_find_set)
  with Cons show ?case
    by (auto simp: lists_rows_def split: option.splits)
qed (simp add: lists_rows_def)

lemma Initialize_loop_ok:
  assumes "store_ok env"
  shows "rep_ok env m \<Longrightarrow> all_unset m \<Longrightarrow> distinct is \<Longrightarrow> \<forall>i \<in> set is. i < 2 ^ 32 \<Longrightarrow>
    (\<forall>e \<in> set (m_factions m). unat (fs_ID (snd e)) \<notin> set is) \<Longrightarrow>
    rep_ok env (Initialize_loop env is m) \<and> all_unset (Initialize_loop env is m)"
proof (induction "is" arbitrary: m)
  case (Cons i "is")
  show ?case
  proof (cases "\<exists>fe. sFactionStore env (of_nat i) = Some fe \<and> 0 \<le> reputationListID fe")
    case False
    with Cons show ?thesis by (auto split: option.split)
  next
    case True
    then obtain fe where fe: "sFactionStore env (of_nat i) = Some fe" "0 \<le> reputationListID fe" by blast
    have i: "unat (of_nat i :: u32) = i"
      using Cons.prems(4) by (simp add: unat_of_nat)
    have new: "omap_find (m_factions m) (list_key fe) = None"
    proof (rule ccontr)
      assume "omap_find (m_factions m) (list_key fe) \<noteq> None"
      then obtain fs where fs: "omap_find (m_factions m) (list_key fe) = Some fs" by blast
      then have "unat (fs_ID fs) = i"
        using rep_ok_entry(1) [OF assms Cons.prems(1) fe(1) fs] i by simp
      moreover have "(list_key fe, fs) \<in> set (m_factions m)" using fs by (rule map_of_SomeD)
      ultimately show False using Cons.prems(5) by force
    qed
    have "\<forall>e \<in> set (m_factions (Initialize_row env fe m)). unat (fs_ID (snd e)) \<notin> set is"
      using omap_set_subset [of "list_key fe" "fresh_state env fe" "m_factions m"] Cons.prems(3,5)
        store_okD(1) [OF assms fe(1)] i
      by (auto simp: Initialize_row_states fresh_state_def)
    then have "rep_ok env (Initialize_loop env is (Initialize_row env fe m)) \<and>
        all_unset (Initialize_loop env is (Initialize_row env fe m))"
      using Cons.prems Initialize_row_ok [OF assms Cons.prems(1) fe new]
      by (intro Cons.IH Initialize_row_unset) auto
    then show ?thesis using fe by simp
  qed
qed simp

lemma Initialize_ok:
  assumes "store_ok env"
  shows "rep_ok env (Initialize_mgr env m)" and "all_unset (Initialize_mgr env m)"
    and "sFactionStore env i = Some fe \<Longrightarrow> 0 \<le> reputationListID fe \<Longrightarrow>
         omap_find (m_factions (Initialize_mgr env m)) (list_key fe) \<noteq> None"
proof -
  let ?m0 = "m\<lparr>m_factions := [], m_visibleFactionCount := 0, m_honoredFactionCount := 0,
          m_reveredFactionCount := 0, m_exaltedFactionCount := 0\<rparr>"
  have "rep_ok env (Initialize_mgr env m) \<and> all_unset (Initialize_mgr env m)"
    unfolding Initialize_mgr_def
  proof (rule Initialize_loop_ok [OF assms])
    show "rep_ok env ?m0" by (simp add: rep_ok_def tally_def)
    show "\<forall>i \<in> set [1..<faction_rows env]. i < 2 ^ 32" using assms by (auto simp: store_ok_def)
  qed (simp_all add: all_unset_def)
  then show "rep_ok env (Initialize_mgr env m)" and "all_unset (Initialize_mgr env m)" by auto
  assume fe: "sFactionStore env i = Some fe" "0 \<le> reputationListID fe"
  note i = store_okD [OF assms fe(1)]
  have "unat i \<noteq> 0" using i(2) by (simp add: unat_eq_0)
  then have "unat i \<in> set [1..<faction_rows env]" using i(3) by auto
  then show "omap_find (m_factions (Initialize_mgr env m)) (list_key fe) \<noteq> None"
    using Initialize_loop_lists [of env "[1..<faction_rows env]" ?m0] fe
    unfolding lists_rows_def Initialize_mgr_def by (auto dest!: bspec [of _ _ "unat i"])
qed


subsection \<open>Loading\<close>

text \<open>While a row is processed only the state under its key changes.\<close>

definition row_ok :: "'f rep_env \<Rightarrow> u32 \<Rightarrow> rep_mgr \<Rightarrow> rep_mgr \<Rightarrow> bool" where
  "row_ok env k m0 m \<longleftrightarrow>
     rep_ok env m \<and> omap_find (m_factions m) k \<noteq> None \<and>
     (\<forall>k'. k' \<noteq> k \<longrightarrow> omap_find (m_factions m) k' = omap_find (m_factions m0) k')"

lemma row_ok_flags:
  assumes "row_ok env k m0 m"
    and "\<And>fs. fs_ID (f fs) = fs_ID fs" "\<And>fs. fs_ListID (f fs) = fs_ListID fs" "\<And>fs. fs_Standing (f fs) = fs_Standing fs"
    and "\<And>fs. fs_Has (f fs) FACTION_FLAG_VISIBLE = fs_Has fs FACTION_FLAG_VISIBLE"
  shows "row_ok env k m0 (m\<lparr>m_factions := omap_upd FactionState0 f k (m_factions m)\<rparr>)"
proof -
  obtain fs where fs: "omap_find (m_factions m) k = Some fs" using assms(1) by (auto simp: row_ok_def)
  have "rep_ok env m" using assms(1) by (simp add: row_ok_def)
  from rep_ok_flags [OF this fs, of "f fs"] assms fs show ?thesis
    by (auto simp: row_ok_def omap_upd_def omap_at_def omap_find_set)
qed

lemma row_ok_visible: "row_ok env k m0 m \<Longrightarrow> row_ok env k m0 (fst (SetVisible_state env k m))"
  by (auto simp: row_ok_def SetVisible_state_ok SetVisible_state_hit omap_find_set)

lemma row_ok_standing:
  assumes "store_ok env" and "rep_ok env m" and "sFactionStore env i = Some fe" and "0 \<le> reputationListID fe"
    and "omap_find (m_factions m) (list_key fe) = Some fs" and "fs_Standing fs = 0"
  shows "row_ok env (list_key fe) m
     (UpdateRankCounters (ReputationToRank (GetBaseReputation env (Some fe)))
        (ReputationToRank (i32 (GetBaseReputation env (Some fe) + s)))
        (m\<lparr>m_factions := omap_upd FactionState0 (\<lambda>fs. fs\<lparr>fs_Standing := s\<rparr>) (list_key fe) (m_factions m)\<rparr>))"
proof -
  note entry = rep_ok_entry [OF assms(1-3,5)]
  have old: "at_least env r fs \<longleftrightarrow> r \<le> ReputationToRank (GetBaseReputation env (Some fe))" for r
    using assms(6) store_okD(4) [OF assms(1,3)] by (simp add: at_least_def state_rank_def entry(2))
  have new: "at_least env r (fs\<lparr>fs_Standing := s\<rparr>) \<longleftrightarrow> r \<le> ReputationToRank (i32 (GetBaseReputation env (Some fe) + s))" for r
    by (simp add: at_least_def state_rank_def entry(2))
  have vis: "fs_Has (fs\<lparr>fs_Standing := s\<rparr>) f = fs_Has fs f" for f by (simp add: fs_Has_def)
  have upd: "omap_upd FactionState0 (\<lambda>fs. fs\<lparr>fs_Standing := s\<rparr>) (list_key fe) (m_factions m) =
      omap_set (list_key fe) (fs\<lparr>fs_Standing := s\<rparr>) (m_factions m)"
    using assms(5) by (simp add: omap_upd_def omap_at_def)
  show ?thesis
    unfolding row_ok_def upd
  proof (intro conjI)
    show "rep_ok env (UpdateRankCounters (ReputationToRank (GetBaseReputation env (Some fe)))
        (ReputationToRank (i32 (GetBaseReputation env (Some fe) + s)))
        (m\<lparr>m_factions := omap_set (list_key fe) (fs\<lparr>fs_Standing := s\<rparr>) (m_factions m)\<rparr>))"
      by (rule rep_ok_replace [OF assms(2,5), of _ "fs\<lparr>fs_Standing := s\<rparr>"])
        (simp_all add: old new vis del: rank_le_code)
  qed (simp_all add: omap_find_set)
qed

lemma Rep_LoadFromDB_entry_ok:
  assumes "store_ok env" and "rep_ok env m" and "sFactionStore env i = Some fe" and "0 \<le> reputationListID fe"
    and "omap_find (m_factions m) (list_key fe) = Some fs" and "fs_Standing fs = 0"
  shows "row_ok env (list_key fe) m (fst (Rep_LoadFromDB_entry env fe stand flags m))"
proof -
  let ?k = "list_key fe" let ?fl = "ucast flags :: u32"
  let ?upd = "\<lambda>f m. m\<lparr>m_factions := omap_upd FactionState0 f ?k (m_factions m)\<rparr>"
  define m1 where "m1 = UpdateRankCounters (ReputationToRank (GetBaseReputation env (Some fe)))
        (ReputationToRank (i32 (GetBaseReputation env (Some fe) + sint stand))) (?upd (\<lambda>fs. fs\<lparr>fs_Standing := sint stand\<rparr>) m)"
  define m2 where "m2 = fst (if ?fl AND ucast (faction_flag FACTION_FLAG_VISIBLE) \<noteq> 0
      then SetVisible_state env ?k m1 else (m1, []))"
  define m3 where "m3 = (if ?fl AND ucast (faction_flag FACTION_FLAG_INACTIVE) \<noteq> 0 then ?upd (SetInactive_state True) m2 else m2)"
  define m4 where "m4 = (if ?fl AND ucast (faction_flag FACTION_FLAG_AT_WAR) \<noteq> 0 then ?upd (SetAtWar_state True) m3
      else if fs_Has (omap_at FactionState0 (m_factions m3) ?k) FACTION_FLAG_VISIBLE then ?upd (SetAtWar_state False) m3 else m3)"
  define m5 where "m5 = (if GetRank env (Some fe) m4 \<le> REP_HOSTILE then ?upd (SetAtWar_state True) m4 else m4)"
  define m6 where "m6 = (if (ucast (fs_Flags (omap_at FactionState0 (m_factions m5) ?k)) :: u32) = ?fl
      then ?upd (\<lambda>fs. fs\<lparr>needSend := False, needSave := False\<rparr>) m5 else m5)"
  have "fst (Rep_LoadFromDB_entry env fe stand flags m) = m6"
    unfolding Rep_LoadFromDB_entry_def m6_def m5_def m4_def m3_def m2_def m1_def Let_def case_prod_unfold fst_conv
    by (rule refl)
  moreover have "row_ok env ?k m m1"
    unfolding m1_def by (rule row_ok_standing [OF assms])
  then have "row_ok env ?k m m2" unfolding m2_def by (simp add: row_ok_visible del: faction_flag.simps)
  then have "row_ok env ?k m m3"
    unfolding m3_def by (auto intro: row_ok_flags simp: SetInactive_state_Has simp del: faction_flag.simps)
  then have "row_ok env ?k m m4"
    unfolding m4_def by (auto intro: row_ok_flags simp: SetAtWar_state_Has simp del: faction_flag.simps)
  then have "row_ok env ?k m m5"
    unfolding m5_def by (auto intro: row_ok_flags simp: SetAtWar_state_Has)
  then have "row_ok env ?k m m6"
    unfolding m6_def by (auto intro: row_ok_flags simp: fs_Has_def)
  ultimately show ?thesis by simp
qed


text \<open>The rows still to come find their states untouched.\<close>

definition rows_pending :: "'f rep_env \<Rightarrow> u16 set \<Rightarrow> rep_mgr \<Rightarrow> bool" where
  "rows_pending env fids m \<longleftrightarrow>
     (\<forall>fid \<in> fids. \<forall>fe. sFactionStore env (ucast fid) = Some fe \<longrightarrow> 0 \<le> reputationListID fe \<longrightarrow>
        (\<exists>fs. omap_find (m_factions m) (list_key fe) = Some fs \<and> fs_Standing fs = 0))"

lemma Rep_LoadFromDB_row_step:
  fixes stand :: u32 and flags :: u16
  assumes "store_ok env" and "rep_ok env m" and "rows_pending env (insert fid fids) m" and "fid \<notin> fids"
  defines "m' \<equiv> fst (Rep_LoadFromDB_row env (fid, stand, flags) m)"
  shows "rep_ok env m' \<and> rows_pending env fids m'"
proof (cases "\<exists>fe. sFactionStore env (ucast fid) = Some fe \<and> 0 \<le> reputationListID fe")
  case False
  then have "m' = m" unfolding m'_def Rep_LoadFromDB_row_def by (auto split: option.split)
  with assms(2,3) show ?thesis by (simp add: rows_pending_def)
next
  case True
  then obtain fe where fe: "sFactionStore env (ucast fid) = Some fe" "0 \<le> reputationListID fe" by blast
  then obtain fs where fs: "omap_find (m_factions m) (list_key fe) = Some fs" "fs_Standing fs = 0"
    using assms(3) unfolding rows_pending_def by blast
  have row: "row_ok env (list_key fe) m m'"
    using Rep_LoadFromDB_entry_ok [OF assms(1,2) fe fs] fe unfolding m'_def by (simp add: Rep_LoadFromDB_row_def)
  have "\<exists>fs. omap_find (m_factions m') (list_key fe') = Some fs \<and> fs_Standing fs = 0"
    if "fid' \<in> fids" "sFactionStore env (ucast fid') = Some fe'" "0 \<le> reputationListID fe'" for fid' fe'
  proof -
    have "list_key fe' \<noteq> list_key fe"
    proof
      assume "list_key fe' = list_key fe"
      then have "(ucast fid' :: u32) = ucast fid"
        using list_key_inject [OF assms(1) that(2) fe(1) that(3)] by simp
      then have "fid' = fid" by transfer (simp add: take_bit_eq_mod)
      with that(1) assms(4) show False by simp
    qed
    with row that assms(3) show ?thesis by (simp add: row_ok_def rows_pending_def)
  qed
  with row show ?thesis by (simp add: row_ok_def rows_pending_def)
qed

lemma Rep_LoadFromDB_loop_ok:
  "store_ok env \<Longrightarrow> rep_ok env m \<Longrightarrow> distinct (map fst rows) \<Longrightarrow> rows_pending env (fst ` set rows) m \<Longrightarrow>
   rep_ok env (fst (Rep_LoadFromDB_loop env rows m))"
proof (induction rows arbitrary: m)
  case (Cons row rows)
  obtain fid stand flags where row: "row = (fid, stand, flags)" by (cases row) auto
  from Rep_LoadFromDB_row_step [OF Cons.prems(1,2), of fid "fst ` set rows" stand flags] Cons.prems Cons.IH
  show ?case by (simp add: row Let_def case_prod_unfold)
qed simp

lemma Rep_LoadFromDB_ok:
  assumes "store_ok env" and "\<And>rows. result = Some rows \<Longrightarrow> distinct (map fst rows)"
  shows "rep_ok env (fst (Rep_LoadFromDB env result m))"
proof -
  have "rows_pending env fids (Initialize_mgr env m)" for fids
    using Initialize_ok(2,3) [OF assms(1)] unfolding rows_pending_def all_unset_def by fastforce
  then show ?thesis
    using assms Initialize_ok(1) [OF assms(1)]
    by (auto simp: Rep_LoadFromDB_def Rep_LoadFromDB_loop_ok split: option.split)
qed

section \<open>A player's session\<close>

text \<open>The states a manager goes through after login, with the calls from the client, the quests and the rest of the server; the table's key makes the factions of the loaded rows distinct.\<close>

inductive rep_reachable :: "'f rep_env \<Rightarrow> rep_mgr \<Rightarrow> bool" for env :: "'f rep_env" where
  rr_load: "(\<And>rows. result = Some rows \<Longrightarrow> distinct (map fst rows)) \<Longrightarrow>
            rep_reachable env (fst (Rep_LoadFromDB env result new_ReputationMgr))"
| rr_set: "rep_reachable env m \<Longrightarrow> sFactionStore env i = Some fe \<Longrightarrow>
           SetReputation_inc env fe standing incremental m = Inr (res, m', e) \<Longrightarrow> rep_reachable env m'"
| rr_visible: "rep_reachable env m \<Longrightarrow> rep_reachable env (fst (SetVisible_template env t m))"
| rr_visible_entry: "rep_reachable env m \<Longrightarrow> sFactionStore env i = Some fe \<Longrightarrow> rep_reachable env (fst (SetVisible_entry env fe m))"
| rr_war: "rep_reachable env m \<Longrightarrow> rep_reachable env (SetAtWar k on m)"
| rr_inactive: "rep_reachable env m \<Longrightarrow> rep_reachable env (SetInactive k on m)"
| rr_force: "rep_reachable env m \<Longrightarrow> rep_reachable env (ApplyForceReaction f rank on m)"
| rr_initial: "rep_reachable env m \<Longrightarrow> rep_reachable env (fst (SendInitialReputations env m))"
| rr_states: "rep_reachable env m \<Longrightarrow> rep_reachable env (fst (SendStates env m))"
| rr_save: "rep_reachable env m \<Longrightarrow> rep_reachable env (fst (SaveToDB env m))"

lemma ApplyForceReaction_ok: "rep_ok env m \<Longrightarrow> rep_ok env (ApplyForceReaction f rank on m)"
  by (simp add: ApplyForceReaction_def rep_ok_def)

lemma rep_reachable_ok: "rep_reachable env m \<Longrightarrow> store_ok env \<Longrightarrow> rep_ok env m"
proof (induction rule: rep_reachable.induct)
  case (rr_set m i fe standing incremental res m' e)
  then show ?case by (auto intro: SetReputation_inc_ok)
next
  case (rr_states m)
  then show ?case by (simp add: SendStates_def SendStates_loop_ok)
qed (simp_all add: Rep_LoadFromDB_ok SetVisible_template_ok SetVisible_entry_ok SetAtWar_ok SetInactive_ok ApplyForceReaction_ok
  SendInitialReputations_ok SaveToDB_ok)

lemma rep_ok_GetRank:
  assumes "rep_ok env m" and "e \<in> set (m_factions m)"
  shows "GetRank env (sFactionStore env (fs_ID (snd e))) m = state_rank env (snd e)"
proof -
  have f: "filed env (fst e) (snd e)" and "omap_ok (m_factions m)" using assms by (auto simp: rep_ok_def)
  then have "omap_find (m_factions m) (fst e) = Some (snd e)" using assms(2) by (simp add: omap_find_iff)
  with f show ?thesis
    by (auto simp: filed_def GetRank_def GetReputation_def GetState_def state_rank_def split: option.splits)
qed


section \<open>Properties\<close>

definition example_faction :: "int faction_entry" where
  "example_faction =
     \<lparr>fe_ID = 1, reputationListID = 3, BaseRepRaceMask = [1, 0, 0, 0], BaseRepClassMask = [0, 0, 0, 0],
      BaseRepValue = [9000, 0, 0, 0], ReputationFlags = [0, 0, 0, 0], fe_team = 0, spilloverRateIn = 0,
      spilloverRateOut = 0, spilloverMaxRankIn = 0\<rparr>"

definition example_floats :: "int float_ops" where
  "example_floats =
     \<lparr>f_of_int = (\<lambda>x. x), f_to_int = (\<lambda>x. x), f_mul = (*), f_add = (+), f_floor = (\<lambda>x. x), f_half = 0,
      f_is_zero = (\<lambda>x. x = 0)\<rparr>"

definition example_rep_env :: "int rep_env" where
  "example_rep_env =
     \<lparr>fl = example_floats, raceMask = 1, classMask = 1, owner_guid = 1, player_loading = False,
      sFactionStore = (\<lambda>i. if i = 1 then Some example_faction else None), faction_rows = 2,
      GetFactionTeamList = (\<lambda>i. None), GetRepSpilloverTemplate = (\<lambda>i. None), rate_reputation_gain = 1,
      OnReputationChange = (\<lambda>i standing inc. standing)\<rparr>"

definition example_rep_state :: faction_state where
  "example_rep_state = \<lparr>fs_ID = 1, fs_ListID = 3, fs_Flags = 0, fs_Standing = 0, needSend = True, needSave = True\<rparr>"

definition example_rep_mgr :: rep_mgr where
  "example_rep_mgr =
     \<lparr>m_factions = [(3, example_rep_state)], m_forcedReactions = [], m_visibleFactionCount = 0, m_honoredFactionCount = 1,
      m_reveredFactionCount = 0, m_exaltedFactionCount = 0\<rparr>"

lemma example_base: "GetBaseReputation example_rep_env (Some example_faction) = 9000"
  by (simp add: GetBaseReputation_def base_row_applies_def example_faction_def example_rep_env_def upt_rec)

lemma example_store: "sFactionStore example_rep_env i = (if i = 1 then Some example_faction else None)"
  by (simp add: example_rep_env_def)

lemma example_store_ok: "store_ok example_rep_env"
proof -
  have "- (2 ^ 31) \<le> reputationListID example_faction" "reputationListID example_faction < 2 ^ 31" "fe_ID example_faction = 1"
    "faction_rows example_rep_env = 2"
    by (simp_all add: example_faction_def example_rep_env_def)
  then show ?thesis by (simp add: store_ok_def example_store example_base)
qed

lemma example_key: "list_key example_faction = 3"
  by (simp add: list_key_def example_faction_def)

lemma example_loaded: "fst (Rep_LoadFromDB example_rep_env None new_ReputationMgr) = example_rep_mgr"
proof -
  have "fe_ID example_faction = 1" "0 \<le> reputationListID example_faction" "faction_rows example_rep_env = 2"
    "GetDefaultStateFlags example_rep_env (Some example_faction) = 0"
    by (simp_all add: example_faction_def example_rep_env_def GetDefaultStateFlags_def base_row_applies_def upt_rec)
  then show ?thesis
    by (simp add: Rep_LoadFromDB_def Initialize_mgr_def Initialize_row_def UpdateRankCounters_def GetBaseRank_def example_base
        example_store example_key ReputationToRank_table new_ReputationMgr_def example_rep_mgr_def example_rep_state_def
        fs_Has_def upt_rec)
qed

text \<open>
  \<^verbatim>\<open>ReputationToRank\<close> is the table of the game: exalted from 42000, revered from 21000, honored from 9000, friendly
  from 3000, neutral from 0, unfriendly from -3000, hostile from -6000, hated below, whatever the argument;
  and a higher standing never has a lower rank.
\<close>
theorem rank_thresholds:
  "ReputationToRank s =
     (if 42000 \<le> s then REP_EXALTED else if 21000 \<le> s then REP_REVERED else if 9000 \<le> s then REP_HONORED
      else if 3000 \<le> s then REP_FRIENDLY else if 0 \<le> s then REP_NEUTRAL else if - 3000 \<le> s then REP_UNFRIENDLY
      else if - 6000 \<le> s then REP_HOSTILE else REP_HATED) \<and>
   ReputationToRank (min s t) \<le> ReputationToRank s"
proof (intro conjI)
  show "ReputationToRank (min s t) \<le> ReputationToRank s"
    by (cases "s \<le> t") (simp_all add: ReputationToRank_table min_def)
qed (rule ReputationToRank_table)

text \<open>
  C26. \<^verbatim>\<open>SetOneFactionReputation\<close> on a faction in the player's list: it returns true; the reputation is afterwards the
  requested value (for an increment: the rounded gain added to the old value), brought into the range from
  \<^verbatim>\<open>Reputation_Bottom\<close> to \<^verbatim>\<open>Reputation_Cap\<close>; a rank of hostile or hated leaves the faction at war unless peace is forced; the
  state is marked for saving and sending; no other faction's state changes.
\<close>
theorem SetOneFactionReputation_result:
  assumes "omap_find (m_factions m) (list_key fe) = Some fs" and "0 \<le> reputationListID fe"
  shows "\<exists>m' e fs' v. SetOneFactionReputation env fe standing incremental m = (True, m', e) \<and>
    v = clamp_standing (if incremental then i32 (gained_standing env standing + (fs_Standing fs + GetBaseReputation env (Some fe)))
                        else standing) \<and>
    GetReputation env (Some fe) m' = v \<and> Reputation_Bottom \<le> v \<and> v \<le> Reputation_Cap \<and>
    (GetRank env (Some fe) m' \<le> REP_HOSTILE \<longrightarrow> IsAtWar (Some fe) m' \<or> fs_Has fs FACTION_FLAG_PEACE_FORCED) \<and>
    omap_find (m_factions m') (list_key fe) = Some fs' \<and> needSend fs' \<and> needSave fs' \<and>
    (\<forall>k. k \<noteq> list_key fe \<longrightarrow> omap_find (m_factions m') k = omap_find (m_factions m) k)"
proof -
  obtain res m' e where run: "SetOneFactionReputation env fe standing incremental m = (res, m', e)"
    by (metis prod.collapse)
  define v where "v = target_standing env fe standing incremental fs"
  note hit = SetOneFactionReputation_hit [OF assms(1), of env standing incremental, folded v_def, unfolded run fst_conv snd_conv]
  have found: "omap_find (m_factions m') k = (if k = list_key fe then Some (changed_state env fe v fs) else omap_find (m_factions m) k)" for k
    by (simp add: hit(2) omap_find_set)
  have rep: "GetReputation env (Some fe) m' = v"
    using assms(2) by (simp add: GetReputation_def GetState_def found i32_sub_add v_def target_standing_def)
  have war: "GetRank env (Some fe) m' \<le> REP_HOSTILE \<longrightarrow> IsAtWar (Some fe) m' \<or> fs_Has fs FACTION_FLAG_PEACE_FORCED"
    using assms(2) by (simp add: GetRank_def rep IsAtWar_def GetState_def found changed_state_Has del: rank_le_code)
  have "needSend (changed_state env fe v fs) \<and> needSave (changed_state env fe v fs)"
    by (simp add: changed_state_def shown_state_def SetAtWar_state_def Let_def)
  then show ?thesis
    using run hit(1) found rep war clamp_standing_bounds v_def unfolding target_standing_def by auto
qed

theorem SetOneFactionReputation_result_witness:
  "GetReputation example_rep_env (Some example_faction)
     (fst (snd (SetOneFactionReputation example_rep_env example_faction 50000 True example_rep_mgr))) = 42999"
proof -
  have "omap_find (m_factions example_rep_mgr) (list_key example_faction) = Some example_rep_state"
    "0 \<le> reputationListID example_faction"
    by (simp_all add: example_rep_mgr_def example_key, simp add: example_faction_def)
  moreover have "gained_standing example_rep_env 50000 = 50000" "fs_Standing example_rep_state = 0"
    by (simp_all add: gained_standing_def example_rep_env_def example_floats_def i32_def example_rep_state_def)
  ultimately show ?thesis
    using SetOneFactionReputation_result [of example_rep_mgr example_faction example_rep_state example_rep_env 50000 True]
    by (auto simp: example_base i32_def clamp_standing_def)
qed

text \<open>
  C25. In every state a player's manager reaches after login, the counters the achievements read are exact (as 8-bit
  numbers): they count the factions of rank at least honored, revered and exalted and the visible ones.  The
  hypothesis is what the server checks or assumes of \<^verbatim>\<open>Faction.dbc\<close>.
\<close>
theorem reputation_counters_exact:
  assumes "store_ok env" and "rep_reachable env m"
  shows "m_honoredFactionCount m =
           of_nat (length (filter (\<lambda>e. REP_HONORED \<le> GetRank env (sFactionStore env (fs_ID (snd e))) m) (m_factions m))) \<and>
         m_reveredFactionCount m =
           of_nat (length (filter (\<lambda>e. REP_REVERED \<le> GetRank env (sFactionStore env (fs_ID (snd e))) m) (m_factions m))) \<and>
         m_exaltedFactionCount m =
           of_nat (length (filter (\<lambda>e. REP_EXALTED \<le> GetRank env (sFactionStore env (fs_ID (snd e))) m) (m_factions m))) \<and>
         m_visibleFactionCount m =
           of_nat (length (filter (\<lambda>e. fs_Has (snd e) FACTION_FLAG_VISIBLE) (m_factions m)))"
proof -
  have ok: "rep_ok env m" using rep_reachable_ok assms by blast
  have "filter (\<lambda>e. r \<le> GetRank env (sFactionStore env (fs_ID (snd e))) m) (m_factions m) =
      filter (\<lambda>e. at_least env r (snd e)) (m_factions m)" for r
    by (rule filter_cong) (simp_all add: rep_ok_GetRank [OF ok] at_least_def)
  then show ?thesis using ok by (simp only: rep_ok_def tally_def)
qed

theorem reputation_counters_exact_witness:
  "m_honoredFactionCount example_rep_mgr =
     of_nat (length (filter (\<lambda>e. REP_HONORED \<le> GetRank example_rep_env (sFactionStore example_rep_env (fs_ID (snd e))) example_rep_mgr)
       (m_factions example_rep_mgr)))"
proof -
  have "rep_reachable example_rep_env (fst (Rep_LoadFromDB example_rep_env None new_ReputationMgr))"
    by (rule rr_load) simp
  then have "rep_reachable example_rep_env example_rep_mgr" by (simp only: example_loaded)
  from reputation_counters_exact [OF example_store_ok this] show ?thesis by (rule conjunct1)
qed


definition record_of :: "(u32, faction_state) omap \<Rightarrow> nat \<Rightarrow> pkt_op list" where
  "record_of xs i =
     (case omap_find xs (of_nat i) of
        None \<Rightarrow> [Out8 0, Out32 0]
      | Some fs \<Rightarrow> [Out8 (fs_Flags fs), Out32 (word_of_int (fs_Standing fs))])"

lemma absent_records_map:
  assumes "a \<le> b" and "\<forall>i \<in> {unat a..<unat b}. omap_find xs (of_nat i) = None"
  shows "absent_records a b = concat (map (record_of xs) [unat a..<unat b])"
proof -
  have "unat (b - a) = unat b - unat a" using assms(1) by (simp add: unat_sub word_le_nat_alt)
  moreover have "map (record_of xs) [unat a..<unat b] = map (\<lambda>_. [Out8 0, Out32 0]) [unat a..<unat b]"
    using assms(2) by (simp add: record_of_def)
  ultimately show ?thesis by (simp add: absent_records_def map_replicate_const)
qed

lemma SendInitialReputations_loop_records:
  "omap_ok xs \<Longrightarrow> \<forall>k \<in> fst ` set xs. a \<le> k \<and> k < 128 \<Longrightarrow> a \<le> 128 \<Longrightarrow>
   SendInitialReputations_loop a xs = concat (map (record_of xs) [unat a..<128])"
proof (induction xs arbitrary: a)
  case Nil
  then show ?case using absent_records_map [of a 128 "[]"] by simp
next
  case (Cons e xs)
  obtain k fs where e: "e = (k, fs)" by (cases e)
  have k: "a \<le> k" "k < 128" using Cons.prems(2) e by auto
  have ok: "omap_ok xs" and above: "\<forall>k' \<in> fst ` set xs. k < k'" using Cons.prems(1) e by (auto simp: omap_ok_def)
  have uk: "unat a \<le> unat k" "unat k < 128"
    using k by (simp_all add: word_le_nat_alt word_less_nat_alt)
  have suc: "unat (k + 1) = Suc (unat k)" using uk by (simp add: unat_word_ariths)
  have before: "\<forall>i \<in> {unat a..<unat k}. omap_find (e # xs) (of_nat i) = None"
  proof
    fix i assume i: "i \<in> {unat a..<unat k}"
    then have "unat (of_nat i :: u32) = i" using uk by (simp add: unat_of_nat)
    then have lt: "(of_nat i :: u32) < k" using i by (simp add: word_less_nat_alt)
    then have "of_nat i \<notin> fst ` set xs" using above by (metis order.asym)
    with lt show "omap_find (e # xs) (of_nat i) = None" by (auto simp: e map_of_eq_None_iff)
  qed
  have tail: "map (record_of (e # xs)) [Suc (unat k)..<128] = map (record_of xs) [Suc (unat k)..<128]"
  proof (rule map_cong [OF refl])
    fix i assume i: "i \<in> set [Suc (unat k)..<128]"
    then have "unat (of_nat i :: u32) = i" by (simp add: unat_of_nat)
    with i have "of_nat i \<noteq> k" by (metis Suc_n_not_le_n atLeastLessThan_iff set_upt)
    then show "record_of (e # xs) i = record_of xs i" by (simp add: record_of_def e)
  qed
  have "SendInitialReputations_loop (k + 1) xs = concat (map (record_of xs) [unat (k + 1)..<128])"
  proof (rule Cons.IH [OF ok])
    show "\<forall>k' \<in> fst ` set xs. k + 1 \<le> k' \<and> k' < 128"
      using above Cons.prems(2) suc by (auto simp: word_le_nat_alt word_less_nat_alt Suc_le_eq)
    show "k + 1 \<le> 128" using uk suc by (simp add: word_le_nat_alt)
  qed
  then have "SendInitialReputations_loop a (e # xs) =
      concat (map (record_of (e # xs)) [unat a..<unat k]) @ record_of (e # xs) (unat k) @
      concat (map (record_of (e # xs)) [Suc (unat k)..<128])"
    using absent_records_map [OF k(1) before] unfolding tail suc by (simp add: e record_of_def [of _ "unat k"])
  also have "\<dots> = concat (map (record_of (e # xs)) ([unat a..<unat k] @ unat k # [Suc (unat k)..<128]))"
    by simp
  also have "[unat a..<unat k] @ unat k # [Suc (unat k)..<128] = [unat a..<128]"
    using uk upt_add_eq_append [of "unat a" "unat k" "128 - unat k"] upt_conv_Cons [of "unat k" 128] by simp
  finally show ?case .
qed

text \<open>
  The login packet: if every listed faction has a place below 128, \<^verbatim>\<open>SendInitialReputations\<close> sends one packet with exactly
  128 records after the count, record \<open>i\<close> holding the flags and the standing of the faction at place \<open>i\<close>,
  or zeros where there is none; nothing is left to send.
\<close>
theorem initial_reputations_packet:
  assumes "store_ok env" and "rep_reachable env m" and "\<forall>k \<in> fst ` set (m_factions m). k < 128"
  shows "snd (SendInitialReputations env m) =
           [RepSend (owner_guid env) \<lparr>wp_opcode = SMSG_INITIALIZE_FACTIONS,
              wp_ops = Out32 128 # concat (map (\<lambda>i. case omap_find (m_factions m) (of_nat i) of
                          None \<Rightarrow> [Out8 0, Out32 0]
                        | Some fs \<Rightarrow> [Out8 (fs_Flags fs), Out32 (word_of_int (fs_Standing fs))]) [0..<128])\<rparr>] \<and>
         (\<forall>e \<in> set (m_factions (fst (SendInitialReputations env m))). \<not> needSend (snd e))"
proof -
  have "omap_ok (m_factions m)" using rep_reachable_ok [OF assms(2,1)] by (simp add: rep_ok_def)
  then have "SendInitialReputations_loop 0 (m_factions m) = concat (map (record_of (m_factions m)) [0..<128])"
    using SendInitialReputations_loop_records [of "m_factions m" 0] assms(3) by simp
  then show ?thesis
    unfolding record_of_def [abs_def]
    by (auto simp: SendInitialReputations_def wp_add_def new_WorldPacket_def simp del: upt_rec_numeral)
qed

theorem initial_reputations_packet_witness:
  "wp_ops (case snd (SendInitialReputations example_rep_env example_rep_mgr) of [RepSend g p] \<Rightarrow> p) =
     Out32 128 # concat (map (\<lambda>i. case omap_find (m_factions example_rep_mgr) (of_nat i) of
         None \<Rightarrow> [Out8 0, Out32 0]
       | Some fs \<Rightarrow> [Out8 (fs_Flags fs), Out32 (word_of_int (fs_Standing fs))]) [0..<128])"
proof -
  have "rep_reachable example_rep_env (fst (Rep_LoadFromDB example_rep_env None new_ReputationMgr))"
    by (rule rr_load) simp
  then have "rep_reachable example_rep_env example_rep_mgr" by (simp only: example_loaded)
  moreover have "\<forall>k \<in> fst ` set (m_factions example_rep_mgr). k < 128"
    by (simp add: example_rep_mgr_def)
  ultimately show ?thesis
    using initial_reputations_packet [OF example_store_ok, of example_rep_mgr] by (simp del: upt_rec_numeral)
qed

end
