(* ===== verification/Tickets.thy ===== *)
theory Tickets
  imports World_Model Text_Util
begin

text \<open>
  Tickets to the game masters: \<^verbatim>\<open>game/Tickets/TicketMgr.h\<close> and \<^verbatim>\<open>.cpp\<close>, the players' opcodes of
  \<^verbatim>\<open>game/Handlers/TicketHandler.cpp\<close> and the game masters' commands of \<^verbatim>\<open>scripts/Commands/cs_ticket.cpp\<close>, with the
  table \<^verbatim>\<open>gm_tickets\<close> they write.  An operation returns the manager, its effects, and an error or
  its result: an exception or an invalid memory access does not undo what was done before it.
\<close>

section \<open>Data\<close>

datatype GMTicketResponse =
    GMTICKET_RESPONSE_FAILURE | GMTICKET_RESPONSE_SUCCESS | GMTICKET_RESPONSE_TICKET_DELETED

fun response_code :: "GMTicketResponse \<Rightarrow> u32" where
  "response_code GMTICKET_RESPONSE_FAILURE = 1"
| "response_code GMTICKET_RESPONSE_SUCCESS = 2"
| "response_code GMTICKET_RESPONSE_TICKET_DELETED = 9"

datatype GMTicketEscalationStatus =
    TICKET_UNASSIGNED | TICKET_ASSIGNED | TICKET_IN_ESCALATION_QUEUE | TICKET_ESCALATED_ASSIGNED

fun esc_code :: "GMTicketEscalationStatus \<Rightarrow> u8" where
  "esc_code TICKET_UNASSIGNED = 0"
| "esc_code TICKET_ASSIGNED = 1"
| "esc_code TICKET_IN_ESCALATION_QUEUE = 2"
| "esc_code TICKET_ESCALATED_ASSIGNED = 3"

text \<open>Coordinates are the 32-bit patterns of their \<^verbatim>\<open>float\<close> values, which the code only copies; the status is the number of its constant.\<close>

record gm_ticket =
  t_id :: u32
  t_playerGuid :: u64
  t_playerName :: string
  t_posX :: u32
  t_posY :: u32
  t_posZ :: u32
  t_mapId :: u16
  t_message :: string
  t_createTime :: u64
  t_lastModifiedTime :: u64
  t_closedBy :: int
  t_assignedTo :: u64
  t_comment :: string
  t_completed :: bool
  t_escalated :: u8
  t_viewed :: bool
  t_response :: string

text \<open>A row of \<^verbatim>\<open>gm_tickets\<close>.\<close>

record ticket_row =
  r_ticketId :: u32
  r_guid :: u32
  r_name :: string
  r_message :: string
  r_createTime :: u32
  r_mapId :: u16
  r_posX :: u32
  r_posY :: u32
  r_posZ :: u32
  r_lastModifiedTime :: u32
  r_closedBy :: int
  r_assignedTo :: u32
  r_comment :: string
  r_completed :: bool
  r_escalated :: u8
  r_viewed :: bool

record ticket_mgr =
  tm_list :: "(u32, gm_ticket) omap"
  tm_status :: bool
  tm_lastTicketId :: u32
  tm_lastSurveyId :: u32
  tm_openTicketCount :: u32
  tm_lastChange :: u64

datatype ticket_stmt =
    REP_GM_TICKET ticket_row
  | DEL_GM_TICKET u32
  | DEL_ALL_GM_TICKETS
  | INS_GM_SUBSURVEY u32 u32 u32 string
  | INS_GM_SURVEY u32 u32 u32 string

datatype ticket_effect =
    TkSend u64 world_packet
  | TkDb ticket_stmt
  | TkSysMessage string
  | TkSysEntry u32
  | TkGlobalGM string
  | TkNotification u32 u32

datatype ticket_error = ReadError bb_error | NullDeref | UseAfterFree | InvalidIterator

type_synonym 'a ticket_result = "ticket_mgr \<times> ticket_effect list \<times> (ticket_error + 'a)"

text \<open>
  What the code reads around it: the clock, \<^verbatim>\<open>GetAge\<close> as the bit pattern of its \<^verbatim>\<open>float\<close>, whether a player is in the world,
  the level limit, the time of the next daily reset, the survey draw, name and account lookups, and the value that
  the memory of a new ticket happens to hold where the constructor leaves \<^verbatim>\<open>_viewed\<close> unset.
\<close>

record ticket_env =
  te_time :: u64
  te_age :: "u64 \<Rightarrow> u32"
  te_in_world :: "u64 \<Rightarrow> bool"
  te_level_req :: u32
  te_daily_reset :: u64
  te_survey :: bool
  te_normalize :: "string \<Rightarrow> string option"
  te_guid_by_name :: "string \<Rightarrow> u64"
  te_account :: "u64 \<Rightarrow> u32"
  te_security :: "u32 \<Rightarrow> u32"
  te_viewed0 :: bool

abbreviation SMSG_QUERY_TIME_RESPONSE :: u16 where "SMSG_QUERY_TIME_RESPONSE \<equiv> 0x1CF"
abbreviation SMSG_GMTICKET_CREATE :: u16 where "SMSG_GMTICKET_CREATE \<equiv> 0x206"
abbreviation SMSG_GMTICKET_UPDATETEXT :: u16 where "SMSG_GMTICKET_UPDATETEXT \<equiv> 0x208"
abbreviation SMSG_GMTICKET_GETTICKET :: u16 where "SMSG_GMTICKET_GETTICKET \<equiv> 0x212"
abbreviation SMSG_GMTICKET_DELETETICKET :: u16 where "SMSG_GMTICKET_DELETETICKET \<equiv> 0x218"
abbreviation SMSG_GMTICKET_SYSTEMSTATUS :: u16 where "SMSG_GMTICKET_SYSTEMSTATUS \<equiv> 0x21B"
abbreviation SMSG_GMRESPONSE_RECEIVED :: u16 where "SMSG_GMRESPONSE_RECEIVED \<equiv> 0x4EF"
abbreviation SMSG_GMRESPONSE_STATUS_UPDATE :: u16 where "SMSG_GMRESPONSE_STATUS_UPDATE \<equiv> 0x4F1"
abbreviation LANG_TICKET_REQ :: u32 where "LANG_TICKET_REQ \<equiv> 6608"
abbreviation LANG_NO_PLAYERS_FOUND :: u32 where "LANG_NO_PLAYERS_FOUND \<equiv> 330"
abbreviation LANG_ALLOW_TICKETS :: u32 where "LANG_ALLOW_TICKETS \<equiv> 1134"
abbreviation LANG_DISALLOW_TICKETS :: u32 where "LANG_DISALLOW_TICKETS \<equiv> 1135"

section \<open>A ticket\<close>

definition IsClosed :: "gm_ticket \<Rightarrow> bool" where
  "IsClosed t = (t_closedBy t \<noteq> 0)"

definition IsFromPlayer :: "u64 \<Rightarrow> gm_ticket \<Rightarrow> bool" where
  "IsFromPlayer guid t = (guid = t_playerGuid t)"

definition IsAssigned :: "gm_ticket \<Rightarrow> bool" where
  "IsAssigned t = (t_assignedTo t \<noteq> 0)"

definition IsAssignedTo :: "u64 \<Rightarrow> gm_ticket \<Rightarrow> bool" where
  "IsAssignedTo guid t = (guid = t_assignedTo t)"

definition IsAssignedNotTo :: "u64 \<Rightarrow> gm_ticket \<Rightarrow> bool" where
  "IsAssignedNotTo guid t = (IsAssigned t \<and> \<not> IsAssignedTo guid t)"

definition GetAssignedToName :: "world \<Rightarrow> gm_ticket \<Rightarrow> string" where
  "GetAssignedToName w t =
     (if t_assignedTo t \<noteq> 0 then (case GetPlayerNameByGUID w (t_assignedTo t) of None \<Rightarrow> '''' | Some name \<Rightarrow> name) else '''')"

definition SetAssignedTo :: "u64 \<Rightarrow> bool \<Rightarrow> gm_ticket \<Rightarrow> gm_ticket" where
  "SetAssignedTo guid isAdmin t =
     (let t = t\<lparr>t_assignedTo := guid\<rparr>
      in if isAdmin \<and> t_escalated t = esc_code TICKET_IN_ESCALATION_QUEUE
         then t\<lparr>t_escalated := esc_code TICKET_ESCALATED_ASSIGNED\<rparr>
         else if t_escalated t = esc_code TICKET_UNASSIGNED then t\<lparr>t_escalated := esc_code TICKET_ASSIGNED\<rparr> else t)"

definition SetUnassigned :: "gm_ticket \<Rightarrow> gm_ticket" where
  "SetUnassigned t =
     (let t = t\<lparr>t_assignedTo := 0\<rparr>
      in if t_escalated t = esc_code TICKET_ASSIGNED then t\<lparr>t_escalated := esc_code TICKET_UNASSIGNED\<rparr>
         else if t_escalated t = esc_code TICKET_ESCALATED_ASSIGNED
         then t\<lparr>t_escalated := esc_code TICKET_IN_ESCALATION_QUEUE\<rparr> else t)"

definition SetMessage :: "ticket_env \<Rightarrow> string \<Rightarrow> gm_ticket \<Rightarrow> gm_ticket" where
  "SetMessage env message t = t\<lparr>t_message := message, t_lastModifiedTime := te_time env\<rparr>"

definition Ticket_LoadFromDB :: "ticket_row \<Rightarrow> gm_ticket" where
  "Ticket_LoadFromDB r =
     \<lparr>t_id = r_ticketId r, t_playerGuid = MAKE_NEW_GUID (r_guid r) 0 (high_code HIGHGUID_PLAYER), t_playerName = r_name r,
      t_posX = r_posX r, t_posY = r_posY r, t_posZ = r_posZ r, t_mapId = r_mapId r, t_message = r_message r,
      t_createTime = ucast (r_createTime r), t_lastModifiedTime = ucast (r_lastModifiedTime r), t_closedBy = r_closedBy r,
      t_assignedTo = MAKE_NEW_GUID (r_assignedTo r) 0 (high_code HIGHGUID_PLAYER), t_comment = r_comment r,
      t_completed = r_completed r, t_escalated = r_escalated r, t_viewed = r_viewed r, t_response = ''''\<rparr>"

text \<open>The columns \<^verbatim>\<open>SaveToDB\<close> binds; \<^verbatim>\<open>GUID_LOPART(_closedBy)\<close> is taken of the signed 64-bit number.\<close>

definition ticket_columns :: "gm_ticket \<Rightarrow> ticket_row" where
  "ticket_columns t =
     \<lparr>r_ticketId = t_id t, r_guid = GUID_LOPART (t_playerGuid t), r_name = t_playerName t, r_message = t_message t,
      r_createTime = ucast (t_createTime t), r_mapId = t_mapId t, r_posX = t_posX t, r_posY = t_posY t, r_posZ = t_posZ t,
      r_lastModifiedTime = ucast (t_lastModifiedTime t), r_closedBy = sint (GUID_LOPART (word_of_int (t_closedBy t))),
      r_assignedTo = GUID_LOPART (t_assignedTo t), r_comment = t_comment t, r_completed = t_completed t,
      r_escalated = t_escalated t, r_viewed = t_viewed t\<rparr>"

definition Ticket_SaveToDB :: "gm_ticket \<Rightarrow> ticket_effect list" where
  "Ticket_SaveToDB t = [TkDb (REP_GM_TICKET (ticket_columns t))]"

definition Ticket_DeleteFromDB :: "gm_ticket \<Rightarrow> ticket_effect list" where
  "Ticket_DeleteFromDB t = [TkDb (DEL_GM_TICKET (t_id t))]"

definition Ticket_SendResponse :: "u64 \<Rightarrow> gm_ticket \<Rightarrow> ticket_effect list" where
  "Ticket_SendResponse session t =
     [TkSend session (wp_add [Out32 1, Out32 0, OutCStr (Some (t_message t)), OutCStr (Some (t_response t)), Out8 0, Out8 0, Out8 0]
        (new_WorldPacket SMSG_GMRESPONSE_RECEIVED))]"

text \<open>\<^verbatim>\<open>ChatHandler::playerLink\<close>: without a session, at the console, the bare name.\<close>

definition playerLink :: "player option \<Rightarrow> string \<Rightarrow> string" where
  "playerLink handler name =
     (if handler \<noteq> None then ''|cffffffff|Hplayer:'' @ name @ ''|h['' @ name @ '']|h|r'' else name)"

definition FormatMessageString :: "ticket_env \<Rightarrow> world \<Rightarrow> player option \<Rightarrow> bool \<Rightarrow> gm_ticket \<Rightarrow> string" where
  "FormatMessageString env w handler detailed t =
     playerLink handler (t_playerName t) @ '': |cffaaffaaTicket|r|cffaaccff('' @ dec_string (unat (t_id t)) @ '')|r '' @
     ''|cff00ff00Created|r:|cff00ccff '' @ secsToTimeString (te_time env - t_createTime t) True False @ '' ago|r '' @
     ''|cff00ff00Last change|r:|cff00ccff '' @ secsToTimeString (te_time env - t_lastModifiedTime t) True False @ '' ago|r '' @
     (case GetPlayerNameByGUID w (t_assignedTo t) of
        None \<Rightarrow> ''''
      | Some name \<Rightarrow> ''|cff00ff00Assigned to|r:|cff00ccff '' @ name @ ''|r '') @
     (if detailed
      then ''|cff00ff00Ticket Message|r: ['' @ t_message t @ '']|r'' @
           (if t_comment t \<noteq> '''' then ''|cff00ff00GM Comment|r: ['' @ t_comment t @ '']|r'' else '''')
      else '''')"

definition format_part :: "string \<Rightarrow> string option \<Rightarrow> string" where
  "format_part label name =
     (case name of None \<Rightarrow> '''' | Some n \<Rightarrow> ''|cff00ff00'' @ label @ ''|r:|cff00ccff '' @ n @ ''|r '')"

definition FormatMessageString_by ::
  "player option \<Rightarrow> string option \<Rightarrow> string option \<Rightarrow> string option \<Rightarrow> string option \<Rightarrow> string option \<Rightarrow> gm_ticket \<Rightarrow> string" where
  "FormatMessageString_by handler completedByName closedByName deletedByName assignedToName unassignedByName t =
     playerLink handler (t_playerName t) @ '': |cffaaffaaTicket|r|cffaaccff('' @ dec_string (unat (t_id t)) @ '')|r '' @
     format_part ''Completed by'' completedByName @ format_part ''Closed by'' closedByName @
     format_part ''Deleted by'' deletedByName @ format_part ''Assigned to'' assignedToName @
     format_part ''Unassigned by'' unassignedByName"

section \<open>The manager\<close>

definition new_TicketMgr :: "u64 \<Rightarrow> ticket_mgr" where
  "new_TicketMgr t =
     \<lparr>tm_list = [], tm_status = True, tm_lastTicketId = 0, tm_lastSurveyId = 0, tm_openTicketCount = 0, tm_lastChange = t\<rparr>"

definition GetTicket :: "u32 \<Rightarrow> ticket_mgr \<Rightarrow> gm_ticket option" where
  "GetTicket ticketId m = omap_find (tm_list m) ticketId"

definition GetTicketByPlayer :: "u64 \<Rightarrow> ticket_mgr \<Rightarrow> gm_ticket option" where
  "GetTicketByPlayer playerGuid m =
     map_option snd (find (\<lambda>e. IsFromPlayer playerGuid (snd e) \<and> \<not> IsClosed (snd e)) (tm_list m))"

definition GetOldestOpenTicket :: "ticket_mgr \<Rightarrow> gm_ticket option" where
  "GetOldestOpenTicket m =
     map_option snd (find (\<lambda>e. \<not> IsClosed (snd e) \<and> \<not> t_completed (snd e)) (tm_list m))"

definition UpdateLastChange :: "ticket_env \<Rightarrow> ticket_mgr \<Rightarrow> ticket_mgr" where
  "UpdateLastChange env m = m\<lparr>tm_lastChange := te_time env\<rparr>"

definition GenerateTicketId :: "ticket_mgr \<Rightarrow> u32 \<times> ticket_mgr" where
  "GenerateTicketId m = (tm_lastTicketId m + 1, m\<lparr>tm_lastTicketId := tm_lastTicketId m + 1\<rparr>)"

definition GetNextSurveyID :: "ticket_mgr \<Rightarrow> u32 \<times> ticket_mgr" where
  "GetNextSurveyID m = (tm_lastSurveyId m + 1, m\<lparr>tm_lastSurveyId := tm_lastSurveyId m + 1\<rparr>)"

definition SetStatus :: "bool \<Rightarrow> ticket_mgr \<Rightarrow> ticket_mgr" where
  "SetStatus status m = m\<lparr>tm_status := status\<rparr>"

text \<open>\<^verbatim>\<open>TicketMgr::Initialize\<close>, with the configuration value \<^verbatim>\<open>CONFIG_ALLOW_TICKETS\<close>.\<close>

definition TicketMgr_Initialize :: "bool \<Rightarrow> ticket_mgr \<Rightarrow> ticket_mgr" where
  "TicketMgr_Initialize allow_tickets m = SetStatus allow_tickets m"

text \<open>The ticket in the list is changed through its pointer.\<close>

definition set_ticket :: "gm_ticket \<Rightarrow> ticket_mgr \<Rightarrow> ticket_mgr" where
  "set_ticket t m = m\<lparr>tm_list := omap_set (t_id t) t (tm_list m)\<rparr>"

definition AddTicket :: "gm_ticket \<Rightarrow> ticket_mgr \<Rightarrow> ticket_mgr \<times> ticket_effect list" where
  "AddTicket t m =
     (let m = m\<lparr>tm_list := omap_set (t_id t) t (tm_list m)\<rparr>;
          m = (if \<not> IsClosed t then m\<lparr>tm_openTicketCount := tm_openTicketCount m + 1\<rparr> else m)
      in (m, Ticket_SaveToDB t))"

definition CloseTicket :: "u32 \<Rightarrow> int \<Rightarrow> ticket_mgr \<Rightarrow> ticket_mgr \<times> ticket_effect list" where
  "CloseTicket ticketId source m =
     (case GetTicket ticketId m of
        None \<Rightarrow> (m, [])
      | Some t \<Rightarrow>
          (let t = t\<lparr>t_closedBy := source\<rparr>;
               m = m\<lparr>tm_list := omap_set ticketId t (tm_list m)\<rparr>;
               m = (if source \<noteq> 0 then m\<lparr>tm_openTicketCount := tm_openTicketCount m - 1\<rparr> else m)
           in (m, Ticket_SaveToDB t)))"

definition RemoveTicket :: "u32 \<Rightarrow> ticket_mgr \<Rightarrow> ticket_mgr \<times> ticket_effect list" where
  "RemoveTicket ticketId m =
     (case GetTicket ticketId m of
        None \<Rightarrow> (m, [])
      | Some t \<Rightarrow>
          (let m = (if \<not> IsClosed t then m\<lparr>tm_openTicketCount := tm_openTicketCount m - 1\<rparr> else m)
           in (m\<lparr>tm_list := omap_erase ticketId (tm_list m)\<rparr>, Ticket_DeleteFromDB t)))"

text \<open>
  Pointers.  A ticket object is deleted exactly when it leaves the list, in \<^verbatim>\<open>RemoveTicket\<close> and \<^verbatim>\<open>LoadTickets\<close>, so a pointer to a
  ticket of the list is the number it is filed under; reading through it when there is no such ticket any
  more is reading freed memory.  \<open>deref\<close> is the access through a pointer that may be null.
\<close>

definition ticket_deref :: "u32 \<Rightarrow> ticket_mgr \<Rightarrow> ticket_error + gm_ticket" where
  "ticket_deref ticket m = (case omap_find (tm_list m) ticket of None \<Rightarrow> Inl UseAfterFree | Some t \<Rightarrow> Inr t)"

definition deref :: "'a option \<Rightarrow> ticket_error + 'a" where
  "deref p = (case p of None \<Rightarrow> Inl NullDeref | Some x \<Rightarrow> Inr x)"

text \<open>
  The loop of \<^verbatim>\<open>ResetTickets\<close> from an iterator on.  It advances the iterator after it may have removed the ticket
  the iterator points to.
\<close>

function ResetTickets_loop :: "u32 option \<Rightarrow> ticket_mgr \<Rightarrow> unit ticket_result" where
  "ResetTickets_loop None m = (m, [], Inr ())"
| "ResetTickets_loop (Some itr) m =
     (case ticket_deref itr m of
        Inl err \<Rightarrow> (m, [], Inl err)
      | Inr t \<Rightarrow>
          (let (m', eff) = (if IsClosed t then RemoveTicket (t_id t) m else (m, []))
           in case omap_next itr (tm_list m') of
                None \<Rightarrow> (m', eff, Inl InvalidIterator)
              | Some itr' \<Rightarrow> (let (m'', eff', r) = ResetTickets_loop itr' m' in (m'', eff @ eff', r))))"
  by pat_completeness auto
termination
  using unsigned_less [where 'a = nat and 'b = 32]
  by (relation "measure (\<lambda>(itr, m). case itr of None \<Rightarrow> 0 | Some k \<Rightarrow> 2 ^ 32 - unat k)")
    (auto split: option.splits dest!: omap_next_greater simp: word_less_nat_alt intro!: diff_less_mono2)

definition ResetTickets :: "ticket_mgr \<Rightarrow> unit ticket_result" where
  "ResetTickets m =
     (case ResetTickets_loop (omap_begin (tm_list m)) m of
        (m, eff, Inl err) \<Rightarrow> (m, eff, Inl err)
      | (m, eff, Inr _) \<Rightarrow> (m\<lparr>tm_lastTicketId := 0\<rparr>, eff @ [TkDb DEL_ALL_GM_TICKETS], Inr ()))"

fun LoadTickets_loop :: "ticket_row list \<Rightarrow> ticket_mgr \<Rightarrow> ticket_mgr" where
  "LoadTickets_loop [] m = m"
| "LoadTickets_loop (r # rs) m =
     (let t = Ticket_LoadFromDB r;
          m = (if \<not> IsClosed t then m\<lparr>tm_openTicketCount := tm_openTicketCount m + 1\<rparr> else m);
          m = (if tm_lastTicketId m < t_id t then m\<lparr>tm_lastTicketId := t_id t\<rparr> else m);
          m = m\<lparr>tm_list := omap_set (t_id t) t (tm_list m)\<rparr>
      in LoadTickets_loop rs m)"

definition LoadTickets :: "ticket_row list \<Rightarrow> ticket_mgr \<Rightarrow> ticket_mgr" where
  "LoadTickets rows m = LoadTickets_loop rows (m\<lparr>tm_list := [], tm_lastTicketId := 0, tm_openTicketCount := 0\<rparr>)"

definition LoadSurveys :: "u32 option \<Rightarrow> ticket_mgr \<Rightarrow> ticket_mgr" where
  "LoadSurveys result m = m\<lparr>tm_lastSurveyId := (case result of None \<Rightarrow> 0 | Some n \<Rightarrow> n)\<rparr>"

definition ShowList :: "ticket_env \<Rightarrow> world \<Rightarrow> player option \<Rightarrow> bool \<Rightarrow> ticket_mgr \<Rightarrow> ticket_effect list" where
  "ShowList env w handler onlineOnly m =
     TkSysMessage (if onlineOnly then ''Showing list of open tickets whose creator is online.'' else ''Showing list of open tickets.'') #
     map (\<lambda>e. TkSysMessage (FormatMessageString env w handler False (snd e)))
       (filter (\<lambda>e. \<not> IsClosed (snd e) \<and> \<not> t_completed (snd e) \<and>
                    (\<not> onlineOnly \<or> FindPlayer w (t_playerGuid (snd e)) \<noteq> None)) (tm_list m))"

definition ShowClosedList :: "ticket_env \<Rightarrow> world \<Rightarrow> player option \<Rightarrow> ticket_mgr \<Rightarrow> ticket_effect list" where
  "ShowClosedList env w handler m =
     TkSysMessage ''Showing list of closed tickets.'' #
     map (\<lambda>e. TkSysMessage (FormatMessageString env w handler False (snd e))) (filter (\<lambda>e. IsClosed (snd e)) (tm_list m))"

definition ShowEscalatedList :: "ticket_env \<Rightarrow> world \<Rightarrow> player option \<Rightarrow> ticket_mgr \<Rightarrow> ticket_effect list" where
  "ShowEscalatedList env w handler m =
     TkSysMessage ''Showing list of escalated tickets.'' #
     map (\<lambda>e. TkSysMessage (FormatMessageString env w handler False (snd e)))
       (filter (\<lambda>e. \<not> IsClosed (snd e) \<and> t_escalated (snd e) = esc_code TICKET_IN_ESCALATION_QUEUE) (tm_list m))"

definition Ticket_WritePacket :: "ticket_env \<Rightarrow> ticket_mgr \<Rightarrow> gm_ticket \<Rightarrow> pkt_op list" where
  "Ticket_WritePacket env m t =
     [Out32 (te_age env (t_lastModifiedTime t)),
      Out32 (case GetOldestOpenTicket m of Some o' \<Rightarrow> te_age env (t_lastModifiedTime o') | None \<Rightarrow> 0),
      Out32 (te_age env (tm_lastChange m)),
      Out8 (min (t_escalated t) (esc_code TICKET_IN_ESCALATION_QUEUE)),
      Out8 (if t_viewed t then 1 else 0)]"

definition SendTicket :: "ticket_env \<Rightarrow> u64 \<Rightarrow> gm_ticket option \<Rightarrow> ticket_mgr \<Rightarrow> ticket_effect list" where
  "SendTicket env session ticket m =
     [TkSend session (wp_add
        (case ticket of
           None \<Rightarrow> [Out32 0x0A, Out32 1]
         | Some t \<Rightarrow> [Out32 0x06, Out32 1, OutCStr (Some (t_message t)), Out8 0x7] @ Ticket_WritePacket env m t)
        (new_WorldPacket SMSG_GMTICKET_GETTICKET))]"


section \<open>The players' opcodes\<close>

definition read_ticket :: "byte_buffer \<Rightarrow> bb_error + (u32 \<times> u32 \<times> u32 \<times> u32 \<times> string)" where
  "read_ticket recv =
     res_bind (bb_in recv) (\<lambda>(mapId :: u32, recv).
     res_bind (bb_in recv) (\<lambda>(posX :: u32, recv).
     res_bind (bb_in recv) (\<lambda>(posY :: u32, recv).
     res_bind (bb_in recv) (\<lambda>(posZ :: u32, recv).
     res_bind (bb_in_string recv) (\<lambda>(message, recv).
     res_bind (bb_in recv) (\<lambda>(unk1 :: u32, recv).
     res_bind (bb_in recv) (\<lambda>(needResponse :: u8, recv). Inr (mapId, posX, posY, posZ, message))))))))"

text \<open>\<^verbatim>\<open>GmTicket(Player*, WorldPacket&)\<close>: the number is drawn before the packet is read.\<close>

definition new_GmTicket :: "ticket_env \<Rightarrow> player \<Rightarrow> byte_buffer \<Rightarrow> ticket_mgr \<Rightarrow> ticket_mgr \<times> (bb_error + gm_ticket)" where
  "new_GmTicket env p recv m =
     (let (ticketId, m) = GenerateTicketId m
      in (m, res_bind (read_ticket recv) (\<lambda>(mapId, posX, posY, posZ, message).
           Inr \<lparr>t_id = ticketId, t_playerGuid = pl_guid p, t_playerName = pl_name p, t_posX = posX, t_posY = posY, t_posZ = posZ,
                t_mapId = ucast mapId, t_message = message, t_createTime = te_time env, t_lastModifiedTime = te_time env,
                t_closedBy = 0, t_assignedTo = 0, t_comment = '''', t_completed = False,
                t_escalated = esc_code TICKET_UNASSIGNED, t_viewed = te_viewed0 env, t_response = ''''\<rparr>)))"

definition ticket_log :: "player \<Rightarrow> string \<Rightarrow> u32 \<Rightarrow> ticket_effect" where
  "ticket_log p what ticketId =
     TkGlobalGM (playerLink (Some p) (pl_name p) @ '': |cff00ff00'' @ what @ ''|r |cffaaffaaTicket|r|cffaaccff('' @
       dec_string (unat ticketId) @ '')|r'')"

definition send_response :: "u64 \<Rightarrow> u16 \<Rightarrow> GMTicketResponse \<Rightarrow> ticket_effect" where
  "send_response session opcode response = TkSend session (wp_add [Out32 (response_code response)] (new_WorldPacket opcode))"

text \<open>After \<^verbatim>\<open>CloseTicket\<close> the pointer \<^verbatim>\<open>ticket\<close> still points at the ticket, closed now.\<close>

definition HandleGMTicketCreateOpcode :: "ticket_env \<Rightarrow> player \<Rightarrow> byte_buffer \<Rightarrow> ticket_mgr \<Rightarrow> unit ticket_result" where
  "HandleGMTicketCreateOpcode env p recv m =
     (if \<not> tm_status m then (m, [], Inr ())
      else if (ucast (pl_level p) :: u32) < te_level_req env then (m, [TkNotification LANG_TICKET_REQ (te_level_req env)], Inr ())
      else (case GetTicketByPlayer (pl_guid p) m of
              Some t \<Rightarrow>
                if t_completed t
                then (let (m, e) = CloseTicket (t_id t) (sint (pl_guid p)) m
                      in if sint (pl_guid p) \<noteq> 0
                         then (case new_GmTicket env p recv m of
                                 (m, Inl err) \<Rightarrow> (m, e, Inl (ReadError err))
                               | (m, Inr t') \<Rightarrow>
                                   (let (m, e') = AddTicket t' m
                                    in (UpdateLastChange env m,
                                        e @ e' @ [ticket_log p ''Created'' (t_id t'),
                                          send_response (pl_guid p) SMSG_GMTICKET_CREATE GMTICKET_RESPONSE_SUCCESS], Inr ())))
                         else (m, e @ [send_response (pl_guid p) SMSG_GMTICKET_CREATE GMTICKET_RESPONSE_FAILURE], Inr ()))
                else (m, [send_response (pl_guid p) SMSG_GMTICKET_CREATE GMTICKET_RESPONSE_FAILURE], Inr ())
            | None \<Rightarrow>
                (case new_GmTicket env p recv m of
                   (m, Inl err) \<Rightarrow> (m, [], Inl (ReadError err))
                 | (m, Inr t') \<Rightarrow>
                     (let (m, e') = AddTicket t' m
                      in (UpdateLastChange env m,
                          e' @ [ticket_log p ''Created'' (t_id t'),
                            send_response (pl_guid p) SMSG_GMTICKET_CREATE GMTICKET_RESPONSE_SUCCESS], Inr ())))))"

definition HandleGMTicketUpdateOpcode :: "ticket_env \<Rightarrow> player \<Rightarrow> byte_buffer \<Rightarrow> ticket_mgr \<Rightarrow> unit ticket_result" where
  "HandleGMTicketUpdateOpcode env p recv m =
     (case bb_in_string recv of
        Inl err \<Rightarrow> (m, [], Inl (ReadError err))
      | Inr (message, recv) \<Rightarrow>
          (case GetTicketByPlayer (pl_guid p) m of
             Some t \<Rightarrow>
               (let t = SetMessage env message t
                in (set_ticket t m,
                    Ticket_SaveToDB t @ [ticket_log p ''Edited'' (t_id t),
                      send_response (pl_guid p) SMSG_GMTICKET_UPDATETEXT GMTICKET_RESPONSE_SUCCESS], Inr ()))
           | None \<Rightarrow> (m, [send_response (pl_guid p) SMSG_GMTICKET_UPDATETEXT GMTICKET_RESPONSE_FAILURE], Inr ())))"

definition HandleGMTicketDeleteOpcode :: "ticket_env \<Rightarrow> player \<Rightarrow> ticket_mgr \<Rightarrow> unit ticket_result" where
  "HandleGMTicketDeleteOpcode env p m =
     (case GetTicketByPlayer (pl_guid p) m of
        None \<Rightarrow> (m, [], Inr ())
      | Some t \<Rightarrow>
          (let (m, e) = CloseTicket (t_id t) (sint (pl_guid p)) m
           in (m, [send_response (pl_guid p) SMSG_GMTICKET_DELETETICKET GMTICKET_RESPONSE_TICKET_DELETED,
                   ticket_log p ''Abandoned'' (t_id t)] @ e @ SendTicket env (pl_guid p) None m, Inr ())))"

definition SendQueryTimeResponse :: "ticket_env \<Rightarrow> player \<Rightarrow> ticket_effect list" where
  "SendQueryTimeResponse env p =
     [TkSend (pl_guid p) (wp_add [Out32 (ucast (te_time env)), Out32 (ucast (te_daily_reset env - te_time env))]
        (new_WorldPacket SMSG_QUERY_TIME_RESPONSE))]"

definition HandleGMTicketGetTicketOpcode :: "ticket_env \<Rightarrow> player \<Rightarrow> ticket_mgr \<Rightarrow> ticket_effect list" where
  "HandleGMTicketGetTicketOpcode env p m =
     SendQueryTimeResponse env p @
     (case GetTicketByPlayer (pl_guid p) m of
        Some t \<Rightarrow> if t_completed t then Ticket_SendResponse (pl_guid p) t else SendTicket env (pl_guid p) (Some t) m
      | None \<Rightarrow> SendTicket env (pl_guid p) None m)"

definition HandleGMTicketSystemStatusOpcode :: "player \<Rightarrow> ticket_mgr \<Rightarrow> ticket_effect list" where
  "HandleGMTicketSystemStatusOpcode p m =
     [TkSend (pl_guid p) (wp_add [Out32 (if tm_status m then 1 else 0)] (new_WorldPacket SMSG_GMTICKET_SYSTEMSTATUS))]"

text \<open>The answers of a survey: at most ten, ended by a zero; those read before an exception are stored.\<close>

fun read_answers :: "nat \<Rightarrow> u32 \<Rightarrow> byte_buffer \<Rightarrow> ticket_effect list \<times> (bb_error + byte_buffer)" where
  "read_answers 0 surveyId recv = ([], Inr recv)"
| "read_answers (Suc n) surveyId recv =
     (case bb_in recv :: bb_error + (u32 \<times> byte_buffer) of
        Inl err \<Rightarrow> ([], Inl err)
      | Inr (subSurveyId, recv) \<Rightarrow>
          if subSurveyId = 0 then ([], Inr recv)
          else (case res_bind (bb_in recv) (\<lambda>(rank :: u8, recv).
                       res_bind (bb_in_string recv) (\<lambda>(comment, recv). Inr (rank, comment, recv))) of
                  Inl err \<Rightarrow> ([], Inl err)
                | Inr (rank, comment, recv) \<Rightarrow>
                    (let (e, r) = read_answers n surveyId recv
                     in (TkDb (INS_GM_SUBSURVEY surveyId subSurveyId (ucast rank) comment) # e, r))))"

definition HandleGMSurveySubmit :: "player \<Rightarrow> byte_buffer \<Rightarrow> ticket_mgr \<Rightarrow> unit ticket_result" where
  "HandleGMSurveySubmit p recv m =
     (let (nextSurveyID, m) = GetNextSurveyID m
      in case bb_in recv :: bb_error + (u32 \<times> byte_buffer) of
           Inl err \<Rightarrow> (m, [], Inl (ReadError err))
         | Inr (mainSurvey, recv) \<Rightarrow>
             (case read_answers 10 nextSurveyID recv of
                (e, Inl err) \<Rightarrow> (m, e, Inl (ReadError err))
              | (e, Inr recv) \<Rightarrow>
                  (case bb_in_string recv of
                     Inl err \<Rightarrow> (m, e, Inl (ReadError err))
                   | Inr (comment, recv) \<Rightarrow>
                       (m, e @ [TkDb (INS_GM_SURVEY (GUID_LOPART (pl_guid p)) nextSurveyID mainSurvey comment)], Inr ()))))"

definition HandleReportLag :: "byte_buffer \<Rightarrow> ticket_error + unit" where
  "HandleReportLag recv =
     (case res_bind (bb_in recv) (\<lambda>(lagType :: u32, recv).
           res_bind (bb_in recv) (\<lambda>(mapId :: u32, recv).
           res_bind (bb_in recv) (\<lambda>(x :: u32, recv).
           res_bind (bb_in recv) (\<lambda>(y :: u32, recv).
           res_bind (bb_in recv) (\<lambda>(z :: u32, recv). Inr ()))))) of
        Inl err \<Rightarrow> Inl (ReadError err) | Inr _ \<Rightarrow> Inr ())"

definition HandleGMResponseResolve :: "ticket_env \<Rightarrow> player \<Rightarrow> ticket_mgr \<Rightarrow> unit ticket_result" where
  "HandleGMResponseResolve env p m =
     (case GetTicketByPlayer (pl_guid p) m of
        None \<Rightarrow> (m, [], Inr ())
      | Some t \<Rightarrow>
          (let (m, e) = CloseTicket (t_id t) (sint (pl_guid p)) m
           in (m, [TkSend (pl_guid p) (wp_add [Out8 (if te_survey env then 1 else 0)] (new_WorldPacket SMSG_GMRESPONSE_STATUS_UPDATE)),
                   send_response (pl_guid p) SMSG_GMTICKET_DELETETICKET GMTICKET_RESPONSE_TICKET_DELETED] @ e @
                  SendTicket env (pl_guid p) None m, Inr ())))"

section \<open>The game masters' commands\<close>

text \<open>
  A command gets the rest of its line, without leading blanks, and returns whether it was well formed.  The
  handler is the player who typed it, or nobody at the console.  \<^verbatim>\<open>strtok\<close> skips delimiters, takes the
  text up to the next one and continues behind it; \<^verbatim>\<open>atoi\<close> of its null result is an error.
\<close>

definition strtok :: "char list \<Rightarrow> string \<Rightarrow> (string \<times> string) option" where
  "strtok delims s =
     (case dropWhile (\<lambda>c. c \<in> set delims) s of
        [] \<Rightarrow> None
      | t \<Rightarrow> Some (takeWhile (\<lambda>c. c \<notin> set delims) t, drop 1 (dropWhile (\<lambda>c. c \<notin> set delims) t)))"

definition atoi :: "string \<Rightarrow> u32" where
  "atoi s = word_of_int (atol s)"

definition ticket_not_found :: "ticket_mgr \<Rightarrow> bool ticket_result" where
  "ticket_not_found m = (m, [TkSysMessage ''Ticket not found.''], Inr True)"

definition already_assigned :: "u32 \<Rightarrow> ticket_mgr \<Rightarrow> bool ticket_result" where
  "already_assigned ticketId m = (m, [TkSysMessage (''Ticket('' @ dec_string (unat ticketId) @ '') is already assigned.'')], Inr True)"

definition handler_name :: "player option \<Rightarrow> string" where
  "handler_name handler = (case handler of None \<Rightarrow> ''Console'' | Some p \<Rightarrow> pl_name p)"

definition HandleGMTicketAssignToCommand ::
  "ticket_env \<Rightarrow> player option \<Rightarrow> string \<Rightarrow> ticket_mgr \<Rightarrow> bool ticket_result" where
  "HandleGMTicketAssignToCommand env handler args m =
     (if args = '''' then (m, [], Inr False)
      else case deref (strtok '' '' args) of
             Inl err \<Rightarrow> (m, [], Inl err)
           | Inr (ticketIdStr, rest) \<Rightarrow>
               (case strtok '' '' rest of
                  None \<Rightarrow> (m, [], Inr False)
                | Some (targetStr, _) \<Rightarrow>
                    (case te_normalize env targetStr of
                       None \<Rightarrow> (m, [], Inr False)
                     | Some target \<Rightarrow>
                         (case GetTicket (atoi ticketIdStr) m of
                            None \<Rightarrow> ticket_not_found m
                          | Some t \<Rightarrow>
                              if IsClosed t then ticket_not_found m
                              else let targetGuid = te_guid_by_name env target;
                                       targetGmLevel = te_security env (te_account env targetGuid)
                                   in if targetGuid = 0 \<or> IsPlayerAccount targetGmLevel
                                      then (m, [TkSysMessage ''Invalid name specified. Name should be that of an online Gamemaster.''], Inr True)
                                      else if IsAssignedTo targetGuid t
                                      then (m, [TkSysMessage (''This ticket is already assigned to yourself. To unassign use .ticket unassign '' @
                                              dec_string (unat (t_id t)) @ '' and then reassign.'')], Inr True)
                                      else if (case handler of None \<Rightarrow> False | Some p \<Rightarrow> IsAssignedNotTo (pl_guid p) t)
                                      then already_assigned (t_id t) m
                                      else let t = SetAssignedTo targetGuid (targetGmLevel = sec_code SEC_ADMINISTRATOR) t
                                           in (UpdateLastChange env (set_ticket t m),
                                               Ticket_SaveToDB t @
                                               [TkGlobalGM (FormatMessageString_by handler None None None (Some target) None t)],
                                               Inr True)))))"

definition notify_submitter :: "ticket_env \<Rightarrow> world \<Rightarrow> gm_ticket \<Rightarrow> ticket_effect list" where
  "notify_submitter env w t =
     (case FindPlayer w (t_playerGuid t) of
        None \<Rightarrow> []
      | Some submitter \<Rightarrow>
          if te_in_world env (pl_guid submitter)
          then [send_response (pl_guid submitter) SMSG_GMTICKET_DELETETICKET GMTICKET_RESPONSE_TICKET_DELETED] else [])"

definition HandleGMTicketCloseByIdCommand ::
  "ticket_env \<Rightarrow> world \<Rightarrow> player option \<Rightarrow> string \<Rightarrow> ticket_mgr \<Rightarrow> bool ticket_result" where
  "HandleGMTicketCloseByIdCommand env w handler args m =
     (if args = '''' then (m, [], Inr False)
      else case GetTicket (atoi args) m of
             None \<Rightarrow> ticket_not_found m
           | Some t \<Rightarrow>
               if IsClosed t \<or> t_completed t then ticket_not_found m
               else if (case handler of None \<Rightarrow> False | Some p \<Rightarrow> IsAssignedNotTo (pl_guid p) t)
               then (m, [TkSysMessage (''Cannot close Ticket('' @ dec_string (unat (t_id t)) @ ''). It's assigned to another GM.'')], Inr True)
               else let source = (case handler of None \<Rightarrow> - 1 | Some p \<Rightarrow> sint (pl_guid p));
                        (m, e) = CloseTicket (t_id t) source m;
                        t = t\<lparr>t_closedBy := source\<rparr>
                    in (UpdateLastChange env m,
                        e @ [TkGlobalGM (FormatMessageString_by handler None (Some (handler_name handler)) None None None t)] @
                        notify_submitter env w t, Inr True))"

text \<open>Here the player is used without the test for the console.\<close>

definition HandleGMTicketCommentCommand ::
  "ticket_env \<Rightarrow> world \<Rightarrow> player option \<Rightarrow> string \<Rightarrow> ticket_mgr \<Rightarrow> bool ticket_result" where
  "HandleGMTicketCommentCommand env w handler args m =
     (if args = '''' then (m, [], Inr False)
      else case deref (strtok '' '' args) of
             Inl err \<Rightarrow> (m, [], Inl err)
           | Inr (ticketIdStr, rest) \<Rightarrow>
               (case strtok [CHR 0x0A] rest of
                  None \<Rightarrow> (m, [], Inr False)
                | Some (comment, _) \<Rightarrow>
                    (case GetTicket (atoi ticketIdStr) m of
                       None \<Rightarrow> ticket_not_found m
                     | Some t \<Rightarrow>
                         if IsClosed t then ticket_not_found m
                         else (case deref handler of
                                 Inl err \<Rightarrow> (m, [], Inl err)
                               | Inr p \<Rightarrow>
                                   if IsAssignedNotTo (pl_guid p) t then already_assigned (t_id t) m
                                   else let t = t\<lparr>t_comment := comment\<rparr>
                                        in (UpdateLastChange env (set_ticket t m),
                                            Ticket_SaveToDB t @
                                            [TkGlobalGM (FormatMessageString_by handler None None None (Some (GetAssignedToName w t)) None t @
                                               handler_name handler @ '' |cff00ff00Added comment|r: ['' @ comment @ '']|r'')], Inr True)))))"

definition HandleGMTicketCompleteCommand ::
  "ticket_env \<Rightarrow> world \<Rightarrow> player option \<Rightarrow> string \<Rightarrow> ticket_mgr \<Rightarrow> bool ticket_result" where
  "HandleGMTicketCompleteCommand env w handler args m =
     (if args = '''' then (m, [], Inr False)
      else case GetTicket (atoi args) m of
             None \<Rightarrow> ticket_not_found m
           | Some t \<Rightarrow>
               if IsClosed t \<or> t_completed t then ticket_not_found m
               else (case FindPlayer w (t_playerGuid t) of
                       None \<Rightarrow> (m, [TkSysMessage (''The creator of Ticket('' @ dec_string (unat (t_id t)) @ '') is not online.'')], Inr False)
                     | Some creator \<Rightarrow>
                         if \<not> te_in_world env (pl_guid creator)
                         then (m, [TkSysMessage (''The creator of Ticket('' @ dec_string (unat (t_id t)) @ '') is not online.'')], Inr False)
                         else let e = Ticket_SendResponse (pl_guid creator) t;
                                  t = t\<lparr>t_completed := True\<rparr>
                              in (UpdateLastChange env (set_ticket t m),
                                  e @ Ticket_SaveToDB t @
                                  [TkGlobalGM (FormatMessageString_by handler (Some (handler_name handler)) None None None None t)], Inr True)))"

text \<open>
  \<^verbatim>\<open>RemoveTicket\<close> deletes the object that \<^verbatim>\<open>ticket\<close> points to; the last lines read its
  owner through the pointer again, \<^verbatim>\<open>ticket->GetPlayer()\<close>.
\<close>

definition HandleGMTicketDeleteByIdCommand ::
  "ticket_env \<Rightarrow> world \<Rightarrow> player option \<Rightarrow> string \<Rightarrow> ticket_mgr \<Rightarrow> bool ticket_result" where
  "HandleGMTicketDeleteByIdCommand env w handler args m =
     (if args = '''' then (m, [], Inr False)
      else case GetTicket (atoi args) m of
             None \<Rightarrow> ticket_not_found m
           | Some t \<Rightarrow>
               (let e = [TkGlobalGM (FormatMessageString_by handler None None (Some (handler_name handler)) None None t)];
                    (m, e') = RemoveTicket (t_id t) m;
                    m = UpdateLastChange env m
                in case ticket_deref (t_id t) m of
                     Inl err \<Rightarrow> (m, e @ e', Inl err)
                   | Inr t \<Rightarrow> (m, e @ e' @ notify_submitter env w t, Inr True)))"

definition HandleGMTicketEscalateCommand ::
  "ticket_env \<Rightarrow> world \<Rightarrow> string \<Rightarrow> ticket_mgr \<Rightarrow> bool ticket_result" where
  "HandleGMTicketEscalateCommand env w args m =
     (if args = '''' then (m, [], Inr False)
      else case GetTicket (atoi args) m of
             None \<Rightarrow> ticket_not_found m
           | Some t \<Rightarrow>
               if IsClosed t \<or> t_completed t \<or> t_escalated t \<noteq> esc_code TICKET_UNASSIGNED then ticket_not_found m
               else let t = t\<lparr>t_escalated := esc_code TICKET_IN_ESCALATION_QUEUE\<rparr>;
                        m = set_ticket t m;
                        e = (case FindPlayer w (t_playerGuid t) of
                               None \<Rightarrow> []
                             | Some p \<Rightarrow> if te_in_world env (pl_guid p) then SendTicket env (pl_guid p) (Some t) m else [])
                    in (UpdateLastChange env m, e, Inr True))"

definition HandleGMTicketResetCommand :: "ticket_mgr \<Rightarrow> bool ticket_result" where
  "HandleGMTicketResetCommand m =
     (if tm_openTicketCount m \<noteq> 0
      then (m, [TkSysMessage ''There are pending open tickets, please close them first!''], Inr True)
      else (case ResetTickets m of
              (m, e, Inl err) \<Rightarrow> (m, e, Inl err)
            | (m, e, Inr _) \<Rightarrow>
                (m, e @ [TkSysMessage ''All closed tickets were deleted and the ticket counter is reset to |cffff00ff 1|r''], Inr True)))"

definition HandleToggleGMTicketSystem :: "ticket_mgr \<Rightarrow> bool ticket_result" where
  "HandleToggleGMTicketSystem m =
     (let status = \<not> tm_status m
      in (SetStatus status m, [TkSysEntry (if status then LANG_ALLOW_TICKETS else LANG_DISALLOW_TICKETS)], Inr True))"

definition HandleGMTicketUnAssignCommand ::
  "ticket_env \<Rightarrow> world \<Rightarrow> player option \<Rightarrow> string \<Rightarrow> ticket_mgr \<Rightarrow> bool ticket_result" where
  "HandleGMTicketUnAssignCommand env w handler args m =
     (if args = '''' then (m, [], Inr False)
      else case GetTicket (atoi args) m of
             None \<Rightarrow> ticket_not_found m
           | Some t \<Rightarrow>
               if IsClosed t then ticket_not_found m
               else if \<not> IsAssigned t
               then (m, [TkSysMessage (''Ticket('' @ dec_string (unat (t_id t)) @ '') is not assigned, you cannot unassign it.'')], Inr True)
               else let security = (case FindPlayer w (t_assignedTo t) of
                                      Some q \<Rightarrow> if te_in_world env (pl_guid q) then pl_security q
                                                else te_security env (te_account env (t_assignedTo t))
                                    | None \<Rightarrow> te_security env (te_account env (t_assignedTo t)));
                        mySecurity = (case handler of None \<Rightarrow> sec_code SEC_CONSOLE | Some p \<Rightarrow> pl_security p)
                    in if mySecurity < security
                       then (m, [TkSysMessage ''You cannot unassign tickets from staff members with a higher security level than yourself.''], Inr True)
                       else let t = SetUnassigned t
                            in (UpdateLastChange env (set_ticket t m),
                                Ticket_SaveToDB t @
                                [TkGlobalGM (FormatMessageString_by handler None None None (Some (GetAssignedToName w t)) (Some (handler_name handler)) t)],
                                Inr True))"

definition HandleGMTicketGetByIdCommand ::
  "ticket_env \<Rightarrow> world \<Rightarrow> player option \<Rightarrow> string \<Rightarrow> ticket_mgr \<Rightarrow> bool ticket_result" where
  "HandleGMTicketGetByIdCommand env w handler args m =
     (if args = '''' then (m, [], Inr False)
      else case GetTicket (atoi args) m of
             None \<Rightarrow> ticket_not_found m
           | Some t \<Rightarrow>
               if IsClosed t \<or> t_completed t then ticket_not_found m
               else let t = t\<lparr>t_viewed := True\<rparr>
                    in (set_ticket t m, Ticket_SaveToDB t @ [TkSysMessage (FormatMessageString env w handler True t)], Inr True))"

definition HandleGMTicketGetByNameCommand ::
  "ticket_env \<Rightarrow> world \<Rightarrow> player option \<Rightarrow> string \<Rightarrow> ticket_mgr \<Rightarrow> bool ticket_result" where
  "HandleGMTicketGetByNameCommand env w handler args m =
     (if args = '''' then (m, [], Inr False)
      else case te_normalize env args of
             None \<Rightarrow> (m, [], Inr False)
           | Some name \<Rightarrow>
               (let guid = (case FindPlayerByName w name of Some p \<Rightarrow> pl_guid p | None \<Rightarrow> te_guid_by_name env name)
                in if guid = 0 then (m, [TkSysEntry LANG_NO_PLAYERS_FOUND], Inr True)
                   else case GetTicketByPlayer guid m of
                          None \<Rightarrow> ticket_not_found m
                        | Some t \<Rightarrow>
                            (let t = t\<lparr>t_viewed := True\<rparr>
                             in (set_ticket t m, Ticket_SaveToDB t @ [TkSysMessage (FormatMessageString env w handler True t)], Inr True))))"

definition HandleGMTicketResponseAppendCommand ::
  "bool \<Rightarrow> player option \<Rightarrow> string \<Rightarrow> ticket_mgr \<Rightarrow> bool ticket_result" where
  "HandleGMTicketResponseAppendCommand newLine handler args m =
     (if args = '''' then (m, [], Inr False)
      else case deref (strtok '' '' args) of
             Inl err \<Rightarrow> (m, [], Inl err)
           | Inr (ticketIdStr, rest) \<Rightarrow>
               (case strtok [CHR 0x0A] rest of
                  None \<Rightarrow> (m, [], Inr False)
                | Some (response, _) \<Rightarrow>
                    (case GetTicket (atoi ticketIdStr) m of
                       None \<Rightarrow> ticket_not_found m
                     | Some t \<Rightarrow>
                         if IsClosed t then ticket_not_found m
                         else if (case handler of None \<Rightarrow> False | Some p \<Rightarrow> IsAssignedNotTo (pl_guid p) t)
                         then already_assigned (t_id t) m
                         else let t = t\<lparr>t_response := t_response t @ response @ (if newLine then [CHR 0x0A] else [])\<rparr>
                              in (set_ticket t m,
                                  Ticket_SaveToDB t @
                                  [TkSysMessage (''Response successfully appended to Ticket('' @ dec_string (unat (t_id t)) @ '').'')], Inr True))))"


definition HandleGMTicketListClosedCommand :: "ticket_env \<Rightarrow> world \<Rightarrow> player option \<Rightarrow> ticket_mgr \<Rightarrow> bool ticket_result" where
  "HandleGMTicketListClosedCommand env w handler m = (m, ShowClosedList env w handler m, Inr True)"

definition HandleGMTicketListEscalatedCommand :: "ticket_env \<Rightarrow> world \<Rightarrow> player option \<Rightarrow> ticket_mgr \<Rightarrow> bool ticket_result" where
  "HandleGMTicketListEscalatedCommand env w handler m = (m, ShowEscalatedList env w handler m, Inr True)"

definition HandleGMTicketListCommand :: "ticket_env \<Rightarrow> world \<Rightarrow> player option \<Rightarrow> ticket_mgr \<Rightarrow> bool ticket_result" where
  "HandleGMTicketListCommand env w handler m = (m, ShowList env w handler False m, Inr True)"

definition HandleGMTicketListOnlineCommand :: "ticket_env \<Rightarrow> world \<Rightarrow> player option \<Rightarrow> ticket_mgr \<Rightarrow> bool ticket_result" where
  "HandleGMTicketListOnlineCommand env w handler m = (m, ShowList env w handler True m, Inr True)"

end
