(* ===== verification/Tickets_Inv.thy ===== *)
theory Tickets_Inv
  imports Tickets
begin

text \<open>
  What the ticket system keeps: the counter of open tickets is exact, a player has at most one open ticket,
  and the table \<^verbatim>\<open>gm_tickets\<close> follows the tickets in memory, through every opcode, command and reload.
\<close>

section \<open>The table\<close>

text \<open>\<^verbatim>\<open>gm_tickets\<close> has \<^verbatim>\<open>ticketId\<close> as its key: the effect of the statements, in order.\<close>

fun tk_apply :: "ticket_effect list \<Rightarrow> (u32, ticket_row) omap \<Rightarrow> (u32, ticket_row) omap" where
  "tk_apply [] db = db"
| "tk_apply (TkDb (REP_GM_TICKET r) # es) db = tk_apply es (omap_set (r_ticketId r) r db)"
| "tk_apply (TkDb (DEL_GM_TICKET k) # es) db = tk_apply es (omap_erase k db)"
| "tk_apply (TkDb DEL_ALL_GM_TICKETS # es) db = tk_apply es []"
| "tk_apply (_ # es) db = tk_apply es db"

lemma tk_apply_append [simp]: "tk_apply (es @ es') db = tk_apply es' (tk_apply es db)"
  by (induction es db rule: tk_apply.induct) simp_all

section \<open>Invariants\<close>

definition is_player_guid :: "u64 \<Rightarrow> bool" where
  "is_player_guid g \<longleftrightarrow>
     g = MAKE_NEW_GUID (GUID_LOPART g) 0 (high_code HIGHGUID_PLAYER) \<and> 0 < GUID_LOPART g \<and> GUID_LOPART g < 0x80000000"

text \<open>Who can have closed a ticket: nobody, the console, or a player.\<close>

definition closer_ok :: "int \<Rightarrow> bool" where
  "closer_ok c \<longleftrightarrow> c = - 1 \<or> (0 \<le> c \<and> c < 2 ^ 31)"

definition entry_ok :: "u32 \<Rightarrow> u32 \<times> gm_ticket \<Rightarrow> bool" where
  "entry_ok mx e \<longleftrightarrow>
     t_id (snd e) = fst e \<and> fst e \<noteq> 0 \<and> fst e \<le> mx \<and> is_player_guid (t_playerGuid (snd e)) \<and> closer_ok (t_closedBy (snd e))"

definition tickets_ok :: "ticket_mgr \<Rightarrow> bool" where
  "tickets_ok m \<longleftrightarrow>
     omap_ok (tm_list m) \<and> (\<forall>e \<in> set (tm_list m). entry_ok (tm_lastTicketId m) e) \<and>
     tm_openTicketCount m = tally (\<lambda>t. \<not> IsClosed t) (tm_list m)"

definition one_open :: "ticket_mgr \<Rightarrow> bool" where
  "one_open m \<longleftrightarrow>
     (\<forall>i j t t'. omap_find (tm_list m) i = Some t \<longrightarrow> omap_find (tm_list m) j = Some t' \<longrightarrow>
        \<not> IsClosed t \<longrightarrow> \<not> IsClosed t' \<longrightarrow> t_playerGuid t = t_playerGuid t' \<longrightarrow> i = j)"

text \<open>The row of a ticket, up to the escalation column, which \<^verbatim>\<open>HandleGMTicketEscalateCommand\<close> does not save.\<close>

definition row_core :: "ticket_row \<Rightarrow> ticket_row" where
  "row_core r = r\<lparr>r_escalated := 0\<rparr>"

definition stored :: "ticket_mgr \<Rightarrow> (u32, ticket_row) omap \<Rightarrow> bool" where
  "stored m db \<longleftrightarrow>
     omap_ok db \<and>
     (\<forall>k. map_option row_core (omap_find db k) = map_option (\<lambda>t. row_core (ticket_columns t)) (omap_find (tm_list m) k))"

definition tk_inv :: "ticket_mgr \<Rightarrow> (u32, ticket_row) omap \<Rightarrow> bool" where
  "tk_inv m db \<longleftrightarrow> tickets_ok m \<and> one_open m \<and> stored m db"

subsection \<open>Guids and rows\<close>

lemma player_guid_ucast: "MAKE_NEW_GUID l 0 (high_code HIGHGUID_PLAYER) = ucast l"
  by (simp add: MAKE_NEW_GUID_def)

lemma lopart_ucast: "GUID_LOPART (ucast l) = l"
  using player_guid_lopart [of l] by (simp only: player_guid_ucast)

lemma player_guid_sint:
  assumes "is_player_guid g"
  shows "sint g = uint (GUID_LOPART g)" and "sint g \<noteq> 0" and "closer_ok (sint g)"
proof -
  define l where "l = GUID_LOPART g"
  have g: "g = ucast l" and l: "0 < l" "l < 0x80000000"
    using assms unfolding is_player_guid_def l_def player_guid_ucast by auto
  have "uint l < 2 ^ 32" using uint_lt2p [of l] by simp
  then have b: "uint l < 2 ^ 63" "uint l < 2 ^ 64" "- (2 ^ 63) \<le> uint l" "0 \<le> uint l"
    by (simp_all add: order.trans [OF _ unsigned_greater_eq])
  have "take_bit 64 (uint l) = uint l" "signed_take_bit 63 (uint l) = uint l"
    by (rule take_bit_int_eq_self [OF b(4,2)], rule signed_take_bit_int_eq_self [OF b(3,1)])
  then have "sint g = uint l"
    unfolding g by (subst sint_uint) (simp add: unsigned_ucast_eq)
  moreover have "0 < uint l" "uint l < 2 ^ 31"
    using l by (simp_all add: word_less_def)
  ultimately show "sint g = uint (GUID_LOPART g)" and "sint g \<noteq> 0" and "closer_ok (sint g)"
    by (simp_all add: l_def closer_ok_def)
qed

lemma console_lopart: "GUID_LOPART (word_of_int (- 1)) = 0x00FFFFFF"
  by (simp add: GUID_LOPART_def IsGuidHaveEnPart_def GUID_HIPART_def Let_def mask_eq_exp_minus_1)

lemma closer_row:
  assumes "closer_ok c"
  shows "sint (GUID_LOPART (word_of_int c)) = (if c = - 1 then 0x00FFFFFF else c)"
proof (cases "c = - 1")
  case True
  then show ?thesis using console_lopart by simp
next
  case False
  with assms have c: "0 \<le> c" "c < 2 ^ 31" by (auto simp: closer_ok_def)
  have "(word_of_int c :: u64) = ucast (word_of_int c :: u32)"
    using c by (simp add: unsigned_of_int take_bit_int_eq_self)
  then have "GUID_LOPART (word_of_int c) = (word_of_int c :: u32)" by (simp only: lopart_ucast)
  then show ?thesis
    using c False by (simp add: signed_of_int signed_take_bit_int_eq_self)
qed

lemma closer_row_ok: "closer_ok c \<Longrightarrow> closer_ok (sint (GUID_LOPART (word_of_int c)))"
  by (simp add: closer_row) (auto simp: closer_ok_def)

lemma closer_row_zero: "closer_ok c \<Longrightarrow> sint (GUID_LOPART (word_of_int c)) = 0 \<longleftrightarrow> c = 0"
  by (simp add: closer_row)

lemma is_player_guid_make: "is_player_guid g \<Longrightarrow> MAKE_NEW_GUID (GUID_LOPART g) 0 (high_code HIGHGUID_PLAYER) = g"
  by (simp add: is_player_guid_def)


subsection \<open>The elementary changes\<close>

lemma tk_inv_cong:
  "tm_list m' = tm_list m \<Longrightarrow> tm_lastTicketId m' = tm_lastTicketId m \<Longrightarrow> tm_openTicketCount m' = tm_openTicketCount m \<Longrightarrow>
   tk_inv m' db = tk_inv m db"
  by (simp add: tk_inv_def tickets_ok_def one_open_def stored_def)

lemma tk_inv_UpdateLastChange [simp]: "tk_inv (UpdateLastChange env m) db = tk_inv m db"
  by (rule tk_inv_cong) (simp_all add: UpdateLastChange_def)

lemma stored_save:
  assumes "stored m db" and "tm_list m' = omap_set (t_id t) t (tm_list m)"
  shows "stored m' (tk_apply (Ticket_SaveToDB t) db)"
  using assms by (simp add: stored_def Ticket_SaveToDB_def omap_find_set omap_ok_set ticket_columns_def)

lemma tk_inv_find:
  assumes "tk_inv m db" and "omap_find (tm_list m) k = Some t"
  shows "t_id t = k" and "k \<noteq> 0" and "k \<le> tm_lastTicketId m" and "is_player_guid (t_playerGuid t)" and "closer_ok (t_closedBy t)"
  using assms map_of_SomeD [OF assms(2)] by (auto simp: tk_inv_def tickets_ok_def entry_ok_def)

lemma tk_inv_replace:
  assumes inv: "tk_inv m db" and k: "omap_find (tm_list m) k = Some t"
    and same: "t_id t' = t_id t" "t_playerGuid t' = t_playerGuid t"
    and closer: "closer_ok (t_closedBy t')" "IsClosed t \<Longrightarrow> IsClosed t'"
    and m': "tm_list m' = omap_set k t' (tm_list m)" "tm_lastTicketId m' = tm_lastTicketId m"
      "tm_openTicketCount m' = tm_openTicketCount m - bit_of (\<not> IsClosed t) + bit_of (\<not> IsClosed t')"
    and db: "stored m' db'"
  shows "tk_inv m' db'"
proof -
  have ok: "tickets_ok m" "one_open m" "omap_ok (tm_list m)"
    using inv by (auto simp: tk_inv_def tickets_ok_def)
  have "entry_ok (tm_lastTicketId m) (k, t')"
    using tk_inv_find [OF inv k] same closer by (simp add: entry_ok_def)
  then have "\<forall>e \<in> set (tm_list m'). entry_ok (tm_lastTicketId m') e"
    using ok(1) omap_set_subset [of k t' "tm_list m"] unfolding m' tickets_ok_def by auto
  moreover have "tm_openTicketCount m' = tally (\<lambda>t. \<not> IsClosed t) (tm_list m')"
    using ok(1) unfolding m' tally_set_hit [OF ok(3) k] by (simp add: tickets_ok_def)
  ultimately have "tickets_ok m'"
    using ok(3) unfolding tickets_ok_def m'(1) by (simp add: omap_ok_set)
  moreover have "one_open m'"
    using ok(2) k same closer(2) unfolding one_open_def m'(1) by (auto simp: omap_find_set split: if_splits)
  ultimately show ?thesis using db by (simp add: tk_inv_def)
qed

lemma set_ticket_inv:
  assumes "tk_inv m db" and "omap_find (tm_list m) k = Some t"
    and "t_id t' = t_id t" "t_playerGuid t' = t_playerGuid t" "t_closedBy t' = t_closedBy t"
  shows "tk_inv (set_ticket t' m) (tk_apply (Ticket_SaveToDB t') db)"
proof (rule tk_inv_replace [OF assms(1-4)])
  note t = tk_inv_find [OF assms(1,2)]
  show "tm_list (set_ticket t' m) = omap_set k t' (tm_list m)" using t assms(3) by (simp add: set_ticket_def)
  show "stored (set_ticket t' m) (tk_apply (Ticket_SaveToDB t') db)"
    using assms(1) by (intro stored_save [of m]) (simp_all add: tk_inv_def set_ticket_def)
qed (use assms tk_inv_find [OF assms(1,2)] in \<open>simp_all add: set_ticket_def IsClosed_def\<close>)

lemma CloseTicket_inv:
  assumes "tk_inv m db" and "omap_find (tm_list m) k = Some t" and "\<not> IsClosed t" and "closer_ok source" "source \<noteq> 0"
  shows "tk_inv (fst (CloseTicket k source m)) (tk_apply (snd (CloseTicket k source m)) db)"
proof -
  have id: "t_id t = k" using tk_inv_find [OF assms(1,2)] by simp
  let ?t = "t\<lparr>t_closedBy := source\<rparr>"
  have eqs: "tm_list (fst (CloseTicket k source m)) = omap_set k ?t (tm_list m)"
    "tm_lastTicketId (fst (CloseTicket k source m)) = tm_lastTicketId m"
    "tm_openTicketCount (fst (CloseTicket k source m)) = tm_openTicketCount m - 1"
    "snd (CloseTicket k source m) = Ticket_SaveToDB ?t"
    using assms(2,5) by (simp_all add: CloseTicket_def GetTicket_def Let_def)
  have "stored (fst (CloseTicket k source m)) (tk_apply (snd (CloseTicket k source m)) db)"
    unfolding eqs(4) using assms(1) id by (intro stored_save [of m]) (simp_all add: tk_inv_def eqs)
  then show ?thesis
    using assms(3-5) by (intro tk_inv_replace [OF assms(1,2), of ?t]) (simp_all add: eqs IsClosed_def)
qed

lemma RemoveTicket_inv:
  assumes inv: "tk_inv m db" and k: "omap_find (tm_list m) k = Some t"
  shows "tk_inv (fst (RemoveTicket k m)) (tk_apply (snd (RemoveTicket k m)) db)"
proof -
  have id: "t_id t = k" using tk_inv_find [OF assms] by simp
  have ok: "tickets_ok m" "one_open m" "omap_ok (tm_list m)" "stored m db"
    using inv by (auto simp: tk_inv_def tickets_ok_def)
  have eqs: "tm_list (fst (RemoveTicket k m)) = omap_erase k (tm_list m)"
    "tm_lastTicketId (fst (RemoveTicket k m)) = tm_lastTicketId m"
    "tm_openTicketCount (fst (RemoveTicket k m)) = tm_openTicketCount m - bit_of (\<not> IsClosed t)"
    "tk_apply (snd (RemoveTicket k m)) db = omap_erase k db"
    using k id by (simp_all add: RemoveTicket_def GetTicket_def Let_def Ticket_DeleteFromDB_def)
  have "set (omap_erase k (tm_list m)) \<subseteq> set (tm_list m)" by (auto simp: omap_erase_def)
  then have "tickets_ok (fst (RemoveTicket k m))"
    using ok(1,3) unfolding tickets_ok_def eqs by (auto simp: omap_ok_erase tally_erase [OF ok(3) k])
  moreover have "one_open (fst (RemoveTicket k m))"
    using ok(2) unfolding one_open_def eqs by (simp add: omap_find_erase)
  moreover have "stored (fst (RemoveTicket k m)) (omap_erase k db)"
    using ok(4) unfolding stored_def eqs by (simp add: omap_find_erase omap_ok_erase)
  ultimately show ?thesis by (simp add: tk_inv_def eqs)
qed

text \<open>A new ticket takes the next number; its player has no open ticket.\<close>

lemma AddTicket_inv:
  assumes inv: "tk_inv m db" and fresh: "tm_lastTicketId m < 0xFFFFFFFF"
    and t: "t_id t = tm_lastTicketId m + 1" "t_closedBy t = 0" "is_player_guid (t_playerGuid t)"
    and none: "\<And>k t'. omap_find (tm_list m) k = Some t' \<Longrightarrow> \<not> IsClosed t' \<Longrightarrow> t_playerGuid t' \<noteq> t_playerGuid t"
  defines "m' \<equiv> m\<lparr>tm_lastTicketId := tm_lastTicketId m + 1\<rparr>"
  shows "tk_inv (fst (AddTicket t m')) (tk_apply (snd (AddTicket t m')) db)"
proof -
  let ?k = "tm_lastTicketId m + 1"
  have ok: "tickets_ok m" "one_open m" "omap_ok (tm_list m)" "stored m db"
    using inv by (auto simp: tk_inv_def tickets_ok_def)
  have k: "unat ?k = Suc (unat (tm_lastTicketId m))"
    using fresh by (simp add: unat_word_ariths word_less_nat_alt)
  then have above: "\<forall>x. x \<le> tm_lastTicketId m \<longrightarrow> x < ?k" "?k \<noteq> 0"
    by (auto simp: word_le_nat_alt word_less_nat_alt unat_eq_0 [symmetric])
  have new: "omap_find (tm_list m) ?k = None"
  proof (rule ccontr)
    assume "omap_find (tm_list m) ?k \<noteq> None"
    then obtain t' where "omap_find (tm_list m) ?k = Some t'" by blast
    from tk_inv_find(3) [OF inv this] above(1) show False by auto
  qed
  have eqs: "tm_list (fst (AddTicket t m')) = omap_set ?k t (tm_list m)" "tm_lastTicketId (fst (AddTicket t m')) = ?k"
    "tm_openTicketCount (fst (AddTicket t m')) = tm_openTicketCount m + 1" "snd (AddTicket t m') = Ticket_SaveToDB t"
    using t by (simp_all add: AddTicket_def Let_def m'_def IsClosed_def)
  have "entry_ok ?k e" if "e \<in> set (tm_list m)" for e
    using that ok(1) above(1) by (auto simp: tickets_ok_def entry_ok_def intro: less_imp_le)
  moreover have "entry_ok ?k (?k, t)"
    using t above(2) by (simp add: entry_ok_def closer_ok_def)
  ultimately have "tickets_ok (fst (AddTicket t m'))"
    using ok(1,3) omap_set_subset [of ?k t "tm_list m"] t(2) unfolding tickets_ok_def eqs
    by (auto simp: omap_ok_set tally_set_new [OF ok(3) new] IsClosed_def)
  moreover have "one_open (fst (AddTicket t m'))"
    using ok(2) none unfolding one_open_def eqs by (auto simp: omap_find_set split: if_splits) metis+
  moreover have "stored (fst (AddTicket t m')) (tk_apply (Ticket_SaveToDB t) db)"
    using ok(4) t(1) by (intro stored_save [of m]) (simp_all add: eqs)
  ultimately show ?thesis by (simp add: tk_inv_def eqs)
qed


subsection \<open>The opcodes\<close>

lemma GetTicketByPlayer_Some:
  assumes "tk_inv m db" and "GetTicketByPlayer g m = Some t"
  shows "omap_find (tm_list m) (t_id t) = Some t" and "\<not> IsClosed t" and "t_playerGuid t = g"
proof -
  obtain e where e: "find (\<lambda>e. IsFromPlayer g (snd e) \<and> \<not> IsClosed (snd e)) (tm_list m) = Some e" "t = snd e"
    using assms(2) by (auto simp: GetTicketByPlayer_def)
  then have mem: "e \<in> set (tm_list m)" and "IsFromPlayer g (snd e)" "\<not> IsClosed (snd e)"
    by (auto simp: find_Some_iff)
  moreover have "omap_find (tm_list m) (fst e) = Some (snd e)"
    using assms(1) mem by (simp add: tk_inv_def tickets_ok_def omap_find_iff)
  moreover have "t_id (snd e) = fst e"
    using assms(1) mem by (auto simp: tk_inv_def tickets_ok_def entry_ok_def)
  ultimately show "omap_find (tm_list m) (t_id t) = Some t" and "\<not> IsClosed t" and "t_playerGuid t = g"
    using e(2) by (simp_all add: IsFromPlayer_def)
qed

lemma GetTicketByPlayer_None:
  assumes "GetTicketByPlayer g m = None" and "omap_find (tm_list m) k = Some t" and "\<not> IsClosed t"
  shows "t_playerGuid t \<noteq> g"
proof -
  have "\<not> (\<exists>e. e \<in> set (tm_list m) \<and> IsFromPlayer g (snd e) \<and> \<not> IsClosed (snd e))"
    using assms(1) by (simp add: GetTicketByPlayer_def find_None_iff)
  with map_of_SomeD [OF assms(2)] assms(3) show ?thesis by (force simp: IsFromPlayer_def)
qed

lemma tk_apply_send [simp]:
  "tk_apply (SendTicket env g t m) db = db" "tk_apply (Ticket_SendResponse g t') db = db"
  "tk_apply (notify_submitter env w t') db = db" "tk_apply (send_response g op r # es) db = tk_apply es db"
  "tk_apply (ticket_log p s k # es) db = tk_apply es db"
  by (simp_all add: SendTicket_def Ticket_SendResponse_def notify_submitter_def send_response_def ticket_log_def
      split: option.split)

lemma tk_inv_GenerateTicketId:
  assumes "tk_inv m db" and "tm_lastTicketId m < 0xFFFFFFFF"
  shows "tk_inv (m\<lparr>tm_lastTicketId := tm_lastTicketId m + 1\<rparr>) db"
proof -
  have "tm_lastTicketId m \<le> tm_lastTicketId m + 1"
    using assms(2) by (simp add: word_le_nat_alt unat_word_ariths word_less_nat_alt)
  then have "entry_ok (tm_lastTicketId m) e \<Longrightarrow> entry_ok (tm_lastTicketId m + 1) e" for e
    by (auto simp: entry_ok_def)
  with assms(1) show ?thesis by (auto simp: tk_inv_def tickets_ok_def one_open_def stored_def)
qed

text \<open>Constructing and adding a ticket for a player without one.\<close>

lemma create_inv:
  assumes inv: "tk_inv m db" and fresh: "tm_lastTicketId m < 0xFFFFFFFF" and p: "is_player_guid (pl_guid p)"
    and none: "\<And>k t. omap_find (tm_list m) k = Some t \<Longrightarrow> \<not> IsClosed t \<Longrightarrow> t_playerGuid t \<noteq> pl_guid p"
    and run: "new_GmTicket env p recv m = (m', r)"
  shows "tk_inv m' db" and "r = Inr t \<Longrightarrow> tk_inv (fst (AddTicket t m')) (tk_apply (snd (AddTicket t m')) db)"
proof -
  have m': "m' = m\<lparr>tm_lastTicketId := tm_lastTicketId m + 1\<rparr>"
    using run by (auto simp: new_GmTicket_def GenerateTicketId_def)
  then show "tk_inv m' db" using tk_inv_GenerateTicketId [OF inv fresh] by simp
  assume "r = Inr t"
  then have "t_id t = tm_lastTicketId m + 1" "t_closedBy t = 0" "t_playerGuid t = pl_guid p"
    using run by (auto simp: new_GmTicket_def GenerateTicketId_def res_bind_Inr_iff)
  then show "tk_inv (fst (AddTicket t m')) (tk_apply (snd (AddTicket t m')) db)"
    unfolding m' using p none by (intro AddTicket_inv [OF inv fresh]) simp_all
qed

lemma CloseTicket_closes:
  assumes "tk_inv m db" and "GetTicketByPlayer g m = Some t" and "is_player_guid g"
    and "omap_find (tm_list (fst (CloseTicket (t_id t) (sint g) m))) k = Some t'" and "\<not> IsClosed t'"
  shows "t_playerGuid t' \<noteq> g"
proof -
  note t = GetTicketByPlayer_Some [OF assms(1,2)]
  have "tm_list (fst (CloseTicket (t_id t) (sint g) m)) = omap_set (t_id t) (t\<lparr>t_closedBy := sint g\<rparr>) (tm_list m)"
    using t(1) by (simp add: CloseTicket_def GetTicket_def Let_def)
  then have "omap_find (tm_list m) k = Some t'" and "k \<noteq> t_id t"
    using assms(4,5) player_guid_sint(2) [OF assms(3)] by (auto simp: omap_find_set IsClosed_def split: if_splits)
  moreover have "one_open m" using assms(1) by (simp add: tk_inv_def)
  ultimately show ?thesis using t assms(5) unfolding one_open_def by metis
qed

lemma HandleGMTicketCreateOpcode_inv:
  assumes inv: "tk_inv m db" and fresh: "tm_lastTicketId m < 0xFFFFFFFF" and p: "is_player_guid (pl_guid p)"
  shows "tk_inv (fst (HandleGMTicketCreateOpcode env p recv m)) (tk_apply (fst (snd (HandleGMTicketCreateOpcode env p recv m))) db)"
proof (cases "GetTicketByPlayer (pl_guid p) m")
  case None
  obtain m1 r where run: "new_GmTicket env p recv m = (m1, r)" by (cases "new_GmTicket env p recv m")
  note new = create_inv [OF inv fresh p GetTicketByPlayer_None [OF None] run]
  show ?thesis
    using inv None run new by (cases r) (auto simp: HandleGMTicketCreateOpcode_def Let_def case_prod_unfold)
next
  case (Some t)
  note t = GetTicketByPlayer_Some [OF inv Some]
  let ?m1 = "fst (CloseTicket (t_id t) (sint (pl_guid p)) m)" let ?db1 = "tk_apply (snd (CloseTicket (t_id t) (sint (pl_guid p)) m)) db"
  have inv1: "tk_inv ?m1 ?db1"
    using CloseTicket_inv [OF inv t(1,2)] player_guid_sint [OF p] by simp
  have fresh1: "tm_lastTicketId ?m1 < 0xFFFFFFFF"
    using fresh t(1) by (simp add: CloseTicket_def GetTicket_def Let_def)
  obtain m2 r where run: "new_GmTicket env p recv ?m1 = (m2, r)" by (cases "new_GmTicket env p recv ?m1")
  note new = create_inv [OF inv1 fresh1 p CloseTicket_closes [OF inv Some p] run]
  show ?thesis
    using inv Some run new player_guid_sint(2) [OF p]
    by (cases r) (auto simp: HandleGMTicketCreateOpcode_def Let_def case_prod_unfold)
qed

lemma HandleGMTicketUpdateOpcode_inv:
  assumes inv: "tk_inv m db"
  shows "tk_inv (fst (HandleGMTicketUpdateOpcode env p recv m)) (tk_apply (fst (snd (HandleGMTicketUpdateOpcode env p recv m))) db)"
proof (cases "GetTicketByPlayer (pl_guid p) m")
  case (Some t)
  show ?thesis
    using inv Some set_ticket_inv [OF inv GetTicketByPlayer_Some(1) [OF inv Some]]
    by (auto simp: HandleGMTicketUpdateOpcode_def Let_def SetMessage_def split: sum.split)
qed (use inv in \<open>auto simp: HandleGMTicketUpdateOpcode_def split: sum.split\<close>)

lemma close_own_ticket_inv:
  assumes "tk_inv m db" and "is_player_guid g" and "GetTicketByPlayer g m = Some t"
  shows "tk_inv (fst (CloseTicket (t_id t) (sint g) m)) (tk_apply (snd (CloseTicket (t_id t) (sint g) m)) db)"
  using CloseTicket_inv [OF assms(1) GetTicketByPlayer_Some(1,2) [OF assms(1,3)]] player_guid_sint [OF assms(2)] by simp

lemma HandleGMTicketDeleteOpcode_inv:
  "tk_inv m db \<Longrightarrow> is_player_guid (pl_guid p) \<Longrightarrow>
   tk_inv (fst (HandleGMTicketDeleteOpcode env p m)) (tk_apply (fst (snd (HandleGMTicketDeleteOpcode env p m))) db)"
  by (auto simp: HandleGMTicketDeleteOpcode_def Let_def case_prod_unfold close_own_ticket_inv split: option.split)

lemma HandleGMResponseResolve_inv:
  "tk_inv m db \<Longrightarrow> is_player_guid (pl_guid p) \<Longrightarrow>
   tk_inv (fst (HandleGMResponseResolve env p m)) (tk_apply (fst (snd (HandleGMResponseResolve env p m))) db)"
  by (auto simp: HandleGMResponseResolve_def Let_def case_prod_unfold close_own_ticket_inv split: option.split)

lemma read_answers_apply: "tk_apply (fst (read_answers n k recv)) db = db"
proof (induction n arbitrary: recv)
  case (Suc n)
  then show ?case by (auto simp: Let_def case_prod_unfold split: sum.split)
qed simp

lemma HandleGMSurveySubmit_inv:
  assumes "tk_inv m db"
  shows "tk_inv (fst (HandleGMSurveySubmit p recv m)) (tk_apply (fst (snd (HandleGMSurveySubmit p recv m))) db)"
proof -
  let ?m = "m\<lparr>tm_lastSurveyId := tm_lastSurveyId m + 1\<rparr>"
  have "fst (HandleGMSurveySubmit p recv m) = ?m"
    by (auto simp: HandleGMSurveySubmit_def GetNextSurveyID_def split: sum.split prod.split)
  moreover have "tk_apply (fst (snd (HandleGMSurveySubmit p recv m))) db = db"
    using read_answers_apply [of 10]
    by (auto simp: HandleGMSurveySubmit_def GetNextSurveyID_def split: sum.split prod.split) (metis fst_conv)+
  moreover have "tk_inv ?m db = tk_inv m db" by (rule tk_inv_cong) simp_all
  ultimately show ?thesis using assms by simp
qed


subsection \<open>The commands\<close>

lemma command_set_inv:
  assumes "tk_inv m db" and "GetTicket k m = Some t"
    and "t_id t' = t_id t" "t_playerGuid t' = t_playerGuid t" "t_closedBy t' = t_closedBy t"
  shows "tk_inv (set_ticket t' m) (tk_apply (Ticket_SaveToDB t') db)"
  using set_ticket_inv [OF assms(1) _ assms(3-5)] assms(2) by (simp add: GetTicket_def)

lemma assignment_fields [simp]:
  "t_id (SetAssignedTo g b t) = t_id t" "t_playerGuid (SetAssignedTo g b t) = t_playerGuid t"
  "t_closedBy (SetAssignedTo g b t) = t_closedBy t"
  "t_id (SetUnassigned t) = t_id t" "t_playerGuid (SetUnassigned t) = t_playerGuid t"
  "t_closedBy (SetUnassigned t) = t_closedBy t"
  by (simp_all add: SetAssignedTo_def SetUnassigned_def Let_def)

lemma plain_results [simp]:
  "fst (ticket_not_found m) = m" "tk_apply (fst (snd (ticket_not_found m))) db = db"
  "fst (already_assigned k m) = m" "tk_apply (fst (snd (already_assigned k m))) db = db"
  by (simp_all add: ticket_not_found_def already_assigned_def)

lemma HandleGMTicketAssignToCommand_inv:
  "tk_inv m db \<Longrightarrow> tk_inv (fst (HandleGMTicketAssignToCommand env h args m))
     (tk_apply (fst (snd (HandleGMTicketAssignToCommand env h args m))) db)"
  unfolding HandleGMTicketAssignToCommand_def Let_def deref_def
  by (auto simp: command_set_inv split: option.split prod.split)

lemma HandleGMTicketCommentCommand_inv:
  "tk_inv m db \<Longrightarrow> tk_inv (fst (HandleGMTicketCommentCommand env w h args m))
     (tk_apply (fst (snd (HandleGMTicketCommentCommand env w h args m))) db)"
  unfolding HandleGMTicketCommentCommand_def Let_def deref_def
  by (auto simp: command_set_inv split: option.split prod.split)

lemma HandleGMTicketCompleteCommand_inv:
  "tk_inv m db \<Longrightarrow> tk_inv (fst (HandleGMTicketCompleteCommand env w h args m))
     (tk_apply (fst (snd (HandleGMTicketCompleteCommand env w h args m))) db)"
  unfolding HandleGMTicketCompleteCommand_def Let_def
  by (auto simp: command_set_inv split: option.split)

lemma HandleGMTicketUnAssignCommand_inv:
  "tk_inv m db \<Longrightarrow> tk_inv (fst (HandleGMTicketUnAssignCommand env w h args m))
     (tk_apply (fst (snd (HandleGMTicketUnAssignCommand env w h args m))) db)"
  unfolding HandleGMTicketUnAssignCommand_def Let_def
  by (auto simp: command_set_inv split: option.split)

lemma HandleGMTicketGetByIdCommand_inv:
  "tk_inv m db \<Longrightarrow> tk_inv (fst (HandleGMTicketGetByIdCommand env w h args m))
     (tk_apply (fst (snd (HandleGMTicketGetByIdCommand env w h args m))) db)"
  unfolding HandleGMTicketGetByIdCommand_def Let_def
  by (auto simp: command_set_inv split: option.split)

lemma HandleGMTicketGetByNameCommand_inv:
  assumes "tk_inv m db"
  shows "tk_inv (fst (HandleGMTicketGetByNameCommand env w h args m))
     (tk_apply (fst (snd (HandleGMTicketGetByNameCommand env w h args m))) db)"
proof -
  have "tk_inv (set_ticket (t\<lparr>t_viewed := True\<rparr>) m) (tk_apply (Ticket_SaveToDB (t\<lparr>t_viewed := True\<rparr>)) db)"
    if "GetTicketByPlayer g m = Some t" for g t
    using set_ticket_inv [OF assms GetTicketByPlayer_Some(1) [OF assms that]] by simp
  then show ?thesis
    using assms unfolding HandleGMTicketGetByNameCommand_def Let_def by (auto split: option.split)
qed

lemma HandleGMTicketResponseAppendCommand_inv:
  "tk_inv m db \<Longrightarrow> tk_inv (fst (HandleGMTicketResponseAppendCommand nl h args m))
     (tk_apply (fst (snd (HandleGMTicketResponseAppendCommand nl h args m))) db)"
  unfolding HandleGMTicketResponseAppendCommand_def Let_def deref_def
  by (auto simp: command_set_inv split: option.split prod.split)

text \<open>Escalation changes only the column that the comparison with the table leaves out.\<close>

lemma HandleGMTicketEscalateCommand_inv:
  assumes inv: "tk_inv m db"
  shows "tk_inv (fst (HandleGMTicketEscalateCommand env w args m)) (tk_apply (fst (snd (HandleGMTicketEscalateCommand env w args m))) db)"
proof -
  have "tk_inv (set_ticket (t\<lparr>t_escalated := e\<rparr>) m) db" if "GetTicket k m = Some t" for k t e
  proof -
    have k: "omap_find (tm_list m) k = Some t" using that by (simp add: GetTicket_def)
    note t = tk_inv_find [OF inv k]
    have "stored (set_ticket (t\<lparr>t_escalated := e\<rparr>) m) db"
      using inv t k by (auto simp: tk_inv_def stored_def set_ticket_def omap_find_set row_core_def ticket_columns_def)
    then show ?thesis
      using t by (intro tk_inv_replace [OF inv k, of "t\<lparr>t_escalated := e\<rparr>"]) (simp_all add: set_ticket_def IsClosed_def)
  qed
  with inv show ?thesis
    unfolding HandleGMTicketEscalateCommand_def Let_def by (auto split: option.split)
qed

lemma HandleGMTicketCloseByIdCommand_inv:
  assumes inv: "tk_inv m db" and h: "\<And>p. h = Some p \<Longrightarrow> is_player_guid (pl_guid p)"
  shows "tk_inv (fst (HandleGMTicketCloseByIdCommand env w h args m)) (tk_apply (fst (snd (HandleGMTicketCloseByIdCommand env w h args m))) db)"
proof -
  let ?src = "case h of None \<Rightarrow> - 1 | Some p \<Rightarrow> sint (pl_guid p)"
  have src: "closer_ok ?src" "?src \<noteq> 0"
    using h player_guid_sint by (auto simp: closer_ok_def split: option.split)
  have "tk_inv (fst (CloseTicket (t_id t) ?src m)) (tk_apply (snd (CloseTicket (t_id t) ?src m)) db)"
    if "GetTicket k m = Some t" "\<not> IsClosed t" for k t
  proof -
    have k: "omap_find (tm_list m) k = Some t" using that by (simp add: GetTicket_def)
    show ?thesis using CloseTicket_inv [OF inv k that(2) src] tk_inv_find(1) [OF inv k] by simp
  qed
  with inv show ?thesis
    unfolding HandleGMTicketCloseByIdCommand_def Let_def case_prod_unfold by (auto split: option.split)
qed

lemma HandleGMTicketDeleteByIdCommand_inv:
  assumes inv: "tk_inv m db"
  shows "tk_inv (fst (HandleGMTicketDeleteByIdCommand env w h args m)) (tk_apply (fst (snd (HandleGMTicketDeleteByIdCommand env w h args m))) db)"
proof -
  have "tk_inv (fst (RemoveTicket (t_id t) m)) (tk_apply (snd (RemoveTicket (t_id t) m)) db)" if "GetTicket k m = Some t" for k t
    using that RemoveTicket_inv [OF inv] tk_inv_find(1) [OF inv] by (simp add: GetTicket_def)
  with inv show ?thesis
    unfolding HandleGMTicketDeleteByIdCommand_def Let_def case_prod_unfold
    by (auto simp: notify_submitter_def split: option.split sum.split)
qed

text \<open>
  The reset runs when the counter is zero.  As the numbers are distinct and not zero, the counter cannot have wrapped:
  then no ticket is open.
\<close>

lemma no_open_tickets:
  assumes inv: "tk_inv m db" and zero: "tm_openTicketCount m = 0" and e: "e \<in> set (tm_list m)"
  shows "IsClosed (snd e)"
proof (rule ccontr)
  assume open': "\<not> IsClosed (snd e)"
  let ?open = "filter (\<lambda>e. \<not> IsClosed (snd e)) (tm_list m)"
  have keys: "distinct (map fst (tm_list m))" "0 \<notin> fst ` set (tm_list m)"
    using inv by (auto simp: tk_inv_def tickets_ok_def omap_ok_distinct entry_ok_def)
  have "length (tm_list m) = card (fst ` set (tm_list m))"
    using keys(1) by (metis distinct_card length_map set_map)
  also have "\<dots> \<le> card (UNIV - {0} :: u32 set)"
    using keys(2) by (intro card_mono) auto
  also have "\<dots> < 2 ^ 32" by (simp add: card_Diff_singleton card_word)
  finally have "length ?open < 2 ^ 32" by (rule order.strict_trans1 [OF length_filter_le])
  moreover have "(of_nat (length ?open) :: u32) = 0"
    using inv zero by (simp add: tk_inv_def tickets_ok_def tally_def)
  ultimately have "?open = []"
    by (simp add: word_of_nat_eq_0_iff) (metis length_0_conv nat_dvd_not_less neq0_conv)
  with e open' show False by (auto simp: filter_empty_conv)
qed

text \<open>Removing the ticket under the iterator leaves the iterator without its element.\<close>

lemma ResetTickets_first_closed:
  assumes inv: "tk_inv m db" and "tm_list m = e # es" and "IsClosed (snd e)"
  shows "ResetTickets_loop (omap_begin (tm_list m)) m =
    (fst (RemoveTicket (fst e) m), snd (RemoveTicket (fst e) m), Inl InvalidIterator)"
proof -
  have "e \<in> set (tm_list m)" using assms(2) by simp
  then have e: "t_id (snd e) = fst e" "omap_find (tm_list m) (fst e) = Some (snd e)"
    using inv by (auto simp: tk_inv_def tickets_ok_def entry_ok_def omap_find_iff)
  have "tm_list (fst (RemoveTicket (fst e) m)) = omap_erase (fst e) (tm_list m)"
    using e by (simp add: RemoveTicket_def GetTicket_def Let_def)
  then show ?thesis
    using e assms(2,3) by (simp add: omap_begin_def ticket_deref_def omap_next_erased case_prod_unfold Let_def)
qed

lemma HandleGMTicketResetCommand_inv:
  assumes inv: "tk_inv m db"
  shows "tk_inv (fst (HandleGMTicketResetCommand m)) (tk_apply (fst (snd (HandleGMTicketResetCommand m))) db)"
proof (cases "tm_openTicketCount m = 0")
  case False
  with inv show ?thesis by (simp add: HandleGMTicketResetCommand_def)
next
  case True
  have closed: "\<forall>e \<in> set (tm_list m). IsClosed (snd e)" using no_open_tickets [OF inv True] by blast
  show ?thesis
  proof (cases "tm_list m")
    case Nil
    have "tk_inv (m\<lparr>tm_lastTicketId := 0\<rparr>) []"
      using inv Nil by (simp add: tk_inv_def tickets_ok_def one_open_def stored_def)
    then show ?thesis
      using True Nil by (simp add: HandleGMTicketResetCommand_def ResetTickets_def omap_begin_def)
  next
    case (Cons e es)
    have "e \<in> set (tm_list m)" using Cons by simp
    then have "omap_find (tm_list m) (fst e) = Some (snd e)"
      using inv by (auto simp: tk_inv_def tickets_ok_def omap_find_iff)
    then have "tk_inv (fst (RemoveTicket (fst e) m)) (tk_apply (snd (RemoveTicket (fst e) m)) db)"
      using RemoveTicket_inv [OF inv] by simp
    moreover have "IsClosed (snd e)" using closed Cons by simp
    ultimately show ?thesis
      using True ResetTickets_first_closed [OF inv Cons] by (simp add: HandleGMTicketResetCommand_def ResetTickets_def)
  qed
qed


subsection \<open>Loading\<close>

lemma ucast_up_down_u32: "(ucast (ucast (x :: u32) :: u64) :: u32) = x"
  by transfer simp

lemma LoadTickets_loop_find:
  "distinct (map r_ticketId rs) \<Longrightarrow>
   omap_find (tm_list (LoadTickets_loop rs m)) k =
     (case map_of (map (\<lambda>r. (r_ticketId r, r)) rs) k of
        Some r \<Rightarrow> Some (Ticket_LoadFromDB r) | None \<Rightarrow> omap_find (tm_list m) k)"
proof (induction rs arbitrary: m)
  case (Cons r rs)
  have "map_of (map (\<lambda>r. (r_ticketId r, r)) rs) (r_ticketId r) = None"
    using Cons.prems by (auto simp: map_of_eq_None_iff)
  with Cons show ?case
    by (auto simp: Let_def omap_find_set Ticket_LoadFromDB_def split: option.split)
qed simp

lemma LoadTickets_loop_ok:
  assumes "tickets_ok m" and "distinct (map r_ticketId rs)" and "\<forall>r \<in> set rs. omap_find (tm_list m) (r_ticketId r) = None"
    and "\<forall>r \<in> set rs. r_ticketId r \<noteq> 0 \<and> is_player_guid (t_playerGuid (Ticket_LoadFromDB r)) \<and> closer_ok (r_closedBy r)"
  shows "tickets_ok (LoadTickets_loop rs m)"
  using assms
proof (induction rs arbitrary: m)
  case (Cons r rs)
  let ?t = "Ticket_LoadFromDB r"
  let ?m = "m\<lparr>tm_openTicketCount := tm_openTicketCount m + bit_of (\<not> IsClosed ?t),
              tm_lastTicketId := max (tm_lastTicketId m) (t_id ?t), tm_list := omap_set (t_id ?t) ?t (tm_list m)\<rparr>"
  have id: "t_id ?t = r_ticketId r" "t_closedBy ?t = r_closedBy r" by (simp_all add: Ticket_LoadFromDB_def)
  have ok: "omap_ok (tm_list m)" and new: "omap_find (tm_list m) (t_id ?t) = None"
    using Cons.prems by (simp_all add: tickets_ok_def id)
  have "LoadTickets_loop (r # rs) m = LoadTickets_loop rs ?m"
    by (simp add: Let_def max_def not_less)
  moreover have "tickets_ok ?m"
  proof -
    have "entry_ok (max (tm_lastTicketId m) (t_id ?t)) (t_id ?t, ?t)"
      using Cons.prems(4) by (simp add: entry_ok_def id)
    moreover have "entry_ok (tm_lastTicketId m) e \<Longrightarrow> entry_ok (max (tm_lastTicketId m) (t_id ?t)) e" for e
      by (auto simp: entry_ok_def le_max_iff_disj)
    ultimately have "\<forall>e \<in> set (tm_list ?m). entry_ok (tm_lastTicketId ?m) e"
      using Cons.prems(1) omap_set_subset [of "t_id ?t" ?t "tm_list m"] by (auto simp: tickets_ok_def)
    then show ?thesis
      using Cons.prems(1) by (simp add: tickets_ok_def omap_ok_set tally_set_new [OF ok new])
  qed
  moreover have "\<forall>r' \<in> set rs. omap_find (tm_list ?m) (r_ticketId r') = None"
    using Cons.prems(2,3) by (simp add: omap_find_set id) (metis imageI)
  ultimately show ?case using Cons.IH [of ?m] Cons.prems(2,4) by simp
qed simp

text \<open>\<^verbatim>\<open>SELECT ... FROM gm_tickets\<close> returns the rows of the table.\<close>

definition select_tickets :: "(u32, ticket_row) omap \<Rightarrow> ticket_row list" where
  "select_tickets db = map snd db"

lemma row_core_fields:
  assumes "row_core r = row_core (ticket_columns t)"
  shows "r_ticketId r = t_id t" "r_guid r = GUID_LOPART (t_playerGuid t)"
    "r_closedBy r = sint (GUID_LOPART (word_of_int (t_closedBy t)))"
proof -
  have "r_ticketId (row_core r) = r_ticketId (row_core (ticket_columns t))" "r_guid (row_core r) = r_guid (row_core (ticket_columns t))"
    "r_closedBy (row_core r) = r_closedBy (row_core (ticket_columns t))"
    using assms by simp_all
  then show "r_ticketId r = t_id t" "r_guid r = GUID_LOPART (t_playerGuid t)"
    "r_closedBy r = sint (GUID_LOPART (word_of_int (t_closedBy t)))"
    by (simp_all add: row_core_def ticket_columns_def)
qed

lemma stored_row:
  assumes "tk_inv m db" and "omap_find db k = Some r"
  obtains t where "omap_find (tm_list m) k = Some t" and "row_core r = row_core (ticket_columns t)"
  using assms unfolding tk_inv_def stored_def by (metis (no_types, lifting) map_option_eq_Some option.simps(9))

lemma load_row_fields:
  assumes inv: "tk_inv m db" and k: "omap_find (tm_list m) k = Some t" and r: "row_core r = row_core (ticket_columns t)"
  shows "r_ticketId r = k" "t_playerGuid (Ticket_LoadFromDB r) = t_playerGuid t" "closer_ok (r_closedBy r)"
    "IsClosed (Ticket_LoadFromDB r) = IsClosed t"
  using tk_inv_find [OF inv k] row_core_fields [OF r]
  by (simp_all add: Ticket_LoadFromDB_def is_player_guid_make closer_row_ok closer_row_zero IsClosed_def
      del: high_code.simps)

text \<open>Loading finds exactly what the rows hold.\<close>

lemma LoadTickets_find:
  assumes inv: "tk_inv m db"
  shows "map r_ticketId (select_tickets db) = map fst db"
    and "omap_find (tm_list (LoadTickets (select_tickets db) m')) k = map_option Ticket_LoadFromDB (omap_find db k)"
proof -
  have ok: "omap_ok db" using inv by (simp add: tk_inv_def stored_def)
  have row: "r_ticketId r = k" if "(k, r) \<in> set db" for k r
  proof -
    have "omap_find db k = Some r" using that ok by (simp add: omap_find_iff)
    then show ?thesis using stored_row [OF inv] load_row_fields(1) [OF inv] by metis
  qed
  show ids: "map r_ticketId (select_tickets db) = map fst db"
    using row by (auto simp: select_tickets_def)
  have pairs: "map (\<lambda>r. (r_ticketId r, r)) (select_tickets db) = db"
    unfolding select_tickets_def map_map by (rule map_idI) (use row in auto)
  have dist: "distinct (map r_ticketId (select_tickets db))" unfolding ids using ok by (rule omap_ok_distinct)
  show "omap_find (tm_list (LoadTickets (select_tickets db) m')) k = map_option Ticket_LoadFromDB (omap_find db k)"
    using LoadTickets_loop_find [OF dist] unfolding pairs LoadTickets_def by (simp split: option.split)
qed

lemma LoadTickets_inv:
  assumes inv: "tk_inv m db"
  shows "tk_inv (LoadTickets (select_tickets db) m') db"
proof -
  let ?m0 = "m'\<lparr>tm_list := [], tm_lastTicketId := 0, tm_openTicketCount := 0\<rparr>"
  let ?l = "LoadTickets_loop (select_tickets db) ?m0"
  have ok: "omap_ok db" using inv by (simp add: tk_inv_def stored_def)
  have dist: "distinct (map r_ticketId (select_tickets db))"
    unfolding LoadTickets_find(1) [OF inv] using ok by (rule omap_ok_distinct)
  have found: "omap_find (tm_list ?l) k = map_option Ticket_LoadFromDB (omap_find db k)" for k
    using LoadTickets_find(2) [OF inv, of m' k] by (simp add: LoadTickets_def)
  have "tickets_ok ?l"
  proof (rule LoadTickets_loop_ok [OF _ dist])
    show "\<forall>r \<in> set (select_tickets db). r_ticketId r \<noteq> 0 \<and> is_player_guid (t_playerGuid (Ticket_LoadFromDB r)) \<and> closer_ok (r_closedBy r)"
    proof
      fix r assume "r \<in> set (select_tickets db)"
      then obtain k where "(k, r) \<in> set db" by (auto simp: select_tickets_def)
      then have "omap_find db k = Some r" using ok by (simp add: omap_find_iff)
      then obtain t where t: "omap_find (tm_list m) k = Some t" "row_core r = row_core (ticket_columns t)"
        by (rule stored_row [OF inv])
      show "r_ticketId r \<noteq> 0 \<and> is_player_guid (t_playerGuid (Ticket_LoadFromDB r)) \<and> closer_ok (r_closedBy r)"
        using load_row_fields [OF inv t] tk_inv_find [OF inv t(1)] by simp
    qed
  qed (simp_all add: tickets_ok_def tally_def)
  moreover have "one_open ?l"
    unfolding one_open_def found
  proof (intro allI impI)
    fix i j t t'
    assume "map_option Ticket_LoadFromDB (omap_find db i) = Some t" "map_option Ticket_LoadFromDB (omap_find db j) = Some t'"
      and op: "\<not> IsClosed t" "\<not> IsClosed t'" "t_playerGuid t = t_playerGuid t'"
    then obtain r r' where r: "omap_find db i = Some r" "t = Ticket_LoadFromDB r" "omap_find db j = Some r'" "t' = Ticket_LoadFromDB r'"
      by auto
    obtain u where u: "omap_find (tm_list m) i = Some u" "row_core r = row_core (ticket_columns u)"
      using stored_row [OF inv r(1)] by blast
    obtain u' where u': "omap_find (tm_list m) j = Some u'" "row_core r' = row_core (ticket_columns u')"
      using stored_row [OF inv r(3)] by blast
    have "one_open m" using inv by (simp add: tk_inv_def)
    with op u u' show "i = j"
      unfolding one_open_def r(2,4) using load_row_fields [OF inv u] load_row_fields [OF inv u'] by metis
  qed
  moreover have "stored ?l db"
    unfolding stored_def found
  proof (intro conjI allI ok)
    fix k
    show "map_option row_core (omap_find db k) =
        map_option (\<lambda>t. row_core (ticket_columns t)) (map_option Ticket_LoadFromDB (omap_find db k))"
    proof (cases "omap_find db k")
      case (Some r)
      then obtain t where t: "omap_find (tm_list m) k = Some t" "row_core r = row_core (ticket_columns t)"
        by (rule stored_row [OF inv])
      have "sint (GUID_LOPART (word_of_int (r_closedBy r))) = r_closedBy r"
        using row_core_fields(3) [OF t(2)] closer_row [OF tk_inv_find(5) [OF inv t(1)]] closer_row_ok [OF tk_inv_find(5) [OF inv t(1)]]
          closer_row [of "r_closedBy r"] by (auto split: if_splits)
      then have "ticket_columns (Ticket_LoadFromDB r) = r"
        by (simp add: ticket_columns_def Ticket_LoadFromDB_def player_guid_lopart ucast_up_down_u32 del: high_code.simps)
      then show ?thesis using Some by simp
    qed simp
  qed
  ultimately show ?thesis by (simp add: tk_inv_def LoadTickets_def)
qed


section \<open>Runs of the ticket system\<close>

datatype ticket_request =
    Rq_Create player byte_buffer
  | Rq_Update player byte_buffer
  | Rq_Delete player
  | Rq_Resolve player
  | Rq_Survey player byte_buffer
  | Rq_Assign "player option" string
  | Rq_Close "player option" string
  | Rq_Comment "player option" string
  | Rq_Complete "player option" string
  | Rq_DeleteById "player option" string
  | Rq_Escalate string
  | Rq_Reset
  | Rq_Toggle
  | Rq_UnAssign "player option" string
  | Rq_GetById "player option" string
  | Rq_GetByName "player option" string
  | Rq_Response bool "player option" string

definition outcome :: "'a ticket_result \<Rightarrow> ticket_mgr \<times> ticket_effect list" where
  "outcome r = (fst r, fst (snd r))"

fun tk_handle :: "ticket_env \<Rightarrow> world \<Rightarrow> ticket_request \<Rightarrow> ticket_mgr \<Rightarrow> ticket_mgr \<times> ticket_effect list" where
  "tk_handle env w (Rq_Create p recv) m = outcome (HandleGMTicketCreateOpcode env p recv m)"
| "tk_handle env w (Rq_Update p recv) m = outcome (HandleGMTicketUpdateOpcode env p recv m)"
| "tk_handle env w (Rq_Delete p) m = outcome (HandleGMTicketDeleteOpcode env p m)"
| "tk_handle env w (Rq_Resolve p) m = outcome (HandleGMResponseResolve env p m)"
| "tk_handle env w (Rq_Survey p recv) m = outcome (HandleGMSurveySubmit p recv m)"
| "tk_handle env w (Rq_Assign h args) m = outcome (HandleGMTicketAssignToCommand env h args m)"
| "tk_handle env w (Rq_Close h args) m = outcome (HandleGMTicketCloseByIdCommand env w h args m)"
| "tk_handle env w (Rq_Comment h args) m = outcome (HandleGMTicketCommentCommand env w h args m)"
| "tk_handle env w (Rq_Complete h args) m = outcome (HandleGMTicketCompleteCommand env w h args m)"
| "tk_handle env w (Rq_DeleteById h args) m = outcome (HandleGMTicketDeleteByIdCommand env w h args m)"
| "tk_handle env w (Rq_Escalate args) m = outcome (HandleGMTicketEscalateCommand env w args m)"
| "tk_handle env w Rq_Reset m = outcome (HandleGMTicketResetCommand m)"
| "tk_handle env w Rq_Toggle m = outcome (HandleToggleGMTicketSystem m)"
| "tk_handle env w (Rq_UnAssign h args) m = outcome (HandleGMTicketUnAssignCommand env w h args m)"
| "tk_handle env w (Rq_GetById h args) m = outcome (HandleGMTicketGetByIdCommand env w h args m)"
| "tk_handle env w (Rq_GetByName h args) m = outcome (HandleGMTicketGetByNameCommand env w h args m)"
| "tk_handle env w (Rq_Response newLine h args) m = outcome (HandleGMTicketResponseAppendCommand newLine h args m)"

text \<open>The players behind a request have player guids; the 32-bit ticket numbers are not used up.\<close>

fun request_ok :: "ticket_request \<Rightarrow> ticket_mgr \<Rightarrow> bool" where
  "request_ok (Rq_Create p recv) m = (is_player_guid (pl_guid p) \<and> tm_lastTicketId m < 0xFFFFFFFF)"
| "request_ok (Rq_Delete p) m = is_player_guid (pl_guid p)"
| "request_ok (Rq_Resolve p) m = is_player_guid (pl_guid p)"
| "request_ok (Rq_Close h args) m = (case h of None \<Rightarrow> True | Some p \<Rightarrow> is_player_guid (pl_guid p))"
| "request_ok _ m = True"

inductive tk_reachable :: "ticket_mgr \<Rightarrow> (u32, ticket_row) omap \<Rightarrow> bool" where
  tk_start: "tk_reachable (new_TicketMgr t) []"
| tk_request: "tk_reachable m db \<Longrightarrow> request_ok rq m \<Longrightarrow> tk_handle env w rq m = (m', e) \<Longrightarrow> tk_reachable m' (tk_apply e db)"
| tk_restart: "tk_reachable m db \<Longrightarrow> tk_reachable (LoadTickets (select_tickets db) (new_TicketMgr t)) db"
| tk_reload: "tk_reachable m db \<Longrightarrow> tk_reachable (LoadTickets (select_tickets db) m) db"

lemmas tk_handlers_inv =
  HandleGMTicketCreateOpcode_inv HandleGMTicketUpdateOpcode_inv HandleGMTicketDeleteOpcode_inv HandleGMResponseResolve_inv
  HandleGMSurveySubmit_inv HandleGMTicketAssignToCommand_inv HandleGMTicketCommentCommand_inv HandleGMTicketCompleteCommand_inv
  HandleGMTicketUnAssignCommand_inv HandleGMTicketGetByIdCommand_inv HandleGMTicketGetByNameCommand_inv
  HandleGMTicketResponseAppendCommand_inv HandleGMTicketEscalateCommand_inv HandleGMTicketDeleteByIdCommand_inv
  HandleGMTicketResetCommand_inv

lemma HandleToggleGMTicketSystem_inv:
  assumes "tk_inv m db"
  shows "tk_inv (fst (HandleToggleGMTicketSystem m)) (tk_apply (fst (snd (HandleToggleGMTicketSystem m))) db)"
proof -
  have "tk_inv (SetStatus b m) db = tk_inv m db" for b by (rule tk_inv_cong) (simp_all add: SetStatus_def)
  with assms show ?thesis by (simp add: HandleToggleGMTicketSystem_def Let_def)
qed

lemma tk_handle_inv:
  assumes "tk_inv m db" and "request_ok rq m"
  shows "tk_inv (fst (tk_handle env w rq m)) (tk_apply (snd (tk_handle env w rq m)) db)"
proof (cases rq)
  case (Rq_Close h args)
  then have "\<And>p. h = Some p \<Longrightarrow> is_player_guid (pl_guid p)" using assms(2) by simp
  from HandleGMTicketCloseByIdCommand_inv [OF assms(1) this] show ?thesis by (simp add: Rq_Close outcome_def)
qed (use assms in \<open>simp_all add: outcome_def tk_handlers_inv HandleToggleGMTicketSystem_inv\<close>)

lemma tk_reachable_inv: "tk_reachable m db \<Longrightarrow> tk_inv m db"
proof (induction rule: tk_reachable.induct)
  case (tk_start t)
  then show ?case by (simp add: tk_inv_def tickets_ok_def one_open_def stored_def new_TicketMgr_def tally_def)
next
  case (tk_request m db rq env w m' e)
  then show ?case using tk_handle_inv [of m db rq env w] by simp
qed (rule LoadTickets_inv, assumption)+


section \<open>Properties\<close>

definition example_ticket_player :: player where
  "example_ticket_player =
     \<lparr>pl_guid = 5, pl_name = ''Ann'', pl_team = 469, pl_security = 0, pl_in_group = False, pl_guild = 0, pl_visible = True,
      pl_afk = False, pl_dnd = False, pl_gm_tag = False, pl_dev_tag = False, pl_zone = 1, pl_level = 80, pl_class = 1\<rparr>"

definition example_ticket_env :: ticket_env where
  "example_ticket_env =
     \<lparr>te_time = 1000, te_age = (\<lambda>t. 0), te_in_world = (\<lambda>g. True), te_level_req = 1, te_daily_reset = 2000, te_survey = False,
      te_normalize = Some, te_guid_by_name = (\<lambda>n. 0), te_account = (\<lambda>g. 0), te_security = (\<lambda>a. 0), te_viewed0 = False\<rparr>"

definition ticket_packet :: "u32 \<Rightarrow> u32 \<Rightarrow> u32 \<Rightarrow> u32 \<Rightarrow> string \<Rightarrow> u32 \<Rightarrow> u8 \<Rightarrow> u8 list \<Rightarrow> u8 list" where
  "ticket_packet mapId x y z message unk1 needResponse rest =
     le_bytes mapId @ le_bytes x @ le_bytes y @ le_bytes z @ string_bytes message @ 0 # le_bytes unk1 @ le_bytes needResponse @ rest"

lemma read_ticket_view:
  assumes "0 \<notin> set (string_bytes message)" and "length (ticket_packet mapId x y z message unk1 needResponse rest) < 2 ^ 64"
  shows "read_ticket (bb_view [] (ticket_packet mapId x y z message unk1 needResponse rest)) = Inr (mapId, x, y, z, message)"
  using assms by (simp add: ticket_packet_def read_ticket_def bb_in_view bb_in_string_view)

definition example_ticket_packet :: byte_buffer where
  "example_ticket_packet = bb_view [] (ticket_packet 0 0 0 0 '''' 0 1 [])"

definition example_ticket :: gm_ticket where
  "example_ticket =
     \<lparr>t_id = 1, t_playerGuid = 5, t_playerName = ''Ann'', t_posX = 0, t_posY = 0, t_posZ = 0, t_mapId = 0, t_message = '''',
      t_createTime = 1000, t_lastModifiedTime = 1000, t_closedBy = 0, t_assignedTo = 0, t_comment = '''', t_completed = False,
      t_escalated = 0, t_viewed = False, t_response = ''''\<rparr>"

definition example_ticket_mgr :: ticket_mgr where
  "example_ticket_mgr =
     \<lparr>tm_list = [(1, example_ticket)], tm_status = True, tm_lastTicketId = 1, tm_lastSurveyId = 0, tm_openTicketCount = 1,
      tm_lastChange = 1000\<rparr>"

lemma example_packet_read: "read_ticket example_ticket_packet = Inr (0, 0, 0, 0, '''')"
  unfolding example_ticket_packet_def by (rule read_ticket_view) (simp_all add: ticket_packet_def string_bytes_def)

lemma example_is_player: "is_player_guid 5"
  by (simp add: is_player_guid_def GUID_LOPART_def IsGuidHaveEnPart_def GUID_HIPART_def MAKE_NEW_GUID_def)

lemma example_tickets_reachable:
  "tk_reachable example_ticket_mgr [(1, ticket_columns example_ticket)]"
proof -
  have "tk_handle example_ticket_env w (Rq_Create example_ticket_player example_ticket_packet) (new_TicketMgr 0) =
      (example_ticket_mgr,
       [TkDb (REP_GM_TICKET (ticket_columns example_ticket)), ticket_log example_ticket_player ''Created'' 1,
        send_response 5 SMSG_GMTICKET_CREATE GMTICKET_RESPONSE_SUCCESS])" for w
    by (simp add: outcome_def HandleGMTicketCreateOpcode_def new_GmTicket_def example_packet_read GenerateTicketId_def
        new_TicketMgr_def GetTicketByPlayer_def AddTicket_def Let_def IsClosed_def UpdateLastChange_def Ticket_SaveToDB_def
        example_ticket_env_def example_ticket_player_def example_ticket_mgr_def example_ticket_def)
  from tk_request [OF tk_start _ this] have
    "tk_reachable example_ticket_mgr
       (tk_apply [TkDb (REP_GM_TICKET (ticket_columns example_ticket)), ticket_log example_ticket_player ''Created'' 1,
        send_response 5 SMSG_GMTICKET_CREATE GMTICKET_RESPONSE_SUCCESS] [])"
    by (simp add: example_is_player example_ticket_player_def new_TicketMgr_def)
  then show ?thesis by (simp add: ticket_columns_def example_ticket_def)
qed

text \<open>
  C14. Whatever the players and the game masters do, and however often the tickets are reloaded or the server restarts:
  the counter announced to game masters at login is the number of open tickets, every ticket is filed under its own
  number, and no player ever has two open tickets.
\<close>
theorem ticket_bookkeeping:
  assumes "tk_reachable m db"
  shows "tm_openTicketCount m = of_nat (length (filter (\<lambda>e. \<not> IsClosed (snd e)) (tm_list m))) \<and>
    (\<forall>k t. GetTicket k m = Some t \<longrightarrow> t_id t = k \<and> k \<noteq> 0 \<and> k \<le> tm_lastTicketId m) \<and>
    (\<forall>j k t t'. GetTicket j m = Some t \<longrightarrow> GetTicket k m = Some t' \<longrightarrow> \<not> IsClosed t \<longrightarrow> \<not> IsClosed t' \<longrightarrow>
       t_playerGuid t = t_playerGuid t' \<longrightarrow> j = k)"
proof -
  have inv: "tk_inv m db" using assms by (rule tk_reachable_inv)
  have "tm_openTicketCount m = of_nat (length (filter (\<lambda>e. \<not> IsClosed (snd e)) (tm_list m)))"
    using inv by (simp add: tk_inv_def tickets_ok_def tally_def)
  moreover have "\<forall>k t. GetTicket k m = Some t \<longrightarrow> t_id t = k \<and> k \<noteq> 0 \<and> k \<le> tm_lastTicketId m"
    using tk_inv_find [OF inv] by (simp add: GetTicket_def)
  moreover have "one_open m" using inv by (simp add: tk_inv_def)
  ultimately show ?thesis unfolding one_open_def GetTicket_def by blast
qed

theorem ticket_bookkeeping_witness:
  "tm_openTicketCount example_ticket_mgr = of_nat (length (filter (\<lambda>e. \<not> IsClosed (snd e)) (tm_list example_ticket_mgr)))"
  using ticket_bookkeeping [OF example_tickets_reachable] by blast



text \<open>
  C38. A ticket survives saving and loading except for the response text, which has no column; but one closed from the
  console comes back with 16777215, a player's guid, for the -1 that stands for the console, because \<^verbatim>\<open>GUID_LOPART\<close> takes
  the number for a guid with an entry part.
\<close>
theorem ticket_row_roundtrip:
  assumes "is_player_guid (t_playerGuid t)" and "t_assignedTo t = 0 \<or> is_player_guid (t_assignedTo t)"
    and "t_createTime t < 2 ^ 32" "t_lastModifiedTime t < 2 ^ 32" and "t_closedBy t = - 1 \<or> 0 \<le> t_closedBy t \<and> t_closedBy t < 2 ^ 31"
  shows "Ticket_LoadFromDB (ticket_columns t) =
    t\<lparr>t_response := '''', t_closedBy := (if t_closedBy t = - 1 then 16777215 else t_closedBy t)\<rparr>"
proof -
  have "MAKE_NEW_GUID (GUID_LOPART (t_assignedTo t)) 0 (high_code HIGHGUID_PLAYER) = t_assignedTo t"
  proof (cases "t_assignedTo t = 0")
    case True
    then show ?thesis by (simp add: player_guid_ucast lopart_ucast [of 0, simplified] del: high_code.simps)
  qed (use assms(2) is_player_guid_make in blast)
  moreover have "(ucast (ucast x :: u32) :: u64) = x" if "x < 2 ^ 32" for x :: u64
  proof -
    have "bit x i \<Longrightarrow> i < 32" for i using less_exp_bit [OF that] by simp
    then show ?thesis by (auto intro!: bit_word_eqI simp: bit_simps dest: bit_imp_le_length)
  qed
  ultimately show ?thesis
    using assms(1,3,4) closer_row [of "t_closedBy t"] assms(5)
    by (simp add: Ticket_LoadFromDB_def ticket_columns_def is_player_guid_make closer_ok_def del: high_code.simps)
qed

theorem ticket_row_roundtrip_witness:
  "t_closedBy (Ticket_LoadFromDB (ticket_columns (example_ticket\<lparr>t_closedBy := - 1\<rparr>))) = 16777215"
  using ticket_row_roundtrip [of "example_ticket\<lparr>t_closedBy := - 1\<rparr>"] example_is_player
  by (simp add: example_ticket_def)

text \<open>
  C37. Three commands reach memory they must not touch: deleting an existing ticket by number always reads the ticket after it was
  freed; a comment on an open ticket from the console goes through a null pointer, though a comment in the code excludes the console
  from the test; and a reset with no open and at least one closed ticket advances an iterator whose element it has just erased.
\<close>
theorem ticket_command_faults:
  assumes "tk_reachable m db" and "args \<noteq> ''''"
  shows "(GetTicket (atoi args) m \<noteq> None \<longrightarrow> snd (snd (HandleGMTicketDeleteByIdCommand env w h args m)) = Inl UseAfterFree) \<and>
    (strtok '' '' args = Some (num, rest) \<and> strtok [CHR 0x0A] rest = Some (comment, rest') \<and>
     GetTicket (atoi num) m = Some t \<and> \<not> IsClosed t \<longrightarrow>
       snd (snd (HandleGMTicketCommentCommand env w None args m)) = Inl NullDeref) \<and>
    (tm_openTicketCount m = 0 \<and> tm_list m \<noteq> [] \<longrightarrow> snd (snd (HandleGMTicketResetCommand m)) = Inl InvalidIterator)"
proof (intro conjI impI)
  note inv = tk_reachable_inv [OF assms(1)]
  show "snd (snd (HandleGMTicketDeleteByIdCommand env w h args m)) = Inl UseAfterFree" if found: "GetTicket (atoi args) m \<noteq> None"
  proof -
    obtain t where t: "GetTicket (atoi args) m = Some t" using found by blast
    then have id: "t_id t = atoi args" using tk_inv_find(1) [OF inv] by (simp add: GetTicket_def)
    then have "omap_find (tm_list (fst (RemoveTicket (t_id t) m))) (t_id t) = None"
      using t by (simp add: RemoveTicket_def Let_def omap_find_erase)
    then show ?thesis
      using t assms(2)
      by (simp add: HandleGMTicketDeleteByIdCommand_def Let_def case_prod_unfold ticket_deref_def UpdateLastChange_def)
  qed
  show "snd (snd (HandleGMTicketCommentCommand env w None args m)) = Inl NullDeref"
    if "strtok '' '' args = Some (num, rest) \<and> strtok [CHR 0x0A] rest = Some (comment, rest') \<and>
      GetTicket (atoi num) m = Some t \<and> \<not> IsClosed t"
    using that assms(2) by (simp add: HandleGMTicketCommentCommand_def deref_def)
  assume zero: "tm_openTicketCount m = 0 \<and> tm_list m \<noteq> []"
  then obtain e es where e: "tm_list m = e # es" by (cases "tm_list m") auto
  then have "IsClosed (snd e)" using zero no_open_tickets [OF inv, of e] by simp
  from ResetTickets_first_closed [OF inv e this] zero
  show "snd (snd (HandleGMTicketResetCommand m)) = Inl InvalidIterator"
    by (simp add: HandleGMTicketResetCommand_def ResetTickets_def)
qed

theorem ticket_command_faults_witness:
  "\<forall>w. snd (snd (HandleGMTicketDeleteByIdCommand example_ticket_env w None ''1'' example_ticket_mgr)) = Inl UseAfterFree"
proof -
  have "atoi ''1'' = 1" by code_simp
  then show ?thesis
    using ticket_command_faults [OF example_tickets_reachable, of "''1''"]
    by (simp add: GetTicket_def example_ticket_mgr_def)
qed

end
