(* ===== verification/Linked_List.thy ===== *)
theory Linked_List
  imports Axium_Prelude
begin

text \<open>
  The intrusive doubly linked list of \<^verbatim>\<open>src/src/server/shared/Dynamic/LinkedList.h\<close>, on an
  explicit store: an object is known by its address, and the heap maps the address of every live
  \<^verbatim>\<open>LinkedListElement\<close> to its two pointers.  A list head owns two sentinel elements, \<^verbatim>\<open>iFirst\<close> and
  \<^verbatim>\<open>iLast\<close>, which live on the heap like any other element.  Following a null pointer and touching
  the memory of a dead object are error values; each assignment of the source is one heap update,
  and the pointers it reads are read from the heap of that moment.  The lemmas relate the pointer
  operations to operations on the abstract list of addresses between the sentinels.
\<close>

section \<open>LinkedListElement\<close>

type_synonym addr = nat

record ll_node =
  iNext :: "addr option"
  iPrev :: "addr option"

type_synonym ll_heap = "addr \<rightharpoonup> ll_node"

datatype ll_error = NullAccess | Dangling | AssertFailed

definition new_LinkedListElement :: ll_node where
  "new_LinkedListElement = \<lparr>iNext = None, iPrev = None\<rparr>"

text \<open>\<open>ll_at h p\<close> is the object \<^verbatim>\<open>*p\<close>, \<open>ll_set f p h\<close> an assignment to one of its members.\<close>

definition ll_at :: "ll_heap \<Rightarrow> addr option \<Rightarrow> ll_error + ll_node" where
  "ll_at h p = (case p of None \<Rightarrow> Inl NullAccess
                | Some a \<Rightarrow> (case h a of None \<Rightarrow> Inl Dangling | Some n \<Rightarrow> Inr n))"

definition ll_set :: "(ll_node \<Rightarrow> ll_node) \<Rightarrow> addr option \<Rightarrow> ll_heap \<Rightarrow> ll_error + ll_heap" where
  "ll_set f p h = res_bind (ll_at h p) (\<lambda>n. Inr (h(the p \<mapsto> f n)))"

definition hasNext :: "ll_heap \<Rightarrow> addr option \<Rightarrow> ll_error + bool" where
  "hasNext h p = res_bind (ll_at h p) (\<lambda>n.
     if iNext n = None then Inr False
     else res_bind (ll_at h (iNext n)) (\<lambda>m. Inr (iNext m \<noteq> None)))"

definition hasPrev :: "ll_heap \<Rightarrow> addr option \<Rightarrow> ll_error + bool" where
  "hasPrev h p = res_bind (ll_at h p) (\<lambda>n.
     if iPrev n = None then Inr False
     else res_bind (ll_at h (iPrev n)) (\<lambda>m. Inr (iPrev m \<noteq> None)))"

definition isInList :: "ll_heap \<Rightarrow> addr option \<Rightarrow> ll_error + bool" where
  "isInList h p = res_bind (ll_at h p) (\<lambda>n. Inr (iNext n \<noteq> None \<and> iPrev n \<noteq> None))"

definition nocheck_next :: "ll_heap \<Rightarrow> addr option \<Rightarrow> ll_error + addr option" where
  "nocheck_next h p = res_bind (ll_at h p) (\<lambda>n. Inr (iNext n))"

definition nocheck_prev :: "ll_heap \<Rightarrow> addr option \<Rightarrow> ll_error + addr option" where
  "nocheck_prev h p = res_bind (ll_at h p) (\<lambda>n. Inr (iPrev n))"

definition ll_next :: "ll_heap \<Rightarrow> addr option \<Rightarrow> ll_error + addr option" where
  "ll_next h p = res_bind (hasNext h p) (\<lambda>b. if b then nocheck_next h p else Inr None)"

definition ll_prev :: "ll_heap \<Rightarrow> addr option \<Rightarrow> ll_error + addr option" where
  "ll_prev h p = res_bind (hasPrev h p) (\<lambda>b. if b then nocheck_prev h p else Inr None)"

text \<open>The four assignments of \<^verbatim>\<open>delink\<close>, in the order of the source.\<close>

definition delink :: "addr \<Rightarrow> ll_heap \<Rightarrow> ll_error + ll_heap" where
  "delink e h = res_bind (isInList h (Some e)) (\<lambda>b.
     if \<not> b then Inr h
     else res_bind (ll_at h (Some e)) (\<lambda>n.
          res_bind (ll_set (\<lambda>m. m\<lparr>iPrev := iPrev n\<rparr>) (iNext n) h) (\<lambda>h1.
          res_bind (ll_at h1 (Some e)) (\<lambda>n1.
          res_bind (ll_set (\<lambda>m. m\<lparr>iNext := iNext n1\<rparr>) (iPrev n1) h1) (\<lambda>h2.
          res_bind (ll_set (\<lambda>m. m\<lparr>iNext := None\<rparr>) (Some e) h2) (\<lambda>h3.
          ll_set (\<lambda>m. m\<lparr>iPrev := None\<rparr>) (Some e) h3))))))"

definition insertBefore :: "addr \<Rightarrow> addr \<Rightarrow> ll_heap \<Rightarrow> ll_error + ll_heap" where
  "insertBefore this pElem h =
     res_bind (ll_set (\<lambda>m. m\<lparr>iNext := Some this\<rparr>) (Some pElem) h) (\<lambda>h1.
     res_bind (nocheck_prev h1 (Some this)) (\<lambda>p.
     res_bind (ll_set (\<lambda>m. m\<lparr>iPrev := p\<rparr>) (Some pElem) h1) (\<lambda>h2.
     res_bind (nocheck_prev h2 (Some this)) (\<lambda>p2.
     res_bind (ll_set (\<lambda>m. m\<lparr>iNext := Some pElem\<rparr>) p2 h2) (\<lambda>h3.
     ll_set (\<lambda>m. m\<lparr>iPrev := Some pElem\<rparr>) (Some this) h3)))))"

definition insertAfter :: "addr \<Rightarrow> addr \<Rightarrow> ll_heap \<Rightarrow> ll_error + ll_heap" where
  "insertAfter this pElem h =
     res_bind (ll_set (\<lambda>m. m\<lparr>iPrev := Some this\<rparr>) (Some pElem) h) (\<lambda>h1.
     res_bind (nocheck_next h1 (Some this)) (\<lambda>n.
     res_bind (ll_set (\<lambda>m. m\<lparr>iNext := n\<rparr>) (Some pElem) h1) (\<lambda>h2.
     res_bind (nocheck_next h2 (Some this)) (\<lambda>n2.
     res_bind (ll_set (\<lambda>m. m\<lparr>iPrev := Some pElem\<rparr>) n2 h2) (\<lambda>h3.
     ll_set (\<lambda>m. m\<lparr>iNext := Some pElem\<rparr>) (Some this) h3)))))"

section \<open>LinkedListHead\<close>

record ll_head =
  iFirst :: addr
  iLast :: addr
  iSize :: u32

text \<open>The constructor, for a head whose two elements lie at \<open>f\<close> and \<open>l\<close>.\<close>

definition new_LinkedListHead :: "addr \<Rightarrow> addr \<Rightarrow> ll_heap \<Rightarrow> ll_head \<times> ll_heap" where
  "new_LinkedListHead f l h =
     (\<lparr>iFirst = f, iLast = l, iSize = 0\<rparr>,
      h(f \<mapsto> new_LinkedListElement\<lparr>iNext := Some l\<rparr>,
        l \<mapsto> new_LinkedListElement\<lparr>iPrev := Some f\<rparr>))"

definition ll_isEmpty :: "ll_heap \<Rightarrow> ll_head \<Rightarrow> ll_error + bool" where
  "ll_isEmpty h lh = res_bind (nocheck_next h (Some (iFirst lh))) (\<lambda>n.
     res_bind (isInList h n) (\<lambda>b. Inr (\<not> b)))"

definition getFirst :: "ll_heap \<Rightarrow> ll_head \<Rightarrow> ll_error + addr option" where
  "getFirst h lh = res_bind (ll_isEmpty h lh) (\<lambda>b.
     if b then Inr None else nocheck_next h (Some (iFirst lh)))"

definition getLast :: "ll_heap \<Rightarrow> ll_head \<Rightarrow> ll_error + addr option" where
  "getLast h lh = res_bind (ll_isEmpty h lh) (\<lambda>b.
     if b then Inr None else nocheck_prev h (Some (iLast lh)))"

definition insertFirst :: "ll_head \<Rightarrow> addr \<Rightarrow> ll_heap \<Rightarrow> ll_error + ll_heap" where
  "insertFirst lh pElem h = insertAfter (iFirst lh) pElem h"

definition insertLast :: "ll_head \<Rightarrow> addr \<Rightarrow> ll_heap \<Rightarrow> ll_error + ll_heap" where
  "insertLast lh pElem h = insertBefore (iLast lh) pElem h"

text \<open>
  The counting loop follows the pointers it finds, so it need not end on an arbitrary heap: not
  returning is the value \<^const>\<open>None\<close>.
\<close>

partial_function (option) getSize_loop ::
  "ll_heap \<Rightarrow> addr option \<Rightarrow> u32 \<Rightarrow> (ll_error + u32) option" where
  "getSize_loop h e result =
     (if e = None then Some (Inr result)
      else case ll_next h e of
             Inl err \<Rightarrow> Some (Inl err)
           | Inr e' \<Rightarrow> getSize_loop h e' (result + 1))"

declare getSize_loop.simps [code]

definition getSize :: "ll_heap \<Rightarrow> ll_head \<Rightarrow> (ll_error + u32) option" where
  "getSize h lh =
     (if iSize lh = 0
      then (case getFirst h lh of Inl err \<Rightarrow> Some (Inl err) | Inr e \<Rightarrow> getSize_loop h e 0)
      else Some (Inr (iSize lh)))"

definition incSize :: "ll_head \<Rightarrow> ll_head" where
  "incSize lh = lh\<lparr>iSize := iSize lh + 1\<rparr>"

definition decSize :: "ll_head \<Rightarrow> ll_head" where
  "decSize lh = lh\<lparr>iSize := iSize lh - 1\<rparr>"

section \<open>Iterators\<close>

text \<open>An iterator is its pointer \<^verbatim>\<open>_Ptr\<close>; incrementing it calls \<^verbatim>\<open>next\<close>, decrementing it \<^verbatim>\<open>prev\<close>.\<close>

type_synonym ll_iterator = "addr option"

definition it_incr :: "ll_heap \<Rightarrow> ll_iterator \<Rightarrow> ll_error + ll_iterator" where
  "it_incr h it = ll_next h it"

definition it_decr :: "ll_heap \<Rightarrow> ll_iterator \<Rightarrow> ll_error + ll_iterator" where
  "it_decr h it = ll_prev h it"

definition it_eq :: "ll_iterator \<Rightarrow> ll_iterator \<Rightarrow> bool" where
  "it_eq a b = (a = b)"

definition it_eq_pointer :: "ll_iterator \<Rightarrow> addr option \<Rightarrow> bool" where
  "it_eq_pointer a p = (a \<noteq> p)"

definition it_eq_reference :: "ll_iterator \<Rightarrow> addr \<Rightarrow> bool" where
  "it_eq_reference a r = (a = Some r)"

text \<open>
  The elements a loop \<^verbatim>\<open>for (itr = begin(); itr != end(); ++itr)\<close> visits when its body leaves
  the list alone, from the iterator \<open>it\<close> on; \<open>step\<close> is the increment or the decrement.
\<close>

partial_function (option) it_visits ::
  "(ll_iterator \<Rightarrow> ll_error + ll_iterator) \<Rightarrow> ll_iterator \<Rightarrow> addr list \<Rightarrow> (ll_error + addr list) option" where
  "it_visits step it seen =
     (if it_eq it None then Some (Inr (rev seen))
      else case step it of
             Inl err \<Rightarrow> Some (Inl err)
           | Inr it' \<Rightarrow> it_visits step it' (the it # seen))"

declare it_visits.simps [code]

section \<open>The abstract list\<close>

definition nxt :: "ll_heap \<Rightarrow> addr \<Rightarrow> addr option" where
  "nxt h a = Option.bind (h a) iNext"

definition prv :: "ll_heap \<Rightarrow> addr \<Rightarrow> addr option" where
  "prv h a = Option.bind (h a) iPrev"

fun linked :: "ll_heap \<Rightarrow> addr list \<Rightarrow> bool" where
  "linked h (a # b # ys) = (nxt h a = Some b \<and> prv h b = Some a \<and> linked h (b # ys))"
| "linked h _ = True"

text \<open>\<open>dll h lh xs\<close>: on the heap \<open>h\<close> the head \<open>lh\<close> holds the elements \<open>xs\<close>, in this order.\<close>

definition dll :: "ll_heap \<Rightarrow> ll_head \<Rightarrow> addr list \<Rightarrow> bool" where
  "dll h lh xs = (linked h (iFirst lh # xs @ [iLast lh]) \<and> distinct (iFirst lh # xs @ [iLast lh]) \<and>
     prv h (iFirst lh) = None \<and> nxt h (iLast lh) = None)"

lemma linked_append: "linked h (us @ a # vs) \<longleftrightarrow> linked h (us @ [a]) \<and> linked h (a # vs)"
proof (induction us)
  case (Cons u us)
  then show ?case by (cases us) auto
qed simp

lemma linked_frame:
  assumes "linked h ys"
    and "\<And>x. x \<in> set (butlast ys) \<Longrightarrow> nxt h' x = nxt h x"
    and "\<And>x. x \<in> set (tl ys) \<Longrightarrow> prv h' x = prv h x"
  shows "linked h' ys"
  using assms
proof (induction h ys rule: linked.induct)
  case (1 h a b ys)
  have "linked h' (b # ys)"
    using 1 by (cases ys) auto
  then show ?case using 1 by auto
qed auto

lemma linked_split:
  "linked h (us @ a # b # vs) \<longleftrightarrow>
     linked h (us @ [a]) \<and> nxt h a = Some b \<and> prv h b = Some a \<and> linked h (b # vs)"
  using linked_append [of h us a "b # vs"] by auto

lemma nxt_dom [dest]: "nxt h a = Some b \<Longrightarrow> \<exists>n. h a = Some n"
  by (cases "h a") (auto simp: nxt_def)

lemma prv_dom [dest]: "prv h a = Some b \<Longrightarrow> \<exists>n. h a = Some n"
  by (cases "h a") (auto simp: prv_def)

lemma linked_dom:
  assumes "linked h (us @ x # vs)" and "us @ vs \<noteq> []"
  shows "\<exists>n. h x = Some n"
proof (cases vs)
  case (Cons v vs')
  then show ?thesis using assms linked_split [of h us x v vs'] by auto
next
  case Nil
  then obtain us' u where "us = us' @ [u]" using assms(2) by (cases us rule: rev_cases) auto
  then show ?thesis using assms Nil linked_split [of h us' u x "[]"] by auto
qed

section \<open>What the pointer operations do\<close>

text \<open>
  Each operation is described by the two pointer functions before and after it; the heap keeps
  its domain.
\<close>

lemmas ll_ops = ll_set_def ll_at_def isInList_def nocheck_next_def nocheck_prev_def

text \<open>The outcome of an assignment sequence, by the pointer functions of the new heap.\<close>

definition ll_step :: "ll_error + ll_heap \<Rightarrow> (addr \<Rightarrow> addr option) \<Rightarrow> (addr \<Rightarrow> addr option) \<Rightarrow>
    addr set \<Rightarrow> bool" where
  "ll_step r N P D = (\<exists>h'. r = Inr h' \<and> nxt h' = N \<and> prv h' = P \<and> dom h' = D)"

lemma ll_step_Inr:
  "(\<And>x. nxt h' x = N x) \<Longrightarrow> (\<And>x. prv h' x = P x) \<Longrightarrow> (\<And>x. h' x = None \<longleftrightarrow> x \<notin> D) \<Longrightarrow> ll_step (Inr h') N P D"
  unfolding ll_step_def by (rule exI [of _ h']) (simp add: fun_eq_iff set_eq_iff domIff)

lemma insertAfter_result:
  assumes "nxt h a = Some b" and "h b \<noteq> None" and "h e \<noteq> None" and "a \<noteq> e" and "b \<noteq> e" and "a \<noteq> b"
  shows "ll_step (insertAfter a e h) ((nxt h)(e := Some b, a := Some e))
    ((prv h)(e := Some a, b := Some e)) (dom h)"
proof -
  obtain na nb ne where "h a = Some na" "h b = Some nb" "h e = Some ne" "iNext na = Some b"
    using assms by (cases "h a") (auto simp: nxt_def)
  then show ?thesis
    using assms by (auto simp: insertAfter_def ll_ops intro!: ll_step_Inr) (auto simp: nxt_def prv_def split: if_splits)
qed

lemma insertBefore_result:
  assumes "prv h b = Some a" and "h a \<noteq> None" and "h e \<noteq> None" and "a \<noteq> e" and "b \<noteq> e" and "a \<noteq> b"
  shows "ll_step (insertBefore b e h) ((nxt h)(e := Some b, a := Some e))
    ((prv h)(e := Some a, b := Some e)) (dom h)"
proof -
  obtain na nb ne where "h a = Some na" "h b = Some nb" "h e = Some ne" "iPrev nb = Some a"
    using assms by (cases "h b") (auto simp: prv_def)
  then show ?thesis
    using assms by (auto simp: insertBefore_def ll_ops intro!: ll_step_Inr) (auto simp: nxt_def prv_def split: if_splits)
qed

lemma delink_result:
  assumes "nxt h e = Some b" and "prv h e = Some a" and "h a \<noteq> None" and "h b \<noteq> None"
    and "a \<noteq> e" and "b \<noteq> e" and "a \<noteq> b"
  shows "ll_step (delink e h) ((nxt h)(a := Some b, e := None)) ((prv h)(b := Some a, e := None)) (dom h)"
proof -
  obtain na nb ne where "h a = Some na" "h b = Some nb" "h e = Some ne" "iNext ne = Some b" "iPrev ne = Some a"
    using assms by (cases "h e") (auto simp: nxt_def prv_def)
  then show ?thesis
    using assms by (auto simp: delink_def ll_ops intro!: ll_step_Inr) (auto simp: nxt_def prv_def split: if_splits)
qed

lemma delink_free: "h e \<noteq> None \<Longrightarrow> nxt h e = None \<Longrightarrow> delink e h = Inr h"
  by (auto simp: delink_def ll_ops nxt_def)

section \<open>The operations on the abstract list\<close>

lemma in_set_tlD: "x \<in> set (tl ys) \<Longrightarrow> x \<in> set ys"
  by (cases ys) auto

lemma linked_insert:
  assumes "linked h (us @ a # b # vs)" and "distinct (us @ a # b # vs)" and "e \<notin> set (us @ a # b # vs)"
    and "nxt h' = (nxt h)(e := Some b, a := Some e)" and "prv h' = (prv h)(e := Some a, b := Some e)"
  shows "linked h' (us @ a # e # b # vs)"
proof -
  have parts: "linked h (us @ [a])" "linked h (b # vs)" using assms(1) by (simp_all add: linked_split)
  have "linked h' (us @ [a])" by (rule linked_frame [OF parts(1)]) (use assms in \<open>auto dest!: in_set_tlD\<close>)
  moreover have "linked h' (b # vs)" by (rule linked_frame [OF parts(2)]) (use assms in \<open>auto dest!: in_set_butlastD split: if_splits\<close>)
  ultimately show ?thesis using assms by (auto simp: linked_split [of h' us])
qed

lemma linked_remove:
  assumes "linked h (us @ a # e # b # vs)" and "distinct (us @ a # e # b # vs)"
    and "nxt h' = (nxt h)(a := Some b, e := None)" and "prv h' = (prv h)(b := Some a, e := None)"
  shows "linked h' (us @ a # b # vs)"
proof -
  have parts: "linked h (us @ [a])" "linked h (b # vs)" using assms(1) by (simp_all add: linked_split)
  have "linked h' (us @ [a])" by (rule linked_frame [OF parts(1)]) (use assms in \<open>auto dest!: in_set_tlD\<close>)
  moreover have "linked h' (b # vs)" by (rule linked_frame [OF parts(2)]) (use assms in \<open>auto dest!: in_set_butlastD split: if_splits\<close>)
  ultimately show ?thesis using assms by (auto simp: linked_split [of h' us])
qed

abbreviation ll_nodes :: "ll_head \<Rightarrow> addr list \<Rightarrow> addr list" where
  "ll_nodes lh xs \<equiv> iFirst lh # xs @ [iLast lh]"

lemma dll_frame:
  assumes "dll h lh xs" and "\<And>x. x \<in> set (ll_nodes lh xs) \<Longrightarrow> nxt h' x = nxt h x \<and> prv h' x = prv h x"
  shows "dll h' lh xs"
  using assms linked_frame [of h "ll_nodes lh xs" h'] by (auto simp: dll_def)

lemma dll_dom: "dll h lh xs \<Longrightarrow> x \<in> set (ll_nodes lh xs) \<Longrightarrow> h x \<noteq> None"
proof -
  assume "dll h lh xs" and "x \<in> set (ll_nodes lh xs)"
  moreover obtain us vs where "ll_nodes lh xs = us @ x # vs" using calculation(2) by (metis split_list)
  moreover have "us @ vs \<noteq> []" using calculation(3) by (cases us; cases vs) auto
  ultimately show ?thesis using linked_dom [of h us x vs] by (auto simp: dll_def)
qed

lemma dll_insertFirst:
  assumes "dll h lh xs" and "e \<notin> set (ll_nodes lh xs)" and "h e \<noteq> None"
  shows "\<exists>h'. insertFirst lh e h = Inr h' \<and> dll h' lh (e # xs) \<and> dom h' = dom h \<and>
    (\<forall>x. x \<notin> set (ll_nodes lh (e # xs)) \<longrightarrow> nxt h' x = nxt h x \<and> prv h' x = prv h x)"
proof -
  obtain b vs where bv: "xs @ [iLast lh] = b # vs" by (cases xs) auto
  have l: "linked h ([] @ iFirst lh # b # vs)" and d: "distinct ([] @ iFirst lh # b # vs)"
    using assms(1) bv by (auto simp: dll_def)
  have b: "b \<in> set (ll_nodes lh xs)" using bv by (metis list.set_intros(1,2))
  have "ll_step (insertAfter (iFirst lh) e h) ((nxt h)(e := Some b, iFirst lh := Some e))
      ((prv h)(e := Some (iFirst lh), b := Some e)) (dom h)"
    using assms b l d dll_dom [OF assms(1) b] by (intro insertAfter_result) auto
  then obtain h' where h': "insertFirst lh e h = Inr h'" "nxt h' = (nxt h)(e := Some b, iFirst lh := Some e)"
      "prv h' = (prv h)(e := Some (iFirst lh), b := Some e)" "dom h' = dom h"
    by (auto simp: ll_step_def insertFirst_def)
  have e: "e \<notin> set ([] @ iFirst lh # b # vs)" using assms(2) bv by auto
  have "linked h' (ll_nodes lh (e # xs))" using linked_insert [OF l d e h'(2,3)] bv by simp
  moreover have "prv h' (iFirst lh) = None" "nxt h' (iLast lh) = None"
    using assms d h' by (auto simp: dll_def)
  ultimately have "dll h' lh (e # xs)" using assms by (auto simp: dll_def)
  then show ?thesis using h' b by auto
qed

lemma dll_insertLast:
  assumes "dll h lh xs" and "e \<notin> set (ll_nodes lh xs)" and "h e \<noteq> None"
  shows "\<exists>h'. insertLast lh e h = Inr h' \<and> dll h' lh (xs @ [e]) \<and> dom h' = dom h \<and>
    (\<forall>x. x \<notin> set (ll_nodes lh (xs @ [e])) \<longrightarrow> nxt h' x = nxt h x \<and> prv h' x = prv h x)"
proof -
  obtain us a where ua: "iFirst lh # xs = us @ [a]" by (cases "iFirst lh # xs" rule: rev_cases) auto
  have n: "ll_nodes lh xs = us @ a # iLast lh # []"
    using ua by (metis append.assoc append_Cons append_Nil)
  have l: "linked h (us @ a # iLast lh # [])" and d: "distinct (us @ a # iLast lh # [])"
    using assms(1) unfolding dll_def n by blast+
  have a: "a \<in> set (ll_nodes lh xs)" using ua by (metis Un_iff append_Cons in_set_conv_decomp set_append)
  have "ll_step (insertBefore (iLast lh) e h) ((nxt h)(e := Some (iLast lh), a := Some e))
      ((prv h)(e := Some a, iLast lh := Some e)) (dom h)"
    using assms a l d dll_dom [OF assms(1) a] by (intro insertBefore_result) (auto simp: linked_split)
  then obtain h' where h': "insertLast lh e h = Inr h'" "nxt h' = (nxt h)(e := Some (iLast lh), a := Some e)"
      "prv h' = (prv h)(e := Some a, iLast lh := Some e)" "dom h' = dom h"
    by (auto simp: ll_step_def insertLast_def)
  have e: "e \<notin> set (us @ a # iLast lh # [])" using assms(2) n by simp
  have "linked h' ((us @ [a]) @ [e, iLast lh])" using linked_insert [OF l d e h'(2,3)] by simp
  then have "linked h' ((iFirst lh # xs) @ [e, iLast lh])" by (simp only: ua)
  then have "linked h' (ll_nodes lh (xs @ [e]))" by simp
  moreover have "prv h' (iFirst lh) = None" "nxt h' (iLast lh) = None"
    using assms d h' by (auto simp: dll_def)
  ultimately have "dll h' lh (xs @ [e])" using assms by (auto simp: dll_def)
  then show ?thesis using h' a by auto
qed

text \<open>An element in the middle of a list has both its neighbours.\<close>

lemma dll_neighbours:
  assumes "dll h lh (us @ e # vs)"
  obtains as a b bs where "iFirst lh # us = as @ [a]" and "vs @ [iLast lh] = b # bs"
    and "ll_nodes lh (us @ e # vs) = as @ a # e # b # bs"
    and "nxt h e = Some b" and "prv h e = Some a" and "nxt h a = Some e" and "prv h b = Some e"
proof -
  obtain as a where a: "iFirst lh # us = as @ [a]" by (cases "iFirst lh # us" rule: rev_cases) auto
  obtain b bs where b: "vs @ [iLast lh] = b # bs" by (cases vs) auto
  have n: "ll_nodes lh (us @ e # vs) = as @ a # e # b # bs"
    using a b by (metis append.assoc append_Cons append_Nil)
  have "linked h (as @ a # e # b # bs)" using assms unfolding dll_def n by blast
  then show ?thesis using that [OF a b n] by (simp add: linked_split)
qed

lemma dll_delink:
  assumes "dll h lh (us @ e # vs)"
  shows "\<exists>h'. delink e h = Inr h' \<and> dll h' lh (us @ vs) \<and> nxt h' e = None \<and> prv h' e = None \<and>
    dom h' = dom h \<and>
    (\<forall>x. x \<notin> set (ll_nodes lh (us @ e # vs)) \<longrightarrow> nxt h' x = nxt h x \<and> prv h' x = prv h x)"
  using assms
proof (rule dll_neighbours)
  fix as a b bs
  assume a: "iFirst lh # us = as @ [a]" and b: "vs @ [iLast lh] = b # bs"
    and n: "ll_nodes lh (us @ e # vs) = as @ a # e # b # bs"
    and p: "nxt h e = Some b" "prv h e = Some a" "nxt h a = Some e" "prv h b = Some e"
  have l: "linked h (as @ a # e # b # bs)" and d: "distinct (as @ a # e # b # bs)"
    using assms unfolding dll_def n by blast+
  have "ll_step (delink e h) ((nxt h)(a := Some b, e := None)) ((prv h)(b := Some a, e := None)) (dom h)"
    using p d by (intro delink_result) auto
  then obtain h' where h': "delink e h = Inr h'" "nxt h' = (nxt h)(a := Some b, e := None)"
      "prv h' = (prv h)(b := Some a, e := None)" "dom h' = dom h"
    by (auto simp: ll_step_def)
  have n': "ll_nodes lh (us @ vs) = as @ a # b # bs"
    using a b by (metis append.assoc append_Cons append_Nil)
  have "linked h' (ll_nodes lh (us @ vs))" unfolding n' by (rule linked_remove [OF l d h'(2,3)])
  moreover have "distinct (ll_nodes lh (us @ vs))" unfolding n' using d by auto
  moreover have "b \<in> set (vs @ [iLast lh])" "a \<in> set (iFirst lh # us)" unfolding a b by simp_all
  then have "iFirst lh \<noteq> b" "iLast lh \<noteq> a" using assms by (auto simp: dll_def)
  ultimately have "dll h' lh (us @ vs)" using assms h' by (auto simp: dll_def)
  moreover have "\<forall>x. x \<notin> set (ll_nodes lh (us @ e # vs)) \<longrightarrow> nxt h' x = nxt h x \<and> prv h' x = prv h x"
    unfolding n using h' by auto
  ultimately show ?thesis using h' by auto
qed

lemma ll_at_nxt: "nxt h a = Some b \<Longrightarrow> \<exists>n. ll_at h (Some a) = Inr n \<and> iNext n = Some b"
  by (cases "h a") (auto simp: nxt_def ll_at_def)

lemma nocheck_next_eq: "h a \<noteq> None \<Longrightarrow> nocheck_next h (Some a) = Inr (nxt h a)"
  by (auto simp: nocheck_next_def ll_at_def nxt_def)

lemma nocheck_prev_eq: "h a \<noteq> None \<Longrightarrow> nocheck_prev h (Some a) = Inr (prv h a)"
  by (auto simp: nocheck_prev_def ll_at_def prv_def)

lemma isInList_eq: "h a \<noteq> None \<Longrightarrow> isInList h (Some a) = Inr (nxt h a \<noteq> None \<and> prv h a \<noteq> None)"
  by (auto simp: isInList_def ll_at_def prv_def nxt_def)

lemma ll_next_eq:
  "nxt h a = Some b \<Longrightarrow> h b \<noteq> None \<Longrightarrow> ll_next h (Some a) = Inr (if nxt h b = None then None else Some b)"
  by (cases "h a") (auto simp: ll_next_def hasNext_def nocheck_next_def ll_at_def nxt_def)

lemma ll_prev_eq:
  "prv h a = Some b \<Longrightarrow> h b \<noteq> None \<Longrightarrow> ll_prev h (Some a) = Inr (if prv h b = None then None else Some b)"
  by (cases "h a") (auto simp: ll_prev_def hasPrev_def nocheck_prev_def ll_at_def prv_def)

text \<open>The first address of a list, as a pointer.\<close>

fun ptr_of :: "addr list \<Rightarrow> addr option" where
  "ptr_of [] = None"
| "ptr_of (x # xs) = Some x"

lemma dll_next:
  assumes "dll h lh (us @ e # vs)"
  shows "ll_next h (Some e) = Inr (ptr_of vs)"
  using assms
proof (rule dll_neighbours)
  fix as a b bs
  assume b: "vs @ [iLast lh] = b # bs" and p: "nxt h e = Some b" "prv h b = Some e"
  show ?thesis
  proof (cases vs)
    case Nil
    then show ?thesis using b p assms ll_next_eq [OF p(1)] by (auto simp: dll_def)
  next
    case (Cons v ws)
    obtain c where "nxt h v = Some c"
      using assms Cons dll_neighbours [of h lh "us @ [e]" v ws] by (metis append.assoc append_Cons append_Nil)
    then show ?thesis using b p Cons ll_next_eq [OF p(1)] by auto
  qed
qed

lemma dll_prev:
  assumes "dll h lh (us @ e # vs)"
  shows "ll_prev h (Some e) = Inr (ptr_of (rev us))"
  using assms
proof (rule dll_neighbours)
  fix as a b bs
  assume a: "iFirst lh # us = as @ [a]" and p: "prv h e = Some a" "nxt h a = Some e"
  show ?thesis
  proof (cases us rule: rev_cases)
    case Nil
    then show ?thesis using a p assms ll_prev_eq [OF p(1)] by (auto simp: dll_def)
  next
    case (snoc ws v)
    obtain c where "prv h v = Some c"
      using assms snoc dll_neighbours [of h lh ws v "e # vs"] by (metis append.assoc append_Cons append_Nil)
    then show ?thesis using a p snoc ll_prev_eq [OF p(1)] by auto
  qed
qed

lemma dll_first_ptr:
  assumes "dll h lh xs"
  shows "nxt h (iFirst lh) = Some (case xs of [] \<Rightarrow> iLast lh | x # _ \<Rightarrow> x)"
    and "prv h (iLast lh) = Some (case rev xs of [] \<Rightarrow> iFirst lh | x # _ \<Rightarrow> x)"
proof -
  show "nxt h (iFirst lh) = Some (case xs of [] \<Rightarrow> iLast lh | x # _ \<Rightarrow> x)"
    using assms by (cases xs) (auto simp: dll_def)
  show "prv h (iLast lh) = Some (case rev xs of [] \<Rightarrow> iFirst lh | x # _ \<Rightarrow> x)"
    using assms linked_split [of h "iFirst lh # ys" y "iLast lh" "[]" for ys y]
    by (cases xs rule: rev_cases) (auto simp: dll_def)
qed

lemma dll_isEmpty: "dll h lh xs \<Longrightarrow> ll_isEmpty h lh = Inr (xs = [])"
proof (cases xs)
  case Nil
  assume d: "dll h lh xs"
  then show ?thesis
    using Nil dll_first_ptr [OF d] dll_dom [OF d]
    by (auto simp: ll_isEmpty_def nocheck_next_eq isInList_eq dll_def)
next
  case (Cons x ys)
  assume d: "dll h lh xs"
  obtain b a where "nxt h x = Some b" "prv h x = Some a"
    using d Cons dll_neighbours [of h lh "[]" x ys] by (metis append_Nil)
  then show ?thesis
    using Cons dll_first_ptr [OF d] dll_dom [OF d] by (auto simp: ll_isEmpty_def nocheck_next_eq isInList_eq)
qed

lemma dll_getFirst: "dll h lh xs \<Longrightarrow> getFirst h lh = Inr (ptr_of xs)"
  using dll_isEmpty [of h lh xs] dll_first_ptr [of h lh xs] dll_dom [of h lh xs]
  by (cases xs) (auto simp: getFirst_def nocheck_next_eq)

lemma dll_getLast: "dll h lh xs \<Longrightarrow> getLast h lh = Inr (ptr_of (rev xs))"
  using dll_isEmpty [of h lh xs] dll_first_ptr [of h lh xs] dll_dom [of h lh xs]
  by (cases xs rule: rev_cases) (auto simp: getLast_def nocheck_prev_eq)

lemma dll_sentinel_next: "dll h lh xs \<Longrightarrow> ll_next h (Some (iFirst lh)) = Inr (ptr_of xs)"
proof -
  assume d: "dll h lh xs"
  then have "dll h lh ([] @ xs)" by simp
  show ?thesis
  proof (cases xs)
    case Nil
    then show ?thesis
      using d dll_first_ptr [OF d] dll_dom [OF d] by (auto simp: ll_next_eq dll_def)
  next
    case (Cons x ys)
    obtain b where "nxt h x = Some b" using d Cons dll_neighbours [of h lh "[]" x ys] by (metis append_Nil)
    then show ?thesis using Cons dll_first_ptr [OF d] dll_dom [OF d] by (auto simp: ll_next_eq)
  qed
qed

lemma getSize_loop_list:
  "dll h lh (us @ vs) \<Longrightarrow> getSize_loop h (ptr_of vs) r = Some (Inr (r + of_nat (length vs)))"
proof (induction vs arbitrary: us r)
  case (Cons v vs)
  have "ll_next h (Some v) = Inr (ptr_of vs)" by (rule dll_next [OF Cons.prems])
  then show ?case
    using Cons.IH [of "us @ [v]" "r + 1"] Cons.prems
    by (subst getSize_loop.simps) (simp add: add.assoc)
qed (simp add: getSize_loop.simps)

lemma it_visits_forward:
  "dll h lh (us @ vs) \<Longrightarrow> it_visits (it_incr h) (ptr_of vs) seen = Some (Inr (rev seen @ vs))"
proof (induction vs arbitrary: us seen)
  case (Cons v vs)
  have "it_incr h (Some v) = Inr (ptr_of vs)" by (simp add: it_incr_def dll_next [OF Cons.prems])
  then show ?case
    using Cons.IH [of "us @ [v]" "v # seen"] Cons.prems
    by (subst it_visits.simps) (simp add: it_eq_def)
qed (simp add: it_visits.simps it_eq_def)

lemma it_visits_backward:
  "dll h lh (us @ vs) \<Longrightarrow> it_visits (it_decr h) (ptr_of (rev us)) seen = Some (Inr (rev seen @ rev us))"
proof (induction us arbitrary: vs seen rule: rev_induct)
  case (snoc u us)
  have "it_decr h (Some u) = Inr (ptr_of (rev us))"
    using dll_prev [of h lh us u vs] snoc.prems by (simp add: it_decr_def)
  then show ?case
    using snoc.IH [of "u # vs" "u # seen"] snoc.prems
    by (subst it_visits.simps) (simp add: it_eq_def)
qed (simp add: it_visits.simps it_eq_def)

lemma dll_getSize:
  "dll h lh xs \<Longrightarrow> iSize lh = 0 \<or> iSize lh = of_nat (length xs) \<Longrightarrow>
     getSize h lh = Some (Inr (of_nat (length xs)))"
  using getSize_loop_list [of h lh "[]" xs 0] by (auto simp: getSize_def dll_getFirst)

section \<open>Sequences of operations\<close>

datatype ll_op = InsertFirst addr | InsertLast addr | Delink addr

fun ll_exec :: "ll_head \<Rightarrow> ll_op \<Rightarrow> ll_heap \<Rightarrow> ll_error + ll_heap" where
  "ll_exec lh (InsertFirst e) h = insertFirst lh e h"
| "ll_exec lh (InsertLast e) h = insertLast lh e h"
| "ll_exec lh (Delink e) h = delink e h"

text \<open>
  The specification: the operations on lists.  Inserting an element that is in the list already
  is against the contract of the class (the source does not check it).
\<close>

fun ll_spec :: "ll_op \<Rightarrow> addr list \<Rightarrow> addr list" where
  "ll_spec (InsertFirst e) xs = e # xs"
| "ll_spec (InsertLast e) xs = xs @ [e]"
| "ll_spec (Delink e) xs = remove1 e xs"

fun ll_legal :: "addr set \<Rightarrow> ll_op list \<Rightarrow> addr list \<Rightarrow> bool" where
  "ll_legal E [] xs = True"
| "ll_legal E (op # ops) xs =
     ((case op of InsertFirst e \<Rightarrow> e \<in> E \<and> e \<notin> set xs
       | InsertLast e \<Rightarrow> e \<in> E \<and> e \<notin> set xs
       | Delink e \<Rightarrow> e \<in> E) \<and> ll_legal E ops (ll_spec op xs))"

text \<open>The heap holds the list, and every element of \<open>E\<close> outside it has null pointers.\<close>

definition ll_inv :: "addr set \<Rightarrow> ll_head \<Rightarrow> addr list \<Rightarrow> ll_heap \<Rightarrow> bool" where
  "ll_inv E lh xs h = (dll h lh xs \<and> set xs \<subseteq> E \<and> iFirst lh \<notin> E \<and> iLast lh \<notin> E \<and>
     (\<forall>e\<in>E. h e \<noteq> None \<and> (e \<notin> set xs \<longrightarrow> nxt h e = None \<and> prv h e = None)))"

lemma ll_inv_step:
  assumes "ll_inv E lh xs h" and "dll h' lh ys" and "set ys \<subseteq> E" and "dom h' = dom h"
    and "\<And>x. x \<in> E \<Longrightarrow> x \<notin> set ys \<Longrightarrow> nxt h' x = None \<and> prv h' x = None"
  shows "ll_inv E lh ys h'"
proof -
  have "h' e \<noteq> None" if "e \<in> E" for e
    using assms(1,4) that unfolding ll_inv_def by (metis domIff)
  then show ?thesis using assms by (simp add: ll_inv_def)
qed

lemma ll_exec_refines:
  assumes "ll_inv E lh xs h" and "ll_legal E [op] xs"
  shows "\<exists>h'. ll_exec lh op h = Inr h' \<and> ll_inv E lh (ll_spec op xs) h'"
proof -
  have d: "dll h lh xs" and E: "set xs \<subseteq> E" "iFirst lh \<notin> E" "iLast lh \<notin> E"
    and free: "\<And>x. x \<in> E \<Longrightarrow> h x \<noteq> None" "\<And>x. x \<in> E \<Longrightarrow> x \<notin> set xs \<Longrightarrow> nxt h x = None \<and> prv h x = None"
    using assms(1) by (auto simp: ll_inv_def)
  have ne: "\<And>x. x \<in> E \<Longrightarrow> x \<noteq> iFirst lh \<and> x \<noteq> iLast lh" using E by auto
  show ?thesis
  proof (cases op)
    case (InsertFirst e)
    then have e: "e \<in> E" "e \<notin> set (ll_nodes lh xs)" using assms(2) E by auto
    from dll_insertFirst [OF d e(2) free(1) [OF e(1)]] obtain h' where
      h': "insertFirst lh e h = Inr h'" "dll h' lh (e # xs)" "dom h' = dom h"
        "\<forall>x. x \<notin> set (ll_nodes lh (e # xs)) \<longrightarrow> nxt h' x = nxt h x \<and> prv h' x = prv h x" by blast
    have "ll_inv E lh (e # xs) h'"
      by (rule ll_inv_step [OF assms(1) h'(2) _ h'(3)]) (use E e free(2) ne h'(4) in auto)
    then show ?thesis using h'(1) InsertFirst by simp
  next
    case (InsertLast e)
    then have e: "e \<in> E" "e \<notin> set (ll_nodes lh xs)" using assms(2) E by auto
    from dll_insertLast [OF d e(2) free(1) [OF e(1)]] obtain h' where
      h': "insertLast lh e h = Inr h'" "dll h' lh (xs @ [e])" "dom h' = dom h"
        "\<forall>x. x \<notin> set (ll_nodes lh (xs @ [e])) \<longrightarrow> nxt h' x = nxt h x \<and> prv h' x = prv h x" by blast
    have "ll_inv E lh (xs @ [e]) h'"
      by (rule ll_inv_step [OF assms(1) h'(2) _ h'(3)]) (use E e free(2) ne h'(4) in auto)
    then show ?thesis using h'(1) InsertLast by simp
  next
    case (Delink e)
    show ?thesis
    proof (cases "e \<in> set xs")
      case True
      then obtain us vs where xs: "xs = us @ e # vs" "e \<notin> set us" by (metis split_list_first)
      from dll_delink [OF d [unfolded xs(1)]] obtain h' where h': "delink e h = Inr h'"
          "dll h' lh (us @ vs)" "nxt h' e = None" "prv h' e = None" "dom h' = dom h"
          "\<forall>x. x \<notin> set (ll_nodes lh xs) \<longrightarrow> nxt h' x = nxt h x \<and> prv h' x = prv h x"
        unfolding xs by blast
      have "nxt h' x = None \<and> prv h' x = None" if "x \<in> E" "x \<notin> set (us @ vs)" for x
        using that h' ne free(2) xs by (cases "x = e") auto
      then have "ll_inv E lh (us @ vs) h'"
        using ll_inv_step [OF assms(1) h'(2) _ h'(5)] E xs by auto
      then show ?thesis using h'(1) Delink xs by (simp add: remove1_append)
    next
      case False
      then show ?thesis using assms Delink free delink_free [of h e] by (simp add: remove1_idem)
    qed
  qed
qed

lemma ll_run_refines:
  "ll_inv E lh xs h \<Longrightarrow> ll_legal E ops xs \<Longrightarrow>
     \<exists>h'. res_fold (ll_exec lh) ops h = Inr h' \<and> ll_inv E lh (fold ll_spec ops xs) h'"
proof (induction ops arbitrary: xs h)
  case (Cons op ops)
  then obtain h' where "ll_exec lh op h = Inr h'" "ll_inv E lh (ll_spec op xs) h'"
    using ll_exec_refines [of E lh xs h op] by auto
  then show ?case using Cons.IH [of "ll_spec op xs" h'] Cons.prems by auto
qed simp

lemma new_head_inv:
  assumes "f \<noteq> l" and "f \<notin> E" and "l \<notin> E" and "\<forall>e\<in>E. h e = Some new_LinkedListElement"
  shows "ll_inv E (fst (new_LinkedListHead f l h)) [] (snd (new_LinkedListHead f l h))"
  using assms by (auto simp: ll_inv_def dll_def new_LinkedListHead_def new_LinkedListElement_def nxt_def prv_def)

section \<open>Properties\<close>

text \<open>
  C20. The intrusive list implements the list of its elements.  For a freshly constructed head and any
  sequence of \<^verbatim>\<open>insertFirst\<close>, \<^verbatim>\<open>insertLast\<close> and \<^verbatim>\<open>delink\<close> calls that inserts only live elements which are
  not in the list, no call follows a null or dangling pointer, and afterwards, with \<open>xs\<close> the list
  the specification computes: \<^verbatim>\<open>isEmpty\<close>, \<^verbatim>\<open>getFirst\<close> and \<^verbatim>\<open>getLast\<close> answer for \<open>xs\<close>, a forward loop
  over the iterators ends and visits \<open>xs\<close> in order, a backward loop visits it in reverse, the
  counting loop of \<^verbatim>\<open>getSize\<close> ends with the length, and every element outside \<open>xs\<close> has null pointers.
\<close>

theorem linked_list_refines:
  assumes "f \<noteq> l" and "f \<notin> E" and "l \<notin> E" and "\<forall>e\<in>E. h e = Some new_LinkedListElement"
    and "ll_legal E ops []"
  shows "\<exists>h'. let (lh, h0) = new_LinkedListHead f l h; xs = fold ll_spec ops [] in
    res_fold (ll_exec lh) ops h0 = Inr h' \<and>
    ll_isEmpty h' lh = Inr (xs = []) \<and> getFirst h' lh = Inr (ptr_of xs) \<and> getLast h' lh = Inr (ptr_of (rev xs)) \<and>
    it_visits (it_incr h') (ptr_of xs) [] = Some (Inr xs) \<and>
    it_visits (it_decr h') (ptr_of (rev xs)) [] = Some (Inr (rev xs)) \<and>
    getSize h' lh = Some (Inr (of_nat (length xs))) \<and>
    (\<forall>e\<in>E - set xs. h' e = Some new_LinkedListElement)"
proof -
  obtain lh h0 where new: "new_LinkedListHead f l h = (lh, h0)" by fastforce
  then obtain h' where h': "res_fold (ll_exec lh) ops h0 = Inr h'" "ll_inv E lh (fold ll_spec ops []) h'"
    using ll_run_refines [OF new_head_inv [OF assms(1-4)] assms(5)] by auto
  then have d: "dll h' lh (fold ll_spec ops [])" by (simp add: ll_inv_def)
  have "h' e = Some new_LinkedListElement" if "e \<in> E - set (fold ll_spec ops [])" for e
    using that h'(2) by (auto simp: ll_inv_def new_LinkedListElement_def nxt_def prv_def)
  moreover have "iSize lh = 0" using new by (auto simp: new_LinkedListHead_def)
  ultimately show ?thesis
    using new h'(1) dll_isEmpty [OF d] dll_getFirst [OF d] dll_getLast [OF d] dll_getSize [OF d]
      it_visits_forward [of h' lh "[]" "fold ll_spec ops []" "[]"]
      it_visits_backward [of h' lh "fold ll_spec ops []" "[]" "[]"] d
    by (auto simp: Let_def)
qed

theorem linked_list_refines_witness:
  "\<exists>h'. res_fold (ll_exec \<lparr>iFirst = 0, iLast = 1, iSize = 0\<rparr>)
      [InsertFirst 5, InsertLast 7, InsertFirst 6, Delink 5]
      (snd (new_LinkedListHead 0 1 (\<lambda>e. if e \<in> {5, 6, 7} then Some new_LinkedListElement else None))) = Inr h' \<and>
    it_visits (it_incr h') (Some 6) [] = Some (Inr [6, 7])"
  using linked_list_refines [of 0 1 "{5, 6, 7}"
      "\<lambda>e. if e \<in> {5, 6, 7} then Some new_LinkedListElement else None"
      "[InsertFirst 5, InsertLast 7, InsertFirst 6, Delink 5]"]
  by (auto simp: new_LinkedListHead_def)

end
