(* ===== verification/References.thy ===== *)
theory References
  imports Linked_List
begin

text \<open>
  The reference objects of \<^verbatim>\<open>src/src/server/shared/Dynamic/LinkedReference/\<close> (\<^verbatim>\<open>Reference\<close>,
  \<^verbatim>\<open>RefManager\<close>), the five classes of the game that derive from them (players on a map, objects in a
  grid, members of a group, followers of a unit, rolls on a loot), and the map's update loop, whose
  iterator survives the removal of players.  The virtual functions of a reference class form the
  locale \<open>reference_class\<close>; each class interprets it.
\<close>

section \<open>The objects\<close>

text \<open>
  A reference is a list element, so it has an address on the heap of \<open>Linked_List\<close>; \<open>rw_refs\<close> holds
  its other members.  \<open>rw_heads\<close> holds the reference manager of every target object, by the address of
  the target.
\<close>

record reference =
  iRefTo :: "addr option"
  iRefFrom :: "addr option"

record ref_world =
  rw_heap :: ll_heap
  rw_heads :: "addr \<rightharpoonup> ll_head"
  rw_refs :: "addr \<rightharpoonup> reference"

definition new_Reference :: reference where
  "new_Reference = \<lparr>iRefTo = None, iRefFrom = None\<rparr>"

definition ref_at :: "ref_world \<Rightarrow> addr \<Rightarrow> ll_error + reference" where
  "ref_at s r = (case rw_refs s r of None \<Rightarrow> Inl Dangling | Some x \<Rightarrow> Inr x)"

definition ref_set :: "(reference \<Rightarrow> reference) \<Rightarrow> addr \<Rightarrow> ref_world \<Rightarrow> ll_error + ref_world" where
  "ref_set f r s = res_bind (ref_at s r) (\<lambda>x. Inr (s\<lparr>rw_refs := (rw_refs s)(r \<mapsto> f x)\<rparr>))"

text \<open>The manager of the object a pointer points to.\<close>

definition head_at :: "ref_world \<Rightarrow> addr option \<Rightarrow> ll_error + ll_head" where
  "head_at s p = (case p of None \<Rightarrow> Inl NullAccess
                  | Some t \<Rightarrow> (case rw_heads s t of None \<Rightarrow> Inl Dangling | Some lh \<Rightarrow> Inr lh))"

definition head_set :: "(ll_head \<Rightarrow> ll_head) \<Rightarrow> addr option \<Rightarrow> ref_world \<Rightarrow> ll_error + ref_world" where
  "head_set f p s = res_bind (head_at s p) (\<lambda>lh. Inr (s\<lparr>rw_heads := (rw_heads s)(the p \<mapsto> f lh)\<rparr>))"

definition on_heap :: "(ll_heap \<Rightarrow> ll_error + ll_heap) \<Rightarrow> ref_world \<Rightarrow> ll_error + ref_world" where
  "on_heap f s = res_bind (f (rw_heap s)) (\<lambda>h. Inr (s\<lparr>rw_heap := h\<rparr>))"

definition getTarget :: "ref_world \<Rightarrow> addr \<Rightarrow> ll_error + addr option" where
  "getTarget s r = res_bind (ref_at s r) (\<lambda>x. Inr (iRefTo x))"

definition getSource :: "ref_world \<Rightarrow> addr \<Rightarrow> ll_error + addr option" where
  "getSource s r = res_bind (ref_at s r) (\<lambda>x. Inr (iRefFrom x))"

definition ref_isValid :: "ref_world \<Rightarrow> addr \<Rightarrow> ll_error + bool" where
  "ref_isValid s r = res_bind (ref_at s r) (\<lambda>x. Inr (iRefTo x \<noteq> None))"

section \<open>Reference and RefManager\<close>

text \<open>The virtual functions a reference class supplies, as operations on the reference.\<close>

type_synonym ref_hook = "addr \<Rightarrow> ref_world \<Rightarrow> ll_error + ref_world"

record ref_class =
  targetObjectBuildLink :: ref_hook
  targetObjectDestroyLink :: ref_hook
  sourceObjectDestroyLink :: ref_hook

definition ref_unlink :: "ref_class \<Rightarrow> addr \<Rightarrow> ref_world \<Rightarrow> ll_error + ref_world" where
  "ref_unlink C r s =
     res_bind (targetObjectDestroyLink C r s) (\<lambda>s1.
     res_bind (on_heap (delink r) s1) (\<lambda>s2.
     ref_set (\<lambda>x. x\<lparr>iRefTo := None, iRefFrom := None\<rparr>) r s2))"

definition ref_link :: "ref_class \<Rightarrow> addr \<Rightarrow> addr option \<Rightarrow> addr option \<Rightarrow> ref_world \<Rightarrow> ll_error + ref_world" where
  "ref_link C r toObj fromObj s =
     (if fromObj = None then Inl AssertFailed
      else res_bind (ref_isValid s r) (\<lambda>v.
           res_bind (if v then ref_unlink C r s else Inr s) (\<lambda>s1.
           if toObj = None then Inr s1
           else res_bind (ref_set (\<lambda>x. x\<lparr>iRefTo := toObj, iRefFrom := fromObj\<rparr>) r s1)
                  (targetObjectBuildLink C r))))"

definition ref_invalidate :: "ref_class \<Rightarrow> addr \<Rightarrow> ref_world \<Rightarrow> ll_error + ref_world" where
  "ref_invalidate C r s =
     res_bind (sourceObjectDestroyLink C r s) (\<lambda>s1.
     res_bind (on_heap (delink r) s1) (\<lambda>s2.
     ref_set (\<lambda>x. x\<lparr>iRefTo := None\<rparr>) r s2))"

text \<open>
  \<^verbatim>\<open>clearReferences\<close> runs until the list of the target at \<open>t\<close> is empty; not returning is
  \<^const>\<open>None\<close>.
\<close>

partial_function (option) clearReferences ::
  "ref_class \<Rightarrow> addr \<Rightarrow> ref_world \<Rightarrow> (ll_error + ref_world) option" where
  "clearReferences C t s =
     (case res_bind (head_at s (Some t)) (getFirst (rw_heap s)) of
        Inl err \<Rightarrow> Some (Inl err)
      | Inr None \<Rightarrow> Some (Inr s)
      | Inr (Some r) \<Rightarrow>
          (case res_bind (ref_invalidate C r s) (on_heap (delink r)) of
             Inl err \<Rightarrow> Some (Inl err)
           | Inr s' \<Rightarrow> clearReferences C t s'))"

declare clearReferences.simps [code]

section \<open>The reference classes of the game\<close>

definition insert_into_target :: ref_hook where
  "insert_into_target r s = res_bind (getTarget s r) (\<lambda>t. res_bind (head_at s t) (\<lambda>lh.
     on_heap (insertFirst lh r) s))"

definition no_hook :: ref_hook where
  "no_hook r s = Inr s"

definition MapReference_build :: ref_hook where
  "MapReference_build r s = res_bind (insert_into_target r s) (\<lambda>s1.
     res_bind (getTarget s1 r) (\<lambda>t. head_set incSize t s1))"

definition MapReference_destroy :: ref_hook where
  "MapReference_destroy r s = res_bind (ref_isValid s r) (\<lambda>v.
     if v then res_bind (getTarget s r) (\<lambda>t. head_set decSize t s) else Inr s)"

definition MapReference_source_destroy :: ref_hook where
  "MapReference_source_destroy r s = res_bind (getTarget s r) (\<lambda>t. head_set decSize t s)"

definition MapReference :: ref_class where
  "MapReference = \<lparr>targetObjectBuildLink = MapReference_build,
     targetObjectDestroyLink = MapReference_destroy, sourceObjectDestroyLink = MapReference_source_destroy\<rparr>"

text \<open>\<^verbatim>\<open>GridReference\<close> has the same three functions, on the grid's own manager.\<close>

definition GridReference :: ref_class where
  "GridReference = \<lparr>targetObjectBuildLink = MapReference_build,
     targetObjectDestroyLink = MapReference_destroy, sourceObjectDestroyLink = MapReference_source_destroy\<rparr>"

text \<open>\<^verbatim>\<open>Group::LinkMember\<close> inserts the reference; the other two functions are empty.\<close>

definition GroupReference :: ref_class where
  "GroupReference = \<lparr>targetObjectBuildLink = insert_into_target,
     targetObjectDestroyLink = no_hook, sourceObjectDestroyLink = no_hook\<rparr>"

text \<open>
  \<^verbatim>\<open>Unit::addFollower\<close> inserts the reference and \<^verbatim>\<open>removeFollower\<close> does nothing, but it is called on
  the target; \<^verbatim>\<open>stopFollowing\<close> is called on the source.
\<close>

definition FollowerReference_destroy :: ref_hook where
  "FollowerReference_destroy r s = res_bind (getTarget s r) (\<lambda>t. res_bind (head_at s t) (\<lambda>_. Inr s))"

definition FollowerReference_source_destroy :: ref_hook where
  "FollowerReference_source_destroy r s = res_bind (getSource s r) (\<lambda>f.
     if f = None then Inl NullAccess else Inr s)"

definition FollowerReference :: ref_class where
  "FollowerReference = \<lparr>targetObjectBuildLink = insert_into_target,
     targetObjectDestroyLink = FollowerReference_destroy,
     sourceObjectDestroyLink = FollowerReference_source_destroy\<rparr>"

text \<open>A \<^verbatim>\<open>Roll\<close> is a \<^verbatim>\<open>LootValidatorRef\<close> that links itself through \<^verbatim>\<open>Loot::addLootValidatorRef\<close>.\<close>

definition Roll_Reference :: ref_class where
  "Roll_Reference = \<lparr>targetObjectBuildLink = insert_into_target,
     targetObjectDestroyLink = no_hook, sourceObjectDestroyLink = no_hook\<rparr>"

section \<open>The lists of a world\<close>

text \<open>
  \<open>rw_inv L s\<close>: for every target \<open>t\<close>, \<open>L t\<close> is the list of references on its manager; the lists share
  no element, and a reference on no list has null pointers.
\<close>

definition rw_inv :: "(addr \<Rightarrow> addr list) \<Rightarrow> ref_world \<Rightarrow> bool" where
  "rw_inv L s =
    ((\<forall>t lh. rw_heads s t = Some lh \<longrightarrow> dll (rw_heap s) lh (L t)) \<and>
     (\<forall>t. rw_heads s t = None \<longrightarrow> L t = []) \<and>
     (\<forall>t u lh lh'. t \<noteq> u \<longrightarrow> rw_heads s t = Some lh \<longrightarrow> rw_heads s u = Some lh' \<longrightarrow>
        set (ll_nodes lh (L t)) \<inter> set (ll_nodes lh' (L u)) = {}) \<and>
     (\<forall>t. set (L t) \<subseteq> dom (rw_refs s)) \<and>
     (\<forall>r. rw_refs s r \<noteq> None \<longrightarrow> rw_heap s r \<noteq> None \<and>
        (\<forall>t lh. rw_heads s t = Some lh \<longrightarrow> r \<noteq> iFirst lh \<and> r \<noteq> iLast lh) \<and>
        ((\<forall>t. r \<notin> set (L t)) \<longrightarrow> nxt (rw_heap s) r = None \<and> prv (rw_heap s) r = None)))"

definition ref_ok :: "bool \<Rightarrow> (addr \<Rightarrow> addr list) \<Rightarrow> ref_world \<Rightarrow> bool" where
  "ref_ok counted L s =
    (rw_inv L s \<and>
     (\<forall>t lh. rw_heads s t = Some lh \<longrightarrow> iSize lh = (if counted then of_nat (length (L t)) else 0)) \<and>
     (\<forall>r x. rw_refs s r = Some x \<longrightarrow>
        (\<forall>t. r \<in> set (L t) \<longleftrightarrow> iRefTo x = Some t) \<and> (iRefTo x \<noteq> None \<longrightarrow> iRefFrom x \<noteq> None)))"

lemma rw_invD:
  assumes "rw_inv L s"
  shows "rw_heads s t = Some lh \<Longrightarrow> dll (rw_heap s) lh (L t)"
    and "rw_heads s t = None \<Longrightarrow> L t = []"
    and "t \<noteq> u \<Longrightarrow> rw_heads s t = Some lh \<Longrightarrow> rw_heads s u = Some lh' \<Longrightarrow>
      set (ll_nodes lh (L t)) \<inter> set (ll_nodes lh' (L u)) = {}"
    and "r \<in> set (L t) \<Longrightarrow> rw_refs s r \<noteq> None"
    and "rw_refs s r \<noteq> None \<Longrightarrow> rw_heap s r \<noteq> None"
    and "rw_refs s r \<noteq> None \<Longrightarrow> rw_heads s t = Some lh \<Longrightarrow> r \<noteq> iFirst lh \<and> r \<noteq> iLast lh"
    and "rw_refs s r \<noteq> None \<Longrightarrow> (\<And>u. r \<notin> set (L u)) \<Longrightarrow> nxt (rw_heap s) r = None \<and> prv (rw_heap s) r = None"
proof -
  note i = assms [unfolded rw_inv_def]
  show "rw_heads s t = Some lh \<Longrightarrow> dll (rw_heap s) lh (L t)" using i by blast
  show "rw_heads s t = None \<Longrightarrow> L t = []" using i by blast
  show "t \<noteq> u \<Longrightarrow> rw_heads s t = Some lh \<Longrightarrow> rw_heads s u = Some lh' \<Longrightarrow>
      set (ll_nodes lh (L t)) \<inter> set (ll_nodes lh' (L u)) = {}" using i by blast
  show "r \<in> set (L t) \<Longrightarrow> rw_refs s r \<noteq> None" using i by blast
  show "rw_refs s r \<noteq> None \<Longrightarrow> rw_heap s r \<noteq> None" using i by blast
  show "rw_refs s r \<noteq> None \<Longrightarrow> rw_heads s t = Some lh \<Longrightarrow> r \<noteq> iFirst lh \<and> r \<noteq> iLast lh" using i by blast
  show "rw_refs s r \<noteq> None \<Longrightarrow> (\<And>u. r \<notin> set (L u)) \<Longrightarrow> nxt (rw_heap s) r = None \<and> prv (rw_heap s) r = None"
    using i by blast
qed

lemma rw_invI:
  assumes "\<And>t lh. rw_heads s t = Some lh \<Longrightarrow> dll (rw_heap s) lh (L t)"
    and "\<And>t. rw_heads s t = None \<Longrightarrow> L t = []"
    and "\<And>t u lh lh'. t \<noteq> u \<Longrightarrow> rw_heads s t = Some lh \<Longrightarrow> rw_heads s u = Some lh' \<Longrightarrow>
      set (ll_nodes lh (L t)) \<inter> set (ll_nodes lh' (L u)) = {}"
    and "\<And>t r. r \<in> set (L t) \<Longrightarrow> rw_refs s r \<noteq> None"
    and "\<And>r. rw_refs s r \<noteq> None \<Longrightarrow> rw_heap s r \<noteq> None"
    and "\<And>r t lh. rw_refs s r \<noteq> None \<Longrightarrow> rw_heads s t = Some lh \<Longrightarrow> r \<noteq> iFirst lh \<and> r \<noteq> iLast lh"
    and "\<And>r. rw_refs s r \<noteq> None \<Longrightarrow> (\<And>u. r \<notin> set (L u)) \<Longrightarrow>
      nxt (rw_heap s) r = None \<and> prv (rw_heap s) r = None"
  shows "rw_inv L s"
proof -
  have "\<forall>t. set (L t) \<subseteq> dom (rw_refs s)" using assms(4) by (auto simp: domIff)
  moreover have "\<forall>r. rw_refs s r \<noteq> None \<longrightarrow> rw_heap s r \<noteq> None \<and>
      (\<forall>t lh. rw_heads s t = Some lh \<longrightarrow> r \<noteq> iFirst lh \<and> r \<noteq> iLast lh) \<and>
      ((\<forall>t. r \<notin> set (L t)) \<longrightarrow> nxt (rw_heap s) r = None \<and> prv (rw_heap s) r = None)"
    using assms(5-7) by blast
  ultimately show ?thesis unfolding rw_inv_def by (intro conjI allI impI assms(1-3)) blast+
qed

text \<open>
  Replacing the list of one target: the frame argument shared by insertion and removal.  The new heap
  holds the new list, leaves everything outside the old and the new list alone, and the references
  that left the list have null pointers.
\<close>

lemma rw_inv_replace:
  assumes inv: "rw_inv L s" and t: "rw_heads s t = Some lh" and d: "dll h' lh ys" and dom: "dom h' = dom (rw_heap s)"
    and frame: "\<And>x. x \<notin> set (ll_nodes lh (L t)) \<Longrightarrow> x \<notin> set ys \<Longrightarrow>
      nxt h' x = nxt (rw_heap s) x \<and> prv h' x = prv (rw_heap s) x"
    and new: "\<And>x. x \<in> set ys - set (L t) \<Longrightarrow> rw_refs s x \<noteq> None \<and> (\<forall>u. x \<notin> set (L u))"
    and old: "\<And>x. x \<in> set (L t) - set ys \<Longrightarrow> nxt h' x = None \<and> prv h' x = None"
  shows "rw_inv (L(t := ys)) (s\<lparr>rw_heap := h'\<rparr>)"
proof -
  have live: "rw_refs s x \<noteq> None" if "x \<in> set ys" for x
    using that new [of x] rw_invD(4) [OF inv, of x t] by blast
  have ysdisj: "set (ll_nodes lh ys) \<inter> set (ll_nodes lh' (L u)) = {}"
    if "u \<noteq> t" "rw_heads s u = Some lh'" for u lh'
    using rw_invD(3) [OF inv _ t that(2)] that(1) rw_invD(6) [OF inv live that(2)] new by fastforce
  have lists: "dll h' lh' (L u)" if u: "u \<noteq> t" "rw_heads s u = Some lh'" for u lh'
  proof (rule dll_frame [OF rw_invD(1) [OF inv u(2)]])
    fix x assume "x \<in> set (ll_nodes lh' (L u))"
    then have "x \<notin> set (ll_nodes lh (L t))" "x \<notin> set ys"
      using rw_invD(3) [OF inv u(1) u(2) t] ysdisj [OF u] by auto
    then show "nxt h' x = nxt (rw_heap s) x \<and> prv h' x = prv (rw_heap s) x" by (rule frame)
  qed
  have free: "nxt h' r = None \<and> prv h' r = None"
    if r: "rw_refs s r \<noteq> None" "\<And>u. r \<notin> set ((L(t := ys)) u)" for r
  proof (cases "r \<in> set (L t)")
    case True
    then show ?thesis using old [of r] r(2) [of t] by simp
  next
    case False
    then have "\<And>u. r \<notin> set (L u)" using r(2) by (metis fun_upd_apply)
    moreover have "nxt h' r = nxt (rw_heap s) r \<and> prv h' r = prv (rw_heap s) r"
      using frame [of r] False r(2) [of t] rw_invD(6) [OF inv r(1) t] by simp
    ultimately show ?thesis using rw_invD(7) [OF inv r(1)] by simp
  qed
  show ?thesis
  proof (rule rw_invI)
    fix u lh' assume "rw_heads (s\<lparr>rw_heap := h'\<rparr>) u = Some lh'"
    then show "dll (rw_heap (s\<lparr>rw_heap := h'\<rparr>)) lh' ((L(t := ys)) u)"
      using lists [of u lh'] d t by (cases "u = t") auto
  next
    fix u assume "rw_heads (s\<lparr>rw_heap := h'\<rparr>) u = None"
    then show "(L(t := ys)) u = []" using rw_invD(2) [OF inv, of u] t by auto
  next
    fix u v lh1 lh2
    assume "u \<noteq> v" "rw_heads (s\<lparr>rw_heap := h'\<rparr>) u = Some lh1" "rw_heads (s\<lparr>rw_heap := h'\<rparr>) v = Some lh2"
    then show "set (ll_nodes lh1 ((L(t := ys)) u)) \<inter> set (ll_nodes lh2 ((L(t := ys)) v)) = {}"
      using ysdisj [of v lh2] ysdisj [of u lh1] rw_invD(3) [OF inv, of u v lh1 lh2] t
      by (cases "u = t"; cases "v = t") (simp_all add: Int_commute)
  next
    fix u r assume "r \<in> set ((L(t := ys)) u)"
    then show "rw_refs (s\<lparr>rw_heap := h'\<rparr>) r \<noteq> None"
      using live [of r] rw_invD(4) [OF inv, of r u] by (cases "u = t") auto
  next
    fix r assume "rw_refs (s\<lparr>rw_heap := h'\<rparr>) r \<noteq> None"
    then show "rw_heap (s\<lparr>rw_heap := h'\<rparr>) r \<noteq> None"
      using rw_invD(5) [OF inv, of r] dom by (simp add: set_eq_iff domIff)
  next
    fix r u lh' assume "rw_refs (s\<lparr>rw_heap := h'\<rparr>) r \<noteq> None" "rw_heads (s\<lparr>rw_heap := h'\<rparr>) u = Some lh'"
    then show "r \<noteq> iFirst lh' \<and> r \<noteq> iLast lh'" using rw_invD(6) [OF inv, of r u lh'] by simp
  next
    fix r assume "rw_refs (s\<lparr>rw_heap := h'\<rparr>) r \<noteq> None" "\<And>u. r \<notin> set ((L(t := ys)) u)"
    then show "nxt (rw_heap (s\<lparr>rw_heap := h'\<rparr>)) r = None \<and> prv (rw_heap (s\<lparr>rw_heap := h'\<rparr>)) r = None"
      using free [of r] by simp
  qed
qed

lemma rw_inv_insert:
  assumes inv: "rw_inv L s" and r: "rw_refs s r \<noteq> None" "\<And>u. r \<notin> set (L u)" and t: "rw_heads s t = Some lh"
  shows "\<exists>h'. insertFirst lh r (rw_heap s) = Inr h' \<and> rw_inv (L(t := r # L t)) (s\<lparr>rw_heap := h'\<rparr>)"
proof -
  have "r \<notin> set (ll_nodes lh (L t))" using r rw_invD(6) [OF inv r(1) t] by auto
  from dll_insertFirst [OF rw_invD(1) [OF inv t] this rw_invD(5) [OF inv r(1)]]
  obtain h' where h': "insertFirst lh r (rw_heap s) = Inr h'" "dll h' lh (r # L t)" "dom h' = dom (rw_heap s)"
    "\<forall>x. x \<notin> set (ll_nodes lh (r # L t)) \<longrightarrow> nxt h' x = nxt (rw_heap s) x \<and> prv h' x = prv (rw_heap s) x"
    by blast
  have "rw_inv (L(t := r # L t)) (s\<lparr>rw_heap := h'\<rparr>)"
    by (rule rw_inv_replace [OF inv t h'(2,3)]) (use h'(4) r in auto)
  then show ?thesis using h'(1) by blast
qed

lemma rw_inv_delink:
  assumes inv: "rw_inv L s" and r: "r \<in> set (L t)"
  shows "\<exists>h'. delink r (rw_heap s) = Inr h' \<and> rw_inv (L(t := remove1 r (L t))) (s\<lparr>rw_heap := h'\<rparr>)"
proof -
  obtain lh where t: "rw_heads s t = Some lh" using rw_invD(2) [OF inv, of t] r by (cases "rw_heads s t") auto
  obtain us vs where xs: "L t = us @ r # vs" "r \<notin> set us" using r by (metis split_list_first)
  have dl: "dll (rw_heap s) lh (us @ r # vs)" using rw_invD(1) [OF inv t] xs by simp
  then have rvs: "r \<notin> set vs" by (simp add: dll_def)
  from dll_delink [OF dl] obtain h' where h': "delink r (rw_heap s) = Inr h'" "dll h' lh (us @ vs)"
    "nxt h' r = None" "prv h' r = None" "dom h' = dom (rw_heap s)"
    "\<forall>x. x \<notin> set (ll_nodes lh (us @ r # vs)) \<longrightarrow> nxt h' x = nxt (rw_heap s) x \<and> prv h' x = prv (rw_heap s) x"
    by blast
  have "rw_inv (L(t := us @ vs)) (s\<lparr>rw_heap := h'\<rparr>)"
    by (rule rw_inv_replace [OF inv t h'(2,5)]) (use h'(3,4,6) xs in auto)
  then show ?thesis using h'(1) xs rvs by (simp add: remove1_append)
qed

lemma rw_delink_free:
  assumes "rw_inv L s" and "rw_refs s r \<noteq> None" and "\<And>u. r \<notin> set (L u)"
  shows "delink r (rw_heap s) = Inr (rw_heap s)"
  using delink_free [of "rw_heap s" r] rw_invD(5) [OF assms(1,2)] rw_invD(7) [OF assms] by simp

text \<open>The invariant speaks of the sentinels and of which references exist, not of the other members.\<close>

lemma dll_resize [simp]: "dll h (lh\<lparr>iSize := n\<rparr>) xs = dll h lh xs"
  by (simp add: dll_def)

lemma rw_inv_cong:
  assumes inv: "rw_inv L s" and heap: "rw_heap s' = rw_heap s"
    and heads: "\<And>u lh'. rw_heads s' u = Some lh' \<Longrightarrow>
      \<exists>lh. rw_heads s u = Some lh \<and> iFirst lh' = iFirst lh \<and> iLast lh' = iLast lh"
    and none: "\<And>u. rw_heads s' u = None \<Longrightarrow> rw_heads s u = None"
    and refs: "\<And>q. rw_refs s' q \<noteq> None \<longleftrightarrow> rw_refs s q \<noteq> None"
  shows "rw_inv L s'"
proof (rule rw_invI)
  fix u lh' assume "rw_heads s' u = Some lh'"
  then show "dll (rw_heap s') lh' (L u)"
    using rw_invD(1) [OF inv, of u] heads [of u lh'] by (auto simp: dll_def heap)
next
  fix u v lh1 lh2 assume "u \<noteq> v" "rw_heads s' u = Some lh1" "rw_heads s' v = Some lh2"
  then show "set (ll_nodes lh1 (L u)) \<inter> set (ll_nodes lh2 (L v)) = {}"
    using rw_invD(3) [OF inv, of u v] heads [of u lh1] heads [of v lh2] by metis
next
  fix r u lh' assume "rw_refs s' r \<noteq> None" "rw_heads s' u = Some lh'"
  then show "r \<noteq> iFirst lh' \<and> r \<noteq> iLast lh'"
    using rw_invD(6) [OF inv, of r u] heads [of u lh'] refs [of r] by auto
next
  fix r assume "rw_refs s' r \<noteq> None" and "\<And>u. r \<notin> set (L u)"
  then show "nxt (rw_heap s') r = None \<and> prv (rw_heap s') r = None"
    using rw_invD(7) [OF inv, of r] refs [of r] unfolding heap by blast
qed (use none refs heap rw_invD(2,4,5) [OF inv] in metis)+

lemma rw_inv_refs:
  "rw_inv L s \<Longrightarrow> rw_refs s r \<noteq> None \<Longrightarrow> rw_inv L (s\<lparr>rw_refs := (rw_refs s)(r \<mapsto> x)\<rparr>)"
  by (erule rw_inv_cong) auto

lemma rw_inv_resize:
  "rw_inv L s \<Longrightarrow> rw_heads s t = Some lh \<Longrightarrow> iFirst lh' = iFirst lh \<Longrightarrow> iLast lh' = iLast lh \<Longrightarrow>
     rw_inv L (s\<lparr>rw_heads := (rw_heads s)(t \<mapsto> lh')\<rparr>)"
  by (erule rw_inv_cong) (auto split: if_splits)

text \<open>The sentinels of a manager stay where they are for as long as it lives.\<close>

definition sentinels :: "ref_world \<Rightarrow> addr \<Rightarrow> (addr \<times> addr) option" where
  "sentinels s t = map_option (\<lambda>lh. (iFirst lh, iLast lh)) (rw_heads s t)"

lemma sentinels_live: "sentinels s' = sentinels s \<Longrightarrow> rw_heads s' t = None \<longleftrightarrow> rw_heads s t = None"
  by (metis map_option_is_None sentinels_def)

lemma sentinels_dom: "sentinels s' = sentinels s \<Longrightarrow> dom (rw_heads s') = dom (rw_heads s)"
  using sentinels_live [of s' s] by (auto simp: set_eq_iff domIff simp del: not_None_eq)

lemma sentinels_heap [simp]: "sentinels (s\<lparr>rw_heap := h\<rparr>) = sentinels s"
  by (simp add: sentinels_def fun_eq_iff)

lemma sentinels_refs [simp]: "sentinels (s\<lparr>rw_refs := f\<rparr>) = sentinels s"
  by (simp add: sentinels_def fun_eq_iff)

section \<open>The contract of a reference class\<close>

definition resize :: "bool \<Rightarrow> u32 \<Rightarrow> ll_head \<Rightarrow> ll_head" where
  "resize counted d lh = (if counted then lh\<lparr>iSize := iSize lh + d\<rparr> else lh)"

lemma sentinels_resize [simp]:
  "rw_heads s t = Some lh \<Longrightarrow> sentinels (w\<lparr>rw_heads := (rw_heads s)(t \<mapsto> resize counted d lh)\<rparr>) = sentinels s"
  by (auto simp: sentinels_def fun_eq_iff resize_def)

text \<open>
  What \<^verbatim>\<open>Reference\<close> relies on: building a link puts the reference at the front of the target's list;
  cutting it changes at most the count of the target.  Delinking is left to \<^verbatim>\<open>Reference\<close> itself.
\<close>

locale reference_class =
  fixes C :: ref_class and counted :: bool
  assumes build: "rw_refs s r = Some x \<Longrightarrow> iRefTo x = Some t \<Longrightarrow> rw_heads s t = Some lh \<Longrightarrow>
      insertFirst lh r (rw_heap s) = Inr h' \<Longrightarrow>
      targetObjectBuildLink C r s = Inr (s\<lparr>rw_heap := h', rw_heads := (rw_heads s)(t \<mapsto> resize counted 1 lh)\<rparr>)"
    and destroy: "rw_refs s r = Some x \<Longrightarrow> iRefTo x = Some t \<Longrightarrow> rw_heads s t = Some lh \<Longrightarrow>
      targetObjectDestroyLink C r s = Inr (s\<lparr>rw_heads := (rw_heads s)(t \<mapsto> resize counted (- 1) lh)\<rparr>)"
    and source_destroy: "rw_refs s r = Some x \<Longrightarrow> iRefTo x = Some t \<Longrightarrow> iRefFrom x \<noteq> None \<Longrightarrow>
      rw_heads s t = Some lh \<Longrightarrow>
      sourceObjectDestroyLink C r s = Inr (s\<lparr>rw_heads := (rw_heads s)(t \<mapsto> resize counted (- 1) lh)\<rparr>)"
begin

lemma cut:
  assumes ok: "ref_ok counted L s" and x: "rw_refs s r = Some x" "iRefTo x = Some t" and lh: "rw_heads s t = Some lh"
    and y: "iRefTo y = None"
  shows "\<exists>s'. res_bind (on_heap (delink r) (s\<lparr>rw_heads := (rw_heads s)(t \<mapsto> resize counted (- 1) lh)\<rparr>))
        (ref_set (\<lambda>_. y) r) = Inr s' \<and>
      ref_ok counted (L(t := remove1 r (L t))) s' \<and> rw_refs s' = (rw_refs s)(r \<mapsto> y) \<and> sentinels s' = sentinels s"
proof -
  let ?s1 = "s\<lparr>rw_heads := (rw_heads s)(t \<mapsto> resize counted (- 1) lh)\<rparr>"
  let ?L = "L(t := remove1 r (L t))"
  have inv: "rw_inv L s" and rt: "r \<in> set (L t)" using ok x by (auto simp: ref_ok_def)
  have "rw_inv L ?s1" by (rule rw_inv_resize [OF inv lh]) (simp_all add: resize_def)
  from rw_inv_delink [OF this rt] obtain h' where h': "delink r (rw_heap s) = Inr h'" "rw_inv ?L (?s1\<lparr>rw_heap := h'\<rparr>)"
    by auto
  let ?s' = "?s1\<lparr>rw_heap := h', rw_refs := (rw_refs s)(r \<mapsto> y)\<rparr>"
  have "rw_inv ?L ?s'" using rw_inv_refs [OF h'(2), of r y] x by simp
  moreover have "distinct (L t)" using rw_invD(1) [OF inv lh] by (simp add: dll_def)
  then have "set (remove1 r (L t)) = set (L t) - {r}" by simp
  moreover have "length (remove1 r (L t)) + 1 = length (L t)" using rt by (simp add: length_remove1) (metis Suc_pred length_pos_if_in_set)
  then have "(of_nat (length (L t)) :: u32) - 1 = of_nat (length (remove1 r (L t)))"
    by (metis add_diff_cancel_right' of_nat_1 of_nat_add)
  ultimately have "ref_ok counted ?L ?s'"
    using ok x lh y by (auto simp: ref_ok_def resize_def)
  moreover have "rw_refs ?s' = (rw_refs s)(r \<mapsto> y)" "sentinels ?s' = sentinels s" using lh by auto
  moreover have "res_bind (on_heap (delink r) ?s1) (ref_set (\<lambda>_. y) r) = Inr ?s'"
    using h'(1) x by (simp add: on_heap_def ref_set_def ref_at_def)
  ultimately show ?thesis by blast
qed

end

lemma reference_upd [simp]:
  "(x :: reference)\<lparr>iRefTo := a, iRefFrom := b\<rparr> = \<lparr>iRefTo = a, iRefFrom = b\<rparr>"
  by (cases x) simp

lemma ref_set_here:
  "rw_refs s r = Some x \<Longrightarrow>
     res_bind (on_heap d s) (ref_set f r) = res_bind (on_heap d s) (ref_set (\<lambda>_. f x) r)"
  by (cases "d (rw_heap s)") (simp_all add: on_heap_def ref_set_def ref_at_def)

lemma ref_ok_target:
  assumes "ref_ok counted L s" and "rw_refs s r = Some x" and "iRefTo x = Some t"
  obtains lh where "rw_heads s t = Some lh" and "r \<in> set (L t)" and "iRefFrom x \<noteq> None"
    and "\<And>u. u \<noteq> t \<Longrightarrow> r \<notin> set (L u)"
proof -
  have "r \<in> set (L t)" "iRefFrom x \<noteq> None" "\<And>u. u \<noteq> t \<Longrightarrow> r \<notin> set (L u)"
    using assms by (auto simp: ref_ok_def)
  moreover have "rw_heads s t \<noteq> None"
    using rw_invD(2) [of L s t] assms(1) calculation(1) unfolding ref_ok_def by (metis empty_iff list.set(1))
  ultimately show ?thesis using that by blast
qed

lemma ref_ok_target_iff:
  assumes "ref_ok counted L s"
  shows "r \<in> set (L t) \<longleftrightarrow> getTarget s r = Inr (Some t)"
proof (cases "rw_refs s r")
  case None
  then show ?thesis
    using rw_invD(4) [of L s r t] assms by (auto simp: ref_ok_def getTarget_def ref_at_def)
next
  case (Some x)
  then have "r \<in> set (L t) \<longleftrightarrow> iRefTo x = Some t" using assms unfolding ref_ok_def by blast
  then show ?thesis using Some by (simp add: getTarget_def ref_at_def)
qed

text \<open>The abstract operations on the lists of all targets.\<close>

definition lists_unlink :: "addr \<Rightarrow> (addr \<Rightarrow> addr list) \<Rightarrow> addr \<Rightarrow> addr list" where
  "lists_unlink r L = (\<lambda>t. remove1 r (L t))"

definition lists_link :: "addr \<Rightarrow> addr \<Rightarrow> (addr \<Rightarrow> addr list) \<Rightarrow> addr \<Rightarrow> addr list" where
  "lists_link r t L = (lists_unlink r L)(t := r # remove1 r (L t))"

lemma lists_unlink_one:
  "(\<And>u. u \<noteq> t \<Longrightarrow> r \<notin> set (L u)) \<Longrightarrow> lists_unlink r L = L(t := remove1 r (L t))"
  by (auto simp: lists_unlink_def fun_eq_iff remove1_idem)

lemma lists_unlink_free: "(\<And>u. r \<notin> set (L u)) \<Longrightarrow> lists_unlink r L = L"
  by (simp add: lists_unlink_def fun_eq_iff remove1_idem)

lemma ref_ok_distinct: "ref_ok counted L s \<Longrightarrow> distinct (L t)"
  using rw_invD(1,2) [of L s t] by (cases "rw_heads s t") (auto simp: ref_ok_def dll_def)

lemma lists_unlink_gone: "ref_ok counted L s \<Longrightarrow> r \<notin> set (lists_unlink r L u)"
  using ref_ok_distinct [of counted L s u] by (simp add: lists_unlink_def)

context reference_class
begin

lemma unlink_valid:
  assumes "ref_ok counted L s" and "rw_refs s r = Some x" and "iRefTo x = Some t"
  shows "\<exists>s'. ref_unlink C r s = Inr s' \<and> ref_ok counted (lists_unlink r L) s' \<and>
    rw_refs s' = (rw_refs s)(r \<mapsto> new_Reference) \<and> sentinels s' = sentinels s"
proof -
  obtain lh where lh: "rw_heads s t = Some lh" "\<And>u. u \<noteq> t \<Longrightarrow> r \<notin> set (L u)"
    using ref_ok_target [OF assms] by blast
  let ?s1 = "s\<lparr>rw_heads := (rw_heads s)(t \<mapsto> resize counted (- 1) lh)\<rparr>"
  have "rw_refs ?s1 r = Some x" using assms by simp
  from ref_set_here [OF this, of "delink r" "\<lambda>x. x\<lparr>iRefTo := None, iRefFrom := None\<rparr>"]
  have "ref_unlink C r s = res_bind (on_heap (delink r) ?s1) (ref_set (\<lambda>_. new_Reference) r)"
    using destroy [OF assms(2,3) lh(1)] by (simp add: ref_unlink_def new_Reference_def)
  then show ?thesis
    using cut [OF assms lh(1), of new_Reference] lists_unlink_one [of t r L] lh(2) by (simp add: new_Reference_def)
qed

lemma invalidate_valid:
  assumes "ref_ok counted L s" and "rw_refs s r = Some x" and "iRefTo x = Some t"
  shows "\<exists>s'. ref_invalidate C r s = Inr s' \<and> ref_ok counted (lists_unlink r L) s' \<and>
    rw_refs s' = (rw_refs s)(r \<mapsto> x\<lparr>iRefTo := None\<rparr>) \<and> sentinels s' = sentinels s"
proof -
  obtain lh where lh: "rw_heads s t = Some lh" "\<And>u. u \<noteq> t \<Longrightarrow> r \<notin> set (L u)" "iRefFrom x \<noteq> None"
    using ref_ok_target [OF assms] by blast
  let ?s1 = "s\<lparr>rw_heads := (rw_heads s)(t \<mapsto> resize counted (- 1) lh)\<rparr>"
  have "rw_refs ?s1 r = Some x" using assms by simp
  from ref_set_here [OF this, of "delink r" "\<lambda>x. x\<lparr>iRefTo := None\<rparr>"]
  have "ref_invalidate C r s = res_bind (on_heap (delink r) ?s1) (ref_set (\<lambda>_. x\<lparr>iRefTo := None\<rparr>) r)"
    using source_destroy [OF assms(2,3) lh(3,1)] by (simp add: ref_invalidate_def)
  then show ?thesis
    using cut [OF assms lh(1), of "x\<lparr>iRefTo := None\<rparr>"] lists_unlink_one [of t r L] lh(2) by simp
qed

lemma build_link:
  assumes ok: "ref_ok counted L s" and free: "\<And>u. r \<notin> set (L u)" and x: "rw_refs s r = Some x"
    and y: "iRefTo y = Some t" "iRefFrom y \<noteq> None" and lh: "rw_heads s t = Some lh"
  shows "\<exists>s'. targetObjectBuildLink C r (s\<lparr>rw_refs := (rw_refs s)(r \<mapsto> y)\<rparr>) = Inr s' \<and>
    ref_ok counted (L(t := r # L t)) s' \<and> rw_refs s' = (rw_refs s)(r \<mapsto> y) \<and> sentinels s' = sentinels s"
proof -
  let ?s1 = "s\<lparr>rw_refs := (rw_refs s)(r \<mapsto> y)\<rparr>"
  have "rw_inv L ?s1" using rw_inv_refs [of L s r y] ok x by (simp add: ref_ok_def)
  from rw_inv_insert [OF this _ free, of t lh] obtain h' where
    h': "insertFirst lh r (rw_heap s) = Inr h'" "rw_inv (L(t := r # L t)) (?s1\<lparr>rw_heap := h'\<rparr>)"
    using lh by auto
  let ?s' = "?s1\<lparr>rw_heap := h', rw_heads := (rw_heads s)(t \<mapsto> resize counted 1 lh)\<rparr>"
  have "targetObjectBuildLink C r ?s1 = Inr ?s'" using build [of ?s1 r y t lh h'] y lh h' by simp
  moreover have "rw_inv (L(t := r # L t)) ?s'"
    using rw_inv_resize [OF h'(2), of t lh "resize counted 1 lh"] lh by (simp add: resize_def)
  then have "ref_ok counted (L(t := r # L t)) ?s'"
    using ok x y lh free by (auto simp: ref_ok_def resize_def)
  ultimately show ?thesis using lh by auto
qed

lemma link_any:
  assumes ok: "ref_ok counted L s" and x: "rw_refs s r = Some x" and t: "rw_heads s t \<noteq> None"
  shows "\<exists>s'. ref_link C r (Some t) (Some f) s = Inr s' \<and> ref_ok counted (lists_link r t L) s' \<and>
    rw_refs s' = (rw_refs s)(r \<mapsto> \<lparr>iRefTo = Some t, iRefFrom = Some f\<rparr>) \<and> sentinels s' = sentinels s"
proof -
  let ?y = "\<lparr>iRefTo = Some t, iRefFrom = Some f\<rparr>"
  obtain s1 z where s1: "(if iRefTo x \<noteq> None then ref_unlink C r s else Inr s) = Inr s1"
      "ref_ok counted (lists_unlink r L) s1" "rw_refs s1 = (rw_refs s)(r \<mapsto> z)" "sentinels s1 = sentinels s"
  proof (cases "iRefTo x")
    case None
    then have "\<And>u. r \<notin> set (L u)" using ok x by (auto simp: ref_ok_def)
    then show ?thesis using that [of s x] None ok x lists_unlink_free [of r L] map_upd_triv [of "rw_refs s" r x] by simp
  next
    case (Some u)
    then show ?thesis using unlink_valid [OF ok x Some] that by auto
  qed
  obtain lh where "rw_heads s1 t = Some lh" using t sentinels_live [OF s1(4), of t] by auto
  from build_link [OF s1(2) lists_unlink_gone [OF ok] _ _ _ this, of z ?y] s1(3)
  obtain s' where "targetObjectBuildLink C r (s1\<lparr>rw_refs := (rw_refs s1)(r \<mapsto> ?y)\<rparr>) = Inr s'"
      "ref_ok counted ((lists_unlink r L)(t := r # lists_unlink r L t)) s'" "rw_refs s' = (rw_refs s)(r \<mapsto> ?y)"
      "sentinels s' = sentinels s" using s1(4) by auto
  moreover have "ref_set (\<lambda>x. x\<lparr>iRefTo := Some t, iRefFrom := Some f\<rparr>) r s1 = Inr (s1\<lparr>rw_refs := (rw_refs s1)(r \<mapsto> ?y)\<rparr>)"
    using s1(3) by (simp add: ref_set_def ref_at_def)
  ultimately show ?thesis
    using s1(1) x by (auto simp: ref_link_def ref_isValid_def ref_at_def lists_link_def lists_unlink_def)
qed

end

context reference_class
begin

lemma clear_step:
  assumes ok: "ref_ok counted L s" and L: "L t = r # rs"
  shows "\<exists>s' x. rw_refs s r = Some x \<and> res_bind (ref_invalidate C r s) (on_heap (delink r)) = Inr s' \<and>
    ref_ok counted (L(t := rs)) s' \<and> rw_refs s' = (rw_refs s)(r \<mapsto> x\<lparr>iRefTo := None\<rparr>) \<and>
    sentinels s' = sentinels s"
proof -
  have inv: "rw_inv L s" using ok by (simp add: ref_ok_def)
  obtain x where x: "rw_refs s r = Some x" using rw_invD(4) [OF inv, of r t] L by auto
  then have t: "iRefTo x = Some t" using ok L unfolding ref_ok_def by (metis list.set_intros(1))
  obtain s' where s': "ref_invalidate C r s = Inr s'" "ref_ok counted (lists_unlink r L) s'"
      "rw_refs s' = (rw_refs s)(r \<mapsto> x\<lparr>iRefTo := None\<rparr>)" "sentinels s' = sentinels s"
    using invalidate_valid [OF ok x t] by blast
  have "\<And>u. u \<noteq> t \<Longrightarrow> r \<notin> set (L u)" using ok x t by (auto simp: ref_ok_def)
  then have "lists_unlink r L = L(t := rs)" using lists_unlink_one [of t r L] L by simp
  moreover have "delink r (rw_heap s') = Inr (rw_heap s')"
    using rw_delink_free [of "lists_unlink r L" s' r] s' lists_unlink_gone [OF ok] by (simp add: ref_ok_def)
  ultimately show ?thesis using x s' by (auto simp: on_heap_def)
qed

lemma clear_all:
  "ref_ok counted L s \<Longrightarrow> rw_heads s t \<noteq> None \<Longrightarrow>
     \<exists>s'. clearReferences C t s = Some (Inr s') \<and> ref_ok counted (L(t := [])) s' \<and>
       rw_refs s' = (\<lambda>r. if r \<in> set (L t) then map_option (\<lambda>x. x\<lparr>iRefTo := None\<rparr>) (rw_refs s r) else rw_refs s r) \<and>
       sentinels s' = sentinels s"
proof (induction "L t" arbitrary: L s)
  case Nil
  obtain lh where lh: "rw_heads s t = Some lh" using Nil by auto
  have "dll (rw_heap s) lh (L t)" using rw_invD(1) [of L s t lh] Nil(2) lh by (simp add: ref_ok_def)
  then have "getFirst (rw_heap s) lh = Inr None" using Nil(1) dll_getFirst [of "rw_heap s" lh "[]"] by simp
  moreover have "L(t := []) = L" using Nil(1) by auto
  ultimately show ?case
    using Nil(2) Nil(1) [symmetric] lh by (subst clearReferences.simps) (simp add: head_at_def)
next
  case (Cons r rs)
  obtain lh where lh: "rw_heads s t = Some lh" using Cons by auto
  have "dll (rw_heap s) lh (r # rs)" using rw_invD(1) [of L s t lh] Cons(2,3) lh by (simp add: ref_ok_def)
  then have first: "getFirst (rw_heap s) lh = Inr (Some r)" using dll_getFirst by force
  obtain s1 x where s1: "rw_refs s r = Some x" "res_bind (ref_invalidate C r s) (on_heap (delink r)) = Inr s1"
      "ref_ok counted (L(t := rs)) s1" "rw_refs s1 = (rw_refs s)(r \<mapsto> x\<lparr>iRefTo := None\<rparr>)"
      "sentinels s1 = sentinels s"
    using clear_step [OF Cons(3) Cons(2) [symmetric]] by blast
  have "rw_heads s1 t \<noteq> None" using sentinels_live [OF s1(5), of t] lh by simp
  with Cons(1) [of "L(t := rs)" s1] s1(3) obtain s' where
    s': "clearReferences C t s1 = Some (Inr s')" "ref_ok counted (L(t := [])) s'"
      "rw_refs s' = (\<lambda>q. if q \<in> set rs then map_option (\<lambda>x. x\<lparr>iRefTo := None\<rparr>) (rw_refs s1 q) else rw_refs s1 q)"
      "sentinels s' = sentinels s1" by auto
  have "r \<notin> set rs" using ref_ok_distinct [OF Cons(3), of t] Cons(2) by (metis distinct.simps(2))
  then have "rw_refs s' = (\<lambda>q. if q \<in> set (L t) then map_option (\<lambda>x. x\<lparr>iRefTo := None\<rparr>) (rw_refs s q) else rw_refs s q)"
    using s'(3) s1(1,4) Cons(2) [symmetric] by (auto simp: fun_eq_iff)
  moreover have "clearReferences C t s = clearReferences C t s1"
    using lh first s1(2) by (subst clearReferences.simps) (simp add: head_at_def)
  ultimately show ?case using s' s1(5) by auto
qed

end

section \<open>The classes keep the contract\<close>

lemmas ref_hooks = MapReference_def GridReference_def GroupReference_def FollowerReference_def Roll_Reference_def
  MapReference_build_def MapReference_destroy_def MapReference_source_destroy_def
  FollowerReference_destroy_def FollowerReference_source_destroy_def insert_into_target_def no_hook_def
  getTarget_def getSource_def ref_isValid_def ref_at_def head_at_def head_set_def on_heap_def
  incSize_def decSize_def resize_def

lemma ref_world_upd_heads: "rw_heads s t = Some lh \<Longrightarrow> s\<lparr>rw_heads := (rw_heads s)(t \<mapsto> lh)\<rparr> = s"
  by (cases s) (simp add: map_upd_triv)

lemma ref_world_upd_heap_heads:
  "rw_heads s t = Some lh \<Longrightarrow> s\<lparr>rw_heap := h, rw_heads := (rw_heads s)(t \<mapsto> lh)\<rparr> = s\<lparr>rw_heap := h\<rparr>"
  by (cases s) (simp add: map_upd_triv)

interpretation map_refs: reference_class MapReference True
  by unfold_locales (simp_all add: ref_hooks)

interpretation grid_refs: reference_class GridReference True
  by unfold_locales (simp_all add: ref_hooks)

interpretation group_refs: reference_class GroupReference False
  by unfold_locales (simp_all add: ref_hooks ref_world_upd_heads ref_world_upd_heap_heads)

interpretation follower_refs: reference_class FollowerReference False
  by unfold_locales (simp_all add: ref_hooks ref_world_upd_heads ref_world_upd_heap_heads)

interpretation roll_refs: reference_class Roll_Reference False
  by unfold_locales (simp_all add: ref_hooks ref_world_upd_heads ref_world_upd_heap_heads)

text \<open>
  The destructors of map, grid and group references call \<^verbatim>\<open>unlink\<close> whether or not the reference is
  linked, so their \<^verbatim>\<open>targetObjectDestroyLink\<close> must tolerate a reference without target.
\<close>

locale destructible_reference_class = reference_class +
  assumes destroy_invalid: "rw_refs s r = Some x \<Longrightarrow> iRefTo x = None \<Longrightarrow> targetObjectDestroyLink C r s = Inr s"
begin

lemma unlink_any:
  assumes "ref_ok counted L s" and "rw_refs s r = Some x"
  shows "\<exists>s'. ref_unlink C r s = Inr s' \<and> ref_ok counted (lists_unlink r L) s' \<and>
    rw_refs s' = (rw_refs s)(r \<mapsto> new_Reference) \<and> sentinels s' = sentinels s"
proof (cases "iRefTo x")
  case None
  have inv: "rw_inv L s" and free: "\<And>u. r \<notin> set (L u)" using assms None by (auto simp: ref_ok_def)
  have x: "rw_refs s r \<noteq> None" using assms by simp
  let ?s' = "s\<lparr>rw_refs := (rw_refs s)(r \<mapsto> new_Reference)\<rparr>"
  have "ref_unlink C r s = Inr ?s'"
    using destroy_invalid [OF assms(2) None] rw_delink_free [OF inv x free] assms(2)
    by (simp add: ref_unlink_def on_heap_def ref_set_def ref_at_def new_Reference_def)
  moreover have "ref_ok counted L ?s'"
    using assms free rw_inv_refs [OF inv x] by (auto simp: ref_ok_def new_Reference_def)
  ultimately show ?thesis using lists_unlink_free [of r L] free by auto
next
  case (Some t)
  then show ?thesis using unlink_valid [OF assms] by blast
qed

end

interpretation map_refs: destructible_reference_class MapReference True
  by unfold_locales (simp add: ref_hooks)

interpretation grid_refs: destructible_reference_class GridReference True
  by unfold_locales (simp add: ref_hooks)

interpretation group_refs: destructible_reference_class GroupReference False
  by unfold_locales (simp add: ref_hooks)

interpretation roll_refs: destructible_reference_class Roll_Reference False
  by unfold_locales (simp add: ref_hooks)

section \<open>Sequences of operations on references\<close>

datatype ref_op = Link addr "addr option" addr | Unlink addr | ClearReferences addr

fun ref_exec :: "ref_class \<Rightarrow> ref_op \<Rightarrow> ref_world \<Rightarrow> (ll_error + ref_world) option" where
  "ref_exec C (Link r t f) s = Some (ref_link C r t (Some f) s)"
| "ref_exec C (Unlink r) s = Some (ref_unlink C r s)"
| "ref_exec C (ClearReferences t) s = clearReferences C t s"

fun ref_run :: "ref_class \<Rightarrow> ref_op list \<Rightarrow> ref_world \<Rightarrow> (ll_error + ref_world) option" where
  "ref_run C [] s = Some (Inr s)"
| "ref_run C (op # ops) s =
     (case ref_exec C op s of
        Some (Inr s') \<Rightarrow> ref_run C ops s'
      | r \<Rightarrow> r)"

fun lists_spec :: "ref_op \<Rightarrow> (addr \<Rightarrow> addr list) \<Rightarrow> addr \<Rightarrow> addr list" where
  "lists_spec (Link r (Some t) f) L = lists_link r t L"
| "lists_spec (Link r None f) L = lists_unlink r L"
| "lists_spec (Unlink r) L = lists_unlink r L"
| "lists_spec (ClearReferences t) L = L(t := [])"

text \<open>The objects an operation touches must be alive.\<close>

fun op_live :: "addr set \<Rightarrow> addr set \<Rightarrow> ref_op \<Rightarrow> bool" where
  "op_live R T (Link r t f) = (r \<in> R \<and> (case t of None \<Rightarrow> True | Some u \<Rightarrow> u \<in> T))"
| "op_live R T (Unlink r) = (r \<in> R)"
| "op_live R T (ClearReferences t) = (t \<in> T)"

context destructible_reference_class
begin

lemma exec_refines:
  assumes ok: "ref_ok counted L s" and live: "op_live (dom (rw_refs s)) (dom (rw_heads s)) op"
  shows "\<exists>s'. ref_exec C op s = Some (Inr s') \<and> ref_ok counted (lists_spec op L) s' \<and>
    dom (rw_refs s') = dom (rw_refs s) \<and> sentinels s' = sentinels s"
proof (cases op)
  case (Link r t f)
  then obtain x where x: "rw_refs s r = Some x" using live by auto
  show ?thesis
  proof (cases t)
    case None
    have "ref_link C r None (Some f) s = (if iRefTo x = None then Inr s else ref_unlink C r s)"
      using x by (cases "ref_unlink C r s") (auto simp: ref_link_def ref_isValid_def ref_at_def)
    moreover have "iRefTo x = None \<Longrightarrow> lists_unlink r L = L"
      using ok x by (intro lists_unlink_free) (auto simp: ref_ok_def)
    ultimately show ?thesis using Link None unlink_any [OF ok x] ok x by auto
  next
    case (Some u)
    then have "rw_heads s u \<noteq> None" using live Link by auto
    from link_any [OF ok x this, of f] obtain s' where s': "ref_link C r (Some u) (Some f) s = Inr s'"
        "ref_ok counted (lists_link r u L) s'" "sentinels s' = sentinels s"
        "rw_refs s' = (rw_refs s)(r \<mapsto> \<lparr>iRefTo = Some u, iRefFrom = Some f\<rparr>)" by blast
    have "dom (rw_refs s') = dom (rw_refs s)" unfolding s'(4) using x by (simp add: insert_absorb domI)
    then show ?thesis using Link Some s' by simp
  qed
next
  case (Unlink r)
  then obtain x where x: "rw_refs s r = Some x" using live by auto
  from unlink_any [OF ok x] obtain s' where s': "ref_unlink C r s = Inr s'"
      "ref_ok counted (lists_unlink r L) s'" "sentinels s' = sentinels s"
      "rw_refs s' = (rw_refs s)(r \<mapsto> new_Reference)" by blast
  have "dom (rw_refs s') = dom (rw_refs s)" unfolding s'(4) using x by (simp add: insert_absorb domI)
  then show ?thesis using Unlink s' by simp
next
  case (ClearReferences t)
  then have "rw_heads s t \<noteq> None" using live by auto
  from clear_all [OF ok this] obtain s' where s': "clearReferences C t s = Some (Inr s')"
      "ref_ok counted (L(t := [])) s'" "sentinels s' = sentinels s"
      "rw_refs s' = (\<lambda>r. if r \<in> set (L t) then map_option (\<lambda>x. x\<lparr>iRefTo := None\<rparr>) (rw_refs s r) else rw_refs s r)"
    by blast
  have "dom (rw_refs s') = dom (rw_refs s)" unfolding s'(4) by (auto simp: dom_def)
  then show ?thesis using s' ClearReferences by simp
qed

lemma run_refines:
  "ref_ok counted L s \<Longrightarrow> \<forall>op\<in>set ops. op_live (dom (rw_refs s)) (dom (rw_heads s)) op \<Longrightarrow>
     \<exists>s'. ref_run C ops s = Some (Inr s') \<and> ref_ok counted (fold lists_spec ops L) s' \<and>
       sentinels s' = sentinels s"
proof (induction ops arbitrary: L s)
  case (Cons op ops)
  then obtain s1 where "ref_exec C op s = Some (Inr s1)" "ref_ok counted (lists_spec op L) s1"
      "dom (rw_refs s1) = dom (rw_refs s)" "sentinels s1 = sentinels s"
    using exec_refines [OF Cons.prems(1), of op] by auto
  then show ?case using Cons.IH [of "lists_spec op L" s1] Cons.prems sentinels_dom [of s1 s] by auto
qed simp

text \<open>What the clients of a manager see of a world that keeps the invariant.\<close>

lemma run_observed:
  assumes "ref_ok counted L s" and "\<forall>op\<in>set ops. op_live (dom (rw_refs s)) (dom (rw_heads s)) op"
  shows "\<exists>s'. ref_run C ops s = Some (Inr s') \<and>
    (\<forall>t lh. rw_heads s' t = Some lh \<longrightarrow>
       (let xs = fold lists_spec ops L t in
        it_visits (it_incr (rw_heap s')) (ptr_of xs) [] = Some (Inr xs) \<and> getFirst (rw_heap s') lh = Inr (ptr_of xs) \<and>
        getSize (rw_heap s') lh = Some (Inr (of_nat (length xs))) \<and>
        set xs = {r. getTarget s' r = Inr (Some t)}))"
proof -
  obtain s' where s': "ref_run C ops s = Some (Inr s')" "ref_ok counted (fold lists_spec ops L) s'"
    using run_refines [OF assms] by blast
  let ?L = "fold lists_spec ops L"
  have inv: "rw_inv ?L s'" using s'(2) by (simp add: ref_ok_def)
  have "it_visits (it_incr (rw_heap s')) (ptr_of (?L t)) [] = Some (Inr (?L t)) \<and>
      getFirst (rw_heap s') lh = Inr (ptr_of (?L t)) \<and>
      getSize (rw_heap s') lh = Some (Inr (of_nat (length (?L t)))) \<and>
      set (?L t) = {r. getTarget s' r = Inr (Some t)}" if lh: "rw_heads s' t = Some lh" for t lh
  proof (intro conjI)
    note d = rw_invD(1) [OF inv lh]
    show "it_visits (it_incr (rw_heap s')) (ptr_of (?L t)) [] = Some (Inr (?L t))"
      using it_visits_forward [of "rw_heap s'" lh "[]" "?L t" "[]"] d by simp
    show "getFirst (rw_heap s') lh = Inr (ptr_of (?L t))" by (rule dll_getFirst [OF d])
    show "getSize (rw_heap s') lh = Some (Inr (of_nat (length (?L t))))"
      by (rule dll_getSize [OF d]) (use s'(2) lh in \<open>auto simp: ref_ok_def\<close>)
    show "set (?L t) = {r. getTarget s' r = Inr (Some t)}" using ref_ok_target_iff [OF s'(2)] by blast
  qed
  then show ?thesis using s'(1) by (auto simp: Let_def)
qed

end

section \<open>Properties\<close>

text \<open>
  C19. References and lists agree.  For map, grid, group and loot-roll references, starting in any world
  that keeps the invariant and for any sequence of \<^verbatim>\<open>link\<close>, \<^verbatim>\<open>unlink\<close> and \<^verbatim>\<open>clearReferences\<close> calls on
  live objects (\<^verbatim>\<open>unlink\<close> also on references that are not linked, as the destructors call it, and
  \<^verbatim>\<open>link\<close> also on references linked elsewhere): every call returns without following a null or
  dangling pointer, and afterwards the manager of every target lists exactly the references whose
  \<^verbatim>\<open>getTarget\<close> is that target, most recently linked first, and \<^verbatim>\<open>getSize\<close> is their number, whether the
  class counts its references or leaves the counting to the loop.
\<close>

theorem reference_lists_agree:
  assumes "(C, counted) \<in> {(MapReference, True), (GridReference, True), (GroupReference, False), (Roll_Reference, False)}"
    and "ref_ok counted L s"
    and "\<forall>op\<in>set ops. op_live (dom (rw_refs s)) (dom (rw_heads s)) op"
  shows "\<exists>s'. ref_run C ops s = Some (Inr s') \<and>
    (\<forall>t lh. rw_heads s' t = Some lh \<longrightarrow>
       (let xs = fold lists_spec ops L t in
        it_visits (it_incr (rw_heap s')) (ptr_of xs) [] = Some (Inr xs) \<and> getFirst (rw_heap s') lh = Inr (ptr_of xs) \<and>
        getSize (rw_heap s') lh = Some (Inr (of_nat (length xs))) \<and>
        set xs = {r. getTarget s' r = Inr (Some t)}))"
proof -
  from assms(1) consider "C = MapReference \<and> counted" | "C = GridReference \<and> counted"
    | "C = GroupReference \<and> \<not> counted" | "C = Roll_Reference \<and> \<not> counted" by auto
  then show ?thesis
  proof cases
    case 1
    then show ?thesis using map_refs.run_observed [of L s ops] assms(2,3) by simp
  next
    case 2
    then show ?thesis using grid_refs.run_observed [of L s ops] assms(2,3) by simp
  next
    case 3
    then show ?thesis using group_refs.run_observed [of L s ops] assms(2,3) by simp
  next
    case 4
    then show ?thesis using roll_refs.run_observed [of L s ops] assms(2,3) by simp
  qed
qed

text \<open>Two maps at the addresses 100 and 200 and two map references, not linked yet.\<close>

definition two_maps :: ref_world where
  "two_maps = \<lparr>rw_heap = snd (new_LinkedListHead 3 4 (snd (new_LinkedListHead 1 2
       [10 \<mapsto> new_LinkedListElement, 11 \<mapsto> new_LinkedListElement]))),
     rw_heads = [100 \<mapsto> \<lparr>iFirst = 1, iLast = 2, iSize = 0\<rparr>, 200 \<mapsto> \<lparr>iFirst = 3, iLast = 4, iSize = 0\<rparr>],
     rw_refs = [10 \<mapsto> new_Reference, 11 \<mapsto> new_Reference]\<rparr>"

lemma two_maps_ok: "ref_ok counted (\<lambda>_. []) two_maps"
proof -
  have "rw_inv (\<lambda>_. []) two_maps"
    by (rule rw_invI)
      (auto simp: two_maps_def new_LinkedListHead_def new_LinkedListElement_def dll_def nxt_def prv_def split: if_splits)
  then show ?thesis
    by (auto simp: ref_ok_def two_maps_def new_Reference_def split: if_splits)
qed

lemma two_maps_dom: "dom (rw_refs two_maps) = {10, 11}" "dom (rw_heads two_maps) = {100, 200}"
  by (auto simp: two_maps_def split: if_splits)

theorem reference_lists_agree_witness:
  "\<exists>s'. ref_run MapReference [Link 10 (Some 100) 7, Link 11 (Some 100) 8, Link 10 (Some 200) 7, Unlink 11, Link 11 (Some 200) 8] two_maps
      = Some (Inr s') \<and>
    (\<forall>lh. rw_heads s' 200 = Some lh \<longrightarrow> getSize (rw_heap s') lh = Some (Inr 2) \<and> getFirst (rw_heap s') lh = Inr (Some 11))"
  using reference_lists_agree [of MapReference True "\<lambda>_. []" two_maps
      "[Link 10 (Some 100) 7, Link 11 (Some 100) 8, Link 10 (Some 200) 7, Unlink 11, Link 11 (Some 200) 8]"]
    two_maps_ok [of True]
  by (fastforce simp: two_maps_dom lists_link_def lists_unlink_def Let_def)

text \<open>
  Destroying a target is safe: for each of the five reference classes, \<^verbatim>\<open>clearReferences\<close> on a live
  manager terminates, leaves its list empty and its \<^verbatim>\<open>getSize\<close> at zero, makes exactly the references
  that were linked to it invalid while they keep their \<^verbatim>\<open>getSource\<close>, and touches no other reference
  and no other list.
\<close>

theorem clearReferences_empties:
  assumes "(C, counted) \<in> {(MapReference, True), (GridReference, True), (GroupReference, False),
      (FollowerReference, False), (Roll_Reference, False)}"
    and "ref_ok counted L s" and "rw_heads s t \<noteq> None"
  shows "\<exists>s'. clearReferences C t s = Some (Inr s') \<and> ref_ok counted (L(t := [])) s' \<and>
    (\<forall>lh. rw_heads s' t = Some lh \<longrightarrow>
       ll_isEmpty (rw_heap s') lh = Inr True \<and> getSize (rw_heap s') lh = Some (Inr 0)) \<and>
    (\<forall>r. getSource s' r = getSource s r \<and>
       getTarget s' r = (if getTarget s r = Inr (Some t) then Inr None else getTarget s r))"
proof -
  from assms(1) consider "C = MapReference \<and> counted" | "C = GridReference \<and> counted"
    | "C = GroupReference \<and> \<not> counted" | "C = FollowerReference \<and> \<not> counted" | "C = Roll_Reference \<and> \<not> counted" by auto
  then obtain s' where s': "clearReferences C t s = Some (Inr s')" "ref_ok counted (L(t := [])) s'"
      "rw_refs s' = (\<lambda>r. if r \<in> set (L t) then map_option (\<lambda>x. x\<lparr>iRefTo := None\<rparr>) (rw_refs s r) else rw_refs s r)"
    using map_refs.clear_all [of L s t] grid_refs.clear_all [of L s t] group_refs.clear_all [of L s t]
      follower_refs.clear_all [of L s t] roll_refs.clear_all [of L s t] assms(2,3)
    by cases auto
  have "ll_isEmpty (rw_heap s') lh = Inr True \<and> getSize (rw_heap s') lh = Some (Inr 0)" if "rw_heads s' t = Some lh" for lh
  proof -
    have "dll (rw_heap s') lh []" using rw_invD(1) [of "L(t := [])" s' t lh] s'(2) that by (simp add: ref_ok_def)
    moreover have "iSize lh = 0" using s'(2) that by (auto simp: ref_ok_def split: if_splits)
    ultimately show ?thesis using dll_isEmpty dll_getSize by fastforce
  qed
  moreover have "getSource s' r = getSource s r \<and>
      getTarget s' r = (if getTarget s r = Inr (Some t) then Inr None else getTarget s r)" for r
    using s'(3) ref_ok_target_iff [OF assms(2), of r t]
    by (cases "rw_refs s r") (auto simp: getSource_def getTarget_def ref_at_def)
  ultimately show ?thesis using s' by blast
qed

theorem clearReferences_empties_witness:
  "\<exists>s s'. ref_link FollowerReference 10 (Some 100) (Some 7) two_maps = Inr s \<and> getTarget s 10 = Inr (Some 100) \<and>
     clearReferences FollowerReference 100 s = Some (Inr s') \<and> getTarget s' 10 = Inr None \<and> getSource s' 10 = Inr (Some 7)"
proof -
  obtain s where s: "ref_link FollowerReference 10 (Some 100) (Some 7) two_maps = Inr s"
      "ref_ok False (lists_link 10 100 (\<lambda>_. [])) s" "sentinels s = sentinels two_maps"
      "rw_refs s = (rw_refs two_maps)(10 \<mapsto> \<lparr>iRefTo = Some 100, iRefFrom = Some 7\<rparr>)"
    using follower_refs.link_any [OF two_maps_ok, of 10 new_Reference 100 7] by (auto simp: two_maps_def)
  have r: "getTarget s 10 = Inr (Some 100)" "getSource s 10 = Inr (Some 7)"
    by (simp_all add: getTarget_def getSource_def ref_at_def s(4))
  have "rw_heads s 100 \<noteq> None" using sentinels_live [OF s(3), of 100] by (simp add: two_maps_def)
  then obtain s' where "clearReferences FollowerReference 100 s = Some (Inr s')"
      "getSource s' 10 = getSource s 10" "getTarget s' 10 = (if getTarget s 10 = Inr (Some 100) then Inr None else getTarget s 10)"
    using clearReferences_empties [of FollowerReference False _ s 100] s(2) by blast
  then show ?thesis using s(1) r by auto
qed

end
