(* ===== verification/Map_Players.thy ===== *)
theory Map_Players
  imports References "HOL-Library.Sublist"
begin

text \<open>
  The players of a map: \<^verbatim>\<open>Player::SetMap\<close> and \<^verbatim>\<open>ResetMap\<close> (\<^verbatim>\<open>Player.cpp\<close>, \<^verbatim>\<open>Object.cpp\<close>),
  \<^verbatim>\<open>Map::UpdateIteratorBack\<close> and the two player loops of \<^verbatim>\<open>Map::Update\<close> (\<^verbatim>\<open>Map.cpp\<close>), whose
  iterator is a member of the map so that a player who leaves the map in the middle of a loop can
  step it back.  A player is known by the address of his \<^verbatim>\<open>m_mapRef\<close>, a map by its own address.
\<close>

section \<open>State\<close>

text \<open>
  \<open>mw_iter\<close> is the member \<^verbatim>\<open>m_mapRefIter\<close> and \<open>mw_worldObjects\<close> the set of world objects of each map,
  \<open>mw_ids\<close> its id and instance id; of each player \<open>mw_currMap\<close> is \<^verbatim>\<open>m_currMap\<close>, \<open>mw_place\<close> the members
  \<^verbatim>\<open>m_mapId\<close> and \<^verbatim>\<open>m_InstanceId\<close>, and \<open>mw_inWorld\<close> whether \<^verbatim>\<open>IsInWorld()\<close>.
\<close>

record map_world =
  mw_refs :: ref_world
  mw_iter :: "addr \<Rightarrow> ll_iterator"
  mw_worldObjects :: "addr \<Rightarrow> addr set"
  mw_ids :: "addr \<Rightarrow> u32 \<times> u32"
  mw_currMap :: "addr \<Rightarrow> addr option"
  mw_place :: "addr \<Rightarrow> u32 \<times> u32"
  mw_inWorld :: "addr \<Rightarrow> bool"

definition on_refs :: "(ref_world \<Rightarrow> ll_error + ref_world) \<Rightarrow> map_world \<Rightarrow> ll_error + map_world" where
  "on_refs f s = res_bind (f (mw_refs s)) (\<lambda>w. Inr (s\<lparr>mw_refs := w\<rparr>))"

section \<open>Entering and leaving a map\<close>

text \<open>A player is a permanent world object, so both branches on \<^verbatim>\<open>IsWorldObject()\<close> are taken.\<close>

definition WorldObject_SetMap :: "addr \<Rightarrow> addr option \<Rightarrow> map_world \<Rightarrow> ll_error + map_world" where
  "WorldObject_SetMap r m s =
     (case m of
        None \<Rightarrow> Inl AssertFailed
      | Some u \<Rightarrow>
          if mw_inWorld s r then Inl AssertFailed
          else if mw_currMap s r = Some u then Inr s
          else if mw_currMap s r \<noteq> None then Inl AssertFailed
          else Inr (s\<lparr>mw_currMap := (mw_currMap s)(r := Some u),
                      mw_place := (mw_place s)(r := mw_ids s u),
                      mw_worldObjects := (mw_worldObjects s)(u := insert r (mw_worldObjects s u))\<rparr>))"

definition WorldObject_ResetMap :: "addr \<Rightarrow> map_world \<Rightarrow> ll_error + map_world" where
  "WorldObject_ResetMap r s =
     (case mw_currMap s r of
        None \<Rightarrow> Inl AssertFailed
      | Some u \<Rightarrow>
          if mw_inWorld s r then Inl AssertFailed
          else Inr (s\<lparr>mw_worldObjects := (mw_worldObjects s)(u := mw_worldObjects s u - {r}),
                      mw_currMap := (mw_currMap s)(r := None)\<rparr>))"

definition GetMap :: "addr \<Rightarrow> map_world \<Rightarrow> ll_error + addr" where
  "GetMap r s = (case mw_currMap s r of None \<Rightarrow> Inl AssertFailed | Some u \<Rightarrow> Inr u)"

definition Map_UpdateIteratorBack :: "addr \<Rightarrow> addr \<Rightarrow> map_world \<Rightarrow> ll_error + map_world" where
  "Map_UpdateIteratorBack u r s =
     (if it_eq_reference (mw_iter s u) r
      then res_bind (nocheck_prev (rw_heap (mw_refs s)) (mw_iter s u)) (\<lambda>p.
             Inr (s\<lparr>mw_iter := (mw_iter s)(u := p)\<rparr>))
      else Inr s)"

definition Player_ResetMap :: "addr \<Rightarrow> map_world \<Rightarrow> ll_error + map_world" where
  "Player_ResetMap r s =
     res_bind (GetMap r s) (\<lambda>u.
     res_bind (Map_UpdateIteratorBack u r s) (\<lambda>s1.
     res_bind (WorldObject_ResetMap r s1) (\<lambda>s2.
     on_refs (ref_unlink MapReference r) s2)))"

text \<open>The source of a map reference is the player himself.\<close>

definition Player_SetMap :: "addr \<Rightarrow> addr option \<Rightarrow> map_world \<Rightarrow> ll_error + map_world" where
  "Player_SetMap r m s =
     res_bind (WorldObject_SetMap r m s) (on_refs (ref_link MapReference r m (Some r)))"

section \<open>The player loops of the map update\<close>

text \<open>
  What the update of a player or of his session does to the players of the maps: they leave maps,
  enter maps, and are added to and removed from the world.
\<close>

datatype map_op = ResetMap addr | SetMap addr addr | SetInWorld addr bool

fun map_exec :: "map_op \<Rightarrow> map_world \<Rightarrow> ll_error + map_world" where
  "map_exec (ResetMap r) s = Player_ResetMap r s"
| "map_exec (SetMap r u) s = Player_SetMap r (Some u) s"
| "map_exec (SetInWorld r b) s = Inr (s\<lparr>mw_inWorld := (mw_inWorld s)(r := b)\<rparr>)"

text \<open>
  \<open>acts\<close> stands for the updates: the operations the update of a player performs, which may depend on
  the whole state.  The loop collects the players it updates.
\<close>

definition loop_body :: "(addr \<Rightarrow> map_world \<Rightarrow> map_op list) \<Rightarrow> addr \<Rightarrow> map_world \<times> addr list \<Rightarrow>
    ll_error + map_world \<times> addr list" where
  "loop_body acts r st =
     (case st of (s, seen) \<Rightarrow>
        res_bind (getSource (mw_refs s) r) (\<lambda>player.
          case player of
            None \<Rightarrow> Inr (s, seen)
          | Some p \<Rightarrow>
              if mw_inWorld s p
              then res_bind (res_fold map_exec (acts p s) s) (\<lambda>s'. Inr (s', seen @ [p]))
              else Inr (s, seen)))"

partial_function (option) Map_Update_loop ::
  "(addr \<Rightarrow> map_world \<Rightarrow> map_op list) \<Rightarrow> addr \<Rightarrow> map_world \<times> addr list \<Rightarrow>
     (ll_error + map_world \<times> addr list) option" where
  "Map_Update_loop acts t st =
     (case mw_iter (fst st) t of
        None \<Rightarrow> Some (Inr st)
      | Some r \<Rightarrow>
          (case res_bind (loop_body acts r st) (\<lambda>(s', seen').
                  res_bind (it_incr (rw_heap (mw_refs s')) (mw_iter s' t)) (\<lambda>it.
                    Inr (s'\<lparr>mw_iter := (mw_iter s')(t := it)\<rparr>, seen'))) of
             Inl err \<Rightarrow> Some (Inl err)
           | Inr st' \<Rightarrow> Map_Update_loop acts t st'))"

declare Map_Update_loop.simps [code]

definition Map_Update_players ::
  "(addr \<Rightarrow> map_world \<Rightarrow> map_op list) \<Rightarrow> addr \<Rightarrow> map_world \<Rightarrow> (ll_error + map_world \<times> addr list) option" where
  "Map_Update_players acts t s =
     (case res_bind (head_at (mw_refs s) (Some t)) (getFirst (rw_heap (mw_refs s))) of
        Inl err \<Rightarrow> Some (Inl err)
      | Inr it \<Rightarrow> Map_Update_loop acts t (s\<lparr>mw_iter := (mw_iter s)(t := it)\<rparr>, []))"

section \<open>Reference pass\<close>

text \<open>
  The specification walks over a private copy of the player list and skips the players who have
  left the map by the time their turn comes.
\<close>

definition on_map :: "addr \<Rightarrow> map_world \<Rightarrow> addr \<Rightarrow> bool" where
  "on_map t s r = (getTarget (mw_refs s) r = Inr (Some t))"

function reference_pass :: "(addr \<Rightarrow> map_world \<Rightarrow> map_op list) \<Rightarrow> addr \<Rightarrow> addr list \<Rightarrow> map_world \<times> addr list \<Rightarrow>
    ll_error + map_world \<times> addr list" where
  "reference_pass acts t [] st = Inr st"
| "reference_pass acts t (r # rs) st =
     res_bind (loop_body acts r st) (\<lambda>st'. reference_pass acts t (filter (on_map t (fst st')) rs) st')"
  by pat_completeness auto
termination by (relation "measure (\<lambda>(acts, t, rs, st). length rs)") (auto simp: less_Suc_eq_le)

section \<open>The iterator survives the updates\<close>

definition hide :: "addr \<Rightarrow> map_world \<Rightarrow> map_world" where
  "hide t s = s\<lparr>mw_iter := (mw_iter s)(t := None)\<rparr>"

definition map_ok :: "(addr \<Rightarrow> addr list) \<Rightarrow> map_world \<Rightarrow> bool" where
  "map_ok L s = (ref_ok True L (mw_refs s) \<and>
     (\<forall>r. mw_currMap s r = (case rw_refs (mw_refs s) r of None \<Rightarrow> None | Some x \<Rightarrow> iRefTo x)) \<and>
     (\<forall>r x. rw_refs (mw_refs s) r = Some x \<longrightarrow> iRefTo x \<noteq> None \<longrightarrow> iRefFrom x = Some r))"

text \<open>
  \<open>cursor t L s rs\<close>: the iterator of the map \<open>t\<close> stands on a node of its list, an element or the
  first sentinel, and \<open>rs\<close> are the elements after that node.
\<close>

definition cursor :: "addr \<Rightarrow> (addr \<Rightarrow> addr list) \<Rightarrow> map_world \<Rightarrow> addr list \<Rightarrow> bool" where
  "cursor t L s rs = (\<exists>lh as p. rw_heads (mw_refs s) t = Some lh \<and>
     ll_nodes lh (L t) = as @ p # rs @ [iLast lh] \<and> mw_iter s t = Some p)"

lemma hide_simps [simp]:
  "mw_refs (hide t s) = mw_refs s" "mw_currMap (hide t s) = mw_currMap s" "mw_inWorld (hide t s) = mw_inWorld s"
  "mw_ids (hide t s) = mw_ids s" "mw_place (hide t s) = mw_place s" "mw_worldObjects (hide t s) = mw_worldObjects s"
  "mw_iter (hide t s) = (mw_iter s)(t := None)"
  by (simp_all add: hide_def)

lemma on_map_hide: "on_map t (hide t' s) = on_map t s"
  by (simp add: on_map_def fun_eq_iff)

lemma hide_inWorld: "(hide t s)\<lparr>mw_inWorld := f\<rparr> = hide t (s\<lparr>mw_inWorld := f\<rparr>)"
  by (simp add: hide_def)

lemma hide_same: "mw_iter s t = None \<Longrightarrow> hide t s = s"
  by (cases s) (auto simp: hide_def fun_upd_idem)

lemma cursor_next:
  assumes "map_ok L s" and "cursor t L s rs"
  shows "it_incr (rw_heap (mw_refs s)) (mw_iter s t) = Inr (ptr_of rs)"
proof -
  obtain lh as p where c: "rw_heads (mw_refs s) t = Some lh" "ll_nodes lh (L t) = as @ p # rs @ [iLast lh]"
    "mw_iter s t = Some p" using assms(2) by (auto simp: cursor_def)
  have d: "dll (rw_heap (mw_refs s)) lh (L t)"
    using assms(1) rw_invD(1) [of L "mw_refs s" t lh] c by (simp add: map_ok_def ref_ok_def)
  show ?thesis
  proof (cases as)
    case Nil
    then have "p = iFirst lh" "L t = rs" using c(2) by auto
    then show ?thesis using dll_sentinel_next [OF d] c(3) by (simp add: it_incr_def)
  next
    case (Cons a as')
    then have "L t = as' @ p # rs" using c(2) by auto
    then show ?thesis using dll_next [of _ lh as' p rs] d c(3) by (simp add: it_incr_def)
  qed
qed

lemma map_ok_valid:
  assumes "map_ok L s" and "mw_currMap s r = Some u"
  obtains x where "rw_refs (mw_refs s) r = Some x" and "iRefTo x = Some u"
  using assms by (auto simp: map_ok_def split: option.splits)

lemma map_ok_member: "map_ok L s \<Longrightarrow> r \<in> set (L t) \<longleftrightarrow> mw_currMap s r = Some t"
  using ref_ok_target_iff [of True L "mw_refs s" r t]
  by (auto simp: map_ok_def getTarget_def ref_at_def split: option.splits)

lemma ResetMap_hide:
  assumes "map_ok L s"
  shows "Player_ResetMap r (hide t s) = map_sum id (hide t) (Player_ResetMap r s)"
proof (cases "mw_currMap s r")
  case None
  then show ?thesis by (simp add: Player_ResetMap_def GetMap_def)
next
  case (Some u)
  obtain x where x: "rw_refs (mw_refs s) r = Some x" "iRefTo x = Some u" using map_ok_valid [OF assms Some] .
  have "rw_heap (mw_refs s) r \<noteq> None"
    using assms x rw_invD(5) [of L "mw_refs s" r] by (auto simp: map_ok_def ref_ok_def)
  then obtain n where n: "nocheck_prev (rw_heap (mw_refs s)) (Some r) = Inr n" by (simp add: nocheck_prev_eq)
  have ok: "ref_ok True L (mw_refs s)" using assms by (simp add: map_ok_def)
  obtain w where "ref_unlink MapReference r (mw_refs s) = Inr w" using map_refs.unlink_valid [OF ok x] by blast
  then show ?thesis
    using Some n by (auto simp: Player_ResetMap_def GetMap_def Map_UpdateIteratorBack_def it_eq_reference_def
        WorldObject_ResetMap_def on_refs_def hide_def fun_upd_twist)
qed

lemma SetMap_hide: "Player_SetMap r (Some u) (hide t s) = map_sum id (hide t) (Player_SetMap r (Some u) s)"
  by (cases "ref_link MapReference r (Some u) (Some r) (mw_refs s)")
    (auto simp: Player_SetMap_def WorldObject_SetMap_def on_refs_def hide_def)

lemma lists_unlink_removeAll: "ref_ok counted L w \<Longrightarrow> lists_unlink r L t = removeAll r (L t)"
  using ref_ok_distinct [of counted L w t] by (simp add: lists_unlink_def distinct_remove1_removeAll)

lemma sentinels_same:
  assumes "sentinels w' = sentinels w" and "rw_heads w t = Some lh"
  obtains lh' where "rw_heads w' t = Some lh'" and "iFirst lh' = iFirst lh" and "iLast lh' = iLast lh"
  using fun_cong [OF assms(1), of t] assms(2) that by (auto simp: sentinels_def)

text \<open>What a successful \<^verbatim>\<open>ResetMap\<close> leaves.\<close>

lemma ResetMap_cases:
  assumes ok: "map_ok L s" and r: "Player_ResetMap r s = Inr s'"
  obtains u w where "mw_currMap s r = Some u" and "rw_refs (mw_refs s) r \<noteq> None"
    and "ref_ok True (lists_unlink r L) w" and "mw_refs s' = w" and "sentinels w = sentinels (mw_refs s)"
    and "rw_refs w = (rw_refs (mw_refs s))(r \<mapsto> new_Reference)" and "mw_currMap s' = (mw_currMap s)(r := None)"
    and "\<And>t. mw_iter s' t = (if t = u \<and> mw_iter s u = Some r then prv (rw_heap (mw_refs s)) r else mw_iter s t)"
proof -
  obtain u where u: "mw_currMap s r = Some u" using r by (cases "mw_currMap s r") (auto simp: Player_ResetMap_def GetMap_def)
  obtain x where x: "rw_refs (mw_refs s) r = Some x" "iRefTo x = Some u" using map_ok_valid [OF ok u] .
  have ok': "ref_ok True L (mw_refs s)" using ok by (simp add: map_ok_def)
  obtain w where w: "ref_unlink MapReference r (mw_refs s) = Inr w" "ref_ok True (lists_unlink r L) w"
      "rw_refs w = (rw_refs (mw_refs s))(r \<mapsto> new_Reference)" "sentinels w = sentinels (mw_refs s)"
    using map_refs.unlink_valid [OF ok' x] by blast
  have "rw_heap (mw_refs s) r \<noteq> None" using rw_invD(5) [of L "mw_refs s" r] ok' x by (auto simp: ref_ok_def)
  then have "mw_refs s' = w \<and> mw_currMap s' = (mw_currMap s)(r := None) \<and>
      (\<forall>t. mw_iter s' t = (if t = u \<and> mw_iter s u = Some r then prv (rw_heap (mw_refs s)) r else mw_iter s t))"
    using r u w(1) by (auto simp: Player_ResetMap_def GetMap_def Map_UpdateIteratorBack_def it_eq_reference_def
        WorldObject_ResetMap_def on_refs_def nocheck_prev_eq split: if_splits)
  then show ?thesis using that [OF u _ w(2) _ w(4,3)] x by auto
qed

lemma ResetMap_map_ok:
  assumes "map_ok L s" and "Player_ResetMap r s = Inr s'"
  shows "map_ok (lists_unlink r L) s'"
  using assms by (rule ResetMap_cases) (use assms(1) in \<open>auto simp: map_ok_def new_Reference_def\<close>)

text \<open>Removing an element from the list, seen from the cursor.\<close>

lemma cursor_list_remove:
  assumes n: "ll_nodes lh xs = as @ p # rs @ [iLast lh]" and d: "distinct (ll_nodes lh xs)"
    and r: "r \<noteq> iFirst lh" "r \<noteq> iLast lh"
  shows "ll_nodes lh (removeAll r xs) =
    (if r = p then as else removeAll r as @ [p]) @ removeAll r rs @ [iLast lh]"
proof -
  have "ll_nodes lh (removeAll r xs) = removeAll r (ll_nodes lh xs)" using r by simp
  also have "\<dots> = removeAll r (as @ p # rs @ [iLast lh])" by (simp only: n)
  also have "\<dots> = (if r = p then as else removeAll r as @ [p]) @ removeAll r rs @ [iLast lh]"
    using d [unfolded n] r by auto
  finally show ?thesis .
qed

lemma ResetMap_cursor:
  assumes ok: "map_ok L s" and c: "cursor t L s rs" and r: "Player_ResetMap r s = Inr s'"
  shows "cursor t (lists_unlink r L) s' (removeAll r rs)"
  using ok r
proof (rule ResetMap_cases)
  fix u w
  assume u: "mw_currMap s r = Some u" and live: "rw_refs (mw_refs s) r \<noteq> None" and w: "mw_refs s' = w" "sentinels w = sentinels (mw_refs s)"
    and it: "\<And>t. mw_iter s' t = (if t = u \<and> mw_iter s u = Some r then prv (rw_heap (mw_refs s)) r else mw_iter s t)"
  obtain lh as p where c: "rw_heads (mw_refs s) t = Some lh" "ll_nodes lh (L t) = as @ p # rs @ [iLast lh]"
    "mw_iter s t = Some p" using c by (auto simp: cursor_def)
  have ok': "ref_ok True L (mw_refs s)" and inv: "rw_inv L (mw_refs s)" using ok by (simp_all add: map_ok_def ref_ok_def)
  note d = rw_invD(1) [OF inv c(1)]
  have ne: "r \<noteq> iFirst lh" "r \<noteq> iLast lh" using rw_invD(6) [OF inv live c(1)] by auto
  have n': "ll_nodes lh (lists_unlink r L t) = (if r = p then as else removeAll r as @ [p]) @ removeAll r rs @ [iLast lh]"
    using cursor_list_remove [OF c(2) _ ne] d unfolding lists_unlink_removeAll [OF ok'] by (simp add: dll_def)
  obtain lh' where lh': "rw_heads w t = Some lh'" "iFirst lh' = iFirst lh" "iLast lh' = iLast lh"
    using sentinels_same [OF w(2) c(1)] .
  show ?thesis
  proof (cases "r = p")
    case False
    then have "mw_iter s' t = Some p" using it [of t] c(3) by auto
    then show ?thesis unfolding cursor_def using False n' lh' w(1) by (intro exI [of _ lh'] exI [of _ "removeAll r as"] exI [of _ p]) simp
  next
    case True
    have "as \<noteq> []" using c(2) True ne(1) by (cases as) auto
    then obtain as' q where as: "as = as' @ [q]" by (cases as rule: rev_cases) auto
    have "r \<in> set (as @ p # rs @ [iLast lh])" using True by simp
    then have "r \<in> set (L t)" unfolding c(2) [symmetric] using ne by simp
    then have "t = u" using map_ok_member [OF ok, of r t] u by simp
    have "linked (rw_heap (mw_refs s)) (as' @ q # p # rs @ [iLast lh])" using d c(2) as by (simp add: dll_def)
    then have "prv (rw_heap (mw_refs s)) p = Some q" by (simp add: linked_split)
    then have "mw_iter s' t = Some q" using it [of t] c(3) True \<open>t = u\<close> by simp
    then show ?thesis unfolding cursor_def using True n' as lh' w(1) by (intro exI [of _ lh'] exI [of _ as'] exI [of _ q]) simp
  qed
qed

lemma ref_link_live:
  assumes "ref_ok True L w" and "ref_link MapReference r (Some u) (Some f) w = Inr w'"
  shows "rw_refs w r \<noteq> None" and "rw_heads w u \<noteq> None"
proof -
  show live: "rw_refs w r \<noteq> None" using assms(2) by (cases "rw_refs w r") (simp_all add: ref_link_def ref_isValid_def ref_at_def)
  then obtain x where x: "rw_refs w r = Some x" by auto
  let ?s1 = "if iRefTo x \<noteq> None then ref_unlink MapReference r w else Inr w"
  obtain w1 where w1: "?s1 = Inr w1" "sentinels w1 = sentinels w" "rw_refs w1 r \<noteq> None"
    using map_refs.unlink_any [OF assms(1) x] x by (cases "iRefTo x = None") auto
  show "rw_heads w u \<noteq> None"
  proof
    assume "rw_heads w u = None"
    then have "rw_heads w1 u = None" using sentinels_live [OF w1(2)] by blast
    then have "res_bind (ref_set (\<lambda>x. x\<lparr>iRefTo := Some u, iRefFrom := Some f\<rparr>) r w1) (targetObjectBuildLink MapReference r) = Inl Dangling"
      using w1(3) by (auto simp: ref_set_def ref_at_def ref_hooks)
    then show False
      using assms(2) x w1(1) by (auto simp: ref_link_def ref_isValid_def ref_at_def split: if_splits)
  qed
qed

lemma SetMap_cases:
  assumes ok: "map_ok L s" and r: "Player_SetMap r (Some u) s = Inr s'"
  obtains w where "mw_currMap s r = None \<or> mw_currMap s r = Some u"
    and "ref_ok True (lists_link r u L) w" and "mw_refs s' = w" and "sentinels w = sentinels (mw_refs s)"
    and "rw_refs w = (rw_refs (mw_refs s))(r \<mapsto> \<lparr>iRefTo = Some u, iRefFrom = Some r\<rparr>)"
    and "mw_currMap s' = (mw_currMap s)(r := Some u)" and "mw_iter s' = mw_iter s"
proof -
  have ok': "ref_ok True L (mw_refs s)" using ok by (simp add: map_ok_def)
  obtain w where w: "ref_link MapReference r (Some u) (Some r) (mw_refs s) = Inr w"
    "mw_currMap s r = None \<or> mw_currMap s r = Some u" "mw_refs s' = w"
    "mw_currMap s' = (mw_currMap s)(r := Some u)" "mw_iter s' = mw_iter s"
    using r by (cases "ref_link MapReference r (Some u) (Some r) (mw_refs s)")
      (auto simp: Player_SetMap_def WorldObject_SetMap_def on_refs_def fun_upd_idem split: if_splits)
  obtain x where "rw_refs (mw_refs s) r = Some x" using ref_link_live(1) [OF ok' w(1)] by auto
  from map_refs.link_any [OF ok' this ref_link_live(2) [OF ok' w(1)], of r] w(1)
  have "ref_ok True (lists_link r u L) w" "rw_refs w = (rw_refs (mw_refs s))(r \<mapsto> \<lparr>iRefTo = Some u, iRefFrom = Some r\<rparr>)"
    "sentinels w = sentinels (mw_refs s)" by auto
  then show ?thesis using that w by blast
qed

lemma SetMap_map_ok:
  assumes "map_ok L s" and "Player_SetMap r (Some u) s = Inr s'"
  shows "map_ok (lists_link r u L) s'"
  using assms by (rule SetMap_cases) (use assms(1) in \<open>auto simp: map_ok_def\<close>)

lemma SetMap_other_list:
  assumes "map_ok L s" and "Player_SetMap r (Some u) s = Inr s'" and "u \<noteq> t"
  shows "lists_link r u L t = L t"
proof -
  have "r \<notin> set (L t)" using SetMap_cases [OF assms(1,2)] map_ok_member [OF assms(1), of r t] assms(3) by (metis option.distinct(1) option.inject)
  then show ?thesis using assms(3) by (simp add: lists_link_def lists_unlink_def remove1_idem)
qed

lemma SetMap_cursor:
  assumes ok: "map_ok L s" and c: "cursor t L s rs" and r: "Player_SetMap r (Some u) s = Inr s'" and "u \<noteq> t"
  shows "cursor t (lists_link r u L) s' rs"
proof -
  obtain lh as p where n: "rw_heads (mw_refs s) t = Some lh" "ll_nodes lh (L t) = as @ p # rs @ [iLast lh]"
    "mw_iter s t = Some p" using c by (auto simp: cursor_def)
  obtain lh' where "rw_heads (mw_refs s') t = Some lh'" "iFirst lh' = iFirst lh" "iLast lh' = iLast lh" "mw_iter s' = mw_iter s"
    using SetMap_cases [OF ok r] sentinels_same [OF _ n(1)] by metis
  then show ?thesis
    unfolding cursor_def SetMap_other_list [OF ok r assms(4)] using n by auto
qed

section \<open>The simulation\<close>

fun enters :: "addr \<Rightarrow> map_op \<Rightarrow> bool" where
  "enters t (SetMap r u) = (u = t)"
| "enters t _ = False"

definition stays :: "addr \<Rightarrow> map_world \<Rightarrow> map_world \<Rightarrow> bool" where
  "stays t s s' = (\<forall>r. mw_currMap s' r = Some t \<longrightarrow> mw_currMap s r = Some t)"

lemma cursor_set:
  assumes ok: "map_ok L s" and c: "cursor t L s rs"
  shows "set rs \<subseteq> set (L t)" and "distinct rs"
proof -
  obtain lh as p where n: "rw_heads (mw_refs s) t = Some lh" "ll_nodes lh (L t) = as @ p # rs @ [iLast lh]"
    using c by (auto simp: cursor_def)
  have d: "distinct (ll_nodes lh (L t))"
    using ok rw_invD(1) [of L "mw_refs s" t lh] n(1) by (simp add: map_ok_def ref_ok_def dll_def)
  then show "distinct rs" unfolding n(2) by simp
  have "L t = tl (as @ [p]) @ rs" using n(2) by (cases as) auto
  then show "set rs \<subseteq> set (L t)" by auto
qed

lemma exec_sim:
  assumes ok: "map_ok L s" and c: "cursor t L s rs" and op: "\<not> enters t op"
  shows "map_exec op (hide t s) = map_sum id (hide t) (map_exec op s)"
    and "map_exec op s = Inr s' \<Longrightarrow> \<exists>L'. map_ok L' s' \<and> cursor t L' s' (filter (on_map t s') rs) \<and> stays t s s'"
proof -
  show "map_exec op (hide t s) = map_sum id (hide t) (map_exec op s)"
    by (cases op) (simp_all add: ResetMap_hide [OF ok] SetMap_hide hide_inWorld)
  assume e: "map_exec op s = Inr s'"
  have keep: "filter (on_map t s') rs = filter (\<lambda>q. mw_currMap s' q = Some t) rs" if "map_ok L' s'" for L'
    using map_ok_member [OF that] ref_ok_target_iff [of True L' "mw_refs s'" _ t] that
    by (intro filter_cong) (auto simp: on_map_def map_ok_def)
  have on: "mw_currMap s q = Some t" if "q \<in> set rs" for q
    using cursor_set(1) [OF ok c] map_ok_member [OF ok, of q t] that by blast
  show "\<exists>L'. map_ok L' s' \<and> cursor t L' s' (filter (on_map t s') rs) \<and> stays t s s'"
  proof (cases op)
    case (ResetMap r)
    then have e: "Player_ResetMap r s = Inr s'" using e by simp
    note ok' = ResetMap_map_ok [OF ok e]
    obtain u where "mw_currMap s' = (mw_currMap s)(r := None)" using ResetMap_cases [OF ok e] by metis
    then have "filter (on_map t s') rs = removeAll r rs" "stays t s s'"
      using on by (auto simp: keep [OF ok'] removeAll_filter_not_eq stays_def intro!: filter_cong)
    then show ?thesis using ok' ResetMap_cursor [OF ok c e] by auto
  next
    case (SetMap r u)
    then have e: "Player_SetMap r (Some u) s = Inr s'" and ut: "u \<noteq> t" using e op by auto
    note ok' = SetMap_map_ok [OF ok e]
    obtain w where w: "mw_currMap s' = (mw_currMap s)(r := Some u)" "mw_currMap s r = None \<or> mw_currMap s r = Some u"
      using SetMap_cases [OF ok e] by metis
    then have "filter (on_map t s') rs = rs" "stays t s s'"
      using on ut by (auto simp: keep [OF ok'] stays_def filter_id_conv)
    then show ?thesis using ok' SetMap_cursor [OF ok c e ut] by auto
  next
    case (SetInWorld r b)
    then have s': "mw_refs s' = mw_refs s" "mw_currMap s' = mw_currMap s" "mw_iter s' = mw_iter s" using e by auto
    then have ok': "map_ok L s'" using ok by (simp add: map_ok_def)
    have "filter (on_map t s') rs = rs" "stays t s s'" using on s' by (auto simp: keep [OF ok'] stays_def filter_id_conv)
    moreover have "cursor t L s' rs" using c s' by (simp add: cursor_def)
    ultimately show ?thesis using ok' by auto
  qed
qed

lemma stays_trans: "stays t s s1 \<Longrightarrow> stays t s1 s2 \<Longrightarrow> stays t s s2"
  by (simp add: stays_def)

lemma stays_on_map:
  "map_ok L1 s1 \<Longrightarrow> map_ok L2 s2 \<Longrightarrow> stays t s1 s2 \<Longrightarrow>
     filter (on_map t s2) (filter (on_map t s1) rs) = filter (on_map t s2) rs"
  using map_ok_member [of L1 s1 _ t] map_ok_member [of L2 s2 _ t]
    ref_ok_target_iff [of True L1 "mw_refs s1" _ t] ref_ok_target_iff [of True L2 "mw_refs s2" _ t]
  by (auto simp: filter_filter on_map_def map_ok_def stays_def intro!: filter_cong)

lemma fold_sim:
  assumes "map_ok L s" and "cursor t L s rs" and "\<forall>op\<in>set ops. \<not> enters t op"
  shows "res_fold map_exec ops (hide t s) = map_sum id (hide t) (res_fold map_exec ops s) \<and>
    (\<forall>s'. res_fold map_exec ops s = Inr s' \<longrightarrow>
       (\<exists>L'. map_ok L' s' \<and> cursor t L' s' (filter (on_map t s') rs) \<and> stays t s s'))"
  using assms
proof (induction ops arbitrary: L s rs)
  case Nil
  have "filter (on_map t s) rs = rs"
    using cursor_set(1) [OF Nil(1,2)] ref_ok_target_iff [of True L "mw_refs s" _ t] Nil(1)
    by (auto simp: filter_id_conv on_map_def map_ok_def)
  then show ?case using Nil by (auto simp: stays_def)
next
  case (Cons op ops)
  have op: "\<not> enters t op" "\<forall>op\<in>set ops. \<not> enters t op" using Cons.prems(3) by auto
  note sim = exec_sim [OF Cons.prems(1,2) op(1)]
  show ?case
  proof (cases "map_exec op s")
    case (Inl e)
    then show ?thesis using sim(1) by simp
  next
    case (Inr s1)
    obtain L1 where L1: "map_ok L1 s1" "cursor t L1 s1 (filter (on_map t s1) rs)" "stays t s s1" using sim(2) [OF Inr] by blast
    note IH = Cons.IH [OF L1(1,2) op(2)]
    have "\<exists>L'. map_ok L' s' \<and> cursor t L' s' (filter (on_map t s') rs) \<and> stays t s s'"
      if "res_fold map_exec ops s1 = Inr s'" for s'
      using IH that stays_on_map [OF L1(1)] stays_trans [OF L1(3)] by metis
    then show ?thesis using IH Inr sim(1) by simp
  qed
qed

lemma subseq_distinct: "subseq ys xs \<Longrightarrow> distinct xs \<Longrightarrow> distinct ys \<and> set ys \<subseteq> set xs"
  by (induction rule: list_emb.induct) auto

text \<open>One turn of the loop, on the state with and without the iterator.\<close>

lemma body_sim:
  assumes acts: "\<forall>p s. acts p (hide t s) = acts p s" "\<forall>p s. \<forall>op\<in>set (acts p s). \<not> enters t op"
    and ok: "map_ok L s" and c: "cursor t L s qs" and r: "r \<in> set (L t)"
  shows "loop_body acts r (hide t s, seen) = map_sum id (map_prod (hide t) id) (loop_body acts r (s, seen)) \<and>
    (\<forall>s' seen'. loop_body acts r (s, seen) = Inr (s', seen') \<longrightarrow>
       (\<exists>L'. map_ok L' s' \<and> cursor t L' s' (filter (on_map t s') qs)) \<and> (seen' = seen \<or> seen' = seen @ [r]))"
proof -
  have "mw_currMap s r = Some t" using map_ok_member [OF ok, of r t] r by simp
  then obtain x where "rw_refs (mw_refs s) r = Some x" "iRefTo x = Some t" using map_ok_valid [OF ok] by blast
  then have src: "getSource (mw_refs s) r = Inr (Some r)" using ok by (auto simp: map_ok_def getSource_def ref_at_def)
  show ?thesis
  proof (cases "mw_inWorld s r")
    case True
    then show ?thesis
      using fold_sim [OF ok c, of "acts r s"] acts
      by (cases "res_fold map_exec (acts r s) s") (auto simp: loop_body_def src)
  next
    case False
    then show ?thesis using fold_sim [OF ok c, of "[]"] ok by (auto simp: loop_body_def src)
  qed
qed

lemma pass_sim:
  assumes acts: "\<forall>p s. acts p (hide t s) = acts p s" "\<forall>p s. \<forall>op\<in>set (acts p s). \<not> enters t op"
    and "map_ok L s" and "L t = us @ rs" and "rw_heads (mw_refs s) t \<noteq> None" and "mw_iter s t = ptr_of rs"
  shows "Map_Update_loop acts t (s, seen) = Some (reference_pass acts t rs (hide t s, seen)) \<and>
    (\<forall>s' seen'. reference_pass acts t rs (hide t s, seen) = Inr (s', seen') \<longrightarrow>
       (\<exists>ys. seen' = seen @ ys \<and> subseq ys rs))"
  using assms(3-6)
proof (induction rs arbitrary: L s us seen rule: length_induct)
  case (1 rs)
  show ?case
  proof (cases rs)
    case Nil
    then show ?thesis using 1(5) by (subst Map_Update_loop.simps) (simp add: hide_same)
  next
    case (Cons r qs)
    obtain lh where lh: "rw_heads (mw_refs s) t = Some lh" using 1(4) by auto
    have c: "cursor t L s qs"
      unfolding cursor_def using 1(3,5) Cons lh by (intro exI [of _ lh] exI [of _ "iFirst lh # us"] exI [of _ r]) simp
    have "r \<in> set (L t)" using 1(3) Cons by simp
    note body = body_sim [OF acts 1(2) c this, of seen]
    show ?thesis
    proof (cases "loop_body acts r (s, seen)")
      case (Inl e)
      then show ?thesis using Cons 1(5) body by (subst Map_Update_loop.simps) simp
    next
      case (Inr st)
      obtain s1 seen1 where st: "st = (s1, seen1)" by (cases st)
      let ?qs = "filter (on_map t s1) qs"
      obtain L1 where L1: "map_ok L1 s1" "cursor t L1 s1 ?qs" and seen1: "seen1 = seen \<or> seen1 = seen @ [r]"
        using body Inr st by blast
      let ?s2 = "s1\<lparr>mw_iter := (mw_iter s1)(t := ptr_of ?qs)\<rparr>"
      obtain lh1 as p where n: "rw_heads (mw_refs s1) t = Some lh1" "ll_nodes lh1 (L1 t) = as @ p # ?qs @ [iLast lh1]"
        using L1(2) by (auto simp: cursor_def)
      have "L1 t = tl (as @ [p]) @ ?qs" using n(2) by (cases as) auto
      moreover have "map_ok L1 ?s2" using L1(1) by (simp add: map_ok_def)
      moreover have "length ?qs < length rs" using Cons by (simp add: less_Suc_eq_le)
      ultimately have IH: "Map_Update_loop acts t (?s2, seen1) = Some (reference_pass acts t ?qs (hide t ?s2, seen1))"
          "\<forall>s' seen'. reference_pass acts t ?qs (hide t ?s2, seen1) = Inr (s', seen') \<longrightarrow> (\<exists>ys. seen' = seen1 @ ys \<and> subseq ys ?qs)"
        using 1(1) [rule_format, of ?qs L1 ?s2 "tl (as @ [p])" seen1] n(1) by simp_all
      have h: "hide t ?s2 = hide t s1" by (simp add: hide_def)
      have "Map_Update_loop acts t (s, seen) = Map_Update_loop acts t (?s2, seen1)"
        using Cons 1(5) Inr st cursor_next [OF L1] by (subst Map_Update_loop.simps) simp
      moreover have p: "reference_pass acts t rs (hide t s, seen) = reference_pass acts t ?qs (hide t s1, seen1)"
        using Cons body Inr st by (simp add: on_map_hide)
      moreover have "\<exists>ys. seen' = seen @ ys \<and> subseq ys rs"
        if run: "reference_pass acts t ?qs (hide t s1, seen1) = Inr (s', seen')" for s' seen'
      proof -
        obtain ys where ys: "seen' = seen1 @ ys" "subseq ys ?qs" using IH(2) run unfolding h by blast
        then have "subseq ys qs" using subseq_filter_left subseq_order.trans by blast
        then show ?thesis using seen1 ys(1) Cons by auto
      qed
      ultimately show ?thesis using IH(1) h by simp
    qed
  qed
qed

section \<open>Property\<close>

text \<open>
  C18. Players may leave a map while it is being updated.  Let the updates do anything to the players of
  all maps except putting someone on the map that is being updated, and let them not look at its
  iterator.  Then the loop over the in-list iterator returns, and it returns what a pass over a
  private copy of the player list returns that skips those who have left: the same final state, the
  same players updated in the same order, or the same failed assertion, and never a null or dangling
  pointer of its own.  The players updated form a subsequence of the list at the start, so nobody is
  updated twice.
\<close>

theorem map_update_loop_safe:
  assumes "\<forall>p s. acts p (hide t s) = acts p s" and "\<forall>p s. \<forall>op\<in>set (acts p s). \<not> enters t op"
    and "map_ok L s" and "rw_heads (mw_refs s) t \<noteq> None"
  shows "Map_Update_players acts t s = Some (reference_pass acts t (L t) (hide t s, [])) \<and>
    (\<forall>s' seen. reference_pass acts t (L t) (hide t s, []) = Inr (s', seen) \<longrightarrow> subseq seen (L t) \<and> distinct seen)"
proof -
  obtain lh where lh: "rw_heads (mw_refs s) t = Some lh" using assms(4) by auto
  have ok: "ref_ok True L (mw_refs s)" using assms(3) by (simp add: map_ok_def)
  have "dll (rw_heap (mw_refs s)) lh (L t)" using rw_invD(1) [of L "mw_refs s" t lh] ok lh by (simp add: ref_ok_def)
  then have "getFirst (rw_heap (mw_refs s)) lh = Inr (ptr_of (L t))" by (rule dll_getFirst)
  then have start: "Map_Update_players acts t s = Map_Update_loop acts t (s\<lparr>mw_iter := (mw_iter s)(t := ptr_of (L t))\<rparr>, [])"
    using lh by (simp add: Map_Update_players_def head_at_def)
  have h: "hide t (s\<lparr>mw_iter := (mw_iter s)(t := ptr_of (L t))\<rparr>) = hide t s" by (simp add: hide_def)
  have "map_ok L (s\<lparr>mw_iter := (mw_iter s)(t := ptr_of (L t))\<rparr>)" using assms(3) by (simp add: map_ok_def)
  from pass_sim [of acts t L "s\<lparr>mw_iter := (mw_iter s)(t := ptr_of (L t))\<rparr>" "[]" "L t" "[]", OF assms(1,2) this] assms start h
  show ?thesis using ref_ok_distinct [OF ok, of t] by (auto dest: subseq_distinct)
qed

text \<open>
  Two players on the map at 100; the update of either takes both off the map if they are not in
  the world any more, and the update of the first also removes him from the world.
\<close>

definition busy_map :: map_world where
  "busy_map = \<lparr>mw_refs = two_maps, mw_iter = (\<lambda>_. None), mw_worldObjects = (\<lambda>_. {}), mw_ids = (\<lambda>_. (0, 0)),
     mw_currMap = (\<lambda>_. None), mw_place = (\<lambda>_. (0, 0)), mw_inWorld = (\<lambda>_. False)\<rparr>"

lemma busy_map_ok: "map_ok (\<lambda>_. []) busy_map"
  using two_maps_ok [of True] by (auto simp: map_ok_def busy_map_def two_maps_def new_Reference_def split: option.splits if_splits)

lemma busy_map_entered:
  "\<not> isl (res_fold map_exec [SetMap 10 100, SetMap 11 100, SetInWorld 10 True, SetInWorld 11 True] busy_map)"
  by code_simp

lemma map_ok_SetInWorld: "map_ok L s \<Longrightarrow> map_ok L (s\<lparr>mw_inWorld := f\<rparr>)"
  by (simp add: map_ok_def)

theorem map_update_loop_safe_witness:
  "\<exists>s. res_fold map_exec [SetMap 10 100, SetMap 11 100, SetInWorld 10 True, SetInWorld 11 True] busy_map = Inr s \<and>
     Map_Update_players (\<lambda>p s. [SetInWorld p False, ResetMap p]) 100 s =
       Some (reference_pass (\<lambda>p s. [SetInWorld p False, ResetMap p]) 100 [11, 10] (hide 100 s, []))"
proof -
  obtain s where s: "res_fold map_exec [SetMap 10 100, SetMap 11 100, SetInWorld 10 True, SetInWorld 11 True] busy_map = Inr s"
    using busy_map_entered by (metis sum.collapse(2))
  then obtain s1 s2 where s12: "Player_SetMap 10 (Some 100) busy_map = Inr s1" "Player_SetMap 11 (Some 100) s1 = Inr s2"
      "s = s2\<lparr>mw_inWorld := (mw_inWorld s2)(10 := True, 11 := True)\<rparr>"
    by (auto simp: res_bind_Inr_iff)
  have ok: "map_ok (lists_link 11 100 (lists_link 10 100 (\<lambda>_. []))) s"
    unfolding s12(3) by (rule map_ok_SetInWorld) (rule SetMap_map_ok [OF SetMap_map_ok [OF busy_map_ok s12(1)] s12(2)])
  have L: "lists_link 11 100 (lists_link 10 100 (\<lambda>_. [])) 100 = [11, 10]" by (simp add: lists_link_def lists_unlink_def)
  then have "rw_heads (mw_refs s) 100 \<noteq> None"
    using ok rw_invD(2) [of "lists_link 11 100 (lists_link 10 100 (\<lambda>_. []))" "mw_refs s" 100] by (auto simp: map_ok_def ref_ok_def)
  from map_update_loop_safe [OF _ _ ok this, of "\<lambda>p s. [SetInWorld p False, ResetMap p]"]
  show ?thesis using s L by simp
qed

end
