(* ===== verification/Loot_Rolls.thy ===== *)
theory Loot_Rolls
  imports World_Model
begin

text \<open>
  Rolls of a group on the items of a loot: \<^verbatim>\<open>Roll\<close> and the loot functions of \<^verbatim>\<open>game/Groups/Group.cpp\<close> with the
  loot items of \<^verbatim>\<open>game/Loot/LootMgr.h\<close>.  A roll knows its loot by address as long as the loot is alive (the
  reference lists of \<open>References\<close> see to that).  The inventory of the players is a parameter type with the three
  functions the code calls; random numbers, new item guids, the item templates and which players are near or online
  are parameters as well.  Two accesses the code does not check are error values: the item slot of a roll, and the
  template of an item.
\<close>

section \<open>Data\<close>

datatype RollVote = PASS | NEED | GREED | DISENCHANT | NOT_EMITED_YET | NOT_VALID

fun vote_code :: "RollVote \<Rightarrow> u8" where
  "vote_code PASS = 0"
| "vote_code NEED = 1"
| "vote_code GREED = 2"
| "vote_code DISENCHANT = 3"
| "vote_code NOT_EMITED_YET = 4"
| "vote_code NOT_VALID = 5"

abbreviation ROLL_PASS :: u8 where "ROLL_PASS \<equiv> 0"
abbreviation ROLL_NEED :: u8 where "ROLL_NEED \<equiv> 1"
abbreviation ROLL_GREED :: u8 where "ROLL_GREED \<equiv> 2"
abbreviation ROLL_DISENCHANT :: u8 where "ROLL_DISENCHANT \<equiv> 3"
abbreviation MAX_ROLL_TYPE :: u8 where "MAX_ROLL_TYPE \<equiv> 4"

abbreviation ROLL_FLAG_TYPE_NEED :: u8 where "ROLL_FLAG_TYPE_NEED \<equiv> 0x02"
abbreviation ROLL_FLAG_TYPE_DISENCHANT :: u8 where "ROLL_FLAG_TYPE_DISENCHANT \<equiv> 0x08"
abbreviation ROLL_ALL_TYPE_NO_DISENCHANT :: u8 where "ROLL_ALL_TYPE_NO_DISENCHANT \<equiv> 0x07"

record loot_item =
  li_itemid :: u32
  li_randomSuffix :: u32
  li_randomPropertyId :: u32
  li_count :: u8
  li_allowedGUIDs :: "u32 list"
  li_is_looted :: bool
  li_is_blocked :: bool
  li_freeforall :: bool
  li_is_underthreshold :: bool

record loot =
  lo_items :: "loot_item list"
  lo_unlootedCount :: u8
  lo_PlayersLooting :: "u64 list"

text \<open>The columns of an item template that rolls look at.\<close>

record item_template =
  it_Quality :: u32
  it_DisenchantID :: u32
  it_RequiredDisenchantSkill :: u32
  it_Flags2 :: u32

record roll =
  r_itemGUID :: u64
  r_itemid :: u32
  r_itemRandomPropId :: u32
  r_itemRandomSuffix :: u32
  r_itemCount :: u8
  r_playerVote :: "(u64, RollVote) omap"
  r_totalPlayersRolling :: u8
  r_totalNeed :: u8
  r_totalGreed :: u8
  r_totalPass :: u8
  r_itemSlot :: u8
  r_rollVoteMask :: u8
  r_getLoot :: "nat option"

definition new_Roll :: "u64 \<Rightarrow> loot_item \<Rightarrow> roll" where
  "new_Roll guid li =
     \<lparr>r_itemGUID = guid, r_itemid = li_itemid li, r_itemRandomPropId = li_randomPropertyId li,
      r_itemRandomSuffix = li_randomSuffix li, r_itemCount = li_count li, r_playerVote = [],
      r_totalPlayersRolling = 0, r_totalNeed = 0, r_totalGreed = 0, r_totalPass = 0, r_itemSlot = 0,
      r_rollVoteMask = ROLL_ALL_TYPE_NO_DISENCHANT, r_getLoot = None\<rparr>"

definition r_isValid :: "roll \<Rightarrow> bool" where
  "r_isValid r = (r_getLoot r \<noteq> None)"

text \<open>
  \<open>re_FindPlayer g\<close>: \<^verbatim>\<open>ObjectAccessor::FindPlayer\<close> finds the player; \<open>re_GetSession g\<close>: he has a session.  \<open>re_urand n\<close> and \<open>re_newGUID n\<close> are
  the \<open>n\<close>-th results of \<^verbatim>\<open>urand(1, 100)\<close> and of \<^verbatim>\<open>GenerateLowGuid\<close>.  The item functions belong to the player's
  inventory.
\<close>

record 'i roll_env =
  re_FindPlayer :: "u64 \<Rightarrow> bool"
  re_GetSession :: "u64 \<Rightarrow> bool"
  re_urand :: "nat \<Rightarrow> u8"
  re_newGUID :: "nat \<Rightarrow> u64"
  re_template :: "u32 \<Rightarrow> item_template option"
  re_AllowedForPlayer :: "loot_item \<Rightarrow> u64 \<Rightarrow> bool"
  re_IsWithinDist :: "u64 \<Rightarrow> bool"
  re_PassOnGroupLoot :: "u64 \<Rightarrow> bool"
  re_CanStoreNewItem :: "'i \<Rightarrow> u64 \<Rightarrow> u32 \<Rightarrow> u8 \<Rightarrow> u8"
  re_StoreNewItem :: "u64 \<Rightarrow> loot_item \<Rightarrow> 'i \<Rightarrow> 'i"
  re_AutoStoreLoot :: "u64 \<Rightarrow> u32 \<Rightarrow> 'i \<Rightarrow> 'i"

definition re_online :: "'i roll_env \<Rightarrow> u64 \<Rightarrow> bool" where
  "re_online env g = (re_FindPlayer env g \<and> re_GetSession env g)"

record 'i roll_state =
  rs_RollId :: "roll list"
  rs_loots :: "nat \<rightharpoonup> loot"
  rs_dice :: nat
  rs_guids :: nat
  rs_inventory :: 'i

datatype roll_error = BadSlot | NoTemplate | DanglingLoot | IteratorInvalidated

datatype roll_effect =
    RSend u64 world_packet
  | RAchievement u64 string u32 u8
  | RStoreNewItem u64 loot_item
  | RAutoStoreLoot u64 u32
  | RSendEquipError u64 u8 u32
  | RGroupLootTimer u32

section \<open>Packets\<close>

abbreviation SMSG_LOOT_REMOVED :: u16 where "SMSG_LOOT_REMOVED \<equiv> 0x162"
abbreviation SMSG_LOOT_ALL_PASSED :: u16 where "SMSG_LOOT_ALL_PASSED \<equiv> 0x29E"
abbreviation SMSG_LOOT_ROLL_WON :: u16 where "SMSG_LOOT_ROLL_WON \<equiv> 0x29F"
abbreviation SMSG_LOOT_START_ROLL :: u16 where "SMSG_LOOT_START_ROLL \<equiv> 0x2A1"
abbreviation SMSG_LOOT_ROLL :: u16 where "SMSG_LOOT_ROLL \<equiv> 0x2A2"

definition send_voters :: "'i roll_env \<Rightarrow> (RollVote \<Rightarrow> bool) \<Rightarrow> world_packet \<Rightarrow> roll \<Rightarrow> roll_effect list" where
  "send_voters env P data r =
     map (\<lambda>e. RSend (fst e) data) (filter (\<lambda>e. re_online env (fst e) \<and> P (snd e)) (r_playerVote r))"

definition SendLootStartRoll :: "'i roll_env \<Rightarrow> u32 \<Rightarrow> u32 \<Rightarrow> roll \<Rightarrow> roll_effect list" where
  "SendLootStartRoll env CountDown mapid r =
     send_voters env (\<lambda>v. v = NOT_EMITED_YET)
       (wp_add [Out64 (r_itemGUID r), Out32 mapid, Out32 (ucast (r_totalPlayersRolling r)), Out32 (r_itemid r),
                Out32 (r_itemRandomSuffix r), Out32 (r_itemRandomPropId r), Out32 (ucast (r_itemCount r)),
                Out32 CountDown, Out8 (r_rollVoteMask r)] (new_WorldPacket SMSG_LOOT_START_ROLL)) r"

definition SendLootRoll :: "'i roll_env \<Rightarrow> u64 \<Rightarrow> u64 \<Rightarrow> u8 \<Rightarrow> u8 \<Rightarrow> roll \<Rightarrow> roll_effect list" where
  "SendLootRoll env SourceGuid TargetGuid RollNumber RollType r =
     send_voters env (\<lambda>v. v \<noteq> NOT_VALID)
       (wp_add [Out64 SourceGuid, Out32 0, Out64 TargetGuid, Out32 (r_itemid r), Out32 (r_itemRandomSuffix r),
                Out32 (r_itemRandomPropId r), Out8 RollNumber, Out8 RollType, Out8 0] (new_WorldPacket SMSG_LOOT_ROLL)) r"

definition SendLootRollWon :: "'i roll_env \<Rightarrow> u64 \<Rightarrow> u64 \<Rightarrow> u8 \<Rightarrow> u8 \<Rightarrow> roll \<Rightarrow> roll_effect list" where
  "SendLootRollWon env SourceGuid TargetGuid RollNumber RollType r =
     send_voters env (\<lambda>v. v \<noteq> NOT_VALID)
       (wp_add [Out64 SourceGuid, Out32 0, Out32 (r_itemid r), Out32 (r_itemRandomSuffix r), Out32 (r_itemRandomPropId r),
                Out64 TargetGuid, Out8 RollNumber, Out8 RollType] (new_WorldPacket SMSG_LOOT_ROLL_WON)) r"

definition SendLootAllPassed :: "'i roll_env \<Rightarrow> u32 \<Rightarrow> roll \<Rightarrow> roll_effect list" where
  "SendLootAllPassed env NumberOfPlayers r =
     send_voters env (\<lambda>v. v \<noteq> NOT_VALID)
       (wp_add [Out64 (r_itemGUID r), Out32 NumberOfPlayers, Out32 (r_itemid r), Out32 (r_itemRandomPropId r),
                Out32 (r_itemRandomSuffix r)] (new_WorldPacket SMSG_LOOT_ALL_PASSED)) r"

section \<open>Counting a roll\<close>

text \<open>\<^verbatim>\<open>Loot::NotifyItemRemoved\<close>: looters who are gone are dropped from the set.\<close>

definition NotifyItemRemoved :: "'i roll_env \<Rightarrow> u8 \<Rightarrow> loot \<Rightarrow> loot \<times> roll_effect list" where
  "NotifyItemRemoved env lootIndex lo =
     (lo\<lparr>lo_PlayersLooting := filter (re_FindPlayer env) (lo_PlayersLooting lo)\<rparr>,
      map (\<lambda>g. RSend g (wp_add [Out8 lootIndex] (new_WorldPacket SMSG_LOOT_REMOVED)))
        (filter (re_FindPlayer env) (lo_PlayersLooting lo)))"

definition loot_item_at :: "loot \<Rightarrow> u8 \<Rightarrow> roll_error + loot_item" where
  "loot_item_at lo slot = (if unat slot < length (lo_items lo) then Inr (lo_items lo ! unat slot) else Inl BadSlot)"

definition set_loot_item :: "u8 \<Rightarrow> loot_item \<Rightarrow> loot \<Rightarrow> loot" where
  "set_loot_item slot li lo = lo\<lparr>lo_items := (lo_items lo)[unat slot := li]\<rparr>"

definition put_loot :: "nat \<Rightarrow> loot \<Rightarrow> 'i roll_state \<Rightarrow> 'i roll_state" where
  "put_loot l lo st = st\<lparr>rs_loots := (rs_loots st)(l \<mapsto> lo)\<rparr>"

text \<open>The item is taken out of the loot: marked, announced, and not counted any more.\<close>

definition take_item :: "'i roll_env \<Rightarrow> u8 \<Rightarrow> loot_item \<Rightarrow> loot \<Rightarrow> loot \<times> roll_effect list" where
  "take_item env slot li lo =
     (let lo = set_loot_item slot (li\<lparr>li_is_looted := True\<rparr>) lo;
          (lo, es) = NotifyItemRemoved env slot lo
      in (lo\<lparr>lo_unlootedCount := lo_unlootedCount lo - 1\<rparr>, es))"

definition award_item :: "'i roll_env \<Rightarrow> u64 \<Rightarrow> roll \<Rightarrow> nat \<Rightarrow> loot \<Rightarrow> 'i roll_state \<Rightarrow>
    roll_error + 'i roll_state \<times> roll_effect list" where
  "award_item env g r l lo st =
     res_bind (loot_item_at lo (r_itemSlot r)) (\<lambda>li.
       let msg = re_CanStoreNewItem env (rs_inventory st) g (r_itemid r) (li_count li) in
       if msg = 0
       then let (lo', es) = take_item env (r_itemSlot r) li lo;
                li' = li\<lparr>li_is_looted := True\<rparr>
            in Inr ((put_loot l lo' st)\<lparr>rs_inventory := re_StoreNewItem env g li' (rs_inventory st)\<rparr>,
                    es @ [RStoreNewItem g li'])
       else Inr (put_loot l (set_loot_item (r_itemSlot r) (li\<lparr>li_is_blocked := False\<rparr>) lo) st,
                 [RSendEquipError g msg (r_itemid r)]))"

definition disenchant_item :: "'i roll_env \<Rightarrow> u64 \<Rightarrow> roll \<Rightarrow> nat \<Rightarrow> loot \<Rightarrow> 'i roll_state \<Rightarrow>
    roll_error + 'i roll_state \<times> roll_effect list" where
  "disenchant_item env g r l lo st =
     res_bind (loot_item_at lo (r_itemSlot r)) (\<lambda>li.
       let (lo', es) = take_item env (r_itemSlot r) li lo in
       case re_template env (r_itemid r) of
         None \<Rightarrow> Inl NoTemplate
       | Some pProto \<Rightarrow>
           Inr ((put_loot l lo' st)\<lparr>rs_inventory := re_AutoStoreLoot env g (it_DisenchantID pProto) (rs_inventory st)\<rparr>,
                es @ [RAutoStoreLoot g (it_DisenchantID pProto), RAchievement g ''CAST_SPELL'' 13262 0]))"

text \<open>
  The loop over the votes: everyone whose vote takes part draws a number, and the first to draw the highest
  number leads.  The accumulator is the number of draws, the leading number and player, and his vote.
\<close>

record draw =
  d_dice :: nat
  d_maxresul :: u8
  d_maxguid :: u64
  d_vote :: RollVote

fun draw_loop :: "'i roll_env \<Rightarrow> (RollVote \<Rightarrow> bool) \<Rightarrow> (RollVote \<Rightarrow> u8) \<Rightarrow> roll \<Rightarrow> (u64 \<times> RollVote) list \<Rightarrow> draw \<Rightarrow>
    draw \<times> roll_effect list" where
  "draw_loop env part typ r [] d = (d, [])"
| "draw_loop env part typ r ((g, v) # es) d =
     (if \<not> part v then draw_loop env part typ r es d
      else let randomN = re_urand env (d_dice d);
               d' = (if d_maxresul d < randomN then d\<lparr>d_maxguid := g, d_maxresul := randomN, d_vote := v\<rparr> else d);
               (d'', es') = draw_loop env part typ r es (d'\<lparr>d_dice := d_dice d + 1\<rparr>)
           in (d'', SendLootRoll env 0 g randomN (typ v) r @ es'))"

definition start_draw :: "roll \<Rightarrow> 'i roll_state \<Rightarrow> draw" where
  "start_draw r st = \<lparr>d_dice = rs_dice st, d_maxresul = 0, d_maxguid = fst (hd (r_playerVote r)), d_vote = NOT_VALID\<rparr>"

definition count_need :: "'i roll_env \<Rightarrow> roll \<Rightarrow> nat \<Rightarrow> loot \<Rightarrow> 'i roll_state \<Rightarrow>
    roll_error + 'i roll_state \<times> roll_effect list" where
  "count_need env r l lo st =
     (let (d, es) = draw_loop env (\<lambda>v. v = NEED) (\<lambda>_. ROLL_NEED) r (r_playerVote r) (start_draw r st);
          st = st\<lparr>rs_dice := d_dice d\<rparr>;
          won = SendLootRollWon env 0 (d_maxguid d) (d_maxresul d) ROLL_NEED r
      in if re_online env (d_maxguid d)
         then res_bind (award_item env (d_maxguid d) r l lo st) (\<lambda>(st', es').
                Inr (st', es @ won @ [RAchievement (d_maxguid d) ''ROLL_NEED_ON_LOOT'' (r_itemid r) (d_maxresul d)] @ es'))
         else Inr (st, es @ won))"

definition count_greed :: "'i roll_env \<Rightarrow> roll \<Rightarrow> nat \<Rightarrow> loot \<Rightarrow> 'i roll_state \<Rightarrow>
    roll_error + 'i roll_state \<times> roll_effect list" where
  "count_greed env r l lo st =
     (let (d, es) = draw_loop env (\<lambda>v. v = GREED \<or> v = DISENCHANT) vote_code r (r_playerVote r) (start_draw r st);
          st = st\<lparr>rs_dice := d_dice d\<rparr>;
          won = SendLootRollWon env 0 (d_maxguid d) (d_maxresul d) (vote_code (d_vote d)) r;
          ach = [RAchievement (d_maxguid d) ''ROLL_GREED_ON_LOOT'' (r_itemid r) (d_maxresul d)]
      in if \<not> re_online env (d_maxguid d) then Inr (st, es @ won)
         else res_bind (if d_vote d = GREED then award_item env (d_maxguid d) r l lo st
                        else if d_vote d = DISENCHANT then disenchant_item env (d_maxguid d) r l lo st
                        else Inr (st, []))
                (\<lambda>(st', es'). Inr (st', es @ won @ ach @ es')))"

definition count_passed :: "'i roll_env \<Rightarrow> u32 \<Rightarrow> roll \<Rightarrow> nat \<Rightarrow> loot \<Rightarrow> 'i roll_state \<Rightarrow>
    roll_error + 'i roll_state \<times> roll_effect list" where
  "count_passed env NumberOfPlayers r l lo st =
     res_bind (loot_item_at lo (r_itemSlot r)) (\<lambda>li.
       Inr (put_loot l (set_loot_item (r_itemSlot r) (li\<lparr>li_is_blocked := False\<rparr>) lo) st,
            SendLootAllPassed env NumberOfPlayers r))"

definition erase_roll :: "nat \<Rightarrow> 'i roll_state \<Rightarrow> 'i roll_state" where
  "erase_roll k st = st\<lparr>rs_RollId := take k (rs_RollId st) @ drop (Suc k) (rs_RollId st)\<rparr>"

text \<open>\<open>CountTheRoll\<close> gets its roll by the position of the iterator.\<close>

definition CountTheRoll :: "'i roll_env \<Rightarrow> nat \<Rightarrow> u32 \<Rightarrow> 'i roll_state \<Rightarrow>
    roll_error + 'i roll_state \<times> roll_effect list" where
  "CountTheRoll env k NumberOfPlayers st =
     (let r = rs_RollId st ! k in
      case r_getLoot r of
        None \<Rightarrow> Inr (erase_roll k st, [])
      | Some l \<Rightarrow>
          (case rs_loots st l of
             None \<Rightarrow> Inl DanglingLoot
           | Some lo \<Rightarrow>
               res_bind
                 (if 0 < r_totalNeed r
                  then if r_playerVote r \<noteq> [] then count_need env r l lo st else Inr (st, [])
                  else if 0 < r_totalGreed r
                  then if r_playerVote r \<noteq> [] then count_greed env r l lo st else Inr (st, [])
                  else count_passed env NumberOfPlayers r l lo st)
                 (\<lambda>(st', es). Inr (erase_roll k st', es))))"

section \<open>Voting\<close>

fun find_roll :: "u64 \<Rightarrow> roll list \<Rightarrow> nat option" where
  "find_roll guid [] = None"
| "find_roll guid (r # rs) =
     (if r_itemGUID r = guid \<and> r_isValid r then Some 0 else map_option Suc (find_roll guid rs))"

definition GetRoll :: "u64 \<Rightarrow> 'i roll_state \<Rightarrow> nat option" where
  "GetRoll guid st = find_roll guid (rs_RollId st)"

definition set_roll :: "nat \<Rightarrow> roll \<Rightarrow> 'i roll_state \<Rightarrow> 'i roll_state" where
  "set_roll k r st = st\<lparr>rs_RollId := (rs_RollId st)[k := r]\<rparr>"

text \<open>The switch over the choice; any other choice leaves the roll alone.\<close>

definition cast_vote :: "'i roll_env \<Rightarrow> u64 \<Rightarrow> u8 \<Rightarrow> roll \<Rightarrow> roll \<times> roll_effect list" where
  "cast_vote env g choice r =
     (if choice = ROLL_PASS
      then (r\<lparr>r_totalPass := r_totalPass r + 1, r_playerVote := omap_set g PASS (r_playerVote r)\<rparr>,
            SendLootRoll env 0 g 128 ROLL_PASS r)
      else if choice = ROLL_NEED
      then (r\<lparr>r_totalNeed := r_totalNeed r + 1, r_playerVote := omap_set g NEED (r_playerVote r)\<rparr>,
            SendLootRoll env 0 g 0 0 r)
      else if choice = ROLL_GREED
      then (r\<lparr>r_totalGreed := r_totalGreed r + 1, r_playerVote := omap_set g GREED (r_playerVote r)\<rparr>,
            SendLootRoll env 0 g 128 ROLL_GREED r)
      else if choice = ROLL_DISENCHANT
      then (r\<lparr>r_totalGreed := r_totalGreed r + 1, r_playerVote := omap_set g DISENCHANT (r_playerVote r)\<rparr>,
            SendLootRoll env 0 g 128 ROLL_DISENCHANT r)
      else (r, []))"

text \<open>The three 8-bit counters are added as integers, without wrapping.\<close>

definition votes_in :: "roll \<Rightarrow> bool" where
  "votes_in r = (unat (r_totalPlayersRolling r) \<le> unat (r_totalPass r) + unat (r_totalNeed r) + unat (r_totalGreed r))"

definition CountRollVote :: "'i roll_env \<Rightarrow> u64 \<Rightarrow> u64 \<Rightarrow> u32 \<Rightarrow> u8 \<Rightarrow> 'i roll_state \<Rightarrow>
    roll_error + 'i roll_state \<times> roll_effect list" where
  "CountRollVote env playerGUID guid NumberOfPlayers choice st =
     (case GetRoll guid st of
        None \<Rightarrow> Inr (st, [])
      | Some k \<Rightarrow>
          let r = rs_RollId st ! k in
          if omap_find (r_playerVote r) playerGUID = None then Inr (st, [])
          else case rs_loots st (the (r_getLoot r)) of
                 None \<Rightarrow> Inl DanglingLoot
               | Some lo \<Rightarrow>
                   if lo_items lo = [] then Inr (st, [])
                   else let (r', es) = cast_vote env playerGUID choice r;
                            st' = set_roll k r' st
                        in if votes_in r'
                           then res_bind (CountTheRoll env k NumberOfPlayers st') (\<lambda>(st'', es'). Inr (st'', es @ es'))
                           else Inr (st', es))"

text \<open>\<^verbatim>\<open>EndRoll\<close> starts over after every roll it counts.\<close>

partial_function (option) EndRoll_loop :: "'i roll_env \<Rightarrow> nat \<Rightarrow> u32 \<Rightarrow> nat \<Rightarrow> 'i roll_state \<Rightarrow> roll_effect list \<Rightarrow>
    (roll_error + 'i roll_state \<times> roll_effect list) option" where
  "EndRoll_loop env l members k st es =
     (if length (rs_RollId st) \<le> k then Some (Inr (st, es))
      else if r_getLoot (rs_RollId st ! k) = Some l
      then (case CountTheRoll env k members st of
              Inl err \<Rightarrow> Some (Inl err)
            | Inr r \<Rightarrow> EndRoll_loop env l members 0 (fst r) (es @ snd r))
      else EndRoll_loop env l members (k + 1) st es)"

declare EndRoll_loop.simps [code]

definition EndRoll :: "'i roll_env \<Rightarrow> nat \<Rightarrow> u32 \<Rightarrow> 'i roll_state \<Rightarrow> (roll_error + 'i roll_state \<times> roll_effect list) option" where
  "EndRoll env l members st = EndRoll_loop env l members 0 st []"

section \<open>A member leaves\<close>

definition leave_roll :: "u64 \<Rightarrow> RollVote \<Rightarrow> roll \<Rightarrow> roll" where
  "leave_roll guid v r =
     (let r = (if v = GREED \<or> v = DISENCHANT then r\<lparr>r_totalGreed := r_totalGreed r - 1\<rparr>
               else if v = NEED then r\<lparr>r_totalNeed := r_totalNeed r - 1\<rparr>
               else if v = PASS then r\<lparr>r_totalPass := r_totalPass r - 1\<rparr>
               else r);
          r = (if v \<noteq> NOT_VALID then r\<lparr>r_totalPlayersRolling := r_totalPlayersRolling r - 1\<rparr> else r)
      in r\<lparr>r_playerVote := omap_erase guid (r_playerVote r)\<rparr>)"

text \<open>
  The loop of \<^verbatim>\<open>RemoveMember\<close> over the rolls, from position \<open>k\<close> on; \<open>n\<close> positions are left.  Erasing a
  roll inside the loop would invalidate its iterator.
\<close>

fun leave_rolls :: "'i roll_env \<Rightarrow> u64 \<Rightarrow> u32 \<Rightarrow> nat \<Rightarrow> nat \<Rightarrow> 'i roll_state \<Rightarrow> roll_error + 'i roll_state \<times> roll_effect list" where
  "leave_rolls env guid members k 0 st = Inr (st, [])"
| "leave_rolls env guid members k (Suc n) st =
     (let r = rs_RollId st ! k in
      case omap_find (r_playerVote r) guid of
        None \<Rightarrow> leave_rolls env guid members (Suc k) n st
      | Some v \<Rightarrow>
          res_bind (CountRollVote env guid (r_itemGUID r) (members - 1) MAX_ROLL_TYPE (set_roll k (leave_roll guid v r) st)) (\<lambda>(st', es).
            if length (rs_RollId st') \<noteq> length (rs_RollId st) then Inl IteratorInvalidated
            else res_bind (leave_rolls env guid members (Suc k) n st') (\<lambda>(st'', es'). Inr (st'', es @ es'))))"

section \<open>Starting rolls\<close>

text \<open>The members of the group who may roll, in the order of the group's reference list.\<close>

fun add_voters :: "'i roll_env \<Rightarrow> loot_item \<Rightarrow> u64 list \<Rightarrow> roll \<Rightarrow> roll" where
  "add_voters env li [] r = r"
| "add_voters env li (g # gs) r =
     add_voters env li gs
       (if re_GetSession env g \<and> re_AllowedForPlayer env li g \<and> re_IsWithinDist env g
        then let r = r\<lparr>r_totalPlayersRolling := r_totalPlayersRolling r + 1\<rparr> in
             if re_PassOnGroupLoot env g
             then r\<lparr>r_playerVote := omap_set g PASS (r_playerVote r), r_totalPass := r_totalPass r + 1\<rparr>
             else r\<lparr>r_playerVote := omap_set g NOT_EMITED_YET (r_playerVote r)\<rparr>
        else r)"

definition broadcast_passes :: "'i roll_env \<Rightarrow> u64 \<Rightarrow> roll \<Rightarrow> roll_effect list" where
  "broadcast_passes env newitemGUID r =
     concat (map (\<lambda>e. SendLootRoll env newitemGUID (fst e) 128 ROLL_PASS r)
       (filter (\<lambda>e. re_online env (fst e) \<and> snd e = PASS) (r_playerVote r)))"

text \<open>What the two loot methods do differently, and what they read of the group and the looted object.\<close>

record loot_call =
  lc_need_before_greed :: bool
  lc_members :: "u64 list"
  lc_threshold :: u32
  lc_maxEnchantingLevel :: u32
  lc_mapId :: u32

definition vote_mask :: "loot_call \<Rightarrow> item_template \<Rightarrow> u8 \<Rightarrow> u8" where
  "vote_mask c item m =
     (let m = (if it_DisenchantID item \<noteq> 0 \<and> it_RequiredDisenchantSkill item \<le> lc_maxEnchantingLevel c
               then m OR ROLL_FLAG_TYPE_DISENCHANT else m)
      in if lc_need_before_greed c \<and> it_Flags2 item AND 0x100 \<noteq> 0 then m AND NOT ROLL_FLAG_TYPE_NEED else m)"

text \<open>The looted object is a creature or a game object, as in both callers; \<open>RGroupLootTimer\<close> sets its timer and looting group.\<close>

definition start_roll :: "'i roll_env \<Rightarrow> loot_call \<Rightarrow> nat \<Rightarrow> nat \<Rightarrow> loot_item \<Rightarrow> item_template \<Rightarrow> loot \<Rightarrow> 'i roll_state \<Rightarrow>
    roll_error + 'i roll_state \<times> roll_effect list" where
  "start_roll env c l k li item lo st =
     (let newitemGUID = re_newGUID env (rs_guids st);
          st = st\<lparr>rs_guids := rs_guids st + 1\<rparr>;
          r = add_voters env li (lc_members c) (new_Roll newitemGUID li)
      in if 0 < r_totalPlayersRolling r
         then let slot = of_nat k :: u8;
                  r = r\<lparr>r_getLoot := Some l, r_itemSlot := slot, r_rollVoteMask := vote_mask c item (r_rollVoteMask r)\<rparr>
              in res_bind (loot_item_at lo slot) (\<lambda>li'.
                   let lo' = set_loot_item slot (li'\<lparr>li_is_blocked := True\<rparr>) lo;
                       es = (if lc_need_before_greed c then broadcast_passes env newitemGUID r
                             else (if r_totalPass r \<noteq> 0 then broadcast_passes env newitemGUID r else []) @
                                  SendLootStartRoll env 60000 (lc_mapId c) r)
                   in Inr ((put_loot l lo' st)\<lparr>rs_RollId := rs_RollId st @ [r]\<rparr>, es @ [RGroupLootTimer 60000]))
         else Inr (st, []))"

fun loot_loop :: "'i roll_env \<Rightarrow> loot_call \<Rightarrow> nat \<Rightarrow> nat \<Rightarrow> nat \<Rightarrow> 'i roll_state \<Rightarrow> roll_error + 'i roll_state \<times> roll_effect list" where
  "loot_loop env c l k 0 st = Inr (st, [])"
| "loot_loop env c l k (Suc n) st =
     (case rs_loots st l of
        None \<Rightarrow> Inl DanglingLoot
      | Some lo \<Rightarrow>
          let li = lo_items lo ! k in
          res_bind
            (if li_freeforall li then Inr (st, [])
             else case re_template env (li_itemid li) of
                    None \<Rightarrow> if lc_need_before_greed c then Inl NoTemplate else Inr (st, [])
                  | Some item \<Rightarrow>
                      if lc_threshold c \<le> it_Quality item then start_roll env c l k li item lo st
                      else Inr (put_loot l (lo\<lparr>lo_items := (lo_items lo)[k := li\<lparr>li_is_underthreshold := True\<rparr>]\<rparr>) st, []))
            (\<lambda>(st', es). res_bind (loot_loop env c l (Suc k) n st') (\<lambda>(st'', es'). Inr (st'', es @ es'))))"

text \<open>\<^verbatim>\<open>Group::GroupLoot\<close> and \<^verbatim>\<open>Group::NeedBeforeGreed\<close>, according to \<open>lc_need_before_greed\<close>.\<close>

definition GroupLoot :: "'i roll_env \<Rightarrow> loot_call \<Rightarrow> nat \<Rightarrow> 'i roll_state \<Rightarrow> roll_error + 'i roll_state \<times> roll_effect list" where
  "GroupLoot env c l st =
     (case rs_loots st l of None \<Rightarrow> Inl DanglingLoot | Some lo \<Rightarrow> loot_loop env c l 0 (length (lo_items lo)) st)"

text \<open>\<^verbatim>\<open>Loot::clear\<close> empties the loot and invalidates the rolls on it.\<close>

definition Loot_clear :: "nat \<Rightarrow> 'i roll_state \<Rightarrow> 'i roll_state" where
  "Loot_clear l st =
     st\<lparr>rs_loots := (rs_loots st)(l \<mapsto> \<lparr>lo_items = [], lo_unlootedCount = 0, lo_PlayersLooting = []\<rparr>),
        rs_RollId := map (\<lambda>r. if r_getLoot r = Some l then r\<lparr>r_getLoot := None\<rparr> else r) (rs_RollId st)\<rparr>"

section \<open>The invariant\<close>

definition roll_ok :: "roll \<Rightarrow> bool" where
  "roll_ok r =
     (omap_ok (r_playerVote r) \<and>
      r_totalPass r = tally (\<lambda>v. v = PASS) (r_playerVote r) \<and>
      r_totalNeed r = tally (\<lambda>v. v = NEED) (r_playerVote r) \<and>
      r_totalGreed r = tally (\<lambda>v. v = GREED \<or> v = DISENCHANT) (r_playerVote r) \<and>
      r_totalPlayersRolling r = tally (\<lambda>_. True) (r_playerVote r) \<and>
      (\<forall>e\<in>set (r_playerVote r). snd e \<noteq> NOT_VALID))"

definition slot_ok :: "'i roll_state \<Rightarrow> roll \<Rightarrow> bool" where
  "slot_ok st r = (\<forall>l. r_getLoot r = Some l \<longrightarrow>
     (\<exists>lo. rs_loots st l = Some lo \<and> unat (r_itemSlot r) < length (lo_items lo)))"

definition rolls_ok :: "'i roll_env \<Rightarrow> 'i roll_state \<Rightarrow> bool" where
  "rolls_ok env st =
     ((\<forall>r\<in>set (rs_RollId st). roll_ok r \<and> slot_ok st r) \<and>
      distinct (map r_itemGUID (rs_RollId st)) \<and>
      set (map r_itemGUID (rs_RollId st)) \<subseteq> re_newGUID env ` {..<rs_guids st})"

lemma roll_ok_vote:
  assumes "roll_ok r" and "omap_find (r_playerVote r) g = Some NOT_EMITED_YET"
  shows "roll_ok (fst (cast_vote env g choice r))"
proof -
  have ok: "omap_ok (r_playerVote r)" using assms(1) by (simp add: roll_ok_def)
  note t = tally_set_hit [OF ok assms(2)]
  have "\<forall>e\<in>set (omap_set g v (r_playerVote r)). snd e \<noteq> NOT_VALID" if "v \<noteq> NOT_VALID" for v
    using omap_set_subset [of g v "r_playerVote r"] assms(1) that by (auto simp: roll_ok_def)
  then show ?thesis
    using assms(1) by (auto simp: cast_vote_def roll_ok_def t omap_ok_set)
qed

lemma omap_erase_subset: "set (omap_erase k m) \<subseteq> set m"
  by (auto simp: omap_erase_def)

lemma roll_ok_leave:
  assumes "roll_ok r" and "omap_find (r_playerVote r) g = Some v"
  shows "roll_ok (leave_roll g v r)"
proof -
  have ok: "omap_ok (r_playerVote r)" using assms(1) by (simp add: roll_ok_def)
  have "v \<noteq> NOT_VALID" using assms omap_find_iff [OF ok, of g v] by (auto simp: roll_ok_def)
  then show ?thesis
    using assms(1) omap_erase_subset [of g "r_playerVote r"]
    by (cases v) (auto simp: leave_roll_def roll_ok_def tally_erase [OF ok assms(2)] omap_ok_erase)
qed

lemma add_voters_ok:
  "roll_ok r \<Longrightarrow> distinct gs \<Longrightarrow> \<forall>g\<in>set gs. omap_find (r_playerVote r) g = None \<Longrightarrow> roll_ok (add_voters env li gs r)"
proof (induction gs arbitrary: r)
  case (Cons g gs)
  have ok: "omap_ok (r_playerVote r)" using Cons.prems by (simp add: roll_ok_def)
  note t = tally_set_new [OF ok, of g]
  have nv: "\<forall>e\<in>set (omap_set g v (r_playerVote r)). snd e \<noteq> NOT_VALID" if "v \<noteq> NOT_VALID" for v
    using omap_set_subset [of g v "r_playerVote r"] Cons.prems(1) that by (auto simp: roll_ok_def)
  show ?case
    unfolding add_voters.simps
    by (rule Cons.IH) (use Cons.prems nv in \<open>auto simp: roll_ok_def t omap_ok_set omap_find_set Let_def\<close>)
qed simp

text \<open>Counting a roll touches the loot's items in place; the rolls and the number of items stay.\<close>

definition loot_sizes :: "'i roll_state \<Rightarrow> nat \<Rightarrow> nat option" where
  "loot_sizes st l = map_option (\<lambda>lo. length (lo_items lo)) (rs_loots st l)"

definition roll_frame :: "'i roll_state \<Rightarrow> 'i roll_state \<Rightarrow> bool" where
  "roll_frame st st' = (rs_RollId st' = rs_RollId st \<and> rs_guids st' = rs_guids st \<and> loot_sizes st' = loot_sizes st)"

lemma roll_frame_refl [simp]: "roll_frame st st"
  by (simp add: roll_frame_def)

lemma roll_frame_put [intro]:
  "rs_loots st l = Some lo \<Longrightarrow> length (lo_items lo') = length (lo_items lo) \<Longrightarrow> roll_frame st (put_loot l lo' st)"
  by (auto simp: roll_frame_def put_loot_def loot_sizes_def fun_eq_iff)

lemma roll_frame_upd [simp]:
  "roll_frame st (st'\<lparr>rs_inventory := i\<rparr>) = roll_frame st st'"
  "roll_frame st (st'\<lparr>rs_dice := n\<rparr>) = roll_frame st st'"
  "roll_frame (st\<lparr>rs_dice := n\<rparr>) st' = roll_frame st st'"
  by (simp_all add: roll_frame_def loot_sizes_def fun_eq_iff)

lemma take_item_length: "take_item env slot li lo = (lo', es) \<Longrightarrow> length (lo_items lo') = length (lo_items lo)"
  by (auto simp: take_item_def NotifyItemRemoved_def set_loot_item_def Let_def)

lemma award_item_frame:
  "award_item env g r l lo st = Inr (st', es) \<Longrightarrow> rs_loots st l = Some lo \<Longrightarrow> roll_frame st st'"
  by (auto simp: award_item_def res_bind_Inr_iff Let_def set_loot_item_def intro!: roll_frame_put
      dest: take_item_length split: if_splits prod.splits)

lemma disenchant_item_frame:
  assumes "disenchant_item env g r l lo st = Inr (st', es)" and "rs_loots st l = Some lo"
  shows "roll_frame st st'"
proof -
  obtain li where li: "loot_item_at lo (r_itemSlot r) = Inr li"
    using assms(1) by (auto simp: disenchant_item_def res_bind_Inr_iff)
  obtain lo' es' where t: "take_item env (r_itemSlot r) li lo = (lo', es')" by fastforce
  obtain pProto where "re_template env (r_itemid r) = Some pProto"
    using assms(1) li t by (cases "re_template env (r_itemid r)") (auto simp: disenchant_item_def)
  then have "\<exists>i. st' = (put_loot l lo' st)\<lparr>rs_inventory := i\<rparr>"
    using assms(1) li t by (auto simp: disenchant_item_def)
  then show ?thesis using roll_frame_put [OF assms(2) take_item_length [OF t]] by auto
qed

lemma count_frames:
  assumes "rs_loots st l = Some lo"
  shows "count_need env r l lo st = Inr (st', es) \<Longrightarrow> roll_frame st st'"
    and "count_greed env r l lo st = Inr (st', es) \<Longrightarrow> roll_frame st st'"
    and "count_passed env N r l lo st = Inr (st', es) \<Longrightarrow> roll_frame st st'"
proof -
  have d: "rs_loots (st\<lparr>rs_dice := n\<rparr>) l = Some lo" for n using assms by simp
  show "count_need env r l lo st = Inr (st', es) \<Longrightarrow> roll_frame st st'"
    using award_item_frame [OF _ d] by (auto simp: count_need_def res_bind_Inr_iff Let_def split: prod.splits if_splits)
  show "count_greed env r l lo st = Inr (st', es) \<Longrightarrow> roll_frame st st'"
    using award_item_frame [OF _ d] disenchant_item_frame [OF _ d]
    by (auto simp: count_greed_def res_bind_Inr_iff Let_def split: prod.splits if_splits)
  show "count_passed env N r l lo st = Inr (st', es) \<Longrightarrow> roll_frame st st'"
    using assms by (auto simp: count_passed_def res_bind_Inr_iff set_loot_item_def intro!: roll_frame_put)
qed

lemma CountTheRoll_erases:
  assumes "CountTheRoll env k N st = Inr (st', es)"
  shows "\<exists>st1. roll_frame st st1 \<and> st' = erase_roll k st1"
proof (cases "r_getLoot (rs_RollId st ! k)")
  case None
  then show ?thesis using assms by (auto simp: CountTheRoll_def Let_def intro: exI [of _ st])
next
  case (Some l)
  then obtain lo where lo: "rs_loots st l = Some lo"
    using assms by (cases "rs_loots st l") (auto simp: CountTheRoll_def Let_def)
  let ?r = "rs_RollId st ! k"
  obtain st1 where c: "(if 0 < r_totalNeed ?r
        then if r_playerVote ?r \<noteq> [] then count_need env ?r l lo st else Inr (st, [])
        else if 0 < r_totalGreed ?r
        then if r_playerVote ?r \<noteq> [] then count_greed env ?r l lo st else Inr (st, [])
        else count_passed env N ?r l lo st) = Inr (st1, es)" and st': "st' = erase_roll k st1"
    using assms Some lo unfolding CountTheRoll_def Let_def by (auto simp only: option.case res_bind_Inr_iff split: prod.splits)
  have "roll_frame st st1" using c count_frames [OF lo] by (auto split: if_splits)
  then show ?thesis using st' by blast
qed

lemma roll_frame_slot: "roll_frame st st' \<Longrightarrow> slot_ok st' r = slot_ok st r"
proof -
  assume f: "roll_frame st st'"
  have "(\<exists>lo. rs_loots st' l = Some lo \<and> n < length (lo_items lo)) = (\<exists>lo. rs_loots st l = Some lo \<and> n < length (lo_items lo))" for l n
  proof -
    have "loot_sizes st' l = loot_sizes st l" using f by (simp add: roll_frame_def)
    then show ?thesis by (cases "rs_loots st l"; cases "rs_loots st' l") (auto simp: loot_sizes_def)
  qed
  then show ?thesis by (simp add: slot_ok_def)
qed

lemma erase_roll_slot [simp]: "slot_ok (erase_roll k st) r = slot_ok st r"
  by (simp add: slot_ok_def erase_roll_def)

lemma CountTheRoll_ok:
  assumes "rolls_ok env st" and "CountTheRoll env k N st = Inr (st', es)"
  shows "rolls_ok env st'"
proof -
  obtain st1 where f: "roll_frame st st1" and st': "st' = erase_roll k st1" using CountTheRoll_erases [OF assms(2)] by blast
  let ?rs = "rs_RollId st"
  have rs: "rs_RollId st' = take k ?rs @ drop (Suc k) ?rs" using f st' by (simp add: erase_roll_def roll_frame_def)
  have g: "rs_guids st' = rs_guids st" using f st' by (simp add: erase_roll_def roll_frame_def)
  have sub: "set (rs_RollId st') \<subseteq> set ?rs" unfolding rs by (auto dest: in_set_takeD in_set_dropD)
  have "map r_itemGUID (rs_RollId st') = take k (map r_itemGUID ?rs) @ drop (Suc k) (map r_itemGUID ?rs)"
    by (simp add: rs take_map drop_map)
  moreover have "distinct (take k ys @ drop (Suc k) ys)" if "distinct ys" for ys :: "u64 list"
    using that set_take_disj_set_drop_if_distinct [of ys k "Suc k"] by simp
  ultimately have "distinct (map r_itemGUID (rs_RollId st'))" using assms(1) by (simp add: rolls_ok_def)
  moreover have "slot_ok st' r = slot_ok st r" for r unfolding st' using roll_frame_slot [OF f] by simp
  ultimately show ?thesis using assms(1) sub g unfolding rolls_ok_def by (auto simp: image_subset_iff subset_iff)
qed

lemma find_roll_Some:
  "find_roll guid rs = Some k \<Longrightarrow> k < length rs \<and> r_itemGUID (rs ! k) = guid \<and> r_isValid (rs ! k)"
  by (induction guid rs arbitrary: k rule: find_roll.induct) (auto split: if_splits)

lemma map_update_same: "k < length xs \<Longrightarrow> f y = f (xs ! k) \<Longrightarrow> map f (xs[k := y]) = map f xs"
  by (metis list_update_id map_update nth_map)

lemma set_roll_ok:
  assumes "rolls_ok env st" and "k < length (rs_RollId st)" and "roll_ok r"
    and "r_itemGUID r = r_itemGUID (rs_RollId st ! k)" and "r_getLoot r = r_getLoot (rs_RollId st ! k)"
    and "r_itemSlot r = r_itemSlot (rs_RollId st ! k)"
  shows "rolls_ok env (set_roll k r st)"
proof -
  have guids: "map r_itemGUID ((rs_RollId st)[k := r]) = map r_itemGUID (rs_RollId st)"
    by (rule map_update_same [OF assms(2,4)])
  have "slot_ok st r"
    using assms nth_mem [OF assms(2)] by (auto simp: rolls_ok_def slot_ok_def)
  then have "\<forall>q\<in>set ((rs_RollId st)[k := r]). roll_ok q \<and> slot_ok st q"
    using assms(1,3) set_update_subset_insert [of "rs_RollId st" k r] by (auto simp: rolls_ok_def)
  then show ?thesis
    using assms(1) guids by (simp add: rolls_ok_def set_roll_def slot_ok_def del: list_update.simps map_update)
qed

lemma cast_vote_keeps:
  "r_itemGUID (fst (cast_vote env g choice r)) = r_itemGUID r"
  "r_getLoot (fst (cast_vote env g choice r)) = r_getLoot r"
  "r_itemSlot (fst (cast_vote env g choice r)) = r_itemSlot r"
  by (simp_all add: cast_vote_def)

lemma leave_roll_keeps:
  "r_itemGUID (leave_roll g v r) = r_itemGUID r" "r_getLoot (leave_roll g v r) = r_getLoot r"
  "r_itemSlot (leave_roll g v r) = r_itemSlot r" "r_playerVote (leave_roll g v r) = omap_erase g (r_playerVote r)"
  by (simp_all add: leave_roll_def Let_def)

text \<open>A vote, on the roll that \<^verbatim>\<open>GetRoll\<close> finds.\<close>

lemma CountRollVote_hit:
  assumes "rolls_ok env st" and "GetRoll guid st = Some k" and "omap_find (r_playerVote (rs_RollId st ! k)) g \<noteq> None"
  shows "CountRollVote env g guid N choice st =
    (let (r', es) = cast_vote env g choice (rs_RollId st ! k); st' = set_roll k r' st
     in if votes_in r' then res_bind (CountTheRoll env k N st') (\<lambda>(st'', es'). Inr (st'', es @ es')) else Inr (st', es))"
proof -
  have k: "k < length (rs_RollId st)" "r_isValid (rs_RollId st ! k)"
    using find_roll_Some assms(2) by (auto simp: GetRoll_def)
  then have "slot_ok st (rs_RollId st ! k)" using assms(1) nth_mem [OF k(1)] by (auto simp: rolls_ok_def)
  then obtain l lo where "r_getLoot (rs_RollId st ! k) = Some l" "rs_loots st l = Some lo"
      "unat (r_itemSlot (rs_RollId st ! k)) < length (lo_items lo)"
    using k(2) by (auto simp: slot_ok_def r_isValid_def)
  then show ?thesis using assms(2,3) by (auto simp: CountRollVote_def Let_def)
qed

definition first_vote :: "u64 \<Rightarrow> u64 \<Rightarrow> 'i roll_state \<Rightarrow> bool" where
  "first_vote g guid st =
     (case GetRoll guid st of None \<Rightarrow> True
      | Some k \<Rightarrow> omap_find (r_playerVote (rs_RollId st ! k)) g \<in> {None, Some NOT_EMITED_YET})"

lemma CountRollVote_ok:
  assumes ok: "rolls_ok env st" and v: "CountRollVote env g guid N choice st = Inr (st', es)" and f: "first_vote g guid st"
  shows "rolls_ok env st'"
proof (cases "GetRoll guid st")
  case None
  then show ?thesis using ok v by (simp add: CountRollVote_def)
next
  case (Some k)
  let ?r = "rs_RollId st ! k"
  show ?thesis
  proof (cases "omap_find (r_playerVote ?r) g")
    case None
    then show ?thesis using ok v Some by (simp add: CountRollVote_def)
  next
    case (Some vote)
    then have ny: "omap_find (r_playerVote ?r) g = Some NOT_EMITED_YET" using f \<open>GetRoll guid st = Some k\<close> by (simp add: first_vote_def)
    have k: "k < length (rs_RollId st)" using find_roll_Some \<open>GetRoll guid st = Some k\<close> by (auto simp: GetRoll_def)
    let ?st1 = "set_roll k (fst (cast_vote env g choice ?r)) st"
    have "roll_ok ?r" using ok nth_mem [OF k] by (auto simp: rolls_ok_def)
    then have "rolls_ok env ?st1"
      using set_roll_ok [OF ok k roll_ok_vote [OF _ ny]] cast_vote_keeps by metis
    moreover have "st' = ?st1 \<or> (\<exists>es'. CountTheRoll env k N ?st1 = Inr (st', es'))"
      using v CountRollVote_hit [OF ok \<open>GetRoll guid st = Some k\<close>, of g N choice] Some
      by (auto simp: Let_def res_bind_Inr_iff split: prod.splits if_splits)
    ultimately show ?thesis using CountTheRoll_ok by blast
  qed
qed

definition leave_one :: "u64 \<Rightarrow> roll \<Rightarrow> roll" where
  "leave_one guid r = (case omap_find (r_playerVote r) guid of None \<Rightarrow> r | Some v \<Rightarrow> leave_roll guid v r)"

text \<open>The call of \<^verbatim>\<open>CountRollVote\<close> finds the vote erased and returns at once.\<close>

lemma CountRollVote_after_leave:
  assumes "distinct (map r_itemGUID (rs_RollId st))" and "k < length (rs_RollId st)"
    and "omap_find (r_playerVote (rs_RollId st ! k)) g = None"
  shows "CountRollVote env g (r_itemGUID (rs_RollId st ! k)) N choice st = Inr (st, [])"
proof (cases "GetRoll (r_itemGUID (rs_RollId st ! k)) st")
  case (Some j)
  then have "j < length (rs_RollId st)" "r_itemGUID (rs_RollId st ! j) = r_itemGUID (rs_RollId st ! k)"
    using find_roll_Some by (auto simp: GetRoll_def)
  then have "j = k" using assms(1,2) by (simp add: distinct_conv_nth) (metis length_map nth_map)
  then show ?thesis using Some assms(3) by (simp add: CountRollVote_def)
qed (simp add: CountRollVote_def)

lemma leave_rolls_map:
  "distinct (map r_itemGUID (rs_RollId st)) \<Longrightarrow> k + n = length (rs_RollId st) \<Longrightarrow>
     leave_rolls env g members k n st =
       Inr (st\<lparr>rs_RollId := take k (rs_RollId st) @ map (leave_one g) (drop k (rs_RollId st))\<rparr>, [])"
proof (induction n arbitrary: k st)
  case (Suc n)
  let ?rs = "rs_RollId st"
  have k: "k < length ?rs" using Suc.prems by simp
  have split: "drop k ?rs = ?rs ! k # drop (Suc k) ?rs" using k by (simp add: Cons_nth_drop_Suc)
  show ?case
  proof (cases "omap_find (r_playerVote (?rs ! k)) g")
    case None
    then have "take (Suc k) ?rs @ map (leave_one g) (drop (Suc k) ?rs) = take k ?rs @ map (leave_one g) (drop k ?rs)"
      using k by (simp add: split take_Suc_conv_app_nth leave_one_def)
    then show ?thesis using None Suc.IH [of st "Suc k"] Suc.prems by (simp add: Let_def)
  next
    case (Some v)
    let ?r = "leave_roll g v (?rs ! k)"
    let ?st = "set_roll k ?r st"
    have d: "distinct (map r_itemGUID (rs_RollId ?st))"
      using Suc.prems(1) map_update_same [OF k, of r_itemGUID ?r] by (simp add: set_roll_def leave_roll_keeps del: map_update)
    have "CountRollVote env g (r_itemGUID (?rs ! k)) (members - 1) MAX_ROLL_TYPE ?st = Inr (?st, [])"
      using CountRollVote_after_leave [OF d, of k g] k
      by (simp add: set_roll_def leave_roll_keeps omap_find_erase)
    moreover have "take (Suc k) (?rs[k := ?r]) @ map (leave_one g) (drop (Suc k) (?rs[k := ?r])) =
        take k ?rs @ map (leave_one g) (drop k ?rs)"
      using k Some by (simp add: split take_Suc_conv_app_nth leave_one_def)
    ultimately show ?thesis
      using Some Suc.IH [OF d, of "Suc k"] Suc.prems by (simp add: Let_def set_roll_def)
  qed
qed simp

lemma leave_one_ok: "roll_ok r \<Longrightarrow> roll_ok (leave_one g r)"
  by (auto simp: leave_one_def roll_ok_leave split: option.split)

lemma leave_one_keeps:
  "r_itemGUID (leave_one g r) = r_itemGUID r" "r_getLoot (leave_one g r) = r_getLoot r" "r_itemSlot (leave_one g r) = r_itemSlot r"
  by (simp_all add: leave_one_def leave_roll_keeps split: option.split)

lemma rolls_ok_map:
  assumes "rolls_ok env st" and "\<And>r. roll_ok r \<Longrightarrow> roll_ok (f r)" and "\<And>r. r_itemGUID (f r) = r_itemGUID r"
    and "\<And>r. slot_ok st r \<Longrightarrow> slot_ok st' (f r)" and "rs_guids st' = rs_guids st" and "rs_RollId st' = map f (rs_RollId st)"
  shows "rolls_ok env st'"
proof -
  have "map r_itemGUID (rs_RollId st') = map r_itemGUID (rs_RollId st)" using assms(3,6) by simp
  moreover have "\<forall>r\<in>set (rs_RollId st'). roll_ok r \<and> slot_ok st' r"
    using assms(1,2,4,6) by (auto simp: rolls_ok_def)
  ultimately show ?thesis using assms(1,5) by (simp only: rolls_ok_def)
qed

lemma add_voters_keeps:
  "r_itemGUID (add_voters env li gs r) = r_itemGUID r"
  by (induction env li gs r rule: add_voters.induct) (simp_all add: Let_def)

lemma new_Roll_ok: "roll_ok (new_Roll guid li)"
  by (simp add: roll_ok_def new_Roll_def tally_def)

lemma rolls_ok_skip_guid: "rolls_ok env st \<Longrightarrow> rolls_ok env (st\<lparr>rs_guids := rs_guids st + 1\<rparr>)"
  by (auto simp: rolls_ok_def slot_ok_def)

lemma rolls_ok_loots:
  assumes "rolls_ok env st" and "loot_sizes st' = loot_sizes st" and "rs_RollId st' = rs_RollId st" and "rs_guids st' = rs_guids st"
  shows "rolls_ok env st'"
proof -
  have "slot_ok st' r = slot_ok st r" for r
    using roll_frame_slot [of st st'] assms(2-4) by (simp add: roll_frame_def)
  then show ?thesis using assms by (simp add: rolls_ok_def)
qed

lemma rolls_ok_append:
  assumes "rolls_ok env st" and "roll_ok r" and "slot_ok st r" and "r_itemGUID r = re_newGUID env (rs_guids st)"
    and "re_newGUID env (rs_guids st) \<notin> re_newGUID env ` {..<rs_guids st}"
  shows "rolls_ok env (st\<lparr>rs_guids := rs_guids st + 1, rs_RollId := rs_RollId st @ [r]\<rparr>)"
proof -
  have "r_itemGUID r \<notin> re_newGUID env ` {..<rs_guids st}" using assms(4,5) by simp
  then have "r_itemGUID r \<notin> set (map r_itemGUID (rs_RollId st))" using assms(1) by (auto simp: rolls_ok_def)
  then show ?thesis using assms by (auto simp: rolls_ok_def slot_ok_def)
qed

lemma loot_sizes_put:
  "rs_loots st l = Some lo \<Longrightarrow> length (lo_items lo') = length (lo_items lo) \<Longrightarrow> loot_sizes (put_loot l lo' st) = loot_sizes st"
  by (auto simp: loot_sizes_def put_loot_def fun_eq_iff)

lemma start_roll_ok:
  assumes ok: "rolls_ok env st" and fresh: "re_newGUID env (rs_guids st) \<notin> re_newGUID env ` {..<rs_guids st}"
    and lo: "rs_loots st l = Some lo"
    and mem: "distinct (lc_members c)" and s: "start_roll env c l k li item lo st = Inr (st', es)"
  shows "rolls_ok env st' \<and> loot_sizes st' = loot_sizes st"
proof -
  let ?guid = "re_newGUID env (rs_guids st)"
  let ?r = "add_voters env li (lc_members c) (new_Roll ?guid li)"
  let ?q = "?r\<lparr>r_getLoot := Some l, r_itemSlot := of_nat k, r_rollVoteMask := vote_mask c item (r_rollVoteMask ?r)\<rparr>"
  have r: "roll_ok ?r"
    by (rule add_voters_ok [OF new_Roll_ok mem]) (simp add: new_Roll_def)
  show ?thesis
  proof (cases "0 < r_totalPlayersRolling ?r")
    case True
    then obtain li' where li': "loot_item_at lo (of_nat k) = Inr li'"
      using s by (auto simp: start_roll_def Let_def res_bind_Inr_iff)
    let ?lo = "set_loot_item (of_nat k) (li'\<lparr>li_is_blocked := True\<rparr>) lo"
    have st': "st' = (put_loot l ?lo (st\<lparr>rs_guids := rs_guids st + 1\<rparr>))\<lparr>rs_RollId := rs_RollId st @ [?q]\<rparr>"
      using s True li' by (simp add: start_roll_def Let_def)
    have "roll_ok ?q" using r by (simp add: roll_ok_def)
    moreover have "slot_ok st ?q" using li' lo by (auto simp: slot_ok_def loot_item_at_def split: if_splits)
    moreover have "r_itemGUID ?q = ?guid" by (simp add: add_voters_keeps) (simp add: new_Roll_def)
    ultimately have a: "rolls_ok env (st\<lparr>rs_guids := rs_guids st + 1, rs_RollId := rs_RollId st @ [?q]\<rparr>)"
      using rolls_ok_append [OF ok _ _ _ fresh] by blast
    have sizes: "loot_sizes st' = loot_sizes st"
      using lo by (auto simp: st' loot_sizes_def put_loot_def set_loot_item_def fun_eq_iff)
    have "loot_sizes (st\<lparr>rs_guids := rs_guids st + 1, rs_RollId := rs_RollId st @ [?q]\<rparr>) = loot_sizes st"
      by (simp add: loot_sizes_def fun_eq_iff)
    then have "rolls_ok env st'"
      by (intro rolls_ok_loots [OF a]) (simp_all add: sizes, simp_all add: st' put_loot_def)
    then show ?thesis using sizes by simp
  next
    case False
    then have "st' = st\<lparr>rs_guids := rs_guids st + 1\<rparr>" using s by (auto simp: start_roll_def Let_def)
    then show ?thesis using rolls_ok_skip_guid [OF ok] by (simp add: loot_sizes_def fun_eq_iff)
  qed
qed

lemma res_bind_pairE:
  assumes "res_bind r (\<lambda>(a, b). f a b) = Inr y"
  obtains a b where "r = Inr (a, b)" and "f a b = Inr y"
  using assms by (cases r) (auto split: prod.splits)

lemma start_roll_guids: "start_roll env c l k li item lo st = Inr (st', es) \<Longrightarrow> rs_guids st' = rs_guids st + 1"
  by (auto simp: start_roll_def Let_def res_bind_Inr_iff put_loot_def split: if_splits)

text \<open>One iteration of the loop over the items.\<close>

lemma loot_loop_step:
  assumes "loot_loop env c l k (Suc n) st = Inr (st', es)"
  obtains lo st1 es1 es2 where "rs_loots st l = Some lo" and "loot_loop env c l (Suc k) n st1 = Inr (st', es2)"
    and "rs_guids st \<le> rs_guids st1"
    and "st1 = st \<or> st1 = put_loot l (lo\<lparr>lo_items := (lo_items lo)[k := (lo_items lo ! k)\<lparr>li_is_underthreshold := True\<rparr>]\<rparr>) st \<or>
         (rs_guids st1 = rs_guids st + 1 \<and> (\<exists>item. start_roll env c l k (lo_items lo ! k) item lo st = Inr (st1, es1)))"
proof -
  obtain lo where lo: "rs_loots st l = Some lo" using assms by (cases "rs_loots st l") auto
  let ?li = "lo_items lo ! k"
  let ?step = "if li_freeforall ?li then Inr (st, [])
     else case re_template env (li_itemid ?li) of
            None \<Rightarrow> if lc_need_before_greed c then Inl NoTemplate else Inr (st, [])
          | Some item \<Rightarrow>
              if lc_threshold c \<le> it_Quality item then start_roll env c l k ?li item lo st
              else Inr (put_loot l (lo\<lparr>lo_items := (lo_items lo)[k := ?li\<lparr>li_is_underthreshold := True\<rparr>]\<rparr>) st, [])"
  obtain st1 es1 es2 where step: "?step = Inr (st1, es1)" and rest: "loot_loop env c l (Suc k) n st1 = Inr (st', es2)"
    using assms unfolding loot_loop.simps Let_def lo option.case by (elim res_bind_pairE) simp
  have st1: "st1 = st \<or> st1 = put_loot l (lo\<lparr>lo_items := (lo_items lo)[k := ?li\<lparr>li_is_underthreshold := True\<rparr>]\<rparr>) st \<or>
      (rs_guids st1 = rs_guids st + 1 \<and> (\<exists>item. start_roll env c l k ?li item lo st = Inr (st1, es1)))"
    using step start_roll_guids by (auto split: if_splits option.splits)
  then have "rs_guids st \<le> rs_guids st1" by (auto simp: put_loot_def)
  then show ?thesis using that [OF lo rest _ st1] by blast
qed

lemma loot_loop_guids: "loot_loop env c l k n st = Inr (st', es) \<Longrightarrow> rs_guids st \<le> rs_guids st'"
proof (induction n arbitrary: k st es)
  case (Suc n)
  from Suc.prems show ?case by (rule loot_loop_step) (use Suc.IH in force)
qed simp

lemma loot_loop_ok:
  assumes mem: "distinct (lc_members c)"
  shows "rolls_ok env st \<Longrightarrow> loot_loop env c l k n st = Inr (st', es) \<Longrightarrow> inj_on (re_newGUID env) {..<rs_guids st'} \<Longrightarrow> rolls_ok env st'"
proof (induction n arbitrary: k st es)
  case (Suc n)
  from Suc.prems(2) obtain lo st1 es1 es2 where lo: "rs_loots st l = Some lo" and rest: "loot_loop env c l (Suc k) n st1 = Inr (st', es2)"
    and st1: "st1 = st \<or> st1 = put_loot l (lo\<lparr>lo_items := (lo_items lo)[k := (lo_items lo ! k)\<lparr>li_is_underthreshold := True\<rparr>]\<rparr>) st \<or>
         (rs_guids st1 = rs_guids st + 1 \<and> (\<exists>item. start_roll env c l k (lo_items lo ! k) item lo st = Inr (st1, es1)))"
    by (rule loot_loop_step)
  have under: "rolls_ok env (put_loot l (lo\<lparr>lo_items := (lo_items lo)[k := (lo_items lo ! k)\<lparr>li_is_underthreshold := True\<rparr>]\<rparr>) st)"
    by (rule rolls_ok_loots [OF Suc.prems(1) loot_sizes_put [OF lo]]) (simp_all add: put_loot_def)
  have started: "rolls_ok env st1"
    if "rs_guids st1 = rs_guids st + 1" and "start_roll env c l k (lo_items lo ! k) item lo st = Inr (st1, es1)" for item
  proof -
    have "Suc (rs_guids st) \<le> rs_guids st'" using that(1) loot_loop_guids [OF rest] by simp
    then have "re_newGUID env (rs_guids st) \<notin> re_newGUID env ` {..<rs_guids st}"
      using Suc.prems(3) by (fastforce dest: inj_onD)
    then show ?thesis using start_roll_ok [OF Suc.prems(1) _ lo mem that(2)] by blast
  qed
  have "rolls_ok env st1" using st1 Suc.prems(1) under started by blast
  then show ?case by (rule Suc.IH [OF _ rest Suc.prems(3)])
qed simp

lemma Loot_clear_ok: "rolls_ok env st \<Longrightarrow> rolls_ok env (Loot_clear l st)"
  by (erule rolls_ok_map [where f = "\<lambda>r. if r_getLoot r = Some l then r\<lparr>r_getLoot := None\<rparr> else r"])
    (auto simp: Loot_clear_def roll_ok_def slot_ok_def)

lemma new_loot_ok:
  "rolls_ok env st \<Longrightarrow> \<forall>r\<in>set (rs_RollId st). r_getLoot r \<noteq> Some l \<Longrightarrow> rolls_ok env (put_loot l lo st)"
  by (fastforce simp: rolls_ok_def slot_ok_def put_loot_def)

end
