(* ===== verification/Roll_Properties.thy ===== *)
theory Roll_Properties
  imports Loot_Rolls
begin

text \<open>
  What the rolls guarantee: the counters of a roll are exact as long as nobody votes twice, a roll ends with the last
  vote, the winner of a need roll is the one who drew the highest number, and the end of a loot's timer ends all its
  rolls.  Also what they do not guarantee: a second vote of the same player is counted again.
\<close>

section \<open>Ending the rolls of a loot\<close>

lemma rolls_ok_slot: "rolls_ok env st \<Longrightarrow> k < length (rs_RollId st) \<Longrightarrow> slot_ok st (rs_RollId st ! k)"
  by (auto simp: rolls_ok_def)

lemma CountTheRoll_errors:
  assumes ok: "slot_ok st (rs_RollId st ! k)" and e: "CountTheRoll env k N st = Inl err"
  shows "err = NoTemplate"
proof (cases "r_getLoot (rs_RollId st ! k)")
  case None
  then show ?thesis using e by (simp add: CountTheRoll_def Let_def)
next
  case (Some l)
  let ?r = "rs_RollId st ! k"
  obtain lo where lo: "rs_loots st l = Some lo" "unat (r_itemSlot ?r) < length (lo_items lo)"
    using ok Some by (auto simp: slot_ok_def)
  then have li: "\<exists>li. loot_item_at lo (r_itemSlot ?r) = Inr li" by (simp add: loot_item_at_def)
  have award: "\<exists>x. award_item env g ?r l lo s = Inr x" for g s
    using li by (auto simp: award_item_def Let_def split: prod.split)
  have dis: "disenchant_item env g ?r l lo s = Inl err' \<Longrightarrow> err' = NoTemplate" for g s err'
    using li by (auto simp: disenchant_item_def split: prod.splits option.splits)
  have need: "\<exists>x. count_need env ?r l lo st = Inr x"
  proof -
    obtain d es where d: "draw_loop env (\<lambda>v. v = NEED) (\<lambda>_. ROLL_NEED) ?r (r_playerVote ?r) (start_draw ?r st) = (d, es)"
      by fastforce
    obtain x where "award_item env (d_maxguid d) ?r l lo (st\<lparr>rs_dice := d_dice d\<rparr>) = Inr x" using award by blast
    then show ?thesis using d by (cases x) (simp add: count_need_def Let_def)
  qed
  have passed: "\<exists>x. count_passed env N ?r l lo st = Inr x"
    using li by (auto simp: count_passed_def)
  have greed: "count_greed env ?r l lo st = Inl err' \<Longrightarrow> err' = NoTemplate" for err'
  proof -
    assume a: "count_greed env ?r l lo st = Inl err'"
    obtain d es where d: "draw_loop env (\<lambda>v. v = GREED \<or> v = DISENCHANT) vote_code ?r (r_playerVote ?r) (start_draw ?r st) = (d, es)"
      by fastforce
    let ?s = "st\<lparr>rs_dice := d_dice d\<rparr>"
    have "disenchant_item env (d_maxguid d) ?r l lo ?s = Inl err'"
      using a d award [of "d_maxguid d" ?s]
      by (cases "disenchant_item env (d_maxguid d) ?r l lo ?s") (auto simp: count_greed_def Let_def split: if_splits prod.splits)
    then show ?thesis by (rule dis)
  qed
  let ?c = "if 0 < r_totalNeed ?r then if r_playerVote ?r \<noteq> [] then count_need env ?r l lo st else Inr (st, [])
     else if 0 < r_totalGreed ?r then if r_playerVote ?r \<noteq> [] then count_greed env ?r l lo st else Inr (st, [])
     else count_passed env N ?r l lo st"
  have "?c = Inl err"
    using e Some lo(1) unfolding CountTheRoll_def Let_def by (cases ?c) (auto split: prod.splits)
  then show ?thesis using need passed greed by (auto split: if_splits)
qed

definition ends_rolls_of :: "'i roll_env \<Rightarrow> nat \<Rightarrow> 'i roll_state \<Rightarrow> roll_error + 'i roll_state \<times> roll_effect list \<Rightarrow> bool" where
  "ends_rolls_of env l st res =
     (case res of
        Inl err \<Rightarrow> err = NoTemplate
      | Inr (st', es) \<Rightarrow> rs_RollId st' = filter (\<lambda>r. r_getLoot r \<noteq> Some l) (rs_RollId st) \<and> rolls_ok env st')"

lemma CountTheRoll_filter:
  assumes "CountTheRoll env k N st = Inr (st', es)" and "k < length (rs_RollId st)" and "r_getLoot (rs_RollId st ! k) = Some l"
  shows "length (rs_RollId st') < length (rs_RollId st)"
    and "filter (\<lambda>r. r_getLoot r \<noteq> Some l) (rs_RollId st') = filter (\<lambda>r. r_getLoot r \<noteq> Some l) (rs_RollId st)"
proof -
  have rs: "rs_RollId st' = take k (rs_RollId st) @ drop (Suc k) (rs_RollId st)"
    using CountTheRoll_erases [OF assms(1)] by (auto simp: erase_roll_def roll_frame_def)
  show "length (rs_RollId st') < length (rs_RollId st)" using assms(2) by (simp add: rs)
  show "filter (\<lambda>r. r_getLoot r \<noteq> Some l) (rs_RollId st') = filter (\<lambda>r. r_getLoot r \<noteq> Some l) (rs_RollId st)"
    using arg_cong [OF id_take_nth_drop [OF assms(2)], of "filter (\<lambda>r. r_getLoot r \<noteq> Some l)"] assms(3) by (simp add: rs)
qed

text \<open>The scan from \<open>k\<close>, given that every shorter list of rolls is dealt with.\<close>

lemma EndRoll_scan:
  assumes ok: "rolls_ok env st"
    and shorter: "\<And>st' es'. length (rs_RollId st') < length (rs_RollId st) \<Longrightarrow> rolls_ok env st' \<Longrightarrow>
      \<exists>res. EndRoll_loop env l members 0 st' es' = Some res \<and> ends_rolls_of env l st' res"
    and "k \<le> length (rs_RollId st)" and "\<forall>i<k. r_getLoot (rs_RollId st ! i) \<noteq> Some l"
  shows "\<exists>res. EndRoll_loop env l members k st es = Some res \<and> ends_rolls_of env l st res"
  using assms(3,4)
proof (induction "length (rs_RollId st) - k" arbitrary: k)
  case 0
  then have "filter (\<lambda>r. r_getLoot r \<noteq> Some l) (rs_RollId st) = rs_RollId st"
    by (auto simp: filter_id_conv in_set_conv_nth)
  then show ?case using 0 ok by (subst EndRoll_loop.simps) (simp add: ends_rolls_of_def)
next
  case (Suc n)
  then have k: "k < length (rs_RollId st)" by simp
  show ?case
  proof (cases "r_getLoot (rs_RollId st ! k) = Some l")
    case True
    show ?thesis
    proof (cases "CountTheRoll env k members st")
      case (Inl err)
      then have "EndRoll_loop env l members k st es = Some (Inl err)" using True k by (subst EndRoll_loop.simps) simp
      then show ?thesis using CountTheRoll_errors [OF rolls_ok_slot [OF ok k] Inl] by (simp add: ends_rolls_of_def)
    next
      case (Inr y)
      obtain st' es' where y: "y = (st', es')" by fastforce
      note c = Inr [unfolded y]
      have "EndRoll_loop env l members k st es = EndRoll_loop env l members 0 st' (es @ es')"
        using True k c by (subst EndRoll_loop.simps) simp
      moreover obtain res where "EndRoll_loop env l members 0 st' (es @ es') = Some res" "ends_rolls_of env l st' res"
        using shorter [OF CountTheRoll_filter(1) [OF c k True] CountTheRoll_ok [OF ok c]] by blast
      ultimately show ?thesis using CountTheRoll_filter(2) [OF c k True]
        by (auto simp: ends_rolls_of_def split: sum.splits)
    qed
  next
    case False
    then have "EndRoll_loop env l members k st es = EndRoll_loop env l members (k + 1) st es"
      using k by (subst EndRoll_loop.simps) simp
    then show ?thesis using Suc.hyps(1) [of "k + 1"] Suc.hyps(2) Suc.prems False k by (auto simp: less_Suc_eq)
  qed
qed

lemma EndRoll_loop_returns:
  "rolls_ok env st \<Longrightarrow> \<exists>res. EndRoll_loop env l members 0 st es = Some res \<and> ends_rolls_of env l st res"
proof (induction "length (rs_RollId st)" arbitrary: st es rule: less_induct)
  case less
  show ?case by (rule EndRoll_scan [OF less.prems less.hyps]) simp_all
qed

lemma EndRoll_ok: "rolls_ok env st \<Longrightarrow> EndRoll env l members st = Some (Inr (st', es)) \<Longrightarrow> rolls_ok env st'"
  using EndRoll_loop_returns [of env st l members "[]"] by (auto simp: EndRoll_def ends_rolls_of_def)

section \<open>The end of a roll\<close>

text \<open>With exact counters, all votes are in when every player on the roll has voted.\<close>

lemma roll_partition:
  assumes "\<forall>e\<in>set (m :: (u64 \<times> RollVote) list). snd e \<noteq> NOT_VALID"
  shows "length m = length (filter (\<lambda>e. snd e = PASS) m) + length (filter (\<lambda>e. snd e = NEED) m) +
     length (filter (\<lambda>e. snd e = GREED \<or> snd e = DISENCHANT) m) + length (filter (\<lambda>e. snd e = NOT_EMITED_YET) m)"
  using assms
proof (induction m)
  case (Cons e m)
  then show ?case by (cases "snd e") auto
qed simp

lemma tally_unat: "length m < 256 \<Longrightarrow> unat (tally P m :: u8) = length (filter (\<lambda>e. P (snd e)) m)"
  using length_filter_le [of "\<lambda>e. P (snd e)" m] by (simp add: tally_def unat_of_nat del: length_filter_le)

lemma votes_in_iff:
  assumes "roll_ok r" and "length (r_playerVote r) < 256"
  shows "votes_in r \<longleftrightarrow> (\<forall>e\<in>set (r_playerVote r). snd e \<noteq> NOT_EMITED_YET)"
proof -
  have "votes_in r \<longleftrightarrow> length (filter (\<lambda>e. snd e = NOT_EMITED_YET) (r_playerVote r)) = 0"
    using assms roll_partition [of "r_playerVote r"] by (auto simp: votes_in_def roll_ok_def tally_unat)
  then show ?thesis by (simp add: filter_empty_conv)
qed

lemma word_less_four: "(c :: u8) < 4 \<Longrightarrow> c = 0 \<or> c = 1 \<or> c = 2 \<or> c = 3"
proof -
  assume "c < 4"
  then have "unat c \<in> {0, 1, 2, 3}" by (auto simp: word_less_nat_alt)
  then have "unat c = unat (0 :: u8) \<or> unat c = unat (1 :: u8) \<or> unat c = unat (2 :: u8) \<or> unat c = unat (3 :: u8)" by auto
  then show ?thesis by (simp only: word_unat_eq_iff)
qed

lemma cast_vote_map:
  assumes "choice < MAX_ROLL_TYPE"
  shows "\<exists>v. v \<noteq> NOT_EMITED_YET \<and> r_playerVote (fst (cast_vote env g choice r)) = omap_set g v (r_playerVote r)"
proof -
  have "choice = 0 \<or> choice = 1 \<or> choice = 2 \<or> choice = 3"
    using assms by (intro word_less_four) simp
  then show ?thesis by (auto simp: cast_vote_def)
qed

section \<open>The winner\<close>

lemma draw_loop_leads:
  assumes "draw_loop env part tp r es d = (d', out)" and "ps = filter (\<lambda>e. part (snd e)) es"
  shows "d_dice d' = d_dice d + length ps \<and>
    d_maxresul d \<le> d_maxresul d' \<and> (\<forall>j<length ps. re_urand env (d_dice d + j) \<le> d_maxresul d') \<and>
    (d_maxresul d < d_maxresul d' \<longrightarrow>
      (\<exists>i<length ps. ps ! i = (d_maxguid d', d_vote d') \<and> d_maxresul d' = re_urand env (d_dice d + i) \<and>
         (\<forall>j<i. re_urand env (d_dice d + j) < d_maxresul d'))) \<and>
    (d_maxresul d' = d_maxresul d \<longrightarrow> d_maxguid d' = d_maxguid d \<and> d_vote d' = d_vote d)"
  using assms
proof (induction env part tp r es d arbitrary: d' out ps rule: draw_loop.induct)
  case (2 env part tp r g v es d)
  show ?case
  proof (cases "part v")
    case False
    then show ?thesis using "2.IH"(1) [OF False, of d' out ps] "2.prems" by simp
  next
    case True
    let ?n = "re_urand env (d_dice d)"
    let ?d = "if d_maxresul d < ?n then d\<lparr>d_maxguid := g, d_maxresul := ?n, d_vote := v\<rparr> else d"
    obtain out' where l: "draw_loop env part tp r es (?d\<lparr>d_dice := d_dice d + 1\<rparr>) = (d', out')"
      using "2.prems"(1) True by (auto simp: Let_def split: prod.splits)
    define qs where "qs = filter (\<lambda>e. part (snd e)) es"
    have ps: "ps = (g, v) # qs" using "2.prems"(2) True by (simp add: qs_def)
    note IH = "2.IH"(2) [OF _ refl refl l qs_def, simplified True, simplified]
    have dice: "d_dice d' = d_dice d + length ps" using IH by (simp add: ps)
    have m: "d_maxresul d \<le> d_maxresul ?d" "?n \<le> d_maxresul ?d" by auto
    have m': "d_maxresul ?d \<le> d_maxresul d'" using IH by simp
    have all: "re_urand env (d_dice d + j) \<le> d_maxresul d'" if "j < length ps" for j
      using that IH m(2) m' by (cases j) (auto simp: ps)
    have lead: "\<exists>i<length ps. ps ! i = (d_maxguid d', d_vote d') \<and> d_maxresul d' = re_urand env (d_dice d + i) \<and>
        (\<forall>j<i. re_urand env (d_dice d + j) < d_maxresul d')" if up: "d_maxresul d < d_maxresul d'"
    proof (cases "d_maxresul ?d < d_maxresul d'")
      case True
      then obtain i where i: "i < length qs" "qs ! i = (d_maxguid d', d_vote d')"
          "d_maxresul d' = re_urand env (Suc (d_dice d + i))" "\<forall>j<i. re_urand env (Suc (d_dice d + j)) < d_maxresul d'"
        using IH by auto
      have "re_urand env (d_dice d + j) < d_maxresul d'" if "j < Suc i" for j
        using that i(4) True m(2) by (cases j) auto
      then show ?thesis using i by (intro exI [of _ "Suc i"]) (simp add: ps)
    next
      case False
      then have e: "d_maxresul d' = d_maxresul ?d" using m' by simp
      then have "d_maxresul d < ?n" using up by (auto split: if_splits)
      then show ?thesis using IH e by (intro exI [of _ 0]) (simp add: ps)
    qed
    have same: "d_maxguid d' = d_maxguid d \<and> d_vote d' = d_vote d" if "d_maxresul d' = d_maxresul d"
    proof -
      have "\<not> d_maxresul d < ?n" using that m m' by auto
      then show ?thesis using that IH by simp
    qed
    show ?thesis using dice all lead same m(1) m' by (auto intro: order_trans)
  qed
qed simp

text \<open>The players who chose a kind of vote, in the order of the vote map.\<close>

definition voters :: "(RollVote \<Rightarrow> bool) \<Rightarrow> roll \<Rightarrow> (u64 \<times> RollVote) list" where
  "voters P r = filter (\<lambda>e. P (snd e)) (r_playerVote r)"

text \<open>Position \<open>i\<close> of the draws that start at number \<open>n\<close>: no later draw is higher, and every earlier one is lower.\<close>

definition first_highest :: "(nat \<Rightarrow> u8) \<Rightarrow> nat \<Rightarrow> nat \<Rightarrow> nat \<Rightarrow> bool" where
  "first_highest f n len i = (i < len \<and> (\<forall>j<len. f (n + j) \<le> f (n + i)) \<and> (\<forall>j<i. f (n + j) < f (n + i)))"

lemma draw_winner:
  assumes "draw_loop env part tp r (r_playerVote r) (start_draw r st) = (d, out)"
    and "voters part r \<noteq> []" and "\<forall>n. 0 < re_urand env n"
  shows "\<exists>i. first_highest (re_urand env) (rs_dice st) (length (voters part r)) i \<and>
    voters part r ! i = (d_maxguid d, d_vote d) \<and> d_maxresul d = re_urand env (rs_dice st + i) \<and>
    d_dice d = rs_dice st + length (voters part r)"
proof -
  note l = draw_loop_leads [OF assms(1) refl, folded voters_def, simplified start_draw_def draw.simps]
  have "0 < length (voters part r)" using assms(2) by simp
  moreover have "\<forall>j<length (voters part r). re_urand env (rs_dice st + j) \<le> d_maxresul d" using l by blast
  ultimately have "re_urand env (rs_dice st) \<le> d_maxresul d" by (metis add_0_right)
  moreover have "0 < re_urand env (rs_dice st)" using assms(3) by blast
  ultimately have "0 < d_maxresul d" by (rule less_le_trans [rotated])
  then obtain i where i: "i < length (voters part r)" "voters part r ! i = (d_maxguid d, d_vote d)"
      "d_maxresul d = re_urand env (rs_dice st + i)" "\<forall>j<i. re_urand env (rs_dice st + j) < d_maxresul d"
    using l by blast
  have "\<forall>j<length (voters part r). re_urand env (rs_dice st + j) \<le> re_urand env (rs_dice st + i)"
    using l unfolding i(3) by blast
  then have "first_highest (re_urand env) (rs_dice st) (length (voters part r)) i"
    using i(1) i(4) [unfolded i(3)] by (simp add: first_highest_def)
  then show ?thesis using i(2,3) l by blast
qed

text \<open>What happens to the item of a need roll, won by player \<open>g\<close>.\<close>

definition need_inventory :: "'i roll_env \<Rightarrow> u64 \<Rightarrow> loot_item \<Rightarrow> roll \<Rightarrow> 'i \<Rightarrow> 'i" where
  "need_inventory env g li r i =
     (if re_online env g \<and> re_CanStoreNewItem env i g (r_itemid r) (li_count li) = 0
      then re_StoreNewItem env g (li\<lparr>li_is_looted := True\<rparr>) i else i)"

definition need_item :: "'i roll_env \<Rightarrow> u64 \<Rightarrow> loot_item \<Rightarrow> roll \<Rightarrow> 'i \<Rightarrow> loot_item" where
  "need_item env g li r i =
     (if \<not> re_online env g then li
      else if re_CanStoreNewItem env i g (r_itemid r) (li_count li) = 0 then li\<lparr>li_is_looted := True\<rparr>
      else li\<lparr>li_is_blocked := False\<rparr>)"

lemma award_item_result:
  assumes "unat (r_itemSlot r) < length (lo_items lo)"
  shows "\<exists>st' es. award_item env g r l lo st = Inr (st', es) \<and> rs_RollId st' = rs_RollId st \<and> rs_dice st' = rs_dice st \<and>
    rs_inventory st' = (if re_CanStoreNewItem env (rs_inventory st) g (r_itemid r) (li_count (lo_items lo ! unat (r_itemSlot r))) = 0
       then re_StoreNewItem env g ((lo_items lo ! unat (r_itemSlot r))\<lparr>li_is_looted := True\<rparr>) (rs_inventory st) else rs_inventory st) \<and>
    map_option lo_items (rs_loots st' l) = Some ((lo_items lo)[unat (r_itemSlot r) :=
      (if re_CanStoreNewItem env (rs_inventory st) g (r_itemid r) (li_count (lo_items lo ! unat (r_itemSlot r))) = 0
       then (lo_items lo ! unat (r_itemSlot r))\<lparr>li_is_looted := True\<rparr>
       else (lo_items lo ! unat (r_itemSlot r))\<lparr>li_is_blocked := False\<rparr>)])"
proof (cases "re_CanStoreNewItem env (rs_inventory st) g (r_itemid r) (li_count (lo_items lo ! unat (r_itemSlot r))) = 0")
  case True
  then show ?thesis
    using assms by (simp add: award_item_def loot_item_at_def take_item_def NotifyItemRemoved_def set_loot_item_def put_loot_def Let_def)
next
  case False
  then show ?thesis using assms by (simp add: award_item_def loot_item_at_def set_loot_item_def put_loot_def Let_def)
qed

lemma count_need_result:
  assumes "unat (r_itemSlot r) < length (lo_items lo)" and "voters (\<lambda>v. v = NEED) r \<noteq> []" and "\<forall>n. 0 < re_urand env n"
    and "rs_loots st l = Some lo" and "li = lo_items lo ! unat (r_itemSlot r)"
  shows "\<exists>i st' es. first_highest (re_urand env) (rs_dice st) (length (voters (\<lambda>v. v = NEED) r)) i \<and>
    count_need env r l lo st = Inr (st', es) \<and> rs_RollId st' = rs_RollId st \<and>
    rs_inventory st' = need_inventory env (fst (voters (\<lambda>v. v = NEED) r ! i)) li r (rs_inventory st) \<and>
    map_option lo_items (rs_loots st' l) =
      Some ((lo_items lo)[unat (r_itemSlot r) := need_item env (fst (voters (\<lambda>v. v = NEED) r ! i)) li r (rs_inventory st)])"
proof -
  obtain d out where d: "draw_loop env (\<lambda>v. v = NEED) (\<lambda>_. ROLL_NEED) r (r_playerVote r) (start_draw r st) = (d, out)"
    by fastforce
  obtain i where i: "first_highest (re_urand env) (rs_dice st) (length (voters (\<lambda>v. v = NEED) r)) i"
      "voters (\<lambda>v. v = NEED) r ! i = (d_maxguid d, d_vote d)"
    using draw_winner [OF d assms(2,3)] by blast
  obtain st' es where a: "award_item env (d_maxguid d) r l lo (st\<lparr>rs_dice := d_dice d\<rparr>) = Inr (st', es)"
      and res: "rs_RollId st' = rs_RollId st"
        "rs_inventory st' = (if re_CanStoreNewItem env (rs_inventory st) (d_maxguid d) (r_itemid r) (li_count li) = 0
           then re_StoreNewItem env (d_maxguid d) (li\<lparr>li_is_looted := True\<rparr>) (rs_inventory st) else rs_inventory st)"
        "map_option lo_items (rs_loots st' l) = Some ((lo_items lo)[unat (r_itemSlot r) :=
           (if re_CanStoreNewItem env (rs_inventory st) (d_maxguid d) (r_itemid r) (li_count li) = 0
            then li\<lparr>li_is_looted := True\<rparr> else li\<lparr>li_is_blocked := False\<rparr>)])"
    using award_item_result [OF assms(1), of env "d_maxguid d" l "st\<lparr>rs_dice := d_dice d\<rparr>", folded assms(5)] by auto
  show ?thesis
  proof (cases "re_online env (d_maxguid d)")
    case True
    have "\<exists>es. count_need env r l lo st = Inr (st', es)" using d a True by (simp add: count_need_def Let_def)
    then show ?thesis using i res True by (auto simp: need_inventory_def need_item_def)
  next
    case False
    have "\<exists>es. count_need env r l lo st = Inr (st\<lparr>rs_dice := d_dice d\<rparr>, es)" using d False by (simp add: count_need_def Let_def)
    then show ?thesis using i False assms(1,4,5) by (fastforce simp: need_inventory_def need_item_def)
  qed
qed

section \<open>Rolls over the life of a group\<close>

text \<open>
  The states of a group's rolls under the operations of the server: a loot is filled while no roll is on it, loots are
  cleared, rolls are started for the members of the group, players vote (each once on a roll), members leave, and the
  timer of a loot ends its rolls.  The guids handed out so far are distinct.
\<close>

inductive roll_reachable :: "'i roll_env \<Rightarrow> 'i roll_state \<Rightarrow> bool" for env where
  start: "rs_RollId st = [] \<Longrightarrow> roll_reachable env st"
| fill: "roll_reachable env st \<Longrightarrow> \<forall>r\<in>set (rs_RollId st). r_getLoot r \<noteq> Some l \<Longrightarrow> roll_reachable env (put_loot l lo st)"
| clear: "roll_reachable env st \<Longrightarrow> roll_reachable env (Loot_clear l st)"
| group_loot: "roll_reachable env st \<Longrightarrow> distinct (lc_members c) \<Longrightarrow> GroupLoot env c l st = Inr (st', es) \<Longrightarrow>
    inj_on (re_newGUID env) {..<rs_guids st'} \<Longrightarrow> roll_reachable env st'"
| vote: "roll_reachable env st \<Longrightarrow> first_vote g guid st \<Longrightarrow> CountRollVote env g guid N choice st = Inr (st', es) \<Longrightarrow>
    roll_reachable env st'"
| leave: "roll_reachable env st \<Longrightarrow> leave_rolls env g members 0 (length (rs_RollId st)) st = Inr (st', es) \<Longrightarrow>
    roll_reachable env st'"
| timer: "roll_reachable env st \<Longrightarrow> EndRoll env l members st = Some (Inr (st', es)) \<Longrightarrow> roll_reachable env st'"

lemma leave_rolls_ok:
  assumes ok: "rolls_ok env st" and l: "leave_rolls env g members 0 (length (rs_RollId st)) st = Inr (st', es)"
  shows "rolls_ok env st'"
proof -
  have "st' = st\<lparr>rs_RollId := map (leave_one g) (rs_RollId st)\<rparr>"
    using l leave_rolls_map [of st 0 "length (rs_RollId st)" env g members] ok by (simp add: rolls_ok_def)
  then show ?thesis
    by (intro rolls_ok_map [OF ok, where f = "leave_one g"]) (simp_all add: leave_one_ok leave_one_keeps slot_ok_def)
qed

lemma roll_reachable_ok: "roll_reachable env st \<Longrightarrow> rolls_ok env st"
proof (induction rule: roll_reachable.induct)
  case (start st)
  then show ?case by (simp add: rolls_ok_def)
next
  case (group_loot st c l st' es)
  then obtain n where "loot_loop env c l 0 n st = Inr (st', es)"
    by (auto simp: GroupLoot_def split: option.splits)
  then show ?case using loot_loop_ok [OF group_loot.hyps(2) group_loot.IH] group_loot.hyps(4) by blast
qed (blast intro: new_loot_ok Loot_clear_ok CountRollVote_ok leave_rolls_ok EndRoll_ok)+

text \<open>
  C16. In the states that are reached without a second vote of a player on a roll, the four counters of every roll are the numbers of votes of their
  kind, and every roll on a live loot points to an item of that loot.  The condition is needed: the code counts a second vote
  again (\<open>double_vote_ends_roll\<close>).
\<close>

theorem roll_totals_exact:
  assumes "roll_reachable env st" and "r \<in> set (rs_RollId st)"
  shows "r_totalPass r = tally (\<lambda>v. v = PASS) (r_playerVote r) \<and> r_totalNeed r = tally (\<lambda>v. v = NEED) (r_playerVote r) \<and>
    r_totalGreed r = tally (\<lambda>v. v = GREED \<or> v = DISENCHANT) (r_playerVote r) \<and>
    r_totalPlayersRolling r = of_nat (length (r_playerVote r)) \<and>
    (\<forall>l. r_getLoot r = Some l \<longrightarrow> (\<exists>lo. rs_loots st l = Some lo \<and> unat (r_itemSlot r) < length (lo_items lo)))"
  using roll_reachable_ok [OF assms(1)] assms(2) by (auto simp: rolls_ok_def roll_ok_def slot_ok_def tally_def)

text \<open>
  The timer of a loot: whatever rolls there are, the loop that starts over after every roll returns, and then the
  rolls on that loot are gone and all others are as before.  The one way it fails is a disenchant without a template.
\<close>

theorem EndRoll_returns:
  assumes "roll_reachable env st"
  shows "\<exists>res. EndRoll env l members st = Some res \<and>
    (case res of Inl err \<Rightarrow> err = NoTemplate
     | Inr (st', es) \<Rightarrow> rs_RollId st' = filter (\<lambda>r. r_getLoot r \<noteq> Some l) (rs_RollId st))"
  using EndRoll_loop_returns [OF roll_reachable_ok [OF assms], of l members "[]"]
  by (auto simp: EndRoll_def ends_rolls_of_def split: sum.splits)

lemma all_in_omap: "omap_ok m \<Longrightarrow> (\<forall>e\<in>set m. Q e) \<longleftrightarrow> (\<forall>k v. omap_find m k = Some v \<longrightarrow> Q (k, v))"
  by (auto simp: omap_find_iff)

lemma CountRollVote_erased:
  assumes "slot_ok st r" and "k < length (rs_RollId st)"
  shows "(case res_bind (CountTheRoll env k N (set_roll k r st)) (\<lambda>(st'', es'). Inr (st'', es @ es')) of
     Inl err \<Rightarrow> err = NoTemplate
   | Inr (st', es) \<Rightarrow> rs_RollId st' = take k (rs_RollId st) @ drop (Suc k) (rs_RollId st))"
proof (cases "CountTheRoll env k N (set_roll k r st)")
  case (Inl err)
  then show ?thesis using CountTheRoll_errors [OF _ Inl] assms by (simp add: set_roll_def slot_ok_def)
next
  case (Inr y)
  obtain st' es' where y: "y = (st', es')" by fastforce
  then show ?thesis using CountTheRoll_erases [of env k N "set_roll k r st" st' es'] Inr
    by (auto simp: erase_roll_def roll_frame_def set_roll_def)
qed

text \<open>
  C17. The first vote of a player, cast in a state that was reached without second votes, on a roll with fewer than 256
  voters: it ends the roll exactly when everyone else on it has voted; then the roll is counted and leaves the list.
  Otherwise the vote is entered and nothing else changes.  A second vote of a player is not covered: it is counted again
  and can end the roll early (\<open>double_vote_ends_roll\<close>).
\<close>

theorem roll_ends_when_all_voted:
  assumes "roll_reachable env st" and "GetRoll guid st = Some k" and "r = rs_RollId st ! k"
    and "omap_find (r_playerVote r) g = Some NOT_EMITED_YET" and "choice < MAX_ROLL_TYPE" and "length (r_playerVote r) < 256"
  shows "if \<forall>e\<in>set (r_playerVote r). fst e \<noteq> g \<longrightarrow> snd e \<noteq> NOT_EMITED_YET
    then case CountRollVote env g guid N choice st of
           Inl err \<Rightarrow> err = NoTemplate
         | Inr (st', es) \<Rightarrow> rs_RollId st' = take k (rs_RollId st) @ drop (Suc k) (rs_RollId st)
    else \<exists>v es. v \<noteq> NOT_EMITED_YET \<and> r_playerVote (fst (cast_vote env g choice r)) = omap_set g v (r_playerVote r) \<and>
           CountRollVote env g guid N choice st = Inr (set_roll k (fst (cast_vote env g choice r)) st, es)"
proof -
  let ?r = "fst (cast_vote env g choice r)"
  have ok: "rolls_ok env st" by (rule roll_reachable_ok [OF assms(1)])
  have k: "k < length (rs_RollId st)" using find_roll_Some assms(2) by (auto simp: GetRoll_def)
  have r: "roll_ok r" using ok nth_mem [OF k] by (auto simp: rolls_ok_def assms(3))
  then have om: "omap_ok (r_playerVote r)" by (simp add: roll_ok_def)
  obtain v where v: "v \<noteq> NOT_EMITED_YET" "r_playerVote ?r = omap_set g v (r_playerVote r)"
    using cast_vote_map [OF assms(5)] by blast
  have ok': "roll_ok ?r" by (rule roll_ok_vote [OF r assms(4)])
  have len: "length (r_playerVote ?r) < 256"
    using assms(6) omap_length_set [OF om, of g v] assms(4) by (simp add: v)
  have om': "omap_ok (omap_set g v (r_playerVote r))" by (rule omap_ok_set [OF om])
  have "votes_in ?r \<longleftrightarrow> (\<forall>e\<in>set (r_playerVote r). fst e \<noteq> g \<longrightarrow> snd e \<noteq> NOT_EMITED_YET)"
    unfolding votes_in_iff [OF ok' len] v(2) using v(1) om
    by (auto simp: all_in_omap [OF om'] all_in_omap [OF om] omap_find_set)
  moreover obtain r' es where c: "cast_vote env g choice r = (r', es)" by fastforce
  moreover have "slot_ok st ?r"
    using rolls_ok_slot [OF ok k] by (simp add: slot_ok_def cast_vote_keeps assms(3))
  ultimately show ?thesis
    using CountRollVote_hit [OF ok assms(2), of g N choice] CountRollVote_erased [of st ?r k env N es] k v assms(3,4)
    by (auto simp: Let_def)
qed

text \<open>
  C21. A need roll: if someone chose need, the item goes to the first of those who drew the highest number.  When the
  winner is online and can store the item, the item is marked as looted and given to him; when he cannot store it, it is
  unblocked and stays in the loot; when he is offline it stays as it is.
\<close>

theorem need_roll_winner:
  assumes "roll_reachable env st" and "k < length (rs_RollId st)" and "r = rs_RollId st ! k" and "0 < r_totalNeed r"
    and "r_getLoot r = Some l" and "rs_loots st l = Some lo" and "li = lo_items lo ! unat (r_itemSlot r)"
    and "\<forall>n. 1 \<le> re_urand env n \<and> re_urand env n \<le> 100"
  shows "\<exists>i st' es. first_highest (re_urand env) (rs_dice st) (length (voters (\<lambda>v. v = NEED) r)) i \<and>
    CountTheRoll env k N st = Inr (st', es) \<and>
    rs_RollId st' = take k (rs_RollId st) @ drop (Suc k) (rs_RollId st) \<and>
    rs_inventory st' = need_inventory env (fst (voters (\<lambda>v. v = NEED) r ! i)) li r (rs_inventory st) \<and>
    map_option lo_items (rs_loots st' l) =
      Some ((lo_items lo)[unat (r_itemSlot r) := need_item env (fst (voters (\<lambda>v. v = NEED) r ! i)) li r (rs_inventory st)])"
proof -
  have ok: "rolls_ok env st" by (rule roll_reachable_ok [OF assms(1)])
  have "roll_ok r" using ok nth_mem [OF assms(2)] by (auto simp: rolls_ok_def assms(3))
  then have "tally (\<lambda>v. v = NEED) (r_playerVote r) \<noteq> (0 :: u8)" using assms(4) by (auto simp: roll_ok_def)
  then have some: "voters (\<lambda>v. v = NEED) r \<noteq> []" by (auto simp: tally_def voters_def)
  then have ne: "r_playerVote r \<noteq> []" by (auto simp: voters_def)
  have slot: "unat (r_itemSlot r) < length (lo_items lo)"
    using rolls_ok_slot [OF ok assms(2)] assms(3,5,6) by (simp add: slot_ok_def)
  have urand: "\<forall>n. 0 < re_urand env n" using assms(8) by (metis word_greater_zero_iff word_le_0_iff zero_neq_one)
  obtain i st' es where i: "first_highest (re_urand env) (rs_dice st) (length (voters (\<lambda>v. v = NEED) r)) i"
      and c: "count_need env r l lo st = Inr (st', es)"
      and res: "rs_RollId st' = rs_RollId st"
        "rs_inventory st' = need_inventory env (fst (voters (\<lambda>v. v = NEED) r ! i)) li r (rs_inventory st)"
        "map_option lo_items (rs_loots st' l) =
          Some ((lo_items lo)[unat (r_itemSlot r) := need_item env (fst (voters (\<lambda>v. v = NEED) r ! i)) li r (rs_inventory st)])"
    using count_need_result [OF slot some urand assms(6,7)] by blast
  have "CountTheRoll env k N st = Inr (erase_roll k st', es)"
    using assms(3-6) ne c by (simp add: CountTheRoll_def Let_def)
  moreover have "rs_RollId (erase_roll k st') = take k (rs_RollId st) @ drop (Suc k) (rs_RollId st)"
      "rs_inventory (erase_roll k st') = rs_inventory st'" "rs_loots (erase_roll k st') = rs_loots st'"
    by (simp_all add: erase_roll_def res(1))
  ultimately show ?thesis using i res by metis
qed

text \<open>
  Nothing stops a player from voting again: the second vote is counted as well, and when one other player has not
  yet voted it ends the roll without him.
\<close>

theorem double_vote_ends_roll:
  assumes "roll_reachable env st" and "GetRoll guid st = Some k" and "r = rs_RollId st ! k"
    and "omap_find (r_playerVote r) g = Some PASS" and "omap_find (r_playerVote r) h = Some NOT_EMITED_YET"
    and "length (voters (\<lambda>v. v = NOT_EMITED_YET) r) = 1" and "length (r_playerVote r) < 256"
  shows "case CountRollVote env g guid N ROLL_PASS st of
      Inl err \<Rightarrow> err = NoTemplate
    | Inr (st', es) \<Rightarrow> rs_RollId st' = take k (rs_RollId st) @ drop (Suc k) (rs_RollId st)"
proof -
  have ok: "rolls_ok env st" by (rule roll_reachable_ok [OF assms(1)])
  have k: "k < length (rs_RollId st)" using find_roll_Some assms(2) by (auto simp: GetRoll_def)
  have r: "roll_ok r" using ok nth_mem [OF k] by (auto simp: rolls_ok_def assms(3))
  let ?r = "fst (cast_vote env g ROLL_PASS r)"
  have sum: "length (r_playerVote r) = unat (r_totalPass r) + unat (r_totalNeed r) + unat (r_totalGreed r) + 1"
    using r roll_partition [of "r_playerVote r"] assms(6,7) by (simp add: roll_ok_def tally_unat voters_def)
  have "unat (r_totalPass r + 1) = unat (r_totalPass r) + 1"
    using sum assms(7) by (intro unat_plus_simple [THEN iffD1, THEN trans]) (simp_all add: word_le_nat_alt unat_word_ariths)
  moreover have "unat (r_totalPlayersRolling r) = length (r_playerVote r)"
    using r assms(7) by (simp add: roll_ok_def tally_unat)
  ultimately have "votes_in ?r" using sum by (simp add: votes_in_def cast_vote_def)
  moreover obtain r' es where "cast_vote env g ROLL_PASS r = (r', es)" by fastforce
  moreover have "slot_ok st ?r" using rolls_ok_slot [OF ok k] by (simp add: slot_ok_def cast_vote_keeps assms(3))
  ultimately show ?thesis
    using CountRollVote_hit [OF ok assms(2), of g N ROLL_PASS] CountRollVote_erased [of st ?r k env N es] k assms(3,4)
    by (simp add: Let_def)
qed

section \<open>An example\<close>

text \<open>A loot of one item, three members of whom one passes on all loot; players 1 and 2 then vote.\<close>

definition ex_env :: "u64 list roll_env" where
  "ex_env = \<lparr>re_FindPlayer = (\<lambda>g. True), re_GetSession = (\<lambda>g. True), re_urand = (\<lambda>n. if n = 1 then 90 else 40),
     re_newGUID = (\<lambda>n. 1000 + of_nat n),
     re_template = (\<lambda>i. Some \<lparr>it_Quality = 4, it_DisenchantID = 0, it_RequiredDisenchantSkill = 0, it_Flags2 = 0\<rparr>),
     re_AllowedForPlayer = (\<lambda>_ _. True), re_IsWithinDist = (\<lambda>g. True), re_PassOnGroupLoot = (\<lambda>g. g = 3),
     re_CanStoreNewItem = (\<lambda>_ _ _ _. 0), re_StoreNewItem = (\<lambda>g _ i. g # i), re_AutoStoreLoot = (\<lambda>_ _ i. i)\<rparr>"

definition ex_item :: loot_item where
  "ex_item = \<lparr>li_itemid = 50, li_randomSuffix = 0, li_randomPropertyId = 0, li_count = 1, li_allowedGUIDs = [], li_is_looted = False,
     li_is_blocked = False, li_freeforall = False, li_is_underthreshold = False\<rparr>"

definition ex_call :: loot_call where
  "ex_call = \<lparr>lc_need_before_greed = False, lc_members = [1, 2, 3], lc_threshold = 2, lc_maxEnchantingLevel = 0, lc_mapId = 0\<rparr>"

definition ex_empty :: "u64 list roll_state" where
  "ex_empty = \<lparr>rs_RollId = [], rs_loots = [7 \<mapsto> \<lparr>lo_items = [ex_item], lo_unlootedCount = 1, lo_PlayersLooting = []\<rparr>],
     rs_dice = 0, rs_guids = 0, rs_inventory = []\<rparr>"

definition ex_started :: "u64 list roll_state" where
  "ex_started = fst (projr (GroupLoot ex_env ex_call 7 ex_empty))"

definition ex_vote :: "u64 \<Rightarrow> u8 \<Rightarrow> u64 list roll_state \<Rightarrow> u64 list roll_state" where
  "ex_vote g choice st = fst (projr (CountRollVote ex_env g 1000 3 choice st))"

lemma Inr_projr: "\<not> isl x \<Longrightarrow> x = Inr (fst (projr x), snd (projr x))"
  by (cases x) auto

lemma ex_started_reachable: "roll_reachable ex_env ex_started"
proof -
  have "\<not> isl (GroupLoot ex_env ex_call 7 ex_empty)" by code_simp
  then have g: "GroupLoot ex_env ex_call 7 ex_empty = Inr (ex_started, snd (projr (GroupLoot ex_env ex_call 7 ex_empty)))"
    unfolding ex_started_def by (rule Inr_projr)
  have "roll_reachable ex_env ex_empty" by (rule roll_reachable.start) (simp add: ex_empty_def)
  then show ?thesis
  proof (rule roll_reachable.group_loot [OF _ _ g])
    show "distinct (lc_members ex_call)" by (simp add: ex_call_def)
    have "rs_guids ex_started = 1" by code_simp
    then show "inj_on (re_newGUID ex_env) {..<rs_guids ex_started}" by (simp add: lessThan_Suc)
  qed
qed

lemma ex_vote_reachable:
  assumes "roll_reachable ex_env st" and "first_vote g 1000 st" and "\<not> isl (CountRollVote ex_env g 1000 3 choice st)"
  shows "roll_reachable ex_env (ex_vote g choice st)"
  unfolding ex_vote_def by (rule roll_reachable.vote [OF assms(1,2) Inr_projr [OF assms(3)]])

text \<open>Player 1 chose to pass; player 2 has not voted.\<close>

definition ex_passed :: "u64 list roll_state" where
  "ex_passed = ex_vote 1 ROLL_PASS ex_started"

lemma ex_passed_reachable: "roll_reachable ex_env ex_passed"
proof -
  have "first_vote 1 1000 ex_started" by code_simp
  moreover have "\<not> isl (CountRollVote ex_env 1 1000 3 ROLL_PASS ex_started)" by code_simp
  ultimately show ?thesis unfolding ex_passed_def by (rule ex_vote_reachable [OF ex_started_reachable])
qed

text \<open>Player 1 chose need; player 2 has not voted.\<close>

definition ex_needed :: "u64 list roll_state" where
  "ex_needed = ex_vote 1 ROLL_NEED ex_started"

lemma ex_needed_reachable: "roll_reachable ex_env ex_needed"
proof -
  have "first_vote 1 1000 ex_started" by code_simp
  moreover have "\<not> isl (CountRollVote ex_env 1 1000 3 ROLL_NEED ex_started)" by code_simp
  ultimately show ?thesis unfolding ex_needed_def by (rule ex_vote_reachable [OF ex_started_reachable])
qed

theorem roll_totals_exact_witness:
  "r_totalPass (rs_RollId ex_passed ! 0) = 2 \<and>
   r_totalPass (rs_RollId ex_passed ! 0) = tally (\<lambda>v. v = PASS) (r_playerVote (rs_RollId ex_passed ! 0))"
proof -
  have "0 < length (rs_RollId ex_passed)" by code_simp
  then have "rs_RollId ex_passed ! 0 \<in> set (rs_RollId ex_passed)" by (rule nth_mem)
  moreover have "r_totalPass (rs_RollId ex_passed ! 0) = 2" by code_simp
  ultimately show ?thesis using roll_totals_exact [OF ex_passed_reachable] by blast
qed

theorem EndRoll_returns_witness:
  "\<exists>res. EndRoll ex_env 7 3 ex_passed = Some res \<and>
    (case res of Inl err \<Rightarrow> err = NoTemplate | Inr (st', es) \<Rightarrow> rs_RollId st' = [])"
proof -
  have none: "filter (\<lambda>r. r_getLoot r \<noteq> Some 7) (rs_RollId ex_passed) = []" by code_simp
  show ?thesis using EndRoll_returns [OF ex_passed_reachable, of 7 3] unfolding none .
qed

theorem roll_ends_when_all_voted_witness:
  "case CountRollVote ex_env 2 1000 3 ROLL_NEED ex_passed of Inl err \<Rightarrow> err = NoTemplate | Inr (st', es) \<Rightarrow> rs_RollId st' = []"
proof -
  let ?r = "rs_RollId ex_passed ! 0"
  have k: "GetRoll 1000 ex_passed = Some 0" by code_simp
  have f: "omap_find (r_playerVote ?r) 2 = Some NOT_EMITED_YET" by code_simp
  have len: "length (r_playerVote ?r) < 256" by code_simp
  have all: "\<forall>e\<in>set (r_playerVote ?r). fst e \<noteq> 2 \<longrightarrow> snd e \<noteq> NOT_EMITED_YET" by code_simp
  have rest: "take 0 (rs_RollId ex_passed) @ drop (Suc 0) (rs_RollId ex_passed) = []" by code_simp
  show ?thesis
    using roll_ends_when_all_voted [OF ex_passed_reachable k refl f _ len, of ROLL_NEED 3] unfolding rest if_P [OF all] by simp
qed

theorem need_roll_winner_witness:
  "\<exists>st' es. CountTheRoll ex_env 0 3 ex_needed = Inr (st', es) \<and> rs_RollId st' = [] \<and> rs_inventory st' = [1]"
proof -
  let ?r = "rs_RollId ex_needed ! 0"
  let ?lo = "the (rs_loots ex_needed 7)"
  let ?li = "lo_items ?lo ! unat (r_itemSlot ?r)"
  have k: "0 < length (rs_RollId ex_needed)" by code_simp
  have need: "0 < r_totalNeed ?r" by code_simp
  have loot: "r_getLoot ?r = Some 7" by code_simp
  have "rs_loots ex_needed 7 \<noteq> None" by code_simp
  then have lo: "rs_loots ex_needed 7 = Some ?lo" by simp
  have u: "\<forall>n. 1 \<le> re_urand ex_env n \<and> re_urand ex_env n \<le> 100" by (simp add: ex_env_def)
  have rest: "take 0 (rs_RollId ex_needed) @ drop (Suc 0) (rs_RollId ex_needed) = []" by code_simp
  have v: "voters (\<lambda>v. v = NEED) ?r = [(1, NEED)]" by code_simp
  have inv: "need_inventory ex_env 1 ?li ?r (rs_inventory ex_needed) = [1]" by code_simp
  obtain i st' es where "i < 1" and "CountTheRoll ex_env 0 3 ex_needed = Inr (st', es)" and "rs_RollId st' = []"
      and "rs_inventory st' = need_inventory ex_env (fst ([(1, NEED)] ! i)) ?li ?r (rs_inventory ex_needed)"
    using need_roll_winner [OF ex_needed_reachable k refl need loot lo refl u, of 3]
    unfolding rest v first_highest_def by auto
  then show ?thesis using inv by auto
qed

theorem double_vote_ends_roll_witness:
  "case CountRollVote ex_env 1 1000 3 ROLL_PASS ex_passed of Inl err \<Rightarrow> err = NoTemplate | Inr (st', es) \<Rightarrow> rs_RollId st' = []"
proof -
  let ?r = "rs_RollId ex_passed ! 0"
  have k: "GetRoll 1000 ex_passed = Some 0" by code_simp
  have f: "omap_find (r_playerVote ?r) 1 = Some PASS" "omap_find (r_playerVote ?r) 2 = Some NOT_EMITED_YET" by code_simp+
  have one: "length (voters (\<lambda>v. v = NOT_EMITED_YET) ?r) = 1" by code_simp
  have len: "length (r_playerVote ?r) < 256" by code_simp
  have rest: "take 0 (rs_RollId ex_passed) @ drop (Suc 0) (rs_RollId ex_passed) = []" by code_simp
  show ?thesis using double_vote_ends_roll [OF ex_passed_reachable k refl f one len, of 3] unfolding rest .
qed

end
