(* ===== verification/Group_Model.thy ===== *)
theory Group_Model
  imports Loot_Rolls
begin

text \<open>
  Groups of players: \<^verbatim>\<open>game/Groups/Group.cpp\<close>, \<^verbatim>\<open>GroupMgr.cpp\<close> and the group functions of
  \<^verbatim>\<open>game/Entities/Player/Player.cpp\<close>.  Groups are objects that are created and deleted, and players point to them from
  three places: the group reference, the reference to the group a player had before he joined a battleground raid, and
  the pending invitation.  The state therefore keeps the live groups by address and the players of \<^verbatim>\<open>ObjectAccessor\<close> by
  guid, and an operation that follows a pointer to a deleted object is an error.  The list of references of a
  group (\<^verbatim>\<open>m_memberMgr\<close>) has the newest reference first, as \<open>References\<close> shows for the linked lists.

  Operations run in a state monad with errors and a log of effects; a weakest precondition for it carries the proofs.
\<close>

section \<open>Data\<close>

record member_slot =
  ms_guid :: u64
  ms_name :: string
  ms_group :: u8
  ms_flags :: u8
  ms_roles :: u8

text \<open>The two references of a player, \<^verbatim>\<open>m_group\<close> and \<^verbatim>\<open>m_originalGroup\<close>.\<close>

datatype group_ref = MGroup | MOriginal

abbreviation MAXGROUPSIZE :: nat where "MAXGROUPSIZE \<equiv> 5"
abbreviation MAXRAIDSIZE :: nat where "MAXRAIDSIZE \<equiv> 40"
abbreviation MAX_RAID_SUBGROUPS :: nat where "MAX_RAID_SUBGROUPS \<equiv> 8"
abbreviation TARGETICONCOUNT :: nat where "TARGETICONCOUNT \<equiv> 8"

abbreviation MEMBER_FLAG_ASSISTANT :: u8 where "MEMBER_FLAG_ASSISTANT \<equiv> 0x01"
abbreviation MEMBER_FLAG_MAINTANK :: u8 where "MEMBER_FLAG_MAINTANK \<equiv> 0x02"
abbreviation MEMBER_FLAG_MAINASSIST :: u8 where "MEMBER_FLAG_MAINASSIST \<equiv> 0x04"
abbreviation MEMBER_STATUS_ONLINE :: u8 where "MEMBER_STATUS_ONLINE \<equiv> 0x01"
abbreviation MEMBER_STATUS_OFFLINE :: u8 where "MEMBER_STATUS_OFFLINE \<equiv> 0x00"
abbreviation MEMBER_STATUS_PVP :: u8 where "MEMBER_STATUS_PVP \<equiv> 0x02"

abbreviation GROUPTYPE_NORMAL :: u8 where "GROUPTYPE_NORMAL \<equiv> 0x00"
abbreviation GROUPTYPE_RAID :: u8 where "GROUPTYPE_RAID \<equiv> 0x02"
abbreviation GROUPTYPE_BGRAID :: u8 where "GROUPTYPE_BGRAID \<equiv> 0x03"

abbreviation FREE_FOR_ALL :: u32 where "FREE_FOR_ALL \<equiv> 0"
abbreviation MASTER_LOOT :: u32 where "MASTER_LOOT \<equiv> 2"
abbreviation GROUP_LOOT :: u32 where "GROUP_LOOT \<equiv> 3"
abbreviation ITEM_QUALITY_UNCOMMON :: u32 where "ITEM_QUALITY_UNCOMMON \<equiv> 2"
abbreviation LEVELREQUIREMENT_HEROIC :: u8 where "LEVELREQUIREMENT_HEROIC \<equiv> 70"

record group =
  m_memberSlots :: "member_slot list"
  m_memberMgr :: "(u64 \<times> group_ref) list"
  m_invitees :: "u64 list"
  m_leaderGuid :: u64
  m_leaderName :: string
  m_groupType :: u8
  m_dungeonDifficulty :: u8
  m_raidDifficulty :: u8
  m_bgGroup :: bool
  m_targetIcons :: "u64 list"
  m_lootMethod :: u32
  m_lootThreshold :: u32
  m_looterGuid :: u64
  m_RollId :: "roll list"
  m_subGroupsCounts :: "u8 list option"
  m_guid :: u64
  m_counter :: u32
  m_maxEnchantingLevel :: u32
  m_dbStoreId :: u32

definition new_Group :: group where
  "new_Group =
     \<lparr>m_memberSlots = [], m_memberMgr = [], m_invitees = [], m_leaderGuid = 0, m_leaderName = [],
      m_groupType = GROUPTYPE_NORMAL, m_dungeonDifficulty = 0, m_raidDifficulty = 0, m_bgGroup = False,
      m_targetIcons = replicate TARGETICONCOUNT 0, m_lootMethod = FREE_FOR_ALL, m_lootThreshold = ITEM_QUALITY_UNCOMMON,
      m_looterGuid = 0, m_RollId = [], m_subGroupsCounts = None, m_guid = 0, m_counter = 0,
      m_maxEnchantingLevel = 0, m_dbStoreId = 0\<rparr>"

text \<open>What the group code reads and writes of a player.\<close>

record gplayer =
  gp_name :: string
  gp_session :: bool
  gp_IsInWorld :: bool
  gp_group :: "nat option"
  gp_subGroup :: u8
  gp_originalGroup :: "nat option"
  gp_originalSubGroup :: u8
  gp_groupInvite :: "nat option"
  gp_team :: u32
  gp_gm_tag :: bool
  gp_mapId :: u32
  gp_instanceId :: u32
  gp_dungeonDifficulty :: u8
  gp_raidDifficulty :: u8
  gp_level :: u8
  gp_enchanting :: u32
  gp_inBattleground :: bool
  gp_InstanceValid :: bool

record group_world =
  gw_groups :: "nat \<rightharpoonup> group"
  gw_fresh :: nat
  gw_players :: "u64 \<rightharpoonup> gplayer"
  NextGroupDbStoreId :: u32
  NextGroupId :: u32
  GroupDbStore :: "nat option list"
  GroupStore :: "u32 \<rightharpoonup> nat"

text \<open>
  Answers from outside: the configuration, name normalisation, SQL quoting and the name cache, ignore lists, whether a map is a
  dungeon, and whether a player stands in the instance his group is bound to.
\<close>

record group_env =
  ge_allow_gm_group :: bool
  ge_two_side_group :: bool
  ge_normalizePlayerName :: "string \<Rightarrow> string option"
  ge_EscapeString :: "string \<Rightarrow> string"
  ge_GetPlayerGUIDByName :: "string \<Rightarrow> u64"
  ge_HasIgnore :: "u64 \<Rightarrow> u64 \<Rightarrow> bool"
  ge_IsDungeon :: "u32 \<Rightarrow> bool"
  ge_in_bound_instance :: "nat \<Rightarrow> u64 \<Rightarrow> bool"

datatype group_error = DanglingGroup | DanglingPlayer | BadSubGroup | BadStoreId | AssertFailed

text \<open>
  \<open>GCall\<close> and \<open>GCallGroup\<close> are calls into parts that are not modelled here (quest objects, visibility, instance bindings, party stats),
  on a player or a group.
\<close>

datatype group_effect =
    GSend u64 world_packet
  | GDb string "db_value list"
  | GCall string u64
  | GCallGroup string nat

section \<open>The state monad\<close>

type_synonym 'a gm = "group_world \<Rightarrow> group_error + 'a \<times> group_world \<times> group_effect list"

definition g_ret :: "'a \<Rightarrow> 'a gm" where
  "g_ret x w = Inr (x, w, [])"

definition g_bind :: "'a gm \<Rightarrow> ('a \<Rightarrow> 'b gm) \<Rightarrow> 'b gm" where
  "g_bind m f w =
     (case m w of
        Inl e \<Rightarrow> Inl e
      | Inr (x, w1, es1) \<Rightarrow> (case f x w1 of Inl e \<Rightarrow> Inl e | Inr (y, w2, es2) \<Rightarrow> Inr (y, w2, es1 @ es2)))"

definition g_then :: "unit gm \<Rightarrow> 'b gm \<Rightarrow> 'b gm" where
  "g_then m n = g_bind m (\<lambda>_. n)"

definition g_fail :: "group_error \<Rightarrow> 'a gm" where
  "g_fail e w = Inl e"

definition g_emit :: "group_effect list \<Rightarrow> unit gm" where
  "g_emit es w = Inr ((), w, es)"

definition g_when :: "bool \<Rightarrow> unit gm \<Rightarrow> unit gm" where
  "g_when b m = (if b then m else g_ret ())"

fun g_for :: "'a list \<Rightarrow> ('a \<Rightarrow> unit gm) \<Rightarrow> unit gm" where
  "g_for [] f = g_ret ()"
| "g_for (x # xs) f = g_then (f x) (g_for xs f)"

definition g_get :: "(group_world \<Rightarrow> 'a) \<Rightarrow> 'a gm" where
  "g_get f w = Inr (f w, w, [])"

definition g_modify :: "(group_world \<Rightarrow> group_world) \<Rightarrow> unit gm" where
  "g_modify f w = Inr ((), f w, [])"

text \<open>Following a pointer to a group or a player, for reading and for writing.\<close>

definition g_group :: "nat \<Rightarrow> group gm" where
  "g_group a w = (case gw_groups w a of None \<Rightarrow> Inl DanglingGroup | Some g \<Rightarrow> Inr (g, w, []))"

definition g_player :: "u64 \<Rightarrow> gplayer gm" where
  "g_player p w = (case gw_players w p of None \<Rightarrow> Inl DanglingPlayer | Some pl \<Rightarrow> Inr (pl, w, []))"

definition put_group :: "nat \<Rightarrow> group \<Rightarrow> group_world \<Rightarrow> group_world" where
  "put_group a g w = w\<lparr>gw_groups := (gw_groups w)(a \<mapsto> g)\<rparr>"

definition put_player :: "u64 \<Rightarrow> gplayer \<Rightarrow> group_world \<Rightarrow> group_world" where
  "put_player p pl w = w\<lparr>gw_players := (gw_players w)(p \<mapsto> pl)\<rparr>"

definition set_group :: "nat \<Rightarrow> (group \<Rightarrow> group) \<Rightarrow> unit gm" where
  "set_group a f = g_bind (g_group a) (\<lambda>g. g_modify (put_group a (f g)))"

definition set_player :: "u64 \<Rightarrow> (gplayer \<Rightarrow> gplayer) \<Rightarrow> unit gm" where
  "set_player p f = g_bind (g_player p) (\<lambda>pl. g_modify (put_player p (f pl)))"

text \<open>\<^verbatim>\<open>ObjectAccessor::FindPlayer\<close>.\<close>

definition FindGPlayer :: "group_world \<Rightarrow> u64 \<Rightarrow> gplayer option" where
  "FindGPlayer w g = (case gw_players w g of None \<Rightarrow> None | Some pl \<Rightarrow> if gp_session pl then Some pl else None)"

text \<open>
  The weakest precondition: the operation returns, without error, in a state that satisfies \<open>Q\<close> together with
  the value returned.
\<close>

definition g_wp :: "'a gm \<Rightarrow> ('a \<Rightarrow> group_world \<Rightarrow> bool) \<Rightarrow> group_world \<Rightarrow> bool" where
  "g_wp m Q w = (case m w of Inl e \<Rightarrow> False | Inr (x, w', es) \<Rightarrow> Q x w')"

named_theorems wp_rules \<open>weakest preconditions of the operations\<close>

lemma g_wp_basic [wp_rules]:
  "g_wp (g_ret x) Q w \<longleftrightarrow> Q x w"
  "g_wp (g_fail e) Q w \<longleftrightarrow> False"
  "g_wp (g_emit es) Q' w \<longleftrightarrow> Q' () w"
  "g_wp (g_get f) Q w \<longleftrightarrow> Q (f w) w"
  "g_wp (g_modify h) Q' w \<longleftrightarrow> Q' () (h w)"
  by (simp_all add: g_wp_def g_ret_def g_fail_def g_emit_def g_get_def g_modify_def)

lemma g_wp_bind [wp_rules]: "g_wp (g_bind m f) Q w \<longleftrightarrow> g_wp m (\<lambda>x. g_wp (f x) Q) w"
  by (auto simp: g_wp_def g_bind_def split: sum.splits prod.splits)

lemma g_wp_then [wp_rules]: "g_wp (g_then m n) Q w \<longleftrightarrow> g_wp m (\<lambda>_. g_wp n Q) w"
  by (simp add: g_then_def g_wp_bind)

lemma g_wp_when [wp_rules]: "g_wp (g_when b m) Q w \<longleftrightarrow> (if b then g_wp m Q w else Q () w)"
  by (simp add: g_when_def g_wp_basic)

lemma g_wp_if [wp_rules]: "g_wp (if b then m else n) Q w \<longleftrightarrow> (if b then g_wp m Q w else g_wp n Q w)"
  by simp

lemma g_wp_pointers [wp_rules]:
  "g_wp (g_group a) Qg w \<longleftrightarrow> (\<exists>g. gw_groups w a = Some g \<and> Qg g w)"
  "g_wp (g_player p) Qp w \<longleftrightarrow> (\<exists>pl. gw_players w p = Some pl \<and> Qp pl w)"
  "g_wp (set_group a f) Q w \<longleftrightarrow> (\<exists>g. gw_groups w a = Some g \<and> Q () (put_group a (f g) w))"
  "g_wp (set_player p h) Q w \<longleftrightarrow> (\<exists>pl. gw_players w p = Some pl \<and> Q () (put_player p (h pl) w))"
  by (auto simp: g_wp_def g_group_def g_player_def set_group_def set_player_def g_bind_def g_modify_def split: option.splits)

lemma g_wp_mono: "g_wp m Q w \<Longrightarrow> (\<And>x w'. Q x w' \<Longrightarrow> Q' x w') \<Longrightarrow> g_wp m Q' w"
  by (auto simp: g_wp_def split: sum.splits prod.splits)

lemma g_wp_for:
  assumes "I [] w" and "\<And>x ys zs w'. xs = ys @ x # zs \<Longrightarrow> I ys w' \<Longrightarrow> g_wp (f x) (\<lambda>_. I (ys @ [x])) w'"
  shows "g_wp (g_for xs f) (\<lambda>_. I xs) w"
proof -
  have "xs = ys @ zs \<Longrightarrow> I ys w' \<Longrightarrow> g_wp (g_for zs f) (\<lambda>_. I xs) w'" for ys zs w'
  proof (induction zs arbitrary: ys w')
    case (Cons z zs)
    have "g_wp (f z) (\<lambda>_. I (ys @ [z])) w'" by (rule assms(2) [OF Cons.prems])
    then show ?case unfolding g_for.simps g_wp_then by (rule g_wp_mono) (rule Cons.IH, simp_all add: Cons.prems)
  qed (simp add: g_wp_basic)
  from this [of "[]" xs w] show ?thesis using assms(1) by simp
qed

lemma put_simps [simp]:
  "gw_groups (put_group a g w) = (gw_groups w)(a \<mapsto> g)" "gw_players (put_group a g w) = gw_players w"
  "gw_players (put_player p pl w) = (gw_players w)(p \<mapsto> pl)" "gw_groups (put_player p pl w) = gw_groups w"
  "gw_fresh (put_group a g w) = gw_fresh w" "gw_fresh (put_player p pl w) = gw_fresh w"
  "NextGroupDbStoreId (put_group a g w) = NextGroupDbStoreId w" "NextGroupDbStoreId (put_player p pl w) = NextGroupDbStoreId w"
  "NextGroupId (put_group a g w) = NextGroupId w" "NextGroupId (put_player p pl w) = NextGroupId w"
  "GroupDbStore (put_group a g w) = GroupDbStore w" "GroupDbStore (put_player p pl w) = GroupDbStore w"
  "GroupStore (put_group a g w) = GroupStore w" "GroupStore (put_player p pl w) = GroupStore w"
  by (simp_all add: put_group_def put_player_def)

section \<open>Queries\<close>

fun getMemberSlot :: "u64 \<Rightarrow> member_slot list \<Rightarrow> nat option" where
  "getMemberSlot guid [] = None"
| "getMemberSlot guid (m # ms) = (if ms_guid m = guid then Some 0 else map_option Suc (getMemberSlot guid ms))"

definition isRaidGroup :: "group \<Rightarrow> bool" where
  "isRaidGroup g = (m_groupType g AND GROUPTYPE_RAID \<noteq> 0)"

definition isBGGroup :: "group \<Rightarrow> bool" where
  "isBGGroup g = m_bgGroup g"

definition GetMembersCount :: "group \<Rightarrow> u32" where
  "GetMembersCount g = of_nat (length (m_memberSlots g))"

definition IsCreated :: "group \<Rightarrow> bool" where
  "IsCreated g = (0 < GetMembersCount g)"

definition IsFull :: "group \<Rightarrow> bool" where
  "IsFull g = (if isRaidGroup g then MAXRAIDSIZE \<le> length (m_memberSlots g) else MAXGROUPSIZE \<le> length (m_memberSlots g))"

definition IsMember :: "u64 \<Rightarrow> group \<Rightarrow> bool" where
  "IsMember guid g = (getMemberSlot guid (m_memberSlots g) \<noteq> None)"

definition IsLeader :: "u64 \<Rightarrow> group \<Rightarrow> bool" where
  "IsLeader guid g = (m_leaderGuid g = guid)"

definition IsAssistant :: "u64 \<Rightarrow> group \<Rightarrow> bool" where
  "IsAssistant guid g =
     (case getMemberSlot guid (m_memberSlots g) of
        None \<Rightarrow> False
      | Some k \<Rightarrow> ms_flags (m_memberSlots g ! k) AND MEMBER_FLAG_ASSISTANT \<noteq> 0)"

fun member_guid_by_name :: "string \<Rightarrow> member_slot list \<Rightarrow> u64" where
  "member_guid_by_name name [] = 0"
| "member_guid_by_name name (m # ms) = (if ms_name m = name then ms_guid m else member_guid_by_name name ms)"

definition GetMemberGUID :: "string \<Rightarrow> group \<Rightarrow> u64" where
  "GetMemberGUID name g = member_guid_by_name name (m_memberSlots g)"

definition GetMemberGroup :: "u64 \<Rightarrow> group \<Rightarrow> u8" where
  "GetMemberGroup guid g =
     (case getMemberSlot guid (m_memberSlots g) of
        None \<Rightarrow> of_nat (MAX_RAID_SUBGROUPS + 1)
      | Some k \<Rightarrow> ms_group (m_memberSlots g ! k))"

definition SameSubGroup :: "u64 \<Rightarrow> u64 \<Rightarrow> group \<Rightarrow> bool" where
  "SameSubGroup guid1 guid2 g =
     (case getMemberSlot guid2 (m_memberSlots g) of
        None \<Rightarrow> False
      | Some k2 \<Rightarrow>
          (case getMemberSlot guid1 (m_memberSlots g) of
             None \<Rightarrow> False
           | Some k1 \<Rightarrow> ms_group (m_memberSlots g ! k1) = ms_group (m_memberSlots g ! k2)))"

definition HasFreeSlotSubGroup :: "nat \<Rightarrow> u8 \<Rightarrow> bool gm" where
  "HasFreeSlotSubGroup this subgroup = g_bind (g_group this) (\<lambda>g.
     case m_subGroupsCounts g of
       None \<Rightarrow> g_ret False
     | Some cs \<Rightarrow>
         if unat subgroup < length cs then g_ret (unat (cs ! unat subgroup) < MAXGROUPSIZE) else g_fail BadSubGroup)"

section \<open>Packets\<close>

abbreviation SMSG_GROUP_INVITE :: u16 where "SMSG_GROUP_INVITE \<equiv> 0x06F"
abbreviation SMSG_GROUP_DECLINE :: u16 where "SMSG_GROUP_DECLINE \<equiv> 0x074"
abbreviation SMSG_GROUP_UNINVITE :: u16 where "SMSG_GROUP_UNINVITE \<equiv> 0x077"
abbreviation SMSG_GROUP_SET_LEADER :: u16 where "SMSG_GROUP_SET_LEADER \<equiv> 0x079"
abbreviation SMSG_GROUP_DESTROYED :: u16 where "SMSG_GROUP_DESTROYED \<equiv> 0x07C"
abbreviation SMSG_GROUP_LIST :: u16 where "SMSG_GROUP_LIST \<equiv> 0x07D"
abbreviation SMSG_PARTY_COMMAND_RESULT :: u16 where "SMSG_PARTY_COMMAND_RESULT \<equiv> 0x07F"
abbreviation MSG_RAID_TARGET_UPDATE :: u16 where "MSG_RAID_TARGET_UPDATE \<equiv> 0x321"
abbreviation MSG_RAID_READY_CHECK :: u16 where "MSG_RAID_READY_CHECK \<equiv> 0x322"
abbreviation MSG_RAID_READY_CHECK_CONFIRM :: u16 where "MSG_RAID_READY_CHECK_CONFIRM \<equiv> 0x3AE"

definition member_entry :: "group_world \<Rightarrow> group \<Rightarrow> member_slot \<Rightarrow> pkt_op list" where
  "member_entry w g m =
     [OutStr (ms_name m), Out64 (ms_guid m),
      Out8 ((case FindGPlayer w (ms_guid m) of None \<Rightarrow> MEMBER_STATUS_OFFLINE | Some _ \<Rightarrow> MEMBER_STATUS_ONLINE) OR
            (if isBGGroup g then MEMBER_STATUS_PVP else 0)),
      Out8 (ms_group m), Out8 (ms_flags m), Out8 (ms_roles m)]"

definition group_list :: "group_world \<Rightarrow> group \<Rightarrow> member_slot \<Rightarrow> world_packet" where
  "group_list w g slot =
     wp_add ([Out8 (m_groupType g), Out8 (ms_group slot), Out8 (ms_flags slot), Out8 (ms_roles slot),
              Out64 (m_guid g), Out32 (m_counter g), Out32 (GetMembersCount g - 1)] @
             concat (map (member_entry w g) (filter (\<lambda>m. ms_guid slot \<noteq> ms_guid m) (m_memberSlots g))) @
             [Out64 (m_leaderGuid g)] @
             (if GetMembersCount g - 1 \<noteq> 0
              then [Out8 (ucast (m_lootMethod g)), Out64 (m_looterGuid g), Out8 (ucast (m_lootThreshold g)),
                    Out8 (m_dungeonDifficulty g), Out8 (m_raidDifficulty g), Out8 0]
              else []))
       (new_WorldPacket SMSG_GROUP_LIST)"

definition SendUpdateToPlayer :: "nat \<Rightarrow> u64 \<Rightarrow> member_slot option \<Rightarrow> unit gm" where
  "SendUpdateToPlayer this playerGUID slot = g_bind (g_group this) (\<lambda>g. g_bind (g_get (\<lambda>w. w)) (\<lambda>w.
     case FindGPlayer w playerGUID of
       None \<Rightarrow> g_ret ()
     | Some player \<Rightarrow>
         if gp_group player \<noteq> Some this then g_ret ()
         else case (case slot of Some m \<Rightarrow> Some m
                    | None \<Rightarrow> map_option ((!) (m_memberSlots g)) (getMemberSlot playerGUID (m_memberSlots g))) of
                None \<Rightarrow> g_ret ()
              | Some m \<Rightarrow>
                  g_then (set_group this (\<lambda>g. g\<lparr>m_counter := m_counter g + 1\<rparr>))
                    (g_emit [GSend playerGUID (group_list w g m)])))"

definition SendUpdate :: "nat \<Rightarrow> unit gm" where
  "SendUpdate this = g_bind (g_group this) (\<lambda>g.
     g_for (m_memberSlots g) (\<lambda>m. SendUpdateToPlayer this (ms_guid m) (Some m)))"

fun ref_sub :: "group_ref \<Rightarrow> gplayer \<Rightarrow> u8" where
  "ref_sub MGroup pl = gp_subGroup pl"
| "ref_sub MOriginal pl = gp_originalSubGroup pl"

fun ref_target :: "group_ref \<Rightarrow> gplayer \<Rightarrow> nat option" where
  "ref_target MGroup pl = gp_group pl"
| "ref_target MOriginal pl = gp_originalGroup pl"

fun set_ref :: "group_ref \<Rightarrow> nat option \<Rightarrow> gplayer \<Rightarrow> gplayer" where
  "set_ref MGroup t pl = pl\<lparr>gp_group := t\<rparr>"
| "set_ref MOriginal t pl = pl\<lparr>gp_originalGroup := t\<rparr>"

fun set_ref_sub :: "group_ref \<Rightarrow> u8 \<Rightarrow> gplayer \<Rightarrow> gplayer" where
  "set_ref_sub MGroup s pl = pl\<lparr>gp_subGroup := s\<rparr>"
| "set_ref_sub MOriginal s pl = pl\<lparr>gp_originalSubGroup := s\<rparr>"

text \<open>\<open>sub\<close> is the parameter \<^verbatim>\<open>group\<close>, with \<open>None\<close> for -1.\<close>

definition BroadcastPacket :: "nat \<Rightarrow> world_packet \<Rightarrow> bool \<Rightarrow> u8 option \<Rightarrow> u64 \<Rightarrow> unit gm" where
  "BroadcastPacket this pkt ignorePlayersInBGRaid sub ignore = g_bind (g_group this) (\<lambda>g.
     g_for (m_memberMgr g) (\<lambda>(p, k). g_bind (g_player p) (\<lambda>player.
       if (ignore \<noteq> 0 \<and> p = ignore) \<or> (ignorePlayersInBGRaid \<and> gp_group player \<noteq> Some this) then g_ret ()
       else g_when (gp_session player \<and> (case sub of None \<Rightarrow> True | Some s \<Rightarrow> ref_sub k player = s)) (g_emit [GSend p pkt]))))"

definition BroadcastReadyCheck :: "nat \<Rightarrow> world_packet \<Rightarrow> unit gm" where
  "BroadcastReadyCheck this pkt = g_bind (g_group this) (\<lambda>g.
     g_for (m_memberMgr g) (\<lambda>(p, k). g_bind (g_player p) (\<lambda>player.
       g_when (gp_session player \<and> (IsLeader p g \<or> IsAssistant p g)) (g_emit [GSend p pkt]))))"

definition OfflineReadyCheck :: "nat \<Rightarrow> unit gm" where
  "OfflineReadyCheck this = g_bind (g_group this) (\<lambda>g. g_bind (g_get (\<lambda>w. w)) (\<lambda>w.
     g_for (m_memberSlots g) (\<lambda>m.
       g_when (FindGPlayer w (ms_guid m) = None)
         (BroadcastReadyCheck this (wp_add [Out64 (ms_guid m), Out8 0] (new_WorldPacket MSG_RAID_READY_CHECK_CONFIRM))))))"

definition BroadcastGroupUpdate :: "nat \<Rightarrow> unit gm" where
  "BroadcastGroupUpdate this = g_bind (g_group this) (\<lambda>g. g_bind (g_get (\<lambda>w. w)) (\<lambda>w.
     g_for (m_memberSlots g) (\<lambda>m.
       case FindGPlayer w (ms_guid m) of
         None \<Rightarrow> g_ret ()
       | Some pp \<Rightarrow>
           g_when (gp_IsInWorld pp)
             (g_emit [GCall ''ForceValuesUpdate UNIT_FIELD_BYTES_2'' (ms_guid m),
                      GCall ''ForceValuesUpdate UNIT_FIELD_FACTIONTEMPLATE'' (ms_guid m)]))))"

definition SendTargetIconList :: "nat \<Rightarrow> u64 \<Rightarrow> unit gm" where
  "SendTargetIconList this p = g_bind (g_group this) (\<lambda>g.
     g_emit [GSend p (wp_add (Out8 1 # concat (map (\<lambda>i. if m_targetIcons g ! i = 0 then []
         else [Out8 (of_nat i), Out64 (m_targetIcons g ! i)]) [0..<TARGETICONCOUNT]))
       (new_WorldPacket MSG_RAID_TARGET_UPDATE))])"

section \<open>References of players to groups\<close>

definition unlink_ref :: "group_ref \<Rightarrow> u64 \<Rightarrow> unit gm" where
  "unlink_ref k p = g_bind (g_player p) (\<lambda>pl.
     case ref_target k pl of
       None \<Rightarrow> g_ret ()
     | Some a \<Rightarrow>
         g_then (set_group a (\<lambda>g. g\<lparr>m_memberMgr := remove1 (p, k) (m_memberMgr g)\<rparr>))
           (set_player p (set_ref k None)))"

definition link_ref :: "group_ref \<Rightarrow> nat \<Rightarrow> u8 \<Rightarrow> u64 \<Rightarrow> unit gm" where
  "link_ref k a sub p =
     g_then (unlink_ref k p)
       (g_then (set_player p (set_ref k (Some a)))
         (g_then (set_group a (\<lambda>g. g\<lparr>m_memberMgr := (p, k) # m_memberMgr g\<rparr>))
           (set_player p (set_ref_sub k sub))))"

text \<open>The sub group is passed as \<^verbatim>\<open>int8\<close> and has to be non-negative.\<close>

definition Player_SetGroup :: "(nat \<times> u8) option \<Rightarrow> u64 \<Rightarrow> unit gm" where
  "Player_SetGroup t p =
     g_then (case t of None \<Rightarrow> unlink_ref MGroup p
             | Some (a, sub) \<Rightarrow> if 0 \<le> sint sub then link_ref MGroup a sub p else g_fail AssertFailed)
       (g_emit [GCall ''UpdateObjectVisibility'' p])"

definition SetOriginalGroup :: "(nat \<times> u8) option \<Rightarrow> u64 \<Rightarrow> unit gm" where
  "SetOriginalGroup t p =
     (case t of None \<Rightarrow> unlink_ref MOriginal p
      | Some (a, sub) \<Rightarrow> if 0 \<le> sint sub then link_ref MOriginal a sub p else g_fail AssertFailed)"

definition SetBattlegroundRaid :: "nat \<Rightarrow> u8 \<Rightarrow> u64 \<Rightarrow> unit gm" where
  "SetBattlegroundRaid a sub p = g_bind (g_player p) (\<lambda>pl.
     g_then (SetOriginalGroup (map_option (\<lambda>o1. (o1, gp_subGroup pl)) (gp_group pl)) p)
       (g_then (unlink_ref MGroup p) (link_ref MGroup a sub p)))"

definition RemoveFromBattlegroundRaid :: "u64 \<Rightarrow> unit gm" where
  "RemoveFromBattlegroundRaid p =
     g_then (unlink_ref MGroup p)
       (g_bind (g_player p) (\<lambda>pl.
          g_then (case gp_originalGroup pl of None \<Rightarrow> g_ret ()
                  | Some a \<Rightarrow> link_ref MGroup a (gp_originalSubGroup pl) p)
            (SetOriginalGroup None p)))"

text \<open>
  \<^verbatim>\<open>Group::DelinkMember\<close>: the first reference in the list whose player has the guid is unlinked.
\<close>

definition DelinkMember :: "nat \<Rightarrow> u64 \<Rightarrow> unit gm" where
  "DelinkMember this guid = g_bind (g_group this) (\<lambda>g.
     case filter (\<lambda>e. fst e = guid) (m_memberMgr g) of
       [] \<Rightarrow> g_ret ()
     | e # _ \<Rightarrow> unlink_ref (snd e) guid)"

text \<open>The destructor: the list of references invalidates the references that are left.\<close>

definition delete_group :: "nat \<Rightarrow> unit gm" where
  "delete_group a = g_bind (g_group a) (\<lambda>g.
     g_then (g_for (m_memberMgr g) (\<lambda>(p, k). set_player p (set_ref k None)))
       (g_then (g_modify (\<lambda>w. w\<lparr>gw_groups := (gw_groups w)(a := None)\<rparr>))
         (g_emit [GCallGroup ''InstanceSave::RemoveGroup'' a])))"

text \<open>\<^verbatim>\<open>new Group\<close>: a fresh address.\<close>

definition alloc_group :: "nat gm" where
  "alloc_group = g_bind (g_get gw_fresh) (\<lambda>a.
     g_then (g_modify (\<lambda>w. put_group a new_Group (w\<lparr>gw_fresh := a + 1\<rparr>))) (g_ret a))"

section \<open>The group manager\<close>

function find_free_store_id :: "nat \<Rightarrow> nat option list \<Rightarrow> nat option" where
  "find_free_store_id i store =
     (if i < 0xFFFFFFFF
      then if i < length store \<and> store ! i = None \<or> length store \<le> i then Some i else find_free_store_id (i + 1) store
      else None)"
  by pat_completeness auto

termination find_free_store_id
  by (relation "measure (\<lambda>(i, store). length store - i)") auto

declare find_free_store_id.simps [simp del]

text \<open>\<^verbatim>\<open>World::StopNow\<close> only tells the main loop to stop: the caller goes on.\<close>

definition StopNow :: "unit gm" where
  "StopNow = g_emit [GCall ''World::StopNow'' 0]"

definition GenerateNewGroupDbStoreId :: "u32 gm" where
  "GenerateNewGroupDbStoreId = g_bind (g_get (\<lambda>w. w)) (\<lambda>w.
     let newStorageId = NextGroupDbStoreId w;
         i = NextGroupDbStoreId w + 1;
         nxt = (case find_free_store_id (unat i) (GroupDbStore w) of Some j \<Rightarrow> of_nat j | None \<Rightarrow> i)
     in g_then (g_modify (\<lambda>w. w\<lparr>NextGroupDbStoreId := nxt\<rparr>))
          (g_then (g_when (newStorageId = nxt) StopNow) (g_ret newStorageId)))"

text \<open>\<^verbatim>\<open>resize\<close> fills with null pointers.\<close>

definition RegisterGroupDbStoreId :: "u32 \<Rightarrow> nat \<Rightarrow> unit gm" where
  "RegisterGroupDbStoreId storageId a = g_modify (\<lambda>w.
     let store = (if length (GroupDbStore w) \<le> unat storageId
                  then GroupDbStore w @ replicate (unat storageId + 1 - length (GroupDbStore w)) None else GroupDbStore w)
     in w\<lparr>GroupDbStore := store[unat storageId := Some a]\<rparr>)"

definition FreeGroupDbStoreId :: "nat \<Rightarrow> unit gm" where
  "FreeGroupDbStoreId a = g_bind (g_group a) (\<lambda>g. g_bind (g_get (\<lambda>w. w)) (\<lambda>w.
     let storageId = m_dbStoreId g in
     if length (GroupDbStore w) \<le> unat storageId then g_fail BadStoreId
     else g_modify (\<lambda>w. w\<lparr>NextGroupDbStoreId := (if storageId < NextGroupDbStoreId w then storageId else NextGroupDbStoreId w),
                          GroupDbStore := (GroupDbStore w)[unat storageId := None]\<rparr>)))"

definition GetGroupByDbStoreId :: "group_world \<Rightarrow> u32 \<Rightarrow> nat option" where
  "GetGroupByDbStoreId w storageId =
     (if unat storageId < length (GroupDbStore w) then GroupDbStore w ! unat storageId else None)"

definition GenerateGroupId :: "u32 gm" where
  "GenerateGroupId = g_bind (g_get NextGroupId) (\<lambda>n.
     g_then (g_when (0xFFFFFFFE \<le> n) StopNow)
       (g_then (g_modify (\<lambda>w. w\<lparr>NextGroupId := n + 1\<rparr>)) (g_ret n)))"

definition GetLowGUID :: "group \<Rightarrow> u32" where
  "GetLowGUID g = GUID_LOPART (m_guid g)"

definition GetGroupByGUID :: "group_world \<Rightarrow> u32 \<Rightarrow> nat option" where
  "GetGroupByGUID w groupId = GroupStore w groupId"

definition AddGroup :: "nat \<Rightarrow> unit gm" where
  "AddGroup a = g_bind (g_group a) (\<lambda>g. g_modify (\<lambda>w. w\<lparr>GroupStore := (GroupStore w)(GetLowGUID g \<mapsto> a)\<rparr>))"

definition RemoveGroup :: "nat \<Rightarrow> unit gm" where
  "RemoveGroup a = g_bind (g_group a) (\<lambda>g. g_modify (\<lambda>w. w\<lparr>GroupStore := (GroupStore w)(GetLowGUID g := None)\<rparr>))"

section \<open>Sub groups\<close>

definition bump_count :: "(u8 \<Rightarrow> u8) \<Rightarrow> nat \<Rightarrow> u8 \<Rightarrow> unit gm" where
  "bump_count f this subgroup = g_bind (g_group this) (\<lambda>g.
     case m_subGroupsCounts g of
       None \<Rightarrow> g_ret ()
     | Some cs \<Rightarrow>
         if unat subgroup < length cs
         then set_group this (\<lambda>g. g\<lparr>m_subGroupsCounts := Some (cs[unat subgroup := f (cs ! unat subgroup)])\<rparr>)
         else g_fail BadSubGroup)"

definition SubGroupCounterIncrease :: "nat \<Rightarrow> u8 \<Rightarrow> unit gm" where
  "SubGroupCounterIncrease = bump_count (\<lambda>n. n + 1)"

definition SubGroupCounterDecrease :: "nat \<Rightarrow> u8 \<Rightarrow> unit gm" where
  "SubGroupCounterDecrease = bump_count (\<lambda>n. n - 1)"

definition initRaidSubGroupsCounter :: "nat \<Rightarrow> unit gm" where
  "initRaidSubGroupsCounter this = g_bind (g_group this) (\<lambda>g.
     g_then (set_group this (\<lambda>g. g\<lparr>m_subGroupsCounts := Some (replicate MAX_RAID_SUBGROUPS 0)\<rparr>))
       (g_for (m_memberSlots g) (\<lambda>m. SubGroupCounterIncrease this (ms_group m))))"

definition upd_slot :: "nat \<Rightarrow> (member_slot \<Rightarrow> member_slot) \<Rightarrow> group \<Rightarrow> group" where
  "upd_slot k f g = g\<lparr>m_memberSlots := (m_memberSlots g)[k := f (m_memberSlots g ! k)]\<rparr>"

definition update_subgroup_row :: "group \<Rightarrow> u64 \<Rightarrow> u8 \<Rightarrow> unit gm" where
  "update_subgroup_row g guid sub =
     g_when (\<not> isBGGroup g) (g_emit [GDb ''CHAR_UPD_GROUP_MEMBER_SUBGROUP'' [DbU8 sub, DbU32 (GUID_LOPART guid)]])"

definition setMembersGroup :: "nat \<Rightarrow> u64 \<Rightarrow> u8 \<Rightarrow> bool gm" where
  "setMembersGroup this guid sub = g_bind (g_group this) (\<lambda>g.
     case getMemberSlot guid (m_memberSlots g) of
       None \<Rightarrow> g_ret False
     | Some k \<Rightarrow>
         g_then (set_group this (upd_slot k (\<lambda>m. m\<lparr>ms_group := sub\<rparr>)))
           (g_then (SubGroupCounterIncrease this sub) (g_then (update_subgroup_row g guid sub) (g_ret True))))"

definition ChangeMembersGroup :: "nat \<Rightarrow> u64 \<Rightarrow> u8 \<Rightarrow> unit gm" where
  "ChangeMembersGroup this guid sub = g_bind (g_group this) (\<lambda>g.
     if \<not> isRaidGroup g then g_ret ()
     else case getMemberSlot guid (m_memberSlots g) of
            None \<Rightarrow> g_ret ()
          | Some k \<Rightarrow>
              let prevSubGroup = GetMemberGroup guid g in
              if prevSubGroup = sub then g_ret ()
              else g_then (set_group this (upd_slot k (\<lambda>m. m\<lparr>ms_group := sub\<rparr>)))
                (g_then (SubGroupCounterIncrease this sub)
                (g_then (SubGroupCounterDecrease this prevSubGroup)
                (g_then (update_subgroup_row g guid sub)
                (g_bind (g_get (\<lambda>w. FindGPlayer w guid)) (\<lambda>player.
                   g_then (case player of None \<Rightarrow> g_ret ()
                           | Some pl \<Rightarrow> set_player guid (set_ref_sub (if gp_group pl = Some this then MGroup else MOriginal) sub))
                     (SendUpdate this)))))))"

section \<open>Invitations\<close>

definition RemoveInvite :: "nat \<Rightarrow> u64 \<Rightarrow> unit gm" where
  "RemoveInvite this p =
     g_then (set_group this (\<lambda>g. g\<lparr>m_invitees := removeAll p (m_invitees g)\<rparr>))
       (set_player p (\<lambda>pl. pl\<lparr>gp_groupInvite := None\<rparr>))"

definition RemoveAllInvites :: "nat \<Rightarrow> unit gm" where
  "RemoveAllInvites this = g_bind (g_group this) (\<lambda>g.
     g_then (g_for (m_invitees g) (\<lambda>p. set_player p (\<lambda>pl. pl\<lparr>gp_groupInvite := None\<rparr>)))
       (set_group this (\<lambda>g. g\<lparr>m_invitees := []\<rparr>)))"

text \<open>A player's group, or the one he had before he joined a battleground raid.\<close>

definition group_or_original :: "gplayer \<Rightarrow> nat option gm" where
  "group_or_original pl =
     (case gp_group pl of
        None \<Rightarrow> g_ret None
      | Some a \<Rightarrow> g_bind (g_group a) (\<lambda>g. g_ret (if isBGGroup g then gp_originalGroup pl else Some a)))"

definition AddInvite :: "nat \<Rightarrow> u64 \<Rightarrow> bool gm" where
  "AddInvite this p = g_bind (g_player p) (\<lambda>pl.
     if gp_groupInvite pl \<noteq> None then g_ret False
     else g_bind (group_or_original pl) (\<lambda>grp.
       if grp \<noteq> None then g_ret False
       else g_then (RemoveInvite this p)
         (g_then (set_group this (\<lambda>g. g\<lparr>m_invitees := List.insert p (m_invitees g)\<rparr>))
         (g_then (set_player p (\<lambda>pl. pl\<lparr>gp_groupInvite := Some this\<rparr>))
         (g_then (g_emit [GCall ''OnGroupInviteMember'' p]) (g_ret True))))))"

definition AddLeaderInvite :: "nat \<Rightarrow> u64 \<Rightarrow> bool gm" where
  "AddLeaderInvite this p = g_bind (AddInvite this p) (\<lambda>ok.
     if \<not> ok then g_ret False
     else g_bind (g_player p) (\<lambda>pl.
       g_then (set_group this (\<lambda>g. g\<lparr>m_leaderGuid := p, m_leaderName := gp_name pl\<rparr>)) (g_ret True)))"

text \<open>\<^verbatim>\<open>GetInvited\<close> looks at the players behind the pointers in the set.\<close>

definition GetInvited :: "(u64 \<Rightarrow> gplayer \<Rightarrow> bool) \<Rightarrow> nat \<Rightarrow> u64 option gm" where
  "GetInvited P this = g_bind (g_group this) (\<lambda>g w.
     if \<exists>p\<in>set (m_invitees g). gw_players w p = None then Inl DanglingPlayer
     else Inr (case filter (\<lambda>p. P p (the (gw_players w p))) (m_invitees g) of [] \<Rightarrow> None | p # _ \<Rightarrow> Some p, w, []))"

section \<open>Members\<close>

text \<open>The first sub group that is not full; \<open>None\<close> when all are.\<close>

fun free_subgroup :: "u8 list \<Rightarrow> u8 option" where
  "free_subgroup [] = None"
| "free_subgroup (c # cs) = (if unat c < MAXGROUPSIZE then Some 0 else map_option (\<lambda>n. n + 1) (free_subgroup cs))"

definition difficulty_sync :: "nat \<Rightarrow> u64 \<Rightarrow> unit gm" where
  "difficulty_sync this p = g_bind (g_group this) (\<lambda>g. g_bind (g_player p) (\<lambda>pl.
     g_when (LEVELREQUIREMENT_HEROIC \<le> gp_level pl)
       (g_then (g_when (gp_dungeonDifficulty pl \<noteq> m_dungeonDifficulty g)
                 (g_then (set_player p (\<lambda>pl. pl\<lparr>gp_dungeonDifficulty := m_dungeonDifficulty g\<rparr>))
                   (g_emit [GCall ''SendDungeonDifficulty'' p])))
         (g_when (gp_raidDifficulty pl \<noteq> m_raidDifficulty g)
           (g_then (set_player p (\<lambda>pl. pl\<lparr>gp_raidDifficulty := m_raidDifficulty g\<rparr>))
             (g_emit [GCall ''SendRaidDifficulty'' p]))))))"

text \<open>The player's pointers: his invitation ends, and one of his references is linked to the group.\<close>

definition attach_player :: "group_env \<Rightarrow> nat \<Rightarrow> u8 \<Rightarrow> u64 \<Rightarrow> unit gm" where
  "attach_player env this sub p =
     g_then (set_player p (\<lambda>pl. pl\<lparr>gp_groupInvite := None\<rparr>))
       (g_bind (g_player p) (\<lambda>pl. g_bind (g_group this) (\<lambda>g.
          g_then (if gp_group pl \<noteq> None \<and> isBGGroup g then SetBattlegroundRaid this sub p
                  else if gp_group pl \<noteq> None then SetOriginalGroup (Some (this, sub)) p
                  else Player_SetGroup (Some (this, sub)) p)
            (g_when (ge_in_bound_instance env this p) (set_player p (\<lambda>pl. pl\<lparr>gp_InstanceValid := True\<rparr>))))))"

definition member_row :: "group \<Rightarrow> member_slot \<Rightarrow> db_value list" where
  "member_row g m =
     [DbU32 (m_dbStoreId g), DbU32 (GUID_LOPART (ms_guid m)), DbU8 (ms_flags m), DbU8 (ms_group m), DbU8 (ms_roles m)]"

definition raise_enchanting :: "nat \<Rightarrow> u64 \<Rightarrow> unit gm" where
  "raise_enchanting this p = g_bind (g_player p) (\<lambda>pl.
     set_group this (\<lambda>g. if m_maxEnchantingLevel g < gp_enchanting pl then g\<lparr>m_maxEnchantingLevel := gp_enchanting pl\<rparr> else g))"

definition AddMember :: "group_env \<Rightarrow> nat \<Rightarrow> u64 \<Rightarrow> bool gm" where
  "AddMember env this p = g_bind (g_group this) (\<lambda>g.
     case (case m_subGroupsCounts g of None \<Rightarrow> Some 0 | Some cs \<Rightarrow> free_subgroup (take MAX_RAID_SUBGROUPS cs)) of
       None \<Rightarrow> g_ret False
     | Some subGroup \<Rightarrow> g_bind (g_player p) (\<lambda>pl.
         let member = \<lparr>ms_guid = p, ms_name = gp_name pl, ms_group = subGroup, ms_flags = 0, ms_roles = 0\<rparr> in
         g_then (set_group this (\<lambda>g. g\<lparr>m_memberSlots := m_memberSlots g @ [member]\<rparr>))
         (g_then (SubGroupCounterIncrease this subGroup)
         (g_then (attach_player env this subGroup p)
         (g_then (set_group this (\<lambda>g. if isRaidGroup g then g else g\<lparr>m_targetIcons := replicate TARGETICONCOUNT 0\<rparr>))
         (g_then (g_when (\<not> isBGGroup g) (g_emit [GDb ''CHAR_INS_GROUP_MEMBER'' (member_row g member)]))
         (g_then (SendUpdate this)
         (g_then (g_emit [GCall ''OnGroupAddMember'' p])
         (g_then (g_when (\<not> IsLeader p g \<and> \<not> isBGGroup g)
                    (g_then (g_emit [GCall ''ResetInstances dungeon'' p, GCall ''ResetInstances raid'' p]) (difficulty_sync this p)))
         (g_then (g_emit [GCall ''SetGroupUpdateFlag FULL'' p, GCall ''UpdatePlayerOutOfRange'' p])
         (g_then (g_when (isRaidGroup g) (g_emit [GCall ''UpdateForQuestWorldObjects'' p]))
         (g_then (raise_enchanting this p) (g_ret True)))))))))))))"

definition group_row :: "group \<Rightarrow> db_value list" where
  "group_row g =
     [DbU32 (m_dbStoreId g), DbU32 (GUID_LOPART (m_leaderGuid g)), DbU8 (ucast (m_lootMethod g)),
      DbU32 (GUID_LOPART (m_looterGuid g)), DbU8 (ucast (m_lootThreshold g))] @
     map (\<lambda>i. DbU32 (ucast (m_targetIcons g ! i))) [0..<TARGETICONCOUNT] @
     [DbU8 (m_groupType g), DbU32 (ucast (m_dungeonDifficulty g)), DbU32 (ucast (m_raidDifficulty g))]"

definition Group_Create :: "group_env \<Rightarrow> nat \<Rightarrow> u64 \<Rightarrow> bool gm" where
  "Group_Create env this leader = g_bind (g_player leader) (\<lambda>pl. g_bind GenerateGroupId (\<lambda>lowguid.
     g_bind (g_group this) (\<lambda>g.
     g_then (set_group this (\<lambda>g. g\<lparr>m_guid := MAKE_NEW_GUID lowguid 0 (high_code HIGHGUID_GROUP), m_leaderGuid := leader,
               m_leaderName := gp_name pl, m_groupType := (if isBGGroup g then GROUPTYPE_BGRAID else GROUPTYPE_NORMAL)\<rparr>))
     (g_then (g_when (isBGGroup g) (initRaidSubGroupsCounter this))
     (g_then (set_group this (\<lambda>g. g\<lparr>m_lootMethod := GROUP_LOOT, m_lootThreshold := ITEM_QUALITY_UNCOMMON,
               m_looterGuid := leader, m_dungeonDifficulty := 0, m_raidDifficulty := 0\<rparr>))
     (if isBGGroup g then AddMember env this leader
      else g_then (set_group this (\<lambda>g. g\<lparr>m_dungeonDifficulty := gp_dungeonDifficulty pl, m_raidDifficulty := gp_raidDifficulty pl\<rparr>))
        (g_bind GenerateNewGroupDbStoreId (\<lambda>id.
         g_then (set_group this (\<lambda>g. g\<lparr>m_dbStoreId := id\<rparr>))
         (g_then (RegisterGroupDbStoreId id this)
         (g_bind (g_group this) (\<lambda>g.
         g_then (g_emit [GDb ''CHAR_INS_GROUP'' (group_row g)])
         (g_bind (AddMember env this leader) (\<lambda>ok.
            if \<not> ok then g_fail AssertFailed
            else g_then (g_emit [GCall ''ConvertInstancesToGroup'' leader]) (g_ret True))))))))))))))"

definition ConvertToRaid :: "nat \<Rightarrow> unit gm" where
  "ConvertToRaid this =
     g_then (set_group this (\<lambda>g. g\<lparr>m_groupType := m_groupType g OR GROUPTYPE_RAID\<rparr>))
     (g_then (initRaidSubGroupsCounter this)
     (g_bind (g_group this) (\<lambda>g.
      g_then (g_when (\<not> isBGGroup g) (g_emit [GDb ''CHAR_UPD_GROUP_TYPE'' [DbU8 (m_groupType g), DbU32 (m_dbStoreId g)]]))
      (g_then (SendUpdate this)
      (g_bind (g_get (\<lambda>w. w)) (\<lambda>w.
       g_for (m_memberSlots g) (\<lambda>m.
         g_when (FindGPlayer w (ms_guid m) \<noteq> None) (g_emit [GCall ''UpdateForQuestWorldObjects'' (ms_guid m)]))))))))"

section \<open>Leaving\<close>

definition ToggleGroupMemberFlag :: "nat \<Rightarrow> u8 \<Rightarrow> bool \<Rightarrow> group \<Rightarrow> group" where
  "ToggleGroupMemberFlag k flag apply' =
     upd_slot k (\<lambda>m. m\<lparr>ms_flags := (if apply' then ms_flags m OR flag else ms_flags m AND NOT flag)\<rparr>)"

definition ChangeLeader :: "nat \<Rightarrow> u64 \<Rightarrow> unit gm" where
  "ChangeLeader this guid = g_bind (g_group this) (\<lambda>g. g_bind (g_get (\<lambda>w. FindGPlayer w guid)) (\<lambda>player.
     case (getMemberSlot guid (m_memberSlots g), player) of
       (Some k, Some pl) \<Rightarrow>
         g_then (g_emit [GCall ''OnGroupChangeLeader'' guid])
         (g_then (g_when (\<not> isBGGroup g)
            (g_emit [GCallGroup ''RemovePermanentBindings'' this,
                     GDb ''CHAR_DEL_GROUP_INSTANCE_PERM_BINDING'' [DbU32 (m_dbStoreId g), DbU32 (GUID_LOPART guid)],
                     GCall ''ConvertInstancesToGroup'' guid,
                     GDb ''CHAR_UPD_GROUP_LEADER'' [DbU32 (GUID_LOPART guid), DbU32 (m_dbStoreId g)]]))
         (g_then (set_group this (\<lambda>g. ToggleGroupMemberFlag k MEMBER_FLAG_ASSISTANT False
                                         (g\<lparr>m_leaderGuid := guid, m_leaderName := gp_name pl\<rparr>)))
           (BroadcastPacket this (wp_add [OutStr (ms_name (m_memberSlots g ! k))] (new_WorldPacket SMSG_GROUP_SET_LEADER))
              True None 0)))
     | _ \<Rightarrow> g_ret ()))"

definition homebindIfInstance :: "group_env \<Rightarrow> u64 \<Rightarrow> unit gm" where
  "homebindIfInstance env p = g_bind (g_player p) (\<lambda>pl.
     g_when (\<not> gp_gm_tag pl \<and> ge_IsDungeon env (gp_mapId pl)) (set_player p (\<lambda>pl. pl\<lparr>gp_InstanceValid := False\<rparr>)))"

text \<open>The empty group list a player gets when he is out.\<close>

definition left_group_list :: "group \<Rightarrow> world_packet" where
  "left_group_list g =
     wp_add [Out8 0x10, Out8 0, Out8 0, Out8 0, Out64 (m_guid g), Out32 (m_counter g), Out32 0, Out64 0]
       (new_WorldPacket SMSG_GROUP_LIST)"

definition detach_player :: "nat \<Rightarrow> group \<Rightarrow> u64 \<Rightarrow> unit gm" where
  "detach_player this g p =
     (if isBGGroup g then RemoveFromBattlegroundRaid p
      else g_bind (g_player p) (\<lambda>pl. if gp_originalGroup pl = Some this then SetOriginalGroup None p else Player_SetGroup None p))"

text \<open>One member of a group that is disbanded.\<close>

definition disband_member :: "group_env \<Rightarrow> nat \<Rightarrow> bool \<Rightarrow> u64 \<Rightarrow> unit gm" where
  "disband_member env this hideDestroy p = g_bind (g_get (\<lambda>w. FindGPlayer w p)) (\<lambda>player.
     if player = None then g_ret ()
     else g_bind (g_group this) (\<lambda>g.
       g_then (detach_player this g p)
       (g_then (g_when (isRaidGroup g) (g_emit [GCall ''UpdateForQuestWorldObjects'' p]))
       (g_then (g_when (\<not> hideDestroy) (g_emit [GSend p (new_WorldPacket SMSG_GROUP_DESTROYED)]))
       (g_bind (g_player p) (\<lambda>pl.
        g_then (case gp_group pl of
                  Some a \<Rightarrow> SendUpdate a
                | None \<Rightarrow> g_bind (g_group this) (\<lambda>g. g_emit [GSend p (left_group_list g)]))
          (homebindIfInstance env p)))))))"

definition Disband :: "group_env \<Rightarrow> nat \<Rightarrow> bool \<Rightarrow> unit gm" where
  "Disband env this hideDestroy = g_bind (g_group this) (\<lambda>g.
     g_then (g_emit [GCallGroup ''OnGroupDisband'' this])
     (g_then (g_for (m_memberSlots g) (\<lambda>m. disband_member env this hideDestroy (ms_guid m)))
     (g_then (set_group this (\<lambda>g. g\<lparr>m_RollId := [], m_memberSlots := []\<rparr>))
     (g_then (RemoveAllInvites this)
     (g_then (g_when (\<not> isBGGroup g)
        (g_then (g_emit [GDb ''DELETE FROM groups WHERE guid'' [DbU32 (m_dbStoreId g)],
                         GDb ''DELETE FROM group_member WHERE guid'' [DbU32 (m_dbStoreId g)],
                         GCallGroup ''ResetInstances dungeon'' this, GCallGroup ''ResetInstances raid'' this])
          (FreeGroupDbStoreId this)))
     (g_then (RemoveGroup this) (delete_group this)))))))"

definition ResetMaxEnchantingLevel :: "nat \<Rightarrow> unit gm" where
  "ResetMaxEnchantingLevel this = g_bind (g_get (\<lambda>w. w)) (\<lambda>w.
     set_group this (\<lambda>g. g\<lparr>m_maxEnchantingLevel :=
       foldl (\<lambda>lvl m. case FindGPlayer w (ms_guid m) of None \<Rightarrow> lvl | Some pl \<Rightarrow> max lvl (gp_enchanting pl)) 0 (m_memberSlots g)\<rparr>))"

definition erase_slot :: "nat \<Rightarrow> u64 \<Rightarrow> unit gm" where
  "erase_slot this guid = g_bind (g_group this) (\<lambda>g.
     case getMemberSlot guid (m_memberSlots g) of
       None \<Rightarrow> g_ret ()
     | Some k \<Rightarrow>
         g_then (SubGroupCounterDecrease this (ms_group (m_memberSlots g ! k)))
           (set_group this (\<lambda>g. g\<lparr>m_memberSlots := take k (m_memberSlots g) @ drop (Suc k) (m_memberSlots g)\<rparr>)))"

text \<open>The first member who is online becomes the leader.\<close>

definition pick_leader :: "nat \<Rightarrow> unit gm" where
  "pick_leader this = g_bind (g_group this) (\<lambda>g. g_bind (g_get (\<lambda>w. w)) (\<lambda>w.
     case filter (\<lambda>m. FindGPlayer w (ms_guid m) \<noteq> None) (m_memberSlots g) of
       [] \<Rightarrow> g_ret ()
     | m # _ \<Rightarrow> ChangeLeader this (ms_guid m)))"

text \<open>
  The loop over the rolls is \<open>leave_one\<close> for every roll; its calls of \<^verbatim>\<open>CountRollVote\<close> do nothing, as \<open>leave_rolls_map\<close>
  shows.
\<close>

definition RemoveMember :: "group_env \<Rightarrow> nat \<Rightarrow> u64 \<Rightarrow> bool \<Rightarrow> bool gm" where
  "RemoveMember env this guid kick =
     g_then (BroadcastGroupUpdate this)
     (g_then (g_emit [GCall ''OnGroupRemoveMember'' guid])
     (g_bind (g_group this) (\<lambda>g.
      if (if isBGGroup g then 1 else 2) < GetMembersCount g
      then g_bind (g_get (\<lambda>w. FindGPlayer w guid)) (\<lambda>player.
        g_then (case player of
                  None \<Rightarrow> g_ret ()
                | Some pl \<Rightarrow>
                    g_then (detach_player this g guid)
                    (g_then (g_when (\<not> isBGGroup g) (g_emit [GCall ''UpdateForQuestWorldObjects'' guid]))
                    (g_then (g_when kick (g_emit [GSend guid (new_WorldPacket SMSG_GROUP_UNINVITE)]))
                    (g_then (g_emit [GSend guid (left_group_list g)]) (homebindIfInstance env guid)))))
        (g_then (g_emit [GDb ''CHAR_DEL_GROUP_MEMBER'' [DbU32 (GUID_LOPART guid)]])
        (g_then (DelinkMember this guid)
        (g_then (g_when (case player of None \<Rightarrow> True | Some pl \<Rightarrow> gp_enchanting pl \<noteq> 0) (ResetMaxEnchantingLevel this))
        (g_then (set_group this (\<lambda>g. g\<lparr>m_RollId := map (leave_one guid) (m_RollId g)\<rparr>))
        (g_then (erase_slot this guid)
        (g_then (g_when (m_leaderGuid g = guid) (pick_leader this))
        (g_then (SendUpdate this)
        (g_bind (g_group this) (\<lambda>g.
         g_then (g_when (length (m_memberMgr g) < (if isBGGroup g then 1 else 2)) (Disband env this False)) (g_ret True)))))))))))
      else g_then (Disband env this False) (g_ret False))))"

section \<open>Player functions\<close>

definition Player_UninviteFromGroup :: "group_env \<Rightarrow> u64 \<Rightarrow> unit gm" where
  "Player_UninviteFromGroup env p = g_bind (g_player p) (\<lambda>pl.
     case gp_groupInvite pl of
       None \<Rightarrow> g_ret ()
     | Some a \<Rightarrow>
         g_then (RemoveInvite a p)
         (g_bind (g_group a) (\<lambda>g.
          if GetMembersCount g \<le> 1
          then if IsCreated g then Disband env a True
               else g_then (RemoveAllInvites a) (delete_group a)
          else g_ret ())))"

definition Player_RemoveFromGroup :: "group_env \<Rightarrow> nat option \<Rightarrow> u64 \<Rightarrow> bool \<Rightarrow> unit gm" where
  "Player_RemoveFromGroup env grp guid kick =
     (case grp of None \<Rightarrow> g_ret () | Some a \<Rightarrow> g_bind (RemoveMember env a guid kick) (\<lambda>_. g_ret ()))"

end
