(* ===== verification/Group_Handlers.thy ===== *)
theory Group_Handlers
  imports Group_Model
begin

text \<open>
  The rest of \<^verbatim>\<open>Group.cpp\<close> (flags, icons, looters, difficulties, loading) and the group opcodes of
  \<^verbatim>\<open>game/Handlers/GroupHandler.cpp\<close>, with the group part of logging in (\<^verbatim>\<open>Player::_LoadGroup\<close>) and logging out
  (\<^verbatim>\<open>WorldSession::LogoutPlayer\<close>).  A handler gets the player of the session and the fields it reads from the packet.
\<close>

section \<open>Flags, icons and looters\<close>

definition RemoveUniqueGroupMemberFlag :: "nat \<Rightarrow> u8 \<Rightarrow> unit gm" where
  "RemoveUniqueGroupMemberFlag this flag = set_group this (\<lambda>g. g\<lparr>m_memberSlots :=
     map (\<lambda>m. if ms_flags m AND flag \<noteq> 0 then m\<lparr>ms_flags := ms_flags m AND NOT flag\<rparr> else m) (m_memberSlots g)\<rparr>)"

text \<open>The statement's parameter 0 is bound twice, and parameter 1 is not bound: what is executed has the low guid in it.\<close>

definition SetGroupMemberFlag :: "nat \<Rightarrow> u64 \<Rightarrow> bool \<Rightarrow> u8 \<Rightarrow> unit gm" where
  "SetGroupMemberFlag this guid apply' flag = g_bind (g_group this) (\<lambda>g.
     if \<not> isRaidGroup g then g_ret ()
     else case getMemberSlot guid (m_memberSlots g) of
            None \<Rightarrow> g_ret ()
          | Some k \<Rightarrow>
              if flag \<notin> {MEMBER_FLAG_MAINASSIST, MEMBER_FLAG_MAINTANK, MEMBER_FLAG_ASSISTANT} then g_ret ()
              else g_then (g_when (flag = MEMBER_FLAG_MAINASSIST \<or> flag = MEMBER_FLAG_MAINTANK) (RemoveUniqueGroupMemberFlag this flag))
                (g_then (set_group this (ToggleGroupMemberFlag k flag apply'))
                (g_then (g_emit [GDb ''CHAR_UPD_GROUP_MEMBER_FLAG'' [DbU32 (GUID_LOPART guid)]])
                  (SendUpdate this))))"

text \<open>The inner call of \<^verbatim>\<open>SetTargetIcon\<close> with target 0 goes straight to the assignment.\<close>

definition put_icon :: "nat \<Rightarrow> u8 \<Rightarrow> u64 \<Rightarrow> u64 \<Rightarrow> unit gm" where
  "put_icon this icon whoGuid targetGuid =
     g_then (set_group this (\<lambda>g. g\<lparr>m_targetIcons := (m_targetIcons g)[unat icon := targetGuid]\<rparr>))
       (BroadcastPacket this (wp_add [Out8 0, Out64 whoGuid, Out8 icon, Out64 targetGuid] (new_WorldPacket MSG_RAID_TARGET_UPDATE))
          True None 0)"

definition SetTargetIcon :: "nat \<Rightarrow> u8 \<Rightarrow> u64 \<Rightarrow> u64 \<Rightarrow> unit gm" where
  "SetTargetIcon this icon whoGuid targetGuid =
     (if TARGETICONCOUNT \<le> unat icon then g_ret ()
      else g_then (g_when (targetGuid \<noteq> 0)
             (g_for [0..<TARGETICONCOUNT] (\<lambda>i. g_bind (g_group this) (\<lambda>g.
                g_when (m_targetIcons g ! i = targetGuid) (put_icon this (of_nat i) 0 0)))))
        (put_icon this icon whoGuid targetGuid))"

text \<open>\<open>near\<close>: the player is online and within reach of the looted object.  The search goes round from the slot after the looter.\<close>

definition next_looter :: "(u64 \<Rightarrow> bool) \<Rightarrow> nat \<Rightarrow> member_slot list \<Rightarrow> u64 option" where
  "next_looter near k ms =
     (case filter (\<lambda>m. near (ms_guid m)) (drop k ms) of
        m # _ \<Rightarrow> Some (ms_guid m)
      | [] \<Rightarrow> (case filter (\<lambda>m. near (ms_guid m)) (take k ms) of m # _ \<Rightarrow> Some (ms_guid m) | [] \<Rightarrow> None))"

definition UpdateLooterGuid :: "(u64 \<Rightarrow> bool) \<Rightarrow> nat \<Rightarrow> bool \<Rightarrow> unit gm" where
  "UpdateLooterGuid in_reach this ifneed = g_bind (g_group this) (\<lambda>g. g_bind (g_get (\<lambda>w. w)) (\<lambda>w.
     let near = (\<lambda>p. FindGPlayer w p \<noteq> None \<and> in_reach p);
         slot = getMemberSlot (m_looterGuid g) (m_memberSlots g);
         k = (case slot of None \<Rightarrow> length (m_memberSlots g) | Some k \<Rightarrow> Suc k)
     in if m_lootMethod g = MASTER_LOOT \<or> m_lootMethod g = FREE_FOR_ALL then g_ret ()
        else if slot \<noteq> None \<and> ifneed \<and> near (m_looterGuid g) then g_ret ()
        else case next_looter near k (m_memberSlots g) of
               Some p \<Rightarrow>
                 if m_looterGuid g \<noteq> p then g_then (set_group this (\<lambda>g. g\<lparr>m_looterGuid := p\<rparr>)) (SendUpdate this) else g_ret ()
             | None \<Rightarrow> g_then (set_group this (\<lambda>g. g\<lparr>m_looterGuid := 0\<rparr>)) (SendUpdate this)))"

definition set_difficulty :: "bool \<Rightarrow> u8 \<Rightarrow> gplayer \<Rightarrow> gplayer" where
  "set_difficulty raid d pl = (if raid then pl\<lparr>gp_raidDifficulty := d\<rparr> else pl\<lparr>gp_dungeonDifficulty := d\<rparr>)"

text \<open>\<^verbatim>\<open>SetDungeonDifficulty\<close> and \<^verbatim>\<open>SetRaidDifficulty\<close>.\<close>

definition SetGroupDifficulty :: "bool \<Rightarrow> nat \<Rightarrow> u8 \<Rightarrow> unit gm" where
  "SetGroupDifficulty raid this d =
     g_then (set_group this (\<lambda>g. if raid then g\<lparr>m_raidDifficulty := d\<rparr> else g\<lparr>m_dungeonDifficulty := d\<rparr>))
     (g_bind (g_group this) (\<lambda>g.
      g_then (g_when (\<not> isBGGroup g)
                (g_emit [GDb (if raid then ''CHAR_UPD_GROUP_RAID_DIFFICULTY'' else ''CHAR_UPD_GROUP_DIFFICULTY'') [DbU8 d, DbU32 (m_dbStoreId g)]]))
        (g_for (m_memberMgr g) (\<lambda>(p, k). g_bind (g_player p) (\<lambda>pl.
           g_when (gp_session pl)
             (g_then (set_player p (set_difficulty raid d))
               (g_emit [GCall (if raid then ''SendRaidDifficulty'' else ''SendDungeonDifficulty'') p])))))))"

section \<open>Loading\<close>

text \<open>A row of the query in \<^verbatim>\<open>GroupMgr::LoadGroups\<close>, and the name of the leader if the name cache has it.\<close>

record group_db_row =
  gr_leaderGuid :: u32
  gr_lootMethod :: u8
  gr_looterGuid :: u32
  gr_lootThreshold :: u16
  gr_icons :: "u32 list"
  gr_groupType :: u8
  gr_difficulty :: u8
  gr_raiddifficulty :: u8
  gr_guid :: u32

abbreviation player_guid :: "u32 \<Rightarrow> u64" where
  "player_guid l \<equiv> MAKE_NEW_GUID l 0 (high_code HIGHGUID_PLAYER)"

definition LoadGroupFromDB :: "(u64 \<Rightarrow> string option) \<Rightarrow> group_db_row \<Rightarrow> nat \<Rightarrow> unit gm" where
  "LoadGroupFromDB names r this = g_bind GenerateGroupId (\<lambda>lowguid.
     g_then (set_group this (\<lambda>g. g\<lparr>m_dbStoreId := gr_guid r, m_guid := MAKE_NEW_GUID lowguid 0 (high_code HIGHGUID_GROUP),
               m_leaderGuid := player_guid (gr_leaderGuid r)\<rparr>))
     (case names (ucast (gr_leaderGuid r)) of
        None \<Rightarrow> g_ret ()
      | Some name \<Rightarrow>
          g_then (set_group this (\<lambda>g. g\<lparr>m_leaderName := name, m_lootMethod := ucast (gr_lootMethod r),
                    m_looterGuid := player_guid (gr_looterGuid r), m_lootThreshold := ucast (gr_lootThreshold r),
                    m_targetIcons := map (\<lambda>i. ucast (gr_icons r ! i)) [0..<TARGETICONCOUNT], m_groupType := gr_groupType r\<rparr>))
          (g_then (g_when (gr_groupType r AND GROUPTYPE_RAID \<noteq> 0) (initRaidSubGroupsCounter this))
            (set_group this (\<lambda>g. g\<lparr>m_dungeonDifficulty := (if 3 \<le> gr_difficulty r then 0 else gr_difficulty r),
               m_raidDifficulty := (if 4 \<le> gr_raiddifficulty r then 0 else gr_raiddifficulty r)\<rparr>)))))"

definition LoadMemberFromDB :: "(u64 \<Rightarrow> string option) \<Rightarrow> nat \<Rightarrow> u32 \<Rightarrow> u8 \<Rightarrow> u8 \<Rightarrow> u8 \<Rightarrow> unit gm" where
  "LoadMemberFromDB names this guidLow memberFlags subgroup roles =
     (case names (player_guid guidLow) of
        None \<Rightarrow> g_emit [GDb ''CHAR_DEL_GROUP_MEMBER'' [DbU32 guidLow]]
      | Some name \<Rightarrow>
          g_then (set_group this (\<lambda>g. g\<lparr>m_memberSlots := m_memberSlots g @
             [\<lparr>ms_guid = player_guid guidLow, ms_name = name, ms_group = subgroup, ms_flags = memberFlags, ms_roles = roles\<rparr>]\<rparr>))
            (SubGroupCounterIncrease this subgroup))"

text \<open>One row of the groups, and one row of the members, in \<^verbatim>\<open>LoadGroups\<close>.\<close>

definition load_group_row :: "(u64 \<Rightarrow> string option) \<Rightarrow> group_db_row \<Rightarrow> unit gm" where
  "load_group_row names r = g_bind alloc_group (\<lambda>a.
     g_then (LoadGroupFromDB names r a) (g_then (AddGroup a)
       (g_then (RegisterGroupDbStoreId (gr_guid r) a)
         (g_modify (\<lambda>w. if gr_guid r = NextGroupDbStoreId w then w\<lparr>NextGroupDbStoreId := NextGroupDbStoreId w + 1\<rparr> else w)))))"

definition load_member_row :: "(u64 \<Rightarrow> string option) \<Rightarrow> u32 \<times> u32 \<times> u8 \<times> u8 \<times> u8 \<Rightarrow> unit gm" where
  "load_member_row names = (\<lambda>(guid, memberGuid, memberFlags, subgroup, roles).
     g_bind (g_get (\<lambda>w. GetGroupByDbStoreId w guid)) (\<lambda>grp.
       case grp of None \<Rightarrow> g_ret () | Some a \<Rightarrow> LoadMemberFromDB names a memberGuid memberFlags subgroup roles))"

definition LoadGroups :: "(u64 \<Rightarrow> string option) \<Rightarrow> group_db_row list \<Rightarrow> (u32 \<times> u32 \<times> u8 \<times> u8 \<times> u8) list \<Rightarrow> unit gm" where
  "LoadGroups names groups members =
     g_then (g_for groups (load_group_row names)) (g_for members (load_member_row names))"

section \<open>Results of party commands\<close>

abbreviation PARTY_OP_INVITE :: u32 where "PARTY_OP_INVITE \<equiv> 0"
abbreviation PARTY_OP_UNINVITE :: u32 where "PARTY_OP_UNINVITE \<equiv> 1"
abbreviation PARTY_OP_LEAVE :: u32 where "PARTY_OP_LEAVE \<equiv> 2"

datatype PartyResult =
    ERR_PARTY_RESULT_OK | ERR_BAD_PLAYER_NAME_S | ERR_TARGET_NOT_IN_GROUP_S | ERR_TARGET_NOT_IN_INSTANCE_S | ERR_GROUP_FULL
  | ERR_ALREADY_IN_GROUP_S | ERR_NOT_IN_GROUP | ERR_NOT_LEADER | ERR_PLAYER_WRONG_FACTION | ERR_IGNORING_YOU_S | ERR_INVITE_RESTRICTED

fun party_code :: "PartyResult \<Rightarrow> u32" where
  "party_code ERR_PARTY_RESULT_OK = 0"
| "party_code ERR_BAD_PLAYER_NAME_S = 1"
| "party_code ERR_TARGET_NOT_IN_GROUP_S = 2"
| "party_code ERR_TARGET_NOT_IN_INSTANCE_S = 3"
| "party_code ERR_GROUP_FULL = 4"
| "party_code ERR_ALREADY_IN_GROUP_S = 5"
| "party_code ERR_NOT_IN_GROUP = 6"
| "party_code ERR_NOT_LEADER = 7"
| "party_code ERR_PLAYER_WRONG_FACTION = 8"
| "party_code ERR_IGNORING_YOU_S = 9"
| "party_code ERR_INVITE_RESTRICTED = 13"

definition SendPartyResult :: "u64 \<Rightarrow> u32 \<Rightarrow> string \<Rightarrow> PartyResult \<Rightarrow> unit gm" where
  "SendPartyResult p operation member res =
     g_emit [GSend p (wp_add [Out32 operation, OutStr member, Out32 (party_code res), Out32 0] (new_WorldPacket SMSG_PARTY_COMMAND_RESULT))]"

definition CanUninviteFromGroup :: "u64 \<Rightarrow> PartyResult gm" where
  "CanUninviteFromGroup p = g_bind (g_player p) (\<lambda>pl.
     case gp_group pl of
       None \<Rightarrow> g_ret ERR_NOT_IN_GROUP
     | Some a \<Rightarrow> g_bind (g_group a) (\<lambda>g.
         g_ret (if \<not> IsLeader p g \<and> \<not> IsAssistant p g then ERR_NOT_LEADER
                else if gp_inBattleground pl then ERR_INVITE_RESTRICTED
                else ERR_PARTY_RESULT_OK)))"

text \<open>
  \<^verbatim>\<open>FindPlayerByName\<close>: the names are unique, so it is the online player whom the registry knows under the name.
\<close>

definition FindGPlayerByName :: "group_env \<Rightarrow> group_world \<Rightarrow> string \<Rightarrow> u64 option" where
  "FindGPlayerByName env w name =
     (let g = ge_GetPlayerGUIDByName env name in
      case FindGPlayer w g of None \<Rightarrow> None | Some pl \<Rightarrow> if gp_name pl = name then Some g else None)"

text \<open>\<open>with_group p f\<close>: the handler returns when the player has no group.\<close>

definition with_group :: "u64 \<Rightarrow> (nat \<Rightarrow> group \<Rightarrow> unit gm) \<Rightarrow> unit gm" where
  "with_group p f = g_bind (g_player p) (\<lambda>pl.
     case gp_group pl of None \<Rightarrow> g_ret () | Some a \<Rightarrow> g_bind (g_group a) (f a))"

section \<open>Opcodes\<close>

definition invite_packet :: "u8 \<Rightarrow> string \<Rightarrow> world_packet" where
  "invite_packet flag name = wp_add [Out8 flag, OutStr name, Out32 0, Out8 0, Out32 0] (new_WorldPacket SMSG_GROUP_INVITE)"

text \<open>The first refusals of an invitation, before any group is looked at.\<close>

definition invite_refusal :: "group_env \<Rightarrow> u64 \<Rightarrow> gplayer \<Rightarrow> u64 \<Rightarrow> gplayer \<Rightarrow> PartyResult option" where
  "invite_refusal env p pl q player =
     (if \<not> ge_allow_gm_group env \<and> \<not> gp_gm_tag pl \<and> gp_gm_tag player then Some ERR_BAD_PLAYER_NAME_S
      else if \<not> gp_gm_tag pl \<and> \<not> ge_two_side_group env \<and> gp_team pl \<noteq> gp_team player then Some ERR_PLAYER_WRONG_FACTION
      else if gp_instanceId pl \<noteq> 0 \<and> gp_instanceId player \<noteq> 0 \<and> gp_instanceId pl \<noteq> gp_instanceId player \<and> gp_mapId pl = gp_mapId player
      then Some ERR_TARGET_NOT_IN_INSTANCE_S
      else if gp_instanceId player \<noteq> 0 \<and> gp_dungeonDifficulty player \<noteq> gp_dungeonDifficulty pl then Some ERR_IGNORING_YOU_S
      else if ge_HasIgnore env q p then Some ERR_IGNORING_YOU_S
      else None)"

text \<open>The group a player invites to, new or his own; \<open>False\<close> when the handler returns silently.\<close>

definition invite_into :: "u64 \<Rightarrow> u64 \<Rightarrow> nat option \<Rightarrow> bool gm" where
  "invite_into p q grp =
     (case grp of
        None \<Rightarrow> g_bind alloc_group (\<lambda>a. g_bind (AddLeaderInvite a p) (\<lambda>ok.
          if \<not> ok then g_then (delete_group a) (g_ret False)
          else g_bind (AddInvite a q) (\<lambda>ok. if \<not> ok then g_then (delete_group a) (g_ret False) else g_ret True)))
      | Some a \<Rightarrow> AddInvite a q)"

definition HandleGroupInviteOpcode :: "group_env \<Rightarrow> u64 \<Rightarrow> string \<Rightarrow> unit gm" where
  "HandleGroupInviteOpcode env p membername = g_bind (g_player p) (\<lambda>pl.
     if \<not> gp_IsInWorld pl then g_ret ()
     else case ge_normalizePlayerName env membername of
       None \<Rightarrow> SendPartyResult p PARTY_OP_INVITE membername ERR_BAD_PLAYER_NAME_S
     | Some name \<Rightarrow> g_bind (g_get (\<lambda>w. FindGPlayerByName env w name)) (\<lambda>found.
         case found of
           None \<Rightarrow> SendPartyResult p PARTY_OP_INVITE name ERR_BAD_PLAYER_NAME_S
         | Some q \<Rightarrow> g_bind (g_player q) (\<lambda>player.
             case invite_refusal env p pl q player of
               Some res \<Rightarrow> SendPartyResult p PARTY_OP_INVITE name res
             | None \<Rightarrow> g_bind (group_or_original pl) (\<lambda>grp. g_bind (group_or_original player) (\<lambda>grp2.
                 if grp2 \<noteq> None \<or> gp_groupInvite player \<noteq> None
                 then g_then (SendPartyResult p PARTY_OP_INVITE name ERR_ALREADY_IN_GROUP_S)
                        (g_when (grp2 \<noteq> None) (g_emit [GSend q (invite_packet 0 (gp_name pl))]))
                 else g_bind (case grp of None \<Rightarrow> g_ret None
                              | Some a \<Rightarrow> g_bind (g_group a) (\<lambda>g.
                                  g_ret (if \<not> IsLeader p g \<and> \<not> IsAssistant p g then Some ERR_NOT_LEADER
                                         else if IsFull g then Some ERR_GROUP_FULL else None))) (\<lambda>bad.
                   case bad of
                     Some res \<Rightarrow> SendPartyResult p PARTY_OP_INVITE [] res
                   | None \<Rightarrow> g_bind (invite_into p q grp) (\<lambda>ok.
                       g_when ok (g_then (g_emit [GSend q (invite_packet 1 (gp_name pl))])
                         (SendPartyResult p PARTY_OP_INVITE name ERR_PARTY_RESULT_OK)))))))))"

definition HandleGroupAcceptOpcode :: "group_env \<Rightarrow> u64 \<Rightarrow> unit gm" where
  "HandleGroupAcceptOpcode env p = g_bind (g_player p) (\<lambda>pl.
     case gp_groupInvite pl of
       None \<Rightarrow> g_ret ()
     | Some a \<Rightarrow>
         g_then (RemoveInvite a p)
         (g_bind (g_group a) (\<lambda>g.
          if m_leaderGuid g = p then g_ret ()
          else if IsFull g then SendPartyResult p PARTY_OP_INVITE [] ERR_GROUP_FULL
          else g_bind (g_get (\<lambda>w. FindGPlayer w (m_leaderGuid g))) (\<lambda>leader.
            if \<not> IsCreated g \<and> leader = None then RemoveAllInvites a
            else g_then (g_when (\<not> IsCreated g)
                   (g_then (RemoveInvite a (m_leaderGuid g))
                     (g_then (g_bind (Group_Create env a (m_leaderGuid g)) (\<lambda>_. g_ret ())) (AddGroup a))))
              (g_bind (AddMember env a p) (\<lambda>ok. g_when ok (BroadcastGroupUpdate a)))))))"

definition HandleGroupDeclineOpcode :: "group_env \<Rightarrow> u64 \<Rightarrow> unit gm" where
  "HandleGroupDeclineOpcode env p = g_bind (g_player p) (\<lambda>pl.
     case gp_groupInvite pl of
       None \<Rightarrow> g_ret ()
     | Some a \<Rightarrow> g_bind (g_group a) (\<lambda>g. g_bind (g_get (\<lambda>w. FindGPlayer w (m_leaderGuid g))) (\<lambda>leader.
         g_then (Player_UninviteFromGroup env p)
           (g_when (leader \<noteq> None)
             (g_emit [GSend (m_leaderGuid g) (wp_add [OutCStr (Some (gp_name pl))] (new_WorldPacket SMSG_GROUP_DECLINE))])))))"

text \<open>The two uninvite opcodes, after the target has been found among the members (\<open>member\<close>) or the invited.\<close>

definition uninvite :: "group_env \<Rightarrow> u64 \<Rightarrow> string \<Rightarrow> (group \<Rightarrow> bool) \<Rightarrow> (group \<Rightarrow> u64 option) \<Rightarrow> (u64 \<Rightarrow> gplayer \<Rightarrow> bool) \<Rightarrow> unit gm" where
  "uninvite env p text refused member invited = g_bind (CanUninviteFromGroup p) (\<lambda>res.
     if res \<noteq> ERR_PARTY_RESULT_OK then SendPartyResult p PARTY_OP_UNINVITE [] res
     else with_group p (\<lambda>a g.
       if refused g then SendPartyResult p PARTY_OP_UNINVITE [] ERR_NOT_LEADER
       else case member g of
              Some guid \<Rightarrow> Player_RemoveFromGroup env (Some a) guid True
            | None \<Rightarrow> g_bind (GetInvited invited a) (\<lambda>q.
                case q of
                  Some q \<Rightarrow> Player_UninviteFromGroup env q
                | None \<Rightarrow> SendPartyResult p PARTY_OP_UNINVITE text ERR_TARGET_NOT_IN_GROUP_S)))"

definition HandleGroupUninviteGuidOpcode :: "group_env \<Rightarrow> u64 \<Rightarrow> u64 \<Rightarrow> unit gm" where
  "HandleGroupUninviteGuidOpcode env p guid =
     (if guid = p then g_ret ()
      else uninvite env p [] (IsLeader guid) (\<lambda>g. if IsMember guid g then Some guid else None) (\<lambda>q pl. q = guid))"

definition HandleGroupUninviteOpcode :: "group_env \<Rightarrow> u64 \<Rightarrow> string \<Rightarrow> unit gm" where
  "HandleGroupUninviteOpcode env p membername =
     (case ge_normalizePlayerName env membername of
        None \<Rightarrow> g_ret ()
      | Some name \<Rightarrow> g_bind (g_player p) (\<lambda>pl.
          if gp_name pl = name then g_ret ()
          else uninvite env p name (\<lambda>_. False)
                 (\<lambda>g. if GetMemberGUID name g \<noteq> 0 then Some (GetMemberGUID name g) else None) (\<lambda>q pl. gp_name pl = name)))"

definition HandleGroupSetLeaderOpcode :: "u64 \<Rightarrow> u64 \<Rightarrow> unit gm" where
  "HandleGroupSetLeaderOpcode p guid = with_group p (\<lambda>a g. g_bind (g_get (\<lambda>w. FindGPlayer w guid)) (\<lambda>player.
     case player of
       None \<Rightarrow> g_ret ()
     | Some pl \<Rightarrow>
         if \<not> IsLeader p g \<or> gp_group pl \<noteq> Some a then g_ret ()
         else g_then (ChangeLeader a guid) (SendUpdate a)))"

definition HandleGroupDisbandOpcode :: "group_env \<Rightarrow> u64 \<Rightarrow> unit gm" where
  "HandleGroupDisbandOpcode env p = with_group p (\<lambda>a g. g_bind (g_player p) (\<lambda>pl.
     if gp_inBattleground pl then SendPartyResult p PARTY_OP_INVITE [] ERR_INVITE_RESTRICTED
     else g_then (SendPartyResult p PARTY_OP_LEAVE (gp_name pl) ERR_PARTY_RESULT_OK)
            (Player_RemoveFromGroup env (Some a) p False)))"

definition HandleLootMethodOpcode :: "u64 \<Rightarrow> u32 \<Rightarrow> u64 \<Rightarrow> u32 \<Rightarrow> unit gm" where
  "HandleLootMethodOpcode p lootMethod lootMaster lootThreshold = with_group p (\<lambda>a g.
     if \<not> IsLeader p g then g_ret ()
     else g_then (set_group a (\<lambda>g. g\<lparr>m_lootMethod := lootMethod, m_looterGuid := lootMaster, m_lootThreshold := lootThreshold\<rparr>))
            (SendUpdate a))"

definition HandleRaidTargetUpdateOpcode :: "u64 \<Rightarrow> u8 \<Rightarrow> u64 \<Rightarrow> unit gm" where
  "HandleRaidTargetUpdateOpcode p x guid = with_group p (\<lambda>a g.
     if x = 0xFF then SendTargetIconList a p
     else if \<not> IsLeader p g \<and> \<not> IsAssistant p g then g_ret ()
     else SetTargetIcon a x p guid)"

definition HandleGroupRaidConvertOpcode :: "u64 \<Rightarrow> unit gm" where
  "HandleGroupRaidConvertOpcode p = with_group p (\<lambda>a g. g_bind (g_player p) (\<lambda>pl.
     if gp_inBattleground pl then g_ret ()
     else if \<not> IsLeader p g \<or> GetMembersCount g < 2 then g_ret ()
     else g_then (SendPartyResult p PARTY_OP_INVITE [] ERR_PARTY_RESULT_OK) (ConvertToRaid a)))"

definition HandleGroupChangeSubGroupOpcode :: "group_env \<Rightarrow> u64 \<Rightarrow> string \<Rightarrow> u8 \<Rightarrow> unit gm" where
  "HandleGroupChangeSubGroupOpcode env p name groupNr = with_group p (\<lambda>a g.
     if MAX_RAID_SUBGROUPS \<le> unat groupNr then g_ret ()
     else if \<not> IsLeader p g \<and> \<not> IsAssistant p g then g_ret ()
     else g_bind (HasFreeSlotSubGroup a groupNr) (\<lambda>free.
       if \<not> free then g_ret ()
       else g_bind (g_get (\<lambda>w. FindGPlayerByName env w name)) (\<lambda>moved.
         ChangeMembersGroup a (case moved of Some q \<Rightarrow> q | None \<Rightarrow> ge_GetPlayerGUIDByName env (ge_EscapeString env name)) groupNr)))"

definition HandleGroupAssistantLeaderOpcode :: "u64 \<Rightarrow> u64 \<Rightarrow> bool \<Rightarrow> unit gm" where
  "HandleGroupAssistantLeaderOpcode p guid apply' = with_group p (\<lambda>a g.
     if \<not> IsLeader p g then g_ret ()
     else g_then (SetGroupMemberFlag a guid apply' MEMBER_FLAG_ASSISTANT) (SendUpdate a))"

definition HandlePartyAssignmentOpcode :: "u64 \<Rightarrow> u8 \<Rightarrow> bool \<Rightarrow> u64 \<Rightarrow> unit gm" where
  "HandlePartyAssignmentOpcode p assignment apply' guid = with_group p (\<lambda>a g.
     if \<not> IsLeader p g \<and> \<not> IsAssistant p g then g_ret ()
     else g_then (if assignment = 1
                  then g_then (RemoveUniqueGroupMemberFlag a MEMBER_FLAG_MAINASSIST) (SetGroupMemberFlag a guid apply' MEMBER_FLAG_MAINASSIST)
                  else if assignment = 0
                  then g_then (RemoveUniqueGroupMemberFlag a MEMBER_FLAG_MAINTANK) (SetGroupMemberFlag a guid apply' MEMBER_FLAG_MAINTANK)
                  else g_ret ())
            (SendUpdate a))"

text \<open>\<open>state = None\<close>: an empty packet, which asks for a ready check.\<close>

definition HandleRaidReadyCheckOpcode :: "u64 \<Rightarrow> u8 option \<Rightarrow> unit gm" where
  "HandleRaidReadyCheckOpcode p state = with_group p (\<lambda>a g.
     case state of
       None \<Rightarrow>
         if \<not> IsLeader p g \<and> \<not> IsAssistant p g then g_ret ()
         else g_then (BroadcastPacket a (wp_add [Out64 p] (new_WorldPacket MSG_RAID_READY_CHECK)) False None 0) (OfflineReadyCheck a)
     | Some st \<Rightarrow> BroadcastReadyCheck a (wp_add [Out64 p, Out8 st] (new_WorldPacket MSG_RAID_READY_CHECK_CONFIRM)))"

section \<open>Logging in and out\<close>

text \<open>\<open>row\<close> is the store id that the player's row in \<^verbatim>\<open>group_member\<close> names.\<close>

definition LoadGroup :: "u32 option \<Rightarrow> u64 \<Rightarrow> unit gm" where
  "LoadGroup row p =
     (case row of
        None \<Rightarrow> g_ret ()
      | Some storageId \<Rightarrow> g_bind (g_get (\<lambda>w. GetGroupByDbStoreId w storageId)) (\<lambda>grp.
          case grp of
            None \<Rightarrow> g_ret ()
          | Some a \<Rightarrow> g_bind (g_group a) (\<lambda>g.
              g_then (Player_SetGroup (Some (a, GetMemberGroup p g)) p)
                (set_player p (\<lambda>pl. if LEVELREQUIREMENT_HEROIC \<le> gp_level pl
                   then pl\<lparr>gp_dungeonDifficulty := m_dungeonDifficulty g, gp_raidDifficulty := m_raidDifficulty g\<rparr> else pl)))))"

text \<open>The group part of \<^verbatim>\<open>Player::LoadFromDB\<close> and \<^verbatim>\<open>WorldSession::HandlePlayerLogin\<close>, for a new player object.\<close>

definition Login :: "u32 option \<Rightarrow> u64 \<Rightarrow> gplayer \<Rightarrow> unit gm" where
  "Login row p pl =
     g_then (g_modify (put_player p (pl\<lparr>gp_group := None, gp_originalGroup := None, gp_groupInvite := None, gp_session := True\<rparr>)))
       (g_then (LoadGroup row p) (with_group p (\<lambda>a g. g_then (SendUpdate a) (ResetMaxEnchantingLevel a))))"

text \<open>The player object is deleted at the end; the destructors of its references unlink them.\<close>

definition LogoutPlayer :: "group_env \<Rightarrow> bool \<Rightarrow> u64 \<Rightarrow> unit gm" where
  "LogoutPlayer env socket p =
     g_then (Player_UninviteFromGroup env p)
     (g_then (with_group p (\<lambda>a g. g_when (\<not> isRaidGroup g \<and> socket) (Player_RemoveFromGroup env (Some a) p False)))
     (g_then (with_group p (\<lambda>a g. g_then (SendUpdate a) (ResetMaxEnchantingLevel a)))
     (g_then (unlink_ref MGroup p)
     (g_then (unlink_ref MOriginal p)
       (g_modify (\<lambda>w. w\<lparr>gw_players := (gw_players w)(p := None)\<rparr>))))))"

end
