(* ===== verification/Group_Norm.thy ===== *)
theory Group_Norm
  imports Group_Handlers
begin

text \<open>
  Most group operations also touch fields that play no part in the structure of the groups (names, flags, loot settings,
  counters of packets).  \<open>norm\<close> blanks those fields out, and \<open>quiet\<close> says that an operation returns without error and
  changes nothing else.
\<close>

section \<open>The part of the state that matters\<close>

definition norm_slot :: "member_slot \<Rightarrow> member_slot" where
  "norm_slot m = m\<lparr>ms_name := [], ms_flags := 0, ms_roles := 0\<rparr>"

definition norm_group :: "group \<Rightarrow> group" where
  "norm_group g = g\<lparr>m_memberSlots := map norm_slot (m_memberSlots g), m_leaderName := [],
     m_groupType := m_groupType g AND GROUPTYPE_RAID, m_dungeonDifficulty := 0, m_raidDifficulty := 0,
     m_targetIcons := [], m_lootMethod := 0, m_lootThreshold := 0, m_looterGuid := 0,
     m_RollId := [], m_counter := 0, m_maxEnchantingLevel := 0\<rparr>"

definition norm_player :: "gplayer \<Rightarrow> gplayer" where
  "norm_player pl = pl\<lparr>gp_name := [], gp_IsInWorld := False, gp_team := 0, gp_gm_tag := False, gp_mapId := 0, gp_instanceId := 0,
     gp_dungeonDifficulty := 0, gp_raidDifficulty := 0, gp_level := 0, gp_enchanting := 0, gp_inBattleground := False, gp_InstanceValid := False\<rparr>"

definition norm :: "group_world \<Rightarrow> group_world" where
  "norm w = w\<lparr>gw_groups := \<lambda>a. map_option norm_group (gw_groups w a), gw_players := \<lambda>p. map_option norm_player (gw_players w p)\<rparr>"

definition guids :: "group \<Rightarrow> u64 list" where
  "guids g = map ms_guid (m_memberSlots g)"

definition subs :: "group \<Rightarrow> u8 list" where
  "subs g = map ms_group (m_memberSlots g)"

lemma norm_groupD:
  assumes "norm_group g = norm_group h"
  shows "guids g = guids h" "subs g = subs h" "m_memberMgr g = m_memberMgr h" "m_invitees g = m_invitees h"
    "m_leaderGuid g = m_leaderGuid h" "isRaidGroup g = isRaidGroup h" "m_bgGroup g = m_bgGroup h"
    "m_subGroupsCounts g = m_subGroupsCounts h" "m_guid g = m_guid h" "m_dbStoreId g = m_dbStoreId h"
    "length (m_memberSlots g) = length (m_memberSlots h)"
proof -
  have "map (\<lambda>m. f (norm_slot m)) (m_memberSlots g) = map (\<lambda>m. f (norm_slot m)) (m_memberSlots h)" for f :: "member_slot \<Rightarrow> 'a"
    using arg_cong [OF assms, of "\<lambda>g. map f (m_memberSlots g)"] by (simp add: norm_group_def comp_def)
  from this [of ms_guid] this [of ms_group]
  show "guids g = guids h" "subs g = subs h" by (simp_all add: norm_slot_def guids_def subs_def)
  show "m_memberMgr g = m_memberMgr h" using arg_cong [OF assms, of m_memberMgr] by (simp add: norm_group_def)
  show "m_invitees g = m_invitees h" using arg_cong [OF assms, of m_invitees] by (simp add: norm_group_def)
  show "m_leaderGuid g = m_leaderGuid h" using arg_cong [OF assms, of m_leaderGuid] by (simp add: norm_group_def)
  show "isRaidGroup g = isRaidGroup h" using arg_cong [OF assms, of m_groupType] by (simp add: norm_group_def isRaidGroup_def)
  show "m_bgGroup g = m_bgGroup h" using arg_cong [OF assms, of m_bgGroup] by (simp add: norm_group_def)
  show "m_subGroupsCounts g = m_subGroupsCounts h" using arg_cong [OF assms, of m_subGroupsCounts] by (simp add: norm_group_def)
  show "m_guid g = m_guid h" using arg_cong [OF assms, of m_guid] by (simp add: norm_group_def)
  show "m_dbStoreId g = m_dbStoreId h" using arg_cong [OF assms, of m_dbStoreId] by (simp add: norm_group_def)
  show "length (m_memberSlots g) = length (m_memberSlots h)"
    using arg_cong [OF assms, of "\<lambda>g. length (m_memberSlots g)"] by (simp add: norm_group_def)
qed

lemma norm_playerD:
  assumes "norm_player pl = norm_player ql"
  shows "gp_session pl = gp_session ql" "gp_group pl = gp_group ql" "gp_subGroup pl = gp_subGroup ql"
    "gp_originalGroup pl = gp_originalGroup ql" "gp_groupInvite pl = gp_groupInvite ql"
proof -
  show "gp_session pl = gp_session ql" using arg_cong [OF assms, of gp_session] by (simp add: norm_player_def)
  show "gp_group pl = gp_group ql" using arg_cong [OF assms, of gp_group] by (simp add: norm_player_def)
  show "gp_subGroup pl = gp_subGroup ql" using arg_cong [OF assms, of gp_subGroup] by (simp add: norm_player_def)
  show "gp_originalGroup pl = gp_originalGroup ql" using arg_cong [OF assms, of gp_originalGroup] by (simp add: norm_player_def)
  show "gp_groupInvite pl = gp_groupInvite ql" using arg_cong [OF assms, of gp_groupInvite] by (simp add: norm_player_def)
qed

lemma norm_groups: "norm w = norm v \<Longrightarrow> map_option norm_group (gw_groups w a) = map_option norm_group (gw_groups v a)"
  by (drule arg_cong [of _ _ "\<lambda>w. gw_groups w a"]) (simp add: norm_def)

lemma norm_players: "norm w = norm v \<Longrightarrow> map_option norm_player (gw_players w p) = map_option norm_player (gw_players v p)"
  by (drule arg_cong [of _ _ "\<lambda>w. gw_players w p"]) (simp add: norm_def)

lemma norm_mgr:
  assumes "norm w = norm v"
  shows "gw_fresh w = gw_fresh v" "NextGroupDbStoreId w = NextGroupDbStoreId v" "NextGroupId w = NextGroupId v"
    "GroupDbStore w = GroupDbStore v" "GroupStore w = GroupStore v"
  using arg_cong [OF assms, of gw_fresh] arg_cong [OF assms, of NextGroupDbStoreId] arg_cong [OF assms, of NextGroupId]
    arg_cong [OF assms, of GroupDbStore] arg_cong [OF assms, of GroupStore]
  by (simp_all add: norm_def)

lemma norm_group_Some:
  assumes "norm w = norm v" and "gw_groups v a = Some g"
  obtains h where "gw_groups w a = Some h" and "norm_group h = norm_group g"
  using norm_groups [OF assms(1), of a] assms(2) by (cases "gw_groups w a") auto

lemma norm_player_Some:
  assumes "norm w = norm v" and "gw_players v p = Some pl"
  obtains ql where "gw_players w p = Some ql" and "norm_player ql = norm_player pl"
  using norm_players [OF assms(1), of p] assms(2) by (cases "gw_players w p") auto

lemma norm_put_group [intro]:
  "norm w = norm v \<Longrightarrow> norm_group g = norm_group h \<Longrightarrow> norm (put_group a g w) = norm (put_group a h v)"
  using norm_groups [of w v] norm_players [of w v] norm_mgr [of w v]
  by (cases w; cases v) (simp add: norm_def put_group_def fun_eq_iff)

lemma norm_put_player [intro]:
  "norm w = norm v \<Longrightarrow> norm_player pl = norm_player ql \<Longrightarrow> norm (put_player p pl w) = norm (put_player p ql v)"
  using norm_groups [of w v] norm_players [of w v] norm_mgr [of w v]
  by (cases w; cases v) (simp add: norm_def put_player_def fun_eq_iff)

lemma put_group_same: "gw_groups w a = Some g \<Longrightarrow> put_group a g w = w"
  by (cases w) (simp add: put_group_def fun_upd_idem)

lemma put_player_same: "gw_players w p = Some pl \<Longrightarrow> put_player p pl w = w"
  by (cases w) (simp add: put_player_def fun_upd_idem)

lemma norm_put_group_quiet:
  "gw_groups w a = Some g \<Longrightarrow> norm_group h = norm_group g \<Longrightarrow> norm (put_group a h w) = norm w"
  using norm_put_group [OF refl, of h g a w] by (simp add: put_group_same)

lemma norm_put_player_quiet:
  "gw_players w p = Some pl \<Longrightarrow> norm_player ql = norm_player pl \<Longrightarrow> norm (put_player p ql w) = norm w"
  using norm_put_player [OF refl, of ql pl p w] by (simp add: put_player_same)

section \<open>Operations that leave it alone\<close>

definition quiet :: "'a gm \<Rightarrow> group_world \<Rightarrow> bool" where
  "quiet m w = g_wp m (\<lambda>_ w'. norm w' = norm w) w"

lemma quiet_wp: "quiet m w \<Longrightarrow> (\<And>x w'. norm w' = norm w \<Longrightarrow> Q x w') \<Longrightarrow> g_wp m Q w"
  unfolding quiet_def by (erule g_wp_mono) blast

lemma quiet_basic [simp]: "quiet (g_ret x) w" "quiet (g_emit es) w" "quiet (g_get f) w"
  by (simp_all add: quiet_def wp_rules)

lemma quiet_bind: "quiet m w \<Longrightarrow> (\<And>x w'. norm w' = norm w \<Longrightarrow> quiet (f x) w') \<Longrightarrow> quiet (g_bind m f) w"
  unfolding quiet_def g_wp_bind by (erule g_wp_mono) (metis (mono_tags, lifting) g_wp_mono)

lemma quiet_then: "quiet m w \<Longrightarrow> (\<And>w'. norm w' = norm w \<Longrightarrow> quiet n w') \<Longrightarrow> quiet (g_then m n) w"
  unfolding g_then_def by (rule quiet_bind)

lemma quiet_get: "quiet (f (h w)) w \<Longrightarrow> quiet (g_bind (g_get h) f) w"
  by (simp add: quiet_def wp_rules)

lemma quiet_group: "gw_groups w a = Some g \<Longrightarrow> quiet (f g) w \<Longrightarrow> quiet (g_bind (g_group a) f) w"
  by (simp add: quiet_def wp_rules)

lemma quiet_player: "gw_players w p = Some pl \<Longrightarrow> quiet (f pl) w \<Longrightarrow> quiet (g_bind (g_player p) f) w"
  by (simp add: quiet_def wp_rules)

lemma quiet_when: "(b \<Longrightarrow> quiet m w) \<Longrightarrow> quiet (g_when b m) w"
  by (simp add: g_when_def)

lemma quiet_set_group: "gw_groups w a = Some g \<Longrightarrow> norm_group (f g) = norm_group g \<Longrightarrow> quiet (set_group a f) w"
  by (simp add: quiet_def wp_rules norm_put_group_quiet)

lemma quiet_set_player: "gw_players w p = Some pl \<Longrightarrow> norm_player (f pl) = norm_player pl \<Longrightarrow> quiet (set_player p f) w"
  by (simp add: quiet_def wp_rules norm_put_player_quiet)

lemma quiet_for:
  assumes "\<And>x w'. x \<in> set xs \<Longrightarrow> norm w' = norm w \<Longrightarrow> quiet (f x) w'"
  shows "quiet (g_for xs f) w"
proof -
  have "g_wp (g_for xs f) (\<lambda>_ w'. norm w' = norm w) w"
  proof (rule g_wp_for [where I = "\<lambda>_ w'. norm w' = norm w"])
    show "norm w = norm w" ..
    fix x ys zs w' assume "xs = ys @ x # zs" and n: "norm w' = norm w"
    then have "quiet (f x) w'" using assms by simp
    then show "g_wp (f x) (\<lambda>_ w'. norm w' = norm w) w'" by (rule quiet_wp) (simp add: n)
  qed
  then show ?thesis by (simp add: quiet_def)
qed

text \<open>A group that is alive, and whose references come from players that are alive.\<close>

definition live :: "nat \<Rightarrow> group_world \<Rightarrow> bool" where
  "live a w = (\<exists>g. gw_groups w a = Some g \<and> (\<forall>e\<in>set (m_memberMgr g). gw_players w (fst e) \<noteq> None))"

lemma live_norm: "norm w' = norm w \<Longrightarrow> live a w \<Longrightarrow> live a w'"
proof -
  assume n: "norm w' = norm w" and "live a w"
  then obtain g where g: "gw_groups w a = Some g" "\<forall>e\<in>set (m_memberMgr g). gw_players w (fst e) \<noteq> None"
    by (auto simp: live_def)
  obtain h where h: "gw_groups w' a = Some h" "norm_group h = norm_group g" by (rule norm_group_Some [OF n g(1)])
  have "(gw_players w' p = None) = (gw_players w p = None)" for p
    using norm_players [OF n, of p] by (cases "gw_players w' p"; cases "gw_players w p") auto
  then show "live a w'" using g(2) h norm_groupD(3) [OF h(2)] by (auto simp: live_def)
qed

lemma liveE:
  assumes "live a w"
  obtains g where "gw_groups w a = Some g" and "\<And>p k. (p, k) \<in> set (m_memberMgr g) \<Longrightarrow> \<exists>pl. gw_players w p = Some pl"
  using assms by (force simp: live_def)

lemma quiet_refs:
  assumes "live a w" and "gw_groups w a = Some g" and "\<And>p k pl w'. norm w' = norm w \<Longrightarrow> gw_players w' p = Some pl \<Longrightarrow> quiet (f p k pl) w'"
  shows "quiet (g_for (m_memberMgr g) (\<lambda>(p, k). g_bind (g_player p) (f p k))) w"
proof (rule quiet_for)
  fix e w' assume e: "e \<in> set (m_memberMgr g)" and n: "norm w' = norm w"
  obtain p k where pk: "e = (p, k)" by fastforce
  obtain pl where "gw_players w p = Some pl" using assms(1,2) e pk by (force simp: live_def)
  then obtain ql where ql: "gw_players w' p = Some ql" by (rule norm_player_Some [OF n])
  show "quiet (case e of (p, k) \<Rightarrow> g_bind (g_player p) (f p k)) w'"
    unfolding pk prod.case by (rule quiet_player [OF ql]) (rule assms(3) [OF n ql])
qed

lemma quiet_SendUpdateToPlayer:
  assumes "gw_groups w a = Some g"
  shows "quiet (SendUpdateToPlayer a p slot) w"
proof -
  have "norm_group (g\<lparr>m_counter := m_counter g + 1\<rparr>) = norm_group g" by (simp add: norm_group_def)
  then show ?thesis
    unfolding SendUpdateToPlayer_def
    by (intro quiet_group [OF assms] quiet_get) (auto intro!: quiet_then quiet_set_group [OF assms] split: option.split)
qed

lemma quiet_SendUpdate: "gw_groups w a = Some g \<Longrightarrow> quiet (SendUpdate a) w"
  unfolding SendUpdate_def
  by (intro quiet_group quiet_for) (auto elim: norm_group_Some intro: quiet_SendUpdateToPlayer)

lemma quiet_Broadcast:
  assumes "live a w"
  shows "quiet (BroadcastPacket a pkt b sub ign) w" "quiet (BroadcastReadyCheck a pkt) w"
    "quiet (BroadcastGroupUpdate a) w" "quiet (SendTargetIconList a p) w"
proof -
  obtain g where g: "gw_groups w a = Some g" using assms by (rule liveE)
  show "quiet (BroadcastPacket a pkt b sub ign) w"
    unfolding BroadcastPacket_def by (intro quiet_group [OF g] quiet_refs [OF assms g]) (auto intro!: quiet_when)
  show "quiet (BroadcastReadyCheck a pkt) w"
    unfolding BroadcastReadyCheck_def by (intro quiet_group [OF g] quiet_refs [OF assms g]) (auto intro!: quiet_when)
  show "quiet (BroadcastGroupUpdate a) w"
    unfolding BroadcastGroupUpdate_def
    by (intro quiet_group [OF g] quiet_get quiet_for) (auto intro!: quiet_when split: option.split)
  show "quiet (SendTargetIconList a p) w"
    unfolding SendTargetIconList_def by (intro quiet_group [OF g]) simp
qed

lemma quiet_OfflineReadyCheck: "live a w \<Longrightarrow> quiet (OfflineReadyCheck a) w"
  unfolding OfflineReadyCheck_def
  by (erule liveE, intro quiet_group quiet_get quiet_for quiet_when quiet_Broadcast, assumption, rule live_norm)
    (auto simp: live_def)

lemma norm_slots_map:
  "(\<And>m. m \<in> set (m_memberSlots g) \<Longrightarrow> norm_slot (f m) = norm_slot m) \<Longrightarrow>
    norm_group (g\<lparr>m_memberSlots := map f (m_memberSlots g)\<rparr>) = norm_group g"
  by (simp add: norm_group_def comp_def)

lemma norm_upd_slot:
  assumes "\<And>m. norm_slot (f m) = norm_slot m"
  shows "norm_group (upd_slot k f g) = norm_group g"
proof -
  have "map norm_slot ((m_memberSlots g)[k := f (m_memberSlots g ! k)]) = map norm_slot (m_memberSlots g)"
    by (simp add: map_update assms) (metis list_update_beyond list_update_id map_update not_le nth_map length_map)
  then show ?thesis by (simp add: upd_slot_def norm_group_def)
qed

lemma quiet_flags:
  assumes g: "gw_groups w a = Some g"
  shows "quiet (RemoveUniqueGroupMemberFlag a flag) w" "quiet (SetGroupMemberFlag a guid b flag) w"
proof -
  have r: "quiet (RemoveUniqueGroupMemberFlag a flag) w'" if "norm w' = norm w" for flag w'
    unfolding RemoveUniqueGroupMemberFlag_def
    by (rule norm_group_Some [OF that g], erule quiet_set_group) (rule norm_slots_map, simp add: norm_slot_def)
  have t: "quiet (set_group a (ToggleGroupMemberFlag k flag b)) w'" if "norm w' = norm w" for k flag b w'
    by (rule norm_group_Some [OF that g], erule quiet_set_group)
      (simp add: ToggleGroupMemberFlag_def norm_upd_slot norm_slot_def)
  have s: "quiet (SendUpdate a) w'" if "norm w' = norm w" for w'
    by (rule norm_group_Some [OF that g], erule quiet_SendUpdate)
  show "quiet (RemoveUniqueGroupMemberFlag a flag) w" by (rule r) simp
  show "quiet (SetGroupMemberFlag a guid b flag) w"
    unfolding SetGroupMemberFlag_def
    by (rule quiet_group [OF g]) (auto intro!: quiet_then quiet_when r t s split: option.split)
qed

lemma norm_group_icons: "norm_group (g\<lparr>m_targetIcons := (m_targetIcons g)[i := x]\<rparr>) = norm_group g"
  by (simp add: norm_group_def)

lemma quiet_put_icon:
  assumes "live a w"
  shows "quiet (put_icon a i who t) w"
proof -
  obtain g where g: "gw_groups w a = Some g" using assms by (rule liveE)
  show ?thesis
    unfolding put_icon_def
    by (intro quiet_then quiet_set_group [OF g] norm_group_icons quiet_Broadcast live_norm [OF _ assms])
qed

lemma quiet_SetTargetIcon:
  assumes "live a w"
  shows "quiet (SetTargetIcon a i who t) w"
proof -
  have one: "quiet (g_bind (g_group a) (\<lambda>g. g_when (m_targetIcons g ! j = t) (put_icon a (of_nat j) 0 0))) w'" if n: "norm w' = norm w" for j w'
    by (rule liveE [OF live_norm [OF n assms]], erule quiet_group) (intro quiet_when quiet_put_icon live_norm [OF n assms])
  have loop: "quiet (g_for [0..<TARGETICONCOUNT] (\<lambda>j. g_bind (g_group a) (\<lambda>g. g_when (m_targetIcons g ! j = t) (put_icon a (of_nat j) 0 0)))) w"
    by (rule quiet_for) (rule one)
  have "quiet (g_then (g_when (t \<noteq> 0) (g_for [0..<TARGETICONCOUNT] (\<lambda>j. g_bind (g_group a) (\<lambda>g.
      g_when (m_targetIcons g ! j = t) (put_icon a (of_nat j) 0 0))))) (put_icon a i who t)) w"
    by (intro quiet_then quiet_when loop quiet_put_icon live_norm [OF _ assms])
  then show ?thesis unfolding SetTargetIcon_def by simp
qed

lemma norm_group_looter [simp]:
  "norm_group (g\<lparr>m_looterGuid := x\<rparr>) = norm_group g" "norm_group (g\<lparr>m_lootMethod := l, m_looterGuid := x, m_lootThreshold := t\<rparr>) = norm_group g"
  "norm_group (g\<lparr>m_maxEnchantingLevel := e\<rparr>) = norm_group g" "norm_group (g\<lparr>m_RollId := rs\<rparr>) = norm_group g"
  "norm_group (g\<lparr>m_raidDifficulty := x1\<rparr>) = norm_group g" "norm_group (g\<lparr>m_dungeonDifficulty := x1\<rparr>) = norm_group g"
  "norm_group (g\<lparr>m_dungeonDifficulty := x1, m_raidDifficulty := x2\<rparr>) = norm_group g"
  by (simp_all add: norm_group_def)

lemma norm_player_misc [simp]:
  "norm_player (pl\<lparr>gp_InstanceValid := b\<rparr>) = norm_player pl" "norm_player (set_difficulty raid d pl) = norm_player pl"
  "norm_player (pl\<lparr>gp_dungeonDifficulty := d\<rparr>) = norm_player pl" "norm_player (pl\<lparr>gp_raidDifficulty := d\<rparr>) = norm_player pl"
  "norm_player (pl\<lparr>gp_dungeonDifficulty := d, gp_raidDifficulty := d'\<rparr>) = norm_player pl"
  by (simp_all add: norm_player_def set_difficulty_def)

lemma quiet_set_then_update:
  assumes g: "gw_groups w a = Some g" and "norm_group (f g) = norm_group g"
  shows "quiet (g_then (set_group a f) (SendUpdate a)) w"
proof (rule quiet_then)
  show "quiet (set_group a f) w" using assms by (rule quiet_set_group)
  show "quiet (SendUpdate a) w'" if "norm w' = norm w" for w'
    by (rule norm_group_Some [OF that g]) (erule quiet_SendUpdate)
qed

lemma quiet_UpdateLooterGuid: "gw_groups w a = Some g \<Longrightarrow> quiet (UpdateLooterGuid near a b) w"
  unfolding UpdateLooterGuid_def Let_def
  by (intro quiet_group quiet_get) (auto intro!: quiet_set_then_update split: option.split)

lemma quiet_SetGroupDifficulty:
  assumes "live a w"
  shows "quiet (SetGroupDifficulty raid a d) w"
proof -
  obtain g where g: "gw_groups w a = Some g" using assms by (rule liveE)
  have each: "quiet (g_when (gp_session pl) (g_then (set_player p (set_difficulty raid d)) (g_emit es))) w'"
    if "gw_players w' p = Some pl" for p pl es w'
    by (intro quiet_when quiet_then quiet_set_player [OF that]) simp_all
  have loop: "quiet (g_for (m_memberMgr g') (\<lambda>(p, k). g_bind (g_player p) (\<lambda>pl. g_when (gp_session pl)
      (g_then (set_player p (set_difficulty raid d)) (g_emit (es p)))))) w'" if "norm w' = norm w" "gw_groups w' a = Some g'" for g' w' es
    by (rule quiet_refs [OF live_norm [OF that(1) assms] that(2)]) (rule each)
  have "quiet (g_bind (g_group a) (\<lambda>g. g_then (g_when (\<not> isBGGroup g) (g_emit [GDb nm [DbU8 d, DbU32 (m_dbStoreId g)]]))
      (g_for (m_memberMgr g) (\<lambda>(p, k). g_bind (g_player p) (\<lambda>pl. g_when (gp_session pl)
        (g_then (set_player p (set_difficulty raid d)) (g_emit (es p)))))))) w'" if n: "norm w' = norm w" for w' nm es
  proof (rule norm_group_Some [OF n g])
    fix g' assume g': "gw_groups w' a = Some g'"
    show ?thesis
      by (intro quiet_group [OF g'] quiet_then quiet_when quiet_basic)
        (metis (mono_tags) g' n norm_groupD(3) norm_group_Some loop)
  qed
  then show ?thesis unfolding SetGroupDifficulty_def by (intro quiet_then quiet_set_group [OF g]) simp_all
qed

lemma quiet_player_ops:
  assumes pl: "gw_players w p = Some pl"
  shows "quiet (homebindIfInstance env p) w" and "gw_groups w a = Some g \<Longrightarrow> quiet (difficulty_sync a p) w"
    and "gw_groups w a = Some g \<Longrightarrow> quiet (raise_enchanting a p) w"
proof -
  show "quiet (homebindIfInstance env p) w"
    unfolding homebindIfInstance_def by (intro quiet_player [OF pl] quiet_when quiet_set_player [OF pl]) simp
  assume g: "gw_groups w a = Some g"
  have sp: "quiet (set_player p f) w'" if "norm w' = norm w" "\<And>pl. norm_player (f pl) = norm_player pl" for f w'
    by (rule norm_player_Some [OF that(1) pl]) (erule quiet_set_player, rule that(2))
  show "quiet (difficulty_sync a p) w"
    unfolding difficulty_sync_def
    by (intro quiet_group [OF g] quiet_player [OF pl] quiet_when quiet_then sp quiet_basic) (simp_all cong: conj_cong)
  show "quiet (raise_enchanting a p) w"
    unfolding raise_enchanting_def by (intro quiet_player [OF pl] quiet_set_group [OF g]) simp
qed

lemma quiet_ResetMaxEnchantingLevel: "gw_groups w a = Some g \<Longrightarrow> quiet (ResetMaxEnchantingLevel a) w"
  unfolding ResetMaxEnchantingLevel_def by (intro quiet_get quiet_set_group) simp_all

lemma quiet_SendPartyResult: "quiet (SendPartyResult p op m r) w"
  by (simp add: SendPartyResult_def)

end
