(* ===== verification/Group_Inv.thy ===== *)
theory Group_Inv
  imports Group_Norm
begin

text \<open>
  The invariant of groups, players and the group manager.  It is a conjunction of conditions on one group, on one player,
  on one group and one player together, and on the manager's tables, so that an operation that changes one group and
  one player keeps it when it keeps the conditions at these two (\<open>base_ok_upd\<close>).  The shape of a group (at least two members, a leader
  among them) is separate, since it does not hold in the middle of the operations.
\<close>

section \<open>The invariant\<close>

definition places :: "group \<Rightarrow> (u64 \<times> u8) list" where
  "places g = map (\<lambda>m. (ms_guid m, ms_group m)) (m_memberSlots g)"

definition slot_count :: "nat \<Rightarrow> u8 list \<Rightarrow> nat" where
  "slot_count i ss = length (filter (\<lambda>s. unat s = i) ss)"

text \<open>The counters of the sub groups are exact, and no sub group has more than five members.\<close>

definition counts_fit :: "bool \<Rightarrow> u8 list option \<Rightarrow> u8 list \<Rightarrow> bool" where
  "counts_fit raid counts ss =
     (case counts of
        None \<Rightarrow> \<not> raid \<and> (\<forall>s\<in>set ss. s = 0) \<and> length ss \<le> MAXGROUPSIZE
      | Some cs \<Rightarrow>
          raid \<and> length cs = MAX_RAID_SUBGROUPS \<and>
          (\<forall>i<MAX_RAID_SUBGROUPS. unat (cs ! i) = slot_count i ss \<and> slot_count i ss \<le> MAXGROUPSIZE) \<and>
          (\<forall>s\<in>set ss. unat s < MAX_RAID_SUBGROUPS))"

definition counts_ok :: "group \<Rightarrow> bool" where
  "counts_ok g = counts_fit (isRaidGroup g) (m_subGroupsCounts g) (subs g)"

definition group_ok :: "group \<Rightarrow> bool" where
  "group_ok g =
     (counts_ok g \<and> distinct (guids g) \<and> \<not> m_bgGroup g \<and> distinct (m_memberMgr g) \<and> distinct (m_invitees g))"

definition shape_ok :: "group \<Rightarrow> bool" where
  "shape_ok g =
     (if guids g = [] then m_leaderGuid g \<in> set (m_invitees g) \<and> \<not> isRaidGroup g
      else 2 \<le> length (guids g) \<and> m_leaderGuid g \<in> set (guids g))"

definition player_ok :: "nat set \<Rightarrow> gplayer \<Rightarrow> bool" where
  "player_ok G pl =
     (gp_session pl \<and> gp_originalGroup pl = None \<and> (\<forall>a. gp_group pl = Some a \<longrightarrow> a \<in> G) \<and>
      (\<forall>a. gp_groupInvite pl = Some a \<longrightarrow> a \<in> G \<and> gp_group pl = None))"

text \<open>
  A group at address \<open>a\<close> and the player with guid \<open>p\<close>, who may be offline: the slots, the references and the invitations of the group
  are those the player's fields say.
\<close>

definition pair_ok :: "nat \<Rightarrow> group \<Rightarrow> u64 \<Rightarrow> gplayer option \<Rightarrow> bool" where
  "pair_ok a g p x =
     (case x of
        None \<Rightarrow> p \<notin> set (m_invitees g) \<and> (\<forall>k. (p, k) \<notin> set (m_memberMgr g))
      | Some pl \<Rightarrow>
          (p \<in> set (m_invitees g) \<longleftrightarrow> gp_groupInvite pl = Some a) \<and>
          (\<forall>k. (p, k) \<in> set (m_memberMgr g) \<longleftrightarrow> k = MGroup \<and> gp_group pl = Some a) \<and>
          (p \<in> set (guids g) \<longleftrightarrow> gp_group pl = Some a) \<and>
          (gp_group pl = Some a \<longrightarrow> (p, gp_subGroup pl) \<in> set (places g)))"

definition slots_unique :: "group_world \<Rightarrow> bool" where
  "slots_unique w =
     (\<forall>a b g h. gw_groups w a = Some g \<longrightarrow> gw_groups w b = Some h \<longrightarrow> a \<noteq> b \<longrightarrow> set (guids g) \<inter> set (guids h) = {})"

text \<open>The group manager: its two tables hold exactly the groups with members, and the next store id is the least free one.\<close>

definition created :: "group_world \<Rightarrow> nat \<Rightarrow> group \<Rightarrow> bool" where
  "created w a g = (gw_groups w a = Some g \<and> guids g \<noteq> [])"

definition next_ok :: "nat option list \<Rightarrow> u32 \<Rightarrow> u32 \<Rightarrow> bool" where
  "next_ok S n m =
     (0 < unat n \<and> (\<forall>i. 0 < i \<longrightarrow> i < unat n \<longrightarrow> i < length S \<and> S ! i \<noteq> None) \<and>
      (unat n < length S \<longrightarrow> S ! unat n = None) \<and> length S \<le> unat m \<and> 0 < unat m)"

definition store_ok :: "group_world \<Rightarrow> bool" where
  "store_ok w =
     ((\<forall>i a. i < length (GroupDbStore w) \<longrightarrow> GroupDbStore w ! i = Some a \<longrightarrow> (\<exists>g. created w a g \<and> unat (m_dbStoreId g) = i)) \<and>
      (\<forall>k a. GroupStore w k = Some a \<longrightarrow> (\<exists>g. created w a g \<and> GetLowGUID g = k)) \<and>
      (\<forall>a g. created w a g \<longrightarrow>
         0 < unat (m_dbStoreId g) \<and> unat (m_dbStoreId g) < length (GroupDbStore w) \<and> GroupDbStore w ! unat (m_dbStoreId g) = Some a \<and>
         GroupStore w (GetLowGUID g) = Some a \<and> GetLowGUID g < NextGroupId w) \<and>
      next_ok (GroupDbStore w) (NextGroupDbStoreId w) (NextGroupId w))"

definition core_ok :: "group_world \<Rightarrow> bool" where
  "core_ok w =
     ((\<forall>p pl. gw_players w p = Some pl \<longrightarrow> player_ok (dom (gw_groups w)) pl) \<and>
      (\<forall>a g. gw_groups w a = Some g \<longrightarrow> group_ok g \<and> a < gw_fresh w \<and> (\<forall>p. pair_ok a g p (gw_players w p))) \<and>
      slots_unique w)"

definition base_ok :: "group_world \<Rightarrow> bool" where
  "base_ok w = (core_ok w \<and> store_ok w)"

definition shapes_ok :: "group_world \<Rightarrow> bool" where
  "shapes_ok w = (\<forall>a g. gw_groups w a = Some g \<longrightarrow> shape_ok g)"

definition groups_ok :: "group_world \<Rightarrow> bool" where
  "groups_ok w = (base_ok w \<and> shapes_ok w)"

section \<open>It does not depend on the blanked fields\<close>

lemma places_zip: "places g = zip (guids g) (subs g)"
  by (simp add: places_def guids_def subs_def zip_map_map zip_same_conv_map)

lemma group_norm_inv:
  assumes "norm_group g = norm_group h"
  shows "group_ok g = group_ok h" "shape_ok g = shape_ok h" "GetLowGUID g = GetLowGUID h" "places g = places h"
  unfolding group_ok_def counts_ok_def shape_ok_def GetLowGUID_def places_zip norm_groupD [OF assms] by (rule refl)+

lemma player_norm_inv: "norm_player pl = norm_player ql \<Longrightarrow> player_ok G pl = player_ok G ql"
  unfolding player_ok_def by (simp add: norm_playerD [of pl ql])

lemma pair_norm_inv:
  assumes g: "norm_group g = norm_group h" and x: "map_option norm_player x = map_option norm_player y"
  shows "pair_ok a g p x = pair_ok a h p y"
proof (cases x)
  case (Some pl)
  then obtain ql where y: "y = Some ql" and n: "norm_player pl = norm_player ql" using x by (cases y) auto
  show ?thesis unfolding pair_ok_def Some y option.case norm_groupD [OF g] norm_playerD [OF n] group_norm_inv [OF g] by (rule refl)
qed (use x in \<open>simp add: pair_ok_def norm_groupD [OF g]\<close>)

lemma base_ok_norm:
  assumes n: "norm w' = norm w" and ok: "base_ok w"
  shows "base_ok w'"
proof -
  note m = norm_mgr [OF n]
  have G: "\<exists>g. gw_groups w a = Some g \<and> norm_group h = norm_group g" if "gw_groups w' a = Some h" for a h
    using norm_groups [OF n, of a] that by (cases "gw_groups w a") auto
  have G': "\<exists>h. gw_groups w' a = Some h \<and> norm_group h = norm_group g" if "gw_groups w a = Some g" for a g
    using norm_groups [OF n, of a] that by (cases "gw_groups w' a") auto
  have D: "dom (gw_groups w') = dom (gw_groups w)" using G G' unfolding dom_def by blast
  have C: "\<exists>g. created w a g \<and> norm_group h = norm_group g" if "created w' a h" for a h
    using that G [of a h] norm_groupD(1) unfolding created_def by metis
  have C': "\<exists>h. created w' a h \<and> norm_group h = norm_group g" if "created w a g" for a g
    using that G' [of a g] norm_groupD(1) unfolding created_def by metis
  have "player_ok (dom (gw_groups w')) ql" if q: "gw_players w' p = Some ql" for p ql
  proof -
    obtain pl where "gw_players w p = Some pl" "norm_player ql = norm_player pl"
      using norm_players [OF n, of p] q by (cases "gw_players w p") auto
    then show ?thesis using ok player_norm_inv [of ql pl] unfolding base_ok_def core_ok_def D by blast
  qed
  moreover have "group_ok h \<and> a < gw_fresh w' \<and> (\<forall>p. pair_ok a h p (gw_players w' p))" if h: "gw_groups w' a = Some h" for a h
  proof -
    obtain g where g: "gw_groups w a = Some g" "norm_group h = norm_group g" using G h by blast
    then have "group_ok g \<and> a < gw_fresh w \<and> (\<forall>p. pair_ok a g p (gw_players w p))" using ok by (simp add: base_ok_def core_ok_def)
    then show ?thesis using group_norm_inv(1) [OF g(2)] pair_norm_inv [OF g(2) norm_players [OF n]] m by simp
  qed
  moreover have "slots_unique w'"
    unfolding slots_unique_def
  proof (intro allI impI)
    fix a b g' h' assume "gw_groups w' a = Some g'" and "gw_groups w' b = Some h'" and "a \<noteq> b"
    then obtain g h where gh: "gw_groups w a = Some g" "norm_group g' = norm_group g" "gw_groups w b = Some h" "norm_group h' = norm_group h"
      using G by blast
    then have "set (guids g) \<inter> set (guids h) = {}" using ok \<open>a \<noteq> b\<close> unfolding base_ok_def core_ok_def slots_unique_def by blast
    then show "set (guids g') \<inter> set (guids h') = {}" using norm_groupD(1) [OF gh(2)] norm_groupD(1) [OF gh(4)] by simp
  qed
  moreover have "store_ok w'"
    unfolding store_ok_def m
  proof (intro conjI allI impI)
    have s: "store_ok w" using ok by (simp add: base_ok_def)
    show "next_ok (GroupDbStore w) (NextGroupDbStoreId w) (NextGroupId w)" using s by (simp add: store_ok_def)
    {
      fix i a assume "i < length (GroupDbStore w)" and "GroupDbStore w ! i = Some a"
      then obtain g where "created w a g" "unat (m_dbStoreId g) = i" using s unfolding store_ok_def by blast
      moreover from this obtain h where "created w' a h" "norm_group h = norm_group g" using C' by blast
      ultimately show "\<exists>g. created w' a g \<and> unat (m_dbStoreId g) = i" using norm_groupD(10) [of h g] by auto
    }
    {
      fix k a assume "GroupStore w k = Some a"
      then obtain g where "created w a g" "GetLowGUID g = k" using s unfolding store_ok_def by blast
      moreover from this obtain h where "created w' a h" "norm_group h = norm_group g" using C' by blast
      ultimately show "\<exists>g. created w' a g \<and> GetLowGUID g = k" using group_norm_inv(3) [of h g] by auto
    }
    {
      fix a h assume "created w' a h"
      then obtain g where g: "created w a g" "norm_group h = norm_group g" using C by blast
      have "0 < unat (m_dbStoreId g) \<and> unat (m_dbStoreId g) < length (GroupDbStore w) \<and> GroupDbStore w ! unat (m_dbStoreId g) = Some a \<and>
          GroupStore w (GetLowGUID g) = Some a \<and> GetLowGUID g < NextGroupId w"
        using s g(1) unfolding store_ok_def by blast
      then show "0 < unat (m_dbStoreId h)" "unat (m_dbStoreId h) < length (GroupDbStore w)" "GroupDbStore w ! unat (m_dbStoreId h) = Some a"
        "GroupStore w (GetLowGUID h) = Some a" "GetLowGUID h < NextGroupId w"
        using norm_groupD(10) [OF g(2)] group_norm_inv(3) [OF g(2)] by simp_all
    }
  qed
  ultimately show ?thesis by (simp add: base_ok_def core_ok_def)
qed

lemma shapes_ok_norm: "norm w' = norm w \<Longrightarrow> shapes_ok w \<Longrightarrow> shapes_ok w'"
  unfolding shapes_ok_def by (metis group_norm_inv(2) norm_group_Some)

lemma groups_ok_norm: "norm w' = norm w \<Longrightarrow> groups_ok w \<Longrightarrow> groups_ok w'"
  unfolding groups_ok_def by (blast intro: base_ok_norm shapes_ok_norm)

lemma base_ok_live: "base_ok w \<Longrightarrow> gw_groups w a = Some g \<Longrightarrow> live a w"
  unfolding base_ok_def core_ok_def live_def pair_ok_def by (fastforce split: option.splits)

section \<open>Counting the members of sub groups\<close>

lemma slot_count_simps [simp]:
  "slot_count i [] = 0" "slot_count i (s # ss) = (if unat s = i then Suc (slot_count i ss) else slot_count i ss)"
  "slot_count i (ss @ ts) = slot_count i ss + slot_count i ts"
  by (simp_all add: slot_count_def)

lemma slot_count_le: "slot_count i ss \<le> length ss"
  by (simp add: slot_count_def)

lemma slot_count_split: "k < length ss \<Longrightarrow> slot_count i ss = slot_count i (take k ss @ drop (Suc k) ss) + (if unat (ss ! k) = i then 1 else 0)"
  by (subst id_take_nth_drop [of k ss]) simp_all

lemma slot_count_update:
  "k < length ss \<Longrightarrow> slot_count i (ss[k := s]) = slot_count i (take k ss @ drop (Suc k) ss) + (if unat s = i then 1 else 0)"
  by (simp add: upd_conv_take_nth_drop)

lemma length_slot_counts: "(\<And>s. s \<in> set ss \<Longrightarrow> unat s < n) \<Longrightarrow> length ss = (\<Sum>i<n. slot_count i ss)"
proof (induction ss)
  case (Cons s ss)
  have "(\<Sum>i<n. slot_count i (s # ss)) = (\<Sum>i<n. (if unat s = i then 1 else 0) + slot_count i ss)"
    by (rule sum.cong) simp_all
  then show ?case using Cons by (simp add: sum.distrib)
qed simp

lemma counts_fit_length: "counts_fit raid cs ss \<Longrightarrow> length ss \<le> MAXRAIDSIZE"
proof (cases cs)
  case (Some c)
  assume "counts_fit raid cs ss"
  then have le: "\<And>i. i < MAX_RAID_SUBGROUPS \<Longrightarrow> slot_count i ss \<le> MAXGROUPSIZE" and "\<And>s. s \<in> set ss \<Longrightarrow> unat s < MAX_RAID_SUBGROUPS"
    by (auto simp: counts_fit_def Some)
  then have "length ss = (\<Sum>i<MAX_RAID_SUBGROUPS. slot_count i ss)" by (intro length_slot_counts)
  also have "\<dots> \<le> (\<Sum>i<MAX_RAID_SUBGROUPS. MAXGROUPSIZE)" by (rule sum_mono) (simp add: le)
  finally show ?thesis by simp
qed (simp add: counts_fit_def)

lemma unat_u8_inc: "unat (c :: u8) < MAXGROUPSIZE \<Longrightarrow> unat (c + 1) = unat c + 1"
  by (subst unat_word_ariths) simp

lemma unat_u8_dec: "0 < unat (c :: u8) \<Longrightarrow> unat (c - 1) = unat c - 1"
  by (metis gr0_conv_Suc measure_unat unat_0 unat_minus_one zero_less_iff_neq_zero bot_nat_0.not_eq_extremum)

definition bump :: "(u8 \<Rightarrow> u8) \<Rightarrow> u8 \<Rightarrow> u8 list \<Rightarrow> u8 list" where
  "bump f s cs = cs[unat s := f (cs ! unat s)]"

lemma counts_fit_count:
  "counts_fit raid (Some cs) ss \<Longrightarrow> i < MAX_RAID_SUBGROUPS \<Longrightarrow> unat (cs ! i) = slot_count i ss \<and> slot_count i ss \<le> MAXGROUPSIZE"
  by (simp add: counts_fit_def)

lemma counts_fit_snoc:
  assumes "counts_fit raid counts ss"
    and "case counts of None \<Rightarrow> s = 0 \<and> length ss < MAXGROUPSIZE | Some cs \<Rightarrow> unat s < MAX_RAID_SUBGROUPS \<and> unat (cs ! unat s) < MAXGROUPSIZE"
  shows "counts_fit raid (map_option (bump (\<lambda>n. n + 1) s) counts) (ss @ [s])"
  using assms by (cases counts) (auto simp: counts_fit_def bump_def nth_list_update unat_u8_inc)

lemma counts_fit_erase:
  assumes "counts_fit raid counts ss" and k: "k < length ss"
  shows "counts_fit raid (map_option (bump (\<lambda>n. n - 1) (ss ! k)) counts) (take k ss @ drop (Suc k) ss)"
proof (cases counts)
  case None
  then show ?thesis using assms by (auto simp: counts_fit_def dest: in_set_takeD in_set_dropD)
next
  case (Some cs)
  have "unat (ss ! k) < MAX_RAID_SUBGROUPS" "\<And>s. s \<in> set (take k ss @ drop (Suc k) ss) \<Longrightarrow> unat s < MAX_RAID_SUBGROUPS"
    using assms by (auto simp: counts_fit_def Some dest: in_set_takeD in_set_dropD)
  moreover have "unat (cs ! i) = slot_count i (take k ss @ drop (Suc k) ss) + (if unat (ss ! k) = i then 1 else 0) \<and>
      slot_count i (take k ss @ drop (Suc k) ss) + (if unat (ss ! k) = i then 1 else 0) \<le> MAXGROUPSIZE" if "i < MAX_RAID_SUBGROUPS" for i
    unfolding slot_count_split [OF k, symmetric] using assms(1) that by (intro counts_fit_count) (simp_all add: Some)
  ultimately show ?thesis
    using assms(1) by (auto simp: counts_fit_def Some bump_def nth_list_update unat_u8_dec)
qed

lemma counts_fit_move:
  assumes "counts_fit raid (Some cs) ss" and k: "k < length ss" and s: "unat s < MAX_RAID_SUBGROUPS" "unat (cs ! unat s) < MAXGROUPSIZE" "ss ! k \<noteq> s"
  shows "counts_fit raid (Some (bump (\<lambda>n. n - 1) (ss ! k) (bump (\<lambda>n. n + 1) s cs))) (ss[k := s])"
proof -
  have ne: "unat (ss ! k) \<noteq> unat s" using s(3) by (simp add: word_unat_eq_iff)
  have b: "unat (ss ! k) < MAX_RAID_SUBGROUPS" "\<And>t. t \<in> set (ss[k := s]) \<Longrightarrow> unat t < MAX_RAID_SUBGROUPS"
    using assms by (auto simp: counts_fit_def dest!: set_update_subset_insert [THEN subsetD])
  have "unat (cs ! i) = slot_count i (take k ss @ drop (Suc k) ss) + (if unat (ss ! k) = i then 1 else 0) \<and>
      slot_count i (take k ss @ drop (Suc k) ss) + (if unat (ss ! k) = i then 1 else 0) \<le> MAXGROUPSIZE" if "i < MAX_RAID_SUBGROUPS" for i
    unfolding slot_count_split [OF k, symmetric] using assms(1) that by (intro counts_fit_count)
  then show ?thesis
    using assms(1) b ne s slot_count_update [OF k, of _ s]
    by (auto simp: counts_fit_def bump_def nth_list_update unat_u8_dec unat_u8_inc)
qed

text \<open>What \<^verbatim>\<open>_initRaidSubGroupsCounter\<close> computes: one bump for every slot, from all zero.\<close>

lemma counts_fit_recount:
  assumes "\<And>s. s \<in> set ss \<Longrightarrow> unat s < MAX_RAID_SUBGROUPS" and "\<And>i. i < MAX_RAID_SUBGROUPS \<Longrightarrow> slot_count i ss \<le> MAXGROUPSIZE"
  shows "counts_fit True (Some (foldl (\<lambda>cs s. bump (\<lambda>n. n + 1) s cs) (replicate MAX_RAID_SUBGROUPS 0) ss)) ss"
  using assms
proof (induction ss rule: rev_induct)
  case Nil
  show ?case by (simp add: counts_fit_def)
next
  case (snoc s ss)
  have "slot_count i ss \<le> MAXGROUPSIZE" if "i < MAX_RAID_SUBGROUPS" for i using snoc.prems(2) [OF that] by simp
  then have ih: "counts_fit True (Some (foldl (\<lambda>cs s. bump (\<lambda>n. n + 1) s cs) (replicate MAX_RAID_SUBGROUPS 0) ss)) ss" (is "counts_fit _ (Some ?cs) _")
    using snoc by simp
  have s: "unat s < MAX_RAID_SUBGROUPS" using snoc.prems(1) by simp
  have "unat (?cs ! unat s) < MAXGROUPSIZE" using counts_fit_count [OF ih s] snoc.prems(2) [OF s] by simp
  then show ?case using counts_fit_snoc [OF ih, of s] s by simp
qed

lemma free_subgroup_Some:
  "free_subgroup cs = Some s \<Longrightarrow> length cs \<le> MAX_RAID_SUBGROUPS \<Longrightarrow> unat s < length cs \<and> unat (cs ! unat s) < MAXGROUPSIZE"
proof (induction cs arbitrary: s)
  case (Cons c cs)
  show ?case
  proof (cases "unat c < MAXGROUPSIZE")
    case False
    then obtain t where t: "free_subgroup cs = Some t" "s = t + 1" using Cons.prems by auto
    then have ih: "unat t < length cs \<and> unat (cs ! unat t) < MAXGROUPSIZE" using Cons by simp
    then have "unat s = Suc (unat t)" using t(2) Cons.prems by (simp add: unat_word_ariths)
    then show ?thesis using ih by simp
  qed (use Cons.prems in auto)
qed simp

section \<open>Changing one group and one player\<close>

lemma core_okD:
  assumes "core_ok w"
  shows "gw_players w p = Some pl \<Longrightarrow> player_ok (dom (gw_groups w)) pl"
    and "gw_groups w a = Some g \<Longrightarrow> group_ok g"
    and "gw_groups w a = Some g \<Longrightarrow> a < gw_fresh w"
    and "gw_groups w a = Some g \<Longrightarrow> pair_ok a g p (gw_players w p)"
    and "gw_groups w a = Some g \<Longrightarrow> gw_groups w b = Some h \<Longrightarrow> a \<noteq> b \<Longrightarrow> set (guids g) \<inter> set (guids h) = {}"
  using assms unfolding core_ok_def slots_unique_def by blast+

lemma core_ok_cong:
  "gw_groups w' = gw_groups w \<Longrightarrow> gw_players w' = gw_players w \<Longrightarrow> gw_fresh w' = gw_fresh w \<Longrightarrow> core_ok w' = core_ok w"
  by (simp add: core_ok_def slots_unique_def)

lemma base_okD: "base_ok w \<Longrightarrow> core_ok w" "base_ok w \<Longrightarrow> store_ok w"
  by (simp_all add: base_ok_def)

lemma pair_ok_group_cong:
  assumes "p \<in> set (m_invitees g) \<longleftrightarrow> p \<in> set (m_invitees h)" and "\<And>k. (p, k) \<in> set (m_memberMgr g) \<longleftrightarrow> (p, k) \<in> set (m_memberMgr h)"
    and "p \<in> set (guids g) \<longleftrightarrow> p \<in> set (guids h)" and "\<And>s. (p, s) \<in> set (places g) \<longleftrightarrow> (p, s) \<in> set (places h)"
  shows "pair_ok a g p x = pair_ok a h p x"
  by (simp add: pair_ok_def assms split: option.split)

text \<open>What a player's fields say of the group at address \<open>a\<close>: is he invited, is he a member and in which sub group.\<close>

definition ties :: "nat \<Rightarrow> gplayer option \<Rightarrow> (bool \<times> u8 option) option" where
  "ties a x = map_option (\<lambda>pl. (gp_groupInvite pl = Some a, if gp_group pl = Some a then Some (gp_subGroup pl) else None)) x"

lemma pair_ok_player_cong: "ties a x = ties a y \<Longrightarrow> pair_ok a g p x = pair_ok a g p y"
  by (cases x; cases y) (auto simp: ties_def pair_ok_def split: if_splits)

lemma store_ok_upd:
  assumes "store_ok w" and "gw_groups w a = Some g" and "gw_groups w' = (gw_groups w)(a \<mapsto> g')"
    and "guids g' = [] \<longleftrightarrow> guids g = []" "m_dbStoreId g' = m_dbStoreId g" "m_guid g' = m_guid g"
    and "NextGroupDbStoreId w' = NextGroupDbStoreId w" "NextGroupId w' = NextGroupId w"
    and "GroupDbStore w' = GroupDbStore w" "GroupStore w' = GroupStore w"
  shows "store_ok w'"
proof -
  have low: "GetLowGUID g' = GetLowGUID g" using assms(6) by (simp add: GetLowGUID_def)
  have c: "created w' b h \<longleftrightarrow> (if b = a then h = g' \<and> created w a g else created w b h)" for b h
    using assms(2,3,4) by (auto simp: created_def)
  have u: "h = g" if "created w a h" for h using that assms(2) by (simp add: created_def)
  have e: "(\<exists>h. created w' b h \<and> R (m_dbStoreId h) (GetLowGUID h)) \<longleftrightarrow> (\<exists>h. created w b h \<and> R (m_dbStoreId h) (GetLowGUID h))" for b R
    using assms(5) low u by (cases "b = a") (auto simp: c)
  show ?thesis
    using assms(1) e [where R = "\<lambda>x y. unat x = _"] e [where R = "\<lambda>x y. y = _"]
    unfolding store_ok_def assms(7-) by (auto simp: c assms(5) low)
qed

text \<open>A change of the group at \<open>a\<close> and of the player \<open>p\<close>, who may come or go (\<open>x\<close> is the new player).\<close>

lemma core_ok_upd:
  assumes ok: "core_ok w" and g: "gw_groups w a = Some g"
    and w': "gw_groups w' = (gw_groups w)(a \<mapsto> g')" "gw_players w' = (gw_players w)(p := x)" "gw_fresh w' = gw_fresh w"
    and g': "group_ok g'"
    and own: "pair_ok a g' p x"
    and others: "\<And>q. q \<noteq> p \<Longrightarrow> (q \<in> set (m_invitees g') \<longleftrightarrow> q \<in> set (m_invitees g)) \<and>
      (\<forall>k. (q, k) \<in> set (m_memberMgr g') \<longleftrightarrow> (q, k) \<in> set (m_memberMgr g)) \<and> (q \<in> set (guids g') \<longleftrightarrow> q \<in> set (guids g)) \<and>
      (\<forall>s. (q, s) \<in> set (places g') \<longleftrightarrow> (q, s) \<in> set (places g))"
    and rest: "\<And>b h. b \<noteq> a \<Longrightarrow> gw_groups w b = Some h \<Longrightarrow> pair_ok b h p x"
    and pl: "\<And>pl. x = Some pl \<Longrightarrow> player_ok (dom (gw_groups w)) pl"
    and uniq: "\<And>b h. p \<in> set (guids g') \<Longrightarrow> b \<noteq> a \<Longrightarrow> gw_groups w b = Some h \<Longrightarrow> p \<notin> set (guids h)"
  shows "core_ok w'"
proof -
  have D: "dom (gw_groups w') = dom (gw_groups w)" using g by (auto simp: w')
  have "player_ok (dom (gw_groups w')) ql" if "gw_players w' q = Some ql" for q ql
    using that pl core_okD(1) [OF ok] unfolding D by (auto simp: w' split: if_splits)
  moreover have o: "pair_ok a g' q (gw_players w q)" if "q \<noteq> p" for q
    using core_okD(4) [OF ok g, of q] pair_ok_group_cong [of q g' g a "gw_players w q"] others [OF that] by simp
  have "group_ok h \<and> b < gw_fresh w' \<and> (\<forall>q. pair_ok b h q (gw_players w' q))" if "gw_groups w' b = Some h" for b h
    using that g' own o rest core_okD(2,3,4) [OF ok] g by (auto simp: w' split: if_splits)
  moreover have "set (guids g') \<inter> set (guids h) = {}" if "b \<noteq> a" "gw_groups w b = Some h" for b h
    using others uniq [OF _ that] core_okD(5) [OF ok g that(2)] that(1) by (fastforce simp: disjoint_iff)
  then have "slots_unique w'"
    using core_okD(5) [OF ok] unfolding slots_unique_def by (auto simp: w' disjoint_iff)
  ultimately show ?thesis by (simp add: core_ok_def)
qed

text \<open>The special cases of a change of the group alone, and of a player whose ties to other groups stay.\<close>

lemma core_ok_group_upd:
  assumes ok: "core_ok w" and g: "gw_groups w a = Some g" and g': "group_ok g'"
    and same: "set (m_invitees g') = set (m_invitees g)" "set (m_memberMgr g') = set (m_memberMgr g)" "set (places g') = set (places g)"
  shows "core_ok (put_group a g' w)"
proof -
  have gu: "set (guids g') = set (guids g)"
    using arg_cong [OF same(3), of "image fst"] by (simp add: places_def guids_def image_image)
  have p: "pair_ok a g' p (gw_players w p)" for p
    using core_okD(4) [OF ok g, of p] pair_ok_group_cong [of p g' g] same gu by simp
  have d: "q \<notin> set (guids h)" if "b \<noteq> a" "gw_groups w b = Some h" "q \<in> set (guids g)" for b h q
    using core_okD(5) [OF ok g that(2)] that by blast
  show ?thesis
    by (rule core_ok_upd [OF ok g, where g' = g' and p = undefined and x = "gw_players w undefined"])
      (use g' p same gu core_okD(1,4) [OF ok] d in auto)
qed

lemma core_ok_pair_upd:
  assumes ok: "core_ok w" and g: "gw_groups w a = Some g" and pl: "gw_players w p = Some pl" and g': "group_ok g'"
    and own: "pair_ok a g' p (Some pl')"
    and others: "\<And>q. q \<noteq> p \<Longrightarrow> (q \<in> set (m_invitees g') \<longleftrightarrow> q \<in> set (m_invitees g)) \<and>
      (\<forall>k. (q, k) \<in> set (m_memberMgr g') \<longleftrightarrow> (q, k) \<in> set (m_memberMgr g)) \<and> (q \<in> set (guids g') \<longleftrightarrow> q \<in> set (guids g)) \<and>
      (\<forall>s. (q, s) \<in> set (places g') \<longleftrightarrow> (q, s) \<in> set (places g))"
    and rest: "\<And>b. b \<noteq> a \<Longrightarrow> ties b (Some pl') = ties b (Some pl)"
    and pl': "player_ok (dom (gw_groups w)) pl'"
  shows "core_ok (put_player p pl' (put_group a g' w))"
proof (rule core_ok_upd [OF ok g, where g' = g' and x = "Some pl'" and p = p])
  show rb: "pair_ok b h p (Some pl')" if "b \<noteq> a" "gw_groups w b = Some h" for b h
    using core_okD(4) [OF ok that(2), of p] pair_ok_player_cong [OF rest [OF that(1)], of h p] pl by simp
  show "p \<notin> set (guids h)" if "p \<in> set (guids g')" "b \<noteq> a" "gw_groups w b = Some h" for b h
    using own that(1) rb [OF that(2,3)] that(2) by (auto simp: pair_ok_def)
qed (use g' own pl' others in auto)

end
