(* ===== verification/Group_Moves.thy ===== *)
theory Group_Moves
  imports Group_Inv
begin

text \<open>
  What the operations do to the structure of the groups, as functions on the state: invitations that come and go, members who join,
  leave and move, groups that are created and wiped out.  Each of them keeps the invariant.
\<close>

section \<open>Helpers\<close>

lemma getMemberSlot_Some:
  "getMemberSlot guid ms = Some k \<Longrightarrow> k < length ms \<and> ms_guid (ms ! k) = guid"
  by (induction ms arbitrary: k) (auto split: if_splits)

lemma getMemberSlot_None: "getMemberSlot guid ms = None \<longleftrightarrow> guid \<notin> ms_guid ` set ms"
  by (induction ms) auto

lemma getMemberSlot_guids: "getMemberSlot guid (m_memberSlots g) = None \<longleftrightarrow> guid \<notin> set (guids g)"
  by (simp add: getMemberSlot_None guids_def)

lemma lens [simp]: "length (guids g) = length (m_memberSlots g)" "length (subs g) = length (m_memberSlots g)"
  by (simp_all add: guids_def subs_def)

lemma guids_nth [simp]: "k < length (m_memberSlots g) \<Longrightarrow> guids g ! k = ms_guid (m_memberSlots g ! k)"
  "k < length (m_memberSlots g) \<Longrightarrow> subs g ! k = ms_group (m_memberSlots g ! k)"
  by (simp_all add: guids_def subs_def)

lemma distinct_erase:
  assumes "distinct (map f ms)" and "k < length ms"
  shows "set (take k ms @ drop (Suc k) ms) = {m \<in> set ms. f m \<noteq> f (ms ! k)}"
proof -
  have e: "ms = take k ms @ ms ! k # drop (Suc k) ms" using assms(2) by (rule id_take_nth_drop)
  have "distinct (map f (take k ms @ ms ! k # drop (Suc k) ms))" using assms(1) e by simp
  then have "\<forall>m\<in>set (take k ms @ drop (Suc k) ms). f m \<noteq> f (ms ! k)" by (auto simp: rev_image_eqI)
  moreover have "set ms = insert (ms ! k) (set (take k ms @ drop (Suc k) ms))" by (subst e) simp
  ultimately show ?thesis by auto
qed

lemma put_twice [simp]:
  "put_group a g (put_group a h w) = put_group a g w" "put_player p pl (put_player p ql w) = put_player p pl w"
  "put_group a g (put_player p pl w) = put_player p pl (put_group a g w)"
  by (simp_all add: put_group_def put_player_def)

lemma store_ok_cong:
  "gw_groups w' = gw_groups w \<Longrightarrow> NextGroupDbStoreId w' = NextGroupDbStoreId w \<Longrightarrow> NextGroupId w' = NextGroupId w \<Longrightarrow>
    GroupDbStore w' = GroupDbStore w \<Longrightarrow> GroupStore w' = GroupStore w \<Longrightarrow> store_ok w' = store_ok w"
  by (simp add: store_ok_def created_def)

lemma base_ok_pair_upd:
  assumes "base_ok w" and "gw_groups w a = Some g" and "core_ok (put_player p pl' (put_group a g' w))"
    and "guids g' = [] \<longleftrightarrow> guids g = []" "m_dbStoreId g' = m_dbStoreId g" "m_guid g' = m_guid g"
  shows "base_ok (put_player p pl' (put_group a g' w))"
  using store_ok_upd [OF base_okD(2) [OF assms(1)] assms(2) _ assms(4-), of "put_player p pl' (put_group a g' w)"] assms(3)
  by (simp add: base_ok_def)

lemma base_ok_group_upd:
  assumes "base_ok w" and "gw_groups w a = Some g" and "core_ok (put_group a g' w)"
    and "guids g' = [] \<longleftrightarrow> guids g = []" "m_dbStoreId g' = m_dbStoreId g" "m_guid g' = m_guid g"
  shows "base_ok (put_group a g' w)"
  using store_ok_upd [OF base_okD(2) [OF assms(1)] assms(2) _ assms(4-), of "put_group a g' w"] assms(3)
  by (simp add: base_ok_def)

lemma shapes_ok_upd: "shapes_ok w \<Longrightarrow> shape_ok g \<Longrightarrow> shapes_ok (put_group a g w)"
  by (simp add: shapes_ok_def)

lemma shapes_ok_player [simp]: "shapes_ok (put_player p pl w) = shapes_ok w"
  by (simp add: shapes_ok_def)

text \<open>All groups but the one at \<open>a\<close> have the right shape.\<close>

definition shapes_but :: "nat \<Rightarrow> group_world \<Rightarrow> bool" where
  "shapes_but a w = (\<forall>b g. b \<noteq> a \<longrightarrow> gw_groups w b = Some g \<longrightarrow> shape_ok g)"

lemma shapes_but_simps [simp]:
  "shapes_but a (put_group a g w) = shapes_but a w" "shapes_but a (put_player p pl w) = shapes_but a w"
  by (auto simp: shapes_but_def)

lemma shapes_but: "shapes_ok w \<Longrightarrow> shapes_but a w" "shapes_but a w \<Longrightarrow> gw_groups w a = Some g \<Longrightarrow> shape_ok g \<Longrightarrow> shapes_ok w"
  "shapes_but a w \<Longrightarrow> gw_groups w a = None \<Longrightarrow> shapes_ok w"
  unfolding shapes_but_def shapes_ok_def by (metis option.inject option.distinct(1))+

lemma shapes_but_norm: "norm w' = norm w \<Longrightarrow> shapes_but a w \<Longrightarrow> shapes_but a w'"
  unfolding shapes_but_def by (metis group_norm_inv(2) norm_group_Some)

text \<open>What the invariant says of a player and of a group he has ties with.\<close>

lemma player_facts:
  assumes "core_ok w" and "gw_players w p = Some pl"
  shows "gp_session pl" "gp_originalGroup pl = None" "FindGPlayer w p = Some pl"
    "gp_group pl = Some a \<Longrightarrow> \<exists>g. gw_groups w a = Some g" "gp_groupInvite pl = Some a \<Longrightarrow> gp_group pl = None"
    "gp_groupInvite pl = Some a \<Longrightarrow> \<exists>g. gw_groups w a = Some g"
  using core_okD(1) [OF assms] assms(2) by (auto simp: player_ok_def FindGPlayer_def)

lemma pair_facts:
  assumes "core_ok w" and "gw_players w p = Some pl" and "gw_groups w a = Some g"
  shows "p \<in> set (m_invitees g) \<longleftrightarrow> gp_groupInvite pl = Some a" "(p, k) \<in> set (m_memberMgr g) \<longleftrightarrow> k = MGroup \<and> gp_group pl = Some a"
    "p \<in> set (guids g) \<longleftrightarrow> gp_group pl = Some a" "gp_group pl = Some a \<Longrightarrow> (p, gp_subGroup pl) \<in> set (places g)"
  using core_okD(4) [OF assms(1,3), of p] assms(2) by (auto simp: pair_ok_def)

lemma offline_facts:
  assumes "core_ok w" and "gw_players w p = None" and "gw_groups w a = Some g"
  shows "p \<notin> set (m_invitees g)" "(p, k) \<notin> set (m_memberMgr g)"
  using core_okD(4) [OF assms(1,3), of p] assms(2) by (auto simp: pair_ok_def)

section \<open>Invitations\<close>

definition drop_invite :: "nat \<Rightarrow> group \<Rightarrow> u64 \<Rightarrow> gplayer \<Rightarrow> group_world \<Rightarrow> group_world" where
  "drop_invite a g p pl w =
     put_player p (pl\<lparr>gp_groupInvite := None\<rparr>) (put_group a (g\<lparr>m_invitees := removeAll p (m_invitees g)\<rparr>) w)"

definition add_invite :: "nat \<Rightarrow> group \<Rightarrow> u64 \<Rightarrow> gplayer \<Rightarrow> group_world \<Rightarrow> group_world" where
  "add_invite a g p pl w =
     put_player p (pl\<lparr>gp_groupInvite := Some a\<rparr>) (put_group a (g\<lparr>m_invitees := List.insert p (m_invitees g)\<rparr>) w)"

lemma group_ok_invitees: "group_ok g \<Longrightarrow> distinct xs \<Longrightarrow> group_ok (g\<lparr>m_invitees := xs\<rparr>)"
  by (simp add: group_ok_def counts_ok_def isRaidGroup_def subs_def guids_def)

lemma fields_invitees [simp]:
  "guids (g\<lparr>m_invitees := xs\<rparr>) = guids g" "places (g\<lparr>m_invitees := xs\<rparr>) = places g" "subs (g\<lparr>m_invitees := xs\<rparr>) = subs g"
  by (simp_all add: guids_def places_def subs_def)

lemma base_ok_drop_invite:
  assumes ok: "base_ok w" and g: "gw_groups w a = Some g" and pl: "gw_players w p = Some pl" "gp_groupInvite pl = Some a"
  shows "base_ok (drop_invite a g p pl w)"
  unfolding drop_invite_def
proof (intro base_ok_pair_upd [OF ok g] core_ok_pair_upd [OF base_okD(1) [OF ok] g pl(1)])
  note c = base_okD(1) [OF ok]
  show "group_ok (g\<lparr>m_invitees := removeAll p (m_invitees g)\<rparr>)"
    using core_okD(2) [OF c g] by (intro group_ok_invitees) (simp_all add: group_ok_def distinct_removeAll)
  show "pair_ok a (g\<lparr>m_invitees := removeAll p (m_invitees g)\<rparr>) p (Some (pl\<lparr>gp_groupInvite := None\<rparr>))"
    using pair_facts [OF c pl(1) g] by (simp add: pair_ok_def)
  show "player_ok (dom (gw_groups w)) (pl\<lparr>gp_groupInvite := None\<rparr>)" using core_okD(1) [OF c pl(1)] by (simp add: player_ok_def)
qed (simp_all add: ties_def pl)

lemma base_ok_add_invite:
  assumes ok: "base_ok w" and g: "gw_groups w a = Some g" and pl: "gw_players w p = Some pl" "gp_groupInvite pl = None" "gp_group pl = None"
  shows "base_ok (add_invite a g p pl w)"
  unfolding add_invite_def
proof (intro base_ok_pair_upd [OF ok g] core_ok_pair_upd [OF base_okD(1) [OF ok] g pl(1)])
  note c = base_okD(1) [OF ok]
  show "group_ok (g\<lparr>m_invitees := List.insert p (m_invitees g)\<rparr>)"
    using core_okD(2) [OF c g] by (intro group_ok_invitees) (simp_all add: group_ok_def)
  show "pair_ok a (g\<lparr>m_invitees := List.insert p (m_invitees g)\<rparr>) p (Some (pl\<lparr>gp_groupInvite := Some a\<rparr>))"
    using pair_facts [OF c pl(1) g] by (simp add: pair_ok_def)
  show "player_ok (dom (gw_groups w)) (pl\<lparr>gp_groupInvite := Some a\<rparr>)" using core_okD(1) [OF c pl(1)] g pl by (auto simp: player_ok_def)
qed (simp_all add: ties_def pl)

section \<open>A new group\<close>

definition birth :: "group_world \<Rightarrow> group_world" where
  "birth w = put_group (gw_fresh w) new_Group (w\<lparr>gw_fresh := gw_fresh w + 1\<rparr>)"

lemma base_ok_birth:
  assumes ok: "base_ok w"
  shows "base_ok (birth w)"
proof -
  note c = base_okD(1) [OF ok]
  have fresh: "gw_groups w (gw_fresh w) = None" using core_okD(3) [OF c, of "gw_fresh w"] by (cases "gw_groups w (gw_fresh w)") auto
  have e: "guids new_Group = []" "places new_Group = []" "subs new_Group = []" by (simp_all add: new_Group_def guids_def places_def subs_def)
  have go: "group_ok new_Group"
    by (simp add: group_ok_def counts_ok_def counts_fit_def e) (simp add: new_Group_def isRaidGroup_def)
  have no: "gp_group pl \<noteq> Some (gw_fresh w) \<and> gp_groupInvite pl \<noteq> Some (gw_fresh w)" if "gw_players w p = Some pl" for p pl
    using player_facts(4,6) [OF c that] fresh by fastforce
  have "player_ok (dom (gw_groups (birth w))) pl" if "gw_players (birth w) p = Some pl" for p pl
    using core_okD(1) [OF c, of p pl] that by (auto simp: birth_def player_ok_def)
  moreover have po: "pair_ok (gw_fresh w) new_Group p (gw_players w p)" for p
    using no [of p] e by (cases "gw_players w p") (auto simp: pair_ok_def, auto simp: new_Group_def)
  have "group_ok g \<and> b < gw_fresh (birth w) \<and> (\<forall>p. pair_ok b g p (gw_players (birth w) p))" if "gw_groups (birth w) b = Some g" for b g
    using that core_okD(2,4) [OF c] core_okD(3) [OF c, of b] go po by (fastforce simp: birth_def split: if_splits)
  moreover have "slots_unique (birth w)"
    using core_okD(5) [OF c] e unfolding slots_unique_def birth_def by simp
  moreover have "created (birth w) b g = created w b g" for b g
    using e fresh by (auto simp: birth_def created_def)
  then have "store_ok (birth w)" using base_okD(2) [OF ok] by (simp add: store_ok_def) (simp add: birth_def)
  ultimately show ?thesis by (simp add: base_ok_def core_ok_def)
qed

section \<open>Members\<close>

definition fits :: "group \<Rightarrow> u8 \<Rightarrow> bool" where
  "fits g sub =
     (case m_subGroupsCounts g of
        None \<Rightarrow> sub = 0 \<and> length (m_memberSlots g) < MAXGROUPSIZE
      | Some cs \<Rightarrow> unat sub < MAX_RAID_SUBGROUPS \<and> unat (cs ! unat sub) < MAXGROUPSIZE)"

definition join_group :: "group \<Rightarrow> u8 \<Rightarrow> u64 \<Rightarrow> string \<Rightarrow> group" where
  "join_group g sub p name =
     g\<lparr>m_memberSlots := m_memberSlots g @ [\<lparr>ms_guid = p, ms_name = name, ms_group = sub, ms_flags = 0, ms_roles = 0\<rparr>],
       m_subGroupsCounts := map_option (bump (\<lambda>n. n + 1) sub) (m_subGroupsCounts g),
       m_memberMgr := (p, MGroup) # m_memberMgr g\<rparr>"

definition join :: "nat \<Rightarrow> group \<Rightarrow> u8 \<Rightarrow> u64 \<Rightarrow> gplayer \<Rightarrow> group_world \<Rightarrow> group_world" where
  "join a g sub p pl w =
     put_player p (pl\<lparr>gp_groupInvite := None, gp_group := Some a, gp_subGroup := sub\<rparr>) (put_group a (join_group g sub p (gp_name pl)) w)"

lemma fields_join [simp]:
  "guids (join_group g sub p name) = guids g @ [p]" "subs (join_group g sub p name) = subs g @ [sub]"
  "places (join_group g sub p name) = places g @ [(p, sub)]" "isRaidGroup (join_group g sub p name) = isRaidGroup g"
  "m_invitees (join_group g sub p name) = m_invitees g" "m_memberMgr (join_group g sub p name) = (p, MGroup) # m_memberMgr g"
  "m_leaderGuid (join_group g sub p name) = m_leaderGuid g" "m_dbStoreId (join_group g sub p name) = m_dbStoreId g"
  "m_guid (join_group g sub p name) = m_guid g" "m_bgGroup (join_group g sub p name) = m_bgGroup g"
  "m_subGroupsCounts (join_group g sub p name) = map_option (bump (\<lambda>n. n + 1) sub) (m_subGroupsCounts g)"
  by (simp_all add: join_group_def guids_def subs_def places_def isRaidGroup_def)

lemma core_ok_join:
  assumes c: "core_ok w" and g: "gw_groups w a = Some g" and pl: "gw_players w p = Some pl" "gp_groupInvite pl = None" "gp_group pl = None"
    and sub: "fits g sub"
  shows "core_ok (join a g sub p pl w)"
  unfolding join_def
proof (intro core_ok_pair_upd [OF c g pl(1)])
  note pf = pair_facts [OF c pl(1) g]
  have "counts_ok (join_group g sub p (gp_name pl))"
    using core_okD(2) [OF c g] counts_fit_snoc [of "isRaidGroup g" "m_subGroupsCounts g" "subs g" sub] sub
    by (simp add: counts_ok_def group_ok_def fits_def cong: option.case_cong)
  then show "group_ok (join_group g sub p (gp_name pl))" using core_okD(2) [OF c g] pf pl by (simp add: group_ok_def)
  show "pair_ok a (join_group g sub p (gp_name pl)) p (Some (pl\<lparr>gp_groupInvite := None, gp_group := Some a, gp_subGroup := sub\<rparr>))"
    using pf pl by (auto simp: pair_ok_def)
  show "player_ok (dom (gw_groups w)) (pl\<lparr>gp_groupInvite := None, gp_group := Some a, gp_subGroup := sub\<rparr>)"
    using core_okD(1) [OF c pl(1)] g by (auto simp: player_ok_def)
qed (auto simp: ties_def pl)

lemma base_ok_join:
  assumes "base_ok w" and "gw_groups w a = Some g" and "gw_players w p = Some pl" "gp_groupInvite pl = None" "gp_group pl = None"
    and "fits g sub" and "guids g \<noteq> []"
  shows "base_ok (join a g sub p pl w)"
  using core_ok_join [OF base_okD(1) [OF assms(1)] assms(2-6)] assms(1,2,7) unfolding join_def by (intro base_ok_pair_upd) simp_all

definition leave_group :: "group \<Rightarrow> nat \<Rightarrow> u64 \<Rightarrow> group" where
  "leave_group g k p =
     g\<lparr>m_memberMgr := remove1 (p, MGroup) (m_memberMgr g),
       m_subGroupsCounts := map_option (bump (\<lambda>n. n - 1) (ms_group (m_memberSlots g ! k))) (m_subGroupsCounts g),
       m_memberSlots := take k (m_memberSlots g) @ drop (Suc k) (m_memberSlots g)\<rparr>"

text \<open>The player may be offline.\<close>

definition leave :: "nat \<Rightarrow> group \<Rightarrow> nat \<Rightarrow> u64 \<Rightarrow> group_world \<Rightarrow> group_world" where
  "leave a g k p w = put_group a (leave_group g k p)
     (w\<lparr>gw_players := (gw_players w)(p := map_option (\<lambda>pl. pl\<lparr>gp_group := None\<rparr>) (gw_players w p))\<rparr>)"

lemma fields_leave [simp]:
  "guids (leave_group g k p) = take k (guids g) @ drop (Suc k) (guids g)" "subs (leave_group g k p) = take k (subs g) @ drop (Suc k) (subs g)"
  "places (leave_group g k p) = take k (places g) @ drop (Suc k) (places g)" "isRaidGroup (leave_group g k p) = isRaidGroup g"
  "m_invitees (leave_group g k p) = m_invitees g" "m_memberMgr (leave_group g k p) = remove1 (p, MGroup) (m_memberMgr g)"
  "m_leaderGuid (leave_group g k p) = m_leaderGuid g" "m_dbStoreId (leave_group g k p) = m_dbStoreId g"
  "m_guid (leave_group g k p) = m_guid g" "m_bgGroup (leave_group g k p) = m_bgGroup g"
  by (simp_all add: leave_group_def guids_def subs_def places_def isRaidGroup_def take_map drop_map)

lemma leave_sets:
  assumes "distinct (guids g)" and k: "getMemberSlot p (m_memberSlots g) = Some k"
  shows "set (guids (leave_group g k p)) = set (guids g) - {p}" "set (places (leave_group g k p)) = {e \<in> set (places g). fst e \<noteq> p}"
    "distinct (guids (leave_group g k p))"
proof -
  have kp: "k < length (m_memberSlots g)" "ms_guid (m_memberSlots g ! k) = p" using getMemberSlot_Some [OF k] by simp_all
  have e: "set (take k (m_memberSlots g) @ drop (Suc k) (m_memberSlots g)) = {m \<in> set (m_memberSlots g). ms_guid m \<noteq> p}"
    using distinct_erase [of ms_guid "m_memberSlots g" k] assms(1) kp by (simp add: guids_def)
  have "set (guids (leave_group g k p)) = ms_guid ` set (take k (m_memberSlots g) @ drop (Suc k) (m_memberSlots g))"
    by (simp add: guids_def leave_group_def image_Un)
  then show "set (guids (leave_group g k p)) = set (guids g) - {p}" unfolding e by (auto simp: guids_def)
  have "set (places (leave_group g k p)) = (\<lambda>m. (ms_guid m, ms_group m)) ` set (take k (m_memberSlots g) @ drop (Suc k) (m_memberSlots g))"
    by (simp add: places_def leave_group_def image_Un)
  then show "set (places (leave_group g k p)) = {e \<in> set (places g). fst e \<noteq> p}" unfolding e by (auto simp: places_def)
  have "guids g = take k (guids g) @ guids g ! k # drop (Suc k) (guids g)" using kp by (intro id_take_nth_drop) simp
  then have "distinct (take k (guids g) @ guids g ! k # drop (Suc k) (guids g))" using assms(1) by simp
  then show "distinct (guids (leave_group g k p))" by simp
qed

lemma core_ok_leave:
  assumes c: "core_ok w" and g: "gw_groups w a = Some g" and k: "getMemberSlot p (m_memberSlots g) = Some k"
  shows "core_ok (leave a g k p w)"
proof (rule core_ok_upd [OF c g, where g' = "leave_group g k p" and p = p and x = "map_option (\<lambda>pl. pl\<lparr>gp_group := None\<rparr>) (gw_players w p)"])
  note go = core_okD(2) [OF c g]
  have kp: "k < length (m_memberSlots g)" "ms_guid (m_memberSlots g ! k) = p" using getMemberSlot_Some [OF k] by simp_all
  have d: "distinct (guids g)" using go by (simp add: group_ok_def)
  note ls = leave_sets [OF d k]
  have pm: "p \<in> set (guids g)" using k getMemberSlot_guids [of p g] by auto
  have "counts_ok (leave_group g k p)"
    using go counts_fit_erase [of "isRaidGroup g" "m_subGroupsCounts g" "subs g" k] kp
    by (simp add: counts_ok_def group_ok_def) (simp add: leave_group_def)
  then show "group_ok (leave_group g k p)" using go ls(3) by (simp add: group_ok_def distinct_remove1)
  have dm: "distinct (m_memberMgr g)" using go by (simp add: group_ok_def)
  show "pair_ok a (leave_group g k p) p (map_option (\<lambda>pl. pl\<lparr>gp_group := None\<rparr>) (gw_players w p))"
  proof (cases "gw_players w p")
    case None
    then show ?thesis using offline_facts [OF c None g] by (simp add: pair_ok_def dm)
  next
    case (Some pl)
    have "p \<notin> set (guids (leave_group g k p))" using ls(1) by simp
    then show ?thesis using pair_facts [OF c Some g] dm unfolding pair_ok_def Some by (simp add: set_remove1_eq del: fields_leave(1,3))
  qed
  show "(q \<in> set (m_invitees (leave_group g k p)) \<longleftrightarrow> q \<in> set (m_invitees g)) \<and>
      (\<forall>j. (q, j) \<in> set (m_memberMgr (leave_group g k p)) \<longleftrightarrow> (q, j) \<in> set (m_memberMgr g)) \<and>
      (q \<in> set (guids (leave_group g k p)) \<longleftrightarrow> q \<in> set (guids g)) \<and>
      (\<forall>s. (q, s) \<in> set (places (leave_group g k p)) \<longleftrightarrow> (q, s) \<in> set (places g))" if "q \<noteq> p" for q
    using that ls(1,2) dm by (simp add: set_remove1_eq del: fields_leave(1,3))
  show "pair_ok b h p (map_option (\<lambda>pl. pl\<lparr>gp_group := None\<rparr>) (gw_players w p))" if "b \<noteq> a" "gw_groups w b = Some h" for b h
  proof -
    have "p \<notin> set (guids h)" using core_okD(5) [OF c g that(2)] that(1) pm by blast
    then have "ties b (map_option (\<lambda>pl. pl\<lparr>gp_group := None\<rparr>) (gw_players w p)) = ties b (gw_players w p)"
      using pair_facts(3) [OF c _ that(2), of p] by (cases "gw_players w p") (auto simp: ties_def)
    then show ?thesis using core_okD(4) [OF c that(2), of p] pair_ok_player_cong by blast
  qed
  show "player_ok (dom (gw_groups w)) pl'" if "map_option (\<lambda>pl. pl\<lparr>gp_group := None\<rparr>) (gw_players w p) = Some pl'" for pl'
    using that core_okD(1) [OF c, of p] by (auto simp: player_ok_def)
  show "p \<notin> set (guids h)" if "p \<in> set (guids (leave_group g k p))" for b h
    using that unfolding ls(1) by simp
qed (simp_all add: leave_def)

lemma base_ok_leave:
  assumes "base_ok w" and g: "gw_groups w a = Some g" and "getMemberSlot p (m_memberSlots g) = Some k" and "2 \<le> length (m_memberSlots g)"
  shows "base_ok (leave a g k p w)"
proof -
  have "guids (leave_group g k p) \<noteq> []" using assms(4) arg_cong [of "take k (guids g) @ drop (Suc k) (guids g)" "[]" length] by auto
  moreover have "guids g \<noteq> []" using assms(4) by (auto simp: guids_def)
  ultimately have "store_ok (leave a g k p w)"
    by (intro store_ok_upd [OF base_okD(2) [OF assms(1)] g, where g' = "leave_group g k p"]) (auto simp: leave_def simp del: fields_leave(1))
  then show ?thesis using core_ok_leave [OF base_okD(1) [OF assms(1)] assms(2,3)] by (simp add: base_ok_def)
qed

section \<open>Sub groups\<close>

definition move_group :: "group \<Rightarrow> nat \<Rightarrow> u8 \<Rightarrow> group" where
  "move_group g k sub = (upd_slot k (\<lambda>m. m\<lparr>ms_group := sub\<rparr>) g)\<lparr>m_subGroupsCounts :=
     map_option (\<lambda>cs. bump (\<lambda>n. n - 1) (ms_group (m_memberSlots g ! k)) (bump (\<lambda>n. n + 1) sub cs)) (m_subGroupsCounts g)\<rparr>"

definition move :: "nat \<Rightarrow> group \<Rightarrow> nat \<Rightarrow> u8 \<Rightarrow> u64 \<Rightarrow> group_world \<Rightarrow> group_world" where
  "move a g k sub p w = put_group a (move_group g k sub)
     (w\<lparr>gw_players := (gw_players w)(p := map_option (\<lambda>pl. pl\<lparr>gp_subGroup := sub\<rparr>) (gw_players w p))\<rparr>)"

lemma fields_move [simp]:
  "guids (move_group g k sub) = guids g" "subs (move_group g k sub) = (subs g)[k := sub]" "isRaidGroup (move_group g k sub) = isRaidGroup g"
  "m_invitees (move_group g k sub) = m_invitees g" "m_memberMgr (move_group g k sub) = m_memberMgr g"
  "m_leaderGuid (move_group g k sub) = m_leaderGuid g" "m_dbStoreId (move_group g k sub) = m_dbStoreId g"
  "m_guid (move_group g k sub) = m_guid g" "m_bgGroup (move_group g k sub) = m_bgGroup g"
  by (simp_all add: move_group_def upd_slot_def guids_def subs_def isRaidGroup_def map_update)
    (metis list_update_beyond list_update_id map_update not_le nth_map length_map)

lemma set_places: "(q, s) \<in> set (places g) \<longleftrightarrow> (\<exists>j<length (m_memberSlots g). ms_guid (m_memberSlots g ! j) = q \<and> ms_group (m_memberSlots g ! j) = s)"
  unfolding in_set_conv_nth by (auto simp: places_def)

lemma places_move:
  assumes "distinct (guids g)" and k: "getMemberSlot p (m_memberSlots g) = Some k"
  shows "(q, s) \<in> set (places (move_group g k sub)) \<longleftrightarrow> (if q = p then s = sub else (q, s) \<in> set (places g))"
proof -
  have kp: "k < length (m_memberSlots g)" "ms_guid (m_memberSlots g ! k) = p" using getMemberSlot_Some [OF k] by simp_all
  have u: "j = k" if "j < length (m_memberSlots g)" "ms_guid (m_memberSlots g ! j) = p" for j
    using nth_eq_iff_index_eq [OF assms(1), of j k] that kp by simp
  have m: "m_memberSlots (move_group g k sub) = (m_memberSlots g)[k := (m_memberSlots g ! k)\<lparr>ms_group := sub\<rparr>]"
    by (simp add: move_group_def upd_slot_def)
  show ?thesis
  proof (cases "q = p")
    case True
    have "(j < length (m_memberSlots g) \<and> ms_guid (m_memberSlots (move_group g k sub) ! j) = p \<and> ms_group (m_memberSlots (move_group g k sub) ! j) = s)
        \<longleftrightarrow> j = k \<and> s = sub" for j
    proof (cases "j = k")
      case True
      then show ?thesis unfolding m using kp by auto
    next
      case False
      then show ?thesis unfolding m using u [of j] by auto
    qed
    then show ?thesis using True unfolding set_places by (simp add: m)
  next
    case False
    have "ms_guid (m_memberSlots (move_group g k sub) ! j) = q \<and> ms_group (m_memberSlots (move_group g k sub) ! j) = s \<longleftrightarrow>
        ms_guid (m_memberSlots g ! j) = q \<and> ms_group (m_memberSlots g ! j) = s" for j
      unfolding m using kp False by (cases "j = k") simp_all
    then show ?thesis using False unfolding set_places by (simp add: m)
  qed
qed

lemma base_ok_move:
  assumes ok: "base_ok w" and g: "gw_groups w a = Some g" and k: "getMemberSlot p (m_memberSlots g) = Some k"
    and cs: "m_subGroupsCounts g = Some cs" "unat sub < MAX_RAID_SUBGROUPS" "unat (cs ! unat sub) < MAXGROUPSIZE" "ms_group (m_memberSlots g ! k) \<noteq> sub"
  shows "base_ok (move a g k sub p w)"
proof -
  note c = base_okD(1) [OF ok]
  note go = core_okD(2) [OF c g]
  have kp: "k < length (m_memberSlots g)" "ms_guid (m_memberSlots g ! k) = p" using getMemberSlot_Some [OF k] by simp_all
  have d: "distinct (guids g)" using go by (simp add: group_ok_def)
  have pm: "p \<in> set (guids g)" using k getMemberSlot_guids [of p g] by auto
  have "core_ok (move a g k sub p w)"
  proof (rule core_ok_upd [OF c g, where g' = "move_group g k sub" and p = p and x = "map_option (\<lambda>pl. pl\<lparr>gp_subGroup := sub\<rparr>) (gw_players w p)"])
    have "counts_ok (move_group g k sub)"
      using go counts_fit_move [of "isRaidGroup g" cs "subs g" k sub] kp cs
      by (simp add: counts_ok_def group_ok_def) (simp add: move_group_def cs)
    then show "group_ok (move_group g k sub)" using go by (simp add: group_ok_def)
    show "pair_ok a (move_group g k sub) p (map_option (\<lambda>pl. pl\<lparr>gp_subGroup := sub\<rparr>) (gw_players w p))"
      using offline_facts [OF c _ g, of p] pair_facts [OF c _ g, of p] places_move [OF d k]
      by (cases "gw_players w p") (simp_all add: pair_ok_def)
    show "pair_ok b h p (map_option (\<lambda>pl. pl\<lparr>gp_subGroup := sub\<rparr>) (gw_players w p))" if "b \<noteq> a" "gw_groups w b = Some h" for b h
    proof -
      have "ties b (map_option (\<lambda>pl. pl\<lparr>gp_subGroup := sub\<rparr>) (gw_players w p)) = ties b (gw_players w p)"
        using pair_facts(3) [OF c _ g, of p] pm that(1) by (cases "gw_players w p") (auto simp: ties_def)
      then show ?thesis using core_okD(4) [OF c that(2), of p] pair_ok_player_cong by blast
    qed
    show "player_ok (dom (gw_groups w)) pl'" if "map_option (\<lambda>pl. pl\<lparr>gp_subGroup := sub\<rparr>) (gw_players w p) = Some pl'" for pl'
      using that core_okD(1) [OF c, of p] by (auto simp: player_ok_def)
    show "p \<notin> set (guids h)" if "b \<noteq> a" "gw_groups w b = Some h" for b h
      using core_okD(5) [OF c g that(2)] that(1) pm by blast
  qed (simp_all add: move_def places_move [OF d k])
  moreover have "store_ok (move a g k sub p w)"
    by (rule store_ok_upd [OF base_okD(2) [OF ok] g, where g' = "move_group g k sub"]) (simp_all add: move_def)
  ultimately show ?thesis by (simp add: base_ok_def)
qed

definition raid_group :: "group \<Rightarrow> group" where
  "raid_group g = g\<lparr>m_groupType := m_groupType g OR GROUPTYPE_RAID,
     m_subGroupsCounts := Some (foldl (\<lambda>cs s. bump (\<lambda>n. n + 1) s cs) (replicate MAX_RAID_SUBGROUPS 0) (subs g))\<rparr>"

lemma fields_raid [simp]:
  "guids (raid_group g) = guids g" "subs (raid_group g) = subs g" "places (raid_group g) = places g" "isRaidGroup (raid_group g)"
  "m_invitees (raid_group g) = m_invitees g" "m_memberMgr (raid_group g) = m_memberMgr g"
  "m_leaderGuid (raid_group g) = m_leaderGuid g" "m_dbStoreId (raid_group g) = m_dbStoreId g"
  "m_guid (raid_group g) = m_guid g" "m_bgGroup (raid_group g) = m_bgGroup g"
proof -
  have "bit ((m_groupType g OR GROUPTYPE_RAID) AND GROUPTYPE_RAID) 1" by (simp add: bit_simps)
  then show "isRaidGroup (raid_group g)" unfolding isRaidGroup_def raid_group_def by auto
qed (simp_all add: raid_group_def guids_def subs_def places_def)

lemma base_ok_raid:
  assumes ok: "base_ok w" and g: "gw_groups w a = Some g"
  shows "base_ok (put_group a (raid_group g) w)"
proof (intro base_ok_group_upd [OF ok g] core_ok_group_upd [OF base_okD(1) [OF ok] g])
  have go: "group_ok g" using core_okD(2) [OF base_okD(1) [OF ok] g] .
  have "(\<forall>s\<in>set (subs g). unat s < MAX_RAID_SUBGROUPS) \<and> (\<forall>i<MAX_RAID_SUBGROUPS. slot_count i (subs g) \<le> MAXGROUPSIZE)"
    using go slot_count_le [of _ "subs g"]
    by (cases "m_subGroupsCounts g") (auto simp: group_ok_def counts_ok_def counts_fit_def intro: order_trans)
  then have "counts_ok (raid_group g)"
    using counts_fit_recount [of "subs g"] by (simp add: counts_ok_def) (simp add: raid_group_def)
  then show "group_ok (raid_group g)" using go by (simp add: group_ok_def)
qed simp_all

section \<open>The end of a group\<close>

definition wipe :: "nat \<Rightarrow> group_world \<Rightarrow> group_world" where
  "wipe a w = w\<lparr>gw_groups := (gw_groups w)(a := None),
     gw_players := (\<lambda>p. map_option (\<lambda>pl. pl\<lparr>gp_group := (if gp_group pl = Some a then None else gp_group pl),
       gp_groupInvite := (if gp_groupInvite pl = Some a then None else gp_groupInvite pl)\<rparr>) (gw_players w p))\<rparr>"

lemma core_ok_wipe:
  assumes c: "core_ok w"
  shows "core_ok (wipe a w)"
proof -
  have "player_ok (dom (gw_groups (wipe a w))) ql" if q: "gw_players (wipe a w) p = Some ql" for p ql
  proof -
    obtain pl where pl: "gw_players w p = Some pl" and ql: "ql = pl\<lparr>gp_group := (if gp_group pl = Some a then None else gp_group pl),
        gp_groupInvite := (if gp_groupInvite pl = Some a then None else gp_groupInvite pl)\<rparr>"
      using q by (auto simp: wipe_def)
    show ?thesis unfolding ql using core_okD(1) [OF c pl] by (auto simp: player_ok_def wipe_def)
  qed
  moreover have "group_ok h \<and> b < gw_fresh (wipe a w) \<and> (\<forall>p. pair_ok b h p (gw_players (wipe a w) p))"
    if h: "gw_groups (wipe a w) b = Some h" for b h
  proof -
    have b: "b \<noteq> a" "gw_groups w b = Some h" using h by (auto simp: wipe_def split: if_splits)
    have "ties b (gw_players (wipe a w) p) = ties b (gw_players w p)" for p
      using b(1) by (cases "gw_players w p") (auto simp: wipe_def ties_def)
    then have "pair_ok b h p (gw_players (wipe a w) p)" for p
      using core_okD(4) [OF c b(2), of p] pair_ok_player_cong by blast
    then show ?thesis using core_okD(2,3) [OF c b(2)] by (simp add: wipe_def)
  qed
  moreover have "slots_unique (wipe a w)" using core_okD(5) [OF c] by (simp add: slots_unique_def wipe_def)
  ultimately show ?thesis by (simp add: core_ok_def)
qed

lemma created_wipe: "created (wipe a w) b h \<longleftrightarrow> b \<noteq> a \<and> created w b h"
  by (auto simp: created_def wipe_def)

lemma base_ok_wipe:
  assumes ok: "base_ok w" and "gw_groups w a = Some g" and "guids g = []"
  shows "base_ok (wipe a w)"
proof -
  have "created (wipe a w) b h = created w b h" for b h
    using assms(2,3) unfolding created_wipe by (auto simp: created_def)
  then have "store_ok (wipe a w)" using base_okD(2) [OF ok] by (simp add: store_ok_def) (simp add: wipe_def)
  then show ?thesis using core_ok_wipe [OF base_okD(1) [OF ok]] by (simp add: base_ok_def)
qed

definition unregister :: "group \<Rightarrow> group_world \<Rightarrow> group_world" where
  "unregister g w = w\<lparr>NextGroupDbStoreId := (if m_dbStoreId g < NextGroupDbStoreId w then m_dbStoreId g else NextGroupDbStoreId w),
     GroupDbStore := (GroupDbStore w)[unat (m_dbStoreId g) := None], GroupStore := (GroupStore w)(GetLowGUID g := None)\<rparr>"

lemma update_None: "S ! j = None \<Longrightarrow> j < length S \<Longrightarrow> S[i := None] ! j = None"
  by (cases "i = j") simp_all

lemma next_ok_free:
  assumes "next_ok S n m" and "0 < unat i"
  shows "next_ok (S[unat i := None]) (if i < n then i else n) m"
proof (cases "i < n")
  case True
  then have "unat i < unat n" by (simp add: word_less_nat_alt)
  then show ?thesis using assms True by (auto simp: next_ok_def nth_list_update)
next
  case False
  then have "unat n \<le> unat i" by (simp add: word_less_nat_alt)
  then show ?thesis using assms False by (auto simp: next_ok_def update_None)
qed

lemma store_ok_unregister:
  assumes s: "store_ok w" and c: "created w a g"
  shows "store_ok (wipe a (unregister g w))"
proof -
  have cr: "created (wipe a (unregister g w)) b h \<longleftrightarrow> b \<noteq> a \<and> created w b h" for b h
    unfolding created_wipe by (simp add: created_def unregister_def)
  have row: "0 < unat (m_dbStoreId h) \<and> unat (m_dbStoreId h) < length (GroupDbStore w) \<and> GroupDbStore w ! unat (m_dbStoreId h) = Some b \<and>
      GroupStore w (GetLowGUID h) = Some b \<and> GetLowGUID h < NextGroupId w" if "created w b h" for b h
    using s that unfolding store_ok_def by blast
  note ra = row [OF c]
  have tab: "GroupDbStore (wipe a (unregister g w)) = (GroupDbStore w)[unat (m_dbStoreId g) := None]"
    "GroupStore (wipe a (unregister g w)) = (GroupStore w)(GetLowGUID g := None)"
    "NextGroupDbStoreId (wipe a (unregister g w)) = (if m_dbStoreId g < NextGroupDbStoreId w then m_dbStoreId g else NextGroupDbStoreId w)"
    "NextGroupId (wipe a (unregister g w)) = NextGroupId w"
    by (simp_all add: wipe_def unregister_def)
  show ?thesis
    unfolding store_ok_def tab cr
  proof (intro conjI allI impI)
    show "next_ok ((GroupDbStore w)[unat (m_dbStoreId g) := None])
        (if m_dbStoreId g < NextGroupDbStoreId w then m_dbStoreId g else NextGroupDbStoreId w) (NextGroupId w)"
      using s ra by (intro next_ok_free) (simp_all add: store_ok_def)
    {
      fix j b assume "j < length ((GroupDbStore w)[unat (m_dbStoreId g) := None])" "(GroupDbStore w)[unat (m_dbStoreId g) := None] ! j = Some b"
      then have j: "j \<noteq> unat (m_dbStoreId g)" "j < length (GroupDbStore w)" "GroupDbStore w ! j = Some b"
        by (cases "j = unat (m_dbStoreId g)"; simp)+
      then obtain h where "created w b h" "unat (m_dbStoreId h) = j" using s unfolding store_ok_def by blast
      moreover from this have "b \<noteq> a" using c j(1) by (auto simp: created_def)
      ultimately show "\<exists>h. (b \<noteq> a \<and> created w b h) \<and> unat (m_dbStoreId h) = j" by blast
    }
    {
      fix k b assume "((GroupStore w)(GetLowGUID g := None)) k = Some b"
      then have k: "k \<noteq> GetLowGUID g" "GroupStore w k = Some b" by (auto split: if_splits)
      then obtain h where "created w b h" "GetLowGUID h = k" using s unfolding store_ok_def by blast
      moreover from this have "b \<noteq> a" using c k(1) by (auto simp: created_def)
      ultimately show "\<exists>h. (b \<noteq> a \<and> created w b h) \<and> GetLowGUID h = k" by blast
    }
    {
      fix b h assume "b \<noteq> a \<and> created w b h"
      then have b: "b \<noteq> a" "created w b h" by auto
      have "unat (m_dbStoreId h) \<noteq> unat (m_dbStoreId g)" "GetLowGUID h \<noteq> GetLowGUID g" using row [OF b(2)] ra b(1) by auto
      then show "0 < unat (m_dbStoreId h)" "unat (m_dbStoreId h) < length ((GroupDbStore w)[unat (m_dbStoreId g) := None])"
        "(GroupDbStore w)[unat (m_dbStoreId g) := None] ! unat (m_dbStoreId h) = Some b"
        "((GroupStore w)(GetLowGUID g := None)) (GetLowGUID h) = Some b" "GetLowGUID h < NextGroupId w"
        using row [OF b(2)] by simp_all
    }
  qed
qed

section \<open>Store ids\<close>

lemma find_free_store_id_spec:
  "find_free_store_id i S = Some j \<Longrightarrow>
    i \<le> j \<and> j < 0xFFFFFFFF \<and> (length S \<le> j \<or> S ! j = None) \<and> (\<forall>k. i \<le> k \<longrightarrow> k < j \<longrightarrow> k < length S \<and> S ! k \<noteq> None)"
proof (induction i S rule: find_free_store_id.induct)
  case (1 i S)
  show ?case
  proof (cases "i < 0xFFFFFFFF \<and> \<not> (i < length S \<and> S ! i = None \<or> length S \<le> i)")
    case True
    then have "find_free_store_id (i + 1) S = Some j" using "1.prems" by (auto simp: find_free_store_id.simps [of i])
    then have ih: "i + 1 \<le> j \<and> j < 0xFFFFFFFF \<and> (length S \<le> j \<or> S ! j = None) \<and> (\<forall>k. i + 1 \<le> k \<longrightarrow> k < j \<longrightarrow> k < length S \<and> S ! k \<noteq> None)"
      using "1.IH" True by simp
    have "k < length S \<and> S ! k \<noteq> None" if "i \<le> k" "k < j" for k
      using ih that True by (cases "k = i") auto
    then show ?thesis using ih by auto
  next
    case False
    then have "j = i" "i < 0xFFFFFFFF" "length S \<le> i \<or> S ! i = None" using "1.prems" by (auto simp: find_free_store_id.simps [of i] split: if_splits)
    then show ?thesis by simp
  qed
qed

lemma find_free_store_id_total:
  "i < 0xFFFFFFFF \<Longrightarrow> length S < 0xFFFFFFFF \<Longrightarrow> \<exists>j. find_free_store_id i S = Some j"
proof (induction i S rule: find_free_store_id.induct)
  case (1 i S)
  show ?case
  proof (cases "i < length S \<and> S ! i = None \<or> length S \<le> i")
    case False
    then have "\<exists>j. find_free_store_id (i + 1) S = Some j" using "1.IH" "1.prems" by simp
    then show ?thesis using False "1.prems" by (simp add: find_free_store_id.simps [of i])
  qed (use "1.prems" in \<open>simp add: find_free_store_id.simps [of i]\<close>)
qed

definition store_at :: "nat option list \<Rightarrow> nat \<Rightarrow> nat \<Rightarrow> nat option list" where
  "store_at S i a = (if length S \<le> i then S @ replicate (i + 1 - length S) None else S)[i := Some a]"

lemma store_at_simps [simp]:
  "length (store_at S i a) = max (length S) (i + 1)"
  "j < length (store_at S i a) \<Longrightarrow> store_at S i a ! j = (if j = i then Some a else if j < length S then S ! j else None)"
  by (auto simp: store_at_def nth_append nth_list_update)

definition next_free :: "nat option list \<Rightarrow> u32 \<Rightarrow> u32" where
  "next_free S n = (case find_free_store_id (unat (n + 1)) S of Some j \<Rightarrow> of_nat j | None \<Rightarrow> n + 1)"

lemma next_ok_take:
  assumes ok: "next_ok S n m" and m: "m < 0xFFFFFFFE"
  shows "n < next_free S n" and "next_ok (store_at S (unat n) a) (next_free S n) (m + 1)"
proof -
  have um: "unat m < 0xFFFFFFFE" using m by (simp add: word_less_nat_alt)
  then have len: "length S < 0xFFFFFFFE" "unat (m + 1) = unat m + 1" using ok by (auto simp: next_ok_def unat_word_ariths)
  have nl: "unat n \<le> max 1 (length S)"
  proof (rule ccontr)
    assume "\<not> unat n \<le> max 1 (length S)"
    then have "0 < max 1 (length S)" "max 1 (length S) < unat n" by auto
    then have "max 1 (length S) < length S" using ok unfolding next_ok_def by blast
    then show False by simp
  qed
  then have n1: "unat (n + 1) = unat n + 1" using len by (simp add: unat_word_ariths)
  have "unat n + 1 < 0xFFFFFFFF" "length S < 0xFFFFFFFF" using nl len by auto
  then obtain j where j: "find_free_store_id (unat n + 1) S = Some j" using find_free_store_id_total by blast
  note sp = find_free_store_id_spec [OF j]
  have uj: "unat (of_nat j :: u32) = j" using sp by (simp add: unat_of_nat)
  have nf: "next_free S n = of_nat j" using j by (simp add: next_free_def n1)
  show "n < next_free S n" using sp uj by (simp add: nf word_less_nat_alt)
  show "next_ok (store_at S (unat n) a) (next_free S n) (m + 1)"
    unfolding next_ok_def nf uj
  proof (intro conjI allI impI)
    show "0 < j" using sp by simp
    show "0 < unat (m + 1)" using len by simp
    show "length (store_at S (unat n) a) \<le> unat (m + 1)" using nl ok len by (auto simp: next_ok_def)
    fix i assume i: "0 < i" "i < j"
    have c: "i < unat n \<or> i = unat n \<or> unat n + 1 \<le> i" by linarith
    have old: "i < unat n \<Longrightarrow> i < length S \<and> S ! i \<noteq> None" using ok i by (auto simp: next_ok_def)
    have new: "unat n + 1 \<le> i \<Longrightarrow> i < length S \<and> S ! i \<noteq> None" using sp i by auto
    show il: "i < length (store_at S (unat n) a)" using c old new by auto
    then show "store_at S (unat n) a ! i \<noteq> None" using c old new by (auto simp del: store_at_simps(1))
  next
    assume "j < length (store_at S (unat n) a)"
    then show "store_at S (unat n) a ! j = None" using sp by (auto simp del: store_at_simps(1))
  qed
qed

text \<open>
  What the groups rely on: the manager always offers the least id that is not in use, also after ids have been given back.
\<close>

locale id_store =
  fixes in_use :: "'s \<Rightarrow> u32 set" and nxt :: "'s \<Rightarrow> u32" and hand_out :: "nat \<Rightarrow> 's \<Rightarrow> 's" and give_back :: "u32 \<Rightarrow> 's \<Rightarrow> 's"
    and ok :: "'s \<Rightarrow> bool" and room :: "'s \<Rightarrow> bool"
  assumes least: "ok s \<Longrightarrow> 0 < nxt s \<and> nxt s \<notin> in_use s \<and> (\<forall>i. 0 < i \<longrightarrow> i < nxt s \<longrightarrow> i \<in> in_use s)"
    and hand_out: "ok s \<Longrightarrow> room s \<Longrightarrow> ok (hand_out a s) \<and> in_use (hand_out a s) = insert (nxt s) (in_use s)"
    and give_back: "ok s \<Longrightarrow> 0 < i \<Longrightarrow> ok (give_back i s) \<and> in_use (give_back i s) = in_use s - {i}"
begin

lemma nxt_le: "ok s \<Longrightarrow> 0 < i \<Longrightarrow> i \<notin> in_use s \<Longrightarrow> nxt s \<le> i"
  using least [of s] by (auto simp: not_less [symmetric])

lemma nxt_cong: "ok s \<Longrightarrow> ok t \<Longrightarrow> in_use s = in_use t \<Longrightarrow> nxt s = nxt t"
  using least [of s] least [of t] by (intro antisym nxt_le) auto

lemma nxt_grows:
  assumes "ok s" and "room s"
  shows "nxt s < nxt (hand_out a s)"
proof -
  note h = hand_out [OF assms, of a]
  have "nxt s \<le> nxt (hand_out a s)" using h least [of "hand_out a s"] assms(1) by (intro nxt_le) auto
  moreover have "nxt (hand_out a s) \<noteq> nxt s" using h least [of "hand_out a s"] by auto
  ultimately show ?thesis by simp
qed

text \<open>The id of a group that is gone is the next one to be used, when it is the latest that was given out.\<close>

lemma reuse:
  assumes "ok s" and "room s"
  shows "nxt (give_back (nxt s) (hand_out a s)) = nxt s"
proof (rule nxt_cong)
  note h = hand_out [OF assms, of a] and l = least [OF assms(1)]
  show "ok (give_back (nxt s) (hand_out a s))" "in_use (give_back (nxt s) (hand_out a s)) = in_use s"
    using give_back [of "hand_out a s" "nxt s"] h l by auto
qed (rule assms(1))

end

type_synonym id_state = "nat option list \<times> u32 \<times> u32"

definition st_in_use :: "id_state \<Rightarrow> u32 set" where
  "st_in_use = (\<lambda>(S, n, m). {i. unat i < length S \<and> S ! unat i \<noteq> None})"

definition st_next :: "id_state \<Rightarrow> u32" where
  "st_next = (\<lambda>(S, n, m). n)"

definition st_hand_out :: "nat \<Rightarrow> id_state \<Rightarrow> id_state" where
  "st_hand_out a = (\<lambda>(S, n, m). (store_at S (unat n) a, next_free S n, m + 1))"

definition st_give_back :: "u32 \<Rightarrow> id_state \<Rightarrow> id_state" where
  "st_give_back i = (\<lambda>(S, n, m). (S[unat i := None], if i < n then i else n, m))"

lemmas st_defs = st_in_use_def st_next_def st_hand_out_def st_give_back_def

lemma st_in_use_hand_out: "st_in_use (st_hand_out a (S, n, m)) = insert n (st_in_use (S, n, m))"
proof (rule set_eqI)
  fix i
  show "i \<in> st_in_use (st_hand_out a (S, n, m)) \<longleftrightarrow> i \<in> insert n (st_in_use (S, n, m))"
  proof (cases "unat i < length (store_at S (unat n) a)")
    case True
    then have "store_at S (unat n) a ! unat i = (if unat i = unat n then Some a else if unat i < length S then S ! unat i else None)"
      by (rule store_at_simps(2))
    then show ?thesis using True by (auto simp: st_defs word_unat_eq_iff simp del: store_at_simps)
  next
    case False
    then show ?thesis by (auto simp: st_defs less_max_iff_disj)
  qed
qed

interpretation gs: id_store st_in_use st_next st_hand_out st_give_back "\<lambda>(S, n, m). next_ok S n m" "\<lambda>(S, n, m). m < 0xFFFFFFFE"
proof
  fix s :: id_state
  obtain S n m where s: "s = (S, n, m)" by (cases s)
  assume "(\<lambda>(S, n, m). next_ok S n m) s"
  then have ok: "next_ok S n m" by (simp add: s)
  show "0 < st_next s \<and> st_next s \<notin> st_in_use s \<and> (\<forall>i. 0 < i \<longrightarrow> i < st_next s \<longrightarrow> i \<in> st_in_use s)"
    using ok by (auto simp: s st_defs next_ok_def word_less_nat_alt unat_gt_0)
  show "(\<lambda>(S, n, m). next_ok S n m) (st_hand_out a s) \<and> st_in_use (st_hand_out a s) = insert (st_next s) (st_in_use s)"
    if "(\<lambda>(S, n, m). m < 0xFFFFFFFE) s" for a
    using next_ok_take(2) [OF ok] that st_in_use_hand_out [of a S n m] by (simp add: s) (simp add: st_defs)
  show "(\<lambda>(S, n, m). next_ok S n m) (st_give_back i s) \<and> st_in_use (st_give_back i s) = st_in_use s - {i}" if "0 < i" for i
  proof -
    have "S[unat i := None] ! unat j = (if j = i then None else S ! unat j)" if "unat j < length S" for j
      using that by (cases "j = i") (simp_all add: nth_list_update word_unat_eq_iff)
    then have "st_in_use (st_give_back i s) = st_in_use s - {i}" by (auto simp: s st_defs split: if_splits)
    then show ?thesis using next_ok_free [OF ok, of i] \<open>0 < i\<close> by (simp add: s unat_gt_0) (simp add: st_defs)
  qed
qed

definition enrol :: "nat \<Rightarrow> group_world \<Rightarrow> group_world" where
  "enrol a w = w\<lparr>NextGroupDbStoreId := next_free (GroupDbStore w) (NextGroupDbStoreId w), NextGroupId := NextGroupId w + 1,
     GroupDbStore := store_at (GroupDbStore w) (unat (NextGroupDbStoreId w)) a, GroupStore := (GroupStore w)(NextGroupId w \<mapsto> a)\<rparr>"

lemma store_ok_enrol:
  assumes s: "store_ok w" and g: "gw_groups w a = Some g" "guids g = []" and w': "gw_groups w' = (gw_groups w)(a \<mapsto> g')"
    "NextGroupDbStoreId w' = next_free (GroupDbStore w) (NextGroupDbStoreId w)" "NextGroupId w' = NextGroupId w + 1"
    "GroupDbStore w' = store_at (GroupDbStore w) (unat (NextGroupDbStoreId w)) a" "GroupStore w' = (GroupStore w)(NextGroupId w \<mapsto> a)"
    and g': "guids g' \<noteq> []" "m_dbStoreId g' = NextGroupDbStoreId w" "GetLowGUID g' = NextGroupId w" and m: "NextGroupId w < 0xFFFFFFFE"
  shows "store_ok w'"
proof -
  have n: "next_ok (GroupDbStore w) (NextGroupDbStoreId w) (NextGroupId w)" using s by (simp add: store_ok_def)
  have cr: "created w' b h \<longleftrightarrow> (if b = a then h = g' else created w b h)" for b h
    using g g'(1) by (auto simp: created_def w')
  have na: "created w b h \<Longrightarrow> b \<noteq> a" for b h using g by (auto simp: created_def)
  have row: "0 < unat (m_dbStoreId h) \<and> unat (m_dbStoreId h) < length (GroupDbStore w) \<and> GroupDbStore w ! unat (m_dbStoreId h) = Some b \<and>
      GroupStore w (GetLowGUID h) = Some b \<and> GetLowGUID h < NextGroupId w" if "created w b h" for b h
    using s that unfolding store_ok_def by blast
  have lt: "NextGroupId w < NextGroupId w + 1" using m by (simp add: word_less_nat_alt unat_word_ariths)
  show ?thesis
    unfolding store_ok_def
  proof (intro conjI allI impI)
    show "next_ok (GroupDbStore w') (NextGroupDbStoreId w') (NextGroupId w')" unfolding w' by (rule next_ok_take(2) [OF n m])
    {
      fix i b assume i: "i < length (GroupDbStore w')" "GroupDbStore w' ! i = Some b"
      show "\<exists>h. created w' b h \<and> unat (m_dbStoreId h) = i"
      proof (cases "i = unat (NextGroupDbStoreId w)")
        case True
        then show ?thesis using i g' by (auto simp: w' cr simp del: store_at_simps(1))
      next
        case False
        then have "i < length (GroupDbStore w)" "GroupDbStore w ! i = Some b" using i by (auto simp: w' simp del: store_at_simps(1) split: if_splits)
        then obtain h where "created w b h" "unat (m_dbStoreId h) = i" using s unfolding store_ok_def by blast
        then show ?thesis using na by (auto simp: cr)
      qed
    }
    {
      fix k b assume k: "GroupStore w' k = Some b"
      show "\<exists>h. created w' b h \<and> GetLowGUID h = k"
      proof (cases "k = NextGroupId w")
        case True
        then show ?thesis using k g' by (auto simp: w' cr)
      next
        case False
        then have "GroupStore w k = Some b" using k by (simp add: w')
        then obtain h where "created w b h" "GetLowGUID h = k" using s unfolding store_ok_def by blast
        then show ?thesis using na by (auto simp: cr)
      qed
    }
    {
      fix b h assume c: "created w' b h"
      have "(b = a \<and> h = g') \<or> (b \<noteq> a \<and> created w b h)" using c by (auto simp: cr split: if_splits)
      then have "0 < unat (m_dbStoreId h) \<and> unat (m_dbStoreId h) < length (GroupDbStore w') \<and>
          GroupDbStore w' ! unat (m_dbStoreId h) = Some b \<and> GroupStore w' (GetLowGUID h) = Some b \<and> GetLowGUID h < NextGroupId w'"
      proof (elim disjE conjE)
        assume "b = a" and "h = g'"
        then show ?thesis using n g' lt by (simp add: w' next_ok_def)
      next
        assume "b \<noteq> a" and "created w b h"
        note r = row [OF this(2)]
        have "unat (m_dbStoreId h) \<noteq> unat (NextGroupDbStoreId w)" using r n by (auto simp: next_ok_def)
        moreover have "GetLowGUID h < NextGroupId w + 1" "GetLowGUID h \<noteq> NextGroupId w" using r lt by auto
        moreover have "unat (m_dbStoreId h) < length (store_at (GroupDbStore w) (unat (NextGroupDbStoreId w)) a)" using r by (auto simp: less_max_iff_disj)
        ultimately show ?thesis using r by (simp add: w' del: store_at_simps(1))
      qed
      then show "0 < unat (m_dbStoreId h)" "unat (m_dbStoreId h) < length (GroupDbStore w')" "GroupDbStore w' ! unat (m_dbStoreId h) = Some b"
        "GroupStore w' (GetLowGUID h) = Some b" "GetLowGUID h < NextGroupId w'" by simp_all
    }
  qed
qed

section \<open>The first members of a group\<close>

lemma group_guid_lopart: "GUID_LOPART (MAKE_NEW_GUID l 0 (high_code HIGHGUID_GROUP)) = l"
proof -
  have "GUID_HIPART (MAKE_NEW_GUID l 0 0x1F50) = 0x1F50" by (rule guid_hipart) simp_all
  then have "\<not> IsGuidHaveEnPart (MAKE_NEW_GUID l 0 0x1F50)" by (simp add: IsGuidHaveEnPart_def)
  moreover have "ucast (MAKE_NEW_GUID l 0 0x1F50 AND 0x00000000FFFFFFFF) = l"
    unfolding guid_masks by (rule bit_word_eqI) (auto simp: bit_simps guid_part_bits)
  ultimately show ?thesis by (simp add: GUID_LOPART_def)
qed

definition found_group :: "group \<Rightarrow> u64 \<Rightarrow> u32 \<Rightarrow> u32 \<Rightarrow> group" where
  "found_group g leader low sid =
     g\<lparr>m_leaderGuid := leader, m_guid := MAKE_NEW_GUID low 0 (high_code HIGHGUID_GROUP), m_dbStoreId := sid\<rparr>"

definition found :: "nat \<Rightarrow> group \<Rightarrow> u64 \<Rightarrow> gplayer \<Rightarrow> group_world \<Rightarrow> group_world" where
  "found a g leader pl w = enrol a (join a (found_group g leader (NextGroupId w) (NextGroupDbStoreId w)) 0 leader pl w)"

lemma fields_found [simp]:
  "guids (found_group g l i s) = guids g" "subs (found_group g l i s) = subs g" "places (found_group g l i s) = places g"
  "isRaidGroup (found_group g l i s) = isRaidGroup g" "m_invitees (found_group g l i s) = m_invitees g"
  "m_memberMgr (found_group g l i s) = m_memberMgr g" "m_leaderGuid (found_group g l i s) = l" "m_dbStoreId (found_group g l i s) = s"
  "GetLowGUID (found_group g l i s) = i" "m_bgGroup (found_group g l i s) = m_bgGroup g"
  "m_subGroupsCounts (found_group g l i s) = m_subGroupsCounts g" "m_memberSlots (found_group g l i s) = m_memberSlots g"
  using group_guid_lopart [of i]
  by (simp_all add: found_group_def guids_def subs_def places_def isRaidGroup_def GetLowGUID_def)

lemma not_raid_counts: "group_ok g \<Longrightarrow> \<not> isRaidGroup g \<Longrightarrow> m_subGroupsCounts g = None"
  by (auto simp: group_ok_def counts_ok_def counts_fit_def split: option.splits)

lemma base_ok_found:
  assumes ok: "base_ok w" and g: "gw_groups w a = Some g" "guids g = []" "\<not> isRaidGroup g" and m: "NextGroupId w < 0xFFFFFFFE"
    and pl: "gw_players w leader = Some pl" "gp_groupInvite pl = None" "gp_group pl = None"
  shows "base_ok (found a g leader pl w)"
proof -
  let ?g = "found_group g leader (NextGroupId w) (NextGroupDbStoreId w)"
  note c = base_okD(1) [OF ok]
  have "group_ok ?g" using core_okD(2) [OF c g(1)] by (simp add: group_ok_def counts_ok_def)
  then have c1: "core_ok (put_group a ?g w)" by (intro core_ok_group_upd [OF c g(1)]) simp_all
  have "length (m_memberSlots g) = 0" using g(2) by (simp add: guids_def)
  then have "fits ?g 0" using not_raid_counts [OF core_okD(2) [OF c g(1)] g(3)] by (simp add: fits_def)
  then have "core_ok (join a ?g 0 leader pl (put_group a ?g w))" by (intro core_ok_join [OF c1]) (simp_all add: pl)
  then have "core_ok (found a g leader pl w)"
    by (subst core_ok_cong [of _ "join a ?g 0 leader pl (put_group a ?g w)"]) (simp_all add: found_def enrol_def join_def)
  moreover have "GetLowGUID (join_group ?g 0 leader (gp_name pl)) = NextGroupId w"
    using fields_found(9) [of g leader "NextGroupId w" "NextGroupDbStoreId w"] by (simp add: GetLowGUID_def del: fields_found(9))
  then have "store_ok (found a g leader pl w)"
    by (intro store_ok_enrol [OF base_okD(2) [OF ok] g(1,2) _ _ _ _ _ _ _ _ m, where g' = "join_group ?g 0 leader (gp_name pl)"])
      (simp_all add: found_def enrol_def join_def)
  ultimately show ?thesis by (simp add: base_ok_def)
qed

section \<open>Players who come and go\<close>

text \<open>\<open>x\<close> replaces the player \<open>p\<close>; no group but the one at \<open>a\<close> is concerned.\<close>

definition set_mgr :: "nat \<Rightarrow> (u64 \<times> group_ref) list \<Rightarrow> group \<Rightarrow> u64 \<Rightarrow> gplayer option \<Rightarrow> group_world \<Rightarrow> group_world" where
  "set_mgr a refs g p x w = put_group a (g\<lparr>m_memberMgr := refs\<rparr>) (w\<lparr>gw_players := (gw_players w)(p := x)\<rparr>)"

lemma fields_mgr [simp]:
  "guids (g\<lparr>m_memberMgr := xs\<rparr>) = guids g" "places (g\<lparr>m_memberMgr := xs\<rparr>) = places g" "subs (g\<lparr>m_memberMgr := xs\<rparr>) = subs g"
  "isRaidGroup (g\<lparr>m_memberMgr := xs\<rparr>) = isRaidGroup g"
  by (simp_all add: guids_def places_def subs_def isRaidGroup_def)

lemma base_ok_set_mgr:
  assumes ok: "base_ok w" and g: "gw_groups w a = Some g" and d: "distinct refs"
    and refs: "\<And>q k. q \<noteq> p \<Longrightarrow> (q, k) \<in> set refs \<longleftrightarrow> (q, k) \<in> set (m_memberMgr g)"
    and own: "pair_ok a (g\<lparr>m_memberMgr := refs\<rparr>) p x" and rest: "\<And>b h. b \<noteq> a \<Longrightarrow> gw_groups w b = Some h \<Longrightarrow> pair_ok b h p x"
    and pl: "\<And>pl. x = Some pl \<Longrightarrow> player_ok (dom (gw_groups w)) pl"
  shows "base_ok (set_mgr a refs g p x w)"
proof -
  note c = base_okD(1) [OF ok]
  have "core_ok (set_mgr a refs g p x w)"
  proof (rule core_ok_upd [OF c g, where g' = "g\<lparr>m_memberMgr := refs\<rparr>" and p = p and x = x])
    show "group_ok (g\<lparr>m_memberMgr := refs\<rparr>)" using core_okD(2) [OF c g] d by (simp add: group_ok_def counts_ok_def)
    show "p \<notin> set (guids h)" if "p \<in> set (guids (g\<lparr>m_memberMgr := refs\<rparr>))" "b \<noteq> a" "gw_groups w b = Some h" for b h
      using core_okD(5) [OF c g that(3)] that by auto
  qed (use own rest pl refs in \<open>simp_all add: set_mgr_def\<close>)
  moreover have "store_ok (set_mgr a refs g p x w)"
    by (rule store_ok_upd [OF base_okD(2) [OF ok] g, where g' = "g\<lparr>m_memberMgr := refs\<rparr>"]) (simp_all add: set_mgr_def)
  ultimately show ?thesis by (simp add: base_ok_def)
qed

lemma base_ok_set_player:
  assumes ok: "base_ok w" and own: "\<And>a g. gw_groups w a = Some g \<Longrightarrow> pair_ok a g p x"
    and pl: "\<And>pl. x = Some pl \<Longrightarrow> player_ok (dom (gw_groups w)) pl"
  shows "base_ok (w\<lparr>gw_players := (gw_players w)(p := x)\<rparr>)"
proof -
  let ?w = "w\<lparr>gw_players := (gw_players w)(p := x)\<rparr>"
  note c = base_okD(1) [OF ok]
  have "core_ok ?w"
    unfolding core_ok_def
  proof (intro conjI allI impI)
    show "player_ok (dom (gw_groups ?w)) ql" if "gw_players ?w q = Some ql" for q ql
      using that core_okD(1) [OF c, of q ql] pl by (cases "q = p") simp_all
    show "slots_unique ?w" using c by (simp add: core_ok_def slots_unique_def)
    fix a g assume "gw_groups ?w a = Some g"
    then have g: "gw_groups w a = Some g" by simp
    show "group_ok g" "a < gw_fresh ?w" using core_okD(2,3) [OF c g] by simp_all
    show "pair_ok a g q (gw_players ?w q)" for q using core_okD(4) [OF c g, of q] own [OF g] by simp
  qed
  moreover have "store_ok ?w" using base_okD(2) [OF ok] by (subst store_ok_cong [of _ w]) simp_all
  ultimately show ?thesis by (simp add: base_ok_def)
qed

end
