(* ===== verification/Group_Steps.thy ===== *)
theory Group_Steps
  imports Group_Moves
begin

text \<open>
  What the operations do: up to the fields that \<open>norm\<close> blanks out, each of them performs one of the moves of \<open>Group_Moves\<close>, and does
  not fail.
\<close>

section \<open>Runs of quiet operations\<close>

definition quiet_from :: "group_world \<Rightarrow> 'a gm \<Rightarrow> bool" where
  "quiet_from v m = (\<forall>w. norm w = norm v \<longrightarrow> quiet m w)"

lemma wp_quiet_then:
  "quiet_from v m \<Longrightarrow> norm w = norm v \<Longrightarrow> (\<And>w'. norm w' = norm v \<Longrightarrow> g_wp n Q w') \<Longrightarrow> g_wp (g_then m n) Q w"
  unfolding g_wp_then quiet_from_def by (rule quiet_wp) auto

lemma wp_quiet: "quiet_from v m \<Longrightarrow> norm w = norm v \<Longrightarrow> (\<And>x w'. norm w' = norm v \<Longrightarrow> Q x w') \<Longrightarrow> g_wp m Q w"
  unfolding quiet_from_def by (rule quiet_wp) auto

lemma wp_ret: "Q x w \<Longrightarrow> g_wp (g_ret x) Q w"
  by (simp add: wp_rules)

lemma wp_then: "g_wp m (\<lambda>_. g_wp n Q) w \<Longrightarrow> g_wp (g_then m n) Q w"
  by (simp add: wp_rules)

lemma wp_bind: "g_wp m (\<lambda>x. g_wp (f x) Q) w \<Longrightarrow> g_wp (g_bind m f) Q w"
  by (simp add: wp_rules)

lemma wp_group: "gw_groups w a = Some g \<Longrightarrow> g_wp (f g) Q w \<Longrightarrow> g_wp (g_bind (g_group a) f) Q w"
  by (simp add: wp_rules)

lemma wp_player: "gw_players w p = Some pl \<Longrightarrow> g_wp (f pl) Q w \<Longrightarrow> g_wp (g_bind (g_player p) f) Q w"
  by (simp add: wp_rules)

lemma wp_get: "g_wp (f (h w)) Q w \<Longrightarrow> g_wp (g_bind (g_get h) f) Q w"
  by (simp add: wp_rules)

lemma wp_set_group: "gw_groups w a = Some g \<Longrightarrow> g_wp n Q (put_group a (f g) w) \<Longrightarrow> g_wp (g_then (set_group a f) n) Q w"
  by (simp add: wp_rules)

lemma wp_when: "(b \<Longrightarrow> g_wp m Q w) \<Longrightarrow> (\<not> b \<Longrightarrow> Q () w) \<Longrightarrow> g_wp (g_when b m) Q w"
  by (simp add: wp_rules)

named_theorems quiet_intros \<open>operations that change nothing but blanked fields\<close>

lemma quiet_from_basic [quiet_intros]: "quiet_from v (g_ret x)" "quiet_from v (g_emit es)" "quiet_from v (SendPartyResult p op m r)"
  by (simp_all add: quiet_from_def quiet_SendPartyResult)

lemma quiet_from_when [quiet_intros]: "(b \<Longrightarrow> quiet_from v m) \<Longrightarrow> quiet_from v (g_when b m)"
  by (auto simp: quiet_from_def intro: quiet_when)

lemma quiet_from_then [quiet_intros]: "quiet_from v m \<Longrightarrow> quiet_from v n \<Longrightarrow> quiet_from v (g_then m n)"
  by (auto simp: quiet_from_def intro: quiet_then)

lemma quiet_from_group [quiet_intros]:
  assumes "gw_groups v a = Some g"
  shows "quiet_from v (SendUpdate a)" "quiet_from v (ResetMaxEnchantingLevel a)"
    and "(\<And>g. norm_group (f g) = norm_group g) \<Longrightarrow> quiet_from v (set_group a f)"
  unfolding quiet_from_def
  by (blast elim: norm_group_Some [OF _ assms] intro: quiet_SendUpdate quiet_ResetMaxEnchantingLevel quiet_set_group)+

lemma quiet_from_player [quiet_intros]:
  assumes "gw_players v p = Some pl"
  shows "quiet_from v (homebindIfInstance env p)" "(\<And>pl. norm_player (f pl) = norm_player pl) \<Longrightarrow> quiet_from v (set_player p f)"
    and "gw_groups v a = Some g \<Longrightarrow> quiet_from v (difficulty_sync a p)" "gw_groups v a = Some g \<Longrightarrow> quiet_from v (raise_enchanting a p)"
  unfolding quiet_from_def
  by (blast elim: norm_player_Some [OF _ assms] norm_group_Some intro: quiet_player_ops quiet_set_player)+

lemma quiet_from_live [quiet_intros]:
  assumes "live a v"
  shows "quiet_from v (BroadcastPacket a pkt b sub ign)" "quiet_from v (BroadcastReadyCheck a pkt)" "quiet_from v (BroadcastGroupUpdate a)"
    "quiet_from v (SendTargetIconList a p)" "quiet_from v (OfflineReadyCheck a)" "quiet_from v (SetTargetIcon a i who t)"
  unfolding quiet_from_def
  by (blast intro: live_norm [OF _ assms] quiet_Broadcast quiet_OfflineReadyCheck quiet_SetTargetIcon)+

lemma norm_group_cong:
  assumes "norm_group h = norm_group g"
  shows "norm_group (h\<lparr>m_memberMgr := refs\<rparr>) = norm_group (g\<lparr>m_memberMgr := refs\<rparr>)"
    "norm_group (h\<lparr>m_invitees := xs\<rparr>) = norm_group (g\<lparr>m_invitees := xs\<rparr>)"
    "norm_group (h\<lparr>m_leaderGuid := l\<rparr>) = norm_group (g\<lparr>m_leaderGuid := l\<rparr>)"
    "norm_group (h\<lparr>m_subGroupsCounts := cs\<rparr>) = norm_group (g\<lparr>m_subGroupsCounts := cs\<rparr>)"
  using assms by (cases h; cases g; simp add: norm_group_def)+

lemma norm_player_cong:
  assumes "norm_player ql = norm_player pl"
  shows "norm_player (ql\<lparr>gp_group := x\<rparr>) = norm_player (pl\<lparr>gp_group := x\<rparr>)"
    "norm_player (ql\<lparr>gp_groupInvite := x\<rparr>) = norm_player (pl\<lparr>gp_groupInvite := x\<rparr>)"
    "norm_player (ql\<lparr>gp_subGroup := s\<rparr>) = norm_player (pl\<lparr>gp_subGroup := s\<rparr>)"
  using assms by (cases ql; cases pl; simp add: norm_player_def)+

section \<open>Invitations\<close>

lemma RemoveInvite_wp:
  "gw_groups w a = Some g \<Longrightarrow> gw_players w p = Some pl \<Longrightarrow> Q () (drop_invite a g p pl w) \<Longrightarrow> g_wp (RemoveInvite a p) Q w"
  by (simp add: RemoveInvite_def wp_rules drop_invite_def)

lemma drop_no_invite:
  assumes "core_ok w" and "gw_groups w a = Some g" and "gw_players w p = Some pl" and "gp_groupInvite pl = None"
  shows "drop_invite a g p pl w = w"
proof -
  have "removeAll p (m_invitees g) = m_invitees g" using pair_facts(1) [OF assms(1,3,2)] assms(4) by (simp add: removeAll_id)
  moreover have "pl\<lparr>gp_groupInvite := None\<rparr> = pl" using assms(4) by (cases pl) simp
  ultimately show ?thesis by (simp add: drop_invite_def put_group_same put_player_same assms)
qed

lemma group_or_original_wp:
  assumes "core_ok w" and "gw_players w p = Some pl" and "Q (gp_group pl) w"
  shows "g_wp (group_or_original pl) Q w"
proof (cases "gp_group pl")
  case (Some a)
  then obtain g where g: "gw_groups w a = Some g" using player_facts(4) [OF assms(1,2)] by blast
  then have "\<not> isBGGroup g" using core_okD(2) [OF assms(1)] by (auto simp: group_ok_def isBGGroup_def)
  then show ?thesis using assms(3) g by (simp add: group_or_original_def Some wp_rules)
qed (use assms in \<open>simp add: group_or_original_def wp_rules\<close>)

lemma AddInvite_wp:
  assumes c: "core_ok w" and g: "gw_groups w a = Some g" and pl: "gw_players w p = Some pl"
    and refused: "gp_groupInvite pl \<noteq> None \<or> gp_group pl \<noteq> None \<Longrightarrow> Q False w"
    and added: "gp_groupInvite pl = None \<Longrightarrow> gp_group pl = None \<Longrightarrow> Q True (add_invite a g p pl w)"
  shows "g_wp (AddInvite a p) Q w"
proof (cases "gp_groupInvite pl = None")
  case False
  then show ?thesis using refused pl by (simp add: AddInvite_def wp_rules)
next
  case True
  have "g_wp (if gp_group pl \<noteq> None then g_ret False
      else g_then (RemoveInvite a p) (g_then (set_group a (\<lambda>g. g\<lparr>m_invitees := List.insert p (m_invitees g)\<rparr>))
         (g_then (set_player p (\<lambda>pl. pl\<lparr>gp_groupInvite := Some a\<rparr>)) (g_then (g_emit [GCall ''OnGroupInviteMember'' p]) (g_ret True))))) Q w"
  proof (cases "gp_group pl = None")
    case False
    then show ?thesis using refused by (simp add: wp_rules)
  next
    case gn: True
    show ?thesis
      unfolding gn g_wp_then simp_thms if_False
      by (rule RemoveInvite_wp [OF g pl], unfold drop_no_invite [OF c g pl True])
        (use added [OF True gn] in \<open>simp add: wp_rules add_invite_def g pl\<close>)
  qed
  then show ?thesis
    unfolding AddInvite_def g_wp_bind by (simp add: g_wp_pointers pl True) (simp add: g_wp_bind, rule group_or_original_wp [OF c pl], simp)
qed

section \<open>Joining\<close>

lemma bump_count_wp:
  assumes g: "gw_groups w a = Some g" and "\<And>cs. m_subGroupsCounts g = Some cs \<Longrightarrow> unat s < length cs"
    and "Q () (put_group a (g\<lparr>m_subGroupsCounts := map_option (bump f s) (m_subGroupsCounts g)\<rparr>) w)"
  shows "g_wp (bump_count f a s) Q w"
proof (cases "m_subGroupsCounts g")
  case None
  then have "g\<lparr>m_subGroupsCounts := None\<rparr> = g" by (cases g) simp
  then show ?thesis using assms(3) None by (simp add: bump_count_def wp_rules g put_group_same)
next
  case (Some cs)
  then show ?thesis using assms(2,3) by (simp add: bump_count_def wp_rules g bump_def)
qed

lemma sint_small: "unat (s :: u8) < MAX_RAID_SUBGROUPS \<Longrightarrow> 0 \<le> sint s"
proof -
  assume "unat s < MAX_RAID_SUBGROUPS"
  moreover have "uint s = int (unat s)" by simp
  ultimately have "uint s < 128" by linarith
  then have "\<not> bit (uint s) 7" by (simp add: bit_iff_odd)
  then show ?thesis unfolding sint_uint signed_take_bit_nonnegative_iff by simp
qed

lemma SetGroup_wp:
  assumes pl: "gw_players w p = Some pl" "gp_group pl = None" and g: "gw_groups w a = Some g" and s: "unat s < MAX_RAID_SUBGROUPS"
    and "Q () (put_player p (pl\<lparr>gp_group := Some a, gp_subGroup := s\<rparr>) (put_group a (g\<lparr>m_memberMgr := (p, MGroup) # m_memberMgr g\<rparr>) w))"
  shows "g_wp (Player_SetGroup (Some (a, s)) p) Q w"
  using assms(5) sint_small [OF s]
  by (simp add: Player_SetGroup_def link_ref_def unlink_ref_def wp_rules pl g)

definition pick_sub :: "group \<Rightarrow> u8 option" where
  "pick_sub g = (case m_subGroupsCounts g of None \<Rightarrow> Some 0 | Some cs \<Rightarrow> free_subgroup (take MAX_RAID_SUBGROUPS cs))"

lemma pick_sub_bounds:
  assumes "group_ok g" and "pick_sub g = Some s"
  shows "unat s < MAX_RAID_SUBGROUPS" "m_subGroupsCounts g = Some cs \<Longrightarrow> unat s < length cs" and "m_subGroupsCounts g \<noteq> None \<or> length (m_memberSlots g) < MAXGROUPSIZE \<Longrightarrow> fits g s"
proof -
  have l: "m_subGroupsCounts g = Some cs \<Longrightarrow> length cs = MAX_RAID_SUBGROUPS" for cs
    using assms(1) by (simp add: group_ok_def counts_ok_def counts_fit_def)
  then have f: "m_subGroupsCounts g = Some cs \<Longrightarrow> unat s < length cs \<and> unat (cs ! unat s) < MAXGROUPSIZE" for cs
    using assms(2) free_subgroup_Some [of cs s] by (simp add: pick_sub_def)
  show "unat s < MAX_RAID_SUBGROUPS" using assms(2) l f by (cases "m_subGroupsCounts g") (auto simp: pick_sub_def)
  show "m_subGroupsCounts g = Some cs \<Longrightarrow> unat s < length cs" using f by blast
  show "m_subGroupsCounts g \<noteq> None \<or> length (m_memberSlots g) < MAXGROUPSIZE \<Longrightarrow> fits g s"
    using assms(2) l f by (cases "m_subGroupsCounts g") (auto simp: pick_sub_def fits_def)
qed

lemma attach_player_wp:
  assumes pl: "gw_players w p = Some pl" "gp_group pl = None" and g: "gw_groups w a = Some g" and s: "unat s < MAX_RAID_SUBGROUPS"
    and Q: "\<And>w'. norm w' = norm (put_player p (pl\<lparr>gp_groupInvite := None, gp_group := Some a, gp_subGroup := s\<rparr>)
      (put_group a (g\<lparr>m_memberMgr := (p, MGroup) # m_memberMgr g\<rparr>) w)) \<Longrightarrow> Q () w'"
  shows "g_wp (attach_player env a s p) Q w"
proof -
  let ?v = "put_player p (pl\<lparr>gp_groupInvite := None, gp_group := Some a, gp_subGroup := s\<rparr>) (put_group a (g\<lparr>m_memberMgr := (p, MGroup) # m_memberMgr g\<rparr>) w)"
  have "g_wp (g_when b (set_player p (\<lambda>pl. pl\<lparr>gp_InstanceValid := True\<rparr>))) Q ?v" for b
    by (rule wp_quiet [of ?v]) (auto intro!: quiet_intros Q)
  from this [of "ge_in_bound_instance env a p"] show ?thesis
    by (simp add: attach_player_def wp_rules pl g) (rule SetGroup_wp, simp_all add: pl g s wp_rules)
qed

lemma AddMember_wp:
  assumes pl: "gw_players w p = Some pl" "gp_group pl = None" and g: "gw_groups w a = Some g" "group_ok g"
    and full: "pick_sub g = None \<Longrightarrow> Q False w"
    and joined: "\<And>s w'. pick_sub g = Some s \<Longrightarrow> norm w' = norm (join a g s p pl w) \<Longrightarrow> Q True w'"
  shows "g_wp (AddMember env a p) Q w"
proof (cases "pick_sub g")
  case None
  then show ?thesis using full by (simp add: AddMember_def wp_rules g flip: pick_sub_def)
next
  case (Some s)
  note b = pick_sub_bounds [OF g(2) Some]
  let ?v = "join a g s p pl w"
  have v: "gw_groups ?v a = Some (join_group g s p (gp_name pl))" "gw_players ?v p = Some (pl\<lparr>gp_groupInvite := None, gp_group := Some a, gp_subGroup := s\<rparr>)"
    by (simp_all add: join_def)
  have icons: "norm_group (if isRaidGroup h then h else h\<lparr>m_targetIcons := replicate TARGETICONCOUNT 0\<rparr>) = norm_group h" for h
    by (simp add: norm_group_def)
  note q = quiet_from_basic quiet_from_when quiet_from_then quiet_from_group [OF v(1)] quiet_from_player(3,4) [OF v(2,1)] icons
  show ?thesis
    unfolding AddMember_def SubGroupCounterIncrease_def Let_def
  proof (rule wp_group [OF g(1)], fold pick_sub_def, unfold Some option.case, rule wp_player [OF pl(1)], rule wp_set_group [OF g(1)],
      rule wp_then, rule bump_count_wp, simp, use b in simp, rule wp_then, rule attach_player_wp [OF _ pl(2)], simp_all add: pl b, goal_cases)
    case (1 w')
    then have "norm w' = norm ?v" by (simp add: join_def join_group_def)
    then show ?case
      by - ((rule wp_quiet_then [of ?v], (intro q; fail), assumption)+, rule wp_ret, erule joined [OF Some])
  qed
qed

section \<open>Creating\<close>

lemma norm_eqI:
  assumes "\<And>a. map_option norm_group (gw_groups w a) = map_option norm_group (gw_groups v a)"
    and "\<And>p. map_option norm_player (gw_players w p) = map_option norm_player (gw_players v p)"
    and "gw_fresh w = gw_fresh v" "NextGroupDbStoreId w = NextGroupDbStoreId v" "NextGroupId w = NextGroupId v"
      "GroupDbStore w = GroupDbStore v" "GroupStore w = GroupStore v"
  shows "norm w = norm v"
  using assms by (cases w; cases v) (simp add: norm_def)

lemma norm_GroupStore: "norm w = norm v \<Longrightarrow> norm (w\<lparr>GroupStore := x\<rparr>) = norm (v\<lparr>GroupStore := x\<rparr>)"
  using norm_groups [of w v] norm_players [of w v] norm_mgr [of w v] by (intro norm_eqI) simp_all

lemma GenerateGroupId_wp:
  "NextGroupId w < 0xFFFFFFFE \<Longrightarrow> Q (NextGroupId w) (w\<lparr>NextGroupId := NextGroupId w + 1\<rparr>) \<Longrightarrow> g_wp GenerateGroupId Q w"
  by (simp add: GenerateGroupId_def StopNow_def wp_rules)

lemma GenerateNewGroupDbStoreId_wp:
  assumes "NextGroupDbStoreId w < next_free (GroupDbStore w) (NextGroupDbStoreId w)"
    and "Q (NextGroupDbStoreId w) (w\<lparr>NextGroupDbStoreId := next_free (GroupDbStore w) (NextGroupDbStoreId w)\<rparr>)"
  shows "g_wp GenerateNewGroupDbStoreId Q w"
  using assms by (auto simp: GenerateNewGroupDbStoreId_def StopNow_def wp_rules Let_def simp flip: next_free_def)

lemma RegisterGroupDbStoreId_wp:
  "Q () (w\<lparr>GroupDbStore := store_at (GroupDbStore w) (unat i) a\<rparr>) \<Longrightarrow> g_wp (RegisterGroupDbStoreId i a) Q w"
  by (simp add: RegisterGroupDbStoreId_def wp_rules store_at_def Let_def)

lemma put_group_tables [simp]:
  "(put_group a g w)\<lparr>NextGroupDbStoreId := n\<rparr> = put_group a g (w\<lparr>NextGroupDbStoreId := n\<rparr>)"
  "(put_group a g w)\<lparr>GroupDbStore := S\<rparr> = put_group a g (w\<lparr>GroupDbStore := S\<rparr>)"
  by (simp_all add: put_group_def)

lemma Group_Create_wp:
  assumes pl: "gw_players w p = Some pl" "gp_group pl = None" and g: "gw_groups w a = Some g" "group_ok g" "\<not> isRaidGroup g"
    and m: "NextGroupId w < 0xFFFFFFFE" and n: "next_ok (GroupDbStore w) (NextGroupDbStoreId w) (NextGroupId w)"
    and Q: "\<And>w'. norm w' = norm (found a g p pl w) \<Longrightarrow> Q () w'"
  shows "g_wp (g_then (g_bind (Group_Create env a p) (\<lambda>_. g_ret ())) (AddGroup a)) Q w"
proof -
  let ?g = "g\<lparr>m_guid := MAKE_NEW_GUID (NextGroupId w) 0 (high_code HIGHGUID_GROUP), m_leaderGuid := p,
      m_leaderName := gp_name pl, m_groupType := GROUPTYPE_NORMAL, m_lootMethod := GROUP_LOOT, m_lootThreshold := ITEM_QUALITY_UNCOMMON,
      m_looterGuid := p, m_dungeonDifficulty := gp_dungeonDifficulty pl, m_raidDifficulty := gp_raidDifficulty pl, m_dbStoreId := NextGroupDbStoreId w\<rparr>"
  let ?v = "put_group a ?g (w\<lparr>NextGroupId := NextGroupId w + 1, NextGroupDbStoreId := next_free (GroupDbStore w) (NextGroupDbStoreId w),
      GroupDbStore := store_at (GroupDbStore w) (unat (NextGroupDbStoreId w)) a\<rparr>)"
  have bg: "\<not> isBGGroup g" "\<not> m_bgGroup g" using g(2) by (simp_all add: group_ok_def isBGGroup_def)
  have go: "group_ok ?g" using g(2,3) not_raid_counts [OF g(2,3)]
    by (simp add: group_ok_def counts_ok_def counts_fit_def guids_def subs_def isRaidGroup_def)
  have ps: "pick_sub ?g = Some 0" using not_raid_counts [OF g(2,3)] by (simp add: pick_sub_def)
  have after: "g_wp (AddGroup a) Q w'" if n: "norm w' = norm (join a ?g 0 p pl ?v)" for w'
  proof -
    obtain h where h: "gw_groups w' a = Some h" "norm_group h = norm_group (join_group ?g 0 p (gp_name pl))"
      by (rule norm_group_Some [OF n, of a "join_group ?g 0 p (gp_name pl)"]) (simp_all add: join_def)
    have low: "GetLowGUID h = NextGroupId w"
      using norm_groupD(9) [OF h(2)] group_guid_lopart [of "NextGroupId w"] by (simp add: GetLowGUID_def)
    have ng: "norm_group (join_group ?g 0 p nm) = norm_group (join_group (found_group g p (NextGroupId w) (NextGroupDbStoreId w)) 0 p nm)" for nm
      using g(3) by (cases g) (simp add: norm_group_def join_group_def found_group_def isRaidGroup_def)
    have "norm (w'\<lparr>GroupStore := (GroupStore w')(NextGroupId w \<mapsto> a)\<rparr>) = norm (found a g p pl w)"
      unfolding norm_GroupStore [OF n] norm_mgr(5) [OF n] using ng
      by (intro norm_eqI) (simp_all add: found_def enrol_def join_def)
    then show ?thesis by (simp add: AddGroup_def wp_rules h low Q)
  qed
  have add: "g_wp (AddMember env a p) (\<lambda>ok w'. g_wp (if \<not> ok then g_fail AssertFailed
      else g_then (g_emit es) (g_ret True)) (\<lambda>x. g_wp (g_ret ()) (\<lambda>_. g_wp (AddGroup a) Q)) w') ?v" for es
    by (rule AddMember_wp [where g = ?g and pl = pl]) (use pl go ps after in \<open>simp_all add: wp_rules\<close>)
  show ?thesis
    unfolding Group_Create_def
    by (rule wp_then, rule wp_bind, rule wp_player [OF pl(1)], rule wp_bind, rule GenerateGroupId_wp [OF m], rule wp_group,
        simp add: g, simp add: wp_rules g bg del: high_code.simps, rule GenerateNewGroupDbStoreId_wp, simp add: next_ok_take [OF n m],
        simp add: wp_rules del: high_code.simps, rule RegisterGroupDbStoreId_wp, simp add: wp_rules del: high_code.simps, rule add)
qed

section \<open>Ending\<close>

definition map_players :: "u64 set \<Rightarrow> (gplayer \<Rightarrow> gplayer) \<Rightarrow> group_world \<Rightarrow> group_world" where
  "map_players X f w = w\<lparr>gw_players := (\<lambda>p. if p \<in> X then map_option f (gw_players w p) else gw_players w p)\<rparr>"

lemma map_players_simps [simp]:
  "gw_groups (map_players X f w) = gw_groups w" "gw_players (map_players X f w) p = (if p \<in> X then map_option f (gw_players w p) else gw_players w p)"
  "gw_fresh (map_players X f w) = gw_fresh w" "NextGroupDbStoreId (map_players X f w) = NextGroupDbStoreId w"
  "NextGroupId (map_players X f w) = NextGroupId w" "GroupDbStore (map_players X f w) = GroupDbStore w" "GroupStore (map_players X f w) = GroupStore w"
  by (simp_all add: map_players_def)

lemma for_set_player:
  assumes "\<And>p. p \<in> set xs \<Longrightarrow> gw_players w p \<noteq> None" and "\<And>pl. f (f pl) = f pl" and "Q () (map_players (set xs) f w)"
  shows "g_wp (g_for xs (\<lambda>p. set_player p f)) Q w"
  using assms(1,3)
proof (induction xs arbitrary: w)
  case (Cons p xs)
  obtain pl where pl: "gw_players w p = Some pl" using Cons.prems(1) by fastforce
  have "map_players (set xs) f (put_player p (f pl) w) = map_players (set (p # xs)) f w"
    using pl assms(2) by (auto simp: map_players_def put_player_def fun_eq_iff)
  moreover have "gw_players (put_player p (f pl) w) q \<noteq> None" if "q \<in> set xs" for q using Cons.prems(1) that by simp
  ultimately have "g_wp (g_for xs (\<lambda>p. set_player p f)) Q (put_player p (f pl) w)" using Cons by simp
  then show ?case by (simp add: wp_rules pl)
qed (simp add: wp_rules map_players_def)

lemma RemoveAllInvites_wp:
  assumes "gw_groups w a = Some g" and "\<And>p. p \<in> set (m_invitees g) \<Longrightarrow> gw_players w p \<noteq> None"
    and "Q () (put_group a (g\<lparr>m_invitees := []\<rparr>) (map_players (set (m_invitees g)) (\<lambda>pl. pl\<lparr>gp_groupInvite := None\<rparr>) w))"
  shows "g_wp (RemoveAllInvites a) Q w"
  unfolding RemoveAllInvites_def
  by (rule wp_group [OF assms(1)], rule wp_then, rule for_set_player) (use assms in \<open>simp_all add: wp_rules\<close>)

lemma delete_group_wp:
  "gw_groups w a = Some g \<Longrightarrow> m_memberMgr g = [] \<Longrightarrow> Q () (w\<lparr>gw_groups := (gw_groups w)(a := None)\<rparr>) \<Longrightarrow> g_wp (delete_group a) Q w"
  by (simp add: delete_group_def wp_rules)

lemma invitees_online: "core_ok w \<Longrightarrow> gw_groups w a = Some g \<Longrightarrow> p \<in> set (m_invitees g) \<Longrightarrow> gw_players w p \<noteq> None"
  using offline_facts(1) by blast

lemma refs_members:
  assumes "core_ok w" and "gw_groups w a = Some g" and "(p, k) \<in> set (m_memberMgr g)"
  shows "k = MGroup" and "p \<in> set (guids g)"
proof -
  obtain pl where pl: "gw_players w p = Some pl" using offline_facts(2) [OF assms(1) _ assms(2)] assms(3) by fastforce
  note pf = pair_facts [OF assms(1) pl assms(2)]
  show "k = MGroup" "p \<in> set (guids g)" using pf(2) [of k] pf(3) assms(3) by auto
qed

text \<open>A group without members goes with its invitations.\<close>

lemma scrap_wp:
  assumes c: "core_ok w" and g: "gw_groups w a = Some g" "guids g = []" and Q: "Q () (wipe a w)"
  shows "g_wp (g_then (RemoveAllInvites a) (delete_group a)) Q w"
proof -
  have m: "m_memberMgr g = []" using refs_members(2) [OF c g(1)] g(2) by (cases "m_memberMgr g") auto
  let ?v = "map_players (set (m_invitees g)) (\<lambda>pl. pl\<lparr>gp_groupInvite := None\<rparr>) w"
  have p: "gw_players ?v p = gw_players (wipe a w) p" for p
  proof (cases "gw_players w p")
    case (Some pl)
    have "gp_group pl \<noteq> Some a" "p \<in> set (m_invitees g) \<longleftrightarrow> gp_groupInvite pl = Some a" using pair_facts [OF c Some g(1)] g(2) by auto
    then show ?thesis using Some by (cases pl) (simp add: wipe_def)
  qed (simp add: wipe_def)
  have "(put_group a (g\<lparr>m_invitees := []\<rparr>) ?v)\<lparr>gw_groups := (gw_groups (put_group a (g\<lparr>m_invitees := []\<rparr>) ?v))(a := None)\<rparr> = wipe a w"
    using p by (cases w) (simp add: wipe_def put_group_def map_players_def fun_eq_iff)
  then show ?thesis
    using m Q invitees_online [OF c g(1)] by (intro wp_then RemoveAllInvites_wp [OF g(1)] delete_group_wp [where g = "g\<lparr>m_invitees := []\<rparr>"]) simp_all
qed

lemma remove1_refs:
  assumes "distinct refs" and "\<And>k. (p, k) \<in> set refs \<Longrightarrow> k = MGroup"
  shows "remove1 (p, MGroup) (filter P refs) = filter (\<lambda>e. P e \<and> fst e \<noteq> p) refs"
proof -
  have "remove1 (p, MGroup) (filter P refs) = filter (\<lambda>e. (p, MGroup) \<noteq> e) (filter P refs)"
    using assms(1) by (simp add: distinct_remove1_removeAll removeAll_filter_not_eq)
  also have "\<dots> = filter (\<lambda>e. P e \<and> fst e \<noteq> p) refs" unfolding filter_filter using assms(2) by (intro filter_cong) force+
  finally show ?thesis .
qed

lemma SetGroup_None_wp:
  assumes "gw_players w p = Some pl" "gp_group pl = Some a" and "gw_groups w a = Some g"
    and "Q () (put_player p (pl\<lparr>gp_group := None\<rparr>) (put_group a (g\<lparr>m_memberMgr := remove1 (p, MGroup) (m_memberMgr g)\<rparr>) w))"
  shows "g_wp (Player_SetGroup None p) Q w"
  using assms by (simp add: Player_SetGroup_def unlink_ref_def wp_rules)

lemma detach_player_wp:
  assumes "gw_players w p = Some pl" "gp_group pl = Some a" "gp_originalGroup pl = None" and "gw_groups w a = Some g" and "\<not> m_bgGroup h"
    and "Q () (put_player p (pl\<lparr>gp_group := None\<rparr>) (put_group a (g\<lparr>m_memberMgr := remove1 (p, MGroup) (m_memberMgr g)\<rparr>) w))"
  shows "g_wp (detach_player a h p) Q w"
  using assms by (simp add: detach_player_def isBGGroup_def wp_rules) (rule SetGroup_None_wp)

text \<open>The state in the loop of \<^verbatim>\<open>Disband\<close> after the players in \<open>X\<close>.\<close>

definition detached :: "nat \<Rightarrow> group \<Rightarrow> u64 set \<Rightarrow> group_world \<Rightarrow> group_world" where
  "detached a g X w = put_group a (g\<lparr>m_memberMgr := filter (\<lambda>e. fst e \<notin> X) (m_memberMgr g)\<rparr>)
     (map_players X (\<lambda>pl. pl\<lparr>gp_group := None\<rparr>) w)"

lemma disband_member_wp:
  assumes c: "core_ok w" and g: "gw_groups w a = Some g" and p: "p \<in> set (guids g)" "p \<notin> X" and n: "norm v = norm (detached a g X w)"
  shows "g_wp (disband_member env a hide p) (\<lambda>_ v'. norm v' = norm (detached a g (insert p X) w)) v"
proof (cases "gw_players w p")
  case None
  then have "gw_players v p = None" using norm_players [OF n, of p] p(2) by (simp add: detached_def)
  moreover have "filter (\<lambda>e. fst e \<notin> insert p X) (m_memberMgr g) = filter (\<lambda>e. fst e \<notin> X) (m_memberMgr g)"
    using offline_facts(2) [OF c None g] by (intro filter_cong) auto
  then have "detached a g (insert p X) w = detached a g X w" using None by (auto simp: detached_def map_players_def fun_eq_iff intro!: arg_cong [of _ _ "put_group a _"])
  ultimately show ?thesis using n by (simp add: disband_member_def wp_rules FindGPlayer_def)
next
  case (Some pl)
  have pg: "gp_group pl = Some a" using pair_facts(3) [OF c Some g] p(1) by simp
  have go: "group_ok g" by (rule core_okD(2) [OF c g])
  obtain ql where ql: "gw_players v p = Some ql" "norm_player ql = norm_player pl"
    by (rule norm_player_Some [OF n, of p pl]) (simp_all add: detached_def p Some)
  have q: "gp_session ql" "gp_group ql = Some a" "gp_originalGroup ql = None"
    using norm_playerD [OF ql(2)] player_facts [OF c Some] pg by simp_all
  obtain h where h: "gw_groups v a = Some h" "norm_group h = norm_group (g\<lparr>m_memberMgr := filter (\<lambda>e. fst e \<notin> X) (m_memberMgr g)\<rparr>)"
    by (rule norm_group_Some [OF n, of a]) (simp_all add: detached_def)
  let ?h = "h\<lparr>m_memberMgr := remove1 (p, MGroup) (m_memberMgr h)\<rparr>"
  let ?v = "put_player p (ql\<lparr>gp_group := None\<rparr>) (put_group a ?h v)"
  have "remove1 (p, MGroup) (m_memberMgr h) = filter (\<lambda>e. fst e \<notin> insert p X) (m_memberMgr g)"
    using norm_groupD(3) [OF h(2)] remove1_refs [of "m_memberMgr g" p] refs_members(1) [OF c g] go
    by (simp add: group_ok_def conj_commute)
  moreover have "norm_group (h\<lparr>m_memberMgr := x\<rparr>) = norm_group (g\<lparr>m_memberMgr := x\<rparr>)" for x
    using norm_group_cong(1) [OF h(2), of x] by simp
  ultimately have v: "norm ?v = norm (detached a g (insert p X) w)"
    using norm_groups [OF n] norm_players [OF n] norm_mgr [OF n] Some norm_player_cong(1) [OF ql(2)] by (intro norm_eqI) (auto simp: detached_def)
  have bg: "\<not> m_bgGroup h" using norm_groupD(7) [OF h(2)] go by (simp add: group_ok_def)
  have "g_wp (g_bind (g_player p) (\<lambda>pl. g_then (case gp_group pl of Some a \<Rightarrow> SendUpdate a
      | None \<Rightarrow> g_bind (g_group a) (\<lambda>g. g_emit [GSend p (left_group_list g)])) (homebindIfInstance env p)))
      (\<lambda>_ v'. norm v' = norm (detached a g (insert p X) w)) ?v"
    by (rule wp_player [where pl = "ql\<lparr>gp_group := None\<rparr>"], simp, simp add: wp_rules, rule wp_quiet [of ?v])
      (use v in \<open>auto intro: quiet_from_player\<close>)
  then show ?thesis
    by (simp add: disband_member_def g_wp_bind g_wp_basic FindGPlayer_def ql q g_wp_pointers h)
      (rule wp_then, rule detach_player_wp [OF ql(1) q(2,3) h(1) bg], simp add: wp_rules)
qed

lemma wp_emit: "Q () w \<Longrightarrow> g_wp (g_emit es) Q w"
  by (simp add: wp_rules)

lemma FreeGroupDbStoreId_wp:
  assumes "gw_groups w a = Some g" and "unat (m_dbStoreId g) < length (GroupDbStore w)"
    and "Q () (w\<lparr>NextGroupDbStoreId := (if m_dbStoreId g < NextGroupDbStoreId w then m_dbStoreId g else NextGroupDbStoreId w),
      GroupDbStore := (GroupDbStore w)[unat (m_dbStoreId g) := None]\<rparr>)"
  shows "g_wp (FreeGroupDbStoreId a) Q w"
  using assms by (simp add: FreeGroupDbStoreId_def wp_rules Let_def)

lemma RemoveGroup_wp:
  "gw_groups w a = Some g \<Longrightarrow> Q () (w\<lparr>GroupStore := (GroupStore w)(GetLowGUID g := None)\<rparr>) \<Longrightarrow> g_wp (RemoveGroup a) Q w"
  by (simp add: RemoveGroup_def wp_rules)

lemma disband_loop:
  assumes c: "core_ok w" and g: "gw_groups w a = Some g"
  shows "g_wp (g_for (m_memberSlots g) (\<lambda>m. disband_member env a hide (ms_guid m))) (\<lambda>_ v. norm v = norm (detached a g (set (guids g)) w)) w"
proof -
  let ?I = "\<lambda>ys v. norm v = norm (detached a g (set (map ms_guid ys)) w)"
  have "g_wp (g_for (m_memberSlots g) (\<lambda>m. disband_member env a hide (ms_guid m))) (\<lambda>_. ?I (m_memberSlots g)) w"
  proof (rule g_wp_for [where I = ?I])
    show "?I [] w" by (simp add: detached_def map_players_def put_group_same g)
    fix x ys zs v assume s: "m_memberSlots g = ys @ x # zs" and n: "?I ys v"
    have "distinct (guids g)" using core_okD(2) [OF c g] by (simp add: group_ok_def)
    then have x: "ms_guid x \<notin> set (map ms_guid ys)" "ms_guid x \<in> set (guids g)" by (auto simp: guids_def s)
    show "g_wp (disband_member env a hide (ms_guid x)) (\<lambda>_. ?I (ys @ [x])) v"
      using disband_member_wp [OF c g x(2,1) n] by simp
  qed
  then show ?thesis by (simp add: guids_def)
qed

lemma Disband_wp:
  assumes c: "core_ok w" and g: "gw_groups w a = Some g" and row: "unat (m_dbStoreId g) < length (GroupDbStore w)"
    and Q: "\<And>w'. norm w' = norm (wipe a (unregister g w)) \<Longrightarrow> Q () w'"
  shows "g_wp (Disband env a hide) Q w"
proof -
  have bg: "\<not> isBGGroup g" using core_okD(2) [OF c g] by (simp add: group_ok_def isBGGroup_def)
  have none: "filter (\<lambda>e. fst e \<notin> set (guids g)) (m_memberMgr g) = []"
    using refs_members(2) [OF c g] by (auto simp: filter_empty_conv)
  have rest: "g_wp (g_then (set_group a (\<lambda>g. g\<lparr>m_RollId := [], m_memberSlots := []\<rparr>)) (g_then (RemoveAllInvites a)
      (g_then (g_then (g_emit es) (FreeGroupDbStoreId a)) (g_then (RemoveGroup a) (delete_group a))))) Q v"
    if n: "norm v = norm (detached a g (set (guids g)) w)" for v es
  proof -
    obtain h where h: "gw_groups v a = Some h" "norm_group h = norm_group (g\<lparr>m_memberMgr := []\<rparr>)"
      by (rule norm_group_Some [OF n, of a]) (simp_all add: detached_def none)
    note d = norm_groupD [OF h(2)] and m = norm_mgr [OF n]
    have inv: "m_invitees h = m_invitees g" "m_memberMgr h = []" "m_dbStoreId h = m_dbStoreId g" "GetLowGUID h = GetLowGUID g"
      using d by (simp_all add: GetLowGUID_def)
    have low: "GetLowGUID (h\<lparr>m_RollId := [], m_memberSlots := [], m_invitees := []\<rparr>) = GetLowGUID g"
      using inv(4) by (simp add: GetLowGUID_def)
    have on: "gw_players v p \<noteq> None" if "p \<in> set (m_invitees g)" for p
      using norm_players [OF n, of p] invitees_online [OF c g that] by (auto simp: detached_def split: if_splits)
    let ?h = "h\<lparr>m_RollId := [], m_memberSlots := [], m_invitees := []\<rparr>"
    let ?u = "map_players (set (m_invitees g)) (\<lambda>pl. pl\<lparr>gp_groupInvite := None\<rparr>) (put_group a (h\<lparr>m_RollId := [], m_memberSlots := []\<rparr>) v)"
    have pl: "map_option norm_player (gw_players ?u p) = map_option norm_player (gw_players (wipe a (unregister g w)) p)" for p
    proof (cases "gw_players w p")
      case None
      then have "gw_players v p = None" using norm_players [OF n, of p] by (simp add: detached_def split: if_splits)
      then show ?thesis using None by (simp add: wipe_def unregister_def)
    next
      case (Some pl)
      note pf = pair_facts [OF c Some g]
      obtain ql where ql: "gw_players v p = Some ql" "norm_player ql = norm_player (if p \<in> set (guids g) then pl\<lparr>gp_group := None\<rparr> else pl)"
        by (rule norm_player_Some [OF n, of p "if p \<in> set (guids g) then pl\<lparr>gp_group := None\<rparr> else pl"]) (auto simp: detached_def Some)
      show ?thesis
        using pf(1,3) ql norm_player_cong(2) [OF ql(2), of None] Some by (cases pl) (auto simp: wipe_def unregister_def split: if_splits)
    qed
    have fin: "Q () (w'\<lparr>gw_groups := (gw_groups w')(a := None)\<rparr>)"
      if w': "w' = put_group a ?h (?u\<lparr>NextGroupDbStoreId := (if m_dbStoreId g < NextGroupDbStoreId ?u then m_dbStoreId g else NextGroupDbStoreId ?u),
          GroupDbStore := (GroupDbStore ?u)[unat (m_dbStoreId g) := None], GroupStore := (GroupStore ?u)(GetLowGUID g := None)\<rparr>)" for w'
      unfolding w' using m pl norm_groups [OF n] by (intro Q norm_eqI) (auto simp: wipe_def unregister_def detached_def)
    have len: "unat (m_dbStoreId g) < length (GroupDbStore v)" using row m by (simp add: detached_def)
    show ?thesis
      by (rule wp_set_group [OF h(1)], rule wp_then, rule RemoveAllInvites_wp, simp, use on in \<open>simp add: inv\<close>,
          rule wp_then, rule wp_then, rule wp_emit, rule FreeGroupDbStoreId_wp, simp, simp add: inv len,
          rule wp_then, rule RemoveGroup_wp, simp, rule delete_group_wp, simp, simp add: inv, rule fin, simp add: inv low put_group_def)
  qed
  show ?thesis
    unfolding Disband_def
    by (rule wp_group [OF g], simp only: bg g_when_def not_False_eq_True if_True, rule wp_then, rule wp_emit, rule wp_then,
        rule g_wp_mono [OF disband_loop [OF c g]], erule rest)
qed

section \<open>Leaving\<close>

text \<open>No player comes, goes or gets an invitation.\<close>

definition tame :: "group_world \<Rightarrow> group_world \<Rightarrow> bool" where
  "tame w0 w = (\<forall>p. case (gw_players w0 p, gw_players w p) of
     (None, None) \<Rightarrow> True
   | (Some pl, Some ql) \<Rightarrow> gp_groupInvite pl = None \<longrightarrow> gp_groupInvite ql = None
   | _ \<Rightarrow> False)"

definition good :: "group_world \<Rightarrow> group_world \<Rightarrow> bool" where
  "good w0 w = (groups_ok w \<and> tame w0 w)"

lemma tame_refl: "tame w w"
  by (simp add: tame_def split: option.split)

lemma tame_group [simp]: "tame w0 (put_group a g w) = tame w0 w"
  by (simp add: tame_def)

lemma tame_map:
  assumes "tame w0 w" and "\<And>p. gw_players w p = None \<Longrightarrow> gw_players w' p = None"
    and "\<And>p pl. gw_players w p = Some pl \<Longrightarrow> \<exists>ql. gw_players w' p = Some ql \<and> (gp_groupInvite pl = None \<longrightarrow> gp_groupInvite ql = None)"
  shows "tame w0 w'"
  unfolding tame_def
proof
  fix p
  show "case (gw_players w0 p, gw_players w' p) of (None, None) \<Rightarrow> True | (None, Some a) \<Rightarrow> False
      | (Some pl, None) \<Rightarrow> False | (Some pl, Some ql) \<Rightarrow> gp_groupInvite pl = None \<longrightarrow> gp_groupInvite ql = None"
    using assms(1) [unfolded tame_def, rule_format, of p] assms(2) [of p] assms(3) [of p]
    by (cases "gw_players w p"; cases "gw_players w0 p") auto
qed

lemma tame_norm: "norm w' = norm w \<Longrightarrow> tame w0 w \<Longrightarrow> tame w0 w'"
proof (erule tame_map)
  fix p assume n: "norm w' = norm w"
  show "gw_players w' p = None" if "gw_players w p = None" using norm_players [OF n, of p] that by simp
  show "\<exists>ql. gw_players w' p = Some ql \<and> (gp_groupInvite pl = None \<longrightarrow> gp_groupInvite ql = None)" if pl: "gw_players w p = Some pl" for pl
  proof -
    obtain ql where "gw_players w' p = Some ql" "norm_player ql = norm_player pl" by (rule norm_player_Some [OF n pl])
    then show ?thesis using norm_playerD(5) [of ql pl] by simp
  qed
qed

lemma tame_wipe: "tame w0 w \<Longrightarrow> tame w0 (wipe a w)"
  by (erule tame_map) (simp_all add: wipe_def)

lemma tame_leave: "tame w0 w \<Longrightarrow> tame w0 (leave a g k p w)"
  by (erule tame_map) (auto simp: leave_def)

lemma good_norm: "norm w' = norm w \<Longrightarrow> good w0 w \<Longrightarrow> good w0 w'"
  by (auto simp: good_def intro: groups_ok_norm tame_norm)

lemma base_ok_row:
  assumes "base_ok w" and "gw_groups w a = Some g" and "guids g \<noteq> []"
  shows "unat (m_dbStoreId g) < length (GroupDbStore w)" "GroupDbStore w ! unat (m_dbStoreId g) = Some a"
  using base_okD(2) [OF assms(1)] assms(2,3) unfolding store_ok_def created_def by blast+

lemma Disband_ok:
  assumes ok: "base_ok w" and g: "gw_groups w a = Some g" "guids g \<noteq> []" and s: "shapes_but a w" and t: "tame w0 w"
  shows "g_wp (Disband env a hide) (\<lambda>_. good w0) w"
proof (rule Disband_wp [OF base_okD(1) [OF ok] g(1) base_ok_row(1) [OF ok g]])
  fix w' assume n: "norm w' = norm (wipe a (unregister g w))"
  have "core_ok (wipe a (unregister g w))"
    using core_ok_cong [of "unregister g w" w] base_okD(1) [OF ok] by (intro core_ok_wipe) (simp add: unregister_def)
  moreover have "store_ok (wipe a (unregister g w))" using base_okD(2) [OF ok] g by (intro store_ok_unregister) (simp_all add: created_def)
  moreover have "shapes_ok (wipe a (unregister g w))" using s by (auto simp: shapes_ok_def shapes_but_def wipe_def unregister_def split: if_splits)
  ultimately have "groups_ok (wipe a (unregister g w))" by (simp add: groups_ok_def base_ok_def)
  moreover have "tame w0 (unregister g w)" using t by (simp add: tame_def unregister_def)
  ultimately have "good w0 (wipe a (unregister g w))" by (simp add: good_def tame_wipe)
  then show "good w0 w'" by (rule good_norm [OF n])
qed

lemma fields_leader [simp]:
  "guids (g\<lparr>m_leaderGuid := l\<rparr>) = guids g" "places (g\<lparr>m_leaderGuid := l\<rparr>) = places g" "subs (g\<lparr>m_leaderGuid := l\<rparr>) = subs g"
  "isRaidGroup (g\<lparr>m_leaderGuid := l\<rparr>) = isRaidGroup g"
  by (simp_all add: guids_def places_def subs_def isRaidGroup_def)

lemma base_ok_leader:
  assumes ok: "base_ok w" and g: "gw_groups w a = Some g"
  shows "base_ok (put_group a (g\<lparr>m_leaderGuid := l\<rparr>) w)"
  by (rule base_ok_group_upd [OF ok g], rule core_ok_group_upd [OF base_okD(1) [OF ok] g])
    (use core_okD(2) [OF base_okD(1) [OF ok] g] in \<open>simp_all add: group_ok_def counts_ok_def\<close>)

lemma ChangeLeader_wp:
  assumes lv: "live a w" and g: "gw_groups w a = Some g" "l \<in> set (guids g)" and pl: "FindGPlayer w l = Some pl"
    and Q: "\<And>w'. norm w' = norm (put_group a (g\<lparr>m_leaderGuid := l\<rparr>) w) \<Longrightarrow> Q () w'"
  shows "g_wp (ChangeLeader a l) Q w"
proof -
  obtain k where k: "getMemberSlot l (m_memberSlots g) = Some k" using g(2) getMemberSlot_guids [of l g] by auto
  let ?f = "\<lambda>g. ToggleGroupMemberFlag k MEMBER_FLAG_ASSISTANT False (g\<lparr>m_leaderGuid := l, m_leaderName := gp_name pl\<rparr>)"
  let ?v = "put_group a (?f g) w"
  have ng: "norm_group (?f g) = norm_group (g\<lparr>m_leaderGuid := l\<rparr>)"
    unfolding ToggleGroupMemberFlag_def by (subst norm_upd_slot) (simp_all add: norm_slot_def norm_group_def)
  then have n: "norm ?v = norm (put_group a (g\<lparr>m_leaderGuid := l\<rparr>) w)" by (intro norm_put_group refl)
  have "live a ?v" using lv g(1) by (simp add: live_def ToggleGroupMemberFlag_def upd_slot_def)
  then have "g_wp (BroadcastPacket a pkt True None 0) Q ?v" for pkt
    using n Q by (intro wp_quiet [OF quiet_from_live(1) refl]) simp_all
  then show ?thesis by (simp add: ChangeLeader_def wp_rules g k pl)
qed

text \<open>The end of \<^verbatim>\<open>RemoveMember\<close>, once the slot is gone; \<open>gone\<close> says that it was the leader's.\<close>

lemma finish_removal:
  assumes ok: "base_ok w" and g: "gw_groups w a = Some g" and s: "shapes_but a w" and two: "2 \<le> length (m_memberSlots g)"
    and t: "tame w0 w" and l: "\<not> gone \<Longrightarrow> m_leaderGuid g \<in> set (guids g)"
  shows "g_wp (g_then (g_when gone (pick_leader a)) (g_then (SendUpdate a) (g_bind (g_group a) (\<lambda>g.
      g_then (g_when (length (m_memberMgr g) < (if isBGGroup g then 1 else 2)) (Disband env a False)) (g_ret True))))) (\<lambda>_. good w0) w"
proof -
  note c = base_okD(1) [OF ok]
  have ne: "guids g \<noteq> []" using two by (auto simp: guids_def)
  have tail: "g_wp (g_then (SendUpdate a) (g_bind (g_group a) (\<lambda>g.
      g_then (g_when (length (m_memberMgr g) < (if isBGGroup g then 1 else 2)) (Disband env a False)) (g_ret True)))) (\<lambda>_. good w0) w'"
    if n: "norm w' = norm (put_group a (g\<lparr>m_leaderGuid := l\<rparr>) w)" and ll: "l \<in> set (guids g) \<or> m_memberMgr g = []" for l w'
  proof (rule wp_quiet_then [OF _ n])
    let ?v = "put_group a (g\<lparr>m_leaderGuid := l\<rparr>) w"
    show "quiet_from ?v (SendUpdate a)" by (rule quiet_from_group(1)) simp
    fix u assume nu: "norm u = norm ?v"
    obtain h where h: "gw_groups u a = Some h" "norm_group h = norm_group (g\<lparr>m_leaderGuid := l\<rparr>)"
      by (rule norm_group_Some [OF nu, of a]) simp_all
    note d = norm_groupD [OF h(2)]
    have oku: "base_ok u" using nu base_ok_leader [OF ok g] by (rule base_ok_norm)
    have su: "shapes_but a u" by (rule shapes_but_norm [OF nu]) (simp add: s)
    have bg: "\<not> isBGGroup h" using core_okD(2) [OF base_okD(1) [OF oku] h(1)] by (simp add: group_ok_def isBGGroup_def)
    have neh: "guids h \<noteq> []" using d(1) ne by simp
    have tu: "tame w0 u" by (rule tame_norm [OF nu]) (simp add: t)
    have "good w0 u" if "2 \<le> length (m_memberMgr g)"
    proof -
      have "shape_ok h" using ll that two neh d(1,5) by (auto simp: shape_ok_def)
      then show ?thesis using oku shapes_but(2) [OF su h(1)] tu by (simp add: groups_ok_def good_def)
    qed
    then show "g_wp (g_bind (g_group a) (\<lambda>g. g_then (g_when (length (m_memberMgr g) < (if isBGGroup g then 1 else 2)) (Disband env a False))
        (g_ret True))) (\<lambda>_. good w0) u"
      using g_wp_mono [OF Disband_ok [OF oku h(1) neh su tu], of "\<lambda>_. g_wp (g_ret True) (\<lambda>_. good w0)"] d(3)
      by (intro wp_group [OF h(1)]) (auto simp: wp_rules bg)
  qed
  have same: "put_group a (g\<lparr>m_leaderGuid := m_leaderGuid g\<rparr>) w = w" by (simp add: put_group_same g)
  show ?thesis
  proof (cases gone)
    case False
    then show ?thesis using tail [of w "m_leaderGuid g"] l same by (simp add: g_when_def wp_rules)
  next
    case True
    have "g_wp (pick_leader a) (\<lambda>_. g_wp (g_then (SendUpdate a) (g_bind (g_group a) (\<lambda>g.
        g_then (g_when (length (m_memberMgr g) < (if isBGGroup g then 1 else 2)) (Disband env a False)) (g_ret True)))) (\<lambda>_. good w0)) w"
      unfolding pick_leader_def
    proof (rule wp_group [OF g], rule wp_get, cases "filter (\<lambda>m. FindGPlayer w (ms_guid m) \<noteq> None) (m_memberSlots g)", goal_cases)
      case 1
      have "m_memberMgr g = []"
      proof (rule ccontr)
        assume "m_memberMgr g \<noteq> []"
        then obtain p k where e: "(p, k) \<in> set (m_memberMgr g)" by (cases "m_memberMgr g") auto
        obtain pl where pl: "gw_players w p = Some pl" using offline_facts(2) [OF c _ g] e by fastforce
        have "p \<in> set (guids g)" by (rule refs_members(2) [OF c g e])
        then show False using 1 player_facts(3) [OF c pl] by (auto simp: filter_empty_conv guids_def)
      qed
      then show ?case using tail [of w "m_leaderGuid g"] same 1 by (simp add: wp_rules)
    next
      case (2 m ms)
      then have "m \<in> set (filter (\<lambda>m. FindGPlayer w (ms_guid m) \<noteq> None) (m_memberSlots g))" by simp
      then obtain pl where m: "m \<in> set (m_memberSlots g)" "FindGPlayer w (ms_guid m) = Some pl" by auto
      then have mg: "ms_guid m \<in> set (guids g)" by (simp add: guids_def)
      have "g_wp (ChangeLeader a (ms_guid m)) (\<lambda>_. g_wp (g_then (SendUpdate a) (g_bind (g_group a) (\<lambda>g.
        g_then (g_when (length (m_memberMgr g) < (if isBGGroup g then 1 else 2)) (Disband env a False)) (g_ret True)))) (\<lambda>_. good w0)) w"
        by (rule ChangeLeader_wp [OF base_ok_live [OF ok g] g mg m(2)], rule tail) (use mg in auto)
      then show ?case unfolding 2 by simp
    qed
    then show ?thesis using True by (simp add: g_when_def g_wp_then)
  qed
qed

lemma getMemberSlot_cong: "map ms_guid ms = map ms_guid ns \<Longrightarrow> getMemberSlot p ms = getMemberSlot p ns"
proof (induction ms arbitrary: ns)
  case (Cons m ms)
  then show ?case by (cases ns) auto
qed simp

lemma norm_slots:
  assumes "norm_group h = norm_group g"
  shows "map norm_slot (m_memberSlots h) = map norm_slot (m_memberSlots g)" "getMemberSlot p (m_memberSlots h) = getMemberSlot p (m_memberSlots g)"
proof -
  show "map norm_slot (m_memberSlots h) = map norm_slot (m_memberSlots g)"
    using arg_cong [OF assms, of m_memberSlots] by (simp add: norm_group_def)
  show "getMemberSlot p (m_memberSlots h) = getMemberSlot p (m_memberSlots g)"
    using norm_groupD(1) [OF assms] by (intro getMemberSlot_cong) (simp add: guids_def)
qed

lemma norm_group_slots:
  assumes "norm_group h = norm_group g" and "map norm_slot ms = map norm_slot ns"
  shows "norm_group (h\<lparr>m_subGroupsCounts := cs, m_memberSlots := ms\<rparr>) = norm_group (g\<lparr>m_subGroupsCounts := cs, m_memberSlots := ns\<rparr>)"
  using assms by (cases h; cases g) (simp add: norm_group_def)

text \<open>The player's pointer and the group's reference are gone, the slot is still there.\<close>

definition unlinked :: "nat \<Rightarrow> group \<Rightarrow> u64 \<Rightarrow> group_world \<Rightarrow> group_world" where
  "unlinked a g p w = put_group a (g\<lparr>m_memberMgr := remove1 (p, MGroup) (m_memberMgr g)\<rparr>)
     (w\<lparr>gw_players := (gw_players w)(p := map_option (\<lambda>pl. pl\<lparr>gp_group := None\<rparr>) (gw_players w p))\<rparr>)"

lemma quiet_DelinkMember:
  assumes c: "core_ok w" and g: "gw_groups w a = Some g"
  shows "quiet_from (unlinked a g p w) (DelinkMember a p)"
  unfolding quiet_from_def
proof (intro allI impI)
  fix v assume n: "norm v = norm (unlinked a g p w)"
  obtain h where h: "gw_groups v a = Some h" "norm_group h = norm_group (g\<lparr>m_memberMgr := remove1 (p, MGroup) (m_memberMgr g)\<rparr>)"
    by (rule norm_group_Some [OF n, of a]) (simp_all add: unlinked_def)
  have "filter (\<lambda>e. fst e = p) (remove1 (p, MGroup) (m_memberMgr g)) = []"
    using remove1_refs [of "m_memberMgr g" p "\<lambda>_. True"] refs_members(1) [OF c g] core_okD(2) [OF c g]
    by (auto simp: group_ok_def filter_empty_conv)
  then show "quiet (DelinkMember a p) v" using norm_groupD(3) [OF h(2)] by (simp add: DelinkMember_def quiet_def wp_rules h)
qed

lemma erase_slot_wp:
  assumes c: "core_ok w" and g: "gw_groups w a = Some g" and k: "getMemberSlot p (m_memberSlots g) = Some k"
    and n: "norm v = norm (unlinked a g p w)" and Q: "\<And>v'. norm v' = norm (leave a g k p w) \<Longrightarrow> Q () v'"
  shows "g_wp (erase_slot a p) Q v"
proof -
  have kl: "k < length (m_memberSlots g)" using getMemberSlot_Some [OF k] by simp
  let ?g = "g\<lparr>m_memberMgr := remove1 (p, MGroup) (m_memberMgr g)\<rparr>"
  obtain h where h: "gw_groups v a = Some h" "norm_group h = norm_group ?g"
    by (rule norm_group_Some [OF n, of a]) (simp_all add: unlinked_def)
  note d = norm_groupD [OF h(2)]
  have hk: "getMemberSlot p (m_memberSlots h) = Some k" using norm_slots(2) [OF h(2)] k by simp
  have sub: "ms_group (m_memberSlots h ! k) = ms_group (m_memberSlots g ! k)"
    using arg_cong [OF d(2), of "\<lambda>ss. ss ! k"] kl d(11) by simp
  have len: "m_subGroupsCounts h = Some cs \<Longrightarrow> unat (ms_group (m_memberSlots g ! k)) < length cs" for cs
    using d(8) core_okD(2) [OF c g] nth_mem [of k "subs g"] kl by (auto simp: group_ok_def counts_ok_def counts_fit_def)
  let ?h = "h\<lparr>m_subGroupsCounts := map_option (bump (\<lambda>n. n - 1) (ms_group (m_memberSlots g ! k))) (m_subGroupsCounts g),
      m_memberSlots := take k (m_memberSlots h) @ drop (Suc k) (m_memberSlots h)\<rparr>"
  have "norm_group ?h = norm_group (leave_group g k p)"
    unfolding leave_group_def using h(2) norm_slots(1) [OF h(2)]
    by (intro norm_group_slots) (simp_all flip: take_map drop_map)
  then have "norm (put_group a ?h v) = norm (leave a g k p w)"
    using norm_groups [OF n] norm_players [OF n] norm_mgr [OF n] by (intro norm_eqI) (auto simp: leave_def unlinked_def)
  then show ?thesis
    unfolding erase_slot_def SubGroupCounterDecrease_def
    by (intro wp_group [OF h(1)])
      (simp add: hk sub, rule wp_then, rule bump_count_wp [OF h(1)], use len Q d(8) in \<open>simp_all add: wp_rules\<close>)
qed

lemma members_count:
  assumes "group_ok g"
  shows "length (m_memberSlots g) \<le> MAXRAIDSIZE" "unat (GetMembersCount g) = length (m_memberSlots g)"
proof -
  show l: "length (m_memberSlots g) \<le> MAXRAIDSIZE"
    using assms counts_fit_length [of "isRaidGroup g" "m_subGroupsCounts g" "subs g"] by (simp add: group_ok_def counts_ok_def)
  then show "unat (GetMembersCount g) = length (m_memberSlots g)" by (simp add: GetMembersCount_def unat_of_nat)
qed

lemma groups_okD: "groups_ok w \<Longrightarrow> base_ok w" "groups_ok w \<Longrightarrow> core_ok w" "groups_ok w \<Longrightarrow> shapes_ok w"
  "groups_ok w \<Longrightarrow> gw_groups w a = Some g \<Longrightarrow> shape_ok g"
  by (auto simp: groups_ok_def base_ok_def shapes_ok_def)

text \<open>The first part of \<^verbatim>\<open>RemoveMember\<close>, for a player who is online or not.\<close>

lemma unlink_part:
  assumes c: "core_ok w" and g: "gw_groups w a = Some g" and p: "p \<in> set (guids g)"
  shows "g_wp (case FindGPlayer w p of
      None \<Rightarrow> g_ret ()
    | Some pl \<Rightarrow> g_then (detach_player a g p)
        (g_then (g_when b (g_emit es)) (g_then (g_when kick (g_emit es')) (g_then (g_emit es'') (homebindIfInstance env p)))))
    (\<lambda>_ w'. norm w' = norm (unlinked a g p w)) w"
proof (cases "gw_players w p")
  case None
  have "remove1 (p, MGroup) (m_memberMgr g) = m_memberMgr g" using offline_facts(2) [OF c None g] by (intro remove1_idem) simp
  then have "unlinked a g p w = w" using None g by (cases w) (simp add: unlinked_def put_group_def fun_upd_idem)
  then show ?thesis using None by (simp add: FindGPlayer_def wp_rules)
next
  case (Some pl)
  have pg: "gp_group pl = Some a" using pair_facts(3) [OF c Some g] p by simp
  have v: "put_player p (pl\<lparr>gp_group := None\<rparr>) (put_group a (g\<lparr>m_memberMgr := remove1 (p, MGroup) (m_memberMgr g)\<rparr>) w) = unlinked a g p w"
    by (simp add: unlinked_def put_player_def put_group_def Some)
  have pv: "gw_players (unlinked a g p w) p = Some (pl\<lparr>gp_group := None\<rparr>)" by (simp add: unlinked_def Some)
  have bg: "\<not> m_bgGroup g" using core_okD(2) [OF c g] by (simp add: group_ok_def)
  have "g_wp (g_then (g_when b (g_emit es)) (g_then (g_when kick (g_emit es')) (g_then (g_emit es'') (homebindIfInstance env p))))
      (\<lambda>_ w'. norm w' = norm (unlinked a g p w)) (unlinked a g p w)"
    by (rule wp_quiet [of "unlinked a g p w"])
      (intro quiet_from_then quiet_from_when quiet_from_basic quiet_from_player(1) [OF pv], simp_all)
  then show ?thesis
    unfolding player_facts(3) [OF c Some] option.case v [symmetric]
    by (rule wp_then [OF detach_player_wp [OF Some pg player_facts(2) [OF c Some] g bg]])
qed

lemma RemoveMember_ok:
  assumes ok: "groups_ok w" and g: "gw_groups w a = Some g" and p: "p \<in> set (guids g)"
  shows "g_wp (RemoveMember env a p kick) (\<lambda>_. good w) w"
  unfolding RemoveMember_def
proof (rule wp_quiet_then [of w], rule quiet_from_live [OF base_ok_live [OF groups_okD(1) [OF ok] g]], rule refl,
    rule wp_quiet_then [of w], rule quiet_from_basic, assumption)
  fix u assume n: "norm u = norm w"
  have oku: "groups_ok u" by (rule groups_ok_norm [OF n ok])
  have tu: "tame w u" by (rule tame_norm [OF n tame_refl])
  note b = groups_okD(1) [OF oku] and c = groups_okD(2) [OF oku] and s = shapes_but(1) [OF groups_okD(3) [OF oku]]
  obtain h where h: "gw_groups u a = Some h" "norm_group h = norm_group g" by (rule norm_group_Some [OF n g])
  have ph: "p \<in> set (guids h)" using p norm_groupD(1) [OF h(2)] by simp
  have ne: "guids h \<noteq> []" using ph by auto
  have sh: "2 \<le> length (m_memberSlots h)" "m_leaderGuid h \<in> set (guids h)" using groups_okD(4) [OF oku h(1)] ne by (simp_all add: shape_ok_def)
  have bg: "\<not> isBGGroup h" using core_okD(2) [OF c h(1)] by (simp add: group_ok_def isBGGroup_def)
  obtain k where k: "getMemberSlot p (m_memberSlots h) = Some k" using ph getMemberSlot_guids [of p h] by auto
  have count: "2 < GetMembersCount h \<longleftrightarrow> 2 < length (m_memberSlots h)"
    using members_count(2) [OF core_okD(2) [OF c h(1)]] by (simp add: word_less_nat_alt)
  have "base_ok (leave a h k p u)" using base_ok_leave [OF b h(1) k sh(1)] .
  have fin: "g_wp (g_then (g_when (m_leaderGuid h = p) (pick_leader a)) (g_then (SendUpdate a) (g_bind (g_group a) (\<lambda>g.
      g_then (g_when (length (m_memberMgr g) < (if isBGGroup g then 1 else 2)) (Disband env a False)) (g_ret True))))) (\<lambda>_. good w) v"
    if nv: "norm v = norm (leave a h k p u)" and two: "2 < length (m_memberSlots h)" for v
  proof -
    obtain j where j: "gw_groups v a = Some j" "norm_group j = norm_group (leave_group h k p)"
      by (rule norm_group_Some [OF nv, of a]) (simp_all add: leave_def)
    have d: "distinct (guids h)" using core_okD(2) [OF c h(1)] by (simp add: group_ok_def)
    have gj: "set (guids j) = set (guids h) - {p}" using norm_groupD(1) [OF j(2)] leave_sets(1) [OF d k] by simp
    have sv: "shapes_but a v" by (rule shapes_but_norm [OF nv]) (use s in \<open>simp add: leave_def shapes_but_def\<close>)
    have "length (guids j) = length (guids h) - 1" using norm_groupD(1) [OF j(2)] getMemberSlot_Some [OF k] by (simp flip: lens)
    then show ?thesis
      using two gj sh(2) norm_groupD(5) [OF j(2)] base_ok_norm [OF nv \<open>base_ok (leave a h k p u)\<close>] tame_norm [OF nv tame_leave [OF tu]] by (intro finish_removal [OF _ j(1) sv]) auto
  qed
  let ?v = "unlinked a h p u"
  have vg: "gw_groups ?v a = Some (h\<lparr>m_memberMgr := remove1 (p, MGroup) (m_memberMgr h)\<rparr>)" by (simp add: unlinked_def)
  have mid: "g_wp (g_then (g_emit es) (g_then (DelinkMember a p) (g_then (g_when e (ResetMaxEnchantingLevel a))
      (g_then (set_group a (\<lambda>g. g\<lparr>m_RollId := map (leave_one p) (m_RollId g)\<rparr>)) (g_then (erase_slot a p)
      (g_then (g_when (m_leaderGuid h = p) (pick_leader a)) (g_then (SendUpdate a) (g_bind (g_group a) (\<lambda>g.
        g_then (g_when (length (m_memberMgr g) < (if isBGGroup g then 1 else 2)) (Disband env a False)) (g_ret True))))))))))
      (\<lambda>_. good w) v" if nv: "norm v = norm ?v" and two: "2 < length (m_memberSlots h)" for v e es
    by (rule wp_quiet_then [OF quiet_from_basic(2) nv], rule wp_quiet_then [OF quiet_DelinkMember [OF c h(1)]], assumption,
        rule wp_quiet_then [of ?v], intro quiet_from_when quiet_from_group(2) [OF vg], assumption,
        rule wp_quiet_then [of ?v], rule quiet_from_group(3) [OF vg], simp, assumption,
        rule wp_then, rule erase_slot_wp [OF c h(1) k], assumption, rule fin [OF _ two])
  show "g_wp (g_bind (g_group a) (\<lambda>g.
      if (if isBGGroup g then 1 else 2) < GetMembersCount g
      then g_bind (g_get (\<lambda>w. FindGPlayer w p)) (\<lambda>player.
        g_then (case player of
                  None \<Rightarrow> g_ret ()
                | Some pl \<Rightarrow>
                    g_then (detach_player a g p)
                    (g_then (g_when (\<not> isBGGroup g) (g_emit [GCall ''UpdateForQuestWorldObjects'' p]))
                    (g_then (g_when kick (g_emit [GSend p (new_WorldPacket SMSG_GROUP_UNINVITE)]))
                    (g_then (g_emit [GSend p (left_group_list g)]) (homebindIfInstance env p)))))
        (g_then (g_emit [GDb ''CHAR_DEL_GROUP_MEMBER'' [DbU32 (GUID_LOPART p)]])
        (g_then (DelinkMember a p)
        (g_then (g_when (case player of None \<Rightarrow> True | Some pl \<Rightarrow> gp_enchanting pl \<noteq> 0) (ResetMaxEnchantingLevel a))
        (g_then (set_group a (\<lambda>g. g\<lparr>m_RollId := map (leave_one p) (m_RollId g)\<rparr>))
        (g_then (erase_slot a p)
        (g_then (g_when (m_leaderGuid g = p) (pick_leader a))
        (g_then (SendUpdate a)
        (g_bind (g_group a) (\<lambda>g.
         g_then (g_when (length (m_memberMgr g) < (if isBGGroup g then 1 else 2)) (Disband env a False)) (g_ret True)))))))))))
      else g_then (Disband env a False) (g_ret False))) (\<lambda>_. good w) u"
  proof (rule wp_group [OF h(1)], cases "2 < length (m_memberSlots h)", goal_cases)
    case 1
    then show ?case
      by (simp only: bg count if_True if_False) (rule wp_get, rule wp_then, rule g_wp_mono [OF unlink_part [OF c h(1) ph]], erule mid)
  next
    case 2
    then show ?case
      using g_wp_mono [OF Disband_ok [OF b h(1) ne s tu], of "\<lambda>_. g_wp (g_ret False) (\<lambda>_. good w)"]
      by (simp only: bg count if_False g_wp_then) (simp add: wp_rules)
  qed
qed

end
