(* ===== verification/Group_Safety.thy ===== *)
theory Group_Safety
  imports Group_Steps
begin

text \<open>
  The opcodes, logging in and logging out keep the invariant of groups and never fail, in every order and with every content, as
  long as two things do not happen that a regular client does not do: inviting oneself, and accepting the invitation to a group
  one has just opened.  \<open>group_reachable\<close> are the states such requests lead to.
\<close>

section \<open>Raids and sub groups\<close>

lemma counts_loop:
  assumes "gw_groups w a = Some g" and "m_subGroupsCounts g = Some cs" and "\<And>m. m \<in> set ms \<Longrightarrow> unat (ms_group m) < length cs"
    and "Q () (put_group a (g\<lparr>m_subGroupsCounts := Some (foldl (\<lambda>cs s. bump (\<lambda>n. n + 1) s cs) cs (map ms_group ms))\<rparr>) w)"
  shows "g_wp (g_for ms (\<lambda>m. SubGroupCounterIncrease a (ms_group m))) Q w"
  using assms
proof (induction ms arbitrary: w g cs)
  case Nil
  then have "g\<lparr>m_subGroupsCounts := Some cs\<rparr> = g" by (cases g) simp
  then show ?case using Nil by (simp add: wp_rules put_group_same)
next
  case (Cons m ms)
  let ?g = "g\<lparr>m_subGroupsCounts := Some (bump (\<lambda>n. n + 1) (ms_group m) cs)\<rparr>"
  have "g_wp (g_for ms (\<lambda>m. SubGroupCounterIncrease a (ms_group m))) Q (put_group a ?g w)"
    by (rule Cons.IH [where g = ?g and cs = "bump (\<lambda>n. n + 1) (ms_group m) cs"]) (use Cons.prems in \<open>simp_all add: bump_def\<close>)
  then show ?case
    unfolding g_for.simps SubGroupCounterIncrease_def
    by (intro wp_then bump_count_wp [OF Cons.prems(1)]) (use Cons.prems(2,3) in simp_all)
qed

lemma quiet_from_for: "(\<And>x. quiet_from v (f x)) \<Longrightarrow> quiet_from v (g_for xs f)"
  unfolding quiet_from_def by (auto intro: quiet_for)

lemma quiet_from_get: "(\<And>x. quiet_from v (f x)) \<Longrightarrow> quiet_from v (g_bind (g_get h) f)"
  unfolding quiet_from_def by (auto intro: quiet_get)

lemma ConvertToRaid_wp:
  assumes g: "gw_groups w a = Some g" and s: "\<And>s. s \<in> set (subs g) \<Longrightarrow> unat s < MAX_RAID_SUBGROUPS"
    and Q: "\<And>w'. norm w' = norm (put_group a (raid_group g) w) \<Longrightarrow> Q () w'"
  shows "g_wp (ConvertToRaid a) Q w"
proof -
  let ?g = "g\<lparr>m_groupType := m_groupType g OR GROUPTYPE_RAID, m_subGroupsCounts := Some (replicate MAX_RAID_SUBGROUPS 0)\<rparr>"
  let ?v = "put_group a (raid_group g) w"
  have vg: "gw_groups ?v a = Some (raid_group g)" by simp
  have rest: "g_wp (g_bind (g_group a) (\<lambda>g.
      g_then (g_when (\<not> isBGGroup g) (g_emit [GDb ''CHAR_UPD_GROUP_TYPE'' [DbU8 (m_groupType g), DbU32 (m_dbStoreId g)]]))
      (g_then (SendUpdate a) (g_bind (g_get (\<lambda>w. w)) (\<lambda>w. g_for (m_memberSlots g) (\<lambda>m.
         g_when (FindGPlayer w (ms_guid m) \<noteq> None) (g_emit [GCall ''UpdateForQuestWorldObjects'' (ms_guid m)]))))))) Q ?v"
    by (rule wp_group [OF vg], rule wp_quiet [of ?v], intro quiet_from_then quiet_from_when quiet_from_basic quiet_from_get quiet_from_for
        quiet_from_group(1) [OF vg]) (simp_all add: Q)
  have init: "g_wp (initRaidSubGroupsCounter a) (\<lambda>_. g_wp (g_bind (g_group a) (\<lambda>g.
      g_then (g_when (\<not> isBGGroup g) (g_emit [GDb ''CHAR_UPD_GROUP_TYPE'' [DbU8 (m_groupType g), DbU32 (m_dbStoreId g)]]))
      (g_then (SendUpdate a) (g_bind (g_get (\<lambda>w. w)) (\<lambda>w. g_for (m_memberSlots g) (\<lambda>m.
         g_when (FindGPlayer w (ms_guid m) \<noteq> None) (g_emit [GCall ''UpdateForQuestWorldObjects'' (ms_guid m)]))))))) Q)
      (put_group a (g\<lparr>m_groupType := m_groupType g OR GROUPTYPE_RAID\<rparr>) w)"
    unfolding initRaidSubGroupsCounter_def
    by (rule wp_group, simp, rule wp_set_group, simp, rule counts_loop [where g = ?g and cs = "replicate MAX_RAID_SUBGROUPS 0"])
      (use s rest in \<open>simp_all add: subs_def raid_group_def\<close>)
  show ?thesis
    unfolding ConvertToRaid_def by (rule wp_set_group [OF g], rule wp_then, rule init)
qed

lemma slots_small: "group_ok g \<Longrightarrow> s \<in> set (subs g) \<Longrightarrow> unat s < MAX_RAID_SUBGROUPS"
  by (cases "m_subGroupsCounts g") (auto simp: group_ok_def counts_ok_def counts_fit_def)

lemma ConvertToRaid_ok:
  assumes ok: "groups_ok w" and g: "gw_groups w a = Some g" "guids g \<noteq> []"
  shows "g_wp (ConvertToRaid a) (\<lambda>_. groups_ok) w"
proof (rule ConvertToRaid_wp [OF g(1) slots_small [OF core_okD(2) [OF groups_okD(2) [OF ok] g(1)]]], assumption)
  fix w' assume n: "norm w' = norm (put_group a (raid_group g) w)"
  have "shape_ok (raid_group g)" using groups_okD(4) [OF ok g(1)] g(2) by (simp add: shape_ok_def)
  then have "groups_ok (put_group a (raid_group g) w)"
    using base_ok_raid [OF groups_okD(1) [OF ok] g(1)] shapes_ok_upd [OF groups_okD(3) [OF ok]] by (simp add: groups_ok_def)
  then show "groups_ok w'" by (rule groups_ok_norm [OF n])
qed

lemma ChangeMembersGroup_ok:
  assumes ok: "groups_ok w" and g: "gw_groups w a = Some g" and cs: "m_subGroupsCounts g = Some cs" "unat sub < MAX_RAID_SUBGROUPS" "unat (cs ! unat sub) < MAXGROUPSIZE"
  shows "g_wp (ChangeMembersGroup a p sub) (\<lambda>_. groups_ok) w"
proof (cases "getMemberSlot p (m_memberSlots g)")
  case None
  then show ?thesis using ok g by (simp add: ChangeMembersGroup_def wp_rules)
next
  case (Some k)
  note c = groups_okD(2) [OF ok] and go = core_okD(2) [OF groups_okD(2) [OF ok] g]
  have kl: "k < length (m_memberSlots g)" using getMemberSlot_Some [OF Some] by simp
  have raid: "isRaidGroup g" "length cs = MAX_RAID_SUBGROUPS" using go cs by (simp_all add: group_ok_def counts_ok_def counts_fit_def)
  have prev: "GetMemberGroup p g = ms_group (m_memberSlots g ! k)" by (simp add: GetMemberGroup_def Some)
  have small: "unat (ms_group (m_memberSlots g ! k)) < MAX_RAID_SUBGROUPS" using slots_small [OF go, of "subs g ! k"] nth_mem [of k "subs g"] kl by simp
  show ?thesis
  proof (cases "ms_group (m_memberSlots g ! k) = sub")
    case True
    then show ?thesis using ok g by (simp add: ChangeMembersGroup_def wp_rules Some prev Let_def)
  next
    case False
    let ?v = "move a g k sub p w"
    have vg: "gw_groups ?v a = Some (move_group g k sub)" by (simp add: move_def)
    have "shape_ok (move_group g k sub)" using groups_okD(4) [OF ok g] by (simp add: shape_ok_def split: if_splits)
    then have "shapes_ok ?v" using groups_okD(3) [OF ok] by (simp add: move_def shapes_ok_def)
    then have okv: "groups_ok ?v" using base_ok_move [OF groups_okD(1) [OF ok] g Some cs False] by (simp add: groups_ok_def)
    have upd: "g_wp (SendUpdate a) (\<lambda>_. groups_ok) ?v"
      by (rule wp_quiet [OF quiet_from_group(1) [OF vg] refl]) (rule groups_ok_norm [OF _ okv])
    let ?w = "put_group a (move_group g k sub) w"
    have pl: "g_wp (g_bind (g_get (\<lambda>w. FindGPlayer w p)) (\<lambda>player.
        g_then (case player of None \<Rightarrow> g_ret ()
          | Some pl \<Rightarrow> set_player p (set_ref_sub (if gp_group pl = Some a then MGroup else MOriginal) sub)) (SendUpdate a))) (\<lambda>_. groups_ok) ?w"
    proof (cases "gw_players w p")
      case None
      then have "?v = ?w" by (cases w) (simp add: move_def put_group_def fun_upd_idem)
      then show ?thesis using None upd by (simp add: wp_rules FindGPlayer_def)
    next
      case pl: (Some pl)
      have "gp_group pl = Some a" using pair_facts(3) [OF c pl g] getMemberSlot_guids [of p g] Some by auto
      moreover have "put_player p (pl\<lparr>gp_subGroup := sub\<rparr>) ?w = ?v" by (simp add: move_def pl put_player_def put_group_def)
      ultimately show ?thesis using pl upd player_facts(1) [OF c pl] by (simp add: wp_rules FindGPlayer_def)
    qed
    show ?thesis
      unfolding ChangeMembersGroup_def Let_def SubGroupCounterIncrease_def SubGroupCounterDecrease_def update_subgroup_row_def
      by (rule wp_group [OF g], simp only: raid Some prev False option.case if_False simp_thms,
          rule wp_set_group [OF g], rule wp_then, rule bump_count_wp, simp, simp add: upd_slot_def cs raid,
          rule wp_then, rule bump_count_wp, simp, simp add: upd_slot_def cs raid small bump_def, rule wp_then, rule wp_when, rule wp_emit)
        (use pl in \<open>simp_all add: move_group_def upd_slot_def cs\<close>)
  qed
qed

section \<open>Invitations and leaving\<close>

lemma shape_invitees: "shape_ok g \<Longrightarrow> guids g \<noteq> [] \<or> m_leaderGuid g \<in> set xs \<Longrightarrow> shape_ok (g\<lparr>m_invitees := xs\<rparr>)"
  by (auto simp: shape_ok_def isRaidGroup_def split: if_splits)

lemma groups_ok_drop:
  assumes ok: "groups_ok w" and g: "gw_groups w a = Some g" and pl: "gw_players w p = Some pl" "gp_groupInvite pl = Some a"
    and s: "guids g \<noteq> [] \<or> m_leaderGuid g \<noteq> p"
  shows "groups_ok (drop_invite a g p pl w)"
proof -
  have "guids g \<noteq> [] \<or> m_leaderGuid g \<in> set (removeAll p (m_invitees g))" using s groups_okD(4) [OF ok g] by (auto simp: shape_ok_def split: if_splits)
  then have "shapes_ok (drop_invite a g p pl w)"
    using groups_okD(4) [OF ok g] unfolding drop_invite_def shapes_ok_player by (intro shapes_ok_upd [OF groups_okD(3) [OF ok]] shape_invitees)
  then show ?thesis using base_ok_drop_invite [OF groups_okD(1) [OF ok] g pl] by (simp add: groups_ok_def)
qed

lemma tame_drop: "gw_players w p = Some pl \<Longrightarrow> tame w (drop_invite a g p pl w)"
  by (rule tame_map [OF tame_refl]) (auto simp: drop_invite_def)

lemma Player_UninviteFromGroup_ok:
  assumes ok: "groups_ok w" and pl: "gw_players w p = Some pl"
  shows "g_wp (Player_UninviteFromGroup env p) (\<lambda>_ w'. good w w' \<and> (\<exists>ql. gw_players w' p = Some ql \<and> gp_groupInvite ql = None)) w"
proof (cases "gp_groupInvite pl")
  case None
  then show ?thesis using ok pl tame_refl [of w] by (simp add: Player_UninviteFromGroup_def wp_rules good_def)
next
  case (Some a)
  obtain g where g: "gw_groups w a = Some g" using player_facts(6) [OF groups_okD(2) [OF ok] pl Some] by blast
  let ?g = "g\<lparr>m_invitees := removeAll p (m_invitees g)\<rparr>"
  let ?v = "drop_invite a g p pl w"
  have v: "gw_groups ?v a = Some ?g" "gw_players ?v p = Some (pl\<lparr>gp_groupInvite := None\<rparr>)" by (simp_all add: drop_invite_def)
  have bv: "base_ok ?v" by (rule base_ok_drop_invite [OF groups_okD(1) [OF ok] g pl Some])
  note m = members_count(2) [OF core_okD(2) [OF base_okD(1) [OF bv] v(1)]] and t = tame_drop [OF pl, of a g]
  have "g_wp (g_bind (g_group a) (\<lambda>g. if GetMembersCount g \<le> 1 then if IsCreated g then Disband env a True
      else g_then (RemoveAllInvites a) (delete_group a) else g_ret ())) (\<lambda>_ w'. good w w' \<and> (\<exists>ql. gw_players w' p = Some ql \<and> gp_groupInvite ql = None)) ?v"
  proof (rule wp_group [OF v(1)], cases "guids g = []")
    case True
    then have "length (m_memberSlots ?g) = 0" by (simp add: guids_def)
    then have c0: "GetMembersCount ?g \<le> 1" "\<not> IsCreated ?g" using m by (simp_all add: word_le_nat_alt IsCreated_def word_less_nat_alt)
    have s: "shapes_ok (wipe a ?v)"
      using groups_okD(3) [OF ok] by (auto simp: shapes_ok_def wipe_def drop_invite_def split: if_splits)
    have "base_ok (wipe a ?v)" by (rule base_ok_wipe [OF bv v(1)]) (simp add: True)
    then have "good w (wipe a ?v)" using s tame_wipe [OF t, of a] by (simp add: good_def groups_ok_def)
    moreover have "\<exists>ql. gw_players (wipe a ?v) p = Some ql \<and> gp_groupInvite ql = None" using v(2) by (simp add: wipe_def)
    ultimately show "g_wp (if GetMembersCount ?g \<le> 1 then if IsCreated ?g then Disband env a True
      else g_then (RemoveAllInvites a) (delete_group a) else g_ret ()) (\<lambda>_ w'. good w w' \<and> (\<exists>ql. gw_players w' p = Some ql \<and> gp_groupInvite ql = None)) ?v"
      unfolding if_P [OF c0(1)] if_not_P [OF c0(2)] by (intro scrap_wp [OF base_okD(1) [OF bv] v(1)]) (simp_all add: True)
  next
    case False
    then have "2 \<le> length (m_memberSlots ?g)" using groups_okD(4) [OF ok g] by (simp add: shape_ok_def)
    then have "\<not> GetMembersCount ?g \<le> 1" using m by (simp add: word_le_nat_alt)
    then show "g_wp (if GetMembersCount ?g \<le> 1 then if IsCreated ?g then Disband env a True
      else g_then (RemoveAllInvites a) (delete_group a) else g_ret ()) (\<lambda>_ w'. good w w' \<and> (\<exists>ql. gw_players w' p = Some ql \<and> gp_groupInvite ql = None)) ?v"
      using groups_ok_drop [OF ok g pl Some] False t v(2) by (simp add: wp_rules good_def)
  qed
  then show ?thesis
    unfolding Player_UninviteFromGroup_def
    by (intro wp_player [OF pl]) (simp only: Some option.case, rule wp_then, rule RemoveInvite_wp [OF g pl])
qed

section \<open>Opcodes\<close>

text \<open>A player's group, as the handlers find it.\<close>

lemma with_group_wp:
  assumes c: "core_ok w" and pl: "gw_players w p = Some pl" and no: "gp_group pl = None \<Longrightarrow> Q () w"
    and some: "\<And>a g. gp_group pl = Some a \<Longrightarrow> gw_groups w a = Some g \<Longrightarrow> p \<in> set (guids g) \<Longrightarrow> g_wp (f a g) Q w"
  shows "g_wp (with_group p f) Q w"
proof (cases "gp_group pl")
  case None
  then show ?thesis using no pl by (simp add: with_group_def wp_rules)
next
  case (Some a)
  then obtain g where g: "gw_groups w a = Some g" using player_facts(4) [OF c pl] by blast
  then have "p \<in> set (guids g)" using pair_facts(3) [OF c pl g] Some by simp
  then show ?thesis using some [OF Some g] pl g by (simp add: with_group_def wp_rules Some)
qed

lemma with_group_ok:
  assumes ok: "groups_ok w" and pl: "gw_players w p = Some pl"
    and some: "\<And>a g. gw_groups w a = Some g \<Longrightarrow> p \<in> set (guids g) \<Longrightarrow> g_wp (f a g) (\<lambda>_. groups_ok) w"
  shows "g_wp (with_group p f) (\<lambda>_. groups_ok) w"
  by (rule with_group_wp [OF groups_okD(2) [OF ok] pl]) (simp_all add: ok some)

lemma SendPartyResult_wp: "g_wp (SendPartyResult p op m r) Q w = Q () w"
  by (simp add: SendPartyResult_def wp_rules)

lemma quiet_ok: "groups_ok w \<Longrightarrow> quiet_from w m \<Longrightarrow> g_wp m (\<lambda>_. groups_ok) w"
  by (rule wp_quiet [of w]) (auto intro: groups_ok_norm)

lemma quiet_from_flags:
  assumes "gw_groups v a = Some g"
  shows "quiet_from v (SetGroupMemberFlag a guid b flag)" "quiet_from v (RemoveUniqueGroupMemberFlag a flag)" "quiet_from v (UpdateLooterGuid near a b)"
  unfolding quiet_from_def by (blast elim: norm_group_Some [OF _ assms] intro: quiet_flags quiet_UpdateLooterGuid)+

text \<open>The opcodes that change no membership.\<close>

lemma quiet_handlers_ok:
  assumes ok: "groups_ok w" and pl: "gw_players w p = Some pl"
  shows "g_wp (HandleLootMethodOpcode p meth master thr) (\<lambda>_. groups_ok) w"
    and "g_wp (HandleRaidTargetUpdateOpcode p x guid) (\<lambda>_. groups_ok) w"
    and "g_wp (HandleGroupAssistantLeaderOpcode p guid b) (\<lambda>_. groups_ok) w"
    and "g_wp (HandlePartyAssignmentOpcode p asg b guid) (\<lambda>_. groups_ok) w"
    and "g_wp (HandleRaidReadyCheckOpcode p st) (\<lambda>_. groups_ok) w"
proof -
  note wg = with_group_ok [OF ok pl] and lv = base_ok_live [OF groups_okD(1) [OF ok]]
  show "g_wp (HandleLootMethodOpcode p meth master thr) (\<lambda>_. groups_ok) w"
    unfolding HandleLootMethodOpcode_def
    by (rule wg) (auto intro!: quiet_ok [OF ok] quiet_from_then quiet_from_group quiet_from_basic)
  show "g_wp (HandleRaidTargetUpdateOpcode p x guid) (\<lambda>_. groups_ok) w"
    unfolding HandleRaidTargetUpdateOpcode_def
    by (rule wg) (auto intro!: quiet_ok [OF ok] quiet_from_live lv quiet_from_basic)
  show "g_wp (HandleGroupAssistantLeaderOpcode p guid b) (\<lambda>_. groups_ok) w"
    unfolding HandleGroupAssistantLeaderOpcode_def
    by (rule wg) (auto intro!: quiet_ok [OF ok] quiet_from_then quiet_from_flags quiet_from_group quiet_from_basic)
  show "g_wp (HandlePartyAssignmentOpcode p asg b guid) (\<lambda>_. groups_ok) w"
    unfolding HandlePartyAssignmentOpcode_def
    by (rule wg) (auto intro!: quiet_ok [OF ok] quiet_from_then quiet_from_flags quiet_from_group quiet_from_basic)
  show "g_wp (HandleRaidReadyCheckOpcode p st) (\<lambda>_. groups_ok) w"
    unfolding HandleRaidReadyCheckOpcode_def
    by (rule wg) (auto intro!: quiet_ok [OF ok] quiet_from_then quiet_from_live lv quiet_from_basic split: option.split)
qed

lemma HandleGroupSetLeaderOpcode_ok:
  assumes ok: "groups_ok w" and pl: "gw_players w p = Some pl"
  shows "g_wp (HandleGroupSetLeaderOpcode p guid) (\<lambda>_. groups_ok) w"
  unfolding HandleGroupSetLeaderOpcode_def
proof (rule with_group_ok [OF ok pl], rule wp_get, cases "FindGPlayer w guid", goal_cases)
  case (1 a g)
  then show ?case using ok by (simp add: wp_rules)
next
  case (2 a g ql)
  show ?case
  proof (cases "\<not> IsLeader p g \<or> gp_group ql \<noteq> Some a")
    case False
    have q: "gw_players w guid = Some ql" using 2(3) by (auto simp: FindGPlayer_def split: option.splits if_splits)
    have m: "guid \<in> set (guids g)" using pair_facts(3) [OF groups_okD(2) [OF ok] q 2(1)] False by simp
    let ?v = "put_group a (g\<lparr>m_leaderGuid := guid\<rparr>) w"
    have "shape_ok (g\<lparr>m_leaderGuid := guid\<rparr>)" using groups_okD(4) [OF ok 2(1)] m by (auto simp: shape_ok_def split: if_splits)
    then have okv: "groups_ok ?v"
      using base_ok_leader [OF groups_okD(1) [OF ok] 2(1)] shapes_ok_upd [OF groups_okD(3) [OF ok]] by (simp add: groups_ok_def)
    have "g_wp (SendUpdate a) (\<lambda>_. groups_ok) v" if "norm v = norm ?v" for v
      by (rule wp_quiet [OF quiet_from_group(1) that]) (use groups_ok_norm [OF _ okv] in simp_all)
    then have "g_wp (g_then (ChangeLeader a guid) (SendUpdate a)) (\<lambda>_. groups_ok) w"
      by (intro wp_then ChangeLeader_wp [OF base_ok_live [OF groups_okD(1) [OF ok] 2(1)] 2(1) m 2(3)])
    then show ?thesis using False 2(3) by simp
  qed (use 2(3) ok in \<open>auto simp: wp_rules\<close>)
qed

lemma HandleGroupRaidConvertOpcode_ok:
  assumes ok: "groups_ok w" and pl: "gw_players w p = Some pl"
  shows "g_wp (HandleGroupRaidConvertOpcode p) (\<lambda>_. groups_ok) w"
  unfolding HandleGroupRaidConvertOpcode_def
proof (rule with_group_ok [OF ok pl], rule wp_player [OF pl])
  fix a g assume "gw_groups w a = Some g" and "p \<in> set (guids g)"
  then have "g_wp (ConvertToRaid a) (\<lambda>_. groups_ok) w" by (intro ConvertToRaid_ok [OF ok]) auto
  then show "g_wp (if gp_inBattleground pl then g_ret () else if \<not> IsLeader p g \<or> GetMembersCount g < 2 then g_ret ()
      else g_then (SendPartyResult p PARTY_OP_INVITE [] ERR_PARTY_RESULT_OK) (ConvertToRaid a)) (\<lambda>_. groups_ok) w"
    using ok by (simp add: wp_rules SendPartyResult_def)
qed

lemma HandleGroupChangeSubGroupOpcode_ok:
  assumes ok: "groups_ok w" and pl: "gw_players w p = Some pl"
  shows "g_wp (HandleGroupChangeSubGroupOpcode env p name nr) (\<lambda>_. groups_ok) w"
  unfolding HandleGroupChangeSubGroupOpcode_def
proof (rule with_group_ok [OF ok pl])
  fix a g assume g: "gw_groups w a = Some g" and "p \<in> set (guids g)"
  have "g_wp (HasFreeSlotSubGroup a nr) (\<lambda>free w'. w' = w \<and>
      (free \<longrightarrow> (\<exists>cs. m_subGroupsCounts g = Some cs \<and> unat (cs ! unat nr) < MAXGROUPSIZE))) w" if "unat nr < MAX_RAID_SUBGROUPS"
    using core_okD(2) [OF groups_okD(2) [OF ok] g] that
    by (cases "m_subGroupsCounts g") (simp_all add: HasFreeSlotSubGroup_def wp_rules g group_ok_def counts_ok_def counts_fit_def)
  then have "g_wp (g_bind (HasFreeSlotSubGroup a nr) (\<lambda>free. if \<not> free then g_ret ()
      else g_bind (g_get (\<lambda>w. FindGPlayerByName env w name)) (\<lambda>moved.
        ChangeMembersGroup a (case moved of Some q \<Rightarrow> q | None \<Rightarrow> ge_GetPlayerGUIDByName env (ge_EscapeString env name)) nr))) (\<lambda>_. groups_ok) w"
    if "unat nr < MAX_RAID_SUBGROUPS"
    unfolding g_wp_bind by (rule g_wp_mono) (use that in \<open>auto simp: wp_rules ok intro: ChangeMembersGroup_ok [OF ok g]\<close>)
  then show "g_wp (if MAX_RAID_SUBGROUPS \<le> unat nr then g_ret () else if \<not> IsLeader p g \<and> \<not> IsAssistant p g then g_ret ()
      else g_bind (HasFreeSlotSubGroup a nr) (\<lambda>free. if \<not> free then g_ret ()
      else g_bind (g_get (\<lambda>w. FindGPlayerByName env w name)) (\<lambda>moved.
        ChangeMembersGroup a (case moved of Some q \<Rightarrow> q | None \<Rightarrow> ge_GetPlayerGUIDByName env (ge_EscapeString env name)) nr))) (\<lambda>_. groups_ok) w"
    using ok by (simp add: g_wp_basic)
qed

lemma Player_RemoveFromGroup_ok:
  assumes "groups_ok w" and "gw_groups w a = Some g" and "p \<in> set (guids g)"
  shows "g_wp (Player_RemoveFromGroup env (Some a) p kick) (\<lambda>_. good w) w"
  unfolding Player_RemoveFromGroup_def option.case
  by (rule wp_bind, rule g_wp_mono [OF RemoveMember_ok [OF assms]]) (simp add: wp_rules)

lemma good_ok: "g_wp m (\<lambda>_. good w0) w \<Longrightarrow> g_wp m (\<lambda>_. groups_ok) w"
  by (erule g_wp_mono) (simp add: good_def)

lemma HandleGroupDisbandOpcode_ok:
  assumes ok: "groups_ok w" and pl: "gw_players w p = Some pl"
  shows "g_wp (HandleGroupDisbandOpcode env p) (\<lambda>_. groups_ok) w"
  unfolding HandleGroupDisbandOpcode_def
proof (rule with_group_ok [OF ok pl], rule wp_player [OF pl])
  fix a g assume "gw_groups w a = Some g" and "p \<in> set (guids g)"
  note good_ok [OF Player_RemoveFromGroup_ok [OF ok this, of env False]]
  then show "g_wp (if gp_inBattleground pl then SendPartyResult p PARTY_OP_INVITE [] ERR_INVITE_RESTRICTED
      else g_then (SendPartyResult p PARTY_OP_LEAVE (gp_name pl) ERR_PARTY_RESULT_OK) (Player_RemoveFromGroup env (Some a) p False)) (\<lambda>_. groups_ok) w"
    using ok by (simp add: wp_rules SendPartyResult_def)
qed

lemma CanUninviteFromGroup_wp:
  assumes c: "core_ok w" and pl: "gw_players w p = Some pl" and Q: "\<And>res. Q res w"
  shows "g_wp (CanUninviteFromGroup p) Q w"
proof (cases "gp_group pl")
  case (Some a)
  then obtain g where "gw_groups w a = Some g" using player_facts(4) [OF c pl] by blast
  then show ?thesis using Some pl Q by (simp add: CanUninviteFromGroup_def wp_rules)
qed (use pl Q in \<open>simp add: CanUninviteFromGroup_def wp_rules\<close>)

lemma GetInvited_wp:
  assumes c: "core_ok w" and g: "gw_groups w a = Some g" and Q: "\<And>q. q \<in> set (m_invitees g) \<Longrightarrow> Q (Some q) w" "Q None w"
  shows "g_wp (GetInvited P a) Q w"
proof -
  have on: "\<not> (\<exists>p\<in>set (m_invitees g). gw_players w p = None)" using invitees_online [OF c g] by blast
  have "Q (case filter (\<lambda>p. P p (the (gw_players w p))) (m_invitees g) of [] \<Rightarrow> None | p # _ \<Rightarrow> Some p) w"
  proof (cases "filter (\<lambda>p. P p (the (gw_players w p))) (m_invitees g)")
    case (Cons q qs)
    then have "q \<in> set (filter (\<lambda>p. P p (the (gw_players w p))) (m_invitees g))" by simp
    then have "q \<in> set (m_invitees g)" by simp
    then show ?thesis using Q(1) Cons by simp
  qed (simp add: Q)
  then show ?thesis using g on by (simp add: GetInvited_def g_wp_def g_bind_def g_group_def)
qed

lemma uninvite_ok:
  assumes ok: "groups_ok w" and pl: "gw_players w p = Some pl" and m: "\<And>g guid. member g = Some guid \<Longrightarrow> guid \<in> set (guids g)"
  shows "g_wp (uninvite env p tx refused member invited) (\<lambda>_. groups_ok) w"
proof -
  have "g_wp (with_group p (\<lambda>a g.
       if refused g then SendPartyResult p PARTY_OP_UNINVITE [] ERR_NOT_LEADER
       else case member g of
              Some guid \<Rightarrow> Player_RemoveFromGroup env (Some a) guid True
            | None \<Rightarrow> g_bind (GetInvited invited a) (\<lambda>q.
                case q of
                  Some q \<Rightarrow> Player_UninviteFromGroup env q
                | None \<Rightarrow> SendPartyResult p PARTY_OP_UNINVITE tx ERR_TARGET_NOT_IN_GROUP_S))) (\<lambda>_. groups_ok) w"
  proof (rule with_group_ok [OF ok pl])
    fix a g assume g: "gw_groups w a = Some g"
    have un: "g_wp (Player_UninviteFromGroup env q) (\<lambda>_. groups_ok) w" if q: "q \<in> set (m_invitees g)" for q
    proof -
      obtain ql where "gw_players w q = Some ql" using invitees_online [OF groups_okD(2) [OF ok] g q] by blast
      then show ?thesis by (rule g_wp_mono [OF Player_UninviteFromGroup_ok [OF ok]]) (simp add: good_def)
    qed
    have "g_wp (g_bind (GetInvited invited a) (\<lambda>q. case q of Some q \<Rightarrow> Player_UninviteFromGroup env q
        | None \<Rightarrow> SendPartyResult p PARTY_OP_UNINVITE tx ERR_TARGET_NOT_IN_GROUP_S)) (\<lambda>_. groups_ok) w"
      by (rule wp_bind, rule GetInvited_wp [OF groups_okD(2) [OF ok] g]) (simp_all add: un SendPartyResult_wp wp_rules ok)
    moreover have "g_wp (Player_RemoveFromGroup env (Some a) guid True) (\<lambda>_. groups_ok) w" if "member g = Some guid" for guid
      by (rule good_ok [OF Player_RemoveFromGroup_ok [OF ok g m [OF that]]])
    ultimately show "g_wp (if refused g then SendPartyResult p PARTY_OP_UNINVITE [] ERR_NOT_LEADER
       else case member g of
              Some guid \<Rightarrow> Player_RemoveFromGroup env (Some a) guid True
            | None \<Rightarrow> g_bind (GetInvited invited a) (\<lambda>q.
                case q of
                  Some q \<Rightarrow> Player_UninviteFromGroup env q
                | None \<Rightarrow> SendPartyResult p PARTY_OP_UNINVITE tx ERR_TARGET_NOT_IN_GROUP_S)) (\<lambda>_. groups_ok) w"
      using ok by (cases "member g") (simp_all add: SendPartyResult_wp g_wp_basic)
  qed
  then show ?thesis
    unfolding uninvite_def using ok
    by (intro wp_bind CanUninviteFromGroup_wp [OF groups_okD(2) [OF ok] pl]) (simp add: SendPartyResult_wp g_wp_basic)
qed

lemma member_guid_by_name_in: "member_guid_by_name name ms \<noteq> 0 \<Longrightarrow> member_guid_by_name name ms \<in> ms_guid ` set ms"
  by (induction ms) (auto split: if_splits)

lemma uninvite_opcodes_ok:
  assumes ok: "groups_ok w" and pl: "gw_players w p = Some pl"
  shows "g_wp (HandleGroupUninviteGuidOpcode env p guid) (\<lambda>_. groups_ok) w"
    and "g_wp (HandleGroupUninviteOpcode env p name) (\<lambda>_. groups_ok) w"
proof -
  have m: "IsMember guid g \<Longrightarrow> guid \<in> set (guids g)" for guid g by (simp add: IsMember_def getMemberSlot_guids)
  have u: "g_wp (uninvite env p tx refused (\<lambda>g. if IsMember guid g then Some guid else None) inv) (\<lambda>_. groups_ok) w" for tx refused inv
    by (rule uninvite_ok [OF ok pl]) (auto simp: m split: if_splits)
  show "g_wp (HandleGroupUninviteGuidOpcode env p guid) (\<lambda>_. groups_ok) w"
    unfolding HandleGroupUninviteGuidOpcode_def using ok u by (simp add: g_wp_basic)
  have "GetMemberGUID nm g \<noteq> 0 \<Longrightarrow> GetMemberGUID nm g \<in> set (guids g)" for nm g
    using member_guid_by_name_in by (auto simp: GetMemberGUID_def guids_def)
  then have v: "g_wp (uninvite env p tx refused (\<lambda>g. if GetMemberGUID nm g \<noteq> 0 then Some (GetMemberGUID nm g) else None) inv) (\<lambda>_. groups_ok) w"
    for tx refused nm inv by (intro uninvite_ok [OF ok pl]) (auto split: if_splits)
  show "g_wp (HandleGroupUninviteOpcode env p name) (\<lambda>_. groups_ok) w"
    unfolding HandleGroupUninviteOpcode_def using ok v
    by (auto simp: g_wp_basic intro!: wp_player [OF pl] split: option.split)
qed

lemma HandleGroupDeclineOpcode_ok:
  assumes ok: "groups_ok w" and pl: "gw_players w p = Some pl"
  shows "g_wp (HandleGroupDeclineOpcode env p) (\<lambda>_. groups_ok) w"
proof (cases "gp_groupInvite pl")
  case (Some a)
  obtain g where g: "gw_groups w a = Some g" using player_facts(6) [OF groups_okD(2) [OF ok] pl Some] by blast
  have "g_wp (g_then (Player_UninviteFromGroup env p) (g_when b (g_emit es))) (\<lambda>_. groups_ok) w" for b es
    by (rule wp_then, rule g_wp_mono [OF Player_UninviteFromGroup_ok [OF ok pl]]) (simp add: wp_rules good_def)
  then show ?thesis
    unfolding HandleGroupDeclineOpcode_def by (intro wp_player [OF pl]) (simp only: Some option.case, rule wp_group [OF g], rule wp_get)
qed (use ok pl in \<open>simp add: HandleGroupDeclineOpcode_def wp_rules\<close>)

section \<open>Inviting\<close>

lemma new_group_fields: "guids new_Group = []" "m_memberMgr new_Group = []" "m_invitees new_Group = []" "\<not> isRaidGroup new_Group"
  by (simp_all add: new_Group_def guids_def isRaidGroup_def)

lemma delete_new_ok:
  assumes ok: "groups_ok w"
  shows "g_wp (g_then (delete_group (gw_fresh w)) (g_ret x)) (\<lambda>_. groups_ok) (birth w)"
proof -
  let ?a = "gw_fresh w"
  have b: "base_ok (birth w)" by (rule base_ok_birth [OF groups_okD(1) [OF ok]])
  have g: "gw_groups (birth w) ?a = Some new_Group" by (simp add: birth_def)
  have "gw_players (wipe ?a (birth w)) p = gw_players (birth w) p" for p
  proof (cases "gw_players (birth w) p")
    case (Some pl)
    note pf = pair_facts [OF base_okD(1) [OF b] Some g]
    have "gp_group pl \<noteq> Some ?a" "gp_groupInvite pl \<noteq> Some ?a" using pf(1,3) by (simp_all add: new_group_fields)
    then show ?thesis using Some by (cases pl) (simp add: wipe_def)
  qed (simp add: wipe_def)
  then have e: "(birth w)\<lparr>gw_groups := (gw_groups (birth w))(?a := None)\<rparr> = wipe ?a (birth w)"
    by (simp add: wipe_def fun_eq_iff)
  have "shapes_ok (wipe ?a (birth w))" using groups_okD(3) [OF ok] by (auto simp: shapes_ok_def wipe_def birth_def split: if_splits)
  then have "groups_ok (wipe ?a (birth w))" using base_ok_wipe [OF b g] by (simp add: groups_ok_def new_group_fields)
  then show ?thesis by (intro wp_then delete_group_wp [OF g]) (simp_all add: new_group_fields e wp_rules)
qed

lemma invite_new_ok:
  assumes ok: "groups_ok w" and pl: "gw_players w p = Some pl" and ql: "gw_players w q = Some ql" "gp_groupInvite ql = None" "gp_group ql = None"
    and ne: "p \<noteq> q"
  shows "g_wp (invite_into p q None) (\<lambda>_. groups_ok) w"
proof -
  let ?a = "gw_fresh w"
  have b: "base_ok (birth w)" by (rule base_ok_birth [OF groups_okD(1) [OF ok]])
  have g: "gw_groups (birth w) ?a = Some new_Group" by (simp add: birth_def)
  have p: "gw_players (birth w) p = Some pl" "gw_players (birth w) q = Some ql" using pl ql by (simp_all add: birth_def)
  let ?g = "new_Group\<lparr>m_invitees := [p], m_leaderGuid := p, m_leaderName := gp_name pl\<rparr>"
  let ?v = "put_player p (pl\<lparr>gp_groupInvite := Some ?a\<rparr>) (put_group ?a ?g (birth w))"
  have second: "g_wp (g_bind (AddInvite ?a q) (\<lambda>ok. if \<not> ok then g_then (delete_group ?a) (g_ret False) else g_ret True)) (\<lambda>_. groups_ok) ?v"
    if "gp_groupInvite pl = None" "gp_group pl = None"
  proof -
    have bl: "base_ok (put_group ?a (new_Group\<lparr>m_invitees := [p], m_leaderGuid := p\<rparr>) (add_invite ?a new_Group p pl (birth w)))"
      using base_ok_leader [OF base_ok_add_invite [OF b g p(1) that], of ?a "new_Group\<lparr>m_invitees := [p]\<rparr>" p]
      by (simp add: add_invite_def new_group_fields)
    have bv: "base_ok ?v"
      by (rule base_ok_norm [OF _ bl]) (auto simp: add_invite_def norm_group_def intro!: norm_put_player norm_put_group)
    have vg: "gw_groups ?v ?a = Some ?g" and vq: "gw_players ?v q = Some ql" using ne p(2) by simp_all
    have "base_ok (add_invite ?a ?g q ql ?v)" by (rule base_ok_add_invite [OF bv vg vq ql(2,3)])
    moreover have "shape_ok (?g\<lparr>m_invitees := List.insert q [p]\<rparr>)"
      by (simp add: shape_ok_def guids_def isRaidGroup_def) (simp add: new_Group_def)
    then have "shapes_ok (add_invite ?a ?g q ql ?v)" using groups_okD(3) [OF ok] by (simp add: add_invite_def shapes_ok_def birth_def)
    ultimately have "groups_ok (add_invite ?a ?g q ql ?v)" by (simp add: groups_ok_def)
    then show ?thesis by (intro wp_bind AddInvite_wp [OF base_okD(1) [OF bv] vg vq]) (simp_all add: ql wp_rules)
  qed
  have "g_wp (g_bind (AddLeaderInvite ?a p) (\<lambda>ok.
      if \<not> ok then g_then (delete_group ?a) (g_ret False)
      else g_bind (AddInvite ?a q) (\<lambda>ok. if \<not> ok then g_then (delete_group ?a) (g_ret False) else g_ret True))) (\<lambda>_. groups_ok) (birth w)"
    unfolding AddLeaderInvite_def
    by (rule wp_bind, rule wp_bind, rule AddInvite_wp [OF base_okD(1) [OF b] g p(1)])
      (use delete_new_ok [OF ok, of False] second in \<open>simp_all add: g_wp_basic g_wp_bind g_wp_then g_wp_pointers add_invite_def new_group_fields\<close>)
  then show ?thesis
    unfolding invite_into_def option.case alloc_group_def by (simp add: wp_rules birth_def)
qed

lemma invite_member_ok:
  assumes ok: "groups_ok w" and g: "gw_groups w a = Some g" "guids g \<noteq> []" and ql: "gw_players w q = Some ql"
  shows "g_wp (invite_into p q (Some a)) (\<lambda>_. groups_ok) w"
proof -
  have "shapes_ok (add_invite a g q ql w)"
    unfolding add_invite_def shapes_ok_player
    by (intro shapes_ok_upd [OF groups_okD(3) [OF ok]] shape_invitees groups_okD(4) [OF ok g(1)]) (simp add: g)
  then show ?thesis
    unfolding invite_into_def option.case using ok base_ok_add_invite [OF groups_okD(1) [OF ok] g(1) ql]
    by (intro AddInvite_wp [OF groups_okD(2) [OF ok] g(1) ql]) (simp_all add: groups_ok_def)
qed

lemma HandleGroupInviteOpcode_ok:
  assumes ok: "groups_ok w" and pl: "gw_players w p = Some pl"
    and other: "\<And>nm. ge_normalizePlayerName env name = Some nm \<Longrightarrow> ge_GetPlayerGUIDByName env nm \<noteq> p"
  shows "g_wp (HandleGroupInviteOpcode env p name) (\<lambda>_. groups_ok) w"
proof (cases "gp_IsInWorld pl \<and> ge_normalizePlayerName env name \<noteq> None")
  case False
  then show ?thesis using ok by (auto simp: HandleGroupInviteOpcode_def SendPartyResult_wp g_wp_basic intro!: wp_player [OF pl] split: option.split)
next
  case True
  then obtain nm where nm: "gp_IsInWorld pl" "ge_normalizePlayerName env name = Some nm" by auto
  note c = groups_okD(2) [OF ok]
  have inner: "g_wp (g_bind (g_player q) (\<lambda>player.
             case invite_refusal env p pl q player of
               Some res \<Rightarrow> SendPartyResult p PARTY_OP_INVITE nm res
             | None \<Rightarrow> g_bind (group_or_original pl) (\<lambda>grp. g_bind (group_or_original player) (\<lambda>grp2.
                 if grp2 \<noteq> None \<or> gp_groupInvite player \<noteq> None
                 then g_then (SendPartyResult p PARTY_OP_INVITE nm ERR_ALREADY_IN_GROUP_S)
                        (g_when (grp2 \<noteq> None) (g_emit [GSend q (invite_packet 0 (gp_name pl))]))
                 else g_bind (case grp of None \<Rightarrow> g_ret None
                              | Some a \<Rightarrow> g_bind (g_group a) (\<lambda>g.
                                  g_ret (if \<not> IsLeader p g \<and> \<not> IsAssistant p g then Some ERR_NOT_LEADER
                                         else if IsFull g then Some ERR_GROUP_FULL else None))) (\<lambda>bad.
                   case bad of
                     Some res \<Rightarrow> SendPartyResult p PARTY_OP_INVITE [] res
                   | None \<Rightarrow> g_bind (invite_into p q grp) (\<lambda>ok.
                       g_when ok (g_then (g_emit [GSend q (invite_packet 1 (gp_name pl))])
                         (SendPartyResult p PARTY_OP_INVITE nm ERR_PARTY_RESULT_OK)))))))) (\<lambda>_. groups_ok) w"
    if q: "q \<noteq> p" "gw_players w q = Some ql" for q ql
  proof (rule wp_player [OF q(2)], cases "invite_refusal env p pl q ql", goal_cases)
    case 1
    have inv: "g_wp (g_bind (invite_into p q (gp_group pl)) (\<lambda>ok. g_when ok (g_then (g_emit es) (SendPartyResult p op nm r)))) (\<lambda>_. groups_ok) w"
      if "gp_groupInvite ql = None" "gp_group ql = None" for es op r
    proof -
      have "g_wp (invite_into p q (gp_group pl)) (\<lambda>_. groups_ok) w"
      proof (cases "gp_group pl")
        case None
        then show ?thesis using invite_new_ok [OF ok pl q(2) that] q(1) by simp
      next
        case (Some a)
        then obtain g where g: "gw_groups w a = Some g" using player_facts(4) [OF c pl] by blast
        have "guids g \<noteq> []" using pair_facts(3) [OF c pl g] Some by auto
        then show ?thesis using invite_member_ok [OF ok g _ q(2)] Some by simp
      qed
      then show ?thesis by (intro wp_bind) (erule g_wp_mono, simp add: wp_rules SendPartyResult_wp)
    qed
    have bad: "g_wp (case gp_group pl of None \<Rightarrow> g_ret None
        | Some a \<Rightarrow> g_bind (g_group a) (\<lambda>g. g_ret (if \<not> IsLeader p g \<and> \<not> IsAssistant p g then Some ERR_NOT_LEADER
            else if IsFull g then Some ERR_GROUP_FULL else None))) (\<lambda>_ w'. w' = w) w"
      using player_facts(4) [OF c pl] by (cases "gp_group pl") (auto simp: wp_rules)
    show ?case
    proof (unfold 1 option.case, rule wp_bind, rule group_or_original_wp [OF c pl], rule wp_bind, rule group_or_original_wp [OF c q(2)],
        cases "gp_group ql \<noteq> None \<or> gp_groupInvite ql \<noteq> None", goal_cases)
      case 1
      then show ?case by (simp add: wp_rules SendPartyResult_wp ok)
    next
      case 2
      then have "gp_groupInvite ql = None" "gp_group ql = None" by auto
      note i = inv [OF this]
      show ?case
        unfolding if_not_P [OF 2]
        by (rule wp_bind, rule g_wp_mono [OF bad]) (auto simp: SendPartyResult_wp ok intro!: i split: option.split)
    qed
  next
    case (2 r)
    then show ?case using ok by (simp add: SendPartyResult_wp)
  qed
  have found: "q \<noteq> p \<and> (\<exists>ql. gw_players w q = Some ql)" if "FindGPlayerByName env w nm = Some q" for q
    using that other [OF nm(2)] by (auto simp: FindGPlayerByName_def FindGPlayer_def Let_def split: option.splits if_splits)
  show ?thesis
    unfolding HandleGroupInviteOpcode_def
  proof (rule wp_player [OF pl], simp only: nm simp_thms if_False option.case, rule wp_get, cases "FindGPlayerByName env w nm", goal_cases)
    case 1
    then show ?case using ok by (simp add: SendPartyResult_wp)
  next
    case (2 q)
    then obtain ql where "q \<noteq> p" "gw_players w q = Some ql" using found by blast
    then show ?case unfolding 2 option.case by (rule inner)
  qed
qed

section \<open>Accepting\<close>

text \<open>The members of a group in the order of their slots, its leader and its store id.\<close>

definition formed :: "group_world \<Rightarrow> nat \<Rightarrow> u64 list \<Rightarrow> u64 \<Rightarrow> u32 \<Rightarrow> bool" where
  "formed w a ms l i =
     (case gw_groups w a of None \<Rightarrow> False | Some g \<Rightarrow> guids g = ms \<and> m_leaderGuid g = l \<and> m_dbStoreId g = i)"

lemma formed_norm: "norm w' = norm w \<Longrightarrow> formed w a ms l i \<Longrightarrow> formed w' a ms l i"
proof -
  assume n: "norm w' = norm w" and "formed w a ms l i"
  then obtain g where g: "gw_groups w a = Some g" "guids g = ms" "m_leaderGuid g = l" "m_dbStoreId g = i" by (auto simp: formed_def split: option.splits)
  obtain h where "gw_groups w' a = Some h" "norm_group h = norm_group g" by (rule norm_group_Some [OF n g(1)])
  then show ?thesis using g norm_groupD [of h g] by (simp add: formed_def)
qed

lemma add_member_ok:
  assumes b: "base_ok w" and s: "shapes_but a w" and g: "gw_groups w a = Some g" "guids g \<noteq> []" "m_leaderGuid g \<in> set (guids g)"
    and room: "m_subGroupsCounts g \<noteq> None \<or> length (m_memberSlots g) < MAXGROUPSIZE"
    and pl: "gw_players w p = Some pl" "gp_groupInvite pl = None" "gp_group pl = None"
    and full: "pick_sub g = None \<Longrightarrow> groups_ok w"
  shows "g_wp (g_bind (AddMember env a p) (\<lambda>ok. g_when ok (BroadcastGroupUpdate a)))
    (\<lambda>_ w'. groups_ok w' \<and> (pick_sub g \<noteq> None \<longrightarrow> formed w' a (guids g @ [p]) (m_leaderGuid g) (m_dbStoreId g))) w"
proof (rule wp_bind, rule AddMember_wp [OF pl(1,3) g(1) core_okD(2) [OF base_okD(1) [OF b] g(1)]], goal_cases)
  case 1
  then show ?case using full by (simp add: wp_rules)
next
  case (2 sub v)
  have f: "fits g sub" using pick_sub_bounds(3) [OF core_okD(2) [OF base_okD(1) [OF b] g(1)] 2(1) room] .
  let ?v = "join a g sub p pl w"
  have bv: "base_ok ?v" by (rule base_ok_join [OF b g(1) pl f g(2)])
  have vg: "gw_groups ?v a = Some (join_group g sub p (gp_name pl))" by (simp add: join_def)
  have "1 \<le> length (m_memberSlots g)" using g(2) by (cases "m_memberSlots g") (simp_all add: guids_def)
  then have "shape_ok (join_group g sub p (gp_name pl))" using g(2,3) unfolding shape_ok_def by (auto simp del: lens simp flip: lens)
  moreover have "shapes_but a ?v" using s by (simp add: join_def)
  ultimately have "groups_ok ?v" using bv shapes_but(2) [OF _ vg] by (simp add: groups_ok_def)
  moreover have "formed ?v a (guids g @ [p]) (m_leaderGuid g) (m_dbStoreId g)" using vg by (simp add: formed_def)
  ultimately have "g_wp (BroadcastGroupUpdate a) (\<lambda>_ w'. groups_ok w' \<and> (pick_sub g \<noteq> None \<longrightarrow> formed w' a (guids g @ [p]) (m_leaderGuid g) (m_dbStoreId g))) v"
    using groups_ok_norm formed_norm by (intro wp_quiet [OF quiet_from_live(3) [OF base_ok_live [OF bv vg]] 2(2)]) blast
  then show ?case by (simp add: g_when_def)
qed

lemma not_full_room: "group_ok g \<Longrightarrow> \<not> IsFull g \<Longrightarrow> m_subGroupsCounts g \<noteq> None \<or> length (m_memberSlots g) < MAXGROUPSIZE"
  by (cases "isRaidGroup g") (auto simp: IsFull_def group_ok_def counts_ok_def counts_fit_def split: option.splits)

lemma IsCreated_guids: "group_ok g \<Longrightarrow> IsCreated g = (guids g \<noteq> [])"
  using members_count(2) [of g] by (auto simp: IsCreated_def word_less_nat_alt guids_def)

text \<open>The first member is accepted: the leader's own invitation ends, the group is created with him, and the member joins.\<close>

lemma first_accept_ok:
  assumes ok: "groups_ok w" and g: "gw_groups w a = Some g" "guids g = []" and m: "NextGroupId w < 0xFFFFFFFE"
    and pl: "gw_players w p = Some pl" "gp_groupInvite pl = None" "gp_group pl = None" and ne: "m_leaderGuid g \<noteq> p"
  shows "g_wp (g_then (g_then (RemoveInvite a (m_leaderGuid g))
        (g_then (g_bind (Group_Create env a (m_leaderGuid g)) (\<lambda>_. g_ret ())) (AddGroup a)))
      (g_bind (AddMember env a p) (\<lambda>ok. g_when ok (BroadcastGroupUpdate a)))) (\<lambda>_ w'. groups_ok w' \<and> formed w' a [m_leaderGuid g, p] (m_leaderGuid g) (NextGroupDbStoreId w)) w"
proof -
  note c = groups_okD(2) [OF ok]
  let ?l = "m_leaderGuid g"
  have sh: "?l \<in> set (m_invitees g)" "\<not> isRaidGroup g" using groups_okD(4) [OF ok g(1)] g(2) by (simp_all add: shape_ok_def)
  obtain ll where ll: "gw_players w ?l = Some ll" using invitees_online [OF c g(1) sh(1)] by blast
  have li: "gp_groupInvite ll = Some a" "gp_group ll = None"
    using pair_facts(1) [OF c ll g(1)] player_facts(5) [OF c ll] sh(1) by auto
  let ?u = "drop_invite a g ?l ll w" and ?gu = "g\<lparr>m_invitees := removeAll ?l (m_invitees g)\<rparr>" and ?lu = "ll\<lparr>gp_groupInvite := None\<rparr>"
  have bu: "base_ok ?u" by (rule base_ok_drop_invite [OF groups_okD(1) [OF ok] g(1) ll li(1)])
  have u: "gw_groups ?u a = Some ?gu" "gw_players ?u ?l = Some ?lu" "gw_players ?u p = Some pl" "NextGroupId ?u = NextGroupId w" "shapes_but a ?u"
    using ne pl shapes_but(1) [OF groups_okD(3) [OF ok]] by (simp_all add: drop_invite_def)
  have gu: "guids ?gu = []" "\<not> isRaidGroup ?gu" using g(2) sh(2) by (simp_all add: isRaidGroup_def)
  have n: "next_ok (GroupDbStore ?u) (NextGroupDbStoreId ?u) (NextGroupId ?u)" using base_okD(2) [OF bu] by (simp add: store_ok_def)
  let ?f = "found a ?gu ?l ?lu ?u"
  have bf: "base_ok ?f" by (rule base_ok_found [OF bu u(1) gu]) (use m u(2,4) li in simp_all)
  have sf: "shapes_but a ?f" using u(5) by (auto simp: shapes_but_def found_def enrol_def join_def)
  have second: "g_wp (g_bind (AddMember env a p) (\<lambda>ok. g_when ok (BroadcastGroupUpdate a))) (\<lambda>_ w'. groups_ok w' \<and> formed w' a [m_leaderGuid g, p] (m_leaderGuid g) (NextGroupDbStoreId w)) v" if nv: "norm v = norm ?f" for v
  proof -
    obtain h where h: "gw_groups v a = Some h" "norm_group h = norm_group (join_group (found_group ?gu ?l (NextGroupId ?u) (NextGroupDbStoreId ?u)) 0 ?l (gp_name ?lu))"
      by (rule norm_group_Some [OF nv, of a]) (simp_all add: found_def enrol_def join_def)
    note d = norm_groupD [OF h(2)]
    have gh: "guids h = [?l]" "m_leaderGuid h = ?l" "m_dbStoreId h = NextGroupDbStoreId w" using d(1,5,10) gu(1) by (simp_all add: drop_invite_def)
    have bv: "base_ok v" by (rule base_ok_norm [OF nv bf])
    have "\<not> isRaidGroup h" using d(6) gu(2) by simp
    then have nc: "m_subGroupsCounts h = None" by (rule not_raid_counts [OF core_okD(2) [OF base_okD(1) [OF bv] h(1)]])
    obtain ql where q: "gw_players v p = Some ql" "norm_player ql = norm_player pl"
      by (rule norm_player_Some [OF nv, of p]) (use u(3) ne in \<open>simp_all add: found_def enrol_def join_def\<close>)
    have "length (m_memberSlots h) = 1" using arg_cong [OF gh(1), of length] by simp
    then have "g_wp (g_bind (AddMember env a p) (\<lambda>ok. g_when ok (BroadcastGroupUpdate a)))
        (\<lambda>_ w'. groups_ok w' \<and> (pick_sub h \<noteq> None \<longrightarrow> formed w' a (guids h @ [p]) (m_leaderGuid h) (m_dbStoreId h))) v"
      using norm_playerD [OF q(2)] pl gh nc shapes_but_norm [OF nv sf]
      by (intro add_member_ok [OF bv _ h(1) _ _ _ q(1)]) (simp_all add: pick_sub_def)
    then show ?thesis by (rule g_wp_mono) (simp add: gh nc pick_sub_def)
  qed
  show ?thesis
    by (rule wp_then, rule wp_then, rule RemoveInvite_wp [OF g(1) ll], rule Group_Create_wp [OF u(2) _ u(1) core_okD(2) [OF base_okD(1) [OF bu] u(1)] gu(2)])
      (use li m u(4) n second in simp_all)
qed

lemma HandleGroupAcceptOpcode_ok:
  assumes ok: "groups_ok w" and pl: "gw_players w p = Some pl" and m: "NextGroupId w < 0xFFFFFFFE"
    and other: "\<And>a g. gp_groupInvite pl = Some a \<Longrightarrow> gw_groups w a = Some g \<Longrightarrow> m_leaderGuid g \<noteq> p"
  shows "g_wp (HandleGroupAcceptOpcode env p) (\<lambda>_ w'. groups_ok w' \<and> (\<forall>a g. gp_groupInvite pl = Some a \<longrightarrow> gw_groups w a = Some g \<longrightarrow>
      guids g = [] \<longrightarrow> formed w' a [m_leaderGuid g, p] (m_leaderGuid g) (NextGroupDbStoreId w))) w"
proof (cases "gp_groupInvite pl")
  case None
  then show ?thesis using ok pl by (simp add: HandleGroupAcceptOpcode_def wp_rules)
next
  case (Some a)
  obtain g where g: "gw_groups w a = Some g" using player_facts(6) [OF groups_okD(2) [OF ok] pl Some] by blast
  have ne: "m_leaderGuid g \<noteq> p" by (rule other [OF Some g])
  let ?Q = "\<lambda>_ w'. groups_ok w' \<and> (guids g = [] \<longrightarrow> formed w' a [m_leaderGuid g, p] (m_leaderGuid g) (NextGroupDbStoreId w))"
  let ?v = "drop_invite a g p pl w" and ?g = "g\<lparr>m_invitees := removeAll p (m_invitees g)\<rparr>"
  have okv: "groups_ok ?v" using groups_ok_drop [OF ok g pl Some] ne by simp
  have v: "gw_groups ?v a = Some ?g" "gw_players ?v p = Some (pl\<lparr>gp_groupInvite := None\<rparr>)" "NextGroupId ?v = NextGroupId w" by (simp_all add: drop_invite_def)
  have gn: "gp_group pl = None" by (rule player_facts(5) [OF groups_okD(2) [OF ok] pl Some])
  note go = core_okD(2) [OF groups_okD(2) [OF okv] v(1)]
  have body: "g_wp (if m_leaderGuid ?g = p then g_ret () else if IsFull ?g then SendPartyResult p PARTY_OP_INVITE [] ERR_GROUP_FULL
      else g_bind (g_get (\<lambda>w. FindGPlayer w (m_leaderGuid ?g))) (\<lambda>leader.
        if \<not> IsCreated ?g \<and> leader = None then RemoveAllInvites a
        else g_then (g_when (\<not> IsCreated ?g) (g_then (RemoveInvite a (m_leaderGuid ?g))
              (g_then (g_bind (Group_Create env a (m_leaderGuid ?g)) (\<lambda>_. g_ret ())) (AddGroup a))))
          (g_bind (AddMember env a p) (\<lambda>ok. g_when ok (BroadcastGroupUpdate a))))) ?Q ?v"
  proof (cases "IsFull ?g")
    case True
    then have "guids g \<noteq> []" using groups_okD(4) [OF ok g] by (auto simp: shape_ok_def IsFull_def isRaidGroup_def guids_def)
    then show ?thesis using True okv ne by (simp add: SendPartyResult_wp)
  next
    case False
    have lp: "m_leaderGuid ?g \<noteq> p" using ne by simp
    show ?thesis
      unfolding if_not_P [OF lp] if_not_P [OF False]
    proof (rule wp_get, cases "guids ?g = []")
      case True
      have nc: "\<not> IsCreated ?g" using IsCreated_guids [OF go] True by blast
      have "m_leaderGuid ?g \<in> set (m_invitees ?g)" using groups_okD(4) [OF okv v(1)] True unfolding shape_ok_def by simp
      then obtain ll where "gw_players ?v (m_leaderGuid ?g) = Some ll" using invitees_online [OF groups_okD(2) [OF okv] v(1)] by blast
      then have on: "FindGPlayer ?v (m_leaderGuid ?g) \<noteq> None" using player_facts(3) [OF groups_okD(2) [OF okv]] by simp
      then have nn: "\<not> (\<not> IsCreated ?g \<and> FindGPlayer ?v (m_leaderGuid ?g) = None)" by blast
      have w: "g_when (\<not> IsCreated ?g) M = M" for M using nc by (simp add: g_when_def)
      show "g_wp (if \<not> IsCreated ?g \<and> FindGPlayer ?v (m_leaderGuid ?g) = None then RemoveAllInvites a
        else g_then (g_when (\<not> IsCreated ?g) (g_then (RemoveInvite a (m_leaderGuid ?g))
              (g_then (g_bind (Group_Create env a (m_leaderGuid ?g)) (\<lambda>_. g_ret ())) (AddGroup a))))
          (g_bind (AddMember env a p) (\<lambda>ok. g_when ok (BroadcastGroupUpdate a)))) ?Q ?v"
        unfolding if_not_P [OF nn] w
        by (rule g_wp_mono [OF first_accept_ok [OF okv v(1) True _ v(2)]]) (use m v(3) gn lp in \<open>simp_all add: drop_invite_def\<close>)
    next
      case ne: False
      have cr: "IsCreated ?g" using IsCreated_guids [OF go] ne by blast
      have l: "m_leaderGuid ?g \<in> set (guids ?g)" using groups_okD(4) [OF okv v(1)] ne unfolding shape_ok_def by simp
      have "g_wp (g_bind (AddMember env a p) (\<lambda>ok. g_when ok (BroadcastGroupUpdate a))) ?Q ?v"
        using okv gn ne by (intro g_wp_mono [OF add_member_ok [OF groups_okD(1) [OF okv] shapes_but(1) [OF groups_okD(3) [OF okv]] v(1) ne l not_full_room [OF go False] v(2)]]) simp_all
      then show "g_wp (if \<not> IsCreated ?g \<and> FindGPlayer ?v (m_leaderGuid ?g) = None then RemoveAllInvites a
        else g_then (g_when (\<not> IsCreated ?g) (g_then (RemoveInvite a (m_leaderGuid ?g))
              (g_then (g_bind (Group_Create env a (m_leaderGuid ?g)) (\<lambda>_. g_ret ())) (AddGroup a))))
          (g_bind (AddMember env a p) (\<lambda>ok. g_when ok (BroadcastGroupUpdate a)))) ?Q ?v"
        using cr by (simp add: g_when_def g_wp_then g_wp_basic)
    qed
  qed
  have "g_wp (HandleGroupAcceptOpcode env p) ?Q w"
    unfolding HandleGroupAcceptOpcode_def using body
    by (intro wp_player [OF pl]) (simp only: Some option.case, rule wp_then, rule RemoveInvite_wp [OF g pl], rule wp_group [OF v(1)])
  then show ?thesis by (rule g_wp_mono) (simp add: Some g)
qed

section \<open>Logging in and out\<close>

text \<open>What the server writes to \<^verbatim>\<open>group_member\<close>: a player's row names the group he has a slot in.\<close>

definition row_ok :: "group_world \<Rightarrow> u64 \<Rightarrow> u32 option \<Rightarrow> bool" where
  "row_ok w p row = (\<forall>a\<in>set [0..<gw_fresh w].
     case gw_groups w a of None \<Rightarrow> True | Some g \<Rightarrow> p \<in> set (guids g) \<longleftrightarrow> guids g \<noteq> [] \<and> row = Some (m_dbStoreId g))"

lemma row_okD: "core_ok w \<Longrightarrow> row_ok w p row \<Longrightarrow> gw_groups w a = Some g \<Longrightarrow> p \<in> set (guids g) \<longleftrightarrow> guids g \<noteq> [] \<and> row = Some (m_dbStoreId g)"
  using core_okD(3) [of w a g] unfolding row_ok_def by (auto dest!: bspec [of _ _ a])

abbreviation fresh_player :: "gplayer \<Rightarrow> gplayer" where
  "fresh_player pl \<equiv> pl\<lparr>gp_group := None, gp_originalGroup := None, gp_groupInvite := None, gp_session := True\<rparr>"

lemma login_alone:
  assumes ok: "groups_ok w" and off: "gw_players w p = None" and no: "\<And>a g. gw_groups w a = Some g \<Longrightarrow> p \<notin> set (guids g)"
  shows "groups_ok (put_player p (fresh_player pl) w)"
proof -
  have "base_ok (w\<lparr>gw_players := (gw_players w)(p := Some (fresh_player pl))\<rparr>)"
    by (rule base_ok_set_player [OF groups_okD(1) [OF ok]])
      (use no offline_facts [OF groups_okD(2) [OF ok] off] in \<open>auto simp: pair_ok_def player_ok_def\<close>)
  then show ?thesis using groups_okD(3) [OF ok] by (simp add: groups_ok_def put_player_def shapes_ok_def)
qed

lemma login_member:
  assumes ok: "groups_ok w" and off: "gw_players w p = None" and g: "gw_groups w a = Some g" and s: "(p, sub) \<in> set (places g)"
    and ql: "ql = (fresh_player pl)\<lparr>gp_group := Some a, gp_subGroup := sub\<rparr>"
  shows "groups_ok (set_mgr a ((p, MGroup) # m_memberMgr g) g p (Some ql) w)"
proof -
  note c = groups_okD(2) [OF ok]
  have pg: "p \<in> set (guids g)" using s by (auto simp: places_def guids_def)
  note no = offline_facts [OF c off]
  have "base_ok (set_mgr a ((p, MGroup) # m_memberMgr g) g p (Some ql) w)"
  proof (rule base_ok_set_mgr [OF groups_okD(1) [OF ok] g])
    show "distinct ((p, MGroup) # m_memberMgr g)" using core_okD(2) [OF c g] no(2) [OF g] by (simp add: group_ok_def)
    show "pair_ok a (g\<lparr>m_memberMgr := (p, MGroup) # m_memberMgr g\<rparr>) p (Some ql)"
      using no [OF g] pg s by (auto simp: pair_ok_def ql)
    show "pair_ok b h p (Some ql)" if "b \<noteq> a" "gw_groups w b = Some h" for b h
    proof -
      have "p \<notin> set (guids h)" using core_okD(5) [OF c g that(2)] that(1) pg by blast
      then show ?thesis using no [OF that(2)] that(1) by (simp add: pair_ok_def ql)
    qed
    show "player_ok (dom (gw_groups w)) pl'" if "Some ql = Some pl'" for pl' using that g by (auto simp: player_ok_def ql)
  qed auto
  moreover have "shape_ok (g\<lparr>m_memberMgr := x\<rparr>)" for x using groups_okD(4) [OF ok g] by (simp add: shape_ok_def split: if_splits)
  ultimately show ?thesis using groups_okD(3) [OF ok] by (simp add: groups_ok_def set_mgr_def shapes_ok_def)
qed

lemma slot_place:
  assumes "group_ok g" and "p \<in> set (guids g)"
  shows "(p, GetMemberGroup p g) \<in> set (places g)" "unat (GetMemberGroup p g) < MAX_RAID_SUBGROUPS"
proof -
  obtain k where k: "getMemberSlot p (m_memberSlots g) = Some k" using assms(2) getMemberSlot_guids [of p g] by auto
  then have m: "k < length (m_memberSlots g)" "ms_guid (m_memberSlots g ! k) = p" "GetMemberGroup p g = ms_group (m_memberSlots g ! k)"
    using getMemberSlot_Some [OF k] by (simp_all add: GetMemberGroup_def)
  then show "(p, GetMemberGroup p g) \<in> set (places g)" unfolding set_places by (intro exI [of _ k]) simp
  show "unat (GetMemberGroup p g) < MAX_RAID_SUBGROUPS" using slots_small [OF assms(1), of "subs g ! k"] nth_mem [of k "subs g"] m by simp
qed

text \<open>The group of a player who logs in or out is told, and its enchanting level is computed again.\<close>

lemma announce_ok:
  assumes "groups_ok w" and "gw_players w p = Some pl"
  shows "g_wp (with_group p (\<lambda>a g. g_then (SendUpdate a) (ResetMaxEnchantingLevel a))) (\<lambda>_. groups_ok) w"
  by (rule with_group_wp [OF groups_okD(2) [OF assms(1)] assms(2)])
    (use assms(1) in \<open>auto intro!: quiet_ok quiet_from_then quiet_from_group\<close>)

lemma Login_ok:
  assumes ok: "groups_ok w" and off: "gw_players w p = None" and row: "row_ok w p row"
  shows "g_wp (Login row p pl) (\<lambda>_. groups_ok) w"
proof -
  let ?v = "put_player p (fresh_player pl) w" and ?R = "\<lambda>w'. groups_ok w' \<and> gw_players w' p \<noteq> None"
  have st: "GetGroupByDbStoreId ?v i = GetGroupByDbStoreId w i" for i by (simp add: GetGroupByDbStoreId_def)
  have alone: "groups_ok ?v" if "\<And>i. row = Some i \<Longrightarrow> GetGroupByDbStoreId w i = None"
  proof (rule login_alone [OF ok off])
    fix a g assume g: "gw_groups w a = Some g"
    show "p \<notin> set (guids g)"
    proof
      assume "p \<in> set (guids g)"
      then have "guids g \<noteq> []" "row = Some (m_dbStoreId g)" using row_okD [OF groups_okD(2) [OF ok] row g] by auto
      then show False using that base_ok_row [OF groups_okD(1) [OF ok] g] by (simp add: GetGroupByDbStoreId_def)
    qed
  qed
  have "g_wp (LoadGroup row p) (\<lambda>_. ?R) ?v"
  proof (cases row)
    case None
    then show ?thesis using alone by (simp add: LoadGroup_def wp_rules)
  next
    case (Some i)
    show ?thesis
    proof (cases "GetGroupByDbStoreId w i")
      case None
      then show ?thesis using alone Some by (simp add: LoadGroup_def wp_rules st)
    next
      case a: (Some a)
      have "unat i < length (GroupDbStore w)" "GroupDbStore w ! unat i = Some a" using a by (auto simp: GetGroupByDbStoreId_def split: if_splits)
      then obtain g where g: "gw_groups w a = Some g" "guids g \<noteq> []" "m_dbStoreId g = i"
        using base_okD(2) [OF groups_okD(1) [OF ok]] unfolding store_ok_def created_def by (metis word_unat_eq_iff)
      then have pg: "p \<in> set (guids g)" using row_okD [OF groups_okD(2) [OF ok] row g(1)] Some by simp
      note sp = slot_place [OF core_okD(2) [OF groups_okD(2) [OF ok] g(1)] pg]
      let ?q = "(fresh_player pl)\<lparr>gp_group := Some a, gp_subGroup := GetMemberGroup p g\<rparr>"
      let ?u = "put_player p ?q (put_group a (g\<lparr>m_memberMgr := (p, MGroup) # m_memberMgr g\<rparr>) ?v)"
      have "?u = set_mgr a ((p, MGroup) # m_memberMgr g) g p (Some ?q) w" by (simp add: set_mgr_def put_player_def put_group_def)
      then have oku: "groups_ok ?u" using login_member [OF ok off g(1) sp(1) refl, of pl] by simp
      have kept: "?R w'" if n: "norm w' = norm ?u" for w'
        by (rule norm_player_Some [OF n, of p ?q]) (simp_all add: groups_ok_norm [OF n oku])
      have "g_wp (set_player p (\<lambda>pl. if LEVELREQUIREMENT_HEROIC \<le> gp_level pl
          then pl\<lparr>gp_dungeonDifficulty := x, gp_raidDifficulty := y\<rparr> else pl)) (\<lambda>_. ?R) ?u" for x y
        by (rule wp_quiet [OF quiet_from_player(2) refl]) (simp, simp, erule kept)
      then have "g_wp (g_then (Player_SetGroup (Some (a, GetMemberGroup p g)) p) (set_player p (\<lambda>pl. if LEVELREQUIREMENT_HEROIC \<le> gp_level pl
          then pl\<lparr>gp_dungeonDifficulty := m_dungeonDifficulty g, gp_raidDifficulty := m_raidDifficulty g\<rparr> else pl))) (\<lambda>_. ?R) ?v"
        by (intro wp_then SetGroup_wp [where pl = "fresh_player pl" and g = g]) (use g sp(2) in simp_all)
      then show ?thesis
        using g(1) a unfolding LoadGroup_def Some option.case by (intro wp_get) (simp add: st g_wp_bind g_wp_pointers)
    qed
  qed
  then have "g_wp (g_then (LoadGroup row p) (with_group p (\<lambda>a g. g_then (SendUpdate a) (ResetMaxEnchantingLevel a)))) (\<lambda>_. groups_ok) ?v"
    by (intro wp_then) (erule g_wp_mono, auto intro: announce_ok)
  then show ?thesis by (simp add: Login_def wp_rules)
qed

lemma leave_world_ok:
  assumes ok: "groups_ok w" and pl: "gw_players w p = Some pl" "gp_groupInvite pl = None"
  shows "g_wp (g_then (unlink_ref MGroup p) (g_then (unlink_ref MOriginal p) (g_modify (\<lambda>w. w\<lparr>gw_players := (gw_players w)(p := None)\<rparr>)))) (\<lambda>_. groups_ok) w"
proof -
  note c = groups_okD(2) [OF ok]
  have orig: "gp_originalGroup pl = None" by (rule player_facts(2) [OF c pl(1)])
  show ?thesis
  proof (cases "gp_group pl")
    case None
    have "base_ok (w\<lparr>gw_players := (gw_players w)(p := None)\<rparr>)"
      by (rule base_ok_set_player [OF groups_okD(1) [OF ok]]) (use pair_facts [OF c pl(1)] pl(2) None in \<open>simp_all add: pair_ok_def\<close>)
    then have "groups_ok (w\<lparr>gw_players := (gw_players w)(p := None)\<rparr>)" using groups_okD(3) [OF ok] by (simp add: groups_ok_def shapes_ok_def)
    then show ?thesis by (simp add: unlink_ref_def wp_rules pl None orig)
  next
    case (Some a)
    obtain g where g: "gw_groups w a = Some g" using player_facts(4) [OF c pl(1) Some] by blast
    note pf = pair_facts [OF c pl(1)]
    have d: "distinct (m_memberMgr g)" using core_okD(2) [OF c g] by (simp add: group_ok_def)
    have b: "base_ok (set_mgr a (remove1 (p, MGroup) (m_memberMgr g)) g p None w)"
      by (rule base_ok_set_mgr [OF groups_okD(1) [OF ok] g])
        (use pf pf(2) [OF g] g pl(2) Some d in \<open>auto simp: pair_ok_def set_remove1_eq\<close>)
    have "shape_ok (g\<lparr>m_memberMgr := x\<rparr>)" for x using groups_okD(4) [OF ok g] by (simp add: shape_ok_def split: if_splits)
    then have "groups_ok (set_mgr a (remove1 (p, MGroup) (m_memberMgr g)) g p None w)"
      using b groups_okD(3) [OF ok] by (simp add: groups_ok_def set_mgr_def shapes_ok_def)
    moreover have e: "(put_player p q (put_group a h w))\<lparr>gw_players := (gw_players w)(p := None)\<rparr> =
        put_group a h (w\<lparr>gw_players := (gw_players w)(p := None)\<rparr>)" for q h
      by (simp add: put_player_def put_group_def)
    ultimately show ?thesis by (simp add: unlink_ref_def wp_rules pl Some orig g set_mgr_def e)
  qed
qed

lemma tame_player:
  assumes "tame w w'" and "gw_players w p = Some pl" "gp_groupInvite pl = None"
  obtains ql where "gw_players w' p = Some ql" and "gp_groupInvite ql = None"
  using assms(1) [unfolded tame_def, rule_format, of p] assms(2,3) by (auto split: option.splits)

lemma LogoutPlayer_ok:
  assumes ok: "groups_ok w" and pl: "gw_players w p = Some pl"
  shows "g_wp (LogoutPlayer env socket p) (\<lambda>_. groups_ok) w"
proof -
  have last: "g_wp (g_then (with_group p (\<lambda>a g. g_then (SendUpdate a) (ResetMaxEnchantingLevel a))) (g_then (unlink_ref MGroup p)
      (g_then (unlink_ref MOriginal p) (g_modify (\<lambda>w. w\<lparr>gw_players := (gw_players w)(p := None)\<rparr>))))) (\<lambda>_. groups_ok) u"
    if u: "groups_ok u" "gw_players u p = Some ql" "gp_groupInvite ql = None" for u ql
  proof (rule wp_then, rule with_group_wp [OF groups_okD(2) [OF u(1)] u(2)], goal_cases)
    case 1
    show ?case by (rule leave_world_ok [OF u])
  next
    case (2 a g)
    have "quiet_from u (g_then (SendUpdate a) (ResetMaxEnchantingLevel a))" by (intro quiet_from_then quiet_from_group [OF 2(2)])
    then show ?case
    proof (rule wp_quiet [OF _ refl])
      fix w' assume n: "norm w' = norm u"
      obtain q where q: "gw_players w' p = Some q" "norm_player q = norm_player ql" by (rule norm_player_Some [OF n u(2)])
      show "g_wp (g_then (unlink_ref MGroup p) (g_then (unlink_ref MOriginal p) (g_modify (\<lambda>w. w\<lparr>gw_players := (gw_players w)(p := None)\<rparr>)))) (\<lambda>_. groups_ok) w'"
        using norm_playerD(5) [OF q(2)] u(3) by (intro leave_world_ok [OF groups_ok_norm [OF n u(1)] q(1)]) simp
    qed
  qed
  have mid: "g_wp (g_then (with_group p (\<lambda>a g. g_when (\<not> isRaidGroup g \<and> socket) (Player_RemoveFromGroup env (Some a) p False)))
      (g_then (with_group p (\<lambda>a g. g_then (SendUpdate a) (ResetMaxEnchantingLevel a))) (g_then (unlink_ref MGroup p)
      (g_then (unlink_ref MOriginal p) (g_modify (\<lambda>w. w\<lparr>gw_players := (gw_players w)(p := None)\<rparr>)))))) (\<lambda>_. groups_ok) u"
    if u: "groups_ok u" "gw_players u p = Some ql" "gp_groupInvite ql = None" for u ql
  proof (rule wp_then, rule with_group_wp [OF groups_okD(2) [OF u(1)] u(2)], goal_cases)
    case 1
    show ?case by (rule last [OF u])
  next
    case (2 a g)
    have "g_wp (Player_RemoveFromGroup env (Some a) p False) (\<lambda>_. g_wp (g_then (with_group p (\<lambda>a g. g_then (SendUpdate a) (ResetMaxEnchantingLevel a)))
        (g_then (unlink_ref MGroup p) (g_then (unlink_ref MOriginal p) (g_modify (\<lambda>w. w\<lparr>gw_players := (gw_players w)(p := None)\<rparr>)))) ) (\<lambda>_. groups_ok)) u"
      by (rule g_wp_mono [OF Player_RemoveFromGroup_ok [OF u(1) 2(2,3)]]) (auto simp: good_def elim!: tame_player [OF _ u(2,3)] intro: last)
    then show ?case using last [OF u] by (intro wp_when) simp_all
  qed
  show ?thesis
    unfolding LogoutPlayer_def
    by (rule wp_then, rule g_wp_mono [OF Player_UninviteFromGroup_ok [OF ok pl]]) (auto simp: good_def intro: mid)
qed

end
