(* ===== verification/Group_Properties.thy ===== *)
theory Group_Properties
  imports Group_Safety
begin

text \<open>
  The requests that reach the groups, the states they lead to, and what holds there; then the behaviour of single operations:
  accepting, store ids, looters, icons, and what becomes of an invitation to oneself.
\<close>

section \<open>Requests\<close>

datatype group_request =
    ReqInvite u64 string
  | ReqAccept u64
  | ReqDecline u64
  | ReqUninviteGuid u64 u64
  | ReqUninvite u64 string
  | ReqSetLeader u64 u64
  | ReqLeave u64
  | ReqLootMethod u64 u32 u64 u32
  | ReqTargetIcon u64 u8 u64
  | ReqRaidConvert u64
  | ReqChangeSubGroup u64 string u8
  | ReqAssistant u64 u64 bool
  | ReqPartyAssignment u64 u8 bool u64
  | ReqReadyCheck u64 "u8 option"
  | ReqLogin "u32 option" u64 gplayer
  | ReqLogout bool u64
  | ReqLooter "u64 \<Rightarrow> bool" nat bool
  | ReqDifficulty bool nat u8

fun run_request :: "group_env \<Rightarrow> group_request \<Rightarrow> unit gm" where
  "run_request env (ReqInvite p name) = HandleGroupInviteOpcode env p name"
| "run_request env (ReqAccept p) = HandleGroupAcceptOpcode env p"
| "run_request env (ReqDecline p) = HandleGroupDeclineOpcode env p"
| "run_request env (ReqUninviteGuid p guid) = HandleGroupUninviteGuidOpcode env p guid"
| "run_request env (ReqUninvite p name) = HandleGroupUninviteOpcode env p name"
| "run_request env (ReqSetLeader p guid) = HandleGroupSetLeaderOpcode p guid"
| "run_request env (ReqLeave p) = HandleGroupDisbandOpcode env p"
| "run_request env (ReqLootMethod p m l t) = HandleLootMethodOpcode p m l t"
| "run_request env (ReqTargetIcon p x guid) = HandleRaidTargetUpdateOpcode p x guid"
| "run_request env (ReqRaidConvert p) = HandleGroupRaidConvertOpcode p"
| "run_request env (ReqChangeSubGroup p name nr) = HandleGroupChangeSubGroupOpcode env p name nr"
| "run_request env (ReqAssistant p guid b) = HandleGroupAssistantLeaderOpcode p guid b"
| "run_request env (ReqPartyAssignment p asg b guid) = HandlePartyAssignmentOpcode p asg b guid"
| "run_request env (ReqReadyCheck p st) = HandleRaidReadyCheckOpcode p st"
| "run_request env (ReqLogin row p pl) = Login row p pl"
| "run_request env (ReqLogout socket p) = LogoutPlayer env socket p"
| "run_request env (ReqLooter near a b) = UpdateLooterGuid near a b"
| "run_request env (ReqDifficulty raid a d) = SetGroupDifficulty raid a d"

text \<open>
  When a request can come: an opcode comes from a player who is online; a player who logs in is not, and his row in the
  database is the one the server wrote; the calls from other parts of the server name a group that exists.  The two conditions on the
  client: nobody invites himself, and nobody accepts the invitation to a group he leads.  Accepting may use up a group guid.
\<close>

fun honest :: "group_env \<Rightarrow> group_world \<Rightarrow> group_request \<Rightarrow> bool" where
  "honest env w (ReqInvite p name) \<longleftrightarrow> gw_players w p \<noteq> None \<and>
     (case ge_normalizePlayerName env name of None \<Rightarrow> True | Some nm \<Rightarrow> ge_GetPlayerGUIDByName env nm \<noteq> p)"
| "honest env w (ReqAccept p) \<longleftrightarrow> NextGroupId w < 0xFFFFFFFE \<and>
     (case gw_players w p of None \<Rightarrow> False
      | Some pl \<Rightarrow> (case gp_groupInvite pl of None \<Rightarrow> True
         | Some a \<Rightarrow> (case gw_groups w a of None \<Rightarrow> True | Some g \<Rightarrow> m_leaderGuid g \<noteq> p)))"
| "honest env w (ReqDecline p) \<longleftrightarrow> gw_players w p \<noteq> None"
| "honest env w (ReqUninviteGuid p guid) \<longleftrightarrow> gw_players w p \<noteq> None"
| "honest env w (ReqUninvite p name) \<longleftrightarrow> gw_players w p \<noteq> None"
| "honest env w (ReqSetLeader p guid) \<longleftrightarrow> gw_players w p \<noteq> None"
| "honest env w (ReqLeave p) \<longleftrightarrow> gw_players w p \<noteq> None"
| "honest env w (ReqLootMethod p m l t) \<longleftrightarrow> gw_players w p \<noteq> None"
| "honest env w (ReqTargetIcon p x guid) \<longleftrightarrow> gw_players w p \<noteq> None"
| "honest env w (ReqRaidConvert p) \<longleftrightarrow> gw_players w p \<noteq> None"
| "honest env w (ReqChangeSubGroup p name nr) \<longleftrightarrow> gw_players w p \<noteq> None"
| "honest env w (ReqAssistant p guid b) \<longleftrightarrow> gw_players w p \<noteq> None"
| "honest env w (ReqPartyAssignment p asg b guid) \<longleftrightarrow> gw_players w p \<noteq> None"
| "honest env w (ReqReadyCheck p st) \<longleftrightarrow> gw_players w p \<noteq> None"
| "honest env w (ReqLogin row p pl) \<longleftrightarrow> gw_players w p = None \<and> row_ok w p row"
| "honest env w (ReqLogout socket p) \<longleftrightarrow> gw_players w p \<noteq> None"
| "honest env w (ReqLooter near a b) \<longleftrightarrow> gw_groups w a \<noteq> None"
| "honest env w (ReqDifficulty raid a d) \<longleftrightarrow> gw_groups w a \<noteq> None"

text \<open>The server starts with no players and no groups.\<close>

definition no_groups :: group_world where
  "no_groups = \<lparr>gw_groups = Map.empty, gw_fresh = 0, gw_players = Map.empty, NextGroupDbStoreId = 1, NextGroupId = 1,
     GroupDbStore = [], GroupStore = Map.empty\<rparr>"

inductive group_reachable :: "group_world \<Rightarrow> bool" where
  start: "group_reachable no_groups"
| request: "group_reachable w \<Longrightarrow> honest env w r \<Longrightarrow> run_request env r w = Inr ((), w', es) \<Longrightarrow> group_reachable w'"

lemma groups_ok_start: "groups_ok no_groups"
  by (simp add: groups_ok_def base_ok_def core_ok_def shapes_ok_def slots_unique_def store_ok_def created_def next_ok_def no_groups_def)

lemma request_ok:
  assumes ok: "groups_ok w" and h: "honest env w r"
  shows "g_wp (run_request env r) (\<lambda>_. groups_ok) w"
proof (cases r)
  case (ReqAccept p)
  then obtain pl where pl: "gw_players w p = Some pl" "NextGroupId w < 0xFFFFFFFE" using h by (auto split: option.splits)
  have ne: "m_leaderGuid g \<noteq> p" if "gp_groupInvite pl = Some a" "gw_groups w a = Some g" for a g
    using h ReqAccept pl that by simp
  show ?thesis unfolding ReqAccept run_request.simps by (rule g_wp_mono [OF HandleGroupAcceptOpcode_ok [OF ok pl ne]]) simp_all
next
  case (ReqInvite p name)
  then obtain pl where pl: "gw_players w p = Some pl" using h by auto
  have "ge_GetPlayerGUIDByName env nm \<noteq> p" if "ge_normalizePlayerName env name = Some nm" for nm using h that ReqInvite by simp
  then show ?thesis using HandleGroupInviteOpcode_ok [OF ok pl] by (simp add: ReqInvite)
next
  case (ReqLooter near a b)
  then show ?thesis using h by (auto intro: quiet_ok [OF ok] quiet_from_flags)
next
  case (ReqDifficulty raid a d)
  then obtain g where "gw_groups w a = Some g" using h by auto
  then have "live a w" by (rule base_ok_live [OF groups_okD(1) [OF ok]])
  then have "quiet_from w (SetGroupDifficulty raid a d)"
    unfolding quiet_from_def by (blast intro: quiet_SetGroupDifficulty live_norm)
  then show ?thesis using ReqDifficulty by (simp add: quiet_ok [OF ok])
qed (use h ok in \<open>auto intro: HandleGroupDeclineOpcode_ok uninvite_opcodes_ok HandleGroupSetLeaderOpcode_ok HandleGroupDisbandOpcode_ok
    quiet_handlers_ok HandleGroupRaidConvertOpcode_ok HandleGroupChangeSubGroupOpcode_ok Login_ok LogoutPlayer_ok\<close>)

lemma g_wp_iff: "g_wp m Q w \<longleftrightarrow> (\<exists>x w' es. m w = Inr (x, w', es) \<and> Q x w')"
  by (auto simp: g_wp_def split: sum.split)

lemma group_reachable_ok: "group_reachable w \<Longrightarrow> groups_ok w"
proof (induction rule: group_reachable.induct)
  case (request w env r w' es)
  then show ?case using request_ok [of w env r] by (auto simp: g_wp_iff)
qed (rule groups_ok_start)

section \<open>A small history\<close>

definition demo_env :: group_env where
  "demo_env = \<lparr>ge_allow_gm_group = False, ge_two_side_group = False, ge_normalizePlayerName = Some, ge_EscapeString = (\<lambda>s. s),
     ge_GetPlayerGUIDByName = (\<lambda>n. if n = ''Ann'' then 1 else if n = ''Bob'' then 2 else 0), ge_HasIgnore = (\<lambda>_ _. False),
     ge_IsDungeon = (\<lambda>_. False), ge_in_bound_instance = (\<lambda>_ _. False)\<rparr>"

definition demo_player :: "string \<Rightarrow> gplayer" where
  "demo_player name = \<lparr>gp_name = name, gp_session = True, gp_IsInWorld = True, gp_group = None, gp_subGroup = 0,
     gp_originalGroup = None, gp_originalSubGroup = 0, gp_groupInvite = None, gp_team = 469, gp_gm_tag = False, gp_mapId = 0, gp_instanceId = 0,
     gp_dungeonDifficulty = 0, gp_raidDifficulty = 0, gp_level = 80, gp_enchanting = 0, gp_inBattleground = False, gp_InstanceValid = True\<rparr>"

definition next_world :: "group_request \<Rightarrow> group_world \<Rightarrow> group_world" where
  "next_world r w = fst (snd (projr (run_request demo_env r w)))"

text \<open>Ann and Bob are online.\<close>

definition demo_online :: group_world where
  "demo_online = put_player 2 (demo_player ''Bob'') (put_player 1 (demo_player ''Ann'') no_groups)"

text \<open>Ann has invited Bob; Bob has accepted.\<close>

definition demo_invited :: group_world where
  "demo_invited = next_world (ReqInvite 1 ''Bob'') demo_online"

definition demo_group :: group_world where
  "demo_group = next_world (ReqAccept 2) demo_invited"

lemma next_reachable: "group_reachable w \<Longrightarrow> honest demo_env w r \<Longrightarrow> group_reachable (next_world r w)"
  using request_ok [OF group_reachable_ok, of w demo_env r]
  by (auto simp: g_wp_iff next_world_def intro: group_reachable.request)

lemma demo_online_reachable: "group_reachable demo_online"
proof -
  have e: "fresh_player (demo_player n) = demo_player n" for n by (simp add: demo_player_def)
  have log: "run_request env (ReqLogin None p (demo_player n)) w = Inr ((), put_player p (demo_player n) w, [])" for env p n w
    by (simp add: Login_def LoadGroup_def with_group_def g_then_def g_bind_def g_modify_def g_ret_def g_player_def e)
      (simp add: demo_player_def g_ret_def)
  have 1: "group_reachable (put_player 1 (demo_player ''Ann'') no_groups)"
    by (rule group_reachable.request [OF group_reachable.start _ log, of demo_env]) (simp add: no_groups_def row_ok_def)
  show ?thesis
    unfolding demo_online_def
    by (rule group_reachable.request [OF 1 _ log, of demo_env]) (simp add: no_groups_def row_ok_def)
qed

lemma demo_invited_reachable: "group_reachable demo_invited"
  unfolding demo_invited_def
  by (rule next_reachable [OF demo_online_reachable]) (simp add: demo_online_def demo_env_def)

lemma demo_invited_check:
  "(case (gw_players demo_invited 2, gw_groups demo_invited 0) of
      (Some pl, Some g) \<Rightarrow> gp_groupInvite pl = Some 0 \<and> guids g = [] \<and> m_leaderGuid g = 1
    | _ \<Rightarrow> False) \<and> NextGroupDbStoreId demo_invited = 1 \<and> NextGroupId demo_invited = 1"
  by code_simp

lemma demo_invited_facts:
  obtains pl g where "gw_players demo_invited 2 = Some pl" "gp_groupInvite pl = Some 0"
    "gw_groups demo_invited 0 = Some g" "guids g = []" "m_leaderGuid g = 1" "NextGroupDbStoreId demo_invited = 1" "NextGroupId demo_invited = 1"
  using demo_invited_check by (auto split: option.splits)

lemma demo_invited_honest: "honest demo_env demo_invited (ReqAccept 2)"
  by (rule demo_invited_facts) simp

lemma demo_group_reachable: "group_reachable demo_group"
  unfolding demo_group_def by (rule next_reachable [OF demo_invited_reachable demo_invited_honest])

lemma demo_formed: "formed demo_group 0 [1, 2] 1 1"
proof (rule demo_invited_facts)
  fix pl g assume a: "gw_players demo_invited 2 = Some pl" "gp_groupInvite pl = Some 0" "gw_groups demo_invited 0 = Some g" "guids g = []"
    "m_leaderGuid g = 1" "NextGroupDbStoreId demo_invited = 1" "NextGroupId demo_invited = 1"
  then have "g_wp (HandleGroupAcceptOpcode demo_env 2) (\<lambda>_ w'. groups_ok w' \<and> (\<forall>a g. gp_groupInvite pl = Some a \<longrightarrow> gw_groups demo_invited a = Some g \<longrightarrow>
      guids g = [] \<longrightarrow> formed w' a [m_leaderGuid g, 2] (m_leaderGuid g) (NextGroupDbStoreId demo_invited))) demo_invited"
    by (intro HandleGroupAcceptOpcode_ok group_reachable_ok demo_invited_reachable) simp_all
  then show ?thesis using a by (auto simp: g_wp_iff demo_group_def next_world_def)
qed

section \<open>Properties of the states\<close>

text \<open>
  C1. In every state that a server without groups reaches by \<^emph>\<open>honest\<close> requests, groups, players and the group manager agree: the counters of the sub groups are exact, slots,
  references and invitations of the groups are those that the players' pointers say, every group has at least two members with the
  leader among them or is still waiting for its first member, and the manager's tables hold exactly the groups with members.
  A request is honest (\<^const>\<open>honest\<close>) when an opcode comes from a player who is online, a player logs in who is not and with the
  group row that the server wrote, a call from another part of the server names a live group, the counter of group guids is not
  used up, and the player neither invites himself nor accepts the invitation to a group that he leads.  The handlers do not refuse
  those last two requests, and the invariant does not survive them; what a self invitation leads to is shown below.
\<close>

theorem group_state_invariant: "group_reachable w \<Longrightarrow> groups_ok w"
  by (rule group_reachable_ok)

theorem group_state_invariant_witness: "groups_ok demo_group \<and> formed demo_group 0 [1, 2] 1 1"
proof
  show "groups_ok demo_group" by (rule group_state_invariant [OF demo_group_reachable])
  show "formed demo_group 0 [1, 2] 1 1" by (rule demo_formed)
qed

text \<open>
  C2. No honest request fails in a state that honest requests have led to: the handlers, logging in and logging out never follow a pointer to a deleted group or player,
  never use a sub group or store id out of range, and never run into an assertion; and the state they leave is again such a state.
  The condition is needed: a player who invites himself twice and then answers makes the handler follow a pointer to a deleted
  group (shown below); such requests are not honest.
\<close>

theorem group_requests_never_fail:
  assumes "group_reachable w" and "honest env w r"
  shows "\<exists>w' es. run_request env r w = Inr ((), w', es) \<and> group_reachable w'"
  using request_ok [OF group_reachable_ok [OF assms(1)] assms(2)] group_reachable.request [OF assms] by (auto simp: g_wp_iff)

theorem group_requests_never_fail_witness:
  "honest demo_env demo_invited (ReqAccept 2) \<and> (\<exists>w' es. run_request demo_env (ReqAccept 2) demo_invited = Inr ((), w', es) \<and> group_reachable w')"
  using group_requests_never_fail [OF demo_invited_reachable demo_invited_honest] demo_invited_honest by (rule conjI [rotated])

text \<open>
  C22. In the states that honest requests lead to, a group has at most five members, a raid at most forty; each of the eight counters of a raid is the number of members whose
  slot is in that sub group, and is at most five.
\<close>

theorem group_sizes:
  assumes "group_reachable w" and "gw_groups w a = Some g"
  shows "length (m_memberSlots g) \<le> (if isRaidGroup g then MAXRAIDSIZE else MAXGROUPSIZE) \<and>
    (case m_subGroupsCounts g of
       None \<Rightarrow> \<not> isRaidGroup g
     | Some cs \<Rightarrow> isRaidGroup g \<and> length cs = MAX_RAID_SUBGROUPS \<and>
         (\<forall>i<MAX_RAID_SUBGROUPS. unat (cs ! i) = length (filter (\<lambda>m. unat (ms_group m) = i) (m_memberSlots g)) \<and> unat (cs ! i) \<le> MAXGROUPSIZE))"
proof -
  have c: "counts_fit (isRaidGroup g) (m_subGroupsCounts g) (subs g)"
    using core_okD(2) [OF groups_okD(2) [OF group_reachable_ok [OF assms(1)]] assms(2)] by (simp add: group_ok_def counts_ok_def)
  have "slot_count i (subs g) = length (filter (\<lambda>m. unat (ms_group m) = i) (m_memberSlots g))" for i
    by (simp add: slot_count_def subs_def filter_map comp_def)
  then show ?thesis using c counts_fit_length [OF c] by (cases "m_subGroupsCounts g") (auto simp: counts_fit_def)
qed

theorem group_sizes_witness:
  "\<exists>g. gw_groups demo_group 0 = Some g \<and> length (m_memberSlots g) = 2 \<and>
     length (m_memberSlots g) \<le> (if isRaidGroup g then MAXRAIDSIZE else MAXGROUPSIZE)"
proof -
  obtain g where g: "gw_groups demo_group 0 = Some g" "guids g = [1, 2]" using demo_formed by (auto simp: formed_def split: option.splits)
  have "length (m_memberSlots g) = 2" using arg_cong [OF g(2), of length] by simp
  moreover have "length (m_memberSlots g) \<le> (if isRaidGroup g then MAXRAIDSIZE else MAXGROUPSIZE)"
    using group_sizes [OF demo_group_reachable g(1)] by (rule conjunct1)
  ultimately show ?thesis using g(1) by blast
qed

text \<open>
  C23. The pointers of a player who is online, in the states that honest requests lead to (nobody has invited himself or accepted the
  invitation to a group he leads): he points to a group exactly when the group is alive and has a slot for him, he has an invitation to a
  group exactly when it is alive and has him among its invitees, and never both; and nobody, online or not, has slots in two groups.
\<close>

theorem group_pointers:
  assumes "group_reachable w"
  shows "(\<forall>pl. gw_players w p = Some pl \<longrightarrow>
      (\<forall>a. gp_group pl = Some a \<longleftrightarrow> (\<exists>g. gw_groups w a = Some g \<and> IsMember p g)) \<and>
      (\<forall>a. gp_groupInvite pl = Some a \<longleftrightarrow> (\<exists>g. gw_groups w a = Some g \<and> p \<in> set (m_invitees g))) \<and>
      (gp_group pl = None \<or> gp_groupInvite pl = None)) \<and>
    (\<forall>a b g h. gw_groups w a = Some g \<longrightarrow> gw_groups w b = Some h \<longrightarrow> IsMember p g \<longrightarrow> IsMember p h \<longrightarrow> a = b)"
proof -
  note c = groups_okD(2) [OF group_reachable_ok [OF assms]]
  have m: "IsMember p g \<longleftrightarrow> p \<in> set (guids g)" for g by (simp add: IsMember_def getMemberSlot_guids)
  have player: "gp_group pl = Some a \<longleftrightarrow> (\<exists>g. gw_groups w a = Some g \<and> IsMember p g)"
    "gp_groupInvite pl = Some a \<longleftrightarrow> (\<exists>g. gw_groups w a = Some g \<and> p \<in> set (m_invitees g))"
    "gp_group pl = None \<or> gp_groupInvite pl = None" if pl: "gw_players w p = Some pl" for pl a
  proof -
    show "gp_group pl = Some a \<longleftrightarrow> (\<exists>g. gw_groups w a = Some g \<and> IsMember p g)"
      using pair_facts(3) [OF c pl] player_facts(4) [OF c pl, of a] unfolding m by auto
    show "gp_groupInvite pl = Some a \<longleftrightarrow> (\<exists>g. gw_groups w a = Some g \<and> p \<in> set (m_invitees g))"
      using pair_facts(1) [OF c pl] player_facts(6) [OF c pl, of a] by auto
    show "gp_group pl = None \<or> gp_groupInvite pl = None" using player_facts(5) [OF c pl] by (cases "gp_groupInvite pl") auto
  qed
  have one: "a = b" if "gw_groups w a = Some g" "gw_groups w b = Some h" "IsMember p g" "IsMember p h" for a b g h
    using core_okD(5) [OF c that(1,2)] that(3,4) m by blast
  show ?thesis by (intro conjI allI impI) (use player one in auto)
qed

theorem group_pointers_witness:
  "\<exists>pl. gw_players demo_invited 2 = Some pl \<and> gp_groupInvite pl = Some 0 \<and> gp_group pl = None"
proof (rule demo_invited_facts)
  fix pl assume pl: "gw_players demo_invited 2 = Some pl" "gp_groupInvite pl = Some 0"
  show ?thesis using group_pointers [OF demo_invited_reachable, of 2] pl by simp
qed

section \<open>Properties of operations\<close>

text \<open>
  C24. In a state that honest requests have led to, with the counter of group guids not used up, the first invitation that is
  accepted, by a player who is not the leader, makes the group: its members are the leader and the player who accepted, in this order, the
  leader stays the leader, and the manager finds the group under the store id that was the next one.
\<close>

theorem accept_forms_group:
  assumes "group_reachable w" and "NextGroupId w < 0xFFFFFFFE" and "gw_players w p = Some pl" and "gp_groupInvite pl = Some a"
    and "gw_groups w a = Some g" and "\<not> IsCreated g" and "m_leaderGuid g \<noteq> p"
  shows "\<exists>w' es. HandleGroupAcceptOpcode env p w = Inr ((), w', es) \<and> formed w' a [m_leaderGuid g, p] (m_leaderGuid g) (NextGroupDbStoreId w) \<and>
    GetGroupByDbStoreId w' (NextGroupDbStoreId w) = Some a"
proof -
  have ok: "groups_ok w" by (rule group_reachable_ok [OF assms(1)])
  have ne: "m_leaderGuid h \<noteq> p" if "gp_groupInvite pl = Some b" "gw_groups w b = Some h" for b h using that assms by simp
  have e: "guids g = []" using IsCreated_guids [OF core_okD(2) [OF groups_okD(2) [OF ok] assms(5)]] assms(6) by blast
  have "g_wp (HandleGroupAcceptOpcode env p) (\<lambda>_ w'. groups_ok w' \<and> (\<forall>a g. gp_groupInvite pl = Some a \<longrightarrow> gw_groups w a = Some g \<longrightarrow>
      guids g = [] \<longrightarrow> formed w' a [m_leaderGuid g, p] (m_leaderGuid g) (NextGroupDbStoreId w))) w"
    by (rule HandleGroupAcceptOpcode_ok [OF ok assms(3,2)]) (rule ne)
  then obtain w' es where r: "HandleGroupAcceptOpcode env p w = Inr ((), w', es)" "groups_ok w'"
    "formed w' a [m_leaderGuid g, p] (m_leaderGuid g) (NextGroupDbStoreId w)"
    using assms(4,5) e by (auto simp: g_wp_iff)
  obtain h where h: "gw_groups w' a = Some h" "guids h \<noteq> []" "m_dbStoreId h = NextGroupDbStoreId w"
    using r(3) by (auto simp: formed_def split: option.splits)
  have "GetGroupByDbStoreId w' (NextGroupDbStoreId w) = Some a"
    using base_ok_row [OF groups_okD(1) [OF r(2)] h(1,2)] h(3) by (simp add: GetGroupByDbStoreId_def)
  then show ?thesis using r by blast
qed

theorem accept_forms_group_witness:
  "\<exists>w' es. HandleGroupAcceptOpcode demo_env 2 demo_invited = Inr ((), w', es) \<and> formed w' 0 [1, 2] 1 1 \<and> GetGroupByDbStoreId w' 1 = Some 0"
proof (rule demo_invited_facts)
  fix pl g assume a: "gw_players demo_invited 2 = Some pl" "gp_groupInvite pl = Some 0" "gw_groups demo_invited 0 = Some g" "guids g = []"
    "m_leaderGuid g = 1" "NextGroupDbStoreId demo_invited = 1" "NextGroupId demo_invited = 1"
  have "\<not> IsCreated g" using a(4) by (simp add: IsCreated_def GetMembersCount_def guids_def)
  then show ?thesis using accept_forms_group [OF demo_invited_reachable _ a(1,2,3), where env = demo_env] a(5-) by simp
qed

text \<open>
  The id under which a new group is stored: it is the least positive number that no group uses.
\<close>

theorem store_id_least_free:
  assumes "group_reachable w" and "NextGroupId w < 0xFFFFFFFE"
  shows "\<exists>i w' es. GenerateNewGroupDbStoreId w = Inr (i, w', es) \<and> 0 < i \<and>
    (\<forall>a g. gw_groups w a = Some g \<longrightarrow> IsCreated g \<longrightarrow> m_dbStoreId g \<noteq> i) \<and>
    (\<forall>j. 0 < j \<longrightarrow> j < i \<longrightarrow> (\<exists>a g. gw_groups w a = Some g \<and> IsCreated g \<and> m_dbStoreId g = j))"
proof -
  note ok = group_reachable_ok [OF assms(1)]
  have s: "store_ok w" by (rule base_okD(2) [OF groups_okD(1) [OF ok]])
  then have n: "next_ok (GroupDbStore w) (NextGroupDbStoreId w) (NextGroupId w)" by (simp add: store_ok_def)
  have cr: "IsCreated g \<longleftrightarrow> guids g \<noteq> []" if "gw_groups w a = Some g" for a g
    by (rule IsCreated_guids [OF core_okD(2) [OF groups_okD(2) [OF ok] that]])
  have "g_wp GenerateNewGroupDbStoreId (\<lambda>i _. i = NextGroupDbStoreId w) w"
    by (rule GenerateNewGroupDbStoreId_wp) (rule next_ok_take(1) [OF n assms(2)], simp)
  then obtain w' es where r: "GenerateNewGroupDbStoreId w = Inr (NextGroupDbStoreId w, w', es)" by (auto simp: g_wp_iff)
  let ?s = "(GroupDbStore w, NextGroupDbStoreId w, NextGroupId w)"
  have use: "j \<in> st_in_use ?s \<longleftrightarrow> (\<exists>a g. gw_groups w a = Some g \<and> IsCreated g \<and> m_dbStoreId g = j)" for j
  proof
    assume "j \<in> st_in_use ?s"
    then obtain a where "unat j < length (GroupDbStore w)" "GroupDbStore w ! unat j = Some a" by (auto simp: st_in_use_def)
    then obtain g where g: "created w a g" "unat (m_dbStoreId g) = unat j" using s unfolding store_ok_def by blast
    then show "\<exists>a g. gw_groups w a = Some g \<and> IsCreated g \<and> m_dbStoreId g = j" using cr by (auto simp: created_def word_unat_eq_iff)
  next
    assume "\<exists>a g. gw_groups w a = Some g \<and> IsCreated g \<and> m_dbStoreId g = j"
    then show "j \<in> st_in_use ?s" using base_ok_row [OF groups_okD(1) [OF ok]] cr by (fastforce simp: st_in_use_def)
  qed
  have "0 < NextGroupDbStoreId w \<and> NextGroupDbStoreId w \<notin> st_in_use ?s \<and> (\<forall>j. 0 < j \<longrightarrow> j < NextGroupDbStoreId w \<longrightarrow> j \<in> st_in_use ?s)"
    using gs.least [of ?s] n by (simp add: st_next_def)
  then show ?thesis using r unfolding use by blast
qed

theorem store_id_least_free_witness:
  "\<exists>i w' es. GenerateNewGroupDbStoreId demo_invited = Inr (i, w', es) \<and> 0 < i"
  by (rule demo_invited_facts) (use store_id_least_free [OF demo_invited_reachable] in force)

text \<open>
  C36. A player who invites himself passes all the checks when he is in no group and has no invitation: a new group is made with him as its
  leader, his second invitation to it is refused, and the group is deleted, but his pointer to it stays.  When he then accepts, the
  server follows that pointer to a group that is gone.
\<close>

theorem self_invite_dangles:
  assumes "group_reachable w" and "gw_players w p = Some pl" and "gp_group pl = None" and "gp_groupInvite pl = None" and "gp_IsInWorld pl"
    and "ge_normalizePlayerName env name = Some nm" and "FindGPlayerByName env w nm = Some p" and "\<not> ge_HasIgnore env p p"
  shows "\<exists>w' es a. HandleGroupInviteOpcode env p name w = Inr ((), w', es) \<and>
    gw_groups w' a = None \<and> map_option gp_groupInvite (gw_players w' p) = Some (Some a) \<and>
    HandleGroupAcceptOpcode env p w' = Inl DanglingGroup"
proof -
  have ok: "groups_ok w" by (rule group_reachable_ok [OF assms(1)])
  let ?a = "gw_fresh w"
  have b: "base_ok (birth w)" by (rule base_ok_birth [OF groups_okD(1) [OF ok]])
  have g: "gw_groups (birth w) ?a = Some new_Group" and p: "gw_players (birth w) p = Some pl" using assms(2) by (simp_all add: birth_def)
  let ?Q = "\<lambda>w'. gw_groups w' ?a = None \<and> gw_players w' p = Some (pl\<lparr>gp_groupInvite := Some ?a\<rparr>)"
  let ?g = "new_Group\<lparr>m_invitees := [p], m_leaderGuid := p, m_leaderName := gp_name pl\<rparr>"
  let ?v = "put_player p (pl\<lparr>gp_groupInvite := Some ?a\<rparr>) (put_group ?a ?g (birth w))"
  have second: "g_wp (g_bind (AddInvite ?a p) (\<lambda>ok. if \<not> ok then g_then (delete_group ?a) (g_ret False) else g_ret True)) (\<lambda>ok w'. \<not> ok \<and> ?Q w') ?v"
    by (simp add: AddInvite_def delete_group_def wp_rules new_group_fields)
  have "g_wp (g_bind (AddLeaderInvite ?a p) (\<lambda>ok.
      if \<not> ok then g_then (delete_group ?a) (g_ret False)
      else g_bind (AddInvite ?a p) (\<lambda>ok. if \<not> ok then g_then (delete_group ?a) (g_ret False) else g_ret True))) (\<lambda>ok w'. \<not> ok \<and> ?Q w') (birth w)"
    unfolding AddLeaderInvite_def
    by (rule wp_bind, rule wp_bind, rule AddInvite_wp [OF base_okD(1) [OF b] g p])
      (use second assms(3,4) in \<open>simp_all add: g_wp_basic g_wp_bind g_wp_then g_wp_pointers add_invite_def new_group_fields\<close>)
  then have into: "g_wp (invite_into p p None) (\<lambda>ok w'. \<not> ok \<and> ?Q w') w"
    unfolding invite_into_def option.case alloc_group_def by (simp add: wp_rules birth_def)
  have nr: "invite_refusal env p pl p pl = None" using assms(8) by (simp add: invite_refusal_def)
  have "g_wp (HandleGroupInviteOpcode env p name) (\<lambda>_. ?Q) w"
    unfolding HandleGroupInviteOpcode_def
    by (rule wp_player [OF assms(2)])
      (simp add: assms nr group_or_original_def wp_rules, rule g_wp_mono [OF into], simp add: wp_rules)
  then obtain w' es where r: "HandleGroupInviteOpcode env p name w = Inr ((), w', es)" "?Q w'" by (auto simp: g_wp_iff)
  have "HandleGroupAcceptOpcode env p w' = Inl DanglingGroup"
    using r(2) by (simp add: HandleGroupAcceptOpcode_def g_bind_def g_then_def g_player_def RemoveInvite_def set_group_def g_group_def)
  then show ?thesis using r by (intro exI [of _ w'] exI [of _ es] exI [of _ ?a]) simp
qed

theorem self_invite_dangles_witness:
  "\<exists>w' es a. HandleGroupInviteOpcode demo_env 1 ''Ann'' demo_online = Inr ((), w', es) \<and> gw_groups w' a = None \<and>
    map_option gp_groupInvite (gw_players w' 1) = Some (Some a) \<and> HandleGroupAcceptOpcode demo_env 1 w' = Inl DanglingGroup"
  by (rule self_invite_dangles [OF demo_online_reachable, where pl = "demo_player ''Ann''" and nm = "''Ann''"])
    (simp_all add: demo_online_def demo_player_def demo_env_def FindGPlayerByName_def FindGPlayer_def)

section \<open>Looters and icons\<close>

lemma SendUpdateToPlayer_keeps:
  "gw_groups w a = Some g \<Longrightarrow> g_wp (SendUpdateToPlayer a p slot) (\<lambda>_ w'. \<exists>n. w' = put_group a (g\<lparr>m_counter := n\<rparr>) w) w"
  unfolding SendUpdateToPlayer_def
proof (rule wp_group, assumption, rule wp_get)
  assume g: "gw_groups w a = Some g"
  have same: "\<exists>n. w = put_group a (g\<lparr>m_counter := n\<rparr>) w" by (rule exI [of _ "m_counter g"]) (simp add: put_group_same g)
  have more: "\<exists>n. put_group a (g\<lparr>m_counter := m_counter g + 1\<rparr>) w = put_group a (g\<lparr>m_counter := n\<rparr>) w" by blast
  show "g_wp (case FindGPlayer w p of None \<Rightarrow> g_ret ()
     | Some player \<Rightarrow> if gp_group player \<noteq> Some a then g_ret ()
         else case (case slot of Some m \<Rightarrow> Some m | None \<Rightarrow> map_option ((!) (m_memberSlots g)) (getMemberSlot p (m_memberSlots g))) of
                None \<Rightarrow> g_ret ()
              | Some m \<Rightarrow> g_then (set_group a (\<lambda>g. g\<lparr>m_counter := m_counter g + 1\<rparr>)) (g_emit [GSend p (group_list w g m)]))
      (\<lambda>_ w'. \<exists>n. w' = put_group a (g\<lparr>m_counter := n\<rparr>) w) w"
    using same more by (simp add: wp_rules g split: option.split)
qed

text \<open>Sending the group list changes nothing but the counter of the lists sent.\<close>

lemma SendUpdate_keeps:
  assumes g: "gw_groups w a = Some g"
  shows "g_wp (SendUpdate a) (\<lambda>_ w'. \<exists>n. w' = put_group a (g\<lparr>m_counter := n\<rparr>) w) w"
  unfolding SendUpdate_def
proof (rule wp_group [OF g], rule g_wp_for [where I = "\<lambda>_ w'. \<exists>n. w' = put_group a (g\<lparr>m_counter := n\<rparr>) w"])
  show "\<exists>n. w = put_group a (g\<lparr>m_counter := n\<rparr>) w" by (rule exI [of _ "m_counter g"]) (simp add: put_group_same g)
next
  fix m ys zs w' assume "\<exists>n. w' = put_group a (g\<lparr>m_counter := n\<rparr>) w"
  then obtain n where w': "w' = put_group a (g\<lparr>m_counter := n\<rparr>) w" ..
  have "gw_groups w' a = Some (g\<lparr>m_counter := n\<rparr>)" by (simp add: w')
  then show "g_wp (SendUpdateToPlayer a (ms_guid m) (Some m)) (\<lambda>_ w'. \<exists>n. w' = put_group a (g\<lparr>m_counter := n\<rparr>) w) w'"
    by (rule g_wp_mono [OF SendUpdateToPlayer_keeps]) (auto simp: w')
qed

lemma find_filter: "find P xs = (case filter P xs of [] \<Rightarrow> None | x # _ \<Rightarrow> Some x)"
  by (induction xs) simp_all

lemma find_append: "find P (xs @ ys) = (case find P xs of None \<Rightarrow> find P ys | Some x \<Rightarrow> Some x)"
  by (induction xs) simp_all

lemma next_looter_rotate:
  assumes "k \<le> length ms"
  shows "next_looter near k ms = map_option ms_guid (find (\<lambda>m. near (ms_guid m)) (rotate k ms))"
proof -
  have "rotate k ms = drop k ms @ take k ms" using assms by (cases "k = length ms") (simp_all add: rotate_drop_take)
  then show ?thesis by (simp add: next_looter_def find_append find_filter split: list.split option.split)
qed

text \<open>
  C35. The round robin over looters: with a looter in slot \<open>k\<close>, the two loops of \<^verbatim>\<open>UpdateLooterGuid\<close> choose the first member within reach when the slots are
  read from the one after \<open>k\<close> round to \<open>k\<close> itself, and nobody when none is; no other field that matters changes.
\<close>

theorem looter_round_robin:
  assumes g: "gw_groups w a = Some g" and "m_lootMethod g \<noteq> MASTER_LOOT" and "m_lootMethod g \<noteq> FREE_FOR_ALL"
    and k: "getMemberSlot (m_looterGuid g) (m_memberSlots g) = Some k"
  shows "\<exists>w' es n. UpdateLooterGuid in_reach a False w = Inr ((), w', es) \<and>
    gw_groups w' a = Some (g\<lparr>m_looterGuid :=
      (case find (\<lambda>m. FindGPlayer w (ms_guid m) \<noteq> None \<and> in_reach (ms_guid m)) (rotate (Suc k) (m_memberSlots g)) of
         Some m \<Rightarrow> ms_guid m | None \<Rightarrow> 0), m_counter := n\<rparr>)"
proof -
  let ?near = "\<lambda>p. FindGPlayer w p \<noteq> None \<and> in_reach p"
  let ?l = "case next_looter ?near (Suc k) (m_memberSlots g) of Some p \<Rightarrow> p | None \<Rightarrow> 0"
  have kl: "Suc k \<le> length (m_memberSlots g)" using getMemberSlot_Some [OF k] by simp
  have set: "g_wp (g_then (set_group a (\<lambda>g. g\<lparr>m_looterGuid := l\<rparr>)) (SendUpdate a))
      (\<lambda>_ w'. \<exists>n. gw_groups w' a = Some (g\<lparr>m_looterGuid := l, m_counter := n\<rparr>)) w" for l
    by (rule wp_set_group [OF g], rule g_wp_mono [OF SendUpdate_keeps], simp) auto
  have same: "gw_groups w a = Some (g\<lparr>m_looterGuid := m_looterGuid g, m_counter := m_counter g\<rparr>)" by (simp add: g)
  have "g_wp (UpdateLooterGuid in_reach a False) (\<lambda>_ w'. \<exists>n. gw_groups w' a = Some (g\<lparr>m_looterGuid := ?l, m_counter := n\<rparr>)) w"
    unfolding UpdateLooterGuid_def
    by (rule wp_group [OF g], rule wp_get)
      (use assms(2,3) set same in \<open>auto simp: Let_def k g_wp_basic split: option.split intro: exI [of _ "m_counter g"]\<close>)
  moreover have "?l = (case find (\<lambda>m. FindGPlayer w (ms_guid m) \<noteq> None \<and> in_reach (ms_guid m)) (rotate (Suc k) (m_memberSlots g)) of
      Some m \<Rightarrow> ms_guid m | None \<Rightarrow> 0)"
    unfolding next_looter_rotate [OF kl] by (simp split: option.split)
  ultimately show ?thesis by (auto simp: g_wp_iff)
qed

definition looter_world :: group_world where
  "looter_world = put_group 0 (new_Group\<lparr>m_memberSlots := map (\<lambda>(p, n). \<lparr>ms_guid = p, ms_name = n, ms_group = 0, ms_flags = 0, ms_roles = 0\<rparr>)
     [(1, ''Ann''), (2, ''Bob''), (3, ''Cid'')], m_lootMethod := GROUP_LOOT, m_looterGuid := 2\<rparr>) demo_online"

theorem looter_round_robin_witness:
  "\<exists>w' es g'. UpdateLooterGuid (\<lambda>_. True) 0 False looter_world = Inr ((), w', es) \<and> gw_groups w' 0 = Some g' \<and> m_looterGuid g' = 1"
proof -
  let ?s = "\<lambda>p n. \<lparr>ms_guid = p, ms_name = n, ms_group = 0, ms_flags = 0, ms_roles = 0\<rparr>"
  let ?g = "new_Group\<lparr>m_memberSlots := [?s 1 ''Ann'', ?s 2 ''Bob'', ?s 3 ''Cid''], m_lootMethod := GROUP_LOOT, m_looterGuid := 2\<rparr>"
  have g: "gw_groups looter_world 0 = Some ?g" by (simp add: looter_world_def)
  have on: "FindGPlayer looter_world 3 = None" "FindGPlayer looter_world 1 = Some (demo_player ''Ann'')"
    by (simp_all add: looter_world_def demo_online_def FindGPlayer_def no_groups_def demo_player_def)
  have slot: "getMemberSlot (m_looterGuid ?g) (m_memberSlots ?g) = Some 1" by simp
  have "rotate (Suc 1) (m_memberSlots ?g) = [?s 3 ''Cid'', ?s 1 ''Ann'', ?s 2 ''Bob'']" by simp
  then have "find (\<lambda>m. FindGPlayer looter_world (ms_guid m) \<noteq> None \<and> True) (rotate (Suc 1) (m_memberSlots ?g)) = Some (?s 1 ''Ann'')"
    using on by simp
  then show ?thesis using looter_round_robin [OF g _ _ slot, of "\<lambda>_. True"] by auto
qed

lemma BroadcastPacket_keeps:
  assumes "live a w"
  shows "g_wp (BroadcastPacket a pkt b sub ign) (\<lambda>_ w'. w' = w) w"
proof (rule liveE [OF assms])
  fix g assume g: "gw_groups w a = Some g" and pl: "\<And>p k. (p, k) \<in> set (m_memberMgr g) \<Longrightarrow> \<exists>pl. gw_players w p = Some pl"
  show ?thesis
    unfolding BroadcastPacket_def
  proof (rule wp_group [OF g], rule g_wp_for [where I = "\<lambda>_ w'. w' = w"], rule refl)
    fix e ys zs w' assume m: "m_memberMgr g = ys @ e # zs" and w': "w' = w"
    obtain p k where e: "e = (p, k)" by fastforce
    obtain q where "gw_players w p = Some q" using pl [of p k] m e by auto
    then show "g_wp (case e of (p, k) \<Rightarrow> g_bind (g_player p) (\<lambda>player. if (ign \<noteq> 0 \<and> p = ign) \<or> (b \<and> gp_group player \<noteq> Some a) then g_ret ()
        else g_when (gp_session player \<and> (case sub of None \<Rightarrow> True | Some s \<Rightarrow> ref_sub k player = s)) (g_emit [GSend p pkt]))) (\<lambda>_ w'. w' = w) w'"
      by (simp add: e w' wp_rules)
  qed
qed

abbreviation with_icons :: "nat \<Rightarrow> group \<Rightarrow> u64 list \<Rightarrow> group_world \<Rightarrow> group_world" where
  "with_icons a g xs w \<equiv> put_group a (g\<lparr>m_targetIcons := xs\<rparr>) w"

lemma put_icon_wp:
  assumes lv: "live a w" and g: "gw_groups w a = Some g" and Q: "Q () (with_icons a g (xs[unat i := t]) w)"
  shows "g_wp (put_icon a i who t) Q (with_icons a g xs w)"
proof -
  let ?v = "with_icons a g (xs[unat i := t]) w"
  have "live a ?v" using lv g by (simp add: live_def)
  then have "g_wp (BroadcastPacket a pkt True None 0) Q ?v" for pkt by (rule g_wp_mono [OF BroadcastPacket_keeps]) (simp add: Q)
  then show ?thesis unfolding put_icon_def by (simp add: g_wp_then g_wp_pointers)
qed

text \<open>
  A target icon: the icon is put on the target and taken away from whatever had it, and the target loses every other icon it had.
\<close>

theorem SetTargetIcon_spec:
  assumes "live a w" and g: "gw_groups w a = Some g" and len: "length (m_targetIcons g) = TARGETICONCOUNT"
    and i: "unat i < TARGETICONCOUNT" and t: "t \<noteq> 0"
  shows "\<exists>w' es. SetTargetIcon a i who t w = Inr ((), w', es) \<and>
    w' = put_group a (g\<lparr>m_targetIcons := (map (\<lambda>x. if x = t then 0 else x) (m_targetIcons g))[unat i := t]\<rparr>) w"
proof -
  let ?xs = "m_targetIcons g" and ?f = "\<lambda>x. if x = t then 0 else x"
  let ?I = "\<lambda>ys w'. w' = with_icons a g (map ?f (take (length ys) ?xs) @ drop (length ys) ?xs) w"
  have "g_wp (g_for [0..<TARGETICONCOUNT] (\<lambda>j. g_bind (g_group a) (\<lambda>g. g_when (m_targetIcons g ! j = t) (put_icon a (of_nat j) 0 0))))
      (\<lambda>_. ?I [0..<TARGETICONCOUNT]) w"
  proof (rule g_wp_for [where I = ?I])
    show "?I [] w" by (simp add: put_group_same g)
    fix j ys zs w' assume s: "[0..<TARGETICONCOUNT] = ys @ j # zs" and w': "?I ys w'"
    have l: "length ys < TARGETICONCOUNT" using arg_cong [OF s, of length] by simp
    have "j = [0..<TARGETICONCOUNT] ! length ys" unfolding s by simp
    then have j: "j = length ys" "j < TARGETICONCOUNT" using l nth_upt [of 0 "length ys" TARGETICONCOUNT] by simp_all
    let ?ys = "map ?f (take j ?xs) @ drop j ?xs"
    have n: "?ys ! j = ?xs ! j" using j len by (simp add: nth_append)
    have st: "map ?f (take (Suc j) ?xs) @ drop (Suc j) ?xs = ?ys[j := ?f (?xs ! j)]"
      using j len by (simp add: take_Suc_conv_app_nth list_update_append flip: Cons_nth_drop_Suc)
    have lj: "length (ys @ [j]) = Suc j" using j(1) by simp
    have uj: "unat (of_nat j :: u8) = j" using j(2) by (simp add: unat_of_nat)
    have "g_wp (put_icon a (of_nat j) 0 0) (\<lambda>_. ?I (ys @ [j])) (with_icons a g ?ys w)" if "?xs ! j = t"
      by (rule put_icon_wp [OF assms(1) g]) (simp only: lj st uj that simp_thms if_True)
    moreover have "?ys[j := ?xs ! j] = ?ys" using n list_update_id [of ?ys j] by (simp only:)
    ultimately show "g_wp (g_bind (g_group a) (\<lambda>g. g_when (m_targetIcons g ! j = t) (put_icon a (of_nat j) 0 0))) (\<lambda>_. ?I (ys @ [j])) w'"
      unfolding w' using st n j(1) by (intro wp_group) (auto intro!: wp_when)
  qed
  then have loop: "g_wp (g_for [0..<TARGETICONCOUNT] (\<lambda>j. g_bind (g_group a) (\<lambda>g. g_when (m_targetIcons g ! j = t) (put_icon a (of_nat j) 0 0))))
      (\<lambda>_ w'. w' = with_icons a g (map ?f ?xs) w) w"
    by (rule g_wp_mono) (simp add: len del: upt_Suc upt_rec_numeral)
  have "g_wp (SetTargetIcon a i who t) (\<lambda>_ w'. w' = with_icons a g ((map ?f ?xs)[unat i := t]) w) w"
    unfolding SetTargetIcon_def if_not_P [OF i [folded not_le]] g_when_def if_P [OF t]
    by (rule wp_then, rule g_wp_mono [OF loop [unfolded g_when_def]]) (auto intro: put_icon_wp [OF assms(1) g])
  then show ?thesis by (auto simp: g_wp_iff)
qed

theorem SetTargetIcon_spec_witness:
  "\<exists>w' es. SetTargetIcon 0 3 1 77 (put_group 0 (new_Group\<lparr>m_targetIcons := [77, 0, 0, 5, 0, 0, 0, 0]\<rparr>) demo_online) = Inr ((), w', es) \<and>
    map_option m_targetIcons (gw_groups w' 0) = Some [0, 0, 0, 77, 0, 0, 0, 0]"
  using SetTargetIcon_spec [of 0 "put_group 0 (new_Group\<lparr>m_targetIcons := [77, 0, 0, 5, 0, 0, 0, 0]\<rparr>) demo_online"
      "new_Group\<lparr>m_targetIcons := [77, 0, 0, 5, 0, 0, 0, 0]\<rparr>" 3 77 1]
  by (auto simp: live_def new_Group_def)

end
