(* ===== verification/Guild_Model.thy ===== *)
theory Guild_Model
  imports Social "HOL-Library.State_Monad" "HOL-Library.AList"
begin

text \<open>
  Guilds: \<^verbatim>\<open>game/Guilds/Guild.h\<close> and \<^verbatim>\<open>Guild.cpp\<close>, without the moves of items between bank and inventory.
  The classes nested in \<^verbatim>\<open>Guild\<close> (log entries and their holders, ranks, bank tabs, members) come first, as records with one
  function per method; a method that talks to the database returns its statements beside the new object.  The methods
  of \<^verbatim>\<open>Guild\<close> itself run in the state monad: the state holds the guild \<^verbatim>\<open>this\<close> points to, the players of
  \<^verbatim>\<open>ObjectAccessor\<close>, the store of \<^verbatim>\<open>GuildMgr\<close> and the effects so far.

  The hash table of members is an association list, whose order is the order of iteration; a \<^verbatim>\<open>Member*\<close> is the key of
  its entry.  Statements appended to a transaction are logged where they are appended.
\<close>

section \<open>Constants\<close>

abbreviation GUILD_BANK_MAX_TABS :: u8 where "GUILD_BANK_MAX_TABS \<equiv> 6"
abbreviation GUILD_BANK_MAX_SLOTS :: u8 where "GUILD_BANK_MAX_SLOTS \<equiv> 98"
abbreviation GUILD_BANK_MONEY_LOGS_TAB :: u8 where "GUILD_BANK_MONEY_LOGS_TAB \<equiv> 100"
abbreviation GUILD_RANKS_MIN_COUNT :: u8 where "GUILD_RANKS_MIN_COUNT \<equiv> 5"
abbreviation GUILD_RANKS_MAX_COUNT :: u8 where "GUILD_RANKS_MAX_COUNT \<equiv> 10"
abbreviation GUILD_RANK_NONE :: u8 where "GUILD_RANK_NONE \<equiv> 0xFF"
abbreviation GUILD_WITHDRAW_MONEY_UNLIMITED :: u32 where "GUILD_WITHDRAW_MONEY_UNLIMITED \<equiv> 0xFFFFFFFF"
abbreviation GUILD_WITHDRAW_SLOT_UNLIMITED :: u32 where "GUILD_WITHDRAW_SLOT_UNLIMITED \<equiv> 0xFFFFFFFF"
abbreviation GUILD_EVENT_LOG_GUID_UNDEFINED :: u32 where "GUILD_EVENT_LOG_GUID_UNDEFINED \<equiv> 0xFFFFFFFF"

abbreviation GR_GUILDMASTER :: u8 where "GR_GUILDMASTER \<equiv> 0"
abbreviation GR_OFFICER :: u8 where "GR_OFFICER \<equiv> 1"

abbreviation GR_RIGHT_EMPTY :: u32 where "GR_RIGHT_EMPTY \<equiv> 0x00000040"
abbreviation GR_RIGHT_GCHATLISTEN :: u32 where "GR_RIGHT_GCHATLISTEN \<equiv> 0x00000041"
abbreviation GR_RIGHT_GCHATSPEAK :: u32 where "GR_RIGHT_GCHATSPEAK \<equiv> 0x00000042"
abbreviation GR_RIGHT_OFFCHATLISTEN :: u32 where "GR_RIGHT_OFFCHATLISTEN \<equiv> 0x00000044"
abbreviation GR_RIGHT_OFFCHATSPEAK :: u32 where "GR_RIGHT_OFFCHATSPEAK \<equiv> 0x00000048"
abbreviation GR_RIGHT_INVITE :: u32 where "GR_RIGHT_INVITE \<equiv> 0x00000050"
abbreviation GR_RIGHT_REMOVE :: u32 where "GR_RIGHT_REMOVE \<equiv> 0x00000060"
abbreviation GR_RIGHT_PROMOTE :: u32 where "GR_RIGHT_PROMOTE \<equiv> 0x000000C0"
abbreviation GR_RIGHT_DEMOTE :: u32 where "GR_RIGHT_DEMOTE \<equiv> 0x00000140"
abbreviation GR_RIGHT_SETMOTD :: u32 where "GR_RIGHT_SETMOTD \<equiv> 0x00001040"
abbreviation GR_RIGHT_EPNOTE :: u32 where "GR_RIGHT_EPNOTE \<equiv> 0x00002040"
abbreviation GR_RIGHT_EOFFNOTE :: u32 where "GR_RIGHT_EOFFNOTE \<equiv> 0x00008040"
abbreviation GR_RIGHT_MODIFY_GUILD_INFO :: u32 where "GR_RIGHT_MODIFY_GUILD_INFO \<equiv> 0x00010040"
abbreviation GR_RIGHT_WITHDRAW_REPAIR :: u32 where "GR_RIGHT_WITHDRAW_REPAIR \<equiv> 0x00040000"
abbreviation GR_RIGHT_WITHDRAW_GOLD :: u32 where "GR_RIGHT_WITHDRAW_GOLD \<equiv> 0x00080000"
abbreviation GR_RIGHT_ALL :: u32 where "GR_RIGHT_ALL \<equiv> 0x001DF1FF"

abbreviation GUILD_CREATE_S :: u32 where "GUILD_CREATE_S \<equiv> 0x00"
abbreviation GUILD_INVITE_S :: u32 where "GUILD_INVITE_S \<equiv> 0x01"
abbreviation GUILD_QUIT_S :: u32 where "GUILD_QUIT_S \<equiv> 0x03"
abbreviation GUILD_UNK1 :: u32 where "GUILD_UNK1 \<equiv> 0x13"

abbreviation ERR_PLAYER_NO_MORE_IN_GUILD :: u32 where "ERR_PLAYER_NO_MORE_IN_GUILD \<equiv> 0x00"
abbreviation ERR_ALREADY_IN_GUILD_S :: u32 where "ERR_ALREADY_IN_GUILD_S \<equiv> 0x03"
abbreviation ERR_ALREADY_INVITED_TO_GUILD_S :: u32 where "ERR_ALREADY_INVITED_TO_GUILD_S \<equiv> 0x05"
abbreviation ERR_GUILD_NAME_INVALID :: u32 where "ERR_GUILD_NAME_INVALID \<equiv> 0x06"
abbreviation ERR_GUILD_LEADER_LEAVE :: u32 where "ERR_GUILD_LEADER_LEAVE \<equiv> 0x08"
abbreviation ERR_GUILD_PERMISSIONS :: u32 where "ERR_GUILD_PERMISSIONS \<equiv> 0x08"
abbreviation ERR_GUILD_PLAYER_NOT_IN_GUILD :: u32 where "ERR_GUILD_PLAYER_NOT_IN_GUILD \<equiv> 0x09"
abbreviation ERR_GUILD_PLAYER_NOT_IN_GUILD_S :: u32 where "ERR_GUILD_PLAYER_NOT_IN_GUILD_S \<equiv> 0x0A"
abbreviation ERR_GUILD_PLAYER_NOT_FOUND_S :: u32 where "ERR_GUILD_PLAYER_NOT_FOUND_S \<equiv> 0x0B"
abbreviation ERR_GUILD_NOT_ALLIED :: u32 where "ERR_GUILD_NOT_ALLIED \<equiv> 0x0C"
abbreviation ERR_GUILD_RANK_TOO_HIGH_S :: u32 where "ERR_GUILD_RANK_TOO_HIGH_S \<equiv> 0x0D"
abbreviation ERR_GUILD_RANK_TOO_LOW_S :: u32 where "ERR_GUILD_RANK_TOO_LOW_S \<equiv> 0x0E"

abbreviation GE_PROMOTION :: u8 where "GE_PROMOTION \<equiv> 0x00"
abbreviation GE_DEMOTION :: u8 where "GE_DEMOTION \<equiv> 0x01"
abbreviation GE_MOTD :: u8 where "GE_MOTD \<equiv> 0x02"
abbreviation GE_JOINED :: u8 where "GE_JOINED \<equiv> 0x03"
abbreviation GE_LEFT :: u8 where "GE_LEFT \<equiv> 0x04"
abbreviation GE_REMOVED :: u8 where "GE_REMOVED \<equiv> 0x05"
abbreviation GE_LEADER_CHANGED :: u8 where "GE_LEADER_CHANGED \<equiv> 0x07"
abbreviation GE_DISBANDED :: u8 where "GE_DISBANDED \<equiv> 0x08"
abbreviation GE_SIGNED_ON :: u8 where "GE_SIGNED_ON \<equiv> 0x0C"
abbreviation GE_SIGNED_OFF :: u8 where "GE_SIGNED_OFF \<equiv> 0x0D"

abbreviation GUILD_BANK_RIGHT_VIEW_TAB :: u8 where "GUILD_BANK_RIGHT_VIEW_TAB \<equiv> 0x01"
abbreviation GUILD_BANK_RIGHT_FULL :: u8 where "GUILD_BANK_RIGHT_FULL \<equiv> 0xFF"

abbreviation GUILD_BANK_LOG_MOVE_ITEM :: u8 where "GUILD_BANK_LOG_MOVE_ITEM \<equiv> 3"
abbreviation GUILD_BANK_LOG_DEPOSIT_MONEY :: u8 where "GUILD_BANK_LOG_DEPOSIT_MONEY \<equiv> 4"
abbreviation GUILD_BANK_LOG_WITHDRAW_MONEY :: u8 where "GUILD_BANK_LOG_WITHDRAW_MONEY \<equiv> 5"
abbreviation GUILD_BANK_LOG_REPAIR_MONEY :: u8 where "GUILD_BANK_LOG_REPAIR_MONEY \<equiv> 6"
abbreviation GUILD_BANK_LOG_MOVE_ITEM2 :: u8 where "GUILD_BANK_LOG_MOVE_ITEM2 \<equiv> 7"

abbreviation GUILD_EVENT_LOG_INVITE_PLAYER :: u8 where "GUILD_EVENT_LOG_INVITE_PLAYER \<equiv> 1"
abbreviation GUILD_EVENT_LOG_JOIN_GUILD :: u8 where "GUILD_EVENT_LOG_JOIN_GUILD \<equiv> 2"
abbreviation GUILD_EVENT_LOG_PROMOTE_PLAYER :: u8 where "GUILD_EVENT_LOG_PROMOTE_PLAYER \<equiv> 3"
abbreviation GUILD_EVENT_LOG_DEMOTE_PLAYER :: u8 where "GUILD_EVENT_LOG_DEMOTE_PLAYER \<equiv> 4"
abbreviation GUILD_EVENT_LOG_UNINVITE_PLAYER :: u8 where "GUILD_EVENT_LOG_UNINVITE_PLAYER \<equiv> 5"
abbreviation GUILD_EVENT_LOG_LEAVE_GUILD :: u8 where "GUILD_EVENT_LOG_LEAVE_GUILD \<equiv> 6"

abbreviation ERR_GUILDEMBLEM_SUCCESS :: u32 where "ERR_GUILDEMBLEM_SUCCESS \<equiv> 0"
abbreviation ERR_GUILDEMBLEM_NOGUILD :: u32 where "ERR_GUILDEMBLEM_NOGUILD \<equiv> 2"
abbreviation ERR_GUILDEMBLEM_NOTGUILDMASTER :: u32 where "ERR_GUILDEMBLEM_NOTGUILDMASTER \<equiv> 3"
abbreviation ERR_GUILDEMBLEM_NOTENOUGHMONEY :: u32 where "ERR_GUILDEMBLEM_NOTENOUGHMONEY \<equiv> 4"
abbreviation ERR_GUILDEMBLEM_INVALIDVENDOR :: u32 where "ERR_GUILDEMBLEM_INVALIDVENDOR \<equiv> 5"

abbreviation GOLD :: u32 where "GOLD \<equiv> 10000"
abbreviation EMBLEM_PRICE :: u32 where "EMBLEM_PRICE \<equiv> 100000"
abbreviation MAX_MONEY_AMOUNT :: u32 where "MAX_MONEY_AMOUNT \<equiv> 0x7FFFFFFE"
abbreviation MAX_GUILD_BANK_TAB_TEXT_LEN :: nat where "MAX_GUILD_BANK_TAB_TEXT_LEN \<equiv> 500"
abbreviation CLASS_WARRIOR :: u8 where "CLASS_WARRIOR \<equiv> 1"
abbreviation MAX_CLASSES :: u8 where "MAX_CLASSES \<equiv> 12"

definition GetGuildBankTabPrice :: "u8 \<Rightarrow> u32" where
  "GetGuildBankTabPrice tabId =
     (if tabId = 0 then 100 else if tabId = 1 then 250 else if tabId = 2 then 500
      else if tabId = 3 then 1000 else if tabId = 4 then 2500 else if tabId = 5 then 5000 else 0)"

section \<open>Effects\<close>

text \<open>
  \<open>GdCall\<close> is a call into a part that is not modelled here: scripts, petitions, items, achievements, the command log.
\<close>

datatype guild_effect =
    GdSend u64 world_packet
  | GdDb string "db_value list"
  | GdCall string "db_value list"

text \<open>The statements that exist once per bank tab.\<close>

definition tab_stmt :: "string \<Rightarrow> u8 \<Rightarrow> string" where
  "tab_stmt name tabId = name @ [char_of (48 + unat tabId)]"

section \<open>Log entries and their holders\<close>

record log_entry =
  le_guildId :: u32
  le_guid :: u32
  le_timestamp :: u64

record event_log_entry = log_entry +
  ee_eventType :: u8
  ee_playerGuid1 :: u32
  ee_playerGuid2 :: u32
  ee_newRank :: u8

record bank_event_log_entry = log_entry +
  be_eventType :: u8
  be_bankTabId :: u8
  be_playerGuid :: u32
  be_itemOrMoney :: u32
  be_itemStackCount :: u16
  be_destTabId :: u8

record 'e log_holder =
  lh_log :: "'e list"
  lh_guildId :: u32
  lh_maxRecords :: u32
  lh_nextGUID :: u32

definition new_LogHolder :: "u32 \<Rightarrow> u32 \<Rightarrow> 'e log_holder" where
  "new_LogHolder guildId maxRecords =
     \<lparr>lh_log = [], lh_guildId = guildId, lh_maxRecords = maxRecords, lh_nextGUID = GUILD_EVENT_LOG_GUID_UNDEFINED\<rparr>"

definition LogHolder_GetSize :: "'e log_holder \<Rightarrow> u8" where
  "LogHolder_GetSize h = word_of_nat (length (lh_log h))"

definition LogHolder_CanInsert :: "'e log_holder \<Rightarrow> bool" where
  "LogHolder_CanInsert h = (length (lh_log h) < unat (lh_maxRecords h))"

definition LogHolder_LoadEvent :: "'a log_entry_scheme \<Rightarrow> 'a log_entry_scheme log_holder \<Rightarrow> 'a log_entry_scheme log_holder" where
  "LogHolder_LoadEvent entry h =
     (let h = (if lh_nextGUID h = GUILD_EVENT_LOG_GUID_UNDEFINED then h\<lparr>lh_nextGUID := le_guid entry\<rparr> else h)
      in h\<lparr>lh_log := entry # lh_log h\<rparr>)"

text \<open>
  \<open>save\<close> is the virtual \<^verbatim>\<open>SaveToDB\<close>.  With \<^verbatim>\<open>m_maxRecords\<close> zero the source takes the front of an empty list, and
  \<^verbatim>\<open>GetNextGUID\<close> divides by zero; the lemmas assume a positive number.
\<close>

definition LogHolder_AddEvent :: "('e \<Rightarrow> guild_effect list) \<Rightarrow> 'e \<Rightarrow> 'e log_holder \<Rightarrow> 'e log_holder \<times> guild_effect list" where
  "LogHolder_AddEvent save entry h =
     (let log = (if unat (lh_maxRecords h) \<le> length (lh_log h) then tl (lh_log h) else lh_log h)
      in (h\<lparr>lh_log := log @ [entry]\<rparr>, save entry))"

definition LogHolder_WritePacket :: "('e \<Rightarrow> pkt_op list) \<Rightarrow> 'e log_holder \<Rightarrow> pkt_op list" where
  "LogHolder_WritePacket write h = Out8 (word_of_nat (length (lh_log h))) # concat (map write (lh_log h))"

definition LogHolder_GetNextGUID :: "'e log_holder \<Rightarrow> u32 \<times> 'e log_holder" where
  "LogHolder_GetNextGUID h =
     (let n = (if lh_nextGUID h = GUILD_EVENT_LOG_GUID_UNDEFINED then 0
               else (lh_nextGUID h + 1) mod lh_maxRecords h)
      in (n, h\<lparr>lh_nextGUID := n\<rparr>))"

definition EventLogEntry_SaveToDB :: "event_log_entry \<Rightarrow> guild_effect list" where
  "EventLogEntry_SaveToDB e =
     [GdDb ''CHAR_DEL_GUILD_EVENTLOG'' [DbU32 (le_guildId e), DbU32 (le_guid e)],
      GdDb ''CHAR_INS_GUILD_EVENTLOG''
        [DbU32 (le_guildId e), DbU32 (le_guid e), DbU8 (ee_eventType e), DbU32 (ee_playerGuid1 e),
         DbU32 (ee_playerGuid2 e), DbU8 (ee_newRank e), DbU64 (le_timestamp e)]]"

definition EventLogEntry_WritePacket :: "u64 \<Rightarrow> event_log_entry \<Rightarrow> pkt_op list" where
  "EventLogEntry_WritePacket now e =
     [Out8 (ee_eventType e), Out64 (MAKE_NEW_GUID (ee_playerGuid1 e) 0 (high_code HIGHGUID_PLAYER))] @
     (if ee_eventType e \<noteq> GUILD_EVENT_LOG_JOIN_GUILD \<and> ee_eventType e \<noteq> GUILD_EVENT_LOG_LEAVE_GUILD
      then [Out64 (MAKE_NEW_GUID (ee_playerGuid2 e) 0 (high_code HIGHGUID_PLAYER))] else []) @
     (if ee_eventType e = GUILD_EVENT_LOG_PROMOTE_PLAYER \<or> ee_eventType e = GUILD_EVENT_LOG_DEMOTE_PLAYER
      then [Out8 (ee_newRank e)] else []) @
     [Out32 (ucast (now - le_timestamp e))]"

definition IsMoneyEvent :: "u8 \<Rightarrow> bool" where
  "IsMoneyEvent eventType =
     (eventType = GUILD_BANK_LOG_DEPOSIT_MONEY \<or> eventType = GUILD_BANK_LOG_WITHDRAW_MONEY \<or>
      eventType = GUILD_BANK_LOG_REPAIR_MONEY)"

definition BankEventLogEntry_SaveToDB :: "bank_event_log_entry \<Rightarrow> guild_effect list" where
  "BankEventLogEntry_SaveToDB e =
     [GdDb ''CHAR_DEL_GUILD_BANK_EVENTLOG'' [DbU32 (le_guildId e), DbU32 (le_guid e), DbU8 (be_bankTabId e)],
      GdDb ''CHAR_INS_GUILD_BANK_EVENTLOG''
        [DbU32 (le_guildId e), DbU32 (le_guid e), DbU8 (be_bankTabId e), DbU8 (be_eventType e), DbU32 (be_playerGuid e),
         DbU32 (be_itemOrMoney e), DbU16 (be_itemStackCount e), DbU8 (be_destTabId e), DbU64 (le_timestamp e)]]"

definition BankEventLogEntry_WritePacket :: "u64 \<Rightarrow> bank_event_log_entry \<Rightarrow> pkt_op list" where
  "BankEventLogEntry_WritePacket now e =
     [Out8 (be_eventType e), Out64 (MAKE_NEW_GUID (be_playerGuid e) 0 (high_code HIGHGUID_PLAYER)), Out32 (be_itemOrMoney e)] @
     (if be_eventType e < GUILD_BANK_LOG_DEPOSIT_MONEY
      then Out32 (ucast (be_itemStackCount e)) #
        (if be_eventType e = GUILD_BANK_LOG_MOVE_ITEM \<or> be_eventType e = GUILD_BANK_LOG_MOVE_ITEM2
         then [Out8 (be_destTabId e)] else [])
      else []) @
     [Out32 (ucast (now - le_timestamp e))]"

section \<open>Ranks\<close>

record bank_rights_slots =
  rs_rights :: u8
  rs_slots :: u32

definition new_GuildBankRightsAndSlots :: bank_rights_slots where
  "new_GuildBankRightsAndSlots = \<lparr>rs_rights = 0, rs_slots = 0\<rparr>"

definition SetGuildMasterValues :: "bank_rights_slots \<Rightarrow> bank_rights_slots" where
  "SetGuildMasterValues rs = rs\<lparr>rs_rights := GUILD_BANK_RIGHT_FULL, rs_slots := GUILD_WITHDRAW_SLOT_UNLIMITED\<rparr>"

record rank_info =
  rk_guildId :: u32
  rk_rankId :: u8
  rk_name :: string
  rk_rights :: u32
  rk_bankMoneyPerDay :: u32
  rk_bankTabRightsAndSlots :: "bank_rights_slots list"

definition new_RankInfo :: "u32 \<Rightarrow> u8 \<Rightarrow> string \<Rightarrow> u32 \<Rightarrow> u32 \<Rightarrow> rank_info" where
  "new_RankInfo guildId rankId name rights money =
     \<lparr>rk_guildId = guildId, rk_rankId = rankId, rk_name = name, rk_rights = rights, rk_bankMoneyPerDay = money,
      rk_bankTabRightsAndSlots = replicate (unat GUILD_BANK_MAX_TABS) new_GuildBankRightsAndSlots\<rparr>"

definition RankInfo_LoadFromDB :: "u8 \<Rightarrow> string \<Rightarrow> u32 \<Rightarrow> u32 \<Rightarrow> rank_info \<Rightarrow> rank_info" where
  "RankInfo_LoadFromDB rid name rights money r =
     (let r = r\<lparr>rk_rankId := rid, rk_name := name, rk_rights := rights, rk_bankMoneyPerDay := money\<rparr>
      in if rk_rankId r = GR_GUILDMASTER then r\<lparr>rk_rights := rk_rights r OR GR_RIGHT_ALL\<rparr> else r)"

definition RankInfo_SaveToDB :: "rank_info \<Rightarrow> guild_effect list" where
  "RankInfo_SaveToDB r =
     [GdDb ''CHAR_INS_GUILD_RANK'' [DbU32 (rk_guildId r), DbU8 (rk_rankId r), DbString (rk_name r), DbU32 (rk_rights r)]]"

definition RankInfo_WritePacket :: "rank_info \<Rightarrow> pkt_op list" where
  "RankInfo_WritePacket r =
     [Out32 (rk_rights r), Out32 (rk_bankMoneyPerDay r)] @
     concat (map (\<lambda>rs. [Out32 (ucast (rs_rights rs)), Out32 (rs_slots rs)]) (rk_bankTabRightsAndSlots r))"

definition RankInfo_SetName :: "string \<Rightarrow> rank_info \<Rightarrow> rank_info \<times> guild_effect list" where
  "RankInfo_SetName name r =
     (if rk_name r = name then (r, [])
      else (r\<lparr>rk_name := name\<rparr>,
            [GdDb ''CHAR_UPD_GUILD_RANK_NAME'' [DbString name, DbU8 (rk_rankId r), DbU32 (rk_guildId r)]]))"

definition RankInfo_SetRights :: "u32 \<Rightarrow> rank_info \<Rightarrow> rank_info \<times> guild_effect list" where
  "RankInfo_SetRights rights r =
     (let rights = (if rk_rankId r = GR_GUILDMASTER then GR_RIGHT_ALL else rights) in
      if rk_rights r = rights then (r, [])
      else (r\<lparr>rk_rights := rights\<rparr>,
            [GdDb ''CHAR_UPD_GUILD_RANK_RIGHTS'' [DbU32 rights, DbU8 (rk_rankId r), DbU32 (rk_guildId r)]]))"

definition RankInfo_GetBankMoneyPerDay :: "rank_info \<Rightarrow> u32" where
  "RankInfo_GetBankMoneyPerDay r =
     (if rk_rankId r = GR_GUILDMASTER then GUILD_WITHDRAW_MONEY_UNLIMITED else rk_bankMoneyPerDay r)"

definition RankInfo_SetBankMoneyPerDay :: "u32 \<Rightarrow> rank_info \<Rightarrow> rank_info \<times> guild_effect list" where
  "RankInfo_SetBankMoneyPerDay money r =
     (let money = (if rk_rankId r = GR_GUILDMASTER then GUILD_WITHDRAW_MONEY_UNLIMITED else money) in
      if rk_bankMoneyPerDay r = money then (r, [])
      else (r\<lparr>rk_bankMoneyPerDay := money\<rparr>,
            [GdDb ''CHAR_UPD_GUILD_RANK_BANK_MONEY'' [DbU32 money, DbU8 (rk_rankId r), DbU32 (rk_guildId r)],
             GdDb ''CHAR_UPD_GUILD_RANK_BANK_RESET_TIME'' [DbU32 (rk_guildId r), DbU8 (rk_rankId r)]]))"

definition RankInfo_GetBankTabRights :: "u8 \<Rightarrow> rank_info \<Rightarrow> u8" where
  "RankInfo_GetBankTabRights tabId r =
     (if tabId < GUILD_BANK_MAX_TABS then rs_rights (rk_bankTabRightsAndSlots r ! unat tabId) else 0)"

definition RankInfo_GetBankTabSlotsPerDay :: "u8 \<Rightarrow> rank_info \<Rightarrow> u32" where
  "RankInfo_GetBankTabSlotsPerDay tabId r =
     (if tabId < GUILD_BANK_MAX_TABS
      then if rk_rankId r = GR_GUILDMASTER then GUILD_WITHDRAW_SLOT_UNLIMITED
           else rs_slots (rk_bankTabRightsAndSlots r ! unat tabId)
      else 0)"

definition RankInfo_SetBankTabSlotsAndRights ::
  "u8 \<Rightarrow> bank_rights_slots \<Rightarrow> bool \<Rightarrow> rank_info \<Rightarrow> rank_info \<times> guild_effect list" where
  "RankInfo_SetBankTabSlotsAndRights tabId rs saveToDB r =
     (let rs = (if rk_rankId r = GR_GUILDMASTER then SetGuildMasterValues rs else rs) in
      if rk_bankTabRightsAndSlots r ! unat tabId = rs then (r, [])
      else (r\<lparr>rk_bankTabRightsAndSlots := (rk_bankTabRightsAndSlots r)[unat tabId := rs]\<rparr>,
            if saveToDB
            then [GdDb ''CHAR_DEL_GUILD_BANK_RIGHT'' [DbU32 (rk_guildId r), DbU8 tabId, DbU8 (rk_rankId r)],
                  GdDb ''CHAR_INS_GUILD_BANK_RIGHT''
                    [DbU32 (rk_guildId r), DbU8 tabId, DbU8 (rk_rankId r), DbU8 (rs_rights rs), DbU32 (rs_slots rs)],
                  GdDb (tab_stmt ''CHAR_UPD_GUILD_RANK_BANK_TIME'' tabId) [DbU32 (rk_guildId r), DbU8 (rk_rankId r)]]
            else []))"

section \<open>Bank tabs\<close>

text \<open>What the bank code reads of an item.\<close>

record bank_item =
  it_guidLow :: u32
  it_entry :: u32
  it_randomPropertyId :: u32
  it_suffixFactor :: u32
  it_count :: u32
  it_spellCharges :: u32
  it_enchantments :: "u32 list"

record bank_tab =
  bt_guildId :: u32
  bt_tabId :: u8
  bt_items :: "bank_item option list"
  bt_name :: string
  bt_icon :: string
  bt_text :: string

definition new_BankTab :: "u32 \<Rightarrow> u8 \<Rightarrow> bank_tab" where
  "new_BankTab guildId tabId =
     \<lparr>bt_guildId = guildId, bt_tabId = tabId, bt_items = replicate (unat GUILD_BANK_MAX_SLOTS) None,
      bt_name = [], bt_icon = [], bt_text = []\<rparr>"

definition BankTab_LoadFromDB :: "string \<Rightarrow> string \<Rightarrow> string \<Rightarrow> bank_tab \<Rightarrow> bank_tab" where
  "BankTab_LoadFromDB name icon tabText t = t\<lparr>bt_name := name, bt_icon := icon, bt_text := tabText\<rparr>"

text \<open>
  \<open>proto\<close> says whether the template of the item exists, \<open>loaded\<close> is the item \<^verbatim>\<open>Item::LoadFromDB\<close> read, if it could.
\<close>

definition BankTab_LoadItemFromDB ::
  "bool \<Rightarrow> bank_item option \<Rightarrow> u8 \<Rightarrow> bank_tab \<Rightarrow> bool \<times> bank_tab \<times> guild_effect list" where
  "BankTab_LoadItemFromDB proto loaded slotId t =
     (if GUILD_BANK_MAX_SLOTS \<le> slotId then (False, t, [])
      else if \<not> proto then (False, t, [])
      else case loaded of
        None \<Rightarrow> (False, t, [GdDb ''CHAR_DEL_NONEXISTENT_GUILD_BANK_ITEM''
                             [DbU32 (bt_guildId t), DbU8 (bt_tabId t), DbU8 slotId]])
      | Some item \<Rightarrow> (True, t\<lparr>bt_items := (bt_items t)[unat slotId := Some item]\<rparr>,
                      [GdCall ''AddToWorld'' [DbU32 (it_guidLow item)]]))"

text \<open>The tab is deleted right after, so its slots are not cleared.\<close>

definition BankTab_Delete :: "bool \<Rightarrow> bank_tab \<Rightarrow> guild_effect list" where
  "BankTab_Delete removeItemsFromDB t =
     concat (map (\<lambda>slot. case slot of
         None \<Rightarrow> []
       | Some item \<Rightarrow> GdCall ''RemoveFromWorld'' [DbU32 (it_guidLow item)] #
           (if removeItemsFromDB then [GdCall ''Item::DeleteFromDB'' [DbU32 (it_guidLow item)]] else []))
       (bt_items t))"

definition BankTab_GetItem :: "u8 \<Rightarrow> bank_tab \<Rightarrow> bank_item option" where
  "BankTab_GetItem slotId t = (if slotId < GUILD_BANK_MAX_SLOTS then bt_items t ! unat slotId else None)"

text \<open>The number of enchantments is written over a zero once they are counted; it is written in its place here.\<close>

definition BankTab_WriteSlotPacket :: "bank_tab \<Rightarrow> u8 \<Rightarrow> pkt_op list" where
  "BankTab_WriteSlotPacket t slotId =
     (case BankTab_GetItem slotId t of
        None \<Rightarrow> [Out8 slotId, Out32 0]
      | Some item \<Rightarrow>
          [Out8 slotId, Out32 (it_entry item)] @
          (if it_entry item = 0 then []
           else [Out32 0, Out32 (it_randomPropertyId item)] @
             (if it_randomPropertyId item \<noteq> 0 then [Out32 (it_suffixFactor item)] else []) @
             [Out32 (it_count item), Out32 0,
              Out8 (ucast (if sint (it_spellCharges item) < 0 then - it_spellCharges item else it_spellCharges item))] @
             (let ench = filter (\<lambda>(i, e). e \<noteq> 0) (enumerate 0 (it_enchantments item))
              in Out8 (word_of_nat (length ench)) # concat (map (\<lambda>(i, e). [Out8 (word_of_nat i), Out32 e]) ench))))"

definition BankTab_WritePacket :: "bank_tab \<Rightarrow> pkt_op list" where
  "BankTab_WritePacket t =
     Out8 GUILD_BANK_MAX_SLOTS # concat (map (\<lambda>i. BankTab_WriteSlotPacket t (word_of_nat i)) [0..<unat GUILD_BANK_MAX_SLOTS])"

definition BankTab_WriteInfoPacket :: "bank_tab \<Rightarrow> pkt_op list" where
  "BankTab_WriteInfoPacket t = [OutStr (bt_name t), OutStr (bt_icon t)]"

definition BankTab_SetInfo :: "string \<Rightarrow> string \<Rightarrow> bank_tab \<Rightarrow> bank_tab \<times> guild_effect list" where
  "BankTab_SetInfo name icon t =
     (if bt_name t = name \<and> bt_icon t = icon then (t, [])
      else (t\<lparr>bt_name := name, bt_icon := icon\<rparr>,
            [GdDb ''CHAR_UPD_GUILD_BANK_TAB_INFO''
               [DbString name, DbString icon, DbU32 (bt_guildId t), DbU8 (bt_tabId t)]]))"

definition BankTab_SetText :: "(nat \<Rightarrow> string \<Rightarrow> string) \<Rightarrow> string \<Rightarrow> bank_tab \<Rightarrow> bank_tab \<times> guild_effect list" where
  "BankTab_SetText utf8truncate tabText t =
     (if bt_text t = tabText then (t, [])
      else let tabText = utf8truncate MAX_GUILD_BANK_TAB_TEXT_LEN tabText in
        (t\<lparr>bt_text := tabText\<rparr>,
         [GdDb ''CHAR_UPD_GUILD_BANK_TAB_TEXT'' [DbString tabText, DbU32 (bt_guildId t), DbU8 (bt_tabId t)]]))"

section \<open>Members\<close>

text \<open>A player of the object accessor's map, as the guild code sees him; \<open>gdp_session\<close> tells whether he has a session.\<close>

record guild_player = player +
  gdp_session :: bool
  gdp_rank :: u8
  gdp_guildIdInvited :: u32
  gdp_money :: u32
  gdp_account :: u32

record remaining_value =
  rv_value :: u32
  rv_resetTime :: u32

record guild_member =
  mb_guildId :: u32
  mb_guid :: u64
  mb_name :: string
  mb_zoneId :: u32
  mb_level :: u8
  mb_class :: u8
  mb_logoutTime :: u64
  mb_accountId :: u32
  mb_rankId :: u8
  mb_publicNote :: string
  mb_officerNote :: string
  mb_bankRemaining :: "remaining_value list"

text \<open>The statistics are set right after construction; here they start as zero.\<close>

definition new_Member :: "u64 \<Rightarrow> u32 \<Rightarrow> u64 \<Rightarrow> u8 \<Rightarrow> guild_member" where
  "new_Member now guildId guid rankId =
     \<lparr>mb_guildId = guildId, mb_guid = guid, mb_name = [], mb_zoneId = 0, mb_level = 0, mb_class = 0, mb_logoutTime = now,
      mb_accountId = 0, mb_rankId = rankId, mb_publicNote = [], mb_officerNote = [],
      mb_bankRemaining = replicate (unat GUILD_BANK_MAX_TABS + 1) \<lparr>rv_value = 0, rv_resetTime = 0\<rparr>\<rparr>"

definition Member_SetStats :: "string \<Rightarrow> u8 \<Rightarrow> u8 \<Rightarrow> u32 \<Rightarrow> u32 \<Rightarrow> guild_member \<Rightarrow> guild_member" where
  "Member_SetStats name level cls zoneId accountId m =
     m\<lparr>mb_name := name, mb_level := level, mb_class := cls, mb_zoneId := zoneId, mb_accountId := accountId\<rparr>"

definition Member_SetStats_player :: "guild_player \<Rightarrow> guild_member \<Rightarrow> guild_member" where
  "Member_SetStats_player player m =
     m\<lparr>mb_name := pl_name player, mb_level := pl_level player, mb_class := pl_class player,
       mb_zoneId := pl_zone player, mb_accountId := gdp_account player\<rparr>"

definition Member_CheckStats :: "guild_member \<Rightarrow> bool" where
  "Member_CheckStats m =
     (if mb_level m < 1 then False
      else if mb_class m < CLASS_WARRIOR \<or> MAX_CLASSES \<le> mb_class m then False
      else True)"

definition Member_SetPublicNote :: "string \<Rightarrow> guild_member \<Rightarrow> guild_member \<times> guild_effect list" where
  "Member_SetPublicNote note m =
     (if mb_publicNote m = note then (m, [])
      else (m\<lparr>mb_publicNote := note\<rparr>,
            [GdDb ''CHAR_UPD_GUILD_MEMBER_PNOTE'' [DbString note, DbU32 (GUID_LOPART (mb_guid m))]]))"

definition Member_SetOfficerNote :: "string \<Rightarrow> guild_member \<Rightarrow> guild_member \<times> guild_effect list" where
  "Member_SetOfficerNote note m =
     (if mb_officerNote m = note then (m, [])
      else (m\<lparr>mb_officerNote := note\<rparr>,
            [GdDb ''CHAR_UPD_GUILD_MEMBER_OFFNOTE'' [DbString note, DbU32 (GUID_LOPART (mb_guid m))]]))"

definition Member_SaveToDB :: "guild_member \<Rightarrow> guild_effect list" where
  "Member_SaveToDB m =
     [GdDb ''CHAR_INS_GUILD_MEMBER''
        [DbU32 (mb_guildId m), DbU32 (GUID_LOPART (mb_guid m)), DbU8 (mb_rankId m),
         DbString (mb_publicNote m), DbString (mb_officerNote m)]]"

text \<open>A row of \<^verbatim>\<open>guild_member\<close> joined with \<^verbatim>\<open>characters\<close>; the reset times and values are listed with the six tabs first and money last.\<close>

record guild_member_row =
  mr_guildid :: u32
  mr_guid :: u32
  mr_rank :: u8
  mr_pnote :: string
  mr_offnote :: string
  mr_bank :: "remaining_value list"
  mr_name :: string
  mr_level :: u8
  mr_class :: u8
  mr_zone :: u32
  mr_account :: u32
  mr_logout_time :: u32

definition Member_LoadFromDB :: "(u64 \<Rightarrow> u32) \<Rightarrow> guild_member_row \<Rightarrow> guild_member \<Rightarrow> guild_member option" where
  "Member_LoadFromDB GetZoneIdFromDB row m =
     (let m = m\<lparr>mb_publicNote := mr_pnote row, mb_officerNote := mr_offnote row, mb_bankRemaining := mr_bank row\<rparr>;
          m = Member_SetStats (mr_name row) (mr_level row) (mr_class row) (mr_zone row) (mr_account row) m;
          m = m\<lparr>mb_logoutTime := ucast (mr_logout_time row)\<rparr>
      in if \<not> Member_CheckStats m then None
         else if mb_zoneId m = 0 then Some (m\<lparr>mb_zoneId := GetZoneIdFromDB (mb_guid m)\<rparr>)
         else Some m)"

definition Member_UpdateLogoutTime :: "u64 \<Rightarrow> guild_member \<Rightarrow> guild_member" where
  "Member_UpdateLogoutTime now m = m\<lparr>mb_logoutTime := now\<rparr>"

definition Member_IsRank :: "u8 \<Rightarrow> guild_member \<Rightarrow> bool" where
  "Member_IsRank rankId m = (mb_rankId m = rankId)"

definition Member_IsRankNotLower :: "u8 \<Rightarrow> guild_member \<Rightarrow> bool" where
  "Member_IsRankNotLower rankId m = (mb_rankId m \<le> rankId)"

definition Member_IsSamePlayer :: "u64 \<Rightarrow> guild_member \<Rightarrow> bool" where
  "Member_IsSamePlayer guid m = (mb_guid m = guid)"

definition Member_DecreaseBankRemainingValue :: "u8 \<Rightarrow> u32 \<Rightarrow> guild_member \<Rightarrow> guild_member \<times> guild_effect list" where
  "Member_DecreaseBankRemainingValue tabId amount m =
     (let rv = mb_bankRemaining m ! unat tabId;
          rv = rv\<lparr>rv_value := rv_value rv - amount\<rparr>
      in (m\<lparr>mb_bankRemaining := (mb_bankRemaining m)[unat tabId := rv]\<rparr>,
          [GdDb (if tabId = GUILD_BANK_MAX_TABS then ''CHAR_UPD_GUILD_MEMBER_BANK_REM_MONEY''
                 else tab_stmt ''CHAR_UPD_GUILD_MEMBER_BANK_REM_SLOTS'' tabId)
             [DbU32 (rv_value rv), DbU32 (mb_guildId m), DbU32 (GUID_LOPART (mb_guid m))]]))"

definition Member_ResetTabTimes :: "guild_member \<Rightarrow> guild_member" where
  "Member_ResetTabTimes m =
     m\<lparr>mb_bankRemaining := map (\<lambda>rv. rv\<lparr>rv_resetTime := 0\<rparr>) (take (unat GUILD_BANK_MAX_TABS) (mb_bankRemaining m)) @
         drop (unat GUILD_BANK_MAX_TABS) (mb_bankRemaining m)\<rparr>"

definition Member_ResetMoneyTime :: "guild_member \<Rightarrow> guild_member" where
  "Member_ResetMoneyTime m =
     m\<lparr>mb_bankRemaining := (mb_bankRemaining m)
         [unat GUILD_BANK_MAX_TABS := (mb_bankRemaining m ! unat GUILD_BANK_MAX_TABS)\<lparr>rv_resetTime := 0\<rparr>]\<rparr>"

section \<open>Emblem\<close>

record emblem_info =
  em_style :: u32
  em_color :: u32
  em_borderStyle :: u32
  em_borderColor :: u32
  em_backgroundColor :: u32

definition new_EmblemInfo :: emblem_info where
  "new_EmblemInfo = \<lparr>em_style = 0, em_color = 0, em_borderStyle = 0, em_borderColor = 0, em_backgroundColor = 0\<rparr>"

definition EmblemInfo_LoadFromDB :: "u8 \<Rightarrow> u8 \<Rightarrow> u8 \<Rightarrow> u8 \<Rightarrow> u8 \<Rightarrow> emblem_info" where
  "EmblemInfo_LoadFromDB style color borderStyle borderColor backgroundColor =
     \<lparr>em_style = ucast style, em_color = ucast color, em_borderStyle = ucast borderStyle,
      em_borderColor = ucast borderColor, em_backgroundColor = ucast backgroundColor\<rparr>"

definition EmblemInfo_WritePacket :: "emblem_info \<Rightarrow> pkt_op list" where
  "EmblemInfo_WritePacket e =
     [Out32 (em_style e), Out32 (em_color e), Out32 (em_borderStyle e), Out32 (em_borderColor e),
      Out32 (em_backgroundColor e)]"

definition EmblemInfo_SaveToDB :: "u32 \<Rightarrow> emblem_info \<Rightarrow> guild_effect list" where
  "EmblemInfo_SaveToDB guildId e =
     [GdDb ''CHAR_UPD_GUILD_EMBLEM_INFO''
        [DbU32 (em_style e), DbU32 (em_color e), DbU32 (em_borderStyle e), DbU32 (em_borderColor e),
         DbU32 (em_backgroundColor e), DbU32 guildId]]"

section \<open>The guild and the state\<close>

text \<open>The log holders exist from \<^verbatim>\<open>_CreateLogHolders\<close> on, which every guild goes through before it is used.\<close>

record guild =
  g_id :: u32
  g_name :: string
  g_leaderGuid :: u64
  g_motd :: string
  g_info :: string
  g_createdDate :: u64
  g_emblemInfo :: emblem_info
  g_accountsNumber :: u32
  g_bankMoney :: u64
  g_ranks :: "rank_info list"
  g_members :: "(u32 \<times> guild_member) list"
  g_bankTabs :: "bank_tab list"
  g_eventLog :: "event_log_entry log_holder"
  g_bankEventLog :: "bank_event_log_entry log_holder list"

definition new_Guild :: guild where
  "new_Guild =
     \<lparr>g_id = 0, g_name = [], g_leaderGuid = 0, g_motd = [], g_info = [], g_createdDate = 0, g_emblemInfo = new_EmblemInfo,
      g_accountsNumber = 0, g_bankMoney = 0, g_ranks = [], g_members = [], g_bankTabs = [],
      g_eventLog = new_LogHolder 0 0, g_bankEventLog = replicate (unat GUILD_BANK_MAX_TABS + 1) (new_LogHolder 0 0)\<rparr>"

record guild_state =
  gs_this :: guild
  gs_players :: "(u64 \<times> guild_player) list"
  GuildStore :: "(u32 \<times> guild) list"
  NextGuildId :: u32
  gs_out :: "guild_effect list"

text \<open>
  Answers from outside: the clock (one reading per operation), the configuration, the contact lists, what the database
  says about characters that are not online, texts and formats.
\<close>

record guild_env =
  gde_time :: u64
  gde_event_log_count :: u32
  gde_bank_event_log_count :: u32
  gde_two_side_guild :: bool
  gde_AllowMultipleGuildMaster :: bool
  gde_gm_log_trade :: bool
  gde_social :: "(u32, player_social) omap"
  gde_GetPlayerTeamByGUID :: "u64 \<Rightarrow> u32"
  gde_GetGuildIdFromDB :: "u64 \<Rightarrow> u32"
  gde_GetZoneIdFromDB :: "u64 \<Rightarrow> u32"
  gde_char_data :: "u32 \<Rightarrow> (string \<times> u8 \<times> u8 \<times> u16 \<times> u32) option"
  gde_normalizePlayerName :: "string \<Rightarrow> string option"
  gde_utf8truncate :: "nat \<Rightarrow> string \<Rightarrow> string"
  gde_GetAxiumString :: "u32 \<Rightarrow> u32 \<Rightarrow> string"
  gde_locale :: "u64 \<Rightarrow> u32"
  gde_days_float :: "u64 \<Rightarrow> u32"
  gde_secsToTimeBitFields :: "u64 \<Rightarrow> u32"
  gde_has_guild_bank :: "u64 \<Rightarrow> u64 \<Rightarrow> bool"
  gde_has_tabard_designer :: "u64 \<Rightarrow> u64 \<Rightarrow> bool"
  gde_feigns_death :: "u64 \<Rightarrow> bool"

type_synonym 'a guildm = "(guild_state, 'a) state"

definition gd_ret :: "'a \<Rightarrow> 'a guildm" where
  "gd_ret x = State_Monad.return x"

definition gd_asks :: "(guild_state \<Rightarrow> 'a) \<Rightarrow> 'a guildm" where
  "gd_asks f = State (\<lambda>s. (f s, s))"

definition gd_upd :: "(guild_state \<Rightarrow> guild_state) \<Rightarrow> unit guildm" where
  "gd_upd f = State (\<lambda>s. ((), f s))"

definition gd_emit :: "guild_effect list \<Rightarrow> unit guildm" where
  "gd_emit es = gd_upd (\<lambda>s. s\<lparr>gs_out := gs_out s @ es\<rparr>)"

definition gd_this :: "(guild \<Rightarrow> 'a) \<Rightarrow> 'a guildm" where
  "gd_this f = gd_asks (\<lambda>s. f (gs_this s))"

definition gd_set :: "(guild \<Rightarrow> guild) \<Rightarrow> unit guildm" where
  "gd_set f = gd_upd (\<lambda>s. s\<lparr>gs_this := f (gs_this s)\<rparr>)"

definition gd_when :: "bool \<Rightarrow> unit guildm \<Rightarrow> unit guildm" where
  "gd_when b m = (if b then m else gd_ret ())"

fun gd_for :: "'a list \<Rightarrow> ('a \<Rightarrow> unit guildm) \<Rightarrow> unit guildm" where
  "gd_for [] f = gd_ret ()"
| "gd_for (x # xs) f = do { f x; gd_for xs f }"

section \<open>Players\<close>

text \<open>
  \<^verbatim>\<open>ObjectAccessor::FindPlayer\<close> finds the players that have a session, in the world or between two maps
  (\<^verbatim>\<open>GetObjectInWorld\<close> for players); the player of the session that sent a request is at hand in any case.
\<close>

definition gd_FindPlayer :: "u64 \<Rightarrow> guild_state \<Rightarrow> guild_player option" where
  "gd_FindPlayer guid s =
     (case map_of (gs_players s) guid of Some p \<Rightarrow> if gdp_session p then Some p else None | None \<Rightarrow> None)"

definition gd_FindPlayerByName :: "string \<Rightarrow> guild_state \<Rightarrow> (u64 \<times> guild_player) option" where
  "gd_FindPlayerByName name s = find (\<lambda>(g, p). gdp_session p \<and> pl_name p = name) (gs_players s)"

definition blank_guild_player :: guild_player where
  "blank_guild_player =
     \<lparr>pl_guid = 0, pl_name = [], pl_team = 0, pl_security = 0, pl_in_group = False, pl_guild = 0, pl_visible = False,
      pl_afk = False, pl_dnd = False, pl_gm_tag = False, pl_dev_tag = False, pl_zone = 0, pl_level = 0, pl_class = 0,
      gdp_session = False, gdp_rank = 0, gdp_guildIdInvited = 0, gdp_money = 0, gdp_account = 0\<rparr>"

definition gd_player :: "u64 \<Rightarrow> guild_state \<Rightarrow> guild_player" where
  "gd_player p s = (case map_of (gs_players s) p of Some pl \<Rightarrow> pl | None \<Rightarrow> blank_guild_player)"

definition upd_guild_player :: "u64 \<Rightarrow> (guild_player \<Rightarrow> guild_player) \<Rightarrow> unit guildm" where
  "upd_guild_player p f =
     gd_upd (\<lambda>s. s\<lparr>gs_players := map (\<lambda>(k, pl). (k, if k = p then f pl else pl)) (gs_players s)\<rparr>)"

definition SetInGuild :: "u64 \<Rightarrow> u32 \<Rightarrow> unit guildm" where
  "SetInGuild p guildId = upd_guild_player p (\<lambda>pl. pl\<lparr>pl_guild := guildId\<rparr>)"

definition SetRank :: "u64 \<Rightarrow> u8 \<Rightarrow> unit guildm" where
  "SetRank p rankId = upd_guild_player p (\<lambda>pl. pl\<lparr>gdp_rank := rankId\<rparr>)"

definition SetGuildIdInvited :: "u64 \<Rightarrow> u32 \<Rightarrow> unit guildm" where
  "SetGuildIdInvited p guildId = upd_guild_player p (\<lambda>pl. pl\<lparr>gdp_guildIdInvited := guildId\<rparr>)"

definition SetMoney :: "u64 \<Rightarrow> u32 \<Rightarrow> unit guildm" where
  "SetMoney p v = do {
     upd_guild_player p (\<lambda>pl. pl\<lparr>gdp_money := v\<rparr>);
     gd_emit [GdCall ''MoneyChanged'' [DbU64 p, DbU32 v], GdCall ''UpdateAchievementCriteria'' [DbU64 p]]
   }"

text \<open>The argument is an \<^verbatim>\<open>int32\<close>.\<close>

definition ModifyMoney :: "u64 \<Rightarrow> u32 \<Rightarrow> unit guildm" where
  "ModifyMoney p d = do {
     gd_emit [GdCall ''OnPlayerMoneyChanged'' [DbU64 p, DbU32 d]];
     money \<leftarrow> gd_asks (\<lambda>s. gdp_money (gd_player p s));
     if sint d < 0 then SetMoney p (if - d < money then money + d else 0)
     else if money < MAX_MONEY_AMOUNT - d then SetMoney p (money + d)
     else do {
       gd_when (d \<noteq> 0) (gd_emit [GdCall ''SendEquipError'' [DbU64 p]]);
       SetMoney p MAX_MONEY_AMOUNT
     }
   }"

definition SaveGoldToDB :: "u64 \<Rightarrow> unit guildm" where
  "SaveGoldToDB p = do {
     pl \<leftarrow> gd_asks (gd_player p);
     gd_emit [GdDb ''UPDATE characters SET money'' [DbU32 (gdp_money pl), DbU32 (GUID_LOPART p)]]
   }"

section \<open>Sending\<close>

definition gd_packet :: "u16 \<Rightarrow> pkt_op list \<Rightarrow> world_packet" where
  "gd_packet opcode ops = wp_add ops (new_WorldPacket opcode)"

definition Guild_SendCommandResult :: "u64 \<Rightarrow> u32 \<Rightarrow> u32 \<Rightarrow> string \<Rightarrow> unit guildm" where
  "Guild_SendCommandResult p cmd errCode param =
     gd_emit [GdSend p (gd_packet 0x093 [Out32 cmd, OutStr param, Out32 errCode])]"

definition Guild_SendSaveEmblemResult :: "u64 \<Rightarrow> u32 \<Rightarrow> unit guildm" where
  "Guild_SendSaveEmblemResult p errCode = gd_emit [GdSend p (gd_packet 0x1F1 [Out32 errCode])]"

definition online_members :: "guild_state \<Rightarrow> u64 list" where
  "online_members s =
     filter (\<lambda>g. gd_FindPlayer g s \<noteq> None) (map (\<lambda>(k, m). mb_guid m) (g_members (gs_this s)))"

definition Guild_BroadcastPacket :: "world_packet \<Rightarrow> unit guildm" where
  "Guild_BroadcastPacket pkt = do {
     gs \<leftarrow> gd_asks online_members;
     gd_emit (map (\<lambda>g. GdSend g pkt) gs)
   }"

definition Guild_BroadcastPacketToRank :: "world_packet \<Rightarrow> u8 \<Rightarrow> unit guildm" where
  "Guild_BroadcastPacketToRank pkt rankId = do {
     gs \<leftarrow> gd_asks (\<lambda>s. filter (\<lambda>g. gd_FindPlayer g s \<noteq> None)
       (map (\<lambda>(k, m). mb_guid m) (filter (\<lambda>(k, m). Member_IsRank rankId m) (g_members (gs_this s)))));
     gd_emit (map (\<lambda>g. GdSend g pkt) gs)
   }"

text \<open>The parameters that are not \<^verbatim>\<open>NULL\<close> are given as a list of at most three.\<close>

definition Guild_BroadcastEvent :: "u8 \<Rightarrow> u64 \<Rightarrow> string list \<Rightarrow> unit guildm" where
  "Guild_BroadcastEvent guildEvent guid params =
     Guild_BroadcastPacket (gd_packet 0x092
       ([Out8 guildEvent, Out8 (word_of_nat (length params))] @ map (\<lambda>s. OutCStr (Some s)) params @
        (if guid \<noteq> 0 then [Out64 guid] else [])))"

definition BankTab_SendText :: "u64 option \<Rightarrow> bank_tab \<Rightarrow> unit guildm" where
  "BankTab_SendText session t =
     (let pkt = gd_packet 0x40A [Out8 (bt_tabId t), OutStr (bt_text t)] in
      case session of Some p \<Rightarrow> gd_emit [GdSend p pkt] | None \<Rightarrow> Guild_BroadcastPacket pkt)"

section \<open>Ranks, tabs and members of the guild\<close>

definition GetRanksSize :: "guild \<Rightarrow> u8" where
  "GetRanksSize g = word_of_nat (length (g_ranks g))"

definition GetRankInfo :: "u8 \<Rightarrow> guild \<Rightarrow> rank_info option" where
  "GetRankInfo rankId g = (if rankId < GetRanksSize g then Some (g_ranks g ! unat rankId) else None)"

definition GetLowestRankId :: "guild \<Rightarrow> u8" where
  "GetLowestRankId g = word_of_nat (length (g_ranks g)) - 1"

definition GetPurchasedTabsSize :: "guild \<Rightarrow> u8" where
  "GetPurchasedTabsSize g = word_of_nat (length (g_bankTabs g))"

definition GetBankTab :: "u8 \<Rightarrow> guild \<Rightarrow> bank_tab option" where
  "GetBankTab tabId g = (if unat tabId < length (g_bankTabs g) then Some (g_bankTabs g ! unat tabId) else None)"

definition GetRankName :: "u8 \<Rightarrow> guild \<Rightarrow> string" where
  "GetRankName rankId g = (case GetRankInfo rankId g of Some r \<Rightarrow> rk_name r | None \<Rightarrow> ''<unknown>'')"

definition GetRankRights :: "u8 \<Rightarrow> guild \<Rightarrow> u32" where
  "GetRankRights rankId g = (case GetRankInfo rankId g of Some r \<Rightarrow> rk_rights r | None \<Rightarrow> 0)"

definition GetRankBankMoneyPerDay :: "u8 \<Rightarrow> guild \<Rightarrow> u32" where
  "GetRankBankMoneyPerDay rankId g =
     (case GetRankInfo rankId g of Some r \<Rightarrow> RankInfo_GetBankMoneyPerDay r | None \<Rightarrow> 0)"

definition GetRankBankTabSlotsPerDay :: "u8 \<Rightarrow> u8 \<Rightarrow> guild \<Rightarrow> u32" where
  "GetRankBankTabSlotsPerDay rankId tabId g =
     (if tabId < GetPurchasedTabsSize g
      then case GetRankInfo rankId g of Some r \<Rightarrow> RankInfo_GetBankTabSlotsPerDay tabId r | None \<Rightarrow> 0
      else 0)"

definition GetRankBankTabRights :: "u8 \<Rightarrow> u8 \<Rightarrow> guild \<Rightarrow> u8" where
  "GetRankBankTabRights rankId tabId g =
     (case GetRankInfo rankId g of Some r \<Rightarrow> RankInfo_GetBankTabRights tabId r | None \<Rightarrow> 0)"

definition HasRankRight :: "guild_player \<Rightarrow> u32 \<Rightarrow> guild \<Rightarrow> bool" where
  "HasRankRight player right g = (GetRankRights (gdp_rank player) g AND right \<noteq> GR_RIGHT_EMPTY)"

definition Guild_GetMember :: "u64 \<Rightarrow> guild \<Rightarrow> guild_member option" where
  "Guild_GetMember guid g = map_of (g_members g) (GUID_LOPART guid)"

definition Guild_GetMemberByName :: "u64 \<Rightarrow> string \<Rightarrow> (u32 \<times> guild_member) option guildm" where
  "Guild_GetMemberByName p name = do {
     found \<leftarrow> gd_this (\<lambda>g. find (\<lambda>(k, m). mb_name m = name) (g_members g));
     (case found of
        Some e \<Rightarrow> gd_ret (Some e)
      | None \<Rightarrow> do {
          Guild_SendCommandResult p GUILD_INVITE_S ERR_GUILD_PLAYER_NOT_IN_GUILD_S name;
          gd_ret None
        })
   }"

definition DeleteMemberFromDB :: "u32 \<Rightarrow> unit guildm" where
  "DeleteMemberFromDB lowguid = gd_emit [GdDb ''CHAR_DEL_GUILD_MEMBER'' [DbU32 lowguid]]"

definition Guild_IsLeader :: "u64 \<Rightarrow> guild \<Rightarrow> bool" where
  "Guild_IsLeader p g =
     (if p = g_leaderGuid g then True
      else case Guild_GetMember p g of Some m \<Rightarrow> Member_IsRank GR_GUILDMASTER m | None \<Rightarrow> False)"

text \<open>Changing the object behind a \<^verbatim>\<open>Member*\<close>, a \<^verbatim>\<open>RankInfo*\<close> or a \<^verbatim>\<open>BankTab*\<close>.\<close>

definition map_member :: "u32 \<Rightarrow> (guild_member \<Rightarrow> guild_member) \<Rightarrow> guild \<Rightarrow> guild" where
  "map_member k f g = g\<lparr>g_members := map (\<lambda>(k', m). (k', if k' = k then f m else m)) (g_members g)\<rparr>"

definition upd_guild_member :: "u32 \<Rightarrow> (guild_member \<Rightarrow> guild_member \<times> guild_effect list) \<Rightarrow> unit guildm" where
  "upd_guild_member k f = do {
     m \<leftarrow> gd_this (\<lambda>g. map_of (g_members g) k);
     (case m of None \<Rightarrow> gd_ret () | Some m \<Rightarrow> do {
        gd_set (map_member k (\<lambda>m. fst (f m)));
        gd_emit (snd (f m))
      })
   }"

definition upd_rank :: "u8 \<Rightarrow> (rank_info \<Rightarrow> rank_info \<times> guild_effect list) \<Rightarrow> unit guildm" where
  "upd_rank rankId f = do {
     r \<leftarrow> gd_this (GetRankInfo rankId);
     (case r of None \<Rightarrow> gd_ret () | Some r \<Rightarrow> do {
        gd_set (\<lambda>g. g\<lparr>g_ranks := (g_ranks g)[unat rankId := fst (f r)]\<rparr>);
        gd_emit (snd (f r))
      })
   }"

definition upd_tab :: "u8 \<Rightarrow> (bank_tab \<Rightarrow> bank_tab \<times> guild_effect list) \<Rightarrow> unit guildm" where
  "upd_tab tabId f = do {
     t \<leftarrow> gd_this (GetBankTab tabId);
     (case t of None \<Rightarrow> gd_ret () | Some t \<Rightarrow> do {
        gd_set (\<lambda>g. g\<lparr>g_bankTabs := (g_bankTabs g)[unat tabId := fst (f t)]\<rparr>);
        gd_emit (snd (f t))
      })
   }"

definition Member_ChangeRank :: "u32 \<Rightarrow> u8 \<Rightarrow> unit guildm" where
  "Member_ChangeRank k newRank = do {
     m \<leftarrow> gd_this (\<lambda>g. map_of (g_members g) k);
     (case m of None \<Rightarrow> gd_ret () | Some m \<Rightarrow> do {
        gd_set (map_member k (\<lambda>m. m\<lparr>mb_rankId := newRank\<rparr>));
        player \<leftarrow> gd_asks (gd_FindPlayer (mb_guid m));
        gd_when (player \<noteq> None) (SetRank (mb_guid m) newRank);
        gd_emit [GdDb ''CHAR_UPD_GUILD_MEMBER_RANK'' [DbU8 newRank, DbU32 (GUID_LOPART (mb_guid m))]]
      })
   }"

definition Member_WritePacket :: "guild_env \<Rightarrow> guild_state \<Rightarrow> guild_member \<Rightarrow> pkt_op list" where
  "Member_WritePacket env s m =
     (case gd_FindPlayer (mb_guid m) s of
        Some player \<Rightarrow>
          [Out64 (pl_guid player), Out8 1, OutCStr (Some (pl_name player)), Out32 (ucast (mb_rankId m)),
           Out8 (pl_level player), Out8 (pl_class player), Out8 0, Out32 (pl_zone player)]
      | None \<Rightarrow>
          [Out64 (mb_guid m), Out8 0, OutStr (mb_name m), Out32 (ucast (mb_rankId m)),
           Out8 (mb_level m), Out8 (mb_class m), Out8 0, Out32 (mb_zoneId m),
           Out32 (gde_days_float env (gde_time env - mb_logoutTime m))]) @
     [OutStr (mb_publicNote m), OutStr (mb_officerNote m)]"

text \<open>The method is \<^verbatim>\<open>const\<close>, but renews the remaining value through a cast when a day has passed.\<close>

definition Member_GetBankRemainingValue :: "guild_env \<Rightarrow> u8 \<Rightarrow> u32 \<Rightarrow> u32 guildm" where
  "Member_GetBankRemainingValue env tabId k = do {
     this \<leftarrow> gd_this (\<lambda>g. g);
     (case map_of (g_members this) k of None \<Rightarrow> gd_ret 0 | Some m \<Rightarrow>
        if Member_IsRank GR_GUILDMASTER m
        then gd_ret (if tabId = GUILD_BANK_MAX_TABS then GUILD_WITHDRAW_MONEY_UNLIMITED else GUILD_WITHDRAW_SLOT_UNLIMITED)
        else if tabId \<noteq> GUILD_BANK_MAX_TABS \<and>
          GetRankBankTabRights (mb_rankId m) tabId this AND GUILD_BANK_RIGHT_VIEW_TAB \<noteq> GUILD_BANK_RIGHT_VIEW_TAB
        then gd_ret 0
        else let curTime = ucast (gde_time env div 60); rv = mb_bankRemaining m ! unat tabId in
          if rv_resetTime rv + 1440 < curTime
          then let value' = (if tabId = GUILD_BANK_MAX_TABS then GetRankBankMoneyPerDay (mb_rankId m) this
                            else GetRankBankTabSlotsPerDay (mb_rankId m) tabId this) in do {
            upd_guild_member k (\<lambda>m.
              (m\<lparr>mb_bankRemaining := (mb_bankRemaining m)[unat tabId := \<lparr>rv_value = value', rv_resetTime = curTime\<rparr>]\<rparr>,
               [GdDb (if tabId = GUILD_BANK_MAX_TABS then ''CHAR_UPD_GUILD_MEMBER_BANK_TIME_MONEY''
                      else tab_stmt ''CHAR_UPD_GUILD_MEMBER_BANK_TIME_REM_SLOTS'' tabId)
                  [DbU32 curTime, DbU32 value', DbU32 (mb_guildId m), DbU32 (GUID_LOPART (mb_guid m))]]));
            gd_ret value'
          }
          else gd_ret (rv_value rv))
   }"

section \<open>Private methods\<close>

definition CreateLogHolders :: "guild_env \<Rightarrow> unit guildm" where
  "CreateLogHolders env = gd_set (\<lambda>g. g\<lparr>
     g_eventLog := new_LogHolder (g_id g) (gde_event_log_count env),
     g_bankEventLog := replicate (unat GUILD_BANK_MAX_TABS + 1) (new_LogHolder (g_id g) (gde_bank_event_log_count env))\<rparr>)"

definition CreateNewBankTab :: "bool guildm" where
  "CreateNewBankTab = do {
     this \<leftarrow> gd_this (\<lambda>g. g);
     let tabId = GetPurchasedTabsSize this;
     if GUILD_BANK_MAX_TABS \<le> tabId then gd_ret False
     else do {
       gd_set (\<lambda>g. g\<lparr>g_bankTabs := g_bankTabs g @ [new_BankTab (g_id g) tabId]\<rparr>);
       gd_emit [GdDb ''CHAR_DEL_GUILD_BANK_TAB'' [DbU32 (g_id this), DbU8 tabId],
                GdDb ''CHAR_INS_GUILD_BANK_TAB'' [DbU32 (g_id this), DbU8 tabId]];
       gd_ret True
     }
   }"

definition CreateRank :: "string \<Rightarrow> u32 \<Rightarrow> unit guildm" where
  "CreateRank name rights = do {
     this \<leftarrow> gd_this (\<lambda>g. g);
     gd_when (\<not> GUILD_RANKS_MAX_COUNT \<le> GetRanksSize this) (do {
       let info = new_RankInfo (g_id this) (GetRanksSize this) name rights 0;
       gd_set (\<lambda>g. g\<lparr>g_ranks := g_ranks g @ [info]\<rparr>);
       gd_emit (map (\<lambda>i. GdDb ''CHAR_INS_GUILD_BANK_RIGHT_DEFAULT''
         [DbU32 (g_id this), DbU8 (word_of_nat i), DbU8 (GetRanksSize this)]) [0..<unat (GetPurchasedTabsSize this)]);
       gd_emit (RankInfo_SaveToDB info)
     })
   }"

definition CreateDefaultGuildRanks :: "guild_env \<Rightarrow> u32 \<Rightarrow> unit guildm" where
  "CreateDefaultGuildRanks env loc = do {
     i \<leftarrow> gd_this g_id;
     gd_emit [GdDb ''CHAR_DEL_GUILD_RANKS'' [DbU32 i], GdDb ''CHAR_DEL_GUILD_BANK_RIGHTS'' [DbU32 i]];
     CreateRank (gde_GetAxiumString env 811 loc) GR_RIGHT_ALL;
     CreateRank (gde_GetAxiumString env 812 loc) GR_RIGHT_ALL;
     CreateRank (gde_GetAxiumString env 813 loc) (GR_RIGHT_GCHATLISTEN OR GR_RIGHT_GCHATSPEAK);
     CreateRank (gde_GetAxiumString env 814 loc) (GR_RIGHT_GCHATLISTEN OR GR_RIGHT_GCHATSPEAK);
     CreateRank (gde_GetAxiumString env 815 loc) (GR_RIGHT_GCHATLISTEN OR GR_RIGHT_GCHATSPEAK)
   }"

definition UpdateAccountsNumber :: "unit guildm" where
  "UpdateAccountsNumber =
     gd_set (\<lambda>g. g\<lparr>g_accountsNumber := word_of_nat (length (remdups (map (\<lambda>(k, m). mb_accountId m) (g_members g))))\<rparr>)"

definition DeleteBankItems :: "bool \<Rightarrow> unit guildm" where
  "DeleteBankItems removeItemsFromDB = do {
     tabs \<leftarrow> gd_this g_bankTabs;
     gd_emit (concat (map (BankTab_Delete removeItemsFromDB) tabs));
     gd_set (\<lambda>g. g\<lparr>g_bankTabs := []\<rparr>)
   }"

definition ModifyBankMoney :: "u64 \<Rightarrow> bool \<Rightarrow> bool guildm" where
  "ModifyBankMoney amount add = do {
     this \<leftarrow> gd_this (\<lambda>g. g);
     if \<not> add \<and> g_bankMoney this < amount then gd_ret False
     else do {
       let money = (if add then g_bankMoney this + amount else g_bankMoney this - amount);
       gd_set (\<lambda>g. g\<lparr>g_bankMoney := money\<rparr>);
       gd_emit [GdDb ''CHAR_UPD_GUILD_BANK_MONEY'' [DbU64 money, DbU32 (g_id this)]];
       gd_ret True
     }
   }"

definition SetLeaderGUID :: "u32 \<Rightarrow> unit guildm" where
  "SetLeaderGUID k = do {
     this \<leftarrow> gd_this (\<lambda>g. g);
     (case map_of (g_members this) k of None \<Rightarrow> gd_ret () | Some m \<Rightarrow> do {
        gd_set (\<lambda>g. g\<lparr>g_leaderGuid := mb_guid m\<rparr>);
        Member_ChangeRank k GR_GUILDMASTER;
        gd_emit [GdDb ''CHAR_UPD_GUILD_LEADER'' [DbU32 (GUID_LOPART (mb_guid m)), DbU32 (g_id this)]]
      })
   }"

definition map_members_of_rank :: "u8 \<Rightarrow> (guild_member \<Rightarrow> guild_member) \<Rightarrow> guild \<Rightarrow> guild" where
  "map_members_of_rank rankId f g =
     g\<lparr>g_members := map (\<lambda>(k, m). (k, if Member_IsRank rankId m then f m else m)) (g_members g)\<rparr>"

definition SetRankBankMoneyPerDay :: "u8 \<Rightarrow> u32 \<Rightarrow> unit guildm" where
  "SetRankBankMoneyPerDay rankId moneyPerDay = do {
     r \<leftarrow> gd_this (GetRankInfo rankId);
     gd_when (r \<noteq> None) (do {
       gd_set (map_members_of_rank rankId Member_ResetMoneyTime);
       upd_rank rankId (RankInfo_SetBankMoneyPerDay moneyPerDay)
     })
   }"

definition SetRankBankTabRightsAndSlots :: "u8 \<Rightarrow> u8 \<Rightarrow> bank_rights_slots \<Rightarrow> bool \<Rightarrow> unit guildm" where
  "SetRankBankTabRightsAndSlots rankId tabId rs saveToDB = do {
     this \<leftarrow> gd_this (\<lambda>g. g);
     gd_when (\<not> GetPurchasedTabsSize this \<le> tabId \<and> GetRankInfo rankId this \<noteq> None) (do {
       gd_set (map_members_of_rank rankId Member_ResetTabTimes);
       upd_rank rankId (RankInfo_SetBankTabSlotsAndRights tabId rs saveToDB)
     })
   }"

definition GetMemberRemainingSlots :: "guild_env \<Rightarrow> u64 \<Rightarrow> u8 \<Rightarrow> u32 guildm" where
  "GetMemberRemainingSlots env guid tabId = do {
     m \<leftarrow> gd_this (Guild_GetMember guid);
     if m = None then gd_ret 0 else Member_GetBankRemainingValue env tabId (GUID_LOPART guid)
   }"

definition GetMemberRemainingMoney :: "guild_env \<Rightarrow> u64 \<Rightarrow> u32 guildm" where
  "GetMemberRemainingMoney env guid = do {
     m \<leftarrow> gd_this (Guild_GetMember guid);
     if m = None then gd_ret 0 else Member_GetBankRemainingValue env GUILD_BANK_MAX_TABS (GUID_LOPART guid)
   }"

definition DecreaseMemberRemainingSlots :: "guild_env \<Rightarrow> u64 \<Rightarrow> u8 \<Rightarrow> unit guildm" where
  "DecreaseMemberRemainingSlots env guid tabId = do {
     remainingSlots \<leftarrow> GetMemberRemainingSlots env guid tabId;
     gd_when (remainingSlots \<noteq> 0 \<and> remainingSlots < GUILD_WITHDRAW_SLOT_UNLIMITED)
       (upd_guild_member (GUID_LOPART guid) (Member_DecreaseBankRemainingValue tabId 1))
   }"

definition MemberHasTabRights :: "u64 \<Rightarrow> u8 \<Rightarrow> u8 \<Rightarrow> guild \<Rightarrow> bool" where
  "MemberHasTabRights guid tabId rights g =
     (case Guild_GetMember guid g of
        Some m \<Rightarrow>
          if Member_IsRank GR_GUILDMASTER m \<or> g_leaderGuid g = guid then True
          else GetRankBankTabRights (mb_rankId m) tabId g AND rights = rights
      | None \<Rightarrow> False)"

definition Guild_LogEvent :: "guild_env \<Rightarrow> u8 \<Rightarrow> u32 \<Rightarrow> u32 \<Rightarrow> u8 \<Rightarrow> unit guildm" where
  "Guild_LogEvent env eventType playerGuid1 playerGuid2 newRank = do {
     this \<leftarrow> gd_this (\<lambda>g. g);
     let (guid, h) = LogHolder_GetNextGUID (g_eventLog this);
     let entry = \<lparr>le_guildId = g_id this, le_guid = guid, le_timestamp = gde_time env, ee_eventType = eventType,
                  ee_playerGuid1 = playerGuid1, ee_playerGuid2 = playerGuid2, ee_newRank = newRank\<rparr>;
     let (h, es) = LogHolder_AddEvent EventLogEntry_SaveToDB entry h;
     gd_set (\<lambda>g. g\<lparr>g_eventLog := h\<rparr>);
     gd_emit es;
     gd_emit [GdCall ''OnGuildEvent'' [DbU32 (g_id this), DbU8 eventType, DbU32 playerGuid1, DbU32 playerGuid2, DbU8 newRank]]
   }"

definition Guild_LogBankEvent :: "guild_env \<Rightarrow> u8 \<Rightarrow> u8 \<Rightarrow> u32 \<Rightarrow> u32 \<Rightarrow> u16 \<Rightarrow> u8 \<Rightarrow> unit guildm" where
  "Guild_LogBankEvent env eventType tabId lowguid itemOrMoney itemStackCount destTabId = do {
     this \<leftarrow> gd_this (\<lambda>g. g);
     gd_when (\<not> GUILD_BANK_MAX_TABS < tabId) (do {
       let dbTabId = (if IsMoneyEvent eventType then GUILD_BANK_MONEY_LOGS_TAB else tabId);
       let tab = (if IsMoneyEvent eventType then GUILD_BANK_MAX_TABS else tabId);
       let (guid, h) = LogHolder_GetNextGUID (g_bankEventLog this ! unat tab);
       let entry = \<lparr>le_guildId = g_id this, le_guid = guid, le_timestamp = gde_time env, be_eventType = eventType,
                    be_bankTabId = dbTabId, be_playerGuid = lowguid, be_itemOrMoney = itemOrMoney,
                    be_itemStackCount = itemStackCount, be_destTabId = destTabId\<rparr>;
       let (h, es) = LogHolder_AddEvent BankEventLogEntry_SaveToDB entry h;
       gd_set (\<lambda>g. g\<lparr>g_bankEventLog := (g_bankEventLog g)[unat tab := h]\<rparr>);
       gd_emit es;
       gd_emit [GdCall ''OnGuildBankEvent'' [DbU32 (g_id this), DbU8 eventType, DbU8 tab, DbU32 lowguid, DbU32 itemOrMoney,
                  DbU16 itemStackCount, DbU8 destTabId]]
     })
   }"

end
