(* ===== verification/Guild_Handlers.thy ===== *)
theory Guild_Handlers
  imports Guild_Model
begin

text \<open>
  The public methods of \<^verbatim>\<open>Guild\<close>: joining and leaving, creation and disbanding, the handlers of client commands, the packets sent to
  clients and the loading of a guild from its tables.
\<close>

section \<open>Members handling\<close>

text \<open>\<^verbatim>\<open>AddMember\<close> once the member object is complete.\<close>

definition Guild_StoreMember :: "u64 \<Rightarrow> bool \<Rightarrow> guild_member \<Rightarrow> bool guildm" where
  "Guild_StoreMember guid online m = do {
     i \<leftarrow> gd_this g_id;
     gd_set (\<lambda>g. g\<lparr>g_members := AList.update (GUID_LOPART guid) m (g_members g)\<rparr>);
     gd_emit (Member_SaveToDB m);
     gd_when online (do {
       SetInGuild guid i;
       SetRank guid (mb_rankId m);
       SetGuildIdInvited guid 0
     });
     UpdateAccountsNumber;
     gd_emit [GdCall ''OnGuildAddMember'' [DbU32 i, DbU64 guid, DbU8 (mb_rankId m)]];
     gd_ret True
   }"

definition Guild_AddMember :: "guild_env \<Rightarrow> u64 \<Rightarrow> u8 \<Rightarrow> bool guildm" where
  "Guild_AddMember env guid rankId = do {
     player \<leftarrow> gd_asks (gd_FindPlayer guid);
     if (case player of Some pl \<Rightarrow> pl_guild pl \<noteq> 0 | None \<Rightarrow> gde_GetGuildIdFromDB env guid \<noteq> 0) then gd_ret False
     else do {
       gd_emit [GdCall ''RemovePetitionsAndSigns'' [DbU64 guid, DbU32 9]];
       this \<leftarrow> gd_this (\<lambda>g. g);
       let lowguid = GUID_LOPART guid;
       let rank = (if rankId = GUILD_RANK_NONE then GetLowestRankId this else rankId);
       let m = new_Member (gde_time env) (g_id this) guid rank;
       (case (case player of
                Some pl \<Rightarrow> Some (Member_SetStats_player pl m)
              | None \<Rightarrow> (case gde_char_data env lowguid of
                  None \<Rightarrow> None
                | Some (name, level, cls, zone, account) \<Rightarrow>
                    let m = Member_SetStats name level cls (ucast zone) account m
                    in if Member_CheckStats m then Some m else None)) of
          None \<Rightarrow> gd_ret False
        | Some m \<Rightarrow> Guild_StoreMember guid (player \<noteq> None) m)
     }
   }"

text \<open>\<^verbatim>\<open>DeleteMember\<close> from the call of the scripts on; with \<open>isDisbanding\<close> nothing else happens.\<close>

definition Guild_EraseMember :: "u64 \<Rightarrow> bool \<Rightarrow> bool \<Rightarrow> unit guildm" where
  "Guild_EraseMember guid isDisbanding isKicked = do {
     this \<leftarrow> gd_this (\<lambda>g. g);
     player \<leftarrow> gd_asks (gd_FindPlayer guid);
     gd_emit [GdCall ''OnGuildRemoveMember'' [DbU32 (g_id this), DbU64 guid, DbBool isDisbanding, DbBool isKicked]];
     gd_set (\<lambda>g. g\<lparr>g_members := AList.delete (GUID_LOPART guid) (g_members g)\<rparr>);
     gd_when (player \<noteq> None) (do {
       SetInGuild guid 0;
       SetRank guid 0
     });
     DeleteMemberFromDB (GUID_LOPART guid);
     gd_when (\<not> isDisbanding) UpdateAccountsNumber
   }"

text \<open>The loop of \<^verbatim>\<open>Disband\<close>; the fuel is the number of members, and every round erases one.\<close>

fun Disband_loop :: "nat \<Rightarrow> unit guildm" where
  "Disband_loop 0 = gd_ret ()"
| "Disband_loop (Suc n) = do {
     ms \<leftarrow> gd_this g_members;
     (case ms of [] \<Rightarrow> gd_ret () | (k, m) # _ \<Rightarrow> do {
        Guild_EraseMember (mb_guid m) True False;
        Disband_loop n
      })
   }"

definition RemoveGuild :: "u32 \<Rightarrow> unit guildm" where
  "RemoveGuild guildId = gd_upd (\<lambda>s. s\<lparr>GuildStore := AList.delete guildId (GuildStore s)\<rparr>)"

definition Guild_Disband :: "unit guildm" where
  "Guild_Disband = do {
     i \<leftarrow> gd_this g_id;
     gd_emit [GdCall ''OnGuildDisband'' [DbU32 i]];
     Guild_BroadcastEvent GE_DISBANDED 0 [];
     n \<leftarrow> gd_this (\<lambda>g. length (g_members g));
     Disband_loop n;
     gd_emit [GdDb ''CHAR_DEL_GUILD'' [DbU32 i], GdDb ''CHAR_DEL_GUILD_RANKS'' [DbU32 i],
              GdDb ''CHAR_DEL_GUILD_BANK_TABS'' [DbU32 i]];
     DeleteBankItems True;
     gd_emit [GdDb ''CHAR_DEL_GUILD_BANK_ITEMS'' [DbU32 i], GdDb ''CHAR_DEL_GUILD_BANK_RIGHTS'' [DbU32 i],
              GdDb ''CHAR_DEL_GUILD_BANK_EVENTLOGS'' [DbU32 i], GdDb ''CHAR_DEL_GUILD_EVENTLOGS'' [DbU32 i]];
     RemoveGuild i
   }"

text \<open>The scan for the old leader and for a new one, the first of the highest rank.\<close>

fun DeleteMember_scan ::
  "u32 \<Rightarrow> (u32 \<times> guild_member) list \<Rightarrow> guild_member option \<times> (u32 \<times> guild_member) option \<Rightarrow>
   guild_member option \<times> (u32 \<times> guild_member) option" where
  "DeleteMember_scan lowguid [] acc = acc"
| "DeleteMember_scan lowguid ((k, m) # ms) (oldLeader, newLeader) =
     DeleteMember_scan lowguid ms
       (if k = lowguid then (Some m, newLeader)
        else if (case newLeader of None \<Rightarrow> True | Some (k', m') \<Rightarrow> mb_rankId m < mb_rankId m') then (oldLeader, Some (k, m))
        else (oldLeader, newLeader))"

definition Guild_DeleteMember :: "u64 \<Rightarrow> bool \<Rightarrow> bool \<Rightarrow> unit guildm" where
  "Guild_DeleteMember guid isDisbanding isKicked = do {
     this \<leftarrow> gd_this (\<lambda>g. g);
     if g_leaderGuid this = guid \<and> \<not> isDisbanding
     then (case DeleteMember_scan (GUID_LOPART guid) (g_members this) (None, None) of
         (oldLeader, None) \<Rightarrow> Guild_Disband
       | (oldLeader, Some (k, newLeader)) \<Rightarrow> do {
           SetLeaderGUID k;
           newLeaderPlayer \<leftarrow> gd_asks (gd_FindPlayer (mb_guid newLeader));
           gd_when (newLeaderPlayer \<noteq> None) (SetRank (mb_guid newLeader) GR_GUILDMASTER);
           (case oldLeader of None \<Rightarrow> gd_ret () | Some old \<Rightarrow> do {
              Guild_BroadcastEvent GE_LEADER_CHANGED 0 [mb_name old, mb_name newLeader];
              Guild_BroadcastEvent GE_LEFT guid [mb_name old]
            });
           Guild_EraseMember guid isDisbanding isKicked
         })
     else Guild_EraseMember guid isDisbanding isKicked
   }"

definition Guild_ChangeMemberRank :: "u64 \<Rightarrow> u8 \<Rightarrow> bool guildm" where
  "Guild_ChangeMemberRank guid newRank = do {
     this \<leftarrow> gd_this (\<lambda>g. g);
     if newRank \<le> GetLowestRankId this \<and> Guild_GetMember guid this \<noteq> None
     then do { Member_ChangeRank (GUID_LOPART guid) newRank; gd_ret True }
     else gd_ret False
   }"

section \<open>Creation\<close>

definition gd_toupper :: "string \<Rightarrow> string" where
  "gd_toupper s = map (\<lambda>c. if 97 \<le> (of_char c :: nat) \<and> (of_char c :: nat) \<le> 122 then char_of (of_char c - 32 :: nat) else c) s"

definition GetGuildByName :: "string \<Rightarrow> guild_state \<Rightarrow> (u32 \<times> guild) option" where
  "GetGuildByName guildName s = find (\<lambda>(i, g). gd_toupper guildName = gd_toupper (g_name g)) (GuildStore s)"

definition GenerateGuildId :: "u32 guildm" where
  "GenerateGuildId = do {
     i \<leftarrow> gd_asks NextGuildId;
     gd_when (0xFFFFFFFE \<le> i) (gd_emit [GdCall ''World::StopNow'' []]);
     gd_upd (\<lambda>s. s\<lparr>NextGuildId := i + 1\<rparr>);
     gd_ret i
   }"

definition Guild_Create :: "guild_env \<Rightarrow> u64 \<Rightarrow> string \<Rightarrow> bool guildm" where
  "Guild_Create env leader name = do {
     found \<leftarrow> gd_asks (GetGuildByName name);
     if found \<noteq> None then gd_ret False
     else do {
       i \<leftarrow> GenerateGuildId;
       gd_set (\<lambda>g. g\<lparr>g_id := i, g_leaderGuid := leader, g_name := name, g_info := [], g_motd := ''No message set.'',
         g_bankMoney := 0, g_createdDate := gde_time env\<rparr>);
       CreateLogHolders env;
       e \<leftarrow> gd_this g_emblemInfo;
       gd_emit [GdDb ''CHAR_DEL_GUILD_MEMBERS'' [DbU32 i],
         GdDb ''CHAR_INS_GUILD''
           [DbU32 i, DbString name, DbU32 (GUID_LOPART leader), DbString [], DbString ''No message set.'',
            DbU64 (ucast (ucast (gde_time env) :: u32)), DbU32 (em_style e), DbU32 (em_color e), DbU32 (em_borderStyle e),
            DbU32 (em_borderColor e), DbU32 (em_backgroundColor e), DbU64 0]];
       CreateDefaultGuildRanks env (gde_locale env leader);
       ret \<leftarrow> Guild_AddMember env leader GR_GUILDMASTER;
       gd_when ret (gd_emit [GdCall ''OnGuildCreate'' [DbU32 i, DbU64 leader, DbString name]]);
       gd_ret ret
     }
   }"

section \<open>Packets to clients\<close>

definition SendBankContent :: "guild_env \<Rightarrow> u64 \<Rightarrow> u8 \<Rightarrow> unit guildm" where
  "SendBankContent env p tabId = do {
     this \<leftarrow> gd_this (\<lambda>g. g);
     gd_when (MemberHasTabRights p tabId GUILD_BANK_RIGHT_VIEW_TAB this) (case GetBankTab tabId this of
         None \<Rightarrow> gd_ret ()
       | Some t \<Rightarrow> do {
           slots \<leftarrow> GetMemberRemainingSlots env p tabId;
           gd_emit [GdSend p (gd_packet 0x3E8
             ([Out64 (g_bankMoney this), Out8 tabId, Out32 slots, Out8 0] @ BankTab_WritePacket t))]
         })
   }"

definition SendBankMoneyUpdate :: "guild_env \<Rightarrow> u64 \<Rightarrow> unit guildm" where
  "SendBankMoneyUpdate env p = do {
     money \<leftarrow> gd_this g_bankMoney;
     slots \<leftarrow> GetMemberRemainingSlots env p 0;
     Guild_BroadcastPacket (gd_packet 0x3E8 [Out64 money, Out8 0, Out32 slots, Out8 0, Out8 0])
   }"

definition Guild_SendInfo :: "guild_env \<Rightarrow> u64 \<Rightarrow> unit guildm" where
  "Guild_SendInfo env p = do {
     this \<leftarrow> gd_this (\<lambda>g. g);
     gd_emit [GdSend p (gd_packet 0x088
       [OutStr (g_name this), Out32 (gde_secsToTimeBitFields env (g_createdDate this)),
        Out32 (word_of_nat (length (g_members this))), Out32 (g_accountsNumber this)])]
   }"

definition SendEventLog :: "guild_env \<Rightarrow> u64 \<Rightarrow> unit guildm" where
  "SendEventLog env p = do {
     this \<leftarrow> gd_this (\<lambda>g. g);
     gd_emit [GdSend p (gd_packet 0x3FF (LogHolder_WritePacket (EventLogEntry_WritePacket (gde_time env)) (g_eventLog this)))]
   }"

definition SendBankLog :: "guild_env \<Rightarrow> u64 \<Rightarrow> u8 \<Rightarrow> unit guildm" where
  "SendBankLog env p tabId = do {
     this \<leftarrow> gd_this (\<lambda>g. g);
     gd_when (tabId < GetPurchasedTabsSize this \<or> tabId = GUILD_BANK_MAX_TABS)
       (gd_emit [GdSend p (gd_packet 0x3EE
         (Out8 tabId # LogHolder_WritePacket (BankEventLogEntry_WritePacket (gde_time env)) (g_bankEventLog this ! unat tabId)))])
   }"

definition SendMoneyInfo :: "guild_env \<Rightarrow> u64 \<Rightarrow> unit guildm" where
  "SendMoneyInfo env p = do {
     money \<leftarrow> GetMemberRemainingMoney env p;
     gd_emit [GdSend p (gd_packet 0x3FE [Out32 money])]
   }"

definition SendBankTabData :: "guild_env \<Rightarrow> u64 \<Rightarrow> u8 \<Rightarrow> unit guildm" where
  "SendBankTabData env p tabId = do {
     this \<leftarrow> gd_this (\<lambda>g. g);
     gd_when (tabId < GetPurchasedTabsSize this) (do {
       SendMoneyInfo env p;
       SendBankContent env p tabId
     })
   }"

definition SendBankTabsInfo :: "guild_env \<Rightarrow> u64 \<Rightarrow> unit guildm" where
  "SendBankTabsInfo env p = do {
     this \<leftarrow> gd_this (\<lambda>g. g);
     slots \<leftarrow> GetMemberRemainingSlots env p 0;
     gd_emit [GdSend p (gd_packet 0x3E8
       ([Out64 (g_bankMoney this), Out8 0, Out32 slots, Out8 1, Out8 (GetPurchasedTabsSize this)] @
        concat (map BankTab_WriteInfoPacket (g_bankTabs this)) @ [Out8 0]))]
   }"

definition SendBankTabText :: "u64 \<Rightarrow> u8 \<Rightarrow> unit guildm" where
  "SendBankTabText p tabId = do {
     t \<leftarrow> gd_this (GetBankTab tabId);
     (case t of None \<Rightarrow> gd_ret () | Some t \<Rightarrow> BankTab_SendText (Some p) t)
   }"

text \<open>The rights and remaining slots of the tabs, as the packet of permissions lists them.\<close>

fun permission_tabs :: "guild_env \<Rightarrow> u64 \<Rightarrow> u8 \<Rightarrow> nat list \<Rightarrow> pkt_op list guildm" where
  "permission_tabs env p rankId [] = gd_ret []"
| "permission_tabs env p rankId (i # is) = do {
     rights \<leftarrow> gd_this (GetRankBankTabRights rankId (word_of_nat i));
     slots \<leftarrow> GetMemberRemainingSlots env p (word_of_nat i);
     ops \<leftarrow> permission_tabs env p rankId is;
     gd_ret ([Out32 (ucast rights), Out32 slots] @ ops)
   }"

definition SendPermissions :: "guild_env \<Rightarrow> u64 \<Rightarrow> unit guildm" where
  "SendPermissions env p = do {
     rankId \<leftarrow> gd_asks (\<lambda>s. gdp_rank (gd_player p s));
     this \<leftarrow> gd_this (\<lambda>g. g);
     money \<leftarrow> GetMemberRemainingMoney env p;
     ops \<leftarrow> permission_tabs env p rankId [0..<unat GUILD_BANK_MAX_TABS];
     gd_emit [GdSend p (gd_packet 0x3FD
       ([Out32 (ucast rankId), Out32 (GetRankRights rankId this), Out32 money, Out8 (GetPurchasedTabsSize this)] @ ops))]
   }"

definition SendLoginInfo :: "guild_env \<Rightarrow> u64 \<Rightarrow> unit guildm" where
  "SendLoginInfo env p = do {
     motd \<leftarrow> gd_this g_motd;
     gd_emit [GdSend p (gd_packet 0x092 [Out8 GE_MOTD, Out8 1, OutStr motd])];
     SendBankTabsInfo env p;
     pl \<leftarrow> gd_asks (gd_player p);
     Guild_BroadcastEvent GE_SIGNED_ON p [pl_name pl]
   }"

definition Guild_HandleRoster :: "guild_env \<Rightarrow> u64 option \<Rightarrow> unit guildm" where
  "Guild_HandleRoster env session = do {
     this \<leftarrow> gd_this (\<lambda>g. g);
     ms \<leftarrow> gd_asks (\<lambda>s. concat (map (\<lambda>(k, m). Member_WritePacket env s m) (g_members this)));
     let pkt = gd_packet 0x08A
       ([Out32 (word_of_nat (length (g_members this))), OutStr (g_motd this), OutStr (g_info this),
         Out32 (ucast (GetRanksSize this))] @ concat (map RankInfo_WritePacket (g_ranks this)) @ ms);
     (case session of Some p \<Rightarrow> gd_emit [GdSend p pkt] | None \<Rightarrow> Guild_BroadcastPacket pkt)
   }"

definition Guild_HandleQuery :: "u64 \<Rightarrow> unit guildm" where
  "Guild_HandleQuery p = do {
     this \<leftarrow> gd_this (\<lambda>g. g);
     gd_emit [GdSend p (gd_packet 0x055
       ([Out32 (g_id this), OutStr (g_name this)] @
        map (\<lambda>i. if i < unat (GetRanksSize this) then OutStr (rk_name (g_ranks this ! i)) else Out8 0)
          [0..<unat GUILD_RANKS_MAX_COUNT] @
        EmblemInfo_WritePacket (g_emblemInfo this) @ [Out32 0]))]
   }"

text \<open>
  \<^verbatim>\<open>ChatHandler::FillMessageData\<close> is code of the chat handler; \<open>data\<close> is the packet it fills.
\<close>

definition BroadcastToGuild :: "guild_env \<Rightarrow> u64 \<Rightarrow> bool \<Rightarrow> world_packet \<Rightarrow> unit guildm" where
  "BroadcastToGuild env p officerOnly data = do {
     this \<leftarrow> gd_this (\<lambda>g. g);
     sender \<leftarrow> gd_asks (gd_player p);
     gd_when (HasRankRight sender (if officerOnly then GR_RIGHT_OFFCHATSPEAK else GR_RIGHT_GCHATSPEAK) this) (do {
       gs \<leftarrow> gd_asks (\<lambda>s. filter (\<lambda>g. case gd_FindPlayer g s of
           None \<Rightarrow> False
         | Some pl \<Rightarrow>
             HasRankRight pl (if officerOnly then GR_RIGHT_OFFCHATLISTEN else GR_RIGHT_GCHATLISTEN) this \<and>
             \<not> HasIgnore (GUID_LOPART p) (omap_at new_PlayerSocial (gde_social env) (GUID_LOPART g)))
         (map (\<lambda>(k, m). mb_guid m) (g_members this)));
       gd_emit (map (\<lambda>g. GdSend g data) gs)
     })
   }"

section \<open>Client commands\<close>

definition HandleSetMOTD :: "u64 \<Rightarrow> string \<Rightarrow> unit guildm" where
  "HandleSetMOTD p motd = do {
     this \<leftarrow> gd_this (\<lambda>g. g);
     pl \<leftarrow> gd_asks (gd_player p);
     if g_motd this = motd then gd_ret ()
     else if \<not> HasRankRight pl GR_RIGHT_SETMOTD this then Guild_SendCommandResult p GUILD_INVITE_S ERR_GUILD_PERMISSIONS []
     else do {
       gd_set (\<lambda>g. g\<lparr>g_motd := motd\<rparr>);
       gd_emit [GdCall ''OnGuildMOTDChanged'' [DbU32 (g_id this), DbString motd],
                GdDb ''CHAR_UPD_GUILD_MOTD'' [DbString motd, DbU32 (g_id this)]];
       Guild_BroadcastEvent GE_MOTD 0 [motd]
     }
   }"

definition HandleSetInfo :: "u64 \<Rightarrow> string \<Rightarrow> unit guildm" where
  "HandleSetInfo p info = do {
     this \<leftarrow> gd_this (\<lambda>g. g);
     pl \<leftarrow> gd_asks (gd_player p);
     if g_info this = info then gd_ret ()
     else if \<not> HasRankRight pl GR_RIGHT_MODIFY_GUILD_INFO this
     then Guild_SendCommandResult p GUILD_CREATE_S ERR_GUILD_PERMISSIONS []
     else do {
       gd_set (\<lambda>g. g\<lparr>g_info := info\<rparr>);
       gd_emit [GdCall ''OnGuildInfoChanged'' [DbU32 (g_id this), DbString info],
                GdDb ''CHAR_UPD_GUILD_INFO'' [DbString info, DbU32 (g_id this)]]
     }
   }"

definition HandleSetEmblem :: "u64 \<Rightarrow> emblem_info \<Rightarrow> unit guildm" where
  "HandleSetEmblem p emblemInfo = do {
     this \<leftarrow> gd_this (\<lambda>g. g);
     pl \<leftarrow> gd_asks (gd_player p);
     if \<not> Guild_IsLeader p this then Guild_SendSaveEmblemResult p ERR_GUILDEMBLEM_NOTGUILDMASTER
     else if gdp_money pl < EMBLEM_PRICE then Guild_SendSaveEmblemResult p ERR_GUILDEMBLEM_NOTENOUGHMONEY
     else do {
       ModifyMoney p (- EMBLEM_PRICE);
       gd_set (\<lambda>g. g\<lparr>g_emblemInfo := emblemInfo\<rparr>);
       gd_emit (EmblemInfo_SaveToDB (g_id this) emblemInfo);
       Guild_SendSaveEmblemResult p ERR_GUILDEMBLEM_SUCCESS;
       Guild_HandleQuery p
     }
   }"

definition HandleSetLeader :: "u64 \<Rightarrow> string \<Rightarrow> unit guildm" where
  "HandleSetLeader p name = do {
     this \<leftarrow> gd_this (\<lambda>g. g);
     pl \<leftarrow> gd_asks (gd_player p);
     if \<not> Guild_IsLeader p this \<or> Guild_GetMember p this = None
     then Guild_SendCommandResult p GUILD_INVITE_S ERR_GUILD_PERMISSIONS []
     else do {
       newLeader \<leftarrow> Guild_GetMemberByName p name;
       (case newLeader of None \<Rightarrow> gd_ret () | Some (k, m) \<Rightarrow> do {
          SetLeaderGUID k;
          Member_ChangeRank (GUID_LOPART p) GR_OFFICER;
          Guild_BroadcastEvent GE_LEADER_CHANGED 0 [pl_name pl, name]
        })
     }
   }"

definition HandleSetBankTabInfo :: "guild_env \<Rightarrow> u64 \<Rightarrow> u8 \<Rightarrow> string \<Rightarrow> string \<Rightarrow> unit guildm" where
  "HandleSetBankTabInfo env p tabId name icon = do {
     t \<leftarrow> gd_this (GetBankTab tabId);
     gd_when (t \<noteq> None) (do {
       upd_tab tabId (BankTab_SetInfo name icon);
       SendBankTabsInfo env p;
       SendBankContent env p tabId
     })
   }"

definition SetBankTabText :: "guild_env \<Rightarrow> u8 \<Rightarrow> string \<Rightarrow> unit guildm" where
  "SetBankTabText env tabId tabText = do {
     t \<leftarrow> gd_this (GetBankTab tabId);
     gd_when (t \<noteq> None) (do {
       upd_tab tabId (BankTab_SetText (gde_utf8truncate env) tabText);
       t \<leftarrow> gd_this (GetBankTab tabId);
       (case t of None \<Rightarrow> gd_ret () | Some t \<Rightarrow> BankTab_SendText None t)
     })
   }"

definition HandleSetMemberNote :: "guild_env \<Rightarrow> u64 \<Rightarrow> string \<Rightarrow> string \<Rightarrow> bool \<Rightarrow> unit guildm" where
  "HandleSetMemberNote env p name note officer = do {
     this \<leftarrow> gd_this (\<lambda>g. g);
     pl \<leftarrow> gd_asks (gd_player p);
     if \<not> HasRankRight pl (if officer then GR_RIGHT_EOFFNOTE else GR_RIGHT_EPNOTE) this
     then Guild_SendCommandResult p GUILD_INVITE_S ERR_GUILD_PERMISSIONS []
     else do {
       found \<leftarrow> Guild_GetMemberByName p name;
       (case found of None \<Rightarrow> gd_ret () | Some (k, m) \<Rightarrow> do {
          upd_guild_member k (if officer then Member_SetOfficerNote note else Member_SetPublicNote note);
          Guild_HandleRoster env (Some p)
        })
     }
   }"

definition HandleSetRankInfo ::
  "guild_env \<Rightarrow> u64 \<Rightarrow> u8 \<Rightarrow> string \<Rightarrow> u32 \<Rightarrow> u32 \<Rightarrow> bank_rights_slots list \<Rightarrow> unit guildm" where
  "HandleSetRankInfo env p rankId name rights moneyPerDay rightsAndSlots = do {
     this \<leftarrow> gd_this (\<lambda>g. g);
     if \<not> Guild_IsLeader p this then Guild_SendCommandResult p GUILD_INVITE_S ERR_GUILD_PERMISSIONS []
     else gd_when (GetRankInfo rankId this \<noteq> None) (do {
       upd_rank rankId (RankInfo_SetName name);
       upd_rank rankId (RankInfo_SetRights rights);
       SetRankBankMoneyPerDay rankId moneyPerDay;
       gd_for (enumerate 0 rightsAndSlots) (\<lambda>(i, rs). SetRankBankTabRightsAndSlots rankId (word_of_nat i) rs True);
       Guild_HandleQuery p;
       Guild_HandleRoster env None
     })
   }"

definition HandleBuyBankTab :: "guild_env \<Rightarrow> u64 \<Rightarrow> u8 \<Rightarrow> unit guildm" where
  "HandleBuyBankTab env p tabId = do {
     this \<leftarrow> gd_this (\<lambda>g. g);
     pl \<leftarrow> gd_asks (gd_player p);
     let tabCost = GetGuildBankTabPrice tabId * GOLD;
     if tabId \<noteq> GetPurchasedTabsSize this then gd_ret ()
     else if tabCost = 0 then gd_ret ()
     else if gdp_money pl < tabCost then gd_ret ()
     else do {
       created \<leftarrow> CreateNewBankTab;
       gd_when created (do {
         ModifyMoney p (- tabCost);
         SetRankBankMoneyPerDay (gdp_rank pl) GUILD_WITHDRAW_MONEY_UNLIMITED;
         SetRankBankTabRightsAndSlots (gdp_rank pl) tabId
           \<lparr>rs_rights = GUILD_BANK_RIGHT_FULL, rs_slots = GUILD_WITHDRAW_SLOT_UNLIMITED\<rparr> True;
         Guild_HandleRoster env None;
         SendBankTabsInfo env p
       })
     }
   }"

definition HandleInviteMember :: "guild_env \<Rightarrow> u64 \<Rightarrow> string \<Rightarrow> unit guildm" where
  "HandleInviteMember env p name = do {
     this \<leftarrow> gd_this (\<lambda>g. g);
     player \<leftarrow> gd_asks (gd_player p);
     invitee \<leftarrow> gd_asks (gd_FindPlayerByName name);
     (case invitee of
        None \<Rightarrow> Guild_SendCommandResult p GUILD_INVITE_S ERR_GUILD_PLAYER_NOT_FOUND_S name
      | Some (q, pInvitee) \<Rightarrow>
          if HasIgnore (GUID_LOPART p) (omap_at new_PlayerSocial (gde_social env) (GUID_LOPART q)) then gd_ret ()
          else if \<not> gde_two_side_guild env \<and> pl_team pInvitee \<noteq> pl_team player
          then Guild_SendCommandResult p GUILD_INVITE_S ERR_GUILD_NOT_ALLIED name
          else if pl_guild pInvitee \<noteq> 0 then Guild_SendCommandResult p GUILD_INVITE_S ERR_ALREADY_IN_GUILD_S name
          else if gdp_guildIdInvited pInvitee \<noteq> 0
          then Guild_SendCommandResult p GUILD_INVITE_S ERR_ALREADY_INVITED_TO_GUILD_S name
          else if \<not> HasRankRight player GR_RIGHT_INVITE this
          then Guild_SendCommandResult p GUILD_INVITE_S ERR_GUILD_PERMISSIONS []
          else do {
            SetGuildIdInvited q (g_id this);
            Guild_LogEvent env GUILD_EVENT_LOG_INVITE_PLAYER (GUID_LOPART p) (GUID_LOPART q) 0;
            gd_emit [GdSend q (gd_packet 0x083 [OutCStr (Some (pl_name player)), OutStr (g_name this)])]
          })
   }"

definition HandleAcceptMember :: "guild_env \<Rightarrow> u64 \<Rightarrow> unit guildm" where
  "HandleAcceptMember env p = do {
     this \<leftarrow> gd_this (\<lambda>g. g);
     pl \<leftarrow> gd_asks (gd_player p);
     if \<not> gde_two_side_guild env \<and> pl_team pl \<noteq> gde_GetPlayerTeamByGUID env (g_leaderGuid this) then gd_ret ()
     else do {
       added \<leftarrow> Guild_AddMember env p GUILD_RANK_NONE;
       gd_when added (do {
         Guild_LogEvent env GUILD_EVENT_LOG_JOIN_GUILD (GUID_LOPART p) 0 0;
         Guild_BroadcastEvent GE_JOINED p [pl_name pl]
       })
     }
   }"

definition HandleLeaveMember :: "guild_env \<Rightarrow> u64 \<Rightarrow> unit guildm" where
  "HandleLeaveMember env p = do {
     this \<leftarrow> gd_this (\<lambda>g. g);
     pl \<leftarrow> gd_asks (gd_player p);
     if Guild_IsLeader p this
     then if 1 < length (g_members this) then Guild_SendCommandResult p GUILD_QUIT_S ERR_GUILD_LEADER_LEAVE []
          else Guild_Disband
     else do {
       Guild_DeleteMember p False False;
       Guild_LogEvent env GUILD_EVENT_LOG_LEAVE_GUILD (GUID_LOPART p) 0 0;
       Guild_BroadcastEvent GE_LEFT p [pl_name pl];
       Guild_SendCommandResult p GUILD_QUIT_S ERR_PLAYER_NO_MORE_IN_GUILD (g_name this)
     }
   }"

definition HandleRemoveMember :: "guild_env \<Rightarrow> u64 \<Rightarrow> string \<Rightarrow> unit guildm" where
  "HandleRemoveMember env p name = do {
     this \<leftarrow> gd_this (\<lambda>g. g);
     player \<leftarrow> gd_asks (gd_player p);
     if \<not> HasRankRight player GR_RIGHT_REMOVE this then Guild_SendCommandResult p GUILD_INVITE_S ERR_GUILD_PERMISSIONS []
     else do {
       found \<leftarrow> Guild_GetMemberByName p name;
       (case found of None \<Rightarrow> gd_ret () | Some (k, m) \<Rightarrow>
          if Member_IsRank GR_GUILDMASTER m then Guild_SendCommandResult p GUILD_QUIT_S ERR_GUILD_LEADER_LEAVE []
          else if Member_IsRankNotLower (gdp_rank player) m
          then Guild_SendCommandResult p GUILD_QUIT_S ERR_GUILD_RANK_TOO_HIGH_S name
          else do {
            Guild_DeleteMember (mb_guid m) False True;
            Guild_LogEvent env GUILD_EVENT_LOG_UNINVITE_PLAYER (GUID_LOPART p) (GUID_LOPART (mb_guid m)) 0;
            Guild_BroadcastEvent GE_REMOVED 0 [name, pl_name player]
          })
     }
   }"

text \<open>\<open>newRankId\<close> is a \<^verbatim>\<open>uint32\<close> that every callee narrows to eight bits again.\<close>

definition HandleUpdateMemberRank :: "guild_env \<Rightarrow> u64 \<Rightarrow> string \<Rightarrow> bool \<Rightarrow> unit guildm" where
  "HandleUpdateMemberRank env p name demote = do {
     this \<leftarrow> gd_this (\<lambda>g. g);
     player \<leftarrow> gd_asks (gd_player p);
     if \<not> HasRankRight player (if demote then GR_RIGHT_DEMOTE else GR_RIGHT_PROMOTE) this
     then Guild_SendCommandResult p GUILD_INVITE_S ERR_GUILD_PERMISSIONS []
     else do {
       found \<leftarrow> Guild_GetMemberByName p name;
       (case found of None \<Rightarrow> gd_ret () | Some (k, m) \<Rightarrow>
          if Member_IsSamePlayer p m then Guild_SendCommandResult p GUILD_INVITE_S ERR_GUILD_NAME_INVALID []
          else if demote \<and> Member_IsRankNotLower (gdp_rank player) m
          then Guild_SendCommandResult p GUILD_INVITE_S ERR_GUILD_RANK_TOO_HIGH_S name
          else if demote \<and> GetLowestRankId this \<le> mb_rankId m
          then Guild_SendCommandResult p GUILD_INVITE_S ERR_GUILD_RANK_TOO_LOW_S name
          else if \<not> demote \<and> Member_IsRankNotLower (gdp_rank player + 1) m
          then Guild_SendCommandResult p GUILD_INVITE_S ERR_GUILD_RANK_TOO_HIGH_S name
          else do {
            let newRankId = mb_rankId m + (if demote then 1 else - 1);
            Member_ChangeRank k newRankId;
            Guild_LogEvent env (if demote then GUILD_EVENT_LOG_DEMOTE_PLAYER else GUILD_EVENT_LOG_PROMOTE_PLAYER)
              (GUID_LOPART p) (GUID_LOPART (mb_guid m)) newRankId;
            Guild_BroadcastEvent (if demote then GE_DEMOTION else GE_PROMOTION) 0
              [pl_name player, name, GetRankName newRankId this]
          })
     }
   }"

definition HandleAddNewRank :: "guild_env \<Rightarrow> u64 \<Rightarrow> string \<Rightarrow> unit guildm" where
  "HandleAddNewRank env p name = do {
     this \<leftarrow> gd_this (\<lambda>g. g);
     if GUILD_RANKS_MAX_COUNT \<le> GetRanksSize this then gd_ret ()
     else if \<not> Guild_IsLeader p this then Guild_SendCommandResult p GUILD_INVITE_S ERR_GUILD_PERMISSIONS []
     else do {
       CreateRank name (GR_RIGHT_GCHATLISTEN OR GR_RIGHT_GCHATSPEAK);
       Guild_HandleQuery p;
       Guild_HandleRoster env None
     }
   }"

definition HandleRemoveLowestRank :: "guild_env \<Rightarrow> u64 \<Rightarrow> unit guildm" where
  "HandleRemoveLowestRank env p = do {
     this \<leftarrow> gd_this (\<lambda>g. g);
     if GetRanksSize this \<le> GUILD_RANKS_MIN_COUNT then gd_ret ()
     else if \<not> Guild_IsLeader p this then Guild_SendCommandResult p GUILD_INVITE_S ERR_GUILD_PERMISSIONS []
     else do {
       let rankId = GetLowestRankId this;
       gd_emit [GdDb ''CHAR_DEL_GUILD_BANK_RIGHTS_FOR_RANK'' [DbU32 (g_id this), DbU8 rankId],
                GdDb ''CHAR_DEL_GUILD_LOWEST_RANK'' [DbU32 (g_id this), DbU8 rankId]];
       gd_set (\<lambda>g. g\<lparr>g_ranks := butlast (g_ranks g)\<rparr>);
       Guild_HandleQuery p;
       Guild_HandleRoster env None
     }
   }"

definition HandleMemberDepositMoney :: "guild_env \<Rightarrow> u64 \<Rightarrow> u32 \<Rightarrow> unit guildm" where
  "HandleMemberDepositMoney env p amount = do {
     this \<leftarrow> gd_this (\<lambda>g. g);
     player \<leftarrow> gd_asks (gd_player p);
     gd_when (GetPurchasedTabsSize this \<noteq> 0) (do {
       gd_emit [GdCall ''OnGuildMemberDepositMoney'' [DbU32 (g_id this), DbU64 p, DbU32 amount]];
       ModifyBankMoney (ucast amount) True;
       ModifyMoney p (- amount);
       SaveGoldToDB p;
       gd_when (\<not> IsPlayerAccount (pl_security player) \<and> gde_gm_log_trade env)
         (gd_emit [GdCall ''outCommand'' [DbU32 (gdp_account player), DbU32 amount, DbU32 (g_id this)]]);
       Guild_LogBankEvent env GUILD_BANK_LOG_DEPOSIT_MONEY 0 (GUID_LOPART p) amount 0 0;
       SendBankTabsInfo env p;
       SendBankContent env p 0;
       SendBankMoneyUpdate env p
     })
   }"

definition HandleMemberWithdrawMoney :: "guild_env \<Rightarrow> u64 \<Rightarrow> u32 \<Rightarrow> bool \<Rightarrow> bool guildm" where
  "HandleMemberWithdrawMoney env p amount repair = do {
     this \<leftarrow> gd_this (\<lambda>g. g);
     player \<leftarrow> gd_asks (gd_player p);
     if GetPurchasedTabsSize this = 0 then gd_ret False
     else if g_bankMoney this < ucast amount then gd_ret False
     else if \<not> HasRankRight player (if repair then GR_RIGHT_WITHDRAW_REPAIR else GR_RIGHT_WITHDRAW_GOLD) this then gd_ret False
     else do {
       remainingMoney \<leftarrow> GetMemberRemainingMoney env p;
       if remainingMoney = 0 then gd_ret False
       else if remainingMoney < amount then gd_ret False
       else do {
         gd_emit [GdCall ''OnGuildMemberWitdrawMoney'' [DbU32 (g_id this), DbU64 p, DbU32 amount, DbBool repair]];
         gd_when (remainingMoney < GUILD_WITHDRAW_MONEY_UNLIMITED)
           (upd_guild_member (GUID_LOPART p) (Member_DecreaseBankRemainingValue GUILD_BANK_MAX_TABS amount));
         ModifyBankMoney (ucast amount) False;
         gd_when (\<not> repair) (do { ModifyMoney p amount; SaveGoldToDB p });
         Guild_LogBankEvent env (if repair then GUILD_BANK_LOG_REPAIR_MONEY else GUILD_BANK_LOG_WITHDRAW_MONEY) 0
           (GUID_LOPART p) amount 0 0;
         SendMoneyInfo env p;
         gd_when (\<not> repair) (do {
           SendBankTabsInfo env p;
           SendBankContent env p 0;
           SendBankMoneyUpdate env p
         });
         gd_ret True
       }
     }
   }"

definition HandleMemberLogout :: "guild_env \<Rightarrow> u64 \<Rightarrow> unit guildm" where
  "HandleMemberLogout env p = do {
     pl \<leftarrow> gd_asks (gd_player p);
     upd_guild_member (GUID_LOPART p) (\<lambda>m. (Member_UpdateLogoutTime (gde_time env) (Member_SetStats_player pl m), []));
     Guild_BroadcastEvent GE_SIGNED_OFF p [pl_name pl]
   }"

definition HandleDisband :: "u64 \<Rightarrow> unit guildm" where
  "HandleDisband p = do {
     this \<leftarrow> gd_this (\<lambda>g. g);
     if \<not> Guild_IsLeader p this then Guild_SendCommandResult p GUILD_INVITE_S ERR_GUILD_PERMISSIONS []
     else Guild_Disband
   }"

section \<open>Loading\<close>

text \<open>The rows the queries of \<^verbatim>\<open>GuildMgr::LoadGuilds\<close> return.\<close>

record guild_row =
  gr_guildid :: u32
  gr_name :: string
  gr_leaderguid :: u32
  gr_emblem :: "u8 \<times> u8 \<times> u8 \<times> u8 \<times> u8"
  gr_info :: string
  gr_motd :: string
  gr_createdate :: u32
  gr_BankMoney :: u64
  gr_tab_count :: u32

record rank_row =
  rr_guildid :: u32
  rr_rid :: u8
  rr_rname :: string
  rr_rights :: u32
  rr_BankMoneyPerDay :: u32

record bank_right_row =
  br_guildid :: u32
  br_TabId :: u8
  br_rid :: u8
  br_gbright :: u8
  br_SlotPerDay :: u32

record event_row =
  er_guildid :: u32
  er_LogGuid :: u32
  er_EventType :: u8
  er_PlayerGuid1 :: u32
  er_PlayerGuid2 :: u32
  er_NewRank :: u8
  er_TimeStamp :: u32

record bank_event_row =
  ber_guildid :: u32
  ber_TabId :: u8
  ber_LogGuid :: u32
  ber_EventType :: u8
  ber_PlayerGuid :: u32
  ber_ItemOrMoney :: u32
  ber_ItemStackCount :: u16
  ber_DestTabId :: u8
  ber_TimeStamp :: u32

record tab_row =
  tr_guildid :: u32
  tr_TabId :: u8
  tr_TabName :: string
  tr_TabIcon :: string
  tr_TabText :: string

text \<open>\<open>ir_proto\<close> and \<open>ir_item\<close> stand for the item template and for the item the item code loads from the row.\<close>

record item_row =
  ir_guildid :: u32
  ir_TabId :: u8
  ir_SlotId :: u8
  ir_proto :: bool
  ir_item :: "bank_item option"

definition Guild_LoadFromDB :: "guild_env \<Rightarrow> guild_row \<Rightarrow> guild \<Rightarrow> guild" where
  "Guild_LoadFromDB env row g =
     (let (style, color, borderStyle, borderColor, backgroundColor) = gr_emblem row;
          tabs = (ucast (gr_tab_count row) :: u8);
          tabs = (if GUILD_BANK_MAX_TABS < tabs then GUILD_BANK_MAX_TABS else tabs)
      in g\<lparr>g_id := gr_guildid row, g_name := gr_name row,
           g_leaderGuid := MAKE_NEW_GUID (gr_leaderguid row) 0 (high_code HIGHGUID_PLAYER),
           g_emblemInfo := EmblemInfo_LoadFromDB style color borderStyle borderColor backgroundColor,
           g_info := gr_info row, g_motd := gr_motd row, g_createdDate := ucast (gr_createdate row),
           g_bankMoney := gr_BankMoney row,
           g_bankTabs := map (\<lambda>i. new_BankTab (gr_guildid row) (word_of_nat i)) [0..<unat tabs],
           g_eventLog := new_LogHolder (gr_guildid row) (gde_event_log_count env),
           g_bankEventLog := replicate (unat GUILD_BANK_MAX_TABS + 1)
             (new_LogHolder (gr_guildid row) (gde_bank_event_log_count env))\<rparr>)"

definition LoadRankFromDB :: "rank_row \<Rightarrow> unit guildm" where
  "LoadRankFromDB row = gd_set (\<lambda>g. g\<lparr>g_ranks := g_ranks g @
     [RankInfo_LoadFromDB (rr_rid row) (rr_rname row) (rr_rights row) (rr_BankMoneyPerDay row)
       (new_RankInfo (g_id g) GUILD_RANK_NONE [] GR_RIGHT_EMPTY 0)]\<rparr>)"

definition Guild_LoadMemberFromDB :: "guild_env \<Rightarrow> guild_member_row \<Rightarrow> bool guildm" where
  "Guild_LoadMemberFromDB env row = do {
     this \<leftarrow> gd_this (\<lambda>g. g);
     (case Member_LoadFromDB (gde_GetZoneIdFromDB env) row
             (new_Member (gde_time env) (g_id this) (MAKE_NEW_GUID (mr_guid row) 0 (high_code HIGHGUID_PLAYER)) (mr_rank row)) of
        None \<Rightarrow> do { DeleteMemberFromDB (mr_guid row); gd_ret False }
      | Some m \<Rightarrow> do {
          gd_set (\<lambda>g. g\<lparr>g_members := AList.update (mr_guid row) m (g_members g)\<rparr>);
          gd_ret True
        })
   }"

definition LoadBankRightFromDB :: "bank_right_row \<Rightarrow> unit guildm" where
  "LoadBankRightFromDB row =
     SetRankBankTabRightsAndSlots (br_rid row) (br_TabId row) \<lparr>rs_rights = br_gbright row, rs_slots = br_SlotPerDay row\<rparr> False"

definition LoadEventLogFromDB :: "event_row \<Rightarrow> bool guildm" where
  "LoadEventLogFromDB row = do {
     this \<leftarrow> gd_this (\<lambda>g. g);
     if LogHolder_CanInsert (g_eventLog this)
     then do {
       gd_set (\<lambda>g. g\<lparr>g_eventLog := LogHolder_LoadEvent
         \<lparr>le_guildId = g_id this, le_guid = er_LogGuid row, le_timestamp = ucast (er_TimeStamp row),
          ee_eventType = er_EventType row, ee_playerGuid1 = er_PlayerGuid1 row, ee_playerGuid2 = er_PlayerGuid2 row,
          ee_newRank = er_NewRank row\<rparr> (g_eventLog g)\<rparr>);
       gd_ret True
     }
     else gd_ret False
   }"

definition LoadBankEventLogFromDB :: "bank_event_row \<Rightarrow> bool guildm" where
  "LoadBankEventLogFromDB row = do {
     this \<leftarrow> gd_this (\<lambda>g. g);
     let dbTabId = ber_TabId row;
     let isMoneyTab = (dbTabId = GUILD_BANK_MONEY_LOGS_TAB);
     let tabId = (if isMoneyTab then GUILD_BANK_MAX_TABS else dbTabId);
     if \<not> (dbTabId < GetPurchasedTabsSize this \<or> isMoneyTab) then gd_ret True
     else if \<not> LogHolder_CanInsert (g_bankEventLog this ! unat tabId) then gd_ret True
     else if IsMoneyEvent (ber_EventType row) \<and> \<not> isMoneyTab then gd_ret False
     else if \<not> IsMoneyEvent (ber_EventType row) \<and> isMoneyTab then gd_ret False
     else do {
       gd_set (\<lambda>g. g\<lparr>g_bankEventLog := (g_bankEventLog g)[unat tabId := LogHolder_LoadEvent
         \<lparr>le_guildId = g_id this, le_guid = ber_LogGuid row, le_timestamp = ucast (ber_TimeStamp row),
          be_eventType = ber_EventType row, be_bankTabId = dbTabId, be_playerGuid = ber_PlayerGuid row,
          be_itemOrMoney = ber_ItemOrMoney row, be_itemStackCount = ber_ItemStackCount row,
          be_destTabId = ber_DestTabId row\<rparr> (g_bankEventLog g ! unat tabId)]\<rparr>);
       gd_ret True
     }
   }"

definition LoadBankTabFromDB :: "tab_row \<Rightarrow> bool guildm" where
  "LoadBankTabFromDB row = do {
     this \<leftarrow> gd_this (\<lambda>g. g);
     if GetPurchasedTabsSize this \<le> tr_TabId row then gd_ret False
     else do {
       upd_tab (tr_TabId row) (\<lambda>t. (BankTab_LoadFromDB (tr_TabName row) (tr_TabIcon row) (tr_TabText row) t, []));
       gd_ret True
     }
   }"

definition LoadBankItemFromDB :: "item_row \<Rightarrow> bool guildm" where
  "LoadBankItemFromDB row = do {
     this \<leftarrow> gd_this (\<lambda>g. g);
     if GetPurchasedTabsSize this \<le> ir_TabId row then gd_ret False
     else (case GetBankTab (ir_TabId row) this of
         None \<Rightarrow> gd_ret False
       | Some t \<Rightarrow> (case BankTab_LoadItemFromDB (ir_proto row) (ir_item row) (ir_SlotId row) t of (ok, t, es) \<Rightarrow> do {
           upd_tab (ir_TabId row) (\<lambda>_. (t, es));
           gd_ret ok
         }))
   }"

section \<open>Validation\<close>

definition broken_ranks :: "guild \<Rightarrow> bool" where
  "broken_ranks g =
     (if GetRanksSize g < GUILD_RANKS_MIN_COUNT \<or> GUILD_RANKS_MAX_COUNT < GetRanksSize g then True
      else list_ex (\<lambda>i. rk_rankId (g_ranks g ! i) \<noteq> word_of_nat i) [0..<unat (GetRanksSize g)])"

definition Guild_Validate :: "guild_env \<Rightarrow> bool guildm" where
  "Guild_Validate env = do {
     broken \<leftarrow> gd_this broken_ranks;
     gd_when broken (do {
       gd_set (\<lambda>g. g\<lparr>g_ranks := []\<rparr>);
       CreateDefaultGuildRanks env 0
     });
     this \<leftarrow> gd_this (\<lambda>g. g);
     gd_for (g_members this) (\<lambda>(k, m).
       gd_when (GetRanksSize this < mb_rankId m) (Member_ChangeRank k (GetLowestRankId this)));
     this \<leftarrow> gd_this (\<lambda>g. g);
     disbanded \<leftarrow> (case Guild_GetMember (g_leaderGuid this) this of
         None \<Rightarrow> do {
           Guild_DeleteMember (g_leaderGuid this) False False;
           empty \<leftarrow> gd_this (\<lambda>g. g_members g = []);
           gd_when empty Guild_Disband;
           gd_ret empty
         }
       | Some m \<Rightarrow> do {
           gd_when (\<not> Member_IsRank GR_GUILDMASTER m) (SetLeaderGUID (GUID_LOPART (g_leaderGuid this)));
           gd_ret False
         });
     if disbanded then gd_ret False
     else do {
       this \<leftarrow> gd_this (\<lambda>g. g);
       gd_when (\<not> gde_AllowMultipleGuildMaster env)
         (gd_for (g_members this) (\<lambda>(k, m).
           gd_when (mb_rankId m = GR_GUILDMASTER \<and> \<not> Member_IsSamePlayer (g_leaderGuid this) m)
             (Member_ChangeRank k GR_OFFICER)));
       UpdateAccountsNumber;
       gd_ret True
     }
   }"

end
