(* ===== verification/Guild_Mgr.thy ===== *)
theory Guild_Mgr
  imports Guild_Handlers
begin

text \<open>
  The manager of guilds (\<^verbatim>\<open>game/Guilds/GuildMgr.cpp\<close>), the opcodes of \<^verbatim>\<open>game/Handlers/GuildHandler.cpp\<close> and the guild commands of game masters in
  \<^verbatim>\<open>game/Chat/Commands/Level3.cpp\<close>.  \<open>GuildStore\<close> keeps the guilds by id.  A method called on a guild of the store runs with that guild
  as \<^verbatim>\<open>this\<close>; afterwards the store has the changed guild, unless the method removed it.
\<close>

section \<open>The store\<close>

definition AddGuild :: "guild \<Rightarrow> unit guildm" where
  "AddGuild g = gd_upd (\<lambda>s. s\<lparr>GuildStore := AList.update (g_id g) g (GuildStore s)\<rparr>)"

definition GetGuildById :: "u32 \<Rightarrow> guild_state \<Rightarrow> guild option" where
  "GetGuildById guildId s = map_of (GuildStore s) guildId"

definition GetGuildNameById :: "u32 \<Rightarrow> guild_state \<Rightarrow> string" where
  "GetGuildNameById guildId s = (case GetGuildById guildId s of Some g \<Rightarrow> g_name g | None \<Rightarrow> [])"

definition GetGuildByLeader :: "u64 \<Rightarrow> guild_state \<Rightarrow> (u32 \<times> guild) option" where
  "GetGuildByLeader guid s = find (\<lambda>(i, g). g_leaderGuid g = guid) (GuildStore s)"

text \<open>\<^verbatim>\<open>guild->m()\<close> for the guild with the given id, and for a new object.\<close>

definition on_guild :: "u32 \<Rightarrow> 'a guildm \<Rightarrow> 'a option guildm" where
  "on_guild i m = State (\<lambda>s.
     case GetGuildById i s of
       None \<Rightarrow> (None, s)
     | Some g \<Rightarrow> (case run_state m (s\<lparr>gs_this := g\<rparr>) of
         (x, s') \<Rightarrow> (Some x, s'\<lparr>gs_this := gs_this s, GuildStore := AList.map_entry i (\<lambda>_. gs_this s') (GuildStore s')\<rparr>)))"

definition call_guild :: "u32 \<Rightarrow> 'a guildm \<Rightarrow> unit guildm" where
  "call_guild i m = do { on_guild i m; gd_ret () }"

definition on_new_guild :: "'a guildm \<Rightarrow> ('a \<times> guild) guildm" where
  "on_new_guild m = State (\<lambda>s.
     case run_state m (s\<lparr>gs_this := new_Guild\<rparr>) of (x, s') \<Rightarrow> ((x, gs_this s'), s'\<lparr>gs_this := gs_this s\<rparr>))"

section \<open>Loading\<close>

record guild_tables =
  gt_guild :: "guild_row list"
  gt_rank :: "rank_row list"
  gt_member :: "guild_member_row list"
  gt_bank_right :: "bank_right_row list"
  gt_eventlog :: "event_row list"
  gt_bank_eventlog :: "bank_event_row list"
  gt_bank_tab :: "tab_row list"
  gt_bank_item :: "item_row list"

text \<open>
  The last part of \<^verbatim>\<open>LoadGuilds\<close> walks the store with an iterator; nothing is inserted meanwhile.  \<^verbatim>\<open>++itr\<close> needs the element it points
  to: it is an error when the guild was removed, as one that does not validate is.
\<close>

datatype guild_load_error = InvalidIterator

fun LoadGuilds_validate :: "guild_env \<Rightarrow> u32 list \<Rightarrow> (guild_load_error + unit) guildm" where
  "LoadGuilds_validate env [] = gd_ret (Inr ())"
| "LoadGuilds_validate env (i # is) = do {
     ok \<leftarrow> on_guild i (Guild_Validate env);
     gd_when (ok = Some False) (RemoveGuild i);
     valid \<leftarrow> gd_asks (\<lambda>s. i \<in> fst ` set (GuildStore s));
     if valid then LoadGuilds_validate env is else gd_ret (Inl InvalidIterator)
   }"

definition LoadGuilds :: "guild_env \<Rightarrow> guild_tables \<Rightarrow> (guild_load_error + unit) guildm" where
  "LoadGuilds env t =
     (if gt_guild t = [] then gd_ret (Inr ())
      else do {
        gd_for (gt_guild t) (\<lambda>row. AddGuild (Guild_LoadFromDB env row new_Guild));
        gd_emit [GdDb ''DELETE orphaned guild_rank'' []];
        gd_for (gt_rank t) (\<lambda>row. call_guild (rr_guildid row) (LoadRankFromDB row));
        gd_emit [GdDb ''DELETE orphaned guild_member'' []];
        gd_for (gt_member t) (\<lambda>row. call_guild (mr_guildid row) (Guild_LoadMemberFromDB env row));
        gd_emit [GdDb ''DELETE orphaned guild_bank_right'' []];
        gd_for (gt_bank_right t) (\<lambda>row. call_guild (br_guildid row) (LoadBankRightFromDB row));
        gd_emit [GdDb ''DELETE FROM guild_eventlog WHERE LogGuid >'' [DbU32 (gde_event_log_count env)]];
        gd_for (gt_eventlog t) (\<lambda>row. call_guild (er_guildid row) (LoadEventLogFromDB row));
        gd_emit [GdDb ''DELETE FROM guild_bank_eventlog WHERE LogGuid >'' [DbU32 (gde_bank_event_log_count env)]];
        gd_for (gt_bank_eventlog t) (\<lambda>row. call_guild (ber_guildid row) (LoadBankEventLogFromDB row));
        gd_emit [GdDb ''DELETE orphaned guild_bank_tab'' []];
        gd_for (gt_bank_tab t) (\<lambda>row. call_guild (tr_guildid row) (LoadBankTabFromDB row));
        gd_emit [GdDb ''DELETE orphaned guild_bank_item'' []];
        gd_for (gt_bank_item t) (\<lambda>row. call_guild (ir_guildid row) (LoadBankItemFromDB row));
        ids \<leftarrow> gd_asks (\<lambda>s. map fst (GuildStore s));
        LoadGuilds_validate env ids
      })"

section \<open>Opcodes\<close>

definition GetPlayerGuild :: "u64 \<Rightarrow> bool \<Rightarrow> u32 option guildm" where
  "GetPlayerGuild p sendError = do {
     i \<leftarrow> gd_asks (\<lambda>s. pl_guild (gd_player p s));
     g \<leftarrow> gd_asks (GetGuildById i);
     if i \<noteq> 0 \<and> g \<noteq> None then gd_ret (Some i)
     else do {
       gd_when sendError (Guild_SendCommandResult p GUILD_CREATE_S ERR_GUILD_PLAYER_NOT_IN_GUILD []);
       gd_ret None
     }
   }"

definition with_guild :: "u64 \<Rightarrow> bool \<Rightarrow> 'a guildm \<Rightarrow> unit guildm" where
  "with_guild p sendError m = do {
     i \<leftarrow> GetPlayerGuild p sendError;
     (case i of None \<Rightarrow> gd_ret () | Some i \<Rightarrow> call_guild i m)
   }"

definition with_name :: "guild_env \<Rightarrow> string \<Rightarrow> (string \<Rightarrow> unit guildm) \<Rightarrow> unit guildm" where
  "with_name env name f = (case gde_normalizePlayerName env name of None \<Rightarrow> gd_ret () | Some name \<Rightarrow> f name)"

definition HandleGuildQueryOpcode :: "u64 \<Rightarrow> u32 \<Rightarrow> unit guildm" where
  "HandleGuildQueryOpcode p guildId = do {
     g \<leftarrow> gd_asks (GetGuildById guildId);
     if g \<noteq> None then call_guild guildId (Guild_HandleQuery p)
     else Guild_SendCommandResult p GUILD_CREATE_S ERR_GUILD_PLAYER_NOT_IN_GUILD []
   }"

definition HandleGuildCreateOpcode :: "guild_env \<Rightarrow> u64 \<Rightarrow> string \<Rightarrow> unit guildm" where
  "HandleGuildCreateOpcode env p name = do {
     i \<leftarrow> gd_asks (\<lambda>s. pl_guild (gd_player p s));
     gd_when (i = 0) (do {
       r \<leftarrow> on_new_guild (Guild_Create env p name);
       gd_when (fst r) (AddGuild (snd r))
     })
   }"

definition HandleGuildInviteOpcode :: "guild_env \<Rightarrow> u64 \<Rightarrow> string \<Rightarrow> unit guildm" where
  "HandleGuildInviteOpcode env p invitedName =
     with_name env invitedName (\<lambda>name. with_guild p True (HandleInviteMember env p name))"

definition HandleGuildRemoveOpcode :: "guild_env \<Rightarrow> u64 \<Rightarrow> string \<Rightarrow> unit guildm" where
  "HandleGuildRemoveOpcode env p playerName =
     with_name env playerName (\<lambda>name. with_guild p True (HandleRemoveMember env p name))"

definition HandleGuildAcceptOpcode :: "guild_env \<Rightarrow> u64 \<Rightarrow> unit guildm" where
  "HandleGuildAcceptOpcode env p = do {
     pl \<leftarrow> gd_asks (gd_player p);
     gd_when (pl_guild pl = 0) (call_guild (gdp_guildIdInvited pl) (HandleAcceptMember env p))
   }"

definition HandleGuildDeclineOpcode :: "u64 \<Rightarrow> unit guildm" where
  "HandleGuildDeclineOpcode p = do {
     SetGuildIdInvited p 0;
     SetInGuild p 0
   }"

definition HandleGuildInfoOpcode :: "guild_env \<Rightarrow> u64 \<Rightarrow> unit guildm" where
  "HandleGuildInfoOpcode env p = with_guild p True (Guild_SendInfo env p)"

definition HandleGuildRosterOpcode :: "guild_env \<Rightarrow> u64 \<Rightarrow> unit guildm" where
  "HandleGuildRosterOpcode env p = with_guild p False (Guild_HandleRoster env (Some p))"

definition HandleGuildPromoteOpcode :: "guild_env \<Rightarrow> u64 \<Rightarrow> string \<Rightarrow> unit guildm" where
  "HandleGuildPromoteOpcode env p playerName =
     with_name env playerName (\<lambda>name. with_guild p True (HandleUpdateMemberRank env p name False))"

definition HandleGuildDemoteOpcode :: "guild_env \<Rightarrow> u64 \<Rightarrow> string \<Rightarrow> unit guildm" where
  "HandleGuildDemoteOpcode env p playerName =
     with_name env playerName (\<lambda>name. with_guild p True (HandleUpdateMemberRank env p name True))"

definition HandleGuildLeaveOpcode :: "guild_env \<Rightarrow> u64 \<Rightarrow> unit guildm" where
  "HandleGuildLeaveOpcode env p = with_guild p True (HandleLeaveMember env p)"

definition HandleGuildDisbandOpcode :: "u64 \<Rightarrow> unit guildm" where
  "HandleGuildDisbandOpcode p = with_guild p True (HandleDisband p)"

definition HandleGuildLeaderOpcode :: "guild_env \<Rightarrow> u64 \<Rightarrow> string \<Rightarrow> unit guildm" where
  "HandleGuildLeaderOpcode env p name =
     with_name env name (\<lambda>name. with_guild p True (HandleSetLeader p name))"

text \<open>An empty packet carries the empty message.\<close>

definition HandleGuildMOTDOpcode :: "u64 \<Rightarrow> string option \<Rightarrow> unit guildm" where
  "HandleGuildMOTDOpcode p motd = with_guild p True (HandleSetMOTD p (case motd of Some m \<Rightarrow> m | None \<Rightarrow> []))"

definition HandleGuildSetPublicNoteOpcode :: "guild_env \<Rightarrow> u64 \<Rightarrow> string \<Rightarrow> string \<Rightarrow> unit guildm" where
  "HandleGuildSetPublicNoteOpcode env p playerName publicNote =
     with_name env playerName (\<lambda>name. with_guild p True (HandleSetMemberNote env p name publicNote False))"

definition HandleGuildSetOfficerNoteOpcode :: "guild_env \<Rightarrow> u64 \<Rightarrow> string \<Rightarrow> string \<Rightarrow> unit guildm" where
  "HandleGuildSetOfficerNoteOpcode env p playerName officerNote =
     with_name env playerName (\<lambda>name. with_guild p True (HandleSetMemberNote env p name officerNote True))"

text \<open>The packet has rights and slots for each of the six tabs.\<close>

definition HandleGuildRankOpcode ::
  "guild_env \<Rightarrow> u64 \<Rightarrow> u32 \<Rightarrow> u32 \<Rightarrow> string \<Rightarrow> u32 \<Rightarrow> (nat \<Rightarrow> u32 \<times> u32) \<Rightarrow> unit guildm" where
  "HandleGuildRankOpcode env p rankId rights rankName money bank =
     with_guild p True (HandleSetRankInfo env p (ucast rankId) rankName rights money
       (map (\<lambda>tabId. \<lparr>rs_rights = ucast (fst (bank tabId)), rs_slots = snd (bank tabId)\<rparr>) [0..<unat GUILD_BANK_MAX_TABS]))"

definition HandleGuildAddRankOpcode :: "guild_env \<Rightarrow> u64 \<Rightarrow> string \<Rightarrow> unit guildm" where
  "HandleGuildAddRankOpcode env p rankName = with_guild p True (HandleAddNewRank env p rankName)"

definition HandleGuildDelRankOpcode :: "guild_env \<Rightarrow> u64 \<Rightarrow> unit guildm" where
  "HandleGuildDelRankOpcode env p = with_guild p True (HandleRemoveLowestRank env p)"

definition HandleGuildChangeInfoTextOpcode :: "u64 \<Rightarrow> string \<Rightarrow> unit guildm" where
  "HandleGuildChangeInfoTextOpcode p info = with_guild p True (HandleSetInfo p info)"

definition HandleSaveGuildEmblemOpcode :: "guild_env \<Rightarrow> u64 \<Rightarrow> u64 \<Rightarrow> emblem_info \<Rightarrow> unit guildm" where
  "HandleSaveGuildEmblemOpcode env p vendorGuid emblemInfo =
     (if gde_has_tabard_designer env p vendorGuid
      then do {
        gd_when (gde_feigns_death env p) (gd_emit [GdCall ''RemoveAurasByType'' [DbU64 p]]);
        i \<leftarrow> GetPlayerGuild p False;
        (case i of
           Some i \<Rightarrow> call_guild i (HandleSetEmblem p emblemInfo)
         | None \<Rightarrow> Guild_SendSaveEmblemResult p ERR_GUILDEMBLEM_NOGUILD)
      }
      else Guild_SendSaveEmblemResult p ERR_GUILDEMBLEM_INVALIDVENDOR)"

definition HandleGuildEventLogQueryOpcode :: "guild_env \<Rightarrow> u64 \<Rightarrow> unit guildm" where
  "HandleGuildEventLogQueryOpcode env p = with_guild p False (SendEventLog env p)"

definition HandleGuildBankMoneyWithdrawn :: "guild_env \<Rightarrow> u64 \<Rightarrow> unit guildm" where
  "HandleGuildBankMoneyWithdrawn env p = with_guild p False (SendMoneyInfo env p)"

definition HandleGuildPermissions :: "guild_env \<Rightarrow> u64 \<Rightarrow> unit guildm" where
  "HandleGuildPermissions env p = with_guild p False (SendPermissions env p)"

definition HandleGuildBankerActivate :: "guild_env \<Rightarrow> u64 \<Rightarrow> u64 \<Rightarrow> unit guildm" where
  "HandleGuildBankerActivate env p GoGuid =
     gd_when (gde_has_guild_bank env p GoGuid) (do {
       i \<leftarrow> GetPlayerGuild p False;
       (case i of
          Some i \<Rightarrow> call_guild i (SendBankTabsInfo env p)
        | None \<Rightarrow> Guild_SendCommandResult p GUILD_UNK1 ERR_GUILD_PLAYER_NOT_IN_GUILD [])
     })"

definition HandleGuildBankQueryTab :: "guild_env \<Rightarrow> u64 \<Rightarrow> u64 \<Rightarrow> u8 \<Rightarrow> unit guildm" where
  "HandleGuildBankQueryTab env p GoGuid tabId =
     gd_when (gde_has_guild_bank env p GoGuid) (with_guild p False (SendBankTabData env p tabId))"

definition HandleGuildBankDepositMoney :: "guild_env \<Rightarrow> u64 \<Rightarrow> u64 \<Rightarrow> u32 \<Rightarrow> unit guildm" where
  "HandleGuildBankDepositMoney env p GoGuid money = do {
     pl \<leftarrow> gd_asks (gd_player p);
     gd_when (gde_has_guild_bank env p GoGuid \<and> money \<noteq> 0 \<and> money \<le> gdp_money pl)
       (with_guild p False (HandleMemberDepositMoney env p money))
   }"

definition HandleGuildBankWithdrawMoney :: "guild_env \<Rightarrow> u64 \<Rightarrow> u64 \<Rightarrow> u32 \<Rightarrow> unit guildm" where
  "HandleGuildBankWithdrawMoney env p GoGuid money =
     gd_when (money \<noteq> 0 \<and> gde_has_guild_bank env p GoGuid)
       (with_guild p False (HandleMemberWithdrawMoney env p money False))"

definition HandleGuildBankBuyTab :: "guild_env \<Rightarrow> u64 \<Rightarrow> u64 \<Rightarrow> u8 \<Rightarrow> unit guildm" where
  "HandleGuildBankBuyTab env p GoGuid tabId =
     gd_when (gde_has_guild_bank env p GoGuid) (with_guild p False (HandleBuyBankTab env p tabId))"

definition HandleGuildBankUpdateTab :: "guild_env \<Rightarrow> u64 \<Rightarrow> u64 \<Rightarrow> u8 \<Rightarrow> string \<Rightarrow> string \<Rightarrow> unit guildm" where
  "HandleGuildBankUpdateTab env p GoGuid tabId name icon =
     gd_when (name \<noteq> [] \<and> icon \<noteq> [] \<and> gde_has_guild_bank env p GoGuid)
       (with_guild p False (HandleSetBankTabInfo env p tabId name icon))"

definition HandleGuildBankLogQuery :: "guild_env \<Rightarrow> u64 \<Rightarrow> u8 \<Rightarrow> unit guildm" where
  "HandleGuildBankLogQuery env p tabId = with_guild p False (SendBankLog env p tabId)"

definition HandleQueryGuildBankTabText :: "u64 \<Rightarrow> u8 \<Rightarrow> unit guildm" where
  "HandleQueryGuildBankTabText p tabId = with_guild p False (SendBankTabText p tabId)"

definition HandleSetGuildBankTabText :: "guild_env \<Rightarrow> u64 \<Rightarrow> u8 \<Rightarrow> string \<Rightarrow> unit guildm" where
  "HandleSetGuildBankTabText env p tabId tabText = with_guild p False (SetBankTabText env tabId tabText)"

section \<open>Calls from the rest of the server\<close>

text \<open>
  Login (\<^verbatim>\<open>CharacterHandler.cpp\<close>) and logout (\<^verbatim>\<open>WorldSession.cpp\<close>), the repair of equipment at the guild's expense and the
  deletion of a character (\<^verbatim>\<open>Player.cpp\<close>), chat, and the commands of game masters, with the targets already resolved.
\<close>

definition login_guild :: "guild_env \<Rightarrow> u64 \<Rightarrow> (u32 \<times> u8) option \<Rightarrow> unit guildm" where
  "login_guild env p result = do {
     i \<leftarrow> gd_asks (\<lambda>s. pl_guild (gd_player p s));
     (case result of
        Some (guildid, rank) \<Rightarrow> do { SetInGuild p guildid; SetRank p rank }
      | None \<Rightarrow> gd_when (i \<noteq> 0) (do { SetInGuild p 0; SetRank p 0 }));
     i \<leftarrow> gd_asks (\<lambda>s. pl_guild (gd_player p s));
     g \<leftarrow> gd_asks (GetGuildById i);
     gd_when (i \<noteq> 0) (if g \<noteq> None then call_guild i (SendLoginInfo env p) else SetInGuild p 0)
   }"

definition logout_guild :: "guild_env \<Rightarrow> u64 \<Rightarrow> unit guildm" where
  "logout_guild env p = do {
     i \<leftarrow> gd_asks (\<lambda>s. pl_guild (gd_player p s));
     call_guild i (HandleMemberLogout env p)
   }"

definition repair_from_guild_bank :: "guild_env \<Rightarrow> u64 \<Rightarrow> u32 \<Rightarrow> bool guildm" where
  "repair_from_guild_bank env p costs = do {
     i \<leftarrow> gd_asks (\<lambda>s. pl_guild (gd_player p s));
     if i = 0 then gd_ret False
     else do {
       r \<leftarrow> on_guild i (HandleMemberWithdrawMoney env p costs True);
       gd_ret (r = Some True)
     }
   }"

definition delete_character_guild :: "guild_env \<Rightarrow> u64 \<Rightarrow> unit guildm" where
  "delete_character_guild env playerguid =
     gd_when (gde_GetGuildIdFromDB env playerguid \<noteq> 0)
       (call_guild (gde_GetGuildIdFromDB env playerguid)
         (Guild_DeleteMember (ucast (GUID_LOPART playerguid)) False False))"

definition say_to_guild :: "guild_env \<Rightarrow> u64 \<Rightarrow> bool \<Rightarrow> world_packet \<Rightarrow> unit guildm" where
  "say_to_guild env p officerOnly data = do {
     i \<leftarrow> gd_asks (\<lambda>s. pl_guild (gd_player p s));
     g \<leftarrow> gd_asks (GetGuildById i);
     gd_when (i \<noteq> 0 \<and> g \<noteq> None) (do {
       gd_emit [GdCall ''OnPlayerChat'' [DbU64 p, DbU32 i]];
       call_guild i (BroadcastToGuild env p officerOnly data);
       gd_emit [GdCall ''LogChatMessageToDB'' [DbU64 p]]
     })
   }"

definition HandleGuildCreateCommand :: "guild_env \<Rightarrow> u64 \<Rightarrow> string \<Rightarrow> unit guildm" where
  "HandleGuildCreateCommand env target guildname = do {
     i \<leftarrow> gd_asks (\<lambda>s. pl_guild (gd_player target s));
     gd_when (i = 0) (do {
       r \<leftarrow> on_new_guild (Guild_Create env target guildname);
       gd_when (fst r) (AddGuild (snd r))
     })
   }"

definition HandleGuildInviteCommand :: "guild_env \<Rightarrow> u64 \<Rightarrow> string \<Rightarrow> unit guildm" where
  "HandleGuildInviteCommand env target glName = do {
     g \<leftarrow> gd_asks (GetGuildByName glName);
     (case g of None \<Rightarrow> gd_ret () | Some (i, g) \<Rightarrow> call_guild i (Guild_AddMember env target GUILD_RANK_NONE))
   }"

definition target_guild :: "guild_env \<Rightarrow> u64 \<Rightarrow> guild_state \<Rightarrow> u32" where
  "target_guild env target s =
     (case gd_FindPlayer target s of Some pl \<Rightarrow> pl_guild pl | None \<Rightarrow> gde_GetGuildIdFromDB env target)"

definition HandleGuildUninviteCommand :: "guild_env \<Rightarrow> u64 \<Rightarrow> unit guildm" where
  "HandleGuildUninviteCommand env target = do {
     i \<leftarrow> gd_asks (target_guild env target);
     gd_when (i \<noteq> 0) (call_guild i (Guild_DeleteMember target False True))
   }"

definition HandleGuildRankCommand :: "guild_env \<Rightarrow> u64 \<Rightarrow> u32 \<Rightarrow> unit guildm" where
  "HandleGuildRankCommand env target newrank = do {
     i \<leftarrow> gd_asks (target_guild env target);
     gd_when (i \<noteq> 0) (call_guild i (Guild_ChangeMemberRank target (ucast newrank)))
   }"

definition HandleGuildDeleteCommand :: "string \<Rightarrow> unit guildm" where
  "HandleGuildDeleteCommand gld = do {
     g \<leftarrow> gd_asks (GetGuildByName gld);
     (case g of None \<Rightarrow> gd_ret () | Some (i, g) \<Rightarrow> call_guild i Guild_Disband)
   }"

end
