(* ===== verification/Guild_Inv.thy ===== *)
theory Guild_Inv
  imports Guild_Mgr
begin

text \<open>
  What every guild keeps.  \<open>gd_pres\<close> says that an operation preserves a property of the state.  The locale \<open>guild_frame\<close> collects what a
  property has to bear (new effects, a player's money, texts, member notes and limits, rank settings, bank tabs, logs) and proves once
  that the operations which do nothing else preserve it.  It is interpreted for the shape of the guild during a method.
\<close>

section \<open>Preservation\<close>

named_theorems pres_intros \<open>operations that preserve a property of the state\<close>

definition gd_wp :: "'a guildm \<Rightarrow> ('a \<Rightarrow> guild_state \<Rightarrow> bool) \<Rightarrow> guild_state \<Rightarrow> bool" where
  "gd_wp m Q s = (case run_state m s of (x, s') \<Rightarrow> Q x s')"

definition gd_pres :: "(guild_state \<Rightarrow> bool) \<Rightarrow> 'a guildm \<Rightarrow> bool" where
  "gd_pres I m = (\<forall>s. I s \<longrightarrow> gd_wp m (\<lambda>_. I) s)"

lemma gd_wp_simps [simp]:
  "gd_wp (gd_ret x) Q = Q x"
  "gd_wp (gd_asks f) Q = (\<lambda>s. Q (f s) s)"
  "gd_wp (gd_this h) Q = (\<lambda>s. Q (h (gs_this s)) s)"
  "gd_wp (gd_upd u) Q' = (\<lambda>s. Q' () (u s))"
  "gd_wp (gd_emit es) Q' = (\<lambda>s. Q' () (s\<lparr>gs_out := gs_out s @ es\<rparr>))"
  "gd_wp (gd_set g) Q' = (\<lambda>s. Q' () (s\<lparr>gs_this := g (gs_this s)\<rparr>))"
  by (simp_all add: fun_eq_iff gd_wp_def gd_ret_def gd_asks_def gd_upd_def gd_emit_def gd_set_def gd_this_def)

lemma gd_wp_bind [simp]: "gd_wp (do { x \<leftarrow> m; k x }) Q = gd_wp m (\<lambda>x. gd_wp (k x) Q)"
  by (simp add: fun_eq_iff gd_wp_def split_beta)

lemma gd_wp_mono: "gd_wp m Q s \<Longrightarrow> (\<And>x s'. Q x s' \<Longrightarrow> R x s') \<Longrightarrow> gd_wp m R s"
  by (auto simp: gd_wp_def split_beta)

lemma gd_wp_seq: "gd_wp m (\<lambda>_. R) s \<Longrightarrow> (\<And>s'. R s' \<Longrightarrow> gd_wp k Q s') \<Longrightarrow> gd_wp (do { m; k }) Q s"
  by (auto intro: gd_wp_mono)

lemma gd_presI: "(\<And>s. I s \<Longrightarrow> gd_wp m (\<lambda>_. I) s) \<Longrightarrow> gd_pres I m"
  by (simp add: gd_pres_def)

lemma gd_presD: "gd_pres I m \<Longrightarrow> I s \<Longrightarrow> (\<And>x s'. I s' \<Longrightarrow> Q x s') \<Longrightarrow> gd_wp m Q s"
  by (auto simp: gd_pres_def intro: gd_wp_mono)

lemma pres_bind [pres_intros]:
  assumes "gd_pres I m" and "\<And>x. gd_pres I (k x)"
  shows "gd_pres I (do { x \<leftarrow> m; k x })"
proof (rule gd_presI)
  fix s assume "I s"
  then show "gd_wp (do { x \<leftarrow> m; k x }) (\<lambda>_. I) s"
    using gd_presD [OF assms(1)] assms(2) by (simp add: gd_pres_def)
qed

lemma pres_asks_bind: "(\<And>s. I s \<Longrightarrow> gd_wp (k (f s)) (\<lambda>_. I) s) \<Longrightarrow> gd_pres I (do { x \<leftarrow> gd_asks f; k x })"
  and pres_this_bind: "(\<And>s. I s \<Longrightarrow> gd_wp (k (h (gs_this s))) (\<lambda>_. I) s) \<Longrightarrow> gd_pres I (do { x \<leftarrow> gd_this h; k x })"
  by (auto intro!: gd_presI)

lemma pres_this_info: "(\<And>s. I s \<Longrightarrow> gd_pres I (k (h (gs_this s)))) \<Longrightarrow> gd_pres I (do { x \<leftarrow> gd_this h; k x })"
  by (simp add: gd_pres_def)

lemma pres_quiet [pres_intros]:
  "gd_pres I (gd_ret x)" "gd_pres I (gd_asks f)" "gd_pres I (gd_this h)"
  by (simp_all add: gd_pres_def)

lemma pres_when [pres_intros]: "(b \<Longrightarrow> gd_pres I m) \<Longrightarrow> gd_pres I (gd_when b m)"
  by (simp add: gd_when_def pres_quiet)

lemma pres_if [pres_intros]: "(b \<Longrightarrow> gd_pres I m) \<Longrightarrow> (\<not> b \<Longrightarrow> gd_pres I n) \<Longrightarrow> gd_pres I (if b then m else n)"
  by simp

lemma pres_let [pres_intros]: "gd_pres I (k x) \<Longrightarrow> gd_pres I (Let x k)"
  by simp

lemma pres_option [pres_intros]:
  "(o' = None \<Longrightarrow> gd_pres I m) \<Longrightarrow> (\<And>x. o' = Some x \<Longrightarrow> gd_pres I (k x)) \<Longrightarrow>
   gd_pres I (case o' of None \<Rightarrow> m | Some x \<Rightarrow> k x)"
  by (cases o') auto

lemma pres_prod [pres_intros]: "(\<And>a b. q = (a, b) \<Longrightarrow> gd_pres I (k a b)) \<Longrightarrow> gd_pres I (case q of (a, b) \<Rightarrow> k a b)"
  by (cases q) auto

lemma pres_list [pres_intros]:
  "(xs = [] \<Longrightarrow> gd_pres I m) \<Longrightarrow> (\<And>y ys. xs = y # ys \<Longrightarrow> gd_pres I (k y ys)) \<Longrightarrow>
   gd_pres I (case xs of [] \<Rightarrow> m | y # ys \<Rightarrow> k y ys)"
  by (cases xs) auto

lemma pres_for [pres_intros]: "(\<And>x. x \<in> set xs \<Longrightarrow> gd_pres I (f x)) \<Longrightarrow> gd_pres I (gd_for xs f)"
  by (induction xs) (auto intro!: pres_intros)

lemma run_pres: "gd_pres I m \<Longrightarrow> I s \<Longrightarrow> I (snd (run_state m s))"
  by (simp add: gd_pres_def gd_wp_def split_beta)

section \<open>Objects\<close>

definition plain_player_guid :: "u64 \<Rightarrow> bool" where
  "plain_player_guid p = (p = MAKE_NEW_GUID (GUID_LOPART p) 0 (high_code HIGHGUID_PLAYER))"

definition guild_member_ok :: "u32 \<Rightarrow> u32 \<Rightarrow> guild_member \<Rightarrow> bool" where
  "guild_member_ok i k m =
     (mb_guid m = MAKE_NEW_GUID k 0 (high_code HIGHGUID_PLAYER) \<and> mb_guildId m = i \<and>
      length (mb_bankRemaining m) = unat GUILD_BANK_MAX_TABS + 1)"

definition rank_ok :: "nat \<Rightarrow> rank_info \<Rightarrow> bool" where
  "rank_ok n r =
     (rk_rankId r = word_of_nat n \<and> length (rk_bankTabRightsAndSlots r) = unat GUILD_BANK_MAX_TABS \<and>
      (n = 0 \<longrightarrow> rk_rights r AND GR_RIGHT_ALL = GR_RIGHT_ALL))"

definition tab_ok :: "nat \<Rightarrow> bank_tab \<Rightarrow> bool" where
  "tab_ok n t = (bt_tabId t = word_of_nat n \<and> length (bt_items t) = unat GUILD_BANK_MAX_SLOTS)"

definition log_ok :: "'e log_holder \<Rightarrow> bool" where
  "log_ok h =
     (0 < lh_maxRecords h \<and> length (lh_log h) \<le> unat (lh_maxRecords h) \<and>
      (lh_nextGUID h = GUILD_EVENT_LOG_GUID_UNDEFINED \<or> lh_nextGUID h \<le> lh_maxRecords h))"

definition members_ok :: "u32 \<Rightarrow> (u32 \<times> guild_member) list \<Rightarrow> bool" where
  "members_ok i ms = (distinct (map fst ms) \<and> (\<forall>(k, m) \<in> set ms. guild_member_ok i k m))"

definition ranks_ok :: "rank_info list \<Rightarrow> bool" where
  "ranks_ok rs =
     (unat GUILD_RANKS_MIN_COUNT \<le> length rs \<and> length rs \<le> unat GUILD_RANKS_MAX_COUNT \<and> (\<forall>n < length rs. rank_ok n (rs ! n)))"

definition tabs_ok :: "bank_tab list \<Rightarrow> bool" where
  "tabs_ok ts = (length ts \<le> unat GUILD_BANK_MAX_TABS \<and> (\<forall>n < length ts. tab_ok n (ts ! n)))"

definition bank_logs_ok :: "bank_event_log_entry log_holder list \<Rightarrow> bool" where
  "bank_logs_ok hs = (length hs = unat GUILD_BANK_MAX_TABS + 1 \<and> (\<forall>h \<in> set hs. log_ok h))"

definition guild_ok :: "guild \<Rightarrow> bool" where
  "guild_ok g =
     (members_ok (g_id g) (g_members g) \<and> ranks_ok (g_ranks g) \<and> tabs_ok (g_bankTabs g) \<and>
      log_ok (g_eventLog g) \<and> bank_logs_ok (g_bankEventLog g))"

definition leader_ok :: "guild \<Rightarrow> bool" where
  "leader_ok g = (plain_player_guid (g_leaderGuid g) \<and> Guild_GetMember (g_leaderGuid g) g \<noteq> None)"

lemma plain_player_guid_make [simp]: "plain_player_guid (MAKE_NEW_GUID k 0 (high_code HIGHGUID_PLAYER))"
  by (simp only: plain_player_guid_def player_guid_lopart)

lemma member_ok_guid:
  assumes "guild_member_ok i k m"
  shows "GUID_LOPART (mb_guid m) = k" and "plain_player_guid (mb_guid m)"
  using assms unfolding guild_member_ok_def
  by (metis player_guid_lopart, metis plain_player_guid_make)

lemma new_member_ok:
  assumes "plain_player_guid guid"
  shows "guild_member_ok i (GUID_LOPART guid) (new_Member now i guid r)"
  using assms unfolding plain_player_guid_def by (simp add: guild_member_ok_def new_Member_def)

lemma stats_member_ok [simp]:
  "guild_member_ok i k (Member_SetStats_player pl m) = guild_member_ok i k m"
  "guild_member_ok i k (Member_SetStats n l c z a m) = guild_member_ok i k m"
  by (simp_all add: guild_member_ok_def Member_SetStats_player_def Member_SetStats_def)

lemma players_same_low: "plain_player_guid p \<Longrightarrow> plain_player_guid q \<Longrightarrow> GUID_LOPART p = GUID_LOPART q \<longleftrightarrow> p = q"
  by (metis plain_player_guid_def)

text \<open>The ranks kept by an update of one of them.\<close>

definition keeps_rank :: "(rank_info \<Rightarrow> rank_info \<times> guild_effect list) \<Rightarrow> bool" where
  "keeps_rank f = (\<forall>n r. rank_ok n r \<longrightarrow> rank_ok n (fst (f r)))"

definition keeps_tab :: "(bank_tab \<Rightarrow> bank_tab \<times> guild_effect list) \<Rightarrow> bool" where
  "keeps_tab f = (\<forall>n t. tab_ok n t \<longrightarrow> tab_ok n (fst (f t)))"

definition keeps_member :: "(guild_member \<Rightarrow> guild_member) \<Rightarrow> bool" where
  "keeps_member f =
     (\<forall>m. mb_guid (f m) = mb_guid m \<and> mb_guildId (f m) = mb_guildId m \<and> mb_rankId (f m) = mb_rankId m \<and>
        length (mb_bankRemaining (f m)) = length (mb_bankRemaining m))"

lemma keeps_rank_setters [simp]:
  "keeps_rank (RankInfo_SetName name)" "keeps_rank (RankInfo_SetRights rights)"
  "keeps_rank (RankInfo_SetBankMoneyPerDay money)" "keeps_rank (RankInfo_SetBankTabSlotsAndRights tabId rs save)"
  by (auto simp: keeps_rank_def rank_ok_def RankInfo_SetName_def RankInfo_SetRights_def RankInfo_SetBankMoneyPerDay_def
      RankInfo_SetBankTabSlotsAndRights_def Let_def)

lemma keeps_tab_setters [simp]:
  "keeps_tab (BankTab_SetInfo name icon)" "keeps_tab (BankTab_SetText utf8 t)"
  by (auto simp: keeps_tab_def tab_ok_def BankTab_SetInfo_def BankTab_SetText_def Let_def)

lemma keeps_member_setters [simp]:
  "keeps_member (\<lambda>m. fst (Member_SetPublicNote note m))" "keeps_member (\<lambda>m. fst (Member_SetOfficerNote note m))"
  "keeps_member (\<lambda>m. fst (Member_DecreaseBankRemainingValue tabId amount m))"
  "keeps_member Member_ResetTabTimes" "keeps_member Member_ResetMoneyTime"
  "keeps_member (Member_SetStats_player pl)" "keeps_member (Member_UpdateLogoutTime now)"
  "keeps_member (\<lambda>m. m\<lparr>mb_bankRemaining := (mb_bankRemaining m)[j := rv]\<rparr>)"
  by (auto simp: keeps_member_def Member_SetPublicNote_def Member_SetOfficerNote_def Member_DecreaseBankRemainingValue_def
      Member_ResetTabTimes_def Member_ResetMoneyTime_def Member_SetStats_player_def Member_UpdateLogoutTime_def Let_def)

lemma keeps_member_comp: "keeps_member f \<Longrightarrow> keeps_member h \<Longrightarrow> keeps_member (\<lambda>m. f (h m))"
  by (simp add: keeps_member_def)

section \<open>Quiet changes\<close>

definition member_view :: "guild \<Rightarrow> (u32 \<times> u64 \<times> u32 \<times> u8 \<times> nat) list" where
  "member_view g =
     map (\<lambda>(k, m). (k, mb_guid m, mb_guildId m, mb_rankId m, length (mb_bankRemaining m))) (g_members g)"

text \<open>Identity, leader and the membership data stay; ranks, tabs and logs stay well-formed.\<close>

definition quiet_change :: "guild \<Rightarrow> guild \<Rightarrow> bool" where
  "quiet_change g g' =
     (g_id g' = g_id g \<and> g_leaderGuid g' = g_leaderGuid g \<and> member_view g' = member_view g \<and>
      (ranks_ok (g_ranks g) \<longrightarrow> ranks_ok (g_ranks g')) \<and> (tabs_ok (g_bankTabs g) \<longrightarrow> tabs_ok (g_bankTabs g')) \<and>
      (log_ok (g_eventLog g) \<longrightarrow> log_ok (g_eventLog g')) \<and>
      (bank_logs_ok (g_bankEventLog g) \<longrightarrow> bank_logs_ok (g_bankEventLog g')))"

lemma quiet_texts [simp]:
  "quiet_change g (g\<lparr>g_motd := x\<rparr>)" "quiet_change g (g\<lparr>g_info := x\<rparr>)" "quiet_change g (g\<lparr>g_emblemInfo := em\<rparr>)"
  "quiet_change g (g\<lparr>g_bankMoney := money\<rparr>)" "quiet_change g (g\<lparr>g_accountsNumber := n\<rparr>)"
  by (simp_all add: quiet_change_def member_view_def)

lemma quiet_map_member [simp]: "keeps_member f \<Longrightarrow> quiet_change g (map_member k f g)"
  by (auto simp: quiet_change_def member_view_def map_member_def keeps_member_def)

lemma quiet_members_of_rank [simp]: "keeps_member f \<Longrightarrow> quiet_change g (map_members_of_rank r f g)"
  by (auto simp: quiet_change_def member_view_def map_members_of_rank_def keeps_member_def)

lemma quiet_rank:
  assumes "keeps_rank f" and "GetRankInfo rid g = Some r"
  shows "quiet_change g (g\<lparr>g_ranks := (g_ranks g)[unat rid := fst (f r)]\<rparr>)"
proof -
  have "rank_ok n ((g_ranks g)[unat rid := fst (f r)] ! n)"
    if "\<forall>n < length (g_ranks g). rank_ok n (g_ranks g ! n)" "n < length (g_ranks g)" for n
    using assms that by (cases "unat rid = n") (auto simp: keeps_rank_def GetRankInfo_def split: if_splits)
  then show ?thesis by (auto simp: quiet_change_def member_view_def ranks_ok_def)
qed

lemma quiet_tab:
  assumes "keeps_tab f" and "GetBankTab tabId g = Some t"
  shows "quiet_change g (g\<lparr>g_bankTabs := (g_bankTabs g)[unat tabId := fst (f t)]\<rparr>)"
  using assms
  by (auto simp: quiet_change_def member_view_def tabs_ok_def keeps_tab_def GetBankTab_def nth_list_update split: if_splits)

lemma quiet_new_tab:
  assumes "\<not> GUILD_BANK_MAX_TABS \<le> GetPurchasedTabsSize g"
  shows "quiet_change g (g\<lparr>g_bankTabs := g_bankTabs g @ [new_BankTab (g_id g) (GetPurchasedTabsSize g)]\<rparr>)"
proof -
  have "length (g_bankTabs g) < 6" if "length (g_bankTabs g) \<le> 6"
    using assms that by (cases "length (g_bankTabs g) = 6") (simp_all add: GetPurchasedTabsSize_def)
  then show ?thesis
    by (auto simp: quiet_change_def member_view_def tabs_ok_def tab_ok_def new_BankTab_def GetPurchasedTabsSize_def nth_append less_Suc_eq)
qed

lemma ranks_size: "ranks_ok (g_ranks g) \<Longrightarrow> unat (GetRanksSize g) = length (g_ranks g)"
  by (simp add: ranks_ok_def GetRanksSize_def unat_of_nat)

lemma quiet_new_rank:
  assumes "\<not> GUILD_RANKS_MAX_COUNT \<le> GetRanksSize g"
  shows "quiet_change g (g\<lparr>g_ranks := g_ranks g @ [new_RankInfo (g_id g) (GetRanksSize g) name rights 0]\<rparr>)"
proof -
  have "length (g_ranks g) < 10" if "ranks_ok (g_ranks g)"
    using assms ranks_size [OF that] by (simp add: word_le_nat_alt)
  then show ?thesis
    by (auto simp: quiet_change_def member_view_def ranks_ok_def rank_ok_def new_RankInfo_def GetRanksSize_def nth_append less_Suc_eq)
qed

lemma quiet_butlast:
  assumes "\<not> GetRanksSize g \<le> GUILD_RANKS_MIN_COUNT"
  shows "quiet_change g (g\<lparr>g_ranks := butlast (g_ranks g)\<rparr>)"
proof -
  have "5 < length (g_ranks g)" if "ranks_ok (g_ranks g)"
    using assms ranks_size [OF that] by (simp add: word_le_nat_alt)
  then show ?thesis by (auto simp: quiet_change_def member_view_def ranks_ok_def nth_butlast)
qed

lemma log_added:
  assumes "log_ok h" and "LogHolder_GetNextGUID h = (guid, h')"
  shows "log_ok (fst (LogHolder_AddEvent save e h'))"
proof -
  have pos: "0 < lh_maxRecords h" using assms by (simp add: log_ok_def)
  then have m: "0 < unat (lh_maxRecords h)" "(lh_nextGUID h + 1) mod lh_maxRecords h < lh_maxRecords h"
    by (simp_all add: unat_gt_0 word_mod_less_divisor word_neq_0_conv)
  have "length (lh_log h) \<le> unat (lh_maxRecords h)" using assms by (simp add: log_ok_def)
  with assms(2) m pos show ?thesis
    by (auto simp: log_ok_def LogHolder_GetNextGUID_def LogHolder_AddEvent_def Let_def not_le less_imp_le split: if_splits)
qed

section \<open>The frame\<close>

locale guild_frame =
  fixes I :: "guild_state \<Rightarrow> bool"
  assumes out_I: "I s \<Longrightarrow> I (s\<lparr>gs_out := es\<rparr>)"
    and money_I: "I s \<Longrightarrow> I (s\<lparr>gs_players := map (\<lambda>(k, pl). (k, if k = p then pl\<lparr>gdp_money := v\<rparr> else pl)) (gs_players s)\<rparr>)"
    and invited_I: "I s \<Longrightarrow> I (s\<lparr>gs_players := map (\<lambda>(k, pl). (k, if k = p then pl\<lparr>gdp_guildIdInvited := i\<rparr> else pl)) (gs_players s)\<rparr>)"
    and this_I: "I s \<Longrightarrow> quiet_change (gs_this s) g \<Longrightarrow> I (s\<lparr>gs_this := g\<rparr>)"
begin

lemma emit_pres [pres_intros]: "gd_pres I (gd_emit es)"
  by (simp add: gd_pres_def out_I)

lemma set_pres: "(\<And>g. quiet_change g (f g)) \<Longrightarrow> gd_pres I (gd_set f)"
  by (simp add: gd_pres_def this_I)

lemma text_pres [pres_intros]:
  "gd_pres I (gd_set (\<lambda>g. g\<lparr>g_motd := x\<rparr>))" "gd_pres I (gd_set (\<lambda>g. g\<lparr>g_info := x\<rparr>))"
  "gd_pres I (gd_set (\<lambda>g. g\<lparr>g_emblemInfo := em\<rparr>))" "gd_pres I (gd_set (\<lambda>g. g\<lparr>g_bankMoney := money\<rparr>))"
  "gd_pres I UpdateAccountsNumber"
  unfolding UpdateAccountsNumber_def by (rule set_pres, simp)+

lemma members_of_rank_pres [pres_intros]:
  "gd_pres I (gd_set (map_members_of_rank r Member_ResetTabTimes))" "gd_pres I (gd_set (map_members_of_rank r Member_ResetMoneyTime))"
  by (rule set_pres, simp)+

lemma money_pres [pres_intros]: "gd_pres I (SetMoney p v)" "gd_pres I (SetGuildIdInvited p i)" "gd_pres I (ModifyMoney p d)"
  "gd_pres I (SaveGoldToDB p)"
proof -
  show m: "gd_pres I (SetMoney p v)" for v
    unfolding SetMoney_def upd_guild_player_def
    by (intro pres_intros) (simp add: gd_pres_def money_I)
  show "gd_pres I (SetGuildIdInvited p i)"
    unfolding SetGuildIdInvited_def upd_guild_player_def by (simp add: gd_pres_def invited_I)
  show "gd_pres I (ModifyMoney p d)" unfolding ModifyMoney_def by (intro pres_intros m)
  show "gd_pres I (SaveGoldToDB p)" unfolding SaveGoldToDB_def by (intro pres_intros)
qed

lemma upd_guild_member_pres [pres_intros]: "keeps_member (\<lambda>m. fst (f m)) \<Longrightarrow> gd_pres I (upd_guild_member k f)"
  unfolding upd_guild_member_def by (intro pres_intros set_pres) simp

lemma upd_rank_pres [pres_intros]: "keeps_rank f \<Longrightarrow> gd_pres I (upd_rank r f)"
  unfolding upd_rank_def by (rule pres_this_bind) (auto intro: out_I this_I quiet_rank split: option.split)

lemma upd_tab_pres [pres_intros]: "keeps_tab f \<Longrightarrow> gd_pres I (upd_tab t f)"
  unfolding upd_tab_def by (rule pres_this_bind) (auto intro: out_I this_I quiet_tab split: option.split)

lemma sending_pres [pres_intros]:
  "gd_pres I (Guild_SendCommandResult p c e t)" "gd_pres I (Guild_SendSaveEmblemResult p e)"
  "gd_pres I (Guild_BroadcastPacket pkt)" "gd_pres I (Guild_BroadcastPacketToRank pkt r)" "gd_pres I (DeleteMemberFromDB k)"
  unfolding Guild_SendCommandResult_def Guild_SendSaveEmblemResult_def Guild_BroadcastPacket_def Guild_BroadcastPacketToRank_def
    DeleteMemberFromDB_def
  by (intro pres_intros)+

lemma event_pres [pres_intros]:
  "gd_pres I (Guild_BroadcastEvent ev guid ps)" "gd_pres I (BankTab_SendText p' t)" "gd_pres I (Guild_GetMemberByName p name)"
  unfolding Guild_BroadcastEvent_def BankTab_SendText_def Guild_GetMemberByName_def by (intro pres_intros)+

lemma remaining_pres [pres_intros]:
  "gd_pres I (Member_GetBankRemainingValue env tabId k)" "gd_pres I (GetMemberRemainingSlots env guid tabId)"
  "gd_pres I (GetMemberRemainingMoney env guid)" "gd_pres I (DecreaseMemberRemainingSlots env guid tabId)"
proof -
  show v: "gd_pres I (Member_GetBankRemainingValue env tabId k)" for tabId k
    unfolding Member_GetBankRemainingValue_def by (intro pres_intros) simp
  show s: "gd_pres I (GetMemberRemainingSlots env guid tabId)"
    unfolding GetMemberRemainingSlots_def by (intro pres_intros v)
  show "gd_pres I (GetMemberRemainingMoney env guid)" unfolding GetMemberRemainingMoney_def by (intro pres_intros v)
  show "gd_pres I (DecreaseMemberRemainingSlots env guid tabId)"
    unfolding DecreaseMemberRemainingSlots_def by (intro pres_intros s) simp
qed

lemma bank_money_pres [pres_intros]: "gd_pres I (ModifyBankMoney amount add)"
  unfolding ModifyBankMoney_def by (intro pres_intros)

lemma new_tab_pres [pres_intros]: "gd_pres I CreateNewBankTab"
  unfolding CreateNewBankTab_def by (rule pres_this_bind) (auto simp: Let_def intro: out_I this_I quiet_new_tab)

lemma rank_limits_pres [pres_intros]:
  "gd_pres I (SetRankBankMoneyPerDay r money)" "gd_pres I (SetRankBankTabRightsAndSlots r tabId rs save)"
  unfolding SetRankBankMoneyPerDay_def SetRankBankTabRightsAndSlots_def by (intro pres_intros; simp)+

lemma log_event_pres [pres_intros]: "gd_pres I (Guild_LogEvent env ev a b r)"
proof -
  have q: "quiet_change g (g\<lparr>g_eventLog := fst (LogHolder_AddEvent EventLogEntry_SaveToDB e (snd (LogHolder_GetNextGUID (g_eventLog g))))\<rparr>)"
    for g e
    by (auto simp: quiet_change_def member_view_def intro!: log_added prod.collapse [symmetric])
  show ?thesis unfolding Guild_LogEvent_def by (rule pres_this_bind) (auto simp: split_beta Let_def intro: out_I this_I q)
qed

lemma log_bank_event_pres [pres_intros]: "gd_pres I (Guild_LogBankEvent env ev tabId k n c d)"
proof -
  have q: "quiet_change g (g\<lparr>g_bankEventLog := (g_bankEventLog g)[j :=
      fst (LogHolder_AddEvent BankEventLogEntry_SaveToDB e (snd (LogHolder_GetNextGUID (g_bankEventLog g ! j))))]\<rparr>)"
    if "j \<le> 6" for g e j
    using that
    by (auto simp: quiet_change_def member_view_def bank_logs_ok_def intro!: log_added prod.collapse [symmetric]
        dest!: set_update_subset_insert [THEN subsetD])
  have j: "unat tabId \<le> 6" if "\<not> GUILD_BANK_MAX_TABS < tabId" using that by (simp add: word_less_nat_alt not_less)
  show ?thesis
    unfolding Guild_LogBankEvent_def
    by (rule pres_this_bind) (auto simp: split_beta Let_def gd_when_def intro!: out_I this_I q dest: j)
qed

lemma to_client_pres [pres_intros]:
  "gd_pres I (SendBankContent env p tabId)" "gd_pres I (SendBankMoneyUpdate env p)" "gd_pres I (Guild_SendInfo env p)"
  "gd_pres I (SendEventLog env p)" "gd_pres I (SendBankLog env p tabId)" "gd_pres I (SendMoneyInfo env p)"
  "gd_pres I (SendBankTabsInfo env p)" "gd_pres I (SendBankTabText p tabId)" "gd_pres I (Guild_HandleRoster env p')"
  "gd_pres I (Guild_HandleQuery p)" "gd_pres I (BroadcastToGuild env p officer pkt)"
  unfolding SendBankContent_def SendBankMoneyUpdate_def Guild_SendInfo_def SendEventLog_def SendBankLog_def SendMoneyInfo_def
    SendBankTabsInfo_def SendBankTabText_def Guild_HandleRoster_def Guild_HandleQuery_def BroadcastToGuild_def
  by (intro pres_intros)+

lemma permissions_pres [pres_intros]:
  "gd_pres I (permission_tabs env p r is)" "gd_pres I (SendPermissions env p)" "gd_pres I (SendBankTabData env p tabId)"
  "gd_pres I (SendLoginInfo env p)"
proof -
  show t: "gd_pres I (permission_tabs env p r is)" for r "is"
    by (induction "is") (auto intro!: pres_intros)
  show "gd_pres I (SendPermissions env p)" unfolding SendPermissions_def by (intro pres_intros t)
  show "gd_pres I (SendBankTabData env p tabId)" unfolding SendBankTabData_def by (intro pres_intros)
  show "gd_pres I (SendLoginInfo env p)" unfolding SendLoginInfo_def by (intro pres_intros)
qed

lemma quiet_handlers [pres_intros]:
  "gd_pres I (HandleSetMOTD p motd)" "gd_pres I (HandleSetInfo p info)" "gd_pres I (HandleSetEmblem p em)"
  "gd_pres I (HandleSetBankTabInfo env p tabId name icon)" "gd_pres I (SetBankTabText env tabId t)"
  "gd_pres I (HandleSetMemberNote env p name note officer)" "gd_pres I (HandleSetRankInfo env p r name rights money rss)"
  "gd_pres I (HandleBuyBankTab env p tabId)" "gd_pres I (HandleInviteMember env p name)"
  "gd_pres I (HandleMemberDepositMoney env p amount)" "gd_pres I (HandleMemberWithdrawMoney env p amount repair)"
  "gd_pres I (HandleMemberLogout env p)"
  unfolding HandleSetMOTD_def HandleSetInfo_def HandleSetEmblem_def HandleSetBankTabInfo_def SetBankTabText_def
    HandleSetMemberNote_def HandleSetRankInfo_def HandleBuyBankTab_def HandleInviteMember_def HandleMemberDepositMoney_def
    HandleMemberWithdrawMoney_def HandleMemberLogout_def
  by (intro pres_intros; simp add: keeps_member_comp if_distrib)+

lemma rank_count_pres [pres_intros]:
  "gd_pres I (CreateRank name rights)" "gd_pres I (HandleAddNewRank env p name)" "gd_pres I (HandleRemoveLowestRank env p)"
proof -
  show c: "gd_pres I (CreateRank name rights)" for rights
    unfolding CreateRank_def
    by (rule pres_this_bind) (auto simp: gd_when_def Let_def intro!: out_I this_I quiet_new_rank)
  show "gd_pres I (HandleAddNewRank env p name)" unfolding HandleAddNewRank_def by (intro pres_intros c)
  show "gd_pres I (HandleRemoveLowestRank env p)"
    unfolding HandleRemoveLowestRank_def
    by (rule pres_this_bind)
      (auto simp: Let_def intro!: out_I this_I quiet_butlast gd_presD [OF sending_pres(1)] gd_presD [OF to_client_pres(10)]
        gd_presD [OF to_client_pres(9)])
qed

lemma bank_items_pres [pres_intros]: "gd_pres I (DeleteBankItems b)"
  unfolding DeleteBankItems_def by (intro pres_intros set_pres) (simp add: quiet_change_def member_view_def tabs_ok_def)

end

section \<open>Properties that do not depend on the players or on the members' ranks\<close>

locale guild_shape = guild_frame +
  assumes players_I: "I s \<Longrightarrow> map fst ps = map fst (gs_players s) \<Longrightarrow> I (s\<lparr>gs_players := ps\<rparr>)"
    and rank_I: "I s \<Longrightarrow> I (s\<lparr>gs_this := map_member k (\<lambda>m. m\<lparr>mb_rankId := r\<rparr>) (gs_this s)\<rparr>)"
begin

lemma player_pres [pres_intros]:
  "gd_pres I (upd_guild_player p f)" "gd_pres I (SetInGuild p i)" "gd_pres I (SetRank p r)"
  unfolding SetInGuild_def SetRank_def upd_guild_player_def
  by (simp_all add: gd_pres_def players_I split_beta o_def)

lemma change_rank_pres [pres_intros]:
  "gd_pres I (Member_ChangeRank k r)" "gd_pres I (HandleUpdateMemberRank env p name demote)"
  "gd_pres I (Guild_ChangeMemberRank guid r')"
proof -
  show c: "gd_pres I (Member_ChangeRank k r)" for k r
    unfolding Member_ChangeRank_def by (intro pres_intros) (simp add: gd_pres_def rank_I)
  show "gd_pres I (HandleUpdateMemberRank env p name demote)"
    unfolding HandleUpdateMemberRank_def by (intro pres_intros c)
  show "gd_pres I (Guild_ChangeMemberRank guid r')"
    unfolding Guild_ChangeMemberRank_def by (intro pres_intros c)
qed

end

section \<open>Properties a new member cannot break\<close>

locale guild_joinable = guild_shape +
  fixes i :: u32
  assumes id_I: "I s \<Longrightarrow> g_id (gs_this s) = i"
    and add_I: "I s \<Longrightarrow> guild_member_ok i k m \<Longrightarrow>
      I (s\<lparr>gs_this := (gs_this s)\<lparr>g_members := AList.update k m (g_members (gs_this s))\<rparr>\<rparr>)"
begin

lemma add_pres [pres_intros]:
  "guild_member_ok i k m \<Longrightarrow> gd_pres I (gd_set (\<lambda>g. g\<lparr>g_members := AList.update k m (g_members g)\<rparr>))"
  by (simp add: gd_pres_def add_I)

lemma AddMember_pres [pres_intros]:
  assumes "plain_player_guid guid"
  shows "gd_pres I (Guild_AddMember env guid r)"
proof -
  have m: "guild_member_ok i (GUID_LOPART guid) m \<Longrightarrow> gd_pres I (Guild_StoreMember guid b m)" for b m
    unfolding Guild_StoreMember_def by (intro pres_intros)
  show ?thesis
    unfolding Guild_AddMember_def
    by (rule pres_bind pres_if pres_quiet emit_pres pres_this_info)+
      (auto simp: id_I Let_def new_member_ok [OF assms] intro!: pres_intros m split: option.splits if_splits)
qed

lemma AcceptMember_pres [pres_intros]: "plain_player_guid p \<Longrightarrow> gd_pres I (HandleAcceptMember env p)"
  unfolding HandleAcceptMember_def by (intro pres_intros)

end

end
