(* ===== verification/Guild_Shape.thy ===== *)
theory Guild_Shape
  imports Guild_Inv
begin

text \<open>
  The shape of a guild through its methods: members under the low part of their player guid, ranks numbered from zero, tabs in order,
  logs within their limit.  A method keeps the shape and a leader who is a member, or removes the guild from the store.
\<close>

section \<open>The invariant of a method\<close>

text \<open>\<open>st\<close>, \<open>nx\<close> and \<open>ks\<close> are the store, the next id and the guids of the players when the method starts.\<close>

definition shape :: "(u32 \<times> guild) list \<Rightarrow> u32 \<Rightarrow> u32 \<Rightarrow> u64 list \<Rightarrow> guild_state \<Rightarrow> bool" where
  "shape st i nx ks s =
     (g_id (gs_this s) = i \<and> guild_ok (gs_this s) \<and> (GuildStore s = st \<or> GuildStore s = AList.delete i st) \<and>
      NextGuildId s = nx \<and> map fst (gs_players s) = ks)"

definition led :: "(u32 \<times> guild) list \<Rightarrow> u32 \<Rightarrow> u32 \<Rightarrow> u64 list \<Rightarrow> u64 \<Rightarrow> guild_state \<Rightarrow> bool" where
  "led st i nx ks l s = (shape st i nx ks s \<and> leader_ok (gs_this s) \<and> g_leaderGuid (gs_this s) = l)"

definition kept :: "(u32 \<times> guild) list \<Rightarrow> u32 \<Rightarrow> u32 \<Rightarrow> u64 list \<Rightarrow> guild_state \<Rightarrow> bool" where
  "kept st i nx ks s = (shape st i nx ks s \<and> (leader_ok (gs_this s) \<or> GuildStore s = AList.delete i st))"

lemma led_kept: "led st i nx ks l s \<Longrightarrow> kept st i nx ks s"
  by (simp add: led_def kept_def)

lemma view_keys: "member_view g' = member_view g \<Longrightarrow> map fst (g_members g') = map fst (g_members g)"
  by (drule arg_cong [where f = "map fst"]) (simp add: member_view_def split_beta o_def)

lemma members_ok_view:
  assumes "member_view g' = member_view g" and "members_ok i (g_members g)"
  shows "members_ok i (g_members g')"
proof -
  have keys: "map fst (g_members g') = map fst (g_members g)" by (rule view_keys) fact
  have "guild_member_ok i k m'" if "(k, m') \<in> set (g_members g')" for k m'
  proof -
    have "(k, mb_guid m', mb_guildId m', mb_rankId m', length (mb_bankRemaining m')) \<in> set (member_view g)"
      using that assms(1) [symmetric] by (force simp: member_view_def)
    then obtain m where "(k, m) \<in> set (g_members g)" "mb_guid m' = mb_guid m" "mb_guildId m' = mb_guildId m"
      "length (mb_bankRemaining m') = length (mb_bankRemaining m)"
      by (auto simp: member_view_def)
    with assms(2) show ?thesis by (auto simp: members_ok_def guild_member_ok_def)
  qed
  with keys assms(2) show ?thesis by (auto simp: members_ok_def)
qed

lemma guild_ok_quiet: "quiet_change g g' \<Longrightarrow> guild_ok g \<Longrightarrow> guild_ok g'"
  by (auto simp: guild_ok_def quiet_change_def intro: members_ok_view)

lemma member_keys: "map_of ms k \<noteq> None \<longleftrightarrow> k \<in> set (map fst ms)"
  by (simp add: map_of_eq_None_iff)

lemma leader_ok_quiet:
  assumes "quiet_change g g'" and "leader_ok g"
  shows "leader_ok g'"
proof -
  have "map fst (g_members g') = map fst (g_members g)"
    using assms(1) by (intro view_keys) (simp add: quiet_change_def)
  with assms show ?thesis
    unfolding leader_ok_def Guild_GetMember_def member_keys by (simp add: quiet_change_def)
qed

lemma guild_ok_rank:
  "guild_ok g \<Longrightarrow> guild_ok (map_member k (\<lambda>m. m\<lparr>mb_rankId := r\<rparr>) g)"
  "leader_ok g \<Longrightarrow> leader_ok (map_member k (\<lambda>m. m\<lparr>mb_rankId := r\<rparr>) g)"
proof -
  have keys: "map fst (g_members (map_member k f g)) = map fst (g_members g)" for f
    by (simp add: map_member_def split_beta o_def)
  show "guild_ok g \<Longrightarrow> guild_ok (map_member k (\<lambda>m. m\<lparr>mb_rankId := r\<rparr>) g)"
    unfolding guild_ok_def members_ok_def keys by (auto simp: map_member_def guild_member_ok_def)
  show "leader_ok g \<Longrightarrow> leader_ok (map_member k (\<lambda>m. m\<lparr>mb_rankId := r\<rparr>) g)"
    unfolding leader_ok_def Guild_GetMember_def member_keys by (simp only: keys) (simp add: map_member_def)
qed

lemma leader_of_map: "g_leaderGuid (map_member k f g) = g_leaderGuid g" "g_id (map_member k f g) = g_id g"
  by (simp_all add: map_member_def)

section \<open>Joining and leaving\<close>

lemma members_ok_map:
  "members_ok i ms \<longleftrightarrow> distinct (map fst ms) \<and> (\<forall>k m. map_of ms k = Some m \<longrightarrow> guild_member_ok i k m)"
  by (auto simp: members_ok_def map_of_eq_Some_iff dest: map_of_SomeD)

lemma members_ok_update:
  "members_ok i ms \<Longrightarrow> guild_member_ok i k m \<Longrightarrow> members_ok i (AList.update k m ms)"
  by (auto simp: members_ok_map distinct_update update_conv' split: if_splits)

lemma members_ok_delete: "members_ok i ms \<Longrightarrow> members_ok i (AList.delete k ms)"
  by (auto simp: members_ok_map distinct_delete delete_conv' split: if_splits)

lemma GetMember_ok:
  assumes "guild_ok g" and "map_of (g_members g) k = Some m"
  shows "GUID_LOPART (mb_guid m) = k" and "plain_player_guid (mb_guid m)"
proof -
  have "guild_member_ok (g_id g) k m" using assms unfolding guild_ok_def members_ok_map by blast
  then show "GUID_LOPART (mb_guid m) = k" and "plain_player_guid (mb_guid m)" by (rule member_ok_guid)+
qed

lemma add_guild_member_ok:
  "guild_ok g \<Longrightarrow> guild_member_ok (g_id g) k m \<Longrightarrow> guild_ok (g\<lparr>g_members := AList.update k m (g_members g)\<rparr>)"
  by (auto simp: guild_ok_def intro: members_ok_update)

lemma add_member_leader: "leader_ok g \<Longrightarrow> leader_ok (g\<lparr>g_members := AList.update k m (g_members g)\<rparr>)"
  by (auto simp: leader_ok_def Guild_GetMember_def update_conv')

interpretation shape: guild_joinable "shape st i nx ks" i for st i nx ks
  by unfold_locales
    (auto simp: shape_def split_beta o_def quiet_change_def [of _ _] leader_of_map
      intro: guild_ok_quiet guild_ok_rank add_guild_member_ok)

interpretation led: guild_joinable "led st i nx ks l" i for st i nx ks l
  by unfold_locales
    (auto simp: led_def shape.out_I shape.money_I shape.invited_I shape.this_I shape.players_I shape.rank_I shape.add_I
      quiet_change_def [of _ _] leader_of_map intro: leader_ok_quiet guild_ok_rank add_member_leader shape.id_I)

interpretation kept: guild_joinable "kept st i nx ks" i for st i nx ks
  by unfold_locales
    (auto simp: kept_def shape.out_I shape.money_I shape.invited_I shape.this_I shape.players_I shape.rank_I shape.add_I
      intro: leader_ok_quiet guild_ok_rank add_member_leader shape.id_I)

section \<open>Leaving, disbanding and a change of leader\<close>

lemma delete_member_ok: "guild_ok g \<Longrightarrow> guild_ok (g\<lparr>g_members := AList.delete k (g_members g)\<rparr>)"
  by (auto simp: guild_ok_def intro: members_ok_delete)

lemma shape_delete: "gd_pres (shape st i nx ks) (gd_set (\<lambda>g. g\<lparr>g_members := AList.delete k (g_members g)\<rparr>))"
  by (auto simp: gd_pres_def shape_def intro: delete_member_ok)

lemma led_delete:
  assumes "plain_player_guid guid" and "guid \<noteq> l"
  shows "gd_pres (led st i nx ks l) (gd_set (\<lambda>g. g\<lparr>g_members := AList.delete (GUID_LOPART guid) (g_members g)\<rparr>))"
proof -
  have "leader_ok (g\<lparr>g_members := AList.delete (GUID_LOPART guid) (g_members g)\<rparr>)"
    if "leader_ok g" "g_leaderGuid g = l" for g
    using that assms players_same_low [of guid l] by (auto simp: leader_ok_def Guild_GetMember_def delete_conv')
  then show ?thesis by (auto simp: gd_pres_def led_def shape_def intro: delete_member_ok)
qed

lemma EraseMember_pres [pres_intros]:
  "gd_pres (shape st i nx ks) (Guild_EraseMember guid d b)"
  "plain_player_guid guid \<Longrightarrow> guid \<noteq> l \<Longrightarrow> gd_pres (led st i nx ks l) (Guild_EraseMember guid d b)"
  unfolding Guild_EraseMember_def by (intro pres_intros shape_delete led_delete; assumption)+

lemma Disband_loop_pres [pres_intros]: "gd_pres (shape st i nx ks) (Disband_loop n)"
  by (induction n) (auto intro!: pres_intros)

lemma shape_gone: "shape (AList.delete i st) i nx ks s \<longleftrightarrow> shape st i nx ks s \<and> GuildStore s = AList.delete i st"
  by (auto simp: shape_def delete_idem)

lemma Disband_gone:
  assumes "shape st i nx ks s"
  shows "gd_wp Guild_Disband (\<lambda>_. shape (AList.delete i st) i nx ks) s"
proof -
  have r: "gd_wp (RemoveGuild i) (\<lambda>_. shape (AList.delete i st) i nx ks) s" if "shape st i nx ks s" for s
    using that by (auto simp: RemoveGuild_def shape_def delete_idem)
  have id: "g_id (gs_this s) = i" using assms by (simp add: shape_def)
  show ?thesis
    unfolding Guild_Disband_def
    by (simp add: id, intro r gd_presD [OF shape.event_pres(1)] gd_presD [OF Disband_loop_pres] gd_presD [OF shape.bank_items_pres]
        shape.out_I) (assumption | rule assms)+
qed

lemma kept_cases: "kept st i nx ks s \<longleftrightarrow> (\<exists>l. led st i nx ks l s) \<or> shape (AList.delete i st) i nx ks s"
  by (auto simp: kept_def led_def shape_gone)

lemma gone_kept: "shape (AList.delete i st) i nx ks s \<Longrightarrow> kept st i nx ks s"
  by (simp add: kept_cases)

lemma kept_shape: "kept st i nx ks s \<Longrightarrow> shape st i nx ks s"
  by (simp add: kept_def)

lemma Disband_pres [pres_intros]:
  "gd_pres (shape st i nx ks) Guild_Disband" "gd_pres (kept st i nx ks) Guild_Disband"
  by (auto intro!: gd_presI intro: gd_wp_mono [OF Disband_gone] gone_kept kept_shape)

lemma kept_pres:
  assumes "\<And>st. gd_pres (shape st i nx ks) m"
    and "\<And>l s. led st i nx ks l s \<Longrightarrow> gd_wp m (\<lambda>_. kept st i nx ks) s"
  shows "gd_pres (kept st i nx ks) m"
  using assms(2) gd_presD [OF assms(1)] by (auto intro!: gd_presI simp: kept_cases [of _ _ _ _ "_ :: guild_state"] gone_kept)

lemma SetLeaderGUID_led:
  assumes "shape st i nx ks s" and "map_of (g_members (gs_this s)) k = Some m"
  shows "gd_wp (SetLeaderGUID k) (\<lambda>_. led st i nx ks (mb_guid m)) s"
proof -
  have "guild_ok (gs_this s)" using assms by (simp add: shape_def)
  then have "led st i nx ks (mb_guid m) (s\<lparr>gs_this := (gs_this s)\<lparr>g_leaderGuid := mb_guid m\<rparr>\<rparr>)"
    using assms GetMember_ok [of "gs_this s" k m]
    by (auto simp: led_def shape_def leader_ok_def Guild_GetMember_def guild_ok_def)
  with assms(2) show ?thesis
    unfolding SetLeaderGUID_def by (auto intro!: gd_presD [OF led.change_rank_pres(1)] led.out_I)
qed

lemma SetLeaderGUID_pres [pres_intros]:
  "gd_pres (shape st i nx ks) (SetLeaderGUID k)" "gd_pres (kept st i nx ks) (SetLeaderGUID k)"
proof -
  have none: "map_of (g_members (gs_this s)) k = None \<Longrightarrow> gd_wp (SetLeaderGUID k) Q s = Q () s" for Q s
    by (simp add: SetLeaderGUID_def)
  have some: "shape st i nx ks s \<Longrightarrow> map_of (g_members (gs_this s)) k = Some m \<Longrightarrow>
      (\<And>l s'. led st i nx ks l s' \<Longrightarrow> Q () s') \<Longrightarrow> gd_wp (SetLeaderGUID k) Q s" for Q s m
    by (rule gd_wp_mono [OF SetLeaderGUID_led]) auto
  show "gd_pres (shape st i nx ks) (SetLeaderGUID k)"
  proof (rule gd_presI)
    fix s assume "shape st i nx ks s"
    then show "gd_wp (SetLeaderGUID k) (\<lambda>_. shape st i nx ks) s"
      by (cases "map_of (g_members (gs_this s)) k") (auto simp: none led_def intro: some)
  qed
  show "gd_pres (kept st i nx ks) (SetLeaderGUID k)"
  proof (rule gd_presI)
    fix s assume k: "kept st i nx ks s"
    show "gd_wp (SetLeaderGUID k) (\<lambda>_. kept st i nx ks) s"
    proof (cases "map_of (g_members (gs_this s)) k")
      case (Some m)
      then show ?thesis by (rule some [OF kept_shape [OF k]]) (rule led_kept)
    qed (simp add: none k)
  qed
qed

lemma scan_new_leader:
  assumes "DeleteMember_scan low ms (old, new) = (old', Some (k, m))"
    and "\<And>k m. new = Some (k, m) \<Longrightarrow> (k, m) \<in> S \<and> k \<noteq> low" and "set ms \<subseteq> S"
  shows "(k, m) \<in> S \<and> k \<noteq> low"
  using assms by (induction low ms "(old, new)" arbitrary: old new rule: DeleteMember_scan.induct) (auto split: if_splits)

text \<open>When the leader is deleted, member or not, another member leads or the guild is gone.\<close>

lemma DeleteMember_leader:
  assumes sh: "shape st i nx ks s" and lead: "g_leaderGuid (gs_this s) = guid" and g: "plain_player_guid guid"
  shows "gd_wp (Guild_DeleteMember guid False b) (\<lambda>_. kept st i nx ks) s"
proof -
  have ok: "guild_ok (gs_this s)" using sh by (simp add: shape_def)
  obtain old new where scan: "DeleteMember_scan (GUID_LOPART guid) (g_members (gs_this s)) (None, None) = (old, new)" by fastforce
  show ?thesis
  proof (cases new)
    case None
    with lead scan sh show ?thesis
      unfolding Guild_DeleteMember_def by (auto intro: gd_wp_mono [OF Disband_gone] gone_kept)
  next
    case (Some e)
    obtain k m where e: "e = (k, m)" by fastforce
    have km: "map_of (g_members (gs_this s)) k = Some m" "k \<noteq> GUID_LOPART guid"
      using scan_new_leader [of _ _ None None old k m "set (g_members (gs_this s))"] scan Some e ok
      by (auto simp: guild_ok_def members_ok_def)
    then have "guid \<noteq> mb_guid m" using GetMember_ok(1) [OF ok] by metis
    let ?rest = "do {
        newLeaderPlayer \<leftarrow> gd_asks (gd_FindPlayer (mb_guid m));
        gd_when (newLeaderPlayer \<noteq> None) (SetRank (mb_guid m) GR_GUILDMASTER);
        (case old of None \<Rightarrow> gd_ret () | Some old \<Rightarrow> do {
           Guild_BroadcastEvent GE_LEADER_CHANGED 0 [mb_name old, mb_name m];
           Guild_BroadcastEvent GE_LEFT guid [mb_name old]
         });
        Guild_EraseMember guid False b
      }"
    have rest: "gd_pres (led st i nx ks (mb_guid m)) ?rest" using \<open>guid \<noteq> mb_guid m\<close> by (intro pres_intros g)
    have "gd_wp (Guild_DeleteMember guid False b) Q s = gd_wp (SetLeaderGUID k) (\<lambda>_. gd_wp ?rest Q) s" for Q
      using lead by (simp add: Guild_DeleteMember_def scan Some e)
    then show ?thesis
      by (simp only:) (rule gd_wp_mono [OF SetLeaderGUID_led [OF sh km(1)]], erule gd_presD [OF rest], rule led_kept)
  qed
qed

lemma DeleteMember_pres [pres_intros]:
  "gd_pres (shape st i nx ks) (Guild_DeleteMember guid d b)"
  "plain_player_guid guid \<Longrightarrow> gd_pres (kept st i nx ks) (Guild_DeleteMember guid False b)"
proof -
  show s: "gd_pres (shape st i nx ks) (Guild_DeleteMember guid d b)" for st d
    unfolding Guild_DeleteMember_def by (intro pres_intros)
  assume g: "plain_player_guid guid"
  show "gd_pres (kept st i nx ks) (Guild_DeleteMember guid False b)"
  proof (rule kept_pres [OF s])
    fix l s assume l: "led st i nx ks l s"
    then have sh: "shape st i nx ks s" and lead: "g_leaderGuid (gs_this s) = l" by (auto simp: led_def)
    show "gd_wp (Guild_DeleteMember guid False b) (\<lambda>_. kept st i nx ks) s"
    proof (cases "l = guid")
      case False
      then show ?thesis
        unfolding Guild_DeleteMember_def using lead l g by (auto intro!: gd_presD [OF EraseMember_pres(2)] led_kept)
    next
      case True
      then show ?thesis using DeleteMember_leader [OF sh _ g] lead by simp
    qed
  qed
qed

section \<open>Client commands that change the membership\<close>

lemma member_by_name_pres:
  assumes "gd_pres I (Guild_SendCommandResult p GUILD_INVITE_S ERR_GUILD_PLAYER_NOT_IN_GUILD_S name)"
    and "\<And>s. I s \<Longrightarrow> guild_ok (gs_this s)"
    and "gd_pres I (c None)" and "\<And>k m. plain_player_guid (mb_guid m) \<Longrightarrow> gd_pres I (c (Some (k, m)))"
  shows "gd_pres I (do { found \<leftarrow> Guild_GetMemberByName p name; c found })"
proof (rule gd_presI)
  fix s assume I: "I s"
  show "gd_wp (do { found \<leftarrow> Guild_GetMemberByName p name; c found }) (\<lambda>_. I) s"
  proof (cases "find (\<lambda>(k, m). mb_name m = name) (g_members (gs_this s))")
    case None
    then show ?thesis
      using gd_presD [OF assms(1) I] assms(3) by (simp add: Guild_GetMemberByName_def gd_pres_def)
  next
    case (Some e)
    obtain k m where e: "e = (k, m)" by fastforce
    then have "(k, m) \<in> set (g_members (gs_this s))" using Some by (metis find_Some_iff nth_mem)
    then have "map_of (g_members (gs_this s)) k = Some m"
      using assms(2) [OF I] by (simp add: guild_ok_def members_ok_def)
    then have "gd_pres I (c (Some (k, m)))" using GetMember_ok(2) [OF assms(2) [OF I]] assms(4) by blast
    with Some e I show ?thesis by (simp add: Guild_GetMemberByName_def gd_pres_def)
  qed
qed

lemma kept_ok: "kept st i nx ks s \<Longrightarrow> guild_ok (gs_this s)"
  by (simp add: kept_def shape_def)

lemma membership_handlers [pres_intros]:
  "gd_pres (kept st i nx ks) (HandleSetLeader p name)"
  "plain_player_guid p \<Longrightarrow> gd_pres (kept st i nx ks) (HandleLeaveMember env p)"
  "gd_pres (kept st i nx ks) (HandleRemoveMember env p name)"
  "gd_pres (kept st i nx ks) (HandleDisband p)"
proof -
  show "gd_pres (kept st i nx ks) (HandleSetLeader p name)" unfolding HandleSetLeader_def by (intro pres_intros)
  show "plain_player_guid p \<Longrightarrow> gd_pres (kept st i nx ks) (HandleLeaveMember env p)"
    unfolding HandleLeaveMember_def by (intro pres_intros)
  show "gd_pres (kept st i nx ks) (HandleDisband p)" unfolding HandleDisband_def by (intro pres_intros)
  show "gd_pres (kept st i nx ks) (HandleRemoveMember env p name)"
    unfolding HandleRemoveMember_def
    by (rule pres_bind pres_if pres_quiet kept.sending_pres(1) member_by_name_pres kept_ok | assumption | intro pres_intros)+
      (auto intro!: pres_intros)
qed

section \<open>Creation\<close>

lemma CreateRank_wp:
  assumes "length (g_ranks (gs_this s)) < 10"
    and "\<And>es. Q () (s\<lparr>gs_this := (gs_this s)\<lparr>g_ranks := g_ranks (gs_this s) @
      [new_RankInfo (g_id (gs_this s)) (word_of_nat (length (g_ranks (gs_this s)))) name rights 0]\<rparr>, gs_out := es\<rparr>)"
  shows "gd_wp (CreateRank name rights) Q s"
  using assms
  by (simp add: CreateRank_def GetRanksSize_def gd_when_def Let_def word_le_nat_alt unat_of_nat)

lemma default_ranks:
  assumes "g_ranks (gs_this s) = []"
    and "\<And>rs es. ranks_ok rs \<Longrightarrow> Q () (s\<lparr>gs_this := (gs_this s)\<lparr>g_ranks := rs\<rparr>, gs_out := es\<rparr>)"
  shows "gd_wp (CreateDefaultGuildRanks env loc) Q s"
proof -
  have ok: "ranks_ok [new_RankInfo i 0 a GR_RIGHT_ALL 0, new_RankInfo i 1 b GR_RIGHT_ALL 0, new_RankInfo i 2 c r 0,
      new_RankInfo i 3 d r 0, new_RankInfo i 4 e r 0]" for i a b c d e r
    by (auto simp: ranks_ok_def rank_ok_def new_RankInfo_def less_Suc_eq)
  show ?thesis
    unfolding CreateDefaultGuildRanks_def gd_wp_bind gd_wp_simps
    by ((rule CreateRank_wp, simp_all add: assms(1))+) (rule assms(2) [OF ok])
qed

lemma StoreMember_led:
  assumes "shape st i nx ks s" and "plain_player_guid guid" and "g_leaderGuid (gs_this s) = guid" and "guild_member_ok i (GUID_LOPART guid) m"
  shows "gd_wp (Guild_StoreMember guid b m) (\<lambda>_. led st i nx ks guid) s"
proof -
  have "led st i nx ks guid (s\<lparr>gs_this := (gs_this s)\<lparr>g_members := AList.update (GUID_LOPART guid) m (g_members (gs_this s))\<rparr>\<rparr>)"
    using shape.add_I [OF assms(1,4)] assms(2,3) by (simp add: led_def leader_ok_def Guild_GetMember_def update_conv')
  then show ?thesis
    unfolding Guild_StoreMember_def
    by (simp, intro led.out_I gd_presD [OF pres_when [OF pres_bind]] gd_presD [OF led.text_pres(5)]) (auto intro!: pres_intros led.out_I)
qed

lemma AddMember_led:
  assumes "shape st i nx ks s" and "plain_player_guid guid" and "g_leaderGuid (gs_this s) = guid"
  shows "gd_wp (Guild_AddMember env guid r) (\<lambda>ok s'. shape st i nx ks s' \<and> (ok \<longrightarrow> led st i nx ks guid s')) s"
proof -
  have add: "gd_wp (Guild_StoreMember guid b m) (\<lambda>ok s'. shape st i nx ks s' \<and> (ok \<longrightarrow> led st i nx ks guid s')) (s\<lparr>gs_out := es\<rparr>)"
    if "guild_member_ok i (GUID_LOPART guid) m" for b m es
    using that assms by (intro gd_wp_mono [OF StoreMember_led [of st i nx ks]]) (auto simp: led_def intro: shape.out_I)
  have id: "g_id (gs_this s) = i" using assms(1) by (simp add: shape_def)
  show ?thesis
    unfolding Guild_AddMember_def
    by (auto simp: Let_def id assms(1) shape.out_I new_member_ok [OF assms(2)] intro!: add split: option.split)
qed

definition env_ok :: "guild_env \<Rightarrow> bool" where
  "env_ok env = (0 < gde_event_log_count env \<and> 0 < gde_bank_event_log_count env)"

lemma new_Guild_ranks: "g_ranks new_Guild = []"
  by (simp add: new_Guild_def)

lemma Create_wp:
  assumes "gs_this s = new_Guild" and "env_ok env" and "plain_player_guid p"
    and "Q False s"
    and "\<And>s'. shape (GuildStore s) (NextGuildId s) (NextGuildId s + 1) (map fst (gs_players s)) s' \<Longrightarrow> Q False s'"
    and "\<And>s'. led (GuildStore s) (NextGuildId s) (NextGuildId s + 1) (map fst (gs_players s)) p s' \<Longrightarrow> Q True s'"
  shows "gd_wp (Guild_Create env p name) Q s"
proof -
  let ?n = "NextGuildId s" and ?st = "GuildStore s" and ?ks = "map fst (gs_players s)"
  let ?g = "new_Guild\<lparr>g_id := ?n, g_leaderGuid := p, g_name := name, g_info := [], g_motd := ''No message set.'', g_bankMoney := 0,
    g_createdDate := gde_time env, g_eventLog := new_LogHolder ?n (gde_event_log_count env),
    g_bankEventLog := replicate 7 (new_LogHolder ?n (gde_bank_event_log_count env))\<rparr>"
  have fresh: "shape ?st ?n (?n + 1) ?ks (s\<lparr>NextGuildId := ?n + 1, gs_this := ?g\<lparr>g_ranks := rs\<rparr>, gs_out := es\<rparr>)" if "ranks_ok rs" for es rs
    using that assms(1,2)
    by (simp add: shape_def guild_ok_def members_ok_def tabs_ok_def bank_logs_ok_def log_ok_def new_LogHolder_def new_Guild_def
        env_ok_def)
  have added: "gd_wp (Guild_AddMember env p GR_GUILDMASTER) (\<lambda>ret. gd_wp (if ret
      then gd_emit [GdCall ''OnGuildCreate'' [DbU32 ?n, DbU64 p, DbString name]] else gd_ret ()) (\<lambda>_. Q ret)) (s\<lparr>NextGuildId := ?n + 1, gs_this := ?g\<lparr>g_ranks := rs\<rparr>, gs_out := es\<rparr>)" if "ranks_ok rs" for rs es
    by (rule gd_wp_mono [OF AddMember_led [OF fresh [OF that] assms(3)]])
      (auto simp: gd_when_def intro: assms(5,6) led.out_I)
  show ?thesis
    unfolding Guild_Create_def
    using assms(1,4)
    by (simp add: GenerateGuildId_def CreateLogHolders_def gd_when_def)
      (intro conjI impI default_ranks; simp add: added new_Guild_ranks)
qed

end
