(* ===== verification/Guild_Store.thy ===== *)
theory Guild_Store
  imports Guild_Shape
begin

text \<open>
  The store of guilds under every request of a client, every command of a game master and every call from the rest of the server: a step
  relation and the invariant of its reachable states.
\<close>

section \<open>The invariant\<close>

definition guilds_ok :: "guild_state \<Rightarrow> bool" where
  "guilds_ok s =
     (distinct (map fst (GuildStore s)) \<and>
      (\<forall>(i, g) \<in> set (GuildStore s). g_id g = i \<and> i < NextGuildId s \<and> guild_ok g \<and> leader_ok g) \<and>
      (\<forall>p \<in> set (map fst (gs_players s)). plain_player_guid p))"

interpretation guilds: guild_shape guilds_ok
  by unfold_locales (auto simp: guilds_ok_def split_beta)

lemma guilds_ok_this [simp]: "guilds_ok (s\<lparr>gs_this := g\<rparr>) = guilds_ok s"
  by (simp add: guilds_ok_def)

lemma guilds_ok_map:
  "guilds_ok s \<longleftrightarrow> distinct (map fst (GuildStore s)) \<and>
     (\<forall>i g. map_of (GuildStore s) i = Some g \<longrightarrow> g_id g = i \<and> i < NextGuildId s \<and> guild_ok g \<and> leader_ok g) \<and>
     (\<forall>p \<in> set (map fst (gs_players s)). plain_player_guid p)"
  by (auto simp: guilds_ok_def map_of_eq_Some_iff dest: map_of_SomeD)

lemma guilds_okD:
  assumes "guilds_ok s" and "map_of (GuildStore s) i = Some g"
  shows "g_id g = i" "i < NextGuildId s" "guild_ok g" "leader_ok g"
  using assms by (auto simp: guilds_ok_def dest!: map_of_SomeD)

text \<open>A method that keeps a guild keeps the store.\<close>

lemma on_guild_pres [pres_intros]:
  assumes "\<And>st nx ks. gd_pres (kept st i nx ks) m"
  shows "gd_pres guilds_ok (on_guild i m)"
proof (rule gd_presI)
  fix s assume s: "guilds_ok s"
  show "gd_wp (on_guild i m) (\<lambda>_. guilds_ok) s"
  proof (cases "map_of (GuildStore s) i")
    case None
    with s show ?thesis by (simp add: gd_wp_def on_guild_def GetGuildById_def)
  next
    case (Some g)
    let ?ks = "map fst (gs_players s)"
    obtain x s' where run: "run_state m (s\<lparr>gs_this := g\<rparr>) = (x, s')" by fastforce
    have "kept (GuildStore s) i (NextGuildId s) ?ks (s\<lparr>gs_this := g\<rparr>)"
      using guilds_okD [OF s Some] by (simp add: kept_def shape_def)
    then have k: "kept (GuildStore s) i (NextGuildId s) ?ks s'" using run_pres [OF assms] run by fastforce
    then have i: "g_id (gs_this s') = i" "guild_ok (gs_this s')" "NextGuildId s' = NextGuildId s" "map fst (gs_players s') = ?ks"
      by (auto simp: kept_def shape_def)
    have st: "leader_ok (gs_this s') \<and> GuildStore s' = GuildStore s \<or> GuildStore s' = AList.delete i (GuildStore s)"
      using k by (auto simp: kept_def shape_def)
    have "guilds_ok (s'\<lparr>gs_this := gs_this s, GuildStore := AList.map_entry i (\<lambda>_. gs_this s') (GuildStore s')\<rparr>)"
      using st s i guilds_okD(2) [OF s Some] Some
      by (auto simp: guilds_ok_map map_of_map_entry delete_conv' distinct_map_entry distinct_delete)
    then show ?thesis by (simp add: gd_wp_def on_guild_def GetGuildById_def Some run)
  qed
qed

lemma call_guild_pres [pres_intros]:
  assumes "\<And>st nx ks. gd_pres (kept st i nx ks) m"
  shows "gd_pres guilds_ok (call_guild i m)"
  unfolding call_guild_def by (intro pres_intros assms)

lemma GetPlayerGuild_pres [pres_intros]: "gd_pres guilds_ok (GetPlayerGuild p b)"
  unfolding GetPlayerGuild_def by (intro pres_intros)

lemma with_guild_pres [pres_intros]:
  assumes "\<And>st i nx ks. gd_pres (kept st i nx ks) m"
  shows "gd_pres guilds_ok (with_guild p b m)"
  unfolding with_guild_def by (intro pres_intros assms)

lemma with_name_pres [pres_intros]: "(\<And>name. gd_pres guilds_ok (f name)) \<Longrightarrow> gd_pres guilds_ok (with_name env n f)"
  unfolding with_name_def by (intro pres_intros)

section \<open>A new guild\<close>

lemma create_guild:
  assumes "guilds_ok s" and "env_ok env" and "plain_player_guid p" and "NextGuildId s < 0xFFFFFFFE"
  shows "gd_wp (do { r \<leftarrow> on_new_guild (Guild_Create env p name); gd_when (fst r) (AddGuild (snd r)) }) (\<lambda>_. guilds_ok) s"
proof -
  let ?n = "NextGuildId s" and ?ks = "map fst (gs_players s)"
  have n: "?n < ?n + 1" using assms(4) by (simp add: word_less_nat_alt unat_word_ariths)
  have store: "GuildStore s' = GuildStore s" if "shape (GuildStore s) ?n nx ?ks s'" for s' nx
  proof -
    have "?n \<notin> fst ` set (GuildStore s)" using assms(1) by (auto simp: guilds_ok_def)
    with that show ?thesis by (auto simp: shape_def delete_id)
  qed
  have keep: "guilds_ok (s'\<lparr>gs_this := g\<rparr>)" if "shape (GuildStore s) ?n nx ?ks s'" "?n \<le> nx" for s' g nx
  proof -
    have "NextGuildId s' = nx" "map fst (gs_players s') = ?ks" using that(1) by (auto simp: shape_def)
    with store [OF that(1)] that(2) assms(1) show ?thesis by (auto simp: guilds_ok_def dest: less_le_trans)
  qed
  have add: "guilds_ok (s'\<lparr>gs_this := g, GuildStore := AList.update (g_id (gs_this s')) (gs_this s') (GuildStore s')\<rparr>)"
    if "led (GuildStore s) ?n (?n + 1) ?ks p s'" for s' g
  proof -
    have "guilds_ok s'" using that keep [of "?n + 1" s' "gs_this s'"] n by (auto simp: led_def dest: less_imp_le)
    moreover have "guild_ok (gs_this s')" "leader_ok (gs_this s')" "g_id (gs_this s') = ?n" "NextGuildId s' = ?n + 1"
      using that by (auto simp: led_def shape_def)
    ultimately show ?thesis using n by (auto simp: guilds_ok_map update_conv' distinct_update simp del: map_of_eq_Some_iff)
  qed
  have "gd_wp (Guild_Create env p name)
      (\<lambda>ok s'. guilds_ok (if ok then s'\<lparr>gs_this := gs_this s, GuildStore := AList.update (g_id (gs_this s')) (gs_this s') (GuildStore s')\<rparr>
        else s'\<lparr>gs_this := gs_this s\<rparr>)) (s\<lparr>gs_this := new_Guild\<rparr>)"
    by (rule Create_wp) (use assms n keep add in \<open>auto intro: less_imp_le\<close>)
  then show ?thesis
    by (auto simp: gd_wp_def on_new_guild_def AddGuild_def gd_when_def gd_upd_def gd_ret_def split: prod.splits if_splits)
qed

section \<open>Steps\<close>

datatype guild_request =
    CMSG_GUILD_QUERY u32 | CMSG_GUILD_CREATE string | CMSG_GUILD_INVITE string | CMSG_GUILD_REMOVE string
  | CMSG_GUILD_ACCEPT | CMSG_GUILD_DECLINE | CMSG_GUILD_INFO | CMSG_GUILD_ROSTER
  | CMSG_GUILD_PROMOTE string | CMSG_GUILD_DEMOTE string | CMSG_GUILD_LEAVE | CMSG_GUILD_DISBAND | CMSG_GUILD_LEADER string
  | CMSG_GUILD_MOTD "string option" | CMSG_GUILD_SET_PUBLIC_NOTE string string | CMSG_GUILD_SET_OFFICER_NOTE string string
  | CMSG_GUILD_RANK u32 u32 string u32 "nat \<Rightarrow> u32 \<times> u32" | CMSG_GUILD_ADD_RANK string | CMSG_GUILD_DEL_RANK
  | CMSG_GUILD_INFO_TEXT string | MSG_SAVE_GUILD_EMBLEM u64 emblem_info | MSG_GUILD_EVENT_LOG_QUERY
  | MSG_GUILD_BANK_MONEY_WITHDRAWN | MSG_GUILD_PERMISSIONS | CMSG_GUILD_BANKER_ACTIVATE u64 | CMSG_GUILD_BANK_QUERY_TAB u64 u8
  | CMSG_GUILD_BANK_DEPOSIT_MONEY u64 u32 | CMSG_GUILD_BANK_WITHDRAW_MONEY u64 u32 | CMSG_GUILD_BANK_BUY_TAB u64 u8
  | CMSG_GUILD_BANK_UPDATE_TAB u64 u8 string string | MSG_GUILD_BANK_LOG_QUERY u8 | MSG_QUERY_GUILD_BANK_TEXT u8
  | CMSG_SET_GUILD_BANK_TEXT u8 string

fun handle_guild_request :: "guild_env \<Rightarrow> u64 \<Rightarrow> guild_request \<Rightarrow> unit guildm" where
  "handle_guild_request env p (CMSG_GUILD_QUERY i) = HandleGuildQueryOpcode p i"
| "handle_guild_request env p (CMSG_GUILD_CREATE name) = HandleGuildCreateOpcode env p name"
| "handle_guild_request env p (CMSG_GUILD_INVITE name) = HandleGuildInviteOpcode env p name"
| "handle_guild_request env p (CMSG_GUILD_REMOVE name) = HandleGuildRemoveOpcode env p name"
| "handle_guild_request env p CMSG_GUILD_ACCEPT = HandleGuildAcceptOpcode env p"
| "handle_guild_request env p CMSG_GUILD_DECLINE = HandleGuildDeclineOpcode p"
| "handle_guild_request env p CMSG_GUILD_INFO = HandleGuildInfoOpcode env p"
| "handle_guild_request env p CMSG_GUILD_ROSTER = HandleGuildRosterOpcode env p"
| "handle_guild_request env p (CMSG_GUILD_PROMOTE name) = HandleGuildPromoteOpcode env p name"
| "handle_guild_request env p (CMSG_GUILD_DEMOTE name) = HandleGuildDemoteOpcode env p name"
| "handle_guild_request env p CMSG_GUILD_LEAVE = HandleGuildLeaveOpcode env p"
| "handle_guild_request env p CMSG_GUILD_DISBAND = HandleGuildDisbandOpcode p"
| "handle_guild_request env p (CMSG_GUILD_LEADER name) = HandleGuildLeaderOpcode env p name"
| "handle_guild_request env p (CMSG_GUILD_MOTD motd) = HandleGuildMOTDOpcode p motd"
| "handle_guild_request env p (CMSG_GUILD_SET_PUBLIC_NOTE name note) = HandleGuildSetPublicNoteOpcode env p name note"
| "handle_guild_request env p (CMSG_GUILD_SET_OFFICER_NOTE name note) = HandleGuildSetOfficerNoteOpcode env p name note"
| "handle_guild_request env p (CMSG_GUILD_RANK r rights name money bank) = HandleGuildRankOpcode env p r rights name money bank"
| "handle_guild_request env p (CMSG_GUILD_ADD_RANK name) = HandleGuildAddRankOpcode env p name"
| "handle_guild_request env p CMSG_GUILD_DEL_RANK = HandleGuildDelRankOpcode env p"
| "handle_guild_request env p (CMSG_GUILD_INFO_TEXT info) = HandleGuildChangeInfoTextOpcode p info"
| "handle_guild_request env p (MSG_SAVE_GUILD_EMBLEM v em) = HandleSaveGuildEmblemOpcode env p v em"
| "handle_guild_request env p MSG_GUILD_EVENT_LOG_QUERY = HandleGuildEventLogQueryOpcode env p"
| "handle_guild_request env p MSG_GUILD_BANK_MONEY_WITHDRAWN = HandleGuildBankMoneyWithdrawn env p"
| "handle_guild_request env p MSG_GUILD_PERMISSIONS = HandleGuildPermissions env p"
| "handle_guild_request env p (CMSG_GUILD_BANKER_ACTIVATE go) = HandleGuildBankerActivate env p go"
| "handle_guild_request env p (CMSG_GUILD_BANK_QUERY_TAB go tab) = HandleGuildBankQueryTab env p go tab"
| "handle_guild_request env p (CMSG_GUILD_BANK_DEPOSIT_MONEY go money) = HandleGuildBankDepositMoney env p go money"
| "handle_guild_request env p (CMSG_GUILD_BANK_WITHDRAW_MONEY go money) = HandleGuildBankWithdrawMoney env p go money"
| "handle_guild_request env p (CMSG_GUILD_BANK_BUY_TAB go tab) = HandleGuildBankBuyTab env p go tab"
| "handle_guild_request env p (CMSG_GUILD_BANK_UPDATE_TAB go tab name icon) = HandleGuildBankUpdateTab env p go tab name icon"
| "handle_guild_request env p (MSG_GUILD_BANK_LOG_QUERY tab) = HandleGuildBankLogQuery env p tab"
| "handle_guild_request env p (MSG_QUERY_GUILD_BANK_TEXT tab) = HandleQueryGuildBankTabText p tab"
| "handle_guild_request env p (CMSG_SET_GUILD_BANK_TEXT tab t) = HandleSetGuildBankTabText env p tab t"

text \<open>Calls that do not come from a guild opcode; the player they concern may be offline.\<close>

datatype guild_call =
    LoginGuild "(u32 \<times> u8) option" | LogoutGuild | RepairFromGuildBank u32 | DeleteCharacter | SayToGuild bool world_packet
  | GuildCreateCommand string | GuildInviteCommand string | GuildUninviteCommand | GuildRankCommand u32 | GuildDeleteCommand string

fun handle_guild_call :: "guild_env \<Rightarrow> u64 \<Rightarrow> guild_call \<Rightarrow> unit guildm" where
  "handle_guild_call env p (LoginGuild row) = login_guild env p row"
| "handle_guild_call env p LogoutGuild = logout_guild env p"
| "handle_guild_call env p (RepairFromGuildBank costs) = do { repair_from_guild_bank env p costs; gd_ret () }"
| "handle_guild_call env p DeleteCharacter = delete_character_guild env p"
| "handle_guild_call env p (SayToGuild officer pkt) = say_to_guild env p officer pkt"
| "handle_guild_call env p (GuildCreateCommand name) = HandleGuildCreateCommand env p name"
| "handle_guild_call env p (GuildInviteCommand name) = HandleGuildInviteCommand env p name"
| "handle_guild_call env p GuildUninviteCommand = HandleGuildUninviteCommand env p"
| "handle_guild_call env p (GuildRankCommand r) = HandleGuildRankCommand env p r"
| "handle_guild_call env p (GuildDeleteCommand name) = HandleGuildDeleteCommand name"

text \<open>
  Each step has its own answers from outside.  The server stops when the guild ids run out, so a step starts before that.  A player
  enters \<^verbatim>\<open>ObjectAccessor\<close> and leaves it at any time.
\<close>

inductive guild_step :: "guild_state \<Rightarrow> guild_state \<Rightarrow> bool" where
  request: "env_ok env \<Longrightarrow> NextGuildId s < 0xFFFFFFFE \<Longrightarrow> p \<in> fst ` set (gs_players s) \<Longrightarrow>
    run_state (handle_guild_request env p r) s = (x, s') \<Longrightarrow> guild_step s s'"
| call: "env_ok env \<Longrightarrow> NextGuildId s < 0xFFFFFFFE \<Longrightarrow> plain_player_guid p \<Longrightarrow>
    run_state (handle_guild_call env p c) s = (y, s') \<Longrightarrow> guild_step s s'"
| enter: "plain_player_guid p \<Longrightarrow> guild_step s (s\<lparr>gs_players := (p, pl) # gs_players s\<rparr>)"
| leave: "guild_step s (s\<lparr>gs_players := AList.delete p (gs_players s)\<rparr>)"

section \<open>Every step keeps the invariant\<close>

lemma request_pres:
  assumes "plain_player_guid p" and "\<And>name. r \<noteq> CMSG_GUILD_CREATE name"
  shows "gd_pres guilds_ok (handle_guild_request env p r)"
  using assms
  by (cases r)
    (auto simp: HandleGuildQueryOpcode_def HandleGuildInviteOpcode_def HandleGuildRemoveOpcode_def HandleGuildAcceptOpcode_def
      HandleGuildDeclineOpcode_def HandleGuildInfoOpcode_def HandleGuildRosterOpcode_def HandleGuildPromoteOpcode_def
      HandleGuildDemoteOpcode_def HandleGuildLeaveOpcode_def HandleGuildDisbandOpcode_def HandleGuildLeaderOpcode_def
      HandleGuildMOTDOpcode_def HandleGuildSetPublicNoteOpcode_def HandleGuildSetOfficerNoteOpcode_def HandleGuildRankOpcode_def
      HandleGuildAddRankOpcode_def HandleGuildDelRankOpcode_def HandleGuildChangeInfoTextOpcode_def
      HandleSaveGuildEmblemOpcode_def HandleGuildEventLogQueryOpcode_def HandleGuildBankMoneyWithdrawn_def
      HandleGuildPermissions_def HandleGuildBankerActivate_def HandleGuildBankQueryTab_def HandleGuildBankDepositMoney_def
      HandleGuildBankWithdrawMoney_def HandleGuildBankBuyTab_def HandleGuildBankUpdateTab_def HandleGuildBankLogQuery_def
      HandleQueryGuildBankTabText_def HandleSetGuildBankTabText_def intro!: pres_intros)

lemma call_pres:
  assumes "plain_player_guid p" and "\<And>name. c \<noteq> GuildCreateCommand name"
  shows "gd_pres guilds_ok (handle_guild_call env p c)"
proof -
  have low: "plain_player_guid (ucast (GUID_LOPART p))"
    using assms(1) plain_player_guid_make [of "GUID_LOPART p"] by (simp add: MAKE_NEW_GUID_def)
  show ?thesis
    using assms low
    by (cases c)
      (auto simp: login_guild_def logout_guild_def repair_from_guild_bank_def delete_character_guild_def say_to_guild_def
        HandleGuildInviteCommand_def HandleGuildUninviteCommand_def HandleGuildRankCommand_def HandleGuildDeleteCommand_def
        intro!: pres_intros)
qed

end
