(* ===== verification/Guild_Load.thy ===== *)
theory Guild_Load
  imports Guild_Store
begin

text \<open>
  Loading the guilds when the server starts, and that what passes the validation is well formed.  \<open>loading\<close> describes a guild while its
  rows are read, \<open>loads\<close> a method that reads one row, \<open>stored\<close> the store between the tables.
\<close>

section \<open>A guild while its rows are read\<close>

definition rank_loaded :: "rank_info \<Rightarrow> bool" where
  "rank_loaded r =
     (length (rk_bankTabRightsAndSlots r) = unat GUILD_BANK_MAX_TABS \<and>
      (rk_rankId r = 0 \<longrightarrow> rk_rights r AND GR_RIGHT_ALL = GR_RIGHT_ALL))"

definition logs_loading :: "guild_env \<Rightarrow> guild \<Rightarrow> bool" where
  "logs_loading env g =
     (log_ok (g_eventLog g) \<and> lh_maxRecords (g_eventLog g) = gde_event_log_count env \<and> bank_logs_ok (g_bankEventLog g) \<and>
      list_all (\<lambda>h. lh_maxRecords h = gde_bank_event_log_count env) (g_bankEventLog g))"

definition loading :: "guild_env \<Rightarrow> u32 \<Rightarrow> u8 list \<Rightarrow> guild \<Rightarrow> bool" where
  "loading env i rids g =
     (g_id g = i \<and> plain_player_guid (g_leaderGuid g) \<and> members_ok i (g_members g) \<and> tabs_ok (g_bankTabs g) \<and> logs_loading env g \<and>
      map rk_rankId (g_ranks g) = rids \<and> list_all rank_loaded (g_ranks g))"

definition loads :: "guild_env \<Rightarrow> u32 \<Rightarrow> u8 list \<Rightarrow> u8 list \<Rightarrow> 'a guildm \<Rightarrow> bool" where
  "loads env i rids rids' m =
     (\<forall>s. loading env i rids (gs_this s) \<longrightarrow> gd_wp m (\<lambda>_ s'. loading env i rids' (gs_this s') \<and>
        GuildStore s' = GuildStore s \<and> NextGuildId s' = NextGuildId s \<and> gs_players s' = gs_players s) s)"

lemma loading_new:
  assumes "env_ok env"
  shows "loading env (gr_guildid row) [] (Guild_LoadFromDB env row new_Guild)"
proof -
  obtain a b c d e where em: "gr_emblem row = (a, b, c, d, e)" by (metis prod_cases5)
  have "unat (if GUILD_BANK_MAX_TABS < (t :: u8) then GUILD_BANK_MAX_TABS else t) \<le> 6" for t
    by (simp add: word_less_nat_alt not_less)
  with assms plain_player_guid_make [of "gr_leaderguid row"] show ?thesis
    by (simp add: loading_def Guild_LoadFromDB_def em Let_def new_Guild_def members_ok_def tabs_ok_def tab_ok_def new_BankTab_def
        logs_loading_def log_ok_def bank_logs_ok_def new_LogHolder_def env_ok_def list_all_iff)
qed

lemma load_rank: "loads env i rids (rids @ [rr_rid row]) (LoadRankFromDB row)"
  by (auto simp: loads_def LoadRankFromDB_def loading_def logs_loading_def rank_loaded_def RankInfo_LoadFromDB_def new_RankInfo_def Let_def
      bit_eq_iff bit_simps)

lemma load_member:
  assumes "length (mr_bank row) = unat GUILD_BANK_MAX_TABS + 1"
  shows "loads env i rids rids (Guild_LoadMemberFromDB env row)"
proof -
  have "guild_member_ok i (mr_guid row) m"
    if "Member_LoadFromDB z row (new_Member now i (MAKE_NEW_GUID (mr_guid row) 0 (high_code HIGHGUID_PLAYER)) r) = Some m" for z now r m
    using that assms
    by (auto simp: Member_LoadFromDB_def guild_member_ok_def Member_SetStats_def new_Member_def Let_def split: if_splits)
  then show ?thesis
    by (auto simp: loads_def Guild_LoadMemberFromDB_def loading_def logs_loading_def DeleteMemberFromDB_def intro: members_ok_update
        split: option.split)
qed

lemma load_right: "loads env i rids rids (LoadBankRightFromDB row)"
proof -
  let ?f = "RankInfo_SetBankTabSlotsAndRights (br_TabId row) \<lparr>rs_rights = br_gbright row, rs_slots = br_SlotPerDay row\<rparr> False"
  have f: "rank_loaded r \<Longrightarrow> rank_loaded (fst (?f r))" "rk_rankId (fst (?f r)) = rk_rankId r" for r
    by (simp_all add: rank_loaded_def RankInfo_SetBankTabSlotsAndRights_def Let_def)
  have m: "members_ok i (g_members g) \<Longrightarrow> members_ok i (g_members (map_members_of_rank r Member_ResetTabTimes g))" for g r
    by (rule members_ok_view [of _ g]) (use quiet_members_of_rank [OF keeps_member_setters(4)] in \<open>auto simp: quiet_change_def\<close>)
  have u: "map rk_rankId (rs[n := fst (?f (rs ! n))]) = map rk_rankId rs" "list_all rank_loaded rs \<Longrightarrow> list_all rank_loaded (rs[n := fst (?f (rs ! n))])"
    if "n < length rs" for rs n
    using that f by (auto simp: map_update list_all_length nth_list_update intro: list_update_same_conv [THEN iffD2])
  have n: "unat (br_rid row) < length (g_ranks g)" if "br_rid row < GetRanksSize g" for g
    using that by (simp add: GetRanksSize_def word_less_nat_alt unat_of_nat)
  show ?thesis
    using m u n by (auto simp: loads_def LoadBankRightFromDB_def SetRankBankTabRightsAndSlots_def upd_rank_def gd_when_def loading_def
        logs_loading_def map_members_of_rank_def GetRankInfo_def GetRanksSize_def [of "_ :: guild"])
qed

lemma log_loaded:
  assumes "log_ok h" and "LogHolder_CanInsert h" and "le_guid e \<le> lh_maxRecords h"
  shows "log_ok (LogHolder_LoadEvent e h)" and "lh_maxRecords (LogHolder_LoadEvent e h) = lh_maxRecords h"
  using assms by (auto simp: log_ok_def LogHolder_CanInsert_def LogHolder_LoadEvent_def Let_def)

lemma load_event: "er_LogGuid row \<le> gde_event_log_count env \<Longrightarrow> loads env i rids rids (LoadEventLogFromDB row)"
  by (auto simp: loads_def LoadEventLogFromDB_def loading_def logs_loading_def log_loaded)

lemma load_bank_event:
  assumes "ber_LogGuid row \<le> gde_bank_event_log_count env"
  shows "loads env i rids rids (LoadBankEventLogFromDB row)"
proof -
  have upd: "bank_logs_ok (hs[n := LogHolder_LoadEvent e (hs ! n)]) \<and>
      list_all (\<lambda>h. lh_maxRecords h = gde_bank_event_log_count env) (hs[n := LogHolder_LoadEvent e (hs ! n)])"
    if "bank_logs_ok hs" "list_all (\<lambda>h. lh_maxRecords h = gde_bank_event_log_count env) hs" "LogHolder_CanInsert (hs ! n)"
      "le_guid e = ber_LogGuid row" "n < 7" for hs n and e :: bank_event_log_entry
    using that assms log_loaded [of "hs ! n" e]
    by (auto simp: bank_logs_ok_def list_all_iff dest!: set_update_subset_insert [THEN subsetD])
  have tab: "unat (ber_TabId row) < 7" if "ber_TabId row < GetPurchasedTabsSize g" "tabs_ok (g_bankTabs g)" for g
    using that by (simp add: GetPurchasedTabsSize_def tabs_ok_def word_less_nat_alt unat_of_nat)
  show ?thesis
    by (auto simp: loads_def LoadBankEventLogFromDB_def loading_def logs_loading_def Let_def upd tab)
qed

lemma load_tab: "loads env i rids rids (LoadBankTabFromDB row)"
proof -
  have "keeps_tab (\<lambda>t. (BankTab_LoadFromDB a b c t, []))" for a b c
    by (simp add: keeps_tab_def tab_ok_def BankTab_LoadFromDB_def)
  from quiet_tab [OF this] show ?thesis
    by (auto simp: loads_def LoadBankTabFromDB_def upd_tab_def loading_def logs_loading_def quiet_change_def split: option.split)
qed

lemma load_item: "loads env i rids rids (LoadBankItemFromDB row)"
proof -
  have "keeps_tab (\<lambda>t. snd (BankTab_LoadItemFromDB p l n t))" for p l n
    by (auto simp: keeps_tab_def tab_ok_def BankTab_LoadItemFromDB_def split: option.split)
  from quiet_tab [OF this] show ?thesis
    by (auto simp: loads_def LoadBankItemFromDB_def upd_tab_def loading_def logs_loading_def quiet_change_def split_beta split: option.split)
qed

section \<open>The store between the tables\<close>

definition stored :: "guild_env \<Rightarrow> (u32 \<Rightarrow> u8 list) \<Rightarrow> guild_state \<Rightarrow> bool" where
  "stored env rids s =
     (distinct (map fst (GuildStore s)) \<and> gs_players s = [] \<and>
      (\<forall>i g. map_of (GuildStore s) i = Some g \<longrightarrow> i < NextGuildId s \<and> loading env i (rids i) g))"

lemma on_guild_wp:
  assumes "map_of (GuildStore s) i = None \<Longrightarrow> Q None s"
    and "\<And>g. map_of (GuildStore s) i = Some g \<Longrightarrow> gd_wp m (\<lambda>x s'. Q (Some x) (s'\<lparr>gs_this := gs_this s,
      GuildStore := AList.map_entry i (\<lambda>_. gs_this s') (GuildStore s')\<rparr>)) (s\<lparr>gs_this := g\<rparr>)"
  shows "gd_wp (on_guild i m) Q s"
  using assms by (cases "map_of (GuildStore s) i") (auto simp: gd_wp_def on_guild_def GetGuildById_def split_beta)

lemma call_guild_stored:
  assumes "stored env rids s" and "loads env i (rids i) rs m"
  shows "gd_wp (call_guild i m) (\<lambda>_. stored env (rids(i := rs))) s"
  unfolding call_guild_def gd_wp_bind gd_wp_simps
proof (rule on_guild_wp)
  show "map_of (GuildStore s) i = None \<Longrightarrow> stored env (rids(i := rs)) s" using assms(1) by (auto simp: stored_def)
  fix g assume g: "map_of (GuildStore s) i = Some g"
  then have "loading env i (rids i) g" using assms(1) by (simp add: stored_def)
  then have "gd_wp m (\<lambda>_ s'. loading env i rs (gs_this s') \<and> GuildStore s' = GuildStore s \<and> NextGuildId s' = NextGuildId s \<and>
      gs_players s' = gs_players s) (s\<lparr>gs_this := g\<rparr>)"
    using assms(2) [unfolded loads_def, rule_format, of "s\<lparr>gs_this := g\<rparr>"] by simp
  then show "gd_wp m (\<lambda>x s'. stored env (rids(i := rs)) (s'\<lparr>gs_this := gs_this s,
      GuildStore := AList.map_entry i (\<lambda>_. gs_this s') (GuildStore s')\<rparr>)) (s\<lparr>gs_this := g\<rparr>)"
    by (rule gd_wp_mono) (use assms(1) g in \<open>auto simp: stored_def map_of_map_entry distinct_map_entry split: if_splits\<close>)
qed

lemma call_guilds_stored:
  assumes "stored env rids s" and "\<And>row rs. row \<in> set rows \<Longrightarrow> loads env (key row) rs rs (f row)"
  shows "gd_wp (gd_for rows (\<lambda>row. call_guild (key row) (f row))) (\<lambda>_. stored env rids) s"
  using assms
proof (induction rows arbitrary: s)
  case (Cons row rows)
  have "gd_wp (call_guild (key row) (f row)) (\<lambda>_. stored env rids) s"
    using call_guild_stored [OF Cons(2), of "key row" "rids (key row)" "f row"] Cons(3) by simp
  then show ?case unfolding gd_for.simps gd_wp_bind by (rule gd_wp_mono) (use Cons in simp)
qed simp

lemma ranks_stored:
  assumes "stored env rids s"
  shows "gd_wp (gd_for rows (\<lambda>row. call_guild (rr_guildid row) (LoadRankFromDB row)))
    (\<lambda>_. stored env (\<lambda>i. rids i @ map rr_rid (filter (\<lambda>row. rr_guildid row = i) rows))) s"
  using assms
proof (induction rows arbitrary: s rids)
  case (Cons row rows)
  let ?rids = "rids(rr_guildid row := rids (rr_guildid row) @ [rr_rid row])"
  have eq: "(\<lambda>i. ?rids i @ map rr_rid (filter (\<lambda>row. rr_guildid row = i) rows)) =
      (\<lambda>i. rids i @ map rr_rid (filter (\<lambda>row. rr_guildid row = i) (row # rows)))" by auto
  show ?case
    unfolding gd_for.simps gd_wp_bind
    by (rule gd_wp_mono [OF call_guild_stored [OF Cons(2) load_rank]], drule Cons(1)) (simp only: eq)
qed simp

lemma guilds_stored:
  assumes "stored env (\<lambda>_. []) s" and "env_ok env" and "\<forall>row \<in> set rows. gr_guildid row < NextGuildId s"
  shows "gd_wp (gd_for rows (\<lambda>row. AddGuild (Guild_LoadFromDB env row new_Guild))) (\<lambda>_. stored env (\<lambda>_. [])) s"
  using assms
proof (induction rows arbitrary: s)
  case (Cons row rows)
  have l: "loading env (gr_guildid row) [] (Guild_LoadFromDB env row new_Guild)" by (rule loading_new) fact
  then have id: "g_id (Guild_LoadFromDB env row new_Guild) = gr_guildid row" by (simp add: loading_def)
  have "stored env (\<lambda>_. []) (s\<lparr>GuildStore := AList.update (gr_guildid row) (Guild_LoadFromDB env row new_Guild) (GuildStore s)\<rparr>)"
    using Cons(2,4) l by (auto simp: stored_def distinct_update update_conv' split: if_splits)
  then show ?case using Cons by (simp add: AddGuild_def id)
qed simp

lemma stored_out: "stored env rids s \<Longrightarrow> stored env rids (s\<lparr>gs_out := es\<rparr>)"
  by (simp add: stored_def)

section \<open>Validation\<close>

text \<open>A guild whose leader may not be a member.\<close>

definition aimed :: "(u32 \<times> guild) list \<Rightarrow> u32 \<Rightarrow> u32 \<Rightarrow> u64 list \<Rightarrow> guild_state \<Rightarrow> bool" where
  "aimed st i nx ks s = (shape st i nx ks s \<and> plain_player_guid (g_leaderGuid (gs_this s)))"

interpretation aimed: guild_joinable "aimed st i nx ks" i for st i nx ks
  by unfold_locales
    (auto simp: aimed_def shape.out_I shape.money_I shape.invited_I shape.this_I shape.players_I shape.rank_I shape.add_I
      quiet_change_def [of _ _] leader_of_map intro: shape.id_I)

lemma sound_ranks:
  assumes "\<not> broken_ranks g" and "list_all rank_loaded (g_ranks g)" and "length (g_ranks g) \<le> 256"
  shows "ranks_ok (g_ranks g)"
proof -
  have n: "unat (GetRanksSize g) = length (g_ranks g) mod 256" by (simp add: GetRanksSize_def unat_of_nat)
  from assms(1) have b: "5 \<le> unat (GetRanksSize g)" "unat (GetRanksSize g) \<le> 10"
    by (auto simp: broken_ranks_def word_less_nat_alt split: if_splits)
  with n assms(3) have len: "unat (GetRanksSize g) = length (g_ranks g)" by (cases "length (g_ranks g) = 256") simp_all
  have "rank_ok k (g_ranks g ! k)" if "k < length (g_ranks g)" for k
  proof -
    have "rk_rankId (g_ranks g ! k) = word_of_nat k"
      using assms(1) that len by (auto simp: broken_ranks_def list_ex_iff split: if_splits)
    with assms(2) that show ?thesis by (auto simp: rank_ok_def rank_loaded_def list_all_length)
  qed
  with b len show ?thesis by (simp add: ranks_ok_def)
qed

lemma loading_aimed:
  assumes "loading env i rids (gs_this s)" and "ranks_ok rs"
  shows "aimed (GuildStore s) i (NextGuildId s) (map fst (gs_players s)) (s\<lparr>gs_this := (gs_this s)\<lparr>g_ranks := rs\<rparr>, gs_out := es\<rparr>)"
  using assms by (simp add: aimed_def shape_def guild_ok_def loading_def logs_loading_def)

lemma loading_few_ranks:
  assumes "loading env i rids g" and "distinct rids"
  shows "length (g_ranks g) \<le> 256"
proof -
  have "length rids = card (set rids)" using assms(2) by (simp add: distinct_card)
  also have "\<dots> \<le> card (UNIV :: u8 set)" by (rule card_mono) simp_all
  finally have "length rids \<le> 256" by (simp add: card_word)
  then show ?thesis using assms(1) by (auto simp: loading_def)
qed

lemma Validate_leader:
  assumes "aimed st i nx ks s"
  shows "gd_wp (case Guild_GetMember (g_leaderGuid (gs_this s)) (gs_this s) of
      None \<Rightarrow> do {
        Guild_DeleteMember (g_leaderGuid (gs_this s)) False False;
        empty \<leftarrow> gd_this (\<lambda>g. g_members g = []);
        gd_when empty Guild_Disband;
        gd_ret empty
      }
    | Some m \<Rightarrow> do {
        gd_when (\<not> Member_IsRank GR_GUILDMASTER m) (SetLeaderGUID (GUID_LOPART (g_leaderGuid (gs_this s))));
        gd_ret False
      }) (\<lambda>_. kept st i nx ks) s"
proof (cases "Guild_GetMember (g_leaderGuid (gs_this s)) (gs_this s)")
  case None
  have "gd_wp (Guild_DeleteMember (g_leaderGuid (gs_this s)) False False) (\<lambda>_. kept st i nx ks) s"
    using assms by (intro DeleteMember_leader) (simp_all add: aimed_def)
  then show ?thesis
    unfolding None by (auto simp: gd_when_def elim!: gd_wp_mono intro: gd_presD [OF Disband_pres(2)])
next
  case (Some m)
  then have "kept st i nx ks s" using assms by (simp add: aimed_def kept_def leader_ok_def)
  with Some show ?thesis by (auto simp: gd_when_def intro: gd_presD [OF SetLeaderGUID_pres(2)])
qed

lemma Validate_wp:
  assumes "loading env i rids (gs_this s)" and "distinct rids"
  shows "gd_wp (Guild_Validate env) (\<lambda>_. kept (GuildStore s) i (NextGuildId s) (map fst (gs_players s))) s"
proof -
  let ?a = "aimed (GuildStore s) i (NextGuildId s) (map fst (gs_players s))"
  let ?k = "kept (GuildStore s) i (NextGuildId s) (map fst (gs_players s))"
  have ranks: "gd_wp (gd_when (broken_ranks (gs_this s)) (do { gd_set (\<lambda>g. g\<lparr>g_ranks := []\<rparr>); CreateDefaultGuildRanks env 0 })) (\<lambda>_. ?a) s"
  proof (cases "broken_ranks (gs_this s)")
    case True
    then show ?thesis
      by (simp add: gd_when_def) (rule default_ranks, simp, use loading_aimed [OF assms(1)] in simp)
  next
    case False
    then have "ranks_ok (g_ranks (gs_this s))" using sound_ranks loading_few_ranks [OF assms] assms(1) by (simp add: loading_def)
    from loading_aimed [OF assms(1) this, of "gs_out s"] False show ?thesis by (simp add: gd_when_def)
  qed
  have members: "gd_pres I (gd_for ms (\<lambda>(k, m). gd_when (b m) (Member_ChangeRank k r)))" if "\<And>k r. gd_pres I (Member_ChangeRank k r)"
    for I b r and ms :: "(u32 \<times> guild_member) list"
    by (intro pres_intros that)
  have rest: "gd_pres ?k (if disbanded then gd_ret False else do {
      this \<leftarrow> gd_this (\<lambda>g. g);
      gd_when (\<not> gde_AllowMultipleGuildMaster env)
        (gd_for (g_members this) (\<lambda>(k, m).
          gd_when (mb_rankId m = GR_GUILDMASTER \<and> \<not> Member_IsSamePlayer (g_leaderGuid this) m) (Member_ChangeRank k GR_OFFICER)));
      UpdateAccountsNumber;
      gd_ret True
    })" for disbanded by (intro pres_intros members)
  show ?thesis
    unfolding Guild_Validate_def gd_wp_bind gd_wp_simps
    by (rule gd_wp_mono [OF ranks], rule gd_presD [OF members [OF aimed.change_rank_pres(1)]], assumption,
        rule gd_wp_mono [OF Validate_leader], assumption, rule gd_presD [OF rest [unfolded gd_wp_bind]])
qed

section \<open>The whole of loading\<close>

definition checked :: "guild_env \<Rightarrow> (u32 \<Rightarrow> u8 list) \<Rightarrow> u32 set \<Rightarrow> guild_state \<Rightarrow> bool" where
  "checked env rids V s =
     (distinct (map fst (GuildStore s)) \<and> gs_players s = [] \<and>
      (\<forall>i g. map_of (GuildStore s) i = Some g \<longrightarrow>
        i < NextGuildId s \<and> (if i \<in> V then g_id g = i \<and> guild_ok g \<and> leader_ok g else loading env i (rids i) g)))"

abbreviation store_keys :: "guild_state \<Rightarrow> u32 set" where
  "store_keys s \<equiv> fst ` set (GuildStore s)"

lemma delete_keys: "fst ` set (AList.delete i xs) = fst ` set xs - {i}"
  by (force simp: AList.delete_eq)

lemma Validate_checked:
  assumes "checked env rids V s" and "i \<notin> V" and "distinct (rids i)"
  shows "gd_wp (on_guild i (Guild_Validate env)) (\<lambda>_ s'. checked env rids (insert i V) s' \<and> store_keys s' \<subseteq> store_keys s) s"
proof (rule on_guild_wp)
  show "map_of (GuildStore s) i = None \<Longrightarrow> checked env rids (insert i V) s \<and> store_keys s \<subseteq> store_keys s"
    using assms(1) by (auto simp: checked_def)
  fix g assume g: "map_of (GuildStore s) i = Some g"
  then have l: "loading env i (rids i) g" using assms(1,2) by (simp add: checked_def)
  have "gd_wp (Guild_Validate env) (\<lambda>_. kept (GuildStore s) i (NextGuildId s) []) (s\<lparr>gs_this := g\<rparr>)"
    using Validate_wp [of env i "rids i" "s\<lparr>gs_this := g\<rparr>"] l assms(1,3) by (simp add: checked_def)
  then show "gd_wp (Guild_Validate env) (\<lambda>x s'. checked env rids (insert i V) (s'\<lparr>gs_this := gs_this s,
      GuildStore := AList.map_entry i (\<lambda>_. gs_this s') (GuildStore s')\<rparr>) \<and>
      store_keys (s'\<lparr>gs_this := gs_this s, GuildStore := AList.map_entry i (\<lambda>_. gs_this s') (GuildStore s')\<rparr>) \<subseteq> store_keys s)
      (s\<lparr>gs_this := g\<rparr>)"
  proof (rule gd_wp_mono)
    fix s' assume k: "kept (GuildStore s) i (NextGuildId s) [] s'"
    then have i: "g_id (gs_this s') = i" "guild_ok (gs_this s')" "NextGuildId s' = NextGuildId s" "gs_players s' = []"
      by (auto simp: kept_def shape_def)
    have st: "leader_ok (gs_this s') \<and> GuildStore s' = GuildStore s \<or> GuildStore s' = AList.delete i (GuildStore s)"
      using k by (auto simp: kept_def shape_def)
    let ?st = "AList.map_entry i (\<lambda>_. gs_this s') (GuildStore s')"
    have entries: "(j = i \<and> h = gs_this s' \<and> leader_ok (gs_this s')) \<or> (j \<noteq> i \<and> map_of (GuildStore s) j = Some h)"
      if "map_of ?st j = Some h" for j h
      using that st by (auto simp: map_of_map_entry delete_conv' split: if_splits option.splits simp del: map_of_eq_Some_iff)
    have old: "distinct (map fst (GuildStore s))" "i < NextGuildId s"
      "map_of (GuildStore s) j = Some h \<Longrightarrow> j < NextGuildId s \<and> (if j \<in> V then g_id h = j \<and> guild_ok h \<and> leader_ok h else loading env j (rids j) h)"
      for j h using assms(1) g by (simp_all add: checked_def)
    have "distinct (map fst (GuildStore s'))" "store_keys s' \<subseteq> store_keys s"
      using st old(1) delete_keys [of i "GuildStore s"] by (metis distinct_delete, metis Diff_subset subset_refl)
    then have d: "distinct (map fst ?st)" "fst ` set ?st \<subseteq> store_keys s" by (simp_all add: distinct_map_entry dom_map_entry)
    have "j < NextGuildId s \<and> (if j \<in> insert i V then g_id h = j \<and> guild_ok h \<and> leader_ok h else loading env j (rids j) h)"
      if "map_of ?st j = Some h" for j h
      using entries [OF that] old(2,3) i(1,2) by (cases "j = i") auto
    then have "checked env rids (insert i V) (s'\<lparr>gs_this := gs_this s, GuildStore := ?st\<rparr>)"
      using d(1) i(3,4) unfolding checked_def by (simp del: map_of_eq_Some_iff)
    with d show "checked env rids (insert i V) (s'\<lparr>gs_this := gs_this s, GuildStore := ?st\<rparr>) \<and>
        store_keys (s'\<lparr>gs_this := gs_this s, GuildStore := ?st\<rparr>) \<subseteq> store_keys s" by simp
  qed
qed

lemma validate_loop:
  assumes "checked env rids V s" and "\<And>i. distinct (rids i)" and "distinct is" and "set is \<inter> V = {}" and "store_keys s \<subseteq> V \<union> set is"
  shows "gd_wp (LoadGuilds_validate env is) (\<lambda>r s'. r = Inr () \<longrightarrow> guilds_ok s') s"
  using assms
proof (induction "is" arbitrary: V s)
  case Nil
  then have "i \<in> V" if "map_of (GuildStore s) i = Some g" for i g using that by (force dest: map_of_SomeD)
  with Nil show ?case by (auto simp: guilds_ok_map checked_def)
next
  case (Cons i "is")
  show ?case
    unfolding LoadGuilds_validate.simps
  proof (subst gd_wp_bind, rule gd_wp_mono [OF Validate_checked [OF Cons(2)]])
    fix x s' assume c: "checked env rids (insert i V) s' \<and> store_keys s' \<subseteq> store_keys s"
    have "store_keys s' \<subseteq> insert i V \<union> set is" using order_trans [of "store_keys s'", OF _ Cons(6)] c by simp
    then have "gd_wp (LoadGuilds_validate env is) (\<lambda>r s'. r = Inr () \<longrightarrow> guilds_ok s') s'"
      using c Cons(4,5) by (intro Cons(1) [of "insert i V"] Cons(3)) simp_all
    then show "gd_wp (do {
        gd_when (x = Some False) (RemoveGuild i);
        valid \<leftarrow> gd_asks (\<lambda>s. i \<in> fst ` set (GuildStore s));
        if valid then LoadGuilds_validate env is else gd_ret (Inl InvalidIterator)
      }) (\<lambda>r s'. r = Inr () \<longrightarrow> guilds_ok s') s'"
      by (auto simp: RemoveGuild_def gd_when_def AList.delete_eq)
  qed (use Cons in auto)
qed

text \<open>
  What the tables guarantee: the primary key of the ranks, seven pairs of columns for the limits of a member, and log entries within the limit,
  since the others are deleted before the query.
\<close>

definition tables_ok :: "guild_env \<Rightarrow> guild_tables \<Rightarrow> bool" where
  "tables_ok env t =
     (distinct (map (\<lambda>row. (rr_guildid row, rr_rid row)) (gt_rank t)) \<and>
      (\<forall>row \<in> set (gt_member t). length (mr_bank row) = unat GUILD_BANK_MAX_TABS + 1) \<and>
      (\<forall>row \<in> set (gt_eventlog t). er_LogGuid row \<le> gde_event_log_count env) \<and>
      (\<forall>row \<in> set (gt_bank_eventlog t). ber_LogGuid row \<le> gde_bank_event_log_count env))"

lemma rank_ids_distinct:
  assumes "distinct (map (\<lambda>row. (rr_guildid row, rr_rid row)) rows)"
  shows "distinct (map rr_rid (filter (\<lambda>row. rr_guildid row = i) rows))"
  using assms by (auto simp: distinct_map inj_on_def)

lemma LoadGuilds_wp:
  assumes "tables_ok env t" and "env_ok env" and "GuildStore s = []" and "gs_players s = []"
    and "\<forall>row \<in> set (gt_guild t). gr_guildid row < NextGuildId s"
  shows "gd_wp (LoadGuilds env t) (\<lambda>r s'. r = Inr () \<longrightarrow> guilds_ok s') s"
proof (cases "gt_guild t = []")
  case True
  then show ?thesis using assms(3,4) by (simp add: LoadGuilds_def guilds_ok_def)
next
  case False
  let ?rids = "\<lambda>i. [] @ map rr_rid (filter (\<lambda>row. rr_guildid row = i) (gt_rank t))"
  have s: "stored env (\<lambda>_. []) s" using assms(3,4) by (simp add: stored_def)
  have d: "\<And>i. distinct (?rids i)" using assms(1) rank_ids_distinct [of "gt_rank t"] by (simp add: tables_ok_def)
  have v: "gd_wp (do { ids \<leftarrow> gd_asks (\<lambda>s. map fst (GuildStore s)); LoadGuilds_validate env ids }) (\<lambda>r s'. r = Inr () \<longrightarrow> guilds_ok s') s'"
    if "stored env ?rids s'" for s'
    unfolding gd_wp_bind gd_wp_simps by (rule validate_loop [of env ?rids "{}"]) (use that d in \<open>auto simp: checked_def stored_def\<close>)
  have emit: "gd_wp (gd_emit es) (\<lambda>_. stored env rids) s'" if "stored env rids s'" for rids es s' using that by (simp add: stored_out)
  note rows = assms(1) [unfolded tables_ok_def]
  show ?thesis
    unfolding LoadGuilds_def if_not_P [OF False]
    by (rule gd_wp_seq [OF guilds_stored [OF s assms(2,5)]], rule gd_wp_seq [OF emit], assumption, rule gd_wp_seq [OF ranks_stored], assumption,
        ((rule gd_wp_seq [OF emit], assumption, rule gd_wp_seq [OF call_guilds_stored], assumption,
          use rows in \<open>simp add: load_member load_right load_event load_bank_event load_tab load_item\<close>)+)?, rule v)
qed

end
