(* ===== verification/Guild_Properties.thy ===== *)
theory Guild_Properties
  imports Guild_Load
begin

text \<open>
  The properties of guilds: the invariant of reachable stores, disbanding, the bank's money and the daily limit, rank changes, the rights test
  and what removing a rank does to it, the event log and its table, and the choice of a new leader.
\<close>

section \<open>Helper lemmas\<close>

text \<open>What the bank's messages leave alone: money, members and players.\<close>

definition same_members :: "(u32 \<times> u64 \<times> u32 \<times> u8 \<times> nat) list \<Rightarrow> guild_state \<Rightarrow> bool" where
  "same_members v s = (member_view (gs_this s) = v)"

interpretation view: guild_frame "same_members v" for v
  by unfold_locales (auto simp: same_members_def quiet_change_def)

lemma guilds_step_ok: "guild_step s s' \<Longrightarrow> guilds_ok s \<Longrightarrow> guilds_ok s'"
proof (induction rule: guild_step.induct)
  case (request env s p r x s')
  have p: "plain_player_guid p" using request by (auto simp: guilds_ok_def)
  show ?case
  proof (cases "\<exists>name. r = CMSG_GUILD_CREATE name")
    case True
    then obtain name where "r = CMSG_GUILD_CREATE name" by blast
    then have "gd_wp (handle_guild_request env p r) (\<lambda>_. guilds_ok) s"
      using create_guild [OF request(5,1) p request(2)] request(5) by (simp add: HandleGuildCreateOpcode_def gd_when_def)
    with request(4) show ?thesis by (simp add: gd_wp_def)
  next
    case False
    then have "gd_pres guilds_ok (handle_guild_request env p r)" by (intro request_pres [OF p]) blast
    from run_pres [OF this request(5)] request(4) show ?thesis by simp
  qed
next
  case (call env s p c y s')
  show ?case
  proof (cases "\<exists>name. c = GuildCreateCommand name")
    case True
    then obtain name where "c = GuildCreateCommand name" by blast
    then have "gd_wp (handle_guild_call env p c) (\<lambda>_. guilds_ok) s"
      using create_guild [OF call(5,1,3,2)] call(5) by (simp add: HandleGuildCreateCommand_def gd_when_def)
    with call(4) show ?thesis by (simp add: gd_wp_def)
  next
    case False
    then have "gd_pres guilds_ok (handle_guild_call env p c)" by (intro call_pres [OF call(3)]) blast
    from run_pres [OF this call(5)] call(4) show ?thesis by simp
  qed
qed (auto simp: guilds_ok_def AList.delete_eq)

text \<open>Erasing the members one by one.\<close>

definition off_guild :: "u64 set \<Rightarrow> (u64 \<times> guild_player) list \<Rightarrow> (u64 \<times> guild_player) list" where
  "off_guild gs ps = map (\<lambda>(p, pl). (p, if p \<in> gs \<and> gdp_session pl then pl\<lparr>pl_guild := 0, gdp_rank := 0\<rparr> else pl)) ps"

lemma off_guild_twice: "off_guild gs (off_guild hs ps) = off_guild (hs \<union> gs) ps"
  by (auto simp: off_guild_def split_beta)

lemma off_guild_keys [simp]: "map fst (off_guild gs ps) = map fst ps"
  by (simp add: off_guild_def split_beta o_def)

lemma clear_player:
  assumes "distinct (map fst (gs_players s))" and "b \<longleftrightarrow> gd_FindPlayer p s \<noteq> None"
    and "Q () (s\<lparr>gs_players := off_guild {p} (gs_players s)\<rparr>)"
  shows "gd_wp (gd_when b (do { SetInGuild p 0; SetRank p 0 })) Q s"
proof (cases "map_of (gs_players s) p")
  case None
  then have "off_guild {p} (gs_players s) = gs_players s"
    unfolding off_guild_def by (intro map_idI) (auto simp: map_of_eq_None_iff rev_image_eqI)
  with None assms show ?thesis by (simp add: gd_when_def gd_FindPlayer_def)
next
  case (Some pl)
  then have one: "pl' = pl" if "(p, pl') \<in> set (gs_players s)" for pl' using that assms(1) by simp
  show ?thesis
  proof (cases "gdp_session pl")
    case True
    then have "map (\<lambda>(k, pl). (k, if k = p then pl\<lparr>gdp_rank := 0\<rparr> else pl))
        (map (\<lambda>(k, pl). (k, if k = p then pl\<lparr>pl_guild := 0\<rparr> else pl)) (gs_players s)) = off_guild {p} (gs_players s)"
      unfolding off_guild_def by (auto dest: one)
    with True Some assms(2,3) show ?thesis
      by (simp add: gd_when_def gd_FindPlayer_def SetInGuild_def SetRank_def upd_guild_player_def del: map_map list.map_comp)
  next
    case False
    then have "off_guild {p} (gs_players s) = gs_players s"
      unfolding off_guild_def by (intro map_idI) (auto dest: one)
    with False Some assms(2,3) show ?thesis by (simp add: gd_when_def gd_FindPlayer_def)
  qed
qed

lemma EraseMember_disbanding:
  assumes "distinct (map fst (gs_players s))"
    and "\<And>es. Q () (s\<lparr>gs_this := (gs_this s)\<lparr>g_members := AList.delete (GUID_LOPART p) (g_members (gs_this s))\<rparr>,
      gs_players := off_guild {p} (gs_players s), gs_out := es\<rparr>)"
  shows "gd_wp (Guild_EraseMember p True b) Q s"
  unfolding Guild_EraseMember_def
  by (simp, rule clear_player) (simp_all add: assms gd_FindPlayer_def DeleteMemberFromDB_def gd_when_def)

lemma Disband_loop_empties:
  assumes "distinct (map fst (gs_players s))" and "members_ok i (g_members (gs_this s))"
    and "\<And>es. Q () (s\<lparr>gs_this := (gs_this s)\<lparr>g_members := []\<rparr>,
      gs_players := off_guild (mb_guid ` snd ` set (g_members (gs_this s))) (gs_players s), gs_out := es\<rparr>)"
  shows "gd_wp (Disband_loop (length (g_members (gs_this s)))) Q s"
  using assms
proof (induction "g_members (gs_this s)" arbitrary: s)
  case Nil
  have "gs_this s = (gs_this s)\<lparr>g_members := []\<rparr>" using Nil(1) by (cases "gs_this s") simp
  then have "s = s\<lparr>gs_this := (gs_this s)\<lparr>g_members := []\<rparr>, gs_players := off_guild {} (gs_players s), gs_out := gs_out s\<rparr>"
    by (cases s) (simp add: off_guild_def split_beta)
  with Nil(4) [of "gs_out s"] Nil(1) [symmetric] show ?case by simp
next
  case (Cons e ms)
  obtain k m where e: "e = (k, m)" by fastforce
  have "guild_member_ok i k m" using Cons(2,4) e by (metis list.set_intros(1) members_ok_def prod.case)
  then have k: "GUID_LOPART (mb_guid m) = k" by (rule member_ok_guid)
  have ms: "AList.delete k (g_members (gs_this s)) = ms" "members_ok i ms"
    using Cons(2,4) e by (auto simp: members_ok_def delete_id simp flip: Cons(2))
  let ?s = "\<lambda>es. s\<lparr>gs_this := (gs_this s)\<lparr>g_members := ms\<rparr>, gs_players := off_guild {mb_guid m} (gs_players s), gs_out := es\<rparr>"
  have "gd_wp (Disband_loop (length ms)) Q (?s es)" for es
    using Cons(1) [of "?s es"] Cons(3,5) ms(2) e
    by (simp add: off_guild_twice Un_commute flip: Cons(2))
  then have "gd_wp (Guild_EraseMember (mb_guid m) True False) (\<lambda>_. gd_wp (Disband_loop (length ms)) Q) s"
    using Cons(3) k ms(1) by (intro EraseMember_disbanding) simp_all
  then show ?case by (simp add: e flip: Cons(2))
qed

lemma Guild_Disband_wp:
  assumes "distinct (map fst (gs_players s))" and "guild_ok (gs_this s)"
    and "\<And>es. Q () (s\<lparr>gs_players := off_guild (mb_guid ` snd ` set (g_members (gs_this s))) (gs_players s),
      gs_this := (gs_this s)\<lparr>g_members := [], g_bankTabs := []\<rparr>, gs_out := es,
      GuildStore := AList.delete (g_id (gs_this s)) (GuildStore s)\<rparr>)"
  shows "gd_wp Guild_Disband Q s"
  unfolding Guild_Disband_def Guild_BroadcastEvent_def Guild_BroadcastPacket_def DeleteBankItems_def RemoveGuild_def
  using assms(1,2)
  by (simp, intro Disband_loop_empties [of "s\<lparr>gs_out := _\<rparr>" "g_id (gs_this s)", simplified])
    (simp_all add: guild_ok_def assms(3))

text \<open>Comparing with the marker bit.\<close>

lemma marker_bit:
  fixes R :: u32
  assumes "n < 32" "n \<noteq> 6"
  shows "R AND (0x40 OR 2 ^ n) = 0x40 \<longleftrightarrow> bit R 6 \<and> \<not> bit R n"
  and "R AND 2 ^ n \<noteq> 0x40"
proof -
  have e: "(0x40 :: u32) = 2 ^ 6" by simp
  have b: "bit (0x40 :: u32) m \<longleftrightarrow> m = 6" for m by (simp only: e bit_exp_iff) auto
  have c: "bit (2 ^ n :: u32) m \<longleftrightarrow> m = n" for m using assms by (auto simp: bit_exp_iff)
  have l: "bit (R AND (0x40 OR 2 ^ n)) m \<longleftrightarrow> bit R m \<and> (m = 6 \<or> m = n)" for m by (simp only: bit_and_iff bit_or_iff b c)
  show "R AND (0x40 OR 2 ^ n) = 0x40 \<longleftrightarrow> bit R 6 \<and> \<not> bit R n"
  proof
    assume eq: "R AND (0x40 OR 2 ^ n) = 0x40"
    show "bit R 6 \<and> \<not> bit R n" using l [of 6] l [of n] b [of 6] b [of n] assms(2) unfolding eq by blast
  next
    assume "bit R 6 \<and> \<not> bit R n"
    then show "R AND (0x40 OR 2 ^ n) = 0x40" by (intro bit_word_eqI) (simp only: l b, blast)
  qed
  have "bit (R AND 2 ^ n) m \<longleftrightarrow> bit R m \<and> m = n" for m by (simp only: bit_and_iff c)
  from this [of 6] show "R AND 2 ^ n \<noteq> 0x40" using b [of 6] assms(2) by metis
qed

lemma rank_down:
  fixes d r l :: u8
  assumes "d < r" and "r < l"
  shows "d < r + 1 \<and> r + 1 \<le> l"
proof -
  have "unat l < 256" using unsigned_less [of l, where ?'a = nat] by simp
  then have "unat (r + 1) = unat r + 1" using assms(2) by (simp add: word_less_nat_alt unat_word_ariths)
  with assms show ?thesis by (simp add: word_less_nat_alt word_le_nat_alt)
qed

lemma rank_up:
  fixes d r :: u8
  assumes "d < 0xFF" and "\<not> r \<le> d + 1"
  shows "d < r \<and> d < r - 1"
proof -
  have "unat (d + 1) = unat d + 1" using assms(1) by (simp add: word_less_nat_alt unat_word_ariths)
  then have "unat d + 1 < unat r" using assms(2) by (simp add: word_le_nat_alt)
  moreover then have "unat (r - 1) = unat r - 1" by (simp add: unat_sub_if_size)
  ultimately show ?thesis by (simp add: word_less_nat_alt)
qed

text \<open>The members' data behind \<open>member_view\<close>, and a rank command up to it.\<close>

lemma map_of_view:
  "map_of (member_view g) k =
     map_option (\<lambda>m. (mb_guid m, mb_guildId m, mb_rankId m, length (mb_bankRemaining m))) (map_of (g_members g) k)"
  by (simp add: member_view_def map_of_map)

lemma map_of_map_key:
  "map_of (map (\<lambda>(k', m). (k', if k' = k then f m else m)) ms) j = map_option (\<lambda>m. if j = k then f m else m) (map_of ms j)"
  by (induction ms) auto

lemma ChangeRank_view:
  assumes "map_of (g_members (gs_this s)) k = Some m"
    and "\<And>s'. same_members (member_view (map_member k (\<lambda>m. m\<lparr>mb_rankId := r\<rparr>) (gs_this s))) s' \<Longrightarrow> Q () s'"
  shows "gd_wp (Member_ChangeRank k r) Q s"
  unfolding Member_ChangeRank_def
  using assms(1)
  by (auto simp: gd_when_def SetRank_def upd_guild_player_def same_members_def intro!: assms(2))

lemma UpdateMemberRank_wp:
  assumes "guild_ok (gs_this s)" and "gdp_rank (gd_player p s) < 0xFF"
    and "\<And>s'. member_view (gs_this s') = member_view (gs_this s) \<Longrightarrow> Q () s'"
    and "\<And>k m r s'. map_of (g_members (gs_this s)) k = Some m \<Longrightarrow>
      mb_name m = name \<and> mb_guid m \<noteq> p \<and> gdp_rank (gd_player p s) < mb_rankId m \<and> gdp_rank (gd_player p s) < r \<and>
      (if demote then r = mb_rankId m + 1 \<and> r \<le> GetLowestRankId (gs_this s) else r = mb_rankId m - 1) \<Longrightarrow>
      member_view (gs_this s') = member_view (map_member k (\<lambda>m. m\<lparr>mb_rankId := r\<rparr>) (gs_this s)) \<Longrightarrow> Q () s'"
  shows "gd_wp (HandleUpdateMemberRank env p name demote) Q s"
proof -
  let ?d = "gdp_rank (gd_player p s)"
  have emit: "Q () (s\<lparr>gs_out := es\<rparr>)" for es by (rule assms(3)) simp
  have fail: "gd_wp (Guild_SendCommandResult p c e t) Q s" for c e t by (simp add: Guild_SendCommandResult_def emit)
  show ?thesis
  proof (cases "find (\<lambda>(k, m). mb_name m = name) (g_members (gs_this s))")
    case None
    then show ?thesis by (simp add: HandleUpdateMemberRank_def Guild_GetMemberByName_def Guild_SendCommandResult_def emit)
  next
    case (Some e)
    obtain k m where e: "e = (k, m)" by fastforce
    have "(k, m) \<in> set (g_members (gs_this s))" "mb_name m = name" using Some e by (auto simp: find_Some_iff dest: nth_mem)
    then have m: "map_of (g_members (gs_this s)) k = Some m" "mb_name m = name"
      using assms(1) by (simp_all add: guild_ok_def members_ok_def)
    let ?r = "mb_rankId m + (if demote then 1 else - 1)"
    have change: "gd_wp (do { Member_ChangeRank k ?r; Guild_LogEvent env c a b ?r; Guild_BroadcastEvent ev x ps }) Q s"
      if "mb_guid m \<noteq> p" "if demote then ?d < mb_rankId m \<and> mb_rankId m < GetLowestRankId (gs_this s) else \<not> mb_rankId m \<le> ?d + 1"
      for c a b ev x ps
    proof -
      have "?d < mb_rankId m \<and> ?d < ?r \<and> (if demote then ?r = mb_rankId m + 1 \<and> ?r \<le> GetLowestRankId (gs_this s) else ?r = mb_rankId m - 1)"
        using that(2) rank_down [of ?d "mb_rankId m" "GetLowestRankId (gs_this s)"] rank_up [OF assms(2), of "mb_rankId m"] by auto
      then have "Q () s'" if "same_members (member_view (map_member k (\<lambda>m. m\<lparr>mb_rankId := ?r\<rparr>) (gs_this s))) s'" for s'
        using assms(4) [OF m(1)] m(2) \<open>mb_guid m \<noteq> p\<close> that unfolding same_members_def by blast
      then show ?thesis
        unfolding gd_wp_bind
        by (intro ChangeRank_view [OF m(1)] gd_presD [OF view.log_event_pres] gd_presD [OF view.event_pres(1)]) simp_all
    qed
    show ?thesis
      using Some e m change
      by (cases demote)
        (auto simp: HandleUpdateMemberRank_def Guild_GetMemberByName_def fail Member_IsSamePlayer_def Member_IsRankNotLower_def Let_def
          not_le)
  qed
qed

text \<open>The choice of a new leader.\<close>

lemma scan_minimal:
  assumes "DeleteMember_scan low ms (old, new) = (old', Some (k, m))"
    and "\<And>k' m'. new = Some (k', m') \<Longrightarrow> \<forall>(j, mj) \<in> S. j \<noteq> low \<longrightarrow> mb_rankId m' \<le> mb_rankId mj"
    and "new = None \<Longrightarrow> \<forall>(j, mj) \<in> S. j = low"
  shows "\<forall>(j, mj) \<in> S \<union> set ms. j \<noteq> low \<longrightarrow> mb_rankId m \<le> mb_rankId mj"
  using assms
proof (induction ms arbitrary: old new S)
  case (Cons e ms)
  obtain j mj where e: "e = (j, mj)" by fastforce
  define new' where "new' = (if j = low then new
    else if (case new of None \<Rightarrow> True | Some (k', m') \<Rightarrow> mb_rankId mj < mb_rankId m') then Some (j, mj) else new)"
  have "\<forall>(j, mj) \<in> insert (j, mj) S \<union> set ms. j \<noteq> low \<longrightarrow> mb_rankId m \<le> mb_rankId mj"
  proof (rule Cons(1) [of "if j = low then Some mj else old" new'])
    show "DeleteMember_scan low ms (if j = low then Some mj else old, new') = (old', Some (k, m))"
      using Cons(2) by (auto simp: e new'_def split: if_splits)
    show "\<forall>(i, mi) \<in> insert (j, mj) S. i \<noteq> low \<longrightarrow> mb_rankId m' \<le> mb_rankId mi" if "new' = Some (k', m')" for k' m'
      using that Cons(3,4) by (fastforce simp: new'_def split: if_splits option.splits)
    show "\<forall>(i, mi) \<in> insert (j, mj) S. i = low" if "new' = None"
      using that Cons(4) by (auto simp: new'_def split: if_splits)
  qed
  then show ?case by (simp add: e)
qed auto

lemma scan_some:
  assumes "(j, mj) \<in> set ms" and "j \<noteq> low"
  shows "\<exists>old' e. DeleteMember_scan low ms (old, new) = (old', Some e)"
proof -
  have s: "\<exists>old' e. DeleteMember_scan low ms (old, Some x) = (old', Some e)" for ms old x
  proof (induction ms arbitrary: old x)
    case (Cons e ms)
    then show ?case by (cases e) (auto split: if_splits)
  qed simp
  show ?thesis
    using assms
  proof (induction ms arbitrary: old new)
    case (Cons e ms)
    obtain i mi where e: "e = (i, mi)" by fastforce
    show ?case
    proof (cases "i = low")
      case True
      with Cons show ?thesis by (auto simp: e)
    next
      case False
      then show ?thesis using s by (auto simp: e split: option.split)
    qed
  qed simp
qed

definition members_are :: "(u32 \<times> guild_member) list \<Rightarrow> u64 \<Rightarrow> guild_state \<Rightarrow> bool" where
  "members_are ms l s = (g_members (gs_this s) = ms \<and> g_leaderGuid (gs_this s) = l)"

lemma members_are_pres [pres_intros]:
  "gd_pres (members_are ms l) (gd_emit es)" "gd_pres (members_are ms l) (SetRank p r)" "gd_pres (members_are ms l) (SetInGuild p i)"
  "gd_pres (members_are ms l) (DeleteMemberFromDB k)" "gd_pres (members_are ms l) UpdateAccountsNumber"
  "gd_pres (members_are ms l) (Guild_BroadcastEvent ev g ps)"
  by (simp_all add: gd_pres_def members_are_def SetRank_def SetInGuild_def upd_guild_player_def DeleteMemberFromDB_def
      UpdateAccountsNumber_def Guild_BroadcastEvent_def Guild_BroadcastPacket_def)

lemma SetLeaderGUID_members:
  assumes "map_of (g_members (gs_this s)) k = Some m"
  shows "gd_wp (SetLeaderGUID k) (\<lambda>_. members_are (g_members (map_member k (\<lambda>m. m\<lparr>mb_rankId := 0\<rparr>) (gs_this s))) (mb_guid m)) s"
  using assms
  by (simp add: SetLeaderGUID_def Member_ChangeRank_def gd_when_def SetRank_def upd_guild_player_def members_are_def map_member_def)

lemma EraseMember_members:
  "members_are ms l s \<Longrightarrow> gd_wp (Guild_EraseMember p d b) (\<lambda>_. members_are (AList.delete (GUID_LOPART p) ms) l) s"
  by (simp add: Guild_EraseMember_def gd_when_def SetInGuild_def SetRank_def upd_guild_player_def DeleteMemberFromDB_def
      UpdateAccountsNumber_def members_are_def)

section \<open>A sample guild\<close>

definition sample_member :: "u32 \<Rightarrow> u8 \<Rightarrow> u32 \<times> guild_member" where
  "sample_member k r =
     (k, (new_Member 0 1 (MAKE_NEW_GUID k 0 (high_code HIGHGUID_PLAYER)) r)
           \<lparr>mb_name := (if k = 7 then ''G'' else if k = 8 then ''H'' else ''J''), mb_bankRemaining := replicate 7 \<lparr>rv_value = 500, rv_resetTime = 0\<rparr>\<rparr>)"

definition sample_guild :: guild where
  "sample_guild = new_Guild\<lparr>
     g_id := 1, g_name := ''G'', g_leaderGuid := MAKE_NEW_GUID 7 0 (high_code HIGHGUID_PLAYER), g_bankMoney := 1000,
     g_ranks := map (\<lambda>n. new_RankInfo 1 (word_of_nat n) [] (if n < 2 then GR_RIGHT_ALL else 0x43) 500) [0..<6],
     g_members := [sample_member 7 0, sample_member 8 3, sample_member 9 5], g_bankTabs := [new_BankTab 1 0],
     g_eventLog := new_LogHolder 1 3, g_bankEventLog := replicate 7 (new_LogHolder 1 25)\<rparr>"

definition sample_player :: "u32 \<Rightarrow> u8 \<Rightarrow> u64 \<times> guild_player" where
  "sample_player k r =
     (MAKE_NEW_GUID k 0 (high_code HIGHGUID_PLAYER),
      blank_guild_player\<lparr>pl_guid := MAKE_NEW_GUID k 0 (high_code HIGHGUID_PLAYER), pl_name := (if k = 7 then ''G'' else if k = 8 then ''H'' else ''J''), pl_guild := 1,
        gdp_session := True, gdp_rank := r, gdp_money := 100\<rparr>)"

definition sample_state :: guild_state where
  "sample_state =
     \<lparr>gs_this = sample_guild, gs_players = [sample_player 7 0, sample_player 8 3, sample_player 9 5],
      GuildStore = [(1, sample_guild)], NextGuildId = 2, gs_out = []\<rparr>"

lemma player_guid_simp [simp]: "MAKE_NEW_GUID k 0 0 = ucast k"
  by (simp add: MAKE_NEW_GUID_def)

lemma sample_ok: "guild_ok sample_guild" "leader_ok sample_guild" "distinct (map fst (gs_players sample_state))"
proof -
  show "guild_ok sample_guild"
    by (simp add: guild_ok_def sample_guild_def new_Guild_def members_ok_def guild_member_ok_def sample_member_def new_Member_def ranks_ok_def
        rank_ok_def new_RankInfo_def tabs_ok_def tab_ok_def new_BankTab_def bank_logs_ok_def log_ok_def new_LogHolder_def)
  show "leader_ok sample_guild"
    by (simp add: leader_ok_def plain_player_guid_def sample_guild_def new_Guild_def Guild_GetMember_def sample_member_def
        player_guid_lopart [of 7, simplified])
  show "distinct (map fst (gs_players sample_state))" by (simp add: sample_state_def sample_player_def)
qed

section \<open>Properties\<close>

text \<open>
  C10. Disbanding ends with no members and no bank tabs, the guild is out of the store, every other guild stays, and exactly the players
  with a session who were members, in the world or not, have their guild and rank cleared.
\<close>

theorem Disband_complete:
  assumes "guild_ok (gs_this s)" and "distinct (map fst (gs_players s))" and "s' = snd (run_state Guild_Disband s)"
  shows "g_members (gs_this s') = [] \<and> g_bankTabs (gs_this s') = [] \<and>
    map_of (GuildStore s') = (map_of (GuildStore s))(g_id (gs_this s) := None) \<and>
    gs_players s' = off_guild (mb_guid ` snd ` set (g_members (gs_this s))) (gs_players s)"
proof -
  have "gd_wp Guild_Disband (\<lambda>_ s'. g_members (gs_this s') = [] \<and> g_bankTabs (gs_this s') = [] \<and>
    map_of (GuildStore s') = (map_of (GuildStore s))(g_id (gs_this s) := None) \<and>
    gs_players s' = off_guild (mb_guid ` snd ` set (g_members (gs_this s))) (gs_players s)) s"
    by (rule Guild_Disband_wp) (simp_all add: assms delete_conv')
  with assms(3) show ?thesis by (simp add: gd_wp_def split_beta)
qed

theorem Disband_complete_witness:
  "g_members (gs_this (snd (run_state Guild_Disband sample_state))) = [] \<and>
   gs_players (snd (run_state Guild_Disband sample_state)) = off_guild {7, 8, 9} (gs_players sample_state)"
  using Disband_complete [of sample_state, OF _ _ refl] sample_ok
  by (simp add: sample_state_def sample_guild_def sample_member_def new_Member_def)

text \<open>
  C3. After the guilds have been loaded from any tables that have their keys, if no guild was found empty on the way, whatever clients request, game masters command
  and the rest of the server calls, in any order and with any
  answers from outside: every guild of the store is stored under its id, has its members under the low part of their player guids,
  five to ten ranks numbered from zero with a first rank that has all rights, at most six tabs of ninety-eight slots, logs within their limit, and
  a leader who is a member.
\<close>

theorem guilds_reachable_ok:
  assumes "GuildStore s\<^sub>0 = []" and "gs_players s\<^sub>0 = []" and "\<forall>row \<in> set (gt_guild t). gr_guildid row < NextGuildId s\<^sub>0"
    and "tables_ok env t" and "env_ok env" and "run_state (LoadGuilds env t) s\<^sub>0 = (Inr (), s\<^sub>1)" and "guild_step\<^sup>*\<^sup>* s\<^sub>1 s"
  shows "guilds_ok s"
  using assms(7)
proof (induction rule: rtranclp_induct)
  case base
  then show ?case using LoadGuilds_wp [OF assms(4,5,1,2,3)] assms(6) by (simp add: gd_wp_def)
next
  case (step s s')
  then show ?case using guilds_step_ok by blast
qed

definition sample_env :: guild_env where
  "sample_env =
     \<lparr>gde_time = 200000, gde_event_log_count = 3, gde_bank_event_log_count = 25, gde_two_side_guild = True,
      gde_AllowMultipleGuildMaster = False, gde_gm_log_trade = False, gde_social = [], gde_GetPlayerTeamByGUID = (\<lambda>_. 0),
      gde_GetGuildIdFromDB = (\<lambda>_. 0), gde_GetZoneIdFromDB = (\<lambda>_. 0), gde_char_data = (\<lambda>_. None), gde_normalizePlayerName = Some,
      gde_utf8truncate = take, gde_GetAxiumString = (\<lambda>_ _. []), gde_locale = (\<lambda>_. 0), gde_days_float = (\<lambda>_. 0),
      gde_secsToTimeBitFields = (\<lambda>_. 0), gde_has_guild_bank = (\<lambda>_ _. True), gde_has_tabard_designer = (\<lambda>_ _. True),
      gde_feigns_death = (\<lambda>_. False)\<rparr>"

definition sample_tables :: guild_tables where
  "sample_tables =
     \<lparr>gt_guild = [\<lparr>gr_guildid = 1, gr_name = ''G'', gr_leaderguid = 7, gr_emblem = (0, 0, 0, 0, 0), gr_info = [], gr_motd = [],
        gr_createdate = 0, gr_BankMoney = 0, gr_tab_count = 0\<rparr>],
      gt_rank = [],
      gt_member = map (\<lambda>k. \<lparr>mr_guildid = 1, mr_guid = k, mr_rank = 3, mr_pnote = [], mr_offnote = [],
        mr_bank = replicate 7 \<lparr>rv_value = 0, rv_resetTime = 0\<rparr>, mr_name = ''G'', mr_level = 1, mr_class = 1, mr_zone = 1, mr_account = 1,
        mr_logout_time = 0\<rparr>) [8, 9],
      gt_bank_right = [], gt_eventlog = [], gt_bank_eventlog = [], gt_bank_tab = [], gt_bank_item = []\<rparr>"

definition server_start :: guild_state where
  "server_start = \<lparr>gs_this = new_Guild, gs_players = [], GuildStore = [], NextGuildId = 2, gs_out = []\<rparr>"

lemma sample_loading: "fst (run_state (LoadGuilds sample_env sample_tables) server_start) = Inr ()"
  by code_simp

theorem guilds_reachable_ok_witness:
  "let s\<^sub>1 = snd (run_state (LoadGuilds sample_env sample_tables) server_start);
       s\<^sub>2 = s\<^sub>1\<lparr>gs_players := (7, blank_guild_player\<lparr>gdp_session := True\<rparr>) # gs_players s\<^sub>1\<rparr>
   in guilds_ok s\<^sub>2"
proof -
  let ?s1 = "snd (run_state (LoadGuilds sample_env sample_tables) server_start)"
  have "plain_player_guid 7" using plain_player_guid_make [of 7] by simp
  from guild_step.enter [OF this] have "guild_step\<^sup>*\<^sup>* ?s1 (?s1\<lparr>gs_players := (7, blank_guild_player\<lparr>gdp_session := True\<rparr>) # gs_players ?s1\<rparr>)"
    by (rule r_into_rtranclp)
  moreover have "run_state (LoadGuilds sample_env sample_tables) server_start = (Inr (), ?s1)"
    using sample_loading by (metis prod.collapse)
  moreover have "tables_ok sample_env sample_tables" "env_ok sample_env"
    by (simp_all add: tables_ok_def sample_tables_def env_ok_def sample_env_def)
  ultimately show ?thesis
    unfolding Let_def by (intro guilds_reachable_ok [of server_start sample_tables sample_env ?s1]) (simp_all add: server_start_def sample_tables_def)
qed

text \<open>
  C39. The test of a rank right compares with the marker bit \<^verbatim>\<open>GR_RIGHT_EMPTY\<close>.  A right that carries the marker and one more bit is refused only
  to ranks that have the marker and not that bit; a right without the marker, as the two withdraw rights are, is refused to nobody.
\<close>

theorem rank_right_bits:
  assumes "n < 32" and "n \<noteq> 6"
  shows "(HasRankRight pl (GR_RIGHT_EMPTY OR 2 ^ n) g \<longleftrightarrow>
      (bit (GetRankRights (gdp_rank pl) g) 6 \<longrightarrow> bit (GetRankRights (gdp_rank pl) g) n)) \<and>
    HasRankRight pl (2 ^ n) g"
  using marker_bit [OF assms] by (simp add: HasRankRight_def)

theorem rank_right_bits_witness:
  "HasRankRight blank_guild_player GR_RIGHT_WITHDRAW_GOLD sample_guild \<and>
   HasRankRight blank_guild_player GR_RIGHT_WITHDRAW_REPAIR sample_guild"
  using rank_right_bits [of 19 blank_guild_player sample_guild] rank_right_bits [of 18 blank_guild_player sample_guild] by simp

text \<open>
  C40. Removing the lowest rank leaves its members with a rank id that no longer exists.  Such a rank has no rights set, not even the marker, so the
  test grants its members every right.
\<close>

theorem removed_rank_has_every_right:
  assumes "guild_ok (gs_this s)" and "5 < length (g_ranks (gs_this s))" and "Guild_IsLeader p (gs_this s)"
    and "map_of (gs_players s) q = Some pl" and "gdp_rank pl = GetLowestRankId (gs_this s)"
    and "s' = snd (run_state (HandleRemoveLowestRank env p) s)"
  shows "map_of (gs_players s') q = Some pl \<and> GetRankInfo (gdp_rank pl) (gs_this s') = None \<and> HasRankRight pl right (gs_this s')"
proof -
  have r: "ranks_ok (g_ranks (gs_this s))" using assms(1) by (simp add: guild_ok_def)
  then have sz: "unat (GetRanksSize (gs_this s)) = length (g_ranks (gs_this s))" "length (g_ranks (gs_this s)) \<le> 10"
    using ranks_size [of "gs_this s"] by (simp_all add: ranks_ok_def)
  have low: "unat (GetLowestRankId (gs_this s)) = length (g_ranks (gs_this s)) - 1"
    using assms(2) sz(2) by (simp add: GetLowestRankId_def unat_word_ariths unat_of_nat unat_sub_if_size)
  let ?g = "(gs_this s)\<lparr>g_ranks := butlast (g_ranks (gs_this s))\<rparr>"
  have none: "GetRankInfo (GetLowestRankId (gs_this s)) ?g = None"
    using low sz(2) by (simp add: GetRankInfo_def GetRanksSize_def word_less_nat_alt unat_of_nat)
  have "\<not> GetRanksSize (gs_this s) \<le> GUILD_RANKS_MIN_COUNT" using sz assms(2) by (simp add: word_le_nat_alt)
  with assms(3) none assms(4,5) have "gd_wp (HandleRemoveLowestRank env p)
      (\<lambda>_ s'. map_of (gs_players s') q = Some pl \<and> GetRankInfo (gdp_rank pl) (gs_this s') = None) s"
    by (simp add: HandleRemoveLowestRank_def Guild_HandleQuery_def Guild_HandleRoster_def Guild_BroadcastPacket_def Let_def)
  with assms(6) show ?thesis by (simp add: gd_wp_def split_beta HasRankRight_def GetRankRights_def)
qed

theorem removed_rank_has_every_right_witness:
  "\<not> HasRankRight (snd (sample_player 9 5)) GR_RIGHT_REMOVE sample_guild \<and>
   HasRankRight (snd (sample_player 9 5)) GR_RIGHT_REMOVE (gs_this (snd (run_state (HandleRemoveLowestRank sample_env 7) sample_state)))"
proof
  show "\<not> HasRankRight (snd (sample_player 9 5)) GR_RIGHT_REMOVE sample_guild"
    by (simp add: HasRankRight_def GetRankRights_def GetRankInfo_def GetRanksSize_def sample_player_def sample_guild_def
        new_RankInfo_def word_less_nat_alt)
  show "HasRankRight (snd (sample_player 9 5)) GR_RIGHT_REMOVE
      (gs_this (snd (run_state (HandleRemoveLowestRank sample_env 7) sample_state)))"
    using removed_rank_has_every_right [of sample_state 7 9 "snd (sample_player 9 5)" _ sample_env GR_RIGHT_REMOVE, OF _ _ _ _ _ refl]
      sample_ok
    by (simp add: sample_state_def sample_guild_def Guild_IsLeader_def sample_player_def GetLowestRankId_def)
qed

text \<open>
  C9. Promotion and demotion: if the command changes the rank of a member, then that member has the given name, is not the player who gives the
  command, and stands below him before and after; the rank changes by one, and a demotion does not go beyond the lowest rank.
\<close>

theorem rank_change_bounded:
  assumes "guild_ok (gs_this s)" and "gdp_rank (gd_player p s) < 0xFF"
    and "s' = snd (run_state (HandleUpdateMemberRank env p name demote) s)"
    and "map_of (g_members (gs_this s)) k = Some m" and "map_of (g_members (gs_this s')) k = Some m'"
  shows "mb_rankId m' = mb_rankId m \<or>
    mb_name m = name \<and> mb_guid m \<noteq> p \<and> gdp_rank (gd_player p s) < mb_rankId m \<and> gdp_rank (gd_player p s) < mb_rankId m' \<and>
    (if demote then mb_rankId m' = mb_rankId m + 1 \<and> mb_rankId m' \<le> GetLowestRankId (gs_this s)
     else mb_rankId m' = mb_rankId m - 1)"
proof -
  let ?d = "gdp_rank (gd_player p s)"
  let ?ok = "\<lambda>m r. mb_name m = name \<and> mb_guid m \<noteq> p \<and> ?d < mb_rankId m \<and> ?d < r \<and>
    (if demote then r = mb_rankId m + 1 \<and> r \<le> GetLowestRankId (gs_this s) else r = mb_rankId m - 1)"
  let ?g = "\<lambda>k r. map_member k (\<lambda>m. m\<lparr>mb_rankId := r\<rparr>) (gs_this s)"
  have "gd_wp (HandleUpdateMemberRank env p name demote) (\<lambda>_ s'. member_view (gs_this s') = member_view (gs_this s) \<or>
      (\<exists>k m r. map_of (g_members (gs_this s)) k = Some m \<and> ?ok m r \<and> member_view (gs_this s') = member_view (?g k r))) s"
    using assms(1,2) by (rule UpdateMemberRank_wp) blast+
  then consider "member_view (gs_this s') = member_view (gs_this s)"
    | j mj r where "map_of (g_members (gs_this s)) j = Some mj" "?ok mj r" "member_view (gs_this s') = member_view (?g j r)"
    using assms(3) by (auto simp: gd_wp_def split_beta)
  then show ?thesis
  proof cases
    case 1
    then have "mb_rankId m' = mb_rankId m" using assms(4,5) map_of_view [of "gs_this s" k] map_of_view [of "gs_this s'" k] by simp
    then show ?thesis ..
  next
    case 2
    have "map_of (g_members (?g j r)) k = Some (if k = j then m\<lparr>mb_rankId := r\<rparr> else m)"
      using assms(4) by (simp add: map_member_def map_of_map_key)
    then have "mb_rankId m' = (if k = j then r else mb_rankId m)"
      using 2(3) assms(5) map_of_view [of "?g j r" k] map_of_view [of "gs_this s'" k] by (simp split: if_splits)
    with 2(1,2) assms(4) show ?thesis by (cases "k = j") auto
  qed
qed

lemma sample_promotion:
  "map_of (g_members (gs_this (snd (run_state (HandleUpdateMemberRank sample_env 7 ''J'' False) sample_state)))) 9 =
     Some ((snd (sample_member 9 5))\<lparr>mb_rankId := 4\<rparr>)"
  by code_simp

theorem rank_change_bounded_witness:
  "mb_rankId ((snd (sample_member 9 5))\<lparr>mb_rankId := 4\<rparr>) = mb_rankId (snd (sample_member 9 5)) \<or>
   mb_name (snd (sample_member 9 5)) = ''J'' \<and> mb_guid (snd (sample_member 9 5)) \<noteq> 7 \<and>
   gdp_rank (gd_player 7 sample_state) < 4 \<and> (4 :: u8) = mb_rankId (snd (sample_member 9 5)) - 1"
  using rank_change_bounded [of sample_state 7 _ sample_env "''J''" False 9 "snd (sample_member 9 5)", OF _ _ refl _ sample_promotion]
    sample_ok
  by (simp add: sample_state_def gd_player_def sample_player_def) (simp add: sample_guild_def sample_member_def new_Member_def)

text \<open>
  C11. When the leader leaves a guild that has other members, the first of those with the highest rank becomes the leader and gets the rank of the
  guild master; the old leader is gone and nobody else's membership changes.
\<close>

theorem new_leader_has_highest_rank:
  assumes "guild_ok (gs_this s)" and "g_leaderGuid (gs_this s) = guid" and "low = GUID_LOPART guid"
    and "map_of (g_members (gs_this s)) j = Some mj" and "j \<noteq> low"
    and "s' = snd (run_state (Guild_DeleteMember guid False b) s)"
  shows "\<exists>k m. map_of (g_members (gs_this s)) k = Some m \<and> k \<noteq> low \<and>
    (\<forall>i mi. map_of (g_members (gs_this s)) i = Some mi \<longrightarrow> i \<noteq> low \<longrightarrow> mb_rankId m \<le> mb_rankId mi) \<and>
    g_leaderGuid (gs_this s') = mb_guid m \<and>
    map_of (g_members (gs_this s')) = (map_of (g_members (gs_this s)))(k \<mapsto> m\<lparr>mb_rankId := GR_GUILDMASTER\<rparr>, low := None)"
proof -
  let ?ms = "g_members (gs_this s)"
  obtain old e where scan: "DeleteMember_scan low ?ms (None, None) = (old, Some e)"
    using scan_some [OF map_of_SomeD [OF assms(4)] assms(5)] by blast
  obtain k m where e: "e = (k, m)" by fastforce
  have in_ms: "(k, m) \<in> set ?ms \<and> k \<noteq> low" using scan_new_leader [OF scan [unfolded e], of "set ?ms"] by simp
  then have km: "map_of ?ms k = Some m" using assms(1) by (simp add: guild_ok_def members_ok_def)
  have least: "\<forall>(i, mi) \<in> set ?ms. i \<noteq> low \<longrightarrow> mb_rankId m \<le> mb_rankId mi"
    using scan_minimal [OF scan [unfolded e], of "{}"] by simp
  let ?ms' = "g_members (map_member k (\<lambda>m. m\<lparr>mb_rankId := 0\<rparr>) (gs_this s))"
  have ev: "gd_pres (members_are ?ms' (mb_guid m)) (do {
      newLeaderPlayer \<leftarrow> gd_asks (gd_FindPlayer (mb_guid m));
      gd_when (newLeaderPlayer \<noteq> None) (SetRank (mb_guid m) GR_GUILDMASTER);
      case old of None \<Rightarrow> gd_ret () | Some old \<Rightarrow> do {
        Guild_BroadcastEvent GE_LEADER_CHANGED 0 [mb_name old, mb_name m];
        Guild_BroadcastEvent GE_LEFT guid [mb_name old]
      }
    })" by (intro pres_intros)
  have "gd_wp (Guild_DeleteMember guid False b) (\<lambda>_. members_are (AList.delete low ?ms') (mb_guid m)) s"
    using gd_wp_mono [OF SetLeaderGUID_members [OF km]] gd_presD [OF ev] EraseMember_members [of ?ms' "mb_guid m" _ guid False b]
      assms(2,3) scan
    by (simp add: Guild_DeleteMember_def e)
  then have "g_leaderGuid (gs_this s') = mb_guid m \<and> g_members (gs_this s') = AList.delete low ?ms'"
    using assms(6) by (simp add: gd_wp_def split_beta members_are_def)
  moreover have "map_of ?ms' = (map_of ?ms)(k \<mapsto> m\<lparr>mb_rankId := 0\<rparr>)"
    using km by (auto simp: map_member_def map_of_map_key fun_eq_iff option.map_ident)
  ultimately show ?thesis
    using km in_ms least by (intro exI [of _ k] exI [of _ m]) (auto simp: delete_conv' dest: map_of_SomeD)
qed

theorem new_leader_has_highest_rank_witness:
  "let s' = snd (run_state (Guild_DeleteMember 7 False False) sample_state) in
   \<exists>k m. map_of (g_members sample_guild) k = Some m \<and> k \<noteq> 7 \<and> g_leaderGuid (gs_this s') = mb_guid m \<and>
     map_of (g_members (gs_this s')) k = Some (m\<lparr>mb_rankId := 0\<rparr>) \<and> map_of (g_members (gs_this s')) 7 = None"
proof -
  let ?s' = "snd (run_state (Guild_DeleteMember 7 False False) sample_state)"
  have "g_leaderGuid (gs_this sample_state) = 7" and low: "(7 :: u32) = GUID_LOPART 7"
    and "map_of (g_members (gs_this sample_state)) 8 = Some (snd (sample_member 8 3))" and "guild_ok (gs_this sample_state)"
    and this: "gs_this sample_state = sample_guild"
    using sample_ok(1) player_guid_lopart [of 7] by (simp_all add: sample_state_def sample_guild_def sample_member_def)
  from new_leader_has_highest_rank [OF this(4) this(1) low this(3) _ refl, of False, simplified] this(5)
  show ?thesis unfolding Let_def by (elim exE conjE, rule_tac x = k in exI, rule_tac x = m in exI) simp
qed

end
