(* ===== verification/Guild_Bank.thy ===== *)
theory Guild_Bank
  imports Guild_Properties
begin

text \<open>
  Money in the guild bank.  \<open>purse\<close> names what a withdrawal is about: the member's rank and what is left of the daily limit, the money of the
  bank and the money of the player.  Every call of \<^verbatim>\<open>HandleMemberWithdrawMoney\<close> is described on it, and the sequence of withdrawals of a
  day by induction.
\<close>

section \<open>What a withdrawal changes\<close>

definition purse :: "u32 \<Rightarrow> u64 \<Rightarrow> u8 \<Rightarrow> u32 \<Rightarrow> u32 \<Rightarrow> u64 \<Rightarrow> u32 \<Rightarrow> guild_state \<Rightarrow> bool" where
  "purse k p r v t b c s =
     ((\<exists>m. map_of (g_members (gs_this s)) k = Some m \<and> mb_rankId m = r \<and> length (mb_bankRemaining m) = 7 \<and>
        mb_bankRemaining m ! 6 = \<lparr>rv_value = v, rv_resetTime = t\<rparr>) \<and>
      g_bankMoney (gs_this s) = b \<and> map_option gdp_money (map_of (gs_players s) p) = Some c)"

lemma purse_member:
  assumes "purse k p r v t b c s" and "\<And>m. mb_rankId (f m) = mb_rankId m" and "\<And>m. length (mb_bankRemaining (f m)) = length (mb_bankRemaining m)"
    and "\<And>m. length (mb_bankRemaining m) = 7 \<Longrightarrow> mb_bankRemaining m ! 6 = \<lparr>rv_value = v, rv_resetTime = t\<rparr> \<Longrightarrow>
      mb_bankRemaining (f m) ! 6 = \<lparr>rv_value = v', rv_resetTime = t'\<rparr>"
  shows "purse k p r v' t' b c (s\<lparr>gs_this := map_member k f (gs_this s)\<rparr>)"
  using assms by (auto simp: purse_def map_member_def map_of_map_key)

lemma purse_other_member: "j \<noteq> k \<Longrightarrow> purse k p r v t b c s \<Longrightarrow> purse k p r v t b c (s\<lparr>gs_this := map_member j f (gs_this s)\<rparr>)"
  by (auto simp: purse_def map_member_def map_of_map_key option.map_ident)

lemma purse_pres [pres_intros]:
  "gd_pres (purse k p r v t b c) (gd_emit es)" "gd_pres (purse k p r v t b c) (SaveGoldToDB q)"
  "gd_pres (purse k p r v t b c) (Guild_BroadcastPacket pkt)" "gd_pres (purse k p r v t b c) (Guild_LogBankEvent env e tab low x n d)"
  by (simp_all add: gd_pres_def purse_def SaveGoldToDB_def Guild_BroadcastPacket_def Guild_LogBankEvent_def gd_when_def split_beta Let_def)

definition same_day :: "guild_env \<Rightarrow> u32 \<Rightarrow> bool" where
  "same_day env t = (ucast (gde_time env div 60) \<le> t + 1440)"

lemma remaining_slots_purse [pres_intros]:
  assumes "tab \<noteq> GUILD_BANK_MAX_TABS"
  shows "gd_pres (purse k p r v t b c) (GetMemberRemainingSlots env q tab)"
proof (rule gd_presI)
  have tab: "unat tab \<noteq> 6" using assms by (simp add: word_unat_eq_iff)
  have ok: "purse k p r v t b c (s\<lparr>gs_this := map_member j (\<lambda>m. m\<lparr>mb_bankRemaining := (mb_bankRemaining m)[unat tab := x]\<rparr>) (gs_this s), gs_out := es\<rparr>)"
    if "purse k p r v t b c s" for s j x es
  proof (cases "j = k")
    case True
    then show ?thesis using purse_member [OF that, of "\<lambda>m. m\<lparr>mb_bankRemaining := (mb_bankRemaining m)[unat tab := x]\<rparr>" v t] tab
      by (simp add: purse_def)
  next
    case False
    then show ?thesis using purse_other_member [OF False that] by (simp add: purse_def)
  qed
  fix s assume "purse k p r v t b c s"
  then show "gd_wp (GetMemberRemainingSlots env q tab) (\<lambda>_. purse k p r v t b c) s"
    using assms by (simp add: GetMemberRemainingSlots_def Member_GetBankRemainingValue_def upd_guild_member_def Let_def ok split: option.split)
qed

lemma remaining_money_wp:
  assumes "purse (GUID_LOPART p) p r v t b c s" and "r \<noteq> GR_GUILDMASTER" and "same_day env t" and "Q v s"
  shows "gd_wp (GetMemberRemainingMoney env p) Q s"
proof -
  have "\<not> t + 1440 < ucast (gde_time env div 60)" using assms(3) by (simp add: same_day_def not_less)
  then show ?thesis
    using assms
    by (auto simp: purse_def GetMemberRemainingMoney_def Guild_GetMember_def Member_GetBankRemainingValue_def Member_IsRank_def Let_def)
qed

lemma money_info_purse [pres_intros]:
  assumes "r \<noteq> GR_GUILDMASTER" and "same_day env t"
  shows "gd_pres (purse (GUID_LOPART p) p r v t b c) (SendMoneyInfo env p)"
  unfolding SendMoneyInfo_def
  by (rule gd_presI) (auto intro!: remaining_money_wp [OF _ assms] simp: purse_def)

lemma bank_info_purse [pres_intros]:
  "gd_pres (purse k p r v t b c) (SendBankTabsInfo env q)" "gd_pres (purse k p r v t b c) (SendBankContent env q 0)"
  "gd_pres (purse k p r v t b c) (SendBankMoneyUpdate env q)"
  unfolding SendBankTabsInfo_def SendBankContent_def SendBankMoneyUpdate_def by (intro pres_intros; simp)+

lemma decrease_purse:
  assumes "purse k p r v t b c s"
  shows "gd_wp (upd_guild_member k (Member_DecreaseBankRemainingValue GUILD_BANK_MAX_TABS a)) (\<lambda>_. purse k p r (v - a) t b c) s"
proof -
  have "purse k p r (v - a) t b c (s\<lparr>gs_this := map_member k (\<lambda>m. fst (Member_DecreaseBankRemainingValue GUILD_BANK_MAX_TABS a m)) (gs_this s)\<rparr>)"
    by (rule purse_member [OF assms]) (simp_all add: Member_DecreaseBankRemainingValue_def Let_def)
  then show ?thesis using assms by (auto simp: purse_def upd_guild_member_def)
qed

lemma bank_money_purse:
  "purse k p r v t b c s \<Longrightarrow> ucast a \<le> b \<Longrightarrow> gd_wp (ModifyBankMoney (ucast a) False) (\<lambda>_. purse k p r v t (b - ucast a) c) s"
  by (simp add: ModifyBankMoney_def not_less [symmetric]) (simp add: purse_def Let_def)

definition credited :: "u32 \<Rightarrow> u32 \<Rightarrow> u32" where
  "credited c d = (if sint d < 0 then if - d < c then c + d else 0 else if c < MAX_MONEY_AMOUNT - d then c + d else MAX_MONEY_AMOUNT)"

lemma set_money_purse: "purse k p r v t b c s \<Longrightarrow> gd_wp (SetMoney p x) (\<lambda>_. purse k p r v t b x) s"
  by (auto simp: SetMoney_def upd_guild_player_def purse_def map_of_map_key)

lemma player_money_purse:
  assumes "purse k p r v t b c s"
  shows "gd_wp (ModifyMoney p a) (\<lambda>_. purse k p r v t b (credited c a)) s"
proof -
  have "gdp_money (gd_player p s) = c" using assms by (auto simp: purse_def gd_player_def)
  moreover have "gd_wp (SetMoney p x) (\<lambda>_. purse k p r v t b x) (s\<lparr>gs_out := es\<rparr>)" for x es
    using assms by (intro set_money_purse [of _ _ _ _ _ _ c]) (simp add: purse_def)
  moreover have "gd_player p (s\<lparr>gs_out := es\<rparr>) = gd_player p s" for es by (simp add: gd_player_def)
  ultimately show ?thesis
    unfolding ModifyMoney_def gd_wp_bind gd_wp_simps by (simp add: credited_def gd_when_def)
qed

lemma credited_small:
  assumes "unat c + unat a < 0x7FFFFFFE"
  shows "unat (credited c a) = unat c + unat a"
proof -
  have "unat (MAX_MONEY_AMOUNT - a) = 0x7FFFFFFE - unat a" using assms by (simp add: unat_sub_if_size word_le_nat_alt)
  moreover have "0 \<le> sint a" 
  proof -
    have "0 \<le> uint a" "uint a < 0x80000000" using assms uint_nat [of a] by linarith+
    then have "sint a = uint a" unfolding sint_uint by (intro signed_take_bit_int_eq_self order_trans [OF _ \<open>0 \<le> uint a\<close>]) simp_all
    with \<open>0 \<le> uint a\<close> show ?thesis by simp
  qed
  ultimately show ?thesis using assms by (simp add: credited_def word_less_nat_alt unat_word_ariths)
qed

section \<open>Withdrawals\<close>

lemma unat_ucast64: "unat (ucast (a :: u32) :: u64) = unat a"
  using unsigned_less [of a, where 'a = nat] by (simp add: unsigned_ucast_eq unsigned_take_bit_eq take_bit_nat_eq_self)

lemma paid_purse:
  assumes "purse k p r v t b c s"
  shows "gd_wp (gd_when (\<not> repair) (do { ModifyMoney p a; SaveGoldToDB p }))
    (\<lambda>_. purse k p r v t b (if repair then c else credited c a)) s"
proof (cases repair)
  case True
  then show ?thesis using assms by (simp add: gd_when_def)
next
  case False
  have "gd_wp (do { ModifyMoney p a; SaveGoldToDB p }) (\<lambda>_. purse k p r v t b (credited c a)) s"
    by (rule gd_wp_seq [OF player_money_purse [OF assms]], rule gd_presD [OF purse_pres(2)])
  with False show ?thesis by (simp add: gd_when_def)
qed

lemma Withdraw_wp:
  assumes "purse (GUID_LOPART p) p r v t b c s" and "r \<noteq> GR_GUILDMASTER" and "same_day env t" and "v < GUILD_WITHDRAW_MONEY_UNLIMITED"
    and "\<And>s'. purse (GUID_LOPART p) p r v t b c s' \<Longrightarrow> Q False s'"
    and "\<And>s'. a \<le> v \<Longrightarrow> ucast a \<le> b \<Longrightarrow>
      purse (GUID_LOPART p) p r (v - a) t (b - ucast a) (if repair then c else credited c a) s' \<Longrightarrow> Q True s'"
  shows "gd_wp (HandleMemberWithdrawMoney env p a repair) Q s"
proof -
  let ?k = "GUID_LOPART p"
  have told: "gd_pres (purse ?k p r (v - a) t (b - ucast a) c') (do {
      Guild_LogBankEvent env (if repair then GUILD_BANK_LOG_REPAIR_MONEY else GUILD_BANK_LOG_WITHDRAW_MONEY) 0 ?k a 0 0;
      SendMoneyInfo env p;
      gd_when (\<not> repair) (do { SendBankTabsInfo env p; SendBankContent env p 0; SendBankMoneyUpdate env p })
    })" for c' by (intro pres_intros assms(2,3))
  have pay: "gd_wp (do {
      upd_guild_member ?k (Member_DecreaseBankRemainingValue GUILD_BANK_MAX_TABS a);
      ModifyBankMoney (ucast a) False;
      gd_when (\<not> repair) (do { ModifyMoney p a; SaveGoldToDB p });
      Guild_LogBankEvent env (if repair then GUILD_BANK_LOG_REPAIR_MONEY else GUILD_BANK_LOG_WITHDRAW_MONEY) 0 ?k a 0 0;
      SendMoneyInfo env p;
      gd_when (\<not> repair) (do { SendBankTabsInfo env p; SendBankContent env p 0; SendBankMoneyUpdate env p });
      gd_ret True
    }) Q s'" if "a \<le> v" "ucast a \<le> b" "purse ?k p r v t b c s'" for s'
  proof (intro gd_wp_seq [OF decrease_purse [OF that(3)]] gd_wp_seq [OF bank_money_purse [OF _ that(2)]] gd_wp_seq [OF paid_purse])
    fix s' assume "purse ?k p r (v - a) t (b - ucast a) (if repair then c else credited c a) s'"
    from gd_presD [OF told this, of "\<lambda>_. Q True"] assms(6) [OF that(1,2)]
    show "gd_wp (do {
        Guild_LogBankEvent env (if repair then GUILD_BANK_LOG_REPAIR_MONEY else GUILD_BANK_LOG_WITHDRAW_MONEY) 0 ?k a 0 0;
        SendMoneyInfo env p;
        gd_when (\<not> repair) (do { SendBankTabsInfo env p; SendBankContent env p 0; SendBankMoneyUpdate env p });
        gd_ret True
      }) Q s'" by simp
  qed
  have b: "g_bankMoney (gs_this s) = b" using assms(1) by (simp add: purse_def)
  show ?thesis
    unfolding HandleMemberWithdrawMoney_def gd_wp_bind gd_wp_simps
    using assms(1,4,5) pay [unfolded gd_wp_bind] b
    by (auto intro!: remaining_money_wp [OF assms(1-3)] simp: gd_when_def not_less purse_def)
qed

text \<open>The withdrawals of one player in a row; the result lists those that succeeded.\<close>

fun withdrawals :: "u64 \<Rightarrow> (guild_env \<times> u32 \<times> bool) list \<Rightarrow> (u32 \<times> bool) list guildm" where
  "withdrawals p [] = gd_ret []"
| "withdrawals p ((env, a, repair) # ws) = do {
     ok \<leftarrow> HandleMemberWithdrawMoney env p a repair;
     ts \<leftarrow> withdrawals p ws;
     gd_ret (if ok then (a, repair) # ts else ts)
   }"

definition withdrawn :: "(u32 \<times> bool) list \<Rightarrow> nat" where
  "withdrawn ts = (\<Sum>(a, repair) \<leftarrow> ts. unat a)"

definition pocketed :: "(u32 \<times> bool) list \<Rightarrow> nat" where
  "pocketed ts = (\<Sum>(a, repair) \<leftarrow> ts. if repair then 0 else unat a)"

lemma withdrawn_simps [simp]:
  "withdrawn [] = 0" "withdrawn ((a, r) # ts) = unat a + withdrawn ts" "pocketed [] = 0"
  "pocketed ((a, r) # ts) = (if r then 0 else unat a) + pocketed ts"
  by (simp_all add: withdrawn_def pocketed_def)

lemma withdrawals_wp:
  assumes "purse (GUID_LOPART p) p r v t b c s" and "r \<noteq> GR_GUILDMASTER" and "v < GUILD_WITHDRAW_MONEY_UNLIMITED"
    and "\<forall>(env, a, repair) \<in> set ws. same_day env t"
  shows "gd_wp (withdrawals p ws) (\<lambda>ts s'. \<exists>v' b' c'. purse (GUID_LOPART p) p r v' t b' c' s' \<and> unat v' + withdrawn ts = unat v \<and>
    unat b' + withdrawn ts = unat b \<and> (unat c + pocketed ts < unat MAX_MONEY_AMOUNT \<longrightarrow> unat c' = unat c + pocketed ts)) s"
  using assms
proof (induction ws arbitrary: v b c s)
  case (Cons w ws)
  obtain env a repair where w: "w = (env, a, repair)" by (cases w) auto
  have day: "same_day env t" "\<forall>(env, a, repair) \<in> set ws. same_day env t" using Cons(5) by (auto simp: w)
  show ?case
    unfolding w withdrawals.simps gd_wp_bind gd_wp_simps
  proof (rule Withdraw_wp [OF Cons(2,3) day(1) Cons(4)])
    fix s' assume "purse (GUID_LOPART p) p r v t b c s'"
    from Cons(1) [OF this Cons(3,4) day(2)] show "gd_wp (withdrawals p ws) (\<lambda>ts s'. \<exists>v' b' c'. purse (GUID_LOPART p) p r v' t b' c' s' \<and>
        unat v' + withdrawn (if False then (a, repair) # ts else ts) = unat v \<and>
        unat b' + withdrawn (if False then (a, repair) # ts else ts) = unat b \<and>
        (unat c + pocketed (if False then (a, repair) # ts else ts) < unat MAX_MONEY_AMOUNT \<longrightarrow>
         unat c' = unat c + pocketed (if False then (a, repair) # ts else ts))) s'" by simp
  next
    let ?c = "if repair then c else credited c a"
    fix s' assume le: "a \<le> v" "ucast a \<le> b" and "purse (GUID_LOPART p) p r (v - a) t (b - ucast a) ?c s'"
    moreover have "v - a < GUILD_WITHDRAW_MONEY_UNLIMITED" using le(1) Cons(4) by (simp add: word_less_nat_alt unat_sub)
    ultimately have "gd_wp (withdrawals p ws) (\<lambda>ts s'. \<exists>v' b' c'. purse (GUID_LOPART p) p r v' t b' c' s' \<and>
        unat v' + withdrawn ts = unat (v - a) \<and> unat b' + withdrawn ts = unat (b - ucast a) \<and>
        (unat ?c + pocketed ts < unat MAX_MONEY_AMOUNT \<longrightarrow> unat c' = unat ?c + pocketed ts)) s'"
      using Cons(1) Cons(3) day(2) by blast
    moreover have "unat (v - a) + unat a = unat v" "unat (b - ucast a) + unat a = unat b"
      using le by (simp_all add: unat_sub word_le_nat_alt unat_ucast64)
    ultimately show "gd_wp (withdrawals p ws) (\<lambda>ts s'. \<exists>v' b' c'. purse (GUID_LOPART p) p r v' t b' c' s' \<and>
        unat v' + withdrawn (if True then (a, repair) # ts else ts) = unat v \<and>
        unat b' + withdrawn (if True then (a, repair) # ts else ts) = unat b \<and>
        (unat c + pocketed (if True then (a, repair) # ts else ts) < unat MAX_MONEY_AMOUNT \<longrightarrow>
         unat c' = unat c + pocketed (if True then (a, repair) # ts else ts))) s'"
      by (elim gd_wp_mono exE conjE) (intro exI conjI, assumption, auto simp: credited_small)
  qed
qed auto

section \<open>Properties\<close>

text \<open>
  C8. Take a member who is not guild master and has a limited sum left for the day, and any attempts of his to withdraw, for himself or
  to pay for repairs, before that limit is renewed.  The total of what he gets out, for himself and for repairs, stays within what was left, and the
  bank loses exactly this total.  His purse grows by exactly what he took for himself (money for repairs never enters it), as long as this
  stays below \<^verbatim>\<open>MAX_MONEY_AMOUNT\<close>, where \<^verbatim>\<open>ModifyMoney\<close> cuts off.
\<close>

theorem withdrawals_within_limit:
  assumes "guild_ok (gs_this s)" and "Guild_GetMember p (gs_this s) = Some m" and "\<not> Member_IsRank GR_GUILDMASTER m"
    and "mb_bankRemaining m ! unat GUILD_BANK_MAX_TABS = \<lparr>rv_value = v, rv_resetTime = t\<rparr>" and "v < GUILD_WITHDRAW_MONEY_UNLIMITED"
    and "\<forall>(env, a, repair) \<in> set ws. ucast (gde_time env div 60) \<le> t + 1440"
    and "map_of (gs_players s) p = Some pl" and "(ts, s') = run_state (withdrawals p ws) s"
  shows "withdrawn ts \<le> unat v \<and> unat (g_bankMoney (gs_this s')) + withdrawn ts = unat (g_bankMoney (gs_this s)) \<and>
    (unat (gdp_money pl) + pocketed ts < unat MAX_MONEY_AMOUNT \<longrightarrow>
     unat (gdp_money (gd_player p s')) = unat (gdp_money pl) + pocketed ts)"
proof -
  have "length (mb_bankRemaining m) = 7"
    using assms(1,2) by (auto simp: guild_ok_def members_ok_def guild_member_ok_def Guild_GetMember_def dest!: map_of_SomeD)
  then have "purse (GUID_LOPART p) p (mb_rankId m) v t (g_bankMoney (gs_this s)) (gdp_money pl) s"
    using assms(2,4,7) by (simp add: purse_def Guild_GetMember_def)
  from withdrawals_wp [OF this _ assms(5), of ws] obtain v' b' c' where
    "purse (GUID_LOPART p) p (mb_rankId m) v' t b' c' s'" "unat v' + withdrawn ts = unat v" "unat b' + withdrawn ts = unat (g_bankMoney (gs_this s))"
    "unat (gdp_money pl) + pocketed ts < unat MAX_MONEY_AMOUNT \<longrightarrow> unat c' = unat (gdp_money pl) + pocketed ts"
    using assms(3,6,8) by (auto simp: gd_wp_def same_day_def Member_IsRank_def split_beta prod_eq_iff)
  then show ?thesis by (auto simp: purse_def gd_player_def)
qed

definition sample_withdrawals :: "(guild_env \<times> u32 \<times> bool) list" where
  "sample_withdrawals = map (\<lambda>(a, repair). (sample_env\<lparr>gde_time := 60000\<rparr>, a, repair)) [(300, True), (150, False), (300, False)]"

lemma sample_withdrawals_taken: "fst (run_state (withdrawals 8 sample_withdrawals) sample_state) = [(300, True), (150, False)]"
  by code_simp

theorem withdrawals_within_limit_witness:
  "withdrawn [(300, True), (150, False)] \<le> 500 \<and>
   unat (g_bankMoney (gs_this (snd (run_state (withdrawals 8 sample_withdrawals) sample_state)))) + 450 = 1000 \<and>
   unat (gdp_money (gd_player 8 (snd (run_state (withdrawals 8 sample_withdrawals) sample_state)))) = 100 + 150"
proof -
  let ?run = "run_state (withdrawals 8 sample_withdrawals) sample_state"
  have "Guild_GetMember 8 (gs_this sample_state) = Some (snd (sample_member 8 3))"
    using player_guid_lopart [of 8] by (simp add: sample_state_def sample_guild_def sample_member_def Guild_GetMember_def)
  moreover have "guild_ok (gs_this sample_state)" and "map_of (gs_players sample_state) 8 = Some (snd (sample_player 8 3))"
    using sample_ok(1) by (simp_all add: sample_state_def sample_player_def)
  ultimately have "withdrawn (fst ?run) \<le> unat (500 :: u32) \<and>
      unat (g_bankMoney (gs_this (snd ?run))) + withdrawn (fst ?run) = unat (g_bankMoney (gs_this sample_state)) \<and>
      (100 + pocketed (fst ?run) < unat MAX_MONEY_AMOUNT \<longrightarrow>
       unat (gdp_money (gd_player 8 (snd ?run))) = 100 + pocketed (fst ?run))"
    using withdrawals_within_limit [of sample_state 8 "snd (sample_member 8 3)" 500 0 sample_withdrawals "snd (sample_player 8 3)" "fst ?run" "snd ?run"]
    by (simp add: sample_member_def new_Member_def Member_IsRank_def sample_withdrawals_def sample_player_def)
  then show ?thesis
    unfolding sample_withdrawals_taken by (simp add: sample_state_def sample_guild_def)
qed

end
