(* ===== verification/Spec2Isabelle.thy ===== *)
theory Spec2Isabelle
  imports Timers EventProcessor LockedQueue Channel_Mgr Reputation Tickets_Inv Map_Players Roll_Properties Group_Properties Guild_Bank
begin

text \<open>
  A model in higher-order logic of the core services of the Axium world server, a C++ server for an online
  role-playing game, with proofs of what they guarantee.  The sources are under \<^verbatim>\<open>src/src/server\<close>; the file names
  below are relative to it.  Every definition keeps the name of the function it models, prefixed by its class where
  two classes share a name.

  \<^bold>\<open>The program and its parts.\<close>  A client sends packets; \<^verbatim>\<open>WorldSession\<close> hands each to a handler, which reads its
  fields from a byte buffer, changes the state of one or more managers, writes statements to the database and sends
  packets to players.  Players, groups, maps and loot refer to each other through intrusive reference lists.  Objects
  schedule events; threads exchange packets through locked queues.

  \<^bold>\<open>Theories, in the order of the imports.\<close>

  \<^item> \<open>Axium_Prelude\<close>: the fixed-width integers, results that carry an error, ordered maps (\<^verbatim>\<open>std::map\<close> as a sorted
    association list, with the locale \<open>std_map\<close>), bit masks and counting over maps.
  \<^item> \<open>ByteBuffer\<close> (\<^verbatim>\<open>shared/Packets/ByteBuffer.h\<close>, \<^verbatim>\<open>WorldPacket.h\<close>, \<^verbatim>\<open>shared/Utilities/ByteConverter.h\<close>): the buffer as
    a record of storage and two positions; every operation returns an exception or the new buffer.  The locale
    \<open>bb_codec\<close> states that reading gives back what was written; it is interpreted for the integers and strings and
    extended to pairs, vectors and maps.  Shown: packets are read back field by field and end in an exception where they are cut off,
    packed guids, containers, the range in which the bound checks are exact.
  \<^item> \<open>Timers\<close> (\<^verbatim>\<open>shared/Utilities/Timer.h\<close>): the five timer classes with their conversions to \<^verbatim>\<open>int32\<close> and \<^verbatim>\<open>time_t\<close>.
  \<^item> \<open>EventProcessor\<close> (\<^verbatim>\<open>shared/Utilities/EventProcessor.cpp\<close>): the event queue, over a record of the virtual functions of an
    event, which may plan further events.  \<^verbatim>\<open>Update\<close> and \<^verbatim>\<open>KillAllEvents\<close> are \<^theory_text>\<open>partial_function (option)\<close>, because an event
    can keep them running.  Shown: what holds whenever \<^verbatim>\<open>Update\<close> returns; that it returns, with the due events run in order, when the
    events plan only for later (the locale \<open>deferring_events\<close>); and that it need not return otherwise.
  \<^item> \<open>LockedQueue\<close> (\<^verbatim>\<open>shared/Threading/LockedQueue.h\<close>): the queue's methods, and the instructions of each method (acquire, test,
    read, pop, release), which a step relation interleaves among threads.  Using the first element of an empty queue, or releasing a lock
    that is not held, is a fault.  Shown, for callers who follow \<^verbatim>\<open>lock()\<close> and \<^verbatim>\<open>peek(false)\<close> by \<^verbatim>\<open>unlock()\<close>: first in, first out
    under every schedule, mutual exclusion, no deadlock, every schedule ends, and the instructions compute what the methods say.
  \<^item> \<open>Linked_List\<close> (\<^verbatim>\<open>shared/Dynamic/LinkedList.h\<close>): the intrusive doubly linked list on an explicit heap of addresses,
    one heap update per assignment, null and dangling pointers as errors.  Shown: it refines the list of its elements.
  \<^item> \<open>References\<close> (\<^verbatim>\<open>shared/Dynamic/LinkedReference/\<close> and the classes \<^verbatim>\<open>MapReference\<close>, \<^verbatim>\<open>GridReference\<close>,
    \<^verbatim>\<open>GroupReference\<close>, \<^verbatim>\<open>FollowerReference\<close>, \<^verbatim>\<open>LootValidatorRef\<close>): the locale \<open>reference_class\<close> is the contract of the
    virtual functions, interpreted for the five classes.  Shown: lists and references agree, \<^verbatim>\<open>clearReferences\<close> ends.
  \<^item> \<open>Map_Players\<close> (\<^verbatim>\<open>game/Maps/Map.cpp\<close>, \<^verbatim>\<open>game/Entities/Object/Object.cpp\<close>, \<^verbatim>\<open>game/Entities/Player/Player.cpp\<close>): entering and
    leaving a map and the player loops of \<^verbatim>\<open>Map::Update\<close>.  Shown: the stored iterator survives the removal of players.
  \<^item> \<open>World_Model\<close> (\<^verbatim>\<open>game/Accounts/AccountMgr.cpp\<close>, \<^verbatim>\<open>game/Entities/Object/ObjectDefines.h\<close>): what the services below see
    of the world: players online, account levels, guids; packets and statements are effects in a list.
  \<^item> \<open>Social\<close> (\<^verbatim>\<open>game/Entities/Player/SocialMgr.cpp\<close>, contact opcodes of \<^verbatim>\<open>game/Handlers/MiscHandler.cpp\<close>): friend and ignore
    lists as a write-through cache of their table.
  \<^item> \<open>Text_Util\<close> (\<^verbatim>\<open>shared/Utilities/Util.cpp\<close>): tokens, durations, hexadecimal text, invisible characters.
  \<^item> \<open>Channel\<close>, \<open>Channel_Mgr\<close> (\<^verbatim>\<open>game/Chat/Channels/\<close>, \<^verbatim>\<open>game/Handlers/ChannelHandler.cpp\<close>): chat channels with all commands and
    notifications, the two managers, and the opcodes.  Shown: the invariant of a channel over all command sequences,
    privileges, recipients of messages, ownership in every reachable chat state, in all of which nobody kicks or bans himself (what an
    owner who does so makes of the channel is shown).  The lists of a player hold pointers to channels; following one to a deleted channel is
    an error, and it is shown that logging out never does.
  \<^item> \<open>Reputation\<close> (\<^verbatim>\<open>game/Reputation/ReputationMgr.cpp\<close>): standings, ranks, flags, spillover, loading, saving, packets.
    The \<^verbatim>\<open>float\<close> arithmetic of the rates is a parameter.  Shown: counters are exact in every reachable state.
  \<^item> \<open>Tickets\<close>, \<open>Tickets_Inv\<close> (\<^verbatim>\<open>game/Tickets/TicketMgr.cpp\<close>, \<^verbatim>\<open>game/Handlers/TicketHandler.cpp\<close>, \<^verbatim>\<open>scripts/Commands/cs_ticket.cpp\<close>): the
    tickets to the game masters with opcodes, commands and table.  Pointers to tickets are followed through the table of the manager and
    iterators are keys of it, so that the use of a deleted ticket and the advance of an erased iterator are errors.  Shown: counters, the table
    follows the memory up to the escalation status, and three commands that run into such errors.
  \<^item> \<open>Loot_Rolls\<close>, \<open>Roll_Properties\<close> (\<^verbatim>\<open>game/Groups/Group.cpp\<close>, \<^verbatim>\<open>game/Loot/LootMgr.h\<close>): the rolls of a group on the items of a
    loot, from \<^verbatim>\<open>GroupLoot\<close> and \<^verbatim>\<open>NeedBeforeGreed\<close> over votes, leaving members and the timer to \<^verbatim>\<open>CountTheRoll\<close>.  Shown:
    exact counters in every state reached without second votes, when a first vote ends a roll, who wins a need roll, that the timer loop returns, and
    that a second vote of one player is counted again.
  \<^item> \<open>Group_Model\<close>, \<open>Group_Handlers\<close> (\<^verbatim>\<open>game/Groups/Group.cpp\<close>, \<^verbatim>\<open>GroupMgr.cpp\<close>, \<^verbatim>\<open>game/Handlers/GroupHandler.cpp\<close>, the group functions of
    \<^verbatim>\<open>Player.cpp\<close> and the group part of logging in and out): groups as objects that are created and deleted, kept by address, with the
    players' pointers to them; operations run in a state monad with errors (a dangling pointer, a bad index, an assertion) and a log of effects.
    \<open>Group_Norm\<close> shows which operations leave the membership alone, \<open>Group_Inv\<close> states the invariant of groups, players and the group manager,
    \<open>Group_Moves\<close> proves that the abstract changes (invite, join, leave, found, wipe) keep it, with the locale \<open>id_store\<close> for the store of
    group ids, \<open>Group_Steps\<close> that the operations make these changes, and \<open>Group_Safety\<close> that every opcode keeps the invariant.
    \<open>Group_Properties\<close> has the requests and the reachable states.  Shown, for honest requests: the invariant in every reachable state, no request fails,
    sizes and counters, pointers of players and slots of groups agree, what an accepted invitation makes, the least free id, round robin of looters,
    target icons.  A request has to satisfy what \<open>honest\<close> states: it comes from a player online, a player who logs in has the row the server wrote,
    the counter of group guids is not used up, and two conditions on the client which the code does not check: nobody
    invites himself (then a pointer dangles, as is shown) and nobody accepts the invitation to a group he leads.  Battleground raids are in the
    definitions but not among the requests, since nothing of the battlegrounds is modelled.
  \<^item> \<open>Guild_Model\<close>, \<open>Guild_Handlers\<close>, \<open>Guild_Mgr\<close>: guilds (\<^verbatim>\<open>game/Guilds/Guild.h\<close>, \<^verbatim>\<open>Guild.cpp\<close>, \<^verbatim>\<open>GuildMgr.cpp\<close>,
    \<^verbatim>\<open>game/Handlers/GuildHandler.cpp\<close>) with members, ranks and their rights, bank tabs and money, event logs, the commands of clients and
    game masters, loading and validation, in the state monad of the library.  \<open>Guild_Inv\<close> has the well-formedness of a guild and
    the locales \<open>guild_frame\<close>, \<open>guild_shape\<close> and \<open>guild_joinable\<close>, which collect what an operation may change and prove preservation once;
    \<open>Guild_Shape\<close> and \<open>Guild_Load\<close> interpret them for the guild a method runs on and \<open>Guild_Store\<close> for all guilds of the manager.
    \<open>Guild_Properties\<close> and \<open>Guild_Bank\<close> have the theorems: the invariant in every reachable state, disbanding, the choice of a new leader,
    the bounds of promotion and demotion, withdrawals within the daily limit with money conserved, and what the test of rank rights grants.
    The disband loop is the only one with fuel, the number of members; each round erases one, and \<open>Disband_complete\<close> shows that none are left.
    The reachable states start from what \<^verbatim>\<open>LoadGuilds\<close> makes of the tables (\<open>Guild_Load\<close>), where \<open>tables_ok\<close> states their keys; a guild that fails the
    validation leaves the loading loop with an invalid iterator, and such a start is excluded.
  \<^item> This theory: the properties that span components.

  \<^bold>\<open>Conventions.\<close>  State is passed explicitly; an operation returns the new state and the list of its effects, and an
  \<open>Inl\<close> error where the code throws, asserts or leaves its memory.  Code outside these components that an operation
  calls for an answer (name lookups, clocks, random numbers, \<^verbatim>\<open>float\<close> arithmetic, client data stores) is a parameter.
  Loops over containers are structural recursion.  Loops that follow pointers or call virtual functions are
  \<^theory_text>\<open>partial_function (option)\<close>, and that they return is proved.  Fuel is used only for the loop that disbands a guild.

  \<^bold>\<open>Not modelled.\<close>  Sockets, the login server, logging, the database layer itself, and everything that depends on
  geometry or floating-point simulation: maps beyond their player lists, grids, movement, spells,
  combat and threat, creature scripts.  Of the groups, the bindings to instances, the checks before a battleground queue and the packets with
  the statistics of members are not modelled.  Of the guilds, the moves of items between the bank and the inventories and the petitions are not
  modelled: they rest on the item code of the player.  Arena teams, battlegrounds, loot generation, pools, auctions, mail and
  achievements are pure enough to be modelled and are the next candidates, in this order.  Vendored libraries and
  the extraction tools are left out.
\<close>

section \<open>From the bytes of a packet to the channels\<close>

definition join_packet :: "u32 \<Rightarrow> u8 \<Rightarrow> u8 \<Rightarrow> string \<Rightarrow> string \<Rightarrow> pkt_op list" where
  "join_packet channel_id unknown1 unknown2 channelname pass =
     [Out32 channel_id, Out8 unknown1, Out8 unknown2, OutStr channelname, OutStr pass]"

abbreviation join_bytes :: "u32 \<Rightarrow> u8 \<Rightarrow> u8 \<Rightarrow> string \<Rightarrow> string \<Rightarrow> u8 list" where
  "join_bytes channel_id unknown1 unknown2 channelname pass \<equiv>
     concat (map op_enc (join_packet channel_id unknown1 unknown2 channelname pass))"

lemma join_packet_read:
  assumes "0 \<notin> set (string_bytes channelname)" and "0 \<notin> set (string_bytes pass)"
    and "length (string_bytes channelname) + length (string_bytes pass) < 1000000"
  shows "HandleJoinChannel env w p (bb_view [] (join_bytes channel_id unknown1 unknown2 channelname pass)) s =
    Inr (join_channel env w p channel_id channelname pass s)"
  using assms
  by (simp add: HandleJoinChannel_def join_packet_def bb_in_view bb_in_string_view
      bb_in_string_view [where rest = "[]", simplified])

lemma bb_in_cut_view:
  assumes "length bs < LENGTH('a) div 8" and "length pre + LENGTH('a) div 8 < 2 ^ 64"
  shows "\<exists>e. (bb_in (bb_view pre bs) :: bb_error + ('a::len word \<times> byte_buffer)) = Inl e"
  using assms by (simp add: bb_in_def bb_read_def bb_read_at_def bb_peek_bytes_def bb_view_def szadd_small)

lemma join_packet_short:
  assumes "n < 6"
  shows "\<exists>e. HandleJoinChannel env w p
    (bb_view [] (take n (join_bytes channel_id unknown1 unknown2 channelname pass))) s = Inl e"
proof -
  let ?id = "le_bytes channel_id" and ?u1 = "le_bytes unknown1"
  let ?rest = "le_bytes unknown2 @ string_bytes channelname @ 0 # string_bytes pass @ [0]"
  have bytes: "join_bytes channel_id unknown1 unknown2 channelname pass = ?id @ ?u1 @ ?rest"
    by (simp add: join_packet_def)
  have len: "length ?id = 4" "length ?u1 = 1" by (simp_all add: length_le_bytes)
  consider "n < 4" | "n = 4" | "n = 5" using assms by linarith
  then show ?thesis
  proof cases
    case 1
    then obtain e where "(bb_in (bb_view [] (take n (?id @ ?u1 @ ?rest))) :: bb_error + (u32 \<times> byte_buffer)) = Inl e"
      using bb_in_cut_view [where 'a = 32, of "take n (?id @ ?u1 @ ?rest)" "[]"] len by auto
    then show ?thesis unfolding bytes HandleJoinChannel_def by simp
  next
    case 2
    obtain e where "(bb_in (bb_view ?id []) :: bb_error + (u8 \<times> byte_buffer)) = Inl e"
      using bb_in_cut_view [where 'a = 8, of "[]" ?id] len by auto
    moreover have "take n (?id @ ?u1 @ ?rest) = ?id @ []" using 2 len by simp
    moreover have "(bb_in (bb_view [] (?id @ [])) :: bb_error + (u32 \<times> byte_buffer)) = Inr (channel_id, bb_view ?id [])"
      using c_u32.rd_view [where x = channel_id and pre = "[]" and rest = "[]"] len by simp
    ultimately show ?thesis unfolding bytes HandleJoinChannel_def by simp
  next
    case 3
    obtain e where "(bb_in (bb_view (?id @ ?u1) []) :: bb_error + (u8 \<times> byte_buffer)) = Inl e"
      using bb_in_cut_view [where 'a = 8, of "[]" "?id @ ?u1"] len by auto
    moreover have "take n (?id @ ?u1 @ ?rest) = ?id @ ?u1 @ []" using 3 len by simp
    moreover have "(bb_in (bb_view [] (?id @ ?u1 @ [])) :: bb_error + (u32 \<times> byte_buffer)) = Inr (channel_id, bb_view ?id (?u1 @ []))"
      using c_u32.rd_view [where x = channel_id and pre = "[]" and rest = "?u1 @ []"] len by simp
    moreover have "(bb_in (bb_view ?id (?u1 @ [])) :: bb_error + (u8 \<times> byte_buffer)) = Inr (unknown1, bb_view (?id @ ?u1) [])"
      using c_u8.rd_view [where x = unknown1 and pre = ?id and rest = "[]"] len by simp
    ultimately show ?thesis unfolding bytes HandleJoinChannel_def by simp
  qed
qed

text \<open>
  C33. A join request crosses the wire.  The packet a client writes field by field with the buffer's
  output operators is built, and the server's handler, reading it with the input operators, joins
  exactly the channel with exactly the password that was written (for texts without NUL characters,
  which the format cannot carry).  A packet that ends before the channel name makes a read throw, and
  the handler changes nothing.
\<close>

theorem join_request_crosses_wire:
  assumes "0 \<notin> set (string_bytes channelname)" and "0 \<notin> set (string_bytes pass)"
    and "length channelname + length pass < 1000000"
  shows "\<exists>b. packet_buffer (wp_add (join_packet channel_id unknown1 unknown2 channelname pass) (new_WorldPacket opcode)) = Inr b \<and>
    HandleJoinChannel env w p b s = Inr (join_channel env w p channel_id channelname pass s) \<and>
    (\<forall>n<6. \<exists>e. HandleJoinChannel env w p (bb_view [] (take n (bb_storage b))) s = Inl e)"
proof -
  let ?p = "join_packet channel_id unknown1 unknown2 channelname pass"
  let ?bs = "concat (map op_enc ?p)"
  have strs: "length (string_bytes channelname) + length (string_bytes pass) < 1000000"
    using assms(3) by (simp add: string_bytes_def)
  then have "bb_room (length ?bs) new_ByteBuffer"
    by (simp add: bb_room_def new_ByteBuffer_def join_packet_def length_le_bytes)
  moreover have "list_all op_appends ?p" by (simp add: join_packet_def)
  ultimately have "packet_buffer (wp_add ?p (new_WorldPacket opcode)) = Inr (bb_push ?bs new_ByteBuffer)"
    using packet_buffer_push [OF _ bb_ok_new] by (simp add: packet_buffer_def wp_add_def new_WorldPacket_def)
  moreover have "bb_push ?bs new_ByteBuffer = bb_view [] ?bs"
    by (simp add: bb_push_def new_ByteBuffer_def bb_view_def)
  moreover have "bb_storage (bb_view [] ?bs) = ?bs" by (simp add: bb_view_def)
  ultimately show ?thesis by (simp add: join_packet_read [OF assms(1,2) strs] join_packet_short)
qed

theorem join_request_crosses_wire_witness:
  "\<exists>b. packet_buffer (wp_add (join_packet 0 0 0 ''world'' ''pw'') (new_WorldPacket 0x97)) = Inr b \<and>
     HandleJoinChannel example_env (example_world [example_player 1 ''Bob'' LANG_UNIVERSAL] [])
       (example_player 1 ''Bob'' LANG_UNIVERSAL) b example_chat =
     Inr (join_channel example_env (example_world [example_player 1 ''Bob'' LANG_UNIVERSAL] [])
       (example_player 1 ''Bob'' LANG_UNIVERSAL) 0 ''world'' ''pw'' example_chat)"
proof -
  have "0 \<notin> set (string_bytes ''world'')" "0 \<notin> set (string_bytes ''pw'')"
    by (simp_all add: string_bytes_def byte_of_char_def)
  from join_request_crosses_wire [OF this] show ?thesis by fastforce
qed

end
